(* ===== verification/PyValue.thy ===== *)
theory PyValue
  imports Complex_Main "HOL-Library.AList" "HOL-Library.Char_ord"
    "HOL-Library.List_Lexorder" "HOL-Library.Product_Lexorder" "HOL-Library.Multiset"
begin

text \<open>
  The prelude: the Python values the modelled modules exchange (JSON-like values), the string,
  dictionary and conversion operations of the language they use, and the lemmas and
  \<open>named_theorems\<close> the component theories share.

  Conventions. A Python \<open>dict\<close> with string keys is an ordered association list
  (\<open>pydict\<close>): reading is \<open>map_of\<close>, assignment is \<open>AList.update\<close>, which replaces in place
  or appends, as Python does. \<open>dict.get(k)\<close> is \<open>dget d k\<close>, whose missing key is \<open>PNone\<close>.
  Strings are character lists; the text operations (\<open>strip\<close>, \<open>split\<close>, \<open>casefold\<close>, \<open>repr\<close>) are
  those of Python on ASCII text. A finite float is its exact value with its \<open>repr\<close> text
  (\<open>PFloat\<close>); NaN and the infinities are left out. A raised exception is a value of \<open>pyexc\<close> on
  the left of a sum.
\<close>

named_theorems py_defs "unfolding of the small accessors of the modelled modules"

section \<open>Values\<close>

datatype pyval =
    PNone
  | PBool bool
  | PInt int
  | PFloat rat string
  | PStr string
  | PList "pyval list"
  | PDict "(string \<times> pyval) list"

type_synonym pydict = "(string \<times> pyval) list"

datatype pyexc = TypeError | ValueError | RuntimeError | OverflowError | KeyError | IndexError | IntegrityError | AttributeError

type_synonym 'a result = "pyexc + 'a"

fun truthy :: "pyval \<Rightarrow> bool" where
  "truthy PNone = False"
| "truthy (PBool b) = b"
| "truthy (PInt i) = (i \<noteq> 0)"
| "truthy (PFloat q _) = (q \<noteq> 0)"
| "truthy (PStr s) = (s \<noteq> [])"
| "truthy (PList xs) = (xs \<noteq> [])"
| "truthy (PDict d) = (d \<noteq> [])"

text \<open>Python's \<open>a or b\<close>.\<close>

definition py_or :: "pyval \<Rightarrow> pyval \<Rightarrow> pyval" where
  "py_or a b = (if truthy a then a else b)"

fun is_mapping :: "pyval \<Rightarrow> bool" where
  "is_mapping (PDict _) = True"
| "is_mapping _ = False"

text \<open>\<open>value if isinstance(value, Mapping) else {}\<close> and the same for lists.\<close>

fun as_mapping :: "pyval \<Rightarrow> pydict" where
  "as_mapping (PDict d) = d"
| "as_mapping _ = []"

fun as_list :: "pyval \<Rightarrow> pyval list" where
  "as_list (PList xs) = xs"
| "as_list _ = []"

fun is_list :: "pyval \<Rightarrow> bool" where
  "is_list (PList _) = True"
| "is_list _ = False"

text \<open>\<open>[item for item in xs if isinstance(item, Mapping)]\<close>\<close>

definition mappings :: "pyval list \<Rightarrow> pydict list" where
  "mappings xs = [as_mapping x. x \<leftarrow> xs, is_mapping x]"

text \<open>
  \<open>a == b\<close>: booleans, integers and floats compare by value; everything else structurally
  (the code only compares against scalars).
\<close>

fun py_number :: "pyval \<Rightarrow> rat option" where
  "py_number (PBool b) = Some (if b then 1 else 0)"
| "py_number (PInt i) = Some (of_int i)"
| "py_number (PFloat q _) = Some q"
| "py_number _ = None"

definition py_eq :: "pyval \<Rightarrow> pyval \<Rightarrow> bool" where
  "py_eq a b \<longleftrightarrow> (case (py_number a, py_number b) of
      (Some x, Some y) \<Rightarrow> x = y
    | (None, None) \<Rightarrow> a = b
    | _ \<Rightarrow> False)"

text \<open>
  \<open>for x in value or []\<close>: a string iterates over its characters, a dictionary over its keys, and
  a truthy number or boolean raises.
\<close>

fun iter_or_empty :: "pyval \<Rightarrow> pyval list result" where
  "iter_or_empty (PList xs) = Inr xs"
| "iter_or_empty (PStr s) = Inr (map (\<lambda>c. PStr [c]) s)"
| "iter_or_empty (PDict d) = Inr (map (\<lambda>(k, _). PStr k) d)"
| "iter_or_empty v = (if truthy v then Inl TypeError else Inr [])"

text \<open>\<open>for item in value\<close>, without the empty default.\<close>

fun py_iter :: "pyval \<Rightarrow> pyval list option" where
  "py_iter (PList xs) = Some xs"
| "py_iter (PStr s) = Some (map (\<lambda>c. PStr [c]) s)"
| "py_iter (PDict d) = Some (map (\<lambda>(k, _). PStr k) d)"
| "py_iter _ = None"

section \<open>Strings\<close>

definition is_space :: "char \<Rightarrow> bool" where
  "is_space c \<longleftrightarrow> (let n = of_char c :: nat in (9 \<le> n \<and> n \<le> 13) \<or> (28 \<le> n \<and> n \<le> 32))"

text \<open>\<open>str.isalnum\<close> of one ASCII character.\<close>

definition is_alnum :: "char \<Rightarrow> bool" where
  "is_alnum c \<longleftrightarrow> (let n = of_char c :: nat in 48 \<le> n \<and> n \<le> 57 \<or> 65 \<le> n \<and> n \<le> 90 \<or> 97 \<le> n \<and> n \<le> 122)"

definition py_strip :: "string \<Rightarrow> string" where
  "py_strip s = rev (dropWhile is_space (rev (dropWhile is_space s)))"

text \<open>\<open>str.split()\<close> without an argument: the maximal runs of non-space characters.\<close>

fun words_acc :: "string \<Rightarrow> string \<Rightarrow> string list" where
  "words_acc acc [] = (if acc = [] then [] else [rev acc])"
| "words_acc acc (c # cs) =
     (if is_space c then (if acc = [] then words_acc [] cs else rev acc # words_acc [] cs)
      else words_acc (c # acc) cs)"

definition py_split :: "string \<Rightarrow> string list" where
  "py_split s = words_acc [] s"

fun py_join :: "string \<Rightarrow> string list \<Rightarrow> string" where
  "py_join sep [] = []"
| "py_join sep [x] = x"
| "py_join sep (x # y # ys) = x @ sep @ py_join sep (y # ys)"

definition char_lower :: "char \<Rightarrow> char" where
  "char_lower c = (let n = of_char c :: nat in if 65 \<le> n \<and> n \<le> 90 then char_of (n + 32) else c)"

text \<open>\<open>lower()\<close> and \<open>casefold()\<close> agree on ASCII.\<close>

definition py_lower :: "string \<Rightarrow> string" where
  "py_lower s = map char_lower s"

definition py_startswith :: "string \<Rightarrow> string \<Rightarrow> bool" where
  "py_startswith s p \<longleftrightarrow> take (length p) s = p"

fun py_contains :: "string \<Rightarrow> string \<Rightarrow> bool" where
  "py_contains p [] \<longleftrightarrow> p = []"
| "py_contains p (c # cs) \<longleftrightarrow> py_startswith (c # cs) p \<or> py_contains p cs"

text \<open>\<open>str.replace\<close> with one-character arguments, everywhere and at the first place only.\<close>

definition py_replace_char :: "char \<Rightarrow> char \<Rightarrow> string \<Rightarrow> string" where
  "py_replace_char a b s = map (\<lambda>c. if c = a then b else c) s"

fun py_replace_first :: "char \<Rightarrow> char \<Rightarrow> string \<Rightarrow> string" where
  "py_replace_first a b [] = []"
| "py_replace_first a b (c # cs) = (if c = a then b # cs else c # py_replace_first a b cs)"

text \<open>\<open>sorted(set(xs))\<close> of strings: code point order, no duplicates.\<close>

definition sorted_set :: "string list \<Rightarrow> string list" where
  "sorted_set xs = sort (remdups xs)"

fun show_nat :: "nat \<Rightarrow> string" where
  "show_nat n = (if n < 10 then [char_of (48 + n)] else show_nat (n div 10) @ [char_of (48 + n mod 10)])"

declare show_nat.simps [simp del]

definition show_int :: "int \<Rightarrow> string" where
  "show_int i = (if i < 0 then CHR ''-'' # show_nat (nat (- i)) else show_nat (nat i))"

definition hex_digit :: "nat \<Rightarrow> char" where
  "hex_digit n = (if n < 10 then char_of (48 + n) else char_of (87 + n))"

text \<open>\<open>repr\<close> of a string: single quotes unless the text has one and no double quote.\<close>

definition repr_char :: "char \<Rightarrow> char \<Rightarrow> string" where
  "repr_char q c =
     (let n = of_char c :: nat in
      if c = q \<or> c = CHR 0x5C then [CHR 0x5C, c]
      else if n = 9 then [CHR 0x5C, CHR ''t'']
      else if n = 10 then [CHR 0x5C, CHR ''n'']
      else if n = 13 then [CHR 0x5C, CHR ''r'']
      else if n < 32 \<or> 127 \<le> n then [CHR 0x5C, CHR ''x'', hex_digit (n div 16), hex_digit (n mod 16)]
      else [c])"

definition repr_str :: "string \<Rightarrow> string" where
  "repr_str s =
     (let q = (if CHR 0x27 \<in> set s \<and> CHR 0x22 \<notin> set s then CHR 0x22 else CHR 0x27)
      in [q] @ concat (map (repr_char q) s) @ [q])"

fun py_repr :: "pyval \<Rightarrow> string"
  and py_repr_list :: "pyval list \<Rightarrow> string list"
  and py_repr_items :: "(string \<times> pyval) list \<Rightarrow> string list" where
  "py_repr PNone = ''None''"
| "py_repr (PBool b) = (if b then ''True'' else ''False'')"
| "py_repr (PInt i) = show_int i"
| "py_repr (PFloat _ r) = r"
| "py_repr (PStr s) = repr_str s"
| "py_repr (PList xs) = ''['' @ py_join '', '' (py_repr_list xs) @ '']''"
| "py_repr (PDict d) = ''{'' @ py_join '', '' (py_repr_items d) @ ''}''"
| "py_repr_list [] = []"
| "py_repr_list (x # xs) = py_repr x # py_repr_list xs"
| "py_repr_items [] = []"
| "py_repr_items ((k, v) # d) = (repr_str k @ '': '' @ py_repr v) # py_repr_items d"

text \<open>\<open>str(value)\<close>\<close>

fun py_str :: "pyval \<Rightarrow> string" where
  "py_str (PStr s) = s"
| "py_str v = py_repr v"

text \<open>
  The two \<open>_text\<close> helpers that nearly every module defines:
  \<^verbatim>\<open>" ".join(str(value or "").strip().split())\<close> and \<^verbatim>\<open>str(value or "").strip()\<close>.
\<close>

definition norm_text :: "pyval \<Rightarrow> string" where
  "norm_text v = py_join '' '' (py_split (py_strip (py_str (py_or v (PStr [])))))"

definition strip_text :: "pyval \<Rightarrow> string" where
  "strip_text v = py_strip (py_str (py_or v (PStr [])))"

section \<open>Conversion to integers\<close>

definition is_digit :: "char \<Rightarrow> bool" where
  "is_digit c \<longleftrightarrow> (let n = of_char c :: nat in 48 \<le> n \<and> n \<le> 57)"

definition digit_val :: "char \<Rightarrow> int" where
  "digit_val c = of_char c - 48"

text \<open>Digits with single underscores between them, as \<open>int(str)\<close> accepts.\<close>

fun parse_digits :: "int \<Rightarrow> string \<Rightarrow> int option" where
  "parse_digits acc [] = Some acc"
| "parse_digits acc (c # cs) =
     (if is_digit c then parse_digits (acc * 10 + digit_val c) cs
      else case cs of
             d # ds \<Rightarrow> if c = CHR ''_'' \<and> is_digit d then parse_digits (acc * 10 + digit_val d) ds else None
           | [] \<Rightarrow> None)"

definition parse_nat :: "string \<Rightarrow> int option" where
  "parse_nat s = (case s of c # cs \<Rightarrow> if is_digit c then parse_digits (digit_val c) cs else None | [] \<Rightarrow> None)"

definition parse_int :: "string \<Rightarrow> int option" where
  "parse_int s =
     (case py_strip s of
        c # cs \<Rightarrow> if c = CHR ''-'' then map_option uminus (parse_nat cs)
                  else if c = CHR ''+'' then parse_nat cs else parse_nat (c # cs)
      | [] \<Rightarrow> None)"

text \<open>\<open>int(value)\<close>: floats truncate toward zero; other types raise.\<close>

fun py_int :: "pyval \<Rightarrow> int result" where
  "py_int (PInt i) = Inr i"
| "py_int (PBool b) = Inr (if b then 1 else 0)"
| "py_int (PFloat q _) = Inr (if q < 0 then - \<lfloor>- q\<rfloor> else \<lfloor>q\<rfloor>)"
| "py_int (PStr s) = (case parse_int s of Some i \<Rightarrow> Inr i | None \<Rightarrow> Inl ValueError)"
| "py_int PNone = Inl TypeError"
| "py_int (PList _) = Inl TypeError"
| "py_int (PDict _) = Inl TypeError"

text \<open>\<^verbatim>\<open>try: return int(value) except (TypeError, ValueError): return default\<close>\<close>

definition int_or :: "pyval \<Rightarrow> int \<Rightarrow> int" where
  "int_or v v0 = (case py_int v of Inr i \<Rightarrow> i | Inl _ \<Rightarrow> v0)"

text \<open>The lenient boolean reader \<open>_bool\<close> of the continuation modules.\<close>

fun lenient_bool :: "pyval \<Rightarrow> bool" where
  "lenient_bool (PBool b) = b"
| "lenient_bool (PStr s) = (py_lower (py_strip s) \<in> {''1'', ''true'', ''yes'', ''on''})"
| "lenient_bool v = truthy v"

text \<open>A pass in the exception monad: the first exception ends the loop.\<close>

fun map_result :: "('a \<Rightarrow> 'e + 'b) \<Rightarrow> 'a list \<Rightarrow> 'e + 'b list" where
  "map_result f [] = Inr []"
| "map_result f (x # xs) =
     (case f x of Inl e \<Rightarrow> Inl e
      | Inr y \<Rightarrow> (case map_result f xs of Inl e \<Rightarrow> Inl e | Inr ys \<Rightarrow> Inr (y # ys)))"

section \<open>Dictionaries\<close>

definition dget :: "pydict \<Rightarrow> string \<Rightarrow> pyval" where
  "dget d k = (case map_of d k of Some v \<Rightarrow> v | None \<Rightarrow> PNone)"

definition dget_default :: "pydict \<Rightarrow> string \<Rightarrow> pyval \<Rightarrow> pyval" where
  "dget_default d k v0 = (case map_of d k of Some v \<Rightarrow> v | None \<Rightarrow> v0)"

definition dhas :: "pydict \<Rightarrow> string \<Rightarrow> bool" where
  "dhas d k \<longleftrightarrow> map_of d k \<noteq> None"

definition dset :: "string \<Rightarrow> pyval \<Rightarrow> pydict \<Rightarrow> pydict" where
  "dset k v d = AList.update k v d"

text \<open>\<open>d.update(e)\<close>, item by item in \<open>e\<close>'s order.\<close>

fun dupdate :: "pydict \<Rightarrow> pydict \<Rightarrow> pydict" where
  "dupdate d [] = d"
| "dupdate d ((k, v) # e) = dupdate (dset k v d) e"

definition dpop :: "string \<Rightarrow> pydict \<Rightarrow> pydict" where
  "dpop k d = AList.delete k d"

text \<open>\<open>d.setdefault(k, v)\<close>\<close>

definition dsetdefault :: "string \<Rightarrow> pyval \<Rightarrow> pydict \<Rightarrow> pydict" where
  "dsetdefault k v d = (if dhas d k then d else dset k v d)"

section \<open>Lemmas on dictionaries\<close>

text \<open>
  The contract of a keyed store that the rewriting passes rely on: a write is read back, and
  other keys are not touched. The ordered dictionary provides it.
\<close>

locale keyed_store =
  fixes get :: "'d \<Rightarrow> 'k \<Rightarrow> 'v"
    and put :: "'k \<Rightarrow> 'v \<Rightarrow> 'd \<Rightarrow> 'd"
  assumes get_put_same: "get (put k v d) k = v"
    and get_put_other: "k \<noteq> k' \<Longrightarrow> get (put k v d) k' = get d k'"
begin

lemma get_put: "get (put k v d) k' = (if k = k' then v else get d k')"
  by (simp add: get_put_same get_put_other)

lemma get_fold_put_frame:
  "k \<notin> set (map fst kvs) \<Longrightarrow> get (fold (\<lambda>(x, v). put x v) kvs d) k = get d k"
  by (induction kvs arbitrary: d) (auto simp: get_put split: prod.splits)

lemma get_fold_put_last:
  "distinct (map fst kvs) \<Longrightarrow> (k, v) \<in> set kvs \<Longrightarrow> get (fold (\<lambda>(x, v). put x v) kvs d) k = v"
proof (induction kvs arbitrary: d)
  case Nil
  then show ?case by simp
next
  case (Cons p kvs)
  obtain x w where p: "p = (x, w)" by fastforce
  show ?case
  proof (cases "(k, v) \<in> set kvs")
    case True
    with Cons show ?thesis by (simp add: p)
  next
    case False
    with Cons.prems have "x = k" "w = v" "k \<notin> set (map fst kvs)" by (auto simp: p)
    then show ?thesis by (simp add: p get_fold_put_frame get_put_same)
  qed
qed

end

lemma dget_Nil [simp]: "dget [] k = PNone"
  by (simp add: dget_def)

lemma dget_Cons [simp]: "dget ((k, v) # d) k' = (if k = k' then v else dget d k')"
  by (simp add: dget_def)

lemma dget_default_Nil [simp]: "dget_default [] k v = v"
  by (simp add: dget_default_def)

lemma dget_default_Cons [simp]:
  "dget_default ((k, v) # d) k' v0 = (if k = k' then v else dget_default d k' v0)"
  by (simp add: dget_default_def)

lemma dhas_Nil [simp]: "\<not> dhas [] k"
  by (simp add: dhas_def)

lemma dhas_Cons [simp]: "dhas ((k, v) # d) k' \<longleftrightarrow> k = k' \<or> dhas d k'"
  by (simp add: dhas_def)

lemma map_of_dset: "map_of (dset k v d) = (map_of d)(k \<mapsto> v)"
  by (simp add: dset_def update_conv')

lemma dget_dset [simp]: "dget (dset k v d) k' = (if k = k' then v else dget d k')"
  by (simp add: dget_def map_of_dset)

lemma dhas_dset [simp]: "dhas (dset k v d) k' \<longleftrightarrow> k = k' \<or> dhas d k'"
  by (simp add: dhas_def map_of_dset)

interpretation pd: keyed_store dget dset
  by unfold_locales simp_all

lemma dupdate_fold: "dupdate d e = fold (\<lambda>(k, v). dset k v) e d"
  by (induction d e rule: dupdate.induct) simp_all

lemma dget_dupdate_frame: "k \<notin> set (map fst e) \<Longrightarrow> dget (dupdate d e) k = dget d k"
  unfolding dupdate_fold by (rule pd.get_fold_put_frame)

lemma dget_dupdate_in:
  "distinct (map fst e) \<Longrightarrow> (k, v) \<in> set e \<Longrightarrow> dget (dupdate d e) k = v"
  unfolding dupdate_fold by (rule pd.get_fold_put_last)

lemma dget_in: "distinct (map fst d) \<Longrightarrow> (k, v) \<in> set d \<Longrightarrow> dget d k = v"
  by (simp add: dget_def)

lemma map_of_map_default:
  "map_of (AList.map_default k v f al) k' =
     (if k = k' then Some (case map_of al k of None \<Rightarrow> v | Some x \<Rightarrow> f x) else map_of al k')"
  by (induction al) auto

lemma map_of_dpop: "map_of (dpop k d) = (map_of d)(k := None)"
  by (simp add: dpop_def delete_conv')

lemma dget_dpop [simp]: "dget (dpop k d) k' = (if k = k' then PNone else dget d k')"
  by (simp add: dget_def map_of_dpop)

lemma dget_dsetdefault:
  "dget (dsetdefault k v d) k' = (if k = k' \<and> \<not> dhas d k then v else dget d k')"
  by (simp add: dsetdefault_def)

lemma distinct_keys_dset: "distinct (map fst d) \<Longrightarrow> distinct (map fst (dset k v d))"
  by (simp add: dset_def distinct_update)

lemma distinct_keys_dupdate: "distinct (map fst d) \<Longrightarrow> distinct (map fst (dupdate d e))"
  by (induction d e rule: dupdate.induct) (simp_all add: distinct_keys_dset)

section \<open>Lemmas on values, text and sorting\<close>

lemma find_append:
  "List.find P (xs @ ys) = (case List.find P xs of Some x \<Rightarrow> Some x | None \<Rightarrow> List.find P ys)"
  by (induction xs) simp_all

lemma truthy_py_or [simp]: "truthy (py_or a b) \<longleftrightarrow> truthy a \<or> truthy b"
  by (simp add: py_or_def)

lemma py_or_simps [simp]:
  "py_or PNone b = b" "py_or (PStr []) b = b" "py_or (PStr (c # cs)) b = PStr (c # cs)"
  "py_or (PBool False) b = b" "py_or (PBool True) b = PBool True"
  "py_or (PList []) b = b" "py_or (PDict []) b = b" "py_or (PInt 0) b = b"
  by (simp_all add: py_or_def)

lemma py_eq_refl [simp]: "py_eq a a"
  by (cases "py_number a") (simp_all add: py_eq_def)

lemma is_mapping_iff: "is_mapping v \<longleftrightarrow> (\<exists>d. v = PDict d)"
  by (cases v) simp_all

lemma mappings_Nil [simp]: "mappings [] = []"
  by (simp add: mappings_def)

lemma mappings_Cons [simp]:
  "mappings (x # xs) = (if is_mapping x then as_mapping x # mappings xs else mappings xs)"
  by (simp add: mappings_def)

lemma mappings_PDict [simp]: "mappings (map PDict ds) = ds"
  by (induction ds) simp_all

lemma mappings_comp_PDict [simp]: "mappings (map (PDict \<circ> f) xs) = map f xs"
  by (induction xs) simp_all

definition is_word :: "string \<Rightarrow> bool" where
  "is_word w \<longleftrightarrow> w \<noteq> [] \<and> list_all (\<lambda>c. \<not> is_space c) w"

lemma is_word_rev: "is_word (rev acc) \<longleftrightarrow> acc \<noteq> [] \<and> list_all (\<lambda>c. \<not> is_space c) acc"
  by (simp add: is_word_def list_all_iff)

lemma words_acc_no_space:
  "list_all (\<lambda>c. \<not> is_space c) acc \<Longrightarrow> list_all is_word (words_acc acc s)"
proof (induction s arbitrary: acc)
  case Nil
  then show ?case by (simp add: is_word_rev)
next
  case (Cons c s)
  show ?case
  proof (cases "is_space c")
    case True
    have "list_all is_word (words_acc [] s)" by (rule Cons.IH) simp
    with True Cons.prems show ?thesis by (simp add: is_word_rev)
  next
    case False
    then have "list_all is_word (words_acc (c # acc) s)" using Cons.prems by (intro Cons.IH) simp
    with False show ?thesis by simp
  qed
qed

lemma words_acc_word: "\<forall>c \<in> set s. \<not> is_space c \<Longrightarrow>
    words_acc acc s = (if acc = [] \<and> s = [] then [] else [rev acc @ s])"
  by (induction acc s rule: words_acc.induct) auto

lemma words_acc_sep: "\<forall>c \<in> set w. \<not> is_space c \<Longrightarrow> is_space x \<Longrightarrow> acc \<noteq> [] \<or> w \<noteq> [] \<Longrightarrow>
    words_acc acc (w @ x # s) = (rev acc @ w) # words_acc [] s"
  by (induction w arbitrary: acc) auto

lemma py_split_join:
  "list_all is_word ws \<Longrightarrow> py_split (py_join '' '' ws) = ws"
proof (induction "'' ''" ws rule: py_join.induct)
  case (3 x y ys)
  have sp: "is_space (CHR '' '')" by (simp add: is_space_def)
  from 3 show ?case by (simp add: py_split_def words_acc_sep sp is_word_def list_all_iff)
qed (auto simp: py_split_def words_acc_word is_word_def list_all_iff)

lemma py_split_words: "list_all is_word (py_split s)"
  by (simp add: py_split_def words_acc_no_space)

text \<open>Normalising a text twice changes nothing.\<close>

lemma dropWhile_none: "(\<And>x. x \<in> set xs \<Longrightarrow> \<not> P x) \<Longrightarrow> dropWhile P xs = xs"
  by (cases xs) auto

lemma py_strip_hd: "py_strip s = c # cs \<Longrightarrow> \<not> is_space c"
proof -
  assume a: "py_strip s = c # cs"
  let ?t = "dropWhile is_space s"
  have "\<exists>u. ?t = py_strip s @ u"
    unfolding py_strip_def by (metis rev_append rev_rev_ident takeWhile_dropWhile_id)
  with a obtain u where "?t = c # cs @ u" by auto
  then show "\<not> is_space c" by (metis dropWhile_eq_Cons_conv)
qed

lemma py_strip_last: "py_strip s \<noteq> [] \<Longrightarrow> \<not> is_space (last (py_strip s))"
  by (simp add: py_strip_def last_rev hd_dropWhile)

lemma py_strip_idem_if:
  assumes "s \<noteq> [] \<Longrightarrow> \<not> is_space (hd s)" and "s \<noteq> [] \<Longrightarrow> \<not> is_space (last s)"
  shows "py_strip s = s"
proof (cases s)
  case Nil
  then show ?thesis by (simp add: py_strip_def)
next
  case (Cons c cs)
  with assms(1) have d: "dropWhile is_space s = s" by simp
  have "\<not> is_space (hd (rev s))" using assms(2) Cons by (simp only: hd_rev) simp
  then have "dropWhile is_space (rev s) = rev s" by (cases "rev s") auto
  with d show ?thesis by (simp add: py_strip_def)
qed

lemma py_strip_idem [simp]: "py_strip (py_strip s) = py_strip s"
proof (rule py_strip_idem_if)
  assume "py_strip s \<noteq> []"
  then obtain c cs where "py_strip s = c # cs" by (cases "py_strip s") auto
  then show "\<not> is_space (hd (py_strip s))" using py_strip_hd by simp
qed (rule py_strip_last)

lemma strip_text_PStr: "strip_text (PStr s) = py_strip s"
  by (cases s) (simp_all add: strip_text_def)

lemma strip_text_idem [simp]: "strip_text (PStr (strip_text v)) = strip_text v"
  by (simp add: strip_text_PStr) (simp add: strip_text_def)

lemma strip_text_PNone [simp]: "strip_text PNone = []"
  by (simp add: strip_text_def py_strip_def)

lemma norm_text_PNone [simp]: "norm_text PNone = []"
  by (simp add: norm_text_def py_strip_def py_split_def)

lemma norm_text_Nil [simp]: "norm_text (PStr []) = []"
  by (simp add: norm_text_def py_strip_def py_split_def)

lemma join_words_ends:
  "list_all is_word ws \<Longrightarrow> ws \<noteq> [] \<Longrightarrow>
     py_join '' '' ws \<noteq> [] \<and> \<not> is_space (hd (py_join '' '' ws)) \<and> \<not> is_space (last (py_join '' '' ws))"
proof (induction "'' ''" ws rule: py_join.induct)
  case (2 x)
  then show ?case by (simp add: is_word_def list_all_iff)
next
  case (3 x y ys)
  then have "is_word x" and IH: "py_join '' '' (y # ys) \<noteq> []" "\<not> is_space (last (py_join '' '' (y # ys)))"
    by simp_all
  then show ?case by (cases x) (auto simp: is_word_def)
qed simp

lemma norm_text_idem [simp]: "norm_text (PStr (norm_text v)) = norm_text v"
proof -
  define ws where "ws = py_split (py_strip (py_str (py_or v (PStr []))))"
  have n: "norm_text v = py_join '' '' ws" by (simp add: norm_text_def ws_def)
  have w: "list_all is_word ws" by (simp add: ws_def py_split_words)
  have "py_strip (py_join '' '' ws) = py_join '' '' ws"
    using join_words_ends [OF w] by (intro py_strip_idem_if) (cases "ws = []"; simp)+
  moreover have "py_str (py_or (PStr s) (PStr [])) = s" for s by (cases s) simp_all
  ultimately show ?thesis
    unfolding n norm_text_def [of "PStr (py_join '' '' ws)"] by (simp add: py_split_join [OF w])
qed

text \<open>Evaluating the text operations on a literal word.\<close>

named_theorems text_eval "evaluation of the text operations on literals"

lemma norm_text_word: "is_word s \<Longrightarrow> norm_text (PStr s) = s"
proof -
  assume w: "is_word s"
  have "py_strip s = s" using w by (intro py_strip_idem_if) (auto simp: is_word_def list_all_iff)
  moreover have "py_str (py_or (PStr s) (PStr [])) = s" by (cases s) simp_all
  moreover have "py_split s = [s]" using py_split_join [of "[s]"] w by simp
  ultimately show ?thesis by (simp add: norm_text_def)
qed

lemma strip_text_word: "is_word s \<Longrightarrow> strip_text (PStr s) = s"
  by (simp add: strip_text_PStr, rule py_strip_idem_if) (auto simp: is_word_def list_all_iff)

lemmas [text_eval] = norm_text_word strip_text_word is_word_def is_space_def

lemma set_sorted_set [simp]: "set (sorted_set xs) = set xs"
  by (simp add: sorted_set_def)

lemma sorted_sorted_set: "sorted (sorted_set xs)"
  by (simp add: sorted_set_def)

lemma distinct_sorted_set: "distinct (sorted_set xs)"
  by (simp add: sorted_set_def)

lemma sorted_set_cong: "set xs = set ys \<Longrightarrow> sorted_set xs = sorted_set ys"
  by (rule sorted_distinct_set_unique) (simp_all add: sorted_sorted_set distinct_sorted_set)

lemma sorted_set_Nil_iff [simp]: "sorted_set xs = [] \<longleftrightarrow> xs = []"
  by (metis set_empty set_sorted_set)

lemma mset_sort_key [simp]: "mset (sort_key f xs) = mset xs"
  by simp

lemma map_result_Inr:
  "map_result f xs = Inr ys \<Longrightarrow> length ys = length xs \<and> (\<forall>i < length xs. f (xs ! i) = Inr (ys ! i))"
proof (induction xs arbitrary: ys)
  case (Cons x xs)
  then show ?case by (force split: sum.splits simp: nth_Cons split: nat.splits)
qed simp

lemma map_result_all: "map_result f xs = Inr ys \<Longrightarrow> x \<in> set xs \<Longrightarrow> \<exists>y. f x = Inr y"
  by (induction xs arbitrary: ys) (auto split: sum.splits)

lemma map_result_total: "(\<And>x. x \<in> set xs \<Longrightarrow> f x = Inr (g x)) \<Longrightarrow> map_result f xs = Inr (map g xs)"
  by (induction xs) auto

section \<open>Integers and their text\<close>

lemma parse_digits_foldl:
  "list_all is_digit s \<Longrightarrow> parse_digits acc s = Some (foldl (\<lambda>a c. a * 10 + digit_val c) acc s)"
  by (induction s arbitrary: acc) simp_all

lemma of_char_digit: "n < 10 \<Longrightarrow> (of_char (char_of (48 + n :: nat) :: char) :: nat) = 48 + n"
  by simp

lemma digit_char [simp]:
  assumes "n < (10 :: nat)"
  shows "is_digit (char_of (48 + n))" "digit_val (char_of (48 + n)) = int n" "\<not> is_space (char_of (48 + n))"
proof -
  have o: "of_char (char_of (48 + n) :: char) = 48 + n" using assms by simp
  have "(of_char (char_of (48 + n) :: char) :: int) = int (of_char (char_of (48 + n) :: char))"
    by (simp only: of_nat_of_char)
  then have "(of_char (char_of (48 + n) :: char) :: int) = int (48 + n)" unfolding o .
  then show "digit_val (char_of (48 + n)) = int n" by (simp add: digit_val_def)
  show "is_digit (char_of (48 + n))" "\<not> is_space (char_of (48 + n))"
    unfolding is_digit_def is_space_def Let_def o using assms by simp_all
qed

lemma show_nat_digits:
  "list_all (\<lambda>c. is_digit c \<and> \<not> is_space c) (show_nat n) \<and> show_nat n \<noteq> [] \<and>
     foldl (\<lambda>a c. a * 10 + digit_val c) 0 (show_nat n) = int n"
proof (induction n rule: show_nat.induct)
  case (1 n)
  show ?case
  proof (cases "n < 10")
    case True
    then show ?thesis by (simp add: show_nat.simps [of n])
  next
    case False
    have "n mod 10 < 10" by simp
    note d = digit_char [OF this]
    have e: "show_nat n = show_nat (n div 10) @ [char_of (48 + n mod 10)]" using False by (simp add: show_nat.simps [of n])
    have "int (n div 10) * 10 + int (n mod 10) = int n"
      by (metis div_mult_mod_eq of_nat_add of_nat_mult of_nat_numeral)
    then show ?thesis using 1 [OF False] d unfolding e by simp
  qed
qed

lemma show_nat_no_space: "\<forall>c \<in> set (show_nat n). \<not> is_space c"
  using show_nat_digits [of n] by (auto simp: list_all_iff)

lemma parse_nat_show: "parse_nat (show_nat n) = Some (int n)"
proof -
  obtain c cs where s: "show_nat n = c # cs" using show_nat_digits [of n] by (cases "show_nat n") auto
  with show_nat_digits [of n] have "is_digit c" "list_all is_digit cs"
    "foldl (\<lambda>a c. a * 10 + digit_val c) (digit_val c) cs = int n" by (auto simp: list_all_iff)
  then show ?thesis by (simp add: parse_nat_def s parse_digits_foldl)
qed

lemma strip_no_space: "\<forall>c \<in> set s. \<not> is_space c \<Longrightarrow> py_strip s = s"
  by (rule py_strip_idem_if) auto

lemma show_int_no_space: "\<forall>c \<in> set (show_int i). \<not> is_space c"
  using show_nat_no_space by (auto simp: show_int_def is_space_def)

lemma parse_int_show_int [simp]: "parse_int (show_int i) = Some i"
proof (cases "i < 0")
  case True
  then have "show_int i = CHR ''-'' # show_nat (nat (- i))" by (simp add: show_int_def)
  moreover from this have "py_strip (show_int i) = show_int i" using strip_no_space [OF show_int_no_space] by blast
  ultimately show ?thesis using True by (simp add: parse_int_def parse_nat_show)
next
  case False
  then have e: "show_int i = show_nat (nat i)" by (simp add: show_int_def)
  obtain c cs where s: "show_nat (nat i) = c # cs" using show_nat_digits [of "nat i"] by (cases "show_nat (nat i)") auto
  have "is_digit c" using show_nat_digits [of "nat i"] by (simp add: s)
  then have "c \<noteq> CHR ''-''" "c \<noteq> CHR ''+''" by (auto simp: is_digit_def)
  moreover have "py_strip (show_int i) = c # cs"
    using strip_no_space [OF show_int_no_space, of i] by (simp add: e s)
  moreover have "parse_nat (c # cs) = Some i" using parse_nat_show [of "nat i"] False by (simp add: s)
  ultimately show ?thesis by (simp add: parse_int_def)
qed

lemma show_int_inj [simp]: "show_int i = show_int j \<longleftrightarrow> i = j"
  by (metis option.inject parse_int_show_int)

text \<open>Prefixes and substrings by their rest.\<close>

lemma py_startswith_iff: "py_startswith s p \<longleftrightarrow> (\<exists>r. s = p @ r)"
  unfolding py_startswith_def by (metis append_eq_conv_conj append_take_drop_id)

lemma py_contains_iff: "py_contains p s \<longleftrightarrow> (\<exists>a b. s = a @ p @ b)"
proof (induction p s rule: py_contains.induct)
  case (2 p c cs)
  then show ?case by (auto simp: py_startswith_iff Cons_eq_append_conv)
qed simp

end
