(* ===== verification/PyHash.thy ===== *)
theory PyHash
  imports PyValue "HOL-Library.Word"
begin

text \<open>
  The two standard library services the modules use to derive stable identifiers:
  \<open>json.dumps(value, ensure_ascii=True, sort_keys=True, separators=(",", ":"))\<close> and
  \<open>hashlib.sha256(text.encode("utf-8")).hexdigest()\<close>. SHA-256 is written out over 32-bit words
  (FIPS 180-4), so an identifier of the model is the identifier the code computes; the UTF-8
  bytes of ASCII text are its character codes.
\<close>

unbundle bit_operations_syntax

section \<open>SHA-256\<close>

type_synonym w32 = "32 word"

definition sha_k :: "w32 list" where
  "sha_k =
    [1116352408, 1899447441, 3049323471, 3921009573, 961987163, 1508970993, 2453635748, 2870763221,
     3624381080, 310598401, 607225278, 1426881987, 1925078388, 2162078206, 2614888103, 3248222580,
     3835390401, 4022224774, 264347078, 604807628, 770255983, 1249150122, 1555081692, 1996064986,
     2554220882, 2821834349, 2952996808, 3210313671, 3336571891, 3584528711, 113926993, 338241895,
     666307205, 773529912, 1294757372, 1396182291, 1695183700, 1986661051, 2177026350, 2456956037,
     2730485921, 2820302411, 3259730800, 3345764771, 3516065817, 3600352804, 4094571909, 275423344,
     430227734, 506948616, 659060556, 883997877, 958139571, 1322822218, 1537002063, 1747873779,
     1955562222, 2024104815, 2227730452, 2361852424, 2428436474, 2756734187, 3204031479, 3329325298]"

definition sha_h0 :: "w32 list" where
  "sha_h0 =
    [1779033703, 3144134277, 1013904242, 2773480762, 1359893119, 2600822924, 528734635, 1541459225]"

definition sha_ch :: "w32 \<Rightarrow> w32 \<Rightarrow> w32 \<Rightarrow> w32" where
  "sha_ch x y z = (x AND y) XOR ((NOT x) AND z)"

definition sha_maj :: "w32 \<Rightarrow> w32 \<Rightarrow> w32 \<Rightarrow> w32" where
  "sha_maj x y z = (x AND y) XOR (x AND z) XOR (y AND z)"

definition sha_S0 :: "w32 \<Rightarrow> w32" where
  "sha_S0 x = word_rotr 2 x XOR word_rotr 13 x XOR word_rotr 22 x"

definition sha_S1 :: "w32 \<Rightarrow> w32" where
  "sha_S1 x = word_rotr 6 x XOR word_rotr 11 x XOR word_rotr 25 x"

definition sha_s0 :: "w32 \<Rightarrow> w32" where
  "sha_s0 x = word_rotr 7 x XOR word_rotr 18 x XOR drop_bit 3 x"

definition sha_s1 :: "w32 \<Rightarrow> w32" where
  "sha_s1 x = word_rotr 17 x XOR word_rotr 19 x XOR drop_bit 10 x"

text \<open>The message schedule, newest word first.\<close>

fun sha_extend :: "nat \<Rightarrow> w32 list \<Rightarrow> w32 list" where
  "sha_extend 0 ws = ws"
| "sha_extend (Suc n) ws =
     sha_extend n ((sha_s1 (ws ! 1) + ws ! 6 + sha_s0 (ws ! 14) + ws ! 15) # ws)"

definition sha_schedule :: "w32 list \<Rightarrow> w32 list" where
  "sha_schedule block = rev (sha_extend 48 (rev block))"

fun sha_round :: "w32 \<times> w32 \<Rightarrow> w32 list \<Rightarrow> w32 list" where
  "sha_round (k, w) [a, b, c, d, e, f, g, h] =
     (let t1 = h + sha_S1 e + sha_ch e f g + k + w;
          t2 = sha_S0 a + sha_maj a b c
      in [t1 + t2, a, b, c, d + t1, e, f, g])"
| "sha_round _ st = st"

definition sha_block :: "w32 list \<Rightarrow> w32 list \<Rightarrow> w32 list" where
  "sha_block block hs = map2 (+) hs (fold sha_round (zip sha_k (sha_schedule block)) hs)"

text \<open>Padding to a multiple of 64 bytes with the bit length in the last eight.\<close>

definition be_bytes :: "nat \<Rightarrow> nat \<Rightarrow> nat list" where
  "be_bytes n x = map (\<lambda>i. x div 256 ^ i mod 256) (rev [0..<n])"

definition sha_pad :: "nat list \<Rightarrow> nat list" where
  "sha_pad bytes =
     bytes @ [128] @ replicate ((119 - length bytes mod 64) mod 64) 0 @ be_bytes 8 (8 * length bytes)"

fun be_words :: "nat list \<Rightarrow> w32 list" where
  "be_words (a # b # c # d # bs) = word_of_nat (((a * 256 + b) * 256 + c) * 256 + d) # be_words bs"
| "be_words _ = []"

function sha_blocks :: "w32 list \<Rightarrow> w32 list list" where
  "sha_blocks ws = (if ws = [] then [] else take 16 ws # sha_blocks (drop 16 ws))"
  by pat_completeness auto
termination
  by (relation "measure length") auto

declare sha_blocks.simps [simp del]

definition sha256_words :: "string \<Rightarrow> w32 list" where
  "sha256_words s = fold sha_block (sha_blocks (be_words (sha_pad (map of_char s)))) sha_h0"

definition hex_word :: "w32 \<Rightarrow> string" where
  "hex_word w = map (\<lambda>i. hex_digit (unat (drop_bit (4 * i) w AND 15))) (rev [0..<8])"

definition sha256_hex :: "string \<Rightarrow> string" where
  "sha256_hex s = concat (map hex_word (sha256_words s))"

section \<open>JSON text\<close>

definition json_char :: "char \<Rightarrow> string" where
  "json_char c =
     (let n = of_char c :: nat; bs = CHR 0x5C in
      if n = 34 \<or> n = 92 then [bs, c]
      else if n = 10 then [bs, CHR ''n'']
      else if n = 13 then [bs, CHR ''r'']
      else if n = 9 then [bs, CHR ''t'']
      else if n = 8 then [bs, CHR ''b'']
      else if n = 12 then [bs, CHR ''f'']
      else if n < 32 \<or> 126 < n then [bs] @ ''u00'' @ [hex_digit (n div 16), hex_digit (n mod 16)]
      else [c])"

definition json_str :: "string \<Rightarrow> string" where
  "json_str s = [CHR 0x22] @ concat (map json_char s) @ [CHR 0x22]"

text \<open>
  \<open>json.dumps(value, sort_keys=True)\<close> with the item and key separators as arguments;
  \<open>json_dumps\<close> uses the defaults.
\<close>

fun json_text :: "string \<Rightarrow> string \<Rightarrow> pyval \<Rightarrow> string"
  and json_list :: "string \<Rightarrow> string \<Rightarrow> pyval list \<Rightarrow> string list"
  and json_items :: "string \<Rightarrow> string \<Rightarrow> (string \<times> pyval) list \<Rightarrow> (string \<times> string) list" where
  "json_text isep ksep PNone = ''null''"
| "json_text isep ksep (PBool b) = (if b then ''true'' else ''false'')"
| "json_text isep ksep (PInt i) = show_int i"
| "json_text isep ksep (PFloat _ r) = r"
| "json_text isep ksep (PStr s) = json_str s"
| "json_text isep ksep (PList xs) = ''['' @ py_join isep (json_list isep ksep xs) @ '']''"
| "json_text isep ksep (PDict d) =
     ''{'' @ py_join isep (map (\<lambda>(k, t). json_str k @ ksep @ t) (sort_key fst (json_items isep ksep d))) @ ''}''"
| "json_list isep ksep [] = []"
| "json_list isep ksep (x # xs) = json_text isep ksep x # json_list isep ksep xs"
| "json_items isep ksep [] = []"
| "json_items isep ksep ((k, v) # d) = (k, json_text isep ksep v) # json_items isep ksep d"

definition json_dumps :: "pyval \<Rightarrow> string" where
  "json_dumps v = json_text '', '' '': '' v"

section \<open>Shape of the digests\<close>

lemma length_fold_sha_round: "length (fold sha_round kws hs) = length hs"
proof (induction kws arbitrary: hs)
  case (Cons kw kws)
  have "length (sha_round kw hs) = length hs"
    by (cases "(kw, hs)" rule: sha_round.cases) (simp_all add: Let_def)
  with Cons show ?case by simp
qed simp

lemma length_sha256_words: "length (sha256_words s) = 8"
proof -
  have "length hs = 8 \<Longrightarrow> length (fold sha_block bs hs) = 8" for bs hs
    by (induction bs arbitrary: hs) (simp_all add: sha_block_def length_fold_sha_round)
  then show ?thesis by (simp add: sha256_words_def sha_h0_def)
qed

lemma length_sha256_hex [simp]: "length (sha256_hex s) = 64"
proof -
  have "length (concat (map hex_word ws)) = 8 * length ws" for ws
    by (induction ws) (simp_all add: hex_word_def)
  then show ?thesis by (simp add: sha256_hex_def length_sha256_words)
qed

end
