(* ===== verification/EvidenceTrace.thy ===== *)
theory EvidenceTrace
  imports PyHash
begin

text \<open>
  \<open>brainstack/core/trace.py\<close> and the reason-code registry \<open>core/reason_codes.py\<close>: redaction-safe
  evidence candidates, the per-turn evidence trace built from them, its completeness flags and
  its validator. Candidates and traces are the dictionaries of the code.
\<close>

section \<open>Registries\<close>

definition reason_code_values :: "string list" where
  "reason_code_values =
    [''authoritative_memory_evidence'', ''no_supported_memory_truth'', ''only_supporting_context'',
     ''authority_mismatch'', ''scope_mismatch'', ''backend_unavailable'', ''conflicting_truth'',
     ''packet_suppressed'', ''pending_write_barrier'', ''host_mirror_diverged'',
     ''host_parity_unobservable'', ''exact_literal_ambiguous'', ''public_surface_protected'',
     ''selected_authority_match'', ''selected_receipt_backed_fact'', ''selected_cited_corpus'',
     ''dropped_assistant_claim_not_truth_authority'', ''dropped_corrected_false'',
     ''dropped_inspect_only'', ''dropped_support_only_for_answer_truth'', ''dropped_scope_mismatch'',
     ''dropped_budget_overflow'', ''dropped_budget_low_authority'', ''dropped_budget_support_only'',
     ''dropped_budget_duplicate_lower_authority'', ''dropped_budget_stale_transcript'',
     ''selected_budget_protected_authority'', ''selected_budget_within_limit'',
     ''budget_insufficient_for_authority_minimum'',
     ''projection_answer_safe_current_source_backed'', ''projection_missing_source_ref'',
     ''projection_missing_receipt_ref'', ''projection_prior_expired'',
     ''projection_prior_superseded'', ''projection_conflicted'', ''projection_contradiction_only'',
     ''projection_support_only'', ''projection_retrieval_only'', ''projection_hidden_by_policy'',
     ''projection_authority_critical_keep'', ''projection_authority_critical_cannot_drop'',
     ''projection_not_answerable_missing_source'', ''projection_not_answerable_missing_receipt'',
     ''projection_not_answerable_conflicted'', ''projection_not_answerable_support_only'',
     ''projection_not_answerable_prior'', ''projection_not_answerable_hidden'',
     ''demoted_low_authority'', ''deferred_external_runtime_owner'',
     ''no_candidate_for_resolved_memory_target'', ''trace_incomplete'',
     ''raw_private_text_excluded'', ''full_ack_requires_complete_receipt_coverage'',
     ''unclassified'']"

definition is_reason_code :: "pyval \<Rightarrow> bool" where
  "is_reason_code v \<longleftrightarrow> py_str (py_or v (PStr [])) \<in> set reason_code_values"

abbreviation "EVIDENCE_TRACE_SCHEMA \<equiv> ''brainstack.evidence_trace.v1''"
abbreviation "AUTHORITY_DURABLE_TRUTH \<equiv> ''durable_truth''"
abbreviation "AUTHORITY_RECEIPT_BACKED \<equiv> ''receipt_backed''"
abbreviation "AUTHORITY_CITED_CORPUS \<equiv> ''cited_corpus''"
abbreviation "AUTHORITY_SUPPORT_ONLY \<equiv> ''support_only''"
abbreviation "AUTHORITY_INSPECT_ONLY \<equiv> ''inspect_only''"
abbreviation "AUTHORITY_CORRECTED_FALSE \<equiv> ''corrected_false''"
abbreviation "DECISION_SELECTED \<equiv> ''selected''"
abbreviation "DECISION_DROPPED \<equiv> ''dropped''"
abbreviation "DECISION_DEMOTED \<equiv> ''demoted''"

definition PRIVATE_AUTHORITY_CLASSES :: "string set" where
  "PRIVATE_AUTHORITY_CLASSES = {AUTHORITY_SUPPORT_ONLY, AUTHORITY_INSPECT_ONLY, AUTHORITY_CORRECTED_FALSE}"

definition value_fingerprint :: "pyval \<Rightarrow> string" where
  "value_fingerprint v = ''sha256:'' @ sha256_hex (py_str (py_or v (PStr [])))"

section \<open>Candidates\<close>

text \<open>The keyword arguments of \<open>make_evidence_candidate\<close>; \<open>None\<close>-able ones are values.\<close>

record candidate_args =
  ca_candidate_id :: string
  ca_shelf :: string
  ca_source_role :: string
  ca_authority :: string
  ca_decision :: string
  ca_reason_code :: string
  ca_target_slot :: string
  ca_source_event_id :: string
  ca_source_span_id :: string
  ca_capture_plan_id :: pyval
  ca_proposal_id :: pyval
  ca_admission_id :: pyval
  ca_receipt_id :: pyval
  ca_truth_eligible :: bool
  ca_model_facing_allowed :: bool
  ca_answer_evidence_allowed :: bool
  ca_raw_value :: pyval
  ca_redacted_excerpt :: pyval
  ca_token_estimate :: int
  ca_final_rank :: pyval
  ca_supersedes :: "string list"
  ca_corrected_by :: pyval

definition make_evidence_candidate :: "candidate_args \<Rightarrow> pydict" where
  "make_evidence_candidate a =
    [(''candidate_id'', PStr (norm_text (PStr (ca_candidate_id a)))),
     (''source_event_id'', PStr (norm_text (PStr (ca_source_event_id a)))),
     (''source_span_id'', PStr (norm_text (PStr (ca_source_span_id a)))),
     (''capture_plan_id'', ca_capture_plan_id a),
     (''proposal_id'', ca_proposal_id a),
     (''admission_id'', ca_admission_id a),
     (''receipt_id'', ca_receipt_id a),
     (''shelf'', PStr (norm_text (PStr (ca_shelf a)))),
     (''target_slot'', PStr (norm_text (PStr (ca_target_slot a)))),
     (''source_role'', PStr (norm_text (PStr (ca_source_role a)))),
     (''authority'', PStr (norm_text (PStr (ca_authority a)))),
     (''truth_eligible'', PBool (ca_truth_eligible a)),
     (''model_facing_allowed'', PBool (ca_model_facing_allowed a)),
     (''answer_evidence_allowed'', PBool (ca_answer_evidence_allowed a)),
     (''score'', PDict
        [(''raw_similarity'', PNone), (''salience'', PNone), (''recency'', PNone),
         (''authority_weight'', PNone), (''final_rank'', ca_final_rank a)]),
     (''decision'', PStr (norm_text (PStr (ca_decision a)))),
     (''reason_code'', PStr (norm_text (PStr (ca_reason_code a)))),
     (''token_estimate'', PInt (ca_token_estimate a)),
     (''supersedes'', PList (map PStr (ca_supersedes a))),
     (''corrected_by'', ca_corrected_by a),
     (''raw_text_included'', PBool False),
     (''redacted_excerpt'', ca_redacted_excerpt a),
     (''value_fingerprint'', PStr (value_fingerprint (ca_raw_value a)))]"

definition field_text :: "pydict \<Rightarrow> string \<Rightarrow> string" where
  "field_text c k = norm_text (dget c k)"

definition proof_chain_from_candidate :: "pydict \<Rightarrow> pydict list" where
  "proof_chain_from_candidate c =
     (if field_text c ''source_span_id'' \<noteq> [] then
        [[(''stage'', PStr ''source_span''), (''id'', PStr (field_text c ''source_span_id'')),
          (''source_role'', PStr (field_text c ''source_role'')),
          (''text_hash'', PStr (field_text c ''value_fingerprint''))]] else []) @
     (if field_text c ''proposal_id'' \<noteq> [] then
        [[(''stage'', PStr ''capture_proposal''), (''id'', PStr (field_text c ''proposal_id'')),
          (''target_slot'', PStr (field_text c ''target_slot'')),
          (''normalized_value_hash'', PStr (field_text c ''value_fingerprint''))]] else []) @
     (if field_text c ''admission_id'' \<noteq> [] then
        [[(''stage'', PStr ''admission_decision''), (''id'', PStr (field_text c ''admission_id'')),
          (''decision'', PStr ''accepted'')]] else []) @
     (if field_text c ''receipt_id'' \<noteq> [] then
        [[(''stage'', PStr ''write_receipt''), (''id'', PStr (field_text c ''receipt_id'')),
          (''status'', PStr ''committed'')]] else []) @
     (if field_text c ''candidate_id'' \<noteq> [] then
        [[(''stage'', PStr ''retrieval_candidate''), (''id'', PStr (field_text c ''candidate_id'')),
          (''truth_eligible'', PBool (truthy (dget c ''truth_eligible'')))]] else []) @
     (if field_text c ''decision'' = DECISION_SELECTED then
        [[(''stage'', PStr ''packet_selection''), (''decision'', PStr ''selected_answer_evidence'')]] else [])"

definition candidate_errors :: "pydict \<Rightarrow> string list" where
  "candidate_errors c =
     (let reason_code = field_text c ''reason_code'';
          decision = field_text c ''decision'';
          source_role = py_lower (field_text c ''source_role'');
          authority = field_text c ''authority'' in
      (if \<not> is_reason_code (PStr reason_code)
       then [''unknown_reason_code:'' @ (if reason_code = [] then ''<missing>'' else reason_code)] else []) @
      (if decision \<in> {DECISION_DROPPED, DECISION_DEMOTED} \<and> reason_code = []
       then [''dropped_or_demoted_candidate_missing_reason_code''] else []) @
      (if dget c ''raw_text_included'' = PBool True then [''raw_text_included''] else []) @
      (if source_role = ''assistant'' \<and>
          (truthy (dget c ''truth_eligible'') \<or> truthy (dget c ''answer_evidence_allowed''))
       then [''assistant_claim_cannot_be_answer_truth''] else []) @
      (if authority \<in> PRIVATE_AUTHORITY_CLASSES \<and> truthy (dget c ''answer_evidence_allowed'')
       then [authority @ ''_cannot_be_answer_evidence''] else []) @
      (if decision = DECISION_SELECTED \<and> \<not> truthy (dget c ''answer_evidence_allowed'')
       then [''selected_candidate_not_answer_evidence_allowed''] else []) @
      (if decision = DECISION_SELECTED then
         [''selected_candidate_missing_'' @ key.
            key \<leftarrow> [''source_event_id'', ''source_span_id'', ''authority''], field_text c key = []]
       else []))"

section \<open>Completeness\<close>

definition trace_candidates :: "pydict \<Rightarrow> pyval list" where
  "trace_candidates trace = as_list (dget trace ''candidates'')"

text \<open>
  \<open>decision == SELECTED\<close> and membership in the dropped decisions. (A list or dictionary as the decision, which no builder writes,
  is unhashable and raises in the membership test; here it is no decision.)
\<close>

definition is_decision :: "string set \<Rightarrow> pydict \<Rightarrow> bool" where
  "is_decision ds c \<longleftrightarrow> (case dget c ''decision'' of PStr s \<Rightarrow> s \<in> ds | _ \<Rightarrow> False)"

definition completeness_flags :: "pydict \<Rightarrow> (string \<times> bool) list" where
  "completeness_flags trace =
     (let items = mappings (trace_candidates trace);
          selected = filter (is_decision {DECISION_SELECTED}) items;
          dropped = filter (is_decision {DECISION_DROPPED, DECISION_DEMOTED}) items;
          coverage = dget trace ''receipt_coverage'';
          has_receipt_coverage =
            is_mapping coverage \<and> truthy (dget (as_mapping coverage) ''coverage_status'') in
      [(''has_source_provenance'', list_all (\<lambda>c. field_text c ''source_span_id'' \<noteq> []) selected),
       (''has_authority'', list_all (\<lambda>c. field_text c ''authority'' \<noteq> []) selected),
       (''has_truth_eligibility'', list_all (\<lambda>c. dhas c ''truth_eligible'') selected),
       (''has_reason_codes'', list_all (\<lambda>c. is_reason_code (dget c ''reason_code'')) items),
       (''has_receipt_coverage_when_applicable'', has_receipt_coverage),
       (''has_drop_reasons_for_all_dropped_candidates'',
          list_all (\<lambda>c. is_reason_code (dget c ''reason_code'')) dropped),
       (''raw_private_text_excluded'', list_all (\<lambda>c. \<not> truthy (dget c ''raw_text_included'')) items)])"

definition build_trace_completeness :: "pydict \<Rightarrow> pydict" where
  "build_trace_completeness trace =
     (let flags = completeness_flags trace in
      map (\<lambda>(k, b). (k, PBool b)) flags @
      [(''complete_for_audit'', PBool (list_all snd flags))])"

section \<open>Building and validating a trace\<close>

record trace_args =
  ta_trace_id :: string
  ta_turn_id :: string
  ta_query_summary :: string
  ta_principal_scope_key :: string
  ta_workspace_scope_key :: string
  ta_receipt_coverage :: pyval
  ta_max_tokens :: pyval
  ta_truncated :: bool

text \<open>The dropped counts: the dictionary \<open>dropped\<close>, in first-seen order.\<close>

definition drop_code :: "pydict \<Rightarrow> string" where
  "drop_code c = (if field_text c ''reason_code'' = [] then ''unclassified'' else field_text c ''reason_code'')"

definition dropped_counts :: "pydict list \<Rightarrow> (string \<times> nat) list" where
  "dropped_counts cands =
     fold (\<lambda>c. AList.map_default (drop_code c) 1 Suc)
       (filter (\<lambda>c. field_text c ''decision'' \<in> {DECISION_DROPPED, DECISION_DEMOTED}) cands) []"

definition total_count :: "(string \<times> nat) list \<Rightarrow> nat" where
  "total_count al = sum_list (map snd al)"

definition raw_tokens :: "pydict \<Rightarrow> int result" where
  "raw_tokens c = py_int (py_or (dget c ''token_estimate'') (PInt 0))"

definition packet_budget_block :: "pyval \<Rightarrow> int \<Rightarrow> bool \<Rightarrow> pydict" where
  "packet_budget_block max_tokens estimated truncated =
    [(''max_tokens'', max_tokens),
     (''estimated_tokens'', PInt estimated),
     (''truncated'', PBool truncated),
     (''truncation_reason'', if truncated then PStr ''dropped_budget_overflow'' else PNone),
     (''truncation_policy'',
        if truncated then PStr ''drop_low_authority_supporting_context_first'' else PNone),
     (''answer_evidence_preserved'', PBool True),
     (''receipt_coverage_preserved'', PBool True),
     (''authority_fields_preserved'', PBool True),
     (''scope_fields_preserved'', PBool True),
     (''correction_fields_preserved'', PBool True)]"

definition selected_candidates :: "pydict list \<Rightarrow> pydict list" where
  "selected_candidates cands = filter (\<lambda>c. field_text c ''decision'' = DECISION_SELECTED) cands"

definition trace_body :: "trace_args \<Rightarrow> pydict list \<Rightarrow> int \<Rightarrow> pydict" where
  "trace_body a cands estimated =
     (let selected = selected_candidates cands; dropped = dropped_counts cands in
      [(''schema'', PStr EVIDENCE_TRACE_SCHEMA),
       (''trace_id'', PStr (norm_text (PStr (ta_trace_id a)))),
       (''turn_id'', PStr (norm_text (PStr (ta_turn_id a)))),
       (''query_summary'', PStr (norm_text (PStr (ta_query_summary a)))),
       (''scope'', PDict
          [(''principal_scope_key'', PStr (norm_text (PStr (ta_principal_scope_key a)))),
           (''workspace_scope_key'', PStr (norm_text (PStr (ta_workspace_scope_key a))))]),
       (''candidate_counts'', PDict
          [(''input'', PInt (int (length cands))),
           (''dropped'', PInt (int (total_count dropped))),
           (''selected'', PInt (int (length selected)))]),
       (''candidates'', PList (map PDict cands)),
       (''proof_chain'', PList (map PDict (concat (map proof_chain_from_candidate selected)))),
       (''selected_answer_evidence'',
          PList (map (\<lambda>c. PStr (field_text c ''candidate_id'')) selected)),
       (''dropped_summary'', PList
          (map (\<lambda>(code, n). PDict [(''reason_code'', PStr code), (''count'', PInt (int n))])
             (sort_key fst dropped))),
       (''packet_budget'', PDict (packet_budget_block (ta_max_tokens a) estimated (ta_truncated a))),
       (''receipt_coverage'',
          if truthy (ta_receipt_coverage a) then ta_receipt_coverage a
          else PDict [(''coverage_status'', PStr ''not_applicable'')])])"

definition build_evidence_trace :: "trace_args \<Rightarrow> pydict list \<Rightarrow> pydict result" where
  "build_evidence_trace a cands =
     (case map_result raw_tokens cands of
        Inl e \<Rightarrow> Inl e
      | Inr ts \<Rightarrow>
          (let trace = trace_body a cands (sum_list ts)
           in Inr (dset ''trace_completeness'' (PDict (build_trace_completeness trace)) trace)))"

definition preserved_keys :: "string list" where
  "preserved_keys =
    [''answer_evidence_preserved'', ''receipt_coverage_preserved'', ''authority_fields_preserved'',
     ''scope_fields_preserved'', ''correction_fields_preserved'']"

definition validate_evidence_trace :: "pydict \<Rightarrow> string list" where
  "validate_evidence_trace trace =
     (let candidates = dget trace ''candidates'';
          completeness = dget trace ''trace_completeness'';
          packet_budget = dget trace ''packet_budget'' in
      (if dget trace ''schema'' \<noteq> PStr EVIDENCE_TRACE_SCHEMA then [''invalid_trace_schema''] else []) @
      (if \<not> is_list candidates then [''candidates_not_list''] else []) @
      concat (map (\<lambda>c. if is_mapping c then candidate_errors (as_mapping c) else [''candidate_not_mapping''])
        (as_list candidates)) @
      (if \<not> is_mapping completeness then [''missing_trace_completeness'']
       else if truthy (dget (as_mapping completeness) ''complete_for_audit'') then
         [''trace_completeness_mismatch:'' @ key.
            (key, value) \<leftarrow> build_trace_completeness trace, \<not> py_eq (dget (as_mapping completeness) key) value]
       else []) @
      (if is_mapping packet_budget \<and> truthy (dget (as_mapping packet_budget) ''truncated'') then
         [''truncation_dropped_'' @ key.
            key \<leftarrow> preserved_keys, dget (as_mapping packet_budget) key \<noteq> PBool True]
       else []))"

text \<open>\<open>Inl\<close> carries the message of the \<open>ValueError\<close>.\<close>

definition assert_evidence_trace_complete :: "pydict \<Rightarrow> string + unit" where
  "assert_evidence_trace_complete trace =
     (let completeness = dget trace ''trace_completeness'';
          errors = validate_evidence_trace trace @
            (if is_mapping completeness \<and> dget (as_mapping completeness) ''complete_for_audit'' \<noteq> PBool True
             then [''trace_not_complete_for_audit''] else [])
      in if errors = [] then Inr () else Inl (py_join '';'' errors))"


section \<open>Lemmas\<close>

lemma field_text_make [simp]:
  "field_text (make_evidence_candidate a) ''decision'' = norm_text (PStr (ca_decision a))"
  "field_text (make_evidence_candidate a) ''reason_code'' = norm_text (PStr (ca_reason_code a))"
  "field_text (make_evidence_candidate a) ''source_span_id'' = norm_text (PStr (ca_source_span_id a))"
  "field_text (make_evidence_candidate a) ''authority'' = norm_text (PStr (ca_authority a))"
  by (simp_all add: field_text_def make_evidence_candidate_def)

lemma dget_make [simp]:
  "dget (make_evidence_candidate a) ''decision'' = PStr (norm_text (PStr (ca_decision a)))"
  "dget (make_evidence_candidate a) ''reason_code'' = PStr (norm_text (PStr (ca_reason_code a)))"
  "dget (make_evidence_candidate a) ''raw_text_included'' = PBool False"
  "dget (make_evidence_candidate a) ''token_estimate'' = PInt (ca_token_estimate a)"
  "dhas (make_evidence_candidate a) ''truth_eligible''"
  by (simp_all add: make_evidence_candidate_def)

lemma raw_tokens_make [simp]: "raw_tokens (make_evidence_candidate a) = Inr (ca_token_estimate a)"
  by (simp add: raw_tokens_def py_or_def)

text \<open>The dropped counts add up to the dropped candidates.\<close>

lemma total_count_map_default:
  "total_count (AList.map_default k (Suc 0) Suc al) = Suc (total_count al)"
  by (induction al) (auto simp: total_count_def)

lemma total_count_dropped:
  "total_count (dropped_counts cands) =
     length (filter (\<lambda>c. field_text c ''decision'' \<in> {DECISION_DROPPED, DECISION_DEMOTED}) cands)"
proof -
  have "total_count (fold (\<lambda>c. AList.map_default (drop_code c) 1 Suc) cs al) = length cs + total_count al"
    for cs and al :: "(string \<times> nat) list"
    by (induction cs arbitrary: al) (simp_all add: total_count_map_default)
  then show ?thesis by (simp add: dropped_counts_def total_count_def)
qed

lemma map_of_dropped_counts:
  "map_of (dropped_counts cands) code =
     (let n = length (filter (\<lambda>c. field_text c ''decision'' \<in> {DECISION_DROPPED, DECISION_DEMOTED}
                                  \<and> drop_code c = code) cands)
      in if n = 0 then None else Some n)"
proof -
  have "map_of (fold (\<lambda>c. AList.map_default (drop_code c) 1 Suc) cs al) code =
      (let n = length (filter (\<lambda>c. drop_code c = code) cs) in
       case map_of al code of None \<Rightarrow> if n = 0 then None else Some n | Some m \<Rightarrow> Some (m + n))"
    for cs and al :: "(string \<times> nat) list"
    by (induction cs arbitrary: al) (auto simp: map_of_map_default Let_def split: option.splits)
  then show ?thesis by (simp add: dropped_counts_def conj_commute)
qed

lemma build_evidence_trace_Inr:
  "build_evidence_trace a cands = Inr t \<Longrightarrow>
     \<exists>n. t = dset ''trace_completeness'' (PDict (build_trace_completeness (trace_body a cands n)))
               (trace_body a cands n)"
  by (auto simp: build_evidence_trace_def Let_def split: sum.splits)

lemma completeness_flags_dset [simp]:
  "completeness_flags (dset ''trace_completeness'' v t) = completeness_flags t"
  by (simp add: completeness_flags_def trace_candidates_def)

lemma build_trace_completeness_dset [simp]:
  "build_trace_completeness (dset ''trace_completeness'' v t) = build_trace_completeness t"
  by (simp add: build_trace_completeness_def)

lemma dget_completeness_flag:
  "(key, value) \<in> set (build_trace_completeness t) \<Longrightarrow> dget (build_trace_completeness t) key = value"
proof (rule dget_in)
  have "map fst (completeness_flags t) =
      [''has_source_provenance'', ''has_authority'', ''has_truth_eligibility'', ''has_reason_codes'',
       ''has_receipt_coverage_when_applicable'', ''has_drop_reasons_for_all_dropped_candidates'',
       ''raw_private_text_excluded'']"
    by (simp add: completeness_flags_def Let_def)
  then have "map fst (build_trace_completeness t) =
      [''has_source_provenance'', ''has_authority'', ''has_truth_eligibility'', ''has_reason_codes'',
       ''has_receipt_coverage_when_applicable'', ''has_drop_reasons_for_all_dropped_candidates'',
       ''raw_private_text_excluded'', ''complete_for_audit'']"
    by (simp add: build_trace_completeness_def Let_def comp_def case_prod_beta)
  then show "distinct (map fst (build_trace_completeness t))" by simp
qed

lemma trace_body_fields [simp]:
  "dget (trace_body a cands n) ''schema'' = PStr EVIDENCE_TRACE_SCHEMA"
  "dget (trace_body a cands n) ''candidates'' = PList (map PDict cands)"
  "dget (trace_body a cands n) ''packet_budget'' =
     PDict (packet_budget_block (ta_max_tokens a) n (ta_truncated a))"
  by (simp_all add: trace_body_def Let_def)

lemma packet_budget_block_preserved:
  "key \<in> set preserved_keys \<Longrightarrow> dget (packet_budget_block m n b) key = PBool True"
  unfolding preserved_keys_def by (simp, elim disjE) (simp_all add: packet_budget_block_def)

lemma validate_built:
  assumes "t = dset ''trace_completeness'' (PDict (build_trace_completeness (trace_body a cands n)))
                 (trace_body a cands n)"
  shows "validate_evidence_trace t = concat (map candidate_errors cands)"
proof -
  have pb: "[''truncation_dropped_'' @ key. key \<leftarrow> preserved_keys,
      dget (packet_budget_block (ta_max_tokens a) n (ta_truncated a)) key \<noteq> PBool True] = []"
    by (auto simp: packet_budget_block_preserved)
  have mm: "[''trace_completeness_mismatch:'' @ key.
      (key, value) \<leftarrow> build_trace_completeness (trace_body a cands n),
      \<not> py_eq (dget (build_trace_completeness (trace_body a cands n)) key) value] = []"
    by (auto dest: dget_completeness_flag)
  show ?thesis
    unfolding validate_evidence_trace_def Let_def assms
    by (simp add: pb mm comp_def)
qed

lemma no_errors_make_flags:
  assumes "candidate_errors (make_evidence_candidate a) = []"
  shows "is_reason_code (PStr (norm_text (PStr (ca_reason_code a))))"
    and "norm_text (PStr (ca_decision a)) = DECISION_SELECTED \<Longrightarrow>
           norm_text (PStr (ca_source_span_id a)) \<noteq> [] \<and> norm_text (PStr (ca_authority a)) \<noteq> []"
  using assms by (auto simp: candidate_errors_def Let_def split: if_splits)

text \<open>
  Error-free candidates of \<open>make_evidence_candidate\<close> give a trace whose completeness flags all
  hold, for any truthy receipt coverage block with a coverage status, or none.
\<close>

definition coverage_ok :: "pyval \<Rightarrow> bool" where
  "coverage_ok v \<longleftrightarrow> \<not> truthy v \<or> (is_mapping v \<and> truthy (dget (as_mapping v) ''coverage_status''))"

lemma completeness_flags_made:
  assumes "\<forall>a \<in> set as. candidate_errors (make_evidence_candidate a) = []"
    and "coverage_ok (ta_receipt_coverage ta)"
  shows "list_all snd (completeness_flags (trace_body ta (map make_evidence_candidate as) n))"
proof -
  have rc: "dget (trace_body ta cs n) ''receipt_coverage'' =
      (if truthy (ta_receipt_coverage ta) then ta_receipt_coverage ta
       else PDict [(''coverage_status'', PStr ''not_applicable'')])" for cs
    by (simp add: trace_body_def Let_def)
  show ?thesis
    unfolding completeness_flags_def Let_def trace_candidates_def rc
    using assms(2) no_errors_make_flags [OF bspec [OF assms(1)]]
    by (auto simp: list_all_iff is_decision_def coverage_ok_def)
qed

section \<open>Properties\<close>

text \<open>
  C37: whatever the candidates, a trace produced by the builder validates to exactly the
  concatenation of its candidates' own errors: the schema, completeness and packet budget blocks
  the builder writes never add an error.
\<close>

theorem built_trace_validates_to_candidate_errors:
  assumes "build_evidence_trace a cands = Inr t"
  shows "validate_evidence_trace t = concat (map candidate_errors cands)"
proof -
  from build_evidence_trace_Inr [OF assms] obtain n where
    "t = dset ''trace_completeness'' (PDict (build_trace_completeness (trace_body a cands n)))
           (trace_body a cands n)" by blast
  then show ?thesis by (rule validate_built)
qed

text \<open>Two concrete candidates, one selected and one dropped, and the arguments of a trace.\<close>

definition sample_args :: candidate_args where
  "sample_args =
    \<lparr>ca_candidate_id = ''c1'', ca_shelf = ''profile'', ca_source_role = ''user'', ca_authority = ''receipt_backed'',
     ca_decision = ''selected'', ca_reason_code = ''selected_authority_match'', ca_target_slot = ''city'',
     ca_source_event_id = ''e1'', ca_source_span_id = ''s1'', ca_capture_plan_id = PNone, ca_proposal_id = PNone,
     ca_admission_id = PNone, ca_receipt_id = PStr ''r1'', ca_truth_eligible = True,
     ca_model_facing_allowed = True, ca_answer_evidence_allowed = True, ca_raw_value = PStr ''Pest'',
     ca_redacted_excerpt = PNone, ca_token_estimate = 3, ca_final_rank = PNone, ca_supersedes = [],
     ca_corrected_by = PNone\<rparr>"

definition sample_dropped_args :: candidate_args where
  "sample_dropped_args = sample_args
    \<lparr>ca_decision := ''dropped'', ca_reason_code := ''dropped_support_only_for_answer_truth'',
     ca_authority := ''support_only'', ca_answer_evidence_allowed := False\<rparr>"

definition sample_trace_args :: trace_args where
  "sample_trace_args =
    \<lparr>ta_trace_id = ''t'', ta_turn_id = ''u'', ta_query_summary = ''q'', ta_principal_scope_key = ''p'',
     ta_workspace_scope_key = ''w'', ta_receipt_coverage = PNone, ta_max_tokens = PNone, ta_truncated = False\<rparr>"

lemma sample_candidates_clean:
  "candidate_errors (make_evidence_candidate sample_args) = []"
  "candidate_errors (make_evidence_candidate sample_dropped_args) = []"
  by (simp_all add: candidate_errors_def Let_def field_text_def make_evidence_candidate_def sample_args_def
      sample_dropped_args_def text_eval is_reason_code_def reason_code_values_def PRIVATE_AUTHORITY_CLASSES_def
      py_lower_def char_lower_def)

lemma build_made:
  "\<exists>t. build_evidence_trace a (map make_evidence_candidate as) = Inr t"
proof -
  have "map_result raw_tokens (map make_evidence_candidate as) = Inr (map ca_token_estimate as)"
    by (induction as) simp_all
  then show ?thesis by (simp add: build_evidence_trace_def Let_def)
qed

theorem built_trace_validates_to_candidate_errors_witness:
  "\<exists>t. build_evidence_trace sample_trace_args [make_evidence_candidate sample_args] = Inr t \<and>
       validate_evidence_trace t = []"
  using build_made [of sample_trace_args "[sample_args]"]
  by (auto simp: built_trace_validates_to_candidate_errors sample_candidates_clean)

text \<open>
  Building is total on made candidates, and the completeness assertion accepts the trace
  exactly when every candidate is free of errors, provided the caller's receipt coverage is absent or
  carries a status.
\<close>

theorem made_trace_complete_iff_clean:
  assumes "coverage_ok (ta_receipt_coverage a)"
  shows "\<exists>t. build_evidence_trace a (map make_evidence_candidate as) = Inr t \<and>
    (assert_evidence_trace_complete t = Inr () \<longleftrightarrow>
       list_all (\<lambda>x. candidate_errors (make_evidence_candidate x) = []) as)"
proof -
  let ?cs = "map make_evidence_candidate as"
  from build_made obtain t where b: "build_evidence_trace a ?cs = Inr t" by blast
  from build_evidence_trace_Inr [OF b] obtain n where
    t: "t = dset ''trace_completeness'' (PDict (build_trace_completeness (trace_body a ?cs n))) (trace_body a ?cs n)"
    by blast
  have v: "validate_evidence_trace t = concat (map candidate_errors ?cs)" using t by (rule validate_built)
  have "dget (build_trace_completeness (trace_body a ?cs n)) ''complete_for_audit'' = PBool True"
    if "list_all (\<lambda>x. candidate_errors (make_evidence_candidate x) = []) as"
    using completeness_flags_made [of as a n] that assms
    by (intro dget_completeness_flag) (auto simp: build_trace_completeness_def Let_def list_all_iff)
  then show ?thesis
    using b v by (intro exI [of _ t]) (auto simp: assert_evidence_trace_complete_def Let_def t list_all_iff)
qed

theorem made_trace_complete_iff_clean_witness:
  "\<exists>t. build_evidence_trace sample_trace_args (map make_evidence_candidate [sample_args, sample_dropped_args]) = Inr t \<and>
       assert_evidence_trace_complete t = Inr ()"
  using made_trace_complete_iff_clean [of sample_trace_args "[sample_args, sample_dropped_args]"] sample_candidates_clean
  by (simp add: coverage_ok_def sample_trace_args_def)

lemma distinct_dropped_counts: "distinct (map fst (dropped_counts cands))"
proof -
  have "distinct (map fst al) \<Longrightarrow> distinct (map fst (fold (\<lambda>c. AList.map_default (drop_code c) 1 Suc) cs al))"
    for cs and al :: "(string \<times> nat) list"
    by (induction cs arbitrary: al) (simp_all add: distinct_map_default)
  then show ?thesis by (simp add: dropped_counts_def)
qed

text \<open>
  The dropped summary of a built trace is an exact count: one row per reason code, in
  code order, each with the number of dropped or demoted candidates of that code, and the rows
  add up to the count in \<open>candidate_counts\<close>.
\<close>

theorem dropped_summary_exact:
  assumes "build_evidence_trace a cands = Inr t"
  defines "gone \<equiv> filter (\<lambda>c. field_text c ''decision'' \<in> {DECISION_DROPPED, DECISION_DEMOTED}) cands"
  shows "\<exists>rows. dget t ''dropped_summary'' =
        PList (map (\<lambda>(code, n). PDict [(''reason_code'', PStr code), (''count'', PInt (int n))]) rows) \<and>
      sorted (map fst rows) \<and> distinct (map fst rows) \<and>
      (\<forall>code n. (code, n) \<in> set rows \<longleftrightarrow> 0 < n \<and> n = length (filter (\<lambda>c. drop_code c = code) gone)) \<and>
      dget (as_mapping (dget t ''candidate_counts'')) ''dropped'' = PInt (int (sum_list (map snd rows))) \<and>
      sum_list (map snd rows) = length gone"
proof -
  from build_evidence_trace_Inr [OF assms(1)] obtain k where
    t: "t = dset ''trace_completeness'' (PDict (build_trace_completeness (trace_body a cands k))) (trace_body a cands k)"
    by blast
  let ?rows = "sort_key fst (dropped_counts cands)"
  have d: "distinct (map fst (dropped_counts cands))" by (rule distinct_dropped_counts)
  have m: "(code, n) \<in> set ?rows \<longleftrightarrow> 0 < n \<and> n = length (filter (\<lambda>c. drop_code c = code) gone)" for code n
  proof -
    have "(code, n) \<in> set ?rows \<longleftrightarrow> map_of (dropped_counts cands) code = Some n"
      using d by (simp add: map_of_eq_Some_iff)
    moreover have "filter (\<lambda>c. drop_code c = code) gone =
        filter (\<lambda>c. field_text c ''decision'' \<in> {DECISION_DROPPED, DECISION_DEMOTED} \<and> drop_code c = code) cands"
      unfolding gone_def filter_filter by (rule filter_cong) blast+
    ultimately show ?thesis unfolding map_of_dropped_counts Let_def by (simp only:) (auto split: if_splits)
  qed
  have s: "sum_list (map snd ?rows) = total_count (dropped_counts cands)"
    unfolding total_count_def by (metis mset_map mset_sort sum_mset_sum_list)
  have ds: "distinct (map fst ?rows)" using d by (metis distinct_sort mset_map mset_sort mset_eq_imp_distinct_iff)
  show ?thesis
    using ds m s by (intro exI [of _ ?rows]) (auto simp: t trace_body_def Let_def total_count_dropped gone_def)
qed

theorem dropped_summary_exact_witness:
  "\<exists>t rows. build_evidence_trace sample_trace_args (map make_evidence_candidate [sample_args, sample_dropped_args]) = Inr t \<and>
     dget t ''dropped_summary'' =
       PList (map (\<lambda>(code, n). PDict [(''reason_code'', PStr code), (''count'', PInt (int n))]) rows) \<and>
     sum_list (map snd rows) = length (filter (\<lambda>c. field_text c ''decision'' \<in> {DECISION_DROPPED, DECISION_DEMOTED})
       (map make_evidence_candidate [sample_args, sample_dropped_args]))"
  using build_made [of sample_trace_args "[sample_args, sample_dropped_args]"] dropped_summary_exact by blast

end
