(* ===== verification/PacketBudget.thy ===== *)
theory PacketBudget
  imports EvidenceTrace
begin

text \<open>
  \<open>brainstack/core/packet_budget.py\<close>: the deterministic pass that decides which evidence
  candidates survive a token budget. The pass partitions the active candidates into protected
  ones (authority-critical, not a losing duplicate) and optional ones, selects every protected
  one, and fills what is left of the budget with the optional ones in authority order. Candidates
  are the dictionaries of the code; the result is the dataclass \<open>PacketBudgetResult\<close>.
\<close>

abbreviation "BUDGET_STATUS_NOT_APPLICABLE \<equiv> ''not_applicable''"
abbreviation "BUDGET_STATUS_WITHIN_LIMIT \<equiv> ''within_limit''"
abbreviation "BUDGET_STATUS_APPLIED \<equiv> ''applied''"
abbreviation "BUDGET_STATUS_INSUFFICIENT_AUTHORITY \<equiv> ''insufficient_for_authority_minimum''"

definition DROPPED_DECISIONS :: "string set" where
  "DROPPED_DECISIONS = {DECISION_DROPPED, DECISION_DEMOTED}"

definition PROTECTED_AUTHORITIES :: "string set" where
  "PROTECTED_AUTHORITIES = {AUTHORITY_RECEIPT_BACKED, AUTHORITY_DURABLE_TRUTH, AUTHORITY_CITED_CORPUS}"

definition ALLOWED_PACKET_BUDGET_REASON_CODES :: "string set" where
  "ALLOWED_PACKET_BUDGET_REASON_CODES =
    {''budget_insufficient_for_authority_minimum'', ''dropped_budget_duplicate_lower_authority'',
     ''dropped_budget_low_authority'', ''dropped_budget_overflow'', ''dropped_budget_stale_transcript'',
     ''dropped_budget_support_only'', ''selected_budget_protected_authority'',
     ''selected_budget_within_limit''}"

definition PACKET_BUDGET_TRACE_DECISION_FIELDS :: "string set" where
  "PACKET_BUDGET_TRACE_DECISION_FIELDS = {''candidate_id'', ''decision'', ''reason_code'', ''token_estimate''}"

section \<open>Configuration\<close>

text \<open>The environment variable is an argument; \<open>None\<close> when it is not set.\<close>

definition resolve_packet_budget_mode :: "string option \<Rightarrow> string option \<Rightarrow> string" where
  "resolve_packet_budget_mode mode env =
     (let configured = (case mode of None \<Rightarrow> env | Some m \<Rightarrow> Some m);
          text = (case configured of Some (c # cs) \<Rightarrow> c # cs | _ \<Rightarrow> ''active'');
          resolved = py_lower (py_join '' '' (py_split (py_strip text)))
      in if resolved \<notin> {''off'', ''shadow'', ''active''} then ''off'' else resolved)"

definition resolve_packet_budget_max_candidate_tokens :: "int option \<Rightarrow> string option \<Rightarrow> int option" where
  "resolve_packet_budget_max_candidate_tokens value env =
     (case value of Some v \<Rightarrow> Some v
      | None \<Rightarrow>
          (case env of
             Some (c # cs) \<Rightarrow>
               (case py_int (PStr (c # cs)) of
                  Inl _ \<Rightarrow> None
                | Inr parsed \<Rightarrow> if parsed > 0 then Some parsed else None)
           | _ \<Rightarrow> Some 120))"

section \<open>Candidate accessors\<close>

definition token_estimate :: "pydict \<Rightarrow> int result" where
  "token_estimate c =
     (case py_int (py_or (dget c ''token_estimate'') (PInt 0)) of Inl e \<Rightarrow> Inl e | Inr n \<Rightarrow> Inr (max 0 n))"

text \<open>The estimate of a candidate whose conversion is known to succeed.\<close>

definition tok :: "pydict \<Rightarrow> int" where
  "tok c = (case token_estimate c of Inr n \<Rightarrow> n | Inl _ \<Rightarrow> 0)"

definition candidate_id :: "pydict \<Rightarrow> string" where
  "candidate_id c = norm_text (dget c ''candidate_id'')"

definition decision_of :: "pydict \<Rightarrow> string" where
  "decision_of c = norm_text (dget c ''decision'')"

definition authority_of :: "pydict \<Rightarrow> string" where
  "authority_of c = norm_text (dget c ''authority'')"

definition answer_allowed :: "pydict \<Rightarrow> bool" where
  "answer_allowed c \<longleftrightarrow> truthy (dget c ''answer_evidence_allowed'') \<or> truthy (dget c ''answer_evidence'')"

definition is_authority_critical :: "pydict \<Rightarrow> bool" where
  "is_authority_critical c \<longleftrightarrow>
     truthy (dget c ''protected'') \<or> truthy (dget c ''required_for_answer'') \<or>
     (norm_text (dget c ''receipt_id'') \<noteq> [] \<and> answer_allowed c) \<or>
     (authority_of c \<in> PROTECTED_AUTHORITIES \<and> answer_allowed c) \<or>
     (truthy (dget c ''truth_eligible'') \<and> answer_allowed c)"

definition fingerprint_key :: "pydict \<Rightarrow> string" where
  "fingerprint_key c =
     (let target_slot = norm_text (dget c ''target_slot'');
          fingerprint = norm_text (dget c ''value_fingerprint'');
          stable_key = norm_text (dget c ''stable_key'')
      in if target_slot \<noteq> [] \<and> fingerprint \<noteq> [] then target_slot @ '':'' @ fingerprint
         else if stable_key \<noteq> [] then stable_key else [])"

definition authority_weight :: "pydict \<Rightarrow> int" where
  "authority_weight c =
     (if authority_of c = AUTHORITY_RECEIPT_BACKED then 0
      else if authority_of c = AUTHORITY_DURABLE_TRUTH then 1
      else if authority_of c = AUTHORITY_CITED_CORPUS then 2
      else if truthy (dget c ''answer_evidence_allowed'') then 3
      else if authority_of c = AUTHORITY_SUPPORT_ONLY then 20
      else if authority_of c = AUTHORITY_INSPECT_ONLY then 30
      else 10)"

definition drop_reason :: "pydict \<Rightarrow> bool \<Rightarrow> bool \<Rightarrow> string" where
  "drop_reason c duplicate_lower_authority insufficient_authority =
     (if insufficient_authority then ''budget_insufficient_for_authority_minimum''
      else if duplicate_lower_authority then ''dropped_budget_duplicate_lower_authority''
      else if truthy (dget c ''stale'') then ''dropped_budget_stale_transcript''
      else if authority_of c = AUTHORITY_SUPPORT_ONLY then ''dropped_budget_support_only''
      else ''dropped_budget_low_authority'')"

definition select_reason :: "pydict \<Rightarrow> string" where
  "select_reason c =
     (if is_authority_critical c then ''selected_budget_protected_authority''
      else ''selected_budget_within_limit'')"

definition copy_with_decision :: "pydict \<Rightarrow> string \<Rightarrow> string \<Rightarrow> pydict" where
  "copy_with_decision c decision reason_code =
     (let updated = dset ''reason_code'' (PStr reason_code) (dset ''decision'' (PStr decision) c) in
      if decision = DECISION_DROPPED then
        dupdate updated
          [(''model_facing_allowed'', PBool False), (''model_facing_default'', PBool False),
           (''answer_evidence_allowed'', PBool False), (''answer_evidence'', PBool False),
           (''truth_eligible'', PBool False)]
      else updated)"

section \<open>Duplicates\<close>

text \<open>\<open>by_key\<close>: the candidates of each fingerprint, in order of appearance.\<close>

definition group_by_fingerprint :: "pydict list \<Rightarrow> (string \<times> pydict list) list" where
  "group_by_fingerprint cands =
     fold (\<lambda>c al. if fingerprint_key c = [] then al
                   else AList.map_default (fingerprint_key c) [c] (\<lambda>g. g @ [c]) al) cands []"

definition rank_key :: "pydict \<Rightarrow> int \<times> int \<times> string" where
  "rank_key c = (authority_weight c, tok c, candidate_id c)"

definition group_winner :: "pydict list \<Rightarrow> pydict" where
  "group_winner g = hd (sort_key rank_key g)"

definition duplicate_lower_authority_ids :: "pydict list \<Rightarrow> string list" where
  "duplicate_lower_authority_ids cands =
     concat (map (\<lambda>(k, g).
         if length g < 2 then []
         else [candidate_id c. c \<leftarrow> g,
                 candidate_id c \<noteq> [] \<and> candidate_id c \<noteq> candidate_id (group_winner g)])
       (group_by_fingerprint cands))"

section \<open>The budget pass\<close>

record packet_budget_result =
  pb_candidates :: "pydict list"
  pb_status :: string
  pb_max_candidate_tokens :: "int option"
  pb_estimated_tokens_before :: int
  pb_selected_candidate_tokens :: int
  pb_dropped_candidate_tokens :: int
  pb_authority_minimum_tokens :: int
  pb_truncated :: bool
  pb_fail_closed :: bool

definition sum_tok :: "pydict list \<Rightarrow> int" where
  "sum_tok cs = sum_list (map tok cs)"

definition decided :: "string set \<Rightarrow> pydict list \<Rightarrow> pydict list" where
  "decided ds cs = filter (\<lambda>c. decision_of c \<in> ds) cs"

definition budget_result ::
  "pydict list \<Rightarrow> pydict list \<Rightarrow> string \<Rightarrow> int \<Rightarrow> int \<Rightarrow> int \<Rightarrow> bool \<Rightarrow> packet_budget_result" where
  "budget_result selected dropped status max_tokens before authority_minimum fail_closed =
     (let candidates = selected @ dropped;
          selected_tokens = sum_tok (decided {DECISION_SELECTED} candidates);
          dropped_tokens = sum_tok (decided DROPPED_DECISIONS candidates)
      in \<lparr>pb_candidates = candidates, pb_status = status, pb_max_candidate_tokens = Some max_tokens,
          pb_estimated_tokens_before = before, pb_selected_candidate_tokens = selected_tokens,
          pb_dropped_candidate_tokens = dropped_tokens,
          pb_authority_minimum_tokens = authority_minimum,
          pb_truncated = (dropped_tokens > 0 \<or> fail_closed), pb_fail_closed = fail_closed\<rparr>)"

definition select_protected :: "pydict \<Rightarrow> pydict" where
  "select_protected c = copy_with_decision c DECISION_SELECTED ''selected_budget_protected_authority''"

text \<open>The branch that fails closed: only the protected candidates are kept.\<close>

definition drop_insufficient :: "string list \<Rightarrow> string list \<Rightarrow> pydict list \<Rightarrow> pydict list" where
  "drop_insufficient protected_ids duplicate_ids active =
     [copy_with_decision c DECISION_DROPPED
        (if candidate_id c \<in> set duplicate_ids then drop_reason c True False else drop_reason c False True).
        c \<leftarrow> active, candidate_id c \<notin> set protected_ids]"

text \<open>
  One step of the loop over the optional candidates; the state is \<open>(selected, dropped,
  remaining)\<close>.
\<close>

type_synonym budget_state = "pydict list \<times> pydict list \<times> int"

fun optional_step :: "string list \<Rightarrow> pydict \<Rightarrow> budget_state \<Rightarrow> budget_state" where
  "optional_step duplicate_ids c (selected, dropped, remaining) =
     (if candidate_id c \<in> set duplicate_ids then
        (selected, dropped @ [copy_with_decision c DECISION_DROPPED (drop_reason c True False)], remaining)
      else if \<not> answer_allowed c then
        (if tok c \<le> remaining then
           (selected @ [copy_with_decision c DECISION_SELECTED ''selected_budget_within_limit''],
            dropped, remaining - tok c)
         else (selected, dropped @ [copy_with_decision c DECISION_DROPPED (drop_reason c False False)], remaining))
      else if tok c \<le> remaining then
        (selected @ [copy_with_decision c DECISION_SELECTED (select_reason c)], dropped, remaining - tok c)
      else (selected, dropped @ [copy_with_decision c DECISION_DROPPED (drop_reason c False False)], remaining))"

definition protected_candidates :: "pydict list \<Rightarrow> pydict list" where
  "protected_candidates active =
     filter (\<lambda>c. is_authority_critical c \<and> candidate_id c \<notin> set (duplicate_lower_authority_ids active)) active"

definition protected_order :: "pydict \<Rightarrow> int \<times> string" where
  "protected_order c = (authority_weight c, candidate_id c)"

definition optional_candidates :: "pydict list \<Rightarrow> pydict list" where
  "optional_candidates active =
     filter (\<lambda>c. candidate_id c \<notin> set (map candidate_id (protected_candidates active))) active"

definition fill_budget :: "int \<Rightarrow> pydict list \<Rightarrow> pydict list \<Rightarrow> budget_state" where
  "fill_budget max_tokens pre_dropped active =
     (let protected = protected_candidates active in
      fold (optional_step (duplicate_lower_authority_ids active))
        (sort_key rank_key (optional_candidates active))
        (map select_protected (sort_key protected_order protected), pre_dropped, max_tokens - sum_tok protected))"

definition is_active :: "pydict \<Rightarrow> bool" where
  "is_active c \<longleftrightarrow> decision_of c \<notin> DROPPED_DECISIONS"

definition apply_checked :: "pydict list \<Rightarrow> int option \<Rightarrow> int \<Rightarrow> packet_budget_result" where
  "apply_checked copied max_candidate_tokens before =
     (case max_candidate_tokens of
        None \<Rightarrow>
          \<lparr>pb_candidates = copied, pb_status = BUDGET_STATUS_NOT_APPLICABLE, pb_max_candidate_tokens = None,
           pb_estimated_tokens_before = before,
           pb_selected_candidate_tokens = sum_tok (decided {DECISION_SELECTED} copied),
           pb_dropped_candidate_tokens = sum_tok (decided DROPPED_DECISIONS copied),
           pb_authority_minimum_tokens = 0, pb_truncated = False, pb_fail_closed = False\<rparr>
      | Some max_tokens \<Rightarrow>
          (let pre_dropped = filter (\<lambda>c. \<not> is_active c) copied;
               active = filter is_active copied;
               protected = protected_candidates active;
               authority_minimum = sum_tok protected
           in if authority_minimum > max_tokens then
                budget_result (map select_protected protected)
                  (pre_dropped @
                   drop_insufficient (map candidate_id protected) (duplicate_lower_authority_ids active) active)
                  BUDGET_STATUS_INSUFFICIENT_AUTHORITY max_tokens before authority_minimum True
              else
                (let (selected, dropped, _) = fill_budget max_tokens pre_dropped active;
                     status = (if sum_tok selected = before \<and> dropped = [] then BUDGET_STATUS_WITHIN_LIMIT
                               else BUDGET_STATUS_APPLIED)
                 in budget_result selected dropped status max_tokens before authority_minimum False)))"

text \<open>
  The first statement of the pass converts every estimate, so a conversion error surfaces
  before any decision.
\<close>

definition apply_packet_budget :: "pydict list \<Rightarrow> int option \<Rightarrow> packet_budget_result result" where
  "apply_packet_budget cands max_candidate_tokens =
     (case map_result token_estimate cands of
        Inl e \<Rightarrow> Inl e
      | Inr ts \<Rightarrow> Inr (apply_checked cands max_candidate_tokens (sum_list ts)))"

section \<open>Trace export and validation\<close>

definition budget_decision_row :: "pydict \<Rightarrow> pydict" where
  "budget_decision_row c =
     [(''candidate_id'', PStr (candidate_id c)), (''decision'', PStr (decision_of c)),
      (''reason_code'', PStr (norm_text (dget c ''reason_code''))), (''token_estimate'', PInt (tok c))]"

definition opt_int :: "int option \<Rightarrow> pyval" where
  "opt_int v = (case v of None \<Rightarrow> PNone | Some i \<Rightarrow> PInt i)"

definition to_trace_packet_budget :: "packet_budget_result \<Rightarrow> pydict" where
  "to_trace_packet_budget r =
    [(''status'', PStr (pb_status r)),
     (''max_tokens'', opt_int (pb_max_candidate_tokens r)),
     (''estimated_tokens_before'', PInt (pb_estimated_tokens_before r)),
     (''selected_candidate_tokens'', PInt (pb_selected_candidate_tokens r)),
     (''dropped_candidate_tokens'', PInt (pb_dropped_candidate_tokens r)),
     (''authority_minimum_tokens'', PInt (pb_authority_minimum_tokens r)),
     (''truncated'', PBool (pb_truncated r)),
     (''fail_closed'', PBool (pb_fail_closed r)),
     (''truncation_reason'', if pb_truncated r then PStr ''dropped_budget_overflow'' else PNone),
     (''truncation_policy'',
        if pb_truncated r then PStr ''drop_low_authority_supporting_context_first'' else PNone),
     (''answer_evidence_preserved'', PBool True),
     (''receipt_coverage_preserved'', PBool True),
     (''authority_fields_preserved'', PBool True),
     (''scope_fields_preserved'', PBool True),
     (''correction_fields_preserved'', PBool True),
     (''budget_decisions'', PList (map (\<lambda>c. PDict (budget_decision_row c)) (pb_candidates r))),
     (''budget_reason_code_registry_pass'',
        PBool (list_all (\<lambda>c. norm_text (dget c ''reason_code'') \<in> ALLOWED_PACKET_BUDGET_REASON_CODES)
                 (pb_candidates r))),
     (''raw_text_in_budget_trace'', PBool False)]"

definition budgeted_trace_args :: "pydict \<Rightarrow> int \<Rightarrow> bool \<Rightarrow> trace_args" where
  "budgeted_trace_args trace max_candidate_tokens truncated =
     (let scope = as_mapping (dget trace ''scope''); coverage = dget trace ''receipt_coverage'' in
      \<lparr>ta_trace_id = norm_text (dget trace ''trace_id''),
       ta_turn_id = norm_text (dget trace ''turn_id''),
       ta_query_summary = norm_text (dget trace ''query_summary''),
       ta_principal_scope_key = norm_text (dget scope ''principal_scope_key''),
       ta_workspace_scope_key = norm_text (dget scope ''workspace_scope_key''),
       ta_receipt_coverage = (if is_mapping coverage then coverage else PNone),
       ta_max_tokens = PInt max_candidate_tokens,
       ta_truncated = truncated\<rparr>)"

definition build_budgeted_evidence_trace :: "pydict \<Rightarrow> int \<Rightarrow> pydict result" where
  "build_budgeted_evidence_trace trace max_candidate_tokens =
     (case iter_or_empty (dget trace ''candidates'') of
        Inl e \<Rightarrow> Inl e
      | Inr items \<Rightarrow>
     (case apply_packet_budget (mappings items) (Some max_candidate_tokens) of
        Inl e \<Rightarrow> Inl e
      | Inr r \<Rightarrow>
     (case build_evidence_trace (budgeted_trace_args trace max_candidate_tokens (pb_truncated r))
             (pb_candidates r) of
        Inl e \<Rightarrow> Inl e
      | Inr budgeted \<Rightarrow>
          Inr (dset ''packet_budget''
                (PDict (dupdate (as_mapping (dget budgeted ''packet_budget'')) (to_trace_packet_budget r)))
                budgeted))))"

definition budget_decision_errors :: "pyval \<Rightarrow> string list" where
  "budget_decision_errors d =
     (if \<not> is_mapping d then [''budget_decision_not_mapping'']
      else
        (if \<exists>k \<in> set (map fst (as_mapping d)). k \<notin> PACKET_BUDGET_TRACE_DECISION_FIELDS
         then [''budget_decision_contains_unregistered_fields''] else []) @
        (if norm_text (dget (as_mapping d) ''reason_code'') \<notin> ALLOWED_PACKET_BUDGET_REASON_CODES
         then [''budget_reason_code_not_registered''] else []))"

definition packet_budget_block_errors :: "pyval \<Rightarrow> string list" where
  "packet_budget_block_errors packet_budget =
     (let block = as_mapping packet_budget in
      if \<not> is_mapping packet_budget then [] else
        concat (map budget_decision_errors (as_list (dget block ''budget_decisions''))) @
        (if dget block ''budget_reason_code_registry_pass'' = PBool False
         then [''budget_reason_code_registry_failed''] else []) @
        (if dget block ''raw_text_in_budget_trace'' = PBool True
         then [''budget_trace_contains_raw_text''] else []) @
        [''budget_'' @ key @ ''_false''. key \<leftarrow> preserved_keys, dget block key = PBool False])"

definition dropped_critical_errors :: "pydict list \<Rightarrow> string list" where
  "dropped_critical_errors cands =
     concat (map (\<lambda>c. if decision_of c = DECISION_DROPPED \<and> is_authority_critical c
                       then [''budget_dropped_authority_critical_evidence''] else []) cands)"

definition validate_packet_budget_trace :: "pydict \<Rightarrow> string list result" where
  "validate_packet_budget_trace trace =
     (case iter_or_empty (dget trace ''candidates'') of
        Inl e \<Rightarrow> Inl e
      | Inr items \<Rightarrow>
          Inr (dropped_critical_errors (mappings items) @
               packet_budget_block_errors (dget trace ''packet_budget'')))"

section \<open>Lemmas on the accessors\<close>

text \<open>What a copied decision changes and what it keeps.\<close>

lemma dget_copy_frame:
  "k \<notin> {''decision'', ''reason_code'', ''model_facing_allowed'', ''model_facing_default'',
         ''answer_evidence_allowed'', ''answer_evidence'', ''truth_eligible''} \<Longrightarrow>
     dget (copy_with_decision c d r) k = dget c k"
  by (auto simp: copy_with_decision_def Let_def dget_dupdate_frame)

lemma copy_keeps [simp]:
  "tok (copy_with_decision c d r) = tok c"
  "token_estimate (copy_with_decision c d r) = token_estimate c"
  "candidate_id (copy_with_decision c d r) = candidate_id c"
  by (simp_all add: tok_def token_estimate_def candidate_id_def dget_copy_frame)

lemma dget_copy_decision [simp]:
  "dget (copy_with_decision c d r) ''decision'' = PStr d"
  "dget (copy_with_decision c d r) ''reason_code'' = PStr r"
  by (simp_all add: copy_with_decision_def Let_def)

lemma dget_copy_dropped [simp]:
  "dget (copy_with_decision c DECISION_DROPPED r) ''answer_evidence_allowed'' = PBool False"
  "dget (copy_with_decision c DECISION_DROPPED r) ''answer_evidence'' = PBool False"
  "dget (copy_with_decision c DECISION_DROPPED r) ''truth_eligible'' = PBool False"
  "dget (copy_with_decision c DECISION_DROPPED r) ''model_facing_allowed'' = PBool False"
  by (simp_all add: copy_with_decision_def Let_def)

lemma norm_text_constants [simp]:
  "norm_text (PStr DECISION_SELECTED) = DECISION_SELECTED"
  "norm_text (PStr DECISION_DROPPED) = DECISION_DROPPED"
  by code_simp+

lemma decision_of_copy [simp]:
  "decision_of (copy_with_decision c DECISION_SELECTED r) = DECISION_SELECTED"
  "decision_of (copy_with_decision c DECISION_DROPPED r) = DECISION_DROPPED"
  by (simp_all add: decision_of_def)

lemma decision_of_select_protected [simp]:
  "decision_of (select_protected c) = DECISION_SELECTED" "tok (select_protected c) = tok c"
  "candidate_id (select_protected c) = candidate_id c"
  by (simp_all add: select_protected_def)

lemma tok_nonneg [simp]: "0 \<le> tok c"
  by (auto simp: tok_def token_estimate_def split: sum.splits)

lemma sum_tok_simps [simp]:
  "sum_tok [] = 0" "sum_tok (c # cs) = tok c + sum_tok cs" "sum_tok (xs @ ys) = sum_tok xs + sum_tok ys"
  by (simp_all add: sum_tok_def)

lemma sum_tok_nonneg [simp]: "0 \<le> sum_tok cs"
  by (induction cs) simp_all

lemma sum_tok_map_select [simp]: "sum_tok (map select_protected cs) = sum_tok cs"
  by (induction cs) simp_all

lemma sum_tok_mset: "mset xs = mset ys \<Longrightarrow> sum_tok xs = sum_tok ys"
  unfolding sum_tok_def by (metis mset_map sum_mset_sum_list)

lemma sum_tok_sort_key [simp]: "sum_tok (sort_key f cs) = sum_tok cs"
  by (rule sum_tok_mset) simp

section \<open>The filling loop\<close>

text \<open>
  A loop that moves cost from what remains to what is spent: whatever it spends was there at
  the start. The optional pass is such a loop.
\<close>

locale budget_loop =
  fixes step :: "'a \<Rightarrow> 's \<Rightarrow> 's"
    and spent :: "'s \<Rightarrow> int"
    and remaining :: "'s \<Rightarrow> int"
  assumes step_conserves: "spent (step x s) + remaining (step x s) = spent s + remaining s"
    and step_nonneg: "0 \<le> remaining s \<Longrightarrow> 0 \<le> remaining (step x s)"
begin

lemma fold_conserves: "spent (fold step xs s) + remaining (fold step xs s) = spent s + remaining s"
  by (induction xs arbitrary: s) (simp_all add: step_conserves)

lemma fold_nonneg: "0 \<le> remaining s \<Longrightarrow> 0 \<le> remaining (fold step xs s)"
  by (induction xs arbitrary: s) (simp_all add: step_nonneg)

lemma spent_bounded: "0 \<le> remaining s \<Longrightarrow> spent (fold step xs s) \<le> spent s + remaining s"
  using fold_conserves [of xs s] fold_nonneg [of s xs] by linarith

end

definition state_spent :: "budget_state \<Rightarrow> int" where
  "state_spent s = sum_tok (fst s)"

definition state_remaining :: "budget_state \<Rightarrow> int" where
  "state_remaining s = snd (snd s)"

interpretation optional: budget_loop "optional_step dups" state_spent state_remaining for dups
  by unfold_locales (auto simp: state_spent_def state_remaining_def)

text \<open>Every selected entry of the loop is marked selected, every new dropped one is dropped.\<close>

definition state_marked :: "pydict list \<Rightarrow> budget_state \<Rightarrow> bool" where
  "state_marked pre s \<longleftrightarrow>
     list_all (\<lambda>c. decision_of c = DECISION_SELECTED) (fst s) \<and>
     list_all (\<lambda>c. c \<in> set pre \<or> decision_of c = DECISION_DROPPED) (fst (snd s))"

lemma optional_step_marked: "state_marked pre s \<Longrightarrow> state_marked pre (optional_step dups c s)"
  by (cases s) (auto simp: state_marked_def)

lemma fold_optional_marked: "state_marked pre s \<Longrightarrow> state_marked pre (fold (optional_step dups) cs s)"
  by (induction cs arbitrary: s) (simp_all add: optional_step_marked)

lemma fill_budget_marked: "state_marked pre (fill_budget m pre active)"
  unfolding fill_budget_def Let_def
  by (rule fold_optional_marked) (simp add: state_marked_def list_all_iff)

lemma fill_budget_spent:
  assumes "sum_tok (protected_candidates active) \<le> m"
  shows "state_spent (fill_budget m pre active) \<le> m"
  unfolding fill_budget_def Let_def
  by (rule order_trans [OF optional.spent_bounded])
     (use assms in \<open>simp_all add: state_spent_def state_remaining_def\<close>)

lemma sum_tok_decided_split:
  "list_all (\<lambda>c. decision_of c = DECISION_SELECTED) xs \<Longrightarrow>
   list_all (\<lambda>c. decision_of c \<noteq> DECISION_SELECTED) ys \<Longrightarrow>
     sum_tok (decided {DECISION_SELECTED} (xs @ ys)) = sum_tok xs"
  by (induction xs) (auto simp: decided_def list_all_iff)

lemma not_active_decision: "\<not> is_active c \<Longrightarrow> decision_of c \<noteq> DECISION_SELECTED"
  by (auto simp: is_active_def DROPPED_DECISIONS_def)

lemma apply_packet_budget_Inr:
  "apply_packet_budget cands m = Inr r \<Longrightarrow> \<exists>before. r = apply_checked cands m before"
  by (auto simp: apply_packet_budget_def split: sum.splits)

text \<open>The two budgeted outcomes, by name.\<close>

lemma apply_checked_insufficient:
  assumes "sum_tok (protected_candidates (filter is_active cands)) > m"
  shows "apply_checked cands (Some m) before =
    (let active = filter is_active cands; protected = protected_candidates active in
     budget_result (map select_protected protected)
       (filter (\<lambda>c. \<not> is_active c) cands @
        drop_insufficient (map candidate_id protected) (duplicate_lower_authority_ids active) active)
       BUDGET_STATUS_INSUFFICIENT_AUTHORITY m before (sum_tok protected) True)"
  using assms by (simp add: apply_checked_def Let_def)

lemma apply_checked_filled:
  assumes "\<not> sum_tok (protected_candidates (filter is_active cands)) > m"
  shows "\<exists>status. apply_checked cands (Some m) before =
    (let s = fill_budget m (filter (\<lambda>c. \<not> is_active c) cands) (filter is_active cands) in
     budget_result (fst s) (fst (snd s)) status m before
       (sum_tok (protected_candidates (filter is_active cands))) False)"
  using assms
  by (cases "fill_budget m (filter (\<lambda>c. \<not> is_active c) cands) (filter is_active cands)")
     (auto simp: apply_checked_def Let_def)


lemma apply_checked_cases:
  obtains (insufficient) "sum_tok (protected_candidates (filter is_active cands)) > m"
    "apply_checked cands (Some m) before =
      budget_result (map select_protected (protected_candidates (filter is_active cands)))
       (filter (\<lambda>c. \<not> is_active c) cands @
        drop_insufficient (map candidate_id (protected_candidates (filter is_active cands)))
          (duplicate_lower_authority_ids (filter is_active cands)) (filter is_active cands))
       BUDGET_STATUS_INSUFFICIENT_AUTHORITY m before
       (sum_tok (protected_candidates (filter is_active cands))) True"
  | (filled) sel drp rem status where
    "sum_tok (protected_candidates (filter is_active cands)) \<le> m"
    "fill_budget m (filter (\<lambda>c. \<not> is_active c) cands) (filter is_active cands) = (sel, drp, rem)"
    "apply_checked cands (Some m) before =
      budget_result sel drp status m before (sum_tok (protected_candidates (filter is_active cands))) False"
proof (cases "sum_tok (protected_candidates (filter is_active cands)) > m")
  case True
  with apply_checked_insufficient [OF True] insufficient show thesis by (simp add: Let_def)
next
  case False
  obtain sel drp rem where
    f: "fill_budget m (filter (\<lambda>c. \<not> is_active c) cands) (filter is_active cands) = (sel, drp, rem)"
    by (cases "fill_budget m (filter (\<lambda>c. \<not> is_active c) cands) (filter is_active cands)")
  with apply_checked_filled [OF False] filled False show thesis by (auto simp: Let_def)
qed

text \<open>The selected total of a filled budget, and the selected entries kept by the loop.\<close>

lemma filled_selected_tokens:
  assumes f: "fill_budget m pre active = (sel, drp, rem)"
    and pre: "list_all (\<lambda>c. decision_of c \<noteq> DECISION_SELECTED) pre"
  shows "sum_tok (decided {DECISION_SELECTED} (sel @ drp)) = sum_tok sel"
proof (rule sum_tok_decided_split)
  have "state_marked pre (sel, drp, rem)" using fill_budget_marked [of pre m active] by (simp add: f)
  with pre show "list_all (\<lambda>c. decision_of c = DECISION_SELECTED) sel"
    and "list_all (\<lambda>c. decision_of c \<noteq> DECISION_SELECTED) drp"
    by (auto simp: state_marked_def list_all_iff)
qed

lemma fold_optional_keeps_selected: "set (fst s) \<subseteq> set (fst (fold (optional_step dups) cs s))"
proof (induction cs arbitrary: s)
  case (Cons c cs)
  have "set (fst s) \<subseteq> set (fst (optional_step dups c s))" by (cases s) auto
  also have "\<dots> \<subseteq> set (fst (fold (optional_step dups) cs (optional_step dups c s)))" by (rule Cons.IH)
  finally show ?case by simp
qed simp

lemma filled_keeps_protected:
  assumes "fill_budget m pre active = (sel, drp, rem)" and "c \<in> set (protected_candidates active)"
  shows "select_protected c \<in> set sel"
proof -
  let ?s = "(map select_protected (sort_key protected_order (protected_candidates active)), pre,
             m - sum_tok (protected_candidates active))"
  have "select_protected c \<in> set (fst ?s)" using assms(2) by simp
  then have "select_protected c \<in> set (fst (fill_budget m pre active))"
    unfolding fill_budget_def Let_def using fold_optional_keeps_selected by blast
  with assms(1) show ?thesis by simp
qed

text \<open>Identifiers are carried through the passes.\<close>

abbreviation ids :: "pydict list \<Rightarrow> string multiset" where
  "ids cs \<equiv> mset (map candidate_id cs)"

lemma fold_optional_ids:
  "ids (fst (fold (optional_step dups) cs s)) + ids (fst (snd (fold (optional_step dups) cs s))) =
     ids cs + ids (fst s) + ids (fst (snd s))"
proof (induction cs arbitrary: s)
  case (Cons c cs)
  have "ids (fst (optional_step dups c s)) + ids (fst (snd (optional_step dups c s))) =
      {#candidate_id c#} + ids (fst s) + ids (fst (snd s))"
    by (cases s) auto
  with Cons show ?case by simp
qed simp

lemma ids_sort_key [simp]: "ids (sort_key f cs) = ids cs"
  by (simp add: mset_map)

lemma ids_map_select [simp]: "ids (map select_protected cs) = ids cs"
  by (induction cs) simp_all

lemma ids_drop_insufficient:
  "ids (drop_insufficient pids dups active) = ids (filter (\<lambda>c. candidate_id c \<notin> set pids) active)"
  by (induction active) (simp_all add: drop_insufficient_def)

lemma ids_filter_split: "ids (filter P cs) + ids (filter (\<lambda>c. \<not> P c) cs) = ids cs"
  by (induction cs) auto

lemma filter_by_ids:
  "distinct (map candidate_id cs) \<Longrightarrow>
     filter (\<lambda>c. candidate_id c \<notin> set (map candidate_id (filter P cs))) cs = filter (\<lambda>c. \<not> P c) cs"
proof (rule filter_cong)
  fix c assume d: "distinct (map candidate_id cs)" and c: "c \<in> set cs"
  have "inj_on candidate_id (set cs)" using d by (simp add: distinct_map)
  with c show "(candidate_id c \<notin> set (map candidate_id (filter P cs))) = (\<not> P c)"
    by (auto simp: inj_on_def)
qed simp

lemma ids_optional:
  "distinct (map candidate_id active) \<Longrightarrow>
     ids (protected_candidates active) + ids (optional_candidates active) = ids active"
  unfolding optional_candidates_def protected_candidates_def
  by (simp only: filter_by_ids ids_filter_split)

section \<open>Duplicate groups\<close>

lemma map_of_group_by_fingerprint:
  assumes "k \<noteq> []"
  shows "map_of (group_by_fingerprint cands) k =
    (let g = filter (\<lambda>c. fingerprint_key c = k) cands in if g = [] then None else Some g)"
proof -
  have "map_of (fold (\<lambda>c al. if fingerprint_key c = [] then al
            else AList.map_default (fingerprint_key c) [c] (\<lambda>g. g @ [c]) al) cs al) k =
      (let g = filter (\<lambda>c. fingerprint_key c = k) cs in
       case map_of al k of None \<Rightarrow> if g = [] then None else Some g | Some h \<Rightarrow> Some (h @ g))"
    for cs and al :: "(string \<times> pydict list) list"
    using assms by (induction cs arbitrary: al) (auto simp: map_of_map_default Let_def split: option.splits)
  then show ?thesis by (simp add: group_by_fingerprint_def)
qed

lemma group_keys:
  "distinct (map fst (group_by_fingerprint cands)) \<and> [] \<notin> set (map fst (group_by_fingerprint cands))"
proof -
  have "distinct (map fst al) \<and> [] \<notin> set (map fst al) \<Longrightarrow>
      distinct (map fst (fold (\<lambda>c al. if fingerprint_key c = [] then al
            else AList.map_default (fingerprint_key c) [c] (\<lambda>g. g @ [c]) al) cs al)) \<and>
      [] \<notin> set (map fst (fold (\<lambda>c al. if fingerprint_key c = [] then al
            else AList.map_default (fingerprint_key c) [c] (\<lambda>g. g @ [c]) al) cs al))"
    for cs and al :: "(string \<times> pydict list) list"
  proof (induction cs arbitrary: al)
    case (Cons c cs)
    have keys: "set (map fst (AList.map_default k v f al)) = insert k (set (map fst al))"
      for k v and f :: "pydict list \<Rightarrow> pydict list"
      by (induction al) auto
    have dist: "distinct (map fst al) \<Longrightarrow> distinct (map fst (AList.map_default k v f al))"
      for k v and f :: "pydict list \<Rightarrow> pydict list"
      by (rule distinct_map_default)
    show ?case
      using Cons.prems keys dist by (cases "fingerprint_key c = []") (auto intro!: Cons.IH simp del: set_map)
  qed simp
  then show ?thesis by (simp add: group_by_fingerprint_def)
qed

lemma in_group_by_fingerprint:
  "(k, g) \<in> set (group_by_fingerprint cands) \<longleftrightarrow>
     k \<noteq> [] \<and> g = filter (\<lambda>c. fingerprint_key c = k) cands \<and> g \<noteq> []"
proof -
  have "(k, g) \<in> set (group_by_fingerprint cands) \<longleftrightarrow> map_of (group_by_fingerprint cands) k = Some g"
    using group_keys by (metis map_of_SomeD map_of_is_SomeI)
  moreover have "(k, g) \<in> set (group_by_fingerprint cands) \<Longrightarrow> k \<noteq> []"
    using group_keys by force
  ultimately show ?thesis
    using map_of_group_by_fingerprint [of k cands] by (cases "k = []") (auto simp: Let_def split: if_splits)
qed

lemma group_winner_min:
  "g \<noteq> [] \<Longrightarrow> group_winner g \<in> set g \<and> (\<forall>c \<in> set g. rank_key (group_winner g) \<le> rank_key c)"
proof -
  assume "g \<noteq> []"
  then obtain w ws where s: "sort_key rank_key g = w # ws"
    by (cases "sort_key rank_key g") (auto dest: arg_cong [where f = length])
  have "sorted (map rank_key (sort_key rank_key g))" by simp
  moreover have "set (w # ws) = set g" using s set_sort [of rank_key g] by metis
  ultimately show ?thesis by (auto simp: group_winner_def s)
qed

lemma duplicate_id_loses:
  "i \<in> set (duplicate_lower_authority_ids cands) \<Longrightarrow>
     \<exists>c \<in> set cands. candidate_id c = i \<and> fingerprint_key c \<noteq> [] \<and>
       i \<noteq> candidate_id (group_winner (filter (\<lambda>d. fingerprint_key d = fingerprint_key c) cands))"
  by (auto simp: duplicate_lower_authority_ids_def in_group_by_fingerprint split: if_splits)

lemma winner_not_duplicate:
  assumes "distinct (map candidate_id cands)" and "c \<in> set cands" and "fingerprint_key c \<noteq> []"
  defines "w \<equiv> group_winner (filter (\<lambda>d. fingerprint_key d = fingerprint_key c) cands)"
  shows "w \<in> set cands \<and> fingerprint_key w = fingerprint_key c \<and> rank_key w \<le> rank_key c \<and>
    candidate_id w \<notin> set (duplicate_lower_authority_ids cands)"
proof -
  let ?g = "filter (\<lambda>d. fingerprint_key d = fingerprint_key c) cands"
  have ne: "c \<in> set ?g" using assms(2) by simp
  then have "?g \<noteq> []" by (metis list.set_cases empty_iff list.set(1))
  from group_winner_min [OF this] ne have w: "w \<in> set ?g" "rank_key w \<le> rank_key c"
    by (auto simp: w_def)
  have "candidate_id w \<notin> set (duplicate_lower_authority_ids cands)"
  proof
    assume "candidate_id w \<in> set (duplicate_lower_authority_ids cands)"
    from duplicate_id_loses [OF this] obtain d where d: "d \<in> set cands" "candidate_id d = candidate_id w"
      "candidate_id w \<noteq> candidate_id (group_winner (filter (\<lambda>e. fingerprint_key e = fingerprint_key d) cands))"
      by blast
    have "d = w" using d(1,2) w(1) assms(1) by (auto simp: distinct_map inj_on_def)
    with d(3) w(1) show False by (auto simp: w_def)
  qed
  with w show ?thesis by auto
qed

section \<open>Properties\<close>

text \<open>Sample candidates for the concrete instances.\<close>

definition sample_fact :: pydict where
  "sample_fact =
    [(''candidate_id'', PStr ''fact''), (''authority'', PStr ''durable_truth''),
     (''answer_evidence_allowed'', PBool True), (''truth_eligible'', PBool True),
     (''stable_key'', PStr ''city''), (''token_estimate'', PInt 4)]"

definition sample_support :: pydict where
  "sample_support =
    [(''candidate_id'', PStr ''support''), (''authority'', PStr ''support_only''),
     (''stable_key'', PStr ''mood''), (''token_estimate'', PInt 8)]"

definition sample_echo :: pydict where
  "sample_echo =
    [(''candidate_id'', PStr ''echo''), (''authority'', PStr ''support_only''),
     (''stable_key'', PStr ''city''), (''token_estimate'', PInt 3)]"

definition sample_required :: pydict where
  "sample_required =
    [(''candidate_id'', PStr ''required''), (''required_for_answer'', PBool True),
     (''stable_key'', PStr ''city''), (''token_estimate'', PInt 3)]"

definition sample_receipt :: pydict where
  "sample_receipt =
    [(''candidate_id'', PStr ''receipt''), (''authority'', PStr ''receipt_backed''),
     (''stable_key'', PStr ''city''), (''token_estimate'', PInt 50)]"

lemmas sample_defs = sample_fact_def sample_support_def sample_echo_def sample_required_def sample_receipt_def

lemma candidate_id_comp_select [simp]: "candidate_id \<circ> select_protected = candidate_id"
  by (rule ext) simp

lemma decided_append: "decided ds (xs @ ys) = decided ds xs @ decided ds ys"
  by (simp add: decided_def)

lemma sample_tok [simp]:
  "token_estimate sample_fact = Inr 4" "token_estimate sample_support = Inr 8" "token_estimate sample_echo = Inr 3"
  "token_estimate sample_required = Inr 3" "token_estimate sample_receipt = Inr 50"
  "tok sample_fact = 4" "tok sample_support = 8" "tok sample_echo = 3" "tok sample_required = 3" "tok sample_receipt = 50"
  by (simp_all add: sample_defs tok_def token_estimate_def py_or_def)

lemma sample_id [simp]:
  "candidate_id sample_fact = ''fact''" "candidate_id sample_support = ''support''"
  "candidate_id sample_echo = ''echo''" "candidate_id sample_required = ''required''"
  "candidate_id sample_receipt = ''receipt''"
  by (simp_all add: sample_defs candidate_id_def text_eval)

lemma sample_active [simp]:
  "is_active sample_fact" "is_active sample_support" "is_active sample_echo" "is_active sample_required"
  "is_active sample_receipt"
  by (simp_all add: sample_defs is_active_def decision_of_def DROPPED_DECISIONS_def)

lemma sample_critical [simp]:
  "is_authority_critical sample_fact" "\<not> is_authority_critical sample_support"
  "\<not> is_authority_critical sample_echo" "is_authority_critical sample_required"
  "\<not> is_authority_critical sample_receipt"
  by (simp_all add: sample_defs is_authority_critical_def authority_of_def PROTECTED_AUTHORITIES_def
      answer_allowed_def text_eval)

lemma sample_weight [simp]:
  "authority_weight sample_fact = 1" "authority_weight sample_support = 20" "authority_weight sample_echo = 20"
  "authority_weight sample_required = 10" "authority_weight sample_receipt = 0"
  by (simp_all add: sample_defs authority_weight_def authority_of_def text_eval)

lemma sample_key [simp]:
  "fingerprint_key sample_fact = ''city''" "fingerprint_key sample_support = ''mood''"
  "fingerprint_key sample_echo = ''city''" "fingerprint_key sample_required = ''city''"
  "fingerprint_key sample_receipt = ''city''"
  by (simp_all add: sample_defs fingerprint_key_def text_eval)

lemma sample_answer [simp]:
  "answer_allowed sample_fact" "\<not> answer_allowed sample_support" "\<not> answer_allowed sample_echo"
  "\<not> answer_allowed sample_required" "\<not> answer_allowed sample_receipt"
  by (simp_all add: sample_defs answer_allowed_def)

lemmas pass_defs = apply_packet_budget_def apply_checked_def protected_candidates_def
  optional_candidates_def fill_budget_def duplicate_lower_authority_ids_def group_by_fingerprint_def
  group_winner_def rank_key_def protected_order_def budget_result_def decided_def DROPPED_DECISIONS_def
  drop_insufficient_def

text \<open>The pass on concrete lists; the witnesses below instantiate the properties with them.\<close>

lemma sample_pass_tight:
  "\<exists>r. apply_packet_budget [sample_support, sample_fact, sample_echo] (Some 10) = Inr r \<and> \<not> pb_fail_closed r \<and>
     map candidate_id (pb_candidates r) = [''fact'', ''echo'', ''support'']"
  by (simp add: pass_defs)

lemma sample_pass_closed:
  "\<exists>r. apply_packet_budget [sample_support, sample_fact] (Some 3) = Inr r \<and> pb_fail_closed r"
  by (simp add: pass_defs)

text \<open>
  C1: unless the pass fails closed, the tokens it selects fit the budget, whatever the
  candidates are: repeated identifiers, negative or converted estimates included.
\<close>

theorem selected_tokens_within_budget:
  assumes "apply_packet_budget cands (Some m) = Inr r" and "\<not> pb_fail_closed r"
  shows "pb_selected_candidate_tokens r \<le> m"
proof -
  from apply_packet_budget_Inr [OF assms(1)] obtain before where r: "r = apply_checked cands (Some m) before"
    by blast
  show ?thesis
  proof (cases rule: apply_checked_cases [of m cands before])
    case insufficient
    with assms(2) r show ?thesis by (simp add: budget_result_def Let_def)
  next
    case (filled sel drp rem status)
    have "list_all (\<lambda>c. decision_of c \<noteq> DECISION_SELECTED) (filter (\<lambda>c. \<not> is_active c) cands)"
      by (auto simp: list_all_iff dest: not_active_decision)
    from filled_selected_tokens [OF filled(2) this] fill_budget_spent [OF filled(1)] filled(2)
    show ?thesis unfolding r filled(3) by (simp add: budget_result_def Let_def state_spent_def) (metis fst_conv)
  qed
qed

theorem selected_tokens_within_budget_witness:
  "\<exists>r. apply_packet_budget [sample_support, sample_fact, sample_echo] (Some 10) = Inr r \<and>
       pb_selected_candidate_tokens r \<le> 10 \<and> map candidate_id (pb_candidates r) = [''fact'', ''echo'', ''support'']"
proof -
  obtain r where r: "apply_packet_budget [sample_support, sample_fact, sample_echo] (Some 10) = Inr r"
    "\<not> pb_fail_closed r" "map candidate_id (pb_candidates r) = [''fact'', ''echo'', ''support'']"
    using sample_pass_tight by metis
  from selected_tokens_within_budget [OF r(1,2)] r(1,3) show ?thesis by metis
qed

text \<open>
  C2: an active authority-critical candidate whose identifier is not that of a losing duplicate
  is among the selected candidates of every budgeted pass, with its protected reason code,
  whatever the limit: also when the pass fails closed.
\<close>

theorem protected_always_selected:
  assumes "apply_packet_budget cands (Some m) = Inr r"
    and "c \<in> set cands" "is_active c" "is_authority_critical c"
    and "candidate_id c \<notin> set (duplicate_lower_authority_ids (filter is_active cands))"
  shows "select_protected c \<in> set (pb_candidates r)"
proof -
  from apply_packet_budget_Inr [OF assms(1)] obtain before where r: "r = apply_checked cands (Some m) before"
    by blast
  have p: "c \<in> set (protected_candidates (filter is_active cands))"
    using assms(2-5) by (simp add: protected_candidates_def)
  show ?thesis
  proof (cases rule: apply_checked_cases [of m cands before])
    case insufficient
    with p r show ?thesis by (simp add: budget_result_def Let_def)
  next
    case (filled sel drp rem status)
    from filled_keeps_protected [OF filled(2) p] show ?thesis
      unfolding r filled(3) by (simp add: budget_result_def Let_def)
  qed
qed

theorem protected_always_selected_witness:
  "\<exists>r. apply_packet_budget [sample_support, sample_fact] (Some 3) = Inr r \<and> pb_fail_closed r \<and>
       select_protected sample_fact \<in> set (pb_candidates r)"
proof -
  obtain r where r: "apply_packet_budget [sample_support, sample_fact] (Some 3) = Inr r" "pb_fail_closed r"
    using sample_pass_closed by blast
  have "select_protected sample_fact \<in> set (pb_candidates r)"
    by (rule protected_always_selected [OF r(1)]) (simp_all add: pass_defs)
  with r show ?thesis by blast
qed

text \<open>
  The pass fails closed exactly when the protected candidates alone exceed the limit, and
  then the selected part of its output is exactly those candidates, in their input order.
\<close>

theorem fail_closed_iff_minimum_exceeds:
  assumes "apply_packet_budget cands (Some m) = Inr r"
  shows "pb_authority_minimum_tokens r = sum_tok (protected_candidates (filter is_active cands)) \<and>
    pb_fail_closed r = (pb_authority_minimum_tokens r > m) \<and>
    (pb_fail_closed r \<longrightarrow> decided {DECISION_SELECTED} (pb_candidates r) =
       map select_protected (protected_candidates (filter is_active cands)))"
proof -
  from apply_packet_budget_Inr [OF assms] obtain before where r: "r = apply_checked cands (Some m) before"
    by blast
  show ?thesis
  proof (cases rule: apply_checked_cases [of m cands before])
    case insufficient
    have "decided {DECISION_SELECTED} (map select_protected ps) = map select_protected ps" for ps
      by (induction ps) (simp_all add: decided_def)
    moreover have "decided {DECISION_SELECTED} (drop_insufficient ps ds cs) = []" for ps ds cs
      by (auto simp: decided_def drop_insufficient_def filter_empty_conv)
    moreover have "decided {DECISION_SELECTED} (filter (\<lambda>c. \<not> is_active c) cs) = []" for cs
      by (auto simp: decided_def filter_empty_conv dest: not_active_decision)
    ultimately show ?thesis using insufficient r
      by (simp add: budget_result_def Let_def decided_append)
  next
    case (filled sel drp rem status)
    then show ?thesis unfolding r filled(3) by (simp add: budget_result_def Let_def)
  qed
qed

theorem fail_closed_iff_minimum_exceeds_witness:
  "\<exists>r. apply_packet_budget [sample_support, sample_fact] (Some 3) = Inr r \<and> pb_fail_closed r \<and>
       pb_authority_minimum_tokens r > 3 \<and>
       decided {DECISION_SELECTED} (pb_candidates r) =
         map select_protected (protected_candidates (filter is_active [sample_support, sample_fact]))"
  using sample_pass_closed fail_closed_iff_minimum_exceeds by blast

text \<open>
  No candidate is invented and none is lost: when the identifiers are distinct, the result
  carries exactly the input identifiers, with and without a limit, in both outcomes.
\<close>

theorem pass_conserves_candidates:
  assumes "apply_packet_budget cands limit = Inr r" and "distinct (map candidate_id cands)"
  shows "mset (map candidate_id (pb_candidates r)) = mset (map candidate_id cands)"
proof (cases limit)
  case None
  with apply_packet_budget_Inr [OF assms(1)] show ?thesis by (auto simp: apply_checked_def)
next
  case (Some m)
  with apply_packet_budget_Inr [OF assms(1)] obtain before where r: "r = apply_checked cands (Some m) before"
    by blast
  have d: "distinct (map candidate_id (filter is_active cands))" using assms(2) by (simp add: distinct_map_filter)
  show ?thesis
  proof (cases rule: apply_checked_cases [of m cands before])
    case insufficient
    have "ids (protected_candidates (filter is_active cands)) +
        ids (drop_insufficient (map candidate_id (protected_candidates (filter is_active cands)))
               (duplicate_lower_authority_ids (filter is_active cands)) (filter is_active cands)) =
        ids (filter is_active cands)"
      unfolding ids_drop_insufficient using ids_optional [OF d] unfolding optional_candidates_def .
    from this [symmetric] ids_filter_split [of is_active cands, symmetric] show ?thesis
      unfolding r insufficient(2) by (simp add: budget_result_def Let_def ac_simps)
  next
    case (filled sel drp rem status)
    have "ids sel + ids drp = ids (optional_candidates (filter is_active cands)) +
        ids (protected_candidates (filter is_active cands)) + ids (filter (\<lambda>c. \<not> is_active c) cands)"
      using fold_optional_ids filled(2) unfolding fill_budget_def Let_def
      by (metis fst_conv snd_conv ids_sort_key ids_map_select)
    with ids_optional [OF d] ids_filter_split [of is_active cands] show ?thesis
      unfolding r filled(3) by (simp add: budget_result_def Let_def ac_simps)
  qed
qed

theorem pass_conserves_candidates_witness:
  "\<exists>r. apply_packet_budget [sample_support, sample_fact, sample_echo] (Some 10) = Inr r \<and>
       mset (map candidate_id (pb_candidates r)) = {#''echo'', ''fact'', ''support''#}"
proof -
  obtain r where r: "apply_packet_budget [sample_support, sample_fact, sample_echo] (Some 10) = Inr r"
    using sample_pass_tight by blast
  from pass_conserves_candidates [OF r] have
    "mset (map candidate_id (pb_candidates r)) = {#''echo'', ''fact'', ''support''#}" by simp
  with r show ?thesis by blast
qed

definition decided_copy :: "pydict \<Rightarrow> pydict \<Rightarrow> bool" where
  "decided_copy c d \<longleftrightarrow>
     (\<exists>dec reason. d = copy_with_decision c dec reason \<and> dec \<in> {DECISION_SELECTED, DECISION_DROPPED} \<and>
        reason \<in> ALLOWED_PACKET_BUDGET_REASON_CODES)"

lemma drop_reason_allowed: "drop_reason c x y \<in> ALLOWED_PACKET_BUDGET_REASON_CODES"
  by (simp add: drop_reason_def ALLOWED_PACKET_BUDGET_REASON_CODES_def)

lemma select_reason_allowed: "select_reason c \<in> ALLOWED_PACKET_BUDGET_REASON_CODES"
  by (simp add: select_reason_def ALLOWED_PACKET_BUDGET_REASON_CODES_def)

lemma decided_copy_intros:
  "decided_copy c (select_protected c)"
  "decided_copy c (copy_with_decision c DECISION_DROPPED (drop_reason c x y))"
  "decided_copy c (copy_with_decision c DECISION_SELECTED (select_reason c))"
  "decided_copy c (copy_with_decision c DECISION_SELECTED ''selected_budget_within_limit'')"
  unfolding decided_copy_def select_protected_def
  using drop_reason_allowed select_reason_allowed
  by (force simp: ALLOWED_PACKET_BUDGET_REASON_CODES_def)+

lemma decided_copy_dropped:
  "decided_copy c d \<Longrightarrow> decision_of d = DECISION_DROPPED \<Longrightarrow> \<not> answer_allowed d \<and> \<not> truthy (dget d ''truth_eligible'')"
  by (auto simp: decided_copy_def answer_allowed_def)

lemma drop_insufficient_entry:
  "d \<in> set (drop_insufficient pids dups active) \<Longrightarrow> \<exists>c \<in> set active. decided_copy c d"
proof -
  assume "d \<in> set (drop_insufficient pids dups active)"
  then obtain c where "c \<in> set active" "\<exists>x y. d = copy_with_decision c DECISION_DROPPED (drop_reason c x y)"
    by (auto simp: drop_insufficient_def split: if_splits)
  then show ?thesis using decided_copy_intros(2) by blast
qed

lemma select_protected_entry:
  "c \<in> set (protected_candidates active) \<Longrightarrow> \<exists>c' \<in> set active. decided_copy c' (select_protected c)"
  by (intro bexI [of _ c] decided_copy_intros) (simp add: protected_candidates_def)

definition entries_from :: "pydict list \<Rightarrow> pydict list \<Rightarrow> budget_state \<Rightarrow> bool" where
  "entries_from pre active s \<longleftrightarrow>
     list_all (\<lambda>d. list_ex (\<lambda>c. decided_copy c d) active \<or> d \<in> set pre) (fst s @ fst (snd s))"

lemma fold_optional_entries:
  "set cs \<subseteq> set active \<Longrightarrow> entries_from pre active s \<Longrightarrow>
     entries_from pre active (fold (optional_step dups) cs s)"
proof (induction cs arbitrary: s)
  case (Cons c cs)
  have "entries_from pre active (optional_step dups c s)"
    using Cons.prems by (cases s) (auto simp: entries_from_def list_all_iff list_ex_iff intro: decided_copy_intros)
  with Cons show ?case by simp
qed simp

lemma fill_budget_entries: "entries_from pre active (fill_budget m pre active)"
  unfolding fill_budget_def Let_def
  by (rule fold_optional_entries)
     (auto simp: entries_from_def list_all_iff list_ex_iff optional_candidates_def protected_candidates_def
        intro: decided_copy_intros)

lemma budgeted_entries:
  assumes r: "r = apply_checked cands (Some m) before" and d: "d \<in> set (pb_candidates r)"
  shows "(\<exists>c \<in> set (filter is_active cands). decided_copy c d) \<or> d \<in> set (filter (\<lambda>c. \<not> is_active c) cands)"
proof (cases rule: apply_checked_cases [of m cands before])
  case insufficient
  with d show ?thesis unfolding r insufficient(2)
    by (auto simp: budget_result_def Let_def dest!: drop_insufficient_entry select_protected_entry)
next
  case (filled sel drp rem status)
  with d fill_budget_entries [of "filter (\<lambda>c. \<not> is_active c) cands" "filter is_active cands" m]
  show ?thesis unfolding r filled(3)
    by (auto simp: budget_result_def Let_def entries_from_def list_all_iff list_ex_iff)
qed

text \<open>
  Nothing the pass drops can still be taken for answer evidence: each entry of a budgeted
  result is either an input candidate that had already been dropped or demoted, or the copy of an
  active one that is selected or dropped with a registered budget reason code; a dropped copy has
  lost its answer, truth and model-facing permissions.
\<close>

theorem dropped_copies_are_sanitized:
  assumes "apply_packet_budget cands (Some m) = Inr r" and "d \<in> set (pb_candidates r)"
  shows "(d \<in> set cands \<and> decision_of d \<in> {DECISION_DROPPED, DECISION_DEMOTED}) \<or>
    ((\<exists>c \<in> set cands. is_active c \<and> decided_copy c d) \<and>
     (decision_of d = DECISION_SELECTED \<or>
       (decision_of d = DECISION_DROPPED \<and> \<not> answer_allowed d \<and> \<not> truthy (dget d ''truth_eligible''))))"
proof -
  from apply_packet_budget_Inr [OF assms(1)] obtain before where r: "r = apply_checked cands (Some m) before"
    by blast
  from budgeted_entries [OF r assms(2)] show ?thesis
  proof
    assume "\<exists>c \<in> set (filter is_active cands). decided_copy c d"
    then obtain c where c: "c \<in> set cands" "is_active c" "decided_copy c d" by auto
    then have "decision_of d \<in> {DECISION_SELECTED, DECISION_DROPPED}" by (auto simp: decided_copy_def)
    with c decided_copy_dropped [OF c(3)] show ?thesis by blast
  qed (auto simp: is_active_def DROPPED_DECISIONS_def)
qed

theorem dropped_copies_are_sanitized_witness:
  "\<exists>r d. apply_packet_budget [sample_support, sample_fact, sample_echo] (Some 10) = Inr r \<and>
       d \<in> set (pb_candidates r) \<and> candidate_id d = ''echo'' \<and>
       (decision_of d = DECISION_SELECTED \<or> (\<not> answer_allowed d \<and> \<not> truthy (dget d ''truth_eligible'')))"
proof -
  obtain r where r: "apply_packet_budget [sample_support, sample_fact, sample_echo] (Some 10) = Inr r"
    "map candidate_id (pb_candidates r) = [''fact'', ''echo'', ''support'']"
    using sample_pass_tight by metis
  then have "''echo'' \<in> candidate_id ` set (pb_candidates r)" by (metis list.set_intros list.set_map)
  then obtain d where d: "d \<in> set (pb_candidates r)" "candidate_id d = ''echo''" by force
  have "list_all is_active [sample_support, sample_fact, sample_echo]" by simp
  then have "\<not> (d \<in> set [sample_support, sample_fact, sample_echo] \<and> decision_of d \<in> {DECISION_DROPPED, DECISION_DEMOTED})"
    unfolding list_all_iff is_active_def DROPPED_DECISIONS_def by blast
  with dropped_copies_are_sanitized [OF r(1) d(1)] d r(1) show ?thesis by blast
qed

section \<open>The exported block passes its validator\<close>

lemma fold_optional_dropped:
  "set (fst (snd (fold (optional_step dups) cs s))) \<subseteq>
     set (fst (snd s)) \<union> {copy_with_decision c DECISION_DROPPED r | c r. c \<in> set cs}"
proof (induction cs arbitrary: s)
  case (Cons c cs)
  have "set (fst (snd (optional_step dups c s))) \<subseteq>
      set (fst (snd s)) \<union> {copy_with_decision c DECISION_DROPPED r | r. True}"
    by (cases s) auto
  with Cons [of "optional_step dups c s"] show ?case by fastforce
qed simp

lemma critical_copy_dropped:
  "is_authority_critical (copy_with_decision c DECISION_DROPPED r) \<Longrightarrow> is_authority_critical c"
  by (auto simp: is_authority_critical_def answer_allowed_def dget_copy_frame)

text \<open>Every critical candidate is protected: none of them loses a duplicate group.\<close>

definition criticals_protected :: "pydict list \<Rightarrow> bool" where
  "criticals_protected active \<longleftrightarrow>
     list_all (\<lambda>c. is_authority_critical c \<longrightarrow> candidate_id c \<notin> set (duplicate_lower_authority_ids active)) active"

lemma unprotected_not_critical:
  assumes "criticals_protected active" "c \<in> set active"
    "candidate_id c \<notin> set (map candidate_id (protected_candidates active))"
  shows "\<not> is_authority_critical c"
  using assms by (auto simp: criticals_protected_def protected_candidates_def list_all_iff)

lemma budgeted_dropped_not_critical:
  assumes r: "r = apply_checked cands (Some m) before"
    and act: "list_all is_active cands" and cp: "criticals_protected cands"
    and d: "d \<in> set (pb_candidates r)" "decision_of d = DECISION_DROPPED"
  shows "\<not> is_authority_critical d"
proof -
  have fa: "filter is_active cands = cands" "filter (\<lambda>c. \<not> is_active c) cands = []"
    using act by (simp_all add: list_all_iff filter_empty_conv filter_id_conv)
  have "\<exists>c \<in> set cands. candidate_id c \<notin> set (map candidate_id (protected_candidates cands)) \<and>
      (\<exists>rsn. d = copy_with_decision c DECISION_DROPPED rsn)"
  proof (cases rule: apply_checked_cases [of m cands before])
    case insufficient
    with d show ?thesis unfolding r insufficient(2) fa
      by (auto simp: budget_result_def Let_def drop_insufficient_def)
  next
    case (filled sel drp rem status)
    have f: "fill_budget m [] cands = (sel, drp, rem)" using filled(2) by (simp add: fa)
    have "d \<in> set sel \<or> d \<in> set drp" using d(1) unfolding r filled(3) by (simp add: budget_result_def Let_def)
    moreover have "d \<notin> set sel"
      using fill_budget_marked [of "[]" m cands] d(2) by (auto simp: f state_marked_def list_all_iff)
    ultimately have "d \<in> set (fst (snd (fill_budget m [] cands)))" by (simp add: f)
    then obtain c rsn where "c \<in> set (optional_candidates cands)" "d = copy_with_decision c DECISION_DROPPED rsn"
      unfolding fill_budget_def Let_def using fold_optional_dropped by fastforce
    then show ?thesis by (auto simp: optional_candidates_def)
  qed
  then show ?thesis using unprotected_not_critical [OF cp] critical_copy_dropped by blast
qed

lemma norm_text_allowed:
  "s \<in> ALLOWED_PACKET_BUDGET_REASON_CODES \<Longrightarrow> norm_text (PStr s) = s"
  unfolding ALLOWED_PACKET_BUDGET_REASON_CODES_def by (simp, elim disjE) (simp_all add: text_eval)

lemma decided_copy_reason:
  "decided_copy c d \<Longrightarrow> norm_text (dget d ''reason_code'') \<in> ALLOWED_PACKET_BUDGET_REASON_CODES"
  by (auto simp: decided_copy_def norm_text_allowed)

lemma budget_decision_row_ok:
  "norm_text (dget c ''reason_code'') \<in> ALLOWED_PACKET_BUDGET_REASON_CODES \<Longrightarrow>
     budget_decision_errors (PDict (budget_decision_row c)) = []"
  by (simp add: budget_decision_errors_def budget_decision_row_def PACKET_BUDGET_TRACE_DECISION_FIELDS_def)

lemma dget_in_block:
  "key \<in> set preserved_keys \<Longrightarrow> dget (to_trace_packet_budget r) key = PBool True"
  unfolding preserved_keys_def by (simp, elim disjE) (simp_all add: to_trace_packet_budget_def)

lemma distinct_block: "distinct (map fst (to_trace_packet_budget r))"
  by (simp add: to_trace_packet_budget_def)

lemma dget_merged_block:
  "k \<in> set (map fst (to_trace_packet_budget r)) \<Longrightarrow>
     dget (dupdate d (to_trace_packet_budget r)) k = dget (to_trace_packet_budget r) k"
  using distinct_block [of r] by (auto simp: dget_dupdate_in dget_in)

lemma block_errors_none:
  assumes "list_all (\<lambda>c. norm_text (dget c ''reason_code'') \<in> ALLOWED_PACKET_BUDGET_REASON_CODES) (pb_candidates r)"
  shows "packet_budget_block_errors (PDict (dupdate d (to_trace_packet_budget r))) = []"
proof -
  let ?b = "dupdate d (to_trace_packet_budget r)"
  have "dget ?b ''budget_decisions'' = PList (map (\<lambda>c. PDict (budget_decision_row c)) (pb_candidates r))"
    "dget ?b ''budget_reason_code_registry_pass'' = PBool True" "dget ?b ''raw_text_in_budget_trace'' = PBool False"
    using assms by (simp_all add: dget_merged_block to_trace_packet_budget_def)
  moreover have "key \<in> set preserved_keys \<Longrightarrow> dget ?b key = PBool True" for key
  proof (subst dget_merged_block)
    assume k: "key \<in> set preserved_keys"
    then show "key \<in> set (map fst (to_trace_packet_budget r))"
      unfolding preserved_keys_def by (simp, elim disjE) (simp_all add: to_trace_packet_budget_def)
    show "dget (to_trace_packet_budget r) key = PBool True" by (rule dget_in_block [OF k])
  qed
  moreover have "concat (map (budget_decision_errors \<circ> (\<lambda>c. PDict (budget_decision_row c))) (pb_candidates r)) = []"
    using assms by (auto simp: list_all_iff intro!: budget_decision_row_ok)
  ultimately show ?thesis unfolding packet_budget_block_errors_def Let_def by auto
qed

lemma dropped_critical_none:
  "(\<And>d. d \<in> set cs \<Longrightarrow> decision_of d = DECISION_DROPPED \<Longrightarrow> \<not> is_authority_critical d) \<Longrightarrow>
     dropped_critical_errors cs = []"
  by (auto simp: dropped_critical_errors_def)

text \<open>
  The producer satisfies its validator: when every candidate is still active and no
  authority-critical one loses a duplicate group, the budgeted trace validates without an error.
\<close>

theorem budgeted_trace_validates:
  assumes "build_budgeted_evidence_trace trace m = Inr t"
    and "dget trace ''candidates'' = PList (map PDict cands)"
    and "list_all is_active cands" and "criticals_protected cands"
  shows "validate_packet_budget_trace t = Inr []"
proof -
  from assms(1,2) obtain r bt where r: "apply_packet_budget cands (Some m) = Inr r"
    and bt: "build_evidence_trace (budgeted_trace_args trace m (pb_truncated r)) (pb_candidates r) = Inr bt"
    and t: "t = dset ''packet_budget'' (PDict (dupdate (as_mapping (dget bt ''packet_budget'')) (to_trace_packet_budget r))) bt"
    by (auto simp: build_budgeted_evidence_trace_def split: sum.splits)
  from apply_packet_budget_Inr [OF r] obtain before where rb: "r = apply_checked cands (Some m) before" by blast
  have c: "dget t ''candidates'' = PList (map PDict (pb_candidates r))"
    using build_evidence_trace_Inr [OF bt] by (auto simp: t)
  have "d \<in> set (pb_candidates r) \<Longrightarrow> \<exists>c. decided_copy c d" for d
    using budgeted_entries [OF rb, of d] assms(3) by (auto simp: list_all_iff)
  then have "packet_budget_block_errors (dget t ''packet_budget'') = []"
    unfolding t by simp (rule block_errors_none, auto simp: list_all_iff intro: decided_copy_reason)
  moreover have "dropped_critical_errors (pb_candidates r) = []"
    by (rule dropped_critical_none) (rule budgeted_dropped_not_critical [OF rb assms(3,4)])
  ultimately show ?thesis by (simp add: validate_packet_budget_trace_def c)
qed

lemma raw_tokens_copy [simp]:
  "raw_tokens (copy_with_decision c d r) = raw_tokens c" "raw_tokens (select_protected c) = raw_tokens c"
  by (simp_all add: raw_tokens_def select_protected_def dget_copy_frame)

text \<open>A pass that returns gives a trace that returns: the estimates convert.\<close>

lemma raw_tokens_estimate: "token_estimate c = Inr n \<Longrightarrow> \<exists>k. raw_tokens c = Inr k"
  by (auto simp: token_estimate_def raw_tokens_def split: sum.splits)

lemma map_result_exists: "(\<And>x. x \<in> set xs \<Longrightarrow> \<exists>y. f x = Inr y) \<Longrightarrow> \<exists>ys. map_result f xs = Inr ys"
  by (induction xs) fastforce+

lemma budgeted_raw_tokens:
  assumes "apply_packet_budget cands (Some m) = Inr r" and "d \<in> set (pb_candidates r)"
  shows "\<exists>k. raw_tokens d = Inr k"
proof -
  have conv: "c \<in> set cands \<Longrightarrow> \<exists>k. raw_tokens c = Inr k" for c
    using assms(1) map_result_all raw_tokens_estimate
    by (fastforce simp: apply_packet_budget_def split: sum.splits)
  from apply_packet_budget_Inr [OF assms(1)] obtain before where "r = apply_checked cands (Some m) before" by blast
  from budgeted_entries [OF this assms(2)] conv show ?thesis by (auto simp: decided_copy_def)
qed

text \<open>
  The budgeted build raises only when the plain conversion of an estimate does: if the
  candidates are a list of mappings whose estimates convert, a budgeted trace is returned, and its
  budget block is the exported result of the pass.
\<close>

theorem budgeted_trace_returns:
  assumes "apply_packet_budget cands (Some m) = Inr r"
    and "dget trace ''candidates'' = PList (map PDict cands)"
  shows "\<exists>t block. build_budgeted_evidence_trace trace m = Inr t \<and> dget t ''packet_budget'' = PDict block \<and>
    (\<forall>(k, v) \<in> set (to_trace_packet_budget r). dget block k = v) \<and>
    dget t ''candidates'' = PList (map PDict (pb_candidates r))"
proof -
  obtain ts where ts: "map_result raw_tokens (pb_candidates r) = Inr ts"
    using map_result_exists [of "pb_candidates r" raw_tokens] budgeted_raw_tokens [OF assms(1)] by blast
  then obtain bt where bt: "build_evidence_trace (budgeted_trace_args trace m (pb_truncated r)) (pb_candidates r) = Inr bt"
    by (simp add: build_evidence_trace_def Let_def)
  have "dget bt ''candidates'' = PList (map PDict (pb_candidates r))"
    using build_evidence_trace_Inr [OF bt] by auto
  then show ?thesis
    using assms bt distinct_block [of r] unfolding build_budgeted_evidence_trace_def
    by (auto intro!: dget_dupdate_in)
qed

definition sample_trace :: pydict where
  "sample_trace = [(''candidates'', PList (map PDict [sample_support, sample_fact, sample_echo]))]"

theorem budgeted_trace_returns_witness:
  "\<exists>t. build_budgeted_evidence_trace sample_trace 10 = Inr t \<and> is_mapping (dget t ''packet_budget'')"
proof -
  obtain r where r: "apply_packet_budget [sample_support, sample_fact, sample_echo] (Some 10) = Inr r"
    using sample_pass_tight by metis
  have "dget sample_trace ''candidates'' = PList (map PDict [sample_support, sample_fact, sample_echo])"
    by (simp add: sample_trace_def)
  from budgeted_trace_returns [OF r this] show ?thesis by auto
qed

theorem budgeted_trace_validates_witness:
  "\<exists>t. build_budgeted_evidence_trace sample_trace 10 = Inr t \<and> validate_packet_budget_trace t = Inr []"
proof -
  have c: "dget sample_trace ''candidates'' = PList (map PDict [sample_support, sample_fact, sample_echo])"
    by (simp add: sample_trace_def)
  have a: "list_all is_active [sample_support, sample_fact, sample_echo]" by simp
  have p: "criticals_protected [sample_support, sample_fact, sample_echo]"
    by (simp add: criticals_protected_def pass_defs)
  obtain r where r: "apply_packet_budget [sample_support, sample_fact, sample_echo] (Some 10) = Inr r"
    using sample_pass_tight by metis
  obtain ts where "map_result raw_tokens (pb_candidates r) = Inr ts"
    using map_result_exists [of "pb_candidates r" raw_tokens] budgeted_raw_tokens [OF r] by blast
  then obtain t where t: "build_budgeted_evidence_trace sample_trace 10 = Inr t"
    unfolding build_budgeted_evidence_trace_def c using r by (simp add: build_evidence_trace_def Let_def)
  from budgeted_trace_validates [OF t c a p] t show ?thesis by blast
qed

section \<open>Boundaries of the protection\<close>

text \<open>
  A candidate that is authority-critical is not always kept: when a copy of the same
  fingerprint ranks higher, the critical one is dropped as a duplicate, and the copy itself can
  then be dropped for its size. Nothing is selected, and the validator reports the loss.
\<close>

theorem critical_duplicate_can_be_lost:
  "is_authority_critical sample_required \<and>
   (\<exists>r. apply_packet_budget [sample_required, sample_receipt] (Some 10) = Inr r \<and>
      \<not> pb_fail_closed r \<and> decided {DECISION_SELECTED} (pb_candidates r) = [] \<and>
      dropped_critical_errors (pb_candidates r) \<noteq> [])"
proof -
  have [simp]: "is_authority_critical (copy_with_decision sample_required DECISION_DROPPED rsn)" for rsn
    by (simp add: is_authority_critical_def dget_copy_frame) (simp add: sample_required_def)
  have [simp]: "dropped_critical_errors (c # cs) =
      (if decision_of c = DECISION_DROPPED \<and> is_authority_critical c
       then [''budget_dropped_authority_critical_evidence''] else []) @ dropped_critical_errors cs" for c cs
    by (simp add: dropped_critical_errors_def)
  show ?thesis by (simp add: pass_defs)
qed

text \<open>
  The conservation of candidates needs their identifiers: of two candidates without one, the
  optional one disappears from the result, neither selected nor dropped.
\<close>

theorem candidates_without_identifier_vanish:
  "\<exists>r. apply_packet_budget [dpop ''candidate_id'' sample_fact, dpop ''candidate_id'' sample_support] (Some 100) = Inr r \<and>
     length (pb_candidates r) = 1"
proof -
  have [simp]: "candidate_id (dpop ''candidate_id'' c) = []" for c
    by (simp add: candidate_id_def)
  have [simp]: "token_estimate (dpop ''candidate_id'' c) = token_estimate c"
    "tok (dpop ''candidate_id'' c) = tok c" for c
    by (simp_all add: tok_def token_estimate_def)
  have [simp]: "is_active (dpop ''candidate_id'' c) = is_active c"
    "is_authority_critical (dpop ''candidate_id'' c) = is_authority_critical c" for c
    by (simp_all add: is_active_def decision_of_def is_authority_critical_def answer_allowed_def authority_of_def)
  have [simp]: "fingerprint_key (dpop ''candidate_id'' c) = fingerprint_key c" for c
    by (simp add: fingerprint_key_def)
  show ?thesis by (simp add: pass_defs)
qed

end
