(* ===== verification/AdmissionPolicy.thy ===== *)
theory AdmissionPolicy
  imports PyHash
begin

text \<open>
  \<open>brainstack/core/admission.py\<close> and \<open>brainstack/admission_policy.py\<close>: the enumerations, the slot
  registry, the classification of a candidate's authority from its metadata, the claim proposals and
  the admission decision, the write permits and their metadata. The registry and alias tables
  are transcribed entry by entry. \<open>float()\<close>, used once for the unused confidence of a proposal, is
  an argument of the two functions that build proposals.
\<close>

section \<open>Enumerations\<close>

datatype admission_decision_type =
    ACCEPT_DURABLE
  | ACCEPT_WITH_SUPERSESSION
  | ACCEPT_SUPPORTING_EVENT
  | MARK_CORRECTED_FALSE_EVENT
  | QUARANTINE_PROPOSAL
  | REJECT_CANDIDATE

fun decision_value :: "admission_decision_type \<Rightarrow> string" where
  "decision_value ACCEPT_DURABLE = ''ACCEPT_DURABLE''"
| "decision_value ACCEPT_WITH_SUPERSESSION = ''ACCEPT_WITH_SUPERSESSION''"
| "decision_value ACCEPT_SUPPORTING_EVENT = ''ACCEPT_SUPPORTING_EVENT''"
| "decision_value MARK_CORRECTED_FALSE_EVENT = ''MARK_CORRECTED_FALSE_EVENT''"
| "decision_value QUARANTINE_PROPOSAL = ''QUARANTINE_PROPOSAL''"
| "decision_value REJECT_CANDIDATE = ''REJECT_CANDIDATE''"

datatype support_visibility =
    VIS_ANSWER_EVIDENCE
  | VIS_NORMAL
  | VIS_HISTORY_ONLY
  | VIS_CONTRADICTION_ONLY
  | VIS_INSPECT_ONLY

fun visibility_value :: "support_visibility \<Rightarrow> string" where
  "visibility_value VIS_ANSWER_EVIDENCE = ''answer_evidence''"
| "visibility_value VIS_NORMAL = ''normal''"
| "visibility_value VIS_HISTORY_ONLY = ''history_only''"
| "visibility_value VIS_CONTRADICTION_ONLY = ''contradiction_only''"
| "visibility_value VIS_INSPECT_ONLY = ''inspect_only''"

datatype assertion_speaker =
    SPK_USER
  | SPK_ASSISTANT
  | SPK_TOOL
  | SPK_RUNTIME
  | SPK_TRUSTED_HOST
  | SPK_TRUSTED_IMPORT
  | SPK_QUOTED_USER
  | SPK_QUOTED_ASSISTANT
  | SPK_UNKNOWN

fun speaker_value :: "assertion_speaker \<Rightarrow> string" where
  "speaker_value SPK_USER = ''user''"
| "speaker_value SPK_ASSISTANT = ''assistant''"
| "speaker_value SPK_TOOL = ''tool''"
| "speaker_value SPK_RUNTIME = ''runtime''"
| "speaker_value SPK_TRUSTED_HOST = ''trusted_host''"
| "speaker_value SPK_TRUSTED_IMPORT = ''trusted_import''"
| "speaker_value SPK_QUOTED_USER = ''quoted_user''"
| "speaker_value SPK_QUOTED_ASSISTANT = ''quoted_assistant''"
| "speaker_value SPK_UNKNOWN = ''unknown''"

definition assertion_speakers :: "assertion_speaker list" where
  "assertion_speakers =
    [SPK_USER, SPK_ASSISTANT, SPK_TOOL, SPK_RUNTIME, SPK_TRUSTED_HOST, SPK_TRUSTED_IMPORT, SPK_QUOTED_USER, SPK_QUOTED_ASSISTANT, SPK_UNKNOWN]"

datatype span_kind =
    SPAN_ASSERTION
  | SPAN_CORRECTION
  | SPAN_QUOTE
  | SPAN_QUESTION
  | SPAN_TOOL_RESULT
  | SPAN_RUNTIME_DIAGNOSTIC
  | SPAN_ASSISTANT_ANSWER
  | SPAN_SUMMARY
  | SPAN_UNKNOWN

fun span_kind_value :: "span_kind \<Rightarrow> string" where
  "span_kind_value SPAN_ASSERTION = ''assertion''"
| "span_kind_value SPAN_CORRECTION = ''correction''"
| "span_kind_value SPAN_QUOTE = ''quote''"
| "span_kind_value SPAN_QUESTION = ''question''"
| "span_kind_value SPAN_TOOL_RESULT = ''tool_result''"
| "span_kind_value SPAN_RUNTIME_DIAGNOSTIC = ''runtime_diagnostic''"
| "span_kind_value SPAN_ASSISTANT_ANSWER = ''assistant_answer''"
| "span_kind_value SPAN_SUMMARY = ''summary''"
| "span_kind_value SPAN_UNKNOWN = ''unknown''"

definition span_kinds :: "span_kind list" where
  "span_kinds =
    [SPAN_ASSERTION, SPAN_CORRECTION, SPAN_QUOTE, SPAN_QUESTION, SPAN_TOOL_RESULT, SPAN_RUNTIME_DIAGNOSTIC, SPAN_ASSISTANT_ANSWER, SPAN_SUMMARY, SPAN_UNKNOWN]"

datatype source_authority =
    AUTH_USER_EXPLICIT_ASSERTION
  | AUTH_USER_EXPLICIT_ASSIGNMENT
  | AUTH_USER_CORRECTION
  | AUTH_TRUSTED_HOST
  | AUTH_TRUSTED_HOST_ASSIGNMENT
  | AUTH_TRUSTED_IMPORT
  | AUTH_TRUSTED_RUNTIME
  | AUTH_OPERATOR_REPAIR
  | AUTH_MIGRATION_BACKFILL
  | AUTH_CANARY_SEED
  | AUTH_ASSISTANT_CLAIM
  | AUTH_ASSISTANT_SELF_CLAIM
  | AUTH_TIER2_SUMMARY
  | AUTH_PULSE_BACKGROUND
  | AUTH_SESSION_RECAP
  | AUTH_GRAPH_INFERENCE
  | AUTH_TRANSCRIPT_EVENT
  | AUTH_RUNTIME_DIAGNOSTIC
  | AUTH_UNKNOWN

fun authority_value :: "source_authority \<Rightarrow> string" where
  "authority_value AUTH_USER_EXPLICIT_ASSERTION = ''user_explicit_assertion''"
| "authority_value AUTH_USER_EXPLICIT_ASSIGNMENT = ''user_explicit_assignment''"
| "authority_value AUTH_USER_CORRECTION = ''user_correction''"
| "authority_value AUTH_TRUSTED_HOST = ''trusted_host''"
| "authority_value AUTH_TRUSTED_HOST_ASSIGNMENT = ''trusted_host_assignment''"
| "authority_value AUTH_TRUSTED_IMPORT = ''trusted_import''"
| "authority_value AUTH_TRUSTED_RUNTIME = ''trusted_runtime''"
| "authority_value AUTH_OPERATOR_REPAIR = ''operator_repair''"
| "authority_value AUTH_MIGRATION_BACKFILL = ''migration_backfill''"
| "authority_value AUTH_CANARY_SEED = ''canary_seed''"
| "authority_value AUTH_ASSISTANT_CLAIM = ''assistant_claim''"
| "authority_value AUTH_ASSISTANT_SELF_CLAIM = ''assistant_self_claim''"
| "authority_value AUTH_TIER2_SUMMARY = ''tier2_summary''"
| "authority_value AUTH_PULSE_BACKGROUND = ''pulse_background''"
| "authority_value AUTH_SESSION_RECAP = ''session_recap''"
| "authority_value AUTH_GRAPH_INFERENCE = ''graph_inference''"
| "authority_value AUTH_TRANSCRIPT_EVENT = ''transcript_event''"
| "authority_value AUTH_RUNTIME_DIAGNOSTIC = ''runtime_diagnostic''"
| "authority_value AUTH_UNKNOWN = ''unknown''"

definition source_authorities :: "source_authority list" where
  "source_authorities =
    [AUTH_USER_EXPLICIT_ASSERTION, AUTH_USER_EXPLICIT_ASSIGNMENT, AUTH_USER_CORRECTION, AUTH_TRUSTED_HOST, AUTH_TRUSTED_HOST_ASSIGNMENT, AUTH_TRUSTED_IMPORT, AUTH_TRUSTED_RUNTIME, AUTH_OPERATOR_REPAIR, AUTH_MIGRATION_BACKFILL, AUTH_CANARY_SEED, AUTH_ASSISTANT_CLAIM, AUTH_ASSISTANT_SELF_CLAIM, AUTH_TIER2_SUMMARY, AUTH_PULSE_BACKGROUND, AUTH_SESSION_RECAP, AUTH_GRAPH_INFERENCE, AUTH_TRANSCRIPT_EVENT, AUTH_RUNTIME_DIAGNOSTIC, AUTH_UNKNOWN]"

datatype truth_shelf =
    SHELF_PROFILE
  | SHELF_GRAPH
  | SHELF_OPERATING
  | SHELF_TASK

fun shelf_value :: "truth_shelf \<Rightarrow> string" where
  "shelf_value SHELF_PROFILE = ''profile''"
| "shelf_value SHELF_GRAPH = ''graph''"
| "shelf_value SHELF_OPERATING = ''operating''"
| "shelf_value SHELF_TASK = ''task''"

definition truth_shelves :: "truth_shelf list" where
  "truth_shelves =
    [SHELF_PROFILE, SHELF_GRAPH, SHELF_OPERATING, SHELF_TASK]"

datatype write_path_class =
    DERIVED_ADMISSION_GATE
  | TRUSTED_EXPLICIT_CAPTURE
  | TRUSTED_HOST_RUNTIME_WRITE
  | MIGRATION_OR_BACKFILL
  | REPAIR_OR_OPERATOR_APPROVED
  | TEST_OR_CANARY_SEED
  | STORAGE_INTERNAL_ONLY

fun write_path_value :: "write_path_class \<Rightarrow> string" where
  "write_path_value DERIVED_ADMISSION_GATE = ''DERIVED_ADMISSION_GATE''"
| "write_path_value TRUSTED_EXPLICIT_CAPTURE = ''TRUSTED_EXPLICIT_CAPTURE''"
| "write_path_value TRUSTED_HOST_RUNTIME_WRITE = ''TRUSTED_HOST_RUNTIME_WRITE''"
| "write_path_value MIGRATION_OR_BACKFILL = ''MIGRATION_OR_BACKFILL''"
| "write_path_value REPAIR_OR_OPERATOR_APPROVED = ''REPAIR_OR_OPERATOR_APPROVED''"
| "write_path_value TEST_OR_CANARY_SEED = ''TEST_OR_CANARY_SEED''"
| "write_path_value STORAGE_INTERNAL_ONLY = ''STORAGE_INTERNAL_ONLY''"

text \<open>\<open>_enum_value\<close>: the first member whose value matches the normalised text.\<close>

definition enum_value :: "'a list \<Rightarrow> ('a \<Rightarrow> string) \<Rightarrow> pyval \<Rightarrow> 'a \<Rightarrow> 'a" where
  "enum_value items value_of v dflt =
     (case filter (\<lambda>i. py_lower (norm_text v) = py_lower (value_of i)) items of i # _ \<Rightarrow> i | [] \<Rightarrow> dflt)"

abbreviation "ADMISSION_POLICY_VERSION \<equiv> ''brainstack.admission.v1''"
abbreviation "SLOT_REGISTRY_VERSION \<equiv> ''brainstack.slot_registry.v1''"

section \<open>Slot registry\<close>

record slot_spec =
  slot_id :: string
  ss_shelf :: string
  ss_storage_key :: string
  ss_value_type :: string
  ss_exclusive_current :: bool
  ss_allowed_authorities :: "source_authority set"
  ss_supporting_authorities :: "source_authority set"
  ss_forbidden_authorities :: "source_authority set"
  ss_default_support_visibility :: support_visibility

definition slot ::
  "string \<Rightarrow> string \<Rightarrow> string \<Rightarrow> bool \<Rightarrow> source_authority set \<Rightarrow> source_authority set \<Rightarrow> support_visibility \<Rightarrow> slot_spec"
where
  "slot i shelf key excl allowed supporting vis =
     \<lparr>slot_id = i, ss_shelf = shelf, ss_storage_key = key, ss_value_type = ''text'',
      ss_exclusive_current = excl, ss_allowed_authorities = allowed, ss_supporting_authorities = supporting,
      ss_forbidden_authorities = {}, ss_default_support_visibility = vis\<rparr>"

definition TRUSTED_AUTHORITIES :: "source_authority set" where
  "TRUSTED_AUTHORITIES =
    {AUTH_USER_EXPLICIT_ASSERTION, AUTH_USER_CORRECTION, AUTH_TRUSTED_HOST, AUTH_TRUSTED_IMPORT}"

definition CURRENT_ASSIGNMENT_AUTHORITIES :: "source_authority list" where
  "CURRENT_ASSIGNMENT_AUTHORITIES =
    [AUTH_USER_EXPLICIT_ASSIGNMENT, AUTH_TRUSTED_HOST_ASSIGNMENT, AUTH_OPERATOR_REPAIR]"

definition SLOT_REGISTRY :: "(string \<times> slot_spec) list" where
  "SLOT_REGISTRY = map (\<lambda>s. (slot_id s, s)) [
      slot ''identity.platform_handle'' ''profile'' ''identity:platform_handle'' True {AUTH_TRUSTED_HOST, AUTH_USER_EXPLICIT_ASSERTION} {} VIS_ANSWER_EVIDENCE,
      slot ''identity.platform_display_name'' ''profile'' ''identity:platform_display_name'' True {AUTH_TRUSTED_HOST, AUTH_USER_EXPLICIT_ASSERTION} {} VIS_ANSWER_EVIDENCE,
      slot ''identity.preferred_address_name'' ''profile'' ''identity:preferred_address_name'' True TRUSTED_AUTHORITIES {} VIS_ANSWER_EVIDENCE,
      slot ''identity.legal_name'' ''profile'' ''identity:legal_name'' True TRUSTED_AUTHORITIES {} VIS_ANSWER_EVIDENCE,
      slot ''identity.age'' ''profile'' ''identity:age'' True TRUSTED_AUTHORITIES {} VIS_ANSWER_EVIDENCE,
      slot ''preference.addressing'' ''profile'' ''preference:addressing'' False TRUSTED_AUTHORITIES {} VIS_ANSWER_EVIDENCE,
      slot ''preference.assistant_address_name'' ''profile'' ''preference:assistant_address_name'' True TRUSTED_AUTHORITIES {} VIS_ANSWER_EVIDENCE,
      slot ''preference.communication_style'' ''profile'' ''preference:communication_style'' False TRUSTED_AUTHORITIES {} VIS_ANSWER_EVIDENCE,
      slot ''preference.formatting'' ''profile'' ''preference:formatting'' False TRUSTED_AUTHORITIES {} VIS_ANSWER_EVIDENCE,
      slot ''preference.verbosity'' ''profile'' ''preference:verbosity'' False TRUSTED_AUTHORITIES {} VIS_ANSWER_EVIDENCE,
      slot ''preference.style_contract'' ''profile'' ''preference:style_contract'' False TRUSTED_AUTHORITIES {} VIS_ANSWER_EVIDENCE,
      slot ''preference.diagnostics'' ''profile'' ''preference:diagnostics'' False TRUSTED_AUTHORITIES {} VIS_ANSWER_EVIDENCE,
      slot ''reference.repository_url'' ''profile'' ''reference:repository_url'' False TRUSTED_AUTHORITIES {} VIS_ANSWER_EVIDENCE,
      slot ''project.created_by'' ''graph'' ''project:created_by'' False TRUSTED_AUTHORITIES {} VIS_ANSWER_EVIDENCE,
      slot ''project.maintained_by'' ''graph'' ''project:maintained_by'' False TRUSTED_AUTHORITIES {} VIS_ANSWER_EVIDENCE,
      slot ''project.inspired_by'' ''graph'' ''project:inspired_by'' False TRUSTED_AUTHORITIES {} VIS_NORMAL,
      slot ''project.component_inspired_by'' ''graph'' ''project:component_inspired_by'' False TRUSTED_AUTHORITIES {} VIS_NORMAL,
      slot ''project.repo_url'' ''graph'' ''project:repo_url'' False TRUSTED_AUTHORITIES {} VIS_ANSWER_EVIDENCE,
      slot ''project.homepage_url'' ''graph'' ''project:homepage_url'' False TRUSTED_AUTHORITIES {} VIS_ANSWER_EVIDENCE,
      slot ''project.related_repo'' ''graph'' ''project:related_repo'' False TRUSTED_AUTHORITIES {} VIS_ANSWER_EVIDENCE,
      slot ''project.donor_source'' ''graph'' ''project:donor_source'' False TRUSTED_AUTHORITIES {} VIS_NORMAL,
      slot ''project.component_role'' ''graph'' ''project:component_role'' False TRUSTED_AUTHORITIES {} VIS_NORMAL,
      slot ''runtime.capability_snapshot_ref'' ''runtime'' ''runtime:capability_snapshot_ref'' False {AUTH_TRUSTED_RUNTIME} {AUTH_RUNTIME_DIAGNOSTIC} VIS_INSPECT_ONLY,
      slot ''operating.live_system_state'' ''operating'' ''operating:live_system_state'' True (TRUSTED_AUTHORITIES \<union> {AUTH_TRUSTED_RUNTIME, AUTH_OPERATOR_REPAIR}) {} VIS_ANSWER_EVIDENCE,
      slot ''operating.current_commitment'' ''operating'' ''operating:current_commitment'' True (set CURRENT_ASSIGNMENT_AUTHORITIES) {} VIS_ANSWER_EVIDENCE,
      slot ''operating.next_step'' ''operating'' ''operating:next_step'' False (set CURRENT_ASSIGNMENT_AUTHORITIES) {} VIS_ANSWER_EVIDENCE,
      slot ''task.actionable'' ''task'' ''task:actionable'' False (set CURRENT_ASSIGNMENT_AUTHORITIES) {} VIS_ANSWER_EVIDENCE]"

definition PROFILE_SLOT_ALIASES :: "(string \<times> string) list" where
  "PROFILE_SLOT_ALIASES = [
      (''identity:platform_handle'', ''identity.platform_handle''),
      (''identity:platform_display_name'', ''identity.platform_display_name''),
      (''identity:preferred_address_name'', ''identity.preferred_address_name''),
      (''identity:preferred_name'', ''identity.preferred_address_name''),
      (''identity:user_name'', ''identity.preferred_address_name''),
      (''identity:legal_name'', ''identity.legal_name''),
      (''identity:age'', ''identity.age''),
      (''reference:repository_url'', ''reference.repository_url''),
      (''preference:addressing'', ''preference.addressing''),
      (''preference:assistant_address_name'', ''preference.assistant_address_name''),
      (''preference:assistant_name'', ''preference.assistant_address_name''),
      (''preference:bot_address_name'', ''preference.assistant_address_name''),
      (''preference:communication_style'', ''preference.communication_style''),
      (''preference:formatting'', ''preference.formatting''),
      (''preference:verbosity'', ''preference.verbosity''),
      (''preference:style_contract'', ''preference.style_contract''),
      (''preference:diagnostics'', ''preference.diagnostics'')]"

definition GRAPH_RELATION_ALIASES :: "(string \<times> string) list" where
  "GRAPH_RELATION_ALIASES = [
      (''created_by'', ''project.created_by''), (''creator_of'', ''project.created_by''),
      (''project.created_by'', ''project.created_by''), (''maintained_by'', ''project.maintained_by''),
      (''project.maintained_by'', ''project.maintained_by''), (''inspired_by'', ''project.inspired_by''),
      (''inspiration'', ''project.inspired_by''), (''project.inspired_by'', ''project.inspired_by''),
      (''component_inspired_by'', ''project.component_inspired_by''), (''project.component_inspired_by'', ''project.component_inspired_by''),
      (''repo_url'', ''project.repo_url''), (''repository_url'', ''project.repo_url''),
      (''project.repo_url'', ''project.repo_url''), (''homepage_url'', ''project.homepage_url''),
      (''project.homepage_url'', ''project.homepage_url''), (''related_repo'', ''project.related_repo''),
      (''project.related_repo'', ''project.related_repo''), (''donor_source'', ''project.donor_source''),
      (''project.donor_source'', ''project.donor_source''), (''component_role'', ''project.component_role''),
      (''project.component_role'', ''project.component_role'')]"

definition CAPABILITY_SLOTS :: "string set" where
  "CAPABILITY_SLOTS = {''assistant.has_shell_access'', ''assistant.has_terminal_access'', ''assistant.has_tool_access'', ''assistant.can_execute_terminal'', ''runtime.shell_access'', ''runtime.terminal_access'', ''runtime.tool_access''}"

section \<open>Reading a payload\<close>

text \<open>\<open>dict(value)\<close>; a list must hold pairs, and keys are strings here.\<close>

fun pair_item :: "pyval \<Rightarrow> (string \<times> pyval) result" where
  "pair_item (PList [PStr k, v]) = Inr (k, v)"
| "pair_item (PStr [c, d]) = Inr ([c], PStr [d])"
| "pair_item (PList _) = Inl ValueError"
| "pair_item (PStr _) = Inl ValueError"
| "pair_item _ = Inl TypeError"

fun py_dict :: "pyval \<Rightarrow> pydict result" where
  "py_dict (PDict d) = Inr d"
| "py_dict (PList xs) = (case map_result pair_item xs of Inl e \<Rightarrow> Inl e | Inr kvs \<Rightarrow> Inr (dupdate [] kvs))"
| "py_dict (PStr s) = (if s = [] then Inr [] else Inl ValueError)"
| "py_dict _ = Inl TypeError"

definition candidate_metadata :: "pydict \<Rightarrow> pydict \<Rightarrow> pydict result" where
  "candidate_metadata candidate base_metadata =
     (let payload = dpop ''_candidate_metadata_sanitized'' base_metadata in
      if truthy (dget base_metadata ''_candidate_metadata_sanitized'') then Inr payload
      else
        (let raw = dget candidate ''metadata'';
             payload = (if is_mapping raw then dupdate payload (as_mapping raw) else payload);
             provenance = dget candidate ''provenance'' in
         if is_mapping provenance then
           (case py_dict (py_or (dget payload ''provenance'') (PDict [])) of
              Inl e \<Rightarrow> Inl e
            | Inr nested \<Rightarrow> Inr (dset ''provenance'' (PDict (dupdate nested (as_mapping provenance))) payload))
         else Inr payload))"

text \<open>The first key with text, in the payload and then in its provenance.\<close>

definition first_text :: "pydict \<Rightarrow> string list \<Rightarrow> string" where
  "first_text payload keys =
     (case filter (\<lambda>t. t \<noteq> []) (map (\<lambda>k. norm_text (dget payload k)) keys) of t # _ \<Rightarrow> t | [] \<Rightarrow> [])"

definition first_metadata_text :: "pydict \<Rightarrow> string list \<Rightarrow> string" where
  "first_metadata_text payload keys =
     (if first_text payload keys \<noteq> [] then first_text payload keys
      else if is_mapping (dget payload ''provenance'') then
        first_text (as_mapping (dget payload ''provenance'')) keys
      else [])"

definition payload_speaker :: "pydict \<Rightarrow> assertion_speaker" where
  "payload_speaker payload =
     enum_value assertion_speakers speaker_value
       (PStr (first_metadata_text payload [''assertion_speaker'', ''speaker'', ''source_role'', ''role'']))
       SPK_UNKNOWN"

definition payload_span_kind :: "pydict \<Rightarrow> span_kind" where
  "payload_span_kind payload =
     enum_value span_kinds span_kind_value (PStr (first_metadata_text payload [''span_kind'', ''kind''])) SPAN_UNKNOWN"

definition explicit_authority :: "pydict \<Rightarrow> source_authority" where
  "explicit_authority payload =
     (let explicit = first_metadata_text payload [''authority_class'', ''source_authority'', ''authority''] in
      if explicit \<noteq> [] then enum_value source_authorities authority_value (PStr explicit) AUTH_UNKNOWN
      else AUTH_UNKNOWN)"

definition verified_proof :: "pydict \<Rightarrow> bool" where
  "verified_proof payload \<longleftrightarrow>
     (let proof = dget payload ''verified_user_span_proof'' in
      is_mapping proof \<and> py_str (py_or (dget (as_mapping proof) ''status'') (PStr [])) = ''verified'')"

definition is_tier2_source :: "string \<Rightarrow> bool" where
  "is_tier2_source source_text \<longleftrightarrow>
     py_startswith source_text ''tier2:'' \<or> py_startswith source_text ''consolidation:''"

definition authority_from_payload :: "pydict \<Rightarrow> string \<Rightarrow> source_authority" where
  "authority_from_payload payload source =
     (let source_text = py_lower (norm_text (PStr source));
          explicit = explicit_authority payload;
          speaker = payload_speaker payload;
          span_kind = payload_span_kind payload in
      if is_tier2_source source_text then
        (if speaker \<in> {SPK_ASSISTANT, SPK_QUOTED_ASSISTANT} \<or>
            explicit \<in> {AUTH_ASSISTANT_CLAIM, AUTH_ASSISTANT_SELF_CLAIM} then AUTH_ASSISTANT_CLAIM
         else if span_kind = SPAN_RUNTIME_DIAGNOSTIC \<or> speaker = SPK_RUNTIME then AUTH_RUNTIME_DIAGNOSTIC
         else if verified_proof payload then AUTH_USER_EXPLICIT_ASSERTION
         else AUTH_TIER2_SUMMARY)
      else if explicit \<noteq> AUTH_UNKNOWN then explicit
      else if speaker \<in> {SPK_ASSISTANT, SPK_QUOTED_ASSISTANT} then AUTH_ASSISTANT_CLAIM
      else if span_kind = SPAN_RUNTIME_DIAGNOSTIC \<or> speaker = SPK_RUNTIME then AUTH_RUNTIME_DIAGNOSTIC
      else if speaker \<in> {SPK_TRUSTED_HOST, SPK_TRUSTED_IMPORT} then AUTH_TRUSTED_HOST
      else if speaker = SPK_USER \<or> py_startswith source_text ''user'' then
        (if span_kind = SPAN_CORRECTION then AUTH_USER_CORRECTION else AUTH_USER_EXPLICIT_ASSERTION)
      else if py_startswith source_text ''session_recap:'' then AUTH_SESSION_RECAP
      else if py_startswith source_text ''pulse:'' \<or> py_startswith source_text ''background:''
        then AUTH_PULSE_BACKGROUND
      else AUTH_UNKNOWN)"

definition speaker_from_payload :: "pydict \<Rightarrow> source_authority \<Rightarrow> assertion_speaker" where
  "speaker_from_payload payload authority =
     (let speaker = payload_speaker payload in
      if authority = AUTH_TIER2_SUMMARY \<and> speaker = SPK_USER then SPK_UNKNOWN
      else if speaker \<noteq> SPK_UNKNOWN then speaker
      else if authority \<in> {AUTH_USER_EXPLICIT_ASSERTION, AUTH_USER_CORRECTION} then SPK_USER
      else if authority = AUTH_RUNTIME_DIAGNOSTIC then SPK_RUNTIME
      else if authority = AUTH_ASSISTANT_CLAIM then SPK_ASSISTANT
      else if authority \<in> {AUTH_TRUSTED_HOST, AUTH_TRUSTED_IMPORT} then SPK_TRUSTED_HOST
      else SPK_UNKNOWN)"

definition span_kind_from_payload :: "pydict \<Rightarrow> source_authority \<Rightarrow> span_kind" where
  "span_kind_from_payload payload authority =
     (let span_kind = payload_span_kind payload in
      if span_kind \<noteq> SPAN_UNKNOWN then span_kind
      else if authority = AUTH_USER_CORRECTION then SPAN_CORRECTION
      else if authority = AUTH_RUNTIME_DIAGNOSTIC then SPAN_RUNTIME_DIAGNOSTIC
      else if authority = AUTH_ASSISTANT_CLAIM then SPAN_ASSISTANT_ANSWER
      else SPAN_ASSERTION)"

section \<open>Canonical slots\<close>

definition after_last_colon :: "string \<Rightarrow> string" where
  "after_last_colon s = rev (takeWhile (\<lambda>c. c \<noteq> CHR '':'') (rev s))"

definition canonical_profile_slot :: "string \<Rightarrow> string \<Rightarrow> string" where
  "canonical_profile_slot stable_key category =
     (let raw = py_replace_char (CHR ''.'') (CHR '':'') (py_lower (norm_text (PStr stable_key))) in
      case map_of PROFILE_SLOT_ALIASES raw of
        Some s \<Rightarrow> s
      | None \<Rightarrow>
          if raw = ''identity:name'' then ''identity.name''
          else if py_startswith raw ''preference:'' then py_replace_first (CHR '':'') (CHR ''.'') raw
          else if py_lower (norm_text (PStr category)) = ''preference'' \<and> raw \<noteq> []
            then ''preference.'' @ after_last_colon raw
          else py_replace_first (CHR '':'') (CHR ''.'') raw)"

definition canonical_graph_slot :: "string \<Rightarrow> string \<Rightarrow> string" where
  "canonical_graph_slot attribute predicate =
     (let key = py_replace_char (CHR '' '') (CHR ''_'')
                  (py_lower (norm_text (PStr (if predicate \<noteq> [] then predicate else attribute)))) in
      case map_of GRAPH_RELATION_ALIASES key of
        Some s \<Rightarrow> s | None \<Rightarrow> py_replace_char (CHR '':'') (CHR ''.'') key)"

definition is_runtime_capability_slot :: "string \<Rightarrow> bool" where
  "is_runtime_capability_slot s \<longleftrightarrow>
     (let normalized = py_replace_char (CHR '' '') (CHR ''_'')
            (py_replace_char (CHR '':'') (CHR ''.'') (py_lower (norm_text (PStr s)))) in
      normalized \<in> CAPABILITY_SLOTS \<or>
      list_ex (\<lambda>part. py_contains part normalized)
        [''shell_access'', ''terminal_access'', ''tool_access'', ''capability''])"

section \<open>Proposals\<close>

record claim_proposal =
  cp_claim_id :: string
  cp_proposal_type :: string
  cp_source_event_id :: string
  cp_source_turn_id :: string
  cp_source_span_id :: string
  cp_turn_role :: string
  cp_assertion_speaker :: assertion_speaker
  cp_span_kind :: span_kind
  cp_target_shelf :: string
  cp_target_slot :: string
  cp_target_scope :: string
  cp_storage_key :: string
  cp_subject :: string
  cp_predicate :: string
  cp_surface_value :: string
  cp_normalized_value :: string
  cp_candidate_value :: string
  cp_language :: string
  cp_normalization_method :: string
  cp_authority_class :: source_authority
  cp_confidence :: pyval
  cp_source_text_hash :: string
  cp_trace_id :: string
  cp_metadata :: pydict

definition admitted_value :: "claim_proposal \<Rightarrow> string" where
  "admitted_value p =
     (if cp_normalized_value p \<noteq> [] then cp_normalized_value p
      else if cp_candidate_value p \<noteq> [] then cp_candidate_value p
      else cp_surface_value p)"

definition hash_text :: "string \<Rightarrow> string" where
  "hash_text s = sha256_hex (norm_text (PStr s))"

definition confidence_source :: "pydict \<Rightarrow> pydict \<Rightarrow> pyval" where
  "confidence_source candidate meta =
     py_or (dget_default candidate ''confidence'' (dget_default meta ''confidence'' (PFloat 0 ''0.0'')))
       (PFloat 0 ''0.0'')"

definition profile_claim_proposal ::
  "(pyval \<Rightarrow> pyval result) \<Rightarrow> pydict \<Rightarrow> string \<Rightarrow> pydict \<Rightarrow> string \<Rightarrow> string \<Rightarrow> string \<Rightarrow> claim_proposal result" where
  "profile_claim_proposal py_float candidate source base_metadata stable_key category content =
     (case candidate_metadata candidate base_metadata of
        Inl e \<Rightarrow> Inl e
      | Inr meta \<Rightarrow>
     (case py_float (confidence_source candidate meta) of
        Inl e \<Rightarrow> Inl e
      | Inr confidence \<Rightarrow>
        (let authority = authority_from_payload meta source;
             target_slot = canonical_profile_slot stable_key category;
             trace_id = first_metadata_text meta [''trace_id'', ''correlation_id''];
             claim_seed = source @ ''|'' @ stable_key @ ''|'' @ content @ ''|'' @ trace_id in
         Inr \<lparr>cp_claim_id = ''profile:'' @ take 24 (hash_text claim_seed),
              cp_proposal_type =
                (if py_startswith target_slot ''identity.'' then ''profile.identity'' else ''profile.preference''),
              cp_source_event_id = first_metadata_text meta [''source_event_id'', ''event_id''],
              cp_source_turn_id = first_metadata_text meta [''source_turn_id'', ''turn_id''],
              cp_source_span_id = first_metadata_text meta [''source_span_id'', ''span_id''],
              cp_turn_role = first_metadata_text meta [''turn_role'', ''role'', ''source_role''],
              cp_assertion_speaker = speaker_from_payload meta authority,
              cp_span_kind = span_kind_from_payload meta authority,
              cp_target_shelf = ''profile'', cp_target_slot = target_slot,
              cp_target_scope = first_metadata_text meta [''target_scope'', ''principal_scope'', ''scope''],
              cp_storage_key = stable_key,
              cp_subject = norm_text (py_or (dget candidate ''subject'') (PStr ''principal'')),
              cp_predicate = target_slot,
              cp_surface_value = first_metadata_text meta [''surface_value'', ''raw_user_span'', ''raw_value''],
              cp_normalized_value = first_metadata_text meta [''normalized_value'', ''canonical_value''],
              cp_candidate_value = content,
              cp_language = first_metadata_text meta [''language'', ''lang''],
              cp_normalization_method = first_metadata_text meta [''normalization_method'', ''extractor''],
              cp_authority_class = authority, cp_confidence = confidence,
              cp_source_text_hash = hash_text content, cp_trace_id = trace_id, cp_metadata = meta\<rparr>)))"

definition graph_claim_proposal ::
  "(pyval \<Rightarrow> pyval result) \<Rightarrow> pydict \<Rightarrow> string \<Rightarrow> pydict \<Rightarrow> string \<Rightarrow> string \<Rightarrow> string \<Rightarrow> string \<Rightarrow> claim_proposal result" where
  "graph_claim_proposal py_float candidate source base_metadata target_kind subject predicate value =
     (case candidate_metadata candidate base_metadata of
        Inl e \<Rightarrow> Inl e
      | Inr meta \<Rightarrow>
     (case py_float (confidence_source candidate meta) of
        Inl e \<Rightarrow> Inl e
      | Inr confidence \<Rightarrow>
        (let authority = authority_from_payload meta source;
             target_slot = canonical_graph_slot (if target_kind = ''state'' then predicate else []) predicate;
             trace_id = first_metadata_text meta [''trace_id'', ''correlation_id''];
             claim_seed = source @ ''|'' @ subject @ ''|'' @ predicate @ ''|'' @ value @ ''|'' @ trace_id in
         Inr \<lparr>cp_claim_id = ''graph:'' @ take 24 (hash_text claim_seed),
              cp_proposal_type =
                (if py_startswith target_slot ''project.'' then ''project.metadata'' else ''graph.relation''),
              cp_source_event_id = first_metadata_text meta [''source_event_id'', ''event_id''],
              cp_source_turn_id = first_metadata_text meta [''source_turn_id'', ''turn_id''],
              cp_source_span_id = first_metadata_text meta [''source_span_id'', ''span_id''],
              cp_turn_role = first_metadata_text meta [''turn_role'', ''role'', ''source_role''],
              cp_assertion_speaker = speaker_from_payload meta authority,
              cp_span_kind = span_kind_from_payload meta authority,
              cp_target_shelf = ''graph'', cp_target_slot = target_slot,
              cp_target_scope = first_metadata_text meta [''target_scope'', ''project_scope'', ''scope''],
              cp_storage_key = target_slot, cp_subject = subject, cp_predicate = predicate,
              cp_surface_value = first_metadata_text meta [''surface_value'', ''raw_user_span'', ''raw_value''],
              cp_normalized_value = first_metadata_text meta [''normalized_value'', ''canonical_value''],
              cp_candidate_value = value,
              cp_language = first_metadata_text meta [''language'', ''lang''],
              cp_normalization_method = first_metadata_text meta [''normalization_method'', ''extractor''],
              cp_authority_class = authority, cp_confidence = confidence,
              cp_source_text_hash = hash_text (subject @ '' '' @ predicate @ '' '' @ value),
              cp_trace_id = trace_id,
              cp_metadata = dset ''target_kind'' (PStr target_kind) meta\<rparr>)))"

section \<open>The admission decision\<close>

record admission_decision =
  ad_decision :: admission_decision_type
  ad_reason_code :: string
  ad_proposal :: claim_proposal
  ad_target_slot :: string
  ad_storage_key :: string
  ad_stable_key :: string
  ad_truth_eligible :: bool
  ad_support_visibility :: support_visibility
  ad_supersede :: bool
  ad_policy_version :: string
  ad_slot_registry_version :: string
  ad_notes :: string

definition ad_accepted :: "admission_decision \<Rightarrow> bool" where
  "ad_accepted d \<longleftrightarrow> ad_decision d \<in> {ACCEPT_DURABLE, ACCEPT_WITH_SUPERSESSION}"

definition make_decision ::
  "claim_proposal \<Rightarrow> admission_decision_type \<Rightarrow> string \<Rightarrow> slot_spec option \<Rightarrow> bool \<Rightarrow> support_visibility \<Rightarrow> bool \<Rightarrow>
     string \<Rightarrow> admission_decision" where
  "make_decision p decision reason_code spec truth_eligible visibility supersede notes =
     (let storage_key = (case spec of Some s \<Rightarrow> ss_storage_key s | None \<Rightarrow> cp_storage_key p);
          stable_key = (case spec of
             Some s \<Rightarrow> if ss_shelf s \<in> {''operating'', ''task''} \<and> norm_text (PStr (cp_storage_key p)) \<noteq> []
                       then norm_text (PStr (cp_storage_key p)) else storage_key
           | None \<Rightarrow> storage_key) in
      \<lparr>ad_decision = decision, ad_reason_code = reason_code, ad_proposal = p,
       ad_target_slot = (case spec of Some s \<Rightarrow> slot_id s | None \<Rightarrow> cp_target_slot p),
       ad_storage_key = storage_key, ad_stable_key = stable_key,
       ad_truth_eligible = truth_eligible, ad_support_visibility = visibility, ad_supersede = supersede,
       ad_policy_version = ADMISSION_POLICY_VERSION, ad_slot_registry_version = SLOT_REGISTRY_VERSION,
       ad_notes = notes\<rparr>)"

definition admit_with_spec :: "claim_proposal \<Rightarrow> slot_spec \<Rightarrow> admission_decision" where
  "admit_with_spec p spec =
     (let authority = cp_authority_class p in
      if authority \<in> ss_forbidden_authorities spec then
        make_decision p REJECT_CANDIDATE ''UNSUPPORTED_ADMISSION_AUTHORITY'' (Some spec) False VIS_INSPECT_ONLY False []
      else if authority \<in> ss_supporting_authorities spec then
        make_decision p ACCEPT_SUPPORTING_EVENT ''UNSUPPORTED_ADMISSION_AUTHORITY'' (Some spec) False
          (ss_default_support_visibility spec) False []
      else if authority \<notin> ss_allowed_authorities spec then
        make_decision p QUARANTINE_PROPOSAL ''UNSUPPORTED_ADMISSION_AUTHORITY'' (Some spec) False VIS_INSPECT_ONLY False []
      else
        (let decision_type = (if ss_exclusive_current spec \<or> authority = AUTH_USER_CORRECTION
                              then ACCEPT_WITH_SUPERSESSION else ACCEPT_DURABLE);
             supersession = (decision_type = ACCEPT_WITH_SUPERSESSION) in
         make_decision p decision_type
           (if supersession then ''ADMISSION_SUPERSESSION'' else ''ADMISSION_ACCEPTED'')
           (Some spec) True VIS_ANSWER_EVIDENCE supersession []))"

definition is_assistant_claim :: "claim_proposal \<Rightarrow> bool" where
  "is_assistant_claim p \<longleftrightarrow>
     cp_assertion_speaker p \<in> {SPK_ASSISTANT, SPK_QUOTED_ASSISTANT} \<or>
     cp_authority_class p \<in> {AUTH_ASSISTANT_CLAIM, AUTH_ASSISTANT_SELF_CLAIM}"

definition admit_claim :: "claim_proposal \<Rightarrow> admission_decision" where
  "admit_claim p =
     (if norm_text (PStr (admitted_value p)) = [] then
        make_decision p REJECT_CANDIDATE ''MISSING_CANDIDATE_VALUE'' None False VIS_INSPECT_ONLY False []
      else if is_assistant_claim p then
        make_decision p MARK_CORRECTED_FALSE_EVENT ''ASSISTANT_CLAIM_NOT_USER_TRUTH'' None False
          VIS_CONTRADICTION_ONLY False []
      else if is_runtime_capability_slot (cp_target_slot p) \<or> cp_authority_class p = AUTH_RUNTIME_DIAGNOSTIC then
        make_decision p QUARANTINE_PROPOSAL ''RUNTIME_CAPABILITY_NOT_MEMORY_TRUTH'' None False VIS_INSPECT_ONLY False []
      else if cp_target_shelf p = ''profile'' \<and> cp_target_slot p = ''identity.name'' then
        make_decision p QUARANTINE_PROPOSAL ''GENERIC_IDENTITY_NAME_REJECTED'' None False VIS_INSPECT_ONLY False
          ''Derived writes must use identity.preferred_address_name or identity.platform_* slots.''
      else
        (case map_of SLOT_REGISTRY (cp_target_slot p) of
           None \<Rightarrow>
             if cp_target_shelf p = ''graph'' then
               make_decision p QUARANTINE_PROPOSAL ''UNKNOWN_DERIVED_GRAPH_SLOT'' None False VIS_INSPECT_ONLY False []
             else
               make_decision p QUARANTINE_PROPOSAL ''UNSUPPORTED_ADMISSION_AUTHORITY'' None False VIS_INSPECT_ONLY False []
         | Some spec \<Rightarrow> admit_with_spec p spec))"

definition ad_metadata_payload :: "admission_decision \<Rightarrow> pydict" where
  "ad_metadata_payload d =
     (let p = ad_proposal d in
      [(''admission'', PDict
         [(''policy_version'', PStr (ad_policy_version d)),
          (''slot_registry_version'', PStr (ad_slot_registry_version d)),
          (''decision'', PStr (decision_value (ad_decision d))),
          (''reason_code'', PStr (ad_reason_code d)),
          (''target_slot'', PStr (ad_target_slot d)),
          (''stable_key'', PStr (ad_stable_key d)),
          (''truth_eligible'', PBool (ad_truth_eligible d)),
          (''support_visibility'', PStr (visibility_value (ad_support_visibility d))),
          (''claim_id'', PStr (cp_claim_id p)),
          (''proposal_type'', PStr (cp_proposal_type p)),
          (''source_event_id'', PStr (cp_source_event_id p)),
          (''source_turn_id'', PStr (cp_source_turn_id p)),
          (''source_span_id'', PStr (cp_source_span_id p)),
          (''turn_role'', PStr (cp_turn_role p)),
          (''assertion_speaker'', PStr (speaker_value (cp_assertion_speaker p))),
          (''span_kind'', PStr (span_kind_value (cp_span_kind p))),
          (''authority_class'', PStr (authority_value (cp_authority_class p))),
          (''target_scope'', PStr (cp_target_scope p)),
          (''surface_value'', PStr (cp_surface_value p)),
          (''normalized_value'', PStr (cp_normalized_value p)),
          (''language'', PStr (cp_language p)),
          (''normalization_method'', PStr (cp_normalization_method p))])])"

section \<open>Lemmas\<close>

text \<open>The authorities that any slot of the registry admits.\<close>

definition TRUTH_AUTHORITIES :: "source_authority set" where
  "TRUTH_AUTHORITIES = TRUSTED_AUTHORITIES \<union> set CURRENT_ASSIGNMENT_AUTHORITIES \<union> {AUTH_TRUSTED_RUNTIME}"

lemma registry_entries:
  "list_all (\<lambda>(k, s). slot_id s = k \<and> ss_forbidden_authorities s = {} \<and>
      ss_supporting_authorities s \<subseteq> {AUTH_RUNTIME_DIAGNOSTIC} \<and>
      ss_allowed_authorities s \<subseteq> TRUTH_AUTHORITIES \<and>
      AUTH_RUNTIME_DIAGNOSTIC \<notin> ss_allowed_authorities s) SLOT_REGISTRY"
  by (simp add: SLOT_REGISTRY_def slot_def TRUTH_AUTHORITIES_def TRUSTED_AUTHORITIES_def
      CURRENT_ASSIGNMENT_AUTHORITIES_def)

lemma registry_entry:
  assumes "map_of SLOT_REGISTRY k = Some s"
  shows "slot_id s = k" "ss_forbidden_authorities s = {}" "ss_supporting_authorities s \<subseteq> {AUTH_RUNTIME_DIAGNOSTIC}"
    "ss_allowed_authorities s \<subseteq> TRUTH_AUTHORITIES"
  using map_of_SomeD [OF assms] registry_entries by (auto simp: list_all_iff)

lemma make_decision_simps [simp]:
  "ad_decision (make_decision p d r s t v u n) = d" "ad_truth_eligible (make_decision p d r s t v u n) = t"
  "ad_support_visibility (make_decision p d r s t v u n) = v" "ad_supersede (make_decision p d r s t v u n) = u"
  "ad_proposal (make_decision p d r s t v u n) = p"
  "ad_target_slot (make_decision p d r s t v u n) = (case s of Some x \<Rightarrow> slot_id x | None \<Rightarrow> cp_target_slot p)"
  "ad_storage_key (make_decision p d r s t v u n) = (case s of Some x \<Rightarrow> ss_storage_key x | None \<Rightarrow> cp_storage_key p)"
  by (simp_all add: make_decision_def Let_def)

text \<open>The path to an accepted decision.\<close>

lemma admit_claim_truth:
  assumes "ad_truth_eligible (admit_claim p)"
  obtains s where "map_of SLOT_REGISTRY (cp_target_slot p) = Some s" "admit_claim p = admit_with_spec p s"
    "cp_authority_class p \<in> ss_allowed_authorities s" "norm_text (PStr (admitted_value p)) \<noteq> []"
    "\<not> is_assistant_claim p" "\<not> is_runtime_capability_slot (cp_target_slot p)"
  using assms by (auto simp: admit_claim_def admit_with_spec_def Let_def split: if_splits option.splits)

lemma truth_authority:
  assumes "ad_truth_eligible (admit_claim p)"
  shows "cp_authority_class p \<in> TRUTH_AUTHORITIES"
proof -
  from assms obtain s where "map_of SLOT_REGISTRY (cp_target_slot p) = Some s"
    "cp_authority_class p \<in> ss_allowed_authorities s" by (rule admit_claim_truth)
  then show ?thesis using registry_entry(4) by blast
qed

lemma accepted_iff_truth: "ad_accepted (admit_claim p) = ad_truth_eligible (admit_claim p)"
  by (auto simp: ad_accepted_def admit_claim_def admit_with_spec_def Let_def split: option.splits)

section \<open>Properties\<close>

text \<open>
  C3: a derived claim becomes durable truth only on trusted authority: the decision is accepted
  exactly when it is truth-eligible, and then the claim has a value, its speaker and authority
  are not the assistant's, the authority is one of the trusted, assignment or runtime authorities, the
  slot is registered, is no runtime capability and is the slot the decision names.
\<close>

theorem accepted_claims_are_trusted:
  "ad_accepted (admit_claim p) = ad_truth_eligible (admit_claim p) \<and>
   (ad_accepted (admit_claim p) \<longrightarrow>
      norm_text (PStr (admitted_value p)) \<noteq> [] \<and> cp_authority_class p \<in> TRUTH_AUTHORITIES \<and>
      cp_assertion_speaker p \<notin> {SPK_ASSISTANT, SPK_QUOTED_ASSISTANT} \<and>
      \<not> is_runtime_capability_slot (cp_target_slot p) \<and>
      (\<exists>s. map_of SLOT_REGISTRY (cp_target_slot p) = Some s \<and> cp_authority_class p \<in> ss_allowed_authorities s \<and>
         ad_target_slot (admit_claim p) = cp_target_slot p \<and> ad_storage_key (admit_claim p) = ss_storage_key s) \<and>
      ad_support_visibility (admit_claim p) = VIS_ANSWER_EVIDENCE)"
proof (intro conjI impI)
  assume "ad_accepted (admit_claim p)"
  then have "ad_truth_eligible (admit_claim p)" by (simp add: accepted_iff_truth)
  then obtain s where s: "map_of SLOT_REGISTRY (cp_target_slot p) = Some s" "admit_claim p = admit_with_spec p s"
    "cp_authority_class p \<in> ss_allowed_authorities s" "norm_text (PStr (admitted_value p)) \<noteq> []"
    "\<not> is_assistant_claim p" "\<not> is_runtime_capability_slot (cp_target_slot p)" by (rule admit_claim_truth)
  show "norm_text (PStr (admitted_value p)) \<noteq> []" "\<not> is_runtime_capability_slot (cp_target_slot p)" by fact+
  show "cp_authority_class p \<in> TRUTH_AUTHORITIES" by (rule truth_authority) fact
  show "cp_assertion_speaker p \<notin> {SPK_ASSISTANT, SPK_QUOTED_ASSISTANT}" using s(5) by (simp add: is_assistant_claim_def)
  have e: "ad_support_visibility (admit_with_spec p s) = VIS_ANSWER_EVIDENCE"
    using \<open>ad_truth_eligible (admit_claim p)\<close> unfolding s(2)
    by (simp add: admit_with_spec_def Let_def split: if_splits)
  then show "ad_support_visibility (admit_claim p) = VIS_ANSWER_EVIDENCE" by (simp add: s(2))
  have "ad_target_slot (admit_with_spec p s) = slot_id s" "ad_storage_key (admit_with_spec p s) = ss_storage_key s"
    by (simp_all add: admit_with_spec_def Let_def)
  with s registry_entry(1) show "\<exists>s. map_of SLOT_REGISTRY (cp_target_slot p) = Some s \<and>
      cp_authority_class p \<in> ss_allowed_authorities s \<and> ad_target_slot (admit_claim p) = cp_target_slot p \<and>
      ad_storage_key (admit_claim p) = ss_storage_key s" by force
qed (rule accepted_iff_truth)

text \<open>A concrete profile claim of the user.\<close>

definition sample_proposal :: claim_proposal where
  "sample_proposal =
    \<lparr>cp_claim_id = ''profile:1'', cp_proposal_type = ''profile.preference'', cp_source_event_id = [],
     cp_source_turn_id = [], cp_source_span_id = [], cp_turn_role = ''user'', cp_assertion_speaker = SPK_USER,
     cp_span_kind = SPAN_ASSERTION, cp_target_shelf = ''profile'', cp_target_slot = ''preference.verbosity'',
     cp_target_scope = [], cp_storage_key = ''preference:verbosity'', cp_subject = ''principal'',
     cp_predicate = ''preference.verbosity'', cp_surface_value = [], cp_normalized_value = ''short'',
     cp_candidate_value = ''short'', cp_language = [], cp_normalization_method = [],
     cp_authority_class = AUTH_USER_EXPLICIT_ASSERTION, cp_confidence = PFloat 0 ''0.0'',
     cp_source_text_hash = [], cp_trace_id = ''t'', cp_metadata = []\<rparr>"

lemma sample_slot:
  "map_of SLOT_REGISTRY ''preference.verbosity'' =
     Some (slot ''preference.verbosity'' ''profile'' ''preference:verbosity'' False TRUSTED_AUTHORITIES {} VIS_ANSWER_EVIDENCE)"
  by (simp add: SLOT_REGISTRY_def slot_def)

lemma sample_not_capability: "\<not> is_runtime_capability_slot ''preference.verbosity''"
  by (simp add: is_runtime_capability_slot_def text_eval py_lower_def char_lower_def py_replace_char_def
      py_startswith_def CAPABILITY_SLOTS_def)

lemma sample_accepted: "ad_accepted (admit_claim sample_proposal)"
  by (simp add: admit_claim_def sample_proposal_def admitted_value_def text_eval is_assistant_claim_def
      sample_slot sample_not_capability admit_with_spec_def slot_def TRUSTED_AUTHORITIES_def ad_accepted_def Let_def)

theorem accepted_claims_are_trusted_witness:
  "ad_accepted (admit_claim sample_proposal) \<and>
   ad_storage_key (admit_claim sample_proposal) = ''preference:verbosity'' \<and>
   cp_authority_class sample_proposal \<in> TRUTH_AUTHORITIES"
proof -
  have "cp_target_slot sample_proposal = ''preference.verbosity''" by (simp add: sample_proposal_def)
  then show ?thesis
    using accepted_claims_are_trusted [of sample_proposal] sample_accepted sample_slot by (auto simp: slot_def)
qed

text \<open>
  A tier-2 or consolidation candidate cannot forge user truth by its metadata: without a
  verified user-span proof, no profile or graph proposal built from it is admitted, whatever
  authority, speaker or span kind its payload claims.
\<close>

theorem tier2_needs_verified_proof:
  assumes "is_tier2_source (py_lower (norm_text (PStr source)))"
    and "candidate_metadata candidate base = Inr meta" and "\<not> verified_proof meta"
    and "profile_claim_proposal py_float candidate source base key category content = Inr p \<or>
         graph_claim_proposal py_float candidate source base kind subject predicate value = Inr p"
  shows "\<not> ad_accepted (admit_claim p)"
proof
  assume "ad_accepted (admit_claim p)"
  then have "ad_truth_eligible (admit_claim p)" by (simp add: accepted_iff_truth)
  then have "cp_authority_class p \<in> TRUTH_AUTHORITIES" by (rule truth_authority)
  moreover have "cp_authority_class p = authority_from_payload meta source"
    using assms(2,4) by (auto simp: profile_claim_proposal_def graph_claim_proposal_def Let_def split: sum.splits)
  moreover have "authority_from_payload meta source \<in> {AUTH_ASSISTANT_CLAIM, AUTH_RUNTIME_DIAGNOSTIC, AUTH_TIER2_SUMMARY}"
    using assms(1,3) by (simp add: authority_from_payload_def Let_def)
  ultimately show False
    by (auto simp: TRUTH_AUTHORITIES_def TRUSTED_AUTHORITIES_def CURRENT_ASSIGNMENT_AUTHORITIES_def)
qed

definition sample_tier2_candidate :: pydict where
  "sample_tier2_candidate =
    [(''metadata'', PDict [(''authority_class'', PStr ''user_explicit_assertion''), (''speaker'', PStr ''user'')])]"

theorem tier2_needs_verified_proof_witness:
  "\<exists>p. profile_claim_proposal Inr sample_tier2_candidate ''tier2:batch'' [] ''preference:verbosity'' [] ''short'' = Inr p \<and>
     \<not> ad_accepted (admit_claim p)"
proof -
  let ?meta = "[(''authority_class'', PStr ''user_explicit_assertion''), (''speaker'', PStr ''user'')]"
  have m: "candidate_metadata sample_tier2_candidate [] = Inr ?meta"
    by (simp add: candidate_metadata_def sample_tier2_candidate_def dpop_def dset_def Let_def)
  then obtain p where p:
    "profile_claim_proposal Inr sample_tier2_candidate ''tier2:batch'' [] ''preference:verbosity'' [] ''short'' = Inr p"
    by (simp add: profile_claim_proposal_def Let_def)
  have s: "is_tier2_source (py_lower (norm_text (PStr ''tier2:batch'')))"
    by (simp add: is_tier2_source_def text_eval py_lower_def char_lower_def py_startswith_def)
  have v: "\<not> verified_proof ?meta" by (simp add: verified_proof_def)
  from tier2_needs_verified_proof [OF s m v disjI1 [OF p]] p show ?thesis by blast
qed

text \<open>
  The enumerations survive their text form: reading a member's value gives the member back, for
  authorities, speakers and span kinds, whatever the default.
\<close>

theorem enum_values_roundtrip:
  "enum_value source_authorities authority_value (PStr (authority_value a)) d = a \<and>
   enum_value assertion_speakers speaker_value (PStr (speaker_value s)) e = s \<and>
   enum_value span_kinds span_kind_value (PStr (span_kind_value k)) f = k"
proof (intro conjI)
  show "enum_value source_authorities authority_value (PStr (authority_value a)) d = a"
    by (cases a) (simp_all add: enum_value_def source_authorities_def text_eval py_lower_def char_lower_def)
  show "enum_value assertion_speakers speaker_value (PStr (speaker_value s)) e = s"
    by (cases s) (simp_all add: enum_value_def assertion_speakers_def text_eval py_lower_def char_lower_def)
  show "enum_value span_kinds span_kind_value (PStr (span_kind_value k)) f = k"
    by (cases k) (simp_all add: enum_value_def span_kinds_def text_eval py_lower_def char_lower_def)
qed

text \<open>
  Storage keys name their slots: canonicalising the storage key of each profile and graph slot
  of the registry gives the slot back, and every alias leads to a registered slot.
\<close>

theorem storage_keys_name_their_slots:
  "map (\<lambda>(k, s). canonical_profile_slot (ss_storage_key s) []) (filter (\<lambda>(k, s). ss_shelf s = ''profile'') SLOT_REGISTRY) =
     map fst (filter (\<lambda>(k, s). ss_shelf s = ''profile'') SLOT_REGISTRY) \<and>
   map (\<lambda>(k, s). canonical_graph_slot [] (ss_storage_key s)) (filter (\<lambda>(k, s). ss_shelf s = ''graph'') SLOT_REGISTRY) =
     map fst (filter (\<lambda>(k, s). ss_shelf s = ''graph'') SLOT_REGISTRY) \<and>
   list_all (\<lambda>(_, t). map_of SLOT_REGISTRY t \<noteq> None) (PROFILE_SLOT_ALIASES @ GRAPH_RELATION_ALIASES)"
proof (intro conjI)
  show "list_all (\<lambda>(_, t). map_of SLOT_REGISTRY t \<noteq> None) (PROFILE_SLOT_ALIASES @ GRAPH_RELATION_ALIASES)"
    by code_simp
  show "map (\<lambda>(k, s). canonical_profile_slot (ss_storage_key s) []) (filter (\<lambda>(k, s). ss_shelf s = ''profile'') SLOT_REGISTRY) =
     map fst (filter (\<lambda>(k, s). ss_shelf s = ''profile'') SLOT_REGISTRY)"
    by (simp add: SLOT_REGISTRY_def slot_def canonical_profile_slot_def text_eval py_lower_def char_lower_def
        py_replace_char_def PROFILE_SLOT_ALIASES_def)
  show "map (\<lambda>(k, s). canonical_graph_slot [] (ss_storage_key s)) (filter (\<lambda>(k, s). ss_shelf s = ''graph'') SLOT_REGISTRY) =
     map fst (filter (\<lambda>(k, s). ss_shelf s = ''graph'') SLOT_REGISTRY)"
    by (simp add: SLOT_REGISTRY_def slot_def canonical_graph_slot_def text_eval py_lower_def char_lower_def
        py_replace_char_def GRAPH_RELATION_ALIASES_def)
qed

text \<open>
  No claim is ever admitted as a supporting event, and none for the registered runtime
  capability slot: the runtime-diagnostic guard comes first and covers the only supporting authority
  and the only runtime slot of the registry.
\<close>

theorem supporting_events_unreachable:
  "ad_decision (admit_claim p) \<noteq> ACCEPT_SUPPORTING_EVENT \<and>
   \<not> ad_accepted (admit_claim (p\<lparr>cp_target_slot := ''runtime.capability_snapshot_ref''\<rparr>))"
proof
  show "ad_decision (admit_claim p) \<noteq> ACCEPT_SUPPORTING_EVENT"
    using registry_entry(3) [of "cp_target_slot p"]
    by (auto simp: admit_claim_def admit_with_spec_def Let_def split: option.splits)
  have "is_runtime_capability_slot ''runtime.capability_snapshot_ref''"
    by (simp add: is_runtime_capability_slot_def text_eval py_lower_def char_lower_def py_replace_char_def
        py_startswith_def)
  then show "\<not> ad_accepted (admit_claim (p\<lparr>cp_target_slot := ''runtime.capability_snapshot_ref''\<rparr>))"
    using admit_claim_truth by (force simp: accepted_iff_truth)
qed

end
