(* ===== verification/TruthPermit.thy ===== *)
theory TruthPermit
  imports AdmissionPolicy
begin

text \<open>
  The write permits of \<open>brainstack/core/admission.py\<close>: \<open>TruthWritePermit\<close> with its constructors, the
  \<open>DurableWriteContext\<close> derived from it, and the metadata both write. The frozen sets of the code
  are HOL sets; \<open>sorted\<close> of one is \<open>sorted_list_of_set\<close>, for which the shelves are ordered by their
  text values, as the sort key of the code does.
\<close>

instantiation truth_shelf :: linorder
begin

definition less_eq_truth_shelf :: "truth_shelf \<Rightarrow> truth_shelf \<Rightarrow> bool" where
  "less_eq_truth_shelf a b \<longleftrightarrow> shelf_value a \<le> shelf_value b"

definition less_truth_shelf :: "truth_shelf \<Rightarrow> truth_shelf \<Rightarrow> bool" where
  "less_truth_shelf a b \<longleftrightarrow> shelf_value a < shelf_value b"

instance
proof
  fix a b :: truth_shelf
  show "a \<le> b \<Longrightarrow> b \<le> a \<Longrightarrow> a = b"
    by (cases a; cases b) (simp_all add: less_eq_truth_shelf_def)
qed (auto simp: less_eq_truth_shelf_def less_truth_shelf_def)

end

record durable_write_context =
  wc_write_path_class :: write_path_class
  wc_source_authority :: source_authority
  wc_provenance :: pydict
  wc_permit_id :: string
  wc_admission_id :: string
  wc_trusted_context_id :: string
  wc_operator_action_id :: string
  wc_migration_id :: string
  wc_canary_run_id :: string
  wc_policy_version :: string
  wc_slot_registry_version :: string

definition wc_metadata_payload :: "durable_write_context \<Rightarrow> pydict" where
  "wc_metadata_payload c =
    [(''write_path_class'', PStr (write_path_value (wc_write_path_class c))),
     (''source_authority'', PStr (authority_value (wc_source_authority c))),
     (''permit_id'', PStr (wc_permit_id c)),
     (''policy_version'', PStr (wc_policy_version c)),
     (''slot_registry_version'', PStr (wc_slot_registry_version c))] @
    (if wc_provenance c \<noteq> [] then [(''provenance'', PDict (wc_provenance c))] else []) @
    [(k, PStr v). (k, v) \<leftarrow>
       [(''admission_id'', wc_admission_id c), (''trusted_context_id'', wc_trusted_context_id c),
        (''operator_action_id'', wc_operator_action_id c), (''migration_id'', wc_migration_id c),
        (''canary_run_id'', wc_canary_run_id c)], v \<noteq> []]"

record truth_write_permit =
  tp_permit_id :: string
  tp_write_path_class :: write_path_class
  tp_source_authority :: source_authority
  tp_issued_by :: string
  tp_trace_id :: string
  tp_policy_version :: string
  tp_allowed_shelves :: "truth_shelf set"
  tp_allowed_slots :: "string set"
  tp_admission_id :: string
  tp_trusted_context_id :: string
  tp_operator_action_id :: string
  tp_migration_id :: string
  tp_canary_run_id :: string

text \<open>The keyword defaults of the constructor.\<close>

definition new_permit ::
  "string \<Rightarrow> write_path_class \<Rightarrow> source_authority \<Rightarrow> string \<Rightarrow> string \<Rightarrow> truth_shelf \<Rightarrow> string set \<Rightarrow> truth_write_permit" where
  "new_permit permit_id path authority issued_by trace_id shelf slots =
     \<lparr>tp_permit_id = permit_id, tp_write_path_class = path, tp_source_authority = authority,
      tp_issued_by = issued_by, tp_trace_id = trace_id, tp_policy_version = ADMISSION_POLICY_VERSION,
      tp_allowed_shelves = {shelf}, tp_allowed_slots = slots, tp_admission_id = [],
      tp_trusted_context_id = [], tp_operator_action_id = [], tp_migration_id = [], tp_canary_run_id = []\<rparr>"

definition slot_set :: "string \<Rightarrow> string set" where
  "slot_set s = (if s \<noteq> [] then {s} else {})"

definition from_admission :: "admission_decision \<Rightarrow> truth_shelf \<Rightarrow> string \<Rightarrow> truth_write_permit" where
  "from_admission d shelf s =
     (let p = ad_proposal d;
          seed = ad_stable_key d @ ''|'' @ cp_claim_id p @ ''|'' @ ad_reason_code d @ ''|'' @ shelf_value shelf in
      (new_permit (''permit:admission:'' @ take 24 (sha256_hex seed)) DERIVED_ADMISSION_GATE
         (cp_authority_class p) ''AdmissionDecision'' (cp_trace_id p) shelf
         ({s, ad_target_slot d, ad_storage_key d, ad_stable_key d} - {[]}))
      \<lparr>tp_admission_id := cp_claim_id p\<rparr>)"

definition trusted_explicit ::
  "string \<Rightarrow> source_authority \<Rightarrow> truth_shelf \<Rightarrow> string \<Rightarrow> string \<Rightarrow> string \<Rightarrow> truth_write_permit" where
  "trusted_explicit permit_id authority shelf s trace_id context_id =
     (new_permit permit_id TRUSTED_EXPLICIT_CAPTURE authority ''TrustedExplicitCapture'' trace_id shelf (slot_set s))
     \<lparr>tp_trusted_context_id := (if context_id \<noteq> [] then context_id else permit_id)\<rparr>"

definition migration_permit :: "string \<Rightarrow> truth_shelf \<Rightarrow> string \<Rightarrow> string \<Rightarrow> truth_write_permit" where
  "migration_permit migration_id shelf s trace_id =
     (new_permit (''permit:migration:'' @ migration_id) MIGRATION_OR_BACKFILL AUTH_MIGRATION_BACKFILL
        ''MigrationContext'' trace_id shelf (slot_set s))\<lparr>tp_migration_id := migration_id\<rparr>"

definition operator_repair :: "string \<Rightarrow> truth_shelf \<Rightarrow> string \<Rightarrow> string \<Rightarrow> truth_write_permit" where
  "operator_repair action_id shelf s trace_id =
     (new_permit (''permit:repair:'' @ action_id) REPAIR_OR_OPERATOR_APPROVED AUTH_OPERATOR_REPAIR
        ''OperatorRepairContext'' trace_id shelf (slot_set s))\<lparr>tp_operator_action_id := action_id\<rparr>"

definition canary_seed :: "string \<Rightarrow> truth_shelf \<Rightarrow> string \<Rightarrow> string \<Rightarrow> truth_write_permit" where
  "canary_seed run_id shelf s trace_id =
     (new_permit (''permit:canary:'' @ run_id) TEST_OR_CANARY_SEED AUTH_CANARY_SEED
        ''CanarySeedContext'' trace_id shelf (slot_set s))\<lparr>tp_canary_run_id := run_id\<rparr>"

definition permit_context :: "truth_write_permit \<Rightarrow> durable_write_context" where
  "permit_context p =
     \<lparr>wc_write_path_class = tp_write_path_class p, wc_source_authority = tp_source_authority p,
      wc_provenance = (if tp_trace_id p \<noteq> [] then [(''trace_id'', PStr (tp_trace_id p))] else []),
      wc_permit_id = tp_permit_id p, wc_admission_id = tp_admission_id p,
      wc_trusted_context_id = tp_trusted_context_id p, wc_operator_action_id = tp_operator_action_id p,
      wc_migration_id = tp_migration_id p, wc_canary_run_id = tp_canary_run_id p,
      wc_policy_version = tp_policy_version p, wc_slot_registry_version = SLOT_REGISTRY_VERSION\<rparr>"

definition permit_block :: "truth_write_permit \<Rightarrow> pydict" where
  "permit_block p =
    [(''permit_id'', PStr (tp_permit_id p)),
     (''write_path_class'', PStr (write_path_value (tp_write_path_class p))),
     (''source_authority'', PStr (authority_value (tp_source_authority p))),
     (''issued_by'', PStr (tp_issued_by p)),
     (''trace_id'', PStr (tp_trace_id p)),
     (''policy_version'', PStr (tp_policy_version p)),
     (''allowed_shelves'', PList (map (PStr \<circ> shelf_value) (sorted_list_of_set (tp_allowed_shelves p)))),
     (''allowed_slots'', PList (map PStr (sorted_list_of_set (tp_allowed_slots p)))),
     (''admission_id'', PStr (tp_admission_id p)),
     (''trusted_context_id'', PStr (tp_trusted_context_id p)),
     (''operator_action_id'', PStr (tp_operator_action_id p)),
     (''migration_id'', PStr (tp_migration_id p)),
     (''canary_run_id'', PStr (tp_canary_run_id p))]"

definition tp_metadata_payload :: "truth_write_permit \<Rightarrow> pydict" where
  "tp_metadata_payload p =
    [(''truth_write_permit'', PDict (permit_block p)),
     (''durable_write_context'', PDict (wc_metadata_payload (permit_context p)))]"

section \<open>The write port\<close>

text \<open>\<open>brainstack/storage/durable_truth_port.py\<close>\<close>

definition merge_truth_write_permit_metadata :: "pydict \<Rightarrow> truth_write_permit \<Rightarrow> pydict" where
  "merge_truth_write_permit_metadata metadata permit = dupdate metadata (tp_metadata_payload permit)"

end
