(* ===== verification/DurableWriteGuard.thy ===== *)
theory DurableWriteGuard
  imports TruthPermit
begin

text \<open>
  \<open>brainstack/storage/durable_write_guard.py\<close>: the guard in front of every durable write. It reads the
  write's metadata dictionary and either returns it normalised or raises a violation. The in-place
  update of the nested admission block is a functional update here; its effect on a dictionary the
  caller shares is outside the model.
\<close>

datatype guard_error = DurableTruthWriteViolation string | GuardTypeError

definition DERIVED_SOURCE_PREFIXES :: "string list" where
  "DERIVED_SOURCE_PREFIXES = [''tier2:'', ''consolidation:'', ''session_recap:'', ''pulse:'', ''background:'']"

definition DERIVED_AUTHORITIES :: "string set" where
  "DERIVED_AUTHORITIES =
    {''tier2_summary'', ''pulse_background'', ''session_recap'', ''assistant_claim'', ''assistant_self_claim'',
     ''graph_inference'', ''transcript_event'', ''runtime_diagnostic''}"

definition SUPPORT_ONLY_VISIBILITIES :: "string set" where
  "SUPPORT_ONLY_VISIBILITIES = {''history_only'', ''contradiction_only'', ''inspect_only''}"

definition fold_text :: "pyval \<Rightarrow> string" where
  "fold_text v = py_lower (strip_text v)"

definition slot_key :: "pyval \<Rightarrow> string" where
  "slot_key v = py_replace_char (CHR '':'') (CHR ''.'') (fold_text v)"

definition sub_mapping :: "pydict \<Rightarrow> string \<Rightarrow> pydict" where
  "sub_mapping metadata k = as_mapping (dget metadata k)"

definition has_permit :: "pydict \<Rightarrow> bool" where
  "has_permit metadata \<longleftrightarrow>
     (let permit = sub_mapping metadata ''truth_write_permit'';
          context = sub_mapping metadata ''durable_write_context'' in
      list_all (\<lambda>k. strip_text (py_or (dget permit k) (dget context k)) \<noteq> [])
        [''permit_id'', ''write_path_class'', ''source_authority''])"

definition has_admission :: "pydict \<Rightarrow> bool" where
  "has_admission metadata \<longleftrightarrow>
     (let admission = sub_mapping metadata ''admission'' in
      truthy (dget admission ''policy_version'') \<and> truthy (dget admission ''decision'') \<and>
      truthy (dget admission ''claim_id''))"

definition source_authority_text :: "pydict \<Rightarrow> string" where
  "source_authority_text metadata =
     fold_text (py_or (dget (sub_mapping metadata ''durable_write_context'') ''source_authority'')
       (py_or (dget (sub_mapping metadata ''truth_write_permit'') ''source_authority'')
         (py_or (dget metadata ''source_authority'')
           (dget (sub_mapping metadata ''admission'') ''authority_class''))))"

definition is_derived_source :: "string \<Rightarrow> pydict \<Rightarrow> bool" where
  "is_derived_source source metadata \<longleftrightarrow>
     (let normalized_source = fold_text (PStr source);
          provenance = sub_mapping metadata ''provenance'';
          origin = fold_text (py_or (dget metadata ''origin'')
                     (py_or (dget provenance ''origin'') (dget provenance ''tier''))) in
      list_ex (py_startswith normalized_source) DERIVED_SOURCE_PREFIXES \<or>
      source_authority_text metadata \<in> DERIVED_AUTHORITIES \<or>
      origin \<in> {''tier2'', ''background'', ''session_recap'', ''pulse''})"

definition support_visibility_text :: "pydict \<Rightarrow> string" where
  "support_visibility_text metadata =
     fold_text (py_or (dget metadata ''support_visibility'')
       (dget (sub_mapping metadata ''admission'') ''support_visibility''))"

definition force_support_only_invariants :: "pydict \<Rightarrow> pydict" where
  "force_support_only_invariants metadata =
     (if support_visibility_text metadata \<notin> SUPPORT_ONLY_VISIBILITIES then metadata
      else
        (let m = dsetdefault ''max_claim_strength'' (PStr ''none'')
                   (dset ''model_facing_default'' (PBool False) (dset ''truth_eligible'' (PBool False) metadata)) in
         case dget m ''admission'' of
           PDict a \<Rightarrow> dset ''admission'' (PDict (dset ''truth_eligible'' (PBool False) a)) m
         | _ \<Rightarrow> m))"

definition current_assignment_authority :: "pydict \<Rightarrow> string \<Rightarrow> string \<Rightarrow> bool" where
  "current_assignment_authority metadata shelf record_type \<longleftrightarrow>
     truthy (dget metadata ''current_assignment_authority'') \<or>
     fold_text (PStr record_type) = ''current_assignment_state'' \<or>
     (fold_text (PStr shelf) = ''task'' \<and> truthy (dget metadata ''current_assignment_authority''))"

definition allowed_shelf_texts :: "pydict \<Rightarrow> string list option" where
  "allowed_shelf_texts permit =
     map_option (map (\<lambda>v. py_lower (py_str v))) (py_iter (dget_default permit ''allowed_shelves'' (PList [])))"

definition slot_allowed :: "pydict \<Rightarrow> pydict \<Rightarrow> string \<Rightarrow> bool" where
  "slot_allowed metadata permit s \<longleftrightarrow>
     (let allowed_slots = as_list (dget permit ''allowed_slots'');
          target_slot = dget (sub_mapping metadata ''admission'') ''target_slot'';
          candidate_slots = {slot_key (PStr s)} \<union> (if truthy target_slot then {slot_key target_slot} else {}) in
      s = [] \<or> allowed_slots = [] \<or> candidate_slots \<inter> set (map slot_key allowed_slots) \<noteq> {})"

text \<open>The checks after normalisation, in the order of the code.\<close>

definition guard_checks ::
  "string \<Rightarrow> string \<Rightarrow> pydict \<Rightarrow> string \<Rightarrow> string \<Rightarrow> guard_error + pydict" where
  "guard_checks shelf source normalized record_type s =
     (let is_current_assignment = current_assignment_authority normalized shelf record_type;
          permit = sub_mapping normalized ''truth_write_permit'';
          authority = source_authority_text normalized in
      if is_derived_source source normalized \<and> \<not> (has_permit normalized \<or> has_admission normalized) then
        (if fold_text (PStr shelf) \<in> {''operating'', ''task''} \<and> \<not> is_current_assignment then Inr normalized
         else Inl (DurableTruthWriteViolation
           (''Derived durable '' @ shelf @ '' write requires TruthWritePermit or admission metadata'')))
      else if permit \<noteq> [] \<and> \<not> has_permit normalized then
        Inl (DurableTruthWriteViolation (''Invalid TruthWritePermit for durable '' @ shelf @ '' write''))
      else if is_current_assignment \<and> authority \<noteq> [] \<and>
              authority \<notin> set (map authority_value CURRENT_ASSIGNMENT_AUTHORITIES) then
        Inl (DurableTruthWriteViolation
          (''Current assignment '' @ shelf @ '' write requires explicit user/host/operator authority''))
      else if permit \<noteq> [] \<and> allowed_shelf_texts permit = None then Inl GuardTypeError
      else if permit \<noteq> [] \<and> fold_text (PStr shelf) \<notin> set (case allowed_shelf_texts permit of Some ts \<Rightarrow> ts | None \<Rightarrow> []) then
        Inl (DurableTruthWriteViolation (''TruthWritePermit does not allow '' @ shelf @ '' shelf''))
      else if \<not> slot_allowed normalized permit s then
        Inl (DurableTruthWriteViolation (''TruthWritePermit does not allow slot '' @ s))
      else Inr normalized)"

definition guard_and_normalize_durable_truth_metadata ::
  "string \<Rightarrow> string \<Rightarrow> pydict \<Rightarrow> string \<Rightarrow> string \<Rightarrow> guard_error + pydict" where
  "guard_and_normalize_durable_truth_metadata shelf source metadata record_type s =
     guard_checks shelf source (force_support_only_invariants metadata) record_type s"

section \<open>Lemmas\<close>

lemma dset_same: "dhas d k \<Longrightarrow> dget d k = v \<Longrightarrow> dset k v d = d"
  unfolding dset_def dhas_def dget_def by (rule update_triv) (auto split: option.splits)

lemma support_only_frame:
  "k \<notin> {''truth_eligible'', ''model_facing_default'', ''max_claim_strength'', ''admission''} \<Longrightarrow>
     dget (force_support_only_invariants m) k = dget m k"
  by (auto simp: force_support_only_invariants_def Let_def dget_dsetdefault split: pyval.splits)

lemma support_only_fields:
  assumes "support_visibility_text m \<in> SUPPORT_ONLY_VISIBILITIES"
  shows "dget (force_support_only_invariants m) ''truth_eligible'' = PBool False"
    "dget (force_support_only_invariants m) ''model_facing_default'' = PBool False"
    "dhas (force_support_only_invariants m) ''max_claim_strength''"
  using assms
  by (auto simp: force_support_only_invariants_def Let_def dget_dsetdefault dsetdefault_def split: pyval.splits)

lemma support_only_admission:
  "sub_mapping (force_support_only_invariants m) ''admission'' =
     (if support_visibility_text m \<in> SUPPORT_ONLY_VISIBILITIES \<and> is_mapping (dget m ''admission'')
      then dset ''truth_eligible'' (PBool False) (sub_mapping m ''admission'') else sub_mapping m ''admission'')"
  by (auto simp: force_support_only_invariants_def sub_mapping_def Let_def dget_dsetdefault split: pyval.splits)

lemma sub_mapping_force [simp]:
  "k \<in> {''truth_write_permit'', ''durable_write_context'', ''provenance''} \<Longrightarrow>
     sub_mapping (force_support_only_invariants m) k = sub_mapping m k"
  by (auto simp: sub_mapping_def support_only_frame)

lemma support_visibility_force [simp]:
  "support_visibility_text (force_support_only_invariants m) = support_visibility_text m"
  by (simp add: support_visibility_text_def support_only_frame support_only_admission)

lemma force_idem [simp]:
  "force_support_only_invariants (force_support_only_invariants m) = force_support_only_invariants m"
proof (cases "support_visibility_text m \<in> SUPPORT_ONLY_VISIBILITIES")
  case False
  then show ?thesis by (simp add: force_support_only_invariants_def)
next
  case True
  let ?n = "force_support_only_invariants m"
  have h: "dhas ?n ''truth_eligible''" "dhas ?n ''model_facing_default''" "dhas ?n ''max_claim_strength''"
    using True by (auto simp: force_support_only_invariants_def Let_def dsetdefault_def split: pyval.splits)
  have t: "dset ''truth_eligible'' (PBool False) ?n = ?n" "dset ''model_facing_default'' (PBool False) ?n = ?n"
    by (rule dset_same [OF h(1) support_only_fields(1) [OF True]], rule dset_same [OF h(2) support_only_fields(2) [OF True]])
  have s: "dsetdefault ''max_claim_strength'' (PStr ''none'') ?n = ?n" using h(3) by (simp add: dsetdefault_def)
  have "force_support_only_invariants ?n =
      (case dget ?n ''admission'' of PDict a \<Rightarrow> dset ''admission'' (PDict (dset ''truth_eligible'' (PBool False) a)) ?n | _ \<Rightarrow> ?n)"
    using True by (subst force_support_only_invariants_def) (simp add: t s Let_def)
  also have "\<dots> = ?n"
  proof (cases "dget ?n ''admission''")
    case (PDict a)
    then have a: "a = dset ''truth_eligible'' (PBool False) (sub_mapping m ''admission'')"
      using support_only_admission [of m] True
      by (auto simp: sub_mapping_def force_support_only_invariants_def Let_def dget_dsetdefault split: pyval.splits if_splits)
    then have "dset ''truth_eligible'' (PBool False) a = a" by (intro dset_same) simp_all
    moreover have "dhas ?n ''admission''" using PDict by (auto simp: dget_def dhas_def split: option.splits)
    ultimately show ?thesis using PDict by (simp add: dset_same)
  qed simp_all
  finally show ?thesis .
qed

lemma guard_checks_Inr: "guard_checks shelf source m rt s = Inr n \<Longrightarrow> n = m"
  by (auto simp: guard_checks_def Let_def split: if_splits)

lemma value_words [simp]:
  "fold_text (PStr (authority_value a)) = authority_value a" "strip_text (PStr (authority_value a)) = authority_value a"
  "authority_value a \<noteq> []"
  by (cases a; simp add: fold_text_def text_eval py_lower_def char_lower_def)+

lemma write_path_words [simp]: "strip_text (PStr (write_path_value w)) = write_path_value w" "write_path_value w \<noteq> []"
  by (cases w; simp add: text_eval)+

lemma shelf_words [simp]:
  "py_lower (shelf_value f) = shelf_value f" "fold_text (PStr (shelf_value f)) = shelf_value f"
  by (cases f; simp add: fold_text_def text_eval py_lower_def char_lower_def)+

lemma py_or_PStr [simp]: "s \<noteq> [] \<Longrightarrow> py_or (PStr s) v = PStr s"
  by (simp add: py_or_def)

lemma sub_mapping_merge [simp]:
  "sub_mapping (merge_truth_write_permit_metadata m p) ''truth_write_permit'' = permit_block p"
  "sub_mapping (merge_truth_write_permit_metadata m p) ''durable_write_context'' = wc_metadata_payload (permit_context p)"
  by (simp_all add: sub_mapping_def merge_truth_write_permit_metadata_def tp_metadata_payload_def)

lemma dget_permit_block [simp]:
  "dget (permit_block p) ''permit_id'' = PStr (tp_permit_id p)"
  "dget (permit_block p) ''write_path_class'' = PStr (write_path_value (tp_write_path_class p))"
  "dget (permit_block p) ''source_authority'' = PStr (authority_value (tp_source_authority p))"
  "dget_default (permit_block p) ''allowed_shelves'' v =
     PList (map (PStr \<circ> shelf_value) (sorted_list_of_set (tp_allowed_shelves p)))"
  "dget (permit_block p) ''allowed_slots'' = PList (map PStr (sorted_list_of_set (tp_allowed_slots p)))"
  "permit_block p \<noteq> []"
  by (simp_all add: permit_block_def)

lemma dget_context_authority [simp]:
  "dget (wc_metadata_payload (permit_context p)) ''source_authority'' = PStr (authority_value (tp_source_authority p))"
  by (simp add: wc_metadata_payload_def permit_context_def)

text \<open>What the guard reads from a merged permit.\<close>

lemma merged_permit_reads:
  fixes m :: pydict and p :: truth_write_permit
  defines "n \<equiv> force_support_only_invariants (merge_truth_write_permit_metadata m p)"
  shows "strip_text (PStr (tp_permit_id p)) \<noteq> [] \<Longrightarrow> has_permit n"
    and "source_authority_text n = authority_value (tp_source_authority p)"
    and "finite (tp_allowed_shelves p) \<Longrightarrow>
      allowed_shelf_texts (sub_mapping n ''truth_write_permit'') =
        Some (map shelf_value (sorted_list_of_set (tp_allowed_shelves p)))"
proof -
  assume a: "strip_text (PStr (tp_permit_id p)) \<noteq> []"
  then have "tp_permit_id p \<noteq> []" by (auto simp: strip_text_PStr py_strip_def)
  with a show "has_permit n" by (simp add: has_permit_def n_def)
next
  show "source_authority_text n = authority_value (tp_source_authority p)"
    by (simp add: source_authority_text_def n_def)
next
  assume "finite (tp_allowed_shelves p)"
  then show "allowed_shelf_texts (sub_mapping n ''truth_write_permit'') =
      Some (map shelf_value (sorted_list_of_set (tp_allowed_shelves p)))"
    by (simp add: allowed_shelf_texts_def n_def)
qed

definition permit_covers :: "truth_write_permit \<Rightarrow> truth_shelf \<Rightarrow> string \<Rightarrow> bool" where
  "permit_covers p shelf s \<longleftrightarrow>
     strip_text (PStr (tp_permit_id p)) \<noteq> [] \<and> finite (tp_allowed_shelves p) \<and> shelf \<in> tp_allowed_shelves p \<and>
     finite (tp_allowed_slots p) \<and>
     (s = [] \<or> tp_allowed_slots p = {} \<or> slot_key (PStr s) \<in> (\<lambda>x. slot_key (PStr x)) ` tp_allowed_slots p)"

lemma covered_slot_allowed:
  assumes "permit_covers p shelf s"
  shows "slot_allowed n (permit_block p) s"
  using assms by (auto simp: permit_covers_def slot_allowed_def Let_def image_image)

lemma authority_value_inj: "authority_value a = authority_value b \<longleftrightarrow> a = b"
  by (cases a; cases b; simp)

lemma authority_value_nonempty: "authority_value a \<noteq> []"
  by (cases a) simp_all

lemma covered_write_outcome:
  assumes c: "permit_covers p shelf s"
  shows "guard_and_normalize_durable_truth_metadata (shelf_value shelf) source (merge_truth_write_permit_metadata m p) rt s =
    (if current_assignment_authority (merge_truth_write_permit_metadata m p) (shelf_value shelf) rt \<and>
        tp_source_authority p \<notin> set CURRENT_ASSIGNMENT_AUTHORITIES
     then Inl (DurableTruthWriteViolation
       (''Current assignment '' @ shelf_value shelf @ '' write requires explicit user/host/operator authority''))
     else Inr (force_support_only_invariants (merge_truth_write_permit_metadata m p)))"
proof -
  let ?n = "force_support_only_invariants (merge_truth_write_permit_metadata m p)"
  have p: "has_permit ?n" and f: "finite (tp_allowed_shelves p)" and s: "shelf \<in> tp_allowed_shelves p"
    using c merged_permit_reads(1) by (auto simp: permit_covers_def)
  have ca: "current_assignment_authority ?n (shelf_value shelf) rt =
      current_assignment_authority (merge_truth_write_permit_metadata m p) (shelf_value shelf) rt"
    by (simp add: current_assignment_authority_def support_only_frame)
  have a: "authority_value (tp_source_authority p) \<in> set (map authority_value CURRENT_ASSIGNMENT_AUTHORITIES) \<longleftrightarrow>
      tp_source_authority p \<in> set CURRENT_ASSIGNMENT_AUTHORITIES"
    using authority_value_inj by auto
  show ?thesis
    using p s merged_permit_reads(3) [OF f, of m] covered_slot_allowed [OF c, of ?n] f
    unfolding guard_and_normalize_durable_truth_metadata_def guard_checks_def Let_def merged_permit_reads(2) ca a
    by (auto simp: set_sorted_list_of_set authority_value_nonempty)
qed

section \<open>Properties\<close>

text \<open>
  C4: a derived write to the profile or graph shelf gets past the guard only with a permit or an
  admission block, and any permit it carries names the shelf and, when a slot is given and the
  permit lists slots, the slot or the admitted target slot.
\<close>

theorem derived_writes_are_authorised:
  assumes "guard_and_normalize_durable_truth_metadata shelf source metadata record_type s = Inr n"
    and "is_derived_source source n" and "fold_text (PStr shelf) \<notin> {''operating'', ''task''}"
  shows "(has_permit n \<or> has_admission n) \<and>
    (sub_mapping n ''truth_write_permit'' \<noteq> [] \<longrightarrow>
       (\<exists>ts. allowed_shelf_texts (sub_mapping n ''truth_write_permit'') = Some ts \<and> fold_text (PStr shelf) \<in> set ts) \<and>
       slot_allowed n (sub_mapping n ''truth_write_permit'') s)"
proof -
  have g: "guard_checks shelf source n record_type s = Inr n"
    using assms(1) guard_checks_Inr [of shelf source _ record_type s n]
    by (auto simp: guard_and_normalize_durable_truth_metadata_def)
  show ?thesis using g assms(2,3) by (auto simp: guard_checks_def Let_def split: if_splits)
qed

text \<open>
  Metadata whose visibility is support-only leaves the guard without truth: not eligible,
  not model-facing by default, with a claim strength, its admission block not eligible either, and
  every other entry as it was.
\<close>

theorem support_only_writes_lose_truth:
  assumes "guard_and_normalize_durable_truth_metadata shelf source metadata record_type s = Inr n"
    and "support_visibility_text metadata \<in> SUPPORT_ONLY_VISIBILITIES"
  shows "dget n ''truth_eligible'' = PBool False \<and> dget n ''model_facing_default'' = PBool False \<and>
    dhas n ''max_claim_strength'' \<and> \<not> truthy (dget (sub_mapping n ''admission'') ''truth_eligible'') \<and>
    (\<forall>k. k \<notin> {''truth_eligible'', ''model_facing_default'', ''max_claim_strength'', ''admission''} \<longrightarrow>
       dget n k = dget metadata k)"
proof -
  have n: "n = force_support_only_invariants metadata"
    using assms(1) guard_checks_Inr by (simp add: guard_and_normalize_durable_truth_metadata_def)
  have "\<not> truthy (dget (sub_mapping n ''admission'') ''truth_eligible'')"
    using assms(2) unfolding n support_only_admission
    by (cases "dget metadata ''admission''") (auto simp: sub_mapping_def)
  then show ?thesis using support_only_fields [OF assms(2)] support_only_frame by (simp add: n)
qed

text \<open>A derived profile write with an admission block whose visibility is history-only.\<close>

definition sample_write :: pydict where
  "sample_write =
    [(''admission'', PDict [(''policy_version'', PStr ''v1''), (''decision'', PStr ''ACCEPT_DURABLE''),
        (''claim_id'', PStr ''c1''), (''support_visibility'', PStr ''history_only''), (''truth_eligible'', PBool True)])]"

lemma sample_write_force:
  "force_support_only_invariants sample_write =
    [(''admission'', PDict [(''policy_version'', PStr ''v1''), (''decision'', PStr ''ACCEPT_DURABLE''),
        (''claim_id'', PStr ''c1''), (''support_visibility'', PStr ''history_only''), (''truth_eligible'', PBool False)]),
     (''truth_eligible'', PBool False), (''model_facing_default'', PBool False), (''max_claim_strength'', PStr ''none'')]"
  by (simp add: force_support_only_invariants_def sample_write_def support_visibility_text_def sub_mapping_def
      fold_text_def text_eval py_lower_def char_lower_def SUPPORT_ONLY_VISIBILITIES_def dsetdefault_def dset_def)

lemma sample_write_derived: "is_derived_source ''tier2:batch'' m"
  by (simp add: is_derived_source_def fold_text_def text_eval py_lower_def char_lower_def
      DERIVED_SOURCE_PREFIXES_def py_startswith_def Let_def)

lemma sample_write_passes:
  "guard_and_normalize_durable_truth_metadata ''profile'' ''tier2:batch'' sample_write [] [] =
     Inr (force_support_only_invariants sample_write)"
  by (simp add: guard_and_normalize_durable_truth_metadata_def guard_checks_def sample_write_force sub_mapping_def
      has_admission_def current_assignment_authority_def fold_text_def py_lower_def slot_allowed_def strip_text_PStr
      py_strip_def Let_def)

theorem derived_writes_are_authorised_witness:
  "\<exists>n. guard_and_normalize_durable_truth_metadata ''profile'' ''tier2:batch'' sample_write [] [] = Inr n \<and>
     (has_permit n \<or> has_admission n)"
  using derived_writes_are_authorised [OF sample_write_passes sample_write_derived] sample_write_passes
  by (simp add: fold_text_def text_eval py_lower_def char_lower_def)

theorem support_only_writes_lose_truth_witness:
  "\<exists>n. guard_and_normalize_durable_truth_metadata ''profile'' ''tier2:batch'' sample_write [] [] = Inr n \<and>
     dget n ''truth_eligible'' = PBool False"
proof -
  have "support_visibility_text sample_write \<in> SUPPORT_ONLY_VISIBILITIES"
    by (simp add: support_visibility_text_def sample_write_def sub_mapping_def fold_text_def text_eval py_lower_def
        char_lower_def SUPPORT_ONLY_VISIBILITIES_def)
  from support_only_writes_lose_truth [OF sample_write_passes this] sample_write_passes show ?thesis by blast
qed

text \<open>
  The guard is idempotent: what it returns passes the same guard again unchanged.
\<close>

theorem guard_idempotent:
  assumes "guard_and_normalize_durable_truth_metadata shelf source metadata record_type s = Inr n"
  shows "guard_and_normalize_durable_truth_metadata shelf source n record_type s = Inr n"
proof -
  have "n = force_support_only_invariants metadata"
    using assms guard_checks_Inr by (simp add: guard_and_normalize_durable_truth_metadata_def)
  with assms show ?thesis by (simp add: guard_and_normalize_durable_truth_metadata_def)
qed

theorem guard_idempotent_witness:
  "guard_and_normalize_durable_truth_metadata ''profile'' ''tier2:batch'' (force_support_only_invariants sample_write) [] [] =
     Inr (force_support_only_invariants sample_write)"
  by (rule guard_idempotent [OF sample_write_passes])

text \<open>
  C5: the write port implements the permit boundary: metadata merged with a permit that covers the
  shelf and slot passes the guard for any source, derived ones included, and comes back normalised, with one
  exception: a current-assignment write under an authority that may not assign is refused, with that error.
\<close>

theorem permitted_write_passes_guard:
  assumes "permit_covers p shelf s"
  shows "guard_and_normalize_durable_truth_metadata (shelf_value shelf) source (merge_truth_write_permit_metadata m p) rt s =
    (if current_assignment_authority (merge_truth_write_permit_metadata m p) (shelf_value shelf) rt \<and>
        tp_source_authority p \<notin> set CURRENT_ASSIGNMENT_AUTHORITIES
     then Inl (DurableTruthWriteViolation
       (''Current assignment '' @ shelf_value shelf @ '' write requires explicit user/host/operator authority''))
     else Inr (force_support_only_invariants (merge_truth_write_permit_metadata m p)))"
  by (rule covered_write_outcome [OF assms])

theorem permitted_write_passes_guard_witness:
  "\<exists>n. guard_and_normalize_durable_truth_metadata ''task'' ''tier2:batch''
     (merge_truth_write_permit_metadata [(''current_assignment_authority'', PBool True)]
        (operator_repair ''op1'' SHELF_TASK ''task.actionable'' ''t''))
     [] ''Task:Actionable'' = Inr n"
proof -
  have "permit_covers (operator_repair ''op1'' SHELF_TASK ''task.actionable'' ''t'') SHELF_TASK ''Task:Actionable''"
    by (simp add: permit_covers_def operator_repair_def new_permit_def slot_set_def text_eval) code_simp
  from permitted_write_passes_guard [OF this, where m = "[(''current_assignment_authority'', PBool True)]" and rt = "[]"
      and source = "''tier2:batch''"]
  show ?thesis by (simp add: operator_repair_def new_permit_def CURRENT_ASSIGNMENT_AUTHORITIES_def)
qed

end
