(* ===== verification/PublishJournal.thy ===== *)
theory PublishJournal
  imports PyHash
begin

text \<open>
  \<open>brainstack/storage/publish_journal_store.py\<close>: publication of documents, conversation turns and
  entity graphs to the semantic backends, recorded in the \<open>publish_journal\<close> table. The tables the
  module touches are the lists of the state record; a query is a filter and a sort of such a list.
  The two backends are arguments: a publish function takes the snapshot and the backend's own state
  and gives the text of the exception it raised, if any, and the new state. \<open>utc_now_iso\<close> is the
  argument \<open>clock\<close>, read at a tick the state counts. A raised exception leaves the state it was
  raised in.
\<close>

section \<open>State\<close>

record journal_row =
  pj_id :: int
  pj_target :: string
  pj_kind :: string
  pj_key :: string
  pj_payload_json :: string
  pj_status :: string
  pj_attempts :: nat
  pj_last_error :: string
  pj_created_at :: string
  pj_updated_at :: string
  pj_published_at :: "string option"

record transcript_row =
  tr_id :: int
  tr_session_id :: string
  tr_turn_number :: int
  tr_kind :: string
  tr_content :: string
  tr_source :: string
  tr_metadata :: pydict
  tr_created_at :: string

record document_row =
  dr_id :: int
  dr_stable_key :: string
  dr_title :: string
  dr_doc_kind :: string
  dr_source :: string
  dr_metadata :: pydict
  dr_updated_at :: string
  dr_active :: bool

record section_row =
  sr_id :: int
  sr_document_id :: int
  sr_index :: int
  sr_heading :: string
  sr_content :: string
  sr_token_estimate :: int
  sr_metadata :: pydict

record 'b publish_store =
  ps_journal :: "journal_row list"
  ps_next_id :: int
  ps_ticks :: nat
  ps_transcripts :: "transcript_row list"
  ps_documents :: "document_row list"
  ps_sections :: "section_row list"
  ps_corpus_target :: "string option"
  ps_corpus_error :: string
  ps_graph_target :: "string option"
  ps_graph_error :: string
  ps_backend :: 'b

datatype outcome = Returned | Raised string

type_synonym 'b publisher = "pydict \<Rightarrow> 'b \<Rightarrow> string option \<times> 'b"

section \<open>The journal table\<close>

definition same_object :: "string \<Rightarrow> string \<Rightarrow> string \<Rightarrow> journal_row \<Rightarrow> bool" where
  "same_object target kind key r \<longleftrightarrow> pj_target r = target \<and> pj_kind r = kind \<and> pj_key r = key"

definition update_row ::
  "pydict \<Rightarrow> string \<Rightarrow> string \<Rightarrow> string \<Rightarrow> bool \<Rightarrow> journal_row \<Rightarrow> journal_row" where
  "update_row payload status last_error now published r =
     r\<lparr>pj_payload_json := json_dumps (PDict payload), pj_status := status, pj_last_error := last_error,
       pj_updated_at := now, pj_published_at := (if published then Some now else None),
       pj_attempts := (if status = ''failed'' then pj_attempts r + 1 else pj_attempts r)\<rparr>"

definition insert_row ::
  "int \<Rightarrow> string \<Rightarrow> string \<Rightarrow> string \<Rightarrow> pydict \<Rightarrow> string \<Rightarrow> string \<Rightarrow> string \<Rightarrow> bool \<Rightarrow> journal_row" where
  "insert_row i target kind key payload status last_error now published =
     \<lparr>pj_id = i, pj_target = target, pj_kind = kind, pj_key = key,
      pj_payload_json = json_dumps (PDict payload), pj_status = status,
      pj_attempts = (if status \<noteq> ''failed'' then 0 else 1), pj_last_error = last_error,
      pj_created_at = now, pj_updated_at = now,
      pj_published_at = (if published then Some now else None)\<rparr>"

definition upsert_publish_journal ::
  "(nat \<Rightarrow> string) \<Rightarrow> string \<Rightarrow> string \<Rightarrow> string \<Rightarrow> pydict \<Rightarrow> string \<Rightarrow> string \<Rightarrow> bool \<Rightarrow>
     'b publish_store \<Rightarrow> 'b publish_store" where
  "upsert_publish_journal clock target kind key payload status last_error published st =
     (let now = clock (ps_ticks st); st = st\<lparr>ps_ticks := ps_ticks st + 1\<rparr> in
      if list_ex (same_object target kind key) (ps_journal st) then
        st\<lparr>ps_journal := map (\<lambda>r. if same_object target kind key r
                                   then update_row payload status last_error now published r else r) (ps_journal st)\<rparr>
      else
        st\<lparr>ps_journal := ps_journal st @
             [insert_row (ps_next_id st) target kind key payload status last_error now published],
           ps_next_id := ps_next_id st + 1\<rparr>)"

section \<open>Conversation keys and snapshots\<close>

definition conversation_semantic_object_key :: "int \<Rightarrow> string" where
  "conversation_semantic_object_key i = ''transcript:'' @ show_int i"

definition conversation_document_stable_key :: "string \<Rightarrow> int \<Rightarrow> int \<Rightarrow> string" where
  "conversation_document_stable_key session_id turn_number transcript_id =
     ''conversation:'' @ strip_text (PStr session_id) @ '':'' @ show_int turn_number @ '':'' @ show_int transcript_id"

definition parse_conversation_object_key :: "string \<Rightarrow> int option" where
  "parse_conversation_object_key object_key =
     (let text = strip_text (PStr object_key) in
      if py_startswith text ''transcript:'' then parse_int (drop (length ''transcript:'') text) else None)"

definition transcript_metadata :: "transcript_row \<Rightarrow> pydict" where
  "transcript_metadata t =
     dupdate (tr_metadata t)
       [(''semantic_class'', PStr ''conversation''), (''session_id'', PStr (tr_session_id t)),
        (''turn_number'', PInt (tr_turn_number t)),
        (''record_kind'', PStr (if tr_kind t = [] then ''turn'' else tr_kind t)),
        (''transcript_id'', PInt (tr_id t)), (''created_at'', PStr (tr_created_at t))]"

definition transcript_snapshot :: "transcript_row \<Rightarrow> pydict" where
  "transcript_snapshot t =
     [(''document'', PDict
         [(''id'', PInt (tr_id t)),
          (''stable_key'',
             PStr (conversation_document_stable_key (tr_session_id t) (tr_turn_number t) (tr_id t))),
          (''title'', PStr (''Conversation turn '' @ show_int (tr_turn_number t))),
          (''doc_kind'', PStr ''conversation''), (''source'', PStr (tr_source t)),
          (''updated_at'', PStr (tr_created_at t)), (''semantic_class'', PStr ''conversation''),
          (''metadata'', PDict (transcript_metadata t))]),
      (''sections'', PList [PDict
         [(''section_id'', PInt (tr_id t)), (''section_index'', PInt 0),
          (''heading'', PStr (if tr_kind t = [] then ''turn'' else tr_kind t)),
          (''content'', PStr (tr_content t)),
          (''token_estimate'', PInt (max 1 (int (length (tr_content t)) div 4))),
          (''metadata'', PDict (transcript_metadata t))]])]"

definition find_transcript :: "int \<Rightarrow> 'b publish_store \<Rightarrow> transcript_row option" where
  "find_transcript i st = List.find (\<lambda>t. tr_id t = i) (ps_transcripts st)"

definition conversation_transcript_snapshot :: "int \<Rightarrow> 'b publish_store \<Rightarrow> string + pydict" where
  "conversation_transcript_snapshot i st =
     (case find_transcript i st of
        None \<Rightarrow> Inl (''Transcript entry '' @ show_int i @ '' is missing'')
      | Some t \<Rightarrow> Inr (transcript_snapshot t))"

section \<open>Publishing\<close>

definition publish_semantic_snapshot ::
  "'b publisher \<Rightarrow> (nat \<Rightarrow> string) \<Rightarrow> string \<Rightarrow> string \<Rightarrow> pydict \<Rightarrow> bool \<Rightarrow> 'b publish_store \<Rightarrow>
     outcome \<times> 'b publish_store" where
  "publish_semantic_snapshot pub clock kind key snapshot raise_on_error st =
     (case ps_corpus_target st of
        None \<Rightarrow> (Returned, st)
      | Some target \<Rightarrow>
          (let st = upsert_publish_journal clock target kind key snapshot ''pending'' [] False st;
               (failure, b) = pub snapshot (ps_backend st);
               st = st\<lparr>ps_backend := b\<rparr> in
           case failure of
             Some e \<Rightarrow>
               (if raise_on_error then Raised e else Returned,
                upsert_publish_journal clock target kind key snapshot ''failed'' e False (st\<lparr>ps_corpus_error := e\<rparr>))
           | None \<Rightarrow>
               (Returned,
                upsert_publish_journal clock target kind key snapshot ''published'' [] True (st\<lparr>ps_corpus_error := []\<rparr>))))"

definition publish_conversation_transcript ::
  "'b publisher \<Rightarrow> (nat \<Rightarrow> string) \<Rightarrow> int \<Rightarrow> bool \<Rightarrow> 'b publish_store \<Rightarrow> outcome \<times> 'b publish_store" where
  "publish_conversation_transcript pub clock i raise_on_error st =
     (case conversation_transcript_snapshot i st of
        Inl e \<Rightarrow> (Raised e, st)
      | Inr snapshot \<Rightarrow>
          publish_semantic_snapshot pub clock ''conversation_transcript'' (conversation_semantic_object_key i)
            snapshot raise_on_error st)"

definition queue_conversation_transcript_publication ::
  "(nat \<Rightarrow> string) \<Rightarrow> int \<Rightarrow> 'b publish_store \<Rightarrow> outcome \<times> 'b publish_store" where
  "queue_conversation_transcript_publication clock i st =
     (case ps_corpus_target st of
        None \<Rightarrow> (Returned, st)
      | Some target \<Rightarrow>
          (case conversation_transcript_snapshot i st of
             Inl e \<Rightarrow> (Raised e, st)
           | Inr snapshot \<Rightarrow>
               (Returned, upsert_publish_journal clock target ''conversation_transcript''
                  (conversation_semantic_object_key i) snapshot ''pending'' [] False st)))"

definition document_dict :: "document_row \<Rightarrow> pydict" where
  "document_dict d =
    [(''id'', PInt (dr_id d)), (''stable_key'', PStr (dr_stable_key d)), (''title'', PStr (dr_title d)),
     (''doc_kind'', PStr (dr_doc_kind d)), (''source'', PStr (dr_source d)),
     (''updated_at'', PStr (dr_updated_at d)), (''active'', PInt (if dr_active d then 1 else 0)),
     (''metadata'', PDict (dr_metadata d))]"

definition section_dict :: "section_row \<Rightarrow> pydict" where
  "section_dict s =
    [(''section_id'', PInt (sr_id s)), (''section_index'', PInt (sr_index s)), (''heading'', PStr (sr_heading s)),
     (''content'', PStr (sr_content s)), (''token_estimate'', PInt (sr_token_estimate s)),
     (''metadata'', PDict (sr_metadata s))]"

definition corpus_document_snapshot :: "int \<Rightarrow> 'b publish_store \<Rightarrow> string + pydict" where
  "corpus_document_snapshot i st =
     (case List.find (\<lambda>d. dr_id d = i) (ps_documents st) of
        None \<Rightarrow> Inl (''Missing corpus document for snapshot: '' @ show_int i)
      | Some d \<Rightarrow>
          (let sections = (if dr_active d
             then sort_key (\<lambda>s. (sr_index s, sr_id s)) (filter (\<lambda>s. sr_document_id s = i) (ps_sections st))
             else []) in
           Inr [(''document'', PDict (document_dict d)),
                (''sections'', PList (map (PDict \<circ> section_dict) sections))]))"

definition publish_corpus_document ::
  "'b publisher \<Rightarrow> (nat \<Rightarrow> string) \<Rightarrow> int \<Rightarrow> 'b publish_store \<Rightarrow> outcome \<times> 'b publish_store" where
  "publish_corpus_document pub clock i st =
     (if ps_corpus_target st = None then (Returned, st)
      else
        (case corpus_document_snapshot i st of
           Inl e \<Rightarrow> (Raised e, st)
         | Inr snapshot \<Rightarrow>
             (let object_key = strip_text (dget (as_mapping (dget snapshot ''document'')) ''stable_key'') in
              if object_key = [] then
                (Raised (''Corpus snapshot missing stable_key for document '' @ show_int i), st)
              else publish_semantic_snapshot pub clock ''corpus_document'' object_key snapshot True st)))"

text \<open>The entity snapshot is read from the graph tables; here it is an argument.\<close>

definition publish_entity_subgraph ::
  "'b publisher \<Rightarrow> (nat \<Rightarrow> string) \<Rightarrow> (int \<Rightarrow> string + pydict) \<Rightarrow> int \<Rightarrow> 'b publish_store \<Rightarrow>
     outcome \<times> 'b publish_store" where
  "publish_entity_subgraph gpub clock entity_snapshot i st =
     (case ps_graph_target st of
        None \<Rightarrow> (Returned, st)
      | Some target \<Rightarrow>
     (case entity_snapshot i of
        Inl e \<Rightarrow> (Raised e, st)
      | Inr snapshot \<Rightarrow>
          (let st = upsert_publish_journal clock target ''entity_subgraph'' (show_int i) snapshot ''pending'' [] False st;
               (failure, b) = gpub snapshot (ps_backend st);
               st = st\<lparr>ps_backend := b\<rparr> in
           case failure of
             Some e \<Rightarrow>
               (Returned,
                (upsert_publish_journal clock target ''entity_subgraph'' (show_int i) snapshot ''failed'' e False st)
                \<lparr>ps_graph_error := (if e = [] then ''graph backend disabled'' else e), ps_graph_target := None\<rparr>)
           | None \<Rightarrow>
               (Returned,
                upsert_publish_journal clock target ''entity_subgraph'' (show_int i) snapshot ''published'' [] True st))))"

section \<open>Loops that stop at an exception\<close>

fun run_each :: "('x \<Rightarrow> 's \<Rightarrow> outcome \<times> 's) \<Rightarrow> 'x list \<Rightarrow> 's \<Rightarrow> outcome \<times> 's" where
  "run_each f [] st = (Returned, st)"
| "run_each f (x # xs) st =
     (case f x st of (Raised e, st') \<Rightarrow> (Raised e, st') | (Returned, st') \<Rightarrow> run_each f xs st')"

definition bootstrap_graph_backend_if_needed ::
  "'b publisher \<Rightarrow> (nat \<Rightarrow> string) \<Rightarrow> (int \<Rightarrow> string + pydict) \<Rightarrow> bool \<Rightarrow> int list \<Rightarrow> 'b publish_store \<Rightarrow>
     outcome \<times> 'b publish_store" where
  "bootstrap_graph_backend_if_needed gpub clock entity_snapshot backend_empty entity_ids st =
     (if ps_graph_target st = None \<or> \<not> backend_empty then (Returned, st)
      else run_each (publish_entity_subgraph gpub clock entity_snapshot) (sort entity_ids) st)"

definition bootstrap_corpus_backend_if_needed ::
  "'b publisher \<Rightarrow> (nat \<Rightarrow> string) \<Rightarrow> bool \<Rightarrow> 'b publish_store \<Rightarrow> outcome \<times> 'b publish_store" where
  "bootstrap_corpus_backend_if_needed pub clock backend_empty st =
     (if ps_corpus_target st = None \<or> \<not> backend_empty then (Returned, st)
      else
        (case run_each (publish_corpus_document pub clock)
                (map dr_id (sort_key (\<lambda>d. (dr_updated_at d, dr_id d)) (filter dr_active (ps_documents st)))) st of
           (Raised e, st') \<Rightarrow> (Raised e, st')
         | (Returned, st') \<Rightarrow>
             run_each (\<lambda>i. publish_conversation_transcript pub clock i False)
               (map tr_id (sort_key (\<lambda>t. (tr_created_at t, tr_id t)) (ps_transcripts st'))) st'))"

section \<open>Replay\<close>

definition replay_row ::
  "'b publisher \<Rightarrow> (nat \<Rightarrow> string) \<Rightarrow> bool \<Rightarrow> journal_row \<Rightarrow> 'b publish_store \<Rightarrow> outcome \<times> 'b publish_store" where
  "replay_row pub clock replay_transcripts r st =
     (let kind = strip_text (PStr (pj_kind r)); key = strip_text (PStr (pj_key r)) in
      if kind = ''corpus_document'' then
        (case List.find (\<lambda>d. dr_stable_key d = key \<and> dr_active d) (ps_documents st) of
           None \<Rightarrow> (Returned, st)
         | Some d \<Rightarrow> publish_corpus_document pub clock (dr_id d) st)
      else if kind = ''conversation_transcript'' then
        (if strip_text (PStr (pj_status r)) = ''pending'' \<and> \<not> replay_transcripts then (Returned, st)
         else
           (case parse_conversation_object_key key of
              None \<Rightarrow> (Returned, st)
            | Some i \<Rightarrow>
                if find_transcript i st = None then (Returned, st)
                else publish_conversation_transcript pub clock i False st))
      else (Returned, st))"

text \<open>The rows the loop acts on: blank keys and repeated objects are skipped.\<close>

fun fresh_rows :: "(string \<times> string) list \<Rightarrow> journal_row list \<Rightarrow> journal_row list" where
  "fresh_rows seen [] = []"
| "fresh_rows seen (r # rs) =
     (let kind = strip_text (PStr (pj_kind r)); key = strip_text (PStr (pj_key r)) in
      if kind = [] \<or> key = [] \<or> (kind, key) \<in> set seen then fresh_rows seen rs
      else r # fresh_rows ((kind, key) # seen) rs)"

definition replay_statuses :: "bool \<Rightarrow> string list" where
  "replay_statuses replay_failed = ''pending'' # (if replay_failed then [''failed''] else [])"

definition replayable_rows :: "bool \<Rightarrow> string \<Rightarrow> journal_row list \<Rightarrow> journal_row list" where
  "replayable_rows replay_failed target rows =
     sort_key (\<lambda>r. (pj_updated_at r, pj_id r))
       (filter (\<lambda>r. pj_target r = target \<and> pj_kind r \<in> {''corpus_document'', ''conversation_transcript''} \<and>
                    pj_status r \<in> set (replay_statuses replay_failed)) rows)"

definition replay_corpus_publications_if_needed ::
  "'b publisher \<Rightarrow> (nat \<Rightarrow> string) \<Rightarrow> bool \<Rightarrow> bool \<Rightarrow> 'b publish_store \<Rightarrow> outcome \<times> 'b publish_store" where
  "replay_corpus_publications_if_needed pub clock replay_failed replay_transcripts st =
     (case ps_corpus_target st of
        None \<Rightarrow> (Returned, st)
      | Some target \<Rightarrow>
          run_each (replay_row pub clock replay_transcripts)
            (fresh_rows [] (replayable_rows replay_failed target (ps_journal st))) st)"

section \<open>Listing and scrubbing\<close>

definition list_publish_journal ::
  "string option \<Rightarrow> string option \<Rightarrow> int \<Rightarrow> 'b publish_store \<Rightarrow> journal_row list" where
  "list_publish_journal target status limit st =
     (let wanted = (\<lambda>opt v. case opt of None \<Rightarrow> True | Some w \<Rightarrow> w = [] \<or> v = w);
          rows = rev (sort_key (\<lambda>r. (pj_updated_at r, pj_id r))
                   (filter (\<lambda>r. wanted target (pj_target r) \<and> wanted status (pj_status r)) (ps_journal st)))
      in if limit < 0 then rows else take (nat limit) rows)"

definition TRANSCRIPT_HYGIENE_MARKERS :: "string list" where
  "TRANSCRIPT_HYGIENE_MARKERS = [''Assistant: Operation interrupted:'', ''Assistant: Session reset.'']"

text \<open>SQL \<open>LIKE '%marker%'\<close> ignores ASCII case; the markers hold no wildcard.\<close>

definition has_residue :: "transcript_row \<Rightarrow> bool" where
  "has_residue t \<longleftrightarrow>
     list_ex (\<lambda>m. py_contains (py_lower m) (py_lower (tr_content t))) TRANSCRIPT_HYGIENE_MARKERS"

record scrub_counts =
  sc_journal_rows :: nat
  sc_corpus_snapshots :: nat
  sc_deleted_ids :: "int list"

definition delete_transcript :: "int \<Rightarrow> 'b publish_store \<Rightarrow> 'b publish_store" where
  "delete_transcript i st =
     st\<lparr>ps_journal := filter (\<lambda>r. \<not> (pj_kind r = ''conversation_transcript'' \<and>
                                      pj_key r = conversation_semantic_object_key i)) (ps_journal st),
        ps_transcripts := filter (\<lambda>t. tr_id t \<noteq> i) (ps_transcripts st)\<rparr>"

definition scrub_row ::
  "'b publisher \<Rightarrow> transcript_row \<Rightarrow> scrub_counts \<times> 'b publish_store \<Rightarrow> outcome \<times> scrub_counts \<times> 'b publish_store" where
  "scrub_row pub t cs =
     (let (c, st) = cs;
          stable_key = conversation_document_stable_key (tr_session_id t) (tr_turn_number t) (tr_id t);
          blank = [(''document'', PDict [(''stable_key'', PStr stable_key)]), (''sections'', PList [])];
          (failure, b) = (if ps_corpus_target st = None then (None, ps_backend st) else pub blank (ps_backend st));
          st = st\<lparr>ps_backend := b\<rparr> in
      case failure of
        Some e \<Rightarrow> (Raised e, c, st)
      | None \<Rightarrow>
          (let st' = delete_transcript (tr_id t) st in
           (Returned,
            c\<lparr>sc_journal_rows := sc_journal_rows c + (length (ps_journal st) - length (ps_journal st')),
              sc_corpus_snapshots := sc_corpus_snapshots c + (if ps_corpus_target st = None then 0 else 1),
              sc_deleted_ids := sc_deleted_ids c @ [tr_id t]\<rparr>, st')))"

definition scrub_transcript_hygiene_residue ::
  "'b publisher \<Rightarrow> 'b publish_store \<Rightarrow> outcome \<times> scrub_counts \<times> 'b publish_store" where
  "scrub_transcript_hygiene_residue pub st =
     run_each (scrub_row pub) (sort_key tr_id (filter has_residue (ps_transcripts st)))
       (\<lparr>sc_journal_rows = 0, sc_corpus_snapshots = 0, sc_deleted_ids = []\<rparr>, st)"

section \<open>The journal invariant\<close>

definition row_ok :: "journal_row \<Rightarrow> bool" where
  "row_ok r \<longleftrightarrow>
     pj_status r \<in> {''pending'', ''failed'', ''published''} \<and>
     (pj_published_at r \<noteq> None \<longleftrightarrow> pj_status r = ''published'') \<and>
     (pj_status r = ''failed'' \<longrightarrow> 0 < pj_attempts r) \<and>
     (pj_status r \<noteq> ''failed'' \<longrightarrow> pj_last_error r = [])"

definition object_of :: "journal_row \<Rightarrow> string \<times> string \<times> string" where
  "object_of r = (pj_target r, pj_kind r, pj_key r)"

definition journal_ok :: "'b publish_store \<Rightarrow> bool" where
  "journal_ok st \<longleftrightarrow>
     distinct (map object_of (ps_journal st)) \<and> distinct (map pj_id (ps_journal st)) \<and>
     list_all (\<lambda>r. row_ok r \<and> pj_id r < ps_next_id st) (ps_journal st)"

text \<open>The three kinds of entries the module writes.\<close>

definition good_write :: "string \<Rightarrow> string \<Rightarrow> bool \<Rightarrow> bool" where
  "good_write status last_error published \<longleftrightarrow>
     (status = ''pending'' \<and> last_error = [] \<and> \<not> published) \<or> (status = ''failed'' \<and> \<not> published) \<or>
     (status = ''published'' \<and> last_error = [] \<and> published)"

lemma good_writes [simp]:
  "good_write ''pending'' [] False" "good_write ''failed'' e False" "good_write ''published'' [] True"
  by (simp_all add: good_write_def)

lemma object_of_update [simp]: "object_of (update_row p s e n b r) = object_of r" "pj_id (update_row p s e n b r) = pj_id r"
  by (simp_all add: object_of_def update_row_def)

lemma row_ok_update: "good_write s e b \<Longrightarrow> row_ok (update_row p s e n b r)"
  by (auto simp: good_write_def row_ok_def update_row_def)

lemma row_ok_insert: "good_write s e b \<Longrightarrow> row_ok (insert_row i t k key p s e n b)"
  by (auto simp: good_write_def row_ok_def insert_row_def)

lemma same_object_iff: "same_object t k key r \<longleftrightarrow> object_of r = (t, k, key)"
  by (simp add: same_object_def object_of_def)

lemma upsert_ok:
  assumes "journal_ok st" and "good_write status e b"
  shows "journal_ok (upsert_publish_journal clock t k key p status e b st)"
proof -
  let ?now = "clock (ps_ticks st)"
  let ?upd = "\<lambda>r. if same_object t k key r then update_row p status e ?now b r else r"
  have ids: "map object_of (map ?upd rs) = map object_of rs" "map pj_id (map ?upd rs) = map pj_id rs" for rs
    by auto
  have ok: "list_all (\<lambda>r. row_ok r \<and> pj_id r < n) rs \<Longrightarrow> list_all (\<lambda>r. row_ok r \<and> pj_id r < n) (map ?upd rs)" for rs n
    using assms(2) by (induction rs) (auto intro: row_ok_update)
  show ?thesis
  proof (cases "list_ex (same_object t k key) (ps_journal st)")
    case True
    then have j: "ps_journal (upsert_publish_journal clock t k key p status e b st) = map ?upd (ps_journal st)"
      "ps_next_id (upsert_publish_journal clock t k key p status e b st) = ps_next_id st"
      by (simp_all add: upsert_publish_journal_def Let_def)
    have "list_all (\<lambda>r. row_ok r \<and> pj_id r < ps_next_id st) (ps_journal st)" "distinct (map object_of (ps_journal st))"
      "distinct (map pj_id (ps_journal st))" using assms(1) by (simp_all add: journal_ok_def)
    then show ?thesis unfolding journal_ok_def j ids using ok by blast
  next
    case False
    let ?r = "insert_row (ps_next_id st) t k key p status e ?now b"
    have new: "upsert_publish_journal clock t k key p status e b st =
        st\<lparr>ps_ticks := ps_ticks st + 1, ps_journal := ps_journal st @ [?r], ps_next_id := ps_next_id st + 1\<rparr>"
      using False by (simp add: upsert_publish_journal_def Let_def)
    have "object_of ?r = (t, k, key)" "pj_id ?r = ps_next_id st"
      by (simp_all add: object_of_def insert_row_def)
    with False assms(1) row_ok_insert [OF assms(2)] show ?thesis
      unfolding new journal_ok_def by (auto simp: list_all_iff list_ex_iff same_object_iff)
  qed
qed

lemma journal_ok_frame [simp]:
  "journal_ok (st\<lparr>ps_backend := x\<rparr>) = journal_ok st" "journal_ok (st\<lparr>ps_corpus_error := e\<rparr>) = journal_ok st"
  "journal_ok (st\<lparr>ps_graph_error := e, ps_graph_target := g\<rparr>) = journal_ok st"
  by (simp_all add: journal_ok_def)

text \<open>
  An operation that can raise keeps an invariant of its state; then so does the loop that stops at
  the first exception. The publishing operations are such operations.
\<close>

locale raising_op =
  fixes inv :: "'s \<Rightarrow> bool"
    and f :: "'x \<Rightarrow> 's \<Rightarrow> outcome \<times> 's"
  assumes keeps: "inv s \<Longrightarrow> inv (snd (f x s))"
begin

lemma run_each_keeps: "inv s \<Longrightarrow> inv (snd (run_each f xs s))"
proof (induction xs arbitrary: s)
  case (Cons x xs)
  obtain r s' where fx: "f x s = (r, s')" by force
  with keeps [OF Cons.prems, of x] Cons.IH show ?case by (cases r) simp_all
qed simp

end

lemma publish_semantic_ok:
  "journal_ok st \<Longrightarrow> journal_ok (snd (publish_semantic_snapshot pub clock k key p raising st))"
  by (auto simp: publish_semantic_snapshot_def Let_def intro!: upsert_ok split: option.splits prod.splits)

lemma publish_conversation_ok:
  "journal_ok st \<Longrightarrow> journal_ok (snd (publish_conversation_transcript pub clock i raising st))"
  by (auto simp: publish_conversation_transcript_def intro!: publish_semantic_ok split: sum.splits)

lemma publish_corpus_document_ok:
  "journal_ok st \<Longrightarrow> journal_ok (snd (publish_corpus_document pub clock i st))"
  by (auto simp: publish_corpus_document_def Let_def intro!: publish_semantic_ok split: sum.splits)

lemma publish_entity_ok:
  "journal_ok st \<Longrightarrow> journal_ok (snd (publish_entity_subgraph gpub clock es i st))"
  by (auto simp: publish_entity_subgraph_def Let_def intro!: upsert_ok split: option.splits sum.splits prod.splits)

lemma replay_row_ok: "journal_ok st \<Longrightarrow> journal_ok (snd (replay_row pub clock rt r st))"
  by (auto simp: replay_row_def Let_def intro!: publish_corpus_document_ok publish_conversation_ok split: option.splits)

lemma delete_transcript_ok: "journal_ok st \<Longrightarrow> journal_ok (delete_transcript i st)"
  by (auto simp: journal_ok_def delete_transcript_def list_all_iff distinct_map_filter)

lemma scrub_row_ok: "journal_ok (snd cs) \<Longrightarrow> journal_ok (snd (snd (scrub_row pub t cs)))"
  by (cases cs) (auto simp: scrub_row_def Let_def intro!: delete_transcript_ok split: option.splits prod.splits if_splits)

interpretation documents: raising_op journal_ok "publish_corpus_document pub clock" for pub clock
  by unfold_locales (rule publish_corpus_document_ok)

interpretation transcripts: raising_op journal_ok "\<lambda>i. publish_conversation_transcript pub clock i raising" for pub clock raising
  by unfold_locales (rule publish_conversation_ok)

interpretation entities: raising_op journal_ok "publish_entity_subgraph gpub clock es" for gpub clock es
  by unfold_locales (rule publish_entity_ok)

interpretation replays: raising_op journal_ok "replay_row pub clock rt" for pub clock rt
  by unfold_locales (rule replay_row_ok)

interpretation scrubs: raising_op "\<lambda>cs. journal_ok (snd cs)" "scrub_row pub" for pub
  by unfold_locales (rule scrub_row_ok)

section \<open>Reachable stores\<close>

text \<open>
  The operations of the module, the configuration changes and the writes of the other store modules
  as steps. The other modules leave the journal and its id counter alone.
\<close>

inductive journal_step ::
  "'b publisher \<Rightarrow> 'b publisher \<Rightarrow> (nat \<Rightarrow> string) \<Rightarrow> 'b publish_store \<Rightarrow> 'b publish_store \<Rightarrow> bool"
  for pub gpub clock where
  publish: "journal_step pub gpub clock st (snd (publish_semantic_snapshot pub clock kind key snapshot raising st))"
| conversation: "journal_step pub gpub clock st (snd (publish_conversation_transcript pub clock i raising st))"
| queue: "journal_step pub gpub clock st (snd (queue_conversation_transcript_publication clock i st))"
| document: "journal_step pub gpub clock st (snd (publish_corpus_document pub clock i st))"
| entity: "journal_step pub gpub clock st (snd (publish_entity_subgraph gpub clock entity_snapshot i st))"
| bootstrap_graph: "journal_step pub gpub clock st
    (snd (bootstrap_graph_backend_if_needed gpub clock entity_snapshot backend_empty entity_ids st))"
| bootstrap_corpus: "journal_step pub gpub clock st (snd (bootstrap_corpus_backend_if_needed pub clock backend_empty st))"
| replay: "journal_step pub gpub clock st
    (snd (replay_corpus_publications_if_needed pub clock replay_failed replay_transcripts st))"
| scrub: "journal_step pub gpub clock st (snd (snd (scrub_transcript_hygiene_residue pub st)))"
| elsewhere: "ps_journal st' = ps_journal st \<Longrightarrow> ps_next_id st' = ps_next_id st \<Longrightarrow> journal_step pub gpub clock st st'"

inductive_cases journal_stepE: "journal_step pub gpub clock st st'"

inductive reachable ::
  "'b publisher \<Rightarrow> 'b publisher \<Rightarrow> (nat \<Rightarrow> string) \<Rightarrow> 'b publish_store \<Rightarrow> bool"
  for pub gpub clock where
  fresh: "ps_journal st = [] \<Longrightarrow> reachable pub gpub clock st"
| step: "reachable pub gpub clock st \<Longrightarrow> journal_step pub gpub clock st st' \<Longrightarrow> reachable pub gpub clock st'"

lemma queue_ok: "journal_ok st \<Longrightarrow> journal_ok (snd (queue_conversation_transcript_publication clock i st))"
  by (auto simp: queue_conversation_transcript_publication_def intro!: upsert_ok split: option.splits sum.splits)

lemma bootstrap_corpus_ok:
  "journal_ok st \<Longrightarrow> journal_ok (snd (bootstrap_corpus_backend_if_needed pub clock b st))"
proof -
  assume ok: "journal_ok st"
  let ?ds = "map dr_id (sort_key (\<lambda>d. (dr_updated_at d, dr_id d)) (filter dr_active (ps_documents st)))"
  obtain r st' where d: "run_each (publish_corpus_document pub clock) ?ds st = (r, st')" by force
  have ok': "journal_ok st'" using documents.run_each_keeps [OF ok, of pub clock ?ds] by (simp add: d)
  show ?thesis
    using ok transcripts.run_each_keeps [OF ok', of pub clock False]
    by (cases r) (auto simp: bootstrap_corpus_backend_if_needed_def d ok')
qed

lemma step_ok: "journal_step pub gpub clock st st' \<Longrightarrow> journal_ok st \<Longrightarrow> journal_ok st'"
proof (induction rule: journal_step.induct)
  case (bootstrap_graph st es be ids)
  then show ?case using entities.run_each_keeps by (auto simp: bootstrap_graph_backend_if_needed_def)
next
  case (replay st rf rt)
  then show ?case
    using replays.run_each_keeps by (auto simp: replay_corpus_publications_if_needed_def split: option.splits)
next
  case (scrub st)
  then show ?case unfolding scrub_transcript_hygiene_residue_def using scrubs.run_each_keeps by fastforce
next
  case (elsewhere st' st)
  then show ?case by (simp add: journal_ok_def)
qed (simp_all add: publish_semantic_ok publish_conversation_ok queue_ok publish_corpus_document_ok publish_entity_ok
    bootstrap_corpus_ok)

text \<open>
  C9: in every store reached from an empty journal by the module's operations, with any backends, any
  clock and any writes of the other modules in between, the journal has one row per target, kind and
  key; a row is pending, failed or published; it has a publication time exactly when published, an
  error text only when failed, and a failed row counts at least one attempt.
\<close>

theorem journal_reachable_ok:
  assumes "reachable pub gpub clock st"
  shows "journal_ok st"
  using assms
proof (induction rule: reachable.induct)
  case (fresh st)
  then show ?case by (simp add: journal_ok_def)
next
  case (step st st')
  then show ?case using step_ok by blast
qed

lemma find_map_same:
  "(\<And>r. P (f r) = P r) \<Longrightarrow> List.find P (map f xs) = map_option f (List.find P xs)"
  by (induction xs) simp_all

lemma find_none_ex: "\<not> list_ex P xs \<Longrightarrow> List.find P xs = None"
  by (induction xs) auto

lemma insert_row_fields [simp]:
  "pj_status (insert_row i t k key p s e n b) = s" "pj_last_error (insert_row i t k key p s e n b) = e"
  "pj_payload_json (insert_row i t k key p s e n b) = json_dumps (PDict p)"
  "pj_updated_at (insert_row i t k key p s e n b) = n"
  "pj_published_at (insert_row i t k key p s e n b) = (if b then Some n else None)"
  "pj_attempts (insert_row i t k key p s e n b) = (if s = ''failed'' then 1 else 0)"
  by (simp_all add: insert_row_def)

text \<open>The row of an object.\<close>

definition journal_find :: "string \<times> string \<times> string \<Rightarrow> 'b publish_store \<Rightarrow> journal_row option" where
  "journal_find obj st = List.find (\<lambda>r. object_of r = obj) (ps_journal st)"

definition attempts_of :: "string \<times> string \<times> string \<Rightarrow> 'b publish_store \<Rightarrow> nat" where
  "attempts_of obj st = (case journal_find obj st of None \<Rightarrow> 0 | Some r \<Rightarrow> pj_attempts r)"

lemma journal_find_object: "journal_find obj st = Some r \<Longrightarrow> object_of r = obj"
  by (auto simp: journal_find_def find_Some_iff)

lemma journal_find_frame [simp]:
  "journal_find obj (st\<lparr>ps_backend := b\<rparr>) = journal_find obj st"
  "journal_find obj (st\<lparr>ps_corpus_error := e\<rparr>) = journal_find obj st"
  "attempts_of obj (st\<lparr>ps_backend := b\<rparr>) = attempts_of obj st"
  "attempts_of obj (st\<lparr>ps_corpus_error := e\<rparr>) = attempts_of obj st"
  by (simp_all add: journal_find_def attempts_of_def)

lemma upsert_frame [simp]:
  "ps_corpus_target (upsert_publish_journal clock t k key p s e b st) = ps_corpus_target st"
  "ps_corpus_error (upsert_publish_journal clock t k key p s e b st) = ps_corpus_error st"
  "ps_documents (upsert_publish_journal clock t k key p s e b st) = ps_documents st"
  "ps_sections (upsert_publish_journal clock t k key p s e b st) = ps_sections st"
  "ps_transcripts (upsert_publish_journal clock t k key p s e b st) = ps_transcripts st"
  "ps_backend (upsert_publish_journal clock t k key p s e b st) = ps_backend st"
  "ps_ticks (upsert_publish_journal clock t k key p s e b st) = ps_ticks st + 1"
  by (simp_all add: upsert_publish_journal_def Let_def)

lemma upsert_find_other:
  assumes "obj \<noteq> (t, k, key)"
  shows "journal_find obj (upsert_publish_journal clock t k key p s e b st) = journal_find obj st"
proof -
  let ?upd = "\<lambda>r. if same_object t k key r then update_row p s e (clock (ps_ticks st)) b r else r"
  have "map_option ?upd (List.find (\<lambda>r. object_of r = obj) xs) = List.find (\<lambda>r. object_of r = obj) xs" for xs
    using assms by (induction xs) (auto simp: same_object_iff)
  moreover have "List.find (\<lambda>r. object_of r = obj) (map ?upd xs) = map_option ?upd (List.find (\<lambda>r. object_of r = obj) xs)" for xs
    by (rule find_map_same) simp
  moreover have "object_of (insert_row i t k key p s e n b) = (t, k, key)" for i n
    by (simp add: object_of_def insert_row_def)
  ultimately show ?thesis
    using assms by (auto simp: journal_find_def upsert_publish_journal_def Let_def find_append split: option.splits)
qed

lemma upsert_find_same:
  obtains r where "journal_find (t, k, key) (upsert_publish_journal clock t k key p s e b st) = Some r"
    "pj_status r = s" "pj_last_error r = e" "pj_payload_json r = json_dumps (PDict p)"
    "pj_updated_at r = clock (ps_ticks st)" "pj_published_at r = (if b then Some (clock (ps_ticks st)) else None)"
    "pj_attempts r = attempts_of (t, k, key) st + (if s = ''failed'' then 1 else 0)"
proof (cases "list_ex (same_object t k key) (ps_journal st)")
  case True
  let ?upd = "\<lambda>r. if same_object t k key r then update_row p s e (clock (ps_ticks st)) b r else r"
  obtain r0 where r0: "journal_find (t, k, key) st = Some r0"
    using True by (cases "journal_find (t, k, key) st") (auto simp: journal_find_def find_None_iff list_ex_iff same_object_iff)
  then have "same_object t k key r0" using journal_find_object by (simp add: same_object_iff)
  moreover have "journal_find (t, k, key) (upsert_publish_journal clock t k key p s e b st) = map_option ?upd (journal_find (t, k, key) st)"
    using True find_map_same [of "\<lambda>r. object_of r = (t, k, key)" ?upd "ps_journal st"]
    by (simp add: journal_find_def upsert_publish_journal_def Let_def)
  ultimately show thesis using r0
    by (intro that [of "update_row p s e (clock (ps_ticks st)) b r0"]) (simp_all add: update_row_def attempts_of_def)
next
  case False
  have n: "journal_find (t, k, key) st = None"
    using False by (auto simp: journal_find_def find_None_iff list_ex_iff same_object_iff)
  have f: "journal_find (t, k, key) (upsert_publish_journal clock t k key p s e b st) =
      Some (insert_row (ps_next_id st) t k key p s e (clock (ps_ticks st)) b)"
    using False n by (simp add: journal_find_def upsert_publish_journal_def Let_def find_append object_of_def insert_row_def)
  have "attempts_of (t, k, key) st = 0" by (simp add: attempts_of_def n)
  then show thesis by (intro that [OF f]) simp_all
qed

text \<open>
  What one publication leaves behind: the object's row is published at the second clock reading
  with the snapshot's text and its attempt count unchanged, or it is failed with the backend's
  error and one attempt more, and the exception is raised exactly when the caller asked for it; the
  backend's error is remembered or cleared, and the rows of all other objects are unchanged.
\<close>

theorem publication_outcome:
  assumes "ps_corpus_target st = Some target"
    and "pub snapshot (ps_backend st) = (failure, b)"
    and "publish_semantic_snapshot pub clock kind key snapshot raising st = (out, st')"
  shows "\<exists>r. journal_find (target, kind, key) st' = Some r \<and> pj_payload_json r = json_dumps (PDict snapshot) \<and>
    ps_backend st' = b \<and>
    (\<forall>obj. obj \<noteq> (target, kind, key) \<longrightarrow> journal_find obj st' = journal_find obj st) \<and>
    (case failure of
       None \<Rightarrow> out = Returned \<and> pj_status r = ''published'' \<and> pj_last_error r = [] \<and>
         pj_attempts r = attempts_of (target, kind, key) st \<and>
         pj_published_at r = Some (clock (ps_ticks st + 1)) \<and> ps_corpus_error st' = []
     | Some e \<Rightarrow> out = (if raising then Raised e else Returned) \<and> pj_status r = ''failed'' \<and> pj_last_error r = e \<and>
         pj_attempts r = attempts_of (target, kind, key) st + 1 \<and>
         pj_published_at r = None \<and> ps_corpus_error st' = e)"
proof -
  let ?st1 = "upsert_publish_journal clock target kind key snapshot ''pending'' [] False st"
  obtain r1 where r1: "journal_find (target, kind, key) ?st1 = Some r1"
    "pj_attempts r1 = attempts_of (target, kind, key) st + (if ''pending'' = ''failed'' then 1 else 0)"
    by (rule upsert_find_same [of target kind key clock snapshot "''pending''" "[]" False st])
  have a1: "attempts_of (target, kind, key) ?st1 = attempts_of (target, kind, key) st"
    using r1 by (simp add: attempts_of_def)
  show ?thesis
  proof (cases failure)
    case None
    let ?st2 = "?st1\<lparr>ps_backend := b, ps_corpus_error := []\<rparr>"
    have st': "st' = upsert_publish_journal clock target kind key snapshot ''published'' [] True ?st2" "out = Returned"
      using assms by (simp_all add: publish_semantic_snapshot_def Let_def None)
    obtain r where "journal_find (target, kind, key) st' = Some r"
      "pj_status r = ''published''" "pj_last_error r = []" "pj_payload_json r = json_dumps (PDict snapshot)"
      "pj_published_at r = (if True then Some (clock (ps_ticks ?st2)) else None)"
      "pj_attempts r = attempts_of (target, kind, key) ?st2 + (if ''published'' = ''failed'' then 1 else 0)"
      unfolding st'(1) by (rule upsert_find_same)
    then show ?thesis using a1 st' by (simp add: None upsert_find_other)
  next
    case (Some e)
    let ?st2 = "?st1\<lparr>ps_backend := b, ps_corpus_error := e\<rparr>"
    have st': "st' = upsert_publish_journal clock target kind key snapshot ''failed'' e False ?st2"
      "out = (if raising then Raised e else Returned)"
      using assms by (simp_all add: publish_semantic_snapshot_def Let_def Some)
    obtain r where "journal_find (target, kind, key) st' = Some r"
      "pj_status r = ''failed''" "pj_last_error r = e" "pj_payload_json r = json_dumps (PDict snapshot)"
      "pj_published_at r = (if False then Some (clock (ps_ticks ?st2)) else None)"
      "pj_attempts r = attempts_of (target, kind, key) ?st2 + (if ''failed'' = ''failed'' then 1 else 0)"
      unfolding st'(1) by (rule upsert_find_same)
    then show ?thesis using a1 st' by (simp add: Some upsert_find_other)
  qed
qed

section \<open>Replay with a backend that accepts\<close>

text \<open>The status of an object is published.\<close>

definition is_published :: "string \<times> string \<times> string \<Rightarrow> 'b publish_store \<Rightarrow> bool" where
  "is_published obj st \<longleftrightarrow> (case journal_find obj st of Some r \<Rightarrow> pj_status r = ''published'' | None \<Rightarrow> False)"

definition accepts :: "'b publisher \<Rightarrow> bool" where
  "accepts pub \<longleftrightarrow> (\<forall>snapshot b. fst (pub snapshot b) = None)"

lemma publish_accepted:
  assumes "accepts pub" and t: "ps_corpus_target st = Some target"
    and "publish_semantic_snapshot pub clock kind key snapshot raising st = (out, st')"
  shows "out = Returned" "is_published (target, kind, key) st'"
    "is_published obj st \<Longrightarrow> is_published obj st'"
    "ps_corpus_target st' = Some target" "ps_documents st' = ps_documents st" "ps_transcripts st' = ps_transcripts st"
proof -
  obtain b where p: "pub snapshot (ps_backend st) = (None, b)"
    using assms(1) unfolding accepts_def by (metis prod.collapse)
  let ?st1 = "upsert_publish_journal clock target kind key snapshot ''pending'' [] False st"
  let ?st2 = "?st1\<lparr>ps_backend := b, ps_corpus_error := []\<rparr>"
  have st': "st' = upsert_publish_journal clock target kind key snapshot ''published'' [] True ?st2" "out = Returned"
    using assms(3) p by (simp_all add: publish_semantic_snapshot_def Let_def t)
  show "out = Returned" "ps_corpus_target st' = Some target" "ps_documents st' = ps_documents st"
    "ps_transcripts st' = ps_transcripts st"
    using t by (simp_all add: st')
  obtain r where "journal_find (target, kind, key) st' = Some r" "pj_status r = ''published''"
    unfolding st'(1) by (rule upsert_find_same)
  then show o: "is_published (target, kind, key) st'" by (simp add: is_published_def)
  show "is_published obj st \<Longrightarrow> is_published obj st'"
  proof (cases "obj = (target, kind, key)")
    case False
    then have "journal_find obj st' = journal_find obj st" by (simp add: st'(1) upsert_find_other)
    then show "is_published obj st \<Longrightarrow> is_published obj st'" by (simp add: is_published_def)
  qed (use o in simp)
qed

text \<open>What replay needs of the document table: identifiers are a key.\<close>

definition documents_keyed :: "document_row list \<Rightarrow> bool" where
  "documents_keyed ds \<longleftrightarrow> distinct (map dr_id ds)"

lemma find_keyed:
  assumes "documents_keyed ds" "List.find P ds = Some d"
  shows "List.find (\<lambda>e. dr_id e = dr_id d) ds = Some d" "P d"
proof -
  from assms(2) have d: "d \<in> set ds" "P d" by (auto simp: find_Some_iff)
  then show "P d" by simp
  from assms(1) d(1) show "List.find (\<lambda>e. dr_id e = dr_id d) ds = Some d"
    unfolding documents_keyed_def by (induction ds) (auto simp: rev_image_eqI)
qed

lemma replay_row_accepted:
  assumes a: "accepts pub" and t: "ps_corpus_target st = Some target" and k: "documents_keyed (ps_documents st)"
    and key: "strip_text (PStr (pj_key r)) \<noteq> []" and s: "replay_row pub clock rt r st = (out, st')"
  shows "out = Returned" "ps_corpus_target st' = Some target" "ps_documents st' = ps_documents st"
    "ps_transcripts st' = ps_transcripts st"
    "is_published obj st \<Longrightarrow> is_published obj st'"
    "strip_text (PStr (pj_kind r)) = ''corpus_document'' \<Longrightarrow>
       List.find (\<lambda>d. dr_stable_key d = strip_text (PStr (pj_key r)) \<and> dr_active d) (ps_documents st) = Some d \<Longrightarrow>
       is_published (target, ''corpus_document'', strip_text (PStr (pj_key r))) st'"
proof -
  let ?key = "strip_text (PStr (pj_key r))"
  let ?find = "List.find (\<lambda>d. dr_stable_key d = ?key \<and> dr_active d) (ps_documents st)"
  have doc: "\<exists>snapshot. replay_row pub clock rt r st = publish_semantic_snapshot pub clock ''corpus_document'' ?key snapshot True st"
    if "strip_text (PStr (pj_kind r)) = ''corpus_document''" "?find = Some d" for d
  proof -
    have f: "List.find (\<lambda>e. dr_id e = dr_id d) (ps_documents st) = Some d" "dr_stable_key d = ?key"
      using find_keyed [OF k that(2)] by simp_all
    then have "publish_corpus_document pub clock (dr_id d) st =
        publish_semantic_snapshot pub clock ''corpus_document'' ?key
          [(''document'', PDict (document_dict d)),
           (''sections'', PList (map (PDict \<circ> section_dict) (if dr_active d
             then sort_key (\<lambda>s. (sr_index s, sr_id s)) (filter (\<lambda>s. sr_document_id s = dr_id d) (ps_sections st)) else [])))] True st"
      using key by (simp add: publish_corpus_document_def corpus_document_snapshot_def t document_dict_def Let_def)
    with that show ?thesis by (simp add: replay_row_def Let_def) blast
  qed
  have cases: "replay_row pub clock rt r st = (Returned, st) \<or>
      (\<exists>kind okey snapshot raising. replay_row pub clock rt r st =
         publish_semantic_snapshot pub clock kind okey snapshot raising st)"
  proof (cases "strip_text (PStr (pj_kind r)) = ''corpus_document''")
    case True
    with doc show ?thesis by (cases ?find) (auto simp: replay_row_def Let_def)
  next
    case False
    then show ?thesis
      by (auto simp: replay_row_def publish_conversation_transcript_def conversation_transcript_snapshot_def Let_def
          split: option.splits)
  qed
  have all: "out = Returned \<and> ps_corpus_target st' = Some target \<and> ps_documents st' = ps_documents st \<and>
      ps_transcripts st' = ps_transcripts st \<and> (is_published obj st \<longrightarrow> is_published obj st')"
    using cases
  proof
    assume "replay_row pub clock rt r st = (Returned, st)"
    with s t show ?thesis by simp
  next
    assume "\<exists>kind okey snapshot raising. replay_row pub clock rt r st =
        publish_semantic_snapshot pub clock kind okey snapshot raising st"
    then obtain kind okey snapshot raising where
      "publish_semantic_snapshot pub clock kind okey snapshot raising st = (out, st')" using s by metis
    from publish_accepted [OF a t this] show ?thesis by blast
  qed
  show "out = Returned" "ps_corpus_target st' = Some target" "ps_documents st' = ps_documents st"
    "ps_transcripts st' = ps_transcripts st" "is_published obj st \<Longrightarrow> is_published obj st'"
    using all by blast+
  show "is_published (target, ''corpus_document'', ?key) st'"
    if kd: "strip_text (PStr (pj_kind r)) = ''corpus_document''" "?find = Some d"
  proof -
    obtain snapshot where "publish_semantic_snapshot pub clock ''corpus_document'' ?key snapshot True st = (out, st')"
      using doc [OF kd] s by metis
    from publish_accepted(2) [OF a t this] show ?thesis .
  qed
qed

lemma fresh_rows_nonblank: "r \<in> set (fresh_rows seen rs) \<Longrightarrow> strip_text (PStr (pj_key r)) \<noteq> []"
  by (induction seen rs rule: fresh_rows.induct) (auto simp: Let_def split: if_splits)

lemma fresh_rows_cover:
  assumes "r \<in> set rs" "strip_text (PStr (pj_kind r)) \<noteq> []" "strip_text (PStr (pj_key r)) \<noteq> []"
    "(strip_text (PStr (pj_kind r)), strip_text (PStr (pj_key r))) \<notin> set seen"
  shows "\<exists>r' \<in> set (fresh_rows seen rs). strip_text (PStr (pj_kind r')) = strip_text (PStr (pj_kind r)) \<and>
    strip_text (PStr (pj_key r')) = strip_text (PStr (pj_key r))"
  using assms
proof (induction seen rs rule: fresh_rows.induct)
  case (2 seen q rs)
  let ?ko = "\<lambda>r. (strip_text (PStr (pj_kind r)), strip_text (PStr (pj_key r)))"
  show ?case
  proof (cases "?ko q = ?ko r")
    case True
    then show ?thesis using 2 by (simp add: Let_def)
  next
    case False
    then have r: "r \<in> set rs" using "2.prems"(1) by auto
    show ?thesis
    proof (cases "strip_text (PStr (pj_kind q)) = [] \<or> strip_text (PStr (pj_key q)) = [] \<or> ?ko q \<in> set seen")
      case True
      then show ?thesis using "2.IH"(1) [OF refl refl True r] "2.prems" by (simp add: Let_def)
    next
      case skip: False
      then show ?thesis using "2.IH"(2) [OF refl refl skip r] "2.prems" False by (auto simp: Let_def)
    qed
  qed
qed simp

lemma replay_all_accepted:
  assumes a: "accepts pub" and "ps_corpus_target st = Some target" "documents_keyed (ps_documents st)"
    and "\<forall>r \<in> set rs. strip_text (PStr (pj_key r)) \<noteq> []"
  shows "\<exists>st'. run_each (replay_row pub clock rt) rs st = (Returned, st') \<and>
    (\<forall>obj. is_published obj st \<longrightarrow> is_published obj st') \<and>
    (\<forall>r \<in> set rs. strip_text (PStr (pj_kind r)) = ''corpus_document'' \<longrightarrow>
       List.find (\<lambda>d. dr_stable_key d = strip_text (PStr (pj_key r)) \<and> dr_active d) (ps_documents st) \<noteq> None \<longrightarrow>
       is_published (target, ''corpus_document'', strip_text (PStr (pj_key r))) st')"
  using assms(2-4)
proof (induction rs arbitrary: st)
  case (Cons r rs)
  obtain out st1 where s: "replay_row pub clock rt r st = (out, st1)" by force
  have key: "strip_text (PStr (pj_key r)) \<noteq> []" using Cons.prems(3) by simp
  note step = replay_row_accepted [OF a Cons.prems(1,2) key s]
  obtain st' where st': "run_each (replay_row pub clock rt) rs st1 = (Returned, st')"
    "\<forall>obj. is_published obj st1 \<longrightarrow> is_published obj st'"
    "\<forall>r \<in> set rs. strip_text (PStr (pj_kind r)) = ''corpus_document'' \<longrightarrow>
       List.find (\<lambda>d. dr_stable_key d = strip_text (PStr (pj_key r)) \<and> dr_active d) (ps_documents st) \<noteq> None \<longrightarrow>
       is_published (target, ''corpus_document'', strip_text (PStr (pj_key r))) st'"
    using Cons.IH [of st1] step(2,3) Cons.prems by auto
  have "run_each (replay_row pub clock rt) (r # rs) st = (Returned, st')" using s st'(1) step(1) by simp
  moreover have "is_published obj st'" if "is_published obj st" for obj using step(5) st'(2) that by blast
  moreover have "is_published (target, ''corpus_document'', strip_text (PStr (pj_key r))) st'"
    if "strip_text (PStr (pj_kind r)) = ''corpus_document''"
      "List.find (\<lambda>d. dr_stable_key d = strip_text (PStr (pj_key r)) \<and> dr_active d) (ps_documents st) \<noteq> None"
    using step(6) st'(2) that by blast
  ultimately show ?case using st'(3) by auto
qed simp

text \<open>
  C32: replay drains the document backlog: with a backend that accepts every publication, replay on
  open returns, and every pending row of the configured target for an active document is published
  afterwards; objects that were published stay so.
\<close>

theorem replay_publishes_backlog:
  assumes "accepts pub" and "ps_corpus_target st = Some target" and "documents_keyed (ps_documents st)"
  shows "\<exists>st'. replay_corpus_publications_if_needed pub clock rf rt st = (Returned, st') \<and>
    (\<forall>obj. is_published obj st \<longrightarrow> is_published obj st') \<and>
    (\<forall>r \<in> set (ps_journal st).
       pj_target r = target \<and> pj_kind r = ''corpus_document'' \<and> pj_status r = ''pending'' \<and>
       strip_text (PStr (pj_key r)) \<noteq> [] \<and>
       List.find (\<lambda>d. dr_stable_key d = strip_text (PStr (pj_key r)) \<and> dr_active d) (ps_documents st) \<noteq> None \<longrightarrow>
       is_published (target, ''corpus_document'', strip_text (PStr (pj_key r))) st')"
proof -
  let ?rows = "fresh_rows [] (replayable_rows rf target (ps_journal st))"
  have nb: "\<forall>r \<in> set ?rows. strip_text (PStr (pj_key r)) \<noteq> []" using fresh_rows_nonblank by blast
  from replay_all_accepted [OF assms nb, of clock rt] obtain st' where st':
    "run_each (replay_row pub clock rt) ?rows st = (Returned, st')"
    "\<forall>obj. is_published obj st \<longrightarrow> is_published obj st'"
    "\<forall>r \<in> set ?rows. strip_text (PStr (pj_kind r)) = ''corpus_document'' \<longrightarrow>
       List.find (\<lambda>d. dr_stable_key d = strip_text (PStr (pj_key r)) \<and> dr_active d) (ps_documents st) \<noteq> None \<longrightarrow>
       is_published (target, ''corpus_document'', strip_text (PStr (pj_key r))) st'" by blast
  have word: "strip_text (PStr ''corpus_document'') = ''corpus_document''" by (simp add: text_eval)
  have "is_published (target, ''corpus_document'', strip_text (PStr (pj_key r))) st'"
    if r: "r \<in> set (ps_journal st)" "pj_target r = target" "pj_kind r = ''corpus_document''" "pj_status r = ''pending''"
      "strip_text (PStr (pj_key r)) \<noteq> []"
      "List.find (\<lambda>d. dr_stable_key d = strip_text (PStr (pj_key r)) \<and> dr_active d) (ps_documents st) \<noteq> None" for r
  proof -
    have m: "r \<in> set (replayable_rows rf target (ps_journal st))"
      using r by (simp add: replayable_rows_def replay_statuses_def)
    have w: "strip_text (PStr (pj_kind r)) = ''corpus_document''" using word r(3) by (simp only:)
    have "strip_text (PStr (pj_kind r)) \<noteq> []" unfolding w by simp
    from fresh_rows_cover [OF m this r(5), of "[]"] obtain r' where r':
      "r' \<in> set ?rows" "strip_text (PStr (pj_kind r')) = ''corpus_document''"
      "strip_text (PStr (pj_key r')) = strip_text (PStr (pj_key r))"
      unfolding w by (simp only: list.set empty_iff not_False_eq_True simp_thms) blast
    have "List.find (\<lambda>d. dr_stable_key d = strip_text (PStr (pj_key r')) \<and> dr_active d) (ps_documents st) \<noteq> None"
      unfolding r'(3) by (rule r(6))
    from st'(3) [rule_format, OF r'(1,2) this] show ?thesis unfolding r'(3) .
  qed
  note doc = this
  have "replay_corpus_publications_if_needed pub clock rf rt st = (Returned, st')"
    using st'(1) assms(2) by (simp add: replay_corpus_publications_if_needed_def)
  then show ?thesis using st'(2) doc by (intro exI [of _ st'] conjI ballI impI) (assumption | blast)+
qed

section \<open>Scrubbing\<close>

definition conversation_row_of :: "int \<Rightarrow> journal_row \<Rightarrow> bool" where
  "conversation_row_of i r \<longleftrightarrow>
     pj_kind r = ''conversation_transcript'' \<and> pj_key r = conversation_semantic_object_key i"

lemma scrub_row_accepted:
  assumes "accepts pub"
  obtains b where "scrub_row pub t (c, st) =
    (Returned,
     c\<lparr>sc_journal_rows := sc_journal_rows c +
          (length (ps_journal st) - length (filter (\<lambda>r. \<not> conversation_row_of (tr_id t) r) (ps_journal st))),
       sc_corpus_snapshots := sc_corpus_snapshots c + (if ps_corpus_target st = None then 0 else 1),
       sc_deleted_ids := sc_deleted_ids c @ [tr_id t]\<rparr>,
     (delete_transcript (tr_id t) st)\<lparr>ps_backend := b\<rparr>)"
proof -
  let ?blank = "[(''document'', PDict [(''stable_key'',
      PStr (conversation_document_stable_key (tr_session_id t) (tr_turn_number t) (tr_id t)))]), (''sections'', PList [])]"
  obtain b where b: "(if ps_corpus_target st = None then (None, ps_backend st) else pub ?blank (ps_backend st)) = (None, b)"
    using assms unfolding accepts_def by (metis prod.collapse)
  show thesis
    by (rule that [of b], unfold scrub_row_def) (simp add: b delete_transcript_def conversation_row_of_def Let_def)
qed

lemma scrub_rows_accepted:
  assumes a: "accepts pub"
  shows "\<exists>c' st'. run_each (scrub_row pub) ts (c, st) = (Returned, c', st') \<and>
    ps_transcripts st' = filter (\<lambda>t. tr_id t \<notin> set (map tr_id ts)) (ps_transcripts st) \<and>
    ps_journal st' = filter (\<lambda>r. \<not> list_ex (\<lambda>i. conversation_row_of i r) (map tr_id ts)) (ps_journal st) \<and>
    sc_deleted_ids c' = sc_deleted_ids c @ map tr_id ts \<and>
    sc_journal_rows c' + length (ps_journal st') = sc_journal_rows c + length (ps_journal st)"
proof (induction ts arbitrary: c st)
  case Nil
  then show ?case by simp
next
  case (Cons t ts)
  let ?j = "filter (\<lambda>r. \<not> conversation_row_of (tr_id t) r) (ps_journal st)"
  obtain b where s: "scrub_row pub t (c, st) =
    (Returned,
     c\<lparr>sc_journal_rows := sc_journal_rows c + (length (ps_journal st) - length ?j),
       sc_corpus_snapshots := sc_corpus_snapshots c + (if ps_corpus_target st = None then 0 else 1),
       sc_deleted_ids := sc_deleted_ids c @ [tr_id t]\<rparr>,
     (delete_transcript (tr_id t) st)\<lparr>ps_backend := b\<rparr>)" (is "_ = (_, ?c, ?st)")
    using scrub_row_accepted [OF a] by blast
  have j: "ps_journal ?st = ?j" "ps_transcripts ?st = filter (\<lambda>u. tr_id u \<noteq> tr_id t) (ps_transcripts st)"
    by (simp_all add: delete_transcript_def conversation_row_of_def)
  from Cons.IH [of ?c ?st] obtain c' st' where st': "run_each (scrub_row pub) ts (?c, ?st) = (Returned, c', st')"
    "ps_transcripts st' = filter (\<lambda>t. tr_id t \<notin> set (map tr_id ts)) (ps_transcripts ?st)"
    "ps_journal st' = filter (\<lambda>r. \<not> list_ex (\<lambda>i. conversation_row_of i r) (map tr_id ts)) (ps_journal ?st)"
    "sc_deleted_ids c' = sc_deleted_ids ?c @ map tr_id ts"
    "sc_journal_rows c' + length (ps_journal st') = sc_journal_rows ?c + length (ps_journal ?st)" by blast
  have len: "length ?j \<le> length (ps_journal st)" by simp
  show ?case
  proof (intro exI conjI)
    show "run_each (scrub_row pub) (t # ts) (c, st) = (Returned, c', st')" using s st'(1) by simp
    show "ps_transcripts st' = filter (\<lambda>u. tr_id u \<notin> set (map tr_id (t # ts))) (ps_transcripts st)"
      unfolding st'(2) j by (auto simp: filter_filter intro: filter_cong)
    show "ps_journal st' = filter (\<lambda>r. \<not> list_ex (\<lambda>i. conversation_row_of i r) (map tr_id (t # ts))) (ps_journal st)"
      unfolding st'(3) j by (auto simp: filter_filter intro: filter_cong)
    show "sc_deleted_ids c' = sc_deleted_ids c @ map tr_id (t # ts)" using st'(4) by simp
    show "sc_journal_rows c' + length (ps_journal st') = sc_journal_rows c + length (ps_journal st)"
      using st'(5) len unfolding j by simp
  qed
qed

text \<open>
  The hygiene scrub removes exactly the residue: with an accepting backend and transcript rows keyed by
  identifier, it returns, keeps exactly the transcripts without a marker, reports the removed
  identifiers in order, drops exactly their journal rows and reports how many.
\<close>

theorem scrub_removes_exactly_residue:
  assumes "accepts pub" and "distinct (map tr_id (ps_transcripts st))"
  shows "\<exists>c st'. scrub_transcript_hygiene_residue pub st = (Returned, c, st') \<and>
    ps_transcripts st' = filter (\<lambda>t. \<not> has_residue t) (ps_transcripts st) \<and>
    sc_deleted_ids c = map tr_id (sort_key tr_id (filter has_residue (ps_transcripts st))) \<and>
    (\<forall>r. r \<in> set (ps_journal st') \<longleftrightarrow>
       r \<in> set (ps_journal st) \<and> \<not> list_ex (\<lambda>i. conversation_row_of i r) (sc_deleted_ids c)) \<and>
    sc_journal_rows c + length (ps_journal st') = length (ps_journal st)"
proof -
  let ?ts = "sort_key tr_id (filter has_residue (ps_transcripts st))"
  from scrub_rows_accepted [OF assms(1), of ?ts "\<lparr>sc_journal_rows = 0, sc_corpus_snapshots = 0, sc_deleted_ids = []\<rparr>" st]
  obtain c st' where s: "scrub_transcript_hygiene_residue pub st = (Returned, c, st')"
    "ps_transcripts st' = filter (\<lambda>t. tr_id t \<notin> set (map tr_id ?ts)) (ps_transcripts st)"
    "ps_journal st' = filter (\<lambda>r. \<not> list_ex (\<lambda>i. conversation_row_of i r) (map tr_id ?ts)) (ps_journal st)"
    "sc_deleted_ids c = map tr_id ?ts" "sc_journal_rows c + length (ps_journal st') = length (ps_journal st)"
    unfolding scrub_transcript_hygiene_residue_def by auto
  have "ps_transcripts st' = filter (\<lambda>t. \<not> has_residue t) (ps_transcripts st)"
    unfolding s(2)
  proof (rule filter_cong)
    fix t assume t: "t \<in> set (ps_transcripts st)"
    then show "(tr_id t \<notin> set (map tr_id ?ts)) = (\<not> has_residue t)"
      using assms(2) by (auto simp: distinct_map inj_on_def)
  qed simp
  moreover have "r \<in> set (ps_journal st') \<longleftrightarrow>
      r \<in> set (ps_journal st) \<and> \<not> list_ex (\<lambda>i. conversation_row_of i r) (sc_deleted_ids c)" for r
    unfolding s(3,4) by simp
  ultimately show ?thesis using s(1,4,5) by blast
qed

text \<open>
  Conversation object keys are read back: parsing the key of a transcript gives its identifier,
  so different transcripts have different keys.
\<close>

theorem conversation_key_roundtrip:
  "parse_conversation_object_key (conversation_semantic_object_key i) = Some i \<and>
   (conversation_semantic_object_key i = conversation_semantic_object_key j \<longleftrightarrow> i = j)"
proof
  let ?key = "conversation_semantic_object_key i"
  have "\<forall>c \<in> set ?key. \<not> is_space c"
    using show_int_no_space by (auto simp: conversation_semantic_object_key_def is_space_def)
  then have "strip_text (PStr ?key) = ?key" by (simp add: strip_text_PStr strip_no_space)
  then show "parse_conversation_object_key ?key = Some i"
    by (simp add: parse_conversation_object_key_def py_startswith_def conversation_semantic_object_key_def)
  show "conversation_semantic_object_key i = conversation_semantic_object_key j \<longleftrightarrow> i = j"
    by (simp add: conversation_semantic_object_key_def)
qed

section \<open>A concrete store\<close>

definition sample_store :: "unit publish_store" where
  "sample_store =
    \<lparr>ps_journal = [], ps_next_id = 1, ps_ticks = 0,
     ps_transcripts =
       [\<lparr>tr_id = 7, tr_session_id = ''s'', tr_turn_number = 1, tr_kind = ''turn'', tr_content = ''hello'',
         tr_source = ''user'', tr_metadata = [], tr_created_at = ''t0''\<rparr>,
        \<lparr>tr_id = 8, tr_session_id = ''s'', tr_turn_number = 2, tr_kind = ''turn'', tr_content = ''Assistant: Session reset.'',
         tr_source = ''user'', tr_metadata = [], tr_created_at = ''t1''\<rparr>],
     ps_documents =
       [\<lparr>dr_id = 3, dr_stable_key = ''doc'', dr_title = ''Doc'', dr_doc_kind = ''note'', dr_source = ''user'',
         dr_metadata = [], dr_updated_at = ''t0'', dr_active = True\<rparr>],
     ps_sections = [], ps_corpus_target = Some ''corpus'', ps_corpus_error = [], ps_graph_target = None,
     ps_graph_error = [], ps_backend = ()\<rparr>"

definition sample_accept :: "unit publisher" where
  "sample_accept _ b = (None, b)"

definition sample_refuse :: "unit publisher" where
  "sample_refuse _ b = (Some ''down'', b)"

definition sample_clock :: "nat \<Rightarrow> string" where
  "sample_clock n = replicate n (CHR ''t'')"

lemma sample_accepts: "accepts sample_accept"
  by (simp add: accepts_def sample_accept_def)

theorem journal_reachable_ok_witness:
  "journal_ok (snd (publish_corpus_document sample_refuse sample_clock 3 sample_store)) \<and>
   ps_journal (snd (publish_corpus_document sample_refuse sample_clock 3 sample_store)) \<noteq> []"
proof
  have "reachable sample_refuse sample_refuse sample_clock sample_store"
    by (rule reachable.fresh) (simp add: sample_store_def)
  from reachable.step [OF this journal_step.document]
  show "journal_ok (snd (publish_corpus_document sample_refuse sample_clock 3 sample_store))"
    by (rule journal_reachable_ok)
  show "ps_journal (snd (publish_corpus_document sample_refuse sample_clock 3 sample_store)) \<noteq> []"
    by (simp add: publish_corpus_document_def corpus_document_snapshot_def sample_store_def document_dict_def text_eval
        publish_semantic_snapshot_def sample_refuse_def upsert_publish_journal_def same_object_def insert_row_def Let_def)
qed

theorem publication_outcome_witness:
  "\<exists>out st' r. publish_semantic_snapshot sample_refuse sample_clock ''corpus_document'' ''doc'' [] True sample_store = (out, st') \<and>
     out = Raised ''down'' \<and> journal_find (''corpus'', ''corpus_document'', ''doc'') st' = Some r \<and>
     pj_status r = ''failed'' \<and> pj_attempts r = 1"
proof -
  have t: "ps_corpus_target sample_store = Some ''corpus''"
    and p: "sample_refuse [] (ps_backend sample_store) = (Some ''down'', ())"
    and o: "attempts_of (''corpus'', ''corpus_document'', ''doc'') sample_store = 0"
    by (simp_all add: sample_store_def sample_refuse_def attempts_of_def journal_find_def)
  obtain out st' where s: "publish_semantic_snapshot sample_refuse sample_clock ''corpus_document'' ''doc'' [] True sample_store = (out, st')"
    by force
  from publication_outcome [OF t p s] o s show ?thesis by auto
qed

text \<open>The store with one pending document row.\<close>

definition sample_backlog :: "unit publish_store" where
  "sample_backlog = upsert_publish_journal sample_clock ''corpus'' ''corpus_document'' ''doc'' [] ''pending'' [] False sample_store"

theorem replay_publishes_backlog_witness:
  "\<exists>st'. replay_corpus_publications_if_needed sample_accept sample_clock False False sample_backlog = (Returned, st') \<and>
     is_published (''corpus'', ''corpus_document'', ''doc'') st'"
proof -
  have t: "ps_corpus_target sample_backlog = Some ''corpus''" and k: "documents_keyed (ps_documents sample_backlog)"
    by (simp_all add: sample_backlog_def sample_store_def documents_keyed_def)
  define row where "row = insert_row 1 ''corpus'' ''corpus_document'' ''doc'' [] ''pending'' [] (sample_clock 0) False"
  have r: "row \<in> set (ps_journal sample_backlog)" "pj_target row = ''corpus''" "pj_kind row = ''corpus_document''"
    "pj_status row = ''pending''" "strip_text (PStr (pj_key row)) = ''doc''"
    by (simp_all add: row_def sample_backlog_def sample_store_def upsert_publish_journal_def insert_row_def text_eval Let_def)
  have d: "List.find (\<lambda>d. dr_stable_key d = ''doc'' \<and> dr_active d) (ps_documents sample_backlog) \<noteq> None"
    by (simp add: sample_backlog_def sample_store_def)
  from replay_publishes_backlog [OF sample_accepts t k, of sample_clock False False] r d show ?thesis by fastforce
qed

theorem scrub_removes_exactly_residue_witness:
  "\<exists>c st'. scrub_transcript_hygiene_residue sample_accept sample_store = (Returned, c, st') \<and>
     map tr_id (ps_transcripts st') = [7] \<and> sc_deleted_ids c = [8]"
proof -
  have d: "distinct (map tr_id (ps_transcripts sample_store))" by (simp add: sample_store_def)
  have f: "map tr_id (filter has_residue (ps_transcripts sample_store)) = [8] \<and>
      map tr_id (filter (\<lambda>t. \<not> has_residue t) (ps_transcripts sample_store)) = [7] \<and>
      map tr_id (sort_key tr_id (filter has_residue (ps_transcripts sample_store))) = [8]"
    by code_simp
  from scrub_removes_exactly_residue [OF sample_accepts d] f show ?thesis by metis
qed

end
