(* ===== verification/AuthorityPolicy.thy ===== *)
theory AuthorityPolicy
  imports PyHash
begin

text \<open>
  \<open>brainstack/explicit_truth_parity.py\<close> and \<open>brainstack/authority_policy.py\<close>: the parity record that compares a
  host write with its projection, and the classification of one selected evidence row into what
  it may be used to claim. Evidence rows are dictionaries; the fixed dictionary the classifier returns
  is the record \<open>evidence_authority\<close>, the one of the parity builder stays a dictionary because
  it travels inside rows.
\<close>

section \<open>Explicit truth parity\<close>

definition DEGRADED_PROJECTION_STATUSES :: "string set" where
  "DEGRADED_PROJECTION_STATUSES =
    {''pending'', ''failed'', ''missing_after_timeout'', ''conflict'', ''unknown_host_receipt''}"

definition DEGRADED_DIVERGENCE_STATUSES :: "string set" where
  "DEGRADED_DIVERGENCE_STATUSES =
    {''host_committed_brainstack_missing'', ''brainstack_committed_host_missing'', ''host_and_brainstack_conflict'',
     ''scope_mismatch'', ''stable_key_mismatch'', ''authority_mismatch'', ''current_prior_mismatch'',
     ''content_conflict''}"

definition plain_text :: "pyval \<Rightarrow> string" where
  "plain_text v = py_str (py_or v (PStr []))"

definition content_hash :: "pyval \<Rightarrow> string" where
  "content_hash v = (if plain_text v = [] then [] else sha256_hex (plain_text v))"

definition derive_host_trace_id :: "string \<Rightarrow> string \<Rightarrow> string \<Rightarrow> pydict \<Rightarrow> string" where
  "derive_host_trace_id action target content metadata =
     ''derived-host-'' @ take 24 (sha256_hex (py_join ''|''
       ([action, target, content_hash (PStr content)] @
        map (\<lambda>k. plain_text (dget metadata k)) [''session_id'', ''tool_call_id'', ''task_id'', ''write_origin''])))"

record parity_args =
  pa_projection_status :: string
  pa_source_role :: string
  pa_stable_key :: string
  pa_principal_scope_key :: string
  pa_content :: string
  pa_brainstack_projection_receipt_id :: string
  pa_host_receipt_id :: string
  pa_host_receipt_source :: string
  pa_host_content_hash :: string
  pa_host_stable_key :: string
  pa_host_scope :: string
  pa_host_temporal_status :: string
  pa_brainstack_temporal_status :: string
  pa_authority_class :: string
  pa_error :: string

abbreviation stripped :: "string \<Rightarrow> string" where
  "stripped s \<equiv> strip_text (PStr s)"

definition both_differ :: "string \<Rightarrow> string \<Rightarrow> bool" where
  "both_differ a b \<longleftrightarrow> a \<noteq> [] \<and> b \<noteq> [] \<and> a \<noteq> b"

definition status_from_mismatch :: "parity_args \<Rightarrow> string" where
  "status_from_mismatch a =
     (if both_differ (stripped (pa_host_scope a)) (stripped (pa_principal_scope_key a)) then ''scope_mismatch''
      else if both_differ (stripped (pa_host_stable_key a)) (stripped (pa_stable_key a)) then ''stable_key_mismatch''
      else if both_differ (stripped (pa_host_content_hash a)) (content_hash (PStr (pa_content a))) then ''content_conflict''
      else if both_differ (stripped (pa_host_temporal_status a)) (stripped (pa_brainstack_temporal_status a))
        then ''current_prior_mismatch''
      else ''none'')"

definition parity_projection :: "parity_args \<Rightarrow> string" where
  "parity_projection a =
     (if stripped (pa_projection_status a) = [] then ''unknown_host_receipt'' else stripped (pa_projection_status a))"

definition parity_divergence :: "parity_args \<Rightarrow> string" where
  "parity_divergence a =
     (let projection = parity_projection a; divergence = status_from_mismatch a;
          host_receipt = stripped (pa_host_receipt_id a) in
      if projection = ''failed'' then
        (if host_receipt \<noteq> [] then ''host_committed_brainstack_missing'' else ''parity_unobservable'')
      else if projection = ''missing_after_timeout'' then ''host_committed_brainstack_missing''
      else if projection = ''conflict'' \<and> divergence = ''none'' then ''host_and_brainstack_conflict''
      else if host_receipt = [] then ''parity_unobservable''
      else if stripped (pa_host_receipt_source a) = ''derived_host_trace'' \<and> divergence = ''none'' then ''derived_partial''
      else divergence)"

definition parity_observability :: "parity_args \<Rightarrow> string" where
  "parity_observability a =
     (let projection = parity_projection a; divergence = parity_divergence a in
      if projection = ''pending'' then ''partially_observable''
      else if projection \<in> {''failed'', ''missing_after_timeout'', ''conflict''} then ''observable_diverged''
      else if divergence \<in> DEGRADED_DIVERGENCE_STATUSES then ''observable_diverged''
      else if stripped (pa_host_receipt_id a) = [] then ''unobservable''
      else if stripped (pa_host_receipt_source a) = ''derived_host_trace'' then ''partially_observable''
      else if divergence = ''none'' then ''observable_clean'' else ''observable_diverged'')"

definition build_explicit_truth_parity :: "parity_args \<Rightarrow> pydict" where
  "build_explicit_truth_parity a =
     (let brainstack_hash = content_hash (PStr (pa_content a));
          seed = py_join ''|'' [stripped (pa_host_receipt_id a), pa_brainstack_projection_receipt_id a,
                   stripped (pa_stable_key a), stripped (pa_principal_scope_key a), brainstack_hash] in
      [(''schema'', PStr ''brainstack.explicit_truth_parity.v1''),
       (''explicit_user_truth_transaction_id'', PStr (''truth-tx-'' @ take 24 (sha256_hex seed))),
       (''host_receipt_id'', PStr (stripped (pa_host_receipt_id a))),
       (''host_receipt_source'', PStr (stripped (pa_host_receipt_source a))),
       (''brainstack_projection_receipt_id'', PStr (stripped (pa_brainstack_projection_receipt_id a))),
       (''projection_status'', PStr (parity_projection a)),
       (''divergence_status'', PStr (parity_divergence a)),
       (''parity_observable'', PStr (parity_observability a)),
       (''source_role'', PStr (stripped (pa_source_role a))),
       (''stable_key'', PStr (stripped (pa_stable_key a))),
       (''principal_scope_key'', PStr (stripped (pa_principal_scope_key a))),
       (''authority_class'', PStr (stripped (pa_authority_class a))),
       (''host_content_hash'', PStr (stripped (pa_host_content_hash a))),
       (''brainstack_content_hash'', PStr brainstack_hash),
       (''host_stable_key'', PStr (stripped (pa_host_stable_key a))),
       (''brainstack_stable_key'', PStr (stripped (pa_stable_key a))),
       (''host_scope'', PStr (stripped (pa_host_scope a))),
       (''brainstack_scope'', PStr (stripped (pa_principal_scope_key a))),
       (''host_temporal_status'', PStr (stripped (pa_host_temporal_status a))),
       (''brainstack_temporal_status'', PStr (stripped (pa_brainstack_temporal_status a))),
       (''error'', PStr (stripped (pa_error a)))])"

text \<open>The argument is a mapping or is treated as missing.\<close>

definition parity_degrades_answerability :: "pyval \<Rightarrow> bool" where
  "parity_degrades_answerability parity \<longleftrightarrow>
     is_mapping parity \<and>
     (strip_text (dget (as_mapping parity) ''projection_status'') \<in> DEGRADED_PROJECTION_STATUSES \<or>
      strip_text (dget (as_mapping parity) ''divergence_status'') \<in> DEGRADED_DIVERGENCE_STATUSES)"

section \<open>Reading an evidence row\<close>

definition lower_text :: "pyval \<Rightarrow> string" where
  "lower_text v = py_lower (norm_text v)"

definition is_selected_enough :: "pydict \<Rightarrow> bool" where
  "is_selected_enough row \<longleftrightarrow>
     (let overlap = int_or (py_or (dget row ''query_token_overlap'') (PInt 0)) 0;
          token_count = int_or (py_or (dget row ''query_token_count'') (PInt 0)) 0 in
      if lower_text (dget row ''match_mode'') = ''authority'' \<or>
         py_startswith (lower_text (dget row ''retrieval_source'')) ''live_system_state'' then True
      else if token_count \<le> 1 then overlap \<ge> 1 else overlap \<ge> 2)"

definition SUPPORT_ONLY_LITERAL_CLASSES :: "string set" where
  "SUPPORT_ONLY_LITERAL_CLASSES = {''private_path'', ''secret_shaped'', ''unknown''}"

definition literal_support_only :: "pydict \<Rightarrow> bool" where
  "literal_support_only item \<longleftrightarrow>
     (let classes = map (\<lambda>t. plain_text (dget t ''class'')) (mappings (as_list (dget item ''literal_tokens''))) in
      classes \<noteq> [] \<and> set classes \<subseteq> SUPPORT_ONLY_LITERAL_CLASSES)"

definition profile_preference_requires_direct_match :: "pydict \<Rightarrow> bool" where
  "profile_preference_requires_direct_match item \<longleftrightarrow>
     (let stable_key = lower_text (dget item ''stable_key'');
          literal_slot_match = dget item ''literal_slot_match'' in
      if norm_text (dget item ''shelf'') \<noteq> ''profile'' then False
      else if \<not> py_startswith stable_key ''preference:'' \<and> lower_text (dget item ''category'') \<noteq> ''preference_policy'' then False
      else if stable_key = ''preference:diagnostics'' then False
      else if lower_text (dget item ''retrieval_source'') = ''profile.slot_target'' \<or>
              lower_text (dget item ''match_mode'') = ''slot'' then False
      else if is_mapping literal_slot_match \<and> truthy (dget (as_mapping literal_slot_match) ''matched'') then False
      else True)"

definition admission_payload :: "pydict \<Rightarrow> pydict" where
  "admission_payload item =
     (let direct = dget item ''admission''; metadata = dget item ''metadata'';
          nested = dget (as_mapping metadata) ''admission'' in
      if is_mapping direct then as_mapping direct
      else if is_mapping metadata \<and> is_mapping nested then as_mapping nested
      else if dhas (as_mapping metadata) ''truth_eligible'' \<or> dhas (as_mapping metadata) ''support_visibility''
        then as_mapping metadata
      else [])"

text \<open>\<open>None\<close> when nothing blocks, otherwise the visibility.\<close>

definition admission_blocks_answer_truth :: "pydict \<Rightarrow> string option" where
  "admission_blocks_answer_truth item =
     (let admission = admission_payload item; visibility = lower_text (dget admission ''support_visibility'') in
      if admission = [] then None
      else if truthy (dget admission ''truth_eligible'') then None
      else if visibility \<in> {''inspect_only'', ''contradiction_only'', ''history_only'', ''normal''} then Some visibility
      else Some (if visibility \<noteq> [] then visibility else ''support_only''))"

text \<open>\<open>operating_truth.is_current_assignment_authority_metadata\<close>\<close>

definition is_current_assignment_authority_metadata :: "pydict \<Rightarrow> bool" where
  "is_current_assignment_authority_metadata payload \<longleftrightarrow>
     truthy (dget payload ''current_assignment_authority'') \<and>
     strip_text (dget payload ''current_assignment_authority_schema'') = ''brainstack.current_assignment_authority.v1''"

definition is_current_assignment_authority :: "pydict \<Rightarrow> bool" where
  "is_current_assignment_authority item \<longleftrightarrow>
     (let shelf = norm_text (dget item ''shelf'') in
      if truthy (dget item ''runtime_state_only'') then False
      else if shelf = ''task'' then \<not> truthy (dget item ''supporting_evidence_only'')
      else if shelf = ''operating'' then
        is_current_assignment_authority_metadata
          [(''current_assignment_authority'', PBool (truthy (dget item ''current_assignment_authority''))),
           (''current_assignment_authority_schema'',
              PStr (norm_text (dget item ''current_assignment_authority_schema'')))]
      else False)"

definition infer_query_intent :: "pyval \<Rightarrow> string result" where
  "infer_query_intent analysis =
     (let payload = as_mapping analysis; lookup = as_mapping (dget payload ''operating_lookup'') in
      case py_iter (dget_default lookup ''record_types'' (PList [])) of
        None \<Rightarrow> Inl TypeError
      | Some values \<Rightarrow>
          let record_types = filter (\<lambda>t. t \<noteq> []) (map norm_text values) in
          Inr (if truthy (dget payload ''operating_like'') \<and> ''active_work'' \<in> set record_types
               then ''current_assignment'' else ''memory''))"

section \<open>Classification\<close>

record evidence_authority =
  ea_evidence_key :: string
  ea_shelf :: string
  ea_answer_authority :: bool
  ea_supporting_only :: bool
  ea_current_assignment_authority :: bool
  ea_max_claim_strength :: string
  ea_answer_type :: string
  ea_authority :: string
  ea_reason_code :: string
  ea_must_not_claim :: "string list"

definition base_authority :: "pydict \<Rightarrow> evidence_authority" where
  "base_authority item =
     (let evidence_key = norm_text (dget item ''evidence_key'') in
      \<lparr>ea_evidence_key = evidence_key, ea_shelf = norm_text (dget item ''shelf''),
       ea_answer_authority = False, ea_supporting_only = True,
       ea_current_assignment_authority = is_current_assignment_authority item,
       ea_max_claim_strength = (if evidence_key \<noteq> [] then ''supporting_context'' else ''none''),
       ea_answer_type = ''none'', ea_authority = ''none'',
       ea_reason_code = (if evidence_key \<noteq> [] then ''ONLY_SUPPORTING_CONTEXT'' else ''NO_CANDIDATES''),
       ea_must_not_claim = []\<rparr>)"

definition grant_answer :: "string \<Rightarrow> string \<Rightarrow> string \<Rightarrow> evidence_authority \<Rightarrow> evidence_authority" where
  "grant_answer claim answer_type authority r =
     r\<lparr>ea_answer_authority := True, ea_supporting_only := False, ea_max_claim_strength := claim,
       ea_answer_type := answer_type, ea_authority := authority, ea_reason_code := ''SELECTED_MEMORY_EVIDENCE''\<rparr>"

definition is_conflict :: "pydict \<Rightarrow> bool" where
  "is_conflict item \<longleftrightarrow>
     lower_text (py_or (dget item ''row_type'') (dget item ''record_type'')) = ''conflict'' \<or>
     py_contains ''conflict'' (lower_text (dget item ''graph_authority_status''))"

definition shelf_grant :: "string \<Rightarrow> evidence_authority \<Rightarrow> evidence_authority" where
  "shelf_grant shelf r =
     (if shelf = ''corpus'' then grant_answer ''source_says'' ''corpus_citation'' ''cited_source_support'' r
      else if shelf \<in> {''continuity_match'', ''continuity_recent'', ''transcript''} then
        (grant_answer ''bounded_event'' ''conversation_event'' ''supporting_event'' r)
        \<lparr>ea_must_not_claim := [''durable_user_fact'', ''lifetime_certainty'']\<rparr>
      else if shelf = ''graph'' then grant_answer ''memory_truth'' ''graph_truth'' ''explicit_current_fact'' r
      else grant_answer ''memory_truth'' ''explicit_user_fact'' ''explicit_current_fact'' r)"

definition classify_evidence_authority :: "pydict \<Rightarrow> string \<Rightarrow> evidence_authority" where
  "classify_evidence_authority item query_intent =
     (let r = base_authority item; parity = dget item ''explicit_truth_parity'' in
      if ea_evidence_key r = [] then r
      else
        (case admission_blocks_answer_truth item of
           Some visibility \<Rightarrow>
             r\<lparr>ea_max_claim_strength :=
                 (if visibility \<in> {''inspect_only'', ''contradiction_only''} then ''none'' else ''supporting_context''),
               ea_reason_code :=
                 (if visibility \<in> {''inspect_only'', ''contradiction_only''} then ''ADMISSION_NOT_TRUTH_ELIGIBLE''
                  else ''ONLY_SUPPORTING_CONTEXT''),
               ea_must_not_claim := [''memory_truth'', ''explicit_user_truth'']\<rparr>
         | None \<Rightarrow>
             if is_conflict item then
               r\<lparr>ea_max_claim_strength := ''none'', ea_reason_code := ''CONFLICTING_TRUTH'',
                 ea_must_not_claim := [''single_current_truth'', ''memory_truth'']\<rparr>
             else if parity_degrades_answerability parity then
               r\<lparr>ea_max_claim_strength := ''none'',
                 ea_reason_code := (if norm_text (dget (as_mapping parity) ''projection_status'') = ''pending''
                                    then ''PENDING_WRITE_BARRIER'' else ''HOST_MIRROR_DIVERGED''),
                 ea_must_not_claim := [''memory_truth'', ''single_current_truth'']\<rparr>
             else if query_intent = ''current_assignment'' then
               (if is_current_assignment_authority item
                then grant_answer ''memory_truth'' ''current_assignment'' ''typed_current_assignment'' r
                else r\<lparr>ea_must_not_claim := [''current_assignment'', ''memory_truth''],
                       ea_reason_code := ''AUTHORITY_MISMATCH''\<rparr>)
             else if profile_preference_requires_direct_match item then r\<lparr>ea_must_not_claim := [''memory_truth'']\<rparr>
             else if truthy (dget item ''supporting_evidence_only'') \<or> truthy (dget item ''runtime_state_only'') \<or>
                     literal_support_only item \<or> lower_text (dget item ''event_type'') = ''assistant_response'' then
               r\<lparr>ea_must_not_claim := [''memory_truth'']\<rparr>
             else if \<not> is_selected_enough item then
               r\<lparr>ea_must_not_claim := [''memory_truth''], ea_reason_code := ''AUTHORITY_MISMATCH''\<rparr>
             else shelf_grant (ea_shelf r) r))"

section \<open>Lemmas\<close>

lemma grant_answer_fields [simp]:
  "ea_answer_authority (grant_answer c t a r)" "\<not> ea_supporting_only (grant_answer c t a r)"
  "ea_max_claim_strength (grant_answer c t a r) = c" "ea_reason_code (grant_answer c t a r) = ''SELECTED_MEMORY_EVIDENCE''"
  "ea_authority (grant_answer c t a r) = a" "ea_answer_type (grant_answer c t a r) = t"
  "ea_evidence_key (grant_answer c t a r) = ea_evidence_key r"
  "ea_current_assignment_authority (grant_answer c t a r) = ea_current_assignment_authority r"
  by (simp_all add: grant_answer_def)

lemma base_authority_fields [simp]:
  "\<not> ea_answer_authority (base_authority item)" "ea_supporting_only (base_authority item)"
  "ea_evidence_key (base_authority item) = norm_text (dget item ''evidence_key'')"
  "ea_shelf (base_authority item) = norm_text (dget item ''shelf'')"
  "ea_current_assignment_authority (base_authority item) = is_current_assignment_authority item"
  by (simp_all add: base_authority_def Let_def)

text \<open>The event shelves bound the claim; corpus rows cite; the rest may be memory truth.\<close>

definition shelf_claim :: "string \<Rightarrow> string" where
  "shelf_claim shelf =
     (if shelf = ''corpus'' then ''source_says''
      else if shelf \<in> {''continuity_match'', ''continuity_recent'', ''transcript''} then ''bounded_event''
      else ''memory_truth'')"

lemma shelf_grant_fields [simp]:
  "ea_answer_authority (shelf_grant s r)" "\<not> ea_supporting_only (shelf_grant s r)"
  "ea_max_claim_strength (shelf_grant s r) = shelf_claim s"
  "ea_reason_code (shelf_grant s r) = ''SELECTED_MEMORY_EVIDENCE''"
  "ea_evidence_key (shelf_grant s r) = ea_evidence_key r"
  "ea_current_assignment_authority (shelf_grant s r) = ea_current_assignment_authority r"
  by (simp_all add: shelf_grant_def shelf_claim_def)

text \<open>Two facts kept by every branch, each proved through a predicate the branches' updates preserve.\<close>

definition row_fields :: "pydict \<Rightarrow> evidence_authority \<Rightarrow> bool" where
  "row_fields item r \<longleftrightarrow>
     ea_evidence_key r = norm_text (dget item ''evidence_key'') \<and>
     ea_current_assignment_authority r = is_current_assignment_authority item"

lemma row_fields_updates [simp]:
  "row_fields item (r\<lparr>ea_must_not_claim := m\<rparr>) = row_fields item r"
  "row_fields item (r\<lparr>ea_reason_code := c\<rparr>) = row_fields item r"
  "row_fields item (r\<lparr>ea_max_claim_strength := c\<rparr>) = row_fields item r"
  "row_fields item (base_authority item)" "row_fields item (grant_answer c t a r) = row_fields item r"
  "row_fields item (shelf_grant s r) = row_fields item r"
  by (simp_all add: row_fields_def)

lemma classify_key [simp]:
  "ea_evidence_key (classify_evidence_authority item q) = norm_text (dget item ''evidence_key'')"
  "ea_current_assignment_authority (classify_evidence_authority item q) = is_current_assignment_authority item"
proof -
  have "row_fields item (classify_evidence_authority item q)"
    unfolding classify_evidence_authority_def Let_def
    by (cases "admission_blocks_answer_truth item") simp_all
  then show "ea_evidence_key (classify_evidence_authority item q) = norm_text (dget item ''evidence_key'')"
    "ea_current_assignment_authority (classify_evidence_authority item q) = is_current_assignment_authority item"
    by (simp_all add: row_fields_def)
qed

definition supporting_unless_answer :: "evidence_authority \<Rightarrow> bool" where
  "supporting_unless_answer r \<longleftrightarrow> (ea_supporting_only r \<longleftrightarrow> \<not> ea_answer_authority r)"

lemma supporting_unless_answer_updates [simp]:
  "supporting_unless_answer (r\<lparr>ea_must_not_claim := m\<rparr>) = supporting_unless_answer r"
  "supporting_unless_answer (r\<lparr>ea_reason_code := c\<rparr>) = supporting_unless_answer r"
  "supporting_unless_answer (r\<lparr>ea_max_claim_strength := c\<rparr>) = supporting_unless_answer r"
  "supporting_unless_answer (base_authority item)" "supporting_unless_answer (grant_answer c t a r)"
  "supporting_unless_answer (shelf_grant s r)"
  by (simp_all add: supporting_unless_answer_def)

lemma classify_supporting: "ea_supporting_only (classify_evidence_authority item q) \<longleftrightarrow> \<not> ea_answer_authority (classify_evidence_authority item q)"
proof -
  have "supporting_unless_answer (classify_evidence_authority item q)"
    unfolding classify_evidence_authority_def Let_def
    by (cases "admission_blocks_answer_truth item") simp_all
  then show ?thesis by (simp add: supporting_unless_answer_def)
qed

text \<open>The one path to an answer.\<close>

lemma classify_answer:
  assumes "ea_answer_authority (classify_evidence_authority item q)"
  shows "norm_text (dget item ''evidence_key'') \<noteq> []" "admission_blocks_answer_truth item = None" "\<not> is_conflict item"
    "\<not> parity_degrades_answerability (dget item ''explicit_truth_parity'')"
    "ea_reason_code (classify_evidence_authority item q) = ''SELECTED_MEMORY_EVIDENCE''"
    "q = ''current_assignment'' \<Longrightarrow> is_current_assignment_authority item \<and>
       ea_max_claim_strength (classify_evidence_authority item q) = ''memory_truth''"
    "q \<noteq> ''current_assignment'' \<Longrightarrow>
       \<not> truthy (dget item ''supporting_evidence_only'') \<and> \<not> truthy (dget item ''runtime_state_only'') \<and>
       lower_text (dget item ''event_type'') \<noteq> ''assistant_response'' \<and> is_selected_enough item \<and>
       \<not> literal_support_only item \<and> \<not> profile_preference_requires_direct_match item \<and>
       ea_max_claim_strength (classify_evidence_authority item q) = shelf_claim (norm_text (dget item ''shelf''))"
proof -
  note d = classify_evidence_authority_def Let_def
  show k: "norm_text (dget item ''evidence_key'') \<noteq> []" by (rule ccontr) (use assms in \<open>simp add: d\<close>)
  show b: "admission_blocks_answer_truth item = None"
    by (rule ccontr) (use assms k in \<open>auto simp: d\<close>)
  show c: "\<not> is_conflict item" by (rule notI) (use assms k b in \<open>simp add: d\<close>)
  show p: "\<not> parity_degrades_answerability (dget item ''explicit_truth_parity'')"
    by (rule notI) (use assms k b c in \<open>simp add: d\<close>)
  note e = k b c p
  show "ea_reason_code (classify_evidence_authority item q) = ''SELECTED_MEMORY_EVIDENCE''"
    by (rule ccontr) (use assms e in \<open>simp add: d split: if_splits\<close>)
  show "is_current_assignment_authority item \<and> ea_max_claim_strength (classify_evidence_authority item q) = ''memory_truth''"
    if "q = ''current_assignment''"
    using assms e that by (simp add: d split: if_splits)
  show "\<not> truthy (dget item ''supporting_evidence_only'') \<and> \<not> truthy (dget item ''runtime_state_only'') \<and>
       lower_text (dget item ''event_type'') \<noteq> ''assistant_response'' \<and> is_selected_enough item \<and>
       \<not> literal_support_only item \<and> \<not> profile_preference_requires_direct_match item \<and>
       ea_max_claim_strength (classify_evidence_authority item q) = shelf_claim (norm_text (dget item ''shelf''))"
    if q: "q \<noteq> ''current_assignment''"
  proof -
    have d1: "\<not> profile_preference_requires_direct_match item" by (rule notI) (use assms e q in \<open>simp add: d\<close>)
    have d2: "\<not> (truthy (dget item ''supporting_evidence_only'') \<or> truthy (dget item ''runtime_state_only'') \<or>
        literal_support_only item \<or> lower_text (dget item ''event_type'') = ''assistant_response'')"
      by (rule notI) (use assms e q d1 in \<open>simp add: d\<close>)
    have d3: "is_selected_enough item" by (rule ccontr) (use assms e q d1 d2 in \<open>simp add: d\<close>)
    show ?thesis using e q d1 d2 d3 by (simp add: d)
  qed
qed

lemma strip_text_fixed [simp]: "strip_text (PStr (parity_projection a)) = parity_projection a"
  by (auto simp: parity_projection_def text_eval)

lemma mismatch_values:
  "status_from_mismatch a \<in> {''scope_mismatch'', ''stable_key_mismatch'', ''content_conflict'', ''current_prior_mismatch'', ''none''}"
  by (simp add: status_from_mismatch_def)

lemma divergence_values:
  "parity_divergence a \<in> {''host_committed_brainstack_missing'', ''parity_unobservable'', ''host_and_brainstack_conflict'',
     ''derived_partial'', ''scope_mismatch'', ''stable_key_mismatch'', ''content_conflict'', ''current_prior_mismatch'', ''none''}"
  using mismatch_values [of a] by (simp add: parity_divergence_def Let_def)

lemma strip_divergence [simp]: "strip_text (PStr (parity_divergence a)) = parity_divergence a"
  using divergence_values [of a] by (elim insertE emptyE) (simp_all add: text_eval)

lemma built_parity_degrades:
  "parity_degrades_answerability (PDict (build_explicit_truth_parity a)) \<longleftrightarrow>
     parity_projection a \<in> DEGRADED_PROJECTION_STATUSES \<or> parity_divergence a \<in> DEGRADED_DIVERGENCE_STATUSES"
  by (simp add: parity_degrades_answerability_def build_explicit_truth_parity_def Let_def)

section \<open>Properties\<close>

text \<open>
  C33: what it takes to answer from a row: an evidence key, no blocking admission, no conflict, no degraded
  parity; for a current-assignment question a typed assignment row; for any other question a row
  that is not supporting-only, not runtime state, not an assistant response and matched well enough,
  and then the claim is bounded by the shelf.
\<close>

theorem answers_need_authority:
  assumes "ea_answer_authority (classify_evidence_authority item q)"
  shows "norm_text (dget item ''evidence_key'') \<noteq> [] \<and> admission_blocks_answer_truth item = None \<and>
    \<not> is_conflict item \<and> \<not> parity_degrades_answerability (dget item ''explicit_truth_parity'') \<and>
    \<not> ea_supporting_only (classify_evidence_authority item q) \<and>
    (if q = ''current_assignment'' then is_current_assignment_authority item
     else \<not> truthy (dget item ''supporting_evidence_only'') \<and> \<not> truthy (dget item ''runtime_state_only'') \<and>
       lower_text (dget item ''event_type'') \<noteq> ''assistant_response'' \<and> is_selected_enough item \<and>
       ea_max_claim_strength (classify_evidence_authority item q) = shelf_claim (norm_text (dget item ''shelf'')))"
  using classify_answer [OF assms] classify_supporting assms by auto

text \<open>
  A diverged truth is never answered from: when the host has a receipt and the host's and the store's
  scope, key, content or temporal status differ, no row that carries the built parity record is
  granted an answer, whatever else the row says and whatever the question.
\<close>

theorem diverged_truth_never_answers:
  assumes "dget item ''explicit_truth_parity'' = PDict (build_explicit_truth_parity a)"
    and "status_from_mismatch a \<noteq> ''none''" and "stripped (pa_host_receipt_id a) \<noteq> []"
  shows "\<not> ea_answer_authority (classify_evidence_authority item q)"
proof
  assume "ea_answer_authority (classify_evidence_authority item q)"
  from classify_answer(4) [OF this] have
    "\<not> (parity_projection a \<in> DEGRADED_PROJECTION_STATUSES \<or> parity_divergence a \<in> DEGRADED_DIVERGENCE_STATUSES)"
    unfolding assms(1) built_parity_degrades .
  moreover have "parity_divergence a \<in> {''host_committed_brainstack_missing'', status_from_mismatch a}"
    using assms(2,3) by (simp add: parity_divergence_def Let_def)
  moreover have "status_from_mismatch a \<in> DEGRADED_DIVERGENCE_STATUSES"
    using mismatch_values [of a] assms(2) unfolding DEGRADED_DIVERGENCE_STATUSES_def by blast
  ultimately show False by (auto simp: DEGRADED_DIVERGENCE_STATUSES_def)
qed

text \<open>
  The observability summary agrees with the degradation test: a parity reported clean degrades
  answers only when the projection status was missing or unknown.
\<close>

theorem clean_parity_degrades_only_unknown:
  assumes "parity_observability a = ''observable_clean''"
  shows "parity_degrades_answerability (PDict (build_explicit_truth_parity a)) \<longleftrightarrow>
    parity_projection a = ''unknown_host_receipt''"
proof -
  have "parity_projection a \<notin> {''pending'', ''failed'', ''missing_after_timeout'', ''conflict''}"
    "parity_divergence a \<notin> DEGRADED_DIVERGENCE_STATUSES"
    using assms by (auto simp: parity_observability_def Let_def split: if_splits)
  then show ?thesis unfolding built_parity_degrades DEGRADED_PROJECTION_STATUSES_def by blast
qed

definition sample_row :: pydict where
  "sample_row =
    [(''shelf'', PStr ''graph''), (''evidence_key'', PStr ''graph:city''), (''content'', PStr ''The user lives in Pest''),
     (''query_token_overlap'', PInt 2), (''query_token_count'', PInt 3)]"

lemma sample_row_answers:
  "classify_evidence_authority sample_row ''memory'' =
     grant_answer ''memory_truth'' ''graph_truth'' ''explicit_current_fact'' (base_authority sample_row)"
  "norm_text (dget sample_row ''evidence_key'') = ''graph:city''"
  by (simp_all add: classify_evidence_authority_def sample_row_def admission_blocks_answer_truth_def
      admission_payload_def is_conflict_def lower_text_def text_eval py_lower_def py_startswith_def parity_degrades_answerability_def
      profile_preference_requires_direct_match_def literal_support_only_def is_selected_enough_def int_or_def
      py_or_def shelf_grant_def Let_def)

theorem answers_need_authority_witness:
  "ea_answer_authority (classify_evidence_authority sample_row ''memory'') \<and> is_selected_enough sample_row \<and>
   ea_max_claim_strength (classify_evidence_authority sample_row ''memory'') = ''memory_truth''"
  using answers_need_authority [of sample_row "''memory''"] by (simp add: sample_row_answers)

definition sample_parity :: parity_args where
  "sample_parity =
    \<lparr>pa_projection_status = ''committed'', pa_source_role = [], pa_stable_key = ''a'', pa_principal_scope_key = [],
     pa_content = [], pa_brainstack_projection_receipt_id = [], pa_host_receipt_id = ''h1'', pa_host_receipt_source = [],
     pa_host_content_hash = [], pa_host_stable_key = ''b'', pa_host_scope = [], pa_host_temporal_status = [],
     pa_brainstack_temporal_status = [], pa_authority_class = [], pa_error = []\<rparr>"

lemma stripped_Nil [simp]: "stripped [] = []"
  by (simp add: strip_text_PStr py_strip_def)

theorem diverged_truth_never_answers_witness:
  "\<not> ea_answer_authority (classify_evidence_authority
      (dset ''explicit_truth_parity'' (PDict (build_explicit_truth_parity sample_parity)) sample_row) ''memory'')"
proof (rule diverged_truth_never_answers)
  show "dget (dset ''explicit_truth_parity'' (PDict (build_explicit_truth_parity sample_parity)) sample_row) ''explicit_truth_parity'' =
      PDict (build_explicit_truth_parity sample_parity)" by simp
  show "status_from_mismatch sample_parity \<noteq> ''none''" "stripped (pa_host_receipt_id sample_parity) \<noteq> []"
    by (simp_all add: status_from_mismatch_def sample_parity_def both_differ_def text_eval)
qed

theorem clean_parity_degrades_only_unknown_witness:
  "\<not> parity_degrades_answerability (PDict (build_explicit_truth_parity (sample_parity\<lparr>pa_host_stable_key := ''a''\<rparr>)))"
proof -
  let ?a = "sample_parity\<lparr>pa_host_stable_key := ''a''\<rparr>"
  have p: "parity_projection ?a = ''committed''"
    by (simp add: parity_projection_def sample_parity_def text_eval)
  have "status_from_mismatch ?a = ''none''"
    by (simp add: status_from_mismatch_def sample_parity_def both_differ_def content_hash_def plain_text_def text_eval)
  then have "parity_observability ?a = ''observable_clean''"
    using p by (simp add: parity_observability_def parity_divergence_def sample_parity_def text_eval
        DEGRADED_DIVERGENCE_STATUSES_def Let_def)
  from clean_parity_degrades_only_unknown [OF this] p show ?thesis by simp
qed

end
