(* ===== verification/Answerability.thy ===== *)
theory Answerability
  imports AuthorityPolicy
begin

text \<open>
  \<open>brainstack/answerability.py\<close>: the contract that says whether the selected evidence supports an
  answer and what it may claim. The functions after classification take the classifier as an
  argument; \<open>build_memory_answerability\<close> passes the one of \<open>AuthorityPolicy\<close>. The dictionary of the
  contract is the record \<open>answerability\<close>.
\<close>

section \<open>Rows and packet\<close>

definition item_packet_text :: "pydict \<Rightarrow> string" where
  "item_packet_text item =
     (case filter (\<lambda>t. t \<noteq> []) (map (\<lambda>k. norm_text (dget item k))
             [''excerpt'', ''content'', ''object_value'', ''value_text'', ''subject'', ''stable_key'', ''evidence_key'']) of
        t # _ \<Rightarrow> t | [] \<Rightarrow> [])"

definition visible_in_packet :: "pydict \<Rightarrow> string \<Rightarrow> bool" where
  "visible_in_packet item packet_text \<longleftrightarrow>
     packet_text \<noteq> [] \<and>
     list_ex (\<lambda>v. 12 \<le> length v \<and> py_contains (take 80 (py_lower v)) (py_lower packet_text))
       [item_packet_text item, norm_text (dget item ''stable_key''), norm_text (dget item ''evidence_key'')]"

definition shelf_rows :: "string \<Rightarrow> pyval list \<Rightarrow> pydict list" where
  "shelf_rows shelf raw =
     map (\<lambda>row. dset ''shelf'' (PStr (if norm_text (dget row ''shelf'') \<noteq> [] then norm_text (dget row ''shelf'') else shelf)) row)
       (mappings raw)"

definition flatten_selected :: "pydict \<Rightarrow> pydict list result" where
  "flatten_selected selected_by_shelf =
     (case map_result (\<lambda>(shelf, raw). case iter_or_empty raw of Inl e \<Rightarrow> Inl e | Inr rows \<Rightarrow> Inr (shelf_rows shelf rows))
             selected_by_shelf of
        Inl e \<Rightarrow> Inl e
      | Inr rows \<Rightarrow> Inr (concat rows))"

definition evidence_ids :: "evidence_authority list \<Rightarrow> string list" where
  "evidence_ids items = filter (\<lambda>k. k \<noteq> []) (map ea_evidence_key items)"

definition must_not_claim :: "evidence_authority list \<Rightarrow> string list" where
  "must_not_claim items = sorted_set (filter (\<lambda>c. c \<noteq> []) (concat (map ea_must_not_claim items)))"

section \<open>Groups\<close>

definition conflicts_of :: "evidence_authority list \<Rightarrow> evidence_authority list" where
  "conflicts_of cs = filter (\<lambda>i. ea_reason_code i = ''CONFLICTING_TRUTH'') cs"

definition degraded_of :: "evidence_authority list \<Rightarrow> evidence_authority list" where
  "degraded_of cs = filter (\<lambda>i. ea_reason_code i \<in> {''PENDING_WRITE_BARRIER'', ''HOST_MIRROR_DIVERGED''}) cs"

definition answers_of :: "evidence_authority list \<Rightarrow> evidence_authority list" where
  "answers_of cs = filter ea_answer_authority cs"

definition supporting_of :: "evidence_authority list \<Rightarrow> evidence_authority list" where
  "supporting_of cs = filter (\<lambda>i. ea_supporting_only i \<and> ea_evidence_key i \<noteq> []) cs"

definition excluded_of :: "evidence_authority list \<Rightarrow> evidence_authority list" where
  "excluded_of cs =
     filter (\<lambda>i. \<not> ea_answer_authority i \<and> \<not> ea_supporting_only i \<and> ea_evidence_key i \<noteq> []) cs"

section \<open>The contract\<close>

record answerability =
  an_state :: string
  an_can_answer :: bool
  an_max_claim_strength :: string
  an_answer_type :: string
  an_authority :: string
  an_can_claim_memory_truth :: bool
  an_can_claim_current_assignment :: bool
  an_reason :: string
  an_reason_code :: string
  an_answer_evidence_ids :: "string list"
  an_supporting_context_ids :: "string list"
  an_excluded_evidence_ids :: "string list"
  an_must_not_claim :: "string list"

definition base_answerability ::
  "string \<Rightarrow> bool \<Rightarrow> string \<Rightarrow> string \<Rightarrow> string \<Rightarrow> string \<Rightarrow> string \<Rightarrow> string list \<Rightarrow> string list \<Rightarrow> string list \<Rightarrow> string list \<Rightarrow>
     bool \<Rightarrow> answerability" where
  "base_answerability state can_answer claim answer_type authority reason reason_code answers supporting excluded must_not assignment =
     \<lparr>an_state = state, an_can_answer = can_answer, an_max_claim_strength = claim, an_answer_type = answer_type,
      an_authority = authority, an_can_claim_memory_truth = (claim = ''memory_truth''),
      an_can_claim_current_assignment = assignment, an_reason = reason, an_reason_code = reason_code,
      an_answer_evidence_ids = answers, an_supporting_context_ids = supporting,
      an_excluded_evidence_ids = excluded, an_must_not_claim = must_not\<rparr>"

definition refusal :: "string \<Rightarrow> string \<Rightarrow> string \<Rightarrow> string \<Rightarrow> string list \<Rightarrow> string list \<Rightarrow> string list \<Rightarrow> answerability" where
  "refusal state answer_type reason reason_code supporting excluded must_not =
     base_answerability state False ''none'' answer_type ''none'' reason reason_code [] supporting excluded must_not False"

definition packet_suppressed_answerability :: "evidence_authority list \<Rightarrow> evidence_authority list \<Rightarrow> answerability" where
  "packet_suppressed_answerability supporting excluded =
     refusal ''unanswerable'' ''none'' ''authoritative evidence missing from final packet'' ''PACKET_SUPPRESSED''
       (evidence_ids supporting) (evidence_ids excluded) [''memory_truth'', ''current_assignment'']"

definition degraded_answerability ::
  "evidence_authority list \<Rightarrow> evidence_authority list \<Rightarrow> evidence_authority list \<Rightarrow> answerability" where
  "degraded_answerability degraded supporting excluded =
     (let first = ea_reason_code (hd degraded);
          reason_code = (if first = [] then ''HOST_MIRROR_DIVERGED'' else first) in
      refusal (if reason_code = ''PENDING_WRITE_BARRIER'' then ''degraded'' else ''conflicted'') ''none''
        ''explicit truth projection is pending or diverged'' reason_code
        (evidence_ids supporting) (evidence_ids (degraded @ excluded)) [''single_current_truth'', ''memory_truth''])"

definition conflicted_answerability ::
  "evidence_authority list \<Rightarrow> evidence_authority list \<Rightarrow> evidence_authority list \<Rightarrow> answerability" where
  "conflicted_answerability conflicts supporting excluded =
     refusal ''conflicted'' ''none'' ''conflicting memory evidence selected'' ''CONFLICTING_TRUTH''
       (evidence_ids supporting) (evidence_ids (conflicts @ excluded)) [''single_current_truth'', ''memory_truth'']"

definition text_or :: "string \<Rightarrow> string \<Rightarrow> string" where
  "text_or s t = (if s = [] then t else s)"

definition answerable_contract ::
  "evidence_authority list \<Rightarrow> evidence_authority list \<Rightarrow> evidence_authority list \<Rightarrow> answerability" where
  "answerable_contract answer supporting excluded =
     (let strongest = hd answer in
      base_answerability ''answerable'' True (text_or (ea_max_claim_strength strongest) ''none'')
        (text_or (ea_answer_type strongest) ''none'') (text_or (ea_authority strongest) ''none'')
        ''selected memory evidence supports a bounded answer''
        (text_or (ea_reason_code strongest) ''SELECTED_MEMORY_EVIDENCE'')
        (evidence_ids answer) (evidence_ids supporting) (evidence_ids excluded) (must_not_claim answer)
        (list_ex ea_current_assignment_authority answer))"

definition current_assignment_absence_answerability ::
  "evidence_authority list \<Rightarrow> evidence_authority list \<Rightarrow> answerability" where
  "current_assignment_absence_answerability supporting excluded =
     refusal ''unanswerable'' ''current_assignment_absence'' ''no typed current-assignment evidence was selected''
       ''NO_TYPED_CURRENT_ASSIGNMENT_EVIDENCE'' (evidence_ids supporting) (evidence_ids excluded)
       [''memory_truth'', ''current_assignment'', ''lifetime_certainty'']"

definition supporting_only_answerability :: "evidence_authority list \<Rightarrow> evidence_authority list \<Rightarrow> answerability" where
  "supporting_only_answerability supporting excluded =
     refusal ''unanswerable'' ''none'' ''only supporting context was selected'' ''ONLY_SUPPORTING_CONTEXT''
       (evidence_ids supporting) (evidence_ids excluded) [''memory_truth'', ''current_assignment'']"

definition no_candidates_answerability :: "evidence_authority list \<Rightarrow> answerability" where
  "no_candidates_answerability excluded =
     refusal ''unanswerable'' ''none'' ''no supported memory truth selected'' ''NO_CANDIDATES'' []
       (evidence_ids excluded) [''memory_truth'', ''current_assignment'']"

text \<open>\<open>by_key\<close>: the last row of each evidence key, by its unnormalised text.\<close>

definition rows_by_key :: "pydict list \<Rightarrow> (string \<times> pydict) list" where
  "rows_by_key rows =
     fold (\<lambda>row al. if plain_text (dget row ''evidence_key'') = [] then al
                     else AList.update (plain_text (dget row ''evidence_key'')) row al) rows []"

definition row_of_key :: "pydict list \<Rightarrow> string \<Rightarrow> pydict" where
  "row_of_key rows k = (case map_of (rows_by_key rows) k of Some row \<Rightarrow> row | None \<Rightarrow> [])"

definition packet_visible_answers ::
  "evidence_authority list \<Rightarrow> pydict list \<Rightarrow> string option \<Rightarrow> evidence_authority list option" where
  "packet_visible_answers answer rows packet_text =
     (case packet_text of
        None \<Rightarrow> None
      | Some packet \<Rightarrow>
          if answer = [] then None
          else Some (filter (\<lambda>i. visible_in_packet (row_of_key rows (ea_evidence_key i)) packet) answer))"

definition decide_answerability ::
  "string \<Rightarrow> evidence_authority list \<Rightarrow> evidence_authority list \<Rightarrow> answerability" where
  "decide_answerability query_intent cs answer =
     (let supporting = supporting_of cs; excluded = excluded_of cs in
      if degraded_of cs \<noteq> [] then degraded_answerability (degraded_of cs) supporting excluded
      else if conflicts_of cs \<noteq> [] then conflicted_answerability (conflicts_of cs) supporting excluded
      else if answer \<noteq> [] then answerable_contract answer supporting excluded
      else if query_intent = ''current_assignment'' then current_assignment_absence_answerability supporting excluded
      else if supporting \<noteq> [] then supporting_only_answerability supporting excluded
      else no_candidates_answerability excluded)"

definition answerability_of_rows ::
  "(pydict \<Rightarrow> string \<Rightarrow> evidence_authority) \<Rightarrow> string \<Rightarrow> pydict list \<Rightarrow> string option \<Rightarrow> answerability" where
  "answerability_of_rows classify query_intent rows packet_text =
     (let cs = map (\<lambda>row. classify row query_intent) rows in
      case packet_visible_answers (answers_of cs) rows packet_text of
        None \<Rightarrow> decide_answerability query_intent cs (answers_of cs)
      | Some visible \<Rightarrow>
          if visible = [] then packet_suppressed_answerability (supporting_of cs) (excluded_of cs)
          else decide_answerability query_intent cs visible)"

definition build_memory_answerability :: "pyval \<Rightarrow> pydict \<Rightarrow> string option \<Rightarrow> answerability result" where
  "build_memory_answerability analysis selected_by_shelf packet_text =
     (case infer_query_intent analysis of
        Inl e \<Rightarrow> Inl e
      | Inr query_intent \<Rightarrow>
     (case flatten_selected selected_by_shelf of
        Inl e \<Rightarrow> Inl e
      | Inr rows \<Rightarrow> Inr (answerability_of_rows classify_evidence_authority query_intent rows packet_text)))"

section \<open>The classifier contract\<close>

text \<open>
  What the contract relies on: a row granted an answer has a key, the selected reason and a claim; a row
  that is not granted one is supporting-only.
\<close>

locale evidence_classifier =
  fixes classify :: "pydict \<Rightarrow> string \<Rightarrow> evidence_authority"
  assumes answer_keyed: "ea_answer_authority (classify row q) \<Longrightarrow> ea_evidence_key (classify row q) \<noteq> []"
    and answer_selected: "ea_answer_authority (classify row q) \<Longrightarrow>
      ea_reason_code (classify row q) = ''SELECTED_MEMORY_EVIDENCE''"
    and answer_claims: "ea_answer_authority (classify row q) \<Longrightarrow>
      ea_max_claim_strength (classify row q) \<in> {''memory_truth'', ''bounded_event'', ''source_says''}"
    and supporting_iff: "ea_supporting_only (classify row q) \<longleftrightarrow> \<not> ea_answer_authority (classify row q)"
begin

abbreviation classified :: "string \<Rightarrow> pydict list \<Rightarrow> evidence_authority list" where
  "classified q rows \<equiv> map (\<lambda>row. classify row q) rows"

lemma excluded_empty: "excluded_of (classified q rows) = []"
  by (auto simp: excluded_of_def supporting_iff)

lemma answers_keyed: "i \<in> set (answers_of (classified q rows)) \<Longrightarrow> ea_evidence_key i \<noteq> []"
  by (auto simp: answers_of_def answer_keyed)

lemma answer_ids: "set as \<subseteq> set (answers_of (classified q rows)) \<Longrightarrow> evidence_ids as = map ea_evidence_key as"
  using answers_keyed unfolding evidence_ids_def by (intro filter_True) force

lemma answers_claim:
  "i \<in> set (answers_of (classified q rows)) \<Longrightarrow>
     ea_max_claim_strength i \<in> {''memory_truth'', ''bounded_event'', ''source_says''}"
  using answer_claims by (auto simp: answers_of_def)

lemma not_both: "i \<in> set (answers_of (classified q rows)) \<Longrightarrow>
    i \<notin> set (conflicts_of (classified q rows)) \<and> i \<notin> set (degraded_of (classified q rows)) \<and>
    i \<notin> set (supporting_of (classified q rows))"
  using answer_selected supporting_iff
  by (auto simp: answers_of_def conflicts_of_def degraded_of_def supporting_of_def)

text \<open>A contract that can answer was built from a non-empty list of granted rows.\<close>

lemma can_answer_path:
  assumes "an_can_answer (answerability_of_rows classify q rows packet)"
  obtains answer where "answer \<noteq> []" "set answer \<subseteq> set (answers_of (classified q rows))"
    "answer = (case packet of None \<Rightarrow> answers_of (classified q rows)
       | Some p \<Rightarrow> filter (\<lambda>i. visible_in_packet (row_of_key rows (ea_evidence_key i)) p) (answers_of (classified q rows)))"
    "degraded_of (classified q rows) = []" "conflicts_of (classified q rows) = []"
    "answerability_of_rows classify q rows packet =
       answerable_contract answer (supporting_of (classified q rows)) []"
proof -
  let ?cs = "classified q rows"
  have decide: "answer \<noteq> [] \<and> degraded_of ?cs = [] \<and> conflicts_of ?cs = [] \<and>
      decide_answerability q ?cs answer = answerable_contract answer (supporting_of ?cs) []"
    if "an_can_answer (decide_answerability q ?cs answer)" for answer
    using that excluded_empty [of q rows]
    by (auto simp: decide_answerability_def degraded_answerability_def conflicted_answerability_def
        current_assignment_absence_answerability_def supporting_only_answerability_def no_candidates_answerability_def
        refusal_def base_answerability_def Let_def split: if_splits)
  have no_answers: "answers_of ?cs \<noteq> []" if "an_can_answer (decide_answerability q ?cs (answers_of ?cs))"
    using decide [OF that] by blast
  show thesis
  proof (cases packet)
    case None
    then have e: "answerability_of_rows classify q rows packet = decide_answerability q ?cs (answers_of ?cs)"
      by (simp add: answerability_of_rows_def packet_visible_answers_def Let_def)
    have "an_can_answer (decide_answerability q ?cs (answers_of ?cs))" using assms unfolding e .
    from decide [OF this] show thesis by (intro that [of "answers_of ?cs"]) (simp_all add: None e [unfolded None])
  next
    case (Some p)
    let ?v = "filter (\<lambda>i. visible_in_packet (row_of_key rows (ea_evidence_key i)) p) (answers_of ?cs)"
    show thesis
    proof (cases "answers_of ?cs = []")
      case True
      then have "answerability_of_rows classify q rows packet = decide_answerability q ?cs (answers_of ?cs)"
        by (simp add: answerability_of_rows_def packet_visible_answers_def Some Let_def)
      with no_answers assms True show thesis by simp
    next
      case False
      have "\<not> an_can_answer (packet_suppressed_answerability (supporting_of ?cs) (excluded_of ?cs))"
        by (simp add: packet_suppressed_answerability_def refusal_def base_answerability_def)
      then have e: "answerability_of_rows classify q rows packet = decide_answerability q ?cs ?v"
        using assms False by (auto simp: answerability_of_rows_def packet_visible_answers_def Some Let_def split: if_splits)
      have "an_can_answer (decide_answerability q ?cs ?v)" using assms unfolding e .
      from decide [OF this] show thesis by (intro that [of ?v]) (auto simp: Some e [unfolded Some])
    qed
  qed
qed

lemma refusal_shape:
  assumes "\<not> an_can_answer (answerability_of_rows classify q rows packet)"
  shows "an_state (answerability_of_rows classify q rows packet) \<noteq> ''answerable'' \<and>
    an_answer_evidence_ids (answerability_of_rows classify q rows packet) = [] \<and>
    an_max_claim_strength (answerability_of_rows classify q rows packet) = ''none'' \<and>
    \<not> an_can_claim_memory_truth (answerability_of_rows classify q rows packet) \<and>
    \<not> an_can_claim_current_assignment (answerability_of_rows classify q rows packet)"
  using assms
  by (auto simp: answerability_of_rows_def decide_answerability_def degraded_answerability_def conflicted_answerability_def
      current_assignment_absence_answerability_def supporting_only_answerability_def no_candidates_answerability_def
      packet_suppressed_answerability_def answerable_contract_def
      refusal_def base_answerability_def Let_def split: if_splits option.splits)

end

interpretation authority: evidence_classifier classify_evidence_authority
proof
  fix row q
  assume a: "ea_answer_authority (classify_evidence_authority row q)"
  show "ea_evidence_key (classify_evidence_authority row q) \<noteq> []"
    "ea_reason_code (classify_evidence_authority row q) = ''SELECTED_MEMORY_EVIDENCE''"
    using classify_answer [OF a] by simp_all
  show "ea_max_claim_strength (classify_evidence_authority row q) \<in> {''memory_truth'', ''bounded_event'', ''source_says''}"
    using classify_answer(6,7) [OF a] by (cases "q = ''current_assignment''") (simp_all add: shelf_claim_def)
qed (rule classify_supporting)

lemma build_memory_answerability_Inr:
  "build_memory_answerability analysis selected packet = Inr r \<longleftrightarrow>
     (\<exists>q rows. infer_query_intent analysis = Inr q \<and> flatten_selected selected = Inr rows \<and>
        r = answerability_of_rows classify_evidence_authority q rows packet)"
  by (auto simp: build_memory_answerability_def split: sum.splits)

section \<open>Properties\<close>

text \<open>
  The answer contract is consistent: it can answer exactly in the answerable state; then it names
  evidence and makes one of the three claims; otherwise it names none, claims nothing and allows
  neither a memory truth nor a current assignment.
\<close>

theorem answer_contract_consistent:
  assumes "build_memory_answerability analysis selected packet = Inr r"
  shows "(an_can_answer r \<longleftrightarrow> an_state r = ''answerable'') \<and>
    (if an_can_answer r then an_answer_evidence_ids r \<noteq> [] \<and>
       an_max_claim_strength r \<in> {''memory_truth'', ''bounded_event'', ''source_says''} \<and>
       an_can_claim_memory_truth r = (an_max_claim_strength r = ''memory_truth'')
     else an_answer_evidence_ids r = [] \<and> an_max_claim_strength r = ''none'' \<and>
       \<not> an_can_claim_memory_truth r \<and> \<not> an_can_claim_current_assignment r)"
proof -
  from assms obtain q rows where r: "r = answerability_of_rows classify_evidence_authority q rows packet"
    unfolding build_memory_answerability_Inr by blast
  show ?thesis
  proof (cases "an_can_answer r")
    case True
    then obtain answer where a: "answer \<noteq> []" "set answer \<subseteq> set (answers_of (authority.classified q rows))"
      "r = answerable_contract answer (supporting_of (authority.classified q rows)) []"
      unfolding r by (rule authority.can_answer_path) blast
    have "hd answer \<in> set (answers_of (authority.classified q rows))" using a(1,2) by auto
    from authority.answers_claim [OF this] authority.answer_ids [OF a(2)] a(1) show ?thesis
      by (auto simp: a(3) answerable_contract_def base_answerability_def text_or_def Let_def)
  next
    case False
    with authority.refusal_shape [of q rows packet] show ?thesis by (simp add: r)
  qed
qed

text \<open>
  Nothing is answered from evidence the model does not see: when the final packet text is given, every
  evidence identifier the contract answers from belongs to a selected row that is granted an answer
  and whose text, stable key or evidence key is in the packet.
\<close>

theorem answers_visible_in_packet:
  assumes "build_memory_answerability analysis selected (Some packet) = Inr r"
    and "k \<in> set (an_answer_evidence_ids r)"
  shows "\<exists>q rows. infer_query_intent analysis = Inr q \<and> flatten_selected selected = Inr rows \<and>
    visible_in_packet (row_of_key rows k) packet \<and>
    (\<exists>row \<in> set rows. ea_answer_authority (classify_evidence_authority row q) \<and>
       norm_text (dget row ''evidence_key'') = k)"
proof -
  from assms(1) obtain q rows where q: "infer_query_intent analysis = Inr q" "flatten_selected selected = Inr rows"
    and r: "r = answerability_of_rows classify_evidence_authority q rows (Some packet)"
    unfolding build_memory_answerability_Inr by blast
  have "an_can_answer r" using assms(2) authority.refusal_shape [of q rows "Some packet"] by (force simp: r)
  then obtain answer where a: "set answer \<subseteq> set (answers_of (authority.classified q rows))"
    "answer = filter (\<lambda>i. visible_in_packet (row_of_key rows (ea_evidence_key i)) packet) (answers_of (authority.classified q rows))"
    "r = answerable_contract answer (supporting_of (authority.classified q rows)) []"
    unfolding r by (rule authority.can_answer_path) simp
  have "k \<in> set (map ea_evidence_key answer)"
    using assms(2) by (auto simp: a(3) answerable_contract_def base_answerability_def evidence_ids_def Let_def)
  then obtain i where i: "i \<in> set answer" "ea_evidence_key i = k" by auto
  then have "visible_in_packet (row_of_key rows k) packet" using a(2) by auto
  moreover from i a(1) obtain row where "row \<in> set rows" "i = classify_evidence_authority row q" "ea_answer_authority i"
    by (auto simp: answers_of_def)
  ultimately show ?thesis using q i(2) by (metis classify_key(1))
qed

text \<open>
  With no packet text an answerable contract splits the keyed evidence in two: its answer and supporting
  identifiers are together the keys of all selected rows, nothing is excluded, and no row is both.
\<close>

theorem answer_and_support_partition:
  assumes "build_memory_answerability analysis selected None = Inr r" and "an_can_answer r"
    and "flatten_selected selected = Inr rows"
  shows "mset (an_answer_evidence_ids r) + mset (an_supporting_context_ids r) =
      mset (filter (\<lambda>k. k \<noteq> []) (map (\<lambda>row. norm_text (dget row ''evidence_key'')) rows)) \<and>
    an_excluded_evidence_ids r = []"
proof -
  from assms(1,3) obtain q where r: "r = answerability_of_rows classify_evidence_authority q rows None"
    unfolding build_memory_answerability_Inr by auto
  let ?cs = "authority.classified q rows"
  from assms(2) obtain answer where "answer = answers_of ?cs" "r = answerable_contract answer (supporting_of ?cs) []"
    unfolding r by (rule authority.can_answer_path) simp
  then have ids: "an_answer_evidence_ids r = evidence_ids (answers_of ?cs)"
    "an_supporting_context_ids r = evidence_ids (supporting_of ?cs)" "an_excluded_evidence_ids r = []"
    by (simp_all add: answerable_contract_def base_answerability_def evidence_ids_def Let_def)
  have "mset (evidence_ids (answers_of ?cs)) + mset (evidence_ids (supporting_of ?cs)) =
      mset (filter (\<lambda>k. k \<noteq> []) (map ea_evidence_key ?cs))"
    by (induction rows) (auto simp: evidence_ids_def answers_of_def supporting_of_def classify_supporting)
  then show ?thesis using ids by (simp add: comp_def)
qed

text \<open>
  An assignment question is answered only from typed assignments: an answerable contract for it may
  claim the current assignment, and each of its evidence identifiers is the key of a row with typed
  current-assignment authority.
\<close>

theorem assignment_answers_are_typed:
  assumes "build_memory_answerability analysis selected packet = Inr r" and "an_can_answer r"
    and "infer_query_intent analysis = Inr ''current_assignment''" and "flatten_selected selected = Inr rows"
  shows "an_can_claim_current_assignment r \<and> an_can_claim_memory_truth r \<and>
    (\<forall>k \<in> set (an_answer_evidence_ids r). \<exists>row \<in> set rows.
       is_current_assignment_authority row \<and> norm_text (dget row ''evidence_key'') = k)"
proof -
  from assms(1,3,4) have r: "r = answerability_of_rows classify_evidence_authority ''current_assignment'' rows packet"
    unfolding build_memory_answerability_Inr by auto
  let ?cs = "authority.classified ''current_assignment'' rows"
  from assms(2) obtain answer where a: "answer \<noteq> []" "set answer \<subseteq> set (answers_of ?cs)"
    "r = answerable_contract answer (supporting_of ?cs) []"
    unfolding r by (rule authority.can_answer_path) blast
  have typed: "\<exists>row \<in> set rows. i = classify_evidence_authority row ''current_assignment'' \<and>
      is_current_assignment_authority row \<and> ea_max_claim_strength i = ''memory_truth''" if "i \<in> set answer" for i
    using that a(2) classify_answer(6) by (fastforce simp: answers_of_def)
  have h: "hd answer \<in> set answer" using a(1) by simp
  from typed [OF h] have m: "ea_max_claim_strength (hd answer) = ''memory_truth''"
    and c: "ea_current_assignment_authority (hd answer)" by auto
  have "list_ex ea_current_assignment_authority answer" using h c by (auto simp: list_ex_iff)
  moreover have "\<exists>row \<in> set rows. is_current_assignment_authority row \<and> norm_text (dget row ''evidence_key'') = k"
    if "k \<in> set (evidence_ids answer)" for k
    using that typed by (fastforce simp: evidence_ids_def)
  ultimately show ?thesis using m
    by (simp add: a(3) answerable_contract_def base_answerability_def text_or_def Let_def)
qed

section \<open>Concrete contracts\<close>

definition sample_selected :: pydict where
  "sample_selected = [(''graph'', PList [PDict sample_row])]"

lemma sample_flatten: "flatten_selected sample_selected = Inr [sample_row]"
  by (simp add: flatten_selected_def sample_selected_def shelf_rows_def sample_row_def text_eval dset_def)

lemma sample_intent: "infer_query_intent PNone = Inr ''memory''"
  by (simp add: infer_query_intent_def Let_def)

definition sample_packet :: string where
  "sample_packet = ''Facts: the user lives in pest.''"

lemma sample_row_lookup: "row_of_key [sample_row] ''graph:city'' = sample_row"
  by (simp add: row_of_key_def rows_by_key_def plain_text_def) (simp add: sample_row_def)

lemma sample_content: "norm_text (PStr ''The user lives in Pest'') = ''The user lives in Pest''"
proof -
  have w: "list_all is_word [''The'', ''user'', ''lives'', ''in'', ''Pest'']" by (simp add: is_word_def is_space_def)
  have j: "py_join '' '' [''The'', ''user'', ''lives'', ''in'', ''Pest''] = ''The user lives in Pest''" by simp
  have "py_strip ''The user lives in Pest'' = ''The user lives in Pest''"
    by (rule py_strip_idem_if) (simp_all add: is_space_def)
  then show ?thesis using py_split_join [OF w] unfolding j by (simp add: norm_text_def)
qed

lemma sample_visible: "visible_in_packet sample_row sample_packet"
proof -
  have i: "item_packet_text sample_row = ''The user lives in Pest''"
    by (simp add: item_packet_text_def sample_row_def sample_content)
  have "py_contains (take 80 (py_lower ''The user lives in Pest'')) (py_lower sample_packet)" by code_simp
  then show ?thesis by (simp add: visible_in_packet_def i sample_packet_def)
qed

lemma sample_answerable:
  "answerability_of_rows classify_evidence_authority ''memory'' [sample_row] None =
     answerable_contract [grant_answer ''memory_truth'' ''graph_truth'' ''explicit_current_fact'' (base_authority sample_row)] [] []"
  "answerability_of_rows classify_evidence_authority ''memory'' [sample_row] (Some sample_packet) =
     answerable_contract [grant_answer ''memory_truth'' ''graph_truth'' ''explicit_current_fact'' (base_authority sample_row)] [] []"
  by (simp_all add: answerability_of_rows_def packet_visible_answers_def sample_row_answers answers_of_def
      decide_answerability_def degraded_of_def conflicts_of_def supporting_of_def excluded_of_def sample_row_lookup
      sample_visible Let_def)

lemma sample_build:
  "build_memory_answerability PNone sample_selected packet =
     Inr (answerability_of_rows classify_evidence_authority ''memory'' [sample_row] packet)"
  by (simp add: build_memory_answerability_def sample_intent sample_flatten)

theorem answer_contract_consistent_witness:
  "\<exists>r. build_memory_answerability PNone sample_selected None = Inr r \<and> an_can_answer r \<and> an_answer_evidence_ids r \<noteq> []"
proof -
  obtain r where r: "build_memory_answerability PNone sample_selected None = Inr r" using sample_build by blast
  then have "an_can_answer r"
    by (auto simp: sample_build sample_answerable answerable_contract_def base_answerability_def Let_def)
  with answer_contract_consistent [OF r] r show ?thesis by auto
qed

theorem answers_visible_in_packet_witness:
  "\<exists>r. build_memory_answerability PNone sample_selected (Some sample_packet) = Inr r \<and>
     ''graph:city'' \<in> set (an_answer_evidence_ids r) \<and>
     (\<exists>rows. flatten_selected sample_selected = Inr rows \<and> visible_in_packet (row_of_key rows ''graph:city'') sample_packet)"
proof -
  let ?r = "answerability_of_rows classify_evidence_authority ''memory'' [sample_row] (Some sample_packet)"
  have r: "build_memory_answerability PNone sample_selected (Some sample_packet) = Inr ?r" by (rule sample_build)
  have k: "''graph:city'' \<in> set (an_answer_evidence_ids ?r)"
    by (simp add: sample_answerable answerable_contract_def base_answerability_def evidence_ids_def sample_row_answers(2) Let_def)
  from answers_visible_in_packet [OF r k] r k show ?thesis by blast
qed

theorem answer_and_support_partition_witness:
  "\<exists>r. build_memory_answerability PNone sample_selected None = Inr r \<and>
     mset (an_answer_evidence_ids r) + mset (an_supporting_context_ids r) = {#''graph:city''#}"
proof -
  let ?r = "answerability_of_rows classify_evidence_authority ''memory'' [sample_row] None"
  have r: "build_memory_answerability PNone sample_selected None = Inr ?r" by (rule sample_build)
  have a: "an_can_answer ?r"
    by (simp add: sample_answerable answerable_contract_def base_answerability_def Let_def)
  from answer_and_support_partition [OF r a sample_flatten] r show ?thesis
    by (auto simp: sample_row_answers(2))
qed

definition sample_task :: pydict where
  "sample_task = [(''shelf'', PStr ''task''), (''evidence_key'', PStr ''task:1'')]"

definition sample_analysis :: pyval where
  "sample_analysis = PDict [(''operating_like'', PBool True),
     (''operating_lookup'', PDict [(''record_types'', PList [PStr ''active_work''])])]"

lemma sample_task_answers:
  "classify_evidence_authority sample_task ''current_assignment'' =
     grant_answer ''memory_truth'' ''current_assignment'' ''typed_current_assignment'' (base_authority sample_task)"
  "norm_text (dget sample_task ''evidence_key'') = ''task:1''"
  by (simp_all add: classify_evidence_authority_def sample_task_def admission_blocks_answer_truth_def
      admission_payload_def is_conflict_def lower_text_def text_eval py_lower_def py_or_def parity_degrades_answerability_def
      is_current_assignment_authority_def Let_def)

theorem assignment_answers_are_typed_witness:
  "\<exists>r. build_memory_answerability sample_analysis [(''task'', PList [PDict sample_task])] None = Inr r \<and>
     an_can_answer r \<and> an_can_claim_current_assignment r"
proof -
  have i: "infer_query_intent sample_analysis = Inr ''current_assignment''"
    by (simp add: infer_query_intent_def sample_analysis_def text_eval Let_def)
  have f: "flatten_selected [(''task'', PList [PDict sample_task])] = Inr [sample_task]"
    by (simp add: flatten_selected_def shelf_rows_def sample_task_def text_eval dset_def)
  let ?r = "answerability_of_rows classify_evidence_authority ''current_assignment'' [sample_task] None"
  have r: "build_memory_answerability sample_analysis [(''task'', PList [PDict sample_task])] None = Inr ?r"
    by (simp add: build_memory_answerability_def i f)
  have a: "an_can_answer ?r"
    by (simp add: answerability_of_rows_def packet_visible_answers_def sample_task_answers answers_of_def
      decide_answerability_def degraded_of_def conflicts_of_def Let_def answerable_contract_def base_answerability_def)
  from assignment_answers_are_typed [OF r a i f] r a show ?thesis by blast
qed

end
