(* ===== verification/ProjectionSemantics.thy ===== *)
theory ProjectionSemantics
  imports PyValue
begin

text \<open>
  \<open>brainstack/projection_semantics.py\<close>: read-model supersession and the classification of one canonical
  memory event for projection. Events are dictionaries with the groups \<open>event\<close>, \<open>source\<close>, \<open>claim\<close>,
  \<open>authority\<close>, \<open>temporal\<close> and \<open>projection\<close>; the frozen dataclass of the decision is a record.
\<close>

definition ANSWERABLE_EVENT_TYPES :: "string set" where
  "ANSWERABLE_EVENT_TYPES = {''durable_fact_committed'', ''proposal_accepted''}"

definition CURRENT_EVENT_TYPES :: "string set" where
  "CURRENT_EVENT_TYPES = ANSWERABLE_EVENT_TYPES \<union> {''support_event''}"

definition CONFLICT_EVENT_TYPES :: "string set" where
  "CONFLICT_EVENT_TYPES = {''conflict_opened'', ''corrected_false_event''}"

definition SUPPORT_ONLY_VISIBILITIES :: "string set" where
  "SUPPORT_ONLY_VISIBILITIES = {''normal'', ''history_only'', ''inspect_only''}"

fun flag :: "pyval \<Rightarrow> bool" where
  "flag (PBool b) = b"
| "flag (PStr s) = (py_lower (py_strip s) \<in> {''1'', ''true'', ''yes'', ''on'', ''hidden''})"
| "flag v = truthy v"

definition group_of :: "pydict \<Rightarrow> string \<Rightarrow> pydict" where
  "group_of event k = as_mapping (dget event k)"

definition group_text :: "pydict \<Rightarrow> string \<Rightarrow> string \<Rightarrow> string" where
  "group_text event grp k = strip_text (dget (group_of event grp) k)"

definition event_id :: "pydict \<Rightarrow> string" where
  "event_id event = group_text event ''event'' ''event_id''"

definition event_sort_key :: "pydict \<Rightarrow> string \<times> string" where
  "event_sort_key event = (group_text event ''temporal'' ''transaction_time'', event_id event)"

section \<open>Supersession\<close>

definition superseded_ids :: "pydict \<Rightarrow> string list" where
  "superseded_ids event =
     filter (\<lambda>i. i \<noteq> []) (map strip_text (as_list (dget (group_of event ''temporal'') ''supersedes'')))"

definition superseded_by_index :: "pydict list \<Rightarrow> (string \<times> string) list" where
  "superseded_by_index events =
     fold (\<lambda>event al. if event_id event = [] then al
             else fold (\<lambda>prior al. AList.update prior (event_id event) al) (superseded_ids event) al)
       (sort_key event_sort_key events) []"

definition project_event :: "(string \<times> string) list \<Rightarrow> pydict \<Rightarrow> pydict" where
  "project_event index event =
     (case map_of index (event_id event) of
        None \<Rightarrow> event
      | Some superseded_by \<Rightarrow>
          if superseded_by = [] then event
          else if group_text event ''temporal'' ''superseded_by'' \<noteq> [] then event
          else dset ''temporal'' (PDict (dset ''superseded_by'' (PStr superseded_by) (group_of event ''temporal''))) event)"

definition apply_read_model_supersession :: "pydict list \<Rightarrow> pydict list" where
  "apply_read_model_supersession events = map (project_event (superseded_by_index events)) events"

section \<open>Classification\<close>

record projection_decision =
  pd_event_id :: string
  pd_stable_fact_id :: string
  pd_source_event_id :: string
  pd_source_span_id :: string
  pd_source_quote_hash :: string
  pd_receipt_id :: string
  pd_is_current :: bool
  pd_is_prior :: bool
  pd_is_conflicted :: bool
  pd_is_support_only :: bool
  pd_is_answer_safe :: bool
  pd_is_retrieval_only :: bool
  pd_is_hidden :: bool
  pd_is_authority_critical :: bool
  pd_reason_codes :: "string list"

text \<open>\<open>tuple(dict.fromkeys(xs))\<close>: the first occurrences, in order.\<close>

definition first_occurrences :: "string list \<Rightarrow> string list" where
  "first_occurrences xs = rev (remdups (rev xs))"

definition missing_source :: "pydict \<Rightarrow> bool" where
  "missing_source event \<longleftrightarrow>
     \<not> list_all (\<lambda>k. group_text event ''source'' k \<noteq> []) [''source_event_id'', ''source_span_id'', ''source_quote_hash'']"

definition truth_eligible :: "pydict \<Rightarrow> bool" where
  "truth_eligible event \<longleftrightarrow> truthy (dget (group_of event ''authority'') ''truth_eligible'')"

definition support_visibility_of :: "pydict \<Rightarrow> string" where
  "support_visibility_of event = group_text event ''authority'' ''support_visibility''"

definition missing_receipt :: "pydict \<Rightarrow> bool" where
  "missing_receipt event \<longleftrightarrow>
     truth_eligible event \<and> support_visibility_of event = ''answer_evidence'' \<and>
     group_text event ''authority'' ''receipt_id'' = []"

definition is_prior :: "pydict \<Rightarrow> bool" where
  "is_prior event \<longleftrightarrow>
     group_text event ''temporal'' ''valid_to'' \<noteq> [] \<or> group_text event ''temporal'' ''superseded_by'' \<noteq> []"

definition event_type :: "pydict \<Rightarrow> string" where
  "event_type event = group_text event ''event'' ''event_type''"

definition is_conflicted :: "pydict \<Rightarrow> bool" where
  "is_conflicted event \<longleftrightarrow>
     event_type event \<in> CONFLICT_EVENT_TYPES \<or> support_visibility_of event = ''contradiction_only''"

definition is_support_only :: "pydict \<Rightarrow> bool" where
  "is_support_only event \<longleftrightarrow>
     support_visibility_of event \<in> SUPPORT_ONLY_VISIBILITIES \<or>
     (\<not> truth_eligible event \<and> support_visibility_of event \<noteq> ''contradiction_only'')"

definition is_retrieval_only :: "pydict \<Rightarrow> bool" where
  "is_retrieval_only event \<longleftrightarrow> group_text event ''projection'' ''budget_class'' = ''retrieval_only''"

definition is_hidden :: "pydict \<Rightarrow> bool" where
  "is_hidden event \<longleftrightarrow>
     flag (dget (group_of event ''projection'') ''hidden'') \<or>
     py_lower (group_text event ''projection'' ''visibility'') = ''hidden'' \<or>
     flag (dget (group_of event ''authority'') ''hidden'')"

definition is_authority_critical_event :: "pydict \<Rightarrow> bool" where
  "is_authority_critical_event event \<longleftrightarrow> truthy (dget (group_of event ''projection'') ''authority_critical'')"

definition blockers :: "pydict \<Rightarrow> (string \<times> bool) list" where
  "blockers event =
    [(''hidden'', is_hidden event), (''missing_source'', missing_source event),
     (''missing_receipt'', missing_receipt event), (''prior'', is_prior event),
     (''conflicted'', is_conflicted event), (''support_only'', is_support_only event),
     (''not_answer_evidence'', support_visibility_of event \<noteq> ''answer_evidence''),
     (''not_truth_eligible'', \<not> truth_eligible event),
     (''not_answerable_event_type'', event_type event \<notin> ANSWERABLE_EVENT_TYPES)]"

definition is_answer_safe :: "pydict \<Rightarrow> bool" where
  "is_answer_safe event \<longleftrightarrow> \<not> list_ex snd (blockers event)"

definition projection_reasons :: "pydict \<Rightarrow> string list" where
  "projection_reasons event =
     (let valid_to = group_text event ''temporal'' ''valid_to'';
          superseded_by = group_text event ''temporal'' ''superseded_by'' in
      (if is_answer_safe event then [''projection_answer_safe_current_source_backed''] else []) @
      (if missing_source event
       then [''projection_missing_source_ref'', ''projection_not_answerable_missing_source''] else []) @
      (if missing_receipt event
       then [''projection_missing_receipt_ref'', ''projection_not_answerable_missing_receipt''] else []) @
      (if valid_to \<noteq> [] then [''projection_prior_expired'', ''projection_not_answerable_prior'']
       else if superseded_by \<noteq> [] then [''projection_prior_superseded'', ''projection_not_answerable_prior''] else []) @
      (if event_type event \<in> CONFLICT_EVENT_TYPES
       then [''projection_conflicted'', ''projection_not_answerable_conflicted''] else []) @
      (if support_visibility_of event = ''contradiction_only''
       then [''projection_contradiction_only'', ''projection_not_answerable_conflicted''] else []) @
      (if is_support_only event
       then [''projection_support_only'', ''projection_not_answerable_support_only''] else []) @
      (if is_retrieval_only event then [''projection_retrieval_only''] else []) @
      (if is_hidden event then [''projection_hidden_by_policy'', ''projection_not_answerable_hidden''] else []) @
      (if is_authority_critical_event event
       then [''projection_authority_critical_keep'', ''projection_authority_critical_cannot_drop''] else []))"

definition classify_projection_semantics :: "pydict \<Rightarrow> projection_decision" where
  "classify_projection_semantics event =
    \<lparr>pd_event_id = event_id event,
     pd_stable_fact_id = group_text event ''claim'' ''stable_fact_id'',
     pd_source_event_id = group_text event ''source'' ''source_event_id'',
     pd_source_span_id = group_text event ''source'' ''source_span_id'',
     pd_source_quote_hash = group_text event ''source'' ''source_quote_hash'',
     pd_receipt_id = group_text event ''authority'' ''receipt_id'',
     pd_is_current = (event_type event \<in> CURRENT_EVENT_TYPES \<and> \<not> is_prior event),
     pd_is_prior = is_prior event, pd_is_conflicted = is_conflicted event,
     pd_is_support_only = is_support_only event, pd_is_answer_safe = is_answer_safe event,
     pd_is_retrieval_only = is_retrieval_only event, pd_is_hidden = is_hidden event,
     pd_is_authority_critical = is_authority_critical_event event,
     pd_reason_codes = first_occurrences (projection_reasons event)\<rparr>"

definition pd_to_public_dict :: "projection_decision \<Rightarrow> pydict" where
  "pd_to_public_dict d =
    [(''event_id'', PStr (pd_event_id d)), (''stable_fact_id'', PStr (pd_stable_fact_id d)),
     (''source_event_id'', PStr (pd_source_event_id d)), (''source_span_id'', PStr (pd_source_span_id d)),
     (''source_quote_hash'', PStr (pd_source_quote_hash d)), (''receipt_id'', PStr (pd_receipt_id d)),
     (''is_current'', PBool (pd_is_current d)), (''is_prior'', PBool (pd_is_prior d)),
     (''is_conflicted'', PBool (pd_is_conflicted d)), (''is_support_only'', PBool (pd_is_support_only d)),
     (''is_answer_safe'', PBool (pd_is_answer_safe d)), (''is_retrieval_only'', PBool (pd_is_retrieval_only d)),
     (''is_hidden'', PBool (pd_is_hidden d)), (''is_authority_critical'', PBool (pd_is_authority_critical d)),
     (''reason_codes'', PList (map PStr (pd_reason_codes d)))]"

section \<open>Lemmas\<close>

lemma answer_safe_facts:
  assumes "is_answer_safe event"
  shows "\<not> is_hidden event" "\<not> missing_source event" "\<not> missing_receipt event" "\<not> is_prior event"
    "\<not> is_conflicted event" "\<not> is_support_only event" "support_visibility_of event = ''answer_evidence''"
    "truth_eligible event" "event_type event \<in> ANSWERABLE_EVENT_TYPES"
  using assms by (simp_all add: is_answer_safe_def blockers_def)

lemma set_first_occurrences [simp]: "set (first_occurrences xs) = set xs"
  by (simp add: first_occurrences_def)

lemma distinct_first_occurrences: "distinct (first_occurrences xs)"
  by (simp add: first_occurrences_def)

lemma map_of_fold_update:
  "map_of (fold (\<lambda>prior al. AList.update prior v al) ps al) k = (if k \<in> set ps then Some v else map_of al k)"
  by (induction ps arbitrary: al) (simp_all add: update_conv')

text \<open>Who ends up recorded as the superseding event of an identifier.\<close>

lemma superseded_index_lookup:
  "(\<exists>e \<in> set events. event_id e \<noteq> [] \<and> i \<in> set (superseded_ids e)) \<Longrightarrow>
     \<exists>e \<in> set events. map_of (superseded_by_index events) i = Some (event_id e) \<and> event_id e \<noteq> [] \<and>
       i \<in> set (superseded_ids e) \<and>
       (\<forall>f \<in> set events. event_id f \<noteq> [] \<and> i \<in> set (superseded_ids f) \<longrightarrow> event_sort_key f \<le> event_sort_key e)"
proof -
  assume a: "\<exists>e \<in> set events. event_id e \<noteq> [] \<and> i \<in> set (superseded_ids e)"
  have *: "\<exists>e \<in> set es. map_of (fold (\<lambda>event al. if event_id event = [] then al
             else fold (\<lambda>prior al. AList.update prior (event_id event) al) (superseded_ids event) al) es al) i = Some (event_id e) \<and>
        event_id e \<noteq> [] \<and> i \<in> set (superseded_ids e) \<and>
        (\<forall>f \<in> set es. event_id f \<noteq> [] \<and> i \<in> set (superseded_ids f) \<longrightarrow> event_sort_key f \<le> event_sort_key e)"
    if "sorted (map event_sort_key es)" "\<exists>e \<in> set es. event_id e \<noteq> [] \<and> i \<in> set (superseded_ids e)"
    for es and al :: "(string \<times> string) list"
    using that
  proof (induction es rule: rev_induct)
    case (snoc e es)
    let ?step = "\<lambda>event al. if event_id event = [] then al
             else fold (\<lambda>prior al. AList.update prior (event_id event) al) (superseded_ids event) al"
    have le: "\<forall>f \<in> set es. event_sort_key f \<le> event_sort_key e" "sorted (map event_sort_key es)"
      using snoc.prems(1) by (auto simp: sorted_append)
    show ?case
    proof (cases "event_id e \<noteq> [] \<and> i \<in> set (superseded_ids e)")
      case True
      with le(1) show ?thesis by (intro bexI [of _ e]) (auto simp: map_of_fold_update)
    next
      case False
      then have "map_of (fold ?step (es @ [e]) al) i = map_of (fold ?step es al) i"
        by (cases "event_id e = []") (simp_all add: map_of_fold_update)
      moreover from False snoc.prems(2) have "\<exists>e \<in> set es. event_id e \<noteq> [] \<and> i \<in> set (superseded_ids e)" by auto
      ultimately show ?thesis using snoc.IH [OF le(2)] False by auto
    qed
  qed simp
  from * [of "sort_key event_sort_key events" "[]"] a show ?thesis by (simp add: superseded_by_index_def)
qed

lemma group_of_dset [simp]:
  "group_of (dset ''temporal'' (PDict t) event) k = (if k = ''temporal'' then t else group_of event k)"
  by (simp add: group_of_def)

section \<open>Properties\<close>

text \<open>
  An event classified answer-safe is current, visible, source-backed and receipted durable truth, and none of
  the blocking classes applies; exactly these events carry the answer-safe reason, and no
  reason code is repeated.
\<close>

theorem answer_safe_is_current_backed:
  "(pd_is_answer_safe (classify_projection_semantics event) \<longleftrightarrow>
      ''projection_answer_safe_current_source_backed'' \<in> set (pd_reason_codes (classify_projection_semantics event))) \<and>
   distinct (pd_reason_codes (classify_projection_semantics event)) \<and>
   (pd_is_answer_safe (classify_projection_semantics event) \<longrightarrow>
      pd_is_current (classify_projection_semantics event) \<and> \<not> pd_is_prior (classify_projection_semantics event) \<and>
      \<not> pd_is_conflicted (classify_projection_semantics event) \<and> \<not> pd_is_support_only (classify_projection_semantics event) \<and>
      \<not> pd_is_hidden (classify_projection_semantics event) \<and>
      pd_source_event_id (classify_projection_semantics event) \<noteq> [] \<and>
      pd_source_span_id (classify_projection_semantics event) \<noteq> [] \<and>
      pd_source_quote_hash (classify_projection_semantics event) \<noteq> [] \<and>
      pd_receipt_id (classify_projection_semantics event) \<noteq> [] \<and> truth_eligible event)"
proof (intro conjI impI)
  show "pd_is_answer_safe (classify_projection_semantics event) \<longleftrightarrow>
      ''projection_answer_safe_current_source_backed'' \<in> set (pd_reason_codes (classify_projection_semantics event))"
    by (simp add: classify_projection_semantics_def projection_reasons_def Let_def)
  show "distinct (pd_reason_codes (classify_projection_semantics event))"
    by (simp add: classify_projection_semantics_def distinct_first_occurrences)
  assume "pd_is_answer_safe (classify_projection_semantics event)"
  then have "is_answer_safe event" by (simp add: classify_projection_semantics_def)
  note f = answer_safe_facts [OF this]
  show "pd_is_current (classify_projection_semantics event)" "\<not> pd_is_prior (classify_projection_semantics event)"
    "\<not> pd_is_conflicted (classify_projection_semantics event)" "\<not> pd_is_support_only (classify_projection_semantics event)"
    "\<not> pd_is_hidden (classify_projection_semantics event)" "truth_eligible event"
    using f by (simp_all add: classify_projection_semantics_def CURRENT_EVENT_TYPES_def)
  show "pd_source_event_id (classify_projection_semantics event) \<noteq> []"
    "pd_source_span_id (classify_projection_semantics event) \<noteq> []"
    "pd_source_quote_hash (classify_projection_semantics event) \<noteq> []"
    using f(2) by (simp_all add: classify_projection_semantics_def missing_source_def)
  show "pd_receipt_id (classify_projection_semantics event) \<noteq> []"
    using f(3,7,8) by (simp add: classify_projection_semantics_def missing_receipt_def)
qed

text \<open>
  Superseded events stop being answer-safe: when some identified event names an event among those it supersedes,
  the projection of the named event is not answer-safe; unless it already recorded a superseding
  event, it records the naming event latest in transaction time and keeps every other group.
\<close>

theorem superseded_events_not_answer_safe:
  assumes "event \<in> set events" and "event_id event = i"
    and "newer \<in> set events" and "event_id newer \<noteq> []" and "i \<in> set (superseded_ids newer)"
  shows "\<not> is_answer_safe (project_event (superseded_by_index events) event) \<and>
    project_event (superseded_by_index events) event \<in> set (apply_read_model_supersession events) \<and>
    (group_text event ''temporal'' ''superseded_by'' = [] \<longrightarrow>
       (\<exists>e \<in> set events. i \<in> set (superseded_ids e) \<and>
          group_text (project_event (superseded_by_index events) event) ''temporal'' ''superseded_by'' = event_id e \<and>
          (\<forall>f \<in> set events. event_id f \<noteq> [] \<and> i \<in> set (superseded_ids f) \<longrightarrow> event_sort_key f \<le> event_sort_key e))) \<and>
    (\<forall>k. k \<noteq> ''temporal'' \<longrightarrow> dget (project_event (superseded_by_index events) event) k = dget event k)"
proof -
  obtain e where e: "e \<in> set events" "map_of (superseded_by_index events) i = Some (event_id e)" "event_id e \<noteq> []"
    "i \<in> set (superseded_ids e)"
    "\<forall>f \<in> set events. event_id f \<noteq> [] \<and> i \<in> set (superseded_ids f) \<longrightarrow> event_sort_key f \<le> event_sort_key e"
    using superseded_index_lookup [of events i] assms(3-5) by blast
  let ?p = "project_event (superseded_by_index events) event"
  have strip: "strip_text (PStr (event_id e)) = event_id e" by (simp add: event_id_def group_text_def)
  have new: "group_text ?p ''temporal'' ''superseded_by'' = event_id e" if "group_text event ''temporal'' ''superseded_by'' = []"
    using that e(2,3) assms(2) strip by (simp add: project_event_def group_text_def)
  have "group_text ?p ''temporal'' ''superseded_by'' \<noteq> []"
    using new e(3) by (cases "group_text event ''temporal'' ''superseded_by'' = []") (auto simp: project_event_def split: option.splits)
  then have "is_prior ?p" by (simp add: is_prior_def)
  then have "\<not> is_answer_safe ?p" using answer_safe_facts(4) by blast
  moreover have "dget ?p k = dget event k" if "k \<noteq> ''temporal''" for k
    using that by (simp add: project_event_def split: option.splits)
  moreover have "?p \<in> set (apply_read_model_supersession events)"
    using assms(1) by (simp add: apply_read_model_supersession_def)
  ultimately show ?thesis using new e by blast
qed

definition sample_event :: pydict where
  "sample_event =
    [(''event'', PDict [(''event_id'', PStr ''e1''), (''event_type'', PStr ''durable_fact_committed'')]),
     (''source'', PDict [(''source_event_id'', PStr ''s1''), (''source_span_id'', PStr ''s2''), (''source_quote_hash'', PStr ''h'')]),
     (''authority'', PDict [(''receipt_id'', PStr ''r1''), (''support_visibility'', PStr ''answer_evidence''), (''truth_eligible'', PBool True)])]"

definition sample_newer :: pydict where
  "sample_newer =
    [(''event'', PDict [(''event_id'', PStr ''e2'')]), (''temporal'', PDict [(''supersedes'', PList [PStr ''e1''])])]"

theorem answer_safe_is_current_backed_witness:
  "pd_is_answer_safe (classify_projection_semantics sample_event) \<and>
   pd_receipt_id (classify_projection_semantics sample_event) \<noteq> []"
proof -
  have "pd_is_answer_safe (classify_projection_semantics sample_event)"
    by (simp add: classify_projection_semantics_def is_answer_safe_def blockers_def is_hidden_def missing_source_def
        missing_receipt_def is_prior_def is_conflicted_def is_support_only_def support_visibility_of_def event_type_def
        truth_eligible_def group_text_def group_of_def sample_event_def text_eval py_lower_def
        CONFLICT_EVENT_TYPES_def SUPPORT_ONLY_VISIBILITIES_def ANSWERABLE_EVENT_TYPES_def)
  with answer_safe_is_current_backed [of sample_event] show ?thesis by blast
qed

theorem superseded_events_not_answer_safe_witness:
  "is_answer_safe sample_event \<and>
   \<not> is_answer_safe (project_event (superseded_by_index [sample_event, sample_newer]) sample_event)"
proof
  show "is_answer_safe sample_event"
    by (simp add: is_answer_safe_def blockers_def is_hidden_def missing_source_def
        missing_receipt_def is_prior_def is_conflicted_def is_support_only_def support_visibility_of_def event_type_def
        truth_eligible_def group_text_def group_of_def sample_event_def text_eval py_lower_def
        CONFLICT_EVENT_TYPES_def SUPPORT_ONLY_VISIBILITIES_def ANSWERABLE_EVENT_TYPES_def)
  have "event_id sample_event = ''e1''" "event_id sample_newer = ''e2''" "superseded_ids sample_newer = [''e1'']"
    by (simp_all add: event_id_def group_text_def group_of_def superseded_ids_def sample_event_def sample_newer_def text_eval)
  then show "\<not> is_answer_safe (project_event (superseded_by_index [sample_event, sample_newer]) sample_event)"
    using superseded_events_not_answer_safe [of sample_event "[sample_event, sample_newer]" "''e1''" sample_newer] by simp
qed

end
