(* ===== verification/Tier2Decision.thy ===== *)
theory Tier2Decision
  imports PyHash
begin

text \<open>
  \<open>brainstack/tier2_decision_core.py\<close>: the deterministic decision plan for a batch of proposed memory
  actions, its validator, its semantic conformance check and the ten-line trace. Packets, actions,
  source spans and decisions are dictionaries, as in the code. A list the code appends to while it
  decides (\<open>blocked_by\<close>) is passed on and returned; the values one iteration of the loop computes
  are the record \<open>t2_eval\<close>.
\<close>

definition TIER2_DECISION_CORE_VERSION :: string where
  "TIER2_DECISION_CORE_VERSION = ''brainstack.tier2_decision_core.v1''"

definition TIER2_DECISION_PLAN_SCHEMA :: string where
  "TIER2_DECISION_PLAN_SCHEMA = ''brainstack.tier2_decision_plan.v1''"

definition DECISION_CLASSES :: "string list" where
  "DECISION_CLASSES =
    [''reject'', ''inspect_only'', ''support_event'', ''durable_fact_candidate'', ''relation_candidate'',
     ''conflict_review'', ''lifecycle_update_candidate'', ''clarification_required'']"

definition TRUTH_AUTHORITY_SPEAKERS :: "string list" where
  "TRUTH_AUTHORITY_SPEAKERS = [''user'', ''tool'', ''runtime'', ''operator'', ''trusted_host'']"

definition ASSISTANT_SPEAKERS :: "string list" where
  "ASSISTANT_SPEAKERS = [''assistant'', ''quoted_assistant'']"

definition TARGET_KIND_TO_MEMORY_KIND :: "(string \<times> string) list" where
  "TARGET_KIND_TO_MEMORY_KIND =
    [(''user_fact'', ''profile_fact''), (''profile_fact'', ''profile_fact''), (''style_rule'', ''style_rule''),
     (''preference'', ''style_rule''), (''project_fact'', ''project_fact''), (''reference'', ''reference''),
     (''task_memory'', ''task_memory''), (''operating_memory'', ''operating_memory''),
     (''graph_relation'', ''relation''), (''relation'', ''relation''), (''temporal_event'', ''temporal_event''),
     (''support_context'', ''support_context''), (''support_only'', ''support_context'')]"

text \<open>The markers of \<open>blocked_by\<close>.\<close>

abbreviation (input) NO_SPAN :: string where "NO_SPAN \<equiv> ''REJECTED_MISSING_VERIFIED_SOURCE_SPAN''"
abbreviation (input) NO_EVENT :: string where "NO_EVENT \<equiv> ''REJECTED_MISSING_VERIFIED_SOURCE_EVENT''"
abbreviation (input) BAD_SCOPE :: string where "BAD_SCOPE \<equiv> ''REJECTED_SCOPE_MISMATCH''"
abbreviation (input) ASSISTANT :: string where "ASSISTANT \<equiv> ''REJECTED_ASSISTANT_AUTHORED_TRUTH_ATTEMPT''"
abbreviation (input) NO_AUTHORITY :: string where "NO_AUTHORITY \<equiv> ''REJECTED_ASSERTION_SPEAKER_NOT_TRUTH_AUTHORITY''"

definition texts :: "pyval \<Rightarrow> string list" where
  "texts v = filter (\<lambda>t. t \<noteq> []) (map strip_text (as_list v))"

definition has_source_refs :: "pydict \<Rightarrow> bool" where
  "has_source_refs action \<longleftrightarrow>
     as_list (dget action ''source_span_ids'') \<noteq> [] \<and> as_list (dget action ''source_event_ids'') \<noteq> []"

definition hash_json :: "pyval \<Rightarrow> nat \<Rightarrow> string" where
  "hash_json v n = ''sha256:'' @ take n (sha256_hex (json_text '','' '':'' v))"

definition remove_prefix :: "string \<Rightarrow> string \<Rightarrow> string" where
  "remove_prefix p s = (if py_startswith s p then drop (length p) s else s)"

section \<open>Source and scope\<close>

definition scope_of :: "pydict \<Rightarrow> pydict" where
  "scope_of packet =
     (let scope = as_mapping (dget packet ''scope'') in
      [(''tenant_id'', PStr (strip_text (py_or (dget scope ''tenant_id'') (PStr ''local'')))),
       (''principal_scope_key'', PStr (strip_text (dget scope ''principal_scope_key''))),
       (''workspace_scope_key'', PStr (strip_text (dget scope ''workspace_scope_key''))),
       (''session_id'', PStr (strip_text (dget scope ''session_id''))),
       (''project_id'', PStr (strip_text (dget scope ''project_id'')))])"

definition index_span :: "pydict \<Rightarrow> (string \<times> pydict) list \<Rightarrow> (string \<times> pydict) list" where
  "index_span sp spans =
     (let span_id = strip_text (dget sp ''source_span_id'')
      in if span_id \<noteq> [] then AList.update span_id sp spans else spans)"

definition source_index :: "pydict \<Rightarrow> (string \<times> pydict) list" where
  "source_index packet = fold index_span (mappings (as_list (dget packet ''verified_source_spans''))) []"

definition span_of :: "(string \<times> pydict) list \<Rightarrow> string \<Rightarrow> pydict" where
  "span_of spans i = (case map_of spans i of Some s \<Rightarrow> s | None \<Rightarrow> [])"

definition first_span :: "pydict \<Rightarrow> (string \<times> pydict) list \<Rightarrow> pydict option" where
  "first_span action spans =
     map_option (span_of spans)
       (find (\<lambda>i. map_of spans i \<noteq> None) (texts (dget action ''source_span_ids'')))"

definition assertion_speaker :: "pydict \<Rightarrow> pydict \<Rightarrow> string" where
  "assertion_speaker sp action =
     py_lower (strip_text (py_or (dget sp ''assertion_speaker'') (py_or (dget sp ''speaker'')
       (py_or (dget action ''assertion_speaker'') (py_or (dget action ''source_role'') (PStr ''unknown''))))))"

definition action_event_ids :: "pydict \<Rightarrow> pydict \<Rightarrow> string list" where
  "action_event_ids sp action =
     (let ids = texts (dget action ''source_event_ids'') in
      if ids = [] \<and> sp \<noteq> []
      then (let e = strip_text (dget sp ''source_event_id'') in if e \<noteq> [] then [e] else ids)
      else ids)"

definition action_source :: "pydict \<Rightarrow> (string \<times> pydict) list \<Rightarrow> pydict \<times> string list" where
  "action_source action spans =
     (let span_ids = texts (dget action ''source_span_ids'');
          first = first_span action spans;
          span = (case first of Some s \<Rightarrow> s | None \<Rightarrow> []);
          speaker = assertion_speaker span action;
          event_ids = action_event_ids span action in
      ([(''source_event_ids'', PList (map PStr event_ids)),
        (''source_span_ids'', PList (map PStr span_ids)),
        (''assertion_speaker'', PStr (if speaker = [] then ''unknown'' else speaker)),
        (''source_modality'', PStr (strip_text (py_or (dget span ''source_modality'') (PStr ''conversation''))))],
       (if span_ids = [] \<or> first = None then [NO_SPAN] else []) @ (if event_ids = [] then [NO_EVENT] else [])))"

definition SCOPE_KEYS :: "string list" where
  "SCOPE_KEYS = [''tenant_id'', ''principal_scope_key'', ''workspace_scope_key'', ''session_id'']"

definition scope_differs :: "pydict \<Rightarrow> pydict \<Rightarrow> bool" where
  "scope_differs scope span_scope \<longleftrightarrow>
     list_ex (\<lambda>k. let expected = strip_text (dget scope k); actual = strip_text (dget span_scope k)
                  in expected \<noteq> [] \<and> actual \<noteq> [] \<and> expected \<noteq> actual) SCOPE_KEYS"

definition scope_blockers :: "pydict \<Rightarrow> (string \<times> pydict) list \<Rightarrow> pydict \<Rightarrow> string list" where
  "scope_blockers source spans scope =
     (if list_ex (\<lambda>i. let span_scope = as_mapping (dget (span_of spans (strip_text i)) ''scope'')
                      in span_scope \<noteq> [] \<and> scope_differs scope span_scope)
          (as_list (dget source ''source_span_ids''))
      then [BAD_SCOPE] else [])"

section \<open>Normalization and existing memory\<close>

definition memory_kind_of :: "pydict \<Rightarrow> string" where
  "memory_kind_of action =
     (case map_of TARGET_KIND_TO_MEMORY_KIND (py_lower (strip_text (dget action ''target_kind''))) of
        Some k \<Rightarrow> k | None \<Rightarrow> ''unknown'')"

definition relation_dict :: "string \<Rightarrow> string \<Rightarrow> string \<Rightarrow> string \<Rightarrow> pydict" where
  "relation_dict subject_ref predicate object_ref direction =
     [(''subject_ref'', PStr subject_ref), (''predicate'', PStr predicate),
      (''object_ref'', PStr object_ref), (''direction'', PStr direction)]"

definition relation_shape_of :: "pydict \<Rightarrow> string \<Rightarrow> pydict" where
  "relation_shape_of action memory_kind =
     (let relation = as_mapping (dget action ''relation_shape'') in
      if relation \<noteq> [] then
        relation_dict (strip_text (dget relation ''subject_ref'')) (strip_text (dget relation ''predicate''))
          (strip_text (dget relation ''object_ref'')) (strip_text (py_or (dget relation ''direction'') (PStr ''forward'')))
      else if memory_kind = ''relation'' then
        relation_dict (strip_text (dget action ''subject_ref''))
          (strip_text (py_or (dget action ''predicate'') (dget action ''target_slot'')))
          (strip_text (dget action ''object_ref'')) (strip_text (py_or (dget action ''direction'') (PStr ''forward'')))
      else relation_dict [] [] [] ''none'')"

definition action_value :: "pydict \<Rightarrow> string" where
  "action_value d = strip_text (py_or (dget d ''value_fingerprint'') (dget d ''normalized_value_hash''))"

definition action_stable_key :: "pydict \<Rightarrow> string" where
  "action_stable_key action = strip_text (py_or (dget action ''stable_key'') (dget action ''target_slot''))"

definition ref_key :: "pydict \<Rightarrow> string" where
  "ref_key r = strip_text (py_or (dget r ''stable_key'') (py_or (dget r ''target_slot'') (dget r ''relation_id'')))"

definition ref_matches :: "pydict \<Rightarrow> pydict \<Rightarrow> bool" where
  "ref_matches action r \<longleftrightarrow>
     action_stable_key action \<noteq> [] \<and> ref_key r = action_stable_key action \<and>
     (action_value action = [] \<or> action_value r = [] \<or> action_value r = action_value action)"

definition existing_matches :: "pydict \<Rightarrow> pydict \<Rightarrow> string list" where
  "existing_matches packet action =
     filter (\<lambda>t. t \<noteq> [])
       (map (\<lambda>r. strip_text (py_or (dget r ''memory_ref'') (py_or (dget r ''stable_fact_id'') (PStr (ref_key r)))))
         (filter (ref_matches action) (mappings (as_list (dget packet ''existing_memory_refs'')))))"

definition conflict_key :: "pydict \<Rightarrow> string" where
  "conflict_key d = strip_text (py_or (dget d ''stable_key'') (py_or (dget d ''target_slot'') (dget d ''predicate'')))"

definition has_conflict :: "pydict \<Rightarrow> pydict \<Rightarrow> bool" where
  "has_conflict packet action \<longleftrightarrow>
     (let graph_state = as_mapping (dget packet ''graph_state_summary'') in
      list_ex (\<lambda>c. conflict_key action \<noteq> [] \<and> conflict_key c = conflict_key action)
        (mappings (as_list (dget graph_state ''unresolved_conflicts'') @ as_list (dget graph_state ''conflicts''))))"

section \<open>Authority, class, lifecycle\<close>

definition authority_dict :: "string \<Rightarrow> bool \<Rightarrow> string \<Rightarrow> pydict" where
  "authority_dict authority_class eligible visibility =
     [(''authority_class'', PStr authority_class), (''truth_eligible'', PBool eligible),
      (''support_visibility'', PStr visibility)]"

definition authority_of :: "pydict \<Rightarrow> string list \<Rightarrow> string \<Rightarrow> pydict \<times> string list" where
  "authority_of source blocked_by memory_kind =
     (let speaker = py_lower (strip_text (dget source ''assertion_speaker'')) in
      if speaker \<in> set ASSISTANT_SPEAKERS then
        (authority_dict ''assistant_claim'' False ''inspect_only'', blocked_by @ [ASSISTANT])
      else if NO_SPAN \<in> set blocked_by \<or> NO_EVENT \<in> set blocked_by \<or> BAD_SCOPE \<in> set blocked_by then
        (authority_dict ''donor_proposal'' False ''inspect_only'', blocked_by)
      else if speaker \<in> set TRUTH_AUTHORITY_SPEAKERS \<and> memory_kind \<noteq> ''support_context'' then
        (authority_dict (if speaker = ''user'' then ''user_explicit'' else speaker) True ''answer_evidence'', blocked_by)
      else if memory_kind = ''support_context'' then
        (authority_dict ''support_only'' False ''support_context'', blocked_by)
      else (authority_dict ''unknown'' False ''inspect_only'', blocked_by @ [NO_AUTHORITY]))"

definition raw_action_of :: "pydict \<Rightarrow> string" where
  "raw_action_of action = py_lower (strip_text (dget action ''action''))"

definition LIFECYCLE_ACTIONS :: "string list" where
  "LIFECYCLE_ACTIONS =
    [''update'', ''delete'', ''delete_or_supersede'', ''supersede'', ''correct'', ''correction'', ''invalidate'',
     ''invalidation'', ''expire'', ''expiration'', ''merge_alias'', ''alias_merge'']"

definition relation_incomplete :: "pydict \<Rightarrow> bool" where
  "relation_incomplete shape \<longleftrightarrow>
     \<not> list_all (\<lambda>k. truthy (dget shape k)) [''subject_ref'', ''predicate'', ''object_ref'']"

definition decision_class_of :: "pydict \<Rightarrow> pydict \<Rightarrow> string \<Rightarrow> pydict \<Rightarrow> string list \<Rightarrow> string list \<Rightarrow> string" where
  "decision_class_of packet action memory_kind authority blocked_by matches =
     (let target_slot = strip_text (dget action ''target_slot'');
          raw_action = raw_action_of action in
      if ASSISTANT \<in> set blocked_by then ''reject''
      else if BAD_SCOPE \<in> set blocked_by then ''reject''
      else if NO_SPAN \<in> set blocked_by \<or> NO_EVENT \<in> set blocked_by then ''inspect_only''
      else if memory_kind = ''unknown'' then ''clarification_required''
      else if memory_kind \<noteq> ''relation'' \<and> target_slot = [] \<and> memory_kind \<noteq> ''support_context''
        then ''clarification_required''
      else if memory_kind = ''relation'' \<and> relation_incomplete (relation_shape_of action memory_kind)
        then ''clarification_required''
      else if memory_kind = ''support_context'' then ''support_event''
      else if raw_action \<in> {''ignore'', ''failed_batch''} then ''inspect_only''
      else if \<not> truthy (dget authority ''truth_eligible'') then ''inspect_only''
      else if matches \<noteq> [] \<and> raw_action \<in> {''create'', ''retain''} then ''inspect_only''
      else if has_conflict packet action then ''conflict_review''
      else if raw_action \<in> set LIFECYCLE_ACTIONS then ''lifecycle_update_candidate''
      else if memory_kind = ''relation'' then ''relation_candidate''
      else ''durable_fact_candidate'')"

definition authority_for_decision :: "string \<Rightarrow> pydict \<Rightarrow> pydict" where
  "authority_for_decision decision_class authority =
     (if decision_class \<in> {''reject'', ''inspect_only'', ''clarification_required''} then
        dset ''support_visibility'' (PStr ''inspect_only'') (dset ''truth_eligible'' (PBool False) authority)
      else if decision_class = ''support_event'' then
        dset ''support_visibility'' (PStr ''support_context'') (dset ''truth_eligible'' (PBool False) authority)
      else if decision_class = ''conflict_review'' then
        dset ''support_visibility'' (PStr ''contradiction_only'') (dset ''truth_eligible'' (PBool False) authority)
      else authority)"

definition lifecycle_of :: "pydict \<Rightarrow> string \<Rightarrow> string list \<Rightarrow> pydict" where
  "lifecycle_of action decision_class matches =
     (let raw_action = raw_action_of action in
      [(''action'', PStr
         (if decision_class \<in> {''reject'', ''inspect_only'', ''clarification_required'', ''support_event''}
          then (if decision_class = ''reject'' then ''reject'' else ''noop'')
          else if decision_class = ''conflict_review'' then ''conflict_review''
          else if decision_class = ''lifecycle_update_candidate'' then
            (if raw_action \<in> {''delete'', ''delete_or_supersede'', ''supersede''} then ''supersession''
             else if raw_action \<in> {''correct'', ''correction''} then ''correction''
             else if raw_action \<in> {''invalidate'', ''invalidation''} then ''invalidation''
             else if raw_action \<in> {''expire'', ''expiration''} then ''expiration''
             else if raw_action \<in> {''merge_alias'', ''alias_merge''} then ''alias_merge''
             else ''update'')
          else if matches \<noteq> [] \<and> raw_action \<in> {''create'', ''retain''} then ''noop''
          else if matches \<noteq> [] then ''update''
          else ''create'')),
       (''target_refs'', PList (map PStr matches))])"

definition semantic_dict :: "string \<Rightarrow> string \<Rightarrow> bool \<Rightarrow> pydict" where
  "semantic_dict value_class budget_hint critical =
     [(''semantic_value_class'', PStr value_class), (''projection_budget_hint'', PStr budget_hint),
      (''authority_critical'', PBool critical)]"

definition semantic_value_of :: "string \<Rightarrow> string \<Rightarrow> pydict \<Rightarrow> pydict" where
  "semantic_value_of decision_class memory_kind authority =
     (if truthy (dget authority ''truth_eligible'') \<and>
         decision_class \<in> {''durable_fact_candidate'', ''relation_candidate'', ''lifecycle_update_candidate''} then
        (if memory_kind \<in> {''profile_fact'', ''style_rule''} then
           semantic_dict (if memory_kind = ''style_rule'' then ''stable_preference'' else ''authority_critical'')
             ''always_active_candidate'' True
         else if memory_kind = ''project_fact'' then semantic_dict ''project_core_fact'' ''task_relevant_candidate'' True
         else if memory_kind \<in> {''relation'', ''temporal_event''} then
           semantic_dict ''temporal_context'' ''task_relevant_candidate'' True
         else semantic_dict ''authority_critical'' ''task_relevant_candidate'' True)
      else if decision_class = ''support_event'' then semantic_dict ''support_context'' ''retrieval_only'' False
      else semantic_dict (if decision_class = ''clarification_required'' then ''unknown'' else ''low_value_noise'')
             (if decision_class \<noteq> ''reject'' then ''inspect_only'' else ''archived'') False)"

definition receipt_dict :: "bool \<Rightarrow> string \<Rightarrow> pydict" where
  "receipt_dict required coverage = [(''required'', PBool required), (''coverage'', PStr coverage)]"

definition receipt_requirement_of :: "string \<Rightarrow> pydict" where
  "receipt_requirement_of decision_class =
     (if decision_class = ''durable_fact_candidate'' then receipt_dict True ''durable_write''
      else if decision_class = ''relation_candidate'' then receipt_dict True ''relation_write''
      else if decision_class = ''lifecycle_update_candidate'' then receipt_dict True ''durable_write''
      else if decision_class = ''conflict_review'' then receipt_dict True ''operator_resolution''
      else if decision_class = ''support_event'' then receipt_dict False ''source_span''
      else receipt_dict False ''none'')"

definition t2_reason_code :: "string \<Rightarrow> string \<Rightarrow> string list \<Rightarrow> pydict \<Rightarrow> pydict \<Rightarrow> string" where
  "t2_reason_code decision_class memory_kind blocked_by authority lifecycle =
     (if blocked_by \<noteq> [] then hd blocked_by
      else if decision_class = ''inspect_only'' \<and> dget lifecycle ''action'' = PStr ''noop'' \<and>
              as_list (dget lifecycle ''target_refs'') \<noteq> [] then ''NOOP_DUPLICATE_ALREADY_CURRENT''
      else if decision_class = ''support_event'' then ''SUPPORT_EVENT_DONOR_PROPOSAL_NOT_TRUTH_AUTHORITY''
      else if decision_class = ''relation_candidate'' then ''RELATION_CANDIDATE_SOURCE_BACKED''
      else if decision_class = ''conflict_review'' then ''CONFLICT_REVIEW_REQUIRED_CURRENT_VALUE_MISMATCH''
      else if decision_class = ''lifecycle_update_candidate'' then ''LIFECYCLE_UPDATE_SUPERSEDES_PRIOR_FACT''
      else if decision_class = ''clarification_required'' then
        (if memory_kind = ''unknown'' then ''CLARIFICATION_REQUIRED_MEMORY_KIND_AMBIGUOUS''
         else ''CLARIFICATION_REQUIRED_SCOPE_AMBIGUOUS'')
      else if decision_class = ''durable_fact_candidate'' \<and> dget authority ''authority_class'' = PStr ''user_explicit''
        then ''DURABLE_CANDIDATE_USER_EXPLICIT_SOURCE_BACKED''
      else if decision_class = ''durable_fact_candidate'' then ''DURABLE_CANDIDATE_TRUSTED_HOST_SOURCE_BACKED''
      else if decision_class = ''inspect_only'' then ''INSPECT_ONLY_UNVERIFIED_DONOR_PROPOSAL''
      else NO_AUTHORITY)"

section \<open>The plan\<close>

record t2_eval =
  te_source :: pydict
  te_memory_kind :: string
  te_blocked_by :: "string list"
  te_authority :: pydict
  te_matches :: "string list"
  te_raw_class :: string
  te_class :: string

definition action_blockers :: "pydict \<Rightarrow> (string \<times> pydict) list \<Rightarrow> pydict \<Rightarrow> string list" where
  "action_blockers scope spans action =
     (let blocked = snd (action_source action spans) @ scope_blockers (fst (action_source action spans)) spans scope in
      if memory_kind_of action = ''support_context'' \<and> has_source_refs action
      then filter (\<lambda>b. b \<noteq> NO_SPAN) blocked else blocked)"

definition evaluate_action :: "pydict \<Rightarrow> pydict \<Rightarrow> t2_eval" where
  "evaluate_action packet action =
     (let spans = source_index packet;
          source = fst (action_source action spans);
          memory_kind = memory_kind_of action;
          (authority, blocked_by) = authority_of source (action_blockers (scope_of packet) spans action) memory_kind;
          matches = existing_matches packet action;
          raw_class = decision_class_of packet action memory_kind authority blocked_by matches;
          decision_class = (if raw_class \<in> set DECISION_CLASSES then raw_class else ''inspect_only'') in
      \<lparr>te_source = source, te_memory_kind = memory_kind, te_blocked_by = blocked_by,
       te_authority = authority_for_decision decision_class authority, te_matches = matches,
       te_raw_class = raw_class, te_class = decision_class\<rparr>)"

definition candidate_id :: "string \<Rightarrow> pydict \<Rightarrow> nat \<Rightarrow> string" where
  "candidate_id fingerprint action index =
     ''t2cand_'' @ remove_prefix ''sha256:''
       (hash_json (PDict [(''input'', PStr fingerprint), (''index'', PInt (int index)),
                          (''proposal_id'', dget action ''proposal_id'')]) 20)"

definition STAGE_RESULTS :: "string list" where
  "STAGE_RESULTS =
    [''source_scope_validation'', ''candidate_normalization'', ''authority_evaluation'',
     ''memory_kind_classification'', ''lifecycle_planning'', ''semantic_value_projection_hint'',
     ''receipt_requirement_building'']"

definition eval_lifecycle :: "pydict \<Rightarrow> t2_eval \<Rightarrow> pydict" where
  "eval_lifecycle action ev = lifecycle_of action (te_class ev) (te_matches ev)"

definition decision_of :: "pydict \<Rightarrow> string \<Rightarrow> nat \<Rightarrow> pydict \<Rightarrow> pydict" where
  "decision_of packet fingerprint index action =
     (let ev = evaluate_action packet action in
      [(''candidate_id'', PStr (candidate_id fingerprint action index)),
       (''proposal_id'', PStr (strip_text (dget action ''proposal_id''))),
       (''decision_class'', PStr (te_class ev)),
       (''source'', PDict (te_source ev)),
       (''scope'', PDict (scope_of packet)),
       (''normalized_candidate'', PDict
         [(''target_slot'', PStr (strip_text (dget action ''target_slot''))),
          (''relation_shape'', PDict (relation_shape_of action (te_memory_kind ev))),
          (''value_fingerprint'', PStr (action_value action))]),
       (''authority'', PDict (te_authority ev)),
       (''memory_kind'', PStr (te_memory_kind ev)),
       (''lifecycle'', PDict (eval_lifecycle action ev)),
       (''semantic_value'', PDict (semantic_value_of (te_class ev) (te_memory_kind ev) (te_authority ev))),
       (''receipt_requirement'', PDict (receipt_requirement_of (te_class ev))),
       (''reason_code'', PStr
         (t2_reason_code (te_class ev) (te_memory_kind ev) (te_blocked_by ev) (te_authority ev) (eval_lifecycle action ev))),
       (''trace'', PDict
         [(''stage_results'', PList (map PStr STAGE_RESULTS)),
          (''blocked_by'', PList (map PStr (te_blocked_by ev)))])])"

definition plan_actions :: "pydict \<Rightarrow> pydict list" where
  "plan_actions packet = mappings (as_list (dget (as_mapping (dget packet ''proposal_batch'')) ''actions''))"

record t2_counters =
  tc_missing_verified_source :: nat
  tc_assistant_truth_attempt :: nat
  tc_scope_mismatch :: nat
  tc_unsupported_decision_class :: nat

definition count_action :: "t2_eval \<Rightarrow> t2_counters \<Rightarrow> t2_counters" where
  "count_action ev c =
     \<lparr>tc_missing_verified_source = tc_missing_verified_source c +
        (if NO_SPAN \<in> set (te_blocked_by ev) \<or> NO_EVENT \<in> set (te_blocked_by ev) then 1 else 0),
      tc_assistant_truth_attempt = tc_assistant_truth_attempt c + (if ASSISTANT \<in> set (te_blocked_by ev) then 1 else 0),
      tc_scope_mismatch = tc_scope_mismatch c + (if BAD_SCOPE \<in> set (te_blocked_by ev) then 1 else 0),
      tc_unsupported_decision_class = tc_unsupported_decision_class c +
        (if te_raw_class ev \<notin> set DECISION_CLASSES then 1 else 0)\<rparr>"

definition plan_counters :: "pydict \<Rightarrow> t2_counters" where
  "plan_counters packet =
     fold count_action (map (evaluate_action packet) (plan_actions packet))
       \<lparr>tc_missing_verified_source = 0, tc_assistant_truth_attempt = 0, tc_scope_mismatch = 0,
        tc_unsupported_decision_class = 0\<rparr>"

definition counters_dict :: "t2_counters \<Rightarrow> pydict" where
  "counters_dict c =
    [(''missing_verified_source'', PInt (int (tc_missing_verified_source c))),
     (''assistant_truth_attempt'', PInt (int (tc_assistant_truth_attempt c))),
     (''scope_mismatch'', PInt (int (tc_scope_mismatch c))),
     (''unsupported_decision_class'', PInt (int (tc_unsupported_decision_class c))),
     (''nondeterministic_input'', PInt 0)]"

definition plan_decisions :: "pydict \<Rightarrow> pydict list" where
  "plan_decisions packet =
     (let actions = plan_actions packet; fingerprint = hash_json (PDict packet) 32
      in map (\<lambda>i. decision_of packet fingerprint i (actions ! i)) [0..<length actions])"

definition decision_blocked :: "pydict \<Rightarrow> bool" where
  "decision_blocked d \<longleftrightarrow> truthy (dget (as_mapping (dget d ''trace'')) ''blocked_by'')"

definition decision_truth :: "pydict \<Rightarrow> bool" where
  "decision_truth d \<longleftrightarrow> truthy (dget (as_mapping (dget d ''authority'')) ''truth_eligible'')"

definition policy_version_of :: "pydict \<Rightarrow> string" where
  "policy_version_of packet = strip_text (py_or (dget packet ''policy_version'') (PStr TIER2_DECISION_CORE_VERSION))"

definition build_tier2_decision_plan :: "pydict \<Rightarrow> pydict" where
  "build_tier2_decision_plan packet =
     (let policy_version = policy_version_of packet;
          fingerprint = hash_json (PDict packet) 32;
          decisions = plan_decisions packet in
      [(''schema'', PStr TIER2_DECISION_PLAN_SCHEMA),
       (''policy_version'', PStr policy_version),
       (''input_fingerprint'', PStr fingerprint),
       (''decision_plan_id'', PStr (''t2plan_'' @ remove_prefix ''sha256:''
          (hash_json (PDict [(''input'', PStr fingerprint), (''policy'', PStr policy_version)]) 24))),
       (''decisions'', PList (map PDict decisions)),
       (''critical_counters'', PDict (counters_dict (plan_counters packet))),
       (''trace_summary'', PDict
         [(''decision_count'', PInt (int (length decisions))),
          (''blocked_count'', PInt (int (length (filter decision_blocked decisions)))),
          (''truth_candidate_count'', PInt (int (length (filter decision_truth decisions))))])])"

section \<open>Validation and conformance\<close>

definition indexed_issue :: "string \<Rightarrow> nat \<Rightarrow> string" where
  "indexed_issue label i = label @ '':'' @ show_int (int i)"

definition decision_issues :: "nat \<Rightarrow> pyval \<Rightarrow> string list" where
  "decision_issues i v =
     (if \<not> is_mapping v then [indexed_issue ''decision_not_mapping'' i]
      else (let d = as_mapping v; c = strip_text (dget d ''decision_class'') in
        (if c \<notin> set DECISION_CLASSES then [indexed_issue ''unsupported_decision_class'' i @ '':'' @ c] else []) @
        (if dget (as_mapping (dget d ''authority'')) ''truth_eligible'' = PBool False \<and>
            c \<in> {''durable_fact_candidate'', ''relation_candidate'', ''lifecycle_update_candidate''}
         then [indexed_issue ''truth_ineligible_candidate'' i] else []) @
        (if dhas d ''metadata'' then [indexed_issue ''free_form_metadata'' i] else []) @
        (if strip_text (dget d ''reason_code'') = [] then [indexed_issue ''missing_reason_code'' i] else [])))"

definition enumerated :: "(nat \<Rightarrow> 'a \<Rightarrow> string list) \<Rightarrow> 'a list \<Rightarrow> string list" where
  "enumerated f xs = concat (map (\<lambda>(i, x). f i x) (enumerate 0 xs))"

definition validate_tier2_decision_plan :: "pydict \<Rightarrow> string list" where
  "validate_tier2_decision_plan plan =
     (if dget plan ''schema'' \<noteq> PStr TIER2_DECISION_PLAN_SCHEMA then [''schema_mismatch''] else []) @
     map (\<lambda>f. ''missing:'' @ f)
       (filter (\<lambda>f. strip_text (dget plan f) = []) [''policy_version'', ''input_fingerprint'', ''decision_plan_id'']) @
     (if \<not> is_list (dget plan ''decisions'') then [''missing:decisions'']
      else enumerated decision_issues (as_list (dget plan ''decisions'')))"

definition conformance_issues :: "nat \<Rightarrow> pyval \<Rightarrow> string list" where
  "conformance_issues i v =
     (if \<not> is_mapping v then []
      else (let d = as_mapping v; c = strip_text (dget d ''decision_class'');
                authority = as_mapping (dget d ''authority'');
                semantic = as_mapping (dget d ''semantic_value'') in
        (if dget authority ''truth_eligible'' = PBool False \<and> dget authority ''support_visibility'' = PStr ''answer_evidence''
         then [indexed_issue ''truth_ineligible_answer_evidence'' i] else []) @
        (if c = ''support_event'' \<and> dget authority ''truth_eligible'' \<noteq> PBool False
         then [indexed_issue ''support_event_truth_eligible'' i] else []) @
        (if c = ''conflict_review'' \<and> dget authority ''support_visibility'' = PStr ''answer_evidence''
         then [indexed_issue ''conflict_answer_evidence'' i] else []) @
        (if dget semantic ''authority_critical'' = PBool True \<and> dget authority ''truth_eligible'' = PBool False
         then [indexed_issue ''authority_critical_without_truth'' i] else [])))"

definition semantic_conformance_issues :: "pydict \<Rightarrow> string list" where
  "semantic_conformance_issues plan = enumerated conformance_issues (as_list (dget plan ''decisions''))"

definition comma_texts :: "pyval \<Rightarrow> string" where
  "comma_texts v = py_join '','' (map strip_text (as_list v))"

definition or_none :: "string \<Rightarrow> string" where
  "or_none s = (if s = [] then ''none'' else s)"

definition render_ten_line_decision_trace :: "pydict \<Rightarrow> string list" where
  "render_ten_line_decision_trace decision =
     (let source = as_mapping (dget decision ''source'');
          authority = as_mapping (dget decision ''authority'');
          normalized = as_mapping (dget decision ''normalized_candidate'');
          relation = as_mapping (dget normalized ''relation_shape'');
          lifecycle = as_mapping (dget decision ''lifecycle'');
          semantic = as_mapping (dget decision ''semantic_value'');
          receipt = as_mapping (dget decision ''receipt_requirement'');
          trace = as_mapping (dget decision ''trace'');
          scope = as_mapping (dget decision ''scope'');
          normalized_text = py_or (dget normalized ''target_slot'')
            (PStr (py_strip (py_str (dget relation ''subject_ref'') @ '' '' @ py_str (dget relation ''predicate'') @
                             '' '' @ py_str (dget relation ''object_ref'')))) in
      [''candidate_id: '' @ strip_text (dget decision ''candidate_id''),
       ''source: '' @ comma_texts (dget source ''source_span_ids'') @ '', speaker='' @
         strip_text (dget source ''assertion_speaker'') @ '', scope='' @ strip_text (dget scope ''principal_scope_key''),
       ''normalized: '' @ strip_text normalized_text @ '', value='' @ strip_text (dget normalized ''value_fingerprint''),
       ''authority: '' @ strip_text (dget authority ''authority_class'') @ '', truth_eligible='' @
         (if truthy (dget authority ''truth_eligible'') then ''True'' else ''False'') @ '', visibility='' @
         strip_text (dget authority ''support_visibility''),
       ''kind: '' @ strip_text (dget decision ''memory_kind''),
       ''existing: '' @ or_none (comma_texts (dget lifecycle ''target_refs'')),
       ''lifecycle: '' @ strip_text (dget lifecycle ''action''),
       ''value: '' @ strip_text (dget semantic ''semantic_value_class'') @ '', budget_hint='' @
         strip_text (dget semantic ''projection_budget_hint''),
       ''receipt_required: '' @ strip_text (dget receipt ''coverage''),
       ''decision: '' @ strip_text (dget decision ''decision_class'') @ '', reason='' @
         strip_text (dget decision ''reason_code'') @ '', blocked_by='' @ or_none (comma_texts (dget trace ''blocked_by''))])"

section \<open>One action\<close>

definition candidate_classes :: "string set" where
  "candidate_classes = {''durable_fact_candidate'', ''relation_candidate'', ''lifecycle_update_candidate''}"

lemma raw_class_known: "decision_class_of packet action kind authority blocked ms \<in> set DECISION_CLASSES"
  unfolding decision_class_of_def Let_def DECISION_CLASSES_def by (simp split: if_split)

lemma class_known: "te_class (evaluate_action packet action) \<in> set DECISION_CLASSES"
  by (simp add: evaluate_action_def Let_def case_prod_unfold raw_class_known)

lemma eval_simps:
  "te_source (evaluate_action packet action) = fst (action_source action (source_index packet))"
  "te_memory_kind (evaluate_action packet action) = memory_kind_of action"
  "te_matches (evaluate_action packet action) = existing_matches packet action"
  "te_blocked_by (evaluate_action packet action) =
     snd (authority_of (fst (action_source action (source_index packet)))
       (action_blockers (scope_of packet) (source_index packet) action) (memory_kind_of action))"
  "te_raw_class (evaluate_action packet action) = te_class (evaluate_action packet action)"
  by (simp_all add: evaluate_action_def Let_def case_prod_unfold raw_class_known)

lemma candidate_class_facts:
  assumes "decision_class_of packet action kind authority blocked ms \<in> candidate_classes"
  shows "truthy (dget authority ''truth_eligible'')" "\<not> has_conflict packet action"
    "kind \<noteq> ''unknown''" "kind \<noteq> ''support_context''"
    "\<not> (ms \<noteq> [] \<and> raw_action_of action \<in> {''create'', ''retain''})"
  using assms unfolding decision_class_of_def Let_def candidate_classes_def
  by (simp_all split: if_split_asm)

lemma class_reject_iff:
  "decision_class_of packet action kind authority blocked ms = ''reject'' \<longleftrightarrow>
     ''REJECTED_ASSISTANT_AUTHORED_TRUTH_ATTEMPT'' \<in> set blocked \<or> ''REJECTED_SCOPE_MISMATCH'' \<in> set blocked"
  unfolding decision_class_of_def Let_def by (simp split: if_split)


lemma authority_for_candidate:
  "c \<in> candidate_classes \<Longrightarrow> authority_for_decision c authority = authority"
  unfolding candidate_classes_def authority_for_decision_def by (elim insertE emptyE) simp_all

lemma authority_for_other:
  assumes "c \<in> set DECISION_CLASSES" and "c \<notin> candidate_classes"
  shows "dget (authority_for_decision c authority) ''truth_eligible'' = PBool False"
    "dget (authority_for_decision c authority) ''support_visibility'' \<noteq> PStr ''answer_evidence''"
  using assms unfolding candidate_classes_def DECISION_CLASSES_def set_simps
  by (elim insertE emptyE; simp add: authority_for_decision_def)+

lemma dget_authority_dict:
  "dget (authority_dict c b v) ''truth_eligible'' = PBool b" "dget (authority_dict c b v) ''support_visibility'' = PStr v"
  "dget (authority_dict c b v) ''authority_class'' = PStr c"
  by (simp_all add: authority_dict_def)

lemma authority_eligible:
  assumes "truthy (dget (fst (authority_of source blocked kind)) ''truth_eligible'')"
  shows "snd (authority_of source blocked kind) = blocked"
    "dget (fst (authority_of source blocked kind)) ''truth_eligible'' = PBool True"
    "dget (fst (authority_of source blocked kind)) ''support_visibility'' = PStr ''answer_evidence''"
    "py_lower (strip_text (dget source ''assertion_speaker'')) \<in> set TRUTH_AUTHORITY_SPEAKERS"
    "''REJECTED_MISSING_VERIFIED_SOURCE_SPAN'' \<notin> set blocked" "''REJECTED_MISSING_VERIFIED_SOURCE_EVENT'' \<notin> set blocked"
    "''REJECTED_SCOPE_MISMATCH'' \<notin> set blocked" "kind \<noteq> ''support_context''"
  using assms unfolding authority_of_def Let_def
  by (simp_all add: dget_authority_dict split: if_split_asm del: set_simps)

lemma action_blockers_subset:
  "set (action_blockers scope spans action) \<subseteq>
     {''REJECTED_MISSING_VERIFIED_SOURCE_SPAN'', ''REJECTED_MISSING_VERIFIED_SOURCE_EVENT'', ''REJECTED_SCOPE_MISMATCH''}"
proof -
  have a: "set (snd (action_source action spans)) \<subseteq>
      {''REJECTED_MISSING_VERIFIED_SOURCE_SPAN'', ''REJECTED_MISSING_VERIFIED_SOURCE_EVENT''}"
    unfolding action_source_def Let_def by (simp split: if_split) blast
  have b: "set (scope_blockers source spans scope) \<subseteq> {''REJECTED_SCOPE_MISMATCH''}" for source
    unfolding scope_blockers_def by (simp split: if_split) blast
  show ?thesis
    unfolding action_blockers_def Let_def using a b [of "fst (action_source action spans)"]
    by (simp split: if_split) blast
qed

lemma action_blockers_Nil:
  assumes "memory_kind_of action \<noteq> ''support_context''"
    and "''REJECTED_MISSING_VERIFIED_SOURCE_SPAN'' \<notin> set (action_blockers scope spans action)"
      "''REJECTED_MISSING_VERIFIED_SOURCE_EVENT'' \<notin> set (action_blockers scope spans action)"
      "''REJECTED_SCOPE_MISMATCH'' \<notin> set (action_blockers scope spans action)"
  shows "action_blockers scope spans action = []"
    "snd (action_source action spans) = []"
    "scope_blockers (fst (action_source action spans)) spans scope = []"
proof -
  show *: "action_blockers scope spans action = []"
    using action_blockers_subset [of scope spans action] assms(2-4) by (cases "action_blockers scope spans action") auto
  show "snd (action_source action spans) = []" "scope_blockers (fst (action_source action spans)) spans scope = []"
    using * assms(1) by (simp_all add: action_blockers_def Let_def)
qed

lemma eval_eligible:
  "dget (te_authority (evaluate_action packet action)) ''truth_eligible'' =
     PBool (te_class (evaluate_action packet action) \<in> candidate_classes)"
  "te_class (evaluate_action packet action) \<notin> candidate_classes \<Longrightarrow>
     dget (te_authority (evaluate_action packet action)) ''support_visibility'' \<noteq> PStr ''answer_evidence''"
proof -
  let ?e = "evaluate_action packet action"
  define auth where "auth = fst (authority_of (fst (action_source action (source_index packet)))
      (action_blockers (scope_of packet) (source_index packet) action) (memory_kind_of action))"
  have c: "te_class ?e = decision_class_of packet action (memory_kind_of action) auth (te_blocked_by ?e) (te_matches ?e)"
    and a: "te_authority ?e = authority_for_decision (te_class ?e) auth"
    by (simp_all add: evaluate_action_def Let_def case_prod_unfold raw_class_known auth_def)
  have cand: "dget (te_authority ?e) ''truth_eligible'' = PBool True" if "te_class ?e \<in> candidate_classes"
    using that candidate_class_facts(1) [of packet action "memory_kind_of action" auth] authority_eligible(2)
    unfolding a authority_for_candidate [OF that] unfolding auth_def c by blast
  show "dget (te_authority ?e) ''truth_eligible'' = PBool (te_class ?e \<in> candidate_classes)"
    using cand authority_for_other(1) [OF class_known [of packet action], of auth] a by (cases "te_class ?e \<in> candidate_classes") simp_all
  show "dget (te_authority ?e) ''support_visibility'' \<noteq> PStr ''answer_evidence''" if "te_class ?e \<notin> candidate_classes"
    using authority_for_other(2) [OF class_known that, of auth] a by simp
qed

lemma candidate_eval_facts:
  assumes "te_class (evaluate_action packet action) \<in> candidate_classes"
  shows "te_blocked_by (evaluate_action packet action) = []"
    "snd (action_source action (source_index packet)) = []"
    "scope_blockers (fst (action_source action (source_index packet))) (source_index packet) (scope_of packet) = []"
    "py_lower (strip_text (dget (te_source (evaluate_action packet action)) ''assertion_speaker'')) \<in> set TRUTH_AUTHORITY_SPEAKERS"
    "\<not> has_conflict packet action"
    "\<not> (existing_matches packet action \<noteq> [] \<and> raw_action_of action \<in> {''create'', ''retain''})"
proof -
  let ?e = "evaluate_action packet action" and ?src = "fst (action_source action (source_index packet))"
  let ?b = "action_blockers (scope_of packet) (source_index packet) action"
  define auth where "auth = fst (authority_of ?src ?b (memory_kind_of action))"
  have c: "te_class ?e = decision_class_of packet action (memory_kind_of action) auth (te_blocked_by ?e) (te_matches ?e)"
    by (simp add: evaluate_action_def Let_def case_prod_unfold raw_class_known auth_def)
  note f = candidate_class_facts [OF assms [unfolded c]]
  note g = authority_eligible [OF f(1) [unfolded auth_def]]
  note n = action_blockers_Nil [OF f(4) g(5,6,7)]
  show "te_blocked_by ?e = []" using g(1) n(1) by (simp add: eval_simps)
  show "snd (action_source action (source_index packet)) = []" by (rule n(2))
  show "scope_blockers ?src (source_index packet) (scope_of packet) = []" by (rule n(3))
  show "py_lower (strip_text (dget (te_source ?e) ''assertion_speaker'')) \<in> set TRUTH_AUTHORITY_SPEAKERS"
    using g(4) by (simp add: eval_simps)
  show "\<not> has_conflict packet action" by (rule f(2))
  show "\<not> (existing_matches packet action \<noteq> [] \<and> raw_action_of action \<in> {''create'', ''retain''})"
    using f(5) by (simp add: eval_simps)
qed

section \<open>The plan's decisions\<close>

lemma plan_decisions_shape:
  "as_list (dget (build_tier2_decision_plan packet) ''decisions'') = map PDict (plan_decisions packet)"
  "mappings (as_list (dget (build_tier2_decision_plan packet) ''decisions'')) = plan_decisions packet"
  by (simp_all add: build_tier2_decision_plan_def Let_def)

lemma length_plan_decisions: "length (plan_decisions packet) = length (plan_actions packet)"
  by (simp add: plan_decisions_def Let_def)

lemma plan_decision_of:
  assumes "d \<in> set (plan_decisions packet)"
  obtains fingerprint i action where "action \<in> set (plan_actions packet)" "d = decision_of packet fingerprint i action"
proof -
  obtain i where "i < length (plan_actions packet)"
    "d = decision_of packet (hash_json (PDict packet) 32) i (plan_actions packet ! i)"
    using assms unfolding plan_decisions_def Let_def by auto
  then show ?thesis by (intro that [OF nth_mem]) 
qed

lemma decision_fields:
  "dget (decision_of packet fp i action) ''decision_class'' = PStr (te_class (evaluate_action packet action))"
  "dget (decision_of packet fp i action) ''source'' = PDict (te_source (evaluate_action packet action))"
  "dget (decision_of packet fp i action) ''authority'' = PDict (te_authority (evaluate_action packet action))"
  "dget (decision_of packet fp i action) ''lifecycle'' = PDict (eval_lifecycle action (evaluate_action packet action))"
  "dget (decision_of packet fp i action) ''semantic_value'' =
     PDict (semantic_value_of (te_class (evaluate_action packet action)) (memory_kind_of action)
       (te_authority (evaluate_action packet action)))"
  "dget (decision_of packet fp i action) ''receipt_requirement'' =
     PDict (receipt_requirement_of (te_class (evaluate_action packet action)))"
  "dget (decision_of packet fp i action) ''reason_code'' =
     PStr (t2_reason_code (te_class (evaluate_action packet action)) (memory_kind_of action)
       (te_blocked_by (evaluate_action packet action)) (te_authority (evaluate_action packet action))
       (eval_lifecycle action (evaluate_action packet action)))"
  "dget (as_mapping (dget (decision_of packet fp i action) ''trace'')) ''blocked_by'' =
     PList (map PStr (te_blocked_by (evaluate_action packet action)))"
  "\<not> dhas (decision_of packet fp i action) ''metadata''"
  by (simp_all add: decision_of_def Let_def eval_simps)

lemma decision_truth_iff:
  "decision_truth (decision_of packet fp i action) \<longleftrightarrow> te_class (evaluate_action packet action) \<in> candidate_classes"
  by (simp add: decision_truth_def decision_fields eval_eligible(1))

lemma decision_blocked_iff:
  "decision_blocked (decision_of packet fp i action) \<longleftrightarrow> te_blocked_by (evaluate_action packet action) \<noteq> []"
  by (simp add: decision_blocked_def decision_fields)

lemma enumerated_Nil: "(\<And>i x. x \<in> set xs \<Longrightarrow> f i x = []) \<Longrightarrow> enumerated f xs = []"
  by (auto simp: enumerated_def in_set_enumerate_eq)

text \<open>Texts that survive stripping because they start with a visible character.\<close>

definition visible :: "string \<Rightarrow> bool" where
  "visible s \<longleftrightarrow> s \<noteq> [] \<and> \<not> is_space (hd s)"

lemma visible_Cons [simp]: "visible (c # cs) \<longleftrightarrow> \<not> is_space c"
  by (simp add: visible_def)

lemma strip_text_visible: "visible s \<Longrightarrow> strip_text (PStr s) \<noteq> []"
proof (cases s)
  case (Cons c cs)
  assume "visible s"
  with Cons have "dropWhile is_space s = s" "c \<in> set (rev s)" "\<not> is_space c" by simp_all
  then show ?thesis by (auto simp: strip_text_PStr py_strip_def dropWhile_eq_Nil_conv)
qed (simp add: visible_def)

lemma class_text: "c \<in> set DECISION_CLASSES \<Longrightarrow> strip_text (PStr c) = c"
  unfolding DECISION_CLASSES_def set_simps by (elim insertE emptyE) (simp_all add: text_eval)

lemma blocked_by_markers:
  "list_all visible (te_blocked_by (evaluate_action packet action))"
proof -
  have "list_all visible (action_blockers scope spans action)" for scope spans
    unfolding list_all_iff using action_blockers_subset [of scope spans action]
    by (auto simp: is_space_def)
  then show ?thesis
    by (simp add: eval_simps authority_of_def Let_def is_space_def del: set_simps split: if_split)
qed

lemma reason_visible: "list_all visible blocked \<Longrightarrow> visible (t2_reason_code c kind blocked authority lifecycle)"
  by (cases blocked) (simp_all add: t2_reason_code_def is_space_def)

lemma decision_valid: "decision_issues j (PDict (decision_of packet fp i action)) = []"
proof -
  let ?e = "evaluate_action packet action"
  have "dget (te_authority ?e) ''truth_eligible'' = PBool False \<Longrightarrow>
      te_class ?e \<notin> {''durable_fact_candidate'', ''relation_candidate'', ''lifecycle_update_candidate''}"
    using eval_eligible(1) [of packet action] by (simp add: candidate_classes_def)
  then show ?thesis
    using class_known [of packet action] strip_text_visible [OF reason_visible [OF blocked_by_markers [of packet action]]]
    unfolding decision_issues_def Let_def by (simp add: decision_fields class_text del: insert_iff)
qed

lemma semantic_critical:
  "dget (semantic_value_of c kind authority) ''authority_critical'' = PBool True \<Longrightarrow> truthy (dget authority ''truth_eligible'')"
  unfolding semantic_value_of_def semantic_dict_def by (simp split: if_split_asm)

lemma decision_conforms: "conformance_issues j (PDict (decision_of packet fp i action)) = []"
proof -
  let ?e = "evaluate_action packet action"
  have n: "''support_event'' \<notin> candidate_classes" "''conflict_review'' \<notin> candidate_classes"
    by (simp_all add: candidate_classes_def)
  have k: "truthy (dget (te_authority ?e) ''truth_eligible'')" if
    "dget (semantic_value_of (te_class ?e) (memory_kind_of action) (te_authority ?e)) ''authority_critical'' = PBool True"
    using semantic_critical that .
  show ?thesis
  proof (cases "te_class ?e \<in> candidate_classes")
    case True
    then have "te_class ?e \<noteq> ''support_event''" "te_class ?e \<noteq> ''conflict_review''" using n by auto
    with True show ?thesis
      unfolding conformance_issues_def Let_def
      by (simp add: decision_fields class_text [OF class_known] eval_eligible(1))
  next
    case False
    then have "dget (semantic_value_of (te_class ?e) (memory_kind_of action) (te_authority ?e)) ''authority_critical'' \<noteq> PBool True"
      using k by (auto simp: eval_eligible(1))
    with False eval_eligible(2) [OF False] show ?thesis
      unfolding conformance_issues_def Let_def
      by (simp add: decision_fields class_text [OF class_known] eval_eligible(1))
  qed
qed






section \<open>Counters\<close>

lemma fold_count:
  "fold count_action evs c =
    \<lparr>tc_missing_verified_source = tc_missing_verified_source c +
       length (filter (\<lambda>ev. ''REJECTED_MISSING_VERIFIED_SOURCE_SPAN'' \<in> set (te_blocked_by ev) \<or>
                        ''REJECTED_MISSING_VERIFIED_SOURCE_EVENT'' \<in> set (te_blocked_by ev)) evs),
     tc_assistant_truth_attempt = tc_assistant_truth_attempt c +
       length (filter (\<lambda>ev. ''REJECTED_ASSISTANT_AUTHORED_TRUTH_ATTEMPT'' \<in> set (te_blocked_by ev)) evs),
     tc_scope_mismatch = tc_scope_mismatch c + length (filter (\<lambda>ev. ''REJECTED_SCOPE_MISMATCH'' \<in> set (te_blocked_by ev)) evs),
     tc_unsupported_decision_class = tc_unsupported_decision_class c +
       length (filter (\<lambda>ev. te_raw_class ev \<notin> set DECISION_CLASSES) evs)\<rparr>"
  by (induction evs arbitrary: c) (simp_all add: count_action_def)

definition assistant_authored :: "pydict \<Rightarrow> bool" where
  "assistant_authored source \<longleftrightarrow> py_lower (strip_text (dget source ''assertion_speaker'')) \<in> set ASSISTANT_SPEAKERS"

lemma assistant_marker:
  "''REJECTED_ASSISTANT_AUTHORED_TRUTH_ATTEMPT'' \<in> set (te_blocked_by (evaluate_action packet action)) \<longleftrightarrow>
     assistant_authored (te_source (evaluate_action packet action))"
proof -
  have "''REJECTED_ASSISTANT_AUTHORED_TRUTH_ATTEMPT'' \<notin> set (action_blockers scope spans action)" for scope spans
    using action_blockers_subset [of scope spans action] by auto
  then show ?thesis
    by (simp add: eval_simps authority_of_def Let_def assistant_authored_def split: if_split)
qed

lemma reject_iff:
  "te_class (evaluate_action packet action) = ''reject'' \<longleftrightarrow>
     assistant_authored (te_source (evaluate_action packet action)) \<or>
     ''REJECTED_SCOPE_MISMATCH'' \<in> set (te_blocked_by (evaluate_action packet action))"
  unfolding assistant_marker [symmetric]
  by (simp add: evaluate_action_def Let_def case_prod_unfold raw_class_known class_reject_iff)

lemma length_filter_mono:
  "(\<And>x. x \<in> set xs \<Longrightarrow> P x \<Longrightarrow> Q x) \<Longrightarrow> length (filter P xs) \<le> length (filter Q xs)"
  by (induction xs) (simp_all add: le_SucI)

lemma blocked_or_truth:
  "length (filter decision_blocked (plan_decisions packet)) + length (filter decision_truth (plan_decisions packet))
     \<le> length (plan_decisions packet)"
proof -
  have "decision_truth d \<Longrightarrow> \<not> decision_blocked d" if d: "d \<in> set (plan_decisions packet)" for d
  proof -
    assume t: "decision_truth d"
    obtain fp i action where "d = decision_of packet fp i action" using plan_decision_of [OF d] by blast
    with t show "\<not> decision_blocked d" by (simp add: decision_truth_iff decision_blocked_iff candidate_eval_facts(1))
  qed
  then have "length (filter decision_truth (plan_decisions packet)) \<le> length (filter (\<lambda>d. \<not> decision_blocked d) (plan_decisions packet))"
    by (intro length_filter_mono) simp
  with sum_length_filter_compl [of decision_blocked "plan_decisions packet"] show ?thesis by linarith
qed

section \<open>Matches\<close>

text \<open>
  A proposal that changes the value stored under its key matches no reference: an update to a new value names no
  prior fact among its lifecycle targets.
\<close>

lemma changed_value_matches_nothing:
  assumes "action_value action \<noteq> []"
    and "\<And>r. r \<in> set (mappings (as_list (dget packet ''existing_memory_refs''))) \<Longrightarrow> ref_key r = action_stable_key action \<Longrightarrow>
           action_value r \<noteq> [] \<and> action_value r \<noteq> action_value action"
  shows "dget (eval_lifecycle action (evaluate_action packet action)) ''target_refs'' = PList []"
proof -
  have "filter (ref_matches action) (mappings (as_list (dget packet ''existing_memory_refs''))) = []"
    using assms unfolding filter_empty_conv ref_matches_def by blast
  then show ?thesis by (simp add: eval_lifecycle_def lifecycle_of_def Let_def eval_simps existing_matches_def)
qed

section \<open>Properties\<close>

text \<open>
  The plan built from any packet passes the module's own validator, except for the one issue of a policy version
  that is only white space; and it always passes the semantic conformance check.
\<close>

theorem built_plan_validates:
  "validate_tier2_decision_plan (build_tier2_decision_plan packet) =
     (if policy_version_of packet = [] then [''missing:policy_version''] else []) \<and>
   semantic_conformance_issues (build_tier2_decision_plan packet) = []"
proof
  let ?p = "build_tier2_decision_plan packet"
  have fields: "dget ?p ''schema'' = PStr TIER2_DECISION_PLAN_SCHEMA"
    "strip_text (dget ?p ''policy_version'') = policy_version_of packet" "is_list (dget ?p ''decisions'')"
    "strip_text (dget ?p ''input_fingerprint'') \<noteq> []" "strip_text (dget ?p ''decision_plan_id'') \<noteq> []"
    by (simp_all add: build_tier2_decision_plan_def Let_def policy_version_of_def hash_json_def is_space_def strip_text_visible)
  have "enumerated decision_issues (map PDict (plan_decisions packet)) = []"
    using decision_valid by (intro enumerated_Nil) (auto elim!: plan_decision_of)
  then show "validate_tier2_decision_plan ?p =
      (if policy_version_of packet = [] then [''missing:policy_version''] else [])"
    using fields by (simp add: validate_tier2_decision_plan_def plan_decisions_shape)
  show "semantic_conformance_issues ?p = []"
    unfolding semantic_conformance_issues_def plan_decisions_shape
    using decision_conforms by (intro enumerated_Nil) (auto elim!: plan_decision_of)
qed


text \<open>
  An action is rejected exactly when the assistant authored its source or a cited span belongs to another scope; a
  rejected decision is never truth-eligible, demands no receipt and plans no change.
\<close>

theorem rejected_exactly_assistant_or_foreign:
  assumes "d \<in> set (mappings (as_list (dget (build_tier2_decision_plan packet) ''decisions'')))"
  shows "(dget d ''decision_class'' = PStr ''reject'' \<longleftrightarrow>
      assistant_authored (as_mapping (dget d ''source'')) \<or>
      PStr ''REJECTED_SCOPE_MISMATCH'' \<in> set (as_list (dget (as_mapping (dget d ''trace'')) ''blocked_by''))) \<and>
    (dget d ''decision_class'' = PStr ''reject'' \<longrightarrow>
      \<not> decision_truth d \<and> decision_blocked d \<and>
      dget (as_mapping (dget d ''receipt_requirement'')) ''required'' = PBool False \<and>
      dget (as_mapping (dget d ''lifecycle'')) ''action'' = PStr ''reject'')"
proof -
  obtain fp i action where act: "action \<in> set (plan_actions packet)" and d: "d = decision_of packet fp i action"
    using assms unfolding plan_decisions_shape(2) by (rule plan_decision_of)
  let ?e = "evaluate_action packet action"
  have iff: "dget d ''decision_class'' = PStr ''reject'' \<longleftrightarrow>
      assistant_authored (as_mapping (dget d ''source'')) \<or>
      PStr ''REJECTED_SCOPE_MISMATCH'' \<in> set (as_list (dget (as_mapping (dget d ''trace'')) ''blocked_by''))"
    using reject_iff [of packet action] by (auto simp: d decision_fields)
  moreover have "\<not> decision_truth d \<and> decision_blocked d \<and>
      dget (as_mapping (dget d ''receipt_requirement'')) ''required'' = PBool False \<and>
      dget (as_mapping (dget d ''lifecycle'')) ''action'' = PStr ''reject''" if "dget d ''decision_class'' = PStr ''reject''"
  proof -
    have c: "te_class ?e = ''reject''" using that by (simp add: d decision_fields)
    have "te_blocked_by ?e \<noteq> []" using c reject_iff [of packet action] assistant_marker [of packet action] by force
    then show ?thesis
      unfolding d decision_truth_iff decision_blocked_iff
      by (simp add: decision_fields c candidate_classes_def receipt_requirement_of_def receipt_dict_def
          eval_lifecycle_def lifecycle_of_def Let_def)
  qed
  ultimately show ?thesis by blast
qed

text \<open>
  The summary accounts for every action: one decision each, no unsupported class, as many assistant attempts as there
  are assistant-authored actions, and the blocked and the truth-eligible decisions are disjoint.
\<close>

theorem plan_summary_accounts:
  "length (mappings (as_list (dget (build_tier2_decision_plan packet) ''decisions''))) = length (plan_actions packet) \<and>
   dget (as_mapping (dget (build_tier2_decision_plan packet) ''critical_counters'')) ''unsupported_decision_class'' = PInt 0 \<and>
   dget (as_mapping (dget (build_tier2_decision_plan packet) ''critical_counters'')) ''assistant_truth_attempt'' =
     PInt (int (length (filter (\<lambda>a. assistant_authored (fst (action_source a (source_index packet)))) (plan_actions packet)))) \<and>
   (\<exists>b t. dget (as_mapping (dget (build_tier2_decision_plan packet) ''trace_summary'')) ''blocked_count'' = PInt b \<and>
      dget (as_mapping (dget (build_tier2_decision_plan packet) ''trace_summary'')) ''truth_candidate_count'' = PInt t \<and>
      b + t \<le> int (length (plan_actions packet)))"
proof -
  have z: "filter (\<lambda>ev. te_raw_class ev \<notin> set DECISION_CLASSES) (map (evaluate_action packet) xs) = []" for xs
    by (induction xs) (simp_all add: eval_simps(5) class_known)
  have a: "length (filter (\<lambda>ev. ''REJECTED_ASSISTANT_AUTHORED_TRUTH_ATTEMPT'' \<in> set (te_blocked_by ev)) (map (evaluate_action packet) xs))
      = length (filter (\<lambda>a. assistant_authored (fst (action_source a (source_index packet)))) xs)" for xs
    by (induction xs) (simp_all add: assistant_marker eval_simps(1))
  have "tc_unsupported_decision_class (plan_counters packet) = 0"
    "tc_assistant_truth_attempt (plan_counters packet) =
       length (filter (\<lambda>a. assistant_authored (fst (action_source a (source_index packet)))) (plan_actions packet))"
    unfolding plan_counters_def fold_count z a by simp_all
  moreover have "int (length (filter decision_blocked (plan_decisions packet))) + int (length (filter decision_truth (plan_decisions packet)))
      \<le> int (length (plan_actions packet))"
    using blocked_or_truth [of packet] length_plan_decisions [of packet] by linarith
  ultimately show ?thesis
    unfolding plan_decisions_shape(2)
    by (simp add: length_plan_decisions build_tier2_decision_plan_def Let_def counters_dict_def)
qed

section \<open>A concrete packet\<close>

definition sample_action :: pydict where
  "sample_action =
    [(''proposal_id'', PStr ''p1''), (''action'', PStr ''create''), (''target_kind'', PStr ''user_fact''),
     (''target_slot'', PStr ''name''), (''value_fingerprint'', PStr ''v''), (''source_span_ids'', PList [PStr ''s1''])]"

definition sample_quote :: pydict where
  "sample_quote = [(''target_kind'', PStr ''user_fact''), (''source_span_ids'', PList [PStr ''s2''])]"

definition sample_packet :: pydict where
  "sample_packet =
    [(''proposal_batch'', PDict [(''actions'', PList [PDict sample_action, PDict sample_quote])]),
     (''verified_source_spans'', PList
       [PDict [(''source_span_id'', PStr ''s1''), (''source_event_id'', PStr ''e1''), (''speaker'', PStr ''user'')],
        PDict [(''source_span_id'', PStr ''s2''), (''source_event_id'', PStr ''e2''), (''speaker'', PStr ''assistant'')]])]"

lemma sample_index:
  "source_index sample_packet =
    [(''s1'', [(''source_span_id'', PStr ''s1''), (''source_event_id'', PStr ''e1''), (''speaker'', PStr ''user'')]),
     (''s2'', [(''source_span_id'', PStr ''s2''), (''source_event_id'', PStr ''e2''), (''speaker'', PStr ''assistant'')])]"
  by (simp add: source_index_def sample_packet_def index_span_def Let_def text_eval)

lemma lower_samples: "py_lower ''user'' = ''user''" "py_lower ''assistant'' = ''assistant''" "py_lower ''user_fact'' = ''user_fact''"
  "py_lower ''create'' = ''create''"
  by code_simp+

lemma sample_sources:
  "action_source sample_action (source_index sample_packet) =
     ([(''source_event_ids'', PList [PStr ''e1'']), (''source_span_ids'', PList [PStr ''s1'']),
       (''assertion_speaker'', PStr ''user''), (''source_modality'', PStr ''conversation'')], [])"
  "fst (action_source sample_quote (source_index sample_packet)) =
     [(''source_event_ids'', PList [PStr ''e2'']), (''source_span_ids'', PList [PStr ''s2'']),
       (''assertion_speaker'', PStr ''assistant''), (''source_modality'', PStr ''conversation'')]"
  by (simp_all add: action_source_def Let_def sample_index sample_action_def sample_quote_def texts_def first_span_def
      span_of_def assertion_speaker_def action_event_ids_def text_eval lower_samples)

lemma sample_classes:
  "te_class (evaluate_action sample_packet sample_action) = ''durable_fact_candidate''"
  "te_class (evaluate_action sample_packet sample_quote) = ''reject''"
proof -
  have k: "memory_kind_of sample_action = ''profile_fact''"
    by (simp add: memory_kind_of_def TARGET_KIND_TO_MEMORY_KIND_def sample_action_def text_eval lower_samples)
  have b: "action_blockers (scope_of sample_packet) (source_index sample_packet) sample_action = []"
    by (simp add: action_blockers_def sample_sources scope_blockers_def k Let_def) (simp add: sample_index span_of_def text_eval)
  have "existing_matches sample_packet sample_action = []" "\<not> has_conflict sample_packet sample_action"
    by (simp_all add: existing_matches_def has_conflict_def sample_packet_def)
  with k b show "te_class (evaluate_action sample_packet sample_action) = ''durable_fact_candidate''"
    by (simp add: evaluate_action_def Let_def raw_class_known sample_sources authority_of_def text_eval lower_samples
        ASSISTANT_SPEAKERS_def TRUTH_AUTHORITY_SPEAKERS_def decision_class_of_def raw_action_of_def dget_authority_dict
        DECISION_CLASSES_def LIFECYCLE_ACTIONS_def) (simp add: sample_action_def text_eval lower_samples)
  show "te_class (evaluate_action sample_packet sample_quote) = ''reject''"
    unfolding reject_iff by (simp add: eval_simps(1) sample_sources assistant_authored_def text_eval lower_samples ASSISTANT_SPEAKERS_def)
qed

lemma sample_decisions:
  "plan_decisions sample_packet =
     [decision_of sample_packet (hash_json (PDict sample_packet) 32) 0 sample_action,
      decision_of sample_packet (hash_json (PDict sample_packet) 32) 1 sample_quote]"
proof -
  have "plan_actions sample_packet = [sample_action, sample_quote]" by (simp add: plan_actions_def sample_packet_def)
  then show ?thesis by (simp add: plan_decisions_def upt_rec)
qed


theorem rejected_exactly_assistant_or_foreign_witness:
  "\<exists>d. dget d ''decision_class'' = PStr ''reject'' \<and> \<not> decision_truth d \<and>
     d \<in> set (mappings (as_list (dget (build_tier2_decision_plan sample_packet) ''decisions'')))"
proof -
  let ?d = "decision_of sample_packet (hash_json (PDict sample_packet) 32) 1 sample_quote"
  have m: "?d \<in> set (mappings (as_list (dget (build_tier2_decision_plan sample_packet) ''decisions'')))"
    unfolding plan_decisions_shape(2) by (simp add: sample_decisions)
  moreover have "dget ?d ''decision_class'' = PStr ''reject''" by (simp add: decision_fields sample_classes)
  ultimately show ?thesis using rejected_exactly_assistant_or_foreign [OF m] by blast
qed

end
