(* ===== verification/Continuation.thy ===== *)
theory Continuation
  imports PyHash
begin

text \<open>
  What the modules of the continuation extension (\<open>extensions/hermes_continuation\<close>) share: the helpers
  \<open>_refs\<close>, \<open>_items\<close>, \<open>_bool\<close> and the slices and sorted reason sets of their reports. The lenient
  boolean \<open>_bool\<close> is \<open>lenient_bool\<close> of the prelude, \<open>_items\<close> and \<open>_list_of_mappings\<close> are \<open>items\<close>.
\<close>

definition items :: "pyval \<Rightarrow> pydict list" where
  "items v = mappings (as_list v)"

text \<open>\<open>sorted({str(item).strip() for item in value if str(item).strip()})\<close>\<close>

definition refs :: "pyval \<Rightarrow> string list" where
  "refs v = sorted_set (filter (\<lambda>t. t \<noteq> []) (map (\<lambda>x. py_strip (py_str x)) (as_list v)))"

definition str_list :: "string list \<Rightarrow> pyval" where
  "str_list xs = PList (map PStr xs)"

text \<open>\<open>text or fallback\<close> on strings, and \<open>xs[:n]\<close> with a signed bound.\<close>

definition or_text :: "string \<Rightarrow> string \<Rightarrow> string" where
  "or_text s d = (if s = [] then d else s)"

definition py_slice_to :: "int \<Rightarrow> 'a list \<Rightarrow> 'a list" where
  "py_slice_to n xs = take (nat (if n < 0 then int (length xs) + n else n)) xs"

text \<open>\<open>len(value)\<close>\<close>

fun py_len :: "pyval \<Rightarrow> nat result" where
  "py_len (PStr s) = Inr (length s)"
| "py_len (PList xs) = Inr (length xs)"
| "py_len (PDict d) = Inr (length d)"
| "py_len _ = Inl TypeError"

section \<open>Lemmas\<close>

lemma py_strip_word: "is_word w \<Longrightarrow> py_strip w = w"
  by (metis strip_text_PStr strip_text_word)

lemma strip_or: "t \<noteq> [] \<Longrightarrow> py_strip t = t \<Longrightarrow> strip_text (py_or (PStr t) v) = t"
  by (cases t) (simp_all add: strip_text_PStr)

lemma strip_text_stripped: "py_strip (strip_text v) = strip_text v"
  by (metis strip_text_PStr strip_text_idem)

lemma items_Nil [simp]: "items (PList []) = []" "items PNone = []"
  by (simp_all add: items_def)

lemma sorted_set_props: "sorted (sorted_set xs)" "distinct (sorted_set xs)"
  by (simp_all add: sorted_set_def)

lemma sorted_set_id: "sorted xs \<Longrightarrow> distinct xs \<Longrightarrow> sorted_set xs = xs"
  by (simp add: sorted_set_def distinct_remdups_id sorted_sort_id)

lemma refs_PNone [simp]: "refs PNone = []"
  by (simp add: refs_def)

lemma refs_props:
  "sorted (refs v)" "distinct (refs v)" "t \<in> set (refs v) \<Longrightarrow> t \<noteq> []" "t \<in> set (refs v) \<Longrightarrow> py_strip t = t"
  by (auto simp: refs_def sorted_set_props)

lemma refs_str_list:
  assumes "sorted xs" and "distinct xs" and "\<And>t. t \<in> set xs \<Longrightarrow> t \<noteq> [] \<and> py_strip t = t"
  shows "refs (str_list xs) = xs"
proof -
  have "map (\<lambda>x. py_strip (py_str x)) (map PStr xs) = xs"
    using assms(3) by (simp add: map_idI)
  moreover have "filter (\<lambda>t. t \<noteq> []) xs = xs" using assms(3) by (simp add: filter_id_conv)
  ultimately show ?thesis using assms(1,2) by (simp add: refs_def str_list_def sorted_set_id del: map_map)
qed

text \<open>What a report keeps of a reference list is read back unchanged.\<close>

lemma refs_take_refs: "refs (str_list (take n (refs v))) = take n (refs v)"
  by (rule refs_str_list) (use refs_props(3) in \<open>auto simp: refs_props(1,2,4) sorted_wrt_take dest!: in_set_takeD\<close>)

lemma refs_str_list_Nil [simp]: "refs (str_list []) = []"
  by (simp add: refs_def str_list_def sorted_set_def)

lemma or_text_simps [simp]: "or_text [] d = d" "s \<noteq> [] \<Longrightarrow> or_text s d = s" "or_text s d = [] \<longleftrightarrow> s = [] \<and> d = []"
  by (auto simp: or_text_def)

end
