(* ===== verification/WorkGraph.thy ===== *)
theory WorkGraph
  imports Continuation
begin

text \<open>
  \<open>hermes_continuation/work_graph.py\<close>: validation of a continuation work graph, a dictionary of nodes and
  edges. The reason codes are a list the code appends to and finally sorts without duplicates; sets of
  node identifiers are the sorted lists of their elements, since only membership and size are used.
\<close>

definition GRAPH_TERMINAL_STATES :: "string list" where
  "GRAPH_TERMINAL_STATES = [''done'', ''completed'']"

definition RUNNABLE_STATES :: "string list" where
  "RUNNABLE_STATES = [''ready'', ''todo'']"

definition BLOCKED_STATES :: "string list" where
  "BLOCKED_STATES = [''blocked'', ''failed'', ''crashed'', ''timed_out'', ''timeout'']"

definition ALLOWED_FANIN_DECISIONS :: "string list" where
  "ALLOWED_FANIN_DECISIONS = [''next_frontier_created'', ''human_gate'', ''intentional_stop'', ''recovery_needed'']"

definition node_id :: "pydict \<Rightarrow> string" where
  "node_id node = strip_text (py_or (dget node ''node_id'') (dget node ''id''))"

definition node_status :: "pydict \<Rightarrow> string" where
  "node_status node = py_lower (strip_text (py_or (dget node ''status'') (dget node ''state'')))"

definition node_artifacts :: "pydict \<Rightarrow> string list" where
  "node_artifacts node = refs (py_or (dget node ''artifact_refs'') (dget node ''artifacts''))"

definition has_explicit_terminal_reason :: "pydict \<Rightarrow> bool" where
  "has_explicit_terminal_reason graph \<longleftrightarrow>
     py_lower (strip_text (dget graph ''state'')) \<in> {''gated'', ''stopped'', ''stopped_intentionally'', ''recovery_needed''} \<or>
     strip_text (py_or (dget graph ''terminal_reason'') (dget graph ''fanout_terminal_reason'')) \<noteq> []"

definition edge_type :: "pydict \<Rightarrow> string" where
  "edge_type edge = strip_text (dget edge ''edge_type'')"

definition from_node :: "pydict \<Rightarrow> string" where
  "from_node edge = strip_text (dget edge ''from_node'')"

definition to_node :: "pydict \<Rightarrow> string" where
  "to_node edge = strip_text (dget edge ''to_node'')"

definition graph_nodes :: "pydict \<Rightarrow> pydict list" where
  "graph_nodes graph = items (dget graph ''nodes'')"

definition graph_edges :: "pydict \<Rightarrow> pydict list" where
  "graph_edges graph = items (dget graph ''edges'')"

definition edges_of_type :: "string \<Rightarrow> pydict \<Rightarrow> pydict list" where
  "edges_of_type t graph = filter (\<lambda>e. edge_type e = t) (graph_edges graph)"

text \<open>\<open>nodes_by_id\<close>: a dictionary comprehension, so the last node of an identifier counts.\<close>

definition node_of :: "pydict \<Rightarrow> string \<Rightarrow> pydict option" where
  "node_of graph i = map_of (rev (map (\<lambda>n. (node_id n, n)) (filter (\<lambda>n. node_id n \<noteq> []) (graph_nodes graph)))) i"

definition fan_in_ids :: "pydict \<Rightarrow> string list" where
  "fan_in_ids graph =
     sorted_set (refs (dget graph ''fan_in_nodes'') @
       map node_id (filter (\<lambda>n. strip_text (py_or (dget n ''node_type'') (dget n ''type'')) \<in> {''fan_in'', ''fanin''})
         (graph_nodes graph)))"

definition edge_reasons :: "pydict \<Rightarrow> pydict \<Rightarrow> string list" where
  "edge_reasons graph edge =
     (if from_node edge \<noteq> [] \<and> node_of graph (from_node edge) = None then [''EDGE_FROM_NODE_MISSING''] else []) @
     (if to_node edge \<noteq> [] \<and> node_of graph (to_node edge) = None then [''EDGE_TO_NODE_MISSING''] else []) @
     (if edge_type edge \<in> {''fanout'', ''fanin'', ''repair''} \<and> strip_text (dget edge ''idempotency_key'') = []
      then [''EDGE_IDEMPOTENCY_KEY_MISSING''] else [])"

definition node_reasons :: "pydict \<Rightarrow> pydict \<Rightarrow> string list" where
  "node_reasons graph node =
     (if node_status node \<in> set GRAPH_TERMINAL_STATES \<and> node_artifacts node = [] \<and>
         node_id node \<notin> set (fan_in_ids graph)
      then [''DONE_NODE_MISSING_ARTIFACT''] else []) @
     (if node_status node \<in> set RUNNABLE_STATES \<and> refs (dget node ''blocked_by'') \<noteq> []
      then [''PARENT_BLOCKED_TODO_NOT_ACTIONABLE''] else [])"

definition actionable :: "pydict \<Rightarrow> bool" where
  "actionable node \<longleftrightarrow> node_status node \<in> set RUNNABLE_STATES \<and> refs (dget node ''blocked_by'') = []"

definition fanin_decision :: "pydict \<Rightarrow> string" where
  "fanin_decision node = strip_text (py_or (dget node ''decision'') (dget node ''fan_in_decision''))"

definition required_parents :: "pydict \<Rightarrow> string \<Rightarrow> pydict \<Rightarrow> string list" where
  "required_parents graph fanin_id node =
     (let required = refs (py_or (dget node ''required_parent_nodes'') (dget node ''parents'')) in
      if required \<noteq> [] then required
      else sort (map from_node (filter (\<lambda>e. to_node e = fanin_id) (edges_of_type ''fanin'' graph))))"

definition has_repair :: "pydict \<Rightarrow> string \<Rightarrow> bool" where
  "has_repair graph i \<longleftrightarrow>
     list_ex (\<lambda>e. from_node e = i) (edges_of_type ''repair'' graph) \<or>
     list_ex (\<lambda>n. strip_text (dget n ''repair_of'') = i) (graph_nodes graph)"

definition parent_reasons :: "pydict \<Rightarrow> string \<Rightarrow> string \<Rightarrow> string list" where
  "parent_reasons graph decision parent_id =
     (case node_of graph parent_id of
        None \<Rightarrow> [''FANIN_PARENT_MISSING'']
      | Some parent \<Rightarrow>
          (if node_status parent \<in> set GRAPH_TERMINAL_STATES \<and> node_artifacts parent = []
           then [''FANIN_PARENT_PROOF_MISSING''] else []) @
          (if node_status parent \<in> set BLOCKED_STATES \<and> \<not> has_repair graph parent_id \<and> decision \<noteq> ''recovery_needed''
           then [''BLOCKED_PARENT_WITHOUT_REPAIR''] else []))"

definition fanin_reasons :: "pydict \<Rightarrow> string \<Rightarrow> string list" where
  "fanin_reasons graph fanin_id =
     (case node_of graph fanin_id of
        None \<Rightarrow> [''FANIN_NODE_MISSING'']
      | Some node \<Rightarrow>
          (if node_status node \<in> set GRAPH_TERMINAL_STATES \<and> fanin_decision node \<notin> set ALLOWED_FANIN_DECISIONS
           then [''FANIN_MISSING_ALLOWED_DECISION''] else []) @
          concat (map (parent_reasons graph (fanin_decision node)) (required_parents graph fanin_id node)))"

definition graph_reasons :: "pydict \<Rightarrow> string list" where
  "graph_reasons graph =
     (if lenient_bool (dget graph ''private_payload_present'') then [''PRIVATE_PAYLOAD_PRESENT''] else []) @
     (if edges_of_type ''fanout'' graph \<noteq> [] \<and> fan_in_ids graph = [] \<and> \<not> has_explicit_terminal_reason graph
      then [''FANOUT_WITHOUT_FANIN''] else []) @
     concat (map (edge_reasons graph) (graph_edges graph)) @
     concat (map (node_reasons graph) (graph_nodes graph)) @
     concat (map (fanin_reasons graph) (fan_in_ids graph)) @
     (if lenient_bool (dget graph ''work_graph_mutates_kanban'') then [''WORK_GRAPH_MUTATES_KANBAN''] else [])"

definition CRITICAL_GRAPH_REASONS :: "string list" where
  "CRITICAL_GRAPH_REASONS =
    [''PRIVATE_PAYLOAD_PRESENT'', ''FANOUT_WITHOUT_FANIN'', ''FANIN_MISSING_ALLOWED_DECISION'', ''DONE_NODE_MISSING_ARTIFACT'',
     ''FANIN_PARENT_PROOF_MISSING'', ''FANIN_NODE_MISSING'', ''FANIN_PARENT_MISSING'', ''WORK_GRAPH_MUTATES_KANBAN'']"

definition graph_verdict :: "string list \<Rightarrow> string" where
  "graph_verdict reasons =
     (if list_ex (\<lambda>r. r \<in> set CRITICAL_GRAPH_REASONS) reasons then ''critical''
      else if reasons \<noteq> [] then ''degraded'' else ''healthy'')"

definition repair_targets :: "pydict \<Rightarrow> string list" where
  "repair_targets graph =
     sorted_set (filter (\<lambda>t. t \<noteq> [])
       (map from_node (edges_of_type ''repair'' graph) @ map (\<lambda>n. strip_text (dget n ''repair_of'')) (graph_nodes graph)))"

definition validate_work_graph :: "pydict \<Rightarrow> pydict result" where
  "validate_work_graph graph =
     (let reasons = graph_reasons graph; verdict = graph_verdict reasons in
      map_sum id (\<lambda>generation.
       [(''schema'', PStr ''hermes_continuation.work_graph_contract.v1''),
        (''read_only'', PBool True),
        (''side_effect_free'', PBool True),
        (''public_safe'', PBool (\<not> lenient_bool (dget graph ''private_payload_present''))),
        (''verdict'', PStr verdict),
        (''graph_id'', PStr (or_text (strip_text (dget graph ''graph_id'')) ''unknown'')),
        (''generation'', PInt generation),
        (''node_count'', PInt (int (length (graph_nodes graph)))),
        (''edge_count'', PInt (int (length (graph_edges graph)))),
        (''fan_in_count'', PInt (int (length (fan_in_ids graph)))),
        (''fanout_edge_count'', PInt (int (length (edges_of_type ''fanout'' graph)))),
        (''repair_branch_count'', PInt (int (length (repair_targets graph)))),
        (''actionable_frontier_count'', PInt (int (length (filter actionable (graph_nodes graph))))),
        (''reason_codes'', str_list (sorted_set (if verdict = ''healthy'' then [''WORK_GRAPH_VALID''] else reasons))),
        (''agent_claim'', PStr (''work_graph_'' @ verdict))])
      (py_int (py_or (dget graph ''generation'') (PInt 0))))"

section \<open>Lemmas\<close>

lemma edges_of_type_iff: "e \<in> set (edges_of_type t graph) \<longleftrightarrow> e \<in> set (graph_edges graph) \<and> edge_type e = t"
  by (auto simp: edges_of_type_def)

lemma node_of_None_iff: "i \<noteq> [] \<Longrightarrow> node_of graph i = None \<longleftrightarrow> (\<forall>n \<in> set (graph_nodes graph). node_id n \<noteq> i)"
  by (simp add: node_of_def map_of_eq_None_iff image_image) (auto simp: image_iff)

lemma node_of_SomeD: "node_of graph i = Some n \<Longrightarrow> n \<in> set (graph_nodes graph) \<and> node_id n = i \<and> i \<noteq> []"
  unfolding node_of_def by (drule map_of_SomeD) auto

lemma set_required_parents:
  "set (required_parents graph i node) =
     (let required = set (refs (py_or (dget node ''required_parent_nodes'') (dget node ''parents''))) in
      if required \<noteq> {} then required
      else {from_node e | e. e \<in> set (graph_edges graph) \<and> edge_type e = ''fanin'' \<and> to_node e = i})"
  by (auto simp: required_parents_def Let_def edges_of_type_def)

lemma has_repair_iff:
  "has_repair graph i \<longleftrightarrow>
     (\<exists>e \<in> set (graph_edges graph). edge_type e = ''repair'' \<and> from_node e = i) \<or>
     (\<exists>n \<in> set (graph_nodes graph). strip_text (dget n ''repair_of'') = i)"
  by (auto simp: has_repair_def list_ex_iff edges_of_type_def)

section \<open>What a sound graph is\<close>

text \<open>
  The specification, in terms of the relation of nodes and edges and without reason codes: endpoints exist,
  typed edges are keyed, what is done has proof, what is runnable is not blocked, a fan-out is joined or
  ended, and a join exists, decided, with proven or repaired parents.
\<close>

definition endpoint_ok :: "pydict \<Rightarrow> string \<Rightarrow> bool" where
  "endpoint_ok graph i \<longleftrightarrow> i = [] \<or> (\<exists>n \<in> set (graph_nodes graph). node_id n = i)"

definition parent_ok :: "pydict \<Rightarrow> string \<Rightarrow> string \<Rightarrow> bool" where
  "parent_ok graph decision i \<longleftrightarrow>
     (\<exists>p. node_of graph i = Some p \<and>
        (node_status p \<in> set GRAPH_TERMINAL_STATES \<longrightarrow> node_artifacts p \<noteq> []) \<and>
        (node_status p \<in> set BLOCKED_STATES \<longrightarrow> has_repair graph i \<or> decision = ''recovery_needed''))"

definition join_ok :: "pydict \<Rightarrow> string \<Rightarrow> bool" where
  "join_ok graph i \<longleftrightarrow>
     (\<exists>n. node_of graph i = Some n \<and>
        (node_status n \<in> set GRAPH_TERMINAL_STATES \<longrightarrow> fanin_decision n \<in> set ALLOWED_FANIN_DECISIONS) \<and>
        (\<forall>p \<in> set (required_parents graph i n). parent_ok graph (fanin_decision n) p))"

definition graph_sound :: "pydict \<Rightarrow> bool" where
  "graph_sound graph \<longleftrightarrow>
     \<not> lenient_bool (dget graph ''private_payload_present'') \<and> \<not> lenient_bool (dget graph ''work_graph_mutates_kanban'') \<and>
     ((\<exists>e \<in> set (graph_edges graph). edge_type e = ''fanout'') \<longrightarrow> fan_in_ids graph \<noteq> [] \<or> has_explicit_terminal_reason graph) \<and>
     (\<forall>e \<in> set (graph_edges graph). endpoint_ok graph (from_node e) \<and> endpoint_ok graph (to_node e) \<and>
        (edge_type e \<in> {''fanout'', ''fanin'', ''repair''} \<longrightarrow> strip_text (dget e ''idempotency_key'') \<noteq> [])) \<and>
     (\<forall>n \<in> set (graph_nodes graph).
        (node_status n \<in> set GRAPH_TERMINAL_STATES \<longrightarrow> node_artifacts n \<noteq> [] \<or> node_id n \<in> set (fan_in_ids graph)) \<and>
        (node_status n \<in> set RUNNABLE_STATES \<longrightarrow> refs (dget n ''blocked_by'') = [])) \<and>
     (\<forall>i \<in> set (fan_in_ids graph). join_ok graph i)"

lemma edge_reasons_Nil:
  "edge_reasons graph e = [] \<longleftrightarrow> endpoint_ok graph (from_node e) \<and> endpoint_ok graph (to_node e) \<and>
     (edge_type e \<in> {''fanout'', ''fanin'', ''repair''} \<longrightarrow> strip_text (dget e ''idempotency_key'') \<noteq> [])"
proof -
  have "endpoint_ok graph i \<longleftrightarrow> \<not> (i \<noteq> [] \<and> node_of graph i = None)" for i
    using node_of_None_iff [of i graph] by (cases "i = []") (auto simp: endpoint_ok_def)
  then show ?thesis unfolding edge_reasons_def by (simp split: if_split)
qed

lemma node_reasons_Nil:
  "node_reasons graph n = [] \<longleftrightarrow>
     (node_status n \<in> set GRAPH_TERMINAL_STATES \<longrightarrow> node_artifacts n \<noteq> [] \<or> node_id n \<in> set (fan_in_ids graph)) \<and>
     (node_status n \<in> set RUNNABLE_STATES \<longrightarrow> refs (dget n ''blocked_by'') = [])"
  unfolding node_reasons_def by (simp split: if_split)

lemma parent_reasons_Nil: "parent_reasons graph decision i = [] \<longleftrightarrow> parent_ok graph decision i"
  unfolding parent_reasons_def parent_ok_def by (auto split: option.split)

lemma fanin_reasons_Nil: "fanin_reasons graph i = [] \<longleftrightarrow> join_ok graph i"
  unfolding fanin_reasons_def join_ok_def by (auto simp: parent_reasons_Nil split: option.split)

lemma graph_reasons_Nil: "graph_reasons graph = [] \<longleftrightarrow> graph_sound graph"
proof -
  have "edges_of_type ''fanout'' graph \<noteq> [] \<longleftrightarrow> (\<exists>e \<in> set (graph_edges graph). edge_type e = ''fanout'')"
    by (auto simp: edges_of_type_def filter_empty_conv)
  then show ?thesis
    unfolding graph_reasons_def graph_sound_def
    by (simp only: append_is_Nil_conv concat_eq_Nil_conv set_map ball_simps edge_reasons_Nil node_reasons_Nil fanin_reasons_Nil
        if_split_eq1 list.distinct simp_thms) blast
qed

section \<open>Properties\<close>

text \<open>
  C39: the validator decides soundness: a report is healthy exactly for a sound graph, critical exactly when a
  critical reason was found and degraded otherwise; a healthy report has the one reason that says so, it
  is public-safe, and everything its frontier counts is runnable without a blocker.
\<close>

theorem healthy_iff_graph_sound:
  assumes "validate_work_graph graph = Inr r"
  shows "(dget r ''verdict'' = PStr ''healthy'' \<longleftrightarrow> graph_sound graph) \<and>
    (dget r ''verdict'' = PStr ''critical'' \<longleftrightarrow> set (graph_reasons graph) \<inter> set CRITICAL_GRAPH_REASONS \<noteq> {}) \<and>
    (graph_sound graph \<longrightarrow> dget r ''reason_codes'' = str_list [''WORK_GRAPH_VALID''] \<and> dget r ''public_safe'' = PBool True \<and>
       dget r ''actionable_frontier_count'' =
         PInt (int (length (filter (\<lambda>n. node_status n \<in> set RUNNABLE_STATES) (graph_nodes graph)))))"
proof -
  obtain gen where r: "dget r ''verdict'' = PStr (graph_verdict (graph_reasons graph))"
    "dget r ''reason_codes'' =
       str_list (sorted_set (if graph_verdict (graph_reasons graph) = ''healthy'' then [''WORK_GRAPH_VALID''] else graph_reasons graph))"
    "dget r ''public_safe'' = PBool (\<not> lenient_bool (dget graph ''private_payload_present''))"
    "dget r ''actionable_frontier_count'' = PInt (int (length (filter actionable (graph_nodes graph))))"
    using assms by (cases "py_int (py_or (dget graph ''generation'') (PInt 0))") (auto simp: validate_work_graph_def Let_def)
  have v: "graph_verdict rs = ''healthy'' \<longleftrightarrow> rs = []" "graph_verdict rs = ''critical'' \<longleftrightarrow> set rs \<inter> set CRITICAL_GRAPH_REASONS \<noteq> {}" for rs
    unfolding graph_verdict_def by (auto simp: list_ex_iff)
  have f: "filter actionable (graph_nodes graph) = filter (\<lambda>n. node_status n \<in> set RUNNABLE_STATES) (graph_nodes graph)"
    if "graph_sound graph"
    using that by (intro filter_cong) (auto simp: actionable_def graph_sound_def)
  have "sorted_set [''WORK_GRAPH_VALID''] = [''WORK_GRAPH_VALID'']" by (simp add: sorted_set_def)
  then show ?thesis
    using f by (simp add: r v graph_reasons_Nil) (simp add: graph_sound_def)
qed

definition sample_graph :: pydict where
  "sample_graph =
    [(''nodes'', PList [PDict [(''node_id'', PStr ''a''), (''status'', PStr ''done''), (''artifact_refs'', PList [PStr ''x''])],
                        PDict [(''node_id'', PStr ''j''), (''status'', PStr ''todo'')]]),
     (''edges'', PList [PDict [(''edge_type'', PStr ''fanin''), (''from_node'', PStr ''a''), (''to_node'', PStr ''j''),
                               (''idempotency_key'', PStr ''k'')]]),
     (''fan_in_nodes'', PList [PStr ''j''])]"

lemma sample_graph_parts:
  "graph_nodes sample_graph =
     [[(''node_id'', PStr ''a''), (''status'', PStr ''done''), (''artifact_refs'', PList [PStr ''x''])],
      [(''node_id'', PStr ''j''), (''status'', PStr ''todo'')]]"
  "graph_edges sample_graph =
     [[(''edge_type'', PStr ''fanin''), (''from_node'', PStr ''a''), (''to_node'', PStr ''j''), (''idempotency_key'', PStr ''k'')]]"
  "fan_in_ids sample_graph = [''j'']"
  by (simp_all add: graph_nodes_def graph_edges_def items_def sample_graph_def fan_in_ids_def refs_def sorted_set_def
      py_strip_word text_eval)

theorem healthy_iff_graph_sound_witness:
  "\<exists>r. validate_work_graph sample_graph = Inr r \<and> dget r ''verdict'' = PStr ''healthy'' \<and> graph_sound sample_graph"
proof -
  have low: "py_lower ''done'' = ''done''" "py_lower ''todo'' = ''todo''" by code_simp+
  have "graph_reasons sample_graph = []"
    by (simp add: graph_reasons_def sample_graph_parts edges_of_type_def edge_type_def edge_reasons_def from_node_def to_node_def
        node_of_def node_id_def node_reasons_def node_status_def node_artifacts_def fanin_reasons_def required_parents_def
        parent_reasons_def refs_def sorted_set_def py_strip_word text_eval low GRAPH_TERMINAL_STATES_def RUNNABLE_STATES_def
        BLOCKED_STATES_def py_or_def) (simp add: sample_graph_def)
  then have "graph_sound sample_graph" by (simp add: graph_reasons_Nil)
  moreover obtain r where r: "validate_work_graph sample_graph = Inr r"
    by (simp add: validate_work_graph_def sample_graph_def Let_def)
  ultimately show ?thesis using healthy_iff_graph_sound [OF r] by blast
qed

end
