(* ===== verification/WorkState.thy ===== *)
theory WorkState
  imports Continuation
begin

text \<open>
  \<open>hermes_continuation/work_state.py\<close>: the read-only contract on durable work items. What the loop appends for one
  item (reasons, warnings, blockers, repair candidates) is a function of the item; the lists of the contract
  are the concatenations in the order of the items.
\<close>

definition TERMINAL_STATUSES :: "string list" where
  "TERMINAL_STATUSES = [''completed'', ''done'']"

definition BLOCKED_STATUSES :: "string list" where
  "BLOCKED_STATUSES = [''blocked'', ''failed'', ''crashed'', ''timed_out'', ''timeout'']"

definition ACTIVE_STATUSES :: "string list" where
  "ACTIVE_STATUSES = [''todo'', ''ready'', ''in_progress'', ''running'']"

definition repair_candidate :: "string \<Rightarrow> string \<Rightarrow> pydict \<Rightarrow> pydict" where
  "repair_candidate work_item_id failure_class evidence =
    [(''schema'', PStr ''hermes_continuation.durable_work_state.repair_candidate.v1''),
     (''read_only'', PBool True),
     (''side_effect_free'', PBool True),
     (''work_item_id'', PStr work_item_id),
     (''failure_class'', PStr failure_class),
     (''evidence'', PDict evidence),
     (''allowed_actions'', str_list [''diagnose'', ''create_repair_task'', ''request_authority_if_missing'']),
     (''forbidden_actions'', str_list [''auto_ack'', ''auto_complete'', ''auto_retry'', ''auto_reassign'']),
     (''status'', PStr ''repair_candidate'')]"

section \<open>One work item\<close>

definition work_item_id :: "pydict \<Rightarrow> string" where
  "work_item_id item =
     or_text (strip_text (py_or (dget item ''id'') (py_or (dget item ''task_id'') (dget item ''work_item_id'')))) ''unknown-work-item''"

definition work_status :: "pydict \<Rightarrow> string" where
  "work_status item =
     strip_text (py_or (dget item ''status'') (py_or (dget item ''lifecycle_state'') (dget item ''state'')))"

definition work_authority :: "pydict \<Rightarrow> string" where
  "work_authority item = strip_text (py_or (dget item ''authority'') (dget item ''authority_state''))"

definition work_evidence :: "pydict \<Rightarrow> string list" where
  "work_evidence item =
     refs (py_or (dget item ''evidence_refs'') (py_or (dget item ''evidence'') (dget item ''artifact_refs'')))"

definition has_handoff :: "pydict \<Rightarrow> bool" where
  "has_handoff item \<longleftrightarrow> as_mapping (dget item ''handoff'') \<noteq> []"

definition has_repair_path :: "pydict \<Rightarrow> bool" where
  "has_repair_path item \<longleftrightarrow> as_mapping (dget item ''repair'') \<noteq> [] \<or> truthy (dget item ''repair_task_id'')"

definition authority_unknown :: "pydict \<Rightarrow> bool" where
  "authority_unknown item \<longleftrightarrow> work_authority item \<in> {[], ''unknown'', ''missing'', ''unverified''}"

definition early_ack :: "pydict \<Rightarrow> bool" where
  "early_ack item \<longleftrightarrow>
     work_status item \<in> set TERMINAL_STATUSES \<and> lenient_bool (dget item ''acknowledged'') \<and>
     \<not> lenient_bool (dget item ''side_effect_durable'')"

definition stuck_without_repair :: "pydict \<Rightarrow> bool" where
  "stuck_without_repair item \<longleftrightarrow>
     work_status item \<in> set BLOCKED_STATUSES \<and> \<not> has_repair_path item \<and> \<not> has_handoff item"

definition item_blockers :: "pydict \<Rightarrow> string list" where
  "item_blockers item =
     (if authority_unknown item then [''unknown_authority''] else []) @
     (if early_ack item then [''ack_before_durability''] else [])"

definition item_warnings :: "pydict \<Rightarrow> string list" where
  "item_warnings item =
     (if work_status item \<in> set TERMINAL_STATUSES then
        (if work_evidence item = [] then [''completed_without_evidence''] else []) @
        (if \<not> has_handoff item then [''completed_without_handoff''] else [])
      else if work_status item \<in> set BLOCKED_STATUSES then
        (if stuck_without_repair item then [''blocked_without_repair_path''] else [])
      else if work_status item \<in> set ACTIVE_STATUSES then []
      else [''unknown_work_status''])"

definition item_reasons :: "pydict \<Rightarrow> string list" where
  "item_reasons item =
     (if authority_unknown item then [''UNKNOWN_AUTHORITY''] else []) @
     (if work_status item \<in> set TERMINAL_STATUSES then
        (if early_ack item then [''ACK_BEFORE_DURABLE_SIDE_EFFECT''] else []) @
        (if work_evidence item = [] then [''COMPLETED_WITHOUT_EVIDENCE''] else []) @
        (if \<not> has_handoff item then [''COMPLETED_WITHOUT_HANDOFF''] else [])
      else if work_status item \<in> set BLOCKED_STATUSES then
        (if stuck_without_repair item then [''BLOCKED_WITHOUT_REPAIR_PATH''] else [])
      else if work_status item \<in> set ACTIVE_STATUSES then []
      else [''UNKNOWN_WORK_STATUS''])"

definition item_candidates :: "pydict \<Rightarrow> pydict list" where
  "item_candidates item =
     (if authority_unknown item
      then [repair_candidate (work_item_id item) ''unknown_authority''
              [(''authority'', PStr (or_text (work_authority item) ''missing''))]] else []) @
     (if early_ack item
      then [repair_candidate (work_item_id item) ''ack_before_durability''
              [(''status'', PStr (work_status item)), (''acknowledged'', PBool True), (''side_effect_durable'', PBool False)]]
      else []) @
     (if stuck_without_repair item
      then [repair_candidate (work_item_id item) ''blocked_without_repair_path''
              [(''status'', PStr (work_status item)), (''evidence_refs'', str_list (take 5 (work_evidence item)))]] else [])"

definition continuable :: "pydict \<Rightarrow> bool" where
  "continuable item \<longleftrightarrow>
     (if work_status item \<in> set TERMINAL_STATUSES then
        work_evidence item \<noteq> [] \<and> has_handoff item \<and>
        lenient_bool (dget_default item ''side_effect_durable'' (PBool True))
      else if work_status item \<in> set BLOCKED_STATUSES then has_repair_path item \<or> has_handoff item
      else work_status item \<in> set ACTIVE_STATUSES \<and> (work_evidence item \<noteq> [] \<or> has_handoff item))"

section \<open>The contract\<close>

definition explicit_stop :: "pydict \<Rightarrow> bool" where
  "explicit_stop evidence \<longleftrightarrow>
     lenient_bool (dget evidence ''explicit_stop'') \<or> strip_text (dget evidence ''state'') = ''stopped_intentionally''"

definition work_items :: "pydict \<Rightarrow> pydict list" where
  "work_items evidence = items (dget evidence ''work_items'')"

definition status_counts :: "pydict list \<Rightarrow> (string \<times> int) list" where
  "status_counts ws =
     sort_key fst (fold (\<lambda>w. AList.map_default (or_text (work_status w) ''unknown'') 1 (\<lambda>n. n + 1)) ws [])"

definition base_verdict :: "pydict list \<Rightarrow> string" where
  "base_verdict ws =
     (if ws = [] then ''insufficient_evidence''
      else if concat (map item_blockers ws) \<noteq> [] then ''critical''
      else if concat (map item_warnings ws) \<noteq> [] then ''degraded''
      else ''healthy'')"

definition late_continuable :: "pydict list \<Rightarrow> bool" where
  "late_continuable ws \<longleftrightarrow> base_verdict ws \<in> {''healthy'', ''degraded''} \<and> filter continuable ws \<noteq> []"

definition late_gap :: "pydict list \<Rightarrow> bool" where
  "late_gap ws \<longleftrightarrow> \<not> late_continuable ws \<and> ws \<noteq> [] \<and> base_verdict ws \<noteq> ''critical''"

definition work_verdict :: "pydict list \<Rightarrow> string" where
  "work_verdict ws = (if late_gap ws \<and> base_verdict ws = ''healthy'' then ''degraded'' else base_verdict ws)"

definition work_reasons :: "pydict list \<Rightarrow> string list" where
  "work_reasons ws =
     concat (map item_reasons ws) @
     (if ws = [] then [''DURABLE_WORK_INSUFFICIENT_EVIDENCE'']
      else if base_verdict ws = ''healthy'' then [''DURABLE_WORK_STATE_HEALTHY''] else []) @
     (if late_gap ws then [''LATE_PARTICIPANT_NOT_CONTINUABLE''] else [])"

definition build_durable_work_state_contract :: "pydict \<Rightarrow> pydict" where
  "build_durable_work_state_contract evidence =
     (if explicit_stop evidence then
        [(''schema'', PStr ''hermes_continuation.durable_work_state_contract.v1''),
         (''read_only'', PBool True),
         (''side_effect_free'', PBool True),
         (''verdict'', PStr ''stopped_intentionally''),
         (''reason_codes'', str_list [''DURABLE_WORK_STOPPED_INTENTIONALLY'']),
         (''repair_candidates'', PList []),
         (''late_participant_continuable'', PBool True),
         (''status_counts'', PDict []),
         (''agent_claim'', PStr ''durable_work_state_stopped_intentionally'')]
      else (let ws = work_items evidence in
        [(''schema'', PStr ''hermes_continuation.durable_work_state_contract.v1''),
         (''read_only'', PBool True),
         (''side_effect_free'', PBool True),
         (''verdict'', PStr (work_verdict ws)),
         (''reason_codes'', str_list (sorted_set (work_reasons ws))),
         (''blockers'', str_list (sorted_set (concat (map item_blockers ws)))),
         (''warnings'', str_list (sorted_set (concat (map item_warnings ws) @
            (if late_gap ws then [''late_participant_not_continuable''] else [])))),
         (''repair_candidates'', PList (map PDict (take 20 (concat (map item_candidates ws))))),
         (''late_participant_continuable'', PBool (late_continuable ws)),
         (''status_counts'', PDict (map (\<lambda>(s, n). (s, PInt n)) (status_counts ws))),
         (''agent_claim'', PStr (''durable_work_state_'' @ work_verdict ws))]))"

definition durable_work_state_summary :: "pydict \<Rightarrow> pydict result" where
  "durable_work_state_summary contract =
     (case iter_or_empty (dget contract ''reason_codes'') of
        Inl e \<Rightarrow> Inl e
      | Inr reasons \<Rightarrow>
          map_sum id (\<lambda>n.
            [(''schema'', PStr ''brainstack.external_work_state_summary.v1''),
             (''verdict'', PStr (strip_text (dget contract ''verdict''))),
             (''reason_codes'', str_list (filter (\<lambda>t. t \<noteq> []) (map py_str reasons))),
             (''repair_candidate_count'', PInt (int n)),
             (''late_participant_continuable'', PBool (lenient_bool (dget contract ''late_participant_continuable'')))])
            (py_len (py_or (dget contract ''repair_candidates'') (PList []))))"

section \<open>Lemmas\<close>

text \<open>
  The specification, on the data alone. An unsafe item has no known authority, or is completed and acknowledged
  although its side effect is not durable. A clean item is safe, has a known status and is complete or has a
  way on.
\<close>

definition item_unsafe :: "pydict \<Rightarrow> bool" where
  "item_unsafe item \<longleftrightarrow>
     work_authority item \<in> {[], ''unknown'', ''missing'', ''unverified''} \<or>
     (work_status item \<in> {''completed'', ''done''} \<and> lenient_bool (dget item ''acknowledged'') \<and>
      \<not> lenient_bool (dget item ''side_effect_durable''))"

lemma item_unsafe_iff: "item_unsafe item \<longleftrightarrow> authority_unknown item \<or> early_ack item"
  unfolding item_unsafe_def authority_unknown_def early_ack_def TERMINAL_STATUSES_def by auto

definition item_clean :: "pydict \<Rightarrow> bool" where
  "item_clean item \<longleftrightarrow>
     \<not> item_unsafe item \<and>
     (if work_status item \<in> set TERMINAL_STATUSES then work_evidence item \<noteq> [] \<and> has_handoff item
      else if work_status item \<in> set BLOCKED_STATUSES then has_repair_path item \<or> has_handoff item
      else work_status item \<in> set ACTIVE_STATUSES)"

lemma item_clean_iff: "item_clean item \<longleftrightarrow> item_blockers item = [] \<and> item_warnings item = []"
  unfolding item_clean_def item_unsafe_iff item_blockers_def item_warnings_def stuck_without_repair_def by auto

lemma item_blockers_Nil: "item_blockers item = [] \<longleftrightarrow> \<not> item_unsafe item"
  by (simp add: item_blockers_def item_unsafe_iff)

lemma every_blocker_has_candidate:
  "length (item_blockers item) \<le> length (item_candidates item)"
  by (simp add: item_blockers_def item_candidates_def)

lemma candidates_forbid_mutation:
  "c \<in> set (item_candidates item) \<Longrightarrow>
     dget c ''forbidden_actions'' = str_list [''auto_ack'', ''auto_complete'', ''auto_retry'', ''auto_reassign''] \<and>
     dget c ''work_item_id'' = PStr (work_item_id item)"
  by (auto simp: item_candidates_def repair_candidate_def split: if_splits)

lemma base_verdict_cases:
  "base_verdict ws = ''healthy'' \<longleftrightarrow> ws \<noteq> [] \<and> (\<forall>w \<in> set ws. item_clean w)"
  "base_verdict ws = ''critical'' \<longleftrightarrow> (\<exists>w \<in> set ws. item_unsafe w)"
  "base_verdict ws = ''insufficient_evidence'' \<longleftrightarrow> ws = []"
proof -
  have b: "concat (map item_blockers ws) = [] \<longleftrightarrow> \<not> (\<exists>w \<in> set ws. item_unsafe w)"
    by (auto simp: item_blockers_Nil)
  have w: "concat (map item_blockers ws) = [] \<and> concat (map item_warnings ws) = [] \<longleftrightarrow> (\<forall>w \<in> set ws. item_clean w)"
    by (auto simp: item_clean_iff)
  show "base_verdict ws = ''healthy'' \<longleftrightarrow> ws \<noteq> [] \<and> (\<forall>w \<in> set ws. item_clean w)"
    unfolding w [symmetric] base_verdict_def by simp
  show "base_verdict ws = ''critical'' \<longleftrightarrow> (\<exists>w \<in> set ws. item_unsafe w)"
    using b unfolding base_verdict_def by (cases "ws = []") simp_all
  show "base_verdict ws = ''insufficient_evidence'' \<longleftrightarrow> ws = []" unfolding base_verdict_def by simp
qed

lemma sum_status_counts: "sum_list (map snd (status_counts ws)) = int (length ws)"
proof -
  have step: "sum_list (map snd (AList.map_default k 1 (\<lambda>n. n + 1) al)) = sum_list (map snd al) + (1::int)" for k al
    by (induction al) auto
  have "sum_list (map snd (fold (\<lambda>w. AList.map_default (f w) 1 (\<lambda>n. n + 1)) ws al)) = sum_list (map snd al) + int (length ws)"
    for f :: "pydict \<Rightarrow> string" and al
    by (induction ws arbitrary: al) (simp_all add: step)
  moreover have "sum_list (map snd (sort_key fst xs)) = sum_list (map snd xs)" for xs :: "(string \<times> int) list"
    by (metis mset_map mset_sort sum_mset_sum_list)
  ultimately show ?thesis by (simp add: status_counts_def)
qed

section \<open>Properties\<close>

text \<open>
  The contract of running work: healthy exactly when there is work, every item is clean and some item can be
  continued; critical exactly when an item has no known authority or was acknowledged before its side effect
  was durable; a late participant can continue exactly when nothing is critical and some item can be
  continued; every item is counted under one status.
\<close>

theorem work_contract_sound:
  assumes "\<not> explicit_stop evidence"
  shows "(dget (build_durable_work_state_contract evidence) ''verdict'' = PStr ''healthy'' \<longleftrightarrow>
      (\<forall>w \<in> set (work_items evidence). item_clean w) \<and> (\<exists>w \<in> set (work_items evidence). continuable w)) \<and>
    (dget (build_durable_work_state_contract evidence) ''verdict'' = PStr ''critical'' \<longleftrightarrow>
      (\<exists>w \<in> set (work_items evidence). item_unsafe w)) \<and>
    (dget (build_durable_work_state_contract evidence) ''late_participant_continuable'' = PBool True \<longleftrightarrow>
      (\<forall>w \<in> set (work_items evidence). \<not> item_unsafe w) \<and>
      (\<exists>w \<in> set (work_items evidence). continuable w)) \<and>
    sum_list (map (\<lambda>(s, n). case n of PInt i \<Rightarrow> i | _ \<Rightarrow> 0)
      (as_mapping (dget (build_durable_work_state_contract evidence) ''status_counts''))) = int (length (work_items evidence))"
proof -
  let ?ws = "work_items evidence"
  have f: "dget (build_durable_work_state_contract evidence) ''verdict'' = PStr (work_verdict ?ws)"
    "dget (build_durable_work_state_contract evidence) ''late_participant_continuable'' = PBool (late_continuable ?ws)"
    "dget (build_durable_work_state_contract evidence) ''status_counts'' = PDict (map (\<lambda>(s, n). (s, PInt n)) (status_counts ?ws))"
    using assms by (simp_all add: build_durable_work_state_contract_def Let_def)
  have range: "base_verdict ?ws \<in> {''healthy'', ''degraded'', ''critical'', ''insufficient_evidence''}"
    by (simp add: base_verdict_def)
  have c: "filter continuable ?ws \<noteq> [] \<longleftrightarrow> (\<exists>w \<in> set ?ws. continuable w)" by (auto simp: filter_empty_conv)
  have late: "late_continuable ?ws \<longleftrightarrow>
      (\<forall>w \<in> set ?ws. \<not> item_unsafe w) \<and> (\<exists>w \<in> set ?ws. continuable w)"
  proof -
    have "base_verdict ?ws \<in> {''healthy'', ''degraded''} \<longleftrightarrow> base_verdict ?ws \<noteq> ''critical'' \<and> base_verdict ?ws \<noteq> ''insufficient_evidence''"
      using range by auto
    then show ?thesis unfolding late_continuable_def c base_verdict_cases by auto
  qed
  have "work_verdict ?ws = ''critical'' \<longleftrightarrow> base_verdict ?ws = ''critical''" by (simp add: work_verdict_def)
  moreover have "work_verdict ?ws = ''healthy'' \<longleftrightarrow> base_verdict ?ws = ''healthy'' \<and> late_continuable ?ws"
    by (auto simp: work_verdict_def late_gap_def base_verdict_def)
  moreover have "base_verdict ?ws = ''healthy'' \<and> late_continuable ?ws \<longleftrightarrow>
      (\<forall>w \<in> set ?ws. item_clean w) \<and> (\<exists>w \<in> set ?ws. continuable w)"
    unfolding base_verdict_cases(1) late by (auto simp: item_clean_def)
  moreover have "sum_list (map (\<lambda>(s, n). case n of PInt i \<Rightarrow> i | _ \<Rightarrow> 0) (map (\<lambda>(s, n). (s, PInt n)) (status_counts ?ws))) = int (length ?ws)"
    unfolding sum_status_counts [symmetric] by (simp add: case_prod_unfold comp_def)
  ultimately show ?thesis by (simp add: f late base_verdict_cases)
qed

definition sample_work :: pydict where
  "sample_work =
    [(''work_items'', PList [PDict
       [(''id'', PStr ''w''), (''status'', PStr ''done''), (''authority'', PStr ''user''), (''evidence_refs'', PList [PStr ''e'']),
        (''handoff'', PDict [(''to'', PStr ''x'')])]])]"

theorem work_contract_sound_witness:
  "dget (build_durable_work_state_contract sample_work) ''verdict'' = PStr ''healthy'' \<and>
   dget (build_durable_work_state_contract sample_work) ''late_participant_continuable'' = PBool True"
proof -
  have "\<not> explicit_stop sample_work" by (simp add: explicit_stop_def sample_work_def)
  note p = work_contract_sound [OF this]
  have "work_items sample_work =
      [[(''id'', PStr ''w''), (''status'', PStr ''done''), (''authority'', PStr ''user''), (''evidence_refs'', PList [PStr ''e'']),
        (''handoff'', PDict [(''to'', PStr ''x'')])]]" by (simp add: work_items_def items_def sample_work_def)
  moreover from this have "(\<forall>w \<in> set (work_items sample_work). item_clean w) \<and> (\<exists>w \<in> set (work_items sample_work). continuable w)"
    by (simp add: item_clean_def item_unsafe_def continuable_def work_status_def work_authority_def
        work_evidence_def has_handoff_def refs_def TERMINAL_STATUSES_def BLOCKED_STATUSES_def py_or_def py_strip_word text_eval)
  ultimately show ?thesis using p by (simp add: item_clean_def)
qed

end
