(* ===== verification/Capability.thy ===== *)
theory Capability
  imports Continuation
begin

text \<open>
  \<open>hermes_continuation/capability.py\<close>: may a work requirement be assigned to a worker, and does a reported
  result count as progress. The two contracts read a dictionary and return one.
\<close>

definition PROOF_STRENGTHS :: "(string \<times> nat) list" where
  "PROOF_STRENGTHS = [(''none'', 0), (''weak'', 1), (''sufficient'', 2), (''verified'', 3)]"

definition RECOVERY_STATUSES :: "string list" where
  "RECOVERY_STATUSES = [''failed'', ''blocked'', ''crashed'', ''timed_out'', ''timeout'', ''rejected'']"

definition DONE_STATUSES :: "string list" where
  "DONE_STATUSES = [''done'', ''completed'', ''success'']"

text \<open>\<open>_tags\<close> is a set of lower-case texts; a list stands for it.\<close>

definition tags :: "pyval \<Rightarrow> string list" where
  "tags v = map py_lower (refs v)"

definition worker_id :: "pydict \<Rightarrow> string" where
  "worker_id worker =
     strip_text (py_or (dget worker ''worker_id'') (py_or (dget worker ''profile_id'') (dget worker ''id'')))"

definition proof_strength :: "pyval \<Rightarrow> bool \<Rightarrow> string" where
  "proof_strength v has_any_proof =
     (let explicit = py_lower (strip_text v) in
      if map_of PROOF_STRENGTHS explicit \<noteq> None then explicit else if has_any_proof then ''weak'' else ''none'')"

section \<open>Assignment\<close>

definition requirement_of :: "pydict \<Rightarrow> pydict" where
  "requirement_of evidence = as_mapping (py_or (dget evidence ''work_requirement'') (dget evidence ''requirement''))"

definition assignee_of :: "pydict \<Rightarrow> string" where
  "assignee_of evidence =
     (let requirement = requirement_of evidence in
      strip_text (py_or (dget requirement ''assignee'') (py_or (dget requirement ''worker_id'')
        (py_or (dget requirement ''profile_id'') (dget evidence ''assignee'')))))"

definition known_workers :: "pydict \<Rightarrow> pydict list" where
  "known_workers evidence =
     items (py_or (dget evidence ''capabilities'') (py_or (dget evidence ''workers'') (dget evidence ''profiles'')))"

definition worker_of :: "pydict \<Rightarrow> string \<Rightarrow> pydict option" where
  "worker_of evidence i =
     map_of (rev (map (\<lambda>w. (worker_id w, w)) (filter (\<lambda>w. worker_id w \<noteq> []) (known_workers evidence)))) i"

definition required_tags :: "pydict \<Rightarrow> string list" where
  "required_tags evidence = tags (dget (requirement_of evidence) ''required_capabilities'')"

definition worker_tags :: "pydict \<Rightarrow> string list" where
  "worker_tags worker = tags (py_or (dget worker ''capability_tags'') (dget worker ''capabilities''))"

definition assignment_private :: "pydict \<Rightarrow> bool" where
  "assignment_private evidence \<longleftrightarrow>
     lenient_bool (dget evidence ''private_payload_present'') \<or>
     lenient_bool (dget (requirement_of evidence) ''private_payload_present'')"

record assignment_outcome =
  ao_reason :: string
  ao_verdict :: string
  ao_runnable :: bool
  ao_missing :: "string list"
  ao_source :: string

definition usable_worker :: "pydict \<Rightarrow> pydict option" where
  "usable_worker evidence =
     (if assignee_of evidence = [] then None
      else (case worker_of evidence (assignee_of evidence) of
        None \<Rightarrow> None
      | Some w \<Rightarrow> if lenient_bool (dget_default w ''exists'' (PBool True)) then Some w else None))"

definition decide_assignment :: "pydict \<Rightarrow> assignment_outcome" where
  "decide_assignment evidence =
     (if assignment_private evidence then
        \<lparr>ao_reason = ''PRIVATE_PAYLOAD_PRESENT'', ao_verdict = ''critical'', ao_runnable = False, ao_missing = [], ao_source = ''unknown''\<rparr>
      else (case usable_worker evidence of
        None \<Rightarrow>
          \<lparr>ao_reason = ''UNKNOWN_ASSIGNEE'', ao_verdict = ''critical'', ao_runnable = False, ao_missing = [], ao_source = ''unknown''\<rparr>
      | Some worker \<Rightarrow>
          (let source = or_text (strip_text (dget worker ''source'')) ''capability_evidence'';
               missing = sorted_set (filter (\<lambda>t. t \<notin> set (worker_tags worker)) (required_tags evidence)) in
           if missing \<noteq> [] then
             \<lparr>ao_reason = ''CAPABILITY_MISMATCH'', ao_verdict = ''critical'', ao_runnable = False, ao_missing = missing, ao_source = source\<rparr>
           else if lenient_bool (dget (requirement_of evidence) ''needs_human_approval'') then
             \<lparr>ao_reason = ''HUMAN_APPROVAL_REQUIRED'', ao_verdict = ''degraded'', ao_runnable = False, ao_missing = missing, ao_source = source\<rparr>
           else
             \<lparr>ao_reason = ''CAPABILITY_ASSIGNMENT_VALID'', ao_verdict = ''healthy'', ao_runnable = True, ao_missing = missing, ao_source = source\<rparr>)))"

definition validate_capability_assignment :: "pydict \<Rightarrow> pydict" where
  "validate_capability_assignment evidence =
     (let outcome = decide_assignment evidence in
      [(''schema'', PStr ''hermes_continuation.capability_contract.v1''),
       (''read_only'', PBool True),
       (''side_effect_free'', PBool True),
       (''public_safe'', PBool (ao_reason outcome \<noteq> ''PRIVATE_PAYLOAD_PRESENT'')),
       (''verdict'', PStr (ao_verdict outcome)),
       (''runnable'', PBool (ao_runnable outcome)),
       (''assignee'', PStr (or_text (assignee_of evidence) ''unknown'')),
       (''required_capabilities'', str_list (sorted_set (required_tags evidence))),
       (''missing_capabilities'', str_list (ao_missing outcome)),
       (''capability_source'', PStr (ao_source outcome)),
       (''reason_codes'', str_list [ao_reason outcome]),
       (''agent_claim'', PStr (''capability_assignment_'' @ ao_verdict outcome))])"

section \<open>Completion proof\<close>

definition result_status :: "pydict \<Rightarrow> string" where
  "result_status result = py_lower (strip_text (py_or (dget result ''status'') (dget result ''state'')))"

definition result_artifacts :: "pydict \<Rightarrow> string list" where
  "result_artifacts result = refs (py_or (dget result ''artifact_refs'') (dget result ''artifacts''))"

definition result_evidence :: "pydict \<Rightarrow> string list" where
  "result_evidence result = refs (py_or (dget result ''evidence_refs'') (dget result ''evidence''))"

definition result_verdict :: "pydict \<Rightarrow> string" where
  "result_verdict result = strip_text (py_or (dget result ''verdict'') (dget result ''decision''))"

definition result_postcondition :: "pydict \<Rightarrow> string" where
  "result_postcondition result = strip_text (dget result ''postcondition'')"

definition result_blocker :: "pydict \<Rightarrow> string" where
  "result_blocker result =
     strip_text (py_or (dget result ''error_or_blocker'') (py_or (dget result ''blocker'') (dget result ''error'')))"

definition result_strength :: "pydict \<Rightarrow> string" where
  "result_strength result =
     proof_strength (dget result ''proof_strength'')
       (result_artifacts result \<noteq> [] \<or> result_evidence result \<noteq> [] \<or> result_verdict result \<noteq> [] \<or>
        result_postcondition result \<noteq> [] \<or> result_blocker result \<noteq> [])"

definition strength_rank :: "string \<Rightarrow> nat" where
  "strength_rank s = (case map_of PROOF_STRENGTHS s of Some n \<Rightarrow> n | None \<Rightarrow> 0)"

definition sufficient_proof :: "pydict \<Rightarrow> bool" where
  "sufficient_proof result \<longleftrightarrow>
     result_artifacts result \<noteq> [] \<and> result_evidence result \<noteq> [] \<and> result_verdict result \<noteq> [] \<and>
     result_postcondition result \<noteq> [] \<and> strength_rank ''sufficient'' \<le> strength_rank (result_strength result)"

record completion_outcome =
  co_verdict :: string
  co_reason :: string
  co_progress :: bool
  co_recovery :: bool

definition decide_completion :: "pydict \<Rightarrow> completion_outcome" where
  "decide_completion result =
     (let status = result_status result;
          recovery = result_blocker result \<noteq> [] \<or> result_evidence result \<noteq> [] \<or> result_artifacts result \<noteq> [] in
      if lenient_bool (dget result ''private_payload_present'') then
        \<lparr>co_verdict = ''critical'', co_reason = ''PRIVATE_PAYLOAD_PRESENT'', co_progress = False, co_recovery = False\<rparr>
      else if status \<in> set DONE_STATUSES then
        (if sufficient_proof result then
           \<lparr>co_verdict = ''healthy'', co_reason = ''COMPLETION_PROOF_SUFFICIENT'', co_progress = True, co_recovery = False\<rparr>
         else
           \<lparr>co_verdict = ''critical'',
            co_reason = (if result_strength result = ''none'' then ''COMPLETION_PROOF_MISSING'' else ''WEAK_COMPLETION_PROOF''),
            co_progress = False, co_recovery = False\<rparr>)
      else if status \<in> set RECOVERY_STATUSES then
        \<lparr>co_verdict = ''degraded'',
         co_reason = (if recovery then ''BLOCKED_RESULT_RECOVERY_EVIDENCE'' else ''BLOCKED_RESULT_MISSING_RECOVERY_EVIDENCE''),
         co_progress = False, co_recovery = recovery\<rparr>
      else if status \<in> {''partial'', ''in_progress'', ''running''} then
        \<lparr>co_verdict = ''degraded'', co_reason = ''PARTIAL_RESULT_NOT_MATERIAL_PROGRESS'', co_progress = False, co_recovery = False\<rparr>
      else
        \<lparr>co_verdict = ''critical'', co_reason = ''UNKNOWN_COMPLETION_STATUS'', co_progress = False, co_recovery = False\<rparr>)"

definition validate_completion_proof :: "pydict \<Rightarrow> pydict" where
  "validate_completion_proof result =
     (let outcome = decide_completion result in
      [(''schema'', PStr ''hermes_continuation.completion_proof_contract.v1''),
       (''read_only'', PBool True),
       (''side_effect_free'', PBool True),
       (''public_safe'', PBool (\<not> lenient_bool (dget result ''private_payload_present''))),
       (''verdict'', PStr (co_verdict outcome)),
       (''status'', PStr (or_text (result_status result) ''unknown'')),
       (''proof_strength'', PStr (result_strength result)),
       (''artifact_refs'', str_list (take 10 (result_artifacts result))),
       (''evidence_refs'', str_list (take 10 (result_evidence result))),
       (''result_verdict'', PStr (result_verdict result)),
       (''postcondition'', PStr (result_postcondition result)),
       (''is_material_progress'', PBool (co_progress outcome)),
       (''recovery_evidence'', PBool (co_recovery outcome)),
       (''reason_codes'', str_list [co_reason outcome]),
       (''agent_claim'', PStr (''completion_proof_'' @ co_verdict outcome))])"

section \<open>Lemmas\<close>

lemma runnable_iff:
  "ao_runnable (decide_assignment evidence) \<longleftrightarrow>
     \<not> assignment_private evidence \<and> \<not> lenient_bool (dget (requirement_of evidence) ''needs_human_approval'') \<and>
     (\<exists>w. usable_worker evidence = Some w \<and> set (required_tags evidence) \<subseteq> set (worker_tags w))"
  unfolding decide_assignment_def Let_def
  by (auto split: option.split simp: filter_empty_conv)

lemma usable_workerD:
  "usable_worker evidence = Some w \<Longrightarrow>
     w \<in> set (known_workers evidence) \<and> worker_id w = assignee_of evidence \<and> assignee_of evidence \<noteq> [] \<and>
     lenient_bool (dget_default w ''exists'' (PBool True))"
  unfolding usable_worker_def worker_of_def
  by (auto split: if_splits option.splits dest!: map_of_SomeD)

lemma progress_iff:
  "co_progress (decide_completion result) \<longleftrightarrow>
     \<not> lenient_bool (dget result ''private_payload_present'') \<and> result_status result \<in> set DONE_STATUSES \<and> sufficient_proof result"
  unfolding decide_completion_def Let_def by simp

lemma weak_or_none: "proof_strength v b \<in> {''sufficient'', ''verified''} \<or> strength_rank (proof_strength v b) < 2"
  by (simp add: proof_strength_def strength_rank_def Let_def PROOF_STRENGTHS_def)

lemma sufficient_is_explicit:
  "sufficient_proof result \<Longrightarrow> py_lower (strip_text (dget result ''proof_strength'')) \<in> {''sufficient'', ''verified''}"
proof -
  assume "sufficient_proof result"
  then have "2 \<le> strength_rank (result_strength result)"
    by (simp add: sufficient_proof_def strength_rank_def [of "''sufficient''"] PROOF_STRENGTHS_def)
  then show ?thesis
    by (simp add: result_strength_def proof_strength_def strength_rank_def Let_def PROOF_STRENGTHS_def split: if_splits)
qed

section \<open>Properties\<close>

text \<open>
  Work is runnable exactly when nothing private is shown, no human approval is pending and a known, existing
  worker with the assignee's identifier has every required capability; and a result is progress exactly
  when it is public, reported done and sufficiently proven, which takes artifacts, evidence, a verdict, a
  postcondition and a strength the worker stated explicitly.
\<close>

theorem assignment_and_progress_gates:
  "(dget (validate_capability_assignment evidence) ''runnable'' = PBool True \<longleftrightarrow>
      \<not> assignment_private evidence \<and> \<not> lenient_bool (dget (requirement_of evidence) ''needs_human_approval'') \<and>
      (\<exists>w. usable_worker evidence = Some w \<and> set (required_tags evidence) \<subseteq> set (worker_tags w))) \<and>
   (usable_worker evidence = Some w \<longrightarrow>
      w \<in> set (known_workers evidence) \<and> worker_id w = assignee_of evidence \<and> assignee_of evidence \<noteq> []) \<and>
   (dget (validate_completion_proof result) ''is_material_progress'' = PBool True \<longleftrightarrow>
      dget (validate_completion_proof result) ''public_safe'' = PBool True \<and>
      result_status result \<in> set DONE_STATUSES \<and> sufficient_proof result) \<and>
   (dget (validate_completion_proof result) ''is_material_progress'' = PBool True \<longrightarrow>
      as_list (dget (validate_completion_proof result) ''artifact_refs'') \<noteq> [] \<and>
      as_list (dget (validate_completion_proof result) ''evidence_refs'') \<noteq> [] \<and>
      py_lower (strip_text (dget result ''proof_strength'')) \<in> {''sufficient'', ''verified''})"
proof -
  have f: "dget (validate_capability_assignment evidence) ''runnable'' = PBool (ao_runnable (decide_assignment evidence))"
    "dget (validate_completion_proof result) ''is_material_progress'' = PBool (co_progress (decide_completion result))"
    "dget (validate_completion_proof result) ''public_safe'' = PBool (\<not> lenient_bool (dget result ''private_payload_present''))"
    "as_list (dget (validate_completion_proof result) ''artifact_refs'') = map PStr (take 10 (result_artifacts result))"
    "as_list (dget (validate_completion_proof result) ''evidence_refs'') = map PStr (take 10 (result_evidence result))"
    by (simp_all add: validate_capability_assignment_def validate_completion_proof_def Let_def str_list_def)
  have s: "sufficient_proof result \<Longrightarrow> result_artifacts result \<noteq> [] \<and> result_evidence result \<noteq> []"
    by (simp add: sufficient_proof_def)
  show ?thesis
    unfolding f using usable_workerD [of evidence w] sufficient_is_explicit [of result] s
    by (simp add: runnable_iff progress_iff)
qed

definition sample_assignment :: pydict where
  "sample_assignment =
    [(''requirement'', PDict [(''assignee'', PStr ''w1''), (''required_capabilities'', PList [PStr ''code''])]),
     (''workers'', PList [PDict [(''id'', PStr ''w1''), (''capabilities'', PList [PStr ''code'', PStr ''review''])]])]"

definition sample_result :: pydict where
  "sample_result =
    [(''status'', PStr ''done''), (''artifact_refs'', PList [PStr ''a'']), (''evidence_refs'', PList [PStr ''e'']),
     (''verdict'', PStr ''ok''), (''postcondition'', PStr ''p''), (''proof_strength'', PStr ''verified'')]"

theorem assignment_and_progress_gates_witness:
  "dget (validate_capability_assignment sample_assignment) ''runnable'' = PBool True \<and>
   dget (validate_completion_proof sample_result) ''is_material_progress'' = PBool True"
proof -
  have low: "py_lower ''done'' = ''done''" "py_lower ''code'' = ''code''" "py_lower ''review'' = ''review''"
    "py_lower ''verified'' = ''verified''" by code_simp+
  have w: "usable_worker sample_assignment = Some [(''id'', PStr ''w1''), (''capabilities'', PList [PStr ''code'', PStr ''review''])]"
    "required_tags sample_assignment = [''code'']" "\<not> assignment_private sample_assignment"
    "\<not> lenient_bool (dget (requirement_of sample_assignment) ''needs_human_approval'')"
    by (simp_all add: usable_worker_def assignee_of_def worker_of_def known_workers_def items_def requirement_of_def worker_id_def
        sample_assignment_def required_tags_def tags_def refs_def sorted_set_def assignment_private_def py_or_def py_strip_word low text_eval)
  have t: "''code'' \<in> set (worker_tags [(''id'', PStr ''w1''), (''capabilities'', PList [PStr ''code'', PStr ''review''])])"
    by (simp add: worker_tags_def tags_def refs_def py_strip_word low text_eval)
  have r: "\<not> lenient_bool (dget sample_result ''private_payload_present'')" "result_status sample_result \<in> set DONE_STATUSES"
    "sufficient_proof sample_result"
    by (simp_all add: sample_result_def result_status_def DONE_STATUSES_def sufficient_proof_def result_artifacts_def result_evidence_def
        result_verdict_def result_postcondition_def result_strength_def proof_strength_def strength_rank_def PROOF_STRENGTHS_def
        refs_def py_or_def py_strip_word low text_eval)
  have p: "dget (validate_completion_proof sample_result) ''public_safe'' = PBool True"
    using r(1) by (simp add: validate_completion_proof_def Let_def)
  show ?thesis
    using assignment_and_progress_gates [of sample_assignment "[]" sample_result] w t r p by simp
qed

end
