(* ===== verification/TraceReplay.thy ===== *)
theory TraceReplay
  imports Continuation
begin

text \<open>
  \<open>hermes_continuation/trace_replay.py\<close>: validation of one decision trace event, replay of a trace into the
  recovery state, checkpoints and the rendered summary. Reports are dictionaries, because a checkpoint
  built from one is an input of the next replay; the loop of the replay is a fold over the record
  \<open>replay_state\<close>. The optional checkpoint is a dictionary whose empty value also stands for \<open>None\<close>, as in
  the code's \<open>checkpoint or {}\<close>.
\<close>

definition REPLAY_DECISIONS :: "string list" where
  "REPLAY_DECISIONS =
    [''continue'', ''split'', ''verify'', ''repair'', ''learn'', ''wait'', ''human_needed'', ''intentional_stop'']"

definition trace_id_of :: "pydict \<Rightarrow> string" where
  "trace_id_of event =
     strip_text (py_or (dget event ''trace_id'') (py_or (dget event ''id'') (dget event ''idempotency_key'')))"

definition private_payload :: "pydict \<Rightarrow> bool" where
  "private_payload event \<longleftrightarrow>
     lenient_bool (dget event ''private_payload_present'') \<or> truthy (dget event ''private_payload'')"

definition trace_issues :: "pydict \<Rightarrow> string list" where
  "trace_issues event =
     (if trace_id_of event = [] then [''TRACE_ID_MISSING''] else []) @
     (if strip_text (dget event ''decision'') \<notin> set REPLAY_DECISIONS then [''TRACE_DECISION_INVALID''] else []) @
     (if refs (dget event ''reason_codes'') = [] then [''TRACE_REASON_CODES_MISSING''] else []) @
     (if strip_text (dget event ''postcondition'') = [] \<or>
         \<not> (refs (dget event ''input_event_refs'') \<noteq> [] \<or> refs (dget event ''work_graph_refs'') \<noteq> [] \<or>
            refs (dget event ''kanban_task_refs'') \<noteq> [] \<or> refs (dget event ''artifact_refs'') \<noteq> [])
      then [''TRACE_EVIDENCE_OR_POSTCONDITION_MISSING''] else []) @
     (if private_payload event then [''PRIVATE_PAYLOAD_PRESENT''] else [])"

definition validate_decision_trace :: "pydict \<Rightarrow> pydict" where
  "validate_decision_trace event =
     (let issues = trace_issues event in
      [(''schema'', PStr ''hermes_continuation.decision_trace.v1''),
       (''read_only'', PBool True),
       (''side_effect_free'', PBool True),
       (''public_safe'', PBool (\<not> private_payload event)),
       (''verdict'', PStr (if issues = [] then ''healthy'' else ''critical'')),
       (''trace_id'', PStr (or_text (trace_id_of event) ''unknown'')),
       (''decision'', PStr (or_text (strip_text (dget event ''decision'')) ''unknown'')),
       (''postcondition'', PStr (strip_text (dget event ''postcondition''))),
       (''reason_codes'', str_list (sorted_set (if issues = [] then [''DECISION_TRACE_VALID''] else issues)))])"

definition event_verdict :: "string \<Rightarrow> string \<Rightarrow> string" where
  "event_verdict decision postcondition =
     (if decision = ''human_needed'' then ''waiting_for_human''
      else if decision = ''intentional_stop'' then ''stopped_intentionally''
      else if decision = ''repair'' \<or> postcondition = ''recovery_needed'' then ''recovery_needed''
      else if decision = ''wait'' then ''waiting_for_signal''
      else ''healthy'')"

section \<open>Replay\<close>

record replay_state =
  rs_seen :: "string list"
  rs_accepted :: "pydict list"
  rs_invalid :: nat
  rs_duplicate :: nat
  rs_private :: nat
  rs_reasons :: "string list"

definition replay_init :: replay_state where
  "replay_init = \<lparr>rs_seen = [], rs_accepted = [], rs_invalid = 0, rs_duplicate = 0, rs_private = 0, rs_reasons = []\<rparr>"

definition replay_event :: "pydict \<Rightarrow> replay_state \<Rightarrow> replay_state" where
  "replay_event event s =
     (let validation = validate_decision_trace event in
      if dget validation ''verdict'' \<noteq> PStr ''healthy'' then
        s\<lparr>rs_invalid := rs_invalid s + 1,
          rs_reasons := rs_reasons s @ map py_str (as_list (dget validation ''reason_codes'')),
          rs_private := (if dget validation ''public_safe'' = PBool False then rs_private s + 1 else rs_private s)\<rparr>
      else (let trace_id = py_str (dget validation ''trace_id'') in
        if trace_id \<in> set (rs_seen s) then s\<lparr>rs_duplicate := rs_duplicate s + 1\<rparr>
        else s\<lparr>rs_seen := trace_id # rs_seen s, rs_accepted := rs_accepted s @ [event]\<rparr>))"

definition replay_events :: "pydict list \<Rightarrow> replay_state" where
  "replay_events events = fold replay_event events replay_init"

definition refs_or :: "pydict \<Rightarrow> pydict \<Rightarrow> string \<Rightarrow> string list" where
  "refs_or last_event checkpoint k =
     (if refs (dget last_event k) \<noteq> [] then refs (dget last_event k) else refs (dget checkpoint k))"

definition last_event_of :: "replay_state \<Rightarrow> pydict" where
  "last_event_of s = (if rs_accepted s = [] then [] else last (rs_accepted s))"

definition replay_trace_id :: "pydict \<Rightarrow> pydict \<Rightarrow> string" where
  "replay_trace_id last_event checkpoint =
     (if last_event \<noteq> [] then trace_id_of last_event else strip_text (dget checkpoint ''last_material_decision_ref''))"

definition replay_last_decision :: "pydict \<Rightarrow> pydict \<Rightarrow> string" where
  "replay_last_decision last_event checkpoint =
     (if last_event \<noteq> [] then strip_text (dget last_event ''decision'')
      else strip_text (py_or (dget checkpoint ''last_decision'') (PStr ''none'')))"

definition trace_verdict :: "pydict \<Rightarrow> pydict \<Rightarrow> string" where
  "trace_verdict last_event checkpoint =
     (if last_event \<noteq> [] then
        event_verdict (replay_last_decision last_event checkpoint) (strip_text (dget last_event ''postcondition''))
      else strip_text (py_or (dget checkpoint ''verdict'') (PStr ''insufficient_evidence'')))"

definition running_tasks :: "pydict \<Rightarrow> pydict \<Rightarrow> string list" where
  "running_tasks last_event checkpoint =
     (let running = refs_or last_event checkpoint ''running_task_refs'';
          kanban = refs (dget last_event ''kanban_task_refs'') in
      if replay_last_decision last_event checkpoint \<in> {''split'', ''continue'', ''verify'', ''repair''} \<and>
         kanban \<noteq> [] \<and> running = []
      then kanban else running)"

definition replay_verdict :: "replay_state \<Rightarrow> pydict \<Rightarrow> string" where
  "replay_verdict s checkpoint =
     (if rs_invalid s \<noteq> 0 then ''critical'' else trace_verdict (last_event_of s) checkpoint)"

definition replay_reasons :: "replay_state \<Rightarrow> pydict \<Rightarrow> string list" where
  "replay_reasons s checkpoint =
     (let checkpoint_verdict = strip_text (dget checkpoint ''verdict'') in
      rs_reasons s @
      (if checkpoint \<noteq> [] \<and> rs_accepted s \<noteq> [] \<and> checkpoint_verdict \<noteq> [] \<and>
          checkpoint_verdict \<noteq> trace_verdict (last_event_of s) checkpoint
       then [''CHECKPOINT_SUPERSEDED_BY_TRACE''] else []) @
      (if rs_private s \<noteq> 0 then [''PRIVATE_PAYLOAD_PRESENT''] else []) @
      (if rs_duplicate s \<noteq> 0 then [''DUPLICATE_TRACE_EVENT_IGNORED''] else []))"

definition replay_workstream :: "pydict \<Rightarrow> pydict \<Rightarrow> string" where
  "replay_workstream last_event checkpoint =
     or_text (strip_text (dget last_event ''workstream_id'')) (or_text (strip_text (dget checkpoint ''workstream_id'')) ''unknown'')"

definition replay_report :: "replay_state \<Rightarrow> pydict \<Rightarrow> pydict" where
  "replay_report s checkpoint =
     (let last_event = last_event_of s;
          last_trace_id = replay_trace_id last_event checkpoint;
          verdict = replay_verdict s checkpoint;
          reasons = replay_reasons s checkpoint in
      [(''schema'', PStr ''hermes_continuation.replay_report.v1''),
       (''read_only'', PBool True),
       (''side_effect_free'', PBool True),
       (''public_safe'', PBool (rs_private s = 0)),
       (''verdict'', PStr verdict),
       (''workstream_id'', PStr (replay_workstream last_event checkpoint)),
       (''decision_count'', PInt (int (length (rs_accepted s)))),
       (''invalid_event_count'', PInt (int (rs_invalid s))),
       (''duplicate_event_count'', PInt (int (rs_duplicate s))),
       (''trace_event_count'', PInt (int (length (rs_accepted s) + rs_duplicate s + rs_invalid s))),
       (''last_trace_id'', PStr (or_text last_trace_id ''none'')),
       (''last_decision'', PStr (replay_last_decision last_event checkpoint)),
       (''open_frontier_node_ids'', str_list (take 20 (refs_or last_event checkpoint ''open_frontier_node_ids''))),
       (''running_task_refs'', str_list (take 20 (running_tasks last_event checkpoint))),
       (''blocked_task_refs'', str_list (take 20 (refs_or last_event checkpoint ''blocked_task_refs''))),
       (''fan_in_wait_nodes'', str_list (take 20 (refs_or last_event checkpoint ''fan_in_wait_nodes''))),
       (''recovery_needed_reason'', PStr (if verdict = ''recovery_needed'' then ''repair_decision'' else [])),
       (''replay_idempotency_key'', PStr (''replay:'' @ or_text last_trace_id ''none'')),
       (''reason_codes'', str_list (sorted_set (if reasons = [] then [''TRACE_REPLAY_OK''] else reasons))),
       (''agent_claim'', PStr (''trace_replay_'' @ verdict))])"

definition replay_decision_trace :: "pydict list \<Rightarrow> pydict \<Rightarrow> pydict" where
  "replay_decision_trace events checkpoint = replay_report (replay_events events) checkpoint"

definition build_checkpoint :: "pydict list \<Rightarrow> pydict" where
  "build_checkpoint events =
     (let replay = replay_decision_trace events [] in
      [(''schema'', PStr ''hermes_continuation.replay_checkpoint.v1''),
       (''read_only'', PBool True),
       (''side_effect_free'', PBool True),
       (''public_safe'', PBool True),
       (''checkpoint_id'', PStr (''checkpoint:'' @ py_str (dget replay ''last_trace_id''))),
       (''workstream_id'', dget replay ''workstream_id''),
       (''verdict'', dget replay ''verdict''),
       (''last_decision'', dget replay ''last_decision''),
       (''last_material_decision_ref'', dget replay ''last_trace_id''),
       (''open_frontier_node_ids'', dget replay ''open_frontier_node_ids''),
       (''running_task_refs'', dget replay ''running_task_refs''),
       (''blocked_task_refs'', dget replay ''blocked_task_refs''),
       (''fan_in_wait_nodes'', dget replay ''fan_in_wait_nodes''),
       (''recovery_needed_reason'', dget replay ''recovery_needed_reason''),
       (''replay_idempotency_key'', dget replay ''replay_idempotency_key'')])"

text \<open>The summary converts its counters with \<open>int\<close> and measures lists with \<open>len\<close>, which may raise.\<close>

definition summary_count :: "pydict \<Rightarrow> string \<Rightarrow> pyval result" where
  "summary_count replay k = map_sum id PInt (py_int (py_or (dget replay k) (PInt 0)))"

definition summary_len :: "pydict \<Rightarrow> string \<Rightarrow> pyval result" where
  "summary_len replay k = map_sum id (\<lambda>n. PInt (int n)) (py_len (py_or (dget replay k) (PList [])))"

definition render_replay_summary :: "pydict \<Rightarrow> int \<Rightarrow> pydict result" where
  "render_replay_summary replay max_reason_codes =
     map_sum id (\<lambda>counts.
        let summary =
              [(''schema'', PStr ''hermes_continuation.replay_summary.v1''),
               (''verdict'', PStr (strip_text (dget replay ''verdict''))),
               (''workstream_id'', PStr (strip_text (dget replay ''workstream_id''))),
               (''last_decision'', PStr (strip_text (dget replay ''last_decision''))),
               (''last_trace_id'', PStr (strip_text (dget replay ''last_trace_id''))),
               (''trace_event_count'', counts ! 0),
               (''duplicate_event_count'', counts ! 1),
               (''open_frontier_count'', counts ! 2),
               (''running_task_count'', counts ! 3),
               (''blocked_task_count'', counts ! 4),
               (''fan_in_wait_count'', counts ! 5),
               (''reason_codes'', str_list (py_slice_to max_reason_codes (refs (dget replay ''reason_codes'')))),
               (''inspect_handle'', PStr (or_text (strip_text (dget replay ''last_trace_id'')) ''none''))]
        in summary @ [(''rendered_length'', PInt (int (length (py_str (PDict summary)))))])
     (map_result id
       [summary_count replay ''trace_event_count'', summary_count replay ''duplicate_event_count'',
        summary_len replay ''open_frontier_node_ids'', summary_len replay ''running_task_refs'',
        summary_len replay ''blocked_task_refs'', summary_len replay ''fan_in_wait_nodes''])"

section \<open>The replay loop\<close>

lemma validate_fields:
  "dget (validate_decision_trace e) ''verdict'' = PStr (if trace_issues e = [] then ''healthy'' else ''critical'')"
  "dget (validate_decision_trace e) ''public_safe'' = PBool (\<not> private_payload e)"
  "dget (validate_decision_trace e) ''trace_id'' = PStr (or_text (trace_id_of e) ''unknown'')"
  "as_list (dget (validate_decision_trace e) ''reason_codes'') =
     map PStr (sorted_set (if trace_issues e = [] then [''DECISION_TRACE_VALID''] else trace_issues e))"
  by (simp_all add: validate_decision_trace_def Let_def str_list_def)

lemma valid_trace_id: "trace_issues e = [] \<Longrightarrow> trace_id_of e \<noteq> []"
  by (auto simp: trace_issues_def)

lemma valid_nonempty: "trace_issues e = [] \<Longrightarrow> e \<noteq> []"
  using valid_trace_id [of "[]"] by (auto simp: trace_id_of_def)

lemma replay_event_cases:
  "trace_issues e \<noteq> [] \<Longrightarrow> replay_event e s =
     s\<lparr>rs_invalid := rs_invalid s + 1, rs_reasons := rs_reasons s @ sorted_set (trace_issues e),
       rs_private := (if private_payload e then rs_private s + 1 else rs_private s)\<rparr>"
  "trace_issues e = [] \<Longrightarrow> trace_id_of e \<in> set (rs_seen s) \<Longrightarrow> replay_event e s = s\<lparr>rs_duplicate := rs_duplicate s + 1\<rparr>"
  "trace_issues e = [] \<Longrightarrow> trace_id_of e \<notin> set (rs_seen s) \<Longrightarrow>
     replay_event e s = s\<lparr>rs_seen := trace_id_of e # rs_seen s, rs_accepted := rs_accepted s @ [e]\<rparr>"
  using valid_trace_id [of e] by (simp_all add: replay_event_def validate_fields Let_def map_idI)

text \<open>
  The reference for what is accepted: the valid events, each trace identifier at its first occurrence.
\<close>

fun first_valid :: "string set \<Rightarrow> pydict list \<Rightarrow> pydict list" where
  "first_valid seen [] = []"
| "first_valid seen (e # es) =
     (if trace_issues e \<noteq> [] \<or> trace_id_of e \<in> seen then first_valid seen es
      else e # first_valid (insert (trace_id_of e) seen) es)"

lemma replay_fold:
  "rs_accepted (fold replay_event es s) = rs_accepted s @ first_valid (set (rs_seen s)) es"
  "set (rs_seen (fold replay_event es s)) = set (rs_seen s) \<union> trace_id_of ` {e \<in> set es. trace_issues e = []}"
  "rs_invalid (fold replay_event es s) = rs_invalid s + length (filter (\<lambda>e. trace_issues e \<noteq> []) es)"
  "rs_private (fold replay_event es s) = rs_private s + length (filter private_payload es)"
proof (induction es arbitrary: s)
  case (Cons e es)
  have p: "private_payload e \<Longrightarrow> trace_issues e \<noteq> []" by (simp add: trace_issues_def)
  {
    case 1 show ?case by (cases "trace_issues e = []"; cases "trace_id_of e \<in> set (rs_seen s)") (simp_all add: Cons.IH replay_event_cases)
  next
    case 2 show ?case
      by (cases "trace_issues e = []"; cases "trace_id_of e \<in> set (rs_seen s)") (auto simp: Cons.IH replay_event_cases)
  next
    case 3 show ?case by (cases "trace_issues e = []"; cases "trace_id_of e \<in> set (rs_seen s)") (simp_all add: Cons.IH replay_event_cases)
  next
    case 4 show ?case
      using p by (cases "trace_issues e = []"; cases "trace_id_of e \<in> set (rs_seen s)") (auto simp: Cons.IH replay_event_cases)
  }
qed simp_all

lemma replay_conserves:
  "length (rs_accepted (fold replay_event es s)) + rs_duplicate (fold replay_event es s) + rs_invalid (fold replay_event es s) =
     length (rs_accepted s) + rs_duplicate s + rs_invalid s + length es"
proof (induction es arbitrary: s)
  case (Cons e es)
  have "length (rs_accepted (replay_event e s)) + rs_duplicate (replay_event e s) + rs_invalid (replay_event e s) =
      length (rs_accepted s) + rs_duplicate s + rs_invalid s + 1"
    by (cases "trace_issues e = []"; cases "trace_id_of e \<in> set (rs_seen s)") (simp_all add: replay_event_cases)
  with Cons.IH [of "replay_event e s"] show ?case by simp
qed simp

lemma replay_fold_dup:
  "fold replay_event es (s\<lparr>rs_duplicate := Suc (rs_duplicate s)\<rparr>) =
     (fold replay_event es s)\<lparr>rs_duplicate := Suc (rs_duplicate (fold replay_event es s))\<rparr>"
proof (induction es arbitrary: s)
  case (Cons e es)
  have "replay_event e (s\<lparr>rs_duplicate := Suc (rs_duplicate s)\<rparr>) =
      (replay_event e s)\<lparr>rs_duplicate := Suc (rs_duplicate (replay_event e s))\<rparr>"
    by (cases "trace_issues e = []"; cases "trace_id_of e \<in> set (rs_seen s)") (simp_all add: replay_event_cases)
  with Cons.IH show ?case by simp
qed simp

lemma replay_insert_duplicate:
  assumes "trace_issues d = []" and "trace_id_of d \<in> trace_id_of ` {e \<in> set es1. trace_issues e = []}"
  shows "replay_events (es1 @ d # es2) =
    (replay_events (es1 @ es2))\<lparr>rs_duplicate := Suc (rs_duplicate (replay_events (es1 @ es2)))\<rparr>"
proof -
  have "trace_id_of d \<in> set (rs_seen (fold replay_event es1 replay_init))"
    using assms(2) by (simp add: replay_fold(2))
  then show ?thesis
    using replay_event_cases(2) [OF assms(1), of "fold replay_event es1 replay_init"]
    by (simp add: replay_events_def replay_fold_dup)
qed

lemma first_valid_ids:
  "trace_id_of ` set (first_valid seen es) = trace_id_of ` {e \<in> set es. trace_issues e = []} - seen"
  "distinct (map trace_id_of (first_valid seen es))"
  "set (first_valid seen es) \<subseteq> {e \<in> set es. trace_issues e = []}"
proof (induction es arbitrary: seen)
  case (Cons e es)
  {
    case 1 show ?case by (cases "trace_issues e = []") (auto simp: Cons.IH(1))
  next
    case 2 show ?case using Cons.IH(1) [of "insert (trace_id_of e) seen"] Cons.IH(2) by (cases "trace_issues e = []") auto
  next
    case 3 show ?case using Cons.IH(3) [of seen] Cons.IH(3) [of "insert (trace_id_of e) seen"] by auto
  }
qed simp_all

lemma length_first_valid: "length (first_valid {} es) = card (trace_id_of ` {e \<in> set es. trace_issues e = []})"
proof -
  have "length (first_valid {} es) = card (trace_id_of ` set (first_valid {} es))"
    using first_valid_ids(2) [of "{}" es] distinct_card by fastforce
  then show ?thesis by (simp add: first_valid_ids(1))
qed

lemma replay_init_simps [simp]:
  "rs_seen replay_init = []" "rs_accepted replay_init = []" "rs_invalid replay_init = 0" "rs_duplicate replay_init = 0"
  "rs_private replay_init = 0" "rs_reasons replay_init = []"
  by (simp_all add: replay_init_def)

lemma last_first_valid_nonempty: "first_valid {} es \<noteq> [] \<Longrightarrow> last (first_valid {} es) \<noteq> []"
  using first_valid_ids(3) [of "{}" es] last_in_set [of "first_valid {} es"] valid_nonempty by fastforce

lemma dget_Cons_eq: "(k = a \<Longrightarrow> v = w) \<Longrightarrow> dget d k = dget e k \<Longrightarrow> dget ((a, v) # d) k = dget ((a, w) # e) k"
  by simp

lemma valid_decision: "trace_issues e = [] \<Longrightarrow> strip_text (dget e ''decision'') \<in> set REPLAY_DECISIONS"
  by (cases "strip_text (dget e ''decision'') \<in> set REPLAY_DECISIONS") (simp_all add: trace_issues_def)

lemma event_verdict_text: "event_verdict d p \<noteq> []" "py_strip (event_verdict d p) = event_verdict d p"
  unfolding event_verdict_def by (simp_all add: py_strip_word text_eval split: if_split)

section \<open>Properties\<close>

text \<open>
  C30: redelivery is harmless: a valid event whose identifier an earlier valid event of the trace carries changes,
  wherever it is inserted, nothing of the recovered state but the counts of duplicates and of events and
  the reason that reports it.
\<close>

theorem redelivered_event_changes_counts_only:
  assumes "trace_issues d = []" and "trace_id_of d \<in> trace_id_of ` {e \<in> set es1. trace_issues e = []}"
    and "k \<notin> {''duplicate_event_count'', ''trace_event_count'', ''reason_codes''}"
  shows "dget (replay_decision_trace (es1 @ d # es2) checkpoint) k = dget (replay_decision_trace (es1 @ es2) checkpoint) k \<and>
    PStr ''DUPLICATE_TRACE_EVENT_IGNORED'' \<in> set (as_list (dget (replay_decision_trace (es1 @ d # es2) checkpoint) ''reason_codes''))"
proof
  let ?s = "replay_events (es1 @ es2)"
  have r: "replay_decision_trace (es1 @ d # es2) checkpoint = replay_report (?s\<lparr>rs_duplicate := Suc (rs_duplicate ?s)\<rparr>) checkpoint"
    by (simp add: replay_decision_trace_def replay_insert_duplicate [OF assms(1,2)])
  show "dget (replay_decision_trace (es1 @ d # es2) checkpoint) k = dget (replay_decision_trace (es1 @ es2) checkpoint) k"
    unfolding r unfolding replay_decision_trace_def replay_report_def Let_def
    by (intro dget_Cons_eq refl) (use assms(3) in \<open>simp_all add: last_event_of_def replay_verdict_def\<close>)
  show "PStr ''DUPLICATE_TRACE_EVENT_IGNORED'' \<in> set (as_list (dget (replay_decision_trace (es1 @ d # es2) checkpoint) ''reason_codes''))"
    unfolding r by (simp add: replay_report_def Let_def replay_reasons_def str_list_def)
qed

text \<open>
  What a replay reports is determined by the reference reading of the trace: one decision per identifier of a
  valid event, the rest of the valid events duplicates, every other event invalid, public-safe exactly
  without private payloads, and the verdict that of the last accepted event unless an event is invalid.
\<close>

theorem replay_report_exact:
  "dget (replay_decision_trace events checkpoint) ''decision_count'' =
     PInt (int (card (trace_id_of ` {e \<in> set events. trace_issues e = []}))) \<and>
   dget (replay_decision_trace events checkpoint) ''invalid_event_count'' =
     PInt (int (length (filter (\<lambda>e. trace_issues e \<noteq> []) events))) \<and>
   dget (replay_decision_trace events checkpoint) ''trace_event_count'' = PInt (int (length events)) \<and>
   dget (replay_decision_trace events checkpoint) ''public_safe'' = PBool (filter private_payload events = []) \<and>
   dget (replay_decision_trace events checkpoint) ''verdict'' =
     PStr (if filter (\<lambda>e. trace_issues e \<noteq> []) events \<noteq> [] then ''critical''
           else trace_verdict (if events = [] then [] else last (first_valid {} events)) checkpoint)"
proof -
  let ?s = "replay_events events"
  have s: "rs_accepted ?s = first_valid {} events" "rs_invalid ?s = length (filter (\<lambda>e. trace_issues e \<noteq> []) events)"
    "rs_private ?s = length (filter private_payload events)"
    "length (rs_accepted ?s) + rs_duplicate ?s + rs_invalid ?s = length events"
    using replay_fold [of events replay_init] replay_conserves [of events replay_init] by (simp_all add: replay_events_def)
  have "first_valid {} events = [] \<longleftrightarrow> events = []" if "filter (\<lambda>e. trace_issues e \<noteq> []) events = []"
  proof (cases events)
    case (Cons e es)
    with that have "trace_issues e = []" by (simp split: if_splits)
    with Cons show ?thesis by simp
  qed simp
  then have "replay_verdict ?s checkpoint = (if filter (\<lambda>e. trace_issues e \<noteq> []) events \<noteq> [] then ''critical''
           else trace_verdict (if events = [] then [] else last (first_valid {} events)) checkpoint)"
    by (simp add: replay_verdict_def s last_event_of_def)
  then show ?thesis
    unfolding replay_decision_trace_def replay_report_def Let_def s(4)
    by (simp add: s(1,2,3) length_first_valid)
qed

text \<open>
  C38: a checkpoint restores the state it was taken from: replaying an empty trace on it reports the verdict, the
  decision, the identifiers and the frontier, running, blocked and waiting lists of the full replay,
  and recommends recovery in the same cases.
\<close>

theorem checkpoint_restores_state:
  "dget (replay_decision_trace [] (build_checkpoint events)) ''verdict'' = dget (replay_decision_trace events []) ''verdict'' \<and>
   dget (replay_decision_trace [] (build_checkpoint events)) ''last_decision'' = dget (replay_decision_trace events []) ''last_decision'' \<and>
   dget (replay_decision_trace [] (build_checkpoint events)) ''last_trace_id'' = dget (replay_decision_trace events []) ''last_trace_id'' \<and>
   dget (replay_decision_trace [] (build_checkpoint events)) ''workstream_id'' = dget (replay_decision_trace events []) ''workstream_id'' \<and>
   dget (replay_decision_trace [] (build_checkpoint events)) ''open_frontier_node_ids'' = dget (replay_decision_trace events []) ''open_frontier_node_ids'' \<and>
   dget (replay_decision_trace [] (build_checkpoint events)) ''running_task_refs'' = dget (replay_decision_trace events []) ''running_task_refs'' \<and>
   dget (replay_decision_trace [] (build_checkpoint events)) ''blocked_task_refs'' = dget (replay_decision_trace events []) ''blocked_task_refs'' \<and>
   dget (replay_decision_trace [] (build_checkpoint events)) ''fan_in_wait_nodes'' = dget (replay_decision_trace events []) ''fan_in_wait_nodes'' \<and>
   dget (replay_decision_trace [] (build_checkpoint events)) ''recovery_needed_reason'' = dget (replay_decision_trace events []) ''recovery_needed_reason'' \<and>
   dget (replay_decision_trace [] (build_checkpoint events)) ''replay_idempotency_key'' = dget (replay_decision_trace events []) ''replay_idempotency_key''"
proof -
  let ?s = "replay_events events" and ?cp = "build_checkpoint events"
  let ?r = "replay_decision_trace events []"
  have empty: "replay_events [] = replay_init" by (simp add: replay_events_def)
  have cp: "dget ?cp ''verdict'' = PStr (replay_verdict ?s [])"
    "dget ?cp ''last_decision'' = PStr (replay_last_decision (last_event_of ?s) [])"
    "dget ?cp ''last_material_decision_ref'' = PStr (or_text (replay_trace_id (last_event_of ?s) []) ''none'')"
    "dget ?cp ''workstream_id'' = PStr (replay_workstream (last_event_of ?s) [])"
    "dget ?cp ''open_frontier_node_ids'' = str_list (take 20 (refs_or (last_event_of ?s) [] ''open_frontier_node_ids''))"
    "dget ?cp ''running_task_refs'' = str_list (take 20 (running_tasks (last_event_of ?s) []))"
    "dget ?cp ''blocked_task_refs'' = str_list (take 20 (refs_or (last_event_of ?s) [] ''blocked_task_refs''))"
    "dget ?cp ''fan_in_wait_nodes'' = str_list (take 20 (refs_or (last_event_of ?s) [] ''fan_in_wait_nodes''))"
    by (simp_all add: build_checkpoint_def replay_decision_trace_def replay_report_def Let_def)
  have lists: "refs (str_list (take 20 (refs_or e [] k))) = take 20 (refs_or e [] k)"
    "refs (str_list (take 20 (running_tasks e []))) = take 20 (running_tasks e [])" for e k
    by (simp_all add: refs_or_def running_tasks_def Let_def refs_take_refs)
  let ?e = "last_event_of ?s"
  have e: "?e = [] \<or> strip_text (dget ?e ''decision'') \<in> set REPLAY_DECISIONS \<and> trace_id_of ?e \<noteq> []"
  proof (cases "first_valid {} events = []")
    case False
    then have "trace_issues (last (first_valid {} events)) = []" using first_valid_ids(3) [of "{}" events] last_in_set by fastforce
    with False show ?thesis using valid_decision valid_trace_id by (simp add: last_event_of_def replay_events_def replay_fold(1))
  qed (simp add: last_event_of_def replay_events_def replay_fold(1))
  have none: "py_strip ''none'' = ''none''" "py_strip ''unknown'' = ''unknown''" "py_strip ''critical'' = ''critical''"
    "py_strip ''insufficient_evidence'' = ''insufficient_evidence''" by (simp_all add: py_strip_word text_eval)
  have verdict: "replay_verdict ?s [] \<noteq> []" "py_strip (replay_verdict ?s []) = replay_verdict ?s []"
    by (simp_all add: replay_verdict_def trace_verdict_def event_verdict_text none strip_text_PStr)
  have decision: "replay_last_decision ?e [] \<noteq> []" "py_strip (replay_last_decision ?e []) = replay_last_decision ?e []"
    using e by (auto simp: replay_last_decision_def none strip_text_PStr strip_text_stripped REPLAY_DECISIONS_def)
  have tid: "py_strip (or_text (replay_trace_id ?e []) ''none'') = or_text (replay_trace_id ?e []) ''none''"
    by (simp add: or_text_def replay_trace_id_def trace_id_of_def strip_text_stripped none)
  have ws: "replay_workstream ?e [] \<noteq> []" "py_strip (replay_workstream ?e []) = replay_workstream ?e []"
    by (simp_all add: replay_workstream_def or_text_def strip_text_stripped none)
  have read: "replay_verdict replay_init ?cp = replay_verdict ?s []" "replay_last_decision [] ?cp = replay_last_decision ?e []"
    "or_text (replay_trace_id [] ?cp) ''none'' = or_text (replay_trace_id ?e []) ''none''"
    "replay_workstream [] ?cp = replay_workstream ?e []"
    "take 20 (running_tasks [] ?cp) = take 20 (running_tasks ?e [])"
    "refs_or [] ?cp k = refs (dget ?cp k)" for k
    using verdict decision tid ws
    by (simp_all add: replay_verdict_def [of replay_init] trace_verdict_def [of "[]"] last_event_of_def [of replay_init]
        replay_last_decision_def [of "[]"] replay_trace_id_def [of "[]"] replay_workstream_def [of "[]"] running_tasks_def [of "[]"]
        cp strip_or strip_text_PStr refs_or_def [of "[]"] lists Let_def or_text_def)
  have "last_event_of replay_init = []" by (simp add: last_event_of_def)
  then show ?thesis
    unfolding replay_decision_trace_def empty replay_report_def Let_def
    by (simp add: read cp lists)
qed

section \<open>A concrete trace\<close>

definition sample_decision :: "string \<Rightarrow> pydict" where
  "sample_decision i =
    [(''trace_id'', PStr i), (''decision'', PStr ''split''), (''reason_codes'', PList [PStr ''R'']),
     (''kanban_task_refs'', PList [PStr ''t1'']), (''postcondition'', PStr ''fanout'')]"

lemma sample_decision_valid: "trace_issues (sample_decision ''a'') = []" "trace_id_of (sample_decision ''a'') = ''a''"
  by (simp_all add: trace_issues_def trace_id_of_def private_payload_def sample_decision_def REPLAY_DECISIONS_def
      refs_def sorted_set_def py_strip_word text_eval)

theorem redelivered_event_changes_counts_only_witness:
  "dget (replay_decision_trace [sample_decision ''a'', sample_decision ''a''] []) ''running_task_refs'' =
     dget (replay_decision_trace [sample_decision ''a''] []) ''running_task_refs'' \<and>
   as_list (dget (replay_decision_trace [sample_decision ''a''] []) ''running_task_refs'') = [PStr ''t1'']"
proof
  have e: "trace_id_of (sample_decision ''a'') \<in> trace_id_of ` {e \<in> set [sample_decision ''a'']. trace_issues e = []}"
    using sample_decision_valid by (intro imageI) simp
  have k: "''running_task_refs'' \<notin> {''duplicate_event_count'', ''trace_event_count'', ''reason_codes''}" by simp
  show "dget (replay_decision_trace [sample_decision ''a'', sample_decision ''a''] []) ''running_task_refs'' =
     dget (replay_decision_trace [sample_decision ''a''] []) ''running_task_refs''"
    using redelivered_event_changes_counts_only [OF sample_decision_valid(1) e k, of "[]" "[]"] by simp
  have "replay_events [sample_decision ''a''] = \<lparr>rs_seen = [''a''], rs_accepted = [sample_decision ''a''], rs_invalid = 0,
      rs_duplicate = 0, rs_private = 0, rs_reasons = []\<rparr>"
    by (simp add: replay_events_def replay_event_cases sample_decision_valid replay_init_def)
  then show "as_list (dget (replay_decision_trace [sample_decision ''a''] []) ''running_task_refs'') = [PStr ''t1'']"
    by (simp add: replay_decision_trace_def replay_report_def Let_def last_event_of_def running_tasks_def refs_or_def
        replay_last_decision_def sample_decision_def refs_def sorted_set_def str_list_def py_strip_word text_eval)
qed

end
