(* ===== verification/PyFloat.thy ===== *)
theory PyFloat
  imports PyValue "HOL-Library.Log_Nat"
begin

text \<open>
  Floating point as the modules use it: IEEE binary64 with round-half-to-even, written on exact rationals
  (\<open>round64\<close>), the conversion \<open>float(value)\<close> with its errors, \<open>min\<close> and \<open>max\<close> in the language's
  order of comparison, and \<open>round(x, 4)\<close>. The sign of zero is not kept.
\<close>

definition round_half_even :: "rat \<Rightarrow> int" where
  "round_half_even y =
     (let f = \<lfloor>y\<rfloor>; r = y - of_int f in
      if r < 1/2 then f else if 1/2 < r then f + 1 else if even f then f else f + 1)"

definition pow2 :: "int \<Rightarrow> rat" where
  "pow2 e = (if 0 \<le> e then 2 ^ nat e else 1 / 2 ^ nat (- e))"

text \<open>The binary exponent of a positive rational, from the lengths of numerator and denominator.\<close>

definition exponent2 :: "rat \<Rightarrow> int" where
  "exponent2 x = (let (n, d) = quotient_of x; e = bitlen n - bitlen d in if pow2 e \<le> x then e else e - 1)"

definition ulp_exponent :: "rat \<Rightarrow> int" where
  "ulp_exponent x = max (exponent2 \<bar>x\<bar> - 52) (- 1074)"

definition round64 :: "rat \<Rightarrow> rat" where
  "round64 x = (if x = 0 then 0 else of_int (round_half_even (x / pow2 (ulp_exponent x))) * pow2 (ulp_exponent x))"

definition overflows :: "rat \<Rightarrow> bool" where
  "overflows x \<longleftrightarrow> pow2 1024 \<le> \<bar>round64 x\<bar>"

datatype pyfloat = Fin rat | PosInf | NegInf | NaN

fun float_less :: "pyfloat \<Rightarrow> pyfloat \<Rightarrow> bool" where
  "float_less (Fin a) (Fin b) = (a < b)"
| "float_less NegInf (Fin _) = True"
| "float_less (Fin _) PosInf = True"
| "float_less NegInf PosInf = True"
| "float_less _ _ = False"

text \<open>\<open>min(a, b)\<close> keeps its first argument unless the second is smaller; \<open>max\<close> likewise.\<close>

definition float_min :: "pyfloat \<Rightarrow> pyfloat \<Rightarrow> pyfloat" where
  "float_min a b = (if float_less b a then b else a)"

definition float_max :: "pyfloat \<Rightarrow> pyfloat \<Rightarrow> pyfloat" where
  "float_max a b = (if float_less a b then b else a)"

definition finite_part :: "pyfloat \<Rightarrow> rat" where
  "finite_part a = (case a of Fin q \<Rightarrow> q | _ \<Rightarrow> 0)"

section \<open>Reading floats\<close>

text \<open>Underscores may stand between two digits only.\<close>

fun underscores_ok :: "bool \<Rightarrow> string \<Rightarrow> bool" where
  "underscores_ok after_digit [] = True"
| "underscores_ok after_digit (c # cs) =
     (if c = CHR ''_'' then after_digit \<and> (case cs of [] \<Rightarrow> False | d # _ \<Rightarrow> is_digit d) \<and> underscores_ok False cs
      else underscores_ok (is_digit c) cs)"

definition digits_value :: "string \<Rightarrow> int" where
  "digits_value ds = foldl (\<lambda>a c. a * 10 + digit_val c) 0 ds"

definition pow10 :: "int \<Rightarrow> rat" where
  "pow10 e = (if 0 \<le> e then 10 ^ nat e else 1 / 10 ^ nat (- e))"

fun parse_exponent :: "string \<Rightarrow> int option" where
  "parse_exponent [] = Some 0"
| "parse_exponent (e # cs) =
     (let (s, ds) = (case cs of c # ds \<Rightarrow> if c = CHR ''-'' then (- 1, ds) else if c = CHR ''+'' then (1, ds) else (1, cs)
                     | [] \<Rightarrow> (1, cs)) in
      if ds \<noteq> [] \<and> list_all is_digit ds then Some (s * digits_value ds) else None)"

definition parse_decimal :: "string \<Rightarrow> rat option" where
  "parse_decimal s =
     (let mantissa = takeWhile (\<lambda>c. c \<noteq> CHR ''e'') s; rest = dropWhile (\<lambda>c. c \<noteq> CHR ''e'') s;
          whole = takeWhile is_digit mantissa; tail = dropWhile is_digit mantissa;
          fraction = (case tail of [] \<Rightarrow> Some [] | c # ds \<Rightarrow> if c = CHR ''.'' \<and> list_all is_digit ds then Some ds else None) in
      case (fraction, parse_exponent rest) of
        (Some ds, Some e) \<Rightarrow>
          if whole = [] \<and> ds = [] then None
          else Some (of_int (digits_value (whole @ ds)) * pow10 (e - int (length ds)))
      | _ \<Rightarrow> None)"

definition signed_float :: "bool \<Rightarrow> rat \<Rightarrow> pyfloat" where
  "signed_float neg x =
     (if overflows x then (if neg then NegInf else PosInf) else Fin (if neg then - round64 x else round64 x))"

definition parse_float :: "string \<Rightarrow> pyfloat option" where
  "parse_float text =
     (let t = py_lower (py_strip text);
          neg = (case t of c # _ \<Rightarrow> c = CHR ''-'' | [] \<Rightarrow> False);
          s = (case t of c # cs \<Rightarrow> if c \<in> {CHR ''-'', CHR ''+''} then cs else t | [] \<Rightarrow> t) in
      if s \<in> {''inf'', ''infinity''} then Some (if neg then NegInf else PosInf)
      else if s = ''nan'' then Some NaN
      else if \<not> underscores_ok False s then None
      else map_option (signed_float neg) (parse_decimal (filter (\<lambda>c. c \<noteq> CHR ''_'') s)))"

fun py_float :: "pyval \<Rightarrow> pyfloat result" where
  "py_float (PInt i) = (if overflows (of_int i) then Inl OverflowError else Inr (Fin (round64 (of_int i))))"
| "py_float (PBool b) = Inr (Fin (if b then 1 else 0))"
| "py_float (PFloat q _) = Inr (Fin q)"
| "py_float (PStr s) = (case parse_float s of Some f \<Rightarrow> Inr f | None \<Rightarrow> Inl ValueError)"
| "py_float PNone = Inl TypeError"
| "py_float (PList _) = Inl TypeError"
| "py_float (PDict _) = Inl TypeError"

text \<open>\<^verbatim>\<open>try: return float(value) except (TypeError, ValueError): return default\<close>; an overflow is not caught.\<close>

definition float_or :: "pyval \<Rightarrow> rat \<Rightarrow> pyfloat result" where
  "float_or v q0 =
     (case py_float v of
        Inr f \<Rightarrow> Inr f
      | Inl e \<Rightarrow> if e \<in> {TypeError, ValueError} then Inr (Fin q0) else Inl e)"

section \<open>Arithmetic\<close>

definition fadd :: "rat \<Rightarrow> rat \<Rightarrow> rat" where "fadd a b = round64 (a + b)"
definition fsub :: "rat \<Rightarrow> rat \<Rightarrow> rat" where "fsub a b = round64 (a - b)"
definition fmul :: "rat \<Rightarrow> rat \<Rightarrow> rat" where "fmul a b = round64 (a * b)"

text \<open>\<open>round(x, n)\<close>: the exact value to \<open>n\<close> decimals, half to even, and back to a float.\<close>

definition round_digits :: "nat \<Rightarrow> rat \<Rightarrow> rat" where
  "round_digits n x = round64 (of_int (round_half_even (x * 10 ^ n)) / 10 ^ n)"

section \<open>Lemmas\<close>

lemma round_half_even_error: "\<bar>of_int (round_half_even y) - y\<bar> \<le> 1/2"
  using floor_correct [of y] unfolding round_half_even_def Let_def by (simp add: abs_le_iff)

lemma round_half_even_int [simp]: "round_half_even (of_int i) = i"
  by (simp add: round_half_even_def Let_def)

lemma round_half_even_mono: "x \<le> y \<Longrightarrow> round_half_even x \<le> round_half_even y"
proof -
  assume le: "x \<le> y"
  show ?thesis
  proof (cases "\<lfloor>x\<rfloor> = \<lfloor>y\<rfloor>")
    case True
    with le show ?thesis unfolding round_half_even_def Let_def by simp
  next
    case False
    with le have "\<lfloor>x\<rfloor> + 1 \<le> \<lfloor>y\<rfloor>" using floor_mono by (metis add1_zle_eq order_le_less)
    then show ?thesis unfolding round_half_even_def Let_def by simp
  qed
qed

lemma pow2_pos [simp]: "0 < pow2 e" "pow2 e \<noteq> 0"
  by (simp_all add: pow2_def)

text \<open>A result is a whole number of units in the last place, at most half a unit from the exact value.\<close>

lemma round64_error: "\<bar>round64 x - x\<bar> \<le> pow2 (ulp_exponent x) / 2"
proof (cases "x = 0")
  case False
  let ?u = "pow2 (ulp_exponent x)"
  have "\<bar>of_int (round_half_even (x / ?u)) - x / ?u\<bar> \<le> 1/2" by (rule round_half_even_error)
  then have "\<bar>of_int (round_half_even (x / ?u)) - x / ?u\<bar> * ?u \<le> 1/2 * ?u" by (intro mult_right_mono) (simp_all add: less_imp_le)
  moreover have "\<bar>of_int (round_half_even (x / ?u)) - x / ?u\<bar> * ?u = \<bar>round64 x - x\<bar>"
    using False pow2_pos(1) [of "ulp_exponent x"] by (simp add: round64_def abs_mult_pos' [symmetric] left_diff_distrib abs_mult_pos less_imp_le)
  ultimately show ?thesis by simp
qed (simp add: round64_def less_imp_le)

lemma round64_0 [simp]: "round64 0 = 0"
  by (simp add: round64_def)

lemma exponent2_unit: "0 \<le> x \<Longrightarrow> x \<le> 1 \<Longrightarrow> exponent2 x \<le> 0"
proof -
  assume x: "0 \<le> x" "x \<le> 1"
  obtain n d where q: "quotient_of x = (n, d)" by fastforce
  have d: "0 < d" "x = of_int n / of_int d" using quotient_of_denom_pos [OF q] quotient_of_div [OF q] by simp_all
  have "of_int n = x * of_int d" using d by simp
  also have "\<dots> \<le> 1 * of_int d" by (rule mult_right_mono [OF x(2)]) (use d(1) in simp)
  finally have "n \<le> d" by (simp only: mult_1_left of_int_le_iff)
  then have "bitlen n \<le> bitlen d" using floorlog_mono [of "nat n" "nat d" 2] by (simp add: bitlen_def)
  then show ?thesis by (simp add: exponent2_def q Let_def)
qed

lemma round64_unit: "0 \<le> x \<Longrightarrow> x \<le> 1 \<Longrightarrow> round64 x \<le> 1"
proof -
  assume x: "0 \<le> x" "x \<le> 1"
  define e where "e = nat (- ulp_exponent x)"
  have "ulp_exponent x \<le> 0" using exponent2_unit [OF x] x by (simp add: ulp_exponent_def)
  then have p: "pow2 (ulp_exponent x) = 1 / 2 ^ e" by (cases "ulp_exponent x = 0") (simp_all add: pow2_def e_def)
  have "round_half_even (x * 2 ^ e) \<le> round_half_even (of_int (2 ^ e))"
    using mult_right_mono [OF x(2), of "2 ^ e"] by (intro round_half_even_mono) simp
  then have "round_half_even (x * 2 ^ e) \<le> 2 ^ e" by (simp only: round_half_even_int)
  then have "of_int (round_half_even (x * 2 ^ e)) \<le> (of_int (2 ^ e) :: rat)" by (simp only: of_int_le_iff)
  then show ?thesis by (simp add: round64_def p)
qed

lemma round64_nonneg: "0 \<le> x \<Longrightarrow> 0 \<le> round64 x"
proof -
  assume "0 \<le> x"
  then have "0 \<le> x / pow2 (ulp_exponent x)" by (simp add: less_imp_le)
  then have "round_half_even 0 \<le> round_half_even (x / pow2 (ulp_exponent x))" by (rule round_half_even_mono)
  moreover have "round_half_even 0 = 0" using round_half_even_int [of 0] by simp
  ultimately show ?thesis by (simp add: round64_def less_imp_le)
qed

end
