(* ===== verification/ContinuationEngine.thy ===== *)
theory ContinuationEngine
  imports Continuation PyFloat
begin

text \<open>
  \<open>hermes_continuation/engine.py\<close>: the next-action decision and the contract of the runtime adapter. Scores
  are binary64 floats (\<open>PyFloat\<close>); reading one may raise \<open>OverflowError\<close>, so the decision is a result. The
  conditions the branches test are the record \<open>engine_facts\<close>, the decision with everything it reports the
  record \<open>engine_decision\<close> (the constant fields of the report are left out).
\<close>

definition EVENT_KINDS :: "string list" where
  "EVENT_KINDS =
    [''task_completed'', ''task_blocked'', ''task_crashed'', ''task_timed_out'', ''blocker_cleared'', ''approval_received'',
     ''provider_quota_blocked'', ''evolver_signal_observed'', ''frontier_empty'', ''frontier_below_saturation'']"

definition ACTION_SET :: "string list" where
  "ACTION_SET = [''continue'', ''split'', ''verify'', ''repair'', ''learn'', ''wait'', ''human_needed'']"

definition HEALTH_VERDICTS :: "string list" where
  "HEALTH_VERDICTS =
    [''healthy'', ''degraded'', ''critical'', ''stopped_intentionally'', ''waiting_for_human'', ''waiting_for_signal'',
     ''insufficient_evidence'']"

section \<open>Scores\<close>

definition bounded_score :: "pyval \<Rightarrow> rat result" where
  "bounded_score v = map_sum id (\<lambda>x. finite_part (float_max (Fin 0) (float_min (Fin 1) x))) (float_or v 0)"

record score_summary =
  sc_expected_value_next :: rat
  sc_confidence :: rat
  sc_intervention_risk :: rat
  sc_repetition_penalty :: rat
  sc_autonomy_gain :: rat
  sc_progress_delta :: rat
  sc_novelty :: rat
  sc_independence_score :: rat
  sc_repair_urgency :: rat
  sc_continue_score :: rat

definition SCORE_KEYS :: "string list" where
  "SCORE_KEYS =
    [''expected_value_next'', ''confidence'', ''intervention_risk'', ''repetition_penalty'', ''autonomy_gain'',
     ''progress_delta'', ''novelty'', ''independence_score'', ''repair_urgency'']"

definition continue_score :: "rat \<Rightarrow> rat \<Rightarrow> rat \<Rightarrow> rat \<Rightarrow> rat \<Rightarrow> rat \<Rightarrow> rat \<Rightarrow> rat" where
  "continue_score expected confidence gain progress novelty risk penalty =
     (let raw = fsub (fsub (fadd (fadd (fadd (fmul expected confidence)
                  (fmul (round64 (30/100)) gain)) (fmul (round64 (25/100)) progress)) (fmul (round64 (15/100)) novelty))
                  (fmul (round64 (35/100)) risk)) (fmul (round64 (30/100)) penalty)
      in round_digits 4 (max 0 (min 1 raw)))"

definition summary_of_scores :: "rat list \<Rightarrow> score_summary" where
  "summary_of_scores s =
    \<lparr>sc_expected_value_next = s ! 0, sc_confidence = s ! 1, sc_intervention_risk = s ! 2, sc_repetition_penalty = s ! 3,
     sc_autonomy_gain = s ! 4, sc_progress_delta = s ! 5, sc_novelty = s ! 6, sc_independence_score = s ! 7,
     sc_repair_urgency = s ! 8,
     sc_continue_score = continue_score (s ! 0) (s ! 1) (s ! 4) (s ! 5) (s ! 6) (s ! 2) (s ! 3)\<rparr>"

definition score_summary_of :: "pydict \<Rightarrow> score_summary result" where
  "score_summary_of scores = map_sum id summary_of_scores (map_result (\<lambda>k. bounded_score (dget scores k)) SCORE_KEYS)"

section \<open>Keys and forecast\<close>

definition seen_keys :: "pydict \<Rightarrow> string list" where
  "seen_keys state =
     filter (\<lambda>t. t \<noteq> []) (map strip_text (as_list (dget state ''seen_idempotency_keys'')) @
       map (\<lambda>r. strip_text (py_or (dget r ''idempotency_key'') (dget r ''source_event_id'')))
         (mappings (as_list (dget state ''decision_journal''))))"

definition event_idempotency_key :: "pydict \<Rightarrow> string \<Rightarrow> string" where
  "event_idempotency_key event adapter_identity =
     (let explicit = strip_text (dget event ''idempotency_key'') in
      if explicit \<noteq> [] then explicit
      else ''ace:'' @ take 24 (sha256_hex (py_join ''|''
        [adapter_identity, strip_text (py_or (dget event ''source'') (dget event ''source_id'')),
         strip_text (py_or (dget event ''event_id'') (dget event ''id'')), strip_text (dget event ''task_id''),
         strip_text (dget event ''kind'')])))"

record forecast_item =
  fi_rank :: nat
  fi_id :: string
  fi_summary :: string
  fi_expected_value_next :: rat
  fi_confidence :: rat
  fi_independence_score :: rat
  fi_requires_verification :: bool
  fi_stale :: bool

definition forecast_item_of :: "nat \<times> pyval \<Rightarrow> forecast_item list result" where
  "forecast_item_of p =
     (let idx = fst p; item = as_mapping (snd p) in
      if \<not> is_mapping (snd p) then Inr []
      else map_sum id (\<lambda>s.
        [\<lparr>fi_rank = idx, fi_id = or_text (strip_text (dget item ''id'')) (''step-'' @ show_int (int idx)),
          fi_summary = take 220 (strip_text (py_or (dget item ''summary'') (dget item ''title''))),
          fi_expected_value_next = s ! 0, fi_confidence = s ! 1, fi_independence_score = s ! 2,
          fi_requires_verification = lenient_bool (dget item ''requires_verification''),
          fi_stale = lenient_bool (dget item ''stale'')\<rparr>])
        (map_result (\<lambda>k. bounded_score (dget item k)) [''expected_value_next'', ''confidence'', ''independence_score'']))"

definition normalize_forecast :: "pyval \<Rightarrow> forecast_item list result" where
  "normalize_forecast raw =
     (let xs = (if is_list raw then as_list raw else as_list (dget (as_mapping raw) ''items''))
      in map_sum id concat (map_result forecast_item_of (enumerate 1 (take 5 xs))))"

definition forecast_revision_required :: "pydict \<Rightarrow> forecast_item list \<Rightarrow> bool" where
  "forecast_revision_required event forecast \<longleftrightarrow>
     lenient_bool (dget event ''contradicts_forecast'') \<or> lenient_bool (dget event ''new_evidence'') \<or>
     strip_text (dget event ''kind'') \<in>
       {''task_completed'', ''task_blocked'', ''task_crashed'', ''task_timed_out'', ''blocker_cleared''} \<or>
     list_ex fi_stale forecast"

section \<open>The decision\<close>

record engine_facts =
  ef_duplicate :: bool
  ef_explicit_stop :: bool
  ef_no_signal :: bool
  ef_local_repair :: bool
  ef_external_side_effect :: bool
  ef_destructive :: bool
  ef_approval_missing :: bool
  ef_authority_missing :: bool
  ef_credential_missing :: bool
  ef_private_leak :: bool
  ef_artifact_missing :: bool
  ef_contradicted :: bool
  ef_worker_crashed :: bool
  ef_quota_blocked :: bool
  ef_evolver_observed :: bool
  ef_repeated_filler :: bool
  ef_risky :: bool
  ef_low_confidence :: bool
  ef_high_value :: bool
  ef_can_split :: bool
  ef_urgent_repair :: bool
  ef_good_continue :: bool

definition part_of :: "pydict \<Rightarrow> string \<Rightarrow> pydict" where
  "part_of evidence k = as_mapping (dget evidence k)"

definition engine_state :: "pydict \<Rightarrow> pydict" where
  "engine_state evidence = as_mapping (py_or (dget evidence ''controller_state'') (dget evidence ''state''))"

definition adapter_identity_of :: "pydict \<Rightarrow> string" where
  "adapter_identity_of evidence = or_text (strip_text (dget (part_of evidence ''adapter'') ''identity'')) ''universal''"

definition engine_key :: "pydict \<Rightarrow> string" where
  "engine_key evidence = event_idempotency_key (part_of evidence ''event'') (adapter_identity_of evidence)"

definition event_kind :: "pydict \<Rightarrow> string" where
  "event_kind evidence = strip_text (dget (part_of evidence ''event'') ''kind'')"

definition is_risky :: "pydict \<Rightarrow> score_summary \<Rightarrow> bool" where
  "is_risky evidence s \<longleftrightarrow>
     round64 (70/100) \<le> sc_intervention_risk s \<or> lenient_bool (dget (part_of evidence ''safety'') ''external_side_effect'') \<or>
     lenient_bool (dget (part_of evidence ''safety'') ''destructive_action'')"

definition engine_facts_of :: "pydict \<Rightarrow> score_summary \<Rightarrow> forecast_item list \<Rightarrow> engine_facts" where
  "engine_facts_of evidence s forecast =
     (let event = part_of evidence ''event''; state = engine_state evidence; safety = part_of evidence ''safety'';
          frontier = part_of evidence ''frontier''; review = part_of evidence ''review''; artifacts = part_of evidence ''artifacts'';
          evolver = part_of evidence ''evolver_signal''; adapter = part_of evidence ''adapter''; kind = event_kind evidence;
          risky = is_risky evidence s; high_value = round64 (65/100) \<le> sc_expected_value_next s in
      \<lparr>ef_duplicate = engine_key evidence \<in> set (seen_keys state),
       ef_explicit_stop = lenient_bool (dget state ''intentional_stop'') \<or>
         strip_text (dget state ''status'') = ''stopped_intentionally'',
       ef_no_signal = (kind = [] \<and> forecast = [] \<and> \<not> lenient_bool (dget frontier ''actionable_frontier_count'')),
       ef_local_repair = lenient_bool (dget safety ''local_repair_available''),
       ef_external_side_effect = lenient_bool (dget safety ''external_side_effect''),
       ef_destructive = lenient_bool (dget safety ''destructive_action''),
       ef_approval_missing = lenient_bool (dget safety ''approval_missing''),
       ef_authority_missing = lenient_bool (dget safety ''authority_missing''),
       ef_credential_missing = lenient_bool (dget safety ''credential_missing''),
       ef_private_leak = lenient_bool (dget adapter ''private_data_present'') \<or>
         lenient_bool (dget safety ''private_adapter_leak''),
       ef_artifact_missing = lenient_bool (dget artifacts ''required_missing'') \<or>
         lenient_bool (dget event ''artifact_missing''),
       ef_contradicted = lenient_bool (dget event ''contradicted'') \<or> lenient_bool (dget event ''previous_step_wrong''),
       ef_worker_crashed = kind \<in> {''task_crashed'', ''task_timed_out''} \<or> lenient_bool (dget event ''worker_crashed''),
       ef_quota_blocked = kind = ''provider_quota_blocked'' \<or> lenient_bool (dget safety ''provider_quota_blocked''),
       ef_evolver_observed = lenient_bool (dget evolver ''observed'') \<or> kind = ''evolver_signal_observed'',
       ef_repeated_filler = round64 (65/100) \<le> sc_repetition_penalty s \<or>
         lenient_bool (dget review ''filler_loop_detected''),
       ef_risky = risky,
       ef_low_confidence = sc_confidence s < round64 (55/100),
       ef_high_value = high_value,
       ef_can_split = round64 (70/100) \<le> sc_independence_score s \<and> high_value \<and> round64 (65/100) \<le> sc_confidence s \<and>
         int_or (dget state ''current_fanout'') 0 < int_or (dget state ''max_fanout'') 4 \<and> \<not> risky,
       ef_urgent_repair = round64 (65/100) \<le> sc_repair_urgency s,
       ef_good_continue = round64 (45/100) \<le> sc_continue_score s\<rparr>)"

definition choose_action :: "engine_facts \<Rightarrow> string \<times> string \<times> string" where
  "choose_action f =
     (if ef_duplicate f then (''wait'', ''healthy'', ''DUPLICATE_EVENT_IGNORED'')
      else if ef_explicit_stop f then (''wait'', ''stopped_intentionally'', ''INTENTIONAL_STOP_ACTIVE'')
      else if ef_private_leak f then (''human_needed'', ''critical'', ''PRIVATE_ADAPTER_LEAK'')
      else if ef_authority_missing f \<or> ef_credential_missing f \<or>
              (ef_approval_missing f \<and> (ef_external_side_effect f \<or> ef_destructive f))
        then (''human_needed'', ''waiting_for_human'', ''MISSING_AUTHORITY_OR_APPROVAL'')
      else if ef_local_repair f \<and> (ef_artifact_missing f \<or> ef_contradicted f \<or> ef_worker_crashed f \<or> ef_repeated_filler f)
        then (''repair'', ''degraded'', ''LOCAL_REPAIR_REQUIRED'')
      else if ef_contradicted f \<or> ef_urgent_repair f then (''repair'', ''degraded'', ''BACKTRACK_OR_REPAIR_REQUIRED'')
      else if ef_artifact_missing f then (''repair'', ''degraded'', ''MISSING_REQUIRED_ARTIFACT'')
      else if ef_worker_crashed f then (''repair'', ''degraded'', ''WORKER_FAILURE_REPAIR_REQUIRED'')
      else if ef_quota_blocked f then (''wait'', ''waiting_for_signal'', ''PROVIDER_QUOTA_BLOCKED'')
      else if ef_evolver_observed f then (''verify'', ''degraded'', ''EVOLVER_SIGNAL_REQUIRES_VERIFICATION'')
      else if ef_repeated_filler f then (''learn'', ''degraded'', ''REPETITION_OR_FILLER_LOOP'')
      else if ef_risky f \<or> (ef_low_confidence f \<and> ef_high_value f) then (''verify'', ''degraded'', ''VERIFY_BEFORE_ACTION'')
      else if ef_can_split f then (''split'', ''healthy'', ''INDEPENDENT_HIGH_VALUE_BRANCH'')
      else if ef_good_continue f \<and> \<not> ef_low_confidence f \<and> \<not> ef_no_signal f
        then (''continue'', ''healthy'', ''MEANINGFUL_CONTINUATION'')
      else if ef_no_signal f then (''wait'', ''waiting_for_signal'', ''NO_SIGNAL_NO_FILLER'')
      else (''wait'', ''insufficient_evidence'', ''INSUFFICIENT_VALUE_OR_CONFIDENCE''))"

text \<open>The two checks after the branches, on decision, verdict and the reasons so far.\<close>

definition normalize_action :: "string \<times> string \<times> string list \<Rightarrow> string \<times> string \<times> string list" where
  "normalize_action p =
     (let (decision, verdict, reasons) = p;
          (decision, verdict, reasons) =
            (if decision \<notin> set ACTION_SET then (''wait'', ''critical'', reasons @ [''INVALID_ACTION_NORMALIZED''])
             else (decision, verdict, reasons)) in
      if verdict \<notin> set HEALTH_VERDICTS then (decision, ''critical'', reasons @ [''INVALID_VERDICT_NORMALIZED''])
      else (decision, verdict, reasons))"

definition decision_change_hint :: "string \<Rightarrow> string" where
  "decision_change_hint decision =
     (if decision = ''human_needed'' then ''local authority, credential, approval, or safe confidence becomes available''
      else if decision = ''wait'' then ''new meaningful event, evidence, or unblocked dependency appears''
      else if decision = ''verify'' then ''verifier raises confidence or lowers risk''
      else if decision = ''repair'' then ''missing artifact, contradiction, crash, or wrong step is resolved''
      else if decision = ''learn'' then ''repetition or failure pattern is converted into a regression or skill update''
      else if decision = ''split'' then ''branch independence, fanout budget, or value score changes''
      else ''new evidence changes expected value, confidence, or risk'')"

record engine_decision =
  ed_adapter_identity :: string
  ed_event_kind :: string
  ed_idempotency_key :: string
  ed_duplicate_ignored :: bool
  ed_decision :: string
  ed_verdict :: string
  ed_scores :: score_summary
  ed_forecast :: "forecast_item list"
  ed_forecast_revision_required :: bool
  ed_deep_verifier_required :: bool
  ed_worker_self_final_allowed :: bool
  ed_facts :: engine_facts
  ed_learning_reasons :: "string list"
  ed_what_would_change_decision :: string
  ed_reason_codes :: "string list"

definition engine_decision_of :: "pydict \<Rightarrow> score_summary \<Rightarrow> forecast_item list \<Rightarrow> engine_decision" where
  "engine_decision_of evidence s forecast =
     (let facts = engine_facts_of evidence s forecast;
          kind = event_kind evidence;
          revision = forecast_revision_required (part_of evidence ''event'') forecast;
          early = (if kind \<noteq> [] \<and> kind \<notin> set EVENT_KINDS then [''UNKNOWN_EVENT_KIND''] else []) @
                  (if revision then [''ROLLING_NEXT5_REVIEW_REQUIRED''] else []);
          (action, verdict, reason) = choose_action facts;
          (decision, verdict, reasons) = normalize_action (action, verdict, early @ [reason]) in
      \<lparr>ed_adapter_identity = adapter_identity_of evidence,
       ed_event_kind = or_text kind ''none'',
       ed_idempotency_key = engine_key evidence,
       ed_duplicate_ignored = ef_duplicate facts,
       ed_decision = decision,
       ed_verdict = verdict,
       ed_scores = s,
       ed_forecast = forecast,
       ed_forecast_revision_required = revision,
       ed_deep_verifier_required = decision \<in> {''split'', ''verify'', ''repair'', ''human_needed''} \<or> ef_risky facts \<or> ef_low_confidence facts,
       ed_worker_self_final_allowed = decision \<notin> {''split'', ''verify'', ''repair'', ''human_needed''},
       ed_facts = facts,
       ed_learning_reasons =
         (if decision \<in> {''repair'', ''learn''} then [hd (sorted_set reasons)] else []),
       ed_what_would_change_decision = decision_change_hint decision,
       ed_reason_codes = sorted_set reasons\<rparr>)"

definition forecast_source :: "pydict \<Rightarrow> pyval" where
  "forecast_source evidence =
     py_or (dget evidence ''rolling_next5'') (py_or (dget (engine_state evidence) ''rolling_next5'') (dget evidence ''forecast''))"

definition build_autonomy_continuation_decision :: "pydict \<Rightarrow> engine_decision result" where
  "build_autonomy_continuation_decision evidence =
     (case score_summary_of (part_of evidence ''scores'') of
        Inl e \<Rightarrow> Inl e
      | Inr s \<Rightarrow> map_sum id (engine_decision_of evidence s) (normalize_forecast (forecast_source evidence)))"

section \<open>The runtime adapter\<close>

record adapter_report =
  ar_verdict :: string
  ar_adapter_identity :: string
  ar_decision :: string
  ar_side_effect_channel :: string
  ar_applies_side_effect :: bool
  ar_receipt_written :: bool
  ar_cursor_persisted :: bool
  ar_idempotent_applier :: bool
  ar_failure_reported_as_state :: bool
  ar_reason_codes :: "string list"

definition hermes_owned :: "string \<Rightarrow> bool" where
  "hermes_owned channel \<longleftrightarrow> channel \<in> {''none'', [], ''hermes_kanban'', ''hermes_cron'', ''hermes_gateway''}"

definition build_autonomy_runtime_adapter_contract :: "pydict \<Rightarrow> adapter_report" where
  "build_autonomy_runtime_adapter_contract evidence =
     (let adapter = part_of evidence ''adapter''; runtime = part_of evidence ''runtime'';
          action = strip_text (dget (part_of evidence ''decision'') ''decision'');
          channel = strip_text (dget runtime ''side_effect_channel'');
          applies = action \<in> {''continue'', ''split'', ''repair'', ''learn'', ''verify''} \<and> action \<noteq> ''wait'';
          receipt = lenient_bool (dget (part_of evidence ''receipt'') ''written'');
          cursor = lenient_bool (dget (part_of evidence ''cursor'') ''persisted'');
          idempotent = lenient_bool (dget runtime ''idempotent_applier'');
          failure_as_state = lenient_bool (dget runtime ''failure_reported_as_state'');
          leak = lenient_bool (dget adapter ''private_data_present'');
          evolver = lenient_bool (dget runtime ''direct_evolver_execution'');
          domain = lenient_bool (dget runtime ''direct_domain_execution'');
          reasons =
            (if applies \<and> \<not> hermes_owned channel then [''SIDE_EFFECT_CHANNEL_NOT_HERMES_OWNED''] else []) @
            (if applies \<and> \<not> receipt then [''MISSING_RESULT_RECEIPT''] else []) @
            (if applies \<and> \<not> cursor then [''MISSING_REPLAY_CURSOR''] else []) @
            (if applies \<and> \<not> idempotent then [''ADAPTER_NOT_IDEMPOTENT''] else []) @
            (if \<not> failure_as_state then [''FAILURE_NOT_REPORTED_AS_STATE''] else []) @
            (if leak then [''PRIVATE_ADAPTER_LEAK''] else []) @
            (if evolver then [''DIRECT_EVOLVER_EXECUTION_FORBIDDEN''] else []) @
            (if domain then [''DIRECT_DOMAIN_EXECUTION_FORBIDDEN''] else []);
          verdict =
            (if leak \<or> evolver \<or> domain \<or> (applies \<and> \<not> hermes_owned channel) then ''critical''
             else if reasons \<noteq> [] then ''degraded'' else ''healthy'') in
      \<lparr>ar_verdict = verdict,
       ar_adapter_identity = or_text (strip_text (dget adapter ''identity'')) ''universal'',
       ar_decision = or_text action ''none'',
       ar_side_effect_channel = or_text channel ''none'',
       ar_applies_side_effect = applies,
       ar_receipt_written = receipt,
       ar_cursor_persisted = cursor,
       ar_idempotent_applier = idempotent,
       ar_failure_reported_as_state = failure_as_state,
       ar_reason_codes = sorted_set (if verdict = ''healthy'' then reasons @ [''RUNTIME_ADAPTER_CONTRACT_HEALTHY''] else reasons)\<rparr>)"

section \<open>Lemmas\<close>

lemma map_result_props:
  "map_result f xs = Inr ys \<Longrightarrow> length ys = length xs \<and> (\<forall>y \<in> set ys. \<exists>x \<in> set xs. f x = Inr y)"
proof (induction xs arbitrary: ys)
  case (Cons x xs)
  then obtain z zs where "f x = Inr z" "map_result f xs = Inr zs" "ys = z # zs" by (auto split: sum.splits)
  with Cons.IH show ?case by auto
qed simp

lemma map_sum_Inr: "map_sum id g r = Inr y \<longleftrightarrow> (\<exists>x. r = Inr x \<and> y = g x)"
  by (cases r) auto

lemma bounded_score_range: "bounded_score v = Inr q \<Longrightarrow> 0 \<le> q \<and> q \<le> 1"
proof -
  assume "bounded_score v = Inr q"
  then obtain x where "q = finite_part (float_max (Fin 0) (float_min (Fin 1) x))" by (auto simp: bounded_score_def map_sum_Inr)
  then show ?thesis by (cases x) (simp_all add: float_min_def float_max_def finite_part_def)
qed

text \<open>A score that is the text of a NaN counts as the full score.\<close>

lemma nan_scores_one: "bounded_score (PStr ''nan'') = Inr 1"
proof -
  have "parse_float ''nan'' = Some NaN" by code_simp
  then show ?thesis by (simp add: bounded_score_def float_or_def float_min_def float_max_def finite_part_def)
qed

definition scores_bounded :: "score_summary \<Rightarrow> bool" where
  "scores_bounded s \<longleftrightarrow>
     list_all (\<lambda>q. 0 \<le> q \<and> q \<le> 1)
       [sc_expected_value_next s, sc_confidence s, sc_intervention_risk s, sc_repetition_penalty s, sc_autonomy_gain s,
        sc_progress_delta s, sc_novelty s, sc_independence_score s, sc_repair_urgency s, sc_continue_score s]"

lemma round_digits_nonneg: "0 \<le> x \<Longrightarrow> 0 \<le> round_digits n x"
proof -
  assume "0 \<le> x"
  then have "round_half_even 0 \<le> round_half_even (x * 10 ^ n)" by (intro round_half_even_mono) simp
  moreover have "round_half_even 0 = 0" using round_half_even_int [of 0] by simp
  ultimately show ?thesis unfolding round_digits_def by (intro round64_nonneg) simp
qed

lemma round_digits_unit: "0 \<le> x \<Longrightarrow> x \<le> 1 \<Longrightarrow> round_digits n x \<le> 1"
proof -
  assume x: "0 \<le> x" "x \<le> 1"
  define k where "k = round_half_even (x * 10 ^ n)"
  have "round_half_even (of_int (10 ^ n)) = 10 ^ n" by (rule round_half_even_int)
  then have k: "0 \<le> k" "k \<le> 10 ^ n"
    using round_half_even_mono [of 0 "x * 10 ^ n"] round_half_even_mono [of "x * 10 ^ n" "10 ^ n"] x round_half_even_int [of 0]
    by (simp_all add: k_def)
  then have "of_int k \<le> (of_int (10 ^ n) :: rat)" by (simp only: of_int_le_iff)
  then have "of_int k / 10 ^ n \<le> (1 :: rat)" "0 \<le> of_int k / (10 ^ n :: rat)" using k(1) by simp_all
  then show ?thesis by (simp add: round_digits_def k_def round64_unit)
qed

lemma score_summary_bounded:
  assumes "score_summary_of scores = Inr s"
  shows "scores_bounded s"
proof -
  obtain qs where q: "map_result (\<lambda>k. bounded_score (dget scores k)) SCORE_KEYS = Inr qs" "s = summary_of_scores qs"
    using assms by (auto simp: score_summary_of_def map_sum_Inr)
  have len: "length qs = 9" and b: "\<forall>q \<in> set qs. 0 \<le> q \<and> q \<le> 1"
    using map_result_props [OF q(1)] bounded_score_range by (auto simp: SCORE_KEYS_def)
  have "0 \<le> qs ! i \<and> qs ! i \<le> 1" if "i < 9" for i using b len that by (metis nth_mem)
  then show ?thesis
    by (simp add: scores_bounded_def q(2) summary_of_scores_def continue_score_def Let_def round_digits_nonneg round_digits_unit)
qed

lemma choose_range: "fst (choose_action f) \<in> set ACTION_SET" "fst (snd (choose_action f)) \<in> set HEALTH_VERDICTS"
  unfolding choose_action_def ACTION_SET_def HEALTH_VERDICTS_def by (simp_all split: if_split)

lemma normalize_choose:
  "normalize_action (fst (choose_action f), fst (snd (choose_action f)), rs) = (fst (choose_action f), fst (snd (choose_action f)), rs)"
  using choose_range [of f] by (simp add: normalize_action_def)

lemma engine_decision_fields:
  "ed_decision (engine_decision_of evidence s forecast) = fst (choose_action (engine_facts_of evidence s forecast))"
  "ed_verdict (engine_decision_of evidence s forecast) = fst (snd (choose_action (engine_facts_of evidence s forecast)))"
  "snd (snd (choose_action (engine_facts_of evidence s forecast))) \<in> set (ed_reason_codes (engine_decision_of evidence s forecast))"
  "ed_facts (engine_decision_of evidence s forecast) = engine_facts_of evidence s forecast"
  "ed_idempotency_key (engine_decision_of evidence s forecast) = engine_key evidence"
  "ed_scores (engine_decision_of evidence s forecast) = s"
  "ed_forecast (engine_decision_of evidence s forecast) = forecast"
  by (simp_all add: engine_decision_of_def Let_def case_prod_unfold normalize_choose)

lemma build_decisionD:
  assumes "build_autonomy_continuation_decision evidence = Inr d"
  obtains s forecast where "score_summary_of (part_of evidence ''scores'') = Inr s"
    "normalize_forecast (forecast_source evidence) = Inr forecast" "d = engine_decision_of evidence s forecast"
  using assms by (auto simp: build_autonomy_continuation_decision_def map_sum_Inr split: sum.splits)

lemma length_concat_le: "(\<And>ys. ys \<in> set yss \<Longrightarrow> length ys \<le> 1) \<Longrightarrow> length (concat yss) \<le> length yss"
  by (induction yss) (simp, fastforce)

lemma forecast_length: "normalize_forecast raw = Inr forecast \<Longrightarrow> length forecast \<le> 5"
proof -
  assume "normalize_forecast raw = Inr forecast"
  then obtain xs yss where m: "map_result forecast_item_of (enumerate 1 (take 5 xs)) = Inr yss" "forecast = concat yss"
    unfolding normalize_forecast_def Let_def map_sum_Inr by blast
  have "length ys \<le> 1" if "forecast_item_of p = Inr ys" for p ys
    using that by (auto simp: forecast_item_of_def Let_def map_sum_Inr split: if_splits)
  then have "length forecast \<le> length yss" unfolding m(2) using map_result_props [OF m(1)] by (intro length_concat_le) blast
  with map_result_props [OF m(1)] show ?thesis by simp
qed

lemma hex_not_space: "c \<in> set (sha256_hex s) \<Longrightarrow> \<not> is_space c"
proof -
  assume "c \<in> set (sha256_hex s)"
  moreover have "unat (v AND 15) < 16" for v :: w32
  proof -
    have "v AND 15 = take_bit 4 v" by (simp add: take_bit_eq_mask mask_eq_exp_minus_1)
    then have "unat (v AND 15) = take_bit 4 (unat v)" by (simp add: unsigned_take_bit_eq)
    then show ?thesis using take_bit_nat_less_exp [of 4 "unat v"] by simp
  qed
  ultimately obtain n where "n < 16" "c = hex_digit n" unfolding sha256_hex_def hex_word_def by auto
  then show ?thesis by (auto simp: hex_digit_def is_space_def)
qed

lemma engine_key_text: "engine_key evidence \<noteq> []" "py_strip (engine_key evidence) = engine_key evidence"
proof -
  have "py_strip (''ace:'' @ take 24 (sha256_hex s)) = ''ace:'' @ take 24 (sha256_hex s)" for s
    using hex_not_space by (intro strip_no_space) (auto simp: is_space_def dest: in_set_takeD)
  then show "engine_key evidence \<noteq> []" "py_strip (engine_key evidence) = engine_key evidence"
    by (simp_all add: engine_key_def event_idempotency_key_def Let_def strip_text_stripped)
qed

text \<open>The evidence of a redelivered event: the same, with the decision's entry appended to the journal of the state.\<close>

definition with_journal :: "pydict \<Rightarrow> engine_decision \<Rightarrow> pydict \<Rightarrow> pydict" where
  "with_journal entry d evidence =
     dset ''controller_state'' (PDict (dset ''decision_journal''
       (PList (as_list (dget (engine_state evidence) ''decision_journal'') @
         [PDict ((''idempotency_key'', PStr (ed_idempotency_key d)) # entry)])) (engine_state evidence))) evidence"

lemma engine_state_dset: "m \<noteq> [] \<Longrightarrow> engine_state (dset ''controller_state'' (PDict m) e) = m"
  by (simp add: engine_state_def py_or_def)

lemma dset_nonempty: "dset k v m \<noteq> []"
  by (cases m) (simp_all add: dset_def split: prod.split)

lemma with_journal_key: "engine_key (with_journal entry d evidence) = engine_key evidence"
  by (simp add: with_journal_def engine_key_def adapter_identity_of_def part_of_def)

lemma with_journal_seen:
  assumes "ed_idempotency_key d = engine_key evidence"
  shows "engine_key evidence \<in> set (seen_keys (engine_state (with_journal entry d evidence)))"
proof -
  let ?j = "as_list (dget (engine_state evidence) ''decision_journal'') @ [PDict ((''idempotency_key'', PStr (engine_key evidence)) # entry)]"
  have "engine_state (with_journal entry d evidence) = dset ''decision_journal'' (PList ?j) (engine_state evidence)"
    using assms by (simp add: with_journal_def engine_state_dset dset_nonempty)
  moreover have "mappings ?j = mappings (as_list (dget (engine_state evidence) ''decision_journal'')) @
      [(''idempotency_key'', PStr (engine_key evidence)) # entry]" by (simp add: mappings_def)
  ultimately show ?thesis using engine_key_text [of evidence] by (simp add: seen_keys_def strip_or)
qed

section \<open>Properties\<close>

text \<open>
  C40: whatever the evidence, a returned decision is one of the seven actions with one of the seven verdicts and at
  least one reason; its scores lie between zero and one, the forecast has at most five steps, and the
  reason a learning candidate carries is one of the decision's.
\<close>

theorem engine_decision_typed:
  assumes "build_autonomy_continuation_decision evidence = Inr d"
  shows "ed_decision d \<in> set ACTION_SET \<and> ed_verdict d \<in> set HEALTH_VERDICTS \<and> ed_reason_codes d \<noteq> [] \<and>
    scores_bounded (ed_scores d) \<and> length (ed_forecast d) \<le> 5 \<and> set (ed_learning_reasons d) \<subseteq> set (ed_reason_codes d)"
proof -
  obtain s forecast where s: "score_summary_of (part_of evidence ''scores'') = Inr s"
    "normalize_forecast (forecast_source evidence) = Inr forecast" "d = engine_decision_of evidence s forecast"
    using assms by (rule build_decisionD)
  have r: "ed_reason_codes d \<noteq> []"
    using engine_decision_fields(3) [of evidence s forecast] unfolding s(3) by (metis empty_iff empty_set)
  have "ed_learning_reasons d = [] \<or> ed_learning_reasons d = [hd (ed_reason_codes d)]"
    unfolding s(3) by (simp add: engine_decision_of_def Let_def case_prod_unfold normalize_choose)
  then have "set (ed_learning_reasons d) \<subseteq> set (ed_reason_codes d)" using r by auto
  then show ?thesis
    using r choose_range score_summary_bounded [OF s(1)] forecast_length [OF s(2)] by (simp add: s(3) engine_decision_fields)
qed












text \<open>
  Redelivery of an applied event changes nothing: once the decision's entry is in the journal of the controller state,
  with whatever other fields, building a decision for the same event under any other evidence the entry came
  with gives the same key and only ignores the duplicate.
\<close>

theorem journaled_event_is_ignored:
  assumes "build_autonomy_continuation_decision evidence = Inr d"
    and "build_autonomy_continuation_decision (with_journal entry d evidence) = Inr d'"
  shows "ed_idempotency_key d' = ed_idempotency_key d \<and> ed_duplicate_ignored d' \<and> ed_decision d' = ''wait'' \<and>
    ed_verdict d' = ''healthy'' \<and> ''DUPLICATE_EVENT_IGNORED'' \<in> set (ed_reason_codes d')"
proof -
  obtain s forecast where d: "d = engine_decision_of evidence s forecast" using assms(1) by (rule build_decisionD)
  obtain s' forecast' where d': "d' = engine_decision_of (with_journal entry d evidence) s' forecast'"
    using assms(2) by (rule build_decisionD)
  have k: "ed_idempotency_key d = engine_key evidence" by (simp add: d engine_decision_fields)
  have dup: "ef_duplicate (engine_facts_of (with_journal entry d evidence) s' forecast')"
    using with_journal_seen [OF k] by (simp add: engine_facts_of_def Let_def with_journal_key)
  then have c: "choose_action (engine_facts_of (with_journal entry d evidence) s' forecast') = (''wait'', ''healthy'', ''DUPLICATE_EVENT_IGNORED'')"
    by (simp add: choose_action_def)
  have "ed_duplicate_ignored d'"
    using dup unfolding d' by (simp add: engine_decision_of_def Let_def case_prod_unfold)
  then show ?thesis
    using engine_decision_fields(3) [of "with_journal entry d evidence" s' forecast'] k c
    by (simp add: d' engine_decision_fields with_journal_key)
qed

section \<open>A concrete decision\<close>

definition sample_evidence :: pydict where
  "sample_evidence =
    [(''event'', PDict [(''idempotency_key'', PStr ''k1''), (''kind'', PStr ''task_completed'')]),
     (''scores'', PDict [(''expected_value_next'', PInt 1), (''confidence'', PInt 1), (''independence_score'', PInt 1)])]"

definition sample_scores :: score_summary where
  "sample_scores =
    \<lparr>sc_expected_value_next = 1, sc_confidence = 1, sc_intervention_risk = 0, sc_repetition_penalty = 0, sc_autonomy_gain = 0,
     sc_progress_delta = 0, sc_novelty = 0, sc_independence_score = 1, sc_repair_urgency = 0, sc_continue_score = 1\<rparr>"

lemma float_samples: "round64 1 = 1" "\<not> overflows 1" "continue_score 1 1 0 0 0 0 0 = 1" "round64 (7/10) \<le> 1"
  "round64 (13/20) \<le> 1" "\<not> round64 (7/10) \<le> 0" "\<not> round64 (13/20) \<le> 0" "\<not> 1 < round64 (11/20)"
  by code_simp+

lemma sample_score_summary: "score_summary_of (part_of sample_evidence ''scores'') = Inr sample_scores"
  by (simp add: score_summary_of_def SCORE_KEYS_def part_of_def sample_evidence_def bounded_score_def float_or_def float_samples
      float_min_def float_max_def finite_part_def summary_of_scores_def sample_scores_def)

lemma sample_forecast: "normalize_forecast PNone = Inr []"
  by (simp add: normalize_forecast_def)

lemma sample_parts:
  "part_of sample_evidence ''event'' = [(''idempotency_key'', PStr ''k1''), (''kind'', PStr ''task_completed'')]"
  "part_of sample_evidence ''safety'' = []" "part_of sample_evidence ''frontier'' = []" "part_of sample_evidence ''review'' = []"
  "part_of sample_evidence ''artifacts'' = []" "part_of sample_evidence ''evolver_signal'' = []"
  "part_of sample_evidence ''adapter'' = []" "engine_state sample_evidence = []"
  by (simp_all add: part_of_def engine_state_def sample_evidence_def)

lemma sample_engine_key: "engine_key sample_evidence = ''k1''" "event_kind sample_evidence = ''task_completed''"
  by (simp_all add: engine_key_def event_idempotency_key_def part_of_def event_kind_def sample_evidence_def text_eval)

definition sample_outcome :: engine_decision where
  "sample_outcome = engine_decision_of sample_evidence sample_scores []"

lemma sample_engine_build: "build_autonomy_continuation_decision sample_evidence = Inr sample_outcome"
proof -
  have "forecast_source sample_evidence = PNone" by (simp add: forecast_source_def engine_state_def sample_evidence_def)
  then show ?thesis
    by (simp add: build_autonomy_continuation_decision_def sample_score_summary sample_forecast sample_outcome_def)
qed

lemma sample_split: "ed_decision sample_outcome = ''split''"
proof -
  have r: "\<not> is_risky sample_evidence sample_scores"
    by (simp add: is_risky_def sample_parts sample_scores_def float_samples)
  have f: "engine_facts_of sample_evidence sample_scores [] =
    \<lparr>ef_duplicate = False, ef_explicit_stop = False, ef_no_signal = False, ef_local_repair = False, ef_external_side_effect = False,
     ef_destructive = False, ef_approval_missing = False, ef_authority_missing = False, ef_credential_missing = False,
     ef_private_leak = False, ef_artifact_missing = False, ef_contradicted = False, ef_worker_crashed = False,
     ef_quota_blocked = False, ef_evolver_observed = False, ef_repeated_filler = False, ef_risky = False,
     ef_low_confidence = False, ef_high_value = True, ef_can_split = True, ef_urgent_repair = False,
     ef_good_continue = (round64 (45/100) \<le> 1)\<rparr>"
    unfolding engine_facts_of_def Let_def sample_parts sample_engine_key
    using r by (simp add: sample_scores_def float_samples seen_keys_def int_or_def)
  show ?thesis unfolding sample_outcome_def engine_decision_fields f by (simp add: choose_action_def)
qed

theorem engine_decision_typed_witness:
  "ed_decision sample_outcome \<in> set ACTION_SET \<and> scores_bounded (ed_scores sample_outcome) \<and>
   build_autonomy_continuation_decision sample_evidence = Inr sample_outcome"
  using engine_decision_typed [OF sample_engine_build] sample_engine_build by blast


theorem journaled_event_is_ignored_witness:
  "\<exists>d'. build_autonomy_continuation_decision (with_journal [] sample_outcome sample_evidence) = Inr d' \<and>
     ed_decision d' = ''wait'' \<and> ed_decision sample_outcome = ''split''"
proof -
  let ?e = "with_journal [] sample_outcome sample_evidence"
  have s: "score_summary_of (part_of ?e ''scores'') = Inr sample_scores"
    using sample_score_summary by (simp add: with_journal_def part_of_def)
  have "forecast_source ?e = PNone"
    by (simp add: forecast_source_def with_journal_def engine_state_dset dset_nonempty)
      (simp add: engine_state_def sample_evidence_def)
  then have b: "build_autonomy_continuation_decision ?e = Inr (engine_decision_of ?e sample_scores [])"
    by (simp add: build_autonomy_continuation_decision_def s sample_forecast)
  from journaled_event_is_ignored [OF sample_engine_build b] b sample_split show ?thesis by blast
qed

text \<open>
  The adapter contract is healthy exactly when failures are reported as state, nothing private shows, the
  adapter runs neither the evolver nor domain work itself, and an action with a side effect goes through a
  channel of the host, idempotently, with a written receipt and a persisted cursor; it is critical exactly
  when data leaks, the adapter executes by itself or a side effect leaves the host's channels. A
  decision that waits or asks a human has no side effect to cover.
\<close>

theorem adapter_contract_gates_side_effects:
  "(ar_verdict (build_autonomy_runtime_adapter_contract evidence) = ''healthy'' \<longleftrightarrow>
      lenient_bool (dget (part_of evidence ''runtime'') ''failure_reported_as_state'') \<and>
      \<not> lenient_bool (dget (part_of evidence ''adapter'') ''private_data_present'') \<and>
      \<not> lenient_bool (dget (part_of evidence ''runtime'') ''direct_evolver_execution'') \<and>
      \<not> lenient_bool (dget (part_of evidence ''runtime'') ''direct_domain_execution'') \<and>
      (ar_applies_side_effect (build_autonomy_runtime_adapter_contract evidence) \<longrightarrow>
         hermes_owned (strip_text (dget (part_of evidence ''runtime'') ''side_effect_channel'')) \<and>
         lenient_bool (dget (part_of evidence ''receipt'') ''written'') \<and>
         lenient_bool (dget (part_of evidence ''cursor'') ''persisted'') \<and>
         lenient_bool (dget (part_of evidence ''runtime'') ''idempotent_applier''))) \<and>
   (ar_verdict (build_autonomy_runtime_adapter_contract evidence) = ''critical'' \<longleftrightarrow>
      lenient_bool (dget (part_of evidence ''adapter'') ''private_data_present'') \<or>
      lenient_bool (dget (part_of evidence ''runtime'') ''direct_evolver_execution'') \<or>
      lenient_bool (dget (part_of evidence ''runtime'') ''direct_domain_execution'') \<or>
      ar_applies_side_effect (build_autonomy_runtime_adapter_contract evidence) \<and>
        \<not> hermes_owned (strip_text (dget (part_of evidence ''runtime'') ''side_effect_channel''))) \<and>
   (ar_applies_side_effect (build_autonomy_runtime_adapter_contract evidence) \<longleftrightarrow>
      strip_text (dget (part_of evidence ''decision'') ''decision'') \<in> set ACTION_SET - {''wait'', ''human_needed''})"
proof -
  have logic: "((if p then ''critical'' else if q then ''degraded'' else ''healthy'') = ''healthy'') = (\<not> p \<and> \<not> q)"
    "((if p then ''critical'' else if q then ''degraded'' else ''healthy'') = ''critical'') = p" for p q
    by simp_all
  have ifNil: "((if b then [x] else []) = []) = (\<not> b)" for b and x :: string by simp
  let ?action = "strip_text (dget (part_of evidence ''decision'') ''decision'')"
  have a: "?action \<in> {''continue'', ''split'', ''repair'', ''learn'', ''verify''} \<and> ?action \<noteq> ''wait'' \<longleftrightarrow>
      ?action \<in> set ACTION_SET - {''wait'', ''human_needed''}"
    by (auto simp: ACTION_SET_def)
  show ?thesis
    unfolding build_autonomy_runtime_adapter_contract_def Let_def a adapter_report.simps logic append_is_Nil_conv ifNil by blast
qed

definition sample_adapter :: pydict where
  "sample_adapter =
    [(''decision'', PDict [(''decision'', PStr ''split'')]),
     (''runtime'', PDict [(''side_effect_channel'', PStr ''hermes_kanban''), (''idempotent_applier'', PBool True),
        (''failure_reported_as_state'', PBool True)]),
     (''receipt'', PDict [(''written'', PBool True)]), (''cursor'', PDict [(''persisted'', PBool True)])]"

theorem adapter_contract_gates_side_effects_witness:
  "ar_verdict (build_autonomy_runtime_adapter_contract sample_adapter) = ''healthy'' \<and>
   ar_applies_side_effect (build_autonomy_runtime_adapter_contract sample_adapter)"
proof -
  have p: "part_of sample_adapter ''decision'' = [(''decision'', PStr ''split'')]"
    "part_of sample_adapter ''runtime'' = [(''side_effect_channel'', PStr ''hermes_kanban''), (''idempotent_applier'', PBool True),
        (''failure_reported_as_state'', PBool True)]"
    "part_of sample_adapter ''receipt'' = [(''written'', PBool True)]" "part_of sample_adapter ''cursor'' = [(''persisted'', PBool True)]"
    "part_of sample_adapter ''adapter'' = []"
    by (simp_all add: part_of_def sample_adapter_def)
  show ?thesis
    using adapter_contract_gates_side_effects [of sample_adapter] unfolding p
    by (simp add: text_eval hermes_owned_def ACTION_SET_def)
qed

end
