(* ===== verification/ControlContract.thy ===== *)
theory ControlContract
  imports Continuation
begin

text \<open>
  \<open>hermes_continuation/control_contract.py\<close>: is continuation control event-driven and deterministic. Every value
  the code computes from the evidence is a function of it; the contract is a record without the constant
  fields. The set of continuation keys is a list, since only membership is used.
\<close>

section \<open>Reading the evidence\<close>

definition RECORD_KEY_FIELDS :: "string list" where
  "RECORD_KEY_FIELDS = [''event_id'', ''source_event_id'', ''terminal_event_id'', ''idempotency_key'']"

definition record_event_keys :: "pydict list \<Rightarrow> string list" where
  "record_event_keys records =
     filter (\<lambda>t. t \<noteq> []) (concat (map (\<lambda>r. map (\<lambda>f. strip_text (dget r f)) RECORD_KEY_FIELDS) records))"

definition controller :: "pydict \<Rightarrow> pydict" where
  "controller evidence = as_mapping (dget evidence ''controller'')"

definition evidence_or_controller :: "pydict \<Rightarrow> string \<Rightarrow> pydict" where
  "evidence_or_controller evidence k = as_mapping (py_or (dget evidence k) (dget (controller evidence) k))"

definition allocator :: "pydict \<Rightarrow> pydict" where
  "allocator evidence = evidence_or_controller evidence ''allocator''"

definition event_cursor :: "pydict \<Rightarrow> pydict" where
  "event_cursor evidence = evidence_or_controller evidence ''event_cursor''"

definition frontier :: "pydict \<Rightarrow> pydict" where
  "frontier evidence =
     as_mapping (py_or (dget evidence ''frontier'') (py_or (dget evidence ''kanban_runtime_snapshot'') (dget (controller evidence) ''frontier'')))"

definition token_evidence :: "pydict \<Rightarrow> pydict" where
  "token_evidence evidence =
     as_mapping (py_or (dget evidence ''token_policy'') (py_or (dget evidence ''control_plane_token_policy'') (dget (controller evidence) ''token_policy'')))"

definition terminal_events :: "pydict \<Rightarrow> pydict list" where
  "terminal_events evidence = items (dget evidence ''terminal_events'')"

definition continuation_records :: "pydict \<Rightarrow> pydict list" where
  "continuation_records evidence = items (dget evidence ''continuation_records'')"

definition control_stopped :: "pydict \<Rightarrow> bool" where
  "control_stopped evidence \<longleftrightarrow>
     lenient_bool (dget evidence ''explicit_stop'') \<or> strip_text (dget evidence ''state'') = ''stopped_intentionally''"

section \<open>The control mode\<close>

definition declared_mode :: "pydict \<Rightarrow> string" where
  "declared_mode evidence =
     strip_text (py_or (dget evidence ''controller_mode'') (py_or (dget (controller evidence) ''controller_mode'') (dget (controller evidence) ''mode'')))"

definition either :: "pydict \<Rightarrow> pydict \<Rightarrow> string \<Rightarrow> bool" where
  "either a b k \<longleftrightarrow> lenient_bool (dget a k) \<or> lenient_bool (dget b k)"

definition event_bridge_enabled :: "pydict \<Rightarrow> bool" where
  "event_bridge_enabled evidence \<longleftrightarrow>
     lenient_bool (dget (controller evidence) ''event_bridge_enabled'') \<or> lenient_bool (dget (controller evidence) ''event_primary'') \<or>
     lenient_bool (dget evidence ''event_bridge_enabled'') \<or>
     declared_mode evidence \<in> {''event_primary'', ''event_driven'', ''event_plus_watchdog''}"

definition event_bridge_stale :: "pydict \<Rightarrow> bool" where
  "event_bridge_stale evidence \<longleftrightarrow> either (controller evidence) evidence ''event_bridge_stale''"

definition watchdog_enabled :: "pydict \<Rightarrow> bool" where
  "watchdog_enabled evidence \<longleftrightarrow> either (controller evidence) evidence ''watchdog_enabled''"

definition allocator_fixed :: "pydict \<Rightarrow> bool" where
  "allocator_fixed evidence \<longleftrightarrow>
     lenient_bool (dget_default (allocator evidence) ''fixed_schedule'' (PBool (allocator evidence \<noteq> [])))"

definition allocator_creates_work :: "pydict \<Rightarrow> bool" where
  "allocator_creates_work evidence \<longleftrightarrow>
     lenient_bool (dget (allocator evidence) ''creates_work'') \<or> lenient_bool (dget (controller evidence) ''allocator_creates_work'')"

definition allocator_reads_events :: "pydict \<Rightarrow> bool" where
  "allocator_reads_events evidence \<longleftrightarrow>
     lenient_bool (dget (allocator evidence) ''reads_events'') \<or> lenient_bool (dget (controller evidence) ''allocator_reads_events'')"

definition allocator_watchdog_only :: "pydict \<Rightarrow> bool" where
  "allocator_watchdog_only evidence \<longleftrightarrow>
     lenient_bool (dget (allocator evidence) ''watchdog_only'') \<or>
     strip_text (dget (allocator evidence) ''kind'') \<in> {''watchdog'', ''recovery'', ''heartbeat''}"

definition prompt_primary :: "pydict \<Rightarrow> bool" where
  "prompt_primary evidence \<longleftrightarrow>
     declared_mode evidence = ''prompt_primary'' \<or> either (controller evidence) (allocator evidence) ''prompt_primary'' \<or>
     (allocator_creates_work evidence \<and> \<not> allocator_watchdog_only evidence \<and>
      (lenient_bool (dget (allocator evidence) ''uses_llm'') \<or> lenient_bool (dget (controller evidence) ''normal_path_uses_llm'')) \<and>
      \<not> allocator_reads_events evidence)"

definition dry_run_presented_as_live :: "pydict \<Rightarrow> bool" where
  "dry_run_presented_as_live evidence \<longleftrightarrow>
     either evidence (controller evidence) ''dry_run_presented_as_live'' \<or>
     (lenient_bool (dget (controller evidence) ''dry_run'') \<and> lenient_bool (dget (controller evidence) ''presented_as_live'')) \<or>
     (strip_text (dget (controller evidence) ''artifact_kind'') = ''dry_run'' \<and>
      lenient_bool (dget (controller evidence) ''used_as_live_state''))"

definition behind :: "pydict \<Rightarrow> string \<Rightarrow> int \<Rightarrow> int" where
  "behind cursor k lag =
     (if dhas cursor ''last_event_id'' \<and> dhas cursor k
      then max lag (int_or (dget cursor k) 0 - int_or (dget cursor ''last_event_id'') 0) else lag)"

definition cursor_lag :: "pydict \<Rightarrow> int" where
  "cursor_lag evidence =
     behind (event_cursor evidence) ''max_event_id'' (int_or (dget (event_cursor evidence) ''cursor_lag'') 0)"

definition terminal_cursor_lag :: "pydict \<Rightarrow> int" where
  "terminal_cursor_lag evidence =
     behind (event_cursor evidence) ''max_terminal_event_id''
       (int_or (dget (event_cursor evidence) ''terminal_cursor_lag'') (int_or (dget (event_cursor evidence) ''cursor_lag'') 0))"

definition event_cursor_stale :: "pydict \<Rightarrow> bool" where
  "event_cursor_stale evidence \<longleftrightarrow>
     lenient_bool (dget (event_cursor evidence) ''stale'') \<or> 0 < cursor_lag evidence \<or> 0 < terminal_cursor_lag evidence"

definition controller_mode :: "pydict \<Rightarrow> string" where
  "controller_mode evidence =
     (if prompt_primary evidence then ''prompt_primary''
      else if event_bridge_enabled evidence \<and> \<not> event_bridge_stale evidence \<and> \<not> event_cursor_stale evidence then ''event_primary''
      else if event_bridge_enabled evidence \<and> (event_bridge_stale evidence \<or> event_cursor_stale evidence) then ''event_primary_stale''
      else if allocator_creates_work evidence \<and> allocator_fixed evidence \<and> \<not> allocator_reads_events evidence then ''cadence_primary''
      else if watchdog_enabled evidence \<or> allocator_watchdog_only evidence then ''watchdog_only''
      else if \<not> (controller evidence \<noteq> [] \<or> allocator evidence \<noteq> [] \<or> terminal_events evidence \<noteq> [] \<or> continuation_records evidence \<noteq> [])
        then ''insufficient_evidence''
      else ''unavailable'')"

section \<open>Tokens\<close>

definition model_calls :: "pydict \<Rightarrow> int" where
  "model_calls evidence =
     int_or (py_or (dget (token_evidence evidence) ''model_calls'') (dget (token_evidence evidence) ''control_plane_model_calls'')) 0"

definition max_input_tokens :: "pydict \<Rightarrow> int" where
  "max_input_tokens evidence = int_or (dget (token_evidence evidence) ''max_input_tokens'') 0"

definition max_payload_chars :: "pydict \<Rightarrow> int" where
  "max_payload_chars evidence =
     (let t = token_evidence evidence in
      int_or (py_or (dget t ''max_model_facing_payload_chars'') (py_or (dget t ''max_tool_result_chars'') (dget t ''large_tool_result_chars''))) 0)"

definition normal_path_uses_llm :: "pydict \<Rightarrow> bool" where
  "normal_path_uses_llm evidence \<longleftrightarrow> either (token_evidence evidence) (controller evidence) ''normal_path_uses_llm''"

definition llm_advisory :: "pydict \<Rightarrow> bool" where
  "llm_advisory evidence \<longleftrightarrow>
     lenient_bool (dget (token_evidence evidence) ''llm_advisory_only'') \<or> strip_text (dget (token_evidence evidence) ''role'') = ''advisory''"

definition llm_worker :: "pydict \<Rightarrow> bool" where
  "llm_worker evidence \<longleftrightarrow>
     lenient_bool (dget (token_evidence evidence) ''llm_worker_allowed'') \<or>
     strip_text (dget (token_evidence evidence) ''role'') \<in> {''worker'', ''reviewer'', ''verifier''}"

definition token_violation :: "pydict \<Rightarrow> bool" where
  "token_violation evidence \<longleftrightarrow>
     prompt_primary evidence \<or> normal_path_uses_llm evidence \<or>
     (controller_mode evidence \<in> {''event_primary'', ''event_primary_stale'', ''prompt_primary'', ''cadence_primary''} \<and>
      0 < model_calls evidence \<and> \<not> (llm_advisory evidence \<or> llm_worker evidence)) \<or>
     30000 \<le> max_input_tokens evidence \<or> 12000 \<le> max_payload_chars evidence"

definition token_policy :: "pydict \<Rightarrow> string" where
  "token_policy evidence =
     (if token_violation evidence then ''violation''
      else if llm_advisory evidence then ''llm_advisory_only''
      else if llm_worker evidence then ''llm_worker_allowed''
      else ''deterministic_normal_path'')"

section \<open>Gaps and frontier\<close>

definition TERMINAL_KINDS :: "string list" where
  "TERMINAL_KINDS =
    [''task_completed'', ''completed'', ''done'', ''blocked'', ''crashed'', ''failed'', ''timed_out'', ''timeout'']"

definition ALLOWED_DECISIONS :: "string list" where
  "ALLOWED_DECISIONS =
    [''next_frontier_created'', ''wait_for_parent_or_dependency'', ''human_gate'', ''intentional_stop'', ''recovery_candidate'',
     ''wait'', ''stop'', ''ask'', ''kanban_handoff'']"

definition terminal_event_id :: "pydict \<Rightarrow> string" where
  "terminal_event_id event = strip_text (py_or (dget event ''event_id'') (py_or (dget event ''id'') (dget event ''idempotency_key'')))"

definition has_continuation :: "pydict \<Rightarrow> pydict \<Rightarrow> bool" where
  "has_continuation evidence event \<longleftrightarrow>
     lenient_bool (dget event ''has_continuation'') \<or>
     strip_text (py_or (dget event ''continuation_decision'') (dget event ''decision'')) \<in> set ALLOWED_DECISIONS \<or>
     (terminal_event_id event \<noteq> [] \<and> terminal_event_id event \<in> set (record_event_keys (continuation_records evidence)))"

definition is_gap :: "pydict \<Rightarrow> pydict \<Rightarrow> bool" where
  "is_gap evidence event \<longleftrightarrow>
     strip_text (dget event ''kind'') \<in> set TERMINAL_KINDS \<and> \<not> has_continuation evidence event \<and> \<not> control_stopped evidence"

definition gap_of :: "pydict \<Rightarrow> pydict" where
  "gap_of event =
    [(''event_id'', PStr (or_text (terminal_event_id event) ''unknown-event'')),
     (''task_id'', PStr (or_text (strip_text (dget event ''task_id'')) ''unknown-task'')),
     (''kind'', PStr (strip_text (dget event ''kind''))),
     (''reason_code'', PStr ''terminal_event_without_continuation'')]"

definition continuation_gaps :: "pydict \<Rightarrow> pydict list" where
  "continuation_gaps evidence = map gap_of (filter (is_gap evidence) (terminal_events evidence))"

record frontier_pressure =
  fp_target_frontier :: int
  fp_target_running :: int
  fp_actionable_frontier :: int
  fp_ready :: int
  fp_running :: int
  fp_blocked_residue :: int
  fp_fanin_stuck :: int
  fp_invalid_assignee :: int

definition frontier_pressure_of :: "pydict \<Rightarrow> frontier_pressure" where
  "frontier_pressure_of evidence =
     (let f = frontier evidence in
      \<lparr>fp_target_frontier = int_or (dget f ''target_frontier'') 0,
       fp_target_running = int_or (dget f ''target_running'') 0,
       fp_actionable_frontier = int_or (dget f ''actionable_frontier_count'') 0,
       fp_ready = int_or (dget f ''ready_task_count'') 0,
       fp_running = int_or (dget f ''running_worker_count'') 0,
       fp_blocked_residue = int_or (py_or (dget f ''blocked_residue_count'') (dget f ''blocked_task_count'')) 0,
       fp_fanin_stuck = int_or (dget f ''completed_fanin_stuck_count'') 0,
       fp_invalid_assignee = int_or (py_or (dget f ''invalid_assignee_count'') (dget f ''blocked_unknown_assignee_count'')) 0\<rparr>)"

definition below_target :: "frontier_pressure \<Rightarrow> bool" where
  "below_target p \<longleftrightarrow> fp_target_frontier p \<noteq> 0 \<and> fp_actionable_frontier p < fp_target_frontier p"

definition low_running :: "frontier_pressure \<Rightarrow> bool" where
  "low_running p \<longleftrightarrow> 0 < fp_ready p \<and> fp_target_running p \<noteq> 0 \<and> fp_running p < fp_target_running p"

definition residue_counted :: "pydict \<Rightarrow> bool" where
  "residue_counted evidence \<longleftrightarrow>
     fp_blocked_residue (frontier_pressure_of evidence) \<noteq> 0 \<and>
     lenient_bool (dget (frontier evidence) ''blocked_residue_counted_as_frontier'')"

section \<open>The contract\<close>

definition mode_reason :: "pydict \<Rightarrow> string list" where
  "mode_reason evidence =
     (let mode = controller_mode evidence in
      if mode = ''prompt_primary'' then [''PROMPT_ALLOCATOR_PRIMARY'']
      else if mode = ''cadence_primary'' then [''CADENCE_PRIMARY_NOT_EVENT_DRIVEN'']
      else if mode = ''event_primary_stale'' \<or> event_cursor_stale evidence then [''EVENT_CURSOR_STALE'']
      else if mode = ''watchdog_only'' then [''FRONTIER_WATCHDOG_ONLY'']
      else if mode = ''unavailable'' then [''FRONTIER_CONTROLLER_MISSING'']
      else if mode = ''insufficient_evidence'' then [''FRONTIER_CONTINUATION_INSUFFICIENT_EVIDENCE'']
      else [])"

definition control_verdict :: "pydict \<Rightarrow> string" where
  "control_verdict evidence =
     (let p = frontier_pressure_of evidence; mode = controller_mode evidence in
      if control_stopped evidence then ''stopped_intentionally''
      else if continuation_gaps evidence \<noteq> [] \<or> prompt_primary evidence \<or> token_policy evidence = ''violation'' \<or>
              dry_run_presented_as_live evidence \<or> fp_invalid_assignee p \<noteq> 0 then ''critical''
      else if mode \<in> {''cadence_primary'', ''event_primary_stale'', ''unavailable'', ''watchdog_only''} then ''degraded''
      else if fp_fanin_stuck p \<noteq> 0 \<or> residue_counted evidence then ''degraded''
      else if below_target p \<or> low_running p then ''degraded''
      else if mode = ''insufficient_evidence'' then ''insufficient_evidence''
      else ''healthy'')"

definition control_reasons :: "pydict \<Rightarrow> string list" where
  "control_reasons evidence =
     (let p = frontier_pressure_of evidence in
      (if continuation_gaps evidence \<noteq> [] then [''FRONTIER_CONTINUATION_GAP''] else []) @
      mode_reason evidence @
      (if dry_run_presented_as_live evidence then [''DRY_RUN_PRESENTED_AS_LIVE''] else []) @
      (if token_policy evidence = ''violation'' then [''CONTROL_PLANE_LLM_TOKEN_VIOLATION''] else []) @
      (if below_target p then [''FRONTIER_BELOW_TARGET''] else []) @
      (if low_running p then [''READY_BACKLOG_LOW_RUNNING''] else []) @
      (if fp_fanin_stuck p \<noteq> 0 then [''COMPLETED_FANIN_STUCK''] else []) @
      (if residue_counted evidence then [''BLOCKED_RESIDUE_NOT_FRONTIER''] else []) @
      (if fp_invalid_assignee p \<noteq> 0 then [''INVALID_ASSIGNEE_ACTIVE''] else []) @
      (if control_verdict evidence = ''stopped_intentionally'' then [''FRONTIER_STOPPED_INTENTIONALLY'']
       else if control_verdict evidence = ''healthy'' then [''FRONTIER_CONTINUATION_HEALTHY''] else []))"

record control_contract =
  ct_verdict :: string
  ct_controller_mode :: string
  ct_token_policy :: string
  ct_event_bridge_enabled :: bool
  ct_event_bridge_stale :: bool
  ct_cursor_lag :: int
  ct_terminal_cursor_lag :: int
  ct_cursor_stale :: bool
  ct_dry_run_presented_as_live :: bool
  ct_cadence_primary_allocator :: bool
  ct_prompt_primary_allocator :: bool
  ct_continuation_gap_count :: nat
  ct_gaps :: "pydict list"
  ct_frontier_pressure :: frontier_pressure
  ct_reason_codes :: "string list"
  ct_agent_claim :: string

definition build_continuation_control_contract :: "pydict \<Rightarrow> control_contract" where
  "build_continuation_control_contract evidence =
    \<lparr>ct_verdict = control_verdict evidence,
     ct_controller_mode = controller_mode evidence,
     ct_token_policy = token_policy evidence,
     ct_event_bridge_enabled = event_bridge_enabled evidence,
     ct_event_bridge_stale = event_bridge_stale evidence \<or> event_cursor_stale evidence,
     ct_cursor_lag = cursor_lag evidence,
     ct_terminal_cursor_lag = terminal_cursor_lag evidence,
     ct_cursor_stale = event_cursor_stale evidence,
     ct_dry_run_presented_as_live = dry_run_presented_as_live evidence,
     ct_cadence_primary_allocator = controller_mode evidence = ''cadence_primary'',
     ct_prompt_primary_allocator = controller_mode evidence = ''prompt_primary'',
     ct_continuation_gap_count = length (continuation_gaps evidence),
     ct_gaps = take 20 (continuation_gaps evidence),
     ct_frontier_pressure = frontier_pressure_of evidence,
     ct_reason_codes = sorted_set (control_reasons evidence),
     ct_agent_claim = (if control_verdict evidence = ''healthy'' then ''continuation_control_event_primary''
                       else ''continuation_control_'' @ control_verdict evidence)\<rparr>"

section \<open>Lemmas\<close>

lemma token_policy_violation: "token_policy evidence = ''violation'' \<longleftrightarrow> token_violation evidence"
  by (simp add: token_policy_def)

lemma mode_event_primary:
  "controller_mode evidence = ''event_primary'' \<longleftrightarrow>
     \<not> prompt_primary evidence \<and> event_bridge_enabled evidence \<and> \<not> event_bridge_stale evidence \<and> \<not> event_cursor_stale evidence"
  unfolding controller_mode_def by simp

lemma mode_range:
  "controller_mode evidence \<in>
     {''prompt_primary'', ''event_primary'', ''event_primary_stale'', ''cadence_primary'', ''watchdog_only'', ''insufficient_evidence'',
      ''unavailable''}"
  unfolding controller_mode_def by simp

lemma mode_prompt: "controller_mode evidence = ''prompt_primary'' \<longleftrightarrow> prompt_primary evidence"
  unfolding controller_mode_def by simp

lemma verdict_healthy:
  "control_verdict evidence = ''healthy'' \<longleftrightarrow>
     \<not> control_stopped evidence \<and> continuation_gaps evidence = [] \<and> controller_mode evidence = ''event_primary'' \<and>
     \<not> token_violation evidence \<and> \<not> dry_run_presented_as_live evidence \<and>
     fp_invalid_assignee (frontier_pressure_of evidence) = 0 \<and> fp_fanin_stuck (frontier_pressure_of evidence) = 0 \<and>
     \<not> residue_counted evidence \<and> \<not> below_target (frontier_pressure_of evidence) \<and> \<not> low_running (frontier_pressure_of evidence)"
proof -
  have "controller_mode evidence = ''event_primary'' \<longleftrightarrow>
      \<not> prompt_primary evidence \<and>
      controller_mode evidence \<notin> {''cadence_primary'', ''event_primary_stale'', ''unavailable'', ''watchdog_only''} \<and>
      controller_mode evidence \<noteq> ''insufficient_evidence''"
    using mode_range [of evidence] mode_prompt [of evidence] by auto
  then show ?thesis
    unfolding control_verdict_def Let_def token_policy_violation by (simp split: if_split) blast
qed

text \<open>
  The specification of a continued event, on the data alone: the event says so, carries an allowed decision, or a
  continuation record names its identifier in one of the key fields.
\<close>

definition event_continued :: "pydict \<Rightarrow> pydict \<Rightarrow> bool" where
  "event_continued evidence event \<longleftrightarrow>
     lenient_bool (dget event ''has_continuation'') \<or>
     strip_text (py_or (dget event ''continuation_decision'') (dget event ''decision'')) \<in> set ALLOWED_DECISIONS \<or>
     (terminal_event_id event \<noteq> [] \<and>
      (\<exists>r \<in> set (continuation_records evidence). \<exists>k \<in> {''event_id'', ''source_event_id'', ''terminal_event_id'', ''idempotency_key''}.
         strip_text (dget r k) = terminal_event_id event))"

lemma continued_iff: "has_continuation evidence event \<longleftrightarrow> event_continued evidence event"
proof -
  have "t \<in> set (record_event_keys rs) \<longleftrightarrow>
      t \<noteq> [] \<and> (\<exists>r \<in> set rs. \<exists>k \<in> {''event_id'', ''source_event_id'', ''terminal_event_id'', ''idempotency_key''}. strip_text (dget r k) = t)"
    for t rs by (simp add: record_event_keys_def RECORD_KEY_FIELDS_def) blast
  then show ?thesis unfolding has_continuation_def event_continued_def by blast
qed

lemma no_gaps:
  "\<not> control_stopped evidence \<Longrightarrow> continuation_gaps evidence = [] \<longleftrightarrow>
     (\<forall>e \<in> set (terminal_events evidence). strip_text (dget e ''kind'') \<in> set TERMINAL_KINDS \<longrightarrow> event_continued evidence e)"
  by (auto simp: continuation_gaps_def filter_empty_conv is_gap_def continued_iff)

lemma no_token_violation:
  "controller_mode evidence = ''event_primary'' \<Longrightarrow> \<not> token_violation evidence \<longleftrightarrow>
     \<not> normal_path_uses_llm evidence \<and> (model_calls evidence \<le> 0 \<or> llm_advisory evidence \<or> llm_worker evidence) \<and>
     max_input_tokens evidence < 30000 \<and> max_payload_chars evidence < 12000"
  using mode_prompt [of evidence] by (auto simp: token_violation_def)

section \<open>Properties\<close>

text \<open>
  The contract is healthy exactly for running event-driven control: an enabled, fresh event bridge without
  cursor lag or prompt primacy, no terminal event without its continuation, no model on the normal path unless
  as adviser or worker, inputs below the limits, no dry run shown as live, and a frontier on target without
  stuck joins, counted residue or invalid assignees.
\<close>

theorem control_healthy_iff_event_driven:
  "ct_verdict (build_continuation_control_contract evidence) = ''healthy'' \<longleftrightarrow>
      \<not> control_stopped evidence \<and>
      (\<forall>e \<in> set (terminal_events evidence). strip_text (dget e ''kind'') \<in> set TERMINAL_KINDS \<longrightarrow> event_continued evidence e) \<and>
      \<not> prompt_primary evidence \<and> event_bridge_enabled evidence \<and> \<not> event_bridge_stale evidence \<and>
      \<not> lenient_bool (dget (event_cursor evidence) ''stale'') \<and> cursor_lag evidence \<le> 0 \<and> terminal_cursor_lag evidence \<le> 0 \<and>
      \<not> normal_path_uses_llm evidence \<and> (model_calls evidence \<le> 0 \<or> llm_advisory evidence \<or> llm_worker evidence) \<and>
      max_input_tokens evidence < 30000 \<and> max_payload_chars evidence < 12000 \<and> \<not> dry_run_presented_as_live evidence \<and>
      fp_invalid_assignee (frontier_pressure_of evidence) = 0 \<and> fp_fanin_stuck (frontier_pressure_of evidence) = 0 \<and>
      \<not> residue_counted evidence \<and> \<not> below_target (frontier_pressure_of evidence) \<and> \<not> low_running (frontier_pressure_of evidence)"
proof -
  have v: "ct_verdict (build_continuation_control_contract evidence) = control_verdict evidence"
    by (simp add: build_continuation_control_contract_def)
  have stale: "event_cursor_stale evidence \<longleftrightarrow>
      lenient_bool (dget (event_cursor evidence) ''stale'') \<or> \<not> cursor_lag evidence \<le> 0 \<or> \<not> terminal_cursor_lag evidence \<le> 0"
    by (auto simp: event_cursor_stale_def)
  have grouped: "control_verdict evidence = ''healthy'' \<longleftrightarrow>
     (\<not> control_stopped evidence \<and> continuation_gaps evidence = []) \<and>
     (controller_mode evidence = ''event_primary'' \<and> \<not> token_violation evidence) \<and> \<not> dry_run_presented_as_live evidence \<and>
     fp_invalid_assignee (frontier_pressure_of evidence) = 0 \<and> fp_fanin_stuck (frontier_pressure_of evidence) = 0 \<and>
     \<not> residue_counted evidence \<and> \<not> below_target (frontier_pressure_of evidence) \<and> \<not> low_running (frontier_pressure_of evidence)"
    by (simp only: verdict_healthy conj_assoc)
  have gaps: "(\<not> control_stopped evidence \<and> continuation_gaps evidence = []) \<longleftrightarrow> (\<not> control_stopped evidence \<and>
      (\<forall>e \<in> set (terminal_events evidence). strip_text (dget e ''kind'') \<in> set TERMINAL_KINDS \<longrightarrow> event_continued evidence e))"
    by (rule conj_cong [OF refl no_gaps])
  have tokens: "(controller_mode evidence = ''event_primary'' \<and> \<not> token_violation evidence) \<longleftrightarrow>
      (controller_mode evidence = ''event_primary'' \<and>
      \<not> normal_path_uses_llm evidence \<and> (model_calls evidence \<le> 0 \<or> llm_advisory evidence \<or> llm_worker evidence) \<and>
      max_input_tokens evidence < 30000 \<and> max_payload_chars evidence < 12000)"
    by (rule conj_cong [OF refl no_token_violation])
  show ?thesis
    unfolding v grouped gaps tokens unfolding mode_event_primary stale by blast
qed

definition sample_control :: pydict where
  "sample_control =
    [(''controller'', PDict [(''event_primary'', PBool True)]),
     (''terminal_events'', PList [PDict [(''kind'', PStr ''done''), (''event_id'', PStr ''e1'')]]),
     (''continuation_records'', PList [PDict [(''source_event_id'', PStr ''e1'')]])]"

theorem control_healthy_iff_event_driven_witness:
  "ct_verdict (build_continuation_control_contract sample_control) = ''healthy'' \<and>
   (\<exists>e \<in> set (terminal_events sample_control). event_continued sample_control e)"
proof -
  have c: "controller sample_control = [(''event_primary'', PBool True)]" by (simp add: controller_def sample_control_def)
  then have p: "allocator sample_control = []" "event_cursor sample_control = []" "frontier sample_control = []"
    "token_evidence sample_control = []" "declared_mode sample_control = []"
    by (simp_all add: allocator_def event_cursor_def frontier_def token_evidence_def declared_mode_def evidence_or_controller_def
        sample_control_def)
  have t: "terminal_events sample_control = [[(''kind'', PStr ''done''), (''event_id'', PStr ''e1'')]]"
    "record_event_keys (continuation_records sample_control) = [''e1'']"
    by (simp_all add: terminal_events_def continuation_records_def items_def sample_control_def record_event_keys_def
        RECORD_KEY_FIELDS_def text_eval)
  have h: "event_continued sample_control [(''kind'', PStr ''done''), (''event_id'', PStr ''e1'')]"
    by (simp add: continued_iff [symmetric] has_continuation_def terminal_event_id_def t text_eval)
  have "\<not> control_stopped sample_control" by (simp add: control_stopped_def sample_control_def)
  moreover have "\<not> prompt_primary sample_control" "event_bridge_enabled sample_control" "\<not> event_bridge_stale sample_control"
    by (simp_all add: prompt_primary_def event_bridge_enabled_def event_bridge_stale_def either_def allocator_creates_work_def c p)
      (simp_all add: sample_control_def)
  moreover have "\<not> lenient_bool (dget (event_cursor sample_control) ''stale'')" "cursor_lag sample_control \<le> 0"
      "terminal_cursor_lag sample_control \<le> 0"
    by (simp_all add: cursor_lag_def terminal_cursor_lag_def behind_def int_or_def p)
  moreover have "\<not> normal_path_uses_llm sample_control" "model_calls sample_control = 0" "max_input_tokens sample_control = 0"
      "max_payload_chars sample_control = 0"
    by (simp_all add: normal_path_uses_llm_def either_def model_calls_def max_input_tokens_def max_payload_chars_def
        int_or_def c p Let_def)
  moreover have "\<not> dry_run_presented_as_live sample_control"
    by (simp add: dry_run_presented_as_live_def either_def c) (simp add: sample_control_def)
  moreover have "frontier_pressure_of sample_control =
      \<lparr>fp_target_frontier = 0, fp_target_running = 0, fp_actionable_frontier = 0, fp_ready = 0, fp_running = 0, fp_blocked_residue = 0,
       fp_fanin_stuck = 0, fp_invalid_assignee = 0\<rparr>"
    by (simp add: frontier_pressure_of_def p int_or_def Let_def)
  ultimately show ?thesis
    using control_healthy_iff_event_driven [of sample_control] h
    by (simp add: t residue_counted_def below_target_def low_running_def)
qed

end
