(* ===== verification/RetrievalControl.thy ===== *)
theory RetrievalControl
  imports PyHash
begin

text \<open>
  \<open>retrieval_control_plan.py\<close> and \<open>retrieval_channel_deadlines.py\<close>: the retrieval plan made of an adaptive route
  plan, with its limits, call budgets and deadlines, and the status each retrieval channel gets from the
  plan. The store is represented by what the code asks it: whether an external corpus or graph backend
  is attached.
\<close>

section \<open>The plan\<close>

text \<open>\<open>_dict_int\<close>: the integers of a mapping, not below zero.\<close>

definition dict_int :: "pyval \<Rightarrow> (string \<times> int) list" where
  "dict_int v = map (\<lambda>(k, x). (k, max (int_or x 0) 0)) (as_mapping v)"

definition stable_plan_id :: "pyval \<Rightarrow> string" where
  "stable_plan_id payload = ''rcp:'' @ take 16 (sha256_hex (json_text '','' '':'' payload))"

record retrieval_control_plan =
  rp_plan_id :: string
  rp_status :: string
  rp_route_class :: string
  rp_requested_route_class :: string
  rp_retrieval_mode :: string
  rp_allowed_shelves :: "string list"
  rp_skipped_shelves :: "string list"
  rp_shelf_limits :: "(string \<times> int) list"
  rp_semantic_enabled :: bool
  rp_semantic_allowed_shelves :: "string list"
  rp_semantic_limit :: int
  rp_backend_call_budget :: "(string \<times> int) list"
  rp_backend_call_budget_total :: int
  rp_total_deadline_ms :: int
  rp_channel_deadlines_ms :: "(string \<times> int) list"
  rp_protected_authorities :: "string list"
  rp_degradation_policy :: string
  rp_proof_flags :: "(string \<times> bool) list"
  rp_route_decision :: pydict
  rp_fallback :: pydict
  rp_current_truth_view :: pydict
  rp_guardrails :: pydict

definition int_dict :: "(string \<times> int) list \<Rightarrow> pyval" where
  "int_dict d = PDict (map (\<lambda>(k, n). (k, PInt n)) d)"

definition text_tuple :: "string list \<Rightarrow> pyval" where
  "text_tuple xs = PList (map PStr xs)"

definition rp_to_public_dict :: "retrieval_control_plan \<Rightarrow> pydict" where
  "rp_to_public_dict p =
    [(''schema'', PStr ''brainstack.retrieval_control_plan.v1''),
     (''plan_id'', PStr (rp_plan_id p)),
     (''status'', PStr (rp_status p)),
     (''route_class'', PStr (rp_route_class p)),
     (''requested_route_class'', PStr (rp_requested_route_class p)),
     (''retrieval_mode'', PStr (rp_retrieval_mode p)),
     (''allowed_shelves'', text_tuple (rp_allowed_shelves p)),
     (''skipped_shelves'', text_tuple (rp_skipped_shelves p)),
     (''shelf_limits'', int_dict (rp_shelf_limits p)),
     (''semantic_enabled'', PBool (rp_semantic_enabled p)),
     (''semantic_allowed_shelves'', text_tuple (rp_semantic_allowed_shelves p)),
     (''semantic_limit'', PInt (rp_semantic_limit p)),
     (''backend_call_budget'', int_dict (rp_backend_call_budget p)),
     (''backend_call_budget_total'', PInt (rp_backend_call_budget_total p)),
     (''total_deadline_ms'', PInt (rp_total_deadline_ms p)),
     (''channel_deadlines_ms'', int_dict (rp_channel_deadlines_ms p)),
     (''protected_authorities'', text_tuple (rp_protected_authorities p)),
     (''degradation_policy'', PStr (rp_degradation_policy p)),
     (''proof_flags'', PDict (map (\<lambda>(k, b). (k, PBool b)) (rp_proof_flags p))),
     (''route_decision'', PDict (rp_route_decision p)),
     (''fallback'', PDict (rp_fallback p)),
     (''current_truth_view'', PDict (rp_current_truth_view p)),
     (''guardrails'', PDict (rp_guardrails p))]"

text \<open>\<^verbatim>\<open>tuple(str(item) for item in _list(value) if str(item or "").strip())\<close>\<close>

definition named_shelves :: "pyval \<Rightarrow> string list" where
  "named_shelves v = map py_str (filter (\<lambda>x. strip_text x \<noteq> []) (as_list v))"

definition channel_deadline :: "int \<Rightarrow> int \<Rightarrow> int" where
  "channel_deadline total_ms cap = (if total_ms \<noteq> 0 then min total_ms cap else 0)"

definition CHANNEL_CAPS :: "(string \<times> int) list" where
  "CHANNEL_CAPS =
    [(''profile'', 250), (''continuity'', 400), (''transcript'', 400), (''operating'', 300), (''semantic'', 1200),
     (''graph'', 1200), (''corpus'', 1200), (''temporal'', 1200), (''current_truth_l0'', 250)]"

definition channel_deadlines :: "int \<Rightarrow> (string \<times> int) list" where
  "channel_deadlines total_ms = map (\<lambda>(k, cap). (k, channel_deadline total_ms cap)) CHANNEL_CAPS"

definition lookup_int :: "(string \<times> int) list \<Rightarrow> string \<Rightarrow> int" where
  "lookup_int d k = (case map_of d k of Some n \<Rightarrow> n | None \<Rightarrow> 0)"

definition retrieval_control_plan_from_adaptive_plan :: "pydict \<Rightarrow> retrieval_control_plan" where
  "retrieval_control_plan_from_adaptive_plan plan =
     (let semantic = as_mapping (dget plan ''semantic_retrieval'');
          shelf_budget = as_mapping (dget plan ''shelf_budget'');
          shelf_limits = dict_int (dget shelf_budget ''shelf_limits'');
          backend_budget = dict_int (dget shelf_budget ''backend_call_budget'');
          total_ms = max (int_or (dget shelf_budget ''latency_budget_ms'') 0) 0;
          semantic_allowed = named_shelves (dget semantic ''allowed_shelves'');
          id_payload =
            [(''route_class'', PStr (strip_text (dget plan ''route_class''))),
             (''requested_route_class'', PStr (strip_text (dget plan ''requested_route_class''))),
             (''retrieval_mode'', PStr (strip_text (dget plan ''retrieval_mode''))),
             (''allowed_shelves'', PList (as_list (dget plan ''activated_shelves''))),
             (''semantic_enabled'', PBool (truthy (dget semantic ''enabled''))),
             (''semantic_allowed_shelves'', text_tuple semantic_allowed),
             (''shelf_limits'', int_dict shelf_limits),
             (''backend_call_budget'', int_dict backend_budget),
             (''total_deadline_ms'', PInt total_ms)];
          status = strip_text (dget plan ''status'') in
      \<lparr>rp_plan_id = stable_plan_id (PDict id_payload),
       rp_status = (if status = [] then ''unknown'' else status),
       rp_route_class = strip_text (dget plan ''route_class''),
       rp_requested_route_class = strip_text (dget plan ''requested_route_class''),
       rp_retrieval_mode = strip_text (dget plan ''retrieval_mode''),
       rp_allowed_shelves = named_shelves (dget plan ''activated_shelves''),
       rp_skipped_shelves = named_shelves (dget plan ''skipped_shelves''),
       rp_shelf_limits = shelf_limits,
       rp_semantic_enabled = truthy (dget semantic ''enabled''),
       rp_semantic_allowed_shelves = semantic_allowed,
       rp_semantic_limit = max (lookup_int shelf_limits ''semantic_evidence'') 0,
       rp_backend_call_budget = backend_budget,
       rp_backend_call_budget_total =
         max (int_or (dget shelf_budget ''backend_call_budget_total'') 0) (sum_list (map snd backend_budget)),
       rp_total_deadline_ms = total_ms,
       rp_channel_deadlines_ms = channel_deadlines total_ms,
       rp_protected_authorities = [''durable_truth'', ''cited_corpus''],
       rp_degradation_policy = ''partial_packet'',
       rp_proof_flags =
         [(''single_runtime_plan'', True),
          (''semantic_shelves_bound'', \<not> truthy (dget semantic ''enabled'') \<or> semantic_allowed \<noteq> []),
          (''read_only_retrieval'', True),
          (''metadata_not_truth_authority'', True),
          (''packet_trace_requires_plan_id'', True)],
       rp_route_decision = as_mapping (dget plan ''route_decision''),
       rp_fallback = as_mapping (dget plan ''fallback''),
       rp_current_truth_view = as_mapping (dget plan ''current_truth_view''),
       rp_guardrails = as_mapping (dget plan ''guardrails'')\<rparr>)"

section \<open>Channel statuses\<close>

definition nonneg_int :: "pyval \<Rightarrow> int" where
  "nonneg_int v = (case py_int v of Inr i \<Rightarrow> max i 0 | Inl _ \<Rightarrow> 0)"

text \<open>\<open>dict.fromkeys\<close> keeps the first of equal texts.\<close>

definition tuple_text :: "pyval \<Rightarrow> string list" where
  "tuple_text v = rev (remdups (rev (filter (\<lambda>t. t \<noteq> []) (map (\<lambda>x. py_strip (py_str x)) (as_list v)))))"

record channel_status =
  cs_channel :: string
  cs_plan_id :: string
  cs_deadline_ms :: int
  cs_support_status :: string
  cs_enforcement :: string
  cs_reason :: string
  cs_hidden_work_after_return :: "bool option"

definition channel_status_of :: "string \<Rightarrow> string \<Rightarrow> int \<Rightarrow> bool \<Rightarrow> string \<Rightarrow> string \<Rightarrow> string \<Rightarrow> channel_status" where
  "channel_status_of channel plan_id deadline allowed support enforcement reason =
     (let support = (if \<not> allowed then ''skipped_by_plan'' else support);
          enforcement = (if \<not> allowed then ''not_called'' else enforcement);
          reason = (if \<not> allowed then ''channel_not_allowed_by_retrieval_control_plan'' else reason) in
      \<lparr>cs_channel = channel, cs_plan_id = plan_id, cs_deadline_ms = deadline, cs_support_status = support,
       cs_enforcement = enforcement, cs_reason = reason,
       cs_hidden_work_after_return = (if support \<noteq> ''cancellation_unsupported'' then Some False else None)\<rparr>)"

definition build_channel_deadline_statuses :: "bool \<Rightarrow> bool \<Rightarrow> pydict \<Rightarrow> (string \<times> channel_status) list" where
  "build_channel_deadline_statuses corpus_external graph_external plan =
     (let plan_id = py_str (py_or (dget plan ''plan_id'') (PStr []));
          deadlines = as_mapping (dget plan ''channel_deadlines_ms'');
          limits = as_mapping (dget plan ''shelf_limits'');
          semantic_allowed = tuple_text (dget plan ''semantic_allowed_shelves'');
          semantic_enabled = truthy (dget plan ''semantic_enabled'');
          deadline = (\<lambda>k. nonneg_int (dget deadlines k));
          limited = (\<lambda>k. nonneg_int (dget limits k) > 0);
          profile = limited ''profile'';
          continuity = limited ''continuity_match'' \<or> limited ''continuity_recent'';
          transcript = limited ''transcript'';
          operating = limited ''operating'';
          corpus = limited ''corpus'';
          graph = limited ''graph'';
          keyword = profile \<or> continuity \<or> transcript \<or> operating \<or> corpus;
          semantic_external =
            semantic_enabled \<and> corpus_external \<and>
            {''corpus'', ''continuity'', ''continuity_match'', ''transcript'', ''tank''} \<inter> set semantic_allowed \<noteq> {};
          graph_uses_external = graph \<and> graph_external;
          bounded = ''query_limit_bounded_same_thread'';
          graph_support = (if graph_uses_external then ''cancellation_unsupported'' else ''bounded_sync'');
          graph_enforcement = (if graph_uses_external then ''explicit_unsupported_status'' else bounded);
          graph_reason =
            (if graph_uses_external then ''external_graph_backend_has_no_safe_cancel_seam''
             else ''graph_path_is_bounded_by_route_limit_or_skipped'') in
      [(''task_memory'', channel_status_of ''task_memory'' plan_id (deadline ''operating'') True ''bounded_sync'' bounded
          ''task_lookup_is_bounded_and_does_not_spawn_hidden_work''),
       (''operating_truth'', channel_status_of ''operating_truth'' plan_id (deadline ''operating'') operating ''bounded_sync'' bounded
          ''operating_lookup_is_bounded_by_route_limit''),
       (''keyword'', channel_status_of ''keyword'' plan_id
          (max (deadline ''profile'') (max (deadline ''corpus'') (deadline ''transcript''))) keyword ''bounded_sync'' bounded
          ''keyword_channels_are_bounded_by_route_limits''),
       (''semantic'', channel_status_of ''semantic'' plan_id (deadline ''semantic'') semantic_enabled
          (if semantic_external then ''cancellation_unsupported'' else ''bounded_sync'')
          (if semantic_external then ''explicit_unsupported_status'' else bounded)
          (if semantic_external then ''external_corpus_semantic_backend_has_no_safe_cancel_seam''
           else ''semantic_index_path_is_bounded_by_route_limit'')),
       (''graph'', channel_status_of ''graph'' plan_id (deadline ''graph'') graph graph_support graph_enforcement graph_reason),
       (''graph_recall'', channel_status_of ''graph_recall'' plan_id (deadline ''graph'')
          (graph \<or> ''graph'' \<in> set semantic_allowed) graph_support graph_enforcement graph_reason),
       (''associative_expansion'', channel_status_of ''associative_expansion'' plan_id (deadline ''graph'') graph
          graph_support graph_enforcement graph_reason),
       (''temporal'', channel_status_of ''temporal'' plan_id (deadline ''temporal'') (continuity \<or> transcript \<or> graph)
          (if graph then graph_support else ''bounded_sync'')
          (if graph then graph_enforcement else bounded)
          (if graph then graph_reason else ''temporal_support_is_bounded_by_route_limits''))])"

section \<open>Lemmas\<close>

lemma dget_int_dict: "dget (map (\<lambda>(k, n). (k, PInt n)) d) k = (case map_of d k of Some n \<Rightarrow> PInt n | None \<Rightarrow> PNone)"
  by (induction d) (auto simp: dget_def)

lemma nonneg_int_dict: "nonneg_int (dget (map (\<lambda>(k, n). (k, PInt n)) d) k) = max (lookup_int d k) 0"
  by (simp add: dget_int_dict nonneg_int_def lookup_int_def split: option.split)

lemma public_fields:
  "dget (rp_to_public_dict p) ''plan_id'' = PStr (rp_plan_id p)"
  "dget (rp_to_public_dict p) ''channel_deadlines_ms'' = int_dict (rp_channel_deadlines_ms p)"
  "dget (rp_to_public_dict p) ''shelf_limits'' = int_dict (rp_shelf_limits p)"
  "dget (rp_to_public_dict p) ''semantic_enabled'' = PBool (rp_semantic_enabled p)"
  "dget (rp_to_public_dict p) ''semantic_allowed_shelves'' = text_tuple (rp_semantic_allowed_shelves p)"
  by (simp_all add: rp_to_public_dict_def)

lemma plan_fields:
  "rp_total_deadline_ms (retrieval_control_plan_from_adaptive_plan plan) \<ge> 0"
  "rp_channel_deadlines_ms (retrieval_control_plan_from_adaptive_plan plan) =
     channel_deadlines (rp_total_deadline_ms (retrieval_control_plan_from_adaptive_plan plan))"
  "rp_plan_id (retrieval_control_plan_from_adaptive_plan plan) \<noteq> []"
  by (simp_all add: retrieval_control_plan_from_adaptive_plan_def Let_def stable_plan_id_def)

lemma deadline_within: "0 \<le> total_ms \<Longrightarrow> max (lookup_int (channel_deadlines total_ms) k) 0 \<le> total_ms"
  by (simp add: channel_deadlines_def CHANNEL_CAPS_def lookup_int_def channel_deadline_def)

lemma deadline_value: "0 < total_ms \<Longrightarrow> lookup_int (channel_deadlines total_ms) k = min total_ms (lookup_int CHANNEL_CAPS k)"
  by (simp add: channel_deadlines_def CHANNEL_CAPS_def lookup_int_def channel_deadline_def)

lemma set_tuple_text: "set (tuple_text (text_tuple xs)) = py_strip ` set xs - {[]}"
  by (auto simp: tuple_text_def text_tuple_def)

lemma channel_status_fields:
  "cs_channel (channel_status_of c pid d allowed support enforcement reason) = c"
  "cs_plan_id (channel_status_of c pid d allowed support enforcement reason) = pid"
  "cs_deadline_ms (channel_status_of c pid d allowed support enforcement reason) = d"
  "cs_support_status (channel_status_of c pid d allowed support enforcement reason) = (if allowed then support else ''skipped_by_plan'')"
  "cs_enforcement (channel_status_of c pid d allowed support enforcement reason) = (if allowed then enforcement else ''not_called'')"
  "cs_hidden_work_after_return (channel_status_of c pid d allowed support enforcement reason) =
     (if allowed \<and> support = ''cancellation_unsupported'' then None else Some False)"
  by (simp_all add: channel_status_of_def Let_def)

text \<open>
  The specification of the channels, on the plan alone: which of them a plan allows, and which then call an external
  backend that cannot be cancelled.
\<close>

definition shelf_open :: "retrieval_control_plan \<Rightarrow> string \<Rightarrow> bool" where
  "shelf_open p k \<longleftrightarrow> 0 < lookup_int (rp_shelf_limits p) k"

definition channel_allowed :: "retrieval_control_plan \<Rightarrow> string \<Rightarrow> bool" where
  "channel_allowed p c \<longleftrightarrow>
     (if c = ''task_memory'' then True
      else if c = ''operating_truth'' then shelf_open p ''operating''
      else if c = ''keyword'' then
        (\<exists>k \<in> {''profile'', ''continuity_match'', ''continuity_recent'', ''transcript'', ''operating'', ''corpus''}. shelf_open p k)
      else if c = ''semantic'' then rp_semantic_enabled p
      else if c = ''graph_recall'' then shelf_open p ''graph'' \<or> ''graph'' \<in> py_strip ` set (rp_semantic_allowed_shelves p)
      else if c = ''temporal'' then
        (\<exists>k \<in> {''continuity_match'', ''continuity_recent'', ''transcript'', ''graph''}. shelf_open p k)
      else c \<in> {''graph'', ''associative_expansion''} \<and> shelf_open p ''graph'')"

definition calls_external :: "bool \<Rightarrow> bool \<Rightarrow> retrieval_control_plan \<Rightarrow> string \<Rightarrow> bool" where
  "calls_external corpus_external graph_external p c \<longleftrightarrow>
     (if c = ''semantic'' then
        corpus_external \<and> rp_semantic_enabled p \<and>
        py_strip ` set (rp_semantic_allowed_shelves p) \<inter> {''corpus'', ''continuity'', ''continuity_match'', ''transcript'', ''tank''} \<noteq> {}
      else c \<in> {''graph'', ''graph_recall'', ''associative_expansion'', ''temporal''} \<and> graph_external \<and> shelf_open p ''graph'')"

definition status_follows_plan :: "bool \<Rightarrow> bool \<Rightarrow> retrieval_control_plan \<Rightarrow> string \<times> channel_status \<Rightarrow> bool" where
  "status_follows_plan corpus_external graph_external p = (\<lambda>(c, s).
     cs_channel s = c \<and> cs_plan_id s = rp_plan_id p \<and>
     0 \<le> cs_deadline_ms s \<and> cs_deadline_ms s \<le> rp_total_deadline_ms p \<and>
     (cs_support_status s = ''skipped_by_plan'' \<longleftrightarrow> \<not> channel_allowed p c) \<and>
     (cs_enforcement s = ''not_called'' \<longleftrightarrow> \<not> channel_allowed p c) \<and>
     (cs_hidden_work_after_return s = None \<longleftrightarrow> calls_external corpus_external graph_external p c) \<and>
     (cs_support_status s = ''cancellation_unsupported'' \<longleftrightarrow> calls_external corpus_external graph_external p c))"

lemma followsI:
  assumes "pid = rp_plan_id p" and "0 \<le> d" and "d \<le> rp_total_deadline_ms p" and "allowed \<longleftrightarrow> channel_allowed p c"
    and "support \<noteq> ''skipped_by_plan''" and "enforcement \<noteq> ''not_called''"
    and "allowed \<and> support = ''cancellation_unsupported'' \<longleftrightarrow> calls_external corpus_external graph_external p c"
  shows "status_follows_plan corpus_external graph_external p (c, channel_status_of c pid d allowed support enforcement reason)"
  using assms unfolding status_follows_plan_def case_prod_conv channel_status_fields by (cases allowed) auto

section \<open>Properties\<close>

text \<open>
  The statuses of the eight channels follow the plan the adaptive route plan was turned into: each names the plan,
  its deadline lies within the plan's total, it is reported as not called exactly when the plan does not
  allow the channel, and work may go on unseen after the return exactly for an allowed channel that calls an
  external backend.
\<close>

theorem channel_statuses_follow_plan:
  fixes plan :: pydict
  defines "p \<equiv> retrieval_control_plan_from_adaptive_plan plan"
  shows "map fst (build_channel_deadline_statuses corpus_external graph_external (rp_to_public_dict p)) =
      [''task_memory'', ''operating_truth'', ''keyword'', ''semantic'', ''graph'', ''graph_recall'', ''associative_expansion'', ''temporal''] \<and>
    list_all (status_follows_plan corpus_external graph_external p)
      (build_channel_deadline_statuses corpus_external graph_external (rp_to_public_dict p))"
proof -
  have total: "0 \<le> rp_total_deadline_ms p" "rp_channel_deadlines_ms p = channel_deadlines (rp_total_deadline_ms p)" "rp_plan_id p \<noteq> []"
    unfolding p_def by (rule plan_fields)+
  note within = deadline_within [OF total(1), folded total(2)]
  have sem: "{''corpus'', ''continuity'', ''continuity_match'', ''transcript'', ''tank''} \<inter> set (tuple_text (text_tuple xs)) \<noteq> {} \<longleftrightarrow>
      py_strip ` set xs \<inter> {''corpus'', ''continuity'', ''continuity_match'', ''transcript'', ''tank''} \<noteq> {}"
    "''graph'' \<in> set (tuple_text (text_tuple xs)) \<longleftrightarrow> ''graph'' \<in> py_strip ` set xs" for xs
    by (auto simp: set_tuple_text)
  have fields: "py_str (py_or (dget (rp_to_public_dict p) ''plan_id'') (PStr [])) = rp_plan_id p"
    "truthy (dget (rp_to_public_dict p) ''semantic_enabled'') = rp_semantic_enabled p"
    "nonneg_int (dget (as_mapping (dget (rp_to_public_dict p) ''channel_deadlines_ms'')) k) = max (lookup_int (rp_channel_deadlines_ms p) k) 0"
    "0 < nonneg_int (dget (as_mapping (dget (rp_to_public_dict p) ''shelf_limits'')) k) \<longleftrightarrow> shelf_open p k" for k
    using total(3) by (simp_all add: public_fields int_dict_def nonneg_int_dict shelf_open_def py_or_def less_max_iff_disj)
  show ?thesis
    unfolding build_channel_deadline_statuses_def Let_def fields public_fields(5) sem list.pred_inject list.map fst_conv
    by (intro conjI followsI TrueI refl) (use within in \<open>simp_all add: channel_allowed_def calls_external_def\<close>, blast+)
qed

lemma dict_int_nonneg: "list_all (\<lambda>(k, n). 0 \<le> n) (dict_int v)"
  by (simp add: dict_int_def list_all_iff case_prod_unfold)

lemma sum_nonneg_list: "list_all (\<lambda>(k, n). 0 \<le> n) d \<Longrightarrow> (0::int) \<le> sum_list (map snd d)"
  by (induction d) auto

text \<open>
  A retrieval plan stays inside its budgets whatever the adaptive plan holds: limits and call budgets are not
  negative, the total covers the calls of the backends, each channel's deadline is the smaller of the
  total and the channel's cap (zero without a total), and enabled semantic retrieval without an allowed
  shelf is shown by its proof flag.
\<close>

theorem control_plan_within_budgets:
  fixes plan :: pydict
  defines "p \<equiv> retrieval_control_plan_from_adaptive_plan plan"
  shows "list_all (\<lambda>(k, n). 0 \<le> n) (rp_shelf_limits p) \<and> list_all (\<lambda>(k, n). 0 \<le> n) (rp_backend_call_budget p) \<and>
    0 \<le> sum_list (map snd (rp_backend_call_budget p)) \<and> sum_list (map snd (rp_backend_call_budget p)) \<le> rp_backend_call_budget_total p \<and>
    0 \<le> rp_semantic_limit p \<and> 0 \<le> rp_total_deadline_ms p \<and>
    rp_channel_deadlines_ms p = map (\<lambda>(k, cap). (k, min (rp_total_deadline_ms p) cap)) CHANNEL_CAPS \<and>
    map_of (rp_proof_flags p) ''semantic_shelves_bound'' = Some (rp_semantic_enabled p \<longrightarrow> rp_semantic_allowed_shelves p \<noteq> [])"
proof -
  have "channel_deadlines t = map (\<lambda>(k, cap). (k, min t cap)) CHANNEL_CAPS" if "0 \<le> t" for t
    using that by (simp add: channel_deadlines_def channel_deadline_def CHANNEL_CAPS_def)
  then show ?thesis
    unfolding p_def using plan_fields(1,2) [of plan]
    by (simp add: sum_nonneg_list dict_int_nonneg) (simp add: retrieval_control_plan_from_adaptive_plan_def Let_def dict_int_nonneg sum_nonneg_list)
qed

definition sample_plan :: pydict where
  "sample_plan =
    [(''shelf_budget'', PDict [(''shelf_limits'', PDict [(''graph'', PInt 2)]), (''latency_budget_ms'', PInt 5000)])]"

theorem control_plan_within_budgets_witness:
  "rp_total_deadline_ms (retrieval_control_plan_from_adaptive_plan sample_plan) = 5000 \<and>
   lookup_int (rp_channel_deadlines_ms (retrieval_control_plan_from_adaptive_plan sample_plan)) ''operating'' = 300"
proof -
  have "rp_total_deadline_ms (retrieval_control_plan_from_adaptive_plan sample_plan) = 5000"
    by (simp add: retrieval_control_plan_from_adaptive_plan_def Let_def sample_plan_def int_or_def)
  then show ?thesis
    using control_plan_within_budgets [of sample_plan] by (simp add: lookup_int_def CHANNEL_CAPS_def)
qed

end
