(* ===== verification/Allocator.thy ===== *)
theory Allocator
  imports PyFloat
begin

text \<open>
  \<open>working_memory_allocator.py\<close>: the shadow allocation of retrieval candidates under a candidate budget, with the
  authority floor kept first and the rest in the order of a priority tuple. A score that overflows a float
  raises. For scores that are not a number, the order among candidates of equal rank is that of an
  insertion sort here.
\<close>

section \<open>Candidates\<close>

definition SHELF_PRIORITY :: "(string \<times> nat) list" where
  "SHELF_PRIORITY =
    [(''profile'', 90), (''operating'', 85), (''task'', 82), (''graph'', 80), (''continuity_match'', 70),
     (''continuity_recent'', 65), (''transcript'', 55), (''corpus'', 50)]"

definition integer_of :: "pyval \<Rightarrow> int" where
  "integer_of v = int_or (py_or v (PInt 0)) 0"

definition number_of :: "pyval \<Rightarrow> pyfloat result" where
  "number_of v = float_or (py_or v (PFloat 0 ''0.0'')) 0"

definition cand_part :: "string \<Rightarrow> pydict \<Rightarrow> pydict" where
  "cand_part k candidate = as_mapping (dget candidate k)"

definition cand_id :: "pydict \<Rightarrow> string" where
  "cand_id candidate = strip_text (dget candidate ''candidate_id'')"

definition is_authority_floor :: "pydict \<Rightarrow> bool" where
  "is_authority_floor candidate \<longleftrightarrow>
     truthy (dget (cand_part ''authority'' candidate) ''floor_applied'') \<or>
     strip_text (dget (cand_part ''authority'' candidate) ''level'') = ''canonical''"

definition is_selected :: "pydict \<Rightarrow> bool" where
  "is_selected candidate \<longleftrightarrow> strip_text (dget (cand_part ''selection'' candidate) ''status'') = ''selected''"

definition shelf_priority :: "pydict \<Rightarrow> nat" where
  "shelf_priority candidate =
     (case map_of SHELF_PRIORITY (strip_text (dget candidate ''shelf'')) of Some n \<Rightarrow> n | None \<Rightarrow> 0)"

section \<open>The priority tuple and its order\<close>

record priority_key =
  pk_floor :: nat
  pk_selected :: nat
  pk_shelf :: nat
  pk_scores :: "pyfloat list"
  pk_overlap :: int
  pk_id :: string

definition priority_tuple :: "pydict \<Rightarrow> priority_key result" where
  "priority_tuple candidate =
     map_sum id (\<lambda>scores.
       \<lparr>pk_floor = (if is_authority_floor candidate then 1 else 0),
        pk_selected = (if is_selected candidate then 1 else 0),
        pk_shelf = shelf_priority candidate,
        pk_scores = scores,
        pk_overlap = integer_of (dget (cand_part ''score'' candidate) ''query_token_overlap''),
        pk_id = cand_id candidate\<rparr>)
      (map_result (\<lambda>k. number_of (dget (cand_part ''score'' candidate) k)) [''rrf'', ''semantic'', ''keyword''])"

fun float_eq :: "pyfloat \<Rightarrow> pyfloat \<Rightarrow> bool" where
  "float_eq (Fin a) (Fin b) = (a = b)"
| "float_eq NaN _ = False"
| "float_eq a b = (a = b)"

text \<open>Tuples compare at the first position whose entries are not equal.\<close>

fun first_unequal :: "pyfloat list \<Rightarrow> pyfloat list \<Rightarrow> (pyfloat \<times> pyfloat) option" where
  "first_unequal (a # as) (b # bs) = (if float_eq a b then first_unequal as bs else Some (a, b))"
| "first_unequal _ _ = None"

definition priority_less :: "priority_key \<Rightarrow> priority_key \<Rightarrow> bool" where
  "priority_less k l =
     (if pk_floor k \<noteq> pk_floor l then pk_floor k < pk_floor l
      else if pk_selected k \<noteq> pk_selected l then pk_selected k < pk_selected l
      else if pk_shelf k \<noteq> pk_shelf l then pk_shelf k < pk_shelf l
      else (case first_unequal (pk_scores k) (pk_scores l) of
              Some (a, b) \<Rightarrow> float_less a b
            | None \<Rightarrow> if pk_overlap k \<noteq> pk_overlap l then pk_overlap k < pk_overlap l else pk_id k < pk_id l))"

text \<open>\<open>sorted(xs, key=..., reverse=True)\<close> is stable: equal keys keep their order.\<close>

fun insert_after :: "('a \<Rightarrow> 'a \<Rightarrow> bool) \<Rightarrow> 'a \<Rightarrow> 'a list \<Rightarrow> 'a list" where
  "insert_after lt x [] = [x]"
| "insert_after lt x (y # ys) = (if lt x y then x # y # ys else y # insert_after lt x ys)"

definition sorted_reverse :: "('a \<Rightarrow> 'a \<Rightarrow> bool) \<Rightarrow> 'a list \<Rightarrow> 'a list" where
  "sorted_reverse lt xs = rev (fold (insert_after lt) (rev xs) [])"

section \<open>Allocation\<close>

record alloc_row =
  al_candidate_id :: string
  al_evidence_key :: string
  al_shelf :: string
  al_selection_status :: string
  al_reason_code :: string
  al_authority_floor :: int
  al_authority_floor_applied :: bool
  al_rrf_score :: pyfloat
  al_preview_token_estimate :: int

text \<open>The priority tuple reads the same score before any row is made, so reading it here cannot raise.\<close>

definition candidate_summary :: "string \<Rightarrow> pydict \<Rightarrow> alloc_row" where
  "candidate_summary reason candidate =
    \<lparr>al_candidate_id = cand_id candidate,
     al_evidence_key = strip_text (dget candidate ''evidence_key''),
     al_shelf = strip_text (dget candidate ''shelf''),
     al_selection_status = strip_text (dget (cand_part ''selection'' candidate) ''status''),
     al_reason_code = reason,
     al_authority_floor = integer_of (dget (cand_part ''authority'' candidate) ''floor''),
     al_authority_floor_applied = is_authority_floor candidate,
     al_rrf_score = (case number_of (dget (cand_part ''score'' candidate) ''rrf'') of Inr x \<Rightarrow> x | Inl _ \<Rightarrow> Fin 0),
     al_preview_token_estimate = integer_of (dget (cand_part ''cost'' candidate) ''preview_token_estimate'')\<rparr>"

definition normalize_candidates :: "pydict \<Rightarrow> int \<Rightarrow> pydict list" where
  "normalize_candidates candidate_trace max_operation_count =
     take (nat (max 0 max_operation_count))
       (filter (\<lambda>c. cand_id c \<noteq> [])
         (mappings (as_list (dget candidate_trace ''selected'') @ as_list (dget candidate_trace ''suppressed''))))"

record alloc_state =
  as_kept_ids :: "string list"
  as_kept :: "alloc_row list"
  as_cut :: "alloc_row list"

definition floor_step :: "pydict \<Rightarrow> alloc_state \<Rightarrow> alloc_state" where
  "floor_step candidate s =
     (if cand_id candidate \<in> set (as_kept_ids s) then s
      else s\<lparr>as_kept_ids := cand_id candidate # as_kept_ids s,
             as_kept := as_kept s @ [candidate_summary ''keep_authority_floor'' candidate]\<rparr>)"

definition budget_step :: "int \<Rightarrow> pydict \<Rightarrow> alloc_state \<Rightarrow> alloc_state" where
  "budget_step budget candidate s =
     (if cand_id candidate \<in> set (as_kept_ids s) then s
      else if int (length (as_kept s)) < budget \<and> is_selected candidate then
        s\<lparr>as_kept_ids := cand_id candidate # as_kept_ids s,
          as_kept := as_kept s @ [candidate_summary ''keep_selected_budget_slot'' candidate]\<rparr>
      else s\<lparr>as_cut := as_cut s @ [candidate_summary
               (if is_selected candidate then ''cut_global_candidate_budget'' else ''cut_lower_priority_suppressed'') candidate]\<rparr>)"

definition floor_pass :: "pydict list \<Rightarrow> alloc_state" where
  "floor_pass candidates = fold floor_step (filter is_authority_floor candidates) \<lparr>as_kept_ids = [], as_kept = [], as_cut = []\<rparr>"

definition authority_verdict :: "int \<Rightarrow> pydict list \<Rightarrow> alloc_state \<Rightarrow> string" where
  "authority_verdict budget candidates s =
     (if budget < int (length (filter is_authority_floor candidates)) then ''over_budget_due_to_authority_floor''
      else if \<exists>c \<in> set (filter is_authority_floor candidates). cand_id c \<notin> set (as_kept_ids s) then ''fail_authority_floor_cut''
      else ''pass'')"

record allocation =
  ao_mode :: string
  ao_candidate_budget :: int
  ao_max_operation_count :: int
  ao_operation_count :: int
  ao_old_selected_count :: int
  ao_proposed_selected_count :: int
  ao_cut_count :: int
  ao_old_preview_token_estimate :: int
  ao_proposed_preview_token_estimate :: int
  ao_preview_token_delta :: int
  ao_authority_floor_verdict :: string
  ao_reason_codes :: "string list"
  ao_selected :: "alloc_row list"
  ao_cut :: "alloc_row list"

definition token_estimate :: "pydict \<Rightarrow> int" where
  "token_estimate candidate = integer_of (dget (cand_part ''cost'' candidate) ''preview_token_estimate'')"

definition allocation_of :: "pydict list \<Rightarrow> priority_key list \<Rightarrow> int \<Rightarrow> int \<Rightarrow> allocation" where
  "allocation_of candidates keys budget max_operation_count =
     (let selected_old = filter is_selected candidates;
          ordered = map fst (sorted_reverse (\<lambda>a b. priority_less (snd a) (snd b)) (zip candidates keys));
          s = fold (budget_step budget) ordered (floor_pass candidates);
          old_tokens = sum_list (map token_estimate selected_old);
          new_tokens = sum_list (map al_preview_token_estimate (as_kept s)) in
      \<lparr>ao_mode = ''shadow_read_only'',
       ao_candidate_budget = budget,
       ao_max_operation_count = max 0 max_operation_count,
       ao_operation_count = int (length candidates),
       ao_old_selected_count = int (length selected_old),
       ao_proposed_selected_count = int (length (as_kept s)),
       ao_cut_count = int (length (as_cut s)),
       ao_old_preview_token_estimate = old_tokens,
       ao_proposed_preview_token_estimate = new_tokens,
       ao_preview_token_delta = new_tokens - old_tokens,
       ao_authority_floor_verdict = authority_verdict budget candidates s,
       ao_reason_codes =
         [''keep_authority_floor'', ''keep_selected_budget_slot'', ''cut_global_candidate_budget'', ''cut_lower_priority_suppressed''],
       ao_selected = as_kept s,
       ao_cut = as_cut s\<rparr>)"

text \<open>The disabled report has no counts; they are zero here.\<close>

definition disabled_allocation :: "int \<Rightarrow> allocation" where
  "disabled_allocation budget =
    \<lparr>ao_mode = ''disabled'', ao_candidate_budget = budget, ao_max_operation_count = 0, ao_operation_count = 0,
     ao_old_selected_count = 0, ao_proposed_selected_count = 0, ao_cut_count = 0, ao_old_preview_token_estimate = 0,
     ao_proposed_preview_token_estimate = 0, ao_preview_token_delta = 0, ao_authority_floor_verdict = ''not_evaluated'',
     ao_reason_codes = [''allocator_disabled''], ao_selected = [], ao_cut = []\<rparr>"

definition build_global_allocator_shadow :: "pydict \<Rightarrow> int \<Rightarrow> bool \<Rightarrow> int \<Rightarrow> allocation result" where
  "build_global_allocator_shadow candidate_trace candidate_budget enabled max_operation_count =
     (let budget = max 1 candidate_budget;
          candidates = normalize_candidates candidate_trace max_operation_count in
      if \<not> enabled then Inr (disabled_allocation budget)
      else map_sum id (\<lambda>keys. allocation_of candidates keys budget max_operation_count) (map_result priority_tuple candidates))"

section \<open>Lemmas\<close>

text \<open>Sorting permutes, and it sorts by every measure the order respects.\<close>

lemma mset_insert_after: "mset (insert_after lt x ys) = add_mset x (mset ys)"
  by (induction ys) auto

lemma mset_fold_insert: "mset (fold (insert_after lt) xs ys) = mset xs + mset ys"
  by (induction xs arbitrary: ys) (simp_all add: mset_insert_after)

lemma mset_sorted_reverse: "mset (sorted_reverse lt xs) = mset xs"
  by (simp add: sorted_reverse_def mset_fold_insert)

lemma set_insert_after: "set (insert_after lt x ys) = insert x (set ys)"
  using arg_cong [OF mset_insert_after [of lt x ys], of set_mset] by simp

lemma sorted_insert_after:
  assumes "\<And>a b. P a \<Longrightarrow> P b \<Longrightarrow> m a < (m b :: nat) \<Longrightarrow> lt a b" and "\<And>a b. P a \<Longrightarrow> P b \<Longrightarrow> lt a b \<Longrightarrow> m a \<le> m b"
    and "sorted (map m ys)" and "\<And>y. y \<in> set (x # ys) \<Longrightarrow> P y"
  shows "sorted (map m (insert_after lt x ys))"
  using assms(3,4)
proof (induction ys)
  case (Cons y ys)
  have "m y \<le> m x" if "\<not> lt x y" using assms(1) [of x y] Cons.prems(2) that by (meson list.set_intros not_less)
  moreover have "m x \<le> m y" if "lt x y" using assms(2) [of x y] Cons.prems(2) that by simp
  ultimately show ?case using Cons by (fastforce simp: set_insert_after)
qed simp

lemma sorted_sorted_reverse:
  assumes "\<And>a b. P a \<Longrightarrow> P b \<Longrightarrow> m a < (m b :: nat) \<Longrightarrow> lt a b" and "\<And>a b. P a \<Longrightarrow> P b \<Longrightarrow> lt a b \<Longrightarrow> m a \<le> m b"
    and "\<And>x. x \<in> set xs \<Longrightarrow> P x"
  shows "sorted_wrt (\<lambda>a b. m b \<le> m a) (sorted_reverse lt xs)"
proof -
  have "sorted (map m (fold (insert_after lt) ys zs))" if "sorted (map m zs)" "\<And>y. y \<in> set ys \<union> set zs \<Longrightarrow> P y" for ys zs
    using that
  proof (induction ys arbitrary: zs)
    case (Cons y ys)
    have "sorted (map m (insert_after lt y zs))"
      by (rule sorted_insert_after [of P m lt zs y, OF assms(1,2)]) (use Cons.prems in auto)
    with Cons.prems show ?case by (auto intro!: Cons.IH simp: set_insert_after)
  qed simp
  from this [of "[]" "rev xs"] assms(3) show ?thesis
    by (simp add: sorted_reverse_def sorted_wrt_rev sorted_map)
qed

text \<open>The rank of a candidate: floor, then selection, then shelf.\<close>

definition key_rank :: "priority_key \<Rightarrow> nat" where
  "key_rank k = (pk_floor k * 2 + pk_selected k) * 128 + pk_shelf k"

definition cand_rank :: "pydict \<Rightarrow> nat" where
  "cand_rank c = ((if is_authority_floor c then 2 else 0) + (if is_selected c then 1 else 0)) * 128 + shelf_priority c"

definition key_ok :: "priority_key \<Rightarrow> bool" where
  "key_ok k \<longleftrightarrow> pk_floor k \<le> 1 \<and> pk_selected k \<le> 1 \<and> pk_shelf k < 128"

lemma priority_less_rank:
  assumes "key_ok k" and "key_ok l"
  shows "key_rank k < key_rank l \<Longrightarrow> priority_less k l" and "priority_less k l \<Longrightarrow> key_rank k \<le> key_rank l"
  using assms unfolding priority_less_def key_rank_def key_ok_def by (auto split: if_splits)

lemma shelf_priority_bound: "shelf_priority c < 128"
  by (simp add: shelf_priority_def SHELF_PRIORITY_def split: option.split)

lemma priority_tuple_key: "priority_tuple c = Inr k \<Longrightarrow> key_ok k \<and> key_rank k = cand_rank c"
  unfolding priority_tuple_def
  by (cases "map_result (\<lambda>k. number_of (dget (cand_part ''score'' c) k)) [''rrf'', ''semantic'', ''keyword'']")
    (auto simp: key_ok_def key_rank_def cand_rank_def shelf_priority_bound)

section \<open>The two passes\<close>

lemma summary_fields:
  "al_candidate_id (candidate_summary r c) = cand_id c" "al_reason_code (candidate_summary r c) = r"
  "al_authority_floor_applied (candidate_summary r c) = is_authority_floor c"
  by (simp_all add: candidate_summary_def)

definition state_ok :: "alloc_state \<Rightarrow> bool" where
  "state_ok s \<longleftrightarrow> set (as_kept_ids s) = al_candidate_id ` set (as_kept s) \<and> distinct (map al_candidate_id (as_kept s))"

lemma floor_fold:
  assumes "state_ok s"
  shows "state_ok (fold floor_step cs s)"
    "al_candidate_id ` set (as_kept (fold floor_step cs s)) = al_candidate_id ` set (as_kept s) \<union> cand_id ` set cs"
    "as_cut (fold floor_step cs s) = as_cut s"
    "set (as_kept (fold floor_step cs s)) \<subseteq> set (as_kept s) \<union> candidate_summary ''keep_authority_floor'' ` set cs"
proof -
  have all: "state_ok (fold floor_step cs s) \<and>
    al_candidate_id ` set (as_kept (fold floor_step cs s)) = al_candidate_id ` set (as_kept s) \<union> cand_id ` set cs \<and>
    as_cut (fold floor_step cs s) = as_cut s \<and>
    set (as_kept (fold floor_step cs s)) \<subseteq> set (as_kept s) \<union> candidate_summary ''keep_authority_floor'' ` set cs"
    using assms
  proof (induction cs arbitrary: s)
    case (Cons c cs)
    show ?case
    proof (cases "cand_id c \<in> set (as_kept_ids s)")
      case True
      then have "floor_step c s = s" "cand_id c \<in> al_candidate_id ` set (as_kept s)"
        using Cons.prems by (simp_all add: floor_step_def state_ok_def)
      then show ?thesis using Cons.IH [OF Cons.prems] by (simp add: insert_absorb) blast
    next
      case False
      let ?s = "floor_step c s"
      have f: "as_kept ?s = as_kept s @ [candidate_summary ''keep_authority_floor'' c]" "as_kept_ids ?s = cand_id c # as_kept_ids s"
        "as_cut ?s = as_cut s"
        using False by (simp_all add: floor_step_def)
      have ok: "state_ok ?s"
        using Cons.prems False unfolding state_ok_def f by (simp add: summary_fields)
      have s': "fold floor_step (c # cs) s = fold floor_step cs ?s" by simp
      note IH = Cons.IH [OF ok]
      have ids: "al_candidate_id ` set (as_kept ?s) \<union> A = al_candidate_id ` set (as_kept s) \<union> insert (cand_id c) A" for A
        unfolding f by (simp add: summary_fields)
      have rows: "set (as_kept ?s) \<union> g ` A = set (as_kept s) \<union> insert (candidate_summary ''keep_authority_floor'' c) (g ` A)"
        for A and g :: "pydict \<Rightarrow> alloc_row"
        unfolding f by simp
      show ?thesis
        unfolding s' list.set image_insert ids [symmetric] rows [symmetric] using IH unfolding f(3) .
    qed
  qed simp
  show "state_ok (fold floor_step cs s)" using all by (rule conjunct1)
  show "al_candidate_id ` set (as_kept (fold floor_step cs s)) = al_candidate_id ` set (as_kept s) \<union> cand_id ` set cs"
    using all [THEN conjunct2] by (rule conjunct1)
  show "as_cut (fold floor_step cs s) = as_cut s" using all [THEN conjunct2, THEN conjunct2] by (rule conjunct1)
  show "set (as_kept (fold floor_step cs s)) \<subseteq> set (as_kept s) \<union> candidate_summary ''keep_authority_floor'' ` set cs"
    using all [THEN conjunct2, THEN conjunct2] by (rule conjunct2)
qed

lemma floor_pass_props:
  "state_ok (floor_pass cs)"
  "al_candidate_id ` set (as_kept (floor_pass cs)) = cand_id ` {c \<in> set cs. is_authority_floor c}"
  "as_cut (floor_pass cs) = []"
  "set (as_kept (floor_pass cs)) \<subseteq> candidate_summary ''keep_authority_floor'' ` {c \<in> set cs. is_authority_floor c}"
  using floor_fold [of "\<lparr>as_kept_ids = [], as_kept = [], as_cut = []\<rparr>" "filter is_authority_floor cs"]
  by (simp_all add: floor_pass_def state_ok_def)

lemma budget_step_ok: "state_ok s \<Longrightarrow> state_ok (budget_step b c s)"
  by (auto simp: state_ok_def budget_step_def summary_fields)

text \<open>The shelf priority of a row, and the two kinds of rows whose order the budget decides.\<close>

definition row_priority :: "alloc_row \<Rightarrow> nat" where
  "row_priority r = (case map_of SHELF_PRIORITY (al_shelf r) of Some n \<Rightarrow> n | None \<Rightarrow> 0)"

definition slot_row :: "alloc_row \<Rightarrow> bool" where
  "slot_row r \<longleftrightarrow> al_reason_code r = ''keep_selected_budget_slot''"

definition over_budget_row :: "alloc_row \<Rightarrow> bool" where
  "over_budget_row r \<longleftrightarrow> al_reason_code r = ''cut_global_candidate_budget''"

lemma row_facts:
  "row_priority (candidate_summary reason c) = shelf_priority c"
  "slot_row (candidate_summary ''keep_selected_budget_slot'' c)" "\<not> slot_row (candidate_summary ''keep_authority_floor'' c)"
  "over_budget_row (candidate_summary (if b then ''cut_global_candidate_budget'' else ''cut_lower_priority_suppressed'') c) = b"
  by (simp_all add: row_priority_def shelf_priority_def candidate_summary_def slot_row_def over_budget_row_def)

lemma budget_step_cases:
  obtains (skip) "cand_id c \<in> set (as_kept_ids s)" "budget_step b c s = s"
  | (keep) "cand_id c \<notin> set (as_kept_ids s)" "int (length (as_kept s)) < b" "is_selected c"
      "as_kept (budget_step b c s) = as_kept s @ [candidate_summary ''keep_selected_budget_slot'' c]"
      "as_kept_ids (budget_step b c s) = cand_id c # as_kept_ids s" "as_cut (budget_step b c s) = as_cut s"
  | (cut) tag where "cand_id c \<notin> set (as_kept_ids s)" "is_selected c \<Longrightarrow> b \<le> int (length (as_kept s))"
      "over_budget_row (candidate_summary tag c) = is_selected c"
      "as_kept (budget_step b c s) = as_kept s" "as_kept_ids (budget_step b c s) = as_kept_ids s"
      "as_cut (budget_step b c s) = as_cut s @ [candidate_summary tag c]"
proof (cases "cand_id c \<in> set (as_kept_ids s)")
  case False
  note out = this
  show ?thesis
  proof (cases "int (length (as_kept s)) < b \<and> is_selected c")
    case True
    with out show ?thesis by (intro keep) (simp_all add: budget_step_def)
  next
    case False
    with out show ?thesis
      by (intro cut [of "if is_selected c then ''cut_global_candidate_budget'' else ''cut_lower_priority_suppressed''"])
        (simp_all only: budget_step_def row_facts if_False alloc_state.simps, simp_all)
  qed
qed (simp add: skip budget_step_def)

text \<open>What holds at every point of the second pass, with the candidates still to come.\<close>

definition pass_inv :: "int \<Rightarrow> pydict list \<Rightarrow> alloc_state \<Rightarrow> bool" where
  "pass_inv budget rest s \<longleftrightarrow> state_ok s \<and>
     al_candidate_id ` set (as_kept s) \<inter> al_candidate_id ` set (as_cut s) = {} \<and>
     (\<forall>q \<in> set (as_cut s). over_budget_row q \<longrightarrow> budget \<le> int (length (as_kept s))) \<and>
     (as_cut s = [] \<or> budget \<le> int (length (as_kept s)) \<or>
      (\<forall>c \<in> set rest. is_selected c \<longrightarrow> cand_id c \<in> set (as_kept_ids s))) \<and>
     (\<forall>c \<in> set rest. is_authority_floor c \<longrightarrow> cand_id c \<in> set (as_kept_ids s)) \<and>
     (\<forall>r \<in> set (as_kept s). \<forall>c \<in> set rest. slot_row r \<and> is_selected c \<and> cand_id c \<notin> set (as_kept_ids s) \<longrightarrow>
        shelf_priority c \<le> row_priority r) \<and>
     (\<forall>r \<in> set (as_kept s). \<forall>q \<in> set (as_cut s). slot_row r \<and> over_budget_row q \<longrightarrow> row_priority q \<le> row_priority r)"

lemma rank_selected:
  assumes "cand_rank c' \<le> cand_rank c" and "\<not> is_authority_floor c" and "is_selected c'"
  shows "is_selected c" "\<not> is_authority_floor c' \<Longrightarrow> shelf_priority c' \<le> shelf_priority c"
  using assms shelf_priority_bound [of c] unfolding cand_rank_def by (auto split: if_splits)

lemma pass_inv_step:
  assumes inv: "pass_inv budget (c # rest) s" and sorted: "\<And>c'. c' \<in> set rest \<Longrightarrow> cand_rank c' \<le> cand_rank c"
  shows "pass_inv budget rest (budget_step budget c s)"
proof -
  have ok: "state_ok (budget_step budget c s)" using inv by (simp add: pass_inv_def budget_step_ok)
  have kept: "set (as_kept_ids s) = al_candidate_id ` set (as_kept s)" using inv by (simp add: pass_inv_def state_ok_def)
  show ?thesis
  proof (cases rule: budget_step_cases [of c s budget])
    case skip
    then show ?thesis using inv unfolding pass_inv_def by simp
  next
    case keep
    have floor: "\<not> is_authority_floor c" "as_cut s = []" using inv keep(1-3) by (auto simp: pass_inv_def)
    have "\<forall>c' \<in> set rest. is_selected c' \<and> cand_id c' \<notin> set (as_kept_ids s) \<longrightarrow> shelf_priority c' \<le> shelf_priority c"
      using inv rank_selected(2) [OF sorted floor(1)] unfolding pass_inv_def by auto
    then show ?thesis
      using inv ok floor(2) unfolding pass_inv_def keep(4-6) by (auto simp: row_facts)
  next
    case (cut tag)
    have floor: "\<not> is_authority_floor c" using inv cut(1) by (auto simp: pass_inv_def)
    have none: "budget \<le> int (length (as_kept s)) \<or> (\<forall>c' \<in> set rest. \<not> is_selected c')"
      using cut(2) rank_selected(1) [OF sorted floor] by auto
    have prio: "\<forall>r \<in> set (as_kept s). slot_row r \<and> is_selected c \<longrightarrow> shelf_priority c \<le> row_priority r"
      using inv cut(1) unfolding pass_inv_def by auto
    show ?thesis
      using inv ok cut(1,2,3) none prio kept unfolding pass_inv_def cut(4-6) by (auto simp: row_facts summary_fields)
  qed
qed

lemma pass_inv_fold:
  "pass_inv budget cs s \<Longrightarrow> sorted_wrt (\<lambda>a b. cand_rank b \<le> cand_rank a) cs \<Longrightarrow> pass_inv budget [] (fold (budget_step budget) cs s)"
  by (induction cs arbitrary: s) (simp_all add: pass_inv_step)

lemma pass_fold:
  "\<exists>new. as_kept (fold (budget_step budget) cs s) = as_kept s @ new \<and>
     (\<forall>r \<in> set new. \<exists>c \<in> set cs. is_selected c \<and> r = candidate_summary ''keep_selected_budget_slot'' c) \<and>
     (new = [] \<or> int (length (as_kept s @ new)) \<le> budget)"
  "state_ok s \<Longrightarrow>
     al_candidate_id ` set (as_kept (fold (budget_step budget) cs s)) \<union> al_candidate_id ` set (as_cut (fold (budget_step budget) cs s)) =
     al_candidate_id ` set (as_kept s) \<union> al_candidate_id ` set (as_cut s) \<union> cand_id ` set cs"
proof (induction cs arbitrary: s)
  case (Cons c cs)
  {
    case 1
    obtain row where row: "row = candidate_summary ''keep_selected_budget_slot''" by simp
    obtain new where new: "as_kept (fold (budget_step budget) cs (budget_step budget c s)) = as_kept (budget_step budget c s) @ new"
      "\<forall>r \<in> set new. \<exists>c \<in> set cs. is_selected c \<and> r = row c"
      "new = [] \<or> int (length (as_kept (budget_step budget c s) @ new)) \<le> budget"
      using Cons.IH(1) [of "budget_step budget c s"] unfolding row by blast
    show ?case
    proof (cases rule: budget_step_cases [of c s budget])
      case keep
      then show ?thesis using new unfolding row [symmetric] by (intro exI [of _ "row c # new"]) auto
    qed (use new in \<open>unfold row [symmetric], intro exI [of _ new], auto\<close>)
  next
    case 2
    note IH = Cons.IH(2) [OF budget_step_ok [OF 2], of budget c]
    have "cand_id c \<in> al_candidate_id ` set (as_kept s)" if "cand_id c \<in> set (as_kept_ids s)"
      using that 2 by (simp add: state_ok_def)
    then show ?case
      using IH by (cases rule: budget_step_cases [of c s budget]) (auto simp: summary_fields)
  }
qed simp_all

lemma ordered_candidates:
  assumes "map_result priority_tuple cs = Inr keys"
  defines "ordered \<equiv> map fst (sorted_reverse (\<lambda>a b. priority_less (snd a) (snd b)) (zip cs keys))"
  shows "set ordered = set cs" "sorted_wrt (\<lambda>a b. cand_rank b \<le> cand_rank a) ordered"
proof -
  let ?lt = "\<lambda>a b :: pydict \<times> priority_key. priority_less (snd a) (snd b)"
  have keys: "list_all2 (\<lambda>c k. priority_tuple c = Inr k) cs keys"
    using assms(1) by (induction cs arbitrary: keys) (auto split: sum.splits)
  have ok: "key_ok (snd p) \<and> key_rank (snd p) = cand_rank (fst p)" if "p \<in> set (zip cs keys)" for p
    using keys that priority_tuple_key by (fastforce simp: list_all2_conv_all_nth set_zip)
  have perm: "mset (sorted_reverse ?lt (zip cs keys)) = mset (zip cs keys)" by (rule mset_sorted_reverse)
  have "set (sorted_reverse ?lt (zip cs keys)) = set (zip cs keys)" using perm by (rule mset_eq_setD)
  then have "set ordered = set (map fst (zip cs keys))" by (simp add: ordered_def)
  then show "set ordered = set cs" unfolding map_fst_zip [OF list_all2_lengthD [OF keys]] .
  have inset: "p \<in> set (zip cs keys)" if "p \<in> set (sorted_reverse ?lt (zip cs keys))" for p
    using that mset_eq_setD [OF perm] by blast
  have "sorted_wrt (\<lambda>a b. key_rank (snd b) \<le> key_rank (snd a)) (sorted_reverse ?lt (zip cs keys))"
    by (rule sorted_sorted_reverse [of "\<lambda>p. key_ok (snd p)"]) (use priority_less_rank ok in auto)
  then show "sorted_wrt (\<lambda>a b. cand_rank b \<le> cand_rank a) ordered"
    unfolding ordered_def sorted_wrt_map by (rule sorted_wrt_mono_rel [rotated]) (use ok inset in simp)
qed

section \<open>Properties\<close>

text \<open>
  C36: what an allocation proposes, whatever the candidate trace: every identifier of a normalised candidate is kept or
  cut, never both, and kept once; every authority-floor candidate is kept, so the verdict that one was cut never
  appears; beyond the floor the budget holds, only selected candidates fill it, a selected candidate is cut
  only when it is full, and never one of a higher shelf than one that was kept for a slot.
\<close>

theorem allocation_keeps_floor_within_budget:
  assumes "build_global_allocator_shadow candidate_trace budget True limit = Inr a"
  defines "cs \<equiv> normalize_candidates candidate_trace limit"
  shows "distinct (map al_candidate_id (ao_selected a)) \<and>
    al_candidate_id ` set (ao_selected a) \<union> al_candidate_id ` set (ao_cut a) = cand_id ` set cs \<and>
    al_candidate_id ` set (ao_selected a) \<inter> al_candidate_id ` set (ao_cut a) = {} \<and>
    cand_id ` {c \<in> set cs. is_authority_floor c} \<subseteq> al_candidate_id ` set (ao_selected a) \<and>
    length (ao_selected a) \<le> max (nat (max 1 budget)) (card (cand_id ` {c \<in> set cs. is_authority_floor c})) \<and>
    (\<forall>r \<in> set (ao_selected a). slot_row r \<longrightarrow> al_candidate_id r \<in> cand_id ` {c \<in> set cs. is_selected c}) \<and>
    (\<forall>q \<in> set (ao_cut a). over_budget_row q \<longrightarrow> max 1 budget \<le> int (length (ao_selected a)) \<and>
       (\<forall>r \<in> set (ao_selected a). slot_row r \<longrightarrow> row_priority q \<le> row_priority r)) \<and>
    ao_authority_floor_verdict a =
      (if max 1 budget < int (length (filter is_authority_floor cs)) then ''over_budget_due_to_authority_floor'' else ''pass'')"
proof -
  obtain keys where keys: "map_result priority_tuple cs = Inr keys" and a: "a = allocation_of cs keys (max 1 budget) limit"
    using assms(1) unfolding build_global_allocator_shadow_def Let_def cs_def
    by (cases "map_result priority_tuple (normalize_candidates candidate_trace limit)") auto
  define ordered where "ordered = map fst (sorted_reverse (\<lambda>a b. priority_less (snd a) (snd b)) (zip cs keys))"
  note ord = ordered_candidates [OF keys, folded ordered_def]
  define s where "s = fold (budget_step (max 1 budget)) ordered (floor_pass cs)"
  have sel: "ao_selected a = as_kept s" "ao_cut a = as_cut s" "ao_authority_floor_verdict a = authority_verdict (max 1 budget) cs s"
    by (simp_all add: a allocation_of_def Let_def s_def ordered_def)
  note fp = floor_pass_props [of cs]
  have ids0: "set (as_kept_ids (floor_pass cs)) = cand_id ` {c \<in> set cs. is_authority_floor c}"
    using fp(1,2) by (simp add: state_ok_def)
  have noslot: "\<not> slot_row r" if "r \<in> set (as_kept (floor_pass cs))" for r
    using that fp(4) row_facts(3) by blast
  have "pass_inv (max 1 budget) ordered (floor_pass cs)"
    using fp(1,3) noslot unfolding pass_inv_def ids0 by (auto simp: ord(1))
  from pass_inv_fold [OF this ord(2)] have inv: "pass_inv (max 1 budget) [] s" by (simp add: s_def)
  obtain new where new: "as_kept s = as_kept (floor_pass cs) @ new"
    "\<forall>r \<in> set new. \<exists>c \<in> set ordered. is_selected c \<and> r = candidate_summary ''keep_selected_budget_slot'' c"
    "new = [] \<or> int (length (as_kept (floor_pass cs) @ new)) \<le> max 1 budget"
    using pass_fold(1) [of "max 1 budget" ordered "floor_pass cs"] unfolding s_def by blast
  have card: "length (as_kept (floor_pass cs)) = card (cand_id ` {c \<in> set cs. is_authority_floor c})"
    using fp(1) distinct_card [of "map al_candidate_id (as_kept (floor_pass cs))"] by (simp add: state_ok_def fp(2))
  have floor: "cand_id ` {c \<in> set cs. is_authority_floor c} \<subseteq> al_candidate_id ` set (as_kept s)"
    using new(1) fp(2) by auto
  have len: "length (as_kept s) \<le> max (nat (max 1 budget)) (card (cand_id ` {c \<in> set cs. is_authority_floor c}))"
    using new(1,3) card by auto
  have slots: "\<forall>r \<in> set (as_kept s). slot_row r \<longrightarrow> al_candidate_id r \<in> cand_id ` {c \<in> set cs. is_selected c}"
  proof (intro ballI impI)
    fix r assume "r \<in> set (as_kept s)" "slot_row r"
    then have "r \<in> set new" using new(1) noslot by auto
    then obtain c where "c \<in> set cs" "is_selected c" "al_candidate_id r = cand_id c"
      using new(2) ord(1) summary_fields(1) by metis
    then show "al_candidate_id r \<in> cand_id ` {c \<in> set cs. is_selected c}" by simp
  qed
  have all: "al_candidate_id ` set (as_kept s) \<union> al_candidate_id ` set (as_cut s) = cand_id ` set cs"
    using pass_fold(2) [OF fp(1), of "max 1 budget" ordered] fp(2,3) unfolding s_def ord(1) by auto
  have verdict: "authority_verdict (max 1 budget) cs s =
      (if max 1 budget < int (length (filter is_authority_floor cs)) then ''over_budget_due_to_authority_floor'' else ''pass'')"
    using floor inv unfolding authority_verdict_def pass_inv_def state_ok_def by auto
  show ?thesis
    unfolding sel using inv floor len slots all verdict unfolding pass_inv_def state_ok_def by blast
qed

definition sample_trace :: pydict where
  "sample_trace =
    [(''selected'', PList [PDict [(''candidate_id'', PStr ''a''), (''selection'', PDict [(''status'', PStr ''selected'')])],
       PDict [(''candidate_id'', PStr ''m''), (''authority'', PDict [(''level'', PStr ''canonical'')])]])]"

theorem allocation_keeps_floor_within_budget_witness:
  "\<exists>a. build_global_allocator_shadow sample_trace 1 True 160 = Inr a \<and> ''m'' \<in> al_candidate_id ` set (ao_selected a) \<and>
     length (ao_selected a) = 1 \<and> ao_authority_floor_verdict a = ''pass''"
proof -
  let ?cs = "[[(''candidate_id'', PStr ''a''), (''selection'', PDict [(''status'', PStr ''selected'')])],
       [(''candidate_id'', PStr ''m''), (''authority'', PDict [(''level'', PStr ''canonical'')])]]"
  have cs: "normalize_candidates sample_trace 160 = ?cs"
    by (simp add: normalize_candidates_def sample_trace_def cand_id_def text_eval)
  have floor: "filter is_authority_floor ?cs = [[(''candidate_id'', PStr ''m''), (''authority'', PDict [(''level'', PStr ''canonical'')])]]"
    by (simp add: is_authority_floor_def cand_part_def text_eval)
  then have set: "cand_id ` {c \<in> set ?cs. is_authority_floor c} = {''m''}"
    unfolding set_filter [symmetric] by (simp add: cand_id_def text_eval)
  have "number_of PNone = Inr (Fin 0)" by (simp add: number_of_def py_or_def float_or_def)
  then obtain a where a: "build_global_allocator_shadow sample_trace 1 True 160 = Inr a"
    by (simp add: build_global_allocator_shadow_def cs priority_tuple_def cand_part_def)
  note p = allocation_keeps_floor_within_budget [OF a, unfolded cs set floor]
  have sub: "{''m''} \<subseteq> al_candidate_id ` set (ao_selected a)" using p by (elim conjE)
  have "length (ao_selected a) \<le> max (nat (max 1 1)) (card {''m''})" using p by (elim conjE)
  moreover have "ao_authority_floor_verdict a = (if max 1 1 < int (length [[(''candidate_id'', PStr ''m''),
      (''authority'', PDict [(''level'', PStr ''canonical'')])]]) then ''over_budget_due_to_authority_floor'' else ''pass'')"
    using p by (elim conjE)
  moreover have "0 < length (ao_selected a)" using sub by auto
  ultimately show ?thesis using a sub by (intro exI [of _ a]) (simp add: le_Suc_eq)
qed

end
