(* ===== verification/ProactiveStore.thy ===== *)
theory ProactiveStore
  imports PyHash
begin

text \<open>
  \<open>brainstack/storage/proactive_store.py\<close> with the states of \<open>core/proactive.py\<close>: proactive events, the log of their
  transitions, the delivery outbox and the attention ledger. The four tables are the lists of the state
  record; a column of JSON text holds the value it encodes. \<open>utc_now_iso\<close> is the argument \<open>clock\<close>, read at
  a tick the state counts. An operation that raises does so before its first write, so its result has no
  new state; \<open>ORDER BY\<close> leaves rows with equal keys in table order.
\<close>

section \<open>Tables\<close>

record event_row =
  pe_event_id :: string
  pe_source :: string
  pe_kind :: string
  pe_principal :: string
  pe_workspace :: string
  pe_workstream :: string
  pe_title :: string
  pe_summary :: string
  pe_priority :: string
  pe_authority :: string
  pe_state :: string
  pe_evidence :: "string list"
  pe_source_ref :: string
  pe_key :: string
  pe_action :: string
  pe_reason :: string
  pe_expires_at :: "string option"
  pe_metadata :: pydict
  pe_created_at :: string
  pe_updated_at :: string

record transition_row =
  tn_id :: int
  tn_event_id :: string
  tn_from :: "string option"
  tn_to :: string
  tn_reason :: string
  tn_actor :: string
  tn_trace_id :: string
  tn_metadata :: pydict
  tn_created_at :: string

record outbox_row =
  ox_id :: string
  ox_event_id :: string
  ox_key :: string
  ox_target :: string
  ox_action :: string
  ox_state :: string
  ox_attempts :: nat
  ox_error :: string
  ox_created_at :: string
  ox_updated_at :: string

type_synonym scope = "string \<times> string \<times> string"

record ledger_row =
  lg_scope :: scope
  lg_open_asks :: int
  lg_notified :: "string list"
  lg_rejected :: "string list"
  lg_cooldown_until :: "string option"
  lg_updated_at :: string

record proactive_store =
  px_events :: "event_row list"
  px_transitions :: "transition_row list"
  px_next_id :: int
  px_outbox :: "outbox_row list"
  px_ledger :: "ledger_row list"
  px_ticks :: nat

type_synonym clock = "nat \<Rightarrow> string"

definition empty_store :: proactive_store where
  "empty_store = \<lparr>px_events = [], px_transitions = [], px_next_id = 1, px_outbox = [], px_ledger = [], px_ticks = 0\<rparr>"

text \<open>One reading of the clock.\<close>

definition read_clock :: "clock \<Rightarrow> proactive_store \<Rightarrow> string \<times> proactive_store" where
  "read_clock clock st = (clock (px_ticks st), st\<lparr>px_ticks := px_ticks st + 1\<rparr>)"

definition stable_hash :: "pydict \<Rightarrow> string" where
  "stable_hash payload = sha256_hex (json_dumps (PDict payload))"

definition event_id_of :: "string \<Rightarrow> string" where
  "event_id_of key = ''pe_'' @ take 20 (stable_hash [(''idempotency_key'', PStr key)])"

definition outbox_id_of :: "string \<Rightarrow> string" where
  "outbox_id_of key = ''po_'' @ take 20 (stable_hash [(''idempotency_key'', PStr key)])"

definition find_event :: "string \<Rightarrow> proactive_store \<Rightarrow> event_row option" where
  "find_event i st = List.find (\<lambda>r. pe_event_id r = i) (px_events st)"

definition proactive_row_to_dict :: "event_row \<Rightarrow> pydict" where
  "proactive_row_to_dict r =
    [(''schema'', PStr ''brainstack.proactive_event.v1''),
     (''event_id'', PStr (pe_event_id r)),
     (''source'', PStr (pe_source r)),
     (''kind'', PStr (pe_kind r)),
     (''principal_scope_key'', PStr (pe_principal r)),
     (''workspace_scope_key'', PStr (pe_workspace r)),
     (''workstream_scope_key'', PStr (pe_workstream r)),
     (''title'', PStr (pe_title r)),
     (''summary'', PStr (pe_summary r)),
     (''priority'', PStr (pe_priority r)),
     (''authority'', PStr (pe_authority r)),
     (''state'', PStr (pe_state r)),
     (''evidence_ids'', PList (map PStr (pe_evidence r))),
     (''source_ref'', PStr (pe_source_ref r)),
     (''idempotency_key'', PStr (pe_key r)),
     (''intended_next_action'', PStr (pe_action r)),
     (''reason_code'', PStr (pe_reason r)),
     (''expires_at'', case pe_expires_at r of Some t \<Rightarrow> PStr t | None \<Rightarrow> PNone),
     (''metadata'', PDict (pe_metadata r)),
     (''created_at'', PStr (pe_created_at r)),
     (''updated_at'', PStr (pe_updated_at r))]"

definition append_transition ::
  "clock \<Rightarrow> string \<Rightarrow> string option \<Rightarrow> string \<Rightarrow> string \<Rightarrow> string \<Rightarrow> string \<Rightarrow> pydict \<Rightarrow> proactive_store \<Rightarrow> proactive_store" where
  "append_transition clock event_id from_state to_state reason actor trace_id metadata st =
     (let (now, st) = read_clock clock st in
      st\<lparr>px_transitions := px_transitions st @
           [\<lparr>tn_id = px_next_id st, tn_event_id = event_id, tn_from = from_state, tn_to = to_state, tn_reason = reason,
             tn_actor = actor, tn_trace_id = trace_id, tn_metadata = metadata, tn_created_at = now\<rparr>],
         px_next_id := px_next_id st + 1\<rparr>)"

section \<open>Events\<close>

text \<open>The keyword arguments of \<open>upsert_proactive_event\<close>, with their defaults.\<close>

record event_args =
  ea_source :: string
  ea_kind :: string
  ea_principal :: string
  ea_workspace :: string
  ea_workstream :: string
  ea_title :: string
  ea_summary :: string
  ea_priority :: string
  ea_authority :: string
  ea_state :: string
  ea_evidence_ids :: "string list"
  ea_source_ref :: string
  ea_key :: string
  ea_action :: string
  ea_reason :: string
  ea_expires_at :: "string option"
  ea_metadata :: pydict
  ea_trace_id :: string

definition event_args_default :: "string \<Rightarrow> string \<Rightarrow> string \<Rightarrow> event_args" where
  "event_args_default source kind scope_key =
    \<lparr>ea_source = source, ea_kind = kind, ea_principal = scope_key, ea_workspace = [], ea_workstream = [], ea_title = [],
     ea_summary = [], ea_priority = ''normal'', ea_authority = ''proactive_candidate'', ea_state = ''observed'',
     ea_evidence_ids = [], ea_source_ref = [], ea_key = [], ea_action = ''none'', ea_reason = ''OBSERVED'',
     ea_expires_at = None, ea_metadata = [], ea_trace_id = []\<rparr>"

definition text_or :: "string \<Rightarrow> string \<Rightarrow> string" where
  "text_or s d = (if s = [] then d else s)"

definition evidence_of :: "event_args \<Rightarrow> string list" where
  "evidence_of a = filter (\<lambda>t. t \<noteq> []) (ea_evidence_ids a)"

definition effective_event_key :: "event_args \<Rightarrow> string" where
  "effective_event_key a =
     text_or (ea_key a) (stable_hash
       [(''source'', PStr (ea_source a)), (''kind'', PStr (ea_kind a)), (''principal_scope_key'', PStr (ea_principal a)),
        (''workspace_scope_key'', PStr (ea_workspace a)), (''workstream_scope_key'', PStr (ea_workstream a)),
        (''source_ref'', PStr (ea_source_ref a)), (''title'', PStr (ea_title a)), (''summary'', PStr (ea_summary a)),
        (''evidence'', PList (map PStr (evidence_of a)))])"

definition new_event :: "event_args \<Rightarrow> string \<Rightarrow> event_row" where
  "new_event a now =
    \<lparr>pe_event_id = event_id_of (effective_event_key a), pe_source = ea_source a, pe_kind = ea_kind a,
     pe_principal = ea_principal a, pe_workspace = ea_workspace a, pe_workstream = ea_workstream a, pe_title = ea_title a,
     pe_summary = ea_summary a, pe_priority = text_or (ea_priority a) ''normal'',
     pe_authority = text_or (ea_authority a) ''proactive_candidate'', pe_state = text_or (ea_state a) ''observed'',
     pe_evidence = evidence_of a, pe_source_ref = ea_source_ref a, pe_key = effective_event_key a,
     pe_action = text_or (ea_action a) ''none'', pe_reason = text_or (ea_reason a) ''OBSERVED'',
     pe_expires_at = ea_expires_at a, pe_metadata = ea_metadata a, pe_created_at = now, pe_updated_at = now\<rparr>"

definition refresh_event :: "event_args \<Rightarrow> string \<Rightarrow> event_row \<Rightarrow> event_row" where
  "refresh_event a now r =
     r\<lparr>pe_title := ea_title a, pe_summary := ea_summary a, pe_priority := text_or (ea_priority a) ''normal'',
       pe_state := text_or (ea_state a) (pe_state r), pe_evidence := evidence_of a,
       pe_action := text_or (ea_action a) ''none'', pe_reason := text_or (ea_reason a) ''OBSERVED'',
       pe_expires_at := ea_expires_at a, pe_metadata := ea_metadata a, pe_updated_at := now\<rparr>"

definition material_change :: "event_args \<Rightarrow> event_row \<Rightarrow> bool" where
  "material_change a r \<longleftrightarrow>
     pe_state r \<noteq> text_or (ea_state a) (pe_state r) \<or> pe_priority r \<noteq> text_or (ea_priority a) ''normal'' \<or>
     pe_summary r \<noteq> ea_summary a \<or> pe_evidence r \<noteq> evidence_of a"

text \<open>\<open>UPDATE proactive_events SET ... WHERE event_id = ?\<close>\<close>

definition update_event :: "string \<Rightarrow> (event_row \<Rightarrow> event_row) \<Rightarrow> proactive_store \<Rightarrow> proactive_store" where
  "update_event i f st = st\<lparr>px_events := map (\<lambda>r. if pe_event_id r = i then f r else r) (px_events st)\<rparr>"

definition event_payload :: "string \<Rightarrow> bool \<Rightarrow> bool \<Rightarrow> proactive_store \<Rightarrow> (pydict \<times> proactive_store) result" where
  "event_payload i created changed st =
     (case find_event i st of
        None \<Rightarrow> Inl TypeError
      | Some r \<Rightarrow> Inr (proactive_row_to_dict r @ [(''created'', PBool created), (''material_change'', PBool changed)], st))"

definition upsert_proactive_event :: "clock \<Rightarrow> event_args \<Rightarrow> proactive_store \<Rightarrow> (pydict \<times> proactive_store) result" where
  "upsert_proactive_event clock a st =
     (let key = effective_event_key a;
          (now, st) = read_clock clock st in
      case List.find (\<lambda>r. pe_key r = key) (px_events st) of
        None \<Rightarrow>
          (if find_event (event_id_of key) st \<noteq> None then Inl IntegrityError
           else (let st = st\<lparr>px_events := px_events st @ [new_event a now]\<rparr>;
                     st = append_transition clock (event_id_of key) None (text_or (ea_state a) ''observed'')
                            (text_or (ea_reason a) ''OBSERVED'') ''producer'' (ea_trace_id a) [(''created'', PBool True)] st in
                 event_payload (event_id_of key) True True st))
      | Some r \<Rightarrow>
          (let i = pe_event_id r; new_state = text_or (ea_state a) (pe_state r); changed = material_change a r;
               st = update_event i (refresh_event a now) st;
               st = (if pe_state r \<noteq> new_state
                     then append_transition clock i (Some (pe_state r)) new_state (text_or (ea_reason a) ''MATERIAL_CHANGE'')
                            ''producer'' (ea_trace_id a) [(''material_change'', PBool changed)] st
                     else st) in
           event_payload i False changed st))"

section \<open>Outbox and attention ledger\<close>

definition scope_of :: "event_row \<Rightarrow> scope" where
  "scope_of r = (pe_principal r, pe_workspace r, pe_workstream r)"

definition last_n :: "nat \<Rightarrow> 'a list \<Rightarrow> 'a list" where
  "last_n n xs = drop (length xs - n) xs"

definition add_once :: "string \<Rightarrow> string list \<Rightarrow> string list" where
  "add_once k ks = (if k \<in> set ks then ks else ks @ [k])"

definition update_attention_ledger_for_outbox :: "clock \<Rightarrow> event_row \<Rightarrow> string \<Rightarrow> proactive_store \<Rightarrow> proactive_store" where
  "update_attention_ledger_for_outbox clock event item_key st =
     (let (now, st) = read_clock clock st; sc = scope_of event in
      case List.find (\<lambda>l. lg_scope l = sc) (px_ledger st) of
        None \<Rightarrow>
          st\<lparr>px_ledger := px_ledger st @
               [\<lparr>lg_scope = sc, lg_open_asks = 1, lg_notified = last_n 20 (add_once item_key []), lg_rejected = [],
                 lg_cooldown_until = None, lg_updated_at = now\<rparr>]\<rparr>
      | Some old \<Rightarrow>
          st\<lparr>px_ledger := map (\<lambda>l. if lg_scope l = sc
               then l\<lparr>lg_open_asks := lg_open_asks old + 1, lg_notified := last_n 20 (add_once item_key (lg_notified old)),
                      lg_updated_at := now\<rparr>
               else l) (px_ledger st)\<rparr>)"

text \<open>
  The insert resolves a conflict on the idempotency key by touching the row; a conflict on the row identifier
  alone is an integrity error.
\<close>

definition create_proactive_outbox ::
  "clock \<Rightarrow> string \<Rightarrow> string \<Rightarrow> string \<Rightarrow> string \<Rightarrow> proactive_store \<Rightarrow> (pydict \<times> proactive_store) result" where
  "create_proactive_outbox clock event_id delivery_target idempotency_key intended_next_action st =
     (case find_event event_id st of
        None \<Rightarrow> Inl KeyError
      | Some event \<Rightarrow>
          (let key = text_or idempotency_key (event_id @ '':'' @ delivery_target);
               outbox_id = outbox_id_of key;
               (now, st) = read_clock clock st;
               conflict = list_ex (\<lambda>x. ox_key x = key) (px_outbox st) in
           if \<not> conflict \<and> list_ex (\<lambda>x. ox_id x = outbox_id) (px_outbox st) then Inl IntegrityError
           else
             (let st = (if conflict
                        then st\<lparr>px_outbox := map (\<lambda>x. if ox_key x = key then x\<lparr>ox_updated_at := now\<rparr> else x) (px_outbox st)\<rparr>
                        else st\<lparr>px_outbox := px_outbox st @
                               [\<lparr>ox_id = outbox_id, ox_event_id = event_id, ox_key = key, ox_target = delivery_target,
                                 ox_action = text_or intended_next_action (text_or (pe_action event) ''none''),
                                 ox_state = ''pending'', ox_attempts = 0, ox_error = [], ox_created_at = now,
                                 ox_updated_at = now\<rparr>]\<rparr>);
                  st = append_transition clock event_id (Some (pe_state event)) (pe_state event) ''OUTBOX_PENDING''
                         ''surfacing_policy'' []
                         [(''outbox_id'', PStr outbox_id), (''delivery_target'', PStr delivery_target)] st;
                  st = update_attention_ledger_for_outbox clock event key st in
              Inr ([(''schema'', PStr ''brainstack.proactive_outbox.v1''), (''outbox_id'', PStr outbox_id),
                    (''event_id'', PStr event_id), (''state'', PStr ''pending'')], st))))"

definition close_attention_ask :: "clock \<Rightarrow> event_row \<Rightarrow> bool \<Rightarrow> proactive_store \<Rightarrow> proactive_store" where
  "close_attention_ask clock event rejected st =
     (let sc = scope_of event in
      case List.find (\<lambda>l. lg_scope l = sc) (px_ledger st) of
        None \<Rightarrow> st
      | Some old \<Rightarrow>
          (let rejected_keys = (if rejected then add_once (pe_key event) (lg_rejected old) else lg_rejected old);
               (now, st) = read_clock clock st in
           st\<lparr>px_ledger := map (\<lambda>l. if lg_scope l = sc
                then l\<lparr>lg_open_asks := max 0 (lg_open_asks old - 1), lg_rejected := last_n 20 rejected_keys, lg_updated_at := now\<rparr>
                else l) (px_ledger st)\<rparr>))"

section \<open>Inspection and control\<close>

definition transition_to_dict :: "transition_row \<Rightarrow> pydict" where
  "transition_to_dict t =
    [(''id'', PInt (tn_id t)),
     (''from_state'', case tn_from t of Some s \<Rightarrow> PStr s | None \<Rightarrow> PNone),
     (''to_state'', PStr (tn_to t)),
     (''reason_code'', PStr (tn_reason t)),
     (''actor'', PStr (tn_actor t)),
     (''trace_id'', PStr (tn_trace_id t)),
     (''metadata'', PDict (tn_metadata t)),
     (''created_at'', PStr (tn_created_at t))]"

definition outbox_to_dict :: "outbox_row \<Rightarrow> pydict" where
  "outbox_to_dict x =
    [(''outbox_id'', PStr (ox_id x)),
     (''delivery_target'', PStr (ox_target x)),
     (''delivery_state'', PStr (ox_state x)),
     (''attempt_count'', PInt (int (ox_attempts x))),
     (''last_error'', PStr (ox_error x)),
     (''created_at'', PStr (ox_created_at x)),
     (''updated_at'', PStr (ox_updated_at x))]"

definition inspect_proactive_item :: "string \<Rightarrow> proactive_store \<Rightarrow> pydict result" where
  "inspect_proactive_item event_id st =
     (case find_event event_id st of
        None \<Rightarrow> Inl KeyError
      | Some r \<Rightarrow> Inr
          [(''schema'', PStr ''brainstack.proactive_control.v1''),
           (''item'', PDict (proactive_row_to_dict r)),
           (''transitions'', PList (map (PDict \<circ> transition_to_dict)
              (sort_key tn_id (filter (\<lambda>t. tn_event_id t = event_id) (px_transitions st))))),
           (''outbox'', PList (map (PDict \<circ> outbox_to_dict)
              (sort_key ox_created_at (filter (\<lambda>x. ox_event_id x = event_id) (px_outbox st)))))])"

definition CLOSED_STATES :: "string list" where
  "CLOSED_STATES = [''accepted'', ''rejected'', ''expired'', ''suppressed'', ''blocked'']"

definition close_outbox :: "string \<Rightarrow> string \<Rightarrow> string \<Rightarrow> string \<Rightarrow> outbox_row \<Rightarrow> outbox_row" where
  "close_outbox event_id closed_state reason now x =
     (if ox_event_id x = event_id \<and> ox_state x = ''pending''
      then x\<lparr>ox_state := closed_state, ox_error := reason, ox_updated_at := now\<rparr> else x)"

definition set_proactive_item_state ::
  "clock \<Rightarrow> string \<Rightarrow> string \<Rightarrow> string \<Rightarrow> string \<Rightarrow> string \<Rightarrow> pydict \<Rightarrow> proactive_store \<Rightarrow> (pydict \<times> proactive_store) result" where
  "set_proactive_item_state clock event_id state reason actor trace_id metadata st =
     (case find_event event_id st of
        None \<Rightarrow> Inl KeyError
      | Some event \<Rightarrow>
          (let (now, st) = read_clock clock st;
               st = update_event event_id (\<lambda>r. r\<lparr>pe_state := state, pe_reason := reason,
                      pe_metadata := dupdate (pe_metadata event) metadata, pe_updated_at := now\<rparr>) st;
               st = append_transition clock event_id (Some (pe_state event)) state reason actor trace_id metadata st;
               closed_state = (if state = ''suppressed'' then ''suppressed'' else ''cancelled'');
               st = (if state \<in> set CLOSED_STATES
                     then append_transition clock event_id None closed_state reason actor trace_id
                            (dupdate [(''closed_pending_outbox'', PBool True)] metadata)
                            (st\<lparr>px_outbox := map (close_outbox event_id closed_state reason now) (px_outbox st)\<rparr>)
                     else st);
               st = (if state \<in> {''accepted'', ''rejected''} then close_attention_ask clock event (state = ''rejected'') st else st) in
           map_sum id (\<lambda>d. (d, st)) (inspect_proactive_item event_id st)))"

definition mark_proactive_outbox ::
  "clock \<Rightarrow> string \<Rightarrow> string \<Rightarrow> string \<Rightarrow> string \<Rightarrow> proactive_store \<Rightarrow> (pydict \<times> proactive_store) result" where
  "mark_proactive_outbox clock outbox_id delivery_state last_error actor st =
     (case List.find (\<lambda>x. ox_id x = outbox_id) (px_outbox st) of
        None \<Rightarrow> Inl KeyError
      | Some row \<Rightarrow>
          (let (now, st) = read_clock clock st;
               st = st\<lparr>px_outbox := map (\<lambda>x. if ox_id x = outbox_id
                      then x\<lparr>ox_state := delivery_state, ox_error := last_error, ox_attempts := ox_attempts x + 1,
                             ox_updated_at := now\<rparr> else x) (px_outbox st)\<rparr>;
               st = append_transition clock (ox_event_id row) None delivery_state
                      (if delivery_state = ''delivered'' then ''NOTIFIED'' else ''BLOCKED'') actor []
                      [(''outbox_id'', PStr outbox_id), (''delivery_state'', PStr delivery_state), (''last_error'', PStr last_error)] st in
           Inr ([(''schema'', PStr ''brainstack.proactive_outbox.v1''), (''outbox_id'', PStr outbox_id),
                 (''delivery_state'', PStr delivery_state)], st)))"

section \<open>Listing\<close>

definition clamp_limit :: "int \<Rightarrow> int \<Rightarrow> int \<Rightarrow> nat" where
  "clamp_limit n0 upper n = nat (max 1 (min (if n = 0 then n0 else n) upper))"

definition newest_first :: "event_row list \<Rightarrow> event_row list" where
  "newest_first rows = rev (sort_key pe_updated_at (rev rows))"

definition list_proactive_items :: "string \<Rightarrow> string \<Rightarrow> int \<Rightarrow> proactive_store \<Rightarrow> pydict list" where
  "list_proactive_items principal_scope_key state n st =
     map proactive_row_to_dict (take (clamp_limit 50 200 n) (newest_first
       (filter (\<lambda>r. (principal_scope_key = [] \<or> pe_principal r = principal_scope_key) \<and> (state = [] \<or> pe_state r = state))
         (px_events st))))"

definition pending_pairs :: "proactive_store \<Rightarrow> (outbox_row \<times> event_row) list" where
  "pending_pairs st =
     [(x, e). x \<leftarrow> px_outbox st, e \<leftarrow> px_events st,
        pe_event_id e = ox_event_id x \<and> ox_state x = ''pending'' \<and> pe_state e \<notin> set CLOSED_STATES]"

definition list_pending_proactive_outbox :: "int \<Rightarrow> proactive_store \<Rightarrow> pydict list" where
  "list_pending_proactive_outbox n st =
     map (\<lambda>(x, e).
       [(''schema'', PStr ''brainstack.proactive_outbox.v1''),
        (''outbox_id'', PStr (ox_id x)),
        (''event_id'', PStr (ox_event_id x)),
        (''delivery_target'', PStr (ox_target x)),
        (''intended_next_action'', PStr (ox_action x)),
        (''delivery_state'', PStr (ox_state x)),
        (''attempt_count'', PInt (int (ox_attempts x))),
        (''last_error'', PStr (ox_error x)),
        (''title'', PStr (pe_title e)),
        (''summary'', PStr (pe_summary e)),
        (''kind'', PStr (pe_kind e)),
        (''priority'', PStr (pe_priority e)),
        (''principal_scope_key'', PStr (pe_principal e)),
        (''evidence_ids'', PList (map PStr (pe_evidence e))),
        (''created_at'', PStr (ox_created_at x)),
        (''updated_at'', PStr (ox_updated_at x))])
       (take (clamp_limit 50 200 n) (sort_key (\<lambda>(x, e). ox_created_at x) (pending_pairs st)))"

definition metadata_count :: "string \<Rightarrow> event_row \<Rightarrow> int result" where
  "metadata_count k r = py_int (py_or (dget (pe_metadata r) k) (PInt 0))"

text \<open>The loop converts the three counters of a row before the next row; any conversion may raise.\<close>

definition proactive_recent_cost :: "int \<Rightarrow> proactive_store \<Rightarrow> pydict result" where
  "proactive_recent_cost n st =
     (let rows = take (clamp_limit 100 500 n) (newest_first (px_events st)) in
      map_sum id (\<lambda>counts.
        [(''schema'', PStr ''brainstack.proactive_control.v1''),
         (''provider_calls'', PInt (sum_list (map (\<lambda>c. c ! 0) counts))),
         (''prompt_tokens'', PInt (sum_list (map (\<lambda>c. c ! 1) counts))),
         (''completion_tokens'', PInt (sum_list (map (\<lambda>c. c ! 2) counts))),
         (''sample_size'', PInt (int (length rows)))])
        (map_result (\<lambda>r. map_result (\<lambda>k. metadata_count k r) [''provider_calls'', ''prompt_tokens'', ''completion_tokens'']) rows))"

section \<open>Reachable stores\<close>

text \<open>Any operation of the module that returns, in any order and with any arguments.\<close>

inductive proactive_step :: "clock \<Rightarrow> proactive_store \<Rightarrow> proactive_store \<Rightarrow> bool" for clock where
  upsert: "upsert_proactive_event clock a st = Inr (d, st') \<Longrightarrow> proactive_step clock st st'"
| outbox: "create_proactive_outbox clock i target key action st = Inr (d, st') \<Longrightarrow> proactive_step clock st st'"
| control: "set_proactive_item_state clock i state reason actor trace_id metadata st = Inr (d, st') \<Longrightarrow> proactive_step clock st st'"
| deliver: "mark_proactive_outbox clock i state err actor st = Inr (d, st') \<Longrightarrow> proactive_step clock st st'"

inductive proactive_reachable :: "clock \<Rightarrow> proactive_store \<Rightarrow> bool" for clock where
  init: "proactive_reachable clock empty_store"
| step: "proactive_reachable clock st \<Longrightarrow> proactive_step clock st st' \<Longrightarrow> proactive_reachable clock st'"

section \<open>The log of an event\<close>

text \<open>
  The log of an event replayed: it starts with a transition from no state; from then on a transition from a state
  must start in the current one, and a transition from no state reports a delivery.
\<close>

fun run_log :: "string \<Rightarrow> transition_row list \<Rightarrow> string option" where
  "run_log s [] = Some s"
| "run_log s (t # ts) =
     (case tn_from t of None \<Rightarrow> run_log s ts | Some f \<Rightarrow> if f = s then run_log (tn_to t) ts else None)"

definition log_of :: "string \<Rightarrow> transition_row list \<Rightarrow> transition_row list" where
  "log_of i ts = filter (\<lambda>t. tn_event_id t = i) ts"

definition log_state :: "string \<Rightarrow> transition_row list \<Rightarrow> string option" where
  "log_state i ts =
     (case log_of i ts of [] \<Rightarrow> None | t # ts \<Rightarrow> if tn_from t = None then run_log (tn_to t) ts else None)"

lemma run_log_append: "run_log s (ts @ us) = (case run_log s ts of None \<Rightarrow> None | Some s' \<Rightarrow> run_log s' us)"
  by (induction ts arbitrary: s) (auto split: option.splits)

lemma log_state_other: "tn_event_id t \<noteq> i \<Longrightarrow> log_state i (ts @ [t]) = log_state i ts"
  by (simp add: log_state_def log_of_def)

lemma log_state_first: "log_of i ts = [] \<Longrightarrow> tn_event_id t = i \<Longrightarrow> tn_from t = None \<Longrightarrow> log_state i (ts @ [t]) = Some (tn_to t)"
  by (simp add: log_state_def log_of_def)

lemma log_state_next:
  assumes "log_state i ts = Some s" and "tn_event_id t = i" and "tn_from t \<in> {None, Some s}"
  shows "log_state i (ts @ [t]) = Some (if tn_from t = None then s else tn_to t)"
  using assms by (auto simp: log_state_def log_of_def run_log_append split: list.splits if_splits)

section \<open>The invariant\<close>

definition event_ids :: "proactive_store \<Rightarrow> string set" where
  "event_ids st = pe_event_id ` set (px_events st)"

definition events_ok :: "event_row list \<Rightarrow> bool" where
  "events_ok rows \<longleftrightarrow> distinct (map pe_event_id rows) \<and> (\<forall>r \<in> set rows. pe_event_id r = event_id_of (pe_key r))"

definition outbox_ok :: "string set \<Rightarrow> outbox_row list \<Rightarrow> bool" where
  "outbox_ok ids rows \<longleftrightarrow> distinct (map ox_id rows) \<and> distinct (map ox_key rows) \<and>
     (\<forall>x \<in> set rows. ox_id x = outbox_id_of (ox_key x) \<and> ox_event_id x \<in> ids)"

definition transitions_ok :: "string set \<Rightarrow> int \<Rightarrow> transition_row list \<Rightarrow> bool" where
  "transitions_ok ids n rows \<longleftrightarrow> sorted_wrt (<) (map tn_id rows) \<and> (\<forall>t \<in> set rows. tn_id t < n \<and> tn_event_id t \<in> ids)"

definition ledger_ok :: "ledger_row list \<Rightarrow> bool" where
  "ledger_ok rows \<longleftrightarrow> distinct (map lg_scope rows) \<and>
     (\<forall>l \<in> set rows. 0 \<le> lg_open_asks l \<and> distinct (lg_notified l) \<and> length (lg_notified l) \<le> 20 \<and>
        distinct (lg_rejected l) \<and> length (lg_rejected l) \<le> 20)"

definition tables_ok :: "proactive_store \<Rightarrow> bool" where
  "tables_ok st \<longleftrightarrow> events_ok (px_events st) \<and> outbox_ok (event_ids st) (px_outbox st) \<and>
     transitions_ok (event_ids st) (px_next_id st) (px_transitions st) \<and> ledger_ok (px_ledger st)"

definition log_ok :: "proactive_store \<Rightarrow> bool" where
  "log_ok st \<longleftrightarrow> (\<forall>r \<in> set (px_events st). log_state (pe_event_id r) (px_transitions st) = Some (pe_state r))"

definition store_ok :: "proactive_store \<Rightarrow> bool" where
  "store_ok st \<longleftrightarrow> tables_ok st \<and> log_ok st"

lemma append_transition_fields:
  "px_events (append_transition clock i f t r a tr m st) = px_events st"
  "px_outbox (append_transition clock i f t r a tr m st) = px_outbox st"
  "px_ledger (append_transition clock i f t r a tr m st) = px_ledger st"
  "px_next_id (append_transition clock i f t r a tr m st) = px_next_id st + 1"
  "px_transitions (append_transition clock i f t r a tr m st) = px_transitions st @
     [\<lparr>tn_id = px_next_id st, tn_event_id = i, tn_from = f, tn_to = t, tn_reason = r, tn_actor = a, tn_trace_id = tr,
       tn_metadata = m, tn_created_at = clock (px_ticks st)\<rparr>]"
  by (simp_all add: append_transition_def read_clock_def)

lemma transitions_ok_append:
  "transitions_ok ids n ts \<Longrightarrow> tn_id t = n \<Longrightarrow> tn_event_id t \<in> ids \<Longrightarrow> transitions_ok ids (n + 1) (ts @ [t])"
  by (fastforce simp: transitions_ok_def sorted_wrt_append)

lemma transitions_ok_mono: "transitions_ok ids n ts \<Longrightarrow> ids \<subseteq> ids' \<Longrightarrow> transitions_ok ids' n ts"
  by (auto simp: transitions_ok_def)

lemma outbox_ok_mono: "outbox_ok ids xs \<Longrightarrow> ids \<subseteq> ids' \<Longrightarrow> outbox_ok ids' xs"
  by (auto simp: outbox_ok_def)

lemma outbox_ok_map:
  assumes "outbox_ok ids xs" and "\<And>x. ox_id (f x) = ox_id x" "\<And>x. ox_key (f x) = ox_key x" "\<And>x. ox_event_id (f x) = ox_event_id x"
  shows "outbox_ok ids (map f xs)"
  using assms by (simp add: outbox_ok_def comp_def)

lemma tables_ok_append: "tables_ok st \<Longrightarrow> i \<in> event_ids st \<Longrightarrow> tables_ok (append_transition clock i f t r a tr m st)"
  by (simp add: tables_ok_def event_ids_def append_transition_fields transitions_ok_append)

lemma log_of_unknown: "transitions_ok ids n ts \<Longrightarrow> i \<notin> ids \<Longrightarrow> log_of i ts = []"
  by (auto simp: transitions_ok_def log_of_def filter_empty_conv)

lemma find_eventD: "find_event i st = Some r \<Longrightarrow> r \<in> set (px_events st) \<and> pe_event_id r = i"
  by (auto simp: find_event_def find_Some_iff)

lemma find_event_None_iff: "find_event i st = None \<longleftrightarrow> i \<notin> event_ids st"
  by (auto simp: find_event_def find_None_iff event_ids_def)

lemma same_event: "events_ok rows \<Longrightarrow> r \<in> set rows \<Longrightarrow> r' \<in> set rows \<Longrightarrow> pe_event_id r = pe_event_id r' \<Longrightarrow> r = r'"
  unfolding events_ok_def by (metis distinct_map inj_onD)

text \<open>A change of one row that keeps its key, together with the transition that records the new state.\<close>

lemma update_event_fields:
  "px_outbox (update_event i f st) = px_outbox st" "px_transitions (update_event i f st) = px_transitions st"
  "px_next_id (update_event i f st) = px_next_id st" "px_ledger (update_event i f st) = px_ledger st"
  "px_events (update_event i f st) = map (\<lambda>r. if pe_event_id r = i then f r else r) (px_events st)"
  by (simp_all add: update_event_def)

lemma update_event_id_list:
  "(\<And>r. pe_event_id (f r) = pe_event_id r) \<Longrightarrow> map pe_event_id (px_events (update_event i f st)) = map pe_event_id (px_events st)"
  by (simp add: update_event_fields comp_def if_distrib cong: if_cong)

lemma update_event_ids: "(\<And>r. pe_event_id (f r) = pe_event_id r) \<Longrightarrow> event_ids (update_event i f st) = event_ids st"
  unfolding event_ids_def by (metis list.set_map update_event_id_list)

lemma tables_ok_update:
  assumes "tables_ok st" and "\<And>r. pe_event_id (f r) = pe_event_id r" and "\<And>r. pe_key (f r) = pe_key r"
  shows "tables_ok (update_event i f st)"
proof -
  have "map pe_event_id (px_events (update_event i f st)) = map pe_event_id (px_events st)"
    by (rule update_event_id_list) (rule assms(2))
  moreover have "\<forall>r \<in> set (px_events (update_event i f st)). pe_event_id r = event_id_of (pe_key r)"
    using assms by (auto simp: update_event_fields tables_ok_def events_ok_def)
  ultimately show ?thesis
    using assms(1) by (simp add: tables_ok_def events_ok_def update_event_ids [OF assms(2)] update_event_fields(1-4))
qed

lemma store_ok_append:
  assumes "store_ok st" and "find_event i st = Some r" and "f = None \<or> f = Some (pe_state r) \<and> t = pe_state r"
  shows "store_ok (append_transition clock i f t rs a tr m st)"
proof -
  have i: "i \<in> event_ids st" using find_eventD [OF assms(2)] by (auto simp: event_ids_def)
  have "log_state (pe_event_id r') (px_transitions (append_transition clock i f t rs a tr m st)) = Some (pe_state r')"
    if r': "r' \<in> set (px_events st)" for r'
  proof (cases "pe_event_id r' = i")
    case True
    then have "r' = r"
      using same_event r' find_eventD [OF assms(2)] assms(1) by (auto simp: store_ok_def tables_ok_def)
    then show ?thesis
      using assms(1,3) r' True unfolding append_transition_fields
      by (subst log_state_next [where s = "pe_state r"]) (auto simp: store_ok_def log_ok_def)
  next
    case False
    then show ?thesis
      using assms(1) r' by (simp add: append_transition_fields log_state_other store_ok_def log_ok_def)
  qed
  then show ?thesis
    using assms(1) tables_ok_append [OF _ i] by (simp add: store_ok_def log_ok_def append_transition_fields)
qed

lemma store_ok_keep:
  assumes "store_ok st" and "\<And>r. pe_event_id (f r) = pe_event_id r" and "\<And>r. pe_key (f r) = pe_key r"
    and "find_event i st = Some r" and "pe_state (f r) = pe_state r"
  shows "store_ok (update_event i f st)"
proof -
  have "r' = r" if "r' \<in> set (px_events st)" "pe_event_id r' = i" for r'
    using that same_event find_eventD [OF assms(4)] assms(1) by (auto simp: store_ok_def tables_ok_def)
  then have "log_ok (update_event i f st)"
    using assms by (auto simp: log_ok_def store_ok_def update_event_fields)
  then show ?thesis using tables_ok_update [of st f i] assms(1-3) by (simp add: store_ok_def)
qed

lemma store_ok_change:
  assumes "store_ok st" and "\<And>r. pe_event_id (f r) = pe_event_id r" and "\<And>r. pe_key (f r) = pe_key r"
    and "find_event i st = Some r" and "pe_state (f r) = t"
  shows "store_ok (append_transition clock i (Some (pe_state r)) t rs a tr m (update_event i f st))"
proof -
  let ?st = "append_transition clock i (Some (pe_state r)) t rs a tr m (update_event i f st)"
  have i: "i \<in> event_ids (update_event i f st)"
    unfolding update_event_ids [OF assms(2)] using find_eventD [OF assms(4)] by (auto simp: event_ids_def)
  have "log_state (pe_event_id r') (px_transitions ?st) = Some (pe_state r')" if "r' \<in> set (px_events ?st)" for r'
  proof -
    have "r' \<in> (\<lambda>r. if pe_event_id r = i then f r else r) ` set (px_events st)"
      using that by (simp only: append_transition_fields update_event_fields set_map)
    then obtain q where q: "q \<in> set (px_events st)" "r' = (if pe_event_id q = i then f q else q)" by (elim imageE)
    have log: "log_state (pe_event_id q) (px_transitions st) = Some (pe_state q)"
      using assms(1) q(1) by (simp add: store_ok_def log_ok_def)
    show ?thesis
    proof (cases "pe_event_id q = i")
      case True
      then have "q = r" using same_event q(1) find_eventD [OF assms(4)] assms(1) by (auto simp: store_ok_def tables_ok_def)
      then show ?thesis
        using log True q(2) assms(2,5) unfolding append_transition_fields update_event_fields
        by (subst log_state_next [where s = "pe_state r"]) auto
    next
      case False
      then show ?thesis using log q(2) by (simp add: append_transition_fields update_event_fields log_state_other)
    qed
  qed
  moreover have "tables_ok ?st"
    using tables_ok_append [OF tables_ok_update i] assms(1-3) by (simp add: store_ok_def)
  ultimately show ?thesis by (simp add: store_ok_def log_ok_def)
qed

lemma store_ok_new:
  assumes "store_ok st" and "find_event (pe_event_id r) st = None" and "pe_event_id r = event_id_of (pe_key r)" and "t = pe_state r"
  shows "store_ok (append_transition clock (pe_event_id r) None t rs a tr m (st\<lparr>px_events := px_events st @ [r]\<rparr>))"
proof -
  let ?st = "append_transition clock (pe_event_id r) None t rs a tr m (st\<lparr>px_events := px_events st @ [r]\<rparr>)"
  have new: "pe_event_id r \<notin> event_ids st" using assms(2) by (simp add: find_event_None_iff)
  have ids: "event_ids ?st = insert (pe_event_id r) (event_ids st)" by (auto simp: event_ids_def append_transition_fields)
  have ok: "events_ok (px_events st)" "outbox_ok (event_ids st) (px_outbox st)"
    "transitions_ok (event_ids st) (px_next_id st) (px_transitions st)" "ledger_ok (px_ledger st)" "log_ok st"
    using assms(1) by (simp_all add: store_ok_def tables_ok_def)
  have "transitions_ok (event_ids ?st) (px_next_id ?st) (px_transitions ?st)"
    unfolding append_transition_fields ids by (simp, rule transitions_ok_append) (auto intro: transitions_ok_mono [OF ok(3)])
  moreover have "events_ok (px_events ?st)"
    using ok(1) new assms(3) by (auto simp: append_transition_fields events_ok_def event_ids_def)
  moreover have "outbox_ok (event_ids ?st) (px_outbox ?st)"
    unfolding ids append_transition_fields by (simp, rule outbox_ok_mono [OF ok(2)]) auto
  moreover have "log_state (pe_event_id q) (px_transitions ?st) = Some (pe_state q)" if "q \<in> set (px_events ?st)" for q
  proof (cases "q = r")
    case True
    then show ?thesis using log_of_unknown [OF ok(3) new] assms(4) by (simp add: append_transition_fields log_state_first)
  next
    case False
    then have "q \<in> set (px_events st)" using that by (simp add: append_transition_fields)
    moreover from this have "pe_event_id r \<noteq> pe_event_id q" using new by (auto simp: event_ids_def)
    ultimately show ?thesis using ok(5) by (simp add: append_transition_fields log_state_other log_ok_def)
  qed
  then have "log_ok ?st" by (simp add: log_ok_def)
  ultimately show ?thesis
    using ok(4) \<open>log_ok ?st\<close> by (simp add: store_ok_def tables_ok_def append_transition_fields(3))
qed

lemma store_ok_outbox: "store_ok st \<Longrightarrow> outbox_ok (event_ids st) xs \<Longrightarrow> store_ok (st\<lparr>px_outbox := xs\<rparr>)"
  by (simp add: store_ok_def tables_ok_def log_ok_def event_ids_def)

lemma store_ok_ledger: "store_ok st \<Longrightarrow> ledger_ok ls \<Longrightarrow> store_ok (st\<lparr>px_ledger := ls\<rparr>)"
  by (simp add: store_ok_def tables_ok_def log_ok_def event_ids_def)

lemma store_ok_tick: "store_ok (st\<lparr>px_ticks := n\<rparr>) = store_ok st"
  by (simp add: store_ok_def tables_ok_def log_ok_def event_ids_def)

section \<open>Each operation keeps the invariant\<close>

lemma refresh_keeps:
  "pe_event_id (refresh_event a now r) = pe_event_id r" "pe_key (refresh_event a now r) = pe_key r"
  "pe_state (refresh_event a now r) = text_or (ea_state a) (pe_state r)"
  by (simp_all add: refresh_event_def)

lemma event_payload_Inr: "event_payload i created changed st = Inr (d, st') \<Longrightarrow> st' = st"
  by (auto simp: event_payload_def split: option.splits)

lemma find_keyD:
  assumes "events_ok (px_events st)" and "List.find (\<lambda>r. pe_key r = key) (px_events st) = Some r"
  shows "find_event (pe_event_id r) st = Some r" "pe_key r = key" "r \<in> set (px_events st)"
proof -
  show r: "r \<in> set (px_events st)" and "pe_key r = key" using assms(2) by (auto simp: find_Some_iff)
  then obtain q where q: "find_event (pe_event_id r) st = Some q"
    using find_event_None_iff [of "pe_event_id r" st] by (cases "find_event (pe_event_id r) st") (auto simp: event_ids_def)
  then have "q = r" using find_eventD [OF q] same_event [OF assms(1)] r by auto
  with q show "find_event (pe_event_id r) st = Some r" by simp
qed

lemma upsert_cases:
  assumes "upsert_proactive_event clock a st = Inr (d, st')" and "events_ok (px_events st)"
  obtains (insert) "find_event (event_id_of (effective_event_key a)) st = None"
      "st' = append_transition clock (event_id_of (effective_event_key a)) None (text_or (ea_state a) ''observed'')
         (text_or (ea_reason a) ''OBSERVED'') ''producer'' (ea_trace_id a) [(''created'', PBool True)]
         (st\<lparr>px_ticks := px_ticks st + 1, px_events := px_events st @ [new_event a (clock (px_ticks st))]\<rparr>)"
    | (same) r where "find_event (pe_event_id r) st = Some r" "pe_key r = effective_event_key a"
      "text_or (ea_state a) (pe_state r) = pe_state r"
      "st' = update_event (pe_event_id r) (refresh_event a (clock (px_ticks st))) (st\<lparr>px_ticks := px_ticks st + 1\<rparr>)"
    | (changed) r where "find_event (pe_event_id r) st = Some r" "pe_key r = effective_event_key a"
      "text_or (ea_state a) (pe_state r) \<noteq> pe_state r"
      "st' = append_transition clock (pe_event_id r) (Some (pe_state r)) (text_or (ea_state a) (pe_state r))
         (text_or (ea_reason a) ''MATERIAL_CHANGE'') ''producer'' (ea_trace_id a) [(''material_change'', PBool (material_change a r))]
         (update_event (pe_event_id r) (refresh_event a (clock (px_ticks st))) (st\<lparr>px_ticks := px_ticks st + 1\<rparr>))"
proof (cases "List.find (\<lambda>r. pe_key r = effective_event_key a) (px_events st)")
  case None
  then have "find_event (event_id_of (effective_event_key a)) st = None"
    using assms(1) by (auto simp: upsert_proactive_event_def read_clock_def Let_def find_event_def split: if_splits)
  moreover from this None assms(1) show ?thesis
    by (intro insert) (auto simp: upsert_proactive_event_def read_clock_def Let_def find_event_def dest!: event_payload_Inr)
next
  case (Some r)
  note r = find_keyD [OF assms(2) Some]
  show ?thesis
  proof (cases "text_or (ea_state a) (pe_state r) = pe_state r")
    case True
    with Some assms(1) show ?thesis
      by (intro same [OF r(1,2)]) (auto simp: upsert_proactive_event_def read_clock_def Let_def dest!: event_payload_Inr)
  next
    case False
    with Some assms(1) show ?thesis
      by (intro changed [OF r(1,2)]) (auto simp: upsert_proactive_event_def read_clock_def Let_def dest!: event_payload_Inr)
  qed
qed

lemma find_event_tick: "find_event i (st\<lparr>px_ticks := n\<rparr>) = find_event i st"
  by (simp add: find_event_def)

lemma upsert_event_ok:
  assumes "upsert_proactive_event clock a st = Inr (d, st')" and "store_ok st"
  shows "store_ok st'"
proof -
  let ?st = "st\<lparr>px_ticks := px_ticks st + 1\<rparr>"
  have ok: "store_ok ?st" "events_ok (px_events st)" using assms(2) by (simp_all add: store_ok_tick) (simp add: store_ok_def tables_ok_def)
  show ?thesis using assms(1) ok(2)
  proof (cases rule: upsert_cases)
    case insert
    have n: "pe_event_id (new_event a now) = event_id_of (effective_event_key a)" "pe_key (new_event a now) = effective_event_key a"
      "pe_state (new_event a now) = text_or (ea_state a) ''observed''" for now
      by (simp_all add: new_event_def)
    have "store_ok (append_transition clock (pe_event_id (new_event a (clock (px_ticks st)))) None (text_or (ea_state a) ''observed'')
         (text_or (ea_reason a) ''OBSERVED'') ''producer'' (ea_trace_id a) [(''created'', PBool True)]
         (?st\<lparr>px_events := px_events ?st @ [new_event a (clock (px_ticks st))]\<rparr>))"
      by (rule store_ok_new) (use ok insert(1) in \<open>simp_all add: n find_event_tick\<close>)
    then show ?thesis unfolding insert(2) n by simp
  next
    case (same r)
    show ?thesis unfolding same(4)
      by (rule store_ok_keep [where r = r]) (use ok same in \<open>simp_all add: refresh_keeps find_event_tick\<close>)
  next
    case (changed r)
    show ?thesis unfolding changed(4)
      by (rule store_ok_change [where r = r]) (use ok changed in \<open>simp_all add: refresh_keeps find_event_tick\<close>)
  qed
qed

lemma last_n_props: "distinct xs \<Longrightarrow> distinct (last_n n xs)" "length (last_n n xs) \<le> n"
  by (simp_all add: last_n_def distinct_drop)

lemma add_once_distinct: "distinct xs \<Longrightarrow> distinct (add_once k xs)"
  by (simp add: add_once_def)

lemma ledger_ok_map:
  assumes "ledger_ok ls" and "\<And>l. lg_scope (f l) = lg_scope l"
    and "\<And>l. l \<in> set ls \<Longrightarrow> 0 \<le> lg_open_asks (f l) \<and> distinct (lg_notified (f l)) \<and> length (lg_notified (f l)) \<le> 20 \<and>
      distinct (lg_rejected (f l)) \<and> length (lg_rejected (f l)) \<le> 20"
  shows "ledger_ok (map f ls)"
  using assms by (simp add: ledger_ok_def comp_def)

lemma ledger_update_ok: "store_ok st \<Longrightarrow> store_ok (update_attention_ledger_for_outbox clock event key st)"
proof -
  assume ok: "store_ok st"
  then have l: "ledger_ok (px_ledger st)" by (simp add: store_ok_def tables_ok_def)
  show ?thesis
  proof (cases "List.find (\<lambda>l. lg_scope l = scope_of event) (px_ledger st)")
    case None
    then have "ledger_ok (px_ledger st @ [\<lparr>lg_scope = scope_of event, lg_open_asks = 1, lg_notified = last_n 20 (add_once key []),
        lg_rejected = [], lg_cooldown_until = None, lg_updated_at = now\<rparr>])" for now
      using l by (auto simp: ledger_ok_def find_None_iff last_n_def add_once_def)
    then show ?thesis
      using ok None by (simp add: update_attention_ledger_for_outbox_def read_clock_def store_ok_ledger store_ok_tick)
  next
    case (Some old)
    then have old: "old \<in> set (px_ledger st)" by (auto simp: find_Some_iff)
    have "ledger_ok (map (\<lambda>l. if lg_scope l = scope_of event
        then l\<lparr>lg_open_asks := lg_open_asks old + 1, lg_notified := last_n 20 (add_once key (lg_notified old)), lg_updated_at := now\<rparr>
        else l) (px_ledger st))" for now
      by (rule ledger_ok_map [OF l]) (use l old in \<open>auto simp: ledger_ok_def last_n_props add_once_distinct\<close>)
    then show ?thesis
      using ok Some by (simp add: update_attention_ledger_for_outbox_def read_clock_def store_ok_ledger store_ok_tick)
  qed
qed

lemma close_ask_ok: "store_ok st \<Longrightarrow> store_ok (close_attention_ask clock event rejected st)"
proof -
  assume ok: "store_ok st"
  then have l: "ledger_ok (px_ledger st)" by (simp add: store_ok_def tables_ok_def)
  show ?thesis
  proof (cases "List.find (\<lambda>l. lg_scope l = scope_of event) (px_ledger st)")
    case None
    then show ?thesis using ok by (simp add: close_attention_ask_def)
  next
    case (Some old)
    then have old: "old \<in> set (px_ledger st)" by (auto simp: find_Some_iff)
    have "ledger_ok (map (\<lambda>l. if lg_scope l = scope_of event
        then l\<lparr>lg_open_asks := max 0 (lg_open_asks old - 1), lg_rejected := last_n 20 ks, lg_updated_at := now\<rparr>
        else l) (px_ledger st))" if "distinct ks" for now ks
      by (rule ledger_ok_map [OF l]) (use l old that in \<open>auto simp: ledger_ok_def last_n_props\<close>)
    moreover have "distinct (if rejected then add_once (pe_key event) (lg_rejected old) else lg_rejected old)"
      using l old by (auto simp: ledger_ok_def add_once_distinct)
    ultimately show ?thesis
      using ok Some by (simp add: close_attention_ask_def read_clock_def Let_def store_ok_ledger store_ok_tick)
  qed
qed

lemma find_event_outbox: "find_event i (st\<lparr>px_outbox := xs\<rparr>) = find_event i st"
  by (simp add: find_event_def)

lemma find_event_append: "find_event i (append_transition clock j f t rs a tr m st) = find_event i st"
  by (simp add: find_event_def append_transition_fields)

lemma update_ledger_outbox: "px_outbox (update_attention_ledger_for_outbox clock event key st) = px_outbox st"
  by (simp add: update_attention_ledger_for_outbox_def read_clock_def Let_def split: option.split)

lemma create_outbox_shape:
  assumes "find_event i st = Some event" and "create_proactive_outbox clock i target key action st = Inr (d, st')"
  obtains k xs where "k = text_or key (i @ '':'' @ target)"
    "xs = (if list_ex (\<lambda>x. ox_key x = k) (px_outbox st)
       then map (\<lambda>x. if ox_key x = k then x\<lparr>ox_updated_at := clock (px_ticks st)\<rparr> else x) (px_outbox st)
       else px_outbox st @ [\<lparr>ox_id = outbox_id_of k, ox_event_id = i, ox_key = k, ox_target = target,
         ox_action = text_or action (text_or (pe_action event) ''none''), ox_state = ''pending'', ox_attempts = 0, ox_error = [],
         ox_created_at = clock (px_ticks st), ox_updated_at = clock (px_ticks st)\<rparr>])"
    "list_ex (\<lambda>x. ox_key x = k) (px_outbox st) \<or> \<not> list_ex (\<lambda>x. ox_id x = outbox_id_of k) (px_outbox st)"
    "st' = update_attention_ledger_for_outbox clock event k
      (append_transition clock i (Some (pe_state event)) (pe_state event) ''OUTBOX_PENDING'' ''surfacing_policy'' []
         [(''outbox_id'', PStr (outbox_id_of k)), (''delivery_target'', PStr target)]
         (st\<lparr>px_ticks := px_ticks st + 1, px_outbox := xs\<rparr>))"
  using assms(2) unfolding create_proactive_outbox_def assms(1) option.case read_clock_def Let_def case_prod_conv
  by (intro that [OF refl refl]) (simp_all split: if_splits)

lemma create_outbox_ok:
  assumes "create_proactive_outbox clock i target key action st = Inr (d, st')" and "store_ok st"
  shows "store_ok st'"
proof -
  obtain event where event: "find_event i st = Some event"
    using assms(1) by (auto simp: create_proactive_outbox_def split: option.splits)
  obtain k xs where "k = text_or key (i @ '':'' @ target)" and xs_def: "xs = (if list_ex (\<lambda>x. ox_key x = k) (px_outbox st)
       then map (\<lambda>x. if ox_key x = k then x\<lparr>ox_updated_at := clock (px_ticks st)\<rparr> else x) (px_outbox st)
       else px_outbox st @ [\<lparr>ox_id = outbox_id_of k, ox_event_id = i, ox_key = k, ox_target = target,
         ox_action = text_or action (text_or (pe_action event) ''none''), ox_state = ''pending'', ox_attempts = 0, ox_error = [],
         ox_created_at = clock (px_ticks st), ox_updated_at = clock (px_ticks st)\<rparr>])"
    and free: "list_ex (\<lambda>x. ox_key x = k) (px_outbox st) \<or> \<not> list_ex (\<lambda>x. ox_id x = outbox_id_of k) (px_outbox st)"
    and st': "st' = update_attention_ledger_for_outbox clock event k
      (append_transition clock i (Some (pe_state event)) (pe_state event) ''OUTBOX_PENDING'' ''surfacing_policy'' []
         [(''outbox_id'', PStr (outbox_id_of k)), (''delivery_target'', PStr target)]
         (st\<lparr>px_ticks := px_ticks st + 1, px_outbox := xs\<rparr>))"
    by (rule create_outbox_shape [OF event assms(1)])
  let ?st = "st\<lparr>px_ticks := px_ticks st + 1, px_outbox := xs\<rparr>"
  have o: "outbox_ok (event_ids st) (px_outbox st)" using assms(2) by (simp add: store_ok_def tables_ok_def)
  have i: "i \<in> event_ids st" using find_eventD [OF event] by (auto simp: event_ids_def)
  have "outbox_ok (event_ids st) xs"
  proof (cases "list_ex (\<lambda>x. ox_key x = k) (px_outbox st)")
    case True
    then show ?thesis unfolding xs_def by (simp, intro outbox_ok_map [OF o]) auto
  next
    case False
    then show ?thesis using free o i unfolding xs_def by (auto simp: outbox_ok_def list_ex_iff)
  qed
  then have "store_ok ?st"
    using assms(2) store_ok_outbox [of "st\<lparr>px_ticks := px_ticks st + 1\<rparr>" xs] by (simp add: store_ok_tick event_ids_def)
  then show ?thesis
    unfolding st' by (intro ledger_update_ok store_ok_append [where r = event]) (use event in \<open>simp_all add: find_event_def\<close>)
qed

lemma set_state_shape:
  assumes "set_proactive_item_state clock i state reason actor trace_id metadata st = Inr (d, st')"
  obtains event st1 st2 where "find_event i st = Some event"
    "st1 = append_transition clock i (Some (pe_state event)) state reason actor trace_id metadata
       (update_event i (\<lambda>r. r\<lparr>pe_state := state, pe_reason := reason, pe_metadata := dupdate (pe_metadata event) metadata,
          pe_updated_at := clock (px_ticks st)\<rparr>) (st\<lparr>px_ticks := px_ticks st + 1\<rparr>))"
    "st2 = (if state \<in> set CLOSED_STATES
       then append_transition clock i None (if state = ''suppressed'' then ''suppressed'' else ''cancelled'') reason actor trace_id
         (dupdate [(''closed_pending_outbox'', PBool True)] metadata)
         (st1\<lparr>px_outbox := map (close_outbox i (if state = ''suppressed'' then ''suppressed'' else ''cancelled'') reason
            (clock (px_ticks st))) (px_outbox st1)\<rparr>)
       else st1)"
    "st' = (if state \<in> {''accepted'', ''rejected''} then close_attention_ask clock event (state = ''rejected'') st2 else st2)"
proof -
  obtain event where event: "find_event i st = Some event"
    using assms by (auto simp: set_proactive_item_state_def split: option.splits)
  have inr: "map_sum id (\<lambda>d. (d, s)) x = Inr (d, st') \<Longrightarrow> st' = s" for s and x :: "pydict result"
    by (cases x) simp_all
  show ?thesis
    using assms unfolding set_proactive_item_state_def event option.case read_clock_def Let_def case_prod_conv
    by (intro that [OF event refl refl]) (erule inr)
qed

lemma event_ids_append: "event_ids (append_transition clock i f t rs a tr m st) = event_ids st"
  by (simp add: event_ids_def append_transition_fields)

lemma set_state_ok:
  assumes "set_proactive_item_state clock i state reason actor trace_id metadata st = Inr (d, st')" and "store_ok st"
  shows "store_ok st'"
  using assms(1)
proof (cases rule: set_state_shape)
  case (1 event st1 st2)
  have ok1: "store_ok st1"
    unfolding 1(2) by (rule store_ok_change [where r = event]) (use assms(2) 1(1) in \<open>simp_all add: store_ok_tick find_event_tick\<close>)
  then have "outbox_ok (event_ids st1) (px_outbox st1)" by (simp add: store_ok_def tables_ok_def)
  then have "outbox_ok (event_ids st1) (map (close_outbox i c reason now) (px_outbox st1))" for c now
    by (rule outbox_ok_map) (simp_all add: close_outbox_def)
  then have closed: "store_ok (st1\<lparr>px_outbox := map (close_outbox i c reason now) (px_outbox st1)\<rparr>)" for c now
    by (rule store_ok_outbox [OF ok1])
  have "event_ids st1 = event_ids st"
    unfolding 1(2) by (simp add: event_ids_append update_event_ids) (simp add: event_ids_def)
  then have "i \<in> event_ids st1" using find_eventD [OF 1(1)] by (auto simp: event_ids_def)
  then obtain r where r: "find_event i st1 = Some r" using find_event_None_iff [of i st1] by (cases "find_event i st1") auto
  have "store_ok st2"
    unfolding 1(3) using ok1 r by (simp add: store_ok_append [where r = r] closed find_event_outbox)
  then show ?thesis unfolding 1(4) by (simp add: close_ask_ok)
qed

lemma mark_ok:
  assumes "mark_proactive_outbox clock i state err actor st = Inr (d, st')" and "store_ok st"
  shows "store_ok st'"
proof -
  obtain row where row: "List.find (\<lambda>x. ox_id x = i) (px_outbox st) = Some row"
    using assms(1) by (auto simp: mark_proactive_outbox_def split: option.splits)
  define xs where "xs = map (\<lambda>x. if ox_id x = i then x\<lparr>ox_state := state, ox_error := err, ox_attempts := ox_attempts x + 1,
      ox_updated_at := clock (px_ticks st)\<rparr> else x) (px_outbox st)"
  let ?st = "st\<lparr>px_ticks := px_ticks st + 1, px_outbox := xs\<rparr>"
  have st': "st' = append_transition clock (ox_event_id row) None state (if state = ''delivered'' then ''NOTIFIED'' else ''BLOCKED'') actor []
      [(''outbox_id'', PStr i), (''delivery_state'', PStr state), (''last_error'', PStr err)] ?st"
    using assms(1) row by (simp add: mark_proactive_outbox_def read_clock_def Let_def xs_def)
  have o: "outbox_ok (event_ids st) (px_outbox st)" using assms(2) by (simp add: store_ok_def tables_ok_def)
  then have "outbox_ok (event_ids st) xs" unfolding xs_def by (rule outbox_ok_map) simp_all
  then have ok: "store_ok ?st"
    using assms(2) store_ok_outbox [of "st\<lparr>px_ticks := px_ticks st + 1\<rparr>" xs] by (simp add: store_ok_tick event_ids_def)
  have "ox_event_id row \<in> event_ids st" using o row by (auto simp: outbox_ok_def find_Some_iff)
  then obtain r where "find_event (ox_event_id row) st = Some r"
    using find_event_None_iff [of "ox_event_id row" st] by (cases "find_event (ox_event_id row) st") auto
  then show ?thesis unfolding st' by (intro store_ok_append [OF ok, where r = r]) (simp_all add: find_event_def)
qed

lemma proactive_step_ok: "proactive_step clock st st' \<Longrightarrow> store_ok st \<Longrightarrow> store_ok st'"
  by (induction rule: proactive_step.induct) (blast intro: upsert_event_ok create_outbox_ok set_state_ok mark_ok)+

lemma reachable_ok: "proactive_reachable clock st \<Longrightarrow> store_ok st"
proof (induction rule: proactive_reachable.induct)
  case init
  show ?case
    by (simp add: empty_store_def store_ok_def tables_ok_def log_ok_def events_ok_def outbox_ok_def transitions_ok_def ledger_ok_def)
qed (rule proactive_step_ok)

section \<open>Properties\<close>

text \<open>
  C11: in every store the operations can reach, identifiers are unique and derived from their keys, outbox rows and
  transitions belong to existing events, transitions are numbered in order, the ledger has one row per
  scope with no negative count and bounded lists, and replaying the log of an event gives its state.
\<close>

theorem proactive_store_consistent:
  assumes "proactive_reachable clock st"
  shows "tables_ok st \<and> (\<forall>r \<in> set (px_events st). log_state (pe_event_id r) (px_transitions st) = Some (pe_state r))"
  using reachable_ok [OF assms] by (simp add: store_ok_def log_ok_def)

lemma pending_pairs_iff:
  "(x, e) \<in> set (pending_pairs st) \<longleftrightarrow>
     x \<in> set (px_outbox st) \<and> e \<in> set (px_events st) \<and> pe_event_id e = ox_event_id x \<and> ox_state x = ''pending'' \<and> pe_state e \<notin> set CLOSED_STATES"
  by (auto simp: pending_pairs_def)

lemma close_ask_fields:
  "px_events (close_attention_ask clock event rejected st) = px_events st"
  "px_outbox (close_attention_ask clock event rejected st) = px_outbox st"
  "px_transitions (close_attention_ask clock event rejected st) = px_transitions st"
  by (simp_all add: close_attention_ask_def read_clock_def Let_def split: option.split)

lemma close_outbox_not_pending:
  "c \<noteq> ''pending'' \<Longrightarrow> ox_event_id (close_outbox i c reason now x) = i \<Longrightarrow> ox_state (close_outbox i c reason now x) \<noteq> ''pending''"
  by (simp add: close_outbox_def split: if_splits)

text \<open>
  Closing an item stops its deliveries and nothing else: none of its outbox rows stays pending or is listed as
  such, the item has the new state, every other item and every outbox row of another item is as before, and
  the log only grows.
\<close>

theorem closing_item_stops_its_deliveries:
  assumes "set_proactive_item_state clock i state reason actor trace_id metadata st = Inr (d, st')" and "state \<in> set CLOSED_STATES"
  shows "(\<forall>x \<in> set (px_outbox st'). ox_event_id x = i \<longrightarrow> ox_state x \<noteq> ''pending'') \<and>
    (\<forall>(x, e) \<in> set (pending_pairs st'). ox_event_id x \<noteq> i) \<and>
    (\<exists>r \<in> set (px_events st'). pe_event_id r = i \<and> pe_state r = state) \<and>
    filter (\<lambda>r. pe_event_id r \<noteq> i) (px_events st') = filter (\<lambda>r. pe_event_id r \<noteq> i) (px_events st) \<and>
    filter (\<lambda>x. ox_event_id x \<noteq> i) (px_outbox st') = filter (\<lambda>x. ox_event_id x \<noteq> i) (px_outbox st) \<and>
    (\<exists>ts. px_transitions st' = px_transitions st @ ts)"
  using assms(1)
proof (cases rule: set_state_shape)
  case (1 event st1 st2)
  let ?c = "if state = ''suppressed'' then ''suppressed'' else ''cancelled''"
  let ?f = "\<lambda>r. if pe_event_id r = i then r\<lparr>pe_state := state, pe_reason := reason, pe_metadata := dupdate (pe_metadata event) metadata,
          pe_updated_at := clock (px_ticks st)\<rparr> else r"
  have e: "px_events st' = map ?f (px_events st)"
    unfolding 1(2-4) by (simp add: close_ask_fields append_transition_fields update_event_fields)
  have o: "px_outbox st' = map (close_outbox i ?c reason (clock (px_ticks st))) (px_outbox st)"
    using assms(2) unfolding 1(2-4) by (simp add: close_ask_fields append_transition_fields update_event_fields)
  have t: "\<exists>ts. px_transitions st' = px_transitions st @ ts"
    unfolding 1(2-4) by (simp add: close_ask_fields append_transition_fields update_event_fields)
  have "?c \<noteq> ''pending''" by simp
  then have p: "\<forall>x \<in> set (px_outbox st'). ox_event_id x = i \<longrightarrow> ox_state x \<noteq> ''pending''"
    unfolding o set_map ball_simps(9) using close_outbox_not_pending by blast
  have "filter (\<lambda>r. pe_event_id r \<noteq> i) (map ?f rs) = filter (\<lambda>r. pe_event_id r \<noteq> i) rs" for rs by (induction rs) auto
  moreover have "filter (\<lambda>x. ox_event_id x \<noteq> i) (map (close_outbox i ?c reason now) xs) = filter (\<lambda>x. ox_event_id x \<noteq> i) xs" for xs now
    by (induction xs) (auto simp: close_outbox_def)
  moreover have "event \<in> set (px_events st)" "pe_event_id event = i" using find_eventD [OF 1(1)] by auto
  then have "\<exists>r \<in> set (px_events st'). pe_event_id r = i \<and> pe_state r = state"
    unfolding e by (intro bexI [of _ "?f event"]) (simp_all only: set_map imageI if_True, simp_all)
  ultimately show ?thesis
    using p t unfolding e o by (simp add: case_prod_unfold) (use p in \<open>auto simp: pending_pairs_iff o\<close>)
qed

text \<open>The open asks the ledger counts for a scope.\<close>

definition open_asks :: "scope \<Rightarrow> proactive_store \<Rightarrow> int" where
  "open_asks sc st = (case List.find (\<lambda>l. lg_scope l = sc) (px_ledger st) of None \<Rightarrow> 0 | Some l \<Rightarrow> lg_open_asks l)"

lemma find_scope_map:
  assumes "\<And>l. lg_scope (g l) = lg_scope l"
  shows "List.find (\<lambda>l. lg_scope l = sc) (map (\<lambda>l. if lg_scope l = s0 then g l else l) ls) =
    map_option (if sc = s0 then g else id) (List.find (\<lambda>l. lg_scope l = sc) ls)"
  by (induction ls) (auto simp: assms)

lemma open_asks_outbox:
  "open_asks sc (update_attention_ledger_for_outbox clock event key st) = open_asks sc st + (if sc = scope_of event then 1 else 0)"
proof (cases "List.find (\<lambda>l. lg_scope l = scope_of event) (px_ledger st)")
  case None
  then show ?thesis
    by (cases "sc = scope_of event")
      (simp_all add: open_asks_def update_attention_ledger_for_outbox_def read_clock_def find_append option.case_eq_if)
next
  case (Some old)
  let ?g = "\<lambda>l. l\<lparr>lg_open_asks := lg_open_asks old + 1, lg_notified := last_n 20 (add_once key (lg_notified old)),
                      lg_updated_at := clock (px_ticks st)\<rparr>"
  have g: "px_ledger (update_attention_ledger_for_outbox clock event key st) =
      map (\<lambda>l. if lg_scope l = scope_of event then ?g l else l) (px_ledger st)"
    using Some by (simp add: update_attention_ledger_for_outbox_def read_clock_def)
  have "lg_scope (?g l) = lg_scope l" for l by simp
  note f = find_scope_map [of ?g, OF this]
  show ?thesis
  proof (cases "sc = scope_of event")
    case True
    show ?thesis unfolding open_asks_def g f True Some by simp
  next
    case False
    then show ?thesis unfolding open_asks_def g f by (simp add: option.map_id)
  qed
qed

lemma open_asks_close_max:
  "open_asks sc (close_attention_ask clock event rejected st) =
     (if sc = scope_of event then max 0 (open_asks sc st - 1) else open_asks sc st)"
proof (cases "List.find (\<lambda>l. lg_scope l = scope_of event) (px_ledger st)")
  case None
  then show ?thesis by (simp add: open_asks_def close_attention_ask_def)
next
  case (Some old)
  let ?ks = "if rejected then add_once (pe_key event) (lg_rejected old) else lg_rejected old"
  let ?g = "\<lambda>l. l\<lparr>lg_open_asks := max 0 (lg_open_asks old - 1), lg_rejected := last_n 20 ?ks, lg_updated_at := clock (px_ticks st)\<rparr>"
  have g: "px_ledger (close_attention_ask clock event rejected st) =
      map (\<lambda>l. if lg_scope l = scope_of event then ?g l else l) (px_ledger st)"
    by (simp add: close_attention_ask_def Some read_clock_def Let_def)
  have "lg_scope (?g l) = lg_scope l" for l by simp
  note f = find_scope_map [of ?g, OF this]
  show ?thesis
  proof (cases "sc = scope_of event")
    case True
    show ?thesis unfolding open_asks_def g f True Some by simp
  next
    case False
    then show ?thesis unfolding open_asks_def g f by (simp add: option.map_id)
  qed
qed

lemma open_asks_frame: "px_ledger st' = px_ledger st \<Longrightarrow> open_asks sc st' = open_asks sc st"
  by (simp add: open_asks_def)

lemma create_outbox_asks:
  assumes "find_event i st = Some event" and "create_proactive_outbox clock i target key action st = Inr (d, st')"
  shows "open_asks sc st' = open_asks sc st + (if sc = scope_of event then 1 else 0)"
proof (rule create_outbox_shape [OF assms])
  fix k xs
  let ?s = "append_transition clock i (Some (pe_state event)) (pe_state event) ''OUTBOX_PENDING'' ''surfacing_policy'' []
         [(''outbox_id'', PStr (outbox_id_of k)), (''delivery_target'', PStr target)]
         (st\<lparr>px_ticks := px_ticks st + 1, px_outbox := xs\<rparr>)"
  assume "st' = update_attention_ledger_for_outbox clock event k ?s"
  moreover have "open_asks sc ?s = open_asks sc st" by (rule open_asks_frame) (simp add: append_transition_fields)
  ultimately show ?thesis by (simp only: open_asks_outbox)
qed

lemma create_outbox_length:
  assumes "find_event i st = Some event" and "create_proactive_outbox clock i target key action st = Inr (d, st')"
  shows "length (px_outbox st') = length (px_outbox st) +
         (if list_ex (\<lambda>x. ox_key x = text_or key (i @ '':'' @ target)) (px_outbox st) then 0 else 1)"
proof (rule create_outbox_shape [OF assms])
  fix k xs
  assume k: "k = text_or key (i @ '':'' @ target)"
    and xs: "xs = (if list_ex (\<lambda>x. ox_key x = k) (px_outbox st)
       then map (\<lambda>x. if ox_key x = k then x\<lparr>ox_updated_at := clock (px_ticks st)\<rparr> else x) (px_outbox st)
       else px_outbox st @ [\<lparr>ox_id = outbox_id_of k, ox_event_id = i, ox_key = k, ox_target = target,
         ox_action = text_or action (text_or (pe_action event) ''none''), ox_state = ''pending'', ox_attempts = 0, ox_error = [],
         ox_created_at = clock (px_ticks st), ox_updated_at = clock (px_ticks st)\<rparr>])"
    and st': "st' = update_attention_ledger_for_outbox clock event k
      (append_transition clock i (Some (pe_state event)) (pe_state event) ''OUTBOX_PENDING'' ''surfacing_policy'' []
         [(''outbox_id'', PStr (outbox_id_of k)), (''delivery_target'', PStr target)]
         (st\<lparr>px_ticks := px_ticks st + 1, px_outbox := xs\<rparr>))"
  have "px_outbox st' = xs" unfolding st' update_ledger_outbox append_transition_fields by simp
  moreover have "length xs = length (px_outbox st) + (if list_ex (\<lambda>x. ox_key x = k) (px_outbox st) then 0 else 1)"
    unfolding xs by (cases "list_ex (\<lambda>x. ox_key x = k) (px_outbox st)") (simp_all only: if_True if_False length_map length_append list.size add_0_right add_Suc_right One_nat_def)
  ultimately show ?thesis unfolding k by (simp only:)
qed

text \<open>
  The attention ledger counts calls, not deliveries: creating an outbox row adds one open ask to the scope of the
  event and to no other, also when the row exists and only its time changes; accepting or rejecting the item takes one
  away, down to zero, and no other control action changes any count, even one that cancels the deliveries.
\<close>

theorem attention_ledger_counts_calls:
  assumes "find_event i st = Some event"
  shows "(\<forall>d st'. create_proactive_outbox clock i target key action st = Inr (d, st') \<longrightarrow>
       open_asks sc st' = open_asks sc st + (if sc = scope_of event then 1 else 0) \<and>
       length (px_outbox st') = length (px_outbox st) +
         (if list_ex (\<lambda>x. ox_key x = text_or key (i @ '':'' @ target)) (px_outbox st) then 0 else 1)) \<and>
    (\<forall>d st'. set_proactive_item_state clock i state reason actor trace_id metadata st = Inr (d, st') \<longrightarrow>
       open_asks sc st' =
         (if state \<in> {''accepted'', ''rejected''} \<and> sc = scope_of event then max 0 (open_asks sc st - 1) else open_asks sc st))"
proof (intro conjI allI impI)
  fix d st'
  assume "create_proactive_outbox clock i target key action st = Inr (d, st')"
  then show "open_asks sc st' = open_asks sc st + (if sc = scope_of event then 1 else 0)"
    by (rule create_outbox_asks [OF assms])
next
  fix d st'
  assume "create_proactive_outbox clock i target key action st = Inr (d, st')"
  then show "length (px_outbox st') = length (px_outbox st) +
         (if list_ex (\<lambda>x. ox_key x = text_or key (i @ '':'' @ target)) (px_outbox st) then 0 else 1)"
    by (rule create_outbox_length [OF assms])
next
  fix d st'
  assume "set_proactive_item_state clock i state reason actor trace_id metadata st = Inr (d, st')"
  then show "open_asks sc st' =
      (if state \<in> {''accepted'', ''rejected''} \<and> sc = scope_of event then max 0 (open_asks sc st - 1) else open_asks sc st)"
  proof (cases rule: set_state_shape)
    case (1 event' st1 st2)
    have st2: "px_ledger st2 = px_ledger st" and e: "event' = event"
      using 1(1) assms unfolding 1(2,3) by (simp_all add: append_transition_fields update_event_fields)
    show ?thesis unfolding 1(4) e by (simp add: open_asks_close_max open_asks_frame [OF st2])
  qed
qed

lemma upsert_known_payload:
  assumes "List.find (\<lambda>r. pe_key r = effective_event_key a) (px_events st) = Some r"
    and "upsert_proactive_event clock a st = Inr (d, st')"
  shows "dget d ''created'' = PBool False" "dget d ''event_id'' = PStr (pe_event_id r)"
proof -
  have "\<exists>s b. event_payload (pe_event_id r) False b s = Inr (d, st')"
    using assms by (auto simp: upsert_proactive_event_def read_clock_def Let_def)
  then obtain s b q where q: "find_event (pe_event_id r) s = Some q"
    and d: "d = proactive_row_to_dict q @ [(''created'', PBool False), (''material_change'', PBool b)]"
    by (auto simp: event_payload_def split: option.splits)
  show "dget d ''created'' = PBool False" unfolding d by (simp add: proactive_row_to_dict_def dget_def)
  show "dget d ''event_id'' = PStr (pe_event_id r)"
    unfolding d using find_eventD [OF q] by (simp add: proactive_row_to_dict_def dget_def)
qed

lemma find_update_event:
  assumes "find_event i st = Some r" and "\<And>q. pe_event_id (f q) = pe_event_id q"
  shows "find_event i (update_event i f st) = Some (f r)"
proof -
  have "List.find (\<lambda>q. pe_event_id q = i) (map (\<lambda>q. if pe_event_id q = i then f q else q) rows) =
      map_option f (List.find (\<lambda>q. pe_event_id q = i) rows)" for rows
    by (induction rows) (auto simp: assms(2))
  then show ?thesis using assms(1) by (simp add: find_event_def update_event_fields)
qed

lemma filter_other_events:
  assumes "\<And>q. pe_event_id (f q) = pe_event_id q"
  shows "filter (\<lambda>q. pe_event_id q \<noteq> i) (px_events (update_event i f st)) = filter (\<lambda>q. pe_event_id q \<noteq> i) (px_events st)"
proof -
  have "filter (\<lambda>q. pe_event_id q \<noteq> i) (map (\<lambda>q. if pe_event_id q = i then f q else q) rows) =
      filter (\<lambda>q. pe_event_id q \<noteq> i) rows" for rows
    by (induction rows) (auto simp: assms)
  then show ?thesis by (simp add: update_event_fields)
qed

text \<open>
  A projection under a known key updates its event in place: it keeps identity, key, scope, source and creation time,
  takes the given texts and the given state whatever state the event was in, logs a transition exactly when that changes
  the state, and touches no other event, no delivery and no count. The payload says it was not created.
\<close>

theorem projection_updates_in_place:
  assumes "store_ok st" and "r \<in> set (px_events st)" and "pe_key r = effective_event_key a"
    and "upsert_proactive_event clock a st = Inr (d, st')"
  shows "find_event (pe_event_id r) st' = Some (refresh_event a (clock (px_ticks st)) r) \<and>
    pe_state (refresh_event a (clock (px_ticks st)) r) = text_or (ea_state a) (pe_state r) \<and>
    map pe_event_id (px_events st') = map pe_event_id (px_events st) \<and>
    filter (\<lambda>q. pe_event_id q \<noteq> pe_event_id r) (px_events st') = filter (\<lambda>q. pe_event_id q \<noteq> pe_event_id r) (px_events st) \<and>
    length (px_transitions st') = length (px_transitions st) + (if text_or (ea_state a) (pe_state r) = pe_state r then 0 else 1) \<and>
    px_outbox st' = px_outbox st \<and> px_ledger st' = px_ledger st \<and>
    dget d ''created'' = PBool False \<and> dget d ''event_id'' = PStr (pe_event_id r)"
proof -
  let ?now = "clock (px_ticks st)"
  have ok: "events_ok (px_events st)" using assms(1) by (simp add: store_ok_def tables_ok_def)
  have "pe_event_id q = pe_event_id r" if "q \<in> set (px_events st)" "pe_key q = effective_event_key a" for q
    using ok assms(2,3) that by (simp add: events_ok_def)
  with same_event [OF ok] assms(2) have key: "q = r" if "q \<in> set (px_events st)" "pe_key q = effective_event_key a" for q
    using that by blast
  have "List.find (\<lambda>q. pe_key q = effective_event_key a) (px_events st) \<noteq> None"
    using assms(2,3) by (auto simp: find_None_iff)
  then obtain q where q: "List.find (\<lambda>q. pe_key q = effective_event_key a) (px_events st) = Some q" by blast
  note qD = find_keyD [OF ok q]
  have found: "List.find (\<lambda>q. pe_key q = effective_event_key a) (px_events st) = Some r"
    and r: "find_event (pe_event_id r) st = Some r"
    using q qD(1) key [OF qD(3) qD(2)] by simp_all
  let ?st = "update_event (pe_event_id r) (refresh_event a ?now) st"
  have body: "px_events st' = px_events ?st"
      "length (px_transitions st') = length (px_transitions st) + (if text_or (ea_state a) (pe_state r) = pe_state r then 0 else 1)"
      "px_outbox st' = px_outbox st" "px_ledger st' = px_ledger st"
    using assms(4) found by (auto simp: upsert_proactive_event_def read_clock_def Let_def update_event_fields append_transition_fields
        dest!: event_payload_Inr)
  have "find_event (pe_event_id r) st' = find_event (pe_event_id r) ?st" by (simp only: find_event_def body(1))
  also have "\<dots> = Some (refresh_event a ?now r)" by (rule find_update_event [OF r refresh_keeps(1)])
  finally show ?thesis
    unfolding body(1) update_event_id_list [OF refresh_keeps(1)] filter_other_events [OF refresh_keeps(1)]
    by (simp only: refresh_keeps body(2-4) upsert_known_payload [OF found assms(4)] simp_thms)
qed

section \<open>Witnesses\<close>

definition sample_args :: event_args where
  "sample_args = event_args_default ''heartbeat'' ''follow_up'' ''p''\<lparr>ea_key := ''k''\<rparr>"

definition sample_store :: proactive_store where
  "sample_store =
     (case upsert_proactive_event (\<lambda>n. ''t'') sample_args empty_store of
        Inl e \<Rightarrow> empty_store
      | Inr (d, st) \<Rightarrow>
          (case create_proactive_outbox (\<lambda>n. ''t'') (event_id_of ''k'') ''inbox'' [] [] st of Inl e \<Rightarrow> st | Inr (d, st) \<Rightarrow> st))"

lemmas sample_simps = sample_args_def event_args_default_def empty_store_def upsert_proactive_event_def create_proactive_outbox_def
  effective_event_key_def text_or_def read_clock_def Let_def find_event_def append_transition_def event_payload_def new_event_def
  update_attention_ledger_for_outbox_def

lemma sample_upsert:
  "\<exists>d st. upsert_proactive_event (\<lambda>n. ''t'') sample_args empty_store = Inr (d, st) \<and> find_event (event_id_of ''k'') st \<noteq> None \<and>
     create_proactive_outbox (\<lambda>n. ''t'') (event_id_of ''k'') ''inbox'' [] [] st = Inr (
       [(''schema'', PStr ''brainstack.proactive_outbox.v1''), (''outbox_id'', PStr (outbox_id_of (event_id_of ''k'' @ '':inbox''))),
                    (''event_id'', PStr (event_id_of ''k'')), (''state'', PStr ''pending'')], sample_store)"
  by (simp add: sample_store_def sample_simps)

lemma sample_reachable: "proactive_reachable (\<lambda>n. ''t'') sample_store"
  using sample_upsert by (blast intro: proactive_reachable.intros proactive_step.intros)

lemma sample_events: "px_events sample_store = [new_event sample_args ''t'']"
  by (simp add: sample_store_def sample_simps)

lemma sample_ids: "pe_event_id (new_event sample_args now) = event_id_of ''k''" "effective_event_key sample_args = ''k''"
  "pe_key (new_event sample_args now) = ''k''"
  by (simp_all add: sample_simps)

lemma sample_find: "find_event (event_id_of ''k'') sample_store = Some (new_event sample_args ''t'')"
  by (simp add: find_event_def sample_events sample_ids)

lemma proactive_store_consistent_witness:
  "tables_ok sample_store \<and> px_events sample_store = [new_event sample_args ''t''] \<and>
    log_state (event_id_of ''k'') (px_transitions sample_store) = Some (pe_state (new_event sample_args ''t''))"
  using proactive_store_consistent [OF sample_reachable] by (simp add: sample_events sample_ids)

lemma set_state_returns:
  assumes "find_event i st \<noteq> None"
  shows "\<exists>d st'. set_proactive_item_state clock i state reason actor trace_id metadata st = Inr (d, st')"
proof -
  obtain event where event: "find_event i st = Some event" using assms by blast
  have ids: "event_ids (close_attention_ask clock e b s) = event_ids s" for e b s
    by (simp add: event_ids_def close_ask_fields)
  have px: "event_ids (s\<lparr>px_outbox := xs\<rparr>) = event_ids s" "event_ids (s\<lparr>px_ticks := n\<rparr>) = event_ids s" for s xs n
    by (simp_all add: event_ids_def)
  have insp: "find_event i s \<noteq> None \<Longrightarrow> \<exists>d. inspect_proactive_item i s = Inr d" for s
    by (auto simp: inspect_proactive_item_def)
  have ev: "i \<in> event_ids s \<Longrightarrow> \<exists>d st'. map_sum id (\<lambda>d. (d, s)) (inspect_proactive_item i s) = Inr (d, st')" for s
    using insp [of s] find_event_None_iff [of i s] by auto
  have i: "i \<in> event_ids st" using assms by (simp add: find_event_None_iff)
  show ?thesis
    unfolding set_proactive_item_state_def event option.case read_clock_def Let_def case_prod_conv
    by (rule ev) (simp add: ids px update_event_ids event_ids_append i)
qed

lemma closing_item_stops_its_deliveries_witness:
  "\<exists>d st'. set_proactive_item_state (\<lambda>n. ''t'') (event_id_of ''k'') ''rejected'' ''NO'' ''user'' [] [] sample_store = Inr (d, st') \<and>
    px_outbox sample_store \<noteq> [] \<and> (\<exists>r \<in> set (px_events st'). pe_event_id r = event_id_of ''k'' \<and> pe_state r = ''rejected'')"
proof -
  obtain d st' where s: "set_proactive_item_state (\<lambda>n. ''t'') (event_id_of ''k'') ''rejected'' ''NO'' ''user'' [] [] sample_store = Inr (d, st')"
    using set_state_returns sample_find by blast
  moreover have "px_outbox sample_store \<noteq> []" by (simp add: sample_store_def sample_simps)
  ultimately show ?thesis using closing_item_stops_its_deliveries [OF s] by (simp add: CLOSED_STATES_def)
qed

lemma attention_ledger_counts_calls_witness:
  "\<exists>d st'. create_proactive_outbox (\<lambda>n. ''t'') (event_id_of ''k'') ''inbox'' [] [] sample_store = Inr (d, st') \<and>
     open_asks (''p'', [], []) st' = open_asks (''p'', [], []) sample_store + 1 \<and> length (px_outbox st') = length (px_outbox sample_store)"
proof -
  have e: "list_ex (\<lambda>x. ox_key x = text_or [] (event_id_of ''k'' @ '':'' @ ''inbox'')) (px_outbox sample_store)"
    and sc: "scope_of (new_event sample_args ''t'') = (''p'', [], [])"
    by (simp_all add: sample_store_def sample_simps scope_of_def)
  have "\<exists>d st'. create_proactive_outbox (\<lambda>n. ''t'') (event_id_of ''k'') ''inbox'' [] [] sample_store = Inr (d, st')"
    using e by (simp add: create_proactive_outbox_def sample_find read_clock_def Let_def)
  then show ?thesis using attention_ledger_counts_calls [OF sample_find, where sc = "(''p'', [], [])"] e sc by fastforce
qed

lemma projection_updates_in_place_witness:
  "\<exists>d st'. upsert_proactive_event (\<lambda>n. ''t'') sample_args sample_store = Inr (d, st') \<and>
     find_event (event_id_of ''k'') st' = Some (refresh_event sample_args ''t'' (new_event sample_args ''t'')) \<and>
     px_transitions st' \<noteq> [] \<and> dget d ''created'' = PBool False"
proof -
  have ok: "store_ok sample_store" by (rule reachable_ok [OF sample_reachable])
  have "\<exists>d st'. upsert_proactive_event (\<lambda>n. ''t'') sample_args sample_store = Inr (d, st')"
    by (simp add: sample_store_def sample_simps refresh_event_def update_event_def)
  then obtain d st' where s: "upsert_proactive_event (\<lambda>n. ''t'') sample_args sample_store = Inr (d, st')" by blast
  have "px_transitions sample_store \<noteq> []" by (simp add: sample_store_def sample_simps)
  with projection_updates_in_place [OF ok _ _ s, of "new_event sample_args ''t''"] s show ?thesis
    by (simp add: sample_events sample_ids) (metis length_0_conv add_is_0)
qed

end
