(* ===== verification/PyTime.thy ===== *)
theory PyTime
  imports PyFloat
begin

text \<open>
  \<open>datetime.fromisoformat\<close> as Python 3.11 and 3.12 implement it, on ASCII text, and the difference of two times.
  A time is the count of microseconds since the first day of year 1 of its wall clock, with its offset
  from UTC in microseconds when it is aware. A text it refuses is \<open>None\<close> (the \<open>ValueError\<close>).
\<close>

record py_datetime =
  dt_local :: int
  dt_offset :: "int option"

section \<open>The calendar\<close>

definition leap_year :: "int \<Rightarrow> bool" where
  "leap_year y \<longleftrightarrow> y mod 4 = 0 \<and> (y mod 100 \<noteq> 0 \<or> y mod 400 = 0)"

definition days_in_month :: "int \<Rightarrow> int \<Rightarrow> int" where
  "days_in_month y m = (if m = 2 then (if leap_year y then 29 else 28) else if m \<in> {4, 6, 9, 11} then 30 else 31)"

definition days_before_year :: "int \<Rightarrow> int" where
  "days_before_year y = (y - 1) * 365 + (y - 1) div 4 - (y - 1) div 100 + (y - 1) div 400"

text \<open>The day number of a date, 1 for the first day of year 1.\<close>

definition date_ordinal :: "int \<Rightarrow> int \<Rightarrow> int \<Rightarrow> int" where
  "date_ordinal y m d = days_before_year y + sum_list (map (days_in_month y) [1..m - 1]) + d"

definition MAX_ORDINAL :: int where "MAX_ORDINAL = 3652059"

text \<open>A date that exists.\<close>

definition valid_date :: "int \<Rightarrow> int \<Rightarrow> int \<Rightarrow> bool" where
  "valid_date y m d \<longleftrightarrow> 1 \<le> y \<and> y \<le> 9999 \<and> 1 \<le> m \<and> m \<le> 12 \<and> 1 \<le> d \<and> d \<le> days_in_month y m"

text \<open>Day \<open>d\<close> of ISO week \<open>w\<close>.\<close>

definition week_ordinal :: "int \<Rightarrow> int \<Rightarrow> int \<Rightarrow> int option" where
  "week_ordinal y w d =
     (let first = date_ordinal y 1 1; weekday = (first + 6) mod 7;
          monday = first - weekday + (if 3 < weekday then 7 else 0);
          long_year = weekday = 3 \<or> weekday = 2 \<and> leap_year y;
          n = monday + (w - 1) * 7 + (d - 1) in
      if 1 \<le> y \<and> 1 \<le> w \<and> (w \<le> 52 \<or> w = 53 \<and> long_year) \<and> 1 \<le> d \<and> d \<le> 7 \<and> 1 \<le> n \<and> n \<le> MAX_ORDINAL
      then Some n else None)"

section \<open>Parsing\<close>

definition iso_digits :: "nat \<Rightarrow> string \<Rightarrow> int option" where
  "iso_digits n s = (if n \<le> length s \<and> list_all is_digit (take n s) then Some (digits_value (take n s)) else None)"

text \<open>The position of the character between date and time.\<close>

definition separator_location :: "string \<Rightarrow> nat option" where
  "separator_location s =
     (if length s = 7 then Some 7
      else if s ! 4 = CHR ''-'' then
        (if s ! 5 = CHR ''W'' then
           (if 8 < length s \<and> s ! 8 = CHR ''-'' then
              (if length s = 9 then None else if 10 < length s \<and> is_digit (s ! 10) then Some 8 else Some 10)
            else Some 8)
         else Some 10)
      else if s ! 4 = CHR ''W'' then
        (let i = 7 + length (takeWhile is_digit (drop 7 s)) in
         if i < 9 then Some i else if even i then Some 7 else Some 8)
      else Some 8)"

definition parse_isoformat_date :: "string \<Rightarrow> nat \<Rightarrow> int option" where
  "parse_isoformat_date s n =
     (case iso_digits 4 s of
        None \<Rightarrow> None
      | Some y \<Rightarrow>
          (let sep = drop 4 s \<noteq> [] \<and> s ! 4 = CHR ''-'';
               p = (if sep then drop 5 s else drop 4 s) in
           case p of
             [] \<Rightarrow> None
           | c # q \<Rightarrow>
               if c = CHR ''W'' then
                 (case iso_digits 2 q of
                    None \<Rightarrow> None
                  | Some w \<Rightarrow>
                      (let r = drop 2 q in
                       if length s - length r < n then
                         (case (if sep then (case r of [] \<Rightarrow> None | c # r \<Rightarrow> if c = CHR ''-'' then Some r else None) else Some r) of
                            None \<Rightarrow> None
                          | Some r \<Rightarrow> Option.bind (iso_digits 1 r) (week_ordinal y w))
                       else week_ordinal y w 1))
               else
                 (case iso_digits 2 p of
                    None \<Rightarrow> None
                  | Some m \<Rightarrow>
                      (let r = drop 2 p in
                       case (if sep then (case r of [] \<Rightarrow> None | c # r \<Rightarrow> if c = CHR ''-'' then Some r else None) else Some r) of
                         None \<Rightarrow> None
                       | Some r \<Rightarrow>
                           Option.bind (iso_digits 2 r) (\<lambda>d. if valid_date y m d then Some (date_ordinal y m d) else None)))))"

text \<open>
  The time \<open>HH[:MM[:SS[.ffffff]]]\<close>: the values of the components, the microseconds, and whether characters
  follow the part read (\<open>tail\<close>: a zone follows the text).
\<close>

definition parse_fraction :: "string \<Rightarrow> bool \<Rightarrow> (int \<times> bool) option" where
  "parse_fraction s tail =
     (let n = min 6 (length s) in
      case iso_digits n s of
        None \<Rightarrow> None
      | Some v \<Rightarrow> Some (v * 10 ^ (6 - n), tail \<or> dropWhile is_digit (drop n s) \<noteq> []))"

fun parse_hms :: "nat \<Rightarrow> bool \<Rightarrow> string \<Rightarrow> bool \<Rightarrow> (int list \<times> int \<times> bool) option" where
  "parse_hms 0 colons s tail = map_option (\<lambda>(us, rest). ([], us, rest)) (parse_fraction s tail)"
| "parse_hms (Suc k) colons s tail =
     (case iso_digits 2 s of
        None \<Rightarrow> None
      | Some v \<Rightarrow>
          (case drop 2 s of
             [] \<Rightarrow> Some ([v], 0, tail)
           | [c] \<Rightarrow> Some ([v], 0, True)
           | c # r \<Rightarrow>
               (let colons = (if k = 2 then c = CHR '':'' else colons) in
                if colons \<and> c = CHR '':'' then map_option (\<lambda>(vs, us, rest). (v # vs, us, rest)) (parse_hms k colons r tail)
                else if c = CHR ''.'' \<or> c = CHR '','' then
                  map_option (\<lambda>(us, rest). ([v], us, rest)) (parse_fraction r tail)
                else if \<not> colons then
                  map_option (\<lambda>(vs, us, rest). (v # vs, us, rest)) (parse_hms k colons (c # r) tail)
                else None)))"

definition component :: "int list \<Rightarrow> nat \<Rightarrow> int" where
  "component vs i = (if i < length vs then vs ! i else 0)"

definition is_zone :: "char \<Rightarrow> bool" where
  "is_zone c \<longleftrightarrow> c \<in> {CHR ''+'', CHR ''-'', CHR ''Z''}"

text \<open>A time of day in microseconds with its offset.\<close>

definition parse_isoformat_time :: "string \<Rightarrow> (int \<times> int option) option" where
  "parse_isoformat_time s =
     (let t = takeWhile (\<lambda>c. \<not> is_zone c) s; z = dropWhile (\<lambda>c. \<not> is_zone c) s in
      case parse_hms 3 True t (z \<noteq> []) of
        None \<Rightarrow> None
      | Some (vs, us, rest) \<Rightarrow>
          (let h = component vs 0; m = component vs 1; sec = component vs 2;
               day = ((h * 60 + m) * 60 + sec) * 1000000 + us;
               in_day = h \<le> 23 \<and> m \<le> 59 \<and> sec \<le> 59 in
           case z of
             [] \<Rightarrow> if rest \<or> \<not> in_day then None else Some (day, None)
           | c # zs \<Rightarrow>
               if c = CHR ''Z'' then (if zs = [] \<and> in_day then Some (day, Some 0) else None)
               else
                 (case parse_hms 3 True zs False of
                    None \<Rightarrow> None
                  | Some (os, ous, orest) \<Rightarrow>
                      (let off = ((component os 0 * 60 + component os 1) * 60 + component os 2) * 1000000 + ous in
                       if orest \<or> 86400000000 \<le> off \<or> \<not> in_day then None
                       else Some (day, Some (if c = CHR ''-'' then - off else off))))))"

definition fromisoformat :: "string \<Rightarrow> py_datetime option" where
  "fromisoformat s =
     (if length s < 7 then None
      else
        case separator_location s of
          None \<Rightarrow> None
        | Some n \<Rightarrow>
            (case parse_isoformat_date s n of
               None \<Rightarrow> None
             | Some ordinal \<Rightarrow>
                 (let base = (ordinal - 1) * 86400000000; t = drop (n + 1) s in
                  if t = [] then Some \<lparr>dt_local = base, dt_offset = None\<rparr>
                  else map_option (\<lambda>(us, off). \<lparr>dt_local = base + us, dt_offset = off\<rparr>) (parse_isoformat_time t))))"

section \<open>Printing\<close>

text \<open>Year, month and day of a day number; an average year is shorter than 366 days, by less than one in 300.\<close>

definition civil_date :: "int \<Rightarrow> int \<times> int \<times> int" where
  "civil_date n =
     (let y0 = (n - 1) div 366 + 1;
          y = y0 + int (length (takeWhile (\<lambda>k. days_before_year (y0 + k) < n) [1..n div 100000 + 2]));
          d = n - days_before_year y;
          m = 1 + int (length (takeWhile (\<lambda>k. sum_list (map (days_in_month y) [1..k]) < d) [1..11])) in
      (y, m, d - sum_list (map (days_in_month y) [1..m - 1])))"

definition two_digits :: "int \<Rightarrow> string" where
  "two_digits n = (if n < 10 then CHR ''0'' # show_int n else show_int n)"

text \<open>\<open>strftime("%Y%m%d%H%M")\<close>; a year below 1000 is not padded.\<close>

definition minute_stamp :: "py_datetime \<Rightarrow> string" where
  "minute_stamp t =
     (let (y, m, d) = civil_date (dt_local t div 86400000000 + 1); mins = dt_local t mod 86400000000 div 60000000 in
      show_int y @ two_digits m @ two_digits d @ two_digits (mins div 60) @ two_digits (mins mod 60))"

section \<open>Differences\<close>

text \<open>\<open>a - b\<close> in microseconds; a naive and an aware time raise.\<close>

definition dt_diff :: "py_datetime \<Rightarrow> py_datetime \<Rightarrow> int result" where
  "dt_diff a b =
     (case (dt_offset a, dt_offset b) of
        (None, None) \<Rightarrow> Inr (dt_local a - dt_local b)
      | (Some p, Some q) \<Rightarrow> Inr ((dt_local a - p) - (dt_local b - q))
      | _ \<Rightarrow> Inl TypeError)"

text \<open>\<open>int(delta.total_seconds())\<close>: the seconds as a float, truncated.\<close>

definition whole_seconds :: "int \<Rightarrow> int" where
  "whole_seconds us = (let s = round64 (of_int us / 1000000) in if s < 0 then - \<lfloor>- s\<rfloor> else \<lfloor>s\<rfloor>)"

end
