(* ===== verification/WorkRun.thy ===== *)
theory WorkRun
  imports PyTime PyHash
begin

text \<open>
  \<open>hermes_proactive/workrun.py\<close>: the durable records of runs of work, one JSON file per run in one directory, and
  the cards that offer interrupted runs for recovery. The directory is the list of its \<open>*.json\<close> files
  in listing order; a write replaces the file of that name or adds one. The clock (\<open>rc_iso\<close>,
  \<open>rc_mtime\<close>) is an argument read at a tick the state counts.
\<close>

section \<open>Text, identifiers and references\<close>

definition RUNNING_STATES :: "string list" where
  "RUNNING_STATES = [''queued'', ''claimed'', ''running'', ''checkpointed'']"

definition TERMINAL_STATES :: "string list" where
  "TERMINAL_STATES = [''completed'', ''cancelled'']"

definition SOURCE_KINDS :: "string list" where
  "SOURCE_KINDS = [''cron'', ''proactive'', ''goal'', ''kanban'', ''process'', ''proactive_pulse'']"

definition RISK_VALUES :: "string list" where
  "RISK_VALUES = [''none'', ''low'', ''medium'', ''high'']"

definition WORKRUN_SCHEMA :: string where
  "WORKRUN_SCHEMA = ''hermes_proactive.workrun.v1''"

definition py_rstrip :: "string \<Rightarrow> string" where
  "py_rstrip s = rev (dropWhile is_space (rev s))"

definition compact_text :: "nat \<Rightarrow> pyval \<Rightarrow> string" where
  "compact_text n v =
     (let text = py_join '' '' (py_split (py_str (py_or v (PStr [])))) in
      if length text \<le> n then text else py_rstrip (take (n - 1) text) @ ''...'')"

definition id_char :: "char \<Rightarrow> char" where
  "id_char c = (if is_alnum c \<or> c \<in> set ''-_:.'' then c else CHR ''_'')"

definition strip_marks :: "string \<Rightarrow> string" where
  "strip_marks s = rev (dropWhile (\<lambda>c. c \<in> set ''._-:'') (rev (dropWhile (\<lambda>c. c \<in> set ''._-:'') s)))"

definition safe_id :: "string \<Rightarrow> string \<Rightarrow> string" where
  "safe_id prefix v =
     (let text = compact_text 120 (PStr v) in
      if text = [] then prefix
      else
        (let allowed = strip_marks (map id_char text) in
         if allowed \<noteq> [] then take 96 allowed else prefix @ '':'' @ take 16 (sha256_hex text)))"

definition run_digest :: "pydict \<Rightarrow> string" where
  "run_digest payload = take 24 (sha256_hex (json_dumps (PDict payload)))"

text \<open>The loop stops at the limit, also before it has looked at the later references.\<close>

fun refs_loop :: "nat \<Rightarrow> string list \<Rightarrow> pyval list \<Rightarrow> string list" where
  "refs_loop n acc [] = acc"
| "refs_loop n acc (v # vs) =
     (let ref = compact_text 180 v;
          acc = (if ref \<noteq> [] \<and> ref \<notin> set acc then acc @ [ref] else acc) in
      if n \<le> length acc then acc else refs_loop n acc vs)"

definition run_refs :: "nat \<Rightarrow> pyval \<Rightarrow> string list" where
  "run_refs n values =
     (case values of PNone \<Rightarrow> [] | PList vs \<Rightarrow> refs_loop n [] vs | v \<Rightarrow> refs_loop n [] [v])"

definition text_list :: "string list \<Rightarrow> pyval" where
  "text_list xs = PList (map PStr xs)"

definition default_to :: "string \<Rightarrow> string \<Rightarrow> string" where
  "default_to s d = (if s = [] then d else s)"

definition build_run_id :: "string \<Rightarrow> string \<Rightarrow> string \<Rightarrow> string \<Rightarrow> string" where
  "build_run_id source_kind source_id objective started_at =
     (let kind = safe_id ''source'' (default_to source_kind ''process'');
          source = safe_id ''source'' (default_to source_id ''unknown'');
          digest = run_digest [(''source_kind'', PStr kind), (''source_id'', PStr source), (''objective'', PStr objective),
                               (''started_at'', PStr started_at)] in
      kind @ '':'' @ source @ '':'' @ digest)"

section \<open>The directory\<close>

text \<open>A file whose text is not a JSON object has no content.\<close>

record run_file =
  rf_name :: string
  rf_mtime :: int
  rf_content :: "pydict option"

record run_dir =
  rd_files :: "run_file list"
  rd_ticks :: nat

record run_clock =
  rc_iso :: "nat \<Rightarrow> string"
  rc_mtime :: "nat \<Rightarrow> int"

definition path_for :: "string \<Rightarrow> string" where
  "path_for run_id = safe_id ''run'' run_id @ ''.json''"

definition put_file :: "run_file \<Rightarrow> run_file list \<Rightarrow> run_file list" where
  "put_file f fs =
     (if list_ex (\<lambda>g. rf_name g = rf_name f) fs then map (\<lambda>g. if rf_name g = rf_name f then f else g) fs else fs @ [f])"

definition atomic_write_json :: "run_clock \<Rightarrow> string \<Rightarrow> pydict \<Rightarrow> run_dir \<Rightarrow> run_dir" where
  "atomic_write_json clock name payload st =
     \<lparr>rd_files = put_file \<lparr>rf_name = name, rf_mtime = rc_mtime clock (rd_ticks st), rf_content = Some payload\<rparr> (rd_files st),
      rd_ticks = rd_ticks st + 1\<rparr>"

definition now_iso :: "run_clock \<Rightarrow> run_dir \<Rightarrow> string \<times> run_dir" where
  "now_iso clock st = (rc_iso clock (rd_ticks st), st\<lparr>rd_ticks := rd_ticks st + 1\<rparr>)"

definition given_or_now :: "run_clock \<Rightarrow> string \<Rightarrow> run_dir \<Rightarrow> string \<times> run_dir" where
  "given_or_now clock s st = (if s \<noteq> [] then (s, st) else now_iso clock st)"

definition file_content :: "run_file \<Rightarrow> pydict" where
  "file_content f = (case rf_content f of Some d \<Rightarrow> d | None \<Rightarrow> [])"

definition load_workrun :: "string \<Rightarrow> run_dir \<Rightarrow> pydict" where
  "load_workrun run_id st =
     (case List.find (\<lambda>f. rf_name f = path_for run_id) (rd_files st) of Some f \<Rightarrow> file_content f | None \<Rightarrow> [])"

section \<open>Starting and updating a run\<close>

text \<open>The keyword arguments of \<open>start_workrun\<close>, with their defaults.\<close>

record start_args =
  sa_source_kind :: string
  sa_source_id :: string
  sa_objective :: string
  sa_run_id :: string
  sa_session_id :: string
  sa_recovery_policy :: string
  sa_side_effect_risk :: string
  sa_next_safe_action :: string
  sa_checkpoint_refs :: pyval
  sa_output_refs :: pyval
  sa_metadata :: pydict
  sa_started_at :: string
  sa_heartbeat_at :: string

definition start_args_default :: "string \<Rightarrow> string \<Rightarrow> string \<Rightarrow> start_args" where
  "start_args_default source_kind source_id objective =
    \<lparr>sa_source_kind = source_kind, sa_source_id = source_id, sa_objective = objective, sa_run_id = [], sa_session_id = [],
     sa_recovery_policy = ''inspect_checkpoint_before_retry'', sa_side_effect_risk = ''low'',
     sa_next_safe_action = ''inspect latest checkpoint and decide whether retry is safe'', sa_checkpoint_refs = PNone,
     sa_output_refs = PNone, sa_metadata = [], sa_started_at = [], sa_heartbeat_at = []\<rparr>"

definition start_record :: "start_args \<Rightarrow> string \<Rightarrow> pydict" where
  "start_record a started =
     (let kind = (if sa_source_kind a \<in> set SOURCE_KINDS then sa_source_kind a else ''process'') in
      [(''schema'', PStr WORKRUN_SCHEMA),
       (''run_id'', PStr (default_to (sa_run_id a) (build_run_id kind (sa_source_id a) (sa_objective a) started))),
       (''source_kind'', PStr kind),
       (''source_id'', PStr (compact_text 160 (PStr (sa_source_id a)))),
       (''objective'', PStr (compact_text 320 (PStr (sa_objective a)))),
       (''state'', PStr ''running''),
       (''started_at'', PStr started),
       (''heartbeat_at'', PStr (default_to (sa_heartbeat_at a) started)),
       (''finished_at'', PStr []),
       (''session_id'', PStr (compact_text 160 (PStr (sa_session_id a)))),
       (''checkpoint_refs'', text_list (run_refs 16 (sa_checkpoint_refs a))),
       (''output_refs'', text_list (run_refs 16 (sa_output_refs a))),
       (''recovery_policy'', PStr (compact_text 180 (PStr (sa_recovery_policy a)))),
       (''side_effect_risk'', PStr (if sa_side_effect_risk a \<in> set RISK_VALUES then sa_side_effect_risk a else ''medium'')),
       (''next_safe_action'', PStr (compact_text 240 (PStr (sa_next_safe_action a)))),
       (''metadata'', PDict (map (\<lambda>(k, v). (k, PStr (compact_text 160 v))) (sa_metadata a)))])"

definition start_workrun :: "run_clock \<Rightarrow> start_args \<Rightarrow> run_dir \<Rightarrow> pydict \<times> run_dir" where
  "start_workrun clock a st =
     (let (started, st) = given_or_now clock (sa_started_at a) st;
          run = start_record a started in
      (run, atomic_write_json clock (path_for (py_str (dget run ''run_id''))) run st))"

text \<open>The arguments of \<open>update_workrun\<close>; \<open>None\<close> is distinct from the empty text or list.\<close>

record update_args =
  ua_state :: "string option"
  ua_checkpoint_refs :: pyval
  ua_output_refs :: pyval
  ua_next_safe_action :: string
  ua_error_summary :: string
  ua_heartbeat_at :: string
  ua_finished_at :: string

definition update_args_default :: update_args where
  "update_args_default =
    \<lparr>ua_state = None, ua_checkpoint_refs = PNone, ua_output_refs = PNone, ua_next_safe_action = [], ua_error_summary = [],
     ua_heartbeat_at = [], ua_finished_at = []\<rparr>"

definition state_in :: "string option \<Rightarrow> string list \<Rightarrow> bool" where
  "state_in s states = (case s of Some t \<Rightarrow> t \<in> set states | None \<Rightarrow> False)"

text \<open>\<^verbatim>\<open>_refs([*list(record.get(k) or []), *_refs(new)])\<close>\<close>

definition add_refs :: "string \<Rightarrow> pyval \<Rightarrow> pydict \<Rightarrow> pydict result" where
  "add_refs k new run =
     (if new = PNone then Inr run
      else map_sum id (\<lambda>old. dset k (text_list (run_refs 16 (PList (old @ map PStr (run_refs 16 new))))) run)
             (iter_or_empty (dget run k)))"

definition set_text :: "string \<Rightarrow> nat \<Rightarrow> string \<Rightarrow> pydict \<Rightarrow> pydict" where
  "set_text k n s run = (if s \<noteq> [] then dset k (PStr (compact_text n (PStr s))) run else run)"

definition set_state :: "string option \<Rightarrow> pydict \<Rightarrow> pydict" where
  "set_state s run = (case s of Some t \<Rightarrow> set_text ''state'' 40 t run | None \<Rightarrow> run)"

definition stamp_if :: "run_clock \<Rightarrow> bool \<Rightarrow> string \<Rightarrow> string \<Rightarrow> pydict \<Rightarrow> run_dir \<Rightarrow> pydict \<times> run_dir" where
  "stamp_if clock b k given run st =
     (if b then (let (t, st) = given_or_now clock given st in (dset k (PStr t) run, st)) else (run, st))"

definition update_workrun :: "run_clock \<Rightarrow> string \<Rightarrow> update_args \<Rightarrow> run_dir \<Rightarrow> (pydict \<times> run_dir) result" where
  "update_workrun clock run_id a st =
     (let run = load_workrun run_id st in
      if run = [] then Inr ([], st)
      else
        (let run = set_state (ua_state a) run;
             (run, st) = stamp_if clock (ua_heartbeat_at a \<noteq> [] \<or> state_in (ua_state a) RUNNING_STATES) ''heartbeat_at''
                           (ua_heartbeat_at a) run st in
         case add_refs ''checkpoint_refs'' (ua_checkpoint_refs a) run of
           Inl e \<Rightarrow> Inl e
         | Inr run \<Rightarrow>
             (case add_refs ''output_refs'' (ua_output_refs a) run of
                Inl e \<Rightarrow> Inl e
              | Inr run \<Rightarrow>
                  (let run = set_text ''next_safe_action'' 240 (ua_next_safe_action a) run;
                       run = set_text ''error_summary'' 240 (ua_error_summary a) run;
                       (run, st) = stamp_if clock
                         (ua_finished_at a \<noteq> [] \<or> state_in (ua_state a) TERMINAL_STATES \<or>
                          state_in (ua_state a) [''failed'', ''interrupted'']) ''finished_at'' (ua_finished_at a) run st in
                   Inr (run, atomic_write_json clock (path_for run_id) run st)))))"

definition checkpoint_workrun :: "run_clock \<Rightarrow> string \<Rightarrow> string \<Rightarrow> string \<Rightarrow> run_dir \<Rightarrow> (pydict \<times> run_dir) result" where
  "checkpoint_workrun clock run_id checkpoint_ref next_safe_action st =
     update_workrun clock run_id (update_args_default\<lparr>ua_state := Some ''checkpointed'',
       ua_checkpoint_refs := PList [PStr checkpoint_ref], ua_next_safe_action := next_safe_action\<rparr>) st"

definition finish_workrun ::
  "run_clock \<Rightarrow> string \<Rightarrow> string \<Rightarrow> string \<Rightarrow> string \<Rightarrow> string \<Rightarrow> run_dir \<Rightarrow> (pydict \<times> run_dir) result" where
  "finish_workrun clock run_id status output_ref error_summary next_safe_action st =
     (let state = (if status \<in> set TERMINAL_STATES \<or> status \<in> {''failed'', ''interrupted''} then status else ''failed'');
          (now, st) = now_iso clock st in
      update_workrun clock run_id (update_args_default\<lparr>ua_state := Some state,
        ua_output_refs := (if output_ref \<noteq> [] then PList [PStr output_ref] else PNone), ua_next_safe_action := next_safe_action,
        ua_error_summary := error_summary, ua_finished_at := now\<rparr>) st)"

section \<open>Listing and recovery\<close>

definition newest_files :: "run_file list \<Rightarrow> run_file list" where
  "newest_files fs = rev (sort_key rf_mtime (rev fs))"

text \<open>The limit is tested after each file, so the loop takes at least one.\<close>

fun collect_runs :: "int \<Rightarrow> pydict list \<Rightarrow> run_file list \<Rightarrow> pydict list" where
  "collect_runs n rows [] = rows"
| "collect_runs n rows (f # fs) =
     (let row = file_content f;
          rows = (if dget row ''schema'' = PStr WORKRUN_SCHEMA then rows @ [row] else rows) in
      if n \<le> int (length rows) then rows else collect_runs n rows fs)"

definition list_workruns :: "int \<Rightarrow> run_dir \<Rightarrow> pydict list" where
  "list_workruns n st = collect_runs n [] (newest_files (rd_files st))"

definition zulu_to_offset :: "string \<Rightarrow> string" where
  "zulu_to_offset s = concat (map (\<lambda>c. if c = CHR ''Z'' then ''+00:00'' else [c]) s)"

definition parse_iso :: "pyval \<Rightarrow> py_datetime option" where
  "parse_iso v = (let text = strip_text v in if text = [] then None else fromisoformat (zulu_to_offset text))"

definition heartbeat_of :: "pydict \<Rightarrow> py_datetime option" where
  "heartbeat_of run =
     (case parse_iso (dget run ''heartbeat_at'') of Some t \<Rightarrow> Some t | None \<Rightarrow> parse_iso (dget run ''started_at''))"

definition run_state :: "pydict \<Rightarrow> string" where
  "run_state run = py_str (py_or (dget run ''state'') (PStr []))"

text \<open>The age of the last sign of life, and whether it counts as stale; without one the run is stale.\<close>

definition run_age :: "py_datetime \<Rightarrow> int \<Rightarrow> pydict \<Rightarrow> (bool \<times> int) result" where
  "run_age now stale_after_seconds run =
     (case heartbeat_of run of
        None \<Rightarrow> Inr (True, 0)
      | Some t \<Rightarrow>
          map_sum id (\<lambda>us. let age = max 0 (whole_seconds us) in
              (max 1 (if stale_after_seconds = 0 then 1 else stale_after_seconds) \<le> age, age))
            (dt_diff now t))"

definition card_of :: "pydict \<Rightarrow> int \<Rightarrow> pydict" where
  "card_of run age =
     (let state = run_state run; text = (\<lambda>k n. compact_text n (dget run k)) in
      [(''schema'', PStr ''hermes_proactive.workrun_recovery_candidate.v1''),
       (''run_id'', PStr (text ''run_id'' 160)),
       (''source_kind'', PStr (text ''source_kind'' 40)),
       (''source_id'', PStr (text ''source_id'' 160)),
       (''objective'', PStr (text ''objective'' 320)),
       (''state'', PStr (if state \<in> set RUNNING_STATES then ''reclaimable'' else state)),
       (''started_at'', PStr (text ''started_at'' 80)),
       (''heartbeat_at'', PStr (text ''heartbeat_at'' 80)),
       (''age_seconds'', PInt age),
       (''checkpoint_refs'', text_list (run_refs 8 (dget run ''checkpoint_refs''))),
       (''output_refs'', text_list (run_refs 8 (dget run ''output_refs''))),
       (''recovery_policy'', PStr (text ''recovery_policy'' 180)),
       (''side_effect_risk'', PStr (default_to (text ''side_effect_risk'' 40) ''medium'')),
       (''next_safe_action'', PStr (text ''next_safe_action'' 240))])"

definition recovery_card :: "py_datetime \<Rightarrow> int \<Rightarrow> pydict \<Rightarrow> pydict option result" where
  "recovery_card now stale_after_seconds run =
     (if run_state run \<in> set TERMINAL_STATES then Inr None
      else map_sum id (\<lambda>(stale, age). if run_state run \<in> set RUNNING_STATES \<and> \<not> stale then None else Some (card_of run age))
             (run_age now stale_after_seconds run))"

fun collect_cards :: "py_datetime \<Rightarrow> int \<Rightarrow> int \<Rightarrow> pydict list \<Rightarrow> pydict list \<Rightarrow> pydict list result" where
  "collect_cards now stale_after n cards [] = Inr cards"
| "collect_cards now stale_after n cards (run # runs) =
     (case recovery_card now stale_after run of
        Inl e \<Rightarrow> Inl e
      | Inr c \<Rightarrow>
          (let cards = (case c of Some ca \<Rightarrow> cards @ [ca] | None \<Rightarrow> cards) in
           if n \<le> int (length cards) then Inr cards else collect_cards now stale_after n cards runs))"

definition list_recovery_candidates :: "py_datetime \<Rightarrow> int \<Rightarrow> int \<Rightarrow> run_dir \<Rightarrow> pydict list result" where
  "list_recovery_candidates now stale_after_seconds n st =
     collect_cards now stale_after_seconds n [] (list_workruns (max (n * 10) 50) st)"

text \<open>\<open>deletable\<close> says whether the system removes the file of a name when asked.\<close>

definition prune_completed_workruns :: "(string \<Rightarrow> bool) \<Rightarrow> int \<Rightarrow> run_dir \<Rightarrow> pydict \<times> run_dir" where
  "prune_completed_workruns deletable keep_completed st =
     (let completed = filter (\<lambda>f. run_state (file_content f) \<in> set TERMINAL_STATES) (newest_files (rd_files st));
          surplus = drop (nat keep_completed) completed;
          removed = filter (\<lambda>f. deletable (rf_name f)) surplus in
      ([(''schema'', PStr ''hermes_proactive.workrun_prune.v1''), (''completed_seen'', PInt (int (length completed))),
        (''removed'', PInt (int (length removed)))],
       st\<lparr>rd_files := filter (\<lambda>f. rf_name f \<notin> rf_name ` set removed) (rd_files st)\<rparr>))"

section \<open>Files\<close>

lemma find_map_replace:
  "n \<noteq> rf_name f \<Longrightarrow> List.find (\<lambda>h. rf_name h = n) (map (\<lambda>g. if rf_name g = rf_name f then f else g) fs) =
     List.find (\<lambda>g. rf_name g = n) fs"
  by (induction fs) auto

lemma find_put_file:
  "List.find (\<lambda>f. rf_name f = n) (put_file f fs) = (if n = rf_name f then Some f else List.find (\<lambda>g. rf_name g = n) fs)"
proof (cases "list_ex (\<lambda>g. rf_name g = rf_name f) fs")
  case True
  then have "List.find (\<lambda>h. rf_name h = rf_name f) (map (\<lambda>g. if rf_name g = rf_name f then f else g) fs) = Some f"
    by (induction fs) auto
  with True show ?thesis by (auto simp: put_file_def find_map_replace)
next
  case False
  then have "List.find (\<lambda>g. rf_name g = rf_name f) fs = None" by (auto simp: find_None_iff list_ex_iff)
  with False show ?thesis by (auto simp: put_file_def find_append split: option.split)
qed

lemma put_file_names: "distinct (map rf_name fs) \<Longrightarrow> distinct (map rf_name (put_file f fs))"
proof (cases "list_ex (\<lambda>g. rf_name g = rf_name f) fs")
  case True
  have "map rf_name (map (\<lambda>g. if rf_name g = rf_name f then f else g) fs) = map rf_name fs" by (induction fs) auto
  moreover assume "distinct (map rf_name fs)"
  ultimately show ?thesis using True by (simp add: put_file_def del: map_map)
next
  case False
  moreover assume "distinct (map rf_name fs)"
  ultimately show ?thesis by (auto simp: put_file_def list_ex_iff)
qed

lemma load_write:
  "load_workrun r (atomic_write_json clock (path_for i) run st) = (if path_for r = path_for i then run else load_workrun r st)"
  by (simp add: load_workrun_def atomic_write_json_def find_put_file file_content_def)

lemma load_ticks: "rd_files st' = rd_files st \<Longrightarrow> load_workrun r st' = load_workrun r st"
  by (simp add: load_workrun_def)

lemma clock_files: "rd_files (snd (given_or_now clock s st)) = rd_files st" "rd_files (snd (now_iso clock st)) = rd_files st"
  by (simp_all add: given_or_now_def now_iso_def)

lemma stamp_files: "rd_files (snd (stamp_if clock b k given run st)) = rd_files st"
  by (simp add: stamp_if_def case_prod_unfold Let_def clock_files)

lemma start_run_id: "dget (start_record a started) ''run_id'' =
    PStr (default_to (sa_run_id a)
      (build_run_id (if sa_source_kind a \<in> set SOURCE_KINDS then sa_source_kind a else ''process'') (sa_source_id a) (sa_objective a) started))"
  by (simp add: start_record_def Let_def)

text \<open>The identifier of the run that \<open>start_workrun\<close> returns.\<close>

definition run_id_of :: "pydict \<Rightarrow> string" where
  "run_id_of run = py_str (dget run ''run_id'')"

lemma load_start:
  assumes "start_workrun clock a st = (run, st')"
  shows "load_workrun r st' = (if path_for r = path_for (run_id_of run) then run else load_workrun r st)"
proof -
  obtain started st1 where s: "given_or_now clock (sa_started_at a) st = (started, st1)" by fastforce
  with clock_files(1) have f: "rd_files st1 = rd_files st" by (metis snd_conv)
  have r: "run = start_record a started" "st' = atomic_write_json clock (path_for (run_id_of run)) run st1"
    using assms unfolding start_workrun_def s Let_def case_prod_conv run_id_of_def by auto
  show ?thesis unfolding r(2) load_write load_ticks [OF f] ..
qed

lemma stamp_split:
  obtains run' st' where "stamp_if clock b k given run st = (run', st')" "rd_files st' = rd_files st"
  using stamp_files by (metis prod.exhaust_sel)

lemma update_shape:
  assumes "update_workrun clock i a st = Inr (run, st')"
  obtains (missing) "load_workrun i st = []" "run = []" "st' = st"
    | (written) st1 where "rd_files st1 = rd_files st" "st' = atomic_write_json clock (path_for i) run st1"
proof (cases "load_workrun i st = []")
  case True
  with assms show ?thesis by (intro missing) (simp_all add: update_workrun_def)
next
  case False
  let ?r0 = "set_state (ua_state a) (load_workrun i st)"
  obtain r1 st1 where s1: "stamp_if clock (ua_heartbeat_at a \<noteq> [] \<or> state_in (ua_state a) RUNNING_STATES) ''heartbeat_at''
      (ua_heartbeat_at a) ?r0 st = (r1, st1)" and f1: "rd_files st1 = rd_files st" by (rule stamp_split)
  note d = assms [unfolded update_workrun_def Let_def if_not_P [OF False] s1 case_prod_conv]
  then obtain r2 where r2: "add_refs ''checkpoint_refs'' (ua_checkpoint_refs a) r1 = Inr r2" by (auto split: sum.splits)
  with d obtain r3 where r3: "add_refs ''output_refs'' (ua_output_refs a) r2 = Inr r3" by (auto split: sum.splits)
  let ?r4 = "set_text ''error_summary'' 240 (ua_error_summary a) (set_text ''next_safe_action'' 240 (ua_next_safe_action a) r3)"
  obtain r5 st2 where s2: "stamp_if clock (ua_finished_at a \<noteq> [] \<or> state_in (ua_state a) TERMINAL_STATES \<or>
      state_in (ua_state a) [''failed'', ''interrupted'']) ''finished_at'' (ua_finished_at a) ?r4 st1 = (r5, st2)"
    and f2: "rd_files st2 = rd_files st1" by (rule stamp_split)
  show ?thesis
    using d unfolding r2 r3 sum.case s2 case_prod_conv
    by (intro written [of st2]) (auto simp: f1 f2)
qed

lemma load_update:
  assumes "update_workrun clock i a st = Inr (run, st')"
  shows "load_workrun r st' = (if path_for r = path_for i then run else load_workrun r st)"
  using assms
proof (cases rule: update_shape)
  case missing
  then show ?thesis by (auto simp: load_workrun_def)
next
  case (written st1)
  show ?thesis unfolding written(2) load_write load_ticks [OF written(1)] ..
qed


section \<open>Text\<close>

lemma compact_text_word:
  assumes "s \<noteq> []" and "\<And>c. c \<in> set s \<Longrightarrow> \<not> is_space c"
  shows "compact_text n (PStr s) = (if length s \<le> n then s else take (n - 1) s @ ''...'')"
proof -
  have "py_split s = [s]" using assms by (simp add: py_split_def words_acc_word)
  moreover have "py_or (PStr s) (PStr []) = PStr s" using assms(1) by (cases s) simp_all
  moreover have "py_rstrip (take (n - 1) s) = take (n - 1) s"
    unfolding py_rstrip_def using assms(2) by (subst dropWhile_none) (auto dest: in_set_takeD)
  ultimately show ?thesis by (simp add: compact_text_def)
qed

text \<open>A compact text may be two characters longer than its limit.\<close>

lemma compact_text_bound: "1 \<le> n \<Longrightarrow> length (compact_text n v) \<le> n + 2"
proof -
  assume n: "1 \<le> n"
  have "length (py_rstrip (take (n - 1) s)) \<le> n - 1" for s
  proof -
    have "length (dropWhile is_space xs) \<le> length xs" for xs by (rule length_dropWhile_le)
    from this [of "rev (take (n - 1) s)"] show ?thesis by (simp add: py_rstrip_def)
  qed
  from this [of "py_join '' '' (py_split (py_str (py_or v (PStr []))))"] n show ?thesis by (auto simp: compact_text_def Let_def)
qed

lemma alnum_char:
  assumes "is_alnum c"
  shows "\<not> is_space c" "id_char c = c" "c \<notin> set ''._-:''"
  using assms by (auto simp: is_alnum_def is_space_def id_char_def Let_def)

lemma hex_digit_alnum: "n < 16 \<Longrightarrow> is_alnum (hex_digit n)"
  by (auto simp: hex_digit_def is_alnum_def Let_def)

lemma sha256_hex_alnum: "c \<in> set (sha256_hex s) \<Longrightarrow> is_alnum c"
proof -
  have "unat (x AND 15) < 16" for x :: w32
  proof -
    have "x AND 15 \<le> 15" by (rule word_and_le1)
    then show ?thesis by (simp add: word_le_nat_alt)
  qed
  then have "c \<in> set (hex_word w) \<Longrightarrow> is_alnum c" for w
    unfolding hex_word_def set_map by (elim imageE) (simp add: hex_digit_alnum)
  then show "c \<in> set (sha256_hex s) \<Longrightarrow> is_alnum c" by (auto simp: sha256_hex_def)
qed

lemma run_digest_alnum: "c \<in> set (run_digest d) \<Longrightarrow> is_alnum c"
  unfolding run_digest_def by (rule sha256_hex_alnum) (rule in_set_takeD)

lemma run_digest_length: "length (run_digest d) = 24"
  by (simp add: run_digest_def)

definition id_text :: "string \<Rightarrow> bool" where
  "id_text s \<longleftrightarrow> (\<forall>c \<in> set s. is_alnum c \<or> c = CHR '':'' \<or> c = CHR ''_'')"

lemma id_text_char: "id_text s \<Longrightarrow> c \<in> set s \<Longrightarrow> \<not> is_space c \<and> id_char c = c"
  using alnum_char by (auto simp: id_text_def id_char_def is_space_def)

lemma strip_marks_tail:
  assumes "is_alnum (hd s)" and "is_alnum (last s)" and "s \<noteq> []" and "set z \<subseteq> set ''._-:''"
  shows "strip_marks (s @ z) = s"
proof -
  have "dropWhile (\<lambda>c. c \<in> set ''._-:'') (s @ z) = s @ z"
    using alnum_char(3) [OF assms(1)] assms(3) by (cases s) simp_all
  moreover have "dropWhile (\<lambda>c. c \<in> set ''._-:'') (rev z @ rev s) = rev s"
    using alnum_char(3) [OF assms(2)] assms(3,4) by (cases s rule: rev_cases) (auto simp: dropWhile_append)
  ultimately show ?thesis by (simp add: strip_marks_def)
qed

text \<open>The file name of an identifier whose tail lies beyond the 96th character does not depend on the tail.\<close>

lemma safe_id_long:
  assumes "id_text p" and "is_alnum (hd p)" and "96 \<le> length p" "length p < 119" and "d \<noteq> []" and "\<And>c. c \<in> set d \<Longrightarrow> is_alnum c"
  shows "safe_id prefix (p @ d) = take 96 p"
proof -
  have s: "id_text (p @ d)" using assms(1,6) by (auto simp: id_text_def)
  have ne: "p \<noteq> []" using assms(3) by auto
  define e where "e = (if length (p @ d) \<le> 120 then d else take (119 - length p) d)"
  define z where "z = (if length (p @ d) \<le> 120 then [] else ''...'')"
  have e: "e \<noteq> []" "set e \<subseteq> set d" using assms(4,5) by (auto simp: e_def dest: in_set_takeD)
  have "compact_text 120 (PStr (p @ d)) = (if length (p @ d) \<le> 120 then p @ d else take 119 (p @ d) @ ''...'')"
    using ne id_text_char [OF s] by (subst compact_text_word) auto
  then have tx: "compact_text 120 (PStr (p @ d)) = p @ e @ z" using assms(4) by (simp add: e_def z_def)
  have "map id_char (p @ e @ z) = p @ e @ z"
  proof (rule map_idI)
    fix c assume "c \<in> set (p @ e @ z)"
    then have "c \<in> set (p @ d) \<or> c = CHR ''.''" using e(2) by (auto simp: z_def split: if_splits)
    then show "id_char c = c" using id_text_char [OF s] by (elim disjE) (simp_all add: id_char_def)
  qed
  moreover have "strip_marks ((p @ e) @ z) = p @ e"
  proof (rule strip_marks_tail)
    have "last e \<in> set d" using last_in_set [OF e(1)] e(2) by blast
    then show "is_alnum (last (p @ e))" using assms(6) e(1) by simp
  qed (use ne assms(2) in \<open>auto simp: z_def\<close>)
  ultimately show ?thesis using ne assms(3) by (simp add: safe_id_def tx)
qed

lemma safe_id_alnum:
  assumes "96 \<le> length s" and "\<And>c. c \<in> set s \<Longrightarrow> is_alnum c"
  shows "safe_id prefix s = take 96 s"
proof (cases "length s = 96")
  case True
  have ne: "s \<noteq> []" using True by auto
  have "compact_text 120 (PStr s) = s" using ne True assms(2) alnum_char(1) by (subst compact_text_word) auto
  moreover have "map id_char s = s" using assms(2) alnum_char(2) by (intro map_idI) auto
  moreover have "strip_marks s = s" using strip_marks_tail [of s "[]"] ne assms(2) by (simp add: last_in_set)
  ultimately show ?thesis using ne True by (simp add: safe_id_def)
next
  case False
  have "safe_id prefix (take 96 s @ drop 96 s) = take 96 (take 96 s)"
    by (rule safe_id_long) (use assms False in \<open>auto simp: id_text_def intro!: assms(2) hd_in_set dest: in_set_takeD in_set_dropD\<close>)
  then show ?thesis by simp
qed

section \<open>Properties\<close>

lemma source_kind_text: "kind \<in> set SOURCE_KINDS \<Longrightarrow> kind \<noteq> [] \<and> length kind \<le> 15 \<and> safe_id ''source'' kind = kind"
proof -
  have "list_all (\<lambda>k. k \<noteq> [] \<and> length k \<le> 15 \<and> safe_id ''source'' k = k) SOURCE_KINDS" by code_simp
  then show "kind \<in> set SOURCE_KINDS \<Longrightarrow> kind \<noteq> [] \<and> length kind \<le> 15 \<and> safe_id ''source'' kind = kind"
    unfolding list_all_iff by blast
qed

lemma long_source_path:
  assumes "kind \<in> set SOURCE_KINDS" and "96 \<le> length source" and "\<And>c. c \<in> set source \<Longrightarrow> is_alnum c"
  shows "path_for (build_run_id kind source objective started) = take 96 (kind @ '':'' @ source) @ ''.json''"
proof -
  let ?p = "kind @ '':'' @ take 96 source @ '':''"
  have "list_all (\<lambda>k. is_alnum (hd k) \<and> id_text k) SOURCE_KINDS" by code_simp
  then have kind: "is_alnum (hd kind)" "id_text kind" using assms(1) unfolding list_all_iff by blast+
  note kt = source_kind_text [OF assms(1)]
  have ne: "source \<noteq> []" using assms(2) by auto
  have id: "build_run_id kind source objective started = ?p @ run_digest [(''source_kind'', PStr kind), (''source_id'', PStr (take 96 source)),
      (''objective'', PStr objective), (''started_at'', PStr started)]"
    using kt ne by (simp add: build_run_id_def default_to_def safe_id_alnum [OF assms(2,3)] Let_def)
  have "safe_id ''run'' (?p @ run_digest d) = take 96 ?p" for d
  proof (rule safe_id_long)
    show "run_digest d \<noteq> []" using run_digest_length [of d] by auto
    show "id_text ?p" using kind(2) assms(3) by (auto simp: id_text_def dest: in_set_takeD)
    show "is_alnum (hd ?p)" using kt kind(1) by (cases kind) auto
    show "is_alnum c" if "c \<in> set (run_digest d)" for c by (rule run_digest_alnum [OF that])
  qed (use kt assms(2) in auto)
  moreover have "min (95 - length kind) 96 = 95 - length kind" by simp
  ultimately show ?thesis unfolding path_for_def id using kt assms(2) by (simp add: take_Cons')
qed

text \<open>
  The directory is a map from file names to records: after a run was started or updated, loading any identifier gives
  that record when the identifier has its file name, and what it gave before otherwise; no name occurs twice.
\<close>

theorem workrun_directory_is_a_map:
  assumes "start_workrun clock a st = (run, st1)" and "update_workrun clock i u st = Inr (run', st2)"
  shows "load_workrun r st1 = (if path_for r = path_for (run_id_of run) then run else load_workrun r st) \<and>
    load_workrun r st2 = (if path_for r = path_for i then run' else load_workrun r st) \<and>
    (distinct (map rf_name (rd_files st)) \<longrightarrow> distinct (map rf_name (rd_files st1)) \<and> distinct (map rf_name (rd_files st2)))"
proof (intro conjI impI)
  show "load_workrun r st1 = (if path_for r = path_for (run_id_of run) then run else load_workrun r st)"
    by (rule load_start [OF assms(1)])
  show "load_workrun r st2 = (if path_for r = path_for i then run' else load_workrun r st)"
    by (rule load_update [OF assms(2)])
  assume d: "distinct (map rf_name (rd_files st))"
  have w: "rd_files s = rd_files st \<Longrightarrow> distinct (map rf_name (rd_files (atomic_write_json clock n p s)))" for n p s
    using put_file_names [OF d] by (simp add: atomic_write_json_def)
  have "rd_files (snd (given_or_now clock (sa_started_at a) st)) = rd_files st" by (rule clock_files)
  then show "distinct (map rf_name (rd_files st1))"
    using assms(1) w by (auto simp: start_workrun_def case_prod_unfold Let_def)
  show "distinct (map rf_name (rd_files st2))" using assms(2)
  proof (cases rule: update_shape)
    case missing
    then show ?thesis using d by simp
  next
    case (written s)
    show ?thesis unfolding written(2) by (rule w [OF written(1)])
  qed
qed

lemma start_files:
  assumes "start_workrun clock a st = (run, st')"
  obtains f where "rf_name f = path_for (run_id_of run)" "rd_files st' = put_file f (rd_files st)"
proof -
  obtain started s where s: "given_or_now clock (sa_started_at a) st = (started, s)" by fastforce
  with clock_files(1) have "rd_files s = rd_files st" by (metis snd_conv)
  then show ?thesis
    using assms s by (intro that) (auto simp: start_workrun_def Let_def run_id_of_def atomic_write_json_def)
qed

lemma put_file_again:
  "rf_name g = rf_name f \<Longrightarrow> map rf_name (put_file g (put_file f fs)) = map rf_name (put_file f fs)"
proof -
  assume n: "rf_name g = rf_name f"
  have "list_ex (\<lambda>h. rf_name h = rf_name f) (put_file f fs)" by (auto simp: put_file_def list_ex_iff)
  moreover have "map rf_name (map (\<lambda>h. if rf_name h = rf_name f then g else h) xs) = map rf_name xs" for xs
    using n by (induction xs) auto
  ultimately show ?thesis by (simp add: put_file_def [of g] n del: map_map)
qed

lemma generated_id:
  assumes "start_workrun clock a st = (run, st')" and "sa_run_id a = []" and "sa_source_kind a \<in> set SOURCE_KINDS"
  obtains started where "run_id_of run = build_run_id (sa_source_kind a) (sa_source_id a) (sa_objective a) started"
proof -
  obtain started s where "given_or_now clock (sa_started_at a) st = (started, s)" by fastforce
  then have "run = start_record a started" using assms(1) by (auto simp: start_workrun_def Let_def)
  then show ?thesis using that assms(2,3) by (simp add: run_id_of_def start_run_id default_to_def)
qed

text \<open>
  Two runs of one long source share a file: when the source identifier has 96 or more letters and digits, the digest
  that tells runs of it apart lies beyond the part of the identifier the file name keeps, so starting the
  second run overwrites the record of the first, whatever their objectives and start times.
\<close>

theorem long_sources_share_a_file:
  assumes "start_workrun clock a st = (run, st1)" and "start_workrun clock b st1 = (run', st2)"
    and "sa_run_id a = []" "sa_run_id b = []"
    and "sa_source_kind a \<in> set SOURCE_KINDS" "sa_source_kind b = sa_source_kind a" "sa_source_id b = sa_source_id a"
    and "96 \<le> length (sa_source_id a)" and "\<forall>c \<in> set (sa_source_id a). is_alnum c"
  shows "load_workrun (run_id_of run) st1 = run \<and> load_workrun (run_id_of run) st2 = run' \<and>
    map rf_name (rd_files st2) = map rf_name (rd_files st1)"
proof -
  obtain s1 where id1: "run_id_of run = build_run_id (sa_source_kind a) (sa_source_id a) (sa_objective a) s1"
    by (rule generated_id [OF assms(1,3,5)])
  obtain s2 where id2: "run_id_of run' = build_run_id (sa_source_kind b) (sa_source_id b) (sa_objective b) s2"
    by (rule generated_id [OF assms(2,4)]) (use assms(5,6) in simp)
  have p: "path_for (run_id_of run') = path_for (run_id_of run)"
    unfolding id1 id2 assms(6,7) using long_source_path [OF assms(5,8)] assms(9) by simp
  obtain f where "rf_name f = path_for (run_id_of run)" "rd_files st1 = put_file f (rd_files st)"
    by (rule start_files [OF assms(1)])
  moreover obtain g where "rf_name g = path_for (run_id_of run')" "rd_files st2 = put_file g (rd_files st1)"
    by (rule start_files [OF assms(2)])
  ultimately have "map rf_name (rd_files st2) = map rf_name (rd_files st1)" using p by (simp add: put_file_again)
  then show ?thesis using load_start [OF assms(1)] load_start [OF assms(2)] p by simp
qed

section \<open>References\<close>

text \<open>A reference that the loop takes as it is.\<close>

definition clean_ref :: "string \<Rightarrow> bool" where
  "clean_ref r \<longleftrightarrow> r \<noteq> [] \<and> compact_text 180 (PStr r) = r"

lemma refs_loop_clean:
  "length acc < n \<Longrightarrow> list_all clean_ref rs \<Longrightarrow> distinct (acc @ rs) \<Longrightarrow> n \<le> length acc + length rs \<Longrightarrow>
     refs_loop n acc (map PStr rs @ vs) = take n (acc @ rs)"
proof (induction rs arbitrary: acc)
  case (Cons r rs)
  then have r: "compact_text 180 (PStr r) = r" "r \<noteq> []" "r \<notin> set acc" by (auto simp: clean_ref_def)
  show ?case
  proof (cases "n \<le> length acc + 1")
    case True
    with Cons.prems(1) have "n = length (acc @ [r])" by simp
    with r show ?thesis by simp
  next
    case False
    then have "refs_loop n (acc @ [r]) (map PStr rs @ vs) = take n ((acc @ [r]) @ rs)"
      by (intro Cons.IH) (use Cons.prems in auto)
    with False r show ?thesis by simp
  qed
qed simp

lemma stamp_other: "k' \<noteq> k \<Longrightarrow> dget (fst (stamp_if clock b k given run st)) k' = dget run k'"
  by (simp add: stamp_if_def case_prod_unfold Let_def)

lemma stamp_case:
  "(case stamp_if clock b k given run st of (r, s) \<Rightarrow> Inr (r, f r s)) = Inr (run', st') \<Longrightarrow> run' = fst (stamp_if clock b k given run st)"
  by (cases "stamp_if clock b k given run st") simp

lemma set_text_other: "k' \<noteq> k \<Longrightarrow> dget (set_text k n s run) k' = dget run k'"
  by (simp add: set_text_def)

text \<open>
  A run keeps its first sixteen checkpoints only: once its record holds sixteen, a further checkpoint changes nothing of
  them, so the new reference is lost although the run reports itself as checkpointed, and a card for recovery shows
  the first eight, never the latest.
\<close>

theorem full_runs_lose_new_checkpoints:
  assumes "dget (load_workrun i st) ''checkpoint_refs'' = text_list rs" and "length rs = 16" "distinct rs" "list_all clean_ref rs"
    and "checkpoint_workrun clock i new action st = Inr (run, st')"
  shows "dget run ''checkpoint_refs'' = text_list rs \<and> load_workrun i st' = run \<and> run_state run = ''checkpointed'' \<and>
    dget (card_of run age) ''checkpoint_refs'' = text_list (take 8 rs)"
proof -
  let ?old = "load_workrun i st"
  have ne: "?old \<noteq> []" using assms(1) by (auto simp: text_list_def)
  let ?a = "update_args_default\<lparr>ua_state := Some ''checkpointed'', ua_checkpoint_refs := PList [PStr new], ua_next_safe_action := action\<rparr>"
  have st: "set_state (Some ''checkpointed'') ?old = dset ''state'' (PStr ''checkpointed'') ?old"
    by (simp add: set_state_def set_text_def) code_simp
  obtain r1 st1 where s1: "stamp_if clock (ua_heartbeat_at ?a \<noteq> [] \<or> state_in (ua_state ?a) RUNNING_STATES) ''heartbeat_at''
      (ua_heartbeat_at ?a) (set_state (ua_state ?a) ?old) st = (r1, st1)" by fastforce
  then have r1eq: "r1 = fst (stamp_if clock (ua_heartbeat_at ?a \<noteq> [] \<or> state_in (ua_state ?a) RUNNING_STATES) ''heartbeat_at''
      (ua_heartbeat_at ?a) (set_state (ua_state ?a) ?old) st)" by simp
  have r1: "dget r1 ''checkpoint_refs'' = text_list rs"
    unfolding r1eq by (subst stamp_other) (simp_all add: st assms(1))
  have r1s: "dget r1 ''state'' = PStr ''checkpointed''"
    unfolding r1eq by (subst stamp_other) (simp_all add: st)
  have "refs_loop 16 [] (map PStr rs @ map PStr (run_refs 16 (PList [PStr new]))) = rs"
    using refs_loop_clean [of "[]" 16 rs] assms(2-4) by simp
  then have refs: "add_refs ''checkpoint_refs'' (PList [PStr new]) r1 = Inr (dset ''checkpoint_refs'' (text_list rs) r1)"
    by (simp add: add_refs_def r1 text_list_def run_refs_def)
  note d = assms(5) [unfolded checkpoint_workrun_def update_workrun_def Let_def if_not_P [OF ne] s1 case_prod_conv]
  have A: "add_refs ''checkpoint_refs'' (ua_checkpoint_refs ?a) r1 = Inr (dset ''checkpoint_refs'' (text_list rs) r1)"
    using refs by simp
  have B: "add_refs ''output_refs'' (ua_output_refs ?a) r = Inr r" for r
    by (simp add: add_refs_def update_args_default_def)
  obtain b given e n s where run: "run = fst (stamp_if clock b ''finished_at'' given (set_text ''error_summary'' 240 e
      (set_text ''next_safe_action'' 240 n (dset ''checkpoint_refs'' (text_list rs) r1))) s)"
    using stamp_case [OF d [unfolded A B sum.case]] by blast
  have c: "dget run ''checkpoint_refs'' = text_list rs"
    unfolding run by (subst stamp_other, simp, subst set_text_other, simp, subst set_text_other) simp_all
  have s: "dget run ''state'' = PStr ''checkpointed''"
    unfolding run by (subst stamp_other, simp, subst set_text_other, simp, subst set_text_other) (simp_all add: r1s)
  have "refs_loop 8 [] (map PStr rs @ []) = take 8 rs"
    using refs_loop_clean [of "[]" 8 rs "[]"] assms(2-4) by simp
  then have "dget (card_of run age) ''checkpoint_refs'' = text_list (take 8 rs)"
    by (simp add: card_of_def Let_def c run_refs_def text_list_def)
  moreover have "load_workrun i st' = run"
    using load_update [OF assms(5) [unfolded checkpoint_workrun_def], of i] by simp
  ultimately show ?thesis using c s by (simp add: run_state_def)
qed

section \<open>Recovery and pruning\<close>

lemma collect_runs_source:
  "row \<in> set (collect_runs n rows fs) \<Longrightarrow> row \<in> set rows \<or> (\<exists>f \<in> set fs. row = file_content f \<and> dget row ''schema'' = PStr WORKRUN_SCHEMA)"
proof (induction n rows fs rule: collect_runs.induct)
  case (2 n rows f fs)
  let ?rows = "if dget (file_content f) ''schema'' = PStr WORKRUN_SCHEMA then rows @ [file_content f] else rows"
  show ?case
  proof (cases "n \<le> int (length ?rows)")
    case True
    with 2(2) have "row \<in> set ?rows" by (simp only: collect_runs.simps Let_def if_True)
    then show ?thesis by (auto split: if_splits)
  next
    case False
    with 2(2) have "row \<in> set (collect_runs n ?rows fs)" by (simp only: collect_runs.simps Let_def if_False)
    from 2(1) [OF refl refl False this] show ?thesis by (auto split: if_splits)
  qed
qed simp

lemma set_newest_files: "set (newest_files fs) = set fs"
  by (simp add: newest_files_def)

lemma listed_run:
  assumes "row \<in> set (list_workruns n st)"
  obtains f where "f \<in> set (rd_files st)" "row = file_content f" "dget row ''schema'' = PStr WORKRUN_SCHEMA"
  using collect_runs_source [of row n "[]" "newest_files (rd_files st)"] assms by (auto simp: list_workruns_def set_newest_files)

text \<open>Nothing shows that the process behind the run is alive.\<close>

definition no_sign_of_life :: "py_datetime \<Rightarrow> int \<Rightarrow> pydict \<Rightarrow> bool" where
  "no_sign_of_life now s run \<longleftrightarrow>
     (case heartbeat_of run of None \<Rightarrow> True | Some t \<Rightarrow> (\<exists>us. dt_diff now t = Inr us \<and> max 1 s \<le> whole_seconds us))"

lemma recovery_card_Some:
  assumes "recovery_card now s run = Inr (Some ca)"
  shows "(\<exists>age. ca = card_of run age) \<and> run_state run \<notin> set TERMINAL_STATES \<and>
    (run_state run \<in> set RUNNING_STATES \<longrightarrow> no_sign_of_life now s run)"
proof -
  have live: "run_state run \<notin> set TERMINAL_STATES" using assms by (auto simp: recovery_card_def)
  with assms obtain b age where a: "run_age now s run = Inr (b, age)"
    and c: "(if run_state run \<in> set RUNNING_STATES \<and> \<not> b then None else Some (card_of run age)) = Some ca"
    by (cases "run_age now s run") (auto simp: recovery_card_def)
  have m: "max 1 (if s = 0 then 1 else s) = max 1 s" by simp
  have "b \<Longrightarrow> no_sign_of_life now s run"
    using a unfolding run_age_def m by (cases "dt_diff now (the (heartbeat_of run))") (auto simp: no_sign_of_life_def Let_def split: option.splits)
  with live c show ?thesis by (auto split: if_splits)
qed

lemma collect_cards_Inr:
  "collect_cards now s n cards runs = Inr cards' \<Longrightarrow>
     (\<forall>ca \<in> set cards'. ca \<in> set cards \<or> (\<exists>run \<in> set runs. recovery_card now s run = Inr (Some ca))) \<and>
     (int (length cards) < max 1 n \<longrightarrow> int (length cards') \<le> max 1 n)"
proof (induction runs arbitrary: cards)
  case (Cons run runs)
  then obtain c where c: "recovery_card now s run = Inr c" by (cases "recovery_card now s run") simp_all
  let ?cards = "case c of Some ca \<Rightarrow> cards @ [ca] | None \<Rightarrow> cards"
  show ?case
  proof (cases "n \<le> int (length ?cards)")
    case True
    with Cons.prems c have "cards' = ?cards" by (simp add: Let_def)
    with c show ?thesis by (cases c) auto
  next
    case False
    with Cons.prems c have "collect_cards now s n ?cards runs = Inr cards'" by (simp add: Let_def)
    from Cons.IH [OF this] c False show ?thesis by (cases c) auto
  qed
qed simp

lemma card_state: "dget (card_of run age) ''state'' = PStr (if run_state run \<in> set RUNNING_STATES then ''reclaimable'' else run_state run)"
  by (simp add: card_of_def Let_def)

text \<open>
  Recovery offers dead runs only: every card describes a recorded run that has not ended, and a run that calls itself
  queued, claimed, running or checkpointed only when it shows no sign of life within the given time; no card
  shows such a state or an end state, and there are at most as many cards as asked for, or one.
\<close>

theorem recovery_offers_only_dead_runs:
  assumes "list_recovery_candidates now s n st = Inr cards"
  shows "(\<forall>ca \<in> set cards. \<exists>f \<in> set (rd_files st). \<exists>age. ca = card_of (file_content f) age \<and>
       dget (file_content f) ''schema'' = PStr WORKRUN_SCHEMA \<and> run_state (file_content f) \<notin> set TERMINAL_STATES \<and>
       (run_state (file_content f) \<in> set RUNNING_STATES \<longrightarrow> no_sign_of_life now s (file_content f)) \<and>
       dget ca ''state'' \<notin> PStr ` set (RUNNING_STATES @ TERMINAL_STATES)) \<and>
    int (length cards) \<le> max 1 n"
proof -
  note c = collect_cards_Inr [OF assms [unfolded list_recovery_candidates_def]]
  have "\<exists>f \<in> set (rd_files st). \<exists>age. ca = card_of (file_content f) age \<and>
       dget (file_content f) ''schema'' = PStr WORKRUN_SCHEMA \<and> run_state (file_content f) \<notin> set TERMINAL_STATES \<and>
       (run_state (file_content f) \<in> set RUNNING_STATES \<longrightarrow> no_sign_of_life now s (file_content f)) \<and>
       dget ca ''state'' \<notin> PStr ` set (RUNNING_STATES @ TERMINAL_STATES)" if ca: "ca \<in> set cards" for ca
  proof -
    obtain run where run: "run \<in> set (list_workruns (max (n * 10) 50) st)" "recovery_card now s run = Inr (Some ca)"
      using bspec [OF conjunct1 [OF c] ca] by auto
    note r = recovery_card_Some [OF run(2)]
    obtain f where f: "f \<in> set (rd_files st)" "run = file_content f" "dget run ''schema'' = PStr WORKRUN_SCHEMA"
      by (rule listed_run [OF run(1)])
    have "''reclaimable'' \<notin> set (RUNNING_STATES @ TERMINAL_STATES)" by code_simp
    with r have "dget ca ''state'' \<notin> PStr ` set (RUNNING_STATES @ TERMINAL_STATES)"
      by (auto simp: card_state simp del: set_append split: if_splits) (auto simp: card_state)
    with r f show ?thesis by blast
  qed
  with c show ?thesis by auto
qed

lemma collect_cards_Inl:
  "collect_cards now s n cards runs = Inl e \<Longrightarrow> \<exists>run \<in> set runs. recovery_card now s run = Inl e"
proof (induction runs arbitrary: cards)
  case (Cons run runs)
  then show ?case by (cases "recovery_card now s run") (auto simp: Let_def split: if_splits)
qed simp

text \<open>
  Listing candidates fails in one case only, a comparison of an aware with a naive time: then some run that has not
  ended has a last sign of life of the other sort than the clock, and the whole listing raises.
\<close>

theorem recovery_fails_only_on_mixed_times:
  assumes "list_recovery_candidates now s n st = Inl e"
  shows "e = TypeError \<and> (\<exists>f \<in> set (rd_files st). \<exists>t. heartbeat_of (file_content f) = Some t \<and>
    (dt_offset t = None \<longleftrightarrow> dt_offset now \<noteq> None) \<and> run_state (file_content f) \<notin> set TERMINAL_STATES)"
proof -
  obtain run where run: "run \<in> set (list_workruns (max (n * 10) 50) st)" "recovery_card now s run = Inl e"
    using collect_cards_Inl [OF assms [unfolded list_recovery_candidates_def]] by blast
  then have live: "run_state run \<notin> set TERMINAL_STATES" by (auto simp: recovery_card_def)
  with run(2) have age: "run_age now s run = Inl e" by (cases "run_age now s run") (auto simp: recovery_card_def)
  then obtain t where t: "heartbeat_of run = Some t" by (auto simp: run_age_def split: option.splits)
  with age have "dt_diff now t = Inl e" by (cases "dt_diff now t") (auto simp: run_age_def)
  then have "e = TypeError" "dt_offset t = None \<longleftrightarrow> dt_offset now \<noteq> None" by (auto simp: dt_diff_def split: option.splits)
  moreover obtain f where f: "f \<in> set (rd_files st)" "run = file_content f" by (rule listed_run [OF run(1)])
  ultimately show ?thesis using t live unfolding f(2) by (intro conjI bexI [OF _ f(1)]) auto
qed

definition ended :: "run_file \<Rightarrow> bool" where
  "ended f \<longleftrightarrow> run_state (file_content f) \<in> set TERMINAL_STATES"

lemma newest_files_sorted: "sorted_wrt (\<lambda>f g. rf_mtime g \<le> rf_mtime f) (newest_files fs)"
  unfolding newest_files_def sorted_wrt_rev using sorted_sort_key [of rf_mtime "rev fs"] by (simp add: sorted_map)

lemma take_drop_order:
  "sorted_wrt P xs \<Longrightarrow> x \<in> set (take k xs) \<Longrightarrow> y \<in> set (drop k xs) \<Longrightarrow> P x y"
  using sorted_wrt_append [of P "take k xs" "drop k xs"] by simp

text \<open>
  Pruning removes ended runs beyond the number to keep, oldest first, and nothing else: files of other runs stay as they
  are, what it reports is what it saw and removed, when the system deletes what it is asked to exactly the number to keep is
  left, and no removed file is newer than one that it could have removed and kept.
\<close>

theorem pruning_keeps_live_and_newest:
  assumes "prune_completed_workruns deletable k st = (d, st')" and "distinct (map rf_name (rd_files st))"
  shows "filter (\<lambda>f. \<not> ended f) (rd_files st') = filter (\<lambda>f. \<not> ended f) (rd_files st) \<and>
    set (rd_files st') \<subseteq> set (rd_files st) \<and>
    dget d ''completed_seen'' = PInt (int (length (filter ended (rd_files st)))) \<and>
    dget d ''removed'' = PInt (int (length (rd_files st)) - int (length (rd_files st'))) \<and>
    ((\<forall>f \<in> set (rd_files st). deletable (rf_name f)) \<longrightarrow>
       length (filter ended (rd_files st')) = min (nat k) (length (filter ended (rd_files st)))) \<and>
    (\<forall>f \<in> set (rd_files st) - set (rd_files st'). \<forall>g \<in> set (rd_files st'). ended g \<and> deletable (rf_name g) \<longrightarrow> rf_mtime f \<le> rf_mtime g)"
proof -
  define closed where "closed = filter ended (newest_files (rd_files st))"
  define gone where "gone = filter (\<lambda>f. deletable (rf_name f)) (drop (nat k) closed)"
  have d: "d = [(''schema'', PStr ''hermes_proactive.workrun_prune.v1''), (''completed_seen'', PInt (int (length closed))),
        (''removed'', PInt (int (length gone)))]"
    and files: "rd_files st' = filter (\<lambda>f. rf_name f \<notin> rf_name ` set gone) (rd_files st)"
    using assms(1) by (auto simp: prune_completed_workruns_def Let_def closed_def gone_def ended_def [abs_def])
  have sub: "set gone \<subseteq> set closed" "set closed = {f \<in> set (rd_files st). ended f}"
    by (auto simp: gone_def closed_def set_newest_files dest: in_set_dropD)
  have dis: "distinct (rd_files st)" "distinct closed"
    using assms(2) by (auto simp: distinct_map closed_def newest_files_def)
  have len: "length closed = length (filter ended (rd_files st))"
    using sub(2) dis by (metis distinct_card distinct_filter set_filter)
  have kept: "rf_name f \<notin> rf_name ` set gone \<longleftrightarrow> f \<notin> set gone" if "f \<in> set (rd_files st)" for f
    using assms(2) sub that by (auto simp: distinct_map inj_on_def)
  have f': "rd_files st' = filter (\<lambda>f. f \<notin> set gone) (rd_files st)"
    unfolding files by (rule filter_cong [OF refl kept])
  have live: "filter (\<lambda>f. \<not> ended f) (rd_files st') = filter (\<lambda>f. \<not> ended f) (rd_files st)"
    unfolding f' filter_filter by (rule filter_cong [OF refl]) (use sub in auto)
  have "set (rd_files st) - set (rd_files st') = set gone" unfolding f' using sub by auto
  moreover have "distinct gone" using dis(2) by (simp add: gone_def)
  ultimately have n: "int (length gone) = int (length (rd_files st)) - int (length (rd_files st'))"
    using dis(1) f' by (metis (no_types, lifting) card_Diff_subset distinct_card distinct_filter filter_is_subset finite_set length_filter_le of_nat_diff)
  have all: "length (filter ended (rd_files st')) = min (nat k) (length closed)" if "\<forall>f \<in> set (rd_files st). deletable (rf_name f)"
  proof -
    have "gone = drop (nat k) closed" unfolding gone_def by (rule filter_True) (use that sub in \<open>auto dest: in_set_dropD\<close>)
    moreover have "set closed = set (take (nat k) closed) \<union> set (drop (nat k) closed)" by (metis append_take_drop_id set_append)
    moreover have "set (take (nat k) closed) \<inter> set (drop (nat k) closed) = {}" by (rule set_take_disj_set_drop_if_distinct [OF dis(2)]) simp
    ultimately have "set (filter ended (rd_files st')) = set (take (nat k) closed)" unfolding f' using sub(2) by auto
    then show ?thesis
      using dis f' by (metis distinct_card distinct_filter distinct_take length_take min.commute)
  qed
  have "sorted_wrt (\<lambda>f g. rf_mtime g \<le> rf_mtime f) closed" unfolding closed_def by (rule sorted_wrt_filter [OF newest_files_sorted])
  then have order: "rf_mtime f \<le> rf_mtime g" if "f \<in> set gone" "g \<in> set (rd_files st')" "ended g" "deletable (rf_name g)" for f g
  proof (rule take_drop_order)
    show "f \<in> set (drop (nat k) closed)" using that(1) by (simp add: gone_def)
    have "g \<in> set closed" "g \<notin> set gone" using that sub(2) f' by auto
    moreover from this that(4) have "g \<notin> set (drop (nat k) closed)" by (simp add: gone_def)
    moreover have "set closed = set (take (nat k) closed) \<union> set (drop (nat k) closed)" by (metis append_take_drop_id set_append)
    ultimately show "g \<in> set (take (nat k) closed)" by blast
  qed
  show ?thesis
    using live all order n \<open>set (rd_files st) - set (rd_files st') = set gone\<close> unfolding d len [symmetric]
    by (auto simp: f')
qed

section \<open>Witnesses\<close>

definition sample_clock :: run_clock where
  "sample_clock = \<lparr>rc_iso = (\<lambda>n. ''t''), rc_mtime = int\<rparr>"

definition sample_dir :: "pydict \<Rightarrow> run_dir" where
  "sample_dir run = \<lparr>rd_files = [\<lparr>rf_name = path_for ''r'', rf_mtime = 1, rf_content = Some run\<rparr>], rd_ticks = 0\<rparr>"

lemma sample_load: "load_workrun ''r'' (sample_dir run) = run"
  by (simp add: load_workrun_def sample_dir_def file_content_def)

lemma add_refs_list: "dget run k = PList vs \<or> dget run k = PNone \<Longrightarrow> \<exists>run'. add_refs k new run = Inr run'"
  by (auto simp: add_refs_def)

lemma sample_update:
  "\<exists>run' st'. update_workrun clock ''r'' (update_args_default\<lparr>ua_finished_at := ''t''\<rparr>) (sample_dir [(''state'', PStr ''running'')]) = Inr (run', st') \<and> run' \<noteq> []"
  by (simp add: update_workrun_def sample_load update_args_default_def set_state_def stamp_if_def state_in_def add_refs_def
      set_text_def given_or_now_def dset_def)

lemma workrun_directory_is_a_map_witness:
  "\<exists>run st1 run' st2.
     start_workrun sample_clock ((start_args_default ''cron'' ''s'' ''o'')\<lparr>sa_run_id := ''r''\<rparr>) (sample_dir [(''state'', PStr ''running'')]) = (run, st1) \<and>
     update_workrun sample_clock ''r'' (update_args_default\<lparr>ua_finished_at := ''t''\<rparr>) (sample_dir [(''state'', PStr ''running'')]) = Inr (run', st2) \<and>
     load_workrun ''r'' st1 = run \<and> load_workrun ''r'' st2 = run' \<and> run' \<noteq> []"
proof -
  obtain run st1 where s: "start_workrun sample_clock ((start_args_default ''cron'' ''s'' ''o'')\<lparr>sa_run_id := ''r''\<rparr>)
      (sample_dir [(''state'', PStr ''running'')]) = (run, st1)" by fastforce
  then have "run_id_of run = ''r''"
    by (auto simp: start_workrun_def Let_def case_prod_unfold run_id_of_def start_run_id start_args_default_def default_to_def)
  moreover obtain run' st2 where u: "update_workrun sample_clock ''r'' (update_args_default\<lparr>ua_finished_at := ''t''\<rparr>)
      (sample_dir [(''state'', PStr ''running'')]) = Inr (run', st2)" and ne: "run' \<noteq> []"
    using sample_update by blast
  ultimately show ?thesis
    using workrun_directory_is_a_map [OF s u, of "''r''"] s ne by simp
qed

lemma long_sources_share_a_file_witness:
  "\<exists>run st1 run' st2.
     start_workrun sample_clock (start_args_default ''cron'' (replicate 96 CHR ''a'') ''x'') (sample_dir []) = (run, st1) \<and>
     start_workrun sample_clock (start_args_default ''cron'' (replicate 96 CHR ''a'') ''y'') st1 = (run', st2) \<and>
     load_workrun (run_id_of run) st2 = run' \<and> dget run ''objective'' \<noteq> dget run' ''objective''"
proof -
  let ?src = "replicate 96 CHR ''a''"
  obtain run st1 where s1: "start_workrun sample_clock (start_args_default ''cron'' ?src ''x'') (sample_dir []) = (run, st1)" by fastforce
  obtain run' st2 where s2: "start_workrun sample_clock (start_args_default ''cron'' ?src ''y'') st1 = (run', st2)" by fastforce
  have "compact_text 320 (PStr ''x'') = ''x''" "compact_text 320 (PStr ''y'') = ''y''" by code_simp+
  then have "dget run ''objective'' = PStr ''x''" "dget run' ''objective'' = PStr ''y''"
    using s1 s2 by (auto simp: start_workrun_def Let_def case_prod_unfold start_record_def start_args_default_def)
  moreover have "''cron'' \<in> set SOURCE_KINDS" "is_alnum CHR ''a''" by (simp add: SOURCE_KINDS_def, code_simp)
  ultimately show ?thesis
    using long_sources_share_a_file [OF s1 s2] s1 s2 by (simp add: start_args_default_def)
qed

definition sixteen_refs :: "string list" where
  "sixteen_refs = map (\<lambda>i. [char_of (97 + i)]) [0..<16]"

lemma full_runs_lose_new_checkpoints_witness:
  "\<exists>run st'. checkpoint_workrun sample_clock ''r'' ''new'' [] (sample_dir [(''checkpoint_refs'', text_list sixteen_refs)]) = Inr (run, st') \<and>
     ''new'' \<notin> set sixteen_refs \<and> dget run ''checkpoint_refs'' = text_list sixteen_refs"
proof -
  let ?st = "sample_dir [(''checkpoint_refs'', text_list sixteen_refs)]"
  have c: "length sixteen_refs = 16" "distinct sixteen_refs" "list_all clean_ref sixteen_refs" "''new'' \<notin> set sixteen_refs" by code_simp+
  have "\<exists>run st'. checkpoint_workrun sample_clock ''r'' ''new'' [] ?st = Inr (run, st')"
    by (simp add: checkpoint_workrun_def update_workrun_def sample_load update_args_default_def set_state_def stamp_if_def state_in_def
      add_refs_def text_list_def set_text_def given_or_now_def case_prod_unfold Let_def)
  then obtain run st' where s: "checkpoint_workrun sample_clock ''r'' ''new'' [] ?st = Inr (run, st')" by blast
  have "dget (load_workrun ''r'' ?st) ''checkpoint_refs'' = text_list sixteen_refs" by (simp add: sample_load)
  from full_runs_lose_new_checkpoints [OF this c(1-3) s] s c(4) show ?thesis by blast
qed

definition sample_now :: py_datetime where
  "sample_now = \<lparr>dt_local = 63870000000000000, dt_offset = Some 0\<rparr>"

lemma recovery_offers_only_dead_runs_witness:
  "\<exists>cards. list_recovery_candidates sample_now 600 5
      (sample_dir [(''schema'', PStr WORKRUN_SCHEMA), (''state'', PStr ''running'')]) = Inr cards \<and> cards \<noteq> [] \<and> int (length cards) \<le> 5"
proof -
  let ?run = "[(''schema'', PStr WORKRUN_SCHEMA), (''state'', PStr ''running'')]"
  have "recovery_card sample_now 600 ?run = Inr (Some (card_of ?run 0))" 
    by (simp add: recovery_card_def run_age_def heartbeat_of_def parse_iso_def run_state_def TERMINAL_STATES_def)
  then have "list_recovery_candidates sample_now 600 5 (sample_dir ?run) = Inr [card_of ?run 0]"
    by (simp add: list_recovery_candidates_def list_workruns_def sample_dir_def newest_files_def file_content_def)
  with recovery_offers_only_dead_runs [OF this] show ?thesis by simp
qed

lemma recovery_fails_only_on_mixed_times_witness:
  "\<exists>e. list_recovery_candidates sample_now 600 5
      (sample_dir [(''schema'', PStr WORKRUN_SCHEMA), (''state'', PStr ''running''), (''heartbeat_at'', PStr ''2024-01-01T10:00:00'')]) = Inl e \<and>
    e = TypeError"
proof -
  let ?run = "[(''schema'', PStr WORKRUN_SCHEMA), (''state'', PStr ''running''), (''heartbeat_at'', PStr ''2024-01-01T10:00:00'')]"
  have p: "parse_iso (PStr ''2024-01-01T10:00:00'') = Some \<lparr>dt_local = 63839700000000000, dt_offset = None\<rparr>" by code_simp
  have "recovery_card sample_now 600 ?run = Inl TypeError"
    by (simp add: recovery_card_def run_age_def heartbeat_of_def p run_state_def TERMINAL_STATES_def dt_diff_def sample_now_def)
  then have "list_recovery_candidates sample_now 600 5 (sample_dir ?run) = Inl TypeError"
    by (simp add: list_recovery_candidates_def list_workruns_def sample_dir_def newest_files_def file_content_def)
  with recovery_fails_only_on_mixed_times [OF this] show ?thesis by blast
qed

definition ended_files :: run_dir where
  "ended_files = \<lparr>rd_files = [\<lparr>rf_name = ''a'', rf_mtime = 1, rf_content = Some [(''state'', PStr ''completed'')]\<rparr>,
     \<lparr>rf_name = ''b'', rf_mtime = 2, rf_content = Some [(''state'', PStr ''completed'')]\<rparr>], rd_ticks = 0\<rparr>"

lemma pruning_keeps_live_and_newest_witness:
  "\<exists>d st'. prune_completed_workruns (\<lambda>n. True) 1 ended_files = (d, st') \<and> length (filter ended (rd_files st')) = 1 \<and>
     dget d ''completed_seen'' = PInt 2"
proof -
  obtain d st' where p: "prune_completed_workruns (\<lambda>n. True) 1 ended_files = (d, st')" by fastforce
  have "distinct (map rf_name (rd_files ended_files))" by (simp add: ended_files_def)
  note pruning_keeps_live_and_newest [OF p this]
  moreover have "length (filter ended (rd_files ended_files)) = 2"
    by (simp add: ended_files_def ended_def run_state_def file_content_def TERMINAL_STATES_def)
  ultimately show ?thesis using p by simp
qed

end
