(* ===== verification/EvolverSignal.thy ===== *)
theory EvolverSignal
  imports PyHash
begin

text \<open>
  \<open>hermes_proactive/evolver_signal.py\<close>: how a health or output signal of the external evolver is classified, and what
  of it may be shown. Reading the signal file is an outcome of the system, an argument (\<open>signal_file\<close>).
\<close>

section \<open>What may be shown\<close>

definition MAX_METADATA_KEYS :: nat where "MAX_METADATA_KEYS = 64"
definition MAX_STDOUT_CHARS :: nat where "MAX_STDOUT_CHARS = 16 * 1024"
definition MAX_HASH_CHARS :: nat where "MAX_HASH_CHARS = 64 * 1024"
definition MAX_SIGNAL_BYTES :: int where "MAX_SIGNAL_BYTES = 256 * 1024"

definition RAW_TEXT_KEYS :: "string list" where
  "RAW_TEXT_KEYS =
    [''stdout'', ''stderr'', ''output'', ''log'', ''logs'', ''message'', ''messages'', ''details'', ''payload'', ''raw'', ''traceback'']"

definition PUBLIC_SCALAR_KEYS :: "string list" where
  "PUBLIC_SCALAR_KEYS = [''running'', ''pid'', ''exit_code'', ''version'', ''status'', ''uptime_seconds'']"

definition private_key :: "string \<Rightarrow> bool" where
  "private_key k \<longleftrightarrow> list_ex (\<lambda>w. py_contains w (py_lower k))
    [''secret'', ''token'', ''password'', ''apikey'', ''api_key'', ''api-key'', ''credential'', ''private'', ''prompt'', ''content'',
     ''text'', ''error'', ''exception'', ''trace'']"

definition hash_text :: "string \<Rightarrow> string" where
  "hash_text s = take 16 (sha256_hex (take MAX_HASH_CHARS s))"

text \<open>The ellipsis is one character outside ASCII; here it stands in its UTF-8 encoding.\<close>

definition safe_str :: "nat \<Rightarrow> string \<Rightarrow> string" where
  "safe_str n s =
     (let t = py_strip s in if length t \<le> n then t else take (n - 1) t @ [CHR 0xE2, CHR 0x80, CHR 0xA6])"

fun public_value :: "pyval \<Rightarrow> pyval" where
  "public_value (PStr s) =
     (if s = [] then PStr []
      else PDict [(''redacted'', PBool True), (''hash'', PStr (hash_text s)), (''length'', PInt (int (length s)))])"
| "public_value (PList vs) = PDict [(''type'', PStr ''list''), (''count'', PInt (int (length vs)))]"
| "public_value (PDict d) = PDict [(''type'', PStr ''object''), (''key_count'', PInt (int (length d)))]"
| "public_value v = v"

definition redact :: "string \<Rightarrow> pyval \<Rightarrow> pydict \<Rightarrow> pydict" where
  "redact k v public =
     (let public = dset (k @ ''_redacted'') (PBool True) public in
      case v of
        PStr s \<Rightarrow>
          (if s = [] then public
           else dset (k @ ''_length'') (PInt (int (length s))) (dset (k @ ''_hash'') (PStr (hash_text s)) public))
      | _ \<Rightarrow> public)"

definition metadata_item :: "string \<Rightarrow> pyval \<Rightarrow> pydict \<Rightarrow> pydict" where
  "metadata_item k v public =
     (if py_lower k \<in> set RAW_TEXT_KEYS \<or> private_key k then redact k v public
      else if py_lower k \<in> set PUBLIC_SCALAR_KEYS then dset k (public_value v) public
      else
        (let public = redact k v public in
         case v of
           PList _ \<Rightarrow> dset (k @ ''_shape'') (public_value v) public
         | PDict _ \<Rightarrow> dset (k @ ''_shape'') (public_value v) public
         | _ \<Rightarrow> public))"

definition public_metadata :: "pydict \<Rightarrow> pydict" where
  "public_metadata raw =
     (let public = fold (\<lambda>(k, v). metadata_item k v) (take MAX_METADATA_KEYS raw) [] in
      if MAX_METADATA_KEYS < length raw
      then dset ''metadata_key_count'' (PInt (int (length raw))) (dset ''metadata_truncated'' (PBool True) public)
      else public)"

section \<open>Classification\<close>

fun first_text :: "pydict \<Rightarrow> string list \<Rightarrow> string" where
  "first_text health [] = []"
| "first_text health (k # ks) =
     (case dget health k of PStr s \<Rightarrow> if s \<noteq> [] then s else first_text health ks | _ \<Rightarrow> first_text health ks)"

definition raw_output_text :: "pydict \<Rightarrow> string \<Rightarrow> string" where
  "raw_output_text health out =
     take MAX_STDOUT_CHARS
       (if out \<noteq> [] then out
        else first_text health [''stdout'', ''stderr'', ''output'', ''log'', ''logs'', ''message'', ''messages'', ''payload'', ''raw'', ''traceback''])"

definition is_word_char :: "char \<Rightarrow> bool" where
  "is_word_char c \<longleftrightarrow> is_alnum c \<or> c = CHR ''_''"

text \<open>The pattern \<^verbatim>\<open>\bsessions_spawn\s*\(\<close> somewhere in a text; \<open>inside\<close> says that a word character precedes.\<close>

fun spawn_call :: "bool \<Rightarrow> string \<Rightarrow> bool" where
  "spawn_call inside [] = False"
| "spawn_call inside (c # cs) =
     (\<not> inside \<and> py_startswith (c # cs) ''sessions_spawn'' \<and>
        (case dropWhile is_space (drop 14 (c # cs)) of [] \<Rightarrow> False | d # _ \<Rightarrow> d = CHR ''('') \<or>
      spawn_call (is_word_char c) cs)"

definition extract_directive_kinds :: "string \<Rightarrow> string list" where
  "extract_directive_kinds out = (if spawn_call False (py_lower out) then [''sessions_spawn''] else [])"

record evolver_decision =
  ev_status :: string
  ev_reason_code :: string
  ev_running :: "bool option"
  ev_actionable :: bool
  ev_directive_count :: nat
  ev_directive_kinds :: "string list"
  ev_safe_summary :: string
  ev_source_ref :: string
  ev_public_metadata :: pydict
  ev_raw_output_present :: bool
  ev_malformed :: bool

definition optional_bool :: "bool option \<Rightarrow> pyval" where
  "optional_bool b = (case b of Some x \<Rightarrow> PBool x | None \<Rightarrow> PNone)"

definition evolver_public_dict :: "evolver_decision \<Rightarrow> pydict" where
  "evolver_public_dict e =
    [(''schema'', PStr ''hermes_proactive.evolver_signal.v1''),
     (''source'', PStr ''evomap_evolver''),
     (''status'', PStr (ev_status e)),
     (''reason_code'', PStr (ev_reason_code e)),
     (''running'', optional_bool (ev_running e)),
     (''actionable'', PBool (ev_actionable e)),
     (''directive_count'', PInt (int (ev_directive_count e))),
     (''directive_kinds'', PList (map PStr (ev_directive_kinds e))),
     (''directive_execution'', PStr ''inert_data_only''),
     (''safe_summary'', PStr (ev_safe_summary e)),
     (''source_ref'', PStr (ev_source_ref e)),
     (''public_metadata'', PDict (ev_public_metadata e)),
     (''raw_output_present'', PBool (ev_raw_output_present e)),
     (''malformed'', PBool (ev_malformed e))]"

definition evolver_decision_default :: "string \<Rightarrow> string \<Rightarrow> evolver_decision" where
  "evolver_decision_default status reason =
    \<lparr>ev_status = status, ev_reason_code = reason, ev_running = None, ev_actionable = False, ev_directive_count = 0,
     ev_directive_kinds = [], ev_safe_summary = [], ev_source_ref = [], ev_public_metadata = [], ev_raw_output_present = False,
     ev_malformed = False\<rparr>"

definition running_of :: "pydict \<Rightarrow> bool option" where
  "running_of health = (case dget health ''running'' of PBool b \<Rightarrow> Some b | _ \<Rightarrow> None)"

definition shown_metadata :: "pydict \<Rightarrow> string \<Rightarrow> pydict" where
  "shown_metadata health out =
     (if out \<noteq> [] then dset ''stdout_hash'' (PStr (hash_text out)) (dset ''stdout_redacted'' (PBool True) (public_metadata health))
      else public_metadata health)"

definition classify_evolver_signal :: "pydict \<Rightarrow> string \<Rightarrow> string \<Rightarrow> bool \<Rightarrow> string \<Rightarrow> evolver_decision" where
  "classify_evolver_signal health out source_ref malformed malformed_reason =
     (let raw = raw_output_text health out;
          kinds = extract_directive_kinds raw;
          running = running_of health;
          public = shown_metadata health raw in
      if malformed then
        (let reason = safe_str 120 malformed_reason in
         (evolver_decision_default ''malformed'' ''EVOLVER_SIGNAL_MALFORMED'')
           \<lparr>ev_actionable := True, ev_safe_summary := ''Evolver signal is malformed and needs inspection.'',
            ev_source_ref := source_ref,
            ev_public_metadata := [(''malformed_reason'',
              PStr (if reason = [] then ''Evolver signal could not be parsed.'' else reason))],
            ev_raw_output_present := (raw \<noteq> []), ev_malformed := True\<rparr>)
      else if kinds \<noteq> [] then
        (evolver_decision_default ''actionable'' ''EVOLVER_DIRECTIVE_OBSERVED'')
          \<lparr>ev_running := running, ev_actionable := True, ev_directive_count := length kinds, ev_directive_kinds := kinds,
           ev_safe_summary := ''Evolver emitted host-runtime directive text; Hermes must decide whether to interpret it.'',
           ev_source_ref := source_ref, ev_public_metadata := public, ev_raw_output_present := True\<rparr>
      else if running = Some False then
        (evolver_decision_default ''stopped'' ''EVOLVER_NOT_RUNNING'')
          \<lparr>ev_running := Some False, ev_actionable := True,
           ev_safe_summary := ''Evolver health reports stopped or unavailable state.'',
           ev_source_ref := source_ref, ev_public_metadata := public, ev_raw_output_present := (raw \<noteq> [])\<rparr>
      else if running = Some True then
        (evolver_decision_default ''healthy'' ''EVOLVER_HEALTHY'')
          \<lparr>ev_running := Some True,
           ev_safe_summary := ''Evolver health reports running state with no actionable directive.'',
           ev_source_ref := source_ref, ev_public_metadata := public, ev_raw_output_present := (raw \<noteq> [])\<rparr>
      else if health \<noteq> [] then
        (evolver_decision_default ''observed'' ''EVOLVER_SIGNAL_OBSERVED'')
          \<lparr>ev_safe_summary := ''Evolver signal was observed without an actionable directive.'',
           ev_source_ref := source_ref, ev_public_metadata := public, ev_raw_output_present := (raw \<noteq> [])\<rparr>
      else
        (evolver_decision_default ''missing'' ''EVOLVER_SIGNAL_MISSING'')
          \<lparr>ev_safe_summary := ''No Evolver signal was provided.'', ev_source_ref := source_ref\<rparr>)"

text \<open>
  What the system answers when the file is read: it is absent, cannot be opened (with the name of the error), is not a
  regular file, has a size, fails to be read, or has bytes (their number) whose text parses or does not.
\<close>

datatype signal_file =
    FileAbsent
  | FileUnopenable string
  | FileIrregular
  | FileUnreadable int string
  | FileUnparsed int int string
  | FileParsed int int pyval

definition load_evolver_signal_file :: "string \<Rightarrow> signal_file \<Rightarrow> evolver_decision" where
  "load_evolver_signal_file path f =
     (let malformed = classify_evolver_signal [] [] path True in
      case f of
        FileAbsent \<Rightarrow> malformed ''signal_file_missing''
      | FileUnopenable e \<Rightarrow> malformed e
      | FileIrregular \<Rightarrow> malformed ''signal_file_not_regular''
      | FileUnreadable bytes e \<Rightarrow> if MAX_SIGNAL_BYTES < bytes then malformed ''signal_file_too_large'' else malformed e
      | FileUnparsed bytes n e \<Rightarrow>
          if MAX_SIGNAL_BYTES < bytes \<or> MAX_SIGNAL_BYTES < n then malformed ''signal_file_too_large'' else malformed e
      | FileParsed bytes n v \<Rightarrow>
          if MAX_SIGNAL_BYTES < bytes \<or> MAX_SIGNAL_BYTES < n then malformed ''signal_file_too_large''
          else (case v of PDict d \<Rightarrow> classify_evolver_signal d [] path False [] | _ \<Rightarrow> malformed ''signal_file_not_object''))"

section \<open>Redaction\<close>

text \<open>
  What a value may contain: no text but a digest, numbers and truth values as they are, and for an object or a list
  its size.
\<close>

definition summary_text :: "pyval \<Rightarrow> bool" where
  "summary_text v \<longleftrightarrow> (case v of PStr s \<Rightarrow> s \<in> range hash_text \<or> s \<in> {''list'', ''object''} | PInt i \<Rightarrow> True | PBool b \<Rightarrow> True | _ \<Rightarrow> False)"

fun redacted :: "pyval \<Rightarrow> bool" where
  "redacted (PStr s) \<longleftrightarrow> s = [] \<or> s \<in> range hash_text"
| "redacted (PList vs) \<longleftrightarrow> False"
| "redacted (PDict d) \<longleftrightarrow> list_all (summary_text \<circ> snd) d"
| "redacted v \<longleftrightarrow> True"

lemma redacted_public_value: "redacted (public_value v)"
  by (cases v) (simp_all add: summary_text_def)

lemma values_dset:
  "list_all (P \<circ> snd) d \<Longrightarrow> P v \<Longrightarrow> list_all (P \<circ> snd) (dset k v d)"
  unfolding dset_def by (induction d) auto

lemma redacted_redact: "list_all (redacted \<circ> snd) public \<Longrightarrow> list_all (redacted \<circ> snd) (redact k v public)"
  by (cases v) (simp_all add: redact_def Let_def values_dset)

lemma redacted_item: "list_all (redacted \<circ> snd) public \<Longrightarrow> list_all (redacted \<circ> snd) (metadata_item k v public)"
  by (cases v) (simp_all add: metadata_item_def Let_def values_dset redacted_redact redacted_public_value del: public_value.simps)

lemma redacted_public_metadata: "list_all (redacted \<circ> snd) (public_metadata raw)"
proof -
  have "list_all (redacted \<circ> snd) public \<Longrightarrow> list_all (redacted \<circ> snd) (fold (\<lambda>(k, v). metadata_item k v) kvs public)" for kvs public
    by (induction kvs arbitrary: public) (auto simp: redacted_item)
  from this [of "[]"] show ?thesis by (simp add: public_metadata_def values_dset Let_def)
qed

lemma redact_summary: "public_value v = public_value w \<Longrightarrow> redact k v public = redact k w public"
  by (cases v; cases w) (auto simp: redact_def Let_def split: if_splits)

lemma metadata_item_summary: "public_value v = public_value w \<Longrightarrow> metadata_item k v public = metadata_item k w public"
  using redact_summary [of v w] by (cases v; cases w) (auto simp: metadata_item_def Let_def split: if_splits)

lemma metadata_fold_summary:
  "map (\<lambda>(k, v). (k, public_value v)) raw = map (\<lambda>(k, v). (k, public_value v)) raw' \<Longrightarrow>
     fold (\<lambda>(k, v). metadata_item k v) raw public = fold (\<lambda>(k, v). metadata_item k v) raw' public"
proof (induction raw arbitrary: raw' public)
  case (Cons kv raw)
  obtain k v where kv: "kv = (k, v)" by fastforce
  with Cons.prems obtain w raw2 where raw': "raw' = (k, w) # raw2" "public_value v = public_value w"
    "map (\<lambda>(k, v). (k, public_value v)) raw = map (\<lambda>(k, v). (k, public_value v)) raw2"
    by (cases raw') auto
  show ?case unfolding kv raw'(1) using Cons.IH [OF raw'(3)] metadata_item_summary [OF raw'(2)] by simp
qed simp

text \<open>
  The metadata of a signal shows summaries only: two signals whose values have the same summaries (digest and length of
  a text, size of a list or an object) under the same keys show the same, and no text in it is anything but
  a digest.
\<close>

theorem evolver_metadata_shows_summaries_only:
  assumes "map (\<lambda>(k, v). (k, public_value v)) health = map (\<lambda>(k, v). (k, public_value v)) health'"
  shows "public_metadata health = public_metadata health' \<and>
    list_all (redacted \<circ> snd) (ev_public_metadata (classify_evolver_signal health out source_ref False why))"
proof
  have "length health = length health'" using assms by (metis length_map)
  moreover have "map (\<lambda>(k, v). (k, public_value v)) (take MAX_METADATA_KEYS health) =
      map (\<lambda>(k, v). (k, public_value v)) (take MAX_METADATA_KEYS health')"
    using arg_cong [OF assms, of "take MAX_METADATA_KEYS"] by (simp only: take_map)
  note metadata_fold_summary [OF this, of "[]"]
  ultimately show "public_metadata health = public_metadata health'"
    unfolding public_metadata_def Let_def by (simp only:)
  have "list_all (redacted \<circ> snd) (shown_metadata health raw)" for raw
    by (simp add: shown_metadata_def values_dset redacted_public_metadata)
  then show "list_all (redacted \<circ> snd) (ev_public_metadata (classify_evolver_signal health out source_ref False why))"
    by (simp add: classify_evolver_signal_def Let_def evolver_decision_default_def)
qed

lemma evolver_metadata_shows_summaries_only_witness:
  "public_metadata [(''notes'', PList [PStr ''a''])] = public_metadata [(''notes'', PList [PStr ''b''])] \<and>
   list_all (redacted \<circ> snd) (ev_public_metadata (classify_evolver_signal [(''notes'', PList [PStr ''a''])] [] [] False []))"
  by (rule evolver_metadata_shows_summaries_only) simp

section \<open>Classification\<close>

text \<open>
  What calls for attention: a signal is actionable exactly when it is malformed, contains a directive or says that the
  evolver is not running, in that order of precedence; a directive is counted and named but never
  more than shown, and healthy means running without a directive.
\<close>

theorem evolver_actionable_iff:
  "(let e = classify_evolver_signal health out source_ref malformed why;
        directive = spawn_call False (py_lower (raw_output_text health out)) in
    (ev_actionable e \<longleftrightarrow> malformed \<or> directive \<or> running_of health = Some False) \<and>
    (ev_status e = ''malformed'' \<longleftrightarrow> malformed) \<and> (ev_malformed e \<longleftrightarrow> malformed) \<and>
    (ev_status e = ''actionable'' \<longleftrightarrow> \<not> malformed \<and> directive) \<and>
    ev_directive_count e = (if \<not> malformed \<and> directive then 1 else 0) \<and>
    (ev_status e = ''stopped'' \<longleftrightarrow> \<not> malformed \<and> \<not> directive \<and> running_of health = Some False) \<and>
    (ev_status e = ''healthy'' \<longleftrightarrow> \<not> malformed \<and> \<not> directive \<and> running_of health = Some True) \<and>
    ev_status e \<in> {''malformed'', ''actionable'', ''stopped'', ''healthy'', ''observed'', ''missing''})"
  by (simp add: classify_evolver_signal_def Let_def extract_directive_kinds_def evolver_decision_default_def)

lemma evolver_file_malformed:
  "ev_malformed (load_evolver_signal_file path f) \<longleftrightarrow>
     \<not> (\<exists>bytes n d. f = FileParsed bytes n (PDict d) \<and> bytes \<le> MAX_SIGNAL_BYTES \<and> n \<le> MAX_SIGNAL_BYTES)"
proof -
  have m: "ev_malformed (classify_evolver_signal h out r b w) \<longleftrightarrow> b" for h out r b w
    by (simp add: classify_evolver_signal_def Let_def evolver_decision_default_def)
  show ?thesis by (auto simp: load_evolver_signal_file_def Let_def m split: signal_file.split pyval.split)
qed

end
