(* ===== verification/ProactivePulse.thy ===== *)
theory ProactivePulse
  imports ProactiveStore WorkRun EvolverSignal
begin

text \<open>
  \<open>hermes_proactive\<close>: the surfacing policy (\<open>surfacing.py\<close>), the heartbeat wake lane (\<open>heartbeat_wake.py\<close>) and the pulse
  producer (\<open>pulse_producer.py\<close>) with the projection of a pulse into the proactive store through
  \<open>sdk/proactive.py\<close>. What the system answers (the listing of the handoff directories, the evolver's
  signal file, the directory of work runs and the time) is an argument.
\<close>

section \<open>Surfacing\<close>

record surfacing_context =
  sc_material_change :: bool
  sc_duplicate :: bool
  sc_open_asks :: int
  sc_quiet_hours :: bool
  sc_allow_notify :: bool

definition surfacing_context_default :: surfacing_context where
  "surfacing_context_default =
    \<lparr>sc_material_change = True, sc_duplicate = False, sc_open_asks = 0, sc_quiet_hours = False, sc_allow_notify = True\<rparr>"

datatype surfacing_decision = Silent_Noop | Store_Background | Queue_Internal_Task | Notify_User | Needs_Approval | Surfacing_Blocked

fun surfacing_decision_value :: "surfacing_decision \<Rightarrow> string" where
  "surfacing_decision_value Silent_Noop = ''silent_noop''"
| "surfacing_decision_value Store_Background = ''store_background''"
| "surfacing_decision_value Queue_Internal_Task = ''queue_internal_task''"
| "surfacing_decision_value Notify_User = ''notify_user''"
| "surfacing_decision_value Needs_Approval = ''needs_approval''"
| "surfacing_decision_value Surfacing_Blocked = ''blocked''"

definition render_proactive_message :: "pydict \<Rightarrow> pydict result" where
  "render_proactive_message item =
     map_sum id (\<lambda>ids.
       [(''title'', PStr (text_or (norm_text (dget item ''title'')) ''Proactive item'')),
        (''why_now'', PStr (text_or (norm_text (dget item ''summary'')) ''A proactive runtime signal exists.'')),
        (''evidence_basis'', PStr (text_or (py_join '', '' (map py_str ids)) ''structured proactive evidence'')),
        (''requested_next_action'', PStr (text_or (norm_text (dget item ''intended_next_action'')) ''none''))])
     (iter_or_empty (dget item ''evidence_ids''))"

text \<open>Decision, reason, whether to notify, whether approval is needed.\<close>

definition surfacing_choice :: "pydict \<Rightarrow> surfacing_context \<Rightarrow> surfacing_decision \<times> string \<times> bool \<times> bool" where
  "surfacing_choice item ctx =
     (if norm_text (dget item ''kind'') = ''heartbeat_ok'' then (Silent_Noop, ''HEARTBEAT_ONLY'', False, False)
      else if sc_duplicate ctx \<and> \<not> sc_material_change ctx then (Store_Background, ''DUPLICATE_NO_MATERIAL_CHANGE'', False, False)
      else if 0 < sc_open_asks ctx then (Queue_Internal_Task, ''OPEN_ASK_EXISTS'', False, False)
      else if \<not> sc_allow_notify ctx \<or> sc_quiet_hours ctx then (Queue_Internal_Task, ''BLOCKED_BY_POLICY'', False, False)
      else if norm_text (dget item ''intended_next_action'') \<in> {''ask_permission'', ''open_work_item'', ''request_input''}
      then (Needs_Approval, ''APPROVAL_REQUIRED'', True, True)
      else (Notify_User, ''READY_TO_NOTIFY'', True, False))"

definition decide_proactive_surfacing :: "pydict \<Rightarrow> surfacing_context option \<Rightarrow> pydict result" where
  "decide_proactive_surfacing item context =
     (let ctx = (case context of Some c \<Rightarrow> c | None \<Rightarrow> surfacing_context_default) in
      map_sum id (\<lambda>message.
        (let (decision, reason, notify, approval) = surfacing_choice item ctx in
         [(''schema'', PStr ''hermes_proactive.surfacing.v1''),
          (''decision'', PStr (surfacing_decision_value decision)),
          (''reason_code'', PStr reason),
          (''should_notify'', PBool notify),
          (''requires_approval'', PBool approval),
          (''message'', PDict message)]))
      (render_proactive_message item))"

section \<open>The wake lane\<close>

datatype wake_decision = Wake_Ready | Wake_Coalesced | Wake_Retry_Later | Wake_Stale_Cancelled | Wake_Disabled

fun wake_decision_value :: "wake_decision \<Rightarrow> string" where
  "wake_decision_value Wake_Ready = ''ready''"
| "wake_decision_value Wake_Coalesced = ''coalesced''"
| "wake_decision_value Wake_Retry_Later = ''retry_later''"
| "wake_decision_value Wake_Stale_Cancelled = ''stale_cancelled''"
| "wake_decision_value Wake_Disabled = ''disabled''"

datatype wake_reason = Ready_To_Run | Duplicate_In_Flight | Main_Lane_Busy | Stale_Running_Lock | Heartbeat_Disabled

fun wake_reason_value :: "wake_reason \<Rightarrow> string" where
  "wake_reason_value Ready_To_Run = ''READY_TO_RUN''"
| "wake_reason_value Duplicate_In_Flight = ''DUPLICATE_IN_FLIGHT''"
| "wake_reason_value Main_Lane_Busy = ''MAIN_LANE_BUSY''"
| "wake_reason_value Stale_Running_Lock = ''STALE_RUNNING_LOCK''"
| "wake_reason_value Heartbeat_Disabled = ''HEARTBEAT_DISABLED''"

record wake_request =
  wr_target :: string
  wr_source :: string
  wr_run_id :: "string option"
  wr_key :: "string option"
  wr_requested_at :: "py_datetime option"

definition wake_text :: "string option \<Rightarrow> string" where
  "wake_text s = (case s of Some t \<Rightarrow> t | None \<Rightarrow> [])"

definition effective_wake_key :: "py_datetime \<Rightarrow> wake_request \<Rightarrow> string" where
  "effective_wake_key now r =
     (if wake_text (wr_key r) \<noteq> [] then wake_text (wr_key r)
      else if wake_text (wr_run_id r) \<noteq> [] then wr_source r @ '':'' @ wr_target r @ '':'' @ wake_text (wr_run_id r)
      else wr_source r @ '':'' @ wr_target r @ '':'' @ minute_stamp (case wr_requested_at r of Some t \<Rightarrow> t | None \<Rightarrow> now))"

record wake_state =
  ws_enabled :: bool
  ws_main_lane_busy :: bool
  ws_running_key :: "string option"
  ws_running_since :: "py_datetime option"
  ws_stale_after :: int

definition wake_state_default :: wake_state where
  "wake_state_default =
    \<lparr>ws_enabled = True, ws_main_lane_busy = False, ws_running_key = None, ws_running_since = None, ws_stale_after = 900\<rparr>"

record wake_result =
  wl_decision :: wake_decision
  wl_reason :: wake_reason
  wl_key :: string
  wl_target :: string
  wl_retry_after :: "int option"
  wl_stale_lock_cancelled :: bool

definition wake_result_to_dict :: "wake_result \<Rightarrow> pydict" where
  "wake_result_to_dict w =
    [(''schema'', PStr ''hermes_proactive.heartbeat_wake.v1''),
     (''decision'', PStr (wake_decision_value (wl_decision w))),
     (''reason_code'', PStr (wake_reason_value (wl_reason w))),
     (''idempotency_key'', PStr (wl_key w)),
     (''target'', PStr (wl_target w)),
     (''provider_calls'', PInt 0),
     (''transcript_writes'', PInt 0),
     (''delivery_requested'', PBool False),
     (''retry_after_seconds'', case wl_retry_after w of Some n \<Rightarrow> PInt n | None \<Rightarrow> PNone),
     (''stale_lock_cancelled'', PBool (wl_stale_lock_cancelled w))]"

text \<open>\<open>timedelta(seconds=n)\<close> in microseconds; more than 999999999 days overflow.\<close>

definition timedelta_seconds :: "int \<Rightarrow> int result" where
  "timedelta_seconds n = (if 999999999 < \<bar>n div 86400\<bar> then Inl OverflowError else Inr (n * 1000000))"

definition stale_lock :: "py_datetime \<Rightarrow> wake_state \<Rightarrow> bool result" where
  "stale_lock now s =
     (if wake_text (ws_running_key s) = [] then Inr False
      else case ws_running_since s of
        None \<Rightarrow> Inr False
      | Some t \<Rightarrow>
          (case dt_diff now t of
             Inl e \<Rightarrow> Inl e
           | Inr us \<Rightarrow> map_sum id (\<lambda>n. n < us) (timedelta_seconds (max (ws_stale_after s) 1))))"

definition classify_heartbeat_wake :: "py_datetime \<Rightarrow> wake_request \<Rightarrow> wake_state \<Rightarrow> wake_result result" where
  "classify_heartbeat_wake now request s =
     (let key = effective_wake_key now request;
          result = (\<lambda>decision reason retry cancelled.
            \<lparr>wl_decision = decision, wl_reason = reason, wl_key = key, wl_target = wr_target request,
             wl_retry_after = retry, wl_stale_lock_cancelled = cancelled\<rparr>) in
      if \<not> ws_enabled s then Inr (result Wake_Disabled Heartbeat_Disabled None False)
      else if ws_running_key s = Some key then Inr (result Wake_Coalesced Duplicate_In_Flight None False)
      else map_sum id (\<lambda>stale.
        if stale then result Wake_Stale_Cancelled Stale_Running_Lock None True
        else if ws_main_lane_busy s then result Wake_Retry_Later Main_Lane_Busy (Some 30) False
        else result Wake_Ready Ready_To_Run None False) (stale_lock now s))"

section \<open>Producing a pulse\<close>

definition stable_key :: "pydict \<Rightarrow> string" where
  "stable_key payload = take 24 (sha256_hex (json_dumps (PDict payload)))"

text \<open>The entries \<open>*.json\<close> of a directory (is each a file?), and whether listing fails after them; \<open>None\<close> is no directory.\<close>

type_synonym listing = "(bool list \<times> bool) option"

fun count_files :: "nat \<Rightarrow> nat \<Rightarrow> bool list \<Rightarrow> bool \<Rightarrow> nat \<times> bool" where
  "count_files n limit [] fails = (n, fails)"
| "count_files n limit (is_file # rest) fails =
     (if \<not> is_file then count_files n limit rest fails
      else if limit \<le> n + 1 then (n + 1, True)
      else count_files (n + 1) limit rest fails)"

definition bounded_json_count :: "listing \<Rightarrow> nat \<times> bool" where
  "bounded_json_count d = (case d of None \<Rightarrow> (0, False) | Some (items, fails) \<Rightarrow> count_files 0 1000 items fails)"

record handoff_dirs =
  hd_inbox :: listing
  hd_outbox :: listing
  hd_archive :: listing

definition runtime_handoff_summary :: "handoff_dirs \<Rightarrow> pydict" where
  "runtime_handoff_summary h =
     (let (inbox, inbox_cut) = bounded_json_count (hd_inbox h);
          (outbox, outbox_cut) = bounded_json_count (hd_outbox h);
          (archive, archive_cut) = bounded_json_count (hd_archive h) in
      [(''inbox_count'', PInt (int inbox)),
       (''outbox_count'', PInt (int outbox)),
       (''archive_count'', PInt (int archive)),
       (''inbox_truncated'', PBool inbox_cut),
       (''outbox_truncated'', PBool outbox_cut),
       (''archive_truncated'', PBool archive_cut)])"

definition pulse_candidate ::
  "string \<Rightarrow> string \<Rightarrow> string \<Rightarrow> string \<Rightarrow> string \<Rightarrow> string list \<Rightarrow> string \<Rightarrow> string \<Rightarrow> pydict \<Rightarrow> pydict" where
  "pulse_candidate source kind title summary priority evidence_ids intended_next_action source_ref metadata =
     (let payload =
        [(''source'', PStr source), (''kind'', PStr kind), (''title'', PStr title), (''summary'', PStr summary),
         (''priority'', PStr priority), (''evidence_ids'', PList (map PStr evidence_ids)),
         (''intended_next_action'', PStr intended_next_action), (''source_ref'', PStr source_ref),
         (''metadata'', PDict metadata)] in
      payload @ [(''candidate_key'', PStr (stable_key payload)), (''material_change'', PBool True)])"

definition or_text :: "pydict \<Rightarrow> string \<Rightarrow> string \<Rightarrow> string" where
  "or_text d k s = py_str (py_or (dget d k) (PStr s))"

definition evolver_task :: "string \<Rightarrow> evolver_decision \<Rightarrow> pydict" where
  "evolver_task path e =
     (let signal = evolver_public_dict e in
      pulse_candidate ''evolver'' ''evolver_candidate'' ''Evolver signal needs attention''
        (or_text signal ''safe_summary'' ''Evolver emitted an actionable signal.'')
        (if dget signal ''status'' \<in> {PStr ''stopped'', PStr ''malformed''} then ''high'' else ''normal'')
        [''evolver:'' @ or_text signal ''reason_code'' ''signal'']
        ''ask_permission'' path [(''evolver_signal'', PDict signal)])"

definition inbox_task :: "pydict \<Rightarrow> int \<Rightarrow> pydict" where
  "inbox_task handoff n =
     pulse_candidate ''runtime_handoff'' ''inbox_item'' ''Runtime inbox has pending items''
       (show_int n @ '' runtime handoff item(s) are pending.'') ''normal'' [''runtime_handoff:inbox''] ''inform_user'' []
       [(''handoff_summary'', PDict handoff)]"

definition recovery_task :: "pydict \<Rightarrow> pydict" where
  "recovery_task ca =
     (let run_id = or_text ca ''run_id'' []; risk = or_text ca ''side_effect_risk'' ''medium'';
          risky = risk \<in> {''medium'', ''high''} in
      pulse_candidate ''workrun_recovery'' (if risky then ''blocked'' else ''follow_up'')
        ''Interrupted runtime work needs recovery review''
        (or_text ca ''source_kind'' ''process'' @ '' work '' @ [CHR 0x27] @ or_text ca ''source_id'' run_id @ [CHR 0x27] @
         '' is '' @ or_text ca ''state'' ''reclaimable'' @ ''; next safe action: '' @
         or_text ca ''next_safe_action'' ''inspect checkpoint before retry'' @ ''.'')
        (if risky then ''high'' else ''normal'')
        (if run_id \<noteq> [] then [''workrun:'' @ run_id] else [''workrun:recovery'']) ''ask_permission'' run_id
        [(''workrun_recovery'', PDict ca)])"

definition heartbeat_candidate :: pydict where
  "heartbeat_candidate =
     pulse_candidate ''heartbeat'' ''heartbeat_ok'' ''Heartbeat healthy'' ''No actionable proactive item found.'' ''low''
       [''heartbeat:ok''] ''none'' [] []"

text \<open>The world a pulse looks at, and the scope it is for.\<close>

record pulse_world =
  pw_home :: string
  pw_started :: string
  pw_finished :: string
  pw_now :: py_datetime
  pw_handoff :: handoff_dirs
  pw_evolver :: "(string \<times> signal_file) option"
  pw_runs :: run_dir

definition pulse_tasks :: "pulse_world \<Rightarrow> int \<Rightarrow> pydict list \<Rightarrow> pydict list" where
  "pulse_tasks w stale_inbox_threshold cards =
     (let handoff = runtime_handoff_summary (pw_handoff w);
          n = (case dget handoff ''inbox_count'' of PInt i \<Rightarrow> i | _ \<Rightarrow> 0) in
      (case pw_evolver w of
         None \<Rightarrow> []
       | Some (path, f) \<Rightarrow>
           (let e = load_evolver_signal_file path f in if ev_actionable e then [evolver_task path e] else [])) @
      (if max 1 (if stale_inbox_threshold = 0 then 1 else stale_inbox_threshold) \<le> n then [inbox_task handoff n] else []) @
      map recovery_task cards)"

definition pulse_output :: "pulse_world \<Rightarrow> scope \<Rightarrow> pydict list \<Rightarrow> nat \<Rightarrow> pydict" where
  "pulse_output w sc tasks recovery_count =
     (let events = (if tasks = [] then [heartbeat_candidate] else []) in
      [(''schema'', PStr ''hermes_proactive.pulse_producer.v1''),
       (''run_id'', PStr (''pulse_'' @ stable_key [(''started'', PStr (pw_started w)), (''home'', PStr (pw_home w))])),
       (''started_at'', PStr (pw_started w)),
       (''finished_at'', PStr (pw_finished w)),
       (''status'', PStr (if tasks = [] then ''no_op'' else ''actionable'')),
       (''events'', PList (map PDict events)),
       (''tasks'', PList (map PDict tasks)),
       (''candidate_count'', PInt (int (length events) + int (length tasks))),
       (''outbox_count'', PInt 0),
       (''no_op'', PBool (tasks = [])),
       (''provider_calls'', PInt 0),
       (''prompt_tokens'', PInt 0),
       (''completion_tokens'', PInt 0),
       (''delivery_requested'', PBool False),
       (''principal_scope_key'', PStr (fst sc)),
       (''workspace_scope_key'', PStr (fst (snd sc))),
       (''workstream_scope_key'', PStr (snd (snd sc))),
       (''workrun_recovery_count'', PInt (int recovery_count))])"

definition produce_pulse :: "pulse_world \<Rightarrow> scope \<Rightarrow> int \<Rightarrow> pydict result" where
  "produce_pulse w sc stale_inbox_threshold =
     map_sum id (\<lambda>cards. pulse_output w sc (pulse_tasks w stale_inbox_threshold cards) (length cards))
       (list_recovery_candidates (pw_now w) 600 5 (pw_runs w))"

section \<open>Waking and projecting\<close>

definition pulse_wake_key :: "pydict \<Rightarrow> string result" where
  "pulse_wake_key out =
     map_sum id (\<lambda>tasks. ''pulse:'' @ stable_key
        [(''principal_scope_key'', PStr (or_text out ''principal_scope_key'' [])),
         (''workspace_scope_key'', PStr (or_text out ''workspace_scope_key'' [])),
         (''workstream_scope_key'', PStr (or_text out ''workstream_scope_key'' [])),
         (''task_keys'', PList (map (\<lambda>item. PStr (or_text item ''candidate_key'' [])) (mappings tasks)))])
       (iter_or_empty (dget out ''tasks''))"

definition wake_base :: "string \<Rightarrow> string \<Rightarrow> nat \<Rightarrow> pydict" where
  "wake_base key target task_count =
    [(''schema'', PStr ''hermes_proactive.pulse_wake.v1''),
     (''heartbeat_schema'', PStr ''hermes_proactive.heartbeat_wake.v1''),
     (''idempotency_key'', PStr key),
     (''target'', PStr target),
     (''task_count'', PInt (int task_count)),
     (''provider_calls'', PInt 0),
     (''transcript_writes'', PInt 0)]"

definition no_wake :: "string \<Rightarrow> string \<Rightarrow> pydict" where
  "no_wake decision reason =
    [(''decision'', PStr decision), (''reason_code'', PStr reason), (''delivery_requested'', PBool False),
     (''retry_after_seconds'', PNone), (''stale_lock_cancelled'', PBool False)]"

definition classify_pulse_wake :: "py_datetime \<Rightarrow> pydict \<Rightarrow> bool \<Rightarrow> string \<Rightarrow> wake_state option \<Rightarrow> pydict result" where
  "classify_pulse_wake now out create_outbox target state =
     (case iter_or_empty (dget out ''tasks'') of
        Inl e \<Rightarrow> Inl e
      | Inr tasks \<Rightarrow>
          (case pulse_wake_key out of
             Inl e \<Rightarrow> Inl e
           | Inr key \<Rightarrow>
               (let task_count = length (mappings tasks); base = wake_base key target task_count in
                if truthy (dget out ''no_op'') \<or> task_count = 0 then Inr (dupdate base (no_wake ''no_op'' ''NO_ACTIONABLE_ITEM''))
                else if \<not> create_outbox then Inr (dupdate base (no_wake ''observed'' ''WAKE_NOT_REQUESTED''))
                else
                  map_sum id (\<lambda>w.
                    (let result = wake_result_to_dict w;
                         requested = wl_decision w \<in> {Wake_Ready, Wake_Stale_Cancelled} in
                     dupdate (dupdate base result)
                       [(''schema'', PStr ''hermes_proactive.pulse_wake.v1''),
                        (''heartbeat_schema'', PStr ''hermes_proactive.heartbeat_wake.v1''),
                        (''task_count'', PInt (int task_count)),
                        (''delivery_requested'', PBool requested),
                        (''provider_calls'', PInt 0),
                        (''transcript_writes'', PInt 0)]))
                  (classify_heartbeat_wake now
                     \<lparr>wr_target = target, wr_source = ''pulse'', wr_run_id = Some (or_text out ''run_id'' []), wr_key = Some key,
                      wr_requested_at = None\<rparr>
                     (case state of Some s \<Rightarrow> s | None \<Rightarrow> wake_state_default)))))"

text \<open>The arguments of \<open>project_event\<close> for one item, converted in the order of the call.\<close>

definition pulse_event_args :: "pydict \<Rightarrow> pydict \<Rightarrow> event_args result" where
  "pulse_event_args out item =
     (case iter_or_empty (dget item ''evidence_ids'') of
        Inl e \<Rightarrow> Inl e
      | Inr ids \<Rightarrow>
          map_sum id (\<lambda>counts.
            (event_args_default (or_text item ''source'' ''pulse'') (or_text item ''kind'' ''follow_up'')
               (or_text out ''principal_scope_key'' []))
              \<lparr>ea_workspace := or_text out ''workspace_scope_key'' [],
               ea_workstream := or_text out ''workstream_scope_key'' [],
               ea_title := or_text item ''title'' [],
               ea_summary := or_text item ''summary'' [],
               ea_priority := or_text item ''priority'' ''normal'',
               ea_evidence_ids := map py_str ids,
               ea_source_ref := or_text item ''source_ref'' [],
               ea_key := or_text item ''candidate_key'' [],
               ea_action := or_text item ''intended_next_action'' ''none'',
               ea_metadata := dupdate (as_mapping (dget item ''metadata''))
                 [(''provider_calls'', PInt (counts ! 0)), (''prompt_tokens'', PInt (counts ! 1)),
                  (''completion_tokens'', PInt (counts ! 2))],
               ea_trace_id := or_text out ''run_id'' []\<rparr>)
          (map_result (\<lambda>k. py_int (py_or (dget out k) (PInt 0))) [''provider_calls'', ''prompt_tokens'', ''completion_tokens'']))"

text \<open>
  The loop over the items: what it has written, the deliveries it has created, and the store. An exception ends it;
  what was written before stays.
\<close>

fun project_items ::
  "clock \<Rightarrow> pydict \<Rightarrow> pydict \<Rightarrow> string \<Rightarrow> pydict list \<Rightarrow> pydict list \<times> pydict list \<Rightarrow> proactive_store \<Rightarrow>
     (pydict list \<times> pydict list) result \<times> proactive_store" where
  "project_items clock out wake target [] acc st = (Inr acc, st)"
| "project_items clock out wake target (item # items) (written, outbox) st =
     (case pulse_event_args out item of
        Inl e \<Rightarrow> (Inl e, st)
      | Inr a \<Rightarrow>
          (case upsert_proactive_event clock a st of
             Inl e \<Rightarrow> (Inl e, st)
           | Inr (event, st) \<Rightarrow>
               (if truthy (dget wake ''delivery_requested'')
                then
                  (case create_proactive_outbox clock (py_str (dget event ''event_id'')) target
                          (py_str (dget wake ''idempotency_key'') @ '':'' @ py_str (dget event ''event_id''))
                          (or_text event ''intended_next_action'' ''none'') st of
                     Inl e \<Rightarrow> (Inl e, st)
                   | Inr (row, st) \<Rightarrow> project_items clock out wake target items (written @ [event], outbox @ [row]) st)
                else project_items clock out wake target items (written @ [event], outbox) st)))"

definition pulse_items :: "pydict \<Rightarrow> pydict list result" where
  "pulse_items out =
     (case iter_or_empty (dget out ''events'') of
        Inl e \<Rightarrow> Inl e
      | Inr events \<Rightarrow> map_sum id (\<lambda>tasks. mappings (events @ tasks)) (iter_or_empty (dget out ''tasks'')))"

definition project_pulse_output ::
  "clock \<Rightarrow> py_datetime \<Rightarrow> pydict \<Rightarrow> bool \<Rightarrow> string \<Rightarrow> wake_state option \<Rightarrow> proactive_store \<Rightarrow> pydict result \<times> proactive_store" where
  "project_pulse_output clock now out create_outbox target state st =
     (case classify_pulse_wake now out create_outbox target state of
        Inl e \<Rightarrow> (Inl e, st)
      | Inr wake \<Rightarrow>
          (case pulse_items out of
             Inl e \<Rightarrow> (Inl e, st)
           | Inr items \<Rightarrow>
               (let (r, st) = project_items clock out wake target items ([], []) st in
                (map_sum id (\<lambda>(written, outbox).
                   [(''schema'', PStr ''hermes_proactive.pulse_projection.v1''),
                    (''written_count'', PInt (int (length written))),
                    (''outbox_count'', PInt (int (length outbox))),
                    (''wake'', PDict wake),
                    (''written'', PList (map PDict written)),
                    (''outbox'', PList (map PDict outbox))]) r, st))))"

section \<open>Surfacing\<close>

text \<open>
  When the user is interrupted: an item notifies exactly when it is not a heartbeat, not an unchanged duplicate, no ask
  is open and the policy allows it outside quiet hours; only then may approval be required, and the
  decision is one of the two that reach the user exactly when it notifies.
\<close>

theorem surfacing_notifies_iff:
  assumes "decide_proactive_surfacing item (Some c) = Inr d"
  shows "(let notify = norm_text (dget item ''kind'') \<noteq> ''heartbeat_ok'' \<and> \<not> (sc_duplicate c \<and> \<not> sc_material_change c) \<and>
        sc_open_asks c \<le> 0 \<and> sc_allow_notify c \<and> \<not> sc_quiet_hours c;
      approval = norm_text (dget item ''intended_next_action'') \<in> {''ask_permission'', ''open_work_item'', ''request_input''} in
    dget d ''should_notify'' = PBool notify \<and> dget d ''requires_approval'' = PBool (notify \<and> approval) \<and>
    (dget d ''decision'' = PStr ''notify_user'' \<longleftrightarrow> notify \<and> \<not> approval) \<and>
    (dget d ''decision'' = PStr ''needs_approval'' \<longleftrightarrow> notify \<and> approval) \<and>
    dget d ''decision'' \<noteq> PStr ''blocked'')"
proof -
  define K where "K \<longleftrightarrow> norm_text (dget item ''kind'') = ''heartbeat_ok''"
  define A where "A \<longleftrightarrow> norm_text (dget item ''intended_next_action'') \<in> {''ask_permission'', ''open_work_item'', ''request_input''}"
  obtain dec reason n a where ch: "surfacing_choice item c = (dec, reason, n, a)" by (cases "surfacing_choice item c") auto
  obtain message where "render_proactive_message item = Inr message"
    using assms by (cases "render_proactive_message item") (simp_all add: decide_proactive_surfacing_def)
  then have d: "d = [(''schema'', PStr ''hermes_proactive.surfacing.v1''), (''decision'', PStr (surfacing_decision_value dec)),
      (''reason_code'', PStr reason), (''should_notify'', PBool n), (''requires_approval'', PBool a), (''message'', PDict message)]"
    using assms by (simp add: decide_proactive_surfacing_def ch)
  have "n \<longleftrightarrow> \<not> K \<and> \<not> (sc_duplicate c \<and> \<not> sc_material_change c) \<and> sc_open_asks c \<le> 0 \<and> sc_allow_notify c \<and> \<not> sc_quiet_hours c"
    "a \<longleftrightarrow> n \<and> A" "dec = Notify_User \<longleftrightarrow> n \<and> \<not> A" "dec = Needs_Approval \<longleftrightarrow> n \<and> A" "dec \<noteq> Surfacing_Blocked"
    using ch unfolding surfacing_choice_def K_def [symmetric] A_def [symmetric] by (auto split: if_splits)
  moreover have "PStr (surfacing_decision_value dec) = PStr ''notify_user'' \<longleftrightarrow> dec = Notify_User"
    "PStr (surfacing_decision_value dec) = PStr ''needs_approval'' \<longleftrightarrow> dec = Needs_Approval"
    "PStr (surfacing_decision_value dec) = PStr ''blocked'' \<longleftrightarrow> dec = Surfacing_Blocked"
    by (cases dec; simp)+
  ultimately show ?thesis
    unfolding K_def [symmetric] A_def [symmetric] Let_def d by (simp only: dget_Cons, simp)
qed

section \<open>The wake gate\<close>

definition pulse_tasks_of :: "pydict \<Rightarrow> pydict list" where
  "pulse_tasks_of out = (case iter_or_empty (dget out ''tasks'') of Inr vs \<Rightarrow> mappings vs | Inl e \<Rightarrow> [])"

definition wake_allowed :: "py_datetime \<Rightarrow> pydict \<Rightarrow> bool \<Rightarrow> wake_state \<Rightarrow> bool" where
  "wake_allowed now out create_outbox s \<longleftrightarrow>
     create_outbox \<and> \<not> truthy (dget out ''no_op'') \<and> pulse_tasks_of out \<noteq> [] \<and> ws_enabled s \<and>
     (\<forall>key. pulse_wake_key out = Inr key \<longrightarrow> ws_running_key s \<noteq> Some key) \<and>
     (stale_lock now s = Inr True \<or> \<not> ws_main_lane_busy s)"

lemma pulse_key_nonempty: "pulse_wake_key out = Inr key \<Longrightarrow> key \<noteq> []"
  by (cases "iter_or_empty (dget out ''tasks'')") (auto simp: pulse_wake_key_def)

lemma wake_decision_requested:
  assumes "classify_heartbeat_wake now r s = Inr w" and "wr_key r = Some key" and "key \<noteq> []"
  shows "wl_key w = key" "wl_target w = wr_target r"
    "wl_decision w \<in> {Wake_Ready, Wake_Stale_Cancelled} \<longleftrightarrow>
       ws_enabled s \<and> ws_running_key s \<noteq> Some key \<and> (stale_lock now s = Inr True \<or> \<not> ws_main_lane_busy s)"
proof -
  have key: "effective_wake_key now r = key" using assms(2,3) by (simp add: effective_wake_key_def wake_text_def)
  show "wl_key w = key" "wl_target w = wr_target r"
    using assms(1) unfolding classify_heartbeat_wake_def key Let_def
    by (cases "stale_lock now s"; auto split: if_splits)+
  show "wl_decision w \<in> {Wake_Ready, Wake_Stale_Cancelled} \<longleftrightarrow>
       ws_enabled s \<and> ws_running_key s \<noteq> Some key \<and> (stale_lock now s = Inr True \<or> \<not> ws_main_lane_busy s)"
    using assms(1) unfolding classify_heartbeat_wake_def key Let_def
    by (cases "stale_lock now s") (auto split: if_splits)
qed

lemma pulse_wake_cases:
  assumes "classify_pulse_wake now out create_outbox target state = Inr wake"
  obtains tasks key where "iter_or_empty (dget out ''tasks'') = Inr tasks" "pulse_wake_key out = Inr key"
    "dget wake ''idempotency_key'' = PStr key" "dget wake ''task_count'' = PInt (int (length (mappings tasks)))"
    "dget wake ''delivery_requested'' = PBool (wake_allowed now out create_outbox (case state of Some s \<Rightarrow> s | None \<Rightarrow> wake_state_default))"
proof -
  let ?s = "case state of Some s \<Rightarrow> s | None \<Rightarrow> wake_state_default"
  obtain tasks where t: "iter_or_empty (dget out ''tasks'') = Inr tasks"
    using assms by (auto simp: classify_pulse_wake_def split: sum.splits)
  obtain key where k: "pulse_wake_key out = Inr key" using t by (simp add: pulse_wake_key_def)
  note d = assms [unfolded classify_pulse_wake_def t k sum.case Let_def]
  have p: "pulse_tasks_of out = mappings tasks" by (simp add: pulse_tasks_of_def t)
  show ?thesis
  proof (cases "truthy (dget out ''no_op'') \<or> length (mappings tasks) = 0 \<or> \<not> create_outbox")
    case True
    then have "\<not> wake_allowed now out create_outbox ?s" by (auto simp: wake_allowed_def p)
    with True d t k show ?thesis
      by (intro that) (auto simp: wake_base_def no_wake_def split: if_splits)
  next
    case False
    let ?r = "\<lparr>wr_target = target, wr_source = ''pulse'', wr_run_id = Some (or_text out ''run_id'' []), wr_key = Some key, wr_requested_at = None\<rparr>"
    have no: "\<not> (truthy (dget out ''no_op'') \<or> length (mappings tasks) = 0)" "\<not> \<not> create_outbox" using False by blast+
    note d' = d [unfolded if_not_P [OF no(1)] if_not_P [OF no(2)]]
    then obtain w where w: "classify_heartbeat_wake now ?r ?s = Inr w" by (cases "classify_heartbeat_wake now ?r ?s") simp_all
    note wd = wake_decision_requested [OF w _ pulse_key_nonempty [OF k], simplified]
    have a: "wake_allowed now out create_outbox ?s \<longleftrightarrow> wl_decision w \<in> {Wake_Ready, Wake_Stale_Cancelled}"
      using wd(3) no p k by (auto simp: wake_allowed_def)
    show ?thesis
      using d' unfolding w
      by (intro that [OF t k]) (auto simp: a wake_base_def wake_result_to_dict_def wd(1) dget_dupdate_frame)
  qed
qed

text \<open>
  C27: a delivery is requested exactly when it was asked for, the pulse has a task, the lane is enabled, no run with the same key
  holds it, and it is free or its lock is stale: a stale lock lets the pulse through although the lane is busy, and
  a lock under the pulse's own key keeps it out however old it is.
\<close>

theorem pulse_wake_gate:
  assumes "classify_pulse_wake now out create_outbox target (Some s) = Inr wake"
  shows "dget wake ''delivery_requested'' = PBool (wake_allowed now out create_outbox s) \<and>
    (\<forall>key. pulse_wake_key out = Inr key \<and> ws_running_key s = Some key \<longrightarrow> dget wake ''delivery_requested'' = PBool False)"
proof (cases rule: pulse_wake_cases [OF assms])
  case (1 tasks key)
  then show ?thesis by (auto simp: wake_allowed_def)
qed

section \<open>Projection\<close>

lemma upsert_event_frame:
  assumes "upsert_proactive_event clock a st = Inr (d, st')"
  shows "px_outbox st' = px_outbox st" "px_ledger st' = px_ledger st"
  using assms
  by (auto simp: upsert_proactive_event_def read_clock_def Let_def append_transition_fields update_event_fields
      dest!: event_payload_Inr split: option.splits if_splits)

lemma project_items_reachable:
  "project_items clock out wake target items acc st = (r, st') \<Longrightarrow> proactive_reachable clock st \<Longrightarrow> proactive_reachable clock st'"
proof (induction items arbitrary: acc st)
  case (Cons item items)
  obtain written outbox where acc: "acc = (written, outbox)" by fastforce
  show ?case
  proof (cases "pulse_event_args out item")
    case (Inl e)
    with Cons.prems acc show ?thesis by simp
  next
    case a: (Inr a)
    show ?thesis
    proof (cases "upsert_proactive_event clock a st")
      case (Inl e)
      with Cons.prems acc a show ?thesis by simp
    next
      case u: (Inr p)
      obtain event st1 where p: "p = (event, st1)" by fastforce
      have s1: "proactive_reachable clock st1"
        using Cons.prems(2) u p by (blast intro: proactive_reachable.step proactive_step.upsert)
      show ?thesis
      proof (cases "truthy (dget wake ''delivery_requested'')")
        case False
        with Cons.prems acc a u p s1 Cons.IH show ?thesis by simp
      next
        case True
        let ?c = "create_proactive_outbox clock (py_str (dget event ''event_id'')) target
                          (py_str (dget wake ''idempotency_key'') @ '':'' @ py_str (dget event ''event_id''))
                          (or_text event ''intended_next_action'' ''none'') st1"
        show ?thesis
        proof (cases ?c)
          case (Inl e)
          with True Cons.prems acc a u p s1 show ?thesis by simp
        next
          case (Inr q)
          obtain row st2 where q: "q = (row, st2)" by fastforce
          have "proactive_reachable clock st2"
            using s1 Inr q by (blast intro: proactive_reachable.step proactive_step.outbox)
          with Inr q True Cons.prems acc a u p Cons.IH show ?thesis by simp
        qed
      qed
    qed
  qed
qed simp

lemma project_items_silent:
  "project_items clock out wake target items acc st = (r, st') \<Longrightarrow> \<not> truthy (dget wake ''delivery_requested'') \<Longrightarrow>
     px_outbox st' = px_outbox st \<and> px_ledger st' = px_ledger st"
proof (induction items arbitrary: acc st)
  case (Cons item items)
  obtain written outbox where acc: "acc = (written, outbox)" by fastforce
  show ?case
  proof (cases "pulse_event_args out item")
    case (Inl e)
    with Cons.prems acc show ?thesis by simp
  next
    case a: (Inr a)
    show ?thesis
    proof (cases "upsert_proactive_event clock a st")
      case (Inl e)
      with Cons.prems acc a show ?thesis by simp
    next
      case u: (Inr p)
      obtain event st1 where p: "p = (event, st1)" by fastforce
      from upsert_event_frame [OF u [unfolded p]] Cons.prems acc a u p Cons.IH show ?thesis by simp
    qed
  qed
qed simp

text \<open>
  C25: projecting a pulse is a run of the store's operations, also when an item raises on the way, so the tables stay consistent
  and every event's log replays to its state; and when no delivery is allowed it creates none and counts no ask,
  whatever the pulse contains.
\<close>

theorem pulse_projection_is_gated:
  assumes "project_pulse_output clock now out create_outbox target (Some s) st = (r, st')" and "proactive_reachable clock st"
  shows "proactive_reachable clock st' \<and> store_ok st' \<and>
    (\<not> wake_allowed now out create_outbox s \<longrightarrow> px_outbox st' = px_outbox st \<and> px_ledger st' = px_ledger st)"
proof (cases "classify_pulse_wake now out create_outbox target (Some s)")
  case (Inl e)
  with assms reachable_ok show ?thesis by (auto simp: project_pulse_output_def)
next
  case (Inr wake)
  show ?thesis
  proof (cases "pulse_items out")
    case (Inl e)
    with Inr assms reachable_ok show ?thesis by (auto simp: project_pulse_output_def)
  next
    case items: (Inr items)
    obtain q where q: "project_items clock out wake target items ([], []) st = (q, st')"
      using assms(1) by (auto simp: project_pulse_output_def Inr items split: prod.splits)
    have "dget wake ''delivery_requested'' = PBool (wake_allowed now out create_outbox s)"
      using pulse_wake_cases [OF Inr] by auto
    then show ?thesis
      using project_items_reachable [OF q assms(2)] reachable_ok project_items_silent [OF q] by auto
  qed
qed

section \<open>Pulses end to end\<close>

text \<open>Nothing to report: no actionable signal, not enough in the inbox, no interrupted run.\<close>

definition pulse_quiet :: "pulse_world \<Rightarrow> int \<Rightarrow> bool" where
  "pulse_quiet w threshold \<longleftrightarrow>
     (case pw_evolver w of None \<Rightarrow> True | Some (path, f) \<Rightarrow> \<not> ev_actionable (load_evolver_signal_file path f)) \<and>
     int (fst (bounded_json_count (hd_inbox (pw_handoff w)))) < max 1 threshold \<and>
     list_recovery_candidates (pw_now w) 600 5 (pw_runs w) = Inr []"

lemma inbox_count: "dget (runtime_handoff_summary h) ''inbox_count'' = PInt (int (fst (bounded_json_count (hd_inbox h))))"
  by (simp add: runtime_handoff_summary_def case_prod_unfold Let_def)

lemma pulse_tasks_Nil:
  "pulse_tasks w threshold cards = [] \<longleftrightarrow>
     (case pw_evolver w of None \<Rightarrow> True | Some (path, f) \<Rightarrow> \<not> ev_actionable (load_evolver_signal_file path f)) \<and>
     int (fst (bounded_json_count (hd_inbox (pw_handoff w)))) < max 1 threshold \<and> cards = []"
proof -
  have m: "max 1 (if threshold = 0 then 1 else threshold) = max 1 threshold" by simp
  show ?thesis
    unfolding pulse_tasks_def Let_def inbox_count pyval.case m by (auto split: option.splits prod.splits)
qed

lemma pulse_output_items:
  "iter_or_empty (dget (pulse_output w sc tasks n) ''tasks'') = Inr (map PDict tasks)"
  "pulse_tasks_of (pulse_output w sc tasks n) = tasks"
  "pulse_items (pulse_output w sc tasks n) = Inr (if tasks = [] then [heartbeat_candidate] else tasks)"
  by (simp_all add: pulse_output_def pulse_tasks_of_def pulse_items_def Let_def)

text \<open>
  A pulse reports what it found: it calls itself a no-op, has no task, and consists of the one heartbeat exactly when there is
  nothing to report, and otherwise of its tasks alone, with the right count; it fails only when the listing of
  interrupted runs does.
\<close>

theorem pulse_is_noop_iff_quiet:
  "case produce_pulse w sc threshold of
     Inl e \<Rightarrow> list_recovery_candidates (pw_now w) 600 5 (pw_runs w) = Inl e
   | Inr out \<Rightarrow>
       dget out ''no_op'' = PBool (pulse_quiet w threshold) \<and> (pulse_tasks_of out = [] \<longleftrightarrow> pulse_quiet w threshold) \<and>
       pulse_items out = Inr (if pulse_quiet w threshold then [heartbeat_candidate] else pulse_tasks_of out) \<and>
       dget out ''candidate_count'' = PInt (if pulse_quiet w threshold then 1 else int (length (pulse_tasks_of out)))"
proof (cases "list_recovery_candidates (pw_now w) 600 5 (pw_runs w)")
  case (Inl e)
  then show ?thesis by (simp add: produce_pulse_def)
next
  case (Inr cards)
  let ?tasks = "pulse_tasks w threshold cards"
  have out: "produce_pulse w sc threshold = Inr (pulse_output w sc ?tasks (length cards))" by (simp add: produce_pulse_def Inr)
  have q: "pulse_quiet w threshold \<longleftrightarrow> ?tasks = []" by (simp add: pulse_quiet_def Inr pulse_tasks_Nil)
  have "dget (pulse_output w sc ?tasks (length cards)) ''no_op'' = PBool (?tasks = [])"
    "dget (pulse_output w sc ?tasks (length cards)) ''candidate_count'' = PInt (if ?tasks = [] then 1 else int (length ?tasks))"
    by (simp_all add: pulse_output_def Let_def)
  then show ?thesis unfolding out sum.case q pulse_output_items by (intro conjI refl)
qed

lemma upsert_known_keeps_scope:
  assumes "events_ok (px_events st)" and "r \<in> set (px_events st)" and "pe_key r = effective_event_key a"
    and "upsert_proactive_event clock a st = Inr (d, st')"
  shows "map (\<lambda>r. (pe_event_id r, scope_of r)) (px_events st') = map (\<lambda>r. (pe_event_id r, scope_of r)) (px_events st)"
proof -
  have known: "find_event (event_id_of (effective_event_key a)) st \<noteq> None"
    using assms(1-3) unfolding find_event_None_iff by (force simp: events_ok_def event_ids_def)
  have keep: "map (\<lambda>r. (pe_event_id r, scope_of r)) (px_events (update_event i (refresh_event a now) s)) =
      map (\<lambda>r. (pe_event_id r, scope_of r)) (px_events s)" for i now s
    by (simp add: update_event_fields refresh_event_def scope_of_def)
  show ?thesis using assms(4,1)
  proof (cases rule: upsert_cases)
    case insert
    with known show ?thesis by simp
  next
    case (same r)
    then show ?thesis using keep by simp
  next
    case (changed r)
    then show ?thesis using keep by (simp add: append_transition_fields)
  qed
qed

definition heartbeat_key :: string where
  "heartbeat_key = or_text heartbeat_candidate ''candidate_key'' []"

lemma stable_key_nonempty: "stable_key d \<noteq> []"
proof
  assume "stable_key d = []"
  then have "length (stable_key d) = 0" by simp
  then show False by (simp add: stable_key_def)
qed

lemma heartbeat_key_nonempty: "heartbeat_key \<noteq> []"
proof -
  have "\<exists>p. heartbeat_key = py_str (py_or (PStr (stable_key p)) (PStr []))"
    by (auto simp: heartbeat_key_def heartbeat_candidate_def pulse_candidate_def or_text_def)
  then obtain p where "heartbeat_key = py_str (py_or (PStr (stable_key p)) (PStr []))" by blast
  then show ?thesis using stable_key_nonempty [of p] by (simp add: py_or_def)
qed

lemma heartbeat_args:
  obtains a where "pulse_event_args (pulse_output w sc tasks n) heartbeat_candidate = Inr a" "effective_event_key a = heartbeat_key"
proof -
  have "\<exists>ids. iter_or_empty (dget heartbeat_candidate ''evidence_ids'') = Inr ids"
    by (simp add: heartbeat_candidate_def pulse_candidate_def)
  moreover have "\<exists>counts. map_result (\<lambda>k. py_int (py_or (dget (pulse_output w sc tasks n) k) (PInt 0)))
      [''provider_calls'', ''prompt_tokens'', ''completion_tokens''] = Inr counts"
    by (simp add: pulse_output_def Let_def)
  ultimately obtain a where a: "pulse_event_args (pulse_output w sc tasks n) heartbeat_candidate = Inr a" "ea_key a = heartbeat_key"
    by (auto simp: pulse_event_args_def heartbeat_key_def)
  then have "effective_event_key a = heartbeat_key" using heartbeat_key_nonempty by (simp add: effective_event_key_def text_or_def)
  with a(1) show ?thesis by (rule that)
qed

lemma quiet_output:
  "produce_pulse w sc threshold = Inr out \<Longrightarrow> pulse_quiet w threshold \<Longrightarrow> out = pulse_output w sc [] 0"
proof -
  assume out: "produce_pulse w sc threshold = Inr out" and q: "pulse_quiet w threshold"
  then have "list_recovery_candidates (pw_now w) 600 5 (pw_runs w) = Inr []" by (simp add: pulse_quiet_def)
  moreover have "pulse_tasks w threshold [] = []" using q unfolding pulse_tasks_Nil pulse_quiet_def by blast
  ultimately show ?thesis using out by (simp add: produce_pulse_def)
qed

lemma quiet_wake:
  "\<exists>wake. classify_pulse_wake now (pulse_output w sc [] n) create_outbox target state = Inr wake \<and> \<not> truthy (dget wake ''delivery_requested'')"
proof -
  have t: "iter_or_empty (dget (pulse_output w sc [] n) ''tasks'') = Inr []" by (simp add: pulse_output_items)
  then obtain key where k: "pulse_wake_key (pulse_output w sc [] n) = Inr key" by (simp add: pulse_wake_key_def)
  show ?thesis
    unfolding classify_pulse_wake_def t k sum.case Let_def by (simp add: no_wake_def)
qed

text \<open>
  The heartbeat of every scope is one event: the key of its candidate depends on no scope and no time, so once any scope
  has projected a quiet pulse, the quiet pulse of any scope rewrites that event and leaves it to its
  scope: no event is added, none changes its scope, and a scope whose heartbeat comes second never gets one of its own.
\<close>

theorem heartbeat_is_shared_by_scopes:
  assumes "produce_pulse w sc threshold = Inr out" and "pulse_quiet w threshold"
    and "store_ok st" and "heartbeat_key \<in> pe_key ` set (px_events st)"
    and "project_pulse_output clock now out create_outbox target state st = (r, st')"
  shows "map (\<lambda>r. (pe_event_id r, scope_of r)) (px_events st') = map (\<lambda>r. (pe_event_id r, scope_of r)) (px_events st) \<and>
    px_outbox st' = px_outbox st"
proof -
  have out: "out = pulse_output w sc [] 0" by (rule quiet_output [OF assms(1,2)])
  obtain wake where w: "classify_pulse_wake now out create_outbox target state = Inr wake" "\<not> truthy (dget wake ''delivery_requested'')"
    unfolding out using quiet_wake by blast
  have items: "pulse_items out = Inr [heartbeat_candidate]" unfolding out pulse_output_items by simp
  obtain q where q: "project_items clock out wake target [heartbeat_candidate] ([], []) st = (q, st')"
    using assms(5) unfolding project_pulse_output_def w(1) sum.case items
    by (cases "project_items clock out wake target [heartbeat_candidate] ([], []) st") auto
  obtain a where a: "pulse_event_args out heartbeat_candidate = Inr a" "effective_event_key a = heartbeat_key"
    unfolding out by (rule heartbeat_args)
  obtain e where e: "e \<in> set (px_events st)" "pe_key e = effective_event_key a" using assms(4) a(2) by auto
  have ok: "events_ok (px_events st)" using assms(3) by (simp add: store_ok_def tables_ok_def)
  show ?thesis
  proof (cases "upsert_proactive_event clock a st")
    case (Inl x)
    with q a show ?thesis by simp
  next
    case (Inr p)
    obtain d s where p: "p = (d, s)" by fastforce
    with q a Inr w(2) have "st' = s" by simp
    with Inr p upsert_known_keeps_scope [OF ok e, of clock d s] upsert_event_frame [of clock a st d s] show ?thesis by simp
  qed
qed

section \<open>Witnesses\<close>

lemma surfacing_notifies_iff_witness:
  "\<exists>d. decide_proactive_surfacing [(''kind'', PStr ''risk''), (''intended_next_action'', PStr ''request_input'')]
        (Some surfacing_context_default) = Inr d \<and>
     dget d ''should_notify'' = PBool True \<and> dget d ''decision'' = PStr ''needs_approval''"
proof -
  let ?item = "[(''kind'', PStr ''risk''), (''intended_next_action'', PStr ''request_input'')]"
  obtain d where d: "decide_proactive_surfacing ?item (Some surfacing_context_default) = Inr d"
    by (fastforce simp: decide_proactive_surfacing_def render_proactive_message_def)
  have "norm_text (PStr ''risk'') = ''risk''" "norm_text (PStr ''request_input'') = ''request_input''" by (simp_all add: text_eval)
  with surfacing_notifies_iff [OF d] d show ?thesis by (simp add: surfacing_context_default_def)
qed

definition sample_pulse :: pydict where
  "sample_pulse = [(''tasks'', PList [PDict []])]"

lemma pulse_wake_gate_witness:
  "\<exists>wake. classify_pulse_wake sample_now sample_pulse True ''t'' (Some wake_state_default) = Inr wake \<and>
     dget wake ''delivery_requested'' = PBool True"
proof -
  have s: "stale_lock sample_now wake_state_default = Inr False" by (simp add: stale_lock_def wake_state_default_def wake_text_def)
  have t: "iter_or_empty (dget sample_pulse ''tasks'') = Inr [PDict []]" by (simp add: sample_pulse_def)
  then obtain key where k: "pulse_wake_key sample_pulse = Inr key" by (simp add: pulse_wake_key_def)
  have "classify_heartbeat_wake sample_now r wake_state_default \<noteq> Inl e" for r e
    by (simp add: classify_heartbeat_wake_def Let_def s)
  then obtain w where w: "classify_heartbeat_wake sample_now \<lparr>wr_target = ''t'', wr_source = ''pulse'',
      wr_run_id = Some (or_text sample_pulse ''run_id'' []), wr_key = Some key, wr_requested_at = None\<rparr> wake_state_default = Inr w"
    by (meson old.sum.exhaust)
  have "\<exists>wake. classify_pulse_wake sample_now sample_pulse True ''t'' (Some wake_state_default) = Inr wake"
    unfolding classify_pulse_wake_def t k sum.case Let_def option.case w by simp
  then obtain wake where c: "classify_pulse_wake sample_now sample_pulse True ''t'' (Some wake_state_default) = Inr wake" by blast
  have "wake_allowed sample_now sample_pulse True wake_state_default"
    by (simp add: wake_allowed_def s pulse_tasks_of_def) (simp add: sample_pulse_def wake_state_default_def)
  with pulse_wake_gate [OF c] c show ?thesis by simp
qed

definition sample_world :: pulse_world where
  "sample_world = \<lparr>pw_home = ''h'', pw_started = ''t'', pw_finished = ''t'', pw_now = sample_now,
     pw_handoff = \<lparr>hd_inbox = None, hd_outbox = None, hd_archive = None\<rparr>, pw_evolver = None,
     pw_runs = \<lparr>rd_files = [], rd_ticks = 0\<rparr>\<rparr>"

lemma sample_quiet: "pulse_quiet sample_world 1"
  by (simp add: pulse_quiet_def sample_world_def bounded_json_count_def list_recovery_candidates_def list_workruns_def newest_files_def)

lemma sample_produced: "produce_pulse sample_world sc 1 = Inr (pulse_output sample_world sc [] 0)"
proof -
  have "list_recovery_candidates (pw_now sample_world) 600 5 (pw_runs sample_world) = Inr []"
    using sample_quiet by (simp add: pulse_quiet_def)
  moreover have "pulse_tasks sample_world 1 [] = []" using sample_quiet unfolding pulse_tasks_Nil pulse_quiet_def by blast
  ultimately show ?thesis by (simp add: produce_pulse_def)
qed

lemma pulse_projection_is_gated_witness:
  "\<exists>r st'. project_pulse_output (\<lambda>n. ''t'') sample_now (pulse_output sample_world (''p'', [], []) [] 0) True ''t''
      (Some wake_state_default) empty_store = (r, st') \<and> store_ok st'"
proof -
  obtain r st' where p: "project_pulse_output (\<lambda>n. ''t'') sample_now (pulse_output sample_world (''p'', [], []) [] 0) True ''t''
      (Some wake_state_default) empty_store = (r, st')" by fastforce
  from pulse_projection_is_gated [OF p proactive_reachable.init] p show ?thesis by blast
qed

lemma upsert_first:
  "\<exists>d st. upsert_proactive_event clock a empty_store = Inr (d, st) \<and> px_events st = [new_event a (clock 0)]"
  by (simp add: upsert_proactive_event_def empty_store_def read_clock_def Let_def find_event_def append_transition_def
      event_payload_def new_event_def)

lemma heartbeat_is_shared_by_scopes_witness:
  "\<exists>st r st'. project_pulse_output (\<lambda>n. ''t'') sample_now (pulse_output sample_world (''q'', [], []) [] 0) True ''t'' None st = (r, st') \<and>
     map pe_principal (px_events st) = [''p''] \<and> map pe_principal (px_events st') = [''p'']"
proof -
  obtain a where a: "pulse_event_args (pulse_output sample_world (''p'', [], []) [] 0) heartbeat_candidate = Inr a"
    "effective_event_key a = heartbeat_key"
    by (rule heartbeat_args)
  have "ea_principal a = or_text (pulse_output sample_world (''p'', [], []) [] 0) ''principal_scope_key'' []"
    using a(1) by (auto simp: pulse_event_args_def event_args_default_def split: sum.splits)
  then have pr: "ea_principal a = ''p''" by (simp add: or_text_def pulse_output_def Let_def)
  obtain d st where u: "upsert_proactive_event (\<lambda>n. ''t'') a empty_store = Inr (d, st)" "px_events st = [new_event a ''t'']"
    using upsert_first [of "\<lambda>n. ''t''" a] by blast
  have ok: "store_ok st"
    using u(1) by (blast intro: reachable_ok proactive_reachable.intros proactive_step.upsert)
  have k: "heartbeat_key \<in> pe_key ` set (px_events st)" using u(2) a(2) by (simp add: new_event_def)
  obtain r st' where p: "project_pulse_output (\<lambda>n. ''t'') sample_now (pulse_output sample_world (''q'', [], []) [] 0) True ''t'' None st = (r, st')"
    by fastforce
  have e: "map pe_principal (px_events st) = [''p'']" using u(2) pr by (simp add: new_event_def)
  have "map (\<lambda>r. (pe_event_id r, scope_of r)) (px_events st') = map (\<lambda>r. (pe_event_id r, scope_of r)) (px_events st)"
    using heartbeat_is_shared_by_scopes [OF sample_produced sample_quiet ok k p] by simp
  from arg_cong [OF this, of "map (fst \<circ> snd)"] have "map pe_principal (px_events st') = map pe_principal (px_events st)"
    by (simp add: comp_def scope_of_def)
  then have "map pe_principal (px_events st') = [''p'']" using e by simp
  with p e show ?thesis by (intro exI conjI)
qed

end
