(* ===== verification/PyIso.thy ===== *)
theory PyIso
  imports PyTime
begin

text \<open>
  \<open>datetime.isoformat\<close> of a UTC time, and the proof that \<open>fromisoformat\<close> reads it back: the digits, the
  clock, and the calendar (\<open>civil_date\<close> gives a valid date and inverts \<open>date_ordinal\<close>).
\<close>

text \<open>The last \<open>k\<close> decimal digits.\<close>

primrec pad_digits :: "nat \<Rightarrow> int \<Rightarrow> string" where
  "pad_digits 0 n = []"
| "pad_digits (Suc k) n = pad_digits k (n div 10) @ [char_of (48 + nat (n mod 10))]"

text \<open>The first microsecond after the last representable time.\<close>

definition MAX_TIME :: int where "MAX_TIME = MAX_ORDINAL * 86400000000"

text \<open>\<open>t.isoformat()\<close> of an aware UTC time: the microseconds are printed only when there are any.\<close>

definition isoformat_utc :: "int \<Rightarrow> string" where
  "isoformat_utc us =
     (let (y, m, d) = civil_date (us div 86400000000 + 1); t = us mod 86400000000; sec = t div 1000000 in
      pad_digits 4 y @ ''-'' @ pad_digits 2 m @ ''-'' @ pad_digits 2 d @ ''T'' @
      pad_digits 2 (sec div 3600) @ '':'' @ pad_digits 2 (sec div 60 mod 60) @ '':'' @ pad_digits 2 (sec mod 60) @
      (if t mod 1000000 = 0 then [] else ''.'' @ pad_digits 6 (t mod 1000000)) @ ''+00:00'')"

section \<open>Digits and the clock\<close>

lemma length_pad_digits [simp]: "length (pad_digits k n) = k"
  by (induction k arbitrary: n) simp_all

lemma pad_digits_digit: "0 \<le> n \<Longrightarrow> list_all is_digit (pad_digits k n)"
proof (induction k arbitrary: n)
  case (Suc k)
  have "nat (n mod 10) < 10" using Suc.prems by simp
  with Suc show ?case by simp
qed simp

lemma digits_value_snoc: "digits_value (ds @ [c]) = digits_value ds * 10 + digit_val c"
  by (simp add: digits_value_def)

lemma digits_value_pad: "0 \<le> n \<Longrightarrow> n < 10 ^ k \<Longrightarrow> digits_value (pad_digits k n) = n"
proof (induction k arbitrary: n)
  case 0
  then show ?case by (simp add: digits_value_def)
next
  case (Suc k)
  have "nat (n mod 10) < 10" using Suc.prems by simp
  moreover have "n div 10 < 10 ^ k" using Suc.prems by (simp add: div_less_iff_less_mult)
  ultimately show ?case using Suc by (simp add: digits_value_snoc)
qed

lemma iso_digits_pad [simp]: "0 \<le> n \<Longrightarrow> n < 10 ^ k \<Longrightarrow> iso_digits k (pad_digits k n @ r) = Some n"
  by (simp add: iso_digits_def pad_digits_digit digits_value_pad)

lemma drop_pad [simp]: "drop k (pad_digits k n @ r) = r"
  by simp

lemma is_digit_not: "is_digit c \<Longrightarrow> c \<noteq> CHR ''W'' \<and> \<not> is_zone c"
  by (auto simp: is_digit_def is_zone_def)

lemma no_zone_pad: "0 \<le> n \<Longrightarrow> list_all (\<lambda>c. \<not> is_zone c) (pad_digits k n)"
  using pad_digits_digit [of n k] is_digit_not by (auto simp: list_all_iff)

lemma hms_colon:
  assumes "0 \<le> n" "n < 100" "rest \<noteq> []"
  shows "parse_hms (Suc k) True (pad_digits 2 n @ CHR '':'' # rest) tail =
     map_option (\<lambda>(vs, us, r). (n # vs, us, r)) (parse_hms k True rest tail)"
  using assms iso_digits_pad [of n 2 "CHR '':'' # rest"] by (cases rest) (simp_all add: Let_def)

lemma hms_end: "0 \<le> n \<Longrightarrow> n < 100 \<Longrightarrow> parse_hms (Suc k) colons (pad_digits 2 n) tail = Some ([n], 0, tail)"
  using iso_digits_pad [of n 2 "[]"] by simp

lemma hms_fraction:
  assumes "0 \<le> n" "n < 100" "0 \<le> f" "f < 1000000"
  shows "parse_hms (Suc 0) True (pad_digits 2 n @ CHR ''.'' # pad_digits 6 f) tail = Some ([n], f, tail)"
proof -
  obtain c r where f: "pad_digits 6 f = c # r" by (cases "pad_digits 6 f") (auto dest: arg_cong [where f = length])
  have len: "length (c # r) = 6" by (simp add: f [symmetric])
  have "parse_fraction (pad_digits 6 f) tail = Some (f, tail)"
    using assms iso_digits_pad [of f 6 "[]"] by (simp add: parse_fraction_def)
  then show ?thesis using assms iso_digits_pad [of n 2 "CHR ''.'' # pad_digits 6 f"] by (simp add: Let_def f)
qed

lemma time_text:
  assumes t: "0 \<le> t" "t < 86400000000"
  defines "sec \<equiv> t div 1000000"
  shows "parse_isoformat_time (pad_digits 2 (sec div 3600) @ '':'' @ pad_digits 2 (sec div 60 mod 60) @ '':'' @ pad_digits 2 (sec mod 60) @
      (if t mod 1000000 = 0 then [] else ''.'' @ pad_digits 6 (t mod 1000000)) @ ''+00:00'') = Some (t, Some 0)"
proof -
  let ?h = "sec div 3600" and ?m = "sec div 60 mod 60" and ?s = "sec mod 60" and ?f = "t mod 1000000"
  have sec: "0 \<le> sec" "sec < 86400" using t by (auto simp: sec_def)
  have b: "0 \<le> ?h" "?h \<le> 23" "?h < 100" "0 \<le> ?m" "?m \<le> 59" "?m < 100" "0 \<le> ?s" "?s \<le> 59" "?s < 100" "0 \<le> ?f" "?f < 1000000"
    using sec by auto
  let ?T = "pad_digits 2 ?h @ '':'' @ pad_digits 2 ?m @ '':'' @ pad_digits 2 ?s @ (if ?f = 0 then [] else ''.'' @ pad_digits 6 ?f)"
  have nz: "list_all (\<lambda>c. \<not> is_zone c) ?T" 
    using no_zone_pad [OF b(1), of 2] no_zone_pad [OF b(4), of 2] no_zone_pad [OF b(7), of 2] no_zone_pad [OF b(10), of 6]
    by (simp add: is_zone_def)
  have ne: "pad_digits 2 n @ xs \<noteq> []" for n xs using length_pad_digits [of 2 n] by (cases "pad_digits 2 n") simp_all
  define tl where "tl = (if ?f = 0 then [] else ''.'' @ pad_digits 6 ?f)"
  have p1: "parse_hms (Suc 0) True (pad_digits 2 ?s @ tl) True = Some ([?s], ?f, True)"
    using hms_end [OF b(7,9), of 0 True True] hms_fraction [OF b(7,9,10,11), of True] by (simp add: tl_def)
  have p2: "parse_hms (Suc (Suc 0)) True (pad_digits 2 ?m @ CHR '':'' # (pad_digits 2 ?s @ tl)) True = Some ([?m, ?s], ?f, True)"
    by (simp only: hms_colon [OF b(4,6) ne] p1 option.map case_prod_conv)
  have "parse_hms (Suc (Suc (Suc 0))) True (pad_digits 2 ?h @ CHR '':'' # (pad_digits 2 ?m @ CHR '':'' # (pad_digits 2 ?s @ tl))) True =
      Some ([?h, ?m, ?s], ?f, True)"
    by (simp only: hms_colon [OF b(1,3) ne] p2 option.map case_prod_conv)
  then have p: "parse_hms 3 True ?T True = Some ([?h, ?m, ?s], ?f, True)" unfolding tl_def numeral_3_eq_3 by (simp only: append_Cons append_Nil)
  have z: "parse_hms 3 True ''00:00'' False = Some ([0, 0], 0, False)" by code_simp
  have tw: "takeWhile (\<lambda>c. \<not> is_zone c) (?T @ ''+00:00'') = ?T" "dropWhile (\<lambda>c. \<not> is_zone c) (?T @ ''+00:00'') = ''+00:00''"
    using nz unfolding list_all_iff by (simp_all only: takeWhile_append2 dropWhile_append2 Ball_def) (simp_all add: is_zone_def)
  have q: "?h = sec div 60 div 60" using zdiv_zmult2_eq [of 60 sec 60] by simp
  have "?h * 60 + ?m = sec div 60" using div_mult_mod_eq [of "sec div 60" 60] q by simp
  then have "(?h * 60 + ?m) * 60 + ?s = sec" using div_mult_mod_eq [of sec 60] by simp
  then have sum: "((?h * 60 + ?m) * 60 + ?s) * 1000000 + ?f = t" using div_mult_mod_eq [of t 1000000] by (simp add: sec_def)
  have comp: "component [x, y, z] 0 = x" "component [x, y, z] 1 = y" "component [x, y, z] 2 = z" "component [x, y] 0 = x"
    "component [x, y] 1 = y" "component [x, y] 2 = 0" for x y z
    by (simp_all add: component_def)
  have ne0: "(''+00:00'' \<noteq> []) = True" by simp
  have "parse_isoformat_time (?T @ ''+00:00'') = Some (t, Some 0)"
    unfolding parse_isoformat_time_def tw Let_def ne0 p z option.case case_prod_conv list.case comp sum using b by simp
  then show ?thesis by (simp only: append_assoc)
qed

section \<open>The calendar\<close>

lemma takeWhile_upto:
  fixes P :: "int \<Rightarrow> bool" and L :: int
  defines "j \<equiv> int (length (takeWhile P [1..L]))"
  assumes "0 \<le> L"
  shows "0 \<le> j" "j \<le> L" "0 < j \<Longrightarrow> P j" "j < L \<Longrightarrow> \<not> P (j + 1)"
proof -
  show "0 \<le> j" by (simp add: j_def)
  have le: "length (takeWhile P [1..L]) \<le> length [1..L]" by (rule length_takeWhile_le)
  then show "j \<le> L" using assms by (simp add: j_def)
  show "P j" if "0 < j"
  proof -
    have "nat j - 1 < length (takeWhile P [1..L])" using that by (simp add: j_def)
    then have "takeWhile P [1..L] ! (nat j - 1) \<in> set (takeWhile P [1..L])" "takeWhile P [1..L] ! (nat j - 1) = [1..L] ! (nat j - 1)"
      by (rule nth_mem, rule takeWhile_nth)
    moreover have "[1..L] ! (nat j - 1) = j" using that \<open>j \<le> L\<close> by (simp add: nth_upto)
    ultimately show ?thesis by (metis set_takeWhileD)
  qed
  show "\<not> P (j + 1)" if "j < L"
  proof -
    have "length (takeWhile P [1..L]) < length [1..L]" using that by (simp add: j_def)
    from nth_length_takeWhile [OF this] show ?thesis using that by (simp add: nth_upto j_def add.commute)
  qed
qed

lemma div_step: "0 < k \<Longrightarrow> (x + 1) div k = x div k + (if (x + 1) mod k = 0 then 1 else 0)" for x k :: int
proof -
  assume k: "0 < k"
  show ?thesis
  proof (cases "(x + 1) mod k = 0")
    case True
    then obtain q where "x + 1 = k * q" by auto
    then have "x = k * (q - 1) + (k - 1)" by (simp add: algebra_simps)
    then have "x div k = q - 1" using k by (intro int_div_pos_eq [where r = "k - 1"]) simp_all
    then show ?thesis using True k \<open>x + 1 = k * q\<close> by simp
  next
    case False
    have m: "0 \<le> (x + 1) mod k" "(x + 1) mod k < k" using k by simp_all
    have "x = k * ((x + 1) div k) + ((x + 1) mod k - 1)" using mult_div_mod_eq [of k "x + 1"] by linarith
    then have "x div k = (x + 1) div k"
      by (rule int_div_pos_eq) (use m False in linarith)+
    then show ?thesis using False by simp
  qed
qed

lemma div_bounds: "0 < k \<Longrightarrow> k * (x div k) \<le> x" "0 < k \<Longrightarrow> x - k + 1 \<le> k * (x div k)" for x k :: int
proof -
  assume k: "0 < k"
  have "k * (x div k) = x - x mod k" by (simp add: minus_mod_eq_mult_div)
  then show "k * (x div k) \<le> x" "x - k + 1 \<le> k * (x div k)" using k pos_mod_bound [OF k, of x] pos_mod_sign [OF k, of x] by linarith+
qed

lemma year_length: "days_before_year (y + 1) = days_before_year y + (if leap_year y then 366 else 365)"
proof -
  have m: "y mod 400 = 0 \<Longrightarrow> y mod 100 = 0" "y mod 100 = 0 \<Longrightarrow> y mod 4 = 0"
    unfolding mod_eq_0_iff_dvd by (erule dvd_trans [rotated], simp)+
  define a b c where "a = (y - 1) div 4" and "b = (y - 1) div 100" and "c = (y - 1) div 400"
  define p q r where "p = (y mod 4 = 0)" and "q = (y mod 100 = 0)" and "r = (y mod 400 = 0)"
  have s: "y div 4 = a + (if p then 1 else 0)" "y div 100 = b + (if q then 1 else 0)" "y div 400 = c + (if r then 1 else 0)"
    unfolding a_def b_def c_def p_def q_def r_def
    by (rule div_step [of _ "y - 1", unfolded diff_add_cancel], simp only: zero_less_numeral)+
  have y: "days_before_year (y + 1) = y * 365 + y div 4 - y div 100 + y div 400"
    "days_before_year y = (y - 1) * 365 + a - b + c" "leap_year y = (p \<and> (\<not> q \<or> r))"
    unfolding days_before_year_def leap_year_def a_def b_def c_def p_def q_def r_def by (simp_all only: add_diff_cancel_right' simp_thms)
  show ?thesis using m unfolding y s p_def [symmetric] q_def [symmetric] r_def [symmetric] by (cases p; cases q; cases r) simp_all
qed

lemma year_bounds:
  "0 \<le> x \<Longrightarrow> days_before_year (x + 1) \<le> 366 * x"
  "400 * days_before_year (x + 1) \<ge> 146097 * x - 699"
proof -
  have d: "4 * (x div 4) \<le> x" "x - 3 \<le> 4 * (x div 4)" "100 * (x div 100) \<le> x" "x - 99 \<le> 100 * (x div 100)"
    "400 * (x div 400) \<le> x" "x - 399 \<le> 400 * (x div 400)"
    using div_bounds [of 4 x] div_bounds [of 100 x] div_bounds [of 400 x] by simp_all
  show "400 * days_before_year (x + 1) \<ge> 146097 * x - 699" using d by (simp add: days_before_year_def)
  assume "0 \<le> x"
  then have "x div 400 \<le> x div 100" by linarith
  with d show "days_before_year (x + 1) \<le> 366 * x" using \<open>0 \<le> x\<close> by (simp add: days_before_year_def)
qed

lemma year_sum: "sum_list (map (days_in_month y) [1..12]) = (if leap_year y then 366 else 365)"
  by (simp add: upto.simps days_in_month_def)

lemma month_sum: "1 \<le> m \<Longrightarrow> sum_list (map (days_in_month y) [1..m]) = sum_list (map (days_in_month y) [1..m - 1]) + days_in_month y m"
  by (simp add: upto_rec2)

lemma civil_date_valid:
  assumes n: "1 \<le> n" "n \<le> MAX_ORDINAL" and c: "civil_date n = (y, m, d)"
  shows "valid_date y m d" "date_ordinal y m d = n"
proof -
  define y0 where "y0 = (n - 1) div 366 + 1"
  define L where "L = n div 100000 + 2"
  define j where "j = int (length (takeWhile (\<lambda>k. days_before_year (y0 + k) < n) [1..L]))"
  define i where "i = int (length (takeWhile (\<lambda>k. sum_list (map (days_in_month y) [1..k]) < n - days_before_year y) [1..11]))"
  have y: "y = y0 + j" and m: "m = 1 + i" and d: "d = n - days_before_year y - sum_list (map (days_in_month y) [1..m - 1])"
    using c by (auto simp: civil_date_def Let_def y0_def L_def j_def i_def)
  have L: "0 \<le> L" using n by (simp add: L_def)
  note tw = takeWhile_upto [OF L, where P = "\<lambda>k. days_before_year (y0 + k) < n", folded j_def]
  have y0: "1 \<le> y0" using n by (simp add: y0_def)
  have "366 * (y0 - 1) \<le> n - 1" by (simp add: y0_def)
  then have b0: "days_before_year y0 < n" using year_bounds(1) [of "y0 - 1"] y0 by simp
  have lo: "days_before_year y < n" using b0 tw(1,3) by (cases "j = 0") (auto simp: y)
  have "400 * n \<le> 146097 * (y0 + L) - 699"
  proof -
    have "n - 366 \<le> 366 * (y0 - 1)" "n - 99999 \<le> 100000 * (L - 2)" 
      using div_bounds [of 366 "n - 1"] div_bounds [of 100000 n] by (simp_all add: y0_def L_def)
    then have "n \<le> 366 * y0" "n + 100001 \<le> 100000 * L" by simp_all
    then have "399 * n \<le> 146097 * y0" "n + 699 \<le> 146097 * L" using n y0 by simp_all
    then show ?thesis by simp
  qed
  then have "n \<le> days_before_year (y0 + L + 1)" using year_bounds(2) [of "y0 + L"] by linarith
  then have hi: "n \<le> days_before_year (y + 1)"
    using tw(2,4) by (cases "j = L") (auto simp: y not_less add.assoc)
  have y1: "1 \<le> y" using y y0 tw(1) by simp
  have "y \<le> 9999"
  proof (rule ccontr)
    assume "\<not> y \<le> 9999"
    then have "146097 * 9999 - 699 \<le> 400 * days_before_year y" using year_bounds(2) [of "y - 1"] by simp
    then show False using lo n by (simp add: MAX_ORDINAL_def)
  qed
  note tm = takeWhile_upto [where P = "\<lambda>k. sum_list (map (days_in_month y) [1..k]) < n - days_before_year y" and L = 11, folded i_def]
  have m1: "1 \<le> m" "m \<le> 12" using tm(1,2) m by simp_all
  have dlo: "1 \<le> d" using tm(1,3) lo by (cases "i = 0") (auto simp: d m)
  have "n - days_before_year y \<le> sum_list (map (days_in_month y) [1..m])"
  proof (cases "m = 12")
    case True
    then show ?thesis using hi year_length [of y] by (simp add: year_sum)
  next
    case False
    then show ?thesis using tm(2,4) m by (simp add: not_less add.commute)
  qed
  then have "d \<le> days_in_month y m" using month_sum [OF m1(1), of y] by (simp add: d)
  then show "valid_date y m d" using y1 \<open>y \<le> 9999\<close> m1 dlo by (simp add: valid_date_def)
  show "date_ordinal y m d = n" by (simp add: date_ordinal_def d)
qed

section \<open>Reading what was printed\<close>

lemma nth_pad: "length xs = k \<Longrightarrow> (xs @ ys) ! (k + i) = ys ! i"
  by (simp add: nth_append)

lemma date_text:
  assumes v: "valid_date y m d" and t: "t \<noteq> []"
  defines "s \<equiv> pad_digits 4 y @ ''-'' @ pad_digits 2 m @ ''-'' @ pad_digits 2 d @ ''T'' @ t"
  shows "separator_location s = Some 10" "parse_isoformat_date s 10 = Some (date_ordinal y m d)" "drop 11 s = t" "11 < length s"
proof -
  have b: "0 \<le> y" "y < 10 ^ 4" "0 \<le> m" "m < 10 ^ 2" "0 \<le> d" "d < 10 ^ 2"
    using v unfolding valid_date_def days_in_month_def by (auto split: if_splits)
  obtain c cs where m: "pad_digits 2 m = c # cs" by (cases "pad_digits 2 m") (use length_pad_digits [of 2 m] in simp_all)
  have c: "c \<noteq> CHR ''W''" using pad_digits_digit [OF b(3), of 2] is_digit_not by (simp add: m)
  have s4: "s ! 4 = CHR ''-''" using nth_pad [of "pad_digits 4 y" 4 _ 0] by (simp add: s_def)
  have s5: "s ! 5 = c" using nth_pad [of "pad_digits 4 y" 4 _ 1] by (simp add: s_def m)
  have len: "length s = 11 + length t" by (simp add: s_def)
  show "11 < length s" using t len by simp
  show "separator_location s = Some 10" using s4 s5 c len by (simp add: separator_location_def)
  have d5: "drop 5 s = pad_digits 2 m @ CHR ''-'' # pad_digits 2 d @ ''T'' @ t" "drop 4 s \<noteq> []" by (simp_all add: s_def)
  have y: "iso_digits 4 s = Some y" unfolding s_def using b by (rule_tac iso_digits_pad) simp_all
  have mm: "iso_digits 2 (c # cs @ CHR ''-'' # pad_digits 2 d @ ''T'' @ t) = Some m"
    using iso_digits_pad [OF b(3,4), of "CHR ''-'' # pad_digits 2 d @ ''T'' @ t"] by (simp add: m)
  have dm: "drop 2 (c # cs @ CHR ''-'' # pad_digits 2 d @ ''T'' @ t) = CHR ''-'' # pad_digits 2 d @ ''T'' @ t"
    using drop_pad [of 2 m "CHR ''-'' # pad_digits 2 d @ ''T'' @ t"] by (simp add: m del: drop_pad)
  have dd: "iso_digits 2 (pad_digits 2 d @ ''T'' @ t) = Some d" using iso_digits_pad [OF b(5,6)] .
  show "parse_isoformat_date s 10 = Some (date_ordinal y m d)"
    unfolding parse_isoformat_date_def y option.case Let_def
    using s4 d5 mm dm dd c v by (simp add: m)
  show "drop 11 s = t" by (simp add: s_def)
qed

theorem fromisoformat_isoformat:
  assumes "0 \<le> us" "us < MAX_TIME"
  shows "fromisoformat (isoformat_utc us) = Some \<lparr>dt_local = us, dt_offset = Some 0\<rparr>"
proof -
  define n where "n = us div 86400000000 + 1"
  define t where "t = us mod 86400000000"
  obtain y m d where c: "civil_date n = (y, m, d)" by (metis prod_cases3)
  have "us div 86400000000 < MAX_ORDINAL" using assms(2) div_bounds(1) [of 86400000000 us] by (simp add: MAX_TIME_def)
  then have n: "1 \<le> n" "n \<le> MAX_ORDINAL" using assms(1) by (simp_all add: n_def pos_imp_zdiv_nonneg_iff)
  have t: "0 \<le> t" "t < 86400000000" by (simp_all add: t_def)
  let ?T = "pad_digits 2 (t div 1000000 div 3600) @ '':'' @ pad_digits 2 (t div 1000000 div 60 mod 60) @ '':'' @
      pad_digits 2 (t div 1000000 mod 60) @ (if t mod 1000000 = 0 then [] else ''.'' @ pad_digits 6 (t mod 1000000)) @ ''+00:00''"
  have T: "?T \<noteq> []" by simp
  have eq: "isoformat_utc us = pad_digits 4 y @ ''-'' @ pad_digits 2 m @ ''-'' @ pad_digits 2 d @ ''T'' @ ?T"
    unfolding isoformat_utc_def Let_def n_def [symmetric] t_def [symmetric] c by (simp only: case_prod_conv append_assoc)
  note dt = date_text [OF civil_date_valid(1) [OF n c] T, folded eq]
  have sum: "(n - 1) * 86400000000 + t = us" using div_mult_mod_eq [of us 86400000000] by (simp add: n_def t_def)
  have "parse_isoformat_time (drop (10 + 1) (isoformat_utc us)) = Some (t, Some 0)" "drop (10 + 1) (isoformat_utc us) \<noteq> []"
    using dt(3) time_text [OF t] T by simp_all
  moreover have "\<not> length (isoformat_utc us) < 7" using dt(4) by simp
  ultimately show ?thesis unfolding fromisoformat_def dt(1) dt(2) option.case Let_def civil_date_valid(2) [OF n c]
    by (simp only: if_False option.map case_prod_conv sum)
qed

section \<open>Bounds\<close>

text \<open>Every time that is read lies in the years 1 to 9999.\<close>

lemma digits_value_bounds: "list_all is_digit ds \<Longrightarrow> 0 \<le> digits_value ds \<and> digits_value ds < 10 ^ length ds"
proof (induction ds rule: rev_induct)
  case Nil
  then show ?case by (simp add: digits_value_def)
next
  case (snoc c ds)
  then have "0 \<le> digit_val c" "digit_val c \<le> 9" using of_nat_of_char [of c, where 'a = int]
    by (auto simp: is_digit_def digit_val_def Let_def simp del: of_nat_of_char)
  with snoc show ?case by (simp add: digits_value_snoc)
qed

lemma iso_digits_bounds: "iso_digits n s = Some v \<Longrightarrow> 0 \<le> v \<and> v < 10 ^ n"
  using digits_value_bounds [of "take n s"] by (auto simp: iso_digits_def min_def split: if_splits)

lemma parse_fraction_bounds: "parse_fraction s b = Some (us, r) \<Longrightarrow> 0 \<le> us \<and> us < 1000000"
proof -
  assume a: "parse_fraction s b = Some (us, r)"
  define n where "n = min 6 (length s)"
  obtain v where v: "iso_digits n s = Some v" "us = v * 10 ^ (6 - n)"
    using a by (auto simp: parse_fraction_def Let_def n_def split: option.splits)
  have "v < 10 ^ n" "0 \<le> v" using iso_digits_bounds [OF v(1)] by simp_all
  then have "v * 10 ^ (6 - n) < 10 ^ n * 10 ^ (6 - n)" by simp
  also have "\<dots> = (10 :: int) ^ 6" unfolding power_add [symmetric] by (simp add: n_def)
  finally show ?thesis using v \<open>0 \<le> v\<close> by simp
qed

lemma parse_hms_bounds: "parse_hms k c s b = Some (vs, us, r) \<Longrightarrow> (\<forall>v \<in> set vs. 0 \<le> v) \<and> 0 \<le> us \<and> us < 1000000"
proof (induction k c s b arbitrary: vs us r rule: parse_hms.induct)
  case (1 colons s tail)
  then show ?case using parse_fraction_bounds by (auto split: prod.splits)
next
  case (2 k colons s tail)
  obtain v where v: "iso_digits 2 s = Some v" using 2(3) by (auto split: option.splits)
  have v0: "0 \<le> v" using iso_digits_bounds [OF v] by simp
  show ?case
  proof (cases "drop 2 s")
    case Nil
    then show ?thesis using 2(3) v v0 by auto
  next
    case (Cons x q)
    show ?thesis
    proof (cases q)
      case Nil
      then show ?thesis using 2(3) v v0 Cons by auto
    next
      case (Cons y z)
      then have d: "drop 2 s = x # y # z" using \<open>drop 2 s = x # q\<close> by simp
      show ?thesis using 2(3) v0 parse_fraction_bounds
        2(1) [OF v d refl, of _ _ _] 2(2) [OF v d refl, of _ _ _]
        unfolding parse_hms.simps v option.case d list.case Let_def
        by (fastforce split: if_splits)
    qed
  qed
qed

lemma component_nonneg: "\<forall>v \<in> set vs. 0 \<le> v \<Longrightarrow> 0 \<le> component vs i"
  by (simp add: component_def)

lemma time_bounds: "parse_isoformat_time s = Some (us, off) \<Longrightarrow> 0 \<le> us \<and> us < 86400000000"
proof -
  assume a: "parse_isoformat_time s = Some (us, off)"
  obtain vs f r where h: "parse_hms 3 True (takeWhile (\<lambda>c. \<not> is_zone c) s) (dropWhile (\<lambda>c. \<not> is_zone c) s \<noteq> []) = Some (vs, f, r)"
    using a by (auto simp: parse_isoformat_time_def Let_def split: option.splits)
  have b: "\<forall>v \<in> set vs. 0 \<le> v" "0 \<le> f" "f < 1000000" using parse_hms_bounds [OF h] by auto
  have "us = ((component vs 0 * 60 + component vs 1) * 60 + component vs 2) * 1000000 + f \<and>
      component vs 0 \<le> 23 \<and> component vs 1 \<le> 59 \<and> component vs 2 \<le> 59"
    using a unfolding parse_isoformat_time_def Let_def h option.case case_prod_conv
    by (auto split: list.splits if_splits option.splits prod.splits)
  moreover have "0 \<le> component vs 0" "0 \<le> component vs 1" "0 \<le> component vs 2" using component_nonneg [OF b(1)] by simp_all
  ultimately show ?thesis using b(2,3) by (simp add: distrib_right)
qed

lemma month_sum_mono: "i \<le> j \<Longrightarrow> 0 \<le> i \<Longrightarrow> sum_list (map (days_in_month y) [1..i]) \<le> sum_list (map (days_in_month y) [1..j])"
proof (induction j rule: int_ge_induct)
  case (step j)
  have "0 \<le> days_in_month y (j + 1)" by (simp add: days_in_month_def)
  with step show ?case using month_sum [of "j + 1" y] by simp
qed simp

lemma year_mono: "y \<le> z \<Longrightarrow> days_before_year y \<le> days_before_year z"
proof (induction z rule: int_ge_induct)
  case (step z)
  then show ?case using year_length [of z] by simp
qed simp

lemma date_ordinal_bounds:
  assumes "valid_date y m d"
  shows "1 \<le> date_ordinal y m d" "date_ordinal y m d \<le> MAX_ORDINAL"
proof -
  have v: "1 \<le> y" "y + 1 \<le> 10000" "1 \<le> m" "m \<le> 12" "1 \<le> d" "d \<le> days_in_month y m" using assms by (auto simp: valid_date_def)
  have "0 \<le> days_before_year y" using year_mono [of 1 y] v by (simp add: days_before_year_def)
  moreover have "0 \<le> sum_list (map (days_in_month y) [1..m - 1])" by (rule sum_list_nonneg) (auto simp: days_in_month_def)
  ultimately show "1 \<le> date_ordinal y m d" using v by (simp add: date_ordinal_def)
  have "date_ordinal y m d \<le> days_before_year y + sum_list (map (days_in_month y) [1..m])"
    using v month_sum [of m y] by (simp add: date_ordinal_def)
  also have "\<dots> \<le> days_before_year y + sum_list (map (days_in_month y) [1..12])" using v month_sum_mono [of m 12 y] by simp
  also have "\<dots> = days_before_year (y + 1)" by (simp add: year_sum year_length)
  also have "\<dots> \<le> days_before_year 10000" using v by (intro year_mono) simp
  finally show "date_ordinal y m d \<le> MAX_ORDINAL" by (simp add: days_before_year_def MAX_ORDINAL_def)
qed

lemma date_bounds: "parse_isoformat_date s n = Some k \<Longrightarrow> 1 \<le> k \<and> k \<le> MAX_ORDINAL"
  unfolding parse_isoformat_date_def Let_def
  by (auto split: option.splits list.splits if_splits simp: bind_eq_Some_conv week_ordinal_def Let_def date_ordinal_bounds)

lemma fromisoformat_bounds: "fromisoformat s = Some t \<Longrightarrow> 0 \<le> dt_local t \<and> dt_local t < MAX_TIME"
proof -
  assume a: "fromisoformat s = Some t"
  then obtain n k where n: "parse_isoformat_date s n = Some k" and t: "dt_local t = (k - 1) * 86400000000 \<or>
      (\<exists>us off. parse_isoformat_time (drop (n + 1) s) = Some (us, off) \<and> dt_local t = (k - 1) * 86400000000 + us)"
    by (auto simp: fromisoformat_def Let_def split: if_splits option.splits)
  have "1 \<le> k" "k \<le> MAX_ORDINAL" using date_bounds [OF n] by simp_all
  then show ?thesis using t time_bounds unfolding MAX_TIME_def by fastforce
qed

lemma pad_no_space: "0 \<le> n \<Longrightarrow> \<forall>c \<in> set (pad_digits k n). \<not> is_space c"
  using pad_digits_digit [of n k] by (auto simp: list_all_iff is_digit_def is_space_def Let_def)

lemma isoformat_text:
  assumes "0 \<le> us" "us < MAX_TIME"
  shows "\<forall>c \<in> set (isoformat_utc us). \<not> is_space c" "last (isoformat_utc us) = CHR ''0''" "isoformat_utc us \<noteq> []"
proof -
  define n where "n = us div 86400000000 + 1"
  define t where "t = us mod 86400000000"
  obtain y m d where c: "civil_date n = (y, m, d)" by (metis prod_cases3)
  have "us div 86400000000 < MAX_ORDINAL" using assms(2) div_bounds(1) [of 86400000000 us] by (simp add: MAX_TIME_def)
  then have n: "1 \<le> n" "n \<le> MAX_ORDINAL" using assms(1) by (simp_all add: n_def pos_imp_zdiv_nonneg_iff)
  have v: "0 \<le> y" "0 \<le> m" "0 \<le> d" using civil_date_valid(1) [OF n c] by (simp_all add: valid_date_def)
  have t: "0 \<le> t" by (simp add: t_def)
  then have q: "0 \<le> t div 1000000 div 3600" "0 \<le> t div 1000000 div 60 mod 60" "0 \<le> t div 1000000 mod 60" "0 \<le> t mod 1000000"
    by (simp_all add: pos_imp_zdiv_nonneg_iff)
  note eq = isoformat_utc_def [of us, unfolded Let_def, folded n_def t_def, unfolded c case_prod_conv]
  show "\<forall>c \<in> set (isoformat_utc us). \<not> is_space c"
    unfolding eq using pad_no_space [OF v(1), of 4] pad_no_space [OF v(2), of 2] pad_no_space [OF v(3), of 2]
      pad_no_space [OF q(1), of 2] pad_no_space [OF q(2), of 2] pad_no_space [OF q(3), of 2] pad_no_space [OF q(4), of 6]
    by (simp add: ball_Un is_space_def)
  show "last (isoformat_utc us) = CHR ''0''" "isoformat_utc us \<noteq> []" unfolding eq by simp_all
qed

end
