(* ===== verification/RecordMeta.thy ===== *)
theory RecordMeta
  imports PyIso PyHash
begin

text \<open>
  The metadata of stored records: \<open>brainstack/temporal.py\<close> (validity times and their normalisation, relative
  durations, temporal status), \<open>brainstack/provenance.py\<close>, \<open>brainstack/graph_lineage.py\<close>, the scope key of
  \<open>scope_identity.py\<close> and the metadata helpers of \<open>storage/store_runtime.py\<close>. A metadata object is an ordered
  dictionary; \<open>deepcopy\<close> and copies of dictionaries are the identity on values. The clock is an argument.
\<close>

section \<open>Results\<close>

definition rbind :: "'a result \<Rightarrow> ('a \<Rightarrow> 'b result) \<Rightarrow> 'b result" where
  "rbind r f = (case r of Inl e \<Rightarrow> Inl e | Inr x \<Rightarrow> f x)"

section \<open>Times\<close>

text \<open>
  \<open>_parse_iso\<close>: microseconds of UTC. A refused text is \<open>None\<close>; the shift to UTC may leave the years 1 to 9999,
  and that \<open>OverflowError\<close> is not caught.
\<close>

definition parse_iso :: "pyval \<Rightarrow> int option result" where
  "parse_iso v =
     (let text = strip_text v in
      if text = [] then Inr None
      else
        (let text = (if last text = CHR ''Z'' then butlast text @ ''+00:00'' else text) in
         case fromisoformat text of
           None \<Rightarrow> Inr None
         | Some t \<Rightarrow>
             (case dt_offset t of
                None \<Rightarrow> Inr (Some (dt_local t))
              | Some off \<Rightarrow>
                  (let utc = dt_local t - off in
                   if 0 \<le> utc \<and> utc < MAX_TIME then Inr (Some utc) else Inl OverflowError))))"

definition stamp_item :: "string \<Rightarrow> int option \<Rightarrow> pydict" where
  "stamp_item key t = (case t of None \<Rightarrow> [] | Some us \<Rightarrow> [(key, PStr (isoformat_utc us))])"

definition link_item :: "pydict \<Rightarrow> string \<Rightarrow> pydict" where
  "link_item d key = (let text = strip_text (dget d key) in if text = [] then [] else [(key, PStr text)])"

definition first_of :: "'a option \<Rightarrow> 'a option \<Rightarrow> 'a option" where
  "first_of a b = (case a of Some x \<Rightarrow> Some x | None \<Rightarrow> b)"

definition normalize_temporal_fields :: "pydict \<Rightarrow> pydict result" where
  "normalize_temporal_fields d =
     rbind (parse_iso (dget d ''observed_at'')) (\<lambda>observed.
     rbind (parse_iso (dget d ''valid_at'')) (\<lambda>moment.
     rbind (parse_iso (dget d ''valid_from'')) (\<lambda>start.
     rbind (parse_iso (dget d ''valid_to'')) (\<lambda>stop.
       Inr (stamp_item ''observed_at'' observed @ stamp_item ''valid_at'' moment @
            stamp_item ''valid_from'' (first_of start (first_of moment observed)) @ stamp_item ''valid_to'' stop @
            link_item d ''supersedes'' @ link_item d ''superseded_by'' @ link_item d ''episode_id'')))))"

definition TEMPORAL_KEYS :: "string list" where
  "TEMPORAL_KEYS = [''observed_at'', ''valid_at'', ''valid_from'', ''valid_to'', ''supersedes'', ''superseded_by'', ''episode_id'']"

definition without_temporal :: "pydict \<Rightarrow> pydict" where
  "without_temporal d = filter (\<lambda>(k, _). k \<notin> set TEMPORAL_KEYS) d"

definition merge_temporal :: "pyval \<Rightarrow> pyval \<Rightarrow> pydict result" where
  "merge_temporal existing incoming =
     (let payload = dupdate (as_mapping existing) (as_mapping incoming) in
      rbind (normalize_temporal_fields payload) (\<lambda>n. Inr (dupdate n (without_temporal payload))))"

section \<open>Relative durations\<close>

text \<open>The pieces of the two patterns, on a stripped text: a run of spaces, a word in any case, a number, a unit.\<close>

definition re_spaces :: "string \<Rightarrow> string option" where
  "re_spaces s = (case s of [] \<Rightarrow> None | c # _ \<Rightarrow> if is_space c then Some (dropWhile is_space s) else None)"

definition re_word :: "string \<Rightarrow> string \<Rightarrow> string option" where
  "re_word w s = (if py_lower (take (length w) s) = w then Some (drop (length w) s) else None)"

definition re_amount :: "string \<Rightarrow> (string \<times> string) option" where
  "re_amount s =
     (let ds = takeWhile is_digit s; r = dropWhile is_digit s in
      if ds = [] then None
      else case r of
        [] \<Rightarrow> Some (ds, [])
      | c # q \<Rightarrow>
          (let es = takeWhile is_digit q in
           if c = CHR ''.'' \<and> es \<noteq> [] then Some (ds @ c # es, dropWhile is_digit q) else Some (ds, r)))"

definition UNITS :: "(string \<times> int) list" where
  "UNITS =
     [(''second'', 1000000), (''seconds'', 1000000), (''minute'', 60000000), (''minutes'', 60000000),
      (''hour'', 3600000000), (''hours'', 3600000000), (''day'', 86400000000), (''days'', 86400000000),
      (''week'', 604800000000), (''weeks'', 604800000000)]"

definition re_unit :: "string \<Rightarrow> (string \<times> string) option" where
  "re_unit s =
     (let w = py_lower (takeWhile (\<lambda>c. \<not> is_space c) s) in
      if w \<in> set (map fst UNITS) then Some (w, dropWhile (\<lambda>c. \<not> is_space c) s) else None)"

text \<open>\<open>amount \s+ unit\<close> and what follows.\<close>

definition amount_unit :: "string \<Rightarrow> (string \<times> string \<times> string) option" where
  "amount_unit s =
     Option.bind (re_amount s) (\<lambda>(a, r). Option.bind (re_spaces r) (\<lambda>r.
       Option.bind (re_unit r) (\<lambda>(u, rest). Some (a, u, rest))))"

definition remaining_for :: "string \<Rightarrow> string option" where
  "remaining_for s =
     Option.bind (re_word ''remaining'' s) (\<lambda>r. Option.bind (re_spaces r) (\<lambda>r.
       Option.bind (re_word ''for'' r) re_spaces))"

text \<open>\<open>\s+remaining(?:\s+for\s+.+)?$\<close>; the dot takes no line break.\<close>

definition remaining_suffix :: "string \<Rightarrow> bool" where
  "remaining_suffix s =
     (case Option.bind (re_spaces s) (re_word ''remaining'') of
        None \<Rightarrow> False
      | Some r \<Rightarrow>
          r = [] \<or>
          (case Option.bind (re_spaces r) (\<lambda>r. Option.bind (re_word ''for'' r) re_spaces) of
             None \<Rightarrow> False
           | Some t \<Rightarrow> t \<noteq> [] \<and> CHR 0x0A \<notin> set t))"

definition relative_duration :: "string \<Rightarrow> (string \<times> string) option" where
  "relative_duration s =
     (let prefix = remaining_for s in
      case amount_unit (case prefix of Some r \<Rightarrow> r | None \<Rightarrow> s) of
        None \<Rightarrow> None
      | Some (a, u, rest) \<Rightarrow> if remaining_suffix rest \<or> prefix \<noteq> None \<and> rest = [] then Some (a, u) else None)"

definition bare_duration :: "string \<Rightarrow> (string \<times> string) option" where
  "bare_duration s = (case amount_unit s of Some (a, u, rest) \<Rightarrow> if rest = [] then Some (a, u) else None | None \<Rightarrow> None)"

fun underscore_parts :: "string \<Rightarrow> string \<Rightarrow> string list" where
  "underscore_parts acc [] = [rev acc]"
| "underscore_parts acc (c # cs) = (if c = CHR ''_'' then rev acc # underscore_parts [] cs else underscore_parts (c # acc) cs)"

text \<open>Amount and unit of a value such as \<open>15 hours remaining\<close>, or of a number under an attribute that names the unit.\<close>

definition duration_reading :: "string \<Rightarrow> string \<Rightarrow> (string \<times> string) option" where
  "duration_reading value attribute =
     (case relative_duration value of
        Some p \<Rightarrow> Some p
      | None \<Rightarrow>
          if \<not> py_contains ''remaining'' attribute then None
          else case bare_duration value of
            Some p \<Rightarrow> Some p
          | None \<Rightarrow>
              (case find (\<lambda>w. w \<in> set (map fst UNITS)) (underscore_parts [] attribute) of
                 None \<Rightarrow> None
               | Some u \<Rightarrow> if parse_float value = None then None else Some (value, u)))"

text \<open>\<open>timedelta(unit=amount)\<close> in microseconds: whole units exactly, the fraction in floating point, half to even.\<close>

definition timedelta_of :: "int \<Rightarrow> pyfloat \<Rightarrow> int result" where
  "timedelta_of factor amount =
     (case amount of
        NaN \<Rightarrow> Inl ValueError
      | PosInf \<Rightarrow> Inl OverflowError
      | NegInf \<Rightarrow> Inl OverflowError
      | Fin q \<Rightarrow>
          (let whole = \<lfloor>q\<rfloor>; p = fmul (of_int factor) (q - of_int whole); sum = whole * factor + \<lfloor>p\<rfloor>; left = p - of_int \<lfloor>p\<rfloor>;
               us = (if left < 1/2 then sum else if 1/2 < left then sum + 1 else if even sum then sum else sum + 1) in
           if 999999999 < us div 86400000000 then Inl OverflowError else Inr us))"

definition add_time :: "int \<Rightarrow> int \<Rightarrow> int result" where
  "add_time base delta = (if 0 \<le> base + delta \<and> base + delta < MAX_TIME then Inr (base + delta) else Inl OverflowError)"

text \<open>The time the duration counts from: when it was observed, or valid from, or observed by the source.\<close>

definition duration_base :: "pyval \<Rightarrow> pyval \<Rightarrow> int option result" where
  "duration_base temporal metadata =
     rbind (case temporal of
         PDict t \<Rightarrow>
           rbind (parse_iso (dget t ''observed_at'')) (\<lambda>a.
             case a of Some x \<Rightarrow> Inr (Some x) | None \<Rightarrow> parse_iso (dget t ''valid_from''))
       | _ \<Rightarrow> Inr None) (\<lambda>base.
       case (base, metadata) of
         (None, PDict m) \<Rightarrow>
           (case dget m ''graph_source_lineage'' of PDict l \<Rightarrow> parse_iso (dget l ''observed_at'') | _ \<Rightarrow> Inr None)
       | _ \<Rightarrow> Inr base)"

definition infer_relative_duration_valid_to :: "string \<Rightarrow> pyval \<Rightarrow> pyval \<Rightarrow> string \<Rightarrow> string option result" where
  "infer_relative_duration_valid_to value_text temporal metadata attribute =
     (case duration_reading (py_strip value_text) (py_lower (py_strip attribute)) of
        None \<Rightarrow> Inr None
      | Some (amount_text, unit) \<Rightarrow>
          (case parse_float amount_text of
             None \<Rightarrow> Inl ValueError
           | Some amount \<Rightarrow>
               if amount = NegInf \<or> (case amount of Fin q \<Rightarrow> q \<le> 0 | _ \<Rightarrow> False) then Inr None
               else rbind (duration_base temporal metadata) (\<lambda>base.
                 case base of
                   None \<Rightarrow> Inr None
                 | Some t \<Rightarrow>
                     rbind (timedelta_of (the (map_of UNITS unit)) amount) (\<lambda>delta.
                       rbind (add_time t delta) (\<lambda>us. Inr (Some (isoformat_utc us)))))))"

section \<open>Background sources\<close>

definition folded :: "pyval \<Rightarrow> string" where
  "folded v = py_lower (strip_text v)"

definition is_background_relative_duration_source :: "pydict \<Rightarrow> bool" where
  "is_background_relative_duration_source record \<longleftrightarrow>
     py_startswith (folded (dget record ''source'')) ''tier2:'' \<or>
     (case dget record ''metadata'' of
        PDict m \<Rightarrow>
          (case dget m ''graph_source_lineage'' of PDict l \<Rightarrow> folded (dget l ''source_kind'') = ''tier2'' | _ \<Rightarrow> False) \<or>
          folded (dget m ''batch_reason'') \<in> {''idle_window'', ''batch''}
      | _ \<Rightarrow> False)"

definition VOLATILE_BACKGROUND_STATE_TOKENS :: "string set" where
  "VOLATILE_BACKGROUND_STATE_TOKENS =
     {''active'', ''assignment'', ''availability'', ''available'', ''current'', ''hours'', ''progress'', ''remaining'', ''role'',
      ''state'', ''status'', ''task'', ''testing'', ''time''}"

fun field_tokens :: "string \<Rightarrow> string \<Rightarrow> string list" where
  "field_tokens acc [] = (if acc = [] then [] else [py_lower (rev acc)])"
| "field_tokens acc (c # cs) =
     (if is_alnum c then field_tokens (c # acc) cs
      else (if acc = [] then field_tokens [] cs else py_lower (rev acc) # field_tokens [] cs))"

definition is_unbounded_background_volatile_state :: "pydict \<Rightarrow> bool" where
  "is_unbounded_background_volatile_state record \<longleftrightarrow>
     \<not> truthy (dget record ''valid_to'') \<and>
     \<not> truthy (dget (as_mapping (dget (as_mapping (dget record ''metadata'')) ''temporal'')) ''valid_to'') \<and>
     is_background_relative_duration_source record \<and>
     list_ex (\<lambda>w. w \<in> VOLATILE_BACKGROUND_STATE_TOKENS)
       (field_tokens [] (py_str (py_or (dget record ''attribute'') (py_or (dget record ''predicate'') (PStr [])))))"

text \<open>\<open>(temporal or {}).get(key)\<close>: a truthy value that is no mapping has no \<open>get\<close>.\<close>

definition temporal_get :: "pyval \<Rightarrow> string \<Rightarrow> pyval result" where
  "temporal_get temporal key =
     (case temporal of PDict t \<Rightarrow> Inr (dget t key) | _ \<Rightarrow> if truthy temporal then Inl AttributeError else Inr PNone)"

definition parse_or :: "pyval \<Rightarrow> pyval result \<Rightarrow> int option result" where
  "parse_or v other = rbind (parse_iso v) (\<lambda>a. case a of Some x \<Rightarrow> Inr (Some x) | None \<Rightarrow> rbind other parse_iso)"

definition effective_valid_to :: "pydict \<Rightarrow> int option \<Rightarrow> int option result" where
  "effective_valid_to record valid_from =
     (let metadata = dget record ''metadata''; temporal = dget (as_mapping metadata) ''temporal'';
          lineage = dget (as_mapping metadata) ''graph_source_lineage'' in
      rbind (parse_or (dget record ''valid_to'') (temporal_get temporal ''valid_to'')) (\<lambda>valid_to.
        case valid_to of
          Some t \<Rightarrow> Inr (Some t)
        | None \<Rightarrow>
            rbind (infer_relative_duration_valid_to
                (py_str (py_or (dget record ''value_text'') (py_or (dget record ''object_value'') (PStr []))))
                (if is_mapping temporal then temporal else PNone) (if is_mapping metadata then metadata else PNone)
                (py_str (py_or (dget record ''attribute'') (py_or (dget record ''predicate'') (PStr []))))) (\<lambda>inferred.
              case inferred of
                None \<Rightarrow> Inr None
              | Some text \<Rightarrow>
                  if is_background_relative_duration_source record then
                    rbind (case lineage of PDict l \<Rightarrow> parse_iso (dget l ''observed_at'') | _ \<Rightarrow> Inr None) (\<lambda>observed.
                      case valid_from of
                        Some t \<Rightarrow> Inr (Some t)
                      | None \<Rightarrow>
                          rbind (rbind (temporal_get temporal ''observed_at'') parse_iso) (\<lambda>a. Inr (first_of a observed)))
                  else parse_iso (PStr text))))"

definition record_temporal_status :: "pydict \<Rightarrow> pyval \<Rightarrow> int \<Rightarrow> string result" where
  "record_temporal_status record as_of now =
     rbind (parse_or (dget record ''valid_from'') (temporal_get (dget (as_mapping (dget record ''metadata'')) ''temporal'') ''valid_from''))
       (\<lambda>valid_from.
     rbind (effective_valid_to record valid_from) (\<lambda>valid_to.
       if valid_to = None \<and> is_unbounded_background_volatile_state record then Inr ''expired''
       else rbind (parse_iso as_of) (\<lambda>moment.
         (let point = (case moment of Some t \<Rightarrow> t | None \<Rightarrow> now) in
          Inr (if (case valid_from of Some t \<Rightarrow> point < t | None \<Rightarrow> False) then ''not_yet_valid''
               else if (case valid_to of Some t \<Rightarrow> t \<le> point | None \<Rightarrow> False) then ''expired''
               else ''current'')))))"

definition record_is_effective_at :: "pydict \<Rightarrow> pyval \<Rightarrow> int \<Rightarrow> bool result" where
  "record_is_effective_at record as_of now = rbind (record_temporal_status record as_of now) (\<lambda>s. Inr (s = ''current''))"

section \<open>Provenance\<close>

definition PROVENANCE_ID_LIST_KEYS :: "string set" where
  "PROVENANCE_ID_LIST_KEYS =
     {''resource_ids'', ''extract_ids'', ''claim_ids'', ''entity_ids'', ''relation_ids'', ''source_ids'', ''source_event_ids'',
      ''merged_record_ids''}"

definition PROVENANCE_STRING_KEYS :: "string set" where
  "PROVENANCE_STRING_KEYS =
     {''event_id'', ''trace_id'', ''correlation_id'', ''origin'', ''status_reason'', ''replacement_record_id'', ''merge_reason'',
      ''supersedes''}"

definition is_id_list_key :: "string \<Rightarrow> bool" where
  "is_id_list_key key \<longleftrightarrow> key \<in> PROVENANCE_ID_LIST_KEYS \<or> py_startswith (rev key) (rev ''_ids'')"

definition normalize_id_list :: "pyval \<Rightarrow> string list" where
  "normalize_id_list value =
     (let items = (case value of PNone \<Rightarrow> [] | PList xs \<Rightarrow> xs | v \<Rightarrow> [v]) in
      sorted_set (filter (\<lambda>t. t \<noteq> []) (map (\<lambda>x. py_strip (py_str x)) items)))"

definition provenance_value :: "string \<Rightarrow> pyval \<Rightarrow> pyval option" where
  "provenance_value key value =
     (if key = [] then None
      else if is_id_list_key key then
        (let items = normalize_id_list value in if items = [] then None else Some (PList (map PStr items)))
      else if key \<in> PROVENANCE_STRING_KEYS then
        (let text = (if value = PNone then [] else py_strip (py_str value)) in if text = [] then None else Some (PStr text))
      else case value of
        PStr s \<Rightarrow> (if py_strip s = [] then None else Some (PStr (py_strip s)))
      | PNone \<Rightarrow> None
      | v \<Rightarrow> Some v)"

definition provenance_step :: "pydict \<Rightarrow> string \<times> pyval \<Rightarrow> pydict" where
  "provenance_step acc item =
     (let key = py_strip (fst item) in
      case provenance_value key (snd item) of None \<Rightarrow> acc | Some v \<Rightarrow> dset key v acc)"

definition normalize_provenance :: "pyval \<Rightarrow> pydict" where
  "normalize_provenance p = foldl provenance_step [] (as_mapping p)"

definition merge_step :: "pydict \<Rightarrow> string \<times> pyval \<Rightarrow> pydict" where
  "merge_step merged item =
     (let (key, value) = item in
      if is_id_list_key key
      then dset key (PList (map PStr (normalize_id_list (PList (as_list (dget merged key) @ as_list value))))) merged
      else dset key value merged)"

definition merge_provenance :: "pyval list \<Rightarrow> pydict" where
  "merge_provenance parts = foldl (\<lambda>merged part. foldl merge_step merged (normalize_provenance part)) [] parts"

section \<open>Scope\<close>

definition PRINCIPAL_SCOPE_KEY_FIELDS :: "string list" where
  "PRINCIPAL_SCOPE_KEY_FIELDS =
     [''platform'', ''user_id'', ''agent_identity'', ''agent_workspace'', ''chat_type'', ''chat_id'', ''thread_id'']"

definition scope_key_from_payload :: "pydict \<Rightarrow> string list \<Rightarrow> string" where
  "scope_key_from_payload payload names =
     py_join ''|'' [k @ '':'' @ strip_text (dget payload k). k \<leftarrow> names, strip_text (dget payload k) \<noteq> []]"

lemma size_dget: "dget m k = PDict c \<Longrightarrow> size (PDict c) < size (PDict m)"
  by (induction m) (auto split: if_splits simp: dget_def)

function principal_scope_key_from_metadata :: "pydict \<Rightarrow> string" where
  "principal_scope_key_from_metadata m =
     (if strip_text (dget m ''principal_scope_key'') \<noteq> [] then strip_text (dget m ''principal_scope_key'')
      else case dget m ''principal_scope'' of
        PDict nested \<Rightarrow> scope_key_from_payload nested PRINCIPAL_SCOPE_KEY_FIELDS
      | _ \<Rightarrow>
          (let scoped = (case dget m ''document'' of PDict c \<Rightarrow> principal_scope_key_from_metadata c | _ \<Rightarrow> []) in
           if scoped \<noteq> [] then scoped
           else case dget m ''section'' of PDict c \<Rightarrow> principal_scope_key_from_metadata c | _ \<Rightarrow> []))"
  by pat_completeness auto
termination
  by (relation "measure (\<lambda>m. size (PDict m))") (auto dest: size_dget)

section \<open>Source lineage\<close>

definition GRAPH_SOURCE_LINEAGE_SCHEMA :: string where "GRAPH_SOURCE_LINEAGE_SCHEMA = ''brainstack.graph_source_lineage.v1''"

definition ALLOWED_GRAPH_SOURCE_KINDS :: "string set" where
  "ALLOWED_GRAPH_SOURCE_KINDS =
     {''explicit_api'', ''typed_evidence'', ''turn'', ''transcript'', ''continuity'', ''corpus_document'', ''document'',
      ''migration'', ''tier2'', ''unknown''}"

definition PRIVATE_LINEAGE_FIELD_HINTS :: "string set" where
  "PRIVATE_LINEAGE_FIELD_HINTS =
     {''content'', ''body'', ''raw_text'', ''text'', ''path'', ''file_path'', ''runtime_path'', ''auth'', ''token'', ''secret'',
      ''password''}"

definition PRIVATE_MARKERS :: "string list" where
  "PRIVATE_MARKERS = [''/home/'', ''/users/'', ''/opt/data/'', ''auth'', ''token'', ''secret'', ''password'']"

definition stable_redaction_id :: "string \<Rightarrow> string" where
  "stable_redaction_id value = ''redacted:'' @ take 16 (sha256_hex value)"

definition looks_private_identifier :: "string \<Rightarrow> bool" where
  "looks_private_identifier value \<longleftrightarrow>
     (let t = py_strip value in
      t \<noteq> [] \<and>
      (hd t \<in> {CHR ''/'', CHR ''~''} \<or> take 2 t = [CHR 0x5C, CHR 0x5C] \<or>
       3 \<le> length t \<and> t ! 1 = CHR '':'' \<and> t ! 2 \<in> {CHR 0x5C, CHR ''/''} \<or>
       list_ex (\<lambda>marker. py_contains marker (py_lower t)) PRIVATE_MARKERS))"

definition safe_identifier :: "pyval \<Rightarrow> string \<times> bool" where
  "safe_identifier value =
     (let t = norm_text value in
      if t = [] then ([], False)
      else if looks_private_identifier t then (stable_redaction_id t, True)
      else (take 160 t, False))"

fun py_or_chain :: "pyval list \<Rightarrow> pyval" where
  "py_or_chain [] = PNone"
| "py_or_chain [v] = v"
| "py_or_chain (v # vs) = py_or v (py_or_chain vs)"

definition source_kind_from_metadata :: "pydict \<Rightarrow> string \<Rightarrow> string" where
  "source_kind_from_metadata m source =
     (let explicit = py_lower (norm_text (py_or (dget m ''lineage_source_kind'') (dget m ''source_kind'')));
          s = py_lower (norm_text (PStr source)) in
      if explicit \<in> ALLOWED_GRAPH_SOURCE_KINDS then explicit
      else if norm_text (dget m ''source_turn_id'') \<noteq> [] then ''turn''
      else if norm_text (dget m ''source_document_id'') \<noteq> [] then ''document''
      else case dget m ''graph_evidence'' of
        PDict e \<Rightarrow>
          (if norm_text (dget e ''source_turn_id'') \<noteq> [] then ''turn''
           else if norm_text (dget e ''source_document_id'') \<noteq> [] then ''document'' else ''typed_evidence'')
      | _ \<Rightarrow>
          if py_startswith s ''corpus'' \<or> py_startswith s ''doc:'' then ''corpus_document''
          else if py_startswith s ''tier2'' then ''tier2''
          else if py_startswith s ''migration:'' then ''migration''
          else if source \<noteq> [] then ''explicit_api'' else ''unknown'')"

definition lineage_stable_id :: "pydict \<Rightarrow> string \<Rightarrow> pyval" where
  "lineage_stable_id m source =
     (let evidence = as_mapping (dget m ''graph_evidence'');
          source_ids = as_list (dget (as_mapping (dget m ''provenance'')) ''source_ids'') in
      py_or_chain
        [dget m ''lineage_source_id'', dget m ''source_stable_id'', dget m ''source_turn_id'', dget m ''source_document_id'',
         dget evidence ''source_turn_id'', dget evidence ''source_document_id'',
         case source_ids of x # _ \<Rightarrow> x | [] \<Rightarrow> PStr [], PStr source])"

definition lineage_observed_at :: "pydict \<Rightarrow> string" where
  "lineage_observed_at m =
     (let temporal = (case dget m ''temporal'' of PDict t \<Rightarrow> dget t ''observed_at'' | _ \<Rightarrow> PStr []);
          observed = norm_text (py_or (dget m ''observed_at'') temporal) in
      if observed = [] then norm_text (py_or_chain [dget m ''created_at'', dget m ''updated_at'', PStr []]) else observed)"

definition has_lineage :: "pydict \<Rightarrow> bool" where
  "has_lineage m \<longleftrightarrow>
     (case dget m ''graph_source_lineage'' of
        PDict l \<Rightarrow> py_str (py_or (dget l ''schema'') (PStr [])) = GRAPH_SOURCE_LINEAGE_SCHEMA
      | _ \<Rightarrow> False)"

definition lineage_text :: "string \<Rightarrow> string \<Rightarrow> pydict" where
  "lineage_text key value = (if value = [] then [] else [(key, PStr value)])"

definition fresh_lineage :: "pydict \<Rightarrow> string \<Rightarrow> string \<Rightarrow> pydict" where
  "fresh_lineage m source graph_kind =
     (let (stable_id, redacted) = safe_identifier (lineage_stable_id m source);
          kind = source_kind_from_metadata m source;
          (table, table_redacted) = safe_identifier (py_or (dget m ''source_row_table'') (dget m ''lineage_source_table''));
          (row, row_redacted) = safe_identifier (py_or (dget m ''source_row_id'') (dget m ''lineage_source_row_id''));
          provenance_class = norm_text (py_or_chain
            [dget m ''provenance_class'', dget (as_mapping (dget m ''graph_evidence'')) ''provenance_class'',
             dget (as_mapping (dget m ''provenance'')) ''origin'', dget m ''source_kind'', PStr kind]);
          active = stable_id \<noteq> [] \<and> kind \<noteq> ''unknown'' in
      [(''schema'', PStr GRAPH_SOURCE_LINEAGE_SCHEMA), (''status'', PStr (if active then ''active'' else ''degraded'')),
       (''source_kind'', PStr (if kind \<in> ALLOWED_GRAPH_SOURCE_KINDS then kind else ''unknown''))] @
      lineage_text ''source_stable_id'' stable_id @ lineage_text ''graph_kind'' (norm_text (PStr graph_kind)) @
      lineage_text ''provenance_class'' provenance_class @ lineage_text ''observed_at'' (lineage_observed_at m) @
      lineage_text ''source_row_table'' table @ lineage_text ''source_row_id'' row @
      (if redacted \<or> table_redacted \<or> row_redacted
       then [(''redacted'', PBool True), (''redaction_reason'', PStr ''private_identifier'')] else []) @
      (if active then [] else [(''degraded_reason'', PStr ''missing_structured_source'')]))"

text \<open>A lineage that carries the schema is taken over as it is.\<close>

definition build_graph_source_lineage :: "pydict \<Rightarrow> string \<Rightarrow> string \<Rightarrow> pydict" where
  "build_graph_source_lineage m source graph_kind =
     (if has_lineage m then as_mapping (dget m ''graph_source_lineage'') else fresh_lineage m source graph_kind)"

definition sanitized_provenance :: "pydict \<Rightarrow> pydict" where
  "sanitized_provenance p =
     (case dget p ''source_ids'' of
        PList ids \<Rightarrow>
          (let safe = map safe_identifier ids;
               q = dset ''source_ids'' (PList (map PStr (sorted_set (filter (\<lambda>t. t \<noteq> []) (map fst safe))))) p in
           if list_ex snd safe
           then dset ''redaction_reason'' (PStr ''private_identifier'') (dset ''redacted'' (PBool True) q) else q)
      | _ \<Rightarrow> p)"

definition attach_graph_source_lineage :: "pydict \<Rightarrow> string \<Rightarrow> string \<Rightarrow> pydict" where
  "attach_graph_source_lineage m source graph_kind =
     (let lineage = build_graph_source_lineage m source graph_kind;
          output = dset ''graph_source_lineage'' (PDict lineage) m;
          output = (case dget output ''provenance'' of
              PDict p \<Rightarrow> (if is_list (dget p ''source_ids'') then dset ''provenance'' (PDict (sanitized_provenance p)) output
                           else output)
            | _ \<Rightarrow> output);
          output = (if dget lineage ''status'' = PStr ''active''
                    then dsetdefault ''graph_authority_status'' (PStr ''trusted_with_lineage'') output
                    else dset ''graph_authority_status'' (PStr ''degraded_missing_lineage'') output) in
      filter (\<lambda>(k, _). py_lower k \<notin> PRIVATE_LINEAGE_FIELD_HINTS) output)"

definition LINEAGE_FIELDS :: "string set" where
  "LINEAGE_FIELDS =
     {''schema'', ''status'', ''source_kind'', ''source_stable_id'', ''source_row_table'', ''source_row_id'', ''observed_at'',
      ''graph_kind'', ''provenance_class'', ''degraded_reason'', ''redacted'', ''redaction_reason''}"

definition compact_graph_source_lineage :: "pydict \<Rightarrow> pydict" where
  "compact_graph_source_lineage m =
     filter (\<lambda>(k, v). k \<in> LINEAGE_FIELDS \<and> v \<notin> {PStr [], PNone, PList []}) (as_mapping (dget m ''graph_source_lineage''))"

section \<open>Record metadata\<close>

definition sub_dict :: "pydict \<Rightarrow> string \<Rightarrow> pydict" where
  "sub_dict m k = as_mapping (dget m k)"

definition PROVENANCE_SEED_KEYS :: "string list" where
  "PROVENANCE_SEED_KEYS =
     [''session_id'', ''turn_number'', ''tier'', ''target'', ''admission_reason'', ''origin'', ''status_reason'', ''trace_id'',
      ''correlation_id'']"

text \<open>Moves the keys that are present from one dictionary to another, in the order of the list.\<close>

definition move_keys :: "string list \<Rightarrow> pydict \<Rightarrow> pydict \<Rightarrow> pydict" where
  "move_keys keys from into = foldl (\<lambda>d k. if dhas from k then dset k (dget from k) d else d) into keys"

definition put_nonempty :: "string \<Rightarrow> pydict \<Rightarrow> pydict \<Rightarrow> pydict" where
  "put_nonempty key value d = (if value = [] then d else dset key (PDict value) d)"

definition normalize_record_metadata :: "pydict \<Rightarrow> string \<Rightarrow> pydict result" where
  "normalize_record_metadata metadata source =
     (let payload = dpop ''temporal'' metadata;
          temporal_payload = move_keys TEMPORAL_KEYS payload (as_mapping (dget metadata ''temporal''));
          payload = without_temporal payload in
      rbind (normalize_temporal_fields temporal_payload) (\<lambda>n.
        (let temporal = dupdate n (without_temporal temporal_payload);
             nested_provenance = dget payload ''provenance'';
             payload = dpop ''provenance'' payload;
             seed = (if source = [] then [] else [(''source_ids'', PList [PStr source])]);
             provenance = merge_provenance [PDict (move_keys PROVENANCE_SEED_KEYS payload seed), nested_provenance];
             payload = filter (\<lambda>(k, _). k \<notin> set PROVENANCE_SEED_KEYS) payload in
         Inr (put_nonempty ''provenance'' provenance (put_nonempty ''temporal'' temporal payload)))))"

definition merge_record_metadata :: "pydict \<Rightarrow> pydict \<Rightarrow> string \<Rightarrow> pydict result" where
  "merge_record_metadata existing metadata source =
     rbind (normalize_record_metadata metadata source) (\<lambda>incoming.
       (let plain = filter (\<lambda>(k, _). k \<notin> {''temporal'', ''provenance''}) in
        rbind (merge_temporal (dget existing ''temporal'') (dget incoming ''temporal'')) (\<lambda>temporal.
          Inr (put_nonempty ''provenance'' (merge_provenance [dget existing ''provenance'', dget incoming ''provenance''])
            (put_nonempty ''temporal'' temporal (dupdate (plain existing) (plain incoming)))))))"

definition normalize_graph_record_metadata :: "pydict \<Rightarrow> string \<Rightarrow> string \<Rightarrow> pydict result" where
  "normalize_graph_record_metadata metadata source graph_kind =
     rbind (normalize_record_metadata metadata source) (\<lambda>n.
       Inr (attach_graph_source_lineage
         (dsetdefault ''graph_kind'' (PStr (if graph_kind \<in> {''relation'', ''inferred_relation''} then ''relation'' else graph_kind))
           (dsetdefault ''source_kind'' (PStr (if graph_kind = ''inferred_relation'' then ''inferred'' else ''explicit'')) n))
         source graph_kind))"

definition merge_graph_record_metadata :: "pydict \<Rightarrow> pydict \<Rightarrow> string \<Rightarrow> string \<Rightarrow> pydict result" where
  "merge_graph_record_metadata existing metadata source graph_kind =
     rbind (merge_record_metadata existing metadata source) (\<lambda>m. Inr (attach_graph_source_lineage m source graph_kind))"
section \<open>Lemmas on times\<close>

lemma rbind_simps [simp]: "rbind (Inl e) f = Inl e" "rbind (Inr x) f = f x"
  by (simp_all add: rbind_def)

lemma rbind_Inr: "rbind r f = Inr y \<longleftrightarrow> (\<exists>x. r = Inr x \<and> f x = Inr y)"
  by (cases r) (auto simp: rbind_def)

lemma parse_iso_bounds: "parse_iso v = Inr (Some us) \<Longrightarrow> 0 \<le> us \<and> us < MAX_TIME"
  using fromisoformat_bounds by (auto simp: parse_iso_def Let_def split: if_splits option.splits)

lemma parse_iso_isoformat [simp]:
  assumes "0 \<le> us" "us < MAX_TIME"
  shows "parse_iso (PStr (isoformat_utc us)) = Inr (Some us)"
proof -
  have "strip_text (PStr (isoformat_utc us)) = isoformat_utc us"
    using isoformat_text [OF assms] by (simp add: strip_text_PStr strip_no_space)
  then show ?thesis
    using isoformat_text [OF assms] assms by (simp add: parse_iso_def Let_def fromisoformat_isoformat)
qed

lemma parse_iso_text: "parse_iso (PStr (strip_text v)) = parse_iso v"
  by (simp add: parse_iso_def)

section \<open>Lemmas on temporal metadata\<close>

lemma dget_append: "dget (a @ b) k = (if dhas a k then dget a k else dget b k)"
  by (auto simp: dget_def dhas_def map_add_def split: option.splits)

lemma dhas_append [simp]: "dhas (a @ b) k \<longleftrightarrow> dhas a k \<or> dhas b k"
  by (auto simp: dhas_def map_add_def split: option.splits)

lemma dget_absent: "\<not> dhas d k \<Longrightarrow> dget d k = PNone"
  by (simp add: dget_def dhas_def)

lemma stamp_item_simps [simp]:
  "dhas (stamp_item k t) k' \<longleftrightarrow> k = k' \<and> t \<noteq> None"
  "dget (stamp_item k t) k = (case t of None \<Rightarrow> PNone | Some us \<Rightarrow> PStr (isoformat_utc us))"
  by (auto simp: stamp_item_def split: option.splits)

lemma link_item_simps [simp]:
  "dhas (link_item d k) k' \<longleftrightarrow> k = k' \<and> strip_text (dget d k) \<noteq> []"
  "dget (link_item d k) k = (if strip_text (dget d k) = [] then PNone else PStr (strip_text (dget d k)))"
  by (auto simp: link_item_def Let_def)

lemma normalized_fields:
  assumes "normalize_temporal_fields d = Inr n"
  obtains observed moment start stop where
    "parse_iso (dget d ''observed_at'') = Inr observed" "parse_iso (dget d ''valid_at'') = Inr moment"
    "parse_iso (dget d ''valid_from'') = Inr start" "parse_iso (dget d ''valid_to'') = Inr stop"
    "n = stamp_item ''observed_at'' observed @ stamp_item ''valid_at'' moment @
       stamp_item ''valid_from'' (first_of start (first_of moment observed)) @ stamp_item ''valid_to'' stop @
       link_item d ''supersedes'' @ link_item d ''superseded_by'' @ link_item d ''episode_id''"
  using assms unfolding normalize_temporal_fields_def rbind_Inr by blast

definition stamp_value :: "int option \<Rightarrow> pyval" where
  "stamp_value t = (case t of None \<Rightarrow> PNone | Some us \<Rightarrow> PStr (isoformat_utc us))"

lemma normalized_dget:
  assumes "n = stamp_item ''observed_at'' observed @ stamp_item ''valid_at'' moment @
       stamp_item ''valid_from'' start @ stamp_item ''valid_to'' stop @
       link_item d ''supersedes'' @ link_item d ''superseded_by'' @ link_item d ''episode_id''"
  shows "dget n ''observed_at'' = stamp_value observed" "dget n ''valid_at'' = stamp_value moment"
    "dget n ''valid_from'' = stamp_value start" "dget n ''valid_to'' = stamp_value stop"
    "strip_text (dget n ''supersedes'') = strip_text (dget d ''supersedes'')"
    "strip_text (dget n ''superseded_by'') = strip_text (dget d ''superseded_by'')"
    "strip_text (dget n ''episode_id'') = strip_text (dget d ''episode_id'')"
    "dhas n k \<Longrightarrow> k \<in> set TEMPORAL_KEYS"
  unfolding assms stamp_value_def
  by (simp_all add: dget_append dget_absent TEMPORAL_KEYS_def split: option.splits) auto

lemma parse_stamp_value: "parse_iso v = Inr t \<Longrightarrow> parse_iso (stamp_value t) = Inr t"
  using parse_iso_bounds [of v] by (auto simp: stamp_value_def parse_iso_def [of PNone] split: option.splits)

lemma parse_first_of:
  "parse_iso v = Inr s \<Longrightarrow> parse_iso w = Inr t \<Longrightarrow> parse_iso (stamp_value (first_of s t)) = Inr (first_of s t)"
  by (cases s) (auto simp: first_of_def intro: parse_stamp_value)

lemma first_of_idem [simp]: "first_of (first_of s (first_of t u)) (first_of t u) = first_of s (first_of t u)"
  by (cases s; cases t) (simp_all add: first_of_def split: option.splits)

definition succeeds :: "'a result \<Rightarrow> bool" where
  "succeeds r \<longleftrightarrow> (case r of Inl _ \<Rightarrow> False | Inr _ \<Rightarrow> True)"

lemma succeeds_simps [simp]: "succeeds (Inr x)" "\<not> succeeds (Inl e)"
  by (simp_all add: succeeds_def)

definition TIME_KEYS :: "string list" where
  "TIME_KEYS = [''observed_at'', ''valid_at'', ''valid_from'', ''valid_to'']"

text \<open>The four times can be read; a time outside the years 1 to 9999 is what raises.\<close>

definition times_ok :: "pydict \<Rightarrow> bool" where
  "times_ok d \<longleftrightarrow> list_all (\<lambda>k. succeeds (parse_iso (dget d k))) TIME_KEYS"

lemma succeeds_iff: "succeeds r \<longleftrightarrow> (\<exists>x. r = Inr x)"
  by (cases r) simp_all

lemma normalize_total: "succeeds (normalize_temporal_fields d) \<longleftrightarrow> times_ok d"
  unfolding normalize_temporal_fields_def times_ok_def TIME_KEYS_def
  by (cases "parse_iso (dget d ''observed_at'')"; cases "parse_iso (dget d ''valid_at'')";
      cases "parse_iso (dget d ''valid_from'')"; cases "parse_iso (dget d ''valid_to'')") simp_all

text \<open>Normalised fields are read back as they are, whatever other keys stand beside them.\<close>

lemma normalize_again:
  assumes n: "normalize_temporal_fields d = Inr n" and same: "\<And>k. k \<in> set TEMPORAL_KEYS \<Longrightarrow> dget d' k = dget n k"
  shows "normalize_temporal_fields d' = Inr n"
proof -
  obtain observed moment start stop where p:
    "parse_iso (dget d ''observed_at'') = Inr observed" "parse_iso (dget d ''valid_at'') = Inr moment"
    "parse_iso (dget d ''valid_from'') = Inr start" "parse_iso (dget d ''valid_to'') = Inr stop"
    and n: "n = stamp_item ''observed_at'' observed @ stamp_item ''valid_at'' moment @
       stamp_item ''valid_from'' (first_of start (first_of moment observed)) @ stamp_item ''valid_to'' stop @
       link_item d ''supersedes'' @ link_item d ''superseded_by'' @ link_item d ''episode_id''"
    using normalized_fields [OF n] by metis
  note f = normalized_dget [OF n]
  have first: "parse_iso (stamp_value (first_of start (first_of moment observed))) = Inr (first_of start (first_of moment observed))"
  proof (cases start)
    case None
    then show ?thesis using parse_first_of [OF p(2) p(1)] by (simp add: first_of_def)
  next
    case (Some s)
    then show ?thesis using parse_stamp_value [OF p(3)] by (simp add: first_of_def)
  qed
  have q: "parse_iso (dget d' ''observed_at'') = Inr observed" "parse_iso (dget d' ''valid_at'') = Inr moment"
    "parse_iso (dget d' ''valid_from'') = Inr (first_of start (first_of moment observed))"
    "parse_iso (dget d' ''valid_to'') = Inr stop"
    using p f(1-4) parse_stamp_value first by (simp_all add: same TEMPORAL_KEYS_def)
  have l: "link_item d' k = link_item d k" if "strip_text (dget n k) = strip_text (dget d k)" "k \<in> set TEMPORAL_KEYS" for k
    using that by (simp add: link_item_def same)
  show ?thesis
    unfolding normalize_temporal_fields_def q rbind_simps n using l f(5-7) by (simp add: TEMPORAL_KEYS_def)
qed

lemma normalize_times_ok: "normalize_temporal_fields d = Inr n \<Longrightarrow> (\<And>k. k \<in> set TIME_KEYS \<Longrightarrow> dget d' k = dget n k) \<Longrightarrow> times_ok d'"
proof -
  assume n: "normalize_temporal_fields d = Inr n" and same: "\<And>k. k \<in> set TIME_KEYS \<Longrightarrow> dget d' k = dget n k"
  have "times_ok n" using normalize_again [OF n, of n] by (simp flip: normalize_total)
  then show "times_ok d'" by (simp add: times_ok_def list_all_iff same)
qed

lemma dget_filter: "dget (filter (\<lambda>(k, _). P k) d) k = (if P k then dget d k else PNone)"
  by (induction d) auto

lemma dhas_filter [simp]: "dhas (filter (\<lambda>(k, _). P k) d) k \<longleftrightarrow> P k \<and> dhas d k"
  by (induction d) auto

lemma without_temporal_simps [simp]:
  "dget (without_temporal d) k = (if k \<in> set TEMPORAL_KEYS then PNone else dget d k)"
  "dhas (without_temporal d) k \<longleftrightarrow> k \<notin> set TEMPORAL_KEYS \<and> dhas d k"
  unfolding without_temporal_def by (simp_all add: dget_filter)

lemma dhas_keys: "dhas d k \<longleftrightarrow> k \<in> set (map fst d)"
  by (induction d) auto

lemma dhas_dupdate [simp]: "dhas (dupdate d e) k \<longleftrightarrow> dhas d k \<or> dhas e k"
  by (induction d e rule: dupdate.induct) auto

lemma dget_dupdate_absent: "\<not> dhas e k \<Longrightarrow> dget (dupdate d e) k = dget d k"
  by (simp add: dget_dupdate_frame dhas_keys)

lemma dget_dupdate: "distinct (map fst e) \<Longrightarrow> dget (dupdate d e) k = (if dhas e k then dget e k else dget d k)"
proof (induction d e rule: dupdate.induct)
  case (2 d k' v e)
  then show ?case by (auto simp: dhas_keys)
qed simp

lemma dset_new: "\<not> dhas d k \<Longrightarrow> dset k v d = d @ [(k, v)]"
  by (induction d) (auto simp: dset_def)

lemma dupdate_new: "distinct (map fst e) \<Longrightarrow> (\<And>k. dhas e k \<Longrightarrow> \<not> dhas d k) \<Longrightarrow> dupdate d e = d @ e"
proof (induction e arbitrary: d)
  case (Cons x e)
  obtain k v where x: "x = (k, v)" by (cases x)
  have "\<not> dhas d k" using Cons.prems(2) [of k] x by simp
  moreover have "\<not> dhas (d @ [(k, v)]) k'" if "dhas e k'" for k'
    using that Cons.prems x by (auto simp: dhas_keys)
  ultimately show ?case using Cons.IH [of "d @ [(k, v)]"] Cons.prems x by (simp add: dset_new)
qed simp

lemma distinct_filter_keys: "distinct (map fst d) \<Longrightarrow> distinct (map fst (filter P d))"
  by (induction d) auto

lemma merge_temporal_fields:
  assumes "merge_temporal e i = Inr t"
  obtains n where "normalize_temporal_fields (dupdate (as_mapping e) (as_mapping i)) = Inr n"
    "t = dupdate n (without_temporal (dupdate (as_mapping e) (as_mapping i)))"
    "\<And>k. k \<in> set TEMPORAL_KEYS \<Longrightarrow> dget t k = dget n k"
proof -
  let ?p = "dupdate (as_mapping e) (as_mapping i)"
  obtain n where n: "normalize_temporal_fields ?p = Inr n" "t = dupdate n (without_temporal ?p)"
    using assms unfolding merge_temporal_def Let_def rbind_Inr by blast
  show ?thesis using that [OF n] n(2) by (simp add: dget_dupdate_absent)
qed

lemma merge_temporal_times_ok: "merge_temporal e i = Inr t \<Longrightarrow> times_ok t"
  by (erule merge_temporal_fields, erule normalize_times_ok) (auto simp: TIME_KEYS_def TEMPORAL_KEYS_def)

lemma merge_temporal_total: "succeeds (merge_temporal e i) \<longleftrightarrow> times_ok (dupdate (as_mapping e) (as_mapping i))"
  unfolding merge_temporal_def Let_def normalize_total [symmetric]
  by (cases "normalize_temporal_fields (dupdate (as_mapping e) (as_mapping i))") simp_all

text \<open>Merged validity times are a normal form: merging the result again, with nothing, with itself or with its own
  fields, gives the same dictionary, so a record can be rewritten any number of times without its times drifting.\<close>

theorem temporal_merge_is_normal_form:
  assumes "distinct (map fst (as_mapping e))" "distinct (map fst (as_mapping i))" "merge_temporal e i = Inr t"
  shows "merge_temporal (PDict t) PNone = Inr t \<and> merge_temporal PNone (PDict t) = Inr t"
proof -
  let ?p = "dupdate (as_mapping e) (as_mapping i)"
  obtain n where n: "normalize_temporal_fields ?p = Inr n" "t = dupdate n (without_temporal ?p)"
    "\<And>k. k \<in> set TEMPORAL_KEYS \<Longrightarrow> dget t k = dget n k"
    using merge_temporal_fields [OF assms(3)] by metis
  obtain observed moment start stop where p:
    "n = stamp_item ''observed_at'' observed @ stamp_item ''valid_at'' moment @
       stamp_item ''valid_from'' start @ stamp_item ''valid_to'' stop @
       link_item ?p ''supersedes'' @ link_item ?p ''superseded_by'' @ link_item ?p ''episode_id''"
    using normalized_fields [OF n(1)] by metis
  have nk: "dhas n k \<Longrightarrow> k \<in> set TEMPORAL_KEYS" for k by (rule normalized_dget(8) [OF p])
  have dp: "distinct (map fst ?p)" using assms(1) by (rule distinct_keys_dupdate)
  then have dw: "distinct (map fst (without_temporal ?p))" unfolding without_temporal_def by (rule distinct_filter_keys)
  have t: "t = n @ without_temporal ?p"
    unfolding n(2) using dw nk by (intro dupdate_new) auto
  have "filter (\<lambda>(k, _). k \<notin> set TEMPORAL_KEYS) n = []"
    using nk by (auto simp: filter_empty_conv dhas_keys image_iff) force
  then have wt: "without_temporal t = without_temporal ?p" unfolding t by (simp add: without_temporal_def)
  have again: "normalize_temporal_fields t = Inr n" by (rule normalize_again [OF n(1) n(3)])
  have dt: "distinct (map fst t)"
  proof -
    have "distinct (map fst n)" unfolding p stamp_item_def link_item_def Let_def by (auto split: option.splits)
    then show ?thesis unfolding n(2) by (rule distinct_keys_dupdate)
  qed
  have "dupdate [] t = t" using dupdate_new [OF dt, of "[]"] by simp
  then show "merge_temporal (PDict t) PNone = Inr t \<and> merge_temporal PNone (PDict t) = Inr t"
    using again wt n(2) by (simp_all add: merge_temporal_def Let_def)
qed

lemma normalized_distinct: "normalize_temporal_fields d = Inr n \<Longrightarrow> distinct (map fst n)"
  by (erule normalized_fields) (auto simp: stamp_item_def link_item_def Let_def split: option.splits)

section \<open>Lemmas on record metadata\<close>

text \<open>Normalised metadata: no temporal key at the top, and times that can be read under \<open>temporal\<close>.\<close>

definition metadata_ok :: "pydict \<Rightarrow> bool" where
  "metadata_ok m \<longleftrightarrow> (\<forall>k \<in> set TEMPORAL_KEYS. \<not> dhas m k) \<and> times_ok (sub_dict m ''temporal'')"

lemma sub_dict_dset [simp]: "sub_dict (dset k v m) k' = (if k = k' then as_mapping v else sub_dict m k')"
  by (simp add: sub_dict_def)

lemma put_nonempty_simps [simp]:
  "dhas (put_nonempty k v m) k' \<longleftrightarrow> dhas m k' \<or> k = k' \<and> v \<noteq> []"
  "dget (put_nonempty k v m) k' = (if k = k' \<and> v \<noteq> [] then PDict v else dget m k')"
  "sub_dict (put_nonempty k v m) k' = (if k = k' \<and> v \<noteq> [] then v else sub_dict m k')"
  by (auto simp: put_nonempty_def sub_dict_def)

lemma dhas_dpop [simp]: "dhas (dpop k d) k' \<longleftrightarrow> k \<noteq> k' \<and> dhas d k'"
  by (simp add: dhas_def map_of_dpop)

lemma times_ok_Nil [simp]: "times_ok []"
  by (simp add: times_ok_def parse_iso_def list_all_iff)

lemma temporal_top: "''temporal'' \<notin> set TEMPORAL_KEYS" "''provenance'' \<notin> set TEMPORAL_KEYS"
    "''temporal'' \<notin> set PROVENANCE_SEED_KEYS" "''provenance'' \<notin> set PROVENANCE_SEED_KEYS"
  by (simp_all add: TEMPORAL_KEYS_def PROVENANCE_SEED_KEYS_def)

lemma move_keys_none: "\<forall>k \<in> set ks. \<not> dhas from k \<Longrightarrow> move_keys ks from into = into"
  unfolding move_keys_def by (induction ks arbitrary: into) auto

text \<open>The fields of the payload after its temporal keys, its provenance and the keys of its provenance are taken out.\<close>

definition plain_key :: "string \<Rightarrow> bool" where
  "plain_key k \<longleftrightarrow> k \<notin> set TEMPORAL_KEYS \<and> k \<notin> set PROVENANCE_SEED_KEYS \<and> k \<noteq> ''temporal'' \<and> k \<noteq> ''provenance''"

lemma normalize_record_fields:
  assumes "normalize_record_metadata m source = Inr n"
  obtains p t where
    "normalize_temporal_fields (move_keys TEMPORAL_KEYS (dpop ''temporal'' m) (sub_dict m ''temporal'')) = Inr p"
    "t = dupdate p (without_temporal (move_keys TEMPORAL_KEYS (dpop ''temporal'' m) (sub_dict m ''temporal'')))"
    "sub_dict n ''temporal'' = t"
    "\<And>k. plain_key k \<Longrightarrow> dget n k = dget m k \<and> (dhas n k \<longleftrightarrow> dhas m k)"
    "\<And>k. \<not> plain_key k \<Longrightarrow> k \<noteq> ''temporal'' \<Longrightarrow> k \<noteq> ''provenance'' \<Longrightarrow> \<not> dhas n k"
    "dhas n ''temporal'' \<longleftrightarrow> t \<noteq> []" "distinct (map fst t)" "distinct (map fst m) \<Longrightarrow> distinct (map fst n)"
proof -
  define tp where "tp = move_keys TEMPORAL_KEYS (dpop ''temporal'' m) (as_mapping (dget m ''temporal''))"
  obtain p where p: "normalize_temporal_fields tp = Inr p"
    using assms unfolding normalize_record_metadata_def Let_def rbind_Inr tp_def by blast
  define t where "t = dupdate p (without_temporal tp)"
  define payload where "payload = filter (\<lambda>(k, _). k \<notin> set PROVENANCE_SEED_KEYS) (dpop ''provenance'' (without_temporal (dpop ''temporal'' m)))"
  have pg: "dget payload k = (if plain_key k then dget m k else PNone)" "dhas payload k \<longleftrightarrow> plain_key k \<and> dhas m k" for k
    unfolding payload_def by (auto simp: dget_filter plain_key_def)
  obtain prov where n: "n = put_nonempty ''provenance'' prov (put_nonempty ''temporal'' t payload)"
    using assms p unfolding normalize_record_metadata_def Let_def t_def tp_def payload_def by auto
  have nt: "\<not> plain_key ''temporal''" "\<not> plain_key ''provenance''" by (simp_all add: plain_key_def)
  show ?thesis
  proof (rule that [of p t])
    show "sub_dict n ''temporal'' = t" unfolding n using pg nt by (simp add: sub_dict_def)
    show "dget n k = dget m k \<and> (dhas n k \<longleftrightarrow> dhas m k)" if "plain_key k" for k
      using that nt pg unfolding n by (cases "k = ''temporal''"; cases "k = ''provenance''") simp_all
    show "\<not> dhas n k" if "\<not> plain_key k" "k \<noteq> ''temporal''" "k \<noteq> ''provenance''" for k
      using that pg unfolding n by simp
    show "dhas n ''temporal'' \<longleftrightarrow> t \<noteq> []" using pg nt unfolding n by simp
    show "distinct (map fst t)" unfolding t_def by (intro distinct_keys_dupdate normalized_distinct [OF p])
    show "distinct (map fst n)" if "distinct (map fst m)"
      using that unfolding n payload_def without_temporal_def dpop_def put_nonempty_def
      by (auto intro!: distinct_keys_dset distinct_filter_keys distinct_delete)
  qed (use p t_def tp_def in \<open>simp_all add: sub_dict_def\<close>)
qed

lemma normalize_record_ok: "normalize_record_metadata m source = Inr n \<Longrightarrow> metadata_ok n"
proof (erule normalize_record_fields, goal_cases)
  case (1 p t)
  have "times_ok t"
    by (rule normalize_times_ok [OF 1(1)]) (auto simp: 1(2) dget_dupdate_absent TIME_KEYS_def TEMPORAL_KEYS_def)
  moreover have "\<not> plain_key k \<and> k \<noteq> ''temporal'' \<and> k \<noteq> ''provenance''" if "k \<in> set TEMPORAL_KEYS" for k
    using that temporal_top by (auto simp: plain_key_def)
  ultimately show ?case using 1(3,5) by (simp add: metadata_ok_def)
qed

lemma normalize_record_total: "metadata_ok m \<Longrightarrow> succeeds (normalize_record_metadata m source)"
proof -
  assume ok: "metadata_ok m"
  have "move_keys TEMPORAL_KEYS (dpop ''temporal'' m) (as_mapping (dget m ''temporal'')) = sub_dict m ''temporal''"
    using ok by (simp add: move_keys_none metadata_ok_def sub_dict_def)
  moreover have "succeeds (normalize_temporal_fields (sub_dict m ''temporal''))" using ok by (simp add: normalize_total metadata_ok_def)
  ultimately show ?thesis unfolding normalize_record_metadata_def Let_def
    by (cases "normalize_temporal_fields (sub_dict m ''temporal'')") simp_all
qed

lemma times_ok_dupdate: "times_ok d \<Longrightarrow> times_ok e \<Longrightarrow> distinct (map fst e) \<Longrightarrow> times_ok (dupdate d e)"
  by (auto simp: times_ok_def list_all_iff dget_dupdate)

lemma merge_record_fields:
  assumes "merge_record_metadata existing m source = Inr r"
  obtains n t where "normalize_record_metadata m source = Inr n"
    "merge_temporal (dget existing ''temporal'') (dget n ''temporal'') = Inr t" "sub_dict r ''temporal'' = t"
    "\<And>k. k \<noteq> ''temporal'' \<Longrightarrow> k \<noteq> ''provenance'' \<Longrightarrow> dhas r k \<longleftrightarrow> dhas existing k \<or> dhas n k"
    "\<And>k. distinct (map fst m) \<Longrightarrow> k \<noteq> ''temporal'' \<Longrightarrow> k \<noteq> ''provenance'' \<Longrightarrow>
       dget r k = (if dhas n k then dget n k else dget existing k)"
    "distinct (map fst existing) \<Longrightarrow> distinct (map fst r)"
proof -
  obtain n where n: "normalize_record_metadata m source = Inr n"
    using assms unfolding merge_record_metadata_def rbind_Inr by blast
  obtain t where t: "merge_temporal (dget existing ''temporal'') (dget n ''temporal'') = Inr t"
    using assms n unfolding merge_record_metadata_def Let_def rbind_Inr by auto
  define plain :: "pydict \<Rightarrow> pydict" where "plain = filter (\<lambda>(k, _). k \<notin> {''temporal'', ''provenance''})"
  define prov where "prov = merge_provenance [dget existing ''provenance'', dget n ''provenance'']"
  have r: "r = put_nonempty ''provenance'' prov (put_nonempty ''temporal'' t (dupdate (plain existing) (plain n)))"
    using assms n t unfolding merge_record_metadata_def Let_def plain_def prov_def by simp
  have ph: "dhas (plain d) k \<longleftrightarrow> k \<noteq> ''temporal'' \<and> k \<noteq> ''provenance'' \<and> dhas d k"
    "dget (plain d) k = (if k \<noteq> ''temporal'' \<and> k \<noteq> ''provenance'' then dget d k else PNone)" for d k
    unfolding plain_def by (auto simp: dget_filter)
  show ?thesis
  proof (rule that [OF n t])
    have "dget (dupdate (plain existing) (plain n)) ''temporal'' = PNone" by (simp add: dget_dupdate_absent ph)
    then show "sub_dict r ''temporal'' = t" unfolding r by (simp add: sub_dict_def)
    show "dhas r k \<longleftrightarrow> dhas existing k \<or> dhas n k" if "k \<noteq> ''temporal''" "k \<noteq> ''provenance''" for k
      using that unfolding r by (simp add: ph)
    show "dget r k = (if dhas n k then dget n k else dget existing k)"
      if d: "distinct (map fst m)" and k: "k \<noteq> ''temporal''" "k \<noteq> ''provenance''" for k
    proof -
      have "distinct (map fst n)" using normalize_record_fields [OF n] d by metis
      then have "distinct (map fst (plain n))" unfolding plain_def by (rule distinct_filter_keys)
      then show ?thesis unfolding r using k by (simp add: dget_dupdate ph)
    qed
    show "distinct (map fst r)" if "distinct (map fst existing)"
      using that unfolding r put_nonempty_def plain_def
      by (auto intro!: distinct_keys_dset distinct_keys_dupdate distinct_filter_keys)
  qed
qed

lemma merge_record_ok:
  assumes "merge_record_metadata existing m source = Inr r" "\<And>k. k \<in> set TEMPORAL_KEYS \<Longrightarrow> \<not> dhas existing k"
  shows "metadata_ok r"
proof (rule merge_record_fields [OF assms(1)])
  fix n t
  assume n: "normalize_record_metadata m source = Inr n"
    and t: "merge_temporal (dget existing ''temporal'') (dget n ''temporal'') = Inr t" "sub_dict r ''temporal'' = t"
    and h: "\<And>k. k \<noteq> ''temporal'' \<Longrightarrow> k \<noteq> ''provenance'' \<Longrightarrow> dhas r k \<longleftrightarrow> dhas existing k \<or> dhas n k"
  have "\<not> dhas r k" if "k \<in> set TEMPORAL_KEYS" for k
    using that h [of k] assms(2) normalize_record_ok [OF n] temporal_top by (auto simp: metadata_ok_def)
  then show ?thesis using merge_temporal_times_ok [OF t(1)] t(2) by (simp add: metadata_ok_def)
qed

lemma merge_record_total:
  assumes "metadata_ok m" "times_ok (sub_dict existing ''temporal'')"
  shows "succeeds (merge_record_metadata existing m source)"
proof -
  obtain n where n: "normalize_record_metadata m source = Inr n"
    using normalize_record_total [OF assms(1), of source] by (auto simp: succeeds_iff)
  obtain t where t: "sub_dict n ''temporal'' = t" "distinct (map fst t)" using normalize_record_fields [OF n] by metis
  have "times_ok t" using normalize_record_ok [OF n] t by (simp add: metadata_ok_def)
  then have "succeeds (merge_temporal (dget existing ''temporal'') (dget n ''temporal''))"
    unfolding merge_temporal_total using assms(2) t unfolding sub_dict_def by (simp add: times_ok_dupdate)
  then show ?thesis unfolding merge_record_metadata_def n Let_def succeeds_iff by (auto simp: rbind_Inr)
qed

lemma hint_keys: "k \<in> {''temporal'', ''provenance'', ''principal_scope_key'', ''principal_scope'', ''document'', ''section'',
    ''graph_source_lineage'', ''batch_reason''} \<Longrightarrow> py_lower k \<notin> PRIVATE_LINEAGE_FIELD_HINTS"
  by (auto simp: py_lower_def char_lower_def PRIVATE_LINEAGE_FIELD_HINTS_def)

definition lineage_keys :: "string set" where
  "lineage_keys = {''graph_source_lineage'', ''provenance'', ''graph_authority_status''}"

lemma attach_frame:
  assumes "k \<notin> lineage_keys" "py_lower k \<notin> PRIVATE_LINEAGE_FIELD_HINTS"
  shows "dget (attach_graph_source_lineage m source kind) k = dget m k"
  using assms unfolding attach_graph_source_lineage_def Let_def lineage_keys_def
  by (auto simp: dget_filter dget_dsetdefault split: pyval.splits)

lemma attach_has:
  assumes "k \<notin> lineage_keys"
  shows "dhas (attach_graph_source_lineage m source kind) k \<longleftrightarrow> dhas m k \<and> py_lower k \<notin> PRIVATE_LINEAGE_FIELD_HINTS"
  using assms unfolding attach_graph_source_lineage_def Let_def lineage_keys_def
  by (auto simp: dsetdefault_def split: pyval.splits)

lemma temporal_not_lineage: "k \<in> set TEMPORAL_KEYS \<or> k = ''temporal'' \<Longrightarrow> k \<notin> lineage_keys"
  by (auto simp: TEMPORAL_KEYS_def lineage_keys_def)

lemma attach_temporal [simp]: "dget (attach_graph_source_lineage m source kind) ''temporal'' = dget m ''temporal''"
  by (rule attach_frame) (simp_all add: hint_keys temporal_not_lineage)

lemma attach_sub_temporal [simp]: "sub_dict (attach_graph_source_lineage m source kind) ''temporal'' = sub_dict m ''temporal''"
  by (simp add: sub_dict_def)

lemma attach_ok: "metadata_ok m \<Longrightarrow> metadata_ok (attach_graph_source_lineage m source kind)"
  by (auto simp: metadata_ok_def attach_has temporal_not_lineage)

lemma attach_distinct: "distinct (map fst m) \<Longrightarrow> distinct (map fst (attach_graph_source_lineage m source kind))"
  unfolding attach_graph_source_lineage_def Let_def dsetdefault_def
  by (auto intro!: distinct_filter_keys distinct_keys_dset split: pyval.splits)

lemma merge_graph_ok:
  "merge_graph_record_metadata existing m source kind = Inr r \<Longrightarrow> (\<And>k. k \<in> set TEMPORAL_KEYS \<Longrightarrow> \<not> dhas existing k) \<Longrightarrow>
     metadata_ok r"
  unfolding merge_graph_record_metadata_def rbind_Inr by (auto intro!: attach_ok intro: merge_record_ok)

lemma merge_graph_total:
  "metadata_ok m \<Longrightarrow> times_ok (sub_dict existing ''temporal'') \<Longrightarrow> succeeds (merge_graph_record_metadata existing m source kind)"
  using merge_record_total [of m existing source] by (auto simp: merge_graph_record_metadata_def succeeds_iff rbind_Inr)

lemma dsetdefault_ok: "metadata_ok m \<Longrightarrow> k \<notin> set TEMPORAL_KEYS \<Longrightarrow> k \<noteq> ''temporal'' \<Longrightarrow> metadata_ok (dsetdefault k v m)"
  by (auto simp: metadata_ok_def dsetdefault_def sub_dict_def)

lemma normalize_graph_ok: "normalize_graph_record_metadata m source kind = Inr n \<Longrightarrow> metadata_ok n"
  unfolding normalize_graph_record_metadata_def rbind_Inr
  by (auto intro!: attach_ok dsetdefault_ok simp: TEMPORAL_KEYS_def intro: normalize_record_ok)

section \<open>Provenance\<close>

text \<open>The identifiers under a key.\<close>

definition ids_of :: "pydict \<Rightarrow> string \<Rightarrow> string set" where
  "ids_of p key = set (normalize_id_list (dget p key))"

lemma normalize_id_list_clean: "t \<in> set (normalize_id_list v) \<Longrightarrow> t \<noteq> [] \<and> py_strip t = t"
  by (auto simp: normalize_id_list_def Let_def)

lemma normalize_id_list_idem:
  "normalize_id_list (PList (map PStr (normalize_id_list v))) = normalize_id_list v"
proof -
  have "map (\<lambda>x. py_strip (py_str x)) (map PStr (normalize_id_list v)) = normalize_id_list v"
    by (simp add: map_idI normalize_id_list_clean)
  moreover have "filter (\<lambda>t. t \<noteq> []) (normalize_id_list v) = normalize_id_list v"
    by (simp add: filter_id_conv normalize_id_list_clean)
  moreover have "sorted_set (normalize_id_list v) = normalize_id_list v"
    unfolding normalize_id_list_def Let_def sorted_set_def by (simp add: sorted_sort_id sorted_remdups)
  ultimately show ?thesis by (subst normalize_id_list_def) simp
qed

lemma ids_append: "set (normalize_id_list (PList (xs @ ys))) = set (normalize_id_list (PList xs)) \<union> set (normalize_id_list (PList ys))"
  by (auto simp: normalize_id_list_def Let_def)

lemma ids_as_list: "dget p key \<noteq> PNone \<longrightarrow> is_list (dget p key) \<Longrightarrow> ids_of p key = set (normalize_id_list (PList (as_list (dget p key))))"
  by (cases "dget p key") (auto simp: ids_of_def normalize_id_list_def)

text \<open>Under an identifier key normalised provenance holds a list.\<close>

definition id_lists :: "pydict \<Rightarrow> bool" where
  "id_lists p \<longleftrightarrow> (\<forall>(k, v) \<in> set p. is_id_list_key k \<longrightarrow> is_list v)"

lemma id_lists_dget: "id_lists p \<Longrightarrow> is_id_list_key k \<Longrightarrow> dget p k \<noteq> PNone \<longrightarrow> is_list (dget p k)"
  unfolding id_lists_def by (induction p) (auto split: if_splits)

lemma id_lists_dset: "id_lists p \<Longrightarrow> (is_id_list_key k \<Longrightarrow> is_list v) \<Longrightarrow> id_lists (dset k v p)"
  unfolding id_lists_def dset_def by (induction p) (auto split: if_splits)

lemma provenance_value_list: "provenance_value k v = Some w \<Longrightarrow> is_id_list_key k \<Longrightarrow> is_list w"
  by (auto simp: provenance_value_def Let_def split: if_splits)

lemma normalize_provenance_lists: "id_lists (normalize_provenance v) \<and> distinct (map fst (normalize_provenance v))"
proof -
  have "id_lists acc \<and> distinct (map fst acc) \<Longrightarrow>
      id_lists (foldl provenance_step acc d) \<and> distinct (map fst (foldl provenance_step acc d))" for acc d
    by (induction d arbitrary: acc)
      (auto simp: provenance_step_def Let_def intro!: id_lists_dset distinct_keys_dset dest: provenance_value_list split: option.splits)
  from this [of "[]" "as_mapping v"] show ?thesis unfolding normalize_provenance_def by (simp add: id_lists_def [of "[]"])
qed

lemma merge_step_ids:
  assumes "id_lists acc" "id_lists part" "distinct (map fst part)" "is_id_list_key k"
  shows "id_lists (foldl merge_step acc part) \<and> ids_of (foldl merge_step acc part) k = ids_of acc k \<union> ids_of part k"
  using assms
proof (induction part arbitrary: acc)
  case Nil
  then show ?case by (simp add: ids_of_def normalize_id_list_def)
next
  case (Cons x part)
  obtain k' v where x: "x = (k', v)" by (cases x)
  have lst: "is_list v" if "is_id_list_key k'" using Cons.prems(2) that by (simp add: id_lists_def x)
  have part: "id_lists part" "distinct (map fst part)" "\<not> dhas part k'" using Cons.prems by (auto simp: id_lists_def x dhas_keys)
  have step: "id_lists (merge_step acc x)"
    using Cons.prems(1) lst by (auto simp: merge_step_def x intro!: id_lists_dset)
  have ids: "ids_of (merge_step acc x) k = ids_of acc k \<union> (if k' = k then ids_of (x # part) k else {})"
  proof (cases "k' = k")
    case True
    have a: "ids_of acc k = set (normalize_id_list (PList (as_list (dget acc k))))"
      by (rule ids_as_list [OF id_lists_dget [OF Cons.prems(1,4)]])
    have v: "v = PList (as_list v)" using lst True Cons.prems(4) by (cases v) simp_all
    show ?thesis
      using True Cons.prems(4) ids_append [of "as_list (dget acc k)" "as_list v"] v
      by (simp add: merge_step_def x a) (simp add: ids_of_def normalize_id_list_idem)
  next
    case False
    then show ?thesis by (simp add: merge_step_def x ids_of_def)
  qed
  have rest: "ids_of (x # part) k = (if k' = k then ids_of (x # part) k else ids_of part k)" by (simp add: x ids_of_def)
  have none: "ids_of part k = {}" if "k' = k" using part(3) that by (simp add: ids_of_def dget_absent normalize_id_list_def)
  show ?case using Cons.IH [OF step part(1,2) Cons.prems(4)] ids rest none by (simp add: x)
qed

text \<open>Merging provenance never loses an identifier: under every identifier key the merged record has exactly the
  identifiers of its parts, each once and stripped.\<close>

theorem provenance_merge_keeps_ids:
  "is_id_list_key key \<longrightarrow>
     ids_of (merge_provenance parts) key = (\<Union>part \<in> set parts. ids_of (normalize_provenance part) key)"
proof (rule impI)
  assume k: "is_id_list_key key"
  have "id_lists (foldl (\<lambda>merged part. foldl merge_step merged (normalize_provenance part)) acc parts) \<and>
      ids_of (foldl (\<lambda>merged part. foldl merge_step merged (normalize_provenance part)) acc parts) key =
        ids_of acc key \<union> (\<Union>part \<in> set parts. ids_of (normalize_provenance part) key)" if "id_lists acc" for acc
    using that
  proof (induction parts arbitrary: acc)
    case (Cons p parts)
    note m = merge_step_ids [OF Cons.prems, of "normalize_provenance p" key]
    show ?case using Cons.IH [of "foldl merge_step acc (normalize_provenance p)"] m normalize_provenance_lists [of p] k by auto
  qed simp
  from this [of "[]"] show "ids_of (merge_provenance parts) key = (\<Union>part \<in> set parts. ids_of (normalize_provenance part) key)"
    by (simp add: merge_provenance_def id_lists_def) (simp add: ids_of_def normalize_id_list_def)
qed

section \<open>Lineage\<close>

lemma hex_chars: "set (sha256_hex s) \<subseteq> set ''0123456789abcdef''"
proof -
  have d: "\<forall>n \<in> set [0..<16]. hex_digit n \<in> set ''0123456789abcdef''" by code_simp
  have "hex_digit (unat (drop_bit i w AND 15)) \<in> set ''0123456789abcdef''" for i and w :: w32
  proof -
    have "drop_bit i w AND 15 \<le> 15" by (rule word_and_le1)
    then have "unat (drop_bit i w AND 15) < 16" by (simp add: word_le_nat_alt)
    then show ?thesis using bspec [OF d, of "unat (drop_bit i w AND 15)"] by simp
  qed
  then show ?thesis by (auto simp only: sha256_hex_def hex_word_def set_concat set_map UN_iff image_iff subset_iff)
qed

lemma redaction_not_private: "\<not> looks_private_identifier (stable_redaction_id v)"
proof -
  let ?h = "take 16 (sha256_hex v)"
  have h: "set ?h \<subseteq> set ''0123456789abcdef''" using hex_chars set_take_subset by fast
  have "set ''0123456789abcdef'' \<subseteq> set ''redact:0123456789bf''" "set ''redacted:'' \<subseteq> set ''redact:0123456789bf''" by simp_all
  with h have all: "set (stable_redaction_id v) \<subseteq> set ''redact:0123456789bf''"
    unfolding stable_redaction_id_def set_append by (intro Un_least) (assumption, rule subset_trans)
  have ns: "\<forall>c \<in> set (stable_redaction_id v). \<not> is_space c"
  proof -
    have "\<forall>c \<in> set ''redact:0123456789bf''. \<not> is_space c" by (simp add: is_space_def)
    with all show ?thesis by blast
  qed
  have low: "py_lower (stable_redaction_id v) = stable_redaction_id v"
  proof -
    have "\<forall>c \<in> set ''redact:0123456789bf''. char_lower c = c" by (simp add: char_lower_def)
    with all show ?thesis unfolding py_lower_def by (intro map_idI) blast
  qed
  have "\<not> py_contains m (stable_redaction_id v)" if "m \<in> set PRIVATE_MARKERS" for m
  proof
    assume "py_contains m (stable_redaction_id v)"
    then have "set m \<subseteq> set ''redact:0123456789bf''" using all by (auto simp: py_contains_iff)
    then show False using that by (auto simp: PRIVATE_MARKERS_def)
  qed
  then have "\<not> list_ex (\<lambda>m. py_contains m (stable_redaction_id v)) PRIVATE_MARKERS" by (simp add: list_ex_iff)
  then show ?thesis unfolding looks_private_identifier_def strip_no_space [OF ns] low Let_def
    by (simp add: stable_redaction_id_def)
qed

lemma strip_prefix: "s = [] \<or> \<not> is_space (hd s) \<Longrightarrow> \<exists>r. s = py_strip s @ r"
proof -
  assume "s = [] \<or> \<not> is_space (hd s)"
  then have "py_strip s = rev (dropWhile is_space (rev s))" by (cases s) (simp_all add: py_strip_def)
  then have "s = py_strip s @ rev (takeWhile is_space (rev s))" by (metis rev_append rev_rev_ident takeWhile_dropWhile_id)
  then show ?thesis ..
qed

lemma private_prefix:
  assumes "py_strip t = t" "t = py_strip u @ r" "looks_private_identifier u"
  shows "looks_private_identifier t"
proof -
  define w where "w = py_strip u"
  have w: "w \<noteq> []" "t = w @ r" using assms by (auto simp: looks_private_identifier_def w_def Let_def)
  consider "hd w \<in> {CHR ''/'', CHR ''~''}" | "take 2 w = [CHR 0x5C, CHR 0x5C]"
    | "3 \<le> length w" "w ! 1 = CHR '':''" "w ! 2 \<in> {CHR 0x5C, CHR ''/''}"
    | m where "m \<in> set PRIVATE_MARKERS" "py_contains m (py_lower w)"
    using assms(3) unfolding looks_private_identifier_def Let_def w_def [symmetric] list_ex_iff by metis
  then show ?thesis
  proof cases
    case 1
    then have "hd t \<in> {CHR ''/'', CHR ''~''}" "t \<noteq> []" using w by simp_all
    then show ?thesis unfolding looks_private_identifier_def assms(1) Let_def by blast
  next
    case 2
    have "length (take 2 w) = 2" unfolding 2 by simp
    then have "2 \<le> length w" by simp
    then have "take 2 t = [CHR 0x5C, CHR 0x5C]" "t \<noteq> []" using w 2 by simp_all
    then show ?thesis unfolding looks_private_identifier_def assms(1) Let_def by blast
  next
    case 3
    then have "t ! 1 = CHR '':''" "t ! 2 \<in> {CHR 0x5C, CHR ''/''}" "3 \<le> length t" "t \<noteq> []" using w by (simp_all add: nth_append)
    then show ?thesis unfolding looks_private_identifier_def assms(1) Let_def by blast
  next
    case 4
    then obtain a b where "py_lower w = a @ m @ b" by (auto simp: py_contains_iff)
    then have "py_lower t = a @ m @ (b @ py_lower r)" using w by (simp add: py_lower_def)
    then have "py_contains m (py_lower t)" unfolding py_contains_iff by blast
    then have "list_ex (\<lambda>m. py_contains m (py_lower t)) PRIVATE_MARKERS" "t \<noteq> []" using 4(1) w by (auto simp: list_ex_iff)
    then show ?thesis unfolding looks_private_identifier_def assms(1) Let_def by blast
  qed
qed

lemma norm_text_stripped: "py_strip (norm_text v) = norm_text v"
proof -
  define ws where "ws = py_split (py_strip (py_str (py_or v (PStr []))))"
  have "list_all is_word ws" by (simp add: ws_def py_split_words)
  then show ?thesis unfolding norm_text_def ws_def [symmetric]
    using join_words_ends [of ws] by (intro py_strip_idem_if) (cases "ws = []"; simp)+
qed

lemma safe_identifier_not_private: "\<not> looks_private_identifier (fst (safe_identifier v))"
proof -
  let ?t = "norm_text v"
  have e: "\<not> looks_private_identifier []" by (simp add: looks_private_identifier_def py_strip_def)
  have "\<not> looks_private_identifier (take 160 ?t)" if n: "\<not> looks_private_identifier ?t" "?t \<noteq> []"
  proof
    assume p: "looks_private_identifier (take 160 ?t)"
    obtain c cs where t: "?t = c # cs" using n(2) by (cases ?t) auto
    have "\<not> is_space c" using py_strip_hd [of ?t c cs] norm_text_stripped [of v] t by simp
    then have "\<not> is_space (hd (take 160 ?t))" by (simp add: t)
    then obtain r where "take 160 ?t = py_strip (take 160 ?t) @ r" using strip_prefix by blast
    then have "?t = py_strip (take 160 ?t) @ (r @ drop 160 ?t)" by (metis append.assoc append_take_drop_id)
    from private_prefix [OF norm_text_stripped this p] show False using n(1) by simp
  qed
  then show ?thesis using redaction_not_private e by (simp add: safe_identifier_def Let_def)
qed

lemma attach_provenance:
  "dget (attach_graph_source_lineage m source kind) ''provenance'' =
     (case dget m ''provenance'' of
        PDict q \<Rightarrow> if is_list (dget q ''source_ids'') then PDict (sanitized_provenance q) else PDict q
      | v \<Rightarrow> v)"
  unfolding attach_graph_source_lineage_def Let_def
  by (simp add: dget_filter hint_keys dget_dsetdefault split: pyval.splits)

lemma attached_source_ids:
  assumes "dget (attach_graph_source_lineage m source kind) ''provenance'' = PDict p"
    "dget p ''source_ids'' = PList ids" "i \<in> set ids"
  shows "\<not> looks_private_identifier (py_str i)"
proof -
  note pv = attach_provenance [of m source kind]
  obtain q where q: "dget m ''provenance'' = PDict q" "is_list (dget q ''source_ids'')" "p = sanitized_provenance q"
    using pv assms(1,2) by (auto split: pyval.splits if_splits)
  obtain xs where xs: "dget q ''source_ids'' = PList xs" using q(2) by (cases "dget q ''source_ids''") simp_all
  have "ids = map PStr (sorted_set (filter (\<lambda>t. t \<noteq> []) (map fst (map safe_identifier xs))))"
    using assms(2) unfolding q(3) sanitized_provenance_def xs pyval.case Let_def by (simp split: if_splits)
  then obtain x where "i = PStr (fst (safe_identifier x))" using assms(3) by auto
  then show ?thesis using safe_identifier_not_private by simp
qed

text \<open>C31: attached lineage hides private data, whatever the metadata: no field is left whose name says that it holds
  raw text, a path or a secret, and every other field but the lineage's own is kept; and when the provenance has a list of source
  ids, none of them looks like a path or a credential.\<close>

theorem attached_lineage_hides_private:
  "(dhas (attach_graph_source_lineage m source kind) k \<longrightarrow> py_lower k \<notin> PRIVATE_LINEAGE_FIELD_HINTS) \<and>
   (py_lower k \<notin> PRIVATE_LINEAGE_FIELD_HINTS \<and> k \<notin> lineage_keys \<longrightarrow>
      dget (attach_graph_source_lineage m source kind) k = dget m k) \<and>
   (dget (attach_graph_source_lineage m source kind) ''provenance'' = PDict p \<and> dget p ''source_ids'' = PList ids \<and> i \<in> set ids \<longrightarrow>
      \<not> looks_private_identifier (py_str i))"
proof (intro conjI impI)
  assume "dhas (attach_graph_source_lineage m source kind) k"
  then show "py_lower k \<notin> PRIVATE_LINEAGE_FIELD_HINTS"
    unfolding attach_graph_source_lineage_def Let_def by simp
next
  assume "py_lower k \<notin> PRIVATE_LINEAGE_FIELD_HINTS \<and> k \<notin> lineage_keys"
  then have "py_lower k \<notin> PRIVATE_LINEAGE_FIELD_HINTS" "''graph_source_lineage'' \<noteq> k" "''provenance'' \<noteq> k"
    "''graph_authority_status'' \<noteq> k" by (auto simp: lineage_keys_def)
  then show "dget (attach_graph_source_lineage m source kind) k = dget m k"
    unfolding attach_graph_source_lineage_def Let_def
    by (simp add: dget_filter dget_dsetdefault split: pyval.split)
qed (use attached_source_ids in blast)

section \<open>Temporal status\<close>

lemma parse_iso_falsy: "\<not> truthy v \<Longrightarrow> parse_iso v = Inr None"
  by (simp add: parse_iso_def strip_text_def py_or_def py_strip_def)

lemma background_end:
  assumes u: "is_unbounded_background_volatile_state r" and e: "effective_valid_to r (Some start) = Inr stop"
  shows "stop = None \<or> stop = Some start"
proof -
  let ?temporal = "dget (as_mapping (dget r ''metadata'')) ''temporal''"
  have b: "is_background_relative_duration_source r" and v: "parse_iso (dget r ''valid_to'') = Inr None"
    and t: "parse_iso (dget (as_mapping ?temporal) ''valid_to'') = Inr None"
    using u by (auto simp: is_unbounded_background_volatile_state_def intro: parse_iso_falsy)
  have "parse_or (dget r ''valid_to'') (temporal_get ?temporal ''valid_to'') = Inr x \<Longrightarrow> x = None" for x
    using t by (cases ?temporal) (auto simp: parse_or_def v temporal_get_def parse_iso_falsy split: if_splits)
  then show ?thesis
    using e b unfolding effective_valid_to_def Let_def rbind_Inr
    by (auto simp: rbind_Inr split: option.splits)
qed

text \<open>A volatile state of a background source that names no end of validity is never current authority, at
  whatever time it is asked for: its status is expired or not yet valid.\<close>

theorem background_volatile_never_current:
  assumes "is_unbounded_background_volatile_state r" "parse_iso (dget r ''valid_from'') = Inr (Some start)"
  shows "record_is_effective_at r as_of now \<noteq> Inr True"
proof
  assume "record_is_effective_at r as_of now = Inr True"
  then have c: "record_temporal_status r as_of now = Inr ''current''"
    by (auto simp: record_is_effective_at_def rbind_Inr)
  have p: "parse_or (dget r ''valid_from'') q = Inr (Some start)" for q by (simp add: parse_or_def assms(2))
  obtain stop where s: "effective_valid_to r (Some start) = Inr stop"
    using c unfolding record_temporal_status_def p by (auto simp: rbind_Inr)
  obtain moment where m: "\<not> stop = None" "parse_iso as_of = Inr moment"
    using c assms(1) unfolding record_temporal_status_def p rbind_simps s by (auto simp: rbind_Inr split: if_splits)
  have "stop = Some start" using background_end [OF assms(1) s] m(1) by simp
  then show False using c assms(1) m(2) unfolding record_temporal_status_def p rbind_simps s Let_def
    by (simp split: if_splits)
qed

section \<open>Scope of merged records\<close>

declare principal_scope_key_from_metadata.simps [simp del]

definition scope_fields :: "string set" where
  "scope_fields = {''principal_scope_key'', ''principal_scope'', ''document'', ''section''}"

text \<open>
  A record that names its scope by \<open>principal_scope_key\<close>, or has no scope at all: the forms the writers use. (A nested
  scope alone can be hidden or uncovered by a merge.)
\<close>

definition plain_scope :: "pydict \<Rightarrow> bool" where
  "plain_scope m \<longleftrightarrow>
     (case dget m ''principal_scope_key'' of PStr s \<Rightarrow> py_strip s \<noteq> [] | _ \<Rightarrow> False) \<or>
     \<not> dhas m ''principal_scope_key'' \<and> list_all (\<lambda>k. \<not> is_mapping (dget m k)) [''principal_scope'', ''document'', ''section'']"

lemma dget_has: "dget m k \<noteq> PNone \<Longrightarrow> dhas m k"
  using dget_absent by blast

lemma plain_direct:
  assumes "dget m ''principal_scope_key'' = PStr s" "py_strip s \<noteq> []"
  shows "plain_scope m" "principal_scope_key_from_metadata m = py_strip s"
  using assms by (simp add: plain_scope_def, subst principal_scope_key_from_metadata.simps, simp add: strip_text_PStr)

lemma plain_none:
  assumes "\<not> dhas m ''principal_scope_key''" "\<not> is_mapping (dget m ''principal_scope'')" "\<not> is_mapping (dget m ''document'')"
    "\<not> is_mapping (dget m ''section'')"
  shows "plain_scope m" "principal_scope_key_from_metadata m = []"
proof -
  show "plain_scope m" using assms by (simp add: plain_scope_def)
  have n: "(case v of PDict d \<Rightarrow> f d | _ \<Rightarrow> z) = z" if "\<not> is_mapping v" for v z and f :: "pydict \<Rightarrow> string"
    using that by (cases v) simp_all
  have e: "strip_text (dget m ''principal_scope_key'') = []" by (simp add: dget_absent [OF assms(1)])
  show "principal_scope_key_from_metadata m = []"
    by (subst principal_scope_key_from_metadata.simps) (simp only: e n [OF assms(2)] n [OF assms(3)] n [OF assms(4)] Let_def simp_thms if_False)
qed

lemma plain_scope_cases:
  assumes "plain_scope m"
  obtains (direct) s where "dhas m ''principal_scope_key''" "dget m ''principal_scope_key'' = PStr s" "py_strip s \<noteq> []"
      "principal_scope_key_from_metadata m = py_strip s"
    | (none) "\<not> dhas m ''principal_scope_key''" "\<not> is_mapping (dget m ''principal_scope'')" "\<not> is_mapping (dget m ''document'')"
      "\<not> is_mapping (dget m ''section'')" "principal_scope_key_from_metadata m = []"
proof (cases "\<exists>s. dget m ''principal_scope_key'' = PStr s \<and> py_strip s \<noteq> []")
  case True
  then obtain s where s: "dget m ''principal_scope_key'' = PStr s" "py_strip s \<noteq> []" by blast
  show ?thesis by (rule direct [OF dget_has s plain_direct(2) [OF s]]) (simp add: s)
next
  case False
  then have "\<not> dhas m ''principal_scope_key''" "\<not> is_mapping (dget m ''principal_scope'')" "\<not> is_mapping (dget m ''document'')"
      "\<not> is_mapping (dget m ''section'')"
    using assms by (auto simp: plain_scope_def split: pyval.splits)
  from none [OF this plain_none(2) [OF this]] show ?thesis .
qed

lemma in_scope_fields: "''principal_scope_key'' \<in> scope_fields" "''principal_scope'' \<in> scope_fields" "''document'' \<in> scope_fields"
    "''section'' \<in> scope_fields"
  by (simp_all add: scope_fields_def)

lemma scope_same:
  assumes "plain_scope m" "\<And>k. k \<in> scope_fields \<Longrightarrow> dget n k = f (dget m k)" "\<And>k. k \<in> scope_fields \<Longrightarrow> dhas n k \<longleftrightarrow> dhas m k"
    "\<And>s. f (PStr s) = PStr s" "\<And>v. is_mapping (f v) \<Longrightarrow> is_mapping v"
  shows "plain_scope n \<and> principal_scope_key_from_metadata n = principal_scope_key_from_metadata m"
  using assms(1)
proof (cases rule: plain_scope_cases)
  case (direct s)
  have "dget n ''principal_scope_key'' = PStr s" using direct(2) assms(2) [OF in_scope_fields(1)] assms(4) by simp
  then show ?thesis using direct plain_direct by simp
next
  case none
  have "\<not> dhas n ''principal_scope_key''" using none(1) assms(3) [OF in_scope_fields(1)] by simp
  moreover have "\<not> is_mapping (dget n ''principal_scope'')" "\<not> is_mapping (dget n ''document'')" "\<not> is_mapping (dget n ''section'')"
    using none(2-4) assms(5) by (metis assms(2) in_scope_fields(2-4))+
  ultimately show ?thesis using none(5) plain_none by simp
qed

lemma plain_scope_Nil [simp]: "plain_scope []" "principal_scope_key_from_metadata [] = []"
  by (rule plain_none; simp)+

lemma scope_keys: "k \<in> scope_fields \<Longrightarrow> plain_key k" "k \<in> scope_fields \<Longrightarrow> k \<notin> lineage_keys"
    "k \<in> scope_fields \<Longrightarrow> py_lower k \<notin> PRIVATE_LINEAGE_FIELD_HINTS"
    "k \<in> scope_fields \<Longrightarrow> k \<noteq> ''temporal'' \<and> k \<noteq> ''provenance''"
  unfolding scope_fields_def
  by (auto simp: plain_key_def TEMPORAL_KEYS_def PROVENANCE_SEED_KEYS_def lineage_keys_def hint_keys)

lemma attach_scope:
  "plain_scope m \<Longrightarrow> plain_scope (attach_graph_source_lineage m source kind) \<and>
     principal_scope_key_from_metadata (attach_graph_source_lineage m source kind) = principal_scope_key_from_metadata m"
  by (rule scope_same [where f = id]) (auto simp: attach_frame attach_has scope_keys)

lemma normalize_record_scope:
  assumes "normalize_record_metadata m source = Inr n" "plain_scope m"
  shows "plain_scope n \<and> principal_scope_key_from_metadata n = principal_scope_key_from_metadata m"
proof -
  have "dget n k = dget m k \<and> (dhas n k \<longleftrightarrow> dhas m k)" if "k \<in> scope_fields" for k
    using normalize_record_fields [OF assms(1)] scope_keys(1) [OF that] by metis
  then show ?thesis using assms(2) by (intro scope_same [where f = id]) auto
qed

lemma merge_record_scope:
  assumes r: "merge_record_metadata existing m source = Inr r" and d: "distinct (map fst m)"
    and p: "plain_scope existing" "plain_scope m"
  shows "plain_scope r \<and> principal_scope_key_from_metadata r =
    (if principal_scope_key_from_metadata m = [] then principal_scope_key_from_metadata existing else principal_scope_key_from_metadata m)"
proof (rule merge_record_fields [OF r], goal_cases)
  case (1 n t)
  note n = 1(1)
  have h: "dhas r k \<longleftrightarrow> dhas existing k \<or> dhas n k" "dget r k = (if dhas n k then dget n k else dget existing k)"
    if "k \<in> scope_fields" for k
    using 1(4) [of k] 1(5) [OF d, of k] scope_keys(4) [OF that] by simp_all
  have s: "plain_scope n" "principal_scope_key_from_metadata n = principal_scope_key_from_metadata m"
    using normalize_record_scope [OF n p(2)] by simp_all
  note key = in_scope_fields(1)
  from s(1) show ?thesis
  proof (cases rule: plain_scope_cases)
    case nd: (direct t)
    then have "dget r ''principal_scope_key'' = PStr t" using h(2) [OF key] by simp
    from plain_direct [OF this nd(3)] show ?thesis using s(2) nd by simp
  next
    case nn: none
    from p(1) show ?thesis
    proof (cases rule: plain_scope_cases)
      case (direct t)
      then have "dget r ''principal_scope_key'' = PStr t" using h(2) [OF key] nn(1) by simp
      from plain_direct [OF this direct(3)] show ?thesis using s(2) nn direct by simp
    next
      case none
      have "\<not> dhas r ''principal_scope_key''" using h(1) [OF key] nn(1) none(1) by simp
      moreover have "\<not> is_mapping (dget r ''principal_scope'')" "\<not> is_mapping (dget r ''document'')" "\<not> is_mapping (dget r ''section'')"
        using h(2) in_scope_fields(2-4) nn(2-4) none(2-4) by simp_all
      ultimately show ?thesis using plain_none [of r] s(2) nn none by simp
    qed
  qed
qed

section \<open>Round trip of times, and witnesses\<close>

text \<open>
  A time that was read is written in a form that reads back as the same instant, whatever offset, precision or
  date-only form it had: canonical times do not drift.
\<close>

theorem read_times_round_trip:
  assumes "parse_iso v = Inr (Some us)"
  shows "parse_iso (PStr (isoformat_utc us)) = Inr (Some us)"
  using parse_iso_bounds [OF assms] by simp

lemma sample_time: "parse_iso (PStr ''2024-02-29T12:00:00+02:00'') = Inr (Some 63844797600000000)"
  by code_simp

theorem read_times_round_trip_witness: "parse_iso (PStr (isoformat_utc 63844797600000000)) = Inr (Some 63844797600000000)"
  by (rule read_times_round_trip [OF sample_time])

definition sample_times :: pydict where
  "sample_times = [(''valid_from'', PStr ''2024-02-29T12:00:00+02:00''), (''valid_to'', PStr ''2024-02-28''), (''note'', PStr ''x'')]"

lemma sample_merge: "\<exists>t. merge_temporal PNone (PDict sample_times) = Inr t \<and> dget t ''note'' = PStr ''x''"
proof -
  have "(case merge_temporal PNone (PDict sample_times) of Inr t \<Rightarrow> dget t ''note'' = PStr ''x'' | Inl _ \<Rightarrow> False)" by code_simp
  then show ?thesis by (cases "merge_temporal PNone (PDict sample_times)") simp_all
qed

theorem temporal_merge_is_normal_form_witness:
  "\<exists>t. merge_temporal PNone (PDict sample_times) = Inr t \<and> merge_temporal (PDict t) PNone = Inr t"
proof -
  obtain t where t: "merge_temporal PNone (PDict sample_times) = Inr t" using sample_merge by blast
  have "merge_temporal (PDict t) PNone = Inr t"
    using temporal_merge_is_normal_form [OF _ _ t] by (simp add: sample_times_def)
  then show ?thesis using t by blast
qed

theorem provenance_merge_keeps_ids_witness:
  "ids_of (merge_provenance [PDict [(''source_ids'', PList [PStr '' a '', PStr ''b''])], PDict [(''source_ids'', PStr ''b'')]]) ''source_ids'' =
     {''a'', ''b''}"
proof -
  let ?p = "[PDict [(''source_ids'', PList [PStr '' a '', PStr ''b''])], PDict [(''source_ids'', PStr ''b'')]]"
  have "is_id_list_key ''source_ids''" by (simp add: is_id_list_key_def PROVENANCE_ID_LIST_KEYS_def)
  with provenance_merge_keeps_ids [of "''source_ids''" ?p]
  have "ids_of (merge_provenance ?p) ''source_ids'' = (\<Union>part \<in> set ?p. ids_of (normalize_provenance part) ''source_ids'')" by blast
  moreover have "normalize_provenance (PDict [(''source_ids'', PList [PStr '' a '', PStr ''b''])]) = [(''source_ids'', PList [PStr ''a'', PStr ''b''])]"
    by code_simp
  moreover have "normalize_provenance (PDict [(''source_ids'', PStr ''b'')]) = [(''source_ids'', PList [PStr ''b''])]"
    by code_simp
  moreover have "normalize_id_list (PList [PStr ''a'', PStr ''b'']) = [''a'', ''b'']" "normalize_id_list (PList [PStr ''b'']) = [''b'']"
    by code_simp+
  ultimately show ?thesis by (simp add: ids_of_def insert_commute)
qed

text \<open>A credential among the sources of a record.\<close>

definition sample_sources :: pydict where
  "sample_sources = [(''provenance'', PDict [(''source_ids'', PList [PStr ''/home/user/secret.txt''])]), (''raw_text'', PStr ''x'')]"

lemma sample_sources_attached:
  "dget (attach_graph_source_lineage sample_sources ''chat'' ''state'') ''provenance'' =
     PDict (sanitized_provenance [(''source_ids'', PList [PStr ''/home/user/secret.txt''])])"
  unfolding attach_provenance by (simp add: sample_sources_def)

lemma sample_sources_ids:
  "dget (sanitized_provenance [(''source_ids'', PList [PStr ''/home/user/secret.txt''])]) ''source_ids'' =
     PList [PStr (stable_redaction_id ''/home/user/secret.txt'')]"
proof -
  have "norm_text (PStr ''/home/user/secret.txt'') = ''/home/user/secret.txt''" "looks_private_identifier ''/home/user/secret.txt''"
    by code_simp+
  then have "safe_identifier (PStr ''/home/user/secret.txt'') = (stable_redaction_id ''/home/user/secret.txt'', True)"
    by (simp add: safe_identifier_def)
  moreover have "stable_redaction_id ''/home/user/secret.txt'' \<noteq> []" by (simp add: stable_redaction_id_def)
  ultimately show ?thesis by (simp add: sanitized_provenance_def sorted_set_def)
qed

theorem attached_lineage_hides_private_witness:
  "\<not> looks_private_identifier (stable_redaction_id ''/home/user/secret.txt'') \<and>
   dhas sample_sources ''raw_text'' \<and> \<not> dhas (attach_graph_source_lineage sample_sources ''chat'' ''state'') ''raw_text''"
proof -
  have h: "py_lower ''raw_text'' \<in> PRIVATE_LINEAGE_FIELD_HINTS" by code_simp
  have r: "dhas sample_sources ''raw_text''" by (simp add: sample_sources_def)
  from attached_lineage_hides_private [of sample_sources "''chat''" "''state''" "''raw_text''"
      "sanitized_provenance [(''source_ids'', PList [PStr ''/home/user/secret.txt''])]"
      "[PStr (stable_redaction_id ''/home/user/secret.txt'')]" "PStr (stable_redaction_id ''/home/user/secret.txt'')"]
  show ?thesis using h r sample_sources_attached sample_sources_ids by simp
qed

definition sample_volatile :: pydict where
  "sample_volatile = [(''source'', PStr ''tier2:idle_window''), (''attribute'', PStr ''status''), (''value_text'', PStr ''busy''),
     (''metadata'', PDict []), (''valid_from'', PStr ''2024-02-29T12:00:00+02:00'')]"

theorem background_volatile_never_current_witness:
  "record_is_effective_at sample_volatile PNone 63844797600000001 \<noteq> Inr True"
proof -
  have "is_unbounded_background_volatile_state sample_volatile" by code_simp
  moreover have "parse_iso (dget sample_volatile ''valid_from'') = Inr (Some 63844797600000000)"
    using sample_time by (simp add: sample_volatile_def)
  ultimately show ?thesis by (rule background_volatile_never_current)
qed

end
