(* ===== verification/GraphState.thy ===== *)
theory GraphState
  imports RecordMeta DurableWriteGuard
begin

text \<open>
  The graph shelf: \<open>storage/graph_state_core_store.py\<close> (entities and aliases), \<open>storage/graph_state_snapshot_store.py\<close>
  (the current state of an attribute, its supersession, conflicts and their resolution, the admission before a write)
  and \<open>storage/graph_state_relation_store.py\<close> (explicit and inferred relations). The tables are lists of records in
  the order of their identifiers, which is also the order of rows where the SQL asks for none; one \<open>now\<close> stands for
  the times an operation reads; publication to a backend and the refresh of the semantic index are recorded as effects.
\<close>

section \<open>Tables\<close>

record graph_entity =
  ge_id :: nat
  ge_canonical :: string
  ge_normalized :: string
  ge_created :: string
  ge_updated :: string

record graph_alias =
  ga_id :: nat
  ga_name :: string
  ga_normalized :: string
  ga_target :: nat
  ga_source :: string
  ga_metadata :: pydict
  ga_created :: string
  ga_updated :: string

record graph_state =
  gs_id :: nat
  gs_entity :: nat
  gs_attribute :: string
  gs_value :: string
  gs_source :: string
  gs_metadata :: pydict
  gs_valid_from :: string
  gs_valid_to :: "string option"
  gs_current :: bool

record graph_conflict =
  gc_id :: nat
  gc_entity :: nat
  gc_attribute :: string
  gc_current :: nat
  gc_value :: string
  gc_source :: string
  gc_metadata :: pydict
  gc_status :: string
  gc_created :: string
  gc_updated :: string

record graph_supersession =
  gx_id :: nat
  gx_prior :: nat
  gx_new :: nat
  gx_reason :: string
  gx_created :: string

record graph_resolution =
  gr_id :: nat
  gr_conflict :: nat
  gr_decision :: string
  gr_previous :: string
  gr_new :: string
  gr_approved_by :: string
  gr_reason :: string
  gr_evidence :: "string list"
  gr_before :: pydict
  gr_after :: pydict
  gr_created :: string

text \<open>Explicit and inferred relations; only the inferred ones have a time of update.\<close>

record graph_relation =
  rl_id :: nat
  rl_subject :: nat
  rl_predicate :: string
  rl_object :: nat
  rl_text :: string
  rl_source :: string
  rl_metadata :: pydict
  rl_created :: string
  rl_updated :: "string option"
  rl_active :: bool

text \<open>What a write asks of the rest of the store after its commit.\<close>

datatype graph_effect = PublishEntity nat | RefreshShelf string

text \<open>
  Entities are the only rows that are deleted, and their identifiers are never used again, so the store
  keeps the largest one; the identifiers of the other tables follow from the rows.
\<close>

record graph_store =
  st_entities :: "graph_entity list"
  st_entity_seq :: nat
  st_aliases :: "graph_alias list"
  st_states :: "graph_state list"
  st_conflicts :: "graph_conflict list"
  st_supersessions :: "graph_supersession list"
  st_resolutions :: "graph_resolution list"
  st_relations :: "graph_relation list"
  st_inferred :: "graph_relation list"
  st_backend :: bool
  st_effects :: "graph_effect list"

definition empty_graph_store :: graph_store where
  "empty_graph_store =
     \<lparr>st_entities = [], st_entity_seq = 0, st_aliases = [], st_states = [], st_conflicts = [], st_supersessions = [],
      st_resolutions = [], st_relations = [], st_inferred = [], st_backend = False, st_effects = []\<rparr>"

definition next_id :: "nat list \<Rightarrow> nat" where
  "next_id ids = Suc (fold max ids 0)"

text \<open>\<open>json.loads(json.dumps(value, sort_keys=True))\<close>: the keys come back in order.\<close>

fun json_stored :: "pyval \<Rightarrow> pyval" where
  "json_stored (PList xs) = PList (map json_stored xs)"
| "json_stored (PDict d) = PDict (sort_key fst (map (\<lambda>(k, v). (k, json_stored v)) d))"
| "json_stored v = v"

definition stored :: "pydict \<Rightarrow> pydict" where
  "stored d = as_mapping (json_stored (PDict d))"

text \<open>\<open>ORDER BY stamp DESC, id DESC\<close>\<close>

definition newest_rows :: "('r \<Rightarrow> string) \<Rightarrow> ('r \<Rightarrow> nat) \<Rightarrow> 'r list \<Rightarrow> 'r list" where
  "newest_rows stamp key rows = rev (sort_key stamp (sort_key key rows))"

section \<open>Operations on the store\<close>

text \<open>
  An operation returns a value or raises, and leaves the tables as the connection then sees them: what it
  wrote before raising stays.
\<close>

type_synonym ('e, 'a) gop = "graph_store \<Rightarrow> ('e + 'a) \<times> graph_store"

definition gbind :: "('e, 'a) gop \<Rightarrow> ('a \<Rightarrow> ('e, 'b) gop) \<Rightarrow> ('e, 'b) gop" where
  "gbind m f st = (case m st of (Inl e, st') \<Rightarrow> (Inl e, st') | (Inr x, st') \<Rightarrow> f x st')"

definition greturn :: "'a \<Rightarrow> ('e, 'a) gop" where
  "greturn x st = (Inr x, st)"

definition glift :: "('e + 'a) \<Rightarrow> ('e, 'a) gop" where
  "glift r st = (r, st)"

definition gupdate :: "(graph_store \<Rightarrow> graph_store) \<Rightarrow> ('e, unit) gop" where
  "gupdate f st = (Inr (), f st)"

definition gread :: "(graph_store \<Rightarrow> 'a) \<Rightarrow> ('e, 'a) gop" where
  "gread f st = (Inr (f st), st)"

section \<open>Entities\<close>

definition normalize_entity_name :: "string \<Rightarrow> string" where
  "normalize_entity_name name = py_join '' '' (py_split (py_lower name))"

definition entity_named :: "graph_store \<Rightarrow> string \<Rightarrow> graph_entity option" where
  "entity_named st n = find (\<lambda>e. ge_normalized e = n) (st_entities st)"

definition entity_by_id :: "graph_store \<Rightarrow> nat \<Rightarrow> graph_entity option" where
  "entity_by_id st i = find (\<lambda>e. ge_id e = i) (st_entities st)"

definition alias_entity :: "graph_store \<Rightarrow> string \<Rightarrow> graph_entity option" where
  "alias_entity st n =
     (case newest_rows ga_updated ga_id
         (filter (\<lambda>a. ga_normalized a = n \<and> entity_by_id st (ga_target a) \<noteq> None) (st_aliases st)) of
        [] \<Rightarrow> None
      | a # _ \<Rightarrow> entity_by_id st (ga_target a))"

text \<open>The identifier of the entity of a name, made when neither an entity nor an alias has it.\<close>

definition get_or_create_entity :: "string \<Rightarrow> string \<Rightarrow> ('e, nat) gop" where
  "get_or_create_entity name now st =
     (let n = normalize_entity_name name in
      case entity_named st n of
        Some e \<Rightarrow> (Inr (ge_id e), st)
      | None \<Rightarrow>
          (case alias_entity st n of
             Some e \<Rightarrow> (Inr (ge_id e), st)
           | None \<Rightarrow>
               (let i = Suc (st_entity_seq st) in
                (Inr i, st\<lparr>st_entities := st_entities st @
                   [\<lparr>ge_id = i, ge_canonical = py_strip name, ge_normalized = n, ge_created = now, ge_updated = now\<rparr>],
                   st_entity_seq := i\<rparr>))))"

section \<open>Writing a state\<close>

definition source_payload :: "string \<Rightarrow> pydict \<Rightarrow> string \<Rightarrow> string \<Rightarrow> pydict" where
  "source_payload source metadata attribute value_text =
     [(''source'', PStr source), (''metadata'', PDict metadata), (''attribute'', PStr attribute), (''value_text'', PStr value_text)]"

definition disabled_from :: "pydict \<Rightarrow> string \<Rightarrow> string" where
  "disabled_from temporal now =
     py_str (py_or_chain [dget temporal ''valid_from'', dget temporal ''observed_at'', PStr now])"

text \<open>A value that names a remaining duration gets an end; from a background source it is over at once.\<close>

definition apply_relative_duration ::
  "string \<Rightarrow> string \<Rightarrow> string \<Rightarrow> string \<Rightarrow> pydict \<times> pydict \<Rightarrow> (pydict \<times> pydict) result" where
  "apply_relative_duration source attribute value_text now mt =
     (let (m, temporal) = mt in
      rbind (infer_relative_duration_valid_to value_text (PDict temporal) (PDict m) attribute) (\<lambda>inferred.
        case inferred of
          None \<Rightarrow> Inr (m, temporal)
        | Some derived \<Rightarrow>
            if truthy (dget (sub_dict m ''temporal'') ''valid_to'') then Inr (m, temporal)
            else
              (let background = is_background_relative_duration_source (source_payload source m attribute value_text);
                   valid_to = (if background then disabled_from temporal now else derived) in
               rbind (merge_temporal (PDict temporal) (PDict [(''valid_to'', PStr valid_to)])) (\<lambda>temporal.
                 Inr (dset ''relative_duration_validity'' (PDict
                       [(''schema'', PStr ''brainstack.relative_duration_validity.v1''),
                        (''derived_valid_to'', PStr valid_to),
                        (''grammar'', PStr ''numeric_duration_remaining''),
                        (''current_authority'', PStr (if background then ''disabled_for_background_relative_duration''
                                                      else ''valid_until_derived_window''))])
                     (dset ''temporal'' (PDict temporal) m), temporal)))))"

text \<open>A volatile attribute from a background source without an end is over at once.\<close>

definition disable_unbounded_background ::
  "string \<Rightarrow> string \<Rightarrow> string \<Rightarrow> string \<Rightarrow> pydict \<times> pydict \<Rightarrow> pydict result" where
  "disable_unbounded_background source attribute value_text now mt =
     (let (m, temporal) = mt in
      if \<not> truthy (dget (sub_dict m ''temporal'') ''valid_to'') \<and>
         is_unbounded_background_volatile_state (source_payload source m attribute value_text)
      then rbind (merge_temporal (PDict temporal) (PDict [(''valid_to'', PStr (disabled_from temporal now))])) (\<lambda>temporal.
        Inr (dset ''background_current_authority'' (PDict
              [(''schema'', PStr ''brainstack.background_current_authority.v1''),
               (''current_authority'', PStr ''disabled_for_unbounded_volatile_background_state''),
               (''reason'', PStr ''tier2_or_idle_window_source_without_explicit_valid_to'')])
            (dset ''temporal'' (PDict temporal) m)))
      else Inr m)"

definition graph_state_metadata_for_upsert ::
  "pydict \<Rightarrow> string \<Rightarrow> string \<Rightarrow> string \<Rightarrow> string \<Rightarrow> (pydict \<times> string \<times> string) result" where
  "graph_state_metadata_for_upsert metadata source attribute value_text now =
     rbind (normalize_graph_record_metadata metadata source ''state'') (\<lambda>m.
     rbind (merge_temporal (dget m ''temporal'')
         (PDict [(''observed_at'', py_or (dget (sub_dict m ''temporal'') ''observed_at'') (PStr now))])) (\<lambda>temporal.
     rbind (apply_relative_duration source attribute value_text now (put_nonempty ''temporal'' temporal m, temporal)) (\<lambda>mt.
     rbind (disable_unbounded_background source attribute value_text now mt) (\<lambda>m.
       Inr (m, py_str (py_or (dget (sub_dict m ''temporal'') ''valid_from'') (PStr now)),
            py_str (py_or (dget (sub_dict m ''temporal'') ''valid_to'') (PStr [])))))))"

definition state_scope :: "graph_state \<Rightarrow> string" where
  "state_scope r = principal_scope_key_from_metadata (gs_metadata r)"

definition current_candidates :: "graph_store \<Rightarrow> nat \<Rightarrow> string \<Rightarrow> graph_state list" where
  "current_candidates st entity attribute =
     newest_rows gs_valid_from gs_id
       (filter (\<lambda>r. gs_entity r = entity \<and> gs_attribute r = attribute \<and> gs_current r) (st_states st))"

definition current_graph_state :: "graph_store \<Rightarrow> nat \<Rightarrow> string \<Rightarrow> pydict \<Rightarrow> graph_state option" where
  "current_graph_state st entity attribute metadata =
     (let candidates = current_candidates st entity attribute; scope = principal_scope_key_from_metadata metadata in
      if scope \<noteq> [] then find (\<lambda>r. state_scope r = scope) candidates
      else case find (\<lambda>r. state_scope r = []) candidates of
        Some r \<Rightarrow> Some r
      | None \<Rightarrow> (case candidates of [] \<Rightarrow> None | r # _ \<Rightarrow> Some r))"

definition update_state :: "nat \<Rightarrow> (graph_state \<Rightarrow> graph_state) \<Rightarrow> graph_store \<Rightarrow> graph_store" where
  "update_state i f st = st\<lparr>st_states := map (\<lambda>r. if gs_id r = i then f r else r) (st_states st)\<rparr>"

definition none_if_empty :: "string \<Rightarrow> string option" where
  "none_if_empty s = (if s = [] then None else Some s)"

definition merge_unchanged_graph_state :: "graph_state \<Rightarrow> pydict \<Rightarrow> string \<Rightarrow> nat \<Rightarrow> (pyexc, pydict) gop" where
  "merge_unchanged_graph_state current m source entity =
     gbind (glift (merge_graph_record_metadata (gs_metadata current) m source ''state'')) (\<lambda>merged.
       (let valid_to = py_str (py_or_chain [dget (sub_dict merged ''temporal'') ''valid_to'',
              case gs_valid_to current of Some t \<Rightarrow> PStr t | None \<Rightarrow> PNone, PStr []]) in
        gbind (gupdate (update_state (gs_id current)
            (\<lambda>r. r\<lparr>gs_metadata := stored merged, gs_valid_to := none_if_empty valid_to\<rparr>))) (\<lambda>_.
          greturn [(''status'', PStr ''unchanged''), (''entity_id'', PInt (int entity)), (''state_id'', PInt (int (gs_id current)))])))"

definition update_conflict :: "nat \<Rightarrow> (graph_conflict \<Rightarrow> graph_conflict) \<Rightarrow> graph_store \<Rightarrow> graph_store" where
  "update_conflict i f st = st\<lparr>st_conflicts := map (\<lambda>c. if gc_id c = i then f c else c) (st_conflicts st)\<rparr>"

definition normalized_conflict_value :: "string \<Rightarrow> string" where
  "normalized_conflict_value v = py_join '' '' (py_split (py_lower v))"

definition state_by_id :: "graph_store \<Rightarrow> nat \<Rightarrow> graph_state option" where
  "state_by_id st i = find (\<lambda>r. gs_id r = i) (st_states st)"

definition same_conflict :: "nat \<Rightarrow> string \<Rightarrow> nat \<Rightarrow> string \<Rightarrow> graph_conflict \<Rightarrow> bool" where
  "same_conflict entity attribute current value c \<longleftrightarrow>
     gc_entity c = entity \<and> gc_attribute c = attribute \<and> gc_current c = current \<and> gc_value c = value \<and> gc_status c = ''open''"

text \<open>An open conflict the other way round: its candidate is the current value and its current value the candidate.\<close>

definition inverse_conflict :: "graph_store \<Rightarrow> nat \<Rightarrow> string \<Rightarrow> string \<Rightarrow> string \<Rightarrow> graph_conflict \<Rightarrow> bool" where
  "inverse_conflict st entity attribute current_value value c \<longleftrightarrow>
     gc_entity c = entity \<and> gc_attribute c = attribute \<and> gc_status c = ''open'' \<and>
     (case state_by_id st (gc_current c) of
        None \<Rightarrow> False
      | Some r \<Rightarrow> normalized_conflict_value (gs_value r) = normalized_conflict_value value \<and>
                  normalized_conflict_value (gc_value c) = normalized_conflict_value current_value)"

definition conflict_outcome :: "nat \<Rightarrow> nat \<Rightarrow> pydict" where
  "conflict_outcome entity i =
     [(''status'', PStr ''conflict''), (''entity_id'', PInt (int entity)), (''conflict_id'', PInt (int i))]"

definition insert_graph_conflict :: "nat \<Rightarrow> string \<Rightarrow> nat \<Rightarrow> string \<Rightarrow> string \<Rightarrow> pydict \<Rightarrow> string \<Rightarrow> graph_store \<Rightarrow> graph_store" where
  "insert_graph_conflict entity attribute current value source m now st =
     st\<lparr>st_conflicts := st_conflicts st @
       [\<lparr>gc_id = next_id (map gc_id (st_conflicts st)), gc_entity = entity, gc_attribute = attribute, gc_current = current,
         gc_value = value, gc_source = source, gc_metadata = stored m, gc_status = ''open'', gc_created = now, gc_updated = now\<rparr>]\<rparr>"

definition record_graph_state_conflict ::
  "nat \<Rightarrow> string \<Rightarrow> graph_state \<Rightarrow> string \<Rightarrow> string \<Rightarrow> pydict \<Rightarrow> string \<Rightarrow> (pyexc, pydict) gop" where
  "record_graph_state_conflict entity attribute current value_text source m now st =
     (let value = py_strip value_text in
      case find (same_conflict entity attribute (gs_id current) value) (st_conflicts st) of
        Some c \<Rightarrow>
          gbind (glift (merge_graph_record_metadata (gc_metadata c) m source ''state_conflict'')) (\<lambda>merged.
          gbind (gupdate (update_conflict (gc_id c)
              (\<lambda>r. r\<lparr>gc_metadata := stored merged, gc_source := source, gc_updated := now\<rparr>))) (\<lambda>_.
            greturn (conflict_outcome entity (gc_id c)))) st
      | None \<Rightarrow>
          (case find (inverse_conflict st entity attribute (gs_value current) value_text) (st_conflicts st) of
             Some c \<Rightarrow>
               gbind (glift (merge_graph_record_metadata (gc_metadata c)
                   (dset ''duplicate_candidate_value_text'' (PStr value)
                     (dset ''duplicate_current_state_id'' (PInt (int (gs_id current)))
                       (dset ''duplicate_bidirectional_conflict_collapsed'' (PBool True) m))) source ''state_conflict'')) (\<lambda>merged.
               gbind (gupdate (update_conflict (gc_id c) (\<lambda>r. r\<lparr>gc_metadata := stored merged, gc_updated := now\<rparr>))) (\<lambda>_.
                 greturn (conflict_outcome entity (gc_id c)))) st
           | None \<Rightarrow>
               gbind (glift (merge_graph_record_metadata [] m source ''state_conflict'')) (\<lambda>merged.
               gbind (gread (\<lambda>st. next_id (map gc_id (st_conflicts st)))) (\<lambda>i.
               gbind (gupdate (insert_graph_conflict entity attribute (gs_id current) value source merged now)) (\<lambda>_.
                 greturn (conflict_outcome entity i)))) st))"

section \<open>Supersession\<close>

definition with_graph_kind :: "pydict \<Rightarrow> pydict" where
  "with_graph_kind m = dsetdefault ''graph_kind'' (PStr ''state'') (dsetdefault ''source_kind'' (PStr ''explicit'') m)"

definition mark_prior_graph_state :: "graph_state \<Rightarrow> string \<Rightarrow> string \<Rightarrow> (pyexc, unit) gop" where
  "mark_prior_graph_state current valid_from source =
     gbind (glift (merge_temporal (dget (gs_metadata current) ''temporal'') (PDict [(''valid_to'', PStr valid_from)]))) (\<lambda>temporal.
       (let provenance = merge_provenance
              [dget (gs_metadata current) ''provenance'', PDict [(''source_ids'', PList [PStr source])]];
            m = attach_graph_source_lineage
              (put_nonempty ''provenance'' provenance (put_nonempty ''temporal'' temporal (with_graph_kind (gs_metadata current))))
              source ''state'' in
        gupdate (update_state (gs_id current)
          (\<lambda>r. r\<lparr>gs_current := False, gs_valid_to := Some valid_from, gs_metadata := stored m\<rparr>))))"

definition insert_graph_state :: "nat \<Rightarrow> string \<Rightarrow> string \<Rightarrow> string \<Rightarrow> pydict \<Rightarrow> string \<Rightarrow> string \<Rightarrow> ('e, nat) gop" where
  "insert_graph_state entity attribute value_text source m valid_from valid_to st =
     (let i = next_id (map gs_id (st_states st)) in
      (Inr i, st\<lparr>st_states := st_states st @
         [\<lparr>gs_id = i, gs_entity = entity, gs_attribute = attribute, gs_value = py_strip value_text, gs_source = source,
           gs_metadata = stored m, gs_valid_from = valid_from, gs_valid_to = none_if_empty valid_to, gs_current = True\<rparr>]\<rparr>))"

definition insert_supersession :: "nat \<Rightarrow> nat \<Rightarrow> string \<Rightarrow> graph_store \<Rightarrow> graph_store" where
  "insert_supersession prior new created st =
     st\<lparr>st_supersessions := st_supersessions st @
       [\<lparr>gx_id = next_id (map gx_id (st_supersessions st)), gx_prior = prior, gx_new = new,
         gx_reason = ''superseded_by_new_current_state'', gx_created = created\<rparr>]\<rparr>"

definition show_id :: "nat \<Rightarrow> pyval" where
  "show_id i = PStr (show_int (int i))"

definition link_graph_state_supersession :: "graph_state \<Rightarrow> nat \<Rightarrow> pydict \<Rightarrow> string \<Rightarrow> string \<Rightarrow> (pyexc, unit) gop" where
  "link_graph_state_supersession current new_id m valid_from source =
     gbind (glift (merge_temporal (dget (gs_metadata current) ''temporal'')
         (PDict [(''valid_to'', PStr valid_from), (''superseded_by'', show_id new_id)]))) (\<lambda>temporal.
       (let provenance = merge_provenance [dget (gs_metadata current) ''provenance'',
              PDict [(''source_ids'', PList [PStr source]), (''replacement_record_id'', show_id new_id)]];
            prior = attach_graph_source_lineage
              (dset ''provenance'' (PDict provenance) (dset ''temporal'' (PDict temporal) (with_graph_kind (gs_metadata current))))
              source ''state'' in
        gbind (gupdate (update_state (gs_id current) (\<lambda>r. r\<lparr>gs_metadata := stored prior\<rparr>))) (\<lambda>_.
        gbind (glift (merge_graph_record_metadata m
            [(''temporal'', PDict [(''supersedes'', show_id (gs_id current)), (''valid_from'', PStr valid_from)]),
             (''provenance'', PDict [(''replacement_record_id'', show_id (gs_id current))])] source ''state'')) (\<lambda>new.
        gbind (gupdate (update_state new_id (\<lambda>r. r\<lparr>gs_metadata := stored new\<rparr>))) (\<lambda>_.
          gupdate (insert_supersession (gs_id current) new_id valid_from))))))"

section \<open>The upsert\<close>

text \<open>\<open>NUMERIC_TOKEN_RE.findall\<close>: digits, then \<open>:digits\<close>, then \<open>.digits\<close>; at the first digit after the last match.\<close>

definition numeric_part :: "char \<Rightarrow> string \<Rightarrow> string \<times> string" where
  "numeric_part sep s =
     (case s of
        c # r \<Rightarrow> if c = sep \<and> takeWhile is_digit r \<noteq> [] then (c # takeWhile is_digit r, dropWhile is_digit r) else ([], s)
      | [] \<Rightarrow> ([], []))"

definition numeric_token :: "string \<Rightarrow> string \<times> string" where
  "numeric_token s =
     (let ds = takeWhile is_digit s; (minutes, r) = numeric_part (CHR '':'') (dropWhile is_digit s); (fraction, r) = numeric_part (CHR ''.'') r in
      (ds @ minutes @ fraction, r))"

function numeric_signature :: "string \<Rightarrow> string list" where
  "numeric_signature s =
     (let t = dropWhile (\<lambda>c. \<not> is_digit c) s in
      if t = [] then [] else fst (numeric_token t) # numeric_signature (snd (numeric_token t)))"
  by pat_completeness auto

lemma numeric_part_le: "length (snd (numeric_part sep s)) \<le> length s"
proof (cases s)
  case (Cons c r)
  then show ?thesis using length_dropWhile_le [of is_digit r] by (simp add: numeric_part_def)
qed (simp add: numeric_part_def)

termination numeric_signature
proof (relation "measure length", goal_cases)
  case (2 s t)
  then have d: "is_digit (hd t)" using hd_dropWhile [of "\<lambda>c. \<not> is_digit c" s] by auto
  obtain c u where t: "t = c # u" using 2(2) by (cases t) auto
  have "length (dropWhile is_digit t) < length t"
    using d length_dropWhile_le [of is_digit u] unfolding t by (simp add: le_imp_less_Suc)
  moreover have "length (snd (numeric_token t)) \<le> length (dropWhile is_digit t)"
    using numeric_part_le [of "CHR ''.''" "snd (numeric_part (CHR '':'') (dropWhile is_digit t))"]
      numeric_part_le [of "CHR '':''" "dropWhile is_digit t"]
    by (simp add: numeric_token_def Let_def case_prod_unfold)
  moreover have "length t \<le> length s" using 2 length_dropWhile_le by simp
  ultimately show ?case by simp
qed simp

definition should_auto_supersede_exact_value :: "string \<Rightarrow> string \<Rightarrow> bool" where
  "should_auto_supersede_exact_value current_value new_value \<longleftrightarrow>
     (let current = norm_text (PStr current_value); new = norm_text (PStr new_value) in
      current \<noteq> [] \<and> new \<noteq> [] \<and> current \<noteq> new \<and> length current \<le> 96 \<and> length new \<le> 96 \<and>
      numeric_signature current \<noteq> [] \<and> numeric_signature new \<noteq> [] \<and> numeric_signature current \<noteq> numeric_signature new)"

definition write_graph_state ::
  "nat \<Rightarrow> string \<Rightarrow> string \<Rightarrow> string \<Rightarrow> pydict \<Rightarrow> string \<Rightarrow> string \<Rightarrow> graph_state option \<Rightarrow> (pyexc, pydict) gop" where
  "write_graph_state entity attribute value_text source m valid_from valid_to current =
     gbind (case current of Some r \<Rightarrow> mark_prior_graph_state r valid_from source | None \<Rightarrow> greturn ()) (\<lambda>_.
     gbind (glift (merge_graph_record_metadata [] m source ''state'')) (\<lambda>state_metadata.
     gbind (insert_graph_state entity attribute value_text source state_metadata valid_from valid_to) (\<lambda>new_id.
       case current of
         Some r \<Rightarrow>
           gbind (link_graph_state_supersession r new_id state_metadata valid_from source) (\<lambda>_.
             greturn [(''status'', PStr ''superseded''), (''entity_id'', PInt (int entity)), (''state_id'', PInt (int new_id)),
               (''prior_state_id'', PInt (int (gs_id r)))])
       | None \<Rightarrow>
           greturn [(''status'', PStr ''inserted''), (''entity_id'', PInt (int entity)), (''state_id'', PInt (int new_id))])))"

definition sqlite_upsert_graph_state ::
  "string \<Rightarrow> string \<Rightarrow> string \<Rightarrow> string \<Rightarrow> bool \<Rightarrow> pydict \<Rightarrow> string \<Rightarrow> (pyexc, pydict) gop" where
  "sqlite_upsert_graph_state subject attribute value_text source supersede metadata now =
     gbind (get_or_create_entity subject now) (\<lambda>entity.
     gbind (glift (graph_state_metadata_for_upsert metadata source attribute value_text now)) (\<lambda>(m, valid_from, valid_to).
     gbind (gread (\<lambda>st. current_graph_state st entity attribute m)) (\<lambda>current.
       case current of
         None \<Rightarrow> write_graph_state entity attribute value_text source m valid_from valid_to None
       | Some r \<Rightarrow>
           if normalize_entity_name (gs_value r) = normalize_entity_name value_text
           then merge_unchanged_graph_state r m source entity
           else if supersede then write_graph_state entity attribute value_text source m valid_from valid_to current
           else if should_auto_supersede_exact_value (gs_value r) value_text then
             gbind (glift (merge_record_metadata []
                 (dset ''status_reason'' (PStr ''numeric_exact_value_change'') (dset ''exact_value_update'' (PBool True) m)) source)) (\<lambda>m.
               write_graph_state entity attribute value_text source m valid_from valid_to current)
           else record_graph_state_conflict entity attribute r value_text source m now)))"

definition effect :: "graph_effect \<Rightarrow> graph_store \<Rightarrow> graph_store" where
  "effect e st = st\<lparr>st_effects := st_effects st @ [e]\<rparr>"

definition publish_entity :: "nat \<Rightarrow> graph_store \<Rightarrow> graph_store" where
  "publish_entity i st = (if st_backend st then effect (PublishEntity i) st else st)"

section \<open>Admission before the write\<close>

datatype graph_error = Refused guard_error | Raised pyexc

definition raising :: "(pyexc, 'a) gop \<Rightarrow> (graph_error, 'a) gop" where
  "raising m st = (case m st of (Inl e, st') \<Rightarrow> (Inl (Raised e), st') | (Inr x, st') \<Rightarrow> (Inr x, st'))"

definition write_block :: "string \<Rightarrow> string \<Rightarrow> pydict" where
  "write_block reason_code target_slot =
     [(''schema'', PStr ''brainstack.durable_graph_write_block.v1''), (''reason_code'', PStr reason_code), (''target_slot'', PStr target_slot)]"

definition graph_state_admission_metadata ::
  "(pyval \<Rightarrow> pyval result) \<Rightarrow> string \<Rightarrow> string \<Rightarrow> string \<Rightarrow> string \<Rightarrow> pydict \<Rightarrow> pydict result" where
  "graph_state_admission_metadata to_float subject attribute value_text source metadata =
     (let target_slot = canonical_graph_slot attribute []; project = py_startswith target_slot ''project.'' in
      if dhas metadata ''admission'' \<or> dhas metadata ''truth_write_permit'' then Inr metadata
      else if is_runtime_capability_slot attribute \<or>
              py_lower (py_str (py_or (dget metadata ''source_authority'') (PStr []))) = ''runtime_diagnostic'' then Inr metadata
      else if project \<and> py_strip source = [] then
        Inr (dset ''durable_graph_write_blocked'' (PDict (write_block ''PROJECT_GRAPH_TRUTH_REQUIRES_SOURCE'' target_slot)) metadata)
      else if \<not> list_ex (py_startswith (py_lower source)) DERIVED_SOURCE_PREFIXES then Inr metadata
      else rbind (graph_claim_proposal to_float [] source metadata ''state'' subject attribute value_text) (\<lambda>p.
        (let d = admit_claim p; m = dupdate metadata (ad_metadata_payload d) in
         Inr (if project \<and> \<not> ad_accepted d then
           dset ''durable_graph_write_blocked'' (PDict (write_block (ad_reason_code d) (ad_target_slot d) @
             [(''authority_class'', PStr (authority_value (cp_authority_class p))),
              (''decision'', PStr (decision_value (ad_decision d)))])) m
         else m))))"

definition admission_rejected :: "pydict \<Rightarrow> pydict" where
  "admission_rejected blocked =
     [(''status'', PStr ''admission_rejected''), (''entity_id'', PInt 0),
      (''reason_code'', PStr (py_str (py_or (dget blocked ''reason_code'') (PStr ''GRAPH_WRITE_REJECTED_BY_ADMISSION'')))),
      (''target_slot'', PStr (py_str (py_or (dget blocked ''target_slot'') (PStr []))))]"

definition outcome_id :: "pydict \<Rightarrow> string \<Rightarrow> nat" where
  "outcome_id out key = (case dget out key of PInt i \<Rightarrow> nat i | _ \<Rightarrow> 0)"

definition upsert_graph_state ::
  "(pyval \<Rightarrow> pyval result) \<Rightarrow> string \<Rightarrow> string \<Rightarrow> string \<Rightarrow> string \<Rightarrow> bool \<Rightarrow> pydict \<Rightarrow> string \<Rightarrow> (graph_error, pydict) gop" where
  "upsert_graph_state to_float subject attribute value_text source supersede metadata now =
     gbind (raising (glift (graph_state_admission_metadata to_float subject attribute value_text source metadata))) (\<lambda>metadata.
     gbind (glift (case guard_and_normalize_durable_truth_metadata ''graph'' source metadata [] (py_strip attribute) of
         Inl e \<Rightarrow> Inl (Refused e) | Inr m \<Rightarrow> Inr m)) (\<lambda>checked.
       case dget checked ''durable_graph_write_blocked'' of
         PDict blocked \<Rightarrow> greturn (admission_rejected blocked)
       | _ \<Rightarrow>
           gbind (raising (sqlite_upsert_graph_state subject attribute value_text source supersede checked now)) (\<lambda>out.
           gbind (gupdate (\<lambda>st. if 0 < outcome_id out ''entity_id'' then publish_entity (outcome_id out ''entity_id'') st else st)) (\<lambda>_.
           gbind (gupdate (effect (RefreshShelf ''graph''))) (\<lambda>_. greturn out)))))"

text \<open>The attributes of a typed entity, one write after the other; the first that raises ends the loop.\<close>

definition lower_words :: "pyval \<Rightarrow> string" where
  "lower_words v = py_join '' '' (py_split (py_lower (strip_text v)))"

definition typed_action :: "string \<Rightarrow> string \<Rightarrow> string \<Rightarrow> pydict \<Rightarrow> pydict" where
  "typed_action name kind attribute out =
     dupdate
       [(''kind'', PStr ''typed_entity''), (''entity_name'', PStr name), (''entity_type'', PStr kind), (''attribute'', PStr attribute),
        (''action'', PStr (if py_lower (py_str (dget_default out ''status'' (PStr []))) \<in> {''unchanged'', ''shadowed''} then ''NONE''
                           else ''ADD''))] out"

fun typed_entity_loop ::
  "(string \<Rightarrow> string \<Rightarrow> (graph_error, pydict) gop) \<Rightarrow> string \<Rightarrow> string \<Rightarrow> (string \<times> string) list \<Rightarrow> (graph_error, pydict list) gop" where
  "typed_entity_loop write name kind [] = greturn []"
| "typed_entity_loop write name kind ((attribute, value) # rest) =
     gbind (write attribute value) (\<lambda>out.
     gbind (typed_entity_loop write name kind rest) (\<lambda>actions. greturn (typed_action name kind attribute out # actions)))"

definition typed_candidates :: "string \<Rightarrow> string \<Rightarrow> pydict \<Rightarrow> (string \<times> string) list" where
  "typed_candidates kind owner attributes =
     [(''entity_type'', kind), (''owner_subject'', owner)] @
     [(lower_words (PStr k), norm_text v). (k, v) \<leftarrow> attributes, lower_words (PStr k) \<noteq> [] \<and> norm_text v \<noteq> []]"

definition upsert_typed_entity ::
  "(pyval \<Rightarrow> pyval result) \<Rightarrow> pyval \<Rightarrow> pyval \<Rightarrow> pyval \<Rightarrow> pydict \<Rightarrow> string \<Rightarrow> pydict \<Rightarrow> pyval \<Rightarrow> bool \<Rightarrow> string \<Rightarrow>
     (graph_error, pydict list) gop" where
  "upsert_typed_entity to_float entity_name entity_type subject attributes source metadata confidence supersede now =
     (let name = norm_text entity_name; kind = lower_words entity_type;
          owner = (if norm_text subject = [] then ''User'' else norm_text subject) in
      if name = [] \<or> kind = [] then greturn []
      else gbind (raising (glift (to_float confidence))) (\<lambda>c.
        (let base = dsetdefault ''confidence'' c metadata in
         typed_entity_loop
           (\<lambda>attribute value. upsert_graph_state to_float name attribute value source supersede base now)
           name kind (typed_candidates kind owner attributes))))"

section \<open>Resolving a conflict\<close>

definition CONFLICT_RESOLUTION_STATUSES :: "(string \<times> string) list" where
  "CONFLICT_RESOLUTION_STATUSES =
     [(''accept_current'', ''accepted_current''), (''accept_candidate'', ''accepted_candidate''),
      (''quarantine_candidate'', ''quarantined_candidate''), (''supersede_with_new_value'', ''superseded_with_new_value'')]"

text \<open>A conflict with its entity and its state; \<open>None\<close> when the join finds no row.\<close>

definition fetch_graph_conflict :: "graph_store \<Rightarrow> nat \<Rightarrow> (graph_conflict \<times> graph_entity \<times> graph_state) option" where
  "fetch_graph_conflict st i =
     (case find (\<lambda>c. gc_id c = i) (st_conflicts st) of
        None \<Rightarrow> None
      | Some c \<Rightarrow>
          (case (entity_by_id st (gc_entity c), state_by_id st (gc_current c)) of
             (Some e, Some r) \<Rightarrow> Some (c, e, r)
           | _ \<Rightarrow> None))"

text \<open>
  \<open>_decode_json_object(conflict.get("metadata_json"))\<close> of the fetched conflict: \<open>_row_to_dict\<close> has already taken
  that key out of the row (the metadata is under \<open>metadata\<close>), so the lookup finds nothing.
\<close>

definition fetched_metadata :: "graph_conflict \<Rightarrow> pydict" where
  "fetched_metadata c =
     (let row = dset ''metadata'' (PDict (gc_metadata c)) (dpop ''metadata_json'' [(''metadata_json'', PDict (gc_metadata c))]) in
      as_mapping (dget row ''metadata_json''))"

definition resolution_before :: "graph_conflict \<times> graph_entity \<times> graph_state \<Rightarrow> pydict" where
  "resolution_before cer =
     (let (c, e, r) = cer in
      [(''conflict_id'', PInt (int (gc_id c))), (''entity_id'', PInt (int (gc_entity c))), (''entity_name'', PStr (ge_canonical e)),
       (''attribute'', PStr (gc_attribute c)), (''current_state_id'', PInt (int (gc_current c))), (''current_value'', PStr (gs_value r)),
       (''candidate_value_text'', PStr (gc_value c)), (''candidate_source'', PStr (gc_source c)), (''status'', PStr (gc_status c)),
       (''metadata'', PDict (fetched_metadata c))])"

text \<open>What replaces the current value: the candidate, or the value of the operator, with its source.\<close>

definition replacement_of :: "graph_conflict \<Rightarrow> string \<Rightarrow> string \<Rightarrow> string \<Rightarrow> (string \<times> string) option result" where
  "replacement_of c decision approved_by new_value_text =
     (if decision = ''accept_candidate'' then Inr (Some (py_strip (gc_value c), py_strip (gc_source c)))
      else if decision = ''supersede_with_new_value'' then
        (if norm_text (PStr new_value_text) = [] then Inl ValueError
         else Inr (Some (norm_text (PStr new_value_text), ''operator:graph_conflict_resolution:'' @ approved_by)))
      else Inr None)"

definition apply_replacement ::
  "graph_conflict \<Rightarrow> graph_state \<Rightarrow> string \<Rightarrow> string \<Rightarrow> string \<Rightarrow> string \<Rightarrow> string \<times> string \<Rightarrow> (pyexc, nat) gop" where
  "apply_replacement c current decision approved_by reason now replacement =
     (let (value, source) = replacement in
      gbind (glift (merge_graph_record_metadata []
          (dset ''conflict_resolution'' (PDict
             [(''schema'', PStr ''brainstack.graph_conflict_resolution.v1''), (''conflict_id'', PInt (int (gc_id c))),
              (''decision'', PStr decision), (''approved_by'', PStr approved_by), (''reason'', PStr reason),
              (''resolved_at'', PStr now)]) (fetched_metadata c)) source ''state'')) (\<lambda>m.
      gbind (mark_prior_graph_state current now source) (\<lambda>_.
      gbind (insert_graph_state (gc_entity c) (gc_attribute c) value source m now []) (\<lambda>new_id.
      gbind (link_graph_state_supersession current new_id m now source) (\<lambda>_. greturn new_id)))))"

definition resolution_after :: "graph_conflict \<Rightarrow> string \<Rightarrow> string \<Rightarrow> nat \<Rightarrow> (string \<times> string) option \<Rightarrow> pydict" where
  "resolution_after c decision new_status state_id replacement =
     [(''conflict_id'', PInt (int (gc_id c))), (''decision'', PStr decision), (''new_status'', PStr new_status),
      (''state_id'', PInt (int state_id)), (''prior_state_id'', PInt (int (gc_current c)))] @
     (case replacement of Some (value, _) \<Rightarrow> [(''replacement_value_text'', PStr value)] | None \<Rightarrow> [])"

definition close_conflict ::
  "graph_conflict \<times> graph_entity \<times> graph_state \<Rightarrow> string \<Rightarrow> string \<Rightarrow> string \<Rightarrow> string \<Rightarrow> string list \<Rightarrow> pydict \<Rightarrow> string \<Rightarrow>
     graph_store \<Rightarrow> graph_store" where
  "close_conflict cer decision new_status approved_by reason evidence after now st =
     (let c = fst cer; st = update_conflict (gc_id c) (\<lambda>r. r\<lparr>gc_status := new_status, gc_updated := now\<rparr>) st in
      st\<lparr>st_resolutions := st_resolutions st @
        [\<lparr>gr_id = next_id (map gr_id (st_resolutions st)), gr_conflict = gc_id c, gr_decision = decision,
          gr_previous = py_strip (gc_status c), gr_new = new_status, gr_approved_by = approved_by, gr_reason = reason,
          gr_evidence = evidence, gr_before = stored (resolution_before cer), gr_after = stored after, gr_created = now\<rparr>]\<rparr>)"

definition resolve_graph_conflict ::
  "nat \<Rightarrow> pyval \<Rightarrow> pyval \<Rightarrow> pyval \<Rightarrow> string list \<Rightarrow> string \<Rightarrow> string \<Rightarrow> (pyexc, pydict) gop" where
  "resolve_graph_conflict conflict_id decision approved_by reason evidence new_value_text now st =
     (let decision = strip_text decision; approved_by = norm_text approved_by; reason = norm_text reason in
      case map_of CONFLICT_RESOLUTION_STATUSES decision of
        None \<Rightarrow> (Inl ValueError, st)
      | Some new_status \<Rightarrow>
          if approved_by = [] \<or> reason = [] then (Inl ValueError, st)
          else case fetch_graph_conflict st conflict_id of
            None \<Rightarrow> (Inl ValueError, st)
          | Some (c, e, current) \<Rightarrow>
              if py_strip (gc_status c) \<noteq> ''open'' then
                (Inr [(''status'', PStr ''already_closed''), (''conflict_id'', PInt (int conflict_id)),
                      (''previous_status'', PStr (py_strip (gc_status c)))], st)
              else if py_strip (gc_source c) = [] then (Inl ValueError, st)
              else
                gbind (glift (replacement_of c decision approved_by new_value_text)) (\<lambda>replacement.
                gbind (case replacement of
                    Some r \<Rightarrow> apply_replacement c current decision approved_by reason now r
                  | None \<Rightarrow> greturn 0) (\<lambda>state_id.
                gbind (gread (\<lambda>st. next_id (map gr_id (st_resolutions st)))) (\<lambda>resolution_id.
                gbind (gupdate (close_conflict (c, e, current) decision new_status approved_by reason evidence
                    (resolution_after c decision new_status state_id replacement) now)) (\<lambda>_.
                gbind (gupdate (\<lambda>st. if 0 < gc_entity c then publish_entity (gc_entity c) st else st)) (\<lambda>_.
                gbind (gupdate (effect (RefreshShelf ''graph''))) (\<lambda>_.
                  greturn [(''status'', PStr ''resolved''), (''conflict_id'', PInt (int conflict_id)),
                    (''resolution_id'', PInt (int resolution_id)), (''decision'', PStr decision), (''new_status'', PStr new_status),
                    (''state_id'', PInt (int state_id)), (''prior_state_id'', PInt (int (gc_current c)))])))))) st)"

section \<open>Relations\<close>

definition same_relation :: "nat \<Rightarrow> string \<Rightarrow> nat \<Rightarrow> graph_relation \<Rightarrow> bool" where
  "same_relation s p ob r \<longleftrightarrow> rl_subject r = s \<and> rl_predicate r = p \<and> rl_object r = ob \<and> rl_active r"

definition shadow_inferred :: "nat \<Rightarrow> string \<Rightarrow> nat \<Rightarrow> string \<Rightarrow> graph_store \<Rightarrow> graph_store" where
  "shadow_inferred s p ob now st =
     st\<lparr>st_inferred := map (\<lambda>r. if same_relation s p ob r then r\<lparr>rl_active := False, rl_updated := Some now\<rparr> else r) (st_inferred st)\<rparr>"

definition relation_outcome :: "string \<Rightarrow> nat \<Rightarrow> pydict" where
  "relation_outcome status i = [(''status'', PStr status), (''relation_id'', PInt (int i))]"

definition set_relation_metadata :: "nat \<Rightarrow> pydict \<Rightarrow> graph_relation list \<Rightarrow> graph_relation list" where
  "set_relation_metadata i m = map (\<lambda>r. if rl_id r = i then r\<lparr>rl_metadata := stored m\<rparr> else r)"

text \<open>\<open>_sqlite_add_graph_relation\<close> is the same code and returns the identifier alone.\<close>

definition sqlite_upsert_graph_relation :: "string \<Rightarrow> string \<Rightarrow> string \<Rightarrow> string \<Rightarrow> pydict \<Rightarrow> string \<Rightarrow> (pyexc, pydict) gop" where
  "sqlite_upsert_graph_relation subject predicate object_name source metadata now =
     gbind (get_or_create_entity subject now) (\<lambda>s.
     gbind (get_or_create_entity object_name now) (\<lambda>ob.
     gbind (gread (\<lambda>st. find (same_relation s predicate ob) (st_relations st))) (\<lambda>existing.
       case existing of
         Some r \<Rightarrow>
           gbind (glift (merge_graph_record_metadata (rl_metadata r) metadata source ''relation'')) (\<lambda>m.
           gbind (gupdate (\<lambda>st. shadow_inferred s predicate ob now
               (st\<lparr>st_relations := set_relation_metadata (rl_id r) m (st_relations st)\<rparr>))) (\<lambda>_.
             greturn (relation_outcome ''unchanged'' (rl_id r))))
       | None \<Rightarrow>
           gbind (glift (normalize_graph_record_metadata metadata source ''relation'')) (\<lambda>m.
           gbind (gread (\<lambda>st. next_id (map rl_id (st_relations st)))) (\<lambda>i.
           gbind (gupdate (\<lambda>st. shadow_inferred s predicate ob now
               (st\<lparr>st_relations := st_relations st @
                 [\<lparr>rl_id = i, rl_subject = s, rl_predicate = predicate, rl_object = ob, rl_text = py_strip object_name,
                   rl_source = source, rl_metadata = stored m, rl_created = now, rl_updated = None, rl_active = True\<rparr>]\<rparr>))) (\<lambda>_.
             greturn (relation_outcome ''inserted'' i)))))))"

definition sqlite_upsert_graph_inferred_relation ::
  "string \<Rightarrow> string \<Rightarrow> string \<Rightarrow> string \<Rightarrow> pydict \<Rightarrow> string \<Rightarrow> (pyexc, pydict) gop" where
  "sqlite_upsert_graph_inferred_relation subject predicate object_name source metadata now =
     gbind (get_or_create_entity subject now) (\<lambda>s.
     gbind (get_or_create_entity object_name now) (\<lambda>ob.
     gbind (gread (\<lambda>st. find (same_relation s predicate ob) (st_relations st))) (\<lambda>explicit.
       case explicit of
         Some r \<Rightarrow>
           gbind (gupdate (shadow_inferred s predicate ob now)) (\<lambda>_. greturn (relation_outcome ''shadowed'' (rl_id r)))
       | None \<Rightarrow>
           gbind (glift (normalize_graph_record_metadata metadata source ''inferred_relation'')) (\<lambda>m.
           gbind (gread (\<lambda>st. find (same_relation s predicate ob) (st_inferred st))) (\<lambda>existing.
             case existing of
               Some r \<Rightarrow>
                 gbind (glift (merge_graph_record_metadata (rl_metadata r) m source ''inferred_relation'')) (\<lambda>merged.
                 gbind (gupdate (\<lambda>st. st\<lparr>st_inferred :=
                     map (\<lambda>q. if rl_id q = rl_id r then q\<lparr>rl_metadata := stored merged, rl_updated := Some now\<rparr> else q)
                       (st_inferred st)\<rparr>)) (\<lambda>_.
                   greturn (relation_outcome ''unchanged'' (rl_id r))))
             | None \<Rightarrow>
                 gbind (gread (\<lambda>st. next_id (map rl_id (st_inferred st)))) (\<lambda>i.
                 gbind (gupdate (\<lambda>st. st\<lparr>st_inferred := st_inferred st @
                     [\<lparr>rl_id = i, rl_subject = s, rl_predicate = predicate, rl_object = ob, rl_text = py_strip object_name,
                       rl_source = source, rl_metadata = stored m, rl_created = now, rl_updated = Some now, rl_active = True\<rparr>]\<rparr>)) (\<lambda>_.
                   greturn (relation_outcome ''inserted'' i))))))))"

text \<open>The two entities are looked up again and published.\<close>

definition publish_ends :: "string \<Rightarrow> string \<Rightarrow> string \<Rightarrow> (graph_error, unit) gop" where
  "publish_ends subject object_name now =
     gbind (gread st_backend) (\<lambda>backend.
       if \<not> backend then greturn ()
       else
         gbind (get_or_create_entity subject now) (\<lambda>s.
         gbind (get_or_create_entity object_name now) (\<lambda>ob.
           gupdate (\<lambda>st. publish_entity ob (publish_entity s st)))))"

definition guarded_relation_write ::
  "(string \<Rightarrow> string \<Rightarrow> string \<Rightarrow> string \<Rightarrow> pydict \<Rightarrow> string \<Rightarrow> (pyexc, pydict) gop) \<Rightarrow>
     string \<Rightarrow> string \<Rightarrow> string \<Rightarrow> string \<Rightarrow> pydict \<Rightarrow> string \<Rightarrow> (graph_error, pydict) gop" where
  "guarded_relation_write write subject predicate object_name source metadata now =
     gbind (glift (case guard_and_normalize_durable_truth_metadata ''graph'' source metadata [] (py_strip predicate) of
         Inl e \<Rightarrow> Inl (Refused e) | Inr m \<Rightarrow> Inr m)) (\<lambda>checked.
     gbind (raising (write subject predicate object_name source checked now)) (\<lambda>out.
     gbind (publish_ends subject object_name now) (\<lambda>_. greturn out)))"

definition upsert_graph_relation :: "string \<Rightarrow> string \<Rightarrow> string \<Rightarrow> string \<Rightarrow> pydict \<Rightarrow> string \<Rightarrow> (graph_error, pydict) gop" where
  "upsert_graph_relation = guarded_relation_write sqlite_upsert_graph_relation"

definition upsert_graph_inferred_relation ::
  "string \<Rightarrow> string \<Rightarrow> string \<Rightarrow> string \<Rightarrow> pydict \<Rightarrow> string \<Rightarrow> (graph_error, pydict) gop" where
  "upsert_graph_inferred_relation = guarded_relation_write sqlite_upsert_graph_inferred_relation"

text \<open>The write without a guard.\<close>

definition add_graph_relation :: "string \<Rightarrow> string \<Rightarrow> string \<Rightarrow> string \<Rightarrow> pydict \<Rightarrow> string \<Rightarrow> (graph_error, nat) gop" where
  "add_graph_relation subject predicate object_name source metadata now =
     gbind (raising (sqlite_upsert_graph_relation subject predicate object_name source metadata now)) (\<lambda>out.
     gbind (publish_ends subject object_name now) (\<lambda>_. greturn (outcome_id out ''relation_id'')))"

section \<open>Merging an alias\<close>

definition upsert_alias :: "string \<Rightarrow> string \<Rightarrow> nat \<Rightarrow> pydict \<Rightarrow> string \<Rightarrow> graph_store \<Rightarrow> graph_store" where
  "upsert_alias alias_name normalized target m now st =
     (if list_ex (\<lambda>a. ga_normalized a = normalized \<and> ga_target a = target) (st_aliases st)
      then st\<lparr>st_aliases := map (\<lambda>a. if ga_normalized a = normalized \<and> ga_target a = target
             then a\<lparr>ga_name := alias_name, ga_source := ''entity_alias_merge'', ga_metadata := stored m, ga_updated := now\<rparr> else a)
             (st_aliases st)\<rparr>
      else st\<lparr>st_aliases := st_aliases st @
             [\<lparr>ga_id = next_id (map ga_id (st_aliases st)), ga_name = alias_name, ga_normalized = normalized, ga_target = target,
               ga_source = ''entity_alias_merge'', ga_metadata = stored m, ga_created = now, ga_updated = now\<rparr>]\<rparr>)"

definition move_relation :: "nat \<Rightarrow> nat \<Rightarrow> string \<Rightarrow> graph_relation \<Rightarrow> graph_relation" where
  "move_relation from into target_name r =
     (let r = (if rl_subject r = from then r\<lparr>rl_subject := into\<rparr> else r) in
      if rl_object r = from then r\<lparr>rl_object := into, rl_text := target_name\<rparr> else r)"

text \<open>Of the active rows of one relation the newest stays active.\<close>

definition drop_duplicates :: "(graph_relation \<Rightarrow> graph_relation) \<Rightarrow> graph_relation list \<Rightarrow> graph_relation list" where
  "drop_duplicates deactivate rows =
     map (\<lambda>r. if rl_active r \<and> list_ex (\<lambda>q. same_relation (rl_subject r) (rl_predicate r) (rl_object r) q \<and> rl_id r < rl_id q) rows
             then deactivate r else r) rows"

definition move_entity_rows :: "nat \<Rightarrow> nat \<Rightarrow> string \<Rightarrow> string \<Rightarrow> graph_store \<Rightarrow> graph_store" where
  "move_entity_rows from into target_name now st =
     st\<lparr>st_states := map (\<lambda>r. if gs_entity r = from then r\<lparr>gs_entity := into\<rparr> else r) (st_states st),
        st_conflicts := map (\<lambda>c. if gc_entity c = from then c\<lparr>gc_entity := into\<rparr> else c) (st_conflicts st),
        st_relations := drop_duplicates (\<lambda>r. r\<lparr>rl_active := False\<rparr>) (map (move_relation from into target_name) (st_relations st)),
        st_inferred := drop_duplicates (\<lambda>r. r\<lparr>rl_active := False, rl_updated := Some now\<rparr>)
          (map (move_relation from into target_name) (st_inferred st))\<rparr>"

definition entity_unused :: "nat \<Rightarrow> graph_store \<Rightarrow> bool" where
  "entity_unused i st \<longleftrightarrow>
     list_all (\<lambda>r. gs_entity r \<noteq> i) (st_states st) \<and> list_all (\<lambda>c. gc_entity c \<noteq> i) (st_conflicts st) \<and>
     list_all (\<lambda>r. rl_subject r \<noteq> i \<and> rl_object r \<noteq> i) (st_relations st) \<and>
     list_all (\<lambda>r. rl_subject r \<noteq> i \<and> rl_object r \<noteq> i) (st_inferred st)"

text \<open>The foreign keys of the four tables and of the aliases refer to entities.\<close>

definition delete_entity :: "nat \<Rightarrow> (pyexc, unit) gop" where
  "delete_entity i st =
     (if entity_unused i st \<and> list_all (\<lambda>a. ga_target a \<noteq> i) (st_aliases st)
      then (Inr (), st\<lparr>st_entities := filter (\<lambda>e. ge_id e \<noteq> i) (st_entities st)\<rparr>)
      else (Inl IntegrityError, st))"

definition alias_merge_metadata :: "string \<Rightarrow> string \<Rightarrow> pydict" where
  "alias_merge_metadata alias_name target_name =
     [(''graph_identity'', PDict [(''kind'', PStr ''alias_merge''), (''alias_name'', PStr (py_strip alias_name)),
        (''target_name'', PStr (py_strip target_name))]),
      (''provenance'', PDict [(''source_ids'', PList [PStr ''merge_entity_alias''])])]"

definition merge_entity_alias :: "string \<Rightarrow> string \<Rightarrow> string \<Rightarrow> (pyexc, pydict) gop" where
  "merge_entity_alias alias_name target_name now st =
     (let a = normalize_entity_name alias_name; t = normalize_entity_name target_name; noop = [(''status'', PStr ''noop'')] in
      if a = [] \<or> t = [] \<or> a = t then (Inr noop, st)
      else case entity_named st a of
        None \<Rightarrow> (Inr noop, st)
      | Some alias \<Rightarrow>
          gbind (get_or_create_entity target_name now) (\<lambda>target.
          gbind (glift (merge_record_metadata [] (alias_merge_metadata alias_name target_name) ''entity_alias_merge'')) (\<lambda>m.
          gbind (gupdate (upsert_alias (py_strip alias_name) a target m now)) (\<lambda>_.
          gbind (gupdate (move_entity_rows (ge_id alias) target (py_strip target_name) now)) (\<lambda>_.
          gbind (gread (entity_unused (ge_id alias))) (\<lambda>unused.
          gbind (if unused then delete_entity (ge_id alias) else greturn ()) (\<lambda>_.
          gbind (gupdate (publish_entity target)) (\<lambda>_.
            greturn [(''status'', PStr ''merged''), (''alias_id'', PInt (int (ge_id alias))), (''target_id'', PInt (int target))]))))))) st)"

section \<open>Listing\<close>

text \<open>\<open>LIMIT\<close> with a negative number is no limit.\<close>

definition limited :: "int \<Rightarrow> 'r list \<Rightarrow> 'r list" where
  "limited n rows = (if n < 0 then rows else take (nat n) rows)"

definition conflict_listing :: "graph_conflict \<times> graph_entity \<times> graph_state \<Rightarrow> pydict" where
  "conflict_listing cer =
     (let (c, e, r) = cer in
      [(''id'', PInt (int (gc_id c))), (''entity_name'', PStr (ge_canonical e)), (''attribute'', PStr (gc_attribute c)),
       (''current_value'', PStr (gs_value r)), (''candidate_value_text'', PStr (gc_value c)),
       (''candidate_source'', PStr (gc_source c)), (''status'', PStr (gc_status c)), (''updated_at'', PStr (gc_updated c)),
       (''created_at'', PStr (gc_created c)), (''metadata'', PDict (gc_metadata c))])"

definition list_graph_conflicts :: "graph_store \<Rightarrow> int \<Rightarrow> bool \<Rightarrow> pydict list" where
  "list_graph_conflicts st n include_closed =
     limited n (map conflict_listing (List.map_filter (\<lambda>c. fetch_graph_conflict st (gc_id c))
       (newest_rows gc_updated gc_id (filter (\<lambda>c. include_closed \<or> gc_status c = ''open'') (st_conflicts st)))))"

definition resolution_listing :: "graph_resolution \<Rightarrow> pydict" where
  "resolution_listing r =
     [(''id'', PInt (int (gr_id r))), (''conflict_id'', PInt (int (gr_conflict r))), (''decision'', PStr (gr_decision r)),
      (''previous_status'', PStr (gr_previous r)), (''new_status'', PStr (gr_new r)), (''approved_by'', PStr (gr_approved_by r)),
      (''reason'', PStr (gr_reason r)), (''created_at'', PStr (gr_created r)),
      (''evidence_refs'', PList (map PStr (gr_evidence r))), (''before'', PDict (gr_before r)), (''after'', PDict (gr_after r))]"

definition list_graph_conflict_resolutions :: "graph_store \<Rightarrow> nat option \<Rightarrow> int \<Rightarrow> pydict list" where
  "list_graph_conflict_resolutions st conflict_id n =
     limited n (map resolution_listing (newest_rows gr_created gr_id
       (filter (\<lambda>r. conflict_id = None \<or> conflict_id = Some (gr_conflict r)) (st_resolutions st))))"

section \<open>Channel status\<close>

definition graph_backend_channel_status :: "string option \<Rightarrow> string \<Rightarrow> pydict" where
  "graph_backend_channel_status target error =
     (let unhealthy = ''Graph backend retrieval is unhealthy and fell back to SQLite: '' @ error in
      case target of
        None \<Rightarrow>
          [(''status'', PStr ''degraded''),
           (''reason'', PStr (if error \<noteq> [] then unhealthy
              else ''Graph backend retrieval is disabled until a donor-aligned graph backend is configured.''))]
      | Some name \<Rightarrow>
          if error \<noteq> [] then [(''status'', PStr ''degraded''), (''reason'', PStr unhealthy)]
          else [(''status'', PStr ''active''), (''reason'', PStr (''Graph retrieval is served by '' @ name @ ''.''))])"

definition graph_row_count :: "graph_store \<Rightarrow> nat" where
  "graph_row_count st =
     length (filter gs_current (st_states st)) + length (filter rl_active (st_relations st)) + length (filter rl_active (st_inferred st))"

definition graph_recall_channel_status :: "graph_store \<Rightarrow> nat \<Rightarrow> string option \<Rightarrow> string \<Rightarrow> pydict" where
  "graph_recall_channel_status st semantic_count target error =
     (let rows = graph_row_count st;
          (mode, status, reason) =
            (if rows = 0 then (''unavailable'', ''idle'', ''No current graph rows are available for recall.'')
             else if 0 < semantic_count
             then (''hybrid_seeded'', ''active'', ''Graph recall can use lexical graph search plus typed semantic evidence seeds.'')
             else (''lexical_seeded'', ''active'', ''Graph recall uses lexical graph search seeds only.'')) in
      [(''status'', PStr status), (''reason'', PStr reason), (''recall_mode'', PStr mode), (''graph_row_count'', PInt (int rows)),
       (''semantic_graph_seed_count'', PInt (int semantic_count)),
       (''storage_status'', PDict (graph_backend_channel_status target error))])"
end
