(* ===== verification/GraphTruth.thy ===== *)
theory GraphTruth
  imports GraphState
begin

text \<open>
  What the graph shelf keeps true: each operation as a few cases over the tables, an invariant over all of them, and what
  the writes do to the truths the shelf holds.
\<close>

section \<open>Running the operations\<close>

lemma bind_simps [simp]:
  "gbind (greturn x) f st = f x st" "gbind (glift (Inr x)) f st = f x st" "gbind (glift (Inl e)) f st = (Inl e, st)"
  "gbind (gupdate u) g st = g () (u st)" "gbind (gread h) f st = f (h st) st"
  by (simp_all add: gbind_def greturn_def glift_def gupdate_def gread_def)

lemma run_simps [simp]: "greturn x st = (Inr x, st)" "glift z st = (z, st)" "gupdate u st = (Inr (), u st)"
  by (simp_all add: greturn_def glift_def gupdate_def)

lemma gbind_Inr: "m st = (Inr x, st') \<Longrightarrow> gbind m f st = f x st'"
  by (simp add: gbind_def)

lemma gbind_Inl: "m st = (Inl e, st') \<Longrightarrow> gbind m f st = (Inl e, st')"
  by (simp add: gbind_def)

lemma gbind_assoc: "gbind (gbind m f) g = gbind m (\<lambda>x. gbind (f x) g)"
  by (rule ext) (simp add: gbind_def split: prod.splits sum.splits)

lemma next_id_gt: "i \<in> set ids \<Longrightarrow> i < next_id ids"
proof -
  have "\<forall>i \<in> set ids \<union> {b}. i \<le> fold max ids b" for b :: nat
  proof (induction ids arbitrary: b)
    case (Cons x ids)
    from Cons.IH [of "max x b"] show ?case by auto
  qed simp
  then show "i \<in> set ids \<Longrightarrow> i < next_id ids" by (auto simp: next_id_def less_Suc_eq_le)
qed

lemma next_id_pos: "0 < next_id ids"
  by (simp add: next_id_def)

section \<open>Entities\<close>

lemma entity_named_Some: "entity_named st n = Some e \<Longrightarrow> e \<in> set (st_entities st) \<and> ge_normalized e = n"
  by (auto simp: entity_named_def find_Some_iff)

lemma entity_named_None: "entity_named st n = None \<longleftrightarrow> (\<forall>e \<in> set (st_entities st). ge_normalized e \<noteq> n)"
  by (auto simp: entity_named_def find_None_iff)

lemma entity_by_id_Some: "entity_by_id st i = Some e \<Longrightarrow> e \<in> set (st_entities st) \<and> ge_id e = i"
  by (auto simp: entity_by_id_def find_Some_iff)

lemma set_newest_rows [simp]: "set (newest_rows f g rows) = set rows"
  by (simp add: newest_rows_def)

lemma alias_entity_Some: "alias_entity st n = Some e \<Longrightarrow>
    e \<in> set (st_entities st) \<and> (\<exists>a \<in> set (st_aliases st). ga_normalized a = n \<and> ga_target a = ge_id e)"
proof -
  let ?rows = "newest_rows ga_updated ga_id (filter (\<lambda>a. ga_normalized a = n \<and> entity_by_id st (ga_target a) \<noteq> None) (st_aliases st))"
  assume a: "alias_entity st n = Some e"
  then obtain x xs where x: "?rows = x # xs" "entity_by_id st (ga_target x) = Some e"
    by (auto simp: alias_entity_def split: list.splits)
  have "x \<in> set ?rows" unfolding x by simp
  then show ?thesis using entity_by_id_Some [OF x(2)] by auto
qed

definition new_entity :: "string \<Rightarrow> string \<Rightarrow> nat \<Rightarrow> graph_entity" where
  "new_entity name now i =
     \<lparr>ge_id = i, ge_canonical = py_strip name, ge_normalized = normalize_entity_name name, ge_created = now, ge_updated = now\<rparr>"

lemma get_or_create_cases:
  obtains (found) e where "e \<in> set (st_entities st)" "get_or_create_entity name now st = (Inr (ge_id e) :: 'e + nat, st)"
  | (made) "entity_named st (normalize_entity_name name) = None"
      "get_or_create_entity name now st = (Inr (Suc (st_entity_seq st)) :: 'e + nat,
         st\<lparr>st_entities := st_entities st @ [new_entity name now (Suc (st_entity_seq st))], st_entity_seq := Suc (st_entity_seq st)\<rparr>)"
proof (cases "entity_named st (normalize_entity_name name)")
  case (Some e)
  then show ?thesis using found [of e] entity_named_Some by (simp add: get_or_create_entity_def)
next
  case None
  show ?thesis
  proof (cases "alias_entity st (normalize_entity_name name)")
    case (Some e)
    then show ?thesis using found [of e] None alias_entity_Some by (simp add: get_or_create_entity_def)
  next
    case none: None
    show ?thesis by (rule made) (simp_all add: get_or_create_entity_def None none new_entity_def Let_def)
  qed
qed

text \<open>The tables other than the entities.\<close>

definition truth_rows ::
  "graph_store \<Rightarrow> graph_state list \<times> graph_conflict list \<times> graph_supersession list \<times> graph_resolution list" where
  "truth_rows st = (st_states st, st_conflicts st, st_supersessions st, st_resolutions st)"

lemma get_or_create_rest:
  assumes "get_or_create_entity name now st = (r :: 'e + nat, st')"
  shows "(\<exists>i. r = Inr i) \<and> truth_rows st' = truth_rows st \<and> st_relations st' = st_relations st \<and> st_inferred st' = st_inferred st \<and>
    st_aliases st' = st_aliases st \<and> st_backend st' = st_backend st \<and> st_effects st' = st_effects st"
  by (rule get_or_create_cases [of st name now, where 'e = 'e]) (use assms in \<open>auto simp: truth_rows_def\<close>)

section \<open>Metadata of a write\<close>

lemma metadata_ok_dset: "metadata_ok m \<Longrightarrow> k \<notin> set TEMPORAL_KEYS \<Longrightarrow> k \<noteq> ''temporal'' \<Longrightarrow> metadata_ok (dset k v m)"
  by (auto simp: metadata_ok_def)

lemma metadata_ok_temporal: "metadata_ok m \<Longrightarrow> times_ok t \<Longrightarrow> metadata_ok (dset ''temporal'' (PDict t) m)"
  using temporal_top(1) by (auto simp: metadata_ok_def)

lemma metadata_ok_put: "metadata_ok m \<Longrightarrow> times_ok t \<Longrightarrow> metadata_ok (put_nonempty ''temporal'' t m)"
  by (simp add: put_nonempty_def metadata_ok_temporal)

lemma plain_dset:
  "plain_scope m \<Longrightarrow> k \<notin> scope_fields \<Longrightarrow> plain_scope (dset k v m) \<and>
     principal_scope_key_from_metadata (dset k v m) = principal_scope_key_from_metadata m"
  by (rule scope_same [where f = id]) auto

lemma upsert_metadata:
  assumes "graph_state_metadata_for_upsert metadata source attribute value_text now = Inr (m, valid_from, valid_to)"
  shows "metadata_ok m" "distinct (map fst metadata) \<Longrightarrow> distinct (map fst m)"
    "plain_scope metadata \<Longrightarrow> plain_scope m \<and> principal_scope_key_from_metadata m = principal_scope_key_from_metadata metadata"
proof -
  obtain m0 t0 m1 t1 where m0: "normalize_graph_record_metadata metadata source ''state'' = Inr m0"
    and t0: "merge_temporal (dget m0 ''temporal'')
         (PDict [(''observed_at'', py_or (dget (sub_dict m0 ''temporal'') ''observed_at'') (PStr now))]) = Inr t0"
    and m1: "apply_relative_duration source attribute value_text now (put_nonempty ''temporal'' t0 m0, t0) = Inr (m1, t1)"
    and m: "disable_unbounded_background source attribute value_text now (m1, t1) = Inr m"
    using assms unfolding graph_state_metadata_for_upsert_def rbind_Inr by auto
  have keys: "''relative_duration_validity'' \<notin> set TEMPORAL_KEYS" "''background_current_authority'' \<notin> set TEMPORAL_KEYS"
    "''relative_duration_validity'' \<notin> scope_fields" "''background_current_authority'' \<notin> scope_fields" "''temporal'' \<notin> scope_fields"
    "''source_kind'' \<notin> scope_fields" "''graph_kind'' \<notin> scope_fields"
    by (simp_all add: TEMPORAL_KEYS_def scope_fields_def)
  have s1: "(m1, t1) = (put_nonempty ''temporal'' t0 m0, t0) \<or>
      (\<exists>t v. m1 = dset ''relative_duration_validity'' v (dset ''temporal'' (PDict t) (put_nonempty ''temporal'' t0 m0)) \<and> times_ok t)"
    using m1 unfolding apply_relative_duration_def Let_def
    by (auto simp: rbind_Inr split: option.splits if_splits dest: merge_temporal_times_ok)
  have s2: "m = m1 \<or> (\<exists>t v. m = dset ''background_current_authority'' v (dset ''temporal'' (PDict t) m1) \<and> times_ok t)"
    using m unfolding disable_unbounded_background_def Let_def
    by (auto simp: rbind_Inr split: if_splits dest: merge_temporal_times_ok)
  have ok0: "metadata_ok (put_nonempty ''temporal'' t0 m0)"
    using normalize_graph_ok [OF m0] merge_temporal_times_ok [OF t0] by (rule metadata_ok_put)
  have ok1: "metadata_ok m1" using s1 ok0 keys by (auto intro!: metadata_ok_dset metadata_ok_temporal)
  show "metadata_ok m" using s2 ok1 keys by (auto intro!: metadata_ok_dset metadata_ok_temporal)
  obtain n where n: "normalize_record_metadata metadata source = Inr n"
      "m0 = attach_graph_source_lineage (dsetdefault ''graph_kind'' (PStr ''state'') (dsetdefault ''source_kind'' (PStr ''explicit'') n)) source ''state''"
    using m0 unfolding normalize_graph_record_metadata_def rbind_Inr by auto
  show "distinct (map fst m)" if d: "distinct (map fst metadata)"
  proof -
    have "distinct (map fst n)" using normalize_record_fields [OF n(1)] d by metis
    then have "distinct (map fst m0)" unfolding n(2) dsetdefault_def by (intro attach_distinct) (auto intro!: distinct_keys_dset)
    then have "distinct (map fst m1)" using s1 by (auto simp: put_nonempty_def intro!: distinct_keys_dset)
    then show ?thesis using s2 by (auto intro!: distinct_keys_dset)
  qed
  show "plain_scope m \<and> principal_scope_key_from_metadata m = principal_scope_key_from_metadata metadata" if p: "plain_scope metadata"
  proof -
    have "plain_scope m0 \<and> principal_scope_key_from_metadata m0 = principal_scope_key_from_metadata metadata"
      using normalize_record_scope [OF n(1) p] keys unfolding n(2) dsetdefault_def
      by (auto simp: attach_scope plain_dset)
    then have "plain_scope m1 \<and> principal_scope_key_from_metadata m1 = principal_scope_key_from_metadata metadata"
      using s1 keys by (auto simp: put_nonempty_def plain_dset)
    then show ?thesis using s2 keys by (auto simp: plain_dset)
  qed
qed

section \<open>Stored metadata\<close>

lemma map_of_insort_key: "map_of (insort_key fst x d) k = (if fst x = k then (if \<forall>y \<in> set d. fst y \<noteq> k then Some (snd x) else map_of (insort_key fst x d) k) else map_of d k)"
  for d :: "('a :: linorder \<times> 'b) list"
  by (induction d) (auto split: prod.splits)

lemma map_of_sort_distinct: "distinct (map fst d) \<Longrightarrow> map_of (sort_key fst d) = map_of d"
  for d :: "('a :: linorder \<times> 'b) list"
proof -
  assume d: "distinct (map fst d)"
  have "mset (map fst (sort_key fst d)) = mset (map fst d)" by (metis mset_map mset_sort_key)
  then have "distinct (map fst (sort_key fst d))" using d mset_eq_imp_distinct_iff by blast
  then show ?thesis using d by (intro map_of_inject_set [THEN iffD2]) simp_all
qed

lemma stored_dict: "distinct (map fst m) \<Longrightarrow> map_of (stored m) k = map_option json_stored (map_of m k)"
proof -
  assume d: "distinct (map fst m)"
  have e: "map (\<lambda>(k, v). (k, json_stored v)) m = map (map_prod id json_stored) m" by (simp add: map_prod_def)
  have "distinct (map fst (map (map_prod id json_stored) m))" using d by (simp add: comp_def)
  then have "map_of (stored m) k = map_of (map (map_prod id json_stored) m) k"
    by (simp add: stored_def map_of_sort_distinct e)
  also have "\<dots> = map_option json_stored (map_of m k)" by (induction m) auto
  finally show ?thesis .
qed

lemma stored_scope:
  assumes "distinct (map fst m)" "plain_scope m"
  shows "plain_scope (stored m) \<and> principal_scope_key_from_metadata (stored m) = principal_scope_key_from_metadata m"
proof (rule scope_same [where f = json_stored, OF assms(2)])
  show "dget (stored m) k = json_stored (dget m k)" for k
    by (simp add: dget_def stored_dict [OF assms(1)] split: option.splits)
  show "dhas (stored m) k \<longleftrightarrow> dhas m k" for k by (simp add: dhas_def stored_dict [OF assms(1)])
  show "is_mapping (json_stored v) \<Longrightarrow> is_mapping v" for v by (cases v) simp_all
qed simp

section \<open>What a superseding write does\<close>

definition new_state :: "nat \<Rightarrow> nat \<Rightarrow> string \<Rightarrow> string \<Rightarrow> string \<Rightarrow> pydict \<Rightarrow> string \<Rightarrow> string \<Rightarrow> graph_state" where
  "new_state i entity attribute value_text source m valid_from valid_to =
     \<lparr>gs_id = i, gs_entity = entity, gs_attribute = attribute, gs_value = py_strip value_text, gs_source = source,
      gs_metadata = stored m, gs_valid_from = valid_from, gs_valid_to = none_if_empty valid_to, gs_current = True\<rparr>"

text \<open>The prior row is closed, the new one appended and the pair recorded.\<close>

definition superseded_store ::
  "graph_state \<Rightarrow> nat \<Rightarrow> string \<Rightarrow> string \<Rightarrow> string \<Rightarrow> string \<Rightarrow> string \<Rightarrow> pydict \<Rightarrow> pydict \<Rightarrow> graph_store \<Rightarrow> graph_store" where
  "superseded_store prior entity attribute value_text source valid_from valid_to prior_m new_m st =
     insert_supersession (gs_id prior) (next_id (map gs_id (st_states st))) valid_from
       (st\<lparr>st_states := map (\<lambda>r. if gs_id r = gs_id prior
            then r\<lparr>gs_current := False, gs_valid_to := Some valid_from, gs_metadata := stored prior_m\<rparr> else r) (st_states st) @
          [new_state (next_id (map gs_id (st_states st))) entity attribute value_text source new_m valid_from valid_to]\<rparr>)"

definition inserted_store ::
  "nat \<Rightarrow> string \<Rightarrow> string \<Rightarrow> string \<Rightarrow> string \<Rightarrow> string \<Rightarrow> pydict \<Rightarrow> graph_store \<Rightarrow> graph_store" where
  "inserted_store entity attribute value_text source valid_from valid_to m st =
     st\<lparr>st_states := st_states st @
       [new_state (next_id (map gs_id (st_states st))) entity attribute value_text source m valid_from valid_to]\<rparr>"

definition new_link :: "graph_state \<Rightarrow> string \<Rightarrow> pydict" where
  "new_link prior valid_from =
     [(''temporal'', PDict [(''supersedes'', show_id (gs_id prior)), (''valid_from'', PStr valid_from)]),
      (''provenance'', PDict [(''replacement_record_id'', show_id (gs_id prior))])]"

lemma times_ok_item: "times_ok (dupdate d [(k, v)]) \<longleftrightarrow> times_ok (dset k v d)"
  by simp

lemma new_link_ok: "succeeds (parse_iso (PStr valid_from)) \<Longrightarrow> metadata_ok (new_link prior valid_from)"
  by (simp add: metadata_ok_def new_link_def TEMPORAL_KEYS_def times_ok_def TIME_KEYS_def sub_dict_def parse_iso_falsy)

text \<open>
  Marking the prior row, inserting and linking: after the times of the prior row have been read nothing raises, so
  the writes are all done or none of them is.
\<close>

lemma link_run:
  assumes mark: "merge_temporal (dget (gs_metadata prior) ''temporal'') (PDict [(''valid_to'', PStr valid_from)]) = Inr t"
    and ok: "metadata_ok sm"
  obtains prior_m new_m where
    "merge_graph_record_metadata sm (new_link prior valid_from) source ''state'' = Inr new_m"
    "link_graph_state_supersession prior new_id sm valid_from source =
       gupdate (\<lambda>st. insert_supersession (gs_id prior) new_id valid_from
         (update_state new_id (\<lambda>r. r\<lparr>gs_metadata := stored new_m\<rparr>)
           (update_state (gs_id prior) (\<lambda>r. r\<lparr>gs_metadata := stored prior_m\<rparr>) st)))"
proof -
  let ?old = "as_mapping (dget (gs_metadata prior) ''temporal'')"
  have p: "times_ok (dset ''valid_to'' (PStr valid_from) ?old)"
    using mark merge_temporal_total [of "dget (gs_metadata prior) ''temporal''" "PDict [(''valid_to'', PStr valid_from)]"] by simp
  then have vf: "succeeds (parse_iso (PStr valid_from))" by (simp add: times_ok_def TIME_KEYS_def)
  have "times_ok (dset ''superseded_by'' (show_id new_id) (dset ''valid_to'' (PStr valid_from) ?old))"
    using p by (simp add: times_ok_def TIME_KEYS_def)
  then obtain t2 where t2: "merge_temporal (dget (gs_metadata prior) ''temporal'')
      (PDict [(''valid_to'', PStr valid_from), (''superseded_by'', show_id new_id)]) = Inr t2"
    using merge_temporal_total [of "dget (gs_metadata prior) ''temporal''"
        "PDict [(''valid_to'', PStr valid_from), (''superseded_by'', show_id new_id)]"] by (auto simp: succeeds_iff)
  obtain new_m where n: "merge_graph_record_metadata sm (new_link prior valid_from) source ''state'' = Inr new_m"
    using merge_graph_total [OF new_link_ok [OF vf], of sm prior source "''state''"] ok
    unfolding succeeds_iff metadata_ok_def by blast
  show ?thesis
    by (rule that [OF n], rule ext) (simp add: link_graph_state_supersession_def t2 n [unfolded new_link_def] Let_def)
qed

lemma close_rows:
  assumes "n \<notin> gs_id ` set rows" "p \<noteq> n"
  shows "map ((\<lambda>r. if gs_id r = n then r\<lparr>gs_metadata := a\<rparr> else r) \<circ>
       ((\<lambda>r. if gs_id r = p then r\<lparr>gs_metadata := b\<rparr> else r) \<circ>
        (\<lambda>r. if gs_id r = p then r\<lparr>gs_current := False, gs_valid_to := v, gs_metadata := c\<rparr> else r))) rows =
     map (\<lambda>r. if gs_id r = p then r\<lparr>gs_current := False, gs_valid_to := v, gs_metadata := b\<rparr> else r) rows"
  using assms by (intro map_cong refl) auto

lemma supersede_run:
  assumes ok: "metadata_ok sm" and r: "prior \<in> set (st_states st)"
  obtains (raised) e where "merge_temporal (dget (gs_metadata prior) ''temporal'') (PDict [(''valid_to'', PStr valid_from)]) = Inl e"
      "mark_prior_graph_state prior valid_from source = glift (Inl e)"
  | (written) prior_m new_m where
      "merge_graph_record_metadata sm (new_link prior valid_from) source ''state'' = Inr new_m"
      "\<And>out :: nat \<Rightarrow> 'r. gbind (mark_prior_graph_state prior valid_from source) (\<lambda>_.
         gbind (insert_graph_state entity attribute value_text source sm valid_from valid_to) (\<lambda>new_id.
         gbind (link_graph_state_supersession prior new_id sm valid_from source) (\<lambda>_. greturn (out new_id)))) st =
       (Inr (out (next_id (map gs_id (st_states st)))),
        superseded_store prior entity attribute value_text source valid_from valid_to prior_m new_m st)"
proof (cases "merge_temporal (dget (gs_metadata prior) ''temporal'') (PDict [(''valid_to'', PStr valid_from)])")
  case (Inl e)
  then show ?thesis by (intro raised [OF Inl], intro ext) (simp add: mark_prior_graph_state_def)
next
  case (Inr t)
  let ?new = "next_id (map gs_id (st_states st))"
  obtain prior_m new_m where n: "merge_graph_record_metadata sm (new_link prior valid_from) source ''state'' = Inr new_m"
    and link: "link_graph_state_supersession prior ?new sm valid_from source =
       gupdate (\<lambda>st. insert_supersession (gs_id prior) ?new valid_from
         (update_state ?new (\<lambda>r. r\<lparr>gs_metadata := stored new_m\<rparr>)
           (update_state (gs_id prior) (\<lambda>r. r\<lparr>gs_metadata := stored prior_m\<rparr>) st)))"
    using link_run [OF Inr ok] by metis
  have fresh: "?new \<notin> gs_id ` set (st_states st)" using next_id_gt [of _ "map gs_id (st_states st)"] by auto
  have ne: "gs_id prior \<noteq> ?new" using fresh imageI [OF r, of gs_id] by metis
  have run: "gbind (insert_graph_state entity attribute value_text source sm valid_from valid_to) f st1 =
      f (next_id (map gs_id (st_states st1))) (st1\<lparr>st_states := st_states st1 @
        [new_state (next_id (map gs_id (st_states st1))) entity attribute value_text source sm valid_from valid_to]\<rparr>)"
    for f :: "nat \<Rightarrow> (pyexc, 'r) gop" and st1
    by (simp add: gbind_def insert_graph_state_def new_state_def Let_def)
  have ids: "map gs_id (st_states (update_state i (\<lambda>r. r\<lparr>gs_current := c, gs_valid_to := v, gs_metadata := x\<rparr>) st1)) =
      map gs_id (st_states st1)" for i c v x st1 by (simp add: update_state_def)
  show ?thesis
    by (rule written [OF n], unfold mark_prior_graph_state_def Inr bind_simps gbind_assoc Let_def run ids link)
      (use fresh ne in \<open>simp add: update_state_def superseded_store_def insert_supersession_def new_state_def close_rows\<close>)
qed

lemma write_supersede:
  assumes ok: "metadata_ok m" and r: "prior \<in> set (st_states st)"
  obtains (raised) e where "write_graph_state entity attribute value_text source m valid_from valid_to (Some prior) st = (Inl e, st)"
  | (written) sm prior_m new_m where
      "merge_graph_record_metadata [] m source ''state'' = Inr sm"
      "merge_graph_record_metadata sm (new_link prior valid_from) source ''state'' = Inr new_m"
      "write_graph_state entity attribute value_text source m valid_from valid_to (Some prior) st =
         (Inr [(''status'', PStr ''superseded''), (''entity_id'', PInt (int entity)),
               (''state_id'', PInt (int (next_id (map gs_id (st_states st))))), (''prior_state_id'', PInt (int (gs_id prior)))],
          superseded_store prior entity attribute value_text source valid_from valid_to prior_m new_m st)"
proof -
  obtain sm where sm: "merge_graph_record_metadata [] m source ''state'' = Inr sm"
    using merge_graph_total [OF ok, of "[]" source "''state''"] by (auto simp: succeeds_iff sub_dict_def)
  have "metadata_ok sm" by (rule merge_graph_ok [OF sm]) simp
  have free: "gbind mk (\<lambda>_. gbind (glift (Inr sm)) f) = gbind mk (\<lambda>_. f sm)" for mk :: "(pyexc, unit) gop" and f :: "pydict \<Rightarrow> (pyexc, pydict) gop"
    by (rule ext) (simp add: gbind_def glift_def split: prod.splits sum.splits)
  from \<open>metadata_ok sm\<close> r show ?thesis
  proof (cases rule: supersede_run [where 'r = pydict and valid_from = valid_from and source = source and entity = entity and attribute = attribute
        and value_text = value_text and valid_to = valid_to])
    case (raised e)
    then show ?thesis by (intro that(1) [of e]) (simp add: write_graph_state_def raised(2))
  next
    case (written prior_m new_m)
    show ?thesis by (rule that(2) [OF sm written(1)]) (simp add: write_graph_state_def sm free written(2))
  qed
qed

text \<open>The replacement that resolves a conflict.\<close>

lemma apply_replacement_run:
  assumes r: "prior \<in> set (st_states st)"
  obtains (raised) e where "merge_temporal (dget (gs_metadata prior) ''temporal'') (PDict [(''valid_to'', PStr now)]) = Inl e"
      "apply_replacement c prior decision approved_by reason now (vl, source) st = (Inl e, st)"
  | (written) sm prior_m new_m where
      "merge_graph_record_metadata [] [(''conflict_resolution'', PDict
             [(''schema'', PStr ''brainstack.graph_conflict_resolution.v1''), (''conflict_id'', PInt (int (gc_id c))),
              (''decision'', PStr decision), (''approved_by'', PStr approved_by), (''reason'', PStr reason),
              (''resolved_at'', PStr now)])] source ''state'' = Inr sm"
      "merge_graph_record_metadata sm (new_link prior now) source ''state'' = Inr new_m"
      "apply_replacement c prior decision approved_by reason now (vl, source) st =
         (Inr (next_id (map gs_id (st_states st))),
          superseded_store prior (gc_entity c) (gc_attribute c) vl source now [] prior_m new_m st)"
proof -
  let ?m = "[(''conflict_resolution'', PDict
             [(''schema'', PStr ''brainstack.graph_conflict_resolution.v1''), (''conflict_id'', PInt (int (gc_id c))),
              (''decision'', PStr decision), (''approved_by'', PStr approved_by), (''reason'', PStr reason),
              (''resolved_at'', PStr now)])]"
  have f: "fetched_metadata c = []" by (simp add: fetched_metadata_def Let_def dpop_def delete_conv dset_def)
  have "metadata_ok ?m" by (simp add: metadata_ok_def TEMPORAL_KEYS_def sub_dict_def)
  then obtain sm where sm: "merge_graph_record_metadata [] ?m source ''state'' = Inr sm"
    using merge_graph_total [of ?m "[]" source "''state''"] by (auto simp: succeeds_iff sub_dict_def)
  have "metadata_ok sm" by (rule merge_graph_ok [OF sm]) simp
  have ap: "apply_replacement c prior decision approved_by reason now (vl, source) =
      gbind (mark_prior_graph_state prior now source) (\<lambda>_.
         gbind (insert_graph_state (gc_entity c) (gc_attribute c) vl source sm now []) (\<lambda>new_id.
         gbind (link_graph_state_supersession prior new_id sm now source) (\<lambda>_. greturn new_id)))"
    unfolding apply_replacement_def Let_def case_prod_conv f using sm by (intro ext) (simp add: dset_def)
  from \<open>metadata_ok sm\<close> r show ?thesis
  proof (cases rule: supersede_run [where 'r = nat and valid_from = now and source = source and entity = "gc_entity c"
        and attribute = "gc_attribute c" and value_text = vl and valid_to = "[]"])
    case (raised e)
    then show ?thesis by (intro that(1) [OF raised(1)]) (simp add: ap)
  next
    case (written prior_m new_m)
    show ?thesis by (rule that(2) [OF sm written(1)]) (simp add: ap written(2))
  qed
qed

lemma write_insert:
  assumes "metadata_ok m"
  obtains sm where "merge_graph_record_metadata [] m source ''state'' = Inr sm"
    "write_graph_state entity attribute value_text source m valid_from valid_to None st =
       (Inr [(''status'', PStr ''inserted''), (''entity_id'', PInt (int entity)), (''state_id'', PInt (int (next_id (map gs_id (st_states st)))))],
        inserted_store entity attribute value_text source valid_from valid_to sm st)"
proof -
  obtain sm where sm: "merge_graph_record_metadata [] m source ''state'' = Inr sm"
    using merge_graph_total [OF assms, of "[]" source "''state''"] by (auto simp: succeeds_iff sub_dict_def)
  show ?thesis
    by (rule that [OF sm])
      (simp add: write_graph_state_def sm insert_graph_state_def inserted_store_def new_state_def gbind_def [of "insert_graph_state _ _ _ _ _ _ _"] Let_def)
qed

section \<open>The upsert as cases\<close>

lemma candidates_in: "r \<in> set (current_candidates st entity attribute) \<longleftrightarrow>
    r \<in> set (st_states st) \<and> gs_entity r = entity \<and> gs_attribute r = attribute \<and> gs_current r"
  by (simp add: current_candidates_def)

lemma current_state_in: "current_graph_state st entity attribute m = Some r \<Longrightarrow> r \<in> set (current_candidates st entity attribute)"
  by (auto simp: current_graph_state_def Let_def find_Some_iff split: if_splits option.splits list.splits)

lemma record_conflict_run:
  obtains (raised) e where "record_graph_state_conflict entity attribute current value_text source m now st = (Inl e, st)"
  | (updated) c f where "c \<in> set (st_conflicts st)"
      "\<And>d. gc_id (f d) = gc_id d \<and> gc_entity (f d) = gc_entity d \<and> gc_attribute (f d) = gc_attribute d \<and>
         gc_current (f d) = gc_current d \<and> gc_value (f d) = gc_value d \<and> gc_status (f d) = gc_status d"
      "record_graph_state_conflict entity attribute current value_text source m now st =
         (Inr (conflict_outcome entity (gc_id c)), update_conflict (gc_id c) f st)"
  | (inserted) merged where
      "\<And>c. c \<in> set (st_conflicts st) \<Longrightarrow> \<not> same_conflict entity attribute (gs_id current) (py_strip value_text) c"
      "record_graph_state_conflict entity attribute current value_text source m now st =
         (Inr (conflict_outcome entity (next_id (map gc_id (st_conflicts st)))),
          insert_graph_conflict entity attribute (gs_id current) (py_strip value_text) source merged now st)"
proof -
  let ?same = "find (same_conflict entity attribute (gs_id current) (py_strip value_text)) (st_conflicts st)"
  let ?inverse = "find (inverse_conflict st entity attribute (gs_value current) value_text) (st_conflicts st)"
  let ?m = "dset ''duplicate_candidate_value_text'' (PStr (py_strip value_text))
                     (dset ''duplicate_current_state_id'' (PInt (int (gs_id current)))
                       (dset ''duplicate_bidirectional_conflict_collapsed'' (PBool True) m))"
  show ?thesis
  proof (cases ?same)
    case (Some c)
    then have c: "c \<in> set (st_conflicts st)" by (auto simp: find_Some_iff)
    show ?thesis
    proof (cases "merge_graph_record_metadata (gc_metadata c) m source ''state_conflict''")
      case (Inl e)
      then show ?thesis using Some by (intro raised [of e]) (simp add: record_graph_state_conflict_def Let_def)
    next
      case (Inr merged)
      show ?thesis
        by (rule updated [OF c, of "\<lambda>r. r\<lparr>gc_metadata := stored merged, gc_source := source, gc_updated := now\<rparr>"])
          (use Some Inr in \<open>simp_all add: record_graph_state_conflict_def Let_def\<close>)
    qed
  next
    case none: None
    show ?thesis
    proof (cases ?inverse)
      case (Some c)
      then have c: "c \<in> set (st_conflicts st)" by (auto simp: find_Some_iff)
      show ?thesis
      proof (cases "merge_graph_record_metadata (gc_metadata c) ?m source ''state_conflict''")
        case (Inl e)
        then show ?thesis using Some none by (intro raised [of e]) (simp add: record_graph_state_conflict_def Let_def)
      next
        case (Inr merged)
        show ?thesis
          by (rule updated [OF c, of "\<lambda>r. r\<lparr>gc_metadata := stored merged, gc_updated := now\<rparr>"])
            (use Some none Inr in \<open>simp_all add: record_graph_state_conflict_def Let_def\<close>)
      qed
    next
      case None
      show ?thesis
      proof (cases "merge_graph_record_metadata [] m source ''state_conflict''")
        case (Inl e)
        then show ?thesis using None none by (intro raised [of e]) (simp add: record_graph_state_conflict_def Let_def)
      next
        case (Inr merged)
        have "\<not> same_conflict entity attribute (gs_id current) (py_strip value_text) d" if "d \<in> set (st_conflicts st)" for d
          using none that by (auto simp: find_None_iff)
        then show ?thesis
          by (rule inserted [of merged]) (use none None Inr in \<open>simp_all add: record_graph_state_conflict_def Let_def\<close>)
      qed
    qed
  qed
qed

section \<open>The invariant of the tables\<close>

definition entity_ids :: "graph_store \<Rightarrow> nat set" where
  "entity_ids st = ge_id ` set (st_entities st)"

definition entities_ok :: "graph_store \<Rightarrow> bool" where
  "entities_ok st \<longleftrightarrow>
     distinct (map ge_id (st_entities st)) \<and> distinct (map ge_normalized (st_entities st)) \<and>
     (\<forall>e \<in> set (st_entities st). 0 < ge_id e \<and> ge_id e \<le> st_entity_seq st) \<and>
     (\<forall>a \<in> set (st_aliases st). ga_target a \<in> entity_ids st)"

definition states_ok :: "graph_store \<Rightarrow> bool" where
  "states_ok st \<longleftrightarrow>
     distinct (map gs_id (st_states st)) \<and> (\<forall>r \<in> set (st_states st). 0 < gs_id r \<and> gs_entity r \<in> entity_ids st)"

definition conflict_refers :: "graph_store \<Rightarrow> graph_conflict \<Rightarrow> bool" where
  "conflict_refers st c \<longleftrightarrow>
     (\<exists>r \<in> set (st_states st). gs_id r = gc_current c \<and> gs_entity r = gc_entity c \<and> gs_attribute r = gc_attribute c)"

definition supersession_refers :: "graph_store \<Rightarrow> graph_supersession \<Rightarrow> bool" where
  "supersession_refers st x \<longleftrightarrow> gx_prior x < gx_new x \<and> gx_new x \<in> gs_id ` set (st_states st) \<and>
     (\<exists>r \<in> set (st_states st). gs_id r = gx_prior x \<and> \<not> gs_current r)"

text \<open>An open candidate against a state is recorded once.\<close>

definition same_candidate :: "graph_conflict \<Rightarrow> graph_conflict \<Rightarrow> bool" where
  "same_candidate c d \<longleftrightarrow>
     gc_status c = ''open'' \<and> gc_status d = ''open'' \<and> gc_current c = gc_current d \<and> gc_value c = gc_value d"

definition conflicts_ok :: "graph_store \<Rightarrow> bool" where
  "conflicts_ok st \<longleftrightarrow>
     distinct (map gc_id (st_conflicts st)) \<and> (\<forall>c \<in> set (st_conflicts st). conflict_refers st c) \<and>
     (\<forall>c \<in> set (st_conflicts st). \<forall>d \<in> set (st_conflicts st). same_candidate c d \<longrightarrow> gc_id c = gc_id d) \<and>
     (\<forall>x \<in> set (st_supersessions st). supersession_refers st x)"

text \<open>A conflict is resolved at most once, and what resolved it says so.\<close>

definition resolutions_ok :: "graph_store \<Rightarrow> bool" where
  "resolutions_ok st \<longleftrightarrow>
     distinct (map gr_conflict (st_resolutions st)) \<and>
     (\<forall>g \<in> set (st_resolutions st). \<exists>c \<in> set (st_conflicts st). gc_id c = gr_conflict g \<and> gc_status c = gr_new g \<and>
       gr_new g \<in> set (map snd CONFLICT_RESOLUTION_STATUSES))"

text \<open>Of each triple at most one row is active, and both ends exist.\<close>

definition relation_table_ok :: "nat set \<Rightarrow> graph_relation list \<Rightarrow> bool" where
  "relation_table_ok ids rows \<longleftrightarrow>
     distinct (map rl_id rows) \<and> (\<forall>r \<in> set rows. rl_subject r \<in> ids \<and> rl_object r \<in> ids) \<and>
     (\<forall>r \<in> set rows. \<forall>q \<in> set rows. rl_active r \<and> same_relation (rl_subject r) (rl_predicate r) (rl_object r) q \<longrightarrow> rl_id q = rl_id r)"

definition graph_ok :: "graph_store \<Rightarrow> bool" where
  "graph_ok st \<longleftrightarrow>
     entities_ok st \<and> states_ok st \<and> conflicts_ok st \<and> resolutions_ok st \<and>
     relation_table_ok (entity_ids st) (st_relations st) \<and> relation_table_ok (entity_ids st) (st_inferred st)"

lemma supersession_refersI:
  "gx_prior x < gx_new x \<Longrightarrow> q \<in> set (st_states st) \<Longrightarrow> gs_id q = gx_new x \<Longrightarrow> r \<in> set (st_states st) \<Longrightarrow> gs_id r = gx_prior x \<Longrightarrow>
     \<not> gs_current r \<Longrightarrow> supersession_refers st x"
  unfolding supersession_refers_def by (metis imageI)

lemma graph_ok_empty: "graph_ok empty_graph_store"
  by (simp add: graph_ok_def entities_ok_def states_ok_def conflicts_ok_def resolutions_ok_def relation_table_ok_def empty_graph_store_def)

lemma relation_table_mono: "relation_table_ok ids rows \<Longrightarrow> ids \<subseteq> ids' \<Longrightarrow> relation_table_ok ids' rows"
  unfolding relation_table_ok_def by blast

lemma graph_ok_effect [simp]: "graph_ok (effect e st) = graph_ok st"
  by (simp add: graph_ok_def entities_ok_def states_ok_def conflicts_ok_def resolutions_ok_def effect_def entity_ids_def
      conflict_refers_def supersession_refers_def)

lemma graph_ok_publish [simp]: "graph_ok (publish_entity i st) = graph_ok st"
  by (simp add: publish_entity_def)

lemma add_entity_ok:
  assumes ok: "graph_ok st" and none: "entity_named st (normalize_entity_name name) = None"
  shows "graph_ok (st\<lparr>st_entities := st_entities st @ [new_entity name now (Suc (st_entity_seq st))], st_entity_seq := Suc (st_entity_seq st)\<rparr>)"
    (is "graph_ok ?st")
proof -
  have ids: "entity_ids ?st = insert (Suc (st_entity_seq st)) (entity_ids st)" by (simp add: entity_ids_def new_entity_def)
  then have sub: "entity_ids st \<subseteq> entity_ids ?st" by blast
  have "entities_ok ?st"
    using ok none unfolding graph_ok_def entities_ok_def ids
    by (auto simp: new_entity_def entity_named_None)
  moreover have "states_ok ?st" using ok sub unfolding graph_ok_def states_ok_def by auto
  moreover have "conflicts_ok ?st" "resolutions_ok ?st"
    using ok unfolding graph_ok_def conflicts_ok_def resolutions_ok_def conflict_refers_def supersession_refers_def by simp_all
  ultimately show ?thesis using ok relation_table_mono [OF _ sub] unfolding graph_ok_def by simp
qed

lemma get_or_create_ok:
  assumes "graph_ok st" "get_or_create_entity name now st = (r :: 'e + nat, st')"
  shows "graph_ok st' \<and> (\<exists>i. r = Inr i \<and> i \<in> entity_ids st') \<and> entity_ids st \<subseteq> entity_ids st'"
proof (rule get_or_create_cases [of st name now, where 'e = 'e])
  fix e
  assume "e \<in> set (st_entities st)" "get_or_create_entity name now st = (Inr (ge_id e) :: 'e + nat, st)"
  then show ?thesis using assms by (auto simp: entity_ids_def)
next
  let ?st = "st\<lparr>st_entities := st_entities st @ [new_entity name now (Suc (st_entity_seq st))], st_entity_seq := Suc (st_entity_seq st)\<rparr>"
  assume made: "entity_named st (normalize_entity_name name) = None"
    "get_or_create_entity name now st = (Inr (Suc (st_entity_seq st)) :: 'e + nat, ?st)"
  have "entity_ids ?st = insert (Suc (st_entity_seq st)) (entity_ids st)" by (simp add: entity_ids_def new_entity_def)
  then show ?thesis using add_entity_ok [OF assms(1) made(1), of now] assms(2) made(2) by auto
qed

lemma insert_state_ok:
  assumes ok: "graph_ok st" and e: "entity \<in> entity_ids st"
  shows "graph_ok (inserted_store entity attribute value_text source valid_from valid_to m st)" (is "graph_ok ?st")
proof -
  have st: "st_states ?st = st_states st @ [new_state (next_id (map gs_id (st_states st))) entity attribute value_text source m valid_from valid_to]"
    "entity_ids ?st = entity_ids st"
    by (simp_all add: inserted_store_def entity_ids_def)
  have "states_ok ?st"
    using ok e next_id_gt [of _ "map gs_id (st_states st)"] next_id_pos unfolding graph_ok_def states_ok_def st
    by (auto simp: new_state_def)
  moreover have "conflicts_ok ?st" using ok unfolding graph_ok_def conflicts_ok_def conflict_refers_def supersession_refers_def st
    by (auto simp: inserted_store_def)
  moreover have "entities_ok ?st" "resolutions_ok ?st"
    using ok unfolding graph_ok_def entities_ok_def resolutions_ok_def st by (simp_all add: inserted_store_def)
  ultimately show ?thesis using ok unfolding graph_ok_def st by (simp add: inserted_store_def)
qed

lemma update_state_ok:
  assumes ok: "graph_ok st"
    and f: "\<And>r. gs_id (f r) = gs_id r \<and> gs_entity (f r) = gs_entity r \<and> gs_attribute (f r) = gs_attribute r \<and> (gs_current (f r) \<longrightarrow> gs_current r)"
  shows "graph_ok (update_state i f st)" (is "graph_ok ?st")
proof -
  define g where "g r = (if gs_id r = i then f r else r)" for r
  have st: "st_states ?st = map g (st_states st)" "entity_ids ?st = entity_ids st" "st_conflicts ?st = st_conflicts st"
    "st_supersessions ?st = st_supersessions st"
    by (simp_all add: update_state_def entity_ids_def g_def)
  have g: "gs_id (g r) = gs_id r" "gs_entity (g r) = gs_entity r" "gs_attribute (g r) = gs_attribute r" "gs_current (g r) \<Longrightarrow> gs_current r" for r
    using f [of r] by (auto simp: g_def split: if_splits)
  have "gs_id \<circ> g = gs_id" using g(1) by (simp add: fun_eq_iff)
  then have "states_ok ?st" using ok g(1,2) unfolding graph_ok_def states_ok_def st by simp
  moreover have "conflict_refers ?st c" if cr: "conflict_refers st c" for c
  proof -
    obtain r where r: "r \<in> set (st_states st)" "gs_id r = gc_current c" "gs_entity r = gc_entity c" "gs_attribute r = gc_attribute c"
      using cr by (auto simp: conflict_refers_def)
    then have "g r \<in> set (st_states ?st)" unfolding st by simp
    then show ?thesis unfolding conflict_refers_def using r g [of r] by metis
  qed
  moreover have "supersession_refers ?st x" if sr: "supersession_refers st x" for x
  proof -
    obtain r n where r: "r \<in> set (st_states st)" "gs_id r = gx_prior x" "\<not> gs_current r"
      and n: "n \<in> set (st_states st)" "gs_id n = gx_new x" "gx_prior x < gx_new x"
      using sr by (auto simp: supersession_refers_def)
    then have "g r \<in> set (st_states ?st)" "g n \<in> set (st_states ?st)" unfolding st by simp_all
    then show ?thesis unfolding supersession_refers_def using r n g [of r] g(1) [of n] by (metis imageI)
  qed
  ultimately have "states_ok ?st \<and> conflicts_ok ?st" using ok unfolding graph_ok_def conflicts_ok_def st by blast
  moreover have "entities_ok ?st" "resolutions_ok ?st"
    using ok unfolding graph_ok_def entities_ok_def resolutions_ok_def st by (simp_all add: update_state_def)
  ultimately show ?thesis using ok unfolding graph_ok_def st by (simp add: update_state_def)
qed

lemma insert_supersession_ok:
  assumes ok: "graph_ok st" and refs: "supersession_refers st \<lparr>gx_id = i, gx_prior = p, gx_new = n, gx_reason = rs, gx_created = c\<rparr>"
  shows "graph_ok (insert_supersession p n t st)"
  using ok refs unfolding graph_ok_def entities_ok_def states_ok_def conflicts_ok_def resolutions_ok_def entity_ids_def
    conflict_refers_def supersession_refers_def insert_supersession_def by simp

lemma superseded_ok:
  assumes ok: "graph_ok st" and e: "entity \<in> entity_ids st" and prior: "prior \<in> set (st_states st)"
  shows "graph_ok (superseded_store prior entity attribute value_text source valid_from valid_to prior_m new_m st)"
proof -
  let ?f = "\<lambda>r. r\<lparr>gs_current := False, gs_valid_to := Some valid_from, gs_metadata := stored prior_m\<rparr>"
  let ?u = "update_state (gs_id prior) ?f st"
  let ?n = "next_id (map gs_id (st_states st))"
  have u: "graph_ok ?u" by (rule update_state_ok [OF ok]) simp
  have nu: "next_id (map gs_id (st_states ?u)) = ?n" by (simp add: update_state_def comp_def if_distrib cong: if_cong)
  let ?i = "inserted_store entity attribute value_text source valid_from valid_to new_m ?u"
  have i: "graph_ok ?i" by (rule insert_state_ok [OF u]) (use e in \<open>simp add: update_state_def entity_ids_def\<close>)
  have eq: "superseded_store prior entity attribute value_text source valid_from valid_to prior_m new_m st =
      insert_supersession (gs_id prior) ?n valid_from ?i"
    unfolding superseded_store_def inserted_store_def nu by (simp add: update_state_def)
  have "supersession_refers ?i \<lparr>gx_id = 0, gx_prior = gs_id prior, gx_new = ?n, gx_reason = [], gx_created = []\<rparr>"
  proof -
    have n: "new_state ?n entity attribute value_text source new_m valid_from valid_to \<in> set (st_states ?i)"
      by (simp add: inserted_store_def nu)
    have p: "?f prior \<in> set (st_states ?i)" using prior by (force simp: inserted_store_def update_state_def)
    have "gs_id prior < ?n" using next_id_gt [of "gs_id prior" "map gs_id (st_states st)"] prior by simp
    then show ?thesis by (intro supersession_refersI [OF _ n _ p]) (simp_all add: new_state_def)
  qed
  then show ?thesis unfolding eq by (rule insert_supersession_ok [OF i])
qed

lemma update_conflict_ok:
  assumes ok: "graph_ok st"
    and f: "\<And>d. gc_id (f d) = gc_id d \<and> gc_entity (f d) = gc_entity d \<and> gc_attribute (f d) = gc_attribute d \<and>
         gc_current (f d) = gc_current d \<and> gc_value (f d) = gc_value d \<and> gc_status (f d) = gc_status d"
  shows "graph_ok (update_conflict i f st)" (is "graph_ok ?st")
proof -
  define g where "g d = (if gc_id d = i then f d else d)" for d
  have st: "st_conflicts ?st = map g (st_conflicts st)" "entity_ids ?st = entity_ids st" "st_states ?st = st_states st"
    "st_supersessions ?st = st_supersessions st" "st_resolutions ?st = st_resolutions st"
    by (simp_all add: update_conflict_def entity_ids_def g_def)
  have g: "gc_id (g d) = gc_id d" "gc_entity (g d) = gc_entity d" "gc_attribute (g d) = gc_attribute d"
    "gc_current (g d) = gc_current d" "gc_value (g d) = gc_value d" "gc_status (g d) = gc_status d" for d
    using f [of d] by (simp_all add: g_def)
  have "gc_id \<circ> g = gc_id" using g(1) by (simp add: fun_eq_iff)
  moreover have "conflict_refers ?st (g d) = conflict_refers st d" "same_candidate (g c) (g d) = same_candidate c d"
    "supersession_refers ?st x = supersession_refers st x" for c d x
    unfolding conflict_refers_def supersession_refers_def same_candidate_def st g by (rule refl)+
  ultimately have "conflicts_ok ?st"
    using ok unfolding graph_ok_def conflicts_ok_def st by (simp add: g(1))
  moreover have "resolutions_ok ?st" using ok g unfolding graph_ok_def resolutions_ok_def st by simp
  moreover have "entities_ok ?st" "states_ok ?st"
    using ok unfolding graph_ok_def entities_ok_def states_ok_def st by (simp_all add: update_conflict_def)
  ultimately show ?thesis using ok unfolding graph_ok_def st by (simp add: update_conflict_def)
qed

lemma insert_conflict_ok:
  assumes ok: "graph_ok st" and r: "r \<in> set (st_states st)" "gs_entity r = entity" "gs_attribute r = attribute"
    and none: "\<And>c. c \<in> set (st_conflicts st) \<Longrightarrow> \<not> same_conflict entity attribute (gs_id r) v c"
  shows "graph_ok (insert_graph_conflict entity attribute (gs_id r) v source m now st)" (is "graph_ok ?st")
proof -
  define new where "new = \<lparr>gc_id = next_id (map gc_id (st_conflicts st)), gc_entity = entity, gc_attribute = attribute, gc_current = gs_id r,
         gc_value = v, gc_source = source, gc_metadata = stored m, gc_status = ''open'', gc_created = now, gc_updated = now\<rparr>"
  have st: "st_conflicts ?st = st_conflicts st @ [new]" "entity_ids ?st = entity_ids st" "st_states ?st = st_states st"
    "st_supersessions ?st = st_supersessions st" "st_resolutions ?st = st_resolutions st"
    by (simp_all add: insert_graph_conflict_def entity_ids_def new_def)
  have refs: "conflict_refers ?st c" if "c = new \<or> conflict_refers st c" for c
    using that r unfolding conflict_refers_def st new_def by auto
  have d: "distinct (map gs_id (st_states st))" using ok by (simp add: graph_ok_def states_ok_def)
  have same: "\<not> (same_candidate c new \<or> same_candidate new c)" if c: "c \<in> set (st_conflicts st)" for c
  proof
    assume "same_candidate c new \<or> same_candidate new c"
    then have s: "gc_status c = ''open''" "gc_current c = gs_id r" "gc_value c = v" by (auto simp: same_candidate_def new_def)
    obtain q where q: "q \<in> set (st_states st)" "gs_id q = gc_current c" "gs_entity q = gc_entity c" "gs_attribute q = gc_attribute c"
      using ok c by (auto simp: graph_ok_def conflicts_ok_def conflict_refers_def)
    have "q = r" using d q r s by (auto simp: distinct_map dest: inj_onD)
    then show False using none [OF c] s q r by (simp add: same_conflict_def)
  qed
  have "new_id \<notin> set (map gc_id (st_conflicts st))" if "new_id = gc_id new" for new_id
    using next_id_gt [of new_id "map gc_id (st_conflicts st)"] that by (auto simp: new_def)
  then have "distinct (map gc_id (st_conflicts ?st))" using ok by (simp add: st graph_ok_def conflicts_ok_def)
  then have "conflicts_ok ?st"
    using ok refs same unfolding graph_ok_def conflicts_ok_def supersession_refers_def st by (auto simp: st)
  moreover have "resolutions_ok ?st" using ok unfolding graph_ok_def resolutions_ok_def st by auto
  moreover have "entities_ok ?st" "states_ok ?st"
    using ok unfolding graph_ok_def entities_ok_def states_ok_def st by (simp_all add: insert_graph_conflict_def)
  ultimately show ?thesis using ok unfolding graph_ok_def st by (simp add: insert_graph_conflict_def)
qed

lemma conflict_run_ok:
  assumes ok: "graph_ok st" and r: "r \<in> set (st_states st)" "gs_entity r = entity" "gs_attribute r = attribute"
  shows "graph_ok (snd (record_graph_state_conflict entity attribute r value_text source m now st))"
proof (cases rule: record_conflict_run [of entity attribute r value_text source m now st])
  case (updated c f)
  show ?thesis unfolding updated(3) snd_conv by (rule update_conflict_ok [OF ok updated(2)])
next
  case (inserted merged)
  show ?thesis unfolding inserted(2) snd_conv by (rule insert_conflict_ok [OF ok r inserted(1)])
qed (simp add: ok)

section \<open>The upsert as cases\<close>

lemma metadata_ok_merge_record: "merge_record_metadata [] m source = Inr r \<Longrightarrow> metadata_ok r"
  by (erule merge_record_ok) simp

text \<open>The exact-value path only adds two fields.\<close>

lemma exact_update:
  assumes "merge_record_metadata [] (dset ''status_reason'' v (dset ''exact_value_update'' w m)) source = Inr n"
  shows "metadata_ok n" "distinct (map fst n)"
    "distinct (map fst m) \<Longrightarrow> plain_scope m \<Longrightarrow> plain_scope n \<and> principal_scope_key_from_metadata n = principal_scope_key_from_metadata m"
proof -
  let ?m = "dset ''status_reason'' v (dset ''exact_value_update'' w m)"
  show "metadata_ok n" by (rule metadata_ok_merge_record [OF assms])
  show "distinct (map fst n)" by (rule merge_record_fields [OF assms]) simp
  assume d: "distinct (map fst m)" and p: "plain_scope m"
  have k: "''status_reason'' \<notin> scope_fields" "''exact_value_update'' \<notin> scope_fields" by (simp_all add: scope_fields_def)
  have m: "plain_scope ?m" "principal_scope_key_from_metadata ?m = principal_scope_key_from_metadata m"
    using plain_dset [OF p k(2)] plain_dset [OF _ k(1)] by simp_all
  have "distinct (map fst ?m)" by (intro distinct_keys_dset d)
  from merge_record_scope [OF assms this plain_scope_Nil(1) m(1)] m(2)
  show "plain_scope n \<and> principal_scope_key_from_metadata n = principal_scope_key_from_metadata m" by simp
qed

lemma state_upsert_cases:
  assumes e: "get_or_create_entity subject now st = (Inr entity :: pyexc + nat, st1)"
    and run_def: "run = sqlite_upsert_graph_state subject attribute value_text source supersede metadata now st"
  obtains (raised) x where "run = (Inl x, st1)"
  | (inserted) m valid_from valid_to sm where
      "graph_state_metadata_for_upsert metadata source attribute value_text now = Inr (m, valid_from, valid_to)"
      "current_graph_state st1 entity attribute m = None" "merge_graph_record_metadata [] m source ''state'' = Inr sm"
      "run = (Inr [(''status'', PStr ''inserted''), (''entity_id'', PInt (int entity)),
          (''state_id'', PInt (int (next_id (map gs_id (st_states st1)))))],
        inserted_store entity attribute value_text source valid_from valid_to sm st1)"
  | (superseded) m0 m valid_from valid_to prior sm prior_m new_m where
      "graph_state_metadata_for_upsert metadata source attribute value_text now = Inr (m0, valid_from, valid_to)"
      "m = m0 \<or> merge_record_metadata [] (dset ''status_reason'' (PStr ''numeric_exact_value_change'')
                   (dset ''exact_value_update'' (PBool True) m0)) source = Inr m"
      "current_graph_state st1 entity attribute m0 = Some prior"
      "normalize_entity_name (gs_value prior) \<noteq> normalize_entity_name value_text"
      "supersede \<or> should_auto_supersede_exact_value (gs_value prior) value_text"
      "merge_graph_record_metadata [] m source ''state'' = Inr sm"
      "merge_graph_record_metadata sm (new_link prior valid_from) source ''state'' = Inr new_m"
      "run = (Inr [(''status'', PStr ''superseded''), (''entity_id'', PInt (int entity)),
               (''state_id'', PInt (int (next_id (map gs_id (st_states st1))))), (''prior_state_id'', PInt (int (gs_id prior)))],
          superseded_store prior entity attribute value_text source valid_from valid_to prior_m new_m st1)"
  | (unchanged) m valid_from valid_to r merged where
      "graph_state_metadata_for_upsert metadata source attribute value_text now = Inr (m, valid_from, valid_to)"
      "current_graph_state st1 entity attribute m = Some r"
      "normalize_entity_name (gs_value r) = normalize_entity_name value_text"
      "merge_graph_record_metadata (gs_metadata r) m source ''state'' = Inr merged"
      "\<exists>v. run = (Inr [(''status'', PStr ''unchanged''), (''entity_id'', PInt (int entity)), (''state_id'', PInt (int (gs_id r)))],
        update_state (gs_id r) (\<lambda>q. q\<lparr>gs_metadata := stored merged, gs_valid_to := v\<rparr>) st1)"
  | (conflict) m valid_from valid_to r where
      "graph_state_metadata_for_upsert metadata source attribute value_text now = Inr (m, valid_from, valid_to)"
      "current_graph_state st1 entity attribute m = Some r"
      "normalize_entity_name (gs_value r) \<noteq> normalize_entity_name value_text" "\<not> supersede"
      "\<not> should_auto_supersede_exact_value (gs_value r) value_text"
      "run = record_graph_state_conflict entity attribute r value_text source m now st1"
proof (cases "graph_state_metadata_for_upsert metadata source attribute value_text now")
  case (Inl x)
  then show ?thesis by (intro raised [of x]) (simp add: run_def sqlite_upsert_graph_state_def gbind_Inr [where m = "get_or_create_entity subject now", OF e])
next
  case (Inr mvv)
  obtain m valid_from valid_to where m: "mvv = (m, valid_from, valid_to)" by (metis prod_cases3)
  note Inr = Inr [unfolded m]
  let ?current = "current_graph_state st1 entity attribute m"
  have run: "run = (case ?current of
         None \<Rightarrow> write_graph_state entity attribute value_text source m valid_from valid_to None
       | Some r \<Rightarrow>
           if normalize_entity_name (gs_value r) = normalize_entity_name value_text
           then merge_unchanged_graph_state r m source entity
           else if supersede then write_graph_state entity attribute value_text source m valid_from valid_to ?current
           else if should_auto_supersede_exact_value (gs_value r) value_text then
             gbind (glift (merge_record_metadata []
                 (dset ''status_reason'' (PStr ''numeric_exact_value_change'') (dset ''exact_value_update'' (PBool True) m)) source)) (\<lambda>m.
               write_graph_state entity attribute value_text source m valid_from valid_to ?current)
           else record_graph_state_conflict entity attribute r value_text source m now) st1"
    unfolding run_def sqlite_upsert_graph_state_def gbind_Inr [where m = "get_or_create_entity subject now", OF e] Inr
    by simp
  have ok: "metadata_ok m" by (rule upsert_metadata(1) [OF Inr])
  show ?thesis
  proof (cases ?current)
    case None
    obtain sm where sm: "merge_graph_record_metadata [] m source ''state'' = Inr sm"
      "write_graph_state entity attribute value_text source m valid_from valid_to None st1 =
       (Inr [(''status'', PStr ''inserted''), (''entity_id'', PInt (int entity)), (''state_id'', PInt (int (next_id (map gs_id (st_states st1)))))],
        inserted_store entity attribute value_text source valid_from valid_to sm st1)"
      using write_insert [OF ok] by metis
    show ?thesis by (rule inserted [OF Inr None sm(1)]) (simp add: run None sm(2))
  next
    case (Some r)
    have r: "r \<in> set (st_states st1)" using current_state_in [OF Some] by (simp add: candidates_in)
    show ?thesis
    proof (cases "normalize_entity_name (gs_value r) = normalize_entity_name value_text")
      case True
      show ?thesis
      proof (cases "merge_graph_record_metadata (gs_metadata r) m source ''state''")
        case (Inl x)
        then show ?thesis by (intro raised [of x]) (simp add: run Some True merge_unchanged_graph_state_def)
      next
        case merged: (Inr merged)
        show ?thesis by (rule unchanged [OF Inr Some True merged]) (simp add: run Some True merge_unchanged_graph_state_def merged Let_def, blast)
      qed
    next
      case ne: False
      have sup: thesis if w: "run = write_graph_state entity attribute value_text source m2 valid_from valid_to (Some r) st1"
        and m2: "metadata_ok m2" "m2 = m \<or> merge_record_metadata [] (dset ''status_reason'' (PStr ''numeric_exact_value_change'')
                   (dset ''exact_value_update'' (PBool True) m)) source = Inr m2"
        and s: "supersede \<or> should_auto_supersede_exact_value (gs_value r) value_text" for m2
        using m2(1) r
      proof (cases rule: write_supersede [where entity = entity and attribute = attribute and value_text = value_text and source = source
            and valid_from = valid_from and valid_to = valid_to])
        case wr: (raised x)
        then show ?thesis by (intro raised [of x]) (simp add: w)
      next
        case (written sm prior_m new_m)
        show ?thesis by (rule superseded [OF Inr m2(2) Some ne s written(1,2)]) (simp add: w written(3))
      qed
      show ?thesis
      proof (cases supersede)
        case True
        show ?thesis by (rule sup [OF _ ok]) (simp_all add: run Some ne True)
      next
        case ns: False
        show ?thesis
        proof (cases "should_auto_supersede_exact_value (gs_value r) value_text")
          case True
          let ?m = "merge_record_metadata []
                 (dset ''status_reason'' (PStr ''numeric_exact_value_change'') (dset ''exact_value_update'' (PBool True) m)) source"
          show ?thesis
          proof (cases ?m)
            case (Inl x)
            then show ?thesis by (intro raised [of x]) (simp add: run Some ne ns True)
          next
            case m2: (Inr m2)
            show ?thesis by (rule sup [OF _ metadata_ok_merge_record [OF m2]]) (simp_all add: run Some ne ns True m2)
          qed
        next
          case False
          show ?thesis by (rule conflict [OF Inr Some ne ns False]) (simp add: run Some ne ns False)
        qed
      qed
    qed
  qed
qed

section \<open>Relations keep the invariant\<close>

lemma graph_ok_relations: "graph_ok st \<Longrightarrow> relation_table_ok (entity_ids st) rows \<Longrightarrow> graph_ok (st\<lparr>st_relations := rows\<rparr>)"
  and graph_ok_inferred: "graph_ok st \<Longrightarrow> relation_table_ok (entity_ids st) rows \<Longrightarrow> graph_ok (st\<lparr>st_inferred := rows\<rparr>)"
  by (simp_all add: graph_ok_def entities_ok_def states_ok_def conflicts_ok_def resolutions_ok_def entity_ids_def
      conflict_refers_def supersession_refers_def)

lemma entity_ids_tables [simp]:
  "entity_ids (st\<lparr>st_relations := rows\<rparr>) = entity_ids st" "entity_ids (st\<lparr>st_inferred := rows\<rparr>) = entity_ids st"
  by (simp_all add: entity_ids_def)

lemma relation_map_ok:
  assumes ok: "relation_table_ok ids rows"
    and g: "\<And>r. rl_id (g r) = rl_id r \<and> rl_subject (g r) = rl_subject r \<and> rl_predicate (g r) = rl_predicate r \<and>
      rl_object (g r) = rl_object r \<and> (rl_active (g r) \<longrightarrow> rl_active r)"
  shows "relation_table_ok ids (map g rows)"
proof -
  have "rl_id \<circ> g = rl_id" using g by (simp add: fun_eq_iff)
  moreover have "rl_id (g q) = rl_id (g r)"
    if m: "r \<in> set rows" "q \<in> set rows" "rl_active (g r)" "same_relation (rl_subject (g r)) (rl_predicate (g r)) (rl_object (g r)) (g q)" for r q
  proof -
    have "rl_active r" "same_relation (rl_subject r) (rl_predicate r) (rl_object r) q"
      using m(3,4) g [of r] g [of q] by (auto simp: same_relation_def)
    then have "rl_id q = rl_id r" using ok m(1,2) unfolding relation_table_ok_def by blast
    then show ?thesis using g by simp
  qed
  ultimately show ?thesis using ok g unfolding relation_table_ok_def by simp
qed

lemma relation_append_ok:
  assumes ok: "relation_table_ok ids rows" and none: "find (same_relation s p ob) rows = None"
    and r: "rl_id r = next_id (map rl_id rows)" "rl_subject r = s" "rl_predicate r = p" "rl_object r = ob" "s \<in> ids" "ob \<in> ids"
  shows "relation_table_ok ids (rows @ [r])"
proof -
  have "rl_id r \<notin> set (map rl_id rows)" using next_id_gt [of "rl_id r" "map rl_id rows"] r(1) by auto
  moreover have n: "\<not> same_relation s p ob q" if "q \<in> set rows" for q using none that by (auto simp: find_None_iff)
  moreover have "\<not> same_relation (rl_subject q) (rl_predicate q) (rl_object q) r" if "q \<in> set rows" "rl_active q" for q
    using n [OF that(1)] that(2) r by (auto simp: same_relation_def)
  ultimately show ?thesis using ok r unfolding relation_table_ok_def by auto
qed

lemma shadow_ok: "graph_ok st \<Longrightarrow> graph_ok (shadow_inferred s p ob now st)"
  unfolding shadow_inferred_def
  by (rule graph_ok_inferred, assumption, rule relation_map_ok) (auto simp: graph_ok_def)

lemma set_metadata_ok: "relation_table_ok ids rows \<Longrightarrow> relation_table_ok ids (set_relation_metadata i m rows)"
  unfolding set_relation_metadata_def by (rule relation_map_ok) auto

lemma relation_ok:
  assumes ok: "graph_ok st"
  shows "graph_ok (snd (sqlite_upsert_graph_relation subject predicate object_name source metadata now st))"
proof -
  obtain s st1 where s: "get_or_create_entity subject now st = (Inr s :: pyexc + nat, st1)" "graph_ok st1" "s \<in> entity_ids st1"
    using get_or_create_ok [OF ok] by (metis surj_pair)
  obtain ob st2 where o2: "get_or_create_entity object_name now st1 = (Inr ob :: pyexc + nat, st2)" "graph_ok st2" "ob \<in> entity_ids st2"
      "s \<in> entity_ids st2"
    using get_or_create_ok [OF s(2)] s(3) by (metis surj_pair subsetD)
  note start = gbind_Inr [where m = "get_or_create_entity subject now", OF s(1)] gbind_Inr [where m = "get_or_create_entity object_name now", OF o2(1)]
  have t: "relation_table_ok (entity_ids st2) (st_relations st2)" using o2(2) by (simp add: graph_ok_def)
  show ?thesis
  proof (cases "find (same_relation s predicate ob) (st_relations st2)")
    case (Some r)
    show ?thesis
      by (cases "merge_graph_record_metadata (rl_metadata r) metadata source ''relation''")
        (simp_all add: sqlite_upsert_graph_relation_def start Some o2(2) shadow_ok graph_ok_relations set_metadata_ok t)
  next
    case None
    show ?thesis
      by (cases "normalize_graph_record_metadata metadata source ''relation''")
        (simp_all add: sqlite_upsert_graph_relation_def start None o2 shadow_ok graph_ok_relations relation_append_ok [OF t None])
  qed
qed

lemma inferred_ok:
  assumes ok: "graph_ok st"
  shows "graph_ok (snd (sqlite_upsert_graph_inferred_relation subject predicate object_name source metadata now st))"
proof -
  obtain s st1 where s: "get_or_create_entity subject now st = (Inr s :: pyexc + nat, st1)" "graph_ok st1" "s \<in> entity_ids st1"
    using get_or_create_ok [OF ok] by (metis surj_pair)
  obtain ob st2 where o2: "get_or_create_entity object_name now st1 = (Inr ob :: pyexc + nat, st2)" "graph_ok st2" "ob \<in> entity_ids st2"
      "s \<in> entity_ids st2"
    using get_or_create_ok [OF s(2)] s(3) by (metis surj_pair subsetD)
  note start = gbind_Inr [where m = "get_or_create_entity subject now", OF s(1)] gbind_Inr [where m = "get_or_create_entity object_name now", OF o2(1)]
  have t: "relation_table_ok (entity_ids st2) (st_inferred st2)" using o2(2) by (simp add: graph_ok_def)
  note d = sqlite_upsert_graph_inferred_relation_def start
  show ?thesis
  proof (cases "find (same_relation s predicate ob) (st_relations st2)")
    case (Some r)
    then show ?thesis by (simp add: d o2(2) shadow_ok)
  next
    case none: None
    show ?thesis
    proof (cases "normalize_graph_record_metadata metadata source ''inferred_relation''")
      case (Inl e)
      then show ?thesis by (simp add: d none o2(2))
    next
      case m: (Inr m)
      show ?thesis
      proof (cases "find (same_relation s predicate ob) (st_inferred st2)")
        case (Some r)
        show ?thesis
          by (cases "merge_graph_record_metadata (rl_metadata r) m source ''inferred_relation''")
            (simp_all add: d none m Some o2(2) graph_ok_inferred relation_map_ok [OF t])
      next
        case None
        then show ?thesis by (simp add: d none m o2 graph_ok_inferred relation_append_ok [OF t None])
      qed
    qed
  qed
qed

section \<open>The upsert and the resolution keep the invariant\<close>

lemma state_upsert_ok:
  assumes ok: "graph_ok st"
  shows "graph_ok (snd (sqlite_upsert_graph_state subject attribute value_text source supersede metadata now st))"
proof -
  obtain entity st1 where e: "get_or_create_entity subject now st = (Inr entity :: pyexc + nat, st1)" "graph_ok st1" "entity \<in> entity_ids st1"
    using get_or_create_ok [OF ok] by (metis surj_pair)
  show ?thesis
  proof (rule state_upsert_cases [OF e(1) refl, of attribute value_text source supersede metadata], goal_cases)
    case (1 x)
    then show ?case using e by simp
  next
    case (2 m valid_from valid_to sm)
    show ?case unfolding 2(4) snd_conv by (rule insert_state_ok [OF e(2,3)])
  next
    case (3 m0 m valid_from valid_to prior sm prior_m new_m)
    have "prior \<in> set (st_states st1)" using current_state_in [OF 3(3)] by (simp add: candidates_in)
    then show ?case unfolding 3(8) snd_conv by (rule superseded_ok [OF e(2,3)])
  next
    case (4 m valid_from valid_to r merged)
    then obtain v where v: "sqlite_upsert_graph_state subject attribute value_text source supersede metadata now st =
       (Inr [(''status'', PStr ''unchanged''), (''entity_id'', PInt (int entity)), (''state_id'', PInt (int (gs_id r)))],
        update_state (gs_id r) (\<lambda>q. q\<lparr>gs_metadata := stored merged, gs_valid_to := v\<rparr>) st1)" by blast
    show ?case unfolding v snd_conv by (rule update_state_ok [OF e(2)]) simp
  next
    case (5 m valid_from valid_to r)
    have "r \<in> set (st_states st1)" "gs_entity r = entity" "gs_attribute r = attribute"
      using current_state_in [OF 5(2)] by (simp_all add: candidates_in)
    then show ?case unfolding 5(6) by (rule conflict_run_ok [OF e(2)])
  qed
qed

lemma state_by_id_Some: "state_by_id st i = Some r \<Longrightarrow> r \<in> set (st_states st) \<and> gs_id r = i"
  by (auto simp: state_by_id_def find_Some_iff)

lemma fetch_Some:
  "fetch_graph_conflict st i = Some (c, e, r) \<Longrightarrow>
     c \<in> set (st_conflicts st) \<and> gc_id c = i \<and> r \<in> set (st_states st) \<and> gs_id r = gc_current c \<and> e \<in> set (st_entities st) \<and> ge_id e = gc_entity c"
  using state_by_id_Some entity_by_id_Some
  by (fastforce simp: fetch_graph_conflict_def find_Some_iff split: option.splits)

lemma resolution_status: "v \<in> set (map snd CONFLICT_RESOLUTION_STATUSES) \<Longrightarrow> py_strip v = v \<and> v \<noteq> ''open''"
  by (auto simp: CONFLICT_RESOLUTION_STATUSES_def py_strip_def is_space_def)

lemma close_conflict_ok:
  assumes ok: "graph_ok st" and c: "c \<in> set (st_conflicts st)" "py_strip (gc_status c) = ''open''"
    and v: "v \<in> set (map snd CONFLICT_RESOLUTION_STATUSES)"
  shows "graph_ok (close_conflict (c, e, r) decision v approved_by reason evidence after now st)" (is "graph_ok ?st")
proof -
  define g where "g d = (if gc_id d = gc_id c then d\<lparr>gc_status := v, gc_updated := now\<rparr> else d)" for d :: graph_conflict
  obtain new where st: "st_conflicts ?st = map g (st_conflicts st)" "entity_ids ?st = entity_ids st" "st_states ?st = st_states st"
    "st_supersessions ?st = st_supersessions st" "st_resolutions ?st = st_resolutions st @ [new]"
    and new: "gr_conflict new = gc_id c" "gr_new new = v"
    unfolding close_conflict_def update_conflict_def g_def Let_def entity_ids_def by simp
  have g: "gc_id (g d) = gc_id d" "gc_entity (g d) = gc_entity d" "gc_attribute (g d) = gc_attribute d" "gc_current (g d) = gc_current d"
    "gc_value (g d) = gc_value d" "gc_status (g d) = (if gc_id d = gc_id c then v else gc_status d)" for d
    by (simp_all add: g_def)
  have open_v: "v \<noteq> ''open''" using resolution_status [OF v] by simp
  have dist: "distinct (map gc_id (st_conflicts st))" using ok by (simp add: graph_ok_def conflicts_ok_def)
  have "gc_id \<circ> g = gc_id" using g(1) by (simp add: fun_eq_iff)
  moreover have "conflict_refers ?st (g d) = conflict_refers st d" "supersession_refers ?st x = supersession_refers st x" for d x
    unfolding conflict_refers_def supersession_refers_def st g by (rule refl)+
  moreover have "same_candidate (g d) (g d') \<Longrightarrow> same_candidate d d'" for d d'
    using open_v unfolding same_candidate_def g by (simp split: if_splits)
  ultimately have conf: "conflicts_ok ?st"
    using ok unfolding graph_ok_def conflicts_ok_def st by (simp add: g(1))
  have held: "\<forall>q \<in> set (st_resolutions st). \<exists>d \<in> set (st_conflicts st). gc_id d = gr_conflict q \<and> gc_status d = gr_new q \<and>
        gr_new q \<in> set (map snd CONFLICT_RESOLUTION_STATUSES)"
      using ok unfolding graph_ok_def resolutions_ok_def by blast
  have notin: "gc_id c \<notin> set (map gr_conflict (st_resolutions st))"
  proof
    assume "gc_id c \<in> set (map gr_conflict (st_resolutions st))"
    then obtain q where q: "q \<in> set (st_resolutions st)" "gr_conflict q = gc_id c" by auto
    from bspec [OF held q(1)] obtain d where d: "d \<in> set (st_conflicts st)" "gc_id d = gc_id c"
      "gc_status d \<in> set (map snd CONFLICT_RESOLUTION_STATUSES)"
      using q(2) by metis
    then have "d = c" using dist c(1) by (auto simp: distinct_map dest: inj_onD)
    then show False using d(3) c(2) resolution_status by metis
  qed
  have "\<exists>d \<in> set (map g (st_conflicts st)). gc_id d = gr_conflict q \<and> gc_status d = gr_new q \<and> gr_new q \<in> set (map snd CONFLICT_RESOLUTION_STATUSES)"
    if q: "q \<in> set (st_resolutions st @ [new])" for q
  proof (cases "q = new")
    case True
    then show ?thesis using c(1) g [of c] new v by (intro bexI [of _ "g c"]) auto
  next
    case False
    then have q': "q \<in> set (st_resolutions st)" using q by simp
    from bspec [OF held q'] obtain d where d: "d \<in> set (st_conflicts st)" "gc_id d = gr_conflict q" "gc_status d = gr_new q"
        "gr_new q \<in> set (map snd CONFLICT_RESOLUTION_STATUSES)"
      by metis
    have "gc_id d \<noteq> gc_id c" using notin q' d(2) by (metis imageI set_map)
    then show ?thesis using d g [of d] by (intro bexI [of _ "g d"]) auto
  qed
  then have "resolutions_ok ?st" using ok notin unfolding graph_ok_def resolutions_ok_def st by (simp add: new)
  moreover have "entities_ok ?st" "states_ok ?st"
    using ok unfolding graph_ok_def entities_ok_def states_ok_def st by (simp_all add: close_conflict_def update_conflict_def Let_def)
  ultimately show ?thesis using ok conf unfolding graph_ok_def st by (simp add: close_conflict_def update_conflict_def Let_def)
qed

section \<open>The resolution as cases\<close>

definition resolution_metadata :: "graph_conflict \<Rightarrow> string \<Rightarrow> string \<Rightarrow> string \<Rightarrow> string \<Rightarrow> pydict" where
  "resolution_metadata c decision approved_by reason now =
     [(''conflict_resolution'', PDict
        [(''schema'', PStr ''brainstack.graph_conflict_resolution.v1''), (''conflict_id'', PInt (int (gc_id c))),
         (''decision'', PStr decision), (''approved_by'', PStr approved_by), (''reason'', PStr reason),
         (''resolved_at'', PStr now)])]"

definition finish_resolution :: "nat \<Rightarrow> graph_store \<Rightarrow> graph_store" where
  "finish_resolution entity st =
     effect (RefreshShelf ''graph'') (if 0 < entity then publish_entity entity st else st)"

lemma resolve_cases:
  assumes run: "run = resolve_graph_conflict i d a r evidence new_value_text now st"
  obtains (rejected) x where "run = (Inl x, st)"
  | (closed) out where "run = (Inr out, st)" "dget out ''status'' = PStr ''already_closed''"
  | (kept) c e current v out where
      "fetch_graph_conflict st i = Some (c, e, current)" "py_strip (gc_status c) = ''open''"
      "map_of CONFLICT_RESOLUTION_STATUSES (strip_text d) = Some v" "strip_text d \<notin> {''accept_candidate'', ''supersede_with_new_value''}"
      "run = (Inr out, finish_resolution (gc_entity c) (close_conflict (c, e, current) (strip_text d) v (norm_text a) (norm_text r) evidence
          (resolution_after c (strip_text d) v 0 None) now st))"
      "dget out ''status'' = PStr ''resolved''" "dget out ''state_id'' = PInt 0"
  | (replaced) c e current v out vl sc sm prior_m new_m where
      "fetch_graph_conflict st i = Some (c, e, current)" "py_strip (gc_status c) = ''open''"
      "map_of CONFLICT_RESOLUTION_STATUSES (strip_text d) = Some v"
      "replacement_of c (strip_text d) (norm_text a) new_value_text = Inr (Some (vl, sc))"
      "merge_graph_record_metadata [] (resolution_metadata c (strip_text d) (norm_text a) (norm_text r) now) sc ''state'' = Inr sm"
      "merge_graph_record_metadata sm (new_link current now) sc ''state'' = Inr new_m"
      "run = (Inr out, finish_resolution (gc_entity c) (close_conflict (c, e, current) (strip_text d) v (norm_text a) (norm_text r) evidence
          (resolution_after c (strip_text d) v (next_id (map gs_id (st_states st))) (Some (vl, sc))) now
          (superseded_store current (gc_entity c) (gc_attribute c) vl sc now [] prior_m new_m st)))"
      "dget out ''status'' = PStr ''resolved''" "dget out ''state_id'' = PInt (int (next_id (map gs_id (st_states st))))"
proof (cases "map_of CONFLICT_RESOLUTION_STATUSES (strip_text d)")
  case None
  then show ?thesis by (intro rejected [of ValueError]) (simp add: run resolve_graph_conflict_def)
next
  case v: (Some v)
  show ?thesis
  proof (cases "norm_text a = [] \<or> norm_text r = []")
    case True
    then show ?thesis by (intro rejected [of ValueError]) (auto simp: run resolve_graph_conflict_def v)
  next
    case ar: False
    show ?thesis
    proof (cases "fetch_graph_conflict st i")
      case None
      then show ?thesis using ar by (intro rejected [of ValueError]) (simp add: run resolve_graph_conflict_def v)
    next
      case (Some cer)
      obtain c e current where cer: "cer = (c, e, current)" by (metis prod_cases3)
      note f = Some [unfolded cer]
      have current: "current \<in> set (st_states st)" using fetch_Some [OF f] by simp
      note d = run resolve_graph_conflict_def v f
      show ?thesis
      proof (cases "py_strip (gc_status c) = ''open''")
        case False
        have "run = (Inr [(''status'', PStr ''already_closed''), (''conflict_id'', PInt (int i)),
            (''previous_status'', PStr (py_strip (gc_status c)))], st)"
          using ar False by (simp add: d Let_def)
        then show ?thesis by (rule closed) simp
      next
        case op: True
        show ?thesis
        proof (cases "py_strip (gc_source c) = []")
          case True
          then show ?thesis using ar op by (intro rejected [of ValueError]) (simp add: d Let_def)
        next
          case src: False
          note start = d Let_def option.case case_prod_conv
          have go: "run = gbind (glift (replacement_of c (strip_text d) (norm_text a) new_value_text)) (\<lambda>replacement.
                gbind (case replacement of
                    Some x \<Rightarrow> apply_replacement c current (strip_text d) (norm_text a) (norm_text r) now x
                  | None \<Rightarrow> greturn 0) (\<lambda>state_id.
                gbind (gread (\<lambda>st. next_id (map gr_id (st_resolutions st)))) (\<lambda>resolution_id.
                gbind (gupdate (close_conflict (c, e, current) (strip_text d) v (norm_text a) (norm_text r) evidence
                    (resolution_after c (strip_text d) v state_id replacement) now)) (\<lambda>_.
                gbind (gupdate (\<lambda>st. if 0 < gc_entity c then publish_entity (gc_entity c) st else st)) (\<lambda>_.
                gbind (gupdate (effect (RefreshShelf ''graph''))) (\<lambda>_.
                  greturn [(''status'', PStr ''resolved''), (''conflict_id'', PInt (int i)),
                    (''resolution_id'', PInt (int resolution_id)), (''decision'', PStr (strip_text d)), (''new_status'', PStr v),
                    (''state_id'', PInt (int state_id)), (''prior_state_id'', PInt (int (gc_current c)))])))))) st"
            unfolding run resolve_graph_conflict_def Let_def v option.case f case_prod_conv using ar op src
            by (simp only: if_False if_True simp_thms)
          show ?thesis
          proof (cases "replacement_of c (strip_text d) (norm_text a) new_value_text")
            case (Inl x)
            then show ?thesis by (intro rejected [of x]) (simp add: go)
          next
            case rep: (Inr rep)
            show ?thesis
            proof (cases rep)
              case None
              then have plain: "strip_text d \<notin> {''accept_candidate'', ''supersede_with_new_value''}"
                using rep by (auto simp: replacement_of_def split: if_splits)
              define out where "out = [(''status'', PStr ''resolved''), (''conflict_id'', PInt (int i)),
                    (''resolution_id'', PInt (int (next_id (map gr_id (st_resolutions st))))), (''decision'', PStr (strip_text d)),
                    (''new_status'', PStr v), (''state_id'', PInt (int 0)), (''prior_state_id'', PInt (int (gc_current c)))]"
              have run: "run = (Inr out, finish_resolution (gc_entity c) (close_conflict (c, e, current) (strip_text d) v (norm_text a)
                  (norm_text r) evidence (resolution_after c (strip_text d) v 0 None) now st))"
                unfolding go rep None by (simp add: finish_resolution_def out_def)
              have told: "dget out ''status'' = PStr ''resolved''" "dget out ''state_id'' = PInt 0" by (simp_all add: out_def)
              show ?thesis by (rule kept [OF f op v plain run told])
            next
              case rs: (Some x)
              obtain vl sc where x: "x = (vl, sc)" by (cases x)
              from current show ?thesis
              proof (cases rule: apply_replacement_run [where c = c and decision = "strip_text d" and approved_by = "norm_text a"
                    and reason = "norm_text r" and now = now and vl = vl and source = sc])
                case ra: (raised y)
                then show ?thesis by (intro rejected [of y]) (simp add: go rep rs x gbind_Inl [where m = "apply_replacement c current (strip_text d) (norm_text a) (norm_text r) now (vl, sc)", OF ra(2)])
              next
                case (written sm prior_m new_m)
                let ?n = "next_id (map gs_id (st_states st))"
                define after where "after = superseded_store current (gc_entity c) (gc_attribute c) vl sc now [] prior_m new_m st"
                have res: "st_resolutions after = st_resolutions st"
                  by (simp add: after_def superseded_store_def insert_supersession_def)
                define out where "out = [(''status'', PStr ''resolved''), (''conflict_id'', PInt (int i)),
                    (''resolution_id'', PInt (int (next_id (map gr_id (st_resolutions st))))), (''decision'', PStr (strip_text d)),
                    (''new_status'', PStr v), (''state_id'', PInt (int ?n)), (''prior_state_id'', PInt (int (gc_current c)))]"
                have run: "run = (Inr out, finish_resolution (gc_entity c) (close_conflict (c, e, current) (strip_text d) v (norm_text a)
                    (norm_text r) evidence (resolution_after c (strip_text d) v ?n (Some (vl, sc))) now after))"
                  unfolding go rep rs x by (simp add: gbind_Inr [where m = "apply_replacement c current (strip_text d) (norm_text a) (norm_text r) now (vl, sc)", OF written(3) [folded after_def]] finish_resolution_def out_def res)
                have told: "dget out ''status'' = PStr ''resolved''" "dget out ''state_id'' = PInt (int ?n)" by (simp_all add: out_def)
                show ?thesis
                  by (rule replaced [OF f op v rep [unfolded rs x] written(1) [folded resolution_metadata_def] written(2)
                      run [unfolded after_def] told])
              qed
            qed
          qed
        qed
      qed
    qed
  qed
qed

lemma map_of_status: "map_of CONFLICT_RESOLUTION_STATUSES d = Some v \<Longrightarrow> v \<in> set (map snd CONFLICT_RESOLUTION_STATUSES)"
  by (drule map_of_SomeD) force

lemma superseded_conflicts [simp]: "st_conflicts (superseded_store p e a v s f t pm nm st) = st_conflicts st"
  by (simp add: superseded_store_def insert_supersession_def)

lemma graph_ok_finish [simp]: "graph_ok (finish_resolution i st) = graph_ok st"
  by (simp add: finish_resolution_def)

lemma resolve_ok: "graph_ok st \<Longrightarrow> graph_ok (snd (resolve_graph_conflict i d a r evidence new_value_text now st))"
proof (rule resolve_cases [OF refl, of i d a r evidence new_value_text now st], goal_cases)
  case (3 c e current v out)
  show ?case unfolding 3(6) snd_conv graph_ok_finish
    using 3 fetch_Some [OF 3(2)] by (intro close_conflict_ok map_of_status) auto
next
  case (4 c e current v out vl sc sm prior_m new_m)
  note f = fetch_Some [OF 4(2)]
  have "gc_entity c \<in> entity_ids st" using f unfolding entity_ids_def by (metis imageI)
  then have "graph_ok (superseded_store current (gc_entity c) (gc_attribute c) vl sc now [] prior_m new_m st)"
    using 4(1) f by (intro superseded_ok) auto
  then show ?case unfolding 4(8) snd_conv graph_ok_finish
    using 4 f by (intro close_conflict_ok map_of_status) auto
qed simp_all

section \<open>The other operations keep the invariant\<close>

lemma alias_ok:
  assumes ok: "graph_ok st" and t: "t \<in> entity_ids st"
  shows "graph_ok (upsert_alias alias_name n t m now st) \<and> entity_ids (upsert_alias alias_name n t m now st) = entity_ids st"
    (is "graph_ok ?st \<and> _")
proof -
  have rest: "st_entities ?st = st_entities st" "st_entity_seq ?st = st_entity_seq st" "st_states ?st = st_states st"
    "st_conflicts ?st = st_conflicts st" "st_supersessions ?st = st_supersessions st" "st_resolutions ?st = st_resolutions st"
    "st_relations ?st = st_relations st" "st_inferred ?st = st_inferred st"
    by (simp_all add: upsert_alias_def)
  then have ids: "entity_ids ?st = entity_ids st" by (simp add: entity_ids_def)
  have "\<forall>a \<in> set (st_aliases st). ga_target a \<in> entity_ids st" using ok by (simp add: graph_ok_def entities_ok_def)
  then have "\<forall>a \<in> set (st_aliases ?st). ga_target a \<in> entity_ids st" using t by (auto simp: upsert_alias_def)
  then show ?thesis
    using ok unfolding graph_ok_def entities_ok_def states_ok_def conflicts_ok_def resolutions_ok_def conflict_refers_def
      supersession_refers_def rest ids by blast
qed

lemma drop_duplicates_ok:
  assumes ids: "distinct (map rl_id rows)" "\<And>r. r \<in> set rows \<Longrightarrow> rl_subject r \<in> ids \<and> rl_object r \<in> ids"
    and d: "\<And>r. rl_id (d r) = rl_id r \<and> rl_subject (d r) = rl_subject r \<and> rl_object (d r) = rl_object r \<and> \<not> rl_active (d r)"
  shows "relation_table_ok ids (drop_duplicates d rows)"
proof -
  define g where "g r = (if rl_active r \<and> list_ex (\<lambda>q. same_relation (rl_subject r) (rl_predicate r) (rl_object r) q \<and> rl_id r < rl_id q) rows
             then d r else r)" for r
  have g: "rl_id (g r) = rl_id r" "rl_subject (g r) = rl_subject r" "rl_object (g r) = rl_object r" for r
    using d [of r] by (simp_all add: g_def)
  have kept: "g r = r" "rl_active r" "q \<in> set rows \<Longrightarrow> same_relation (rl_subject r) (rl_predicate r) (rl_object r) q \<Longrightarrow> \<not> rl_id r < rl_id q"
    if "rl_active (g r)" for r q
    using that d [of r] by (auto simp: g_def list_ex_iff split: if_splits)
  have "rl_id \<circ> g = rl_id" using g(1) by (simp add: fun_eq_iff)
  moreover have "rl_id (g q) = rl_id (g r)"
    if m: "r \<in> set rows" "q \<in> set rows" and a: "rl_active (g r)" and s: "same_relation (rl_subject (g r)) (rl_predicate (g r)) (rl_object (g r)) (g q)" for r q
  proof -
    have aq: "rl_active (g q)" using s by (simp add: same_relation_def)
    note r = kept(1,2) [OF a] and q = kept(1,2) [OF aq]
    have "same_relation (rl_subject r) (rl_predicate r) (rl_object r) q" using s unfolding r(1) q(1) .
    moreover from this have "same_relation (rl_subject q) (rl_predicate q) (rl_object q) r" using r(2) by (simp add: same_relation_def)
    ultimately have "rl_id q = rl_id r" using kept(3) [OF a m(2)] kept(3) [OF aq m(1)] by simp
    then show ?thesis by (simp add: g(1))
  qed
  ultimately have "relation_table_ok ids (map g rows)" using ids g unfolding relation_table_ok_def by simp
  then show ?thesis by (simp add: drop_duplicates_def g_def [abs_def])
qed

lemma move_relation_fields:
  "rl_id (move_relation a b n r) = rl_id r" "rl_subject (move_relation a b n r) = (if rl_subject r = a then b else rl_subject r)"
  "rl_object (move_relation a b n r) = (if rl_object r = a then b else rl_object r)"
  by (simp_all add: move_relation_def Let_def)

lemma move_ok:
  assumes ok: "graph_ok st" and t: "b \<in> entity_ids st"
  shows "graph_ok (move_entity_rows a b n now st)" (is "graph_ok ?st")
proof -
  define g where "g r = (if gs_entity r = a then r\<lparr>gs_entity := b\<rparr> else r)" for r :: graph_state
  define h where "h c = (if gc_entity c = a then c\<lparr>gc_entity := b\<rparr> else c)" for c :: graph_conflict
  define into where "into i = (if i = a then b else i)" for i
  have st: "st_states ?st = map g (st_states st)" "st_conflicts ?st = map h (st_conflicts st)" "entity_ids ?st = entity_ids st"
    "st_supersessions ?st = st_supersessions st" "st_resolutions ?st = st_resolutions st" "st_entities ?st = st_entities st"
    "st_aliases ?st = st_aliases st" "st_entity_seq ?st = st_entity_seq st"
    by (simp_all add: move_entity_rows_def g_def h_def entity_ids_def)
  have g: "gs_id (g r) = gs_id r" "gs_attribute (g r) = gs_attribute r" "gs_current (g r) = gs_current r" "gs_entity (g r) = into (gs_entity r)" for r
    by (simp_all add: g_def into_def)
  have h: "gc_id (h c) = gc_id c" "gc_attribute (h c) = gc_attribute c" "gc_current (h c) = gc_current c" "gc_value (h c) = gc_value c"
    "gc_status (h c) = gc_status c" "gc_entity (h c) = into (gc_entity c)" for c
    by (simp_all add: h_def into_def)
  have comp: "gs_id \<circ> g = gs_id" "gc_id \<circ> h = gc_id" using g(1) h(1) by (simp_all add: fun_eq_iff)
  have into: "i \<in> entity_ids st \<Longrightarrow> into i \<in> entity_ids st" for i using t by (simp add: into_def)
  have e: "entities_ok ?st" using ok unfolding graph_ok_def entities_ok_def st by blast
  have s: "states_ok ?st" using ok into unfolding graph_ok_def states_ok_def st by (simp add: comp g)
  have cr: "conflict_refers ?st (h c)" if cf: "conflict_refers st c" for c
  proof -
    obtain r where "r \<in> set (st_states st)" "gs_id r = gc_current c" "gs_entity r = gc_entity c" "gs_attribute r = gc_attribute c"
      using cf unfolding conflict_refers_def by metis
    then show ?thesis unfolding conflict_refers_def st by (intro bexI [of _ "g r"]) (simp_all add: g h)
  qed
  have sr: "supersession_refers ?st x" if "supersession_refers st x" for x
    using that unfolding supersession_refers_def st by (auto simp: g image_image)
  have "same_candidate (h c) (h d) = same_candidate c d" for c d by (simp add: same_candidate_def h)
  then have c: "conflicts_ok ?st" using ok cr sr unfolding graph_ok_def conflicts_ok_def st by (simp add: comp h)
  have r: "resolutions_ok ?st" using ok unfolding graph_ok_def resolutions_ok_def st by (simp add: h)
  have rel: "relation_table_ok (entity_ids st) (drop_duplicates d (map (move_relation a b n) rows))"
    if "relation_table_ok (entity_ids st) rows" "\<And>r. rl_id (d r) = rl_id r \<and> rl_subject (d r) = rl_subject r \<and> rl_object (d r) = rl_object r \<and> \<not> rl_active (d r)"
    for rows d
    using that(1) t
    by (intro drop_duplicates_ok that(2)) (auto simp: relation_table_ok_def move_relation_fields comp_def)
  have "relation_table_ok (entity_ids st) (st_relations ?st)" "relation_table_ok (entity_ids st) (st_inferred ?st)"
    unfolding move_entity_rows_def using ok by (simp_all add: graph_ok_def rel)
  then show ?thesis using e s c r unfolding graph_ok_def st by blast
qed

lemma delete_ok: "graph_ok st \<Longrightarrow> graph_ok (snd (delete_entity i st))"
proof -
  assume ok: "graph_ok st"
  let ?st = "st\<lparr>st_entities := filter (\<lambda>e. ge_id e \<noteq> i) (st_entities st)\<rparr>"
  have ids: "entity_ids ?st = entity_ids st - {i}" by (auto simp: entity_ids_def)
  show "graph_ok (snd (delete_entity i st))"
  proof (cases "entity_unused i st \<and> list_all (\<lambda>a. ga_target a \<noteq> i) (st_aliases st)")
    case True
    have "distinct (map ge_id (filter p (st_entities st)))" "distinct (map ge_normalized (filter p (st_entities st)))" for p
      using ok by (auto simp: graph_ok_def entities_ok_def intro: distinct_map_filter)
    then have "entities_ok ?st" using ok True unfolding graph_ok_def entities_ok_def ids by (simp add: list_all_iff)
    moreover have "states_ok ?st" using ok True unfolding graph_ok_def states_ok_def ids by (simp add: entity_unused_def list_all_iff)
    moreover have "conflicts_ok ?st" "resolutions_ok ?st"
      using ok unfolding graph_ok_def conflicts_ok_def resolutions_ok_def conflict_refers_def supersession_refers_def by simp_all
    moreover have "relation_table_ok (entity_ids st - {i}) (st_relations st)" "relation_table_ok (entity_ids st - {i}) (st_inferred st)"
      using ok True unfolding graph_ok_def relation_table_ok_def by (simp_all add: entity_unused_def list_all_iff)
    ultimately have "graph_ok ?st" unfolding graph_ok_def ids by simp
    then show ?thesis using True by (simp add: delete_entity_def)
  next
    case False
    then show ?thesis unfolding delete_entity_def by (subst if_not_P) (simp_all add: ok)
  qed
qed

lemma snd_gbind_ok:
  assumes "graph_ok (snd (m st))" "\<And>x st'. m st = (Inr x, st') \<Longrightarrow> graph_ok st' \<Longrightarrow> graph_ok (snd (f x st'))"
  shows "graph_ok (snd (gbind m f st))"
  using assms by (auto simp: gbind_def split: prod.splits sum.splits)

lemma merge_alias_ok:
  assumes ok: "graph_ok st"
  shows "graph_ok (snd (merge_entity_alias alias_name target_name now st))"
proof (cases "entity_named st (normalize_entity_name alias_name)")
  case (Some e)
  obtain t st1 where t: "get_or_create_entity target_name now st = (Inr t :: pyexc + nat, st1)" "graph_ok st1" "t \<in> entity_ids st1"
    using get_or_create_ok [OF ok] by (metis surj_pair)
  note start = gbind_Inr [where m = "get_or_create_entity target_name now", OF t(1)]
  show ?thesis
  proof (cases "merge_record_metadata [] (alias_merge_metadata alias_name target_name) ''entity_alias_merge''")
    case (Inl x)
    then show ?thesis by (simp add: merge_entity_alias_def Some start Let_def t(2) ok)
  next
    case (Inr m)
    let ?named = "upsert_alias (py_strip alias_name) (normalize_entity_name alias_name) t m now st1"
    let ?moved = "move_entity_rows (ge_id e) t (py_strip target_name) now ?named"
    have moved: "graph_ok ?moved" using alias_ok [OF t(2,3)] t(3) by (intro move_ok) simp_all
    let ?delete = "if entity_unused (ge_id e) ?moved then delete_entity (ge_id e) else greturn ()"
    have "graph_ok (snd (?delete ?moved))"
      using moved by (simp add: delete_ok)
    then have "graph_ok (snd (gbind ?delete (\<lambda>_. gbind (gupdate (publish_entity t)) (\<lambda>_.
            greturn [(''status'', PStr ''merged''), (''alias_id'', PInt (int (ge_id e))), (''target_id'', PInt (int t))])) ?moved))"
      by (rule snd_gbind_ok) simp
    then show ?thesis by (simp add: merge_entity_alias_def Some start Let_def Inr ok)
  qed
qed (simp add: merge_entity_alias_def ok Let_def)

lemma snd_raising [simp]: "snd (raising m st) = snd (m st)"
  by (simp add: raising_def split: prod.splits sum.splits)

lemma snd_get_or_create_ok: "graph_ok st \<Longrightarrow> graph_ok (snd (get_or_create_entity name now st :: ('e + nat) \<times> graph_store))"
  using get_or_create_ok [of st name now] by (metis surj_pair snd_conv)

lemma publish_ends_ok: "graph_ok st \<Longrightarrow> graph_ok (snd (publish_ends subject object_name now st))"
  unfolding publish_ends_def
  by (auto intro!: snd_gbind_ok snd_get_or_create_ok simp: gread_def)

lemma guarded_relation_ok:
  assumes ok: "graph_ok st" and w: "\<And>st metadata. graph_ok st \<Longrightarrow> graph_ok (snd (write subject predicate object_name source metadata now st))"
  shows "graph_ok (snd (guarded_relation_write write subject predicate object_name source metadata now st))"
  unfolding guarded_relation_write_def
  by (intro snd_gbind_ok publish_ends_ok) (simp_all add: ok w)

lemma add_relation_ok: "graph_ok st \<Longrightarrow> graph_ok (snd (add_graph_relation subject predicate object_name source metadata now st))"
  unfolding add_graph_relation_def
  by (intro snd_gbind_ok publish_ends_ok) (simp_all add: relation_ok)

lemma upsert_graph_state_ok:
  assumes ok: "graph_ok st"
  shows "graph_ok (snd (upsert_graph_state to_float subject attribute value_text source supersede metadata now st))"
proof -
  let ?wr = "\<lambda>m. gbind (raising (sqlite_upsert_graph_state subject attribute value_text source supersede m now)) (\<lambda>out.
           gbind (gupdate (\<lambda>st. if 0 < outcome_id out ''entity_id'' then publish_entity (outcome_id out ''entity_id'') st else st)) (\<lambda>_.
           gbind (gupdate (effect (RefreshShelf ''graph''))) (\<lambda>_. greturn out)))"
  have w: "graph_ok st' \<Longrightarrow> graph_ok (snd (?wr m st'))" for m st'
    by (rule snd_gbind_ok) (simp_all add: state_upsert_ok)
  have "graph_ok st' \<Longrightarrow> graph_ok (snd ((case b of PDict blocked \<Rightarrow> greturn (admission_rejected blocked) | _ \<Rightarrow> ?wr m) st'))" for b m st'
    by (cases b) (simp_all only: pyval.case w, simp)
  note wr = this
  show ?thesis
    unfolding upsert_graph_state_def
    by (rule snd_gbind_ok, simp only: snd_raising run_simps snd_conv ok, rule snd_gbind_ok,
        simp only: snd_raising run_simps snd_conv, rule wr, assumption)
qed

lemma typed_loop_ok:
  assumes "\<And>a v st. graph_ok st \<Longrightarrow> graph_ok (snd (write a v st))"
  shows "graph_ok st \<Longrightarrow> graph_ok (snd (typed_entity_loop write name kind rows st))"
  by (induction rows arbitrary: st) (auto intro!: snd_gbind_ok assms)

lemma typed_entity_ok:
  "graph_ok st \<Longrightarrow> graph_ok (snd (upsert_typed_entity to_float entity_name entity_type subject attributes source metadata confidence supersede now st))"
  unfolding upsert_typed_entity_def Let_def
  by (auto intro!: snd_gbind_ok typed_loop_ok upsert_graph_state_ok)

section \<open>Every sequence of operations\<close>

datatype graph_op =
    WriteState string string string string bool pydict
  | WriteTyped pyval pyval pyval pydict string pydict pyval bool
  | WriteRelation string string string string pydict
  | WriteInferred string string string string pydict
  | AddRelation string string string string pydict
  | ResolveConflict nat pyval pyval pyval "string list" string
  | MergeAlias string string

fun graph_step :: "(pyval \<Rightarrow> pyval result) \<Rightarrow> graph_op \<times> string \<Rightarrow> graph_store \<Rightarrow> graph_store" where
  "graph_step to_float (WriteState s a v source ss m, now) st = snd (upsert_graph_state to_float s a v source ss m now st)"
| "graph_step to_float (WriteTyped n k s as source m c ss, now) st = snd (upsert_typed_entity to_float n k s as source m c ss now st)"
| "graph_step to_float (WriteRelation s p ob source m, now) st = snd (upsert_graph_relation s p ob source m now st)"
| "graph_step to_float (WriteInferred s p ob source m, now) st = snd (upsert_graph_inferred_relation s p ob source m now st)"
| "graph_step to_float (AddRelation s p ob source m, now) st = snd (add_graph_relation s p ob source m now st)"
| "graph_step to_float (ResolveConflict i d a r ev v, now) st = snd (resolve_graph_conflict i d a r ev v now st)"
| "graph_step to_float (MergeAlias a t, now) st = snd (merge_entity_alias a t now st)"

lemma graph_step_ok: "graph_ok st \<Longrightarrow> graph_ok (graph_step to_float op st)"
  by (cases "(to_float, op, st)" rule: graph_step.cases)
    (auto simp: upsert_graph_relation_def upsert_graph_inferred_relation_def
      intro!: upsert_graph_state_ok typed_entity_ok guarded_relation_ok relation_ok inferred_ok add_relation_ok resolve_ok merge_alias_ok)

text \<open>
  C7: the graph tables stay consistent through every sequence of writes, resolutions and alias merges, whether each
  operation returns or raises: entity names and all row identifiers are unique, every row refers to entities and states
  that exist (also after an entity is deleted), a superseded row is closed and older than the one that replaced it, a
  conflict is resolved at most once, an open candidate is recorded once, and of a relation one row at most is active.
\<close>

theorem graph_tables_consistent:
  "graph_ok (fold (graph_step to_float) ops (empty_graph_store\<lparr>st_backend := backend\<rparr>))"
proof -
  have "graph_ok st \<Longrightarrow> graph_ok (fold (graph_step to_float) ops st)" for st
    by (induction ops arbitrary: st) (simp_all add: graph_step_ok)
  moreover have "graph_ok (empty_graph_store\<lparr>st_backend := backend\<rparr>)"
    by (simp add: graph_ok_def entities_ok_def states_ok_def conflicts_ok_def resolutions_ok_def relation_table_ok_def empty_graph_store_def)
  ultimately show ?thesis by blast
qed

section \<open>Truths by principal\<close>

text \<open>A truth is the value of an attribute of an entity for one principal (the empty scope is everyone).\<close>

type_synonym truth_key = "nat \<times> string \<times> string"

definition truth_key :: "graph_state \<Rightarrow> truth_key" where
  "truth_key r = (gs_entity r, gs_attribute r, state_scope r)"

definition live_rows :: "graph_store \<Rightarrow> graph_state set" where
  "live_rows st = {r \<in> set (st_states st). gs_current r}"

definition truths :: "graph_store \<Rightarrow> (truth_key \<times> string) set" where
  "truths st = (\<lambda>r. (truth_key r, gs_value r)) ` live_rows st"

definition scoped_record :: "pydict \<Rightarrow> bool" where
  "scoped_record m \<longleftrightarrow> distinct (map fst m) \<and> plain_scope m"

definition one_truth_each :: "graph_store \<Rightarrow> bool" where
  "one_truth_each st \<longleftrightarrow>
     distinct (map gs_id (st_states st)) \<and> (\<forall>r \<in> live_rows st. scoped_record (gs_metadata r)) \<and> inj_on truth_key (live_rows st)"

text \<open>What a write finds: the truth of its own scope, or for a write without a scope, if there is no such truth, any other.\<close>

definition truth_met :: "(truth_key \<times> string) set \<Rightarrow> nat \<Rightarrow> string \<Rightarrow> string \<Rightarrow> string \<Rightarrow> string \<Rightarrow> bool" where
  "truth_met T e a s s' w \<longleftrightarrow> ((e, a, s'), w) \<in> T \<and> (s' = s \<or> s = [] \<and> (\<forall>u. ((e, a, []), u) \<notin> T))"

inductive truth_write ::
  "(truth_key \<times> string) set \<Rightarrow> nat \<Rightarrow> string \<Rightarrow> string \<Rightarrow> string \<Rightarrow> bool \<Rightarrow> string \<Rightarrow> (truth_key \<times> string) set \<Rightarrow> bool"
  for T e a s v replace where
  added: "(\<And>s' w. \<not> truth_met T e a s s' w) \<Longrightarrow>
    truth_write T e a s v replace ''inserted'' (insert ((e, a, s), py_strip v) T)"
| replaced: "truth_met T e a s s' w \<Longrightarrow> normalize_entity_name w \<noteq> normalize_entity_name v \<Longrightarrow>
    replace \<or> should_auto_supersede_exact_value w v \<Longrightarrow>
    truth_write T e a s v replace ''superseded'' (insert ((e, a, s), py_strip v) (T - {((e, a, s'), w)}))"
| confirmed: "truth_met T e a s s' w \<Longrightarrow> normalize_entity_name w = normalize_entity_name v \<Longrightarrow>
    truth_write T e a s v replace ''unchanged'' T"
| contested: "truth_met T e a s s' w \<Longrightarrow> normalize_entity_name w \<noteq> normalize_entity_name v \<Longrightarrow>
    \<not> replace \<Longrightarrow> \<not> should_auto_supersede_exact_value w v \<Longrightarrow> truth_write T e a s v replace ''conflict'' T"

lemma merge_graph_scope:
  assumes "merge_graph_record_metadata existing m source kind = Inr r" "scoped_record existing" "scoped_record m"
  shows "scoped_record r \<and> principal_scope_key_from_metadata r =
    (if principal_scope_key_from_metadata m = [] then principal_scope_key_from_metadata existing else principal_scope_key_from_metadata m)"
proof -
  obtain n where n: "merge_record_metadata existing m source = Inr n" "r = attach_graph_source_lineage n source kind"
    using assms(1) by (auto simp: merge_graph_record_metadata_def rbind_Inr)
  have "distinct (map fst n)" by (rule merge_record_fields [OF n(1)]) (use assms in \<open>simp add: scoped_record_def\<close>)
  then show ?thesis using merge_record_scope [OF n(1)] assms(2,3) unfolding n(2) scoped_record_def
    using attach_scope [of n source kind] attach_distinct by simp
qed

lemma new_link_plain: "scoped_record (new_link prior valid_from)"
  "principal_scope_key_from_metadata (new_link prior valid_from) = []"
proof -
  have h: "\<not> dhas (new_link prior valid_from) ''principal_scope_key''" "dget (new_link prior valid_from) ''principal_scope'' = PNone"
    "dget (new_link prior valid_from) ''document'' = PNone" "dget (new_link prior valid_from) ''section'' = PNone"
    by (simp_all add: new_link_def)
  have "distinct (map fst (new_link prior valid_from))" by (simp add: new_link_def)
  then show "scoped_record (new_link prior valid_from)" unfolding scoped_record_def plain_scope_def using h by simp
  show "principal_scope_key_from_metadata (new_link prior valid_from) = []"
    using plain_none h by simp
qed

lemma stored_record:
  "scoped_record m \<Longrightarrow> scoped_record (stored m) \<and> principal_scope_key_from_metadata (stored m) = principal_scope_key_from_metadata m"
proof -
  assume m: "scoped_record m"
  have e: "map (\<lambda>(k, v). (k, json_stored v)) m = map (map_prod id json_stored) m" by (simp add: map_prod_def)
  have "mset (map fst (stored m)) = mset (map fst m)"
    by (simp add: stored_def e mset_map [symmetric] comp_def del: mset_map) (simp add: mset_map image_mset.compositionality comp_def)
  then have "distinct (map fst (stored m))" using m mset_eq_imp_distinct_iff unfolding scoped_record_def by blast
  then show ?thesis using m stored_scope unfolding scoped_record_def by blast
qed

lemma upsert_record:
  assumes "graph_state_metadata_for_upsert metadata source attribute value_text now = Inr (m, valid_from, valid_to)" "scoped_record metadata"
  shows "scoped_record m" "principal_scope_key_from_metadata m = principal_scope_key_from_metadata metadata"
  using upsert_metadata [OF assms(1)] assms(2) by (simp_all add: scoped_record_def)

lemma truth_met_current:
  assumes cur: "current_graph_state st e a m = r"
  shows "case r of None \<Rightarrow> \<forall>s' w. \<not> truth_met (truths st) e a (principal_scope_key_from_metadata m) s' w
    | Some r \<Rightarrow> r \<in> live_rows st \<and> truth_met (truths st) e a (principal_scope_key_from_metadata m) (state_scope r) (gs_value r)"
proof -
  let ?s = "principal_scope_key_from_metadata m"
  have cand: "q \<in> set (current_candidates st e a) \<longleftrightarrow> q \<in> live_rows st \<and> gs_entity q = e \<and> gs_attribute q = a" for q
    by (auto simp: candidates_in live_rows_def)
  have t: "((e, a, s'), w) \<in> truths st \<longleftrightarrow> (\<exists>q \<in> set (current_candidates st e a). state_scope q = s' \<and> gs_value q = w)" for s' w
    unfolding truths_def truth_key_def image_iff Bex_def cand by auto
  show ?thesis
  proof (cases r)
    case None
    have "?s \<noteq> [] \<Longrightarrow> \<forall>q \<in> set (current_candidates st e a). state_scope q \<noteq> ?s" "?s = [] \<Longrightarrow> current_candidates st e a = []"
      using cur unfolding None current_graph_state_def Let_def by (auto simp: find_None_iff split: if_splits option.splits list.splits)
    then show ?thesis unfolding None truth_met_def t by (cases "?s = []") auto
  next
    case (Some q)
    have q: "q \<in> set (current_candidates st e a)" by (rule current_state_in [OF cur [unfolded Some]])
    have none: "((e, a, []), u) \<notin> truths st" if "\<forall>p \<in> set (current_candidates st e a). state_scope p \<noteq> []" for u
      using that unfolding t by blast
    have "((e, a, state_scope q), gs_value q) \<in> truths st" using q unfolding t by blast
    moreover have "state_scope q = ?s \<or> ?s = [] \<and> (\<forall>p \<in> set (current_candidates st e a). state_scope p \<noteq> [])"
      using cur unfolding Some current_graph_state_def Let_def
      by (auto simp: find_None_iff find_Some_iff split: if_splits option.splits list.splits)
    ultimately have "truth_met (truths st) e a ?s (state_scope q) (gs_value q)" unfolding truth_met_def using none by blast
    then show ?thesis using q by (simp add: Some cand)
  qed
qed

section \<open>The upsert on truths\<close>

lemma live_unique: "distinct (map gs_id (st_states st)) \<Longrightarrow> r \<in> set (st_states st) \<Longrightarrow> q \<in> set (st_states st) \<Longrightarrow> gs_id q = gs_id r \<Longrightarrow> q = r"
  by (auto simp: distinct_map dest: inj_onD)

lemma live_new:
  "live_rows (inserted_store e a v source vf vt m st) =
     insert (new_state (next_id (map gs_id (st_states st))) e a v source m vf vt) (live_rows st)"
  by (auto simp: live_rows_def inserted_store_def new_state_def)

lemma live_superseded:
  assumes "distinct (map gs_id (st_states st))" "prior \<in> set (st_states st)"
  shows "live_rows (superseded_store prior e a v source vf vt pm m st) =
     insert (new_state (next_id (map gs_id (st_states st))) e a v source m vf vt) (live_rows st - {prior})"
proof -
  have "q \<in> live_rows st - {prior} \<longleftrightarrow> q \<in> live_rows st \<and> gs_id q \<noteq> gs_id prior" for q
    using live_unique [OF assms] by (auto simp: live_rows_def)
  moreover define g where "g r = (if gs_id r = gs_id prior
      then r\<lparr>gs_current := False, gs_valid_to := Some vf, gs_metadata := stored pm\<rparr> else r)" for r :: graph_state
  have g: "gs_current (g r) \<longleftrightarrow> gs_current r \<and> gs_id r \<noteq> gs_id prior" "gs_id r \<noteq> gs_id prior \<Longrightarrow> g r = r" for r
    by (simp_all add: g_def)
  have "{r \<in> g ` set (st_states st). gs_current r} = {r \<in> set (st_states st). gs_current r \<and> gs_id r \<noteq> gs_id prior}"
    using g by force
  moreover have rows: "st_states (superseded_store prior e a v source vf vt pm m st) =
      map g (st_states st) @ [new_state (next_id (map gs_id (st_states st))) e a v source m vf vt]"
    by (simp add: superseded_store_def insert_supersession_def g_def [abs_def])
  moreover have "gs_current (new_state (next_id (map gs_id (st_states st))) e a v source m vf vt)" by (simp add: new_state_def)
  ultimately show ?thesis unfolding live_rows_def by auto
qed

lemma live_updated:
  assumes "\<And>r. gs_current (f r) = gs_current r"
  shows "live_rows (update_state i f st) = (\<lambda>r. if gs_id r = i then f r else r) ` live_rows st"
  using assms by (auto simp: live_rows_def update_state_def image_iff)

lemma truth_key_new:
  assumes "scoped_record m"
  shows "truth_key (new_state i e a v source m vf vt) = (e, a, principal_scope_key_from_metadata m)"
    "scoped_record (gs_metadata (new_state i e a v source m vf vt))"
  using stored_record [OF assms] by (simp_all add: truth_key_def state_scope_def new_state_def)

lemma new_truth:
  assumes ok: "one_truth_each st" and m: "scoped_record m" "principal_scope_key_from_metadata m = s"
    and rows: "live_rows st' = insert (new_state i e a v source m vf vt) R" "R \<subseteq> live_rows st" "distinct (map gs_id (st_states st'))"
    and none: "\<And>r. r \<in> R \<Longrightarrow> truth_key r \<noteq> (e, a, s)"
  shows "one_truth_each st' \<and> truths st' = insert ((e, a, s), py_strip v) ((\<lambda>r. (truth_key r, gs_value r)) ` R)"
proof -
  let ?n = "new_state i e a v source m vf vt"
  have k: "truth_key ?n = (e, a, s)" "scoped_record (gs_metadata ?n)" "gs_value ?n = py_strip v"
    using truth_key_new [OF m(1)] m(2) by (simp_all add: new_state_def)
  have "inj_on truth_key R" using ok rows(2) by (auto simp: one_truth_each_def intro: inj_on_subset)
  then have "inj_on truth_key (insert ?n R)" using none k(1) by (fastforce simp: inj_on_def)
  moreover have "\<forall>r \<in> insert ?n R. scoped_record (gs_metadata r)" using ok rows(2) k(2) by (auto simp: one_truth_each_def)
  ultimately show ?thesis using rows(3) by (simp add: one_truth_each_def truths_def rows(1) k)
qed

lemma get_or_create_truths:
  "get_or_create_entity name now st = (r :: 'e + nat, st') \<Longrightarrow> live_rows st' = live_rows st \<and> st_states st' = st_states st"
  using get_or_create_rest [of name now st r st'] by (simp add: truth_rows_def live_rows_def)

lemma states_distinct: "graph_ok st \<Longrightarrow> distinct (map gs_id (st_states st))"
  by (simp add: graph_ok_def states_ok_def)

lemma update_truths:
  assumes ok: "one_truth_each st" and r: "r \<in> live_rows st"
    and f: "\<And>q. gs_id (f q) = gs_id q \<and> gs_entity (f q) = gs_entity q \<and> gs_attribute (f q) = gs_attribute q \<and>
      gs_value (f q) = gs_value q \<and> gs_current (f q) = gs_current q"
    and m: "\<And>q. gs_metadata (f q) = stored m" "scoped_record m" "principal_scope_key_from_metadata m = state_scope r"
  shows "one_truth_each (update_state (gs_id r) f st) \<and> truths (update_state (gs_id r) f st) = truths st"
proof -
  define g where "g q = (if gs_id q = gs_id r then f q else q)" for q
  have live: "live_rows (update_state (gs_id r) f st) = g ` live_rows st"
    unfolding g_def [abs_def] by (rule live_updated) (simp add: f)
  have same: "gs_id q = gs_id r \<Longrightarrow> q \<in> live_rows st \<Longrightarrow> q = r" for q
    using live_unique [of st r q] ok r by (auto simp: one_truth_each_def live_rows_def)
  have key: "truth_key (g q) = truth_key q" "gs_value (g q) = gs_value q" "scoped_record (gs_metadata (g q))" if q: "q \<in> live_rows st" for q
  proof -
    show "truth_key (g q) = truth_key q" "gs_value (g q) = gs_value q"
      using same [OF _ q] f [of q] m stored_record [OF m(2)] by (auto simp: g_def truth_key_def state_scope_def)
    show "scoped_record (gs_metadata (g q))"
      using ok q m(1) stored_record [OF m(2)] by (auto simp: g_def one_truth_each_def)
  qed
  have "gs_id \<circ> g = gs_id" using f by (simp add: g_def fun_eq_iff)
  then have "distinct (map gs_id (st_states (update_state (gs_id r) f st)))"
    using ok by (simp add: one_truth_each_def update_state_def g_def [abs_def, symmetric])
  moreover have "inj_on truth_key (g ` live_rows st)"
  proof -
    have "inj_on truth_key (live_rows st)" using ok by (simp add: one_truth_each_def)
    then show ?thesis unfolding inj_on_def using key(1) by (metis imageE)
  qed
  moreover have "truths (update_state (gs_id r) f st) = truths st"
    unfolding truths_def live image_image using key(1,2) by (intro image_cong refl) simp
  ultimately show ?thesis using key(3) by (simp add: one_truth_each_def live)
qed

lemma superseded_truths:
  assumes ok: "one_truth_each st" and prior: "prior \<in> live_rows st" and met: "truth_met (truths st) e a s (state_scope prior) (gs_value prior)"
    and ke: "gs_entity prior = e" "gs_attribute prior = a" and m: "scoped_record m" "principal_scope_key_from_metadata m = s"
    and st': "graph_ok st'" "live_rows st' = insert (new_state i e a v source m vf vt) (live_rows st - {prior})"
  shows "one_truth_each st' \<and> truths st' = insert ((e, a, s), py_strip v) (truths st - {((e, a, state_scope prior), gs_value prior)})"
proof -
  have inj: "inj_on truth_key (live_rows st)" using ok by (simp add: one_truth_each_def)
  have k: "truth_key prior = (e, a, state_scope prior)" using ke by (simp add: truth_key_def)
  have "truth_key r \<noteq> (e, a, s)" if r: "r \<in> live_rows st - {prior}" for r
  proof
    assume t: "truth_key r = (e, a, s)"
    then have "((e, a, s), gs_value r) \<in> truths st" using r by (force simp: truths_def)
    then have "state_scope prior = s" using met by (auto simp: truth_met_def)
    then have "r = prior" using inj_onD [OF inj, of r prior] prior r t k by simp
    then show False using r by simp
  qed
  from new_truth [OF ok m st'(2) Diff_subset states_distinct [OF st'(1)] this]
  have "one_truth_each st'" and t: "truths st' = insert ((e, a, s), py_strip v) ((\<lambda>r. (truth_key r, gs_value r)) ` (live_rows st - {prior}))"
    by blast+
  moreover have "(\<lambda>r. (truth_key r, gs_value r)) ` (live_rows st - {prior}) = truths st - {(truth_key prior, gs_value prior)}"
  proof -
    have "inj_on (\<lambda>r. (truth_key r, gs_value r)) (live_rows st)" using inj by (auto simp: inj_on_def)
    from inj_on_image_set_diff [OF this Diff_subset, of "{prior}"] show ?thesis using prior by (simp add: truths_def)
  qed
  ultimately show ?thesis by (simp add: k)
qed

lemma upsert_truths:
  assumes g: "graph_ok st" and ok: "one_truth_each st" and m: "scoped_record metadata" "principal_scope_key_from_metadata metadata = s"
  shows "one_truth_each (snd (sqlite_upsert_graph_state subject attribute value_text source supersede metadata now st)) \<and>
    (case sqlite_upsert_graph_state subject attribute value_text source supersede metadata now st of
       (Inl x, st') \<Rightarrow> truths st' = truths st
     | (Inr out, st') \<Rightarrow> \<exists>entity status. dget out ''entity_id'' = PInt (int entity) \<and> dget out ''status'' = PStr status \<and>
         truth_write (truths st) entity attribute s value_text supersede status (truths st'))"
proof -
  obtain entity st1 where e: "get_or_create_entity subject now st = (Inr entity :: pyexc + nat, st1)" "graph_ok st1" "entity \<in> entity_ids st1"
    using get_or_create_ok [OF g] by (metis surj_pair)
  have same: "live_rows st1 = live_rows st" "st_states st1 = st_states st" using get_or_create_truths [OF e(1)] by simp_all
  then have t1: "truths st1 = truths st" and ok1: "one_truth_each st1" using ok by (simp_all add: truths_def one_truth_each_def)
  note g' = state_upsert_ok [OF g, of subject attribute value_text source supersede metadata now]
  show ?thesis
  proof (rule state_upsert_cases [OF e(1) refl, of attribute value_text source supersede metadata], goal_cases)
    case (1 x)
    then show ?case by (simp add: t1 ok1)
  next
    case (2 m vf vt sm)
    have m: "scoped_record m" "principal_scope_key_from_metadata m = s" using upsert_record [OF 2(1)] assms(3,4) by simp_all
    have sm: "scoped_record sm" "principal_scope_key_from_metadata sm = s"
      using merge_graph_scope [OF 2(3) _ m(1)] m(2) by (simp_all add: scoped_record_def split: if_splits)
    have none: "\<not> truth_met (truths st1) entity attribute s s' w" for s' w using truth_met_current [OF 2(2)] m(2) by simp
    have "truth_key r \<noteq> (entity, attribute, s)" if "r \<in> live_rows st1" for r
    proof
      assume "truth_key r = (entity, attribute, s)"
      then have "((entity, attribute, s), gs_value r) \<in> truths st1" using that by (force simp: truths_def)
      then show False using none unfolding truth_met_def by blast
    qed
    from new_truth [OF ok1 sm live_new subset_refl states_distinct this] g'
    have "one_truth_each (inserted_store entity attribute value_text source vf vt sm st1) \<and>
        truths (inserted_store entity attribute value_text source vf vt sm st1) = insert ((entity, attribute, s), py_strip value_text) (truths st1)"
      unfolding 2(4) by (simp add: truths_def)
    then show ?case unfolding 2(4) using added [of "truths st1" entity attribute s value_text supersede] none by (auto simp: t1)
  next
    case (3 m0 m vf vt prior sm prior_m new_m)
    have m0: "scoped_record m0" "principal_scope_key_from_metadata m0 = s" using upsert_record [OF 3(1)] assms(3,4) by simp_all
    have m: "scoped_record m" "principal_scope_key_from_metadata m = s"
      using 3(2) m0 exact_update [of _ _ m0 source m] by (auto simp: scoped_record_def)
    have sm: "scoped_record sm" "principal_scope_key_from_metadata sm = s"
      using merge_graph_scope [OF 3(6) _ m(1)] m(2) by (simp_all add: scoped_record_def split: if_splits)
    have new: "scoped_record new_m" "principal_scope_key_from_metadata new_m = s"
      using merge_graph_scope [OF 3(7) sm(1) new_link_plain(1)] new_link_plain(2) sm(2) by simp_all
    have p: "prior \<in> live_rows st1" "truth_met (truths st1) entity attribute s (state_scope prior) (gs_value prior)"
      using truth_met_current [OF 3(3)] m0(2) by simp_all
    have pin: "prior \<in> set (st_states st1)" using p(1) by (simp add: live_rows_def)
    have k: "gs_entity prior = entity" "gs_attribute prior = attribute" using current_state_in [OF 3(3)] by (simp_all add: candidates_in)
    have "one_truth_each (superseded_store prior entity attribute value_text source vf vt prior_m new_m st1) \<and>
        truths (superseded_store prior entity attribute value_text source vf vt prior_m new_m st1) =
          insert ((entity, attribute, s), py_strip value_text) (truths st1 - {((entity, attribute, state_scope prior), gs_value prior)})"
      by (rule superseded_truths [OF ok1 p k new]) (use g' 3(8) live_superseded [OF states_distinct [OF e(2)] pin] in simp_all)
    then show ?case unfolding 3(8) using replaced [OF p(2) 3(4,5)] by (auto simp: t1)
  next
    case (4 m vf vt r merged)
    obtain v where v: "sqlite_upsert_graph_state subject attribute value_text source supersede metadata now st =
       (Inr [(''status'', PStr ''unchanged''), (''entity_id'', PInt (int entity)), (''state_id'', PInt (int (gs_id r)))],
        update_state (gs_id r) (\<lambda>q. q\<lparr>gs_metadata := stored merged, gs_valid_to := v\<rparr>) st1)" using 4(5) by blast
    have m: "scoped_record m" "principal_scope_key_from_metadata m = s" using upsert_record [OF 4(1)] assms(3,4) by simp_all
    have r: "r \<in> live_rows st1" "truth_met (truths st1) entity attribute s (state_scope r) (gs_value r)"
      using truth_met_current [OF 4(2)] m(2) by simp_all
    have "scoped_record (gs_metadata r)" using ok1 r(1) by (simp add: one_truth_each_def)
    from merge_graph_scope [OF 4(4) this m(1)] r(2)
    have mm: "scoped_record merged" "principal_scope_key_from_metadata merged = state_scope r"
      unfolding m(2) by (auto simp: state_scope_def truth_met_def split: if_splits)
    have "one_truth_each (update_state (gs_id r) (\<lambda>q. q\<lparr>gs_metadata := stored merged, gs_valid_to := v\<rparr>) st1) \<and>
        truths (update_state (gs_id r) (\<lambda>q. q\<lparr>gs_metadata := stored merged, gs_valid_to := v\<rparr>) st1) = truths st1"
      by (rule update_truths [OF ok1 r(1) _ _ mm]) simp_all
    then show ?case unfolding v using confirmed [OF r(2) 4(3)] by (auto simp: t1)
  next
    case (5 m vf vt r)
    have m: "principal_scope_key_from_metadata m = s" using upsert_record [OF 5(1)] assms(3,4) by simp
    have r: "truth_met (truths st1) entity attribute s (state_scope r) (gs_value r)" using truth_met_current [OF 5(2)] m by simp
    show ?case
    proof (cases rule: record_conflict_run [of entity attribute r value_text source m now st1])
      case (raised x)
      then show ?thesis unfolding 5(6) by (simp add: t1 ok1)
    next
      case (updated c f)
      have "truths (update_conflict (gc_id c) f st1) = truths st1 \<and> one_truth_each (update_conflict (gc_id c) f st1)"
        using ok1 by (simp add: truths_def one_truth_each_def live_rows_def update_conflict_def)
      then show ?thesis unfolding 5(6) updated(3) using contested [OF r 5(3-5)] by (auto simp: t1 conflict_outcome_def)
    next
      case (inserted merged)
      let ?st = "insert_graph_conflict entity attribute (gs_id r) (py_strip value_text) source merged now st1"
      have "truths ?st = truths st1 \<and> one_truth_each ?st"
        using ok1 by (simp add: truths_def one_truth_each_def live_rows_def insert_graph_conflict_def)
      then show ?thesis unfolding 5(6) inserted(2) using contested [OF r 5(3-5)] by (auto simp: t1 conflict_outcome_def)
    qed
  qed
qed

section \<open>Properties\<close>

record graph_write =
  gw_subject :: string
  gw_attribute :: string
  gw_value :: string
  gw_source :: string
  gw_supersede :: bool
  gw_metadata :: pydict
  gw_now :: string

definition run_graph_write :: "graph_write \<Rightarrow> (pyexc, pydict) gop" where
  "run_graph_write w =
     sqlite_upsert_graph_state (gw_subject w) (gw_attribute w) (gw_value w) (gw_source w) (gw_supersede w) (gw_metadata w) (gw_now w)"

definition after_writes :: "graph_write list \<Rightarrow> graph_store" where
  "after_writes ws = fold (\<lambda>w st. snd (run_graph_write w st)) ws empty_graph_store"

lemma after_writes_ok:
  assumes "\<forall>w \<in> set ws. scoped_record (gw_metadata w)"
  shows "graph_ok (after_writes ws) \<and> one_truth_each (after_writes ws)"
proof -
  have "graph_ok st \<and> one_truth_each st \<Longrightarrow> graph_ok (fold (\<lambda>w st. snd (run_graph_write w st)) ws st) \<and>
      one_truth_each (fold (\<lambda>w st. snd (run_graph_write w st)) ws st)" for st
    using assms
  proof (induction ws arbitrary: st)
    case (Cons w ws)
    have "graph_ok (snd (run_graph_write w st))" "one_truth_each (snd (run_graph_write w st))"
      unfolding run_graph_write_def using Cons.prems state_upsert_ok upsert_truths by auto
    then show ?case using Cons by simp
  qed simp
  moreover have "one_truth_each empty_graph_store" by (simp add: one_truth_each_def live_rows_def empty_graph_store_def)
  ultimately show ?thesis using graph_ok_empty unfolding after_writes_def by blast
qed

text \<open>
  C23: after any sequence of state writes whose metadata name their principal scope directly (or name none), an attribute
  of an entity has at most one current value for each scope, however the writes supersede, conflict or raise.
\<close>

theorem one_current_truth_per_scope:
  assumes "\<forall>w \<in> set ws. scoped_record (gw_metadata w)"
  shows "inj_on truth_key (live_rows (after_writes ws))"
  using after_writes_ok [OF assms] by (simp add: one_truth_each_def)

text \<open>
  C6: after any state writes whose metadata name their scope directly or not at all, such a write does to the truths of the
  shelf what the abstract write does: a value nobody met is added; the value
  it meets (its own scope's, or for a write without a scope any other's when there is none without) is replaced when the
  write supersedes or both values carry different numbers, stays when it is the same up to case and spacing, and stays,
  contested, otherwise. The status that is returned says which; a write that raises changes no truth.
\<close>

theorem graph_writes_refine_truths:
  assumes "\<forall>w \<in> set ws. scoped_record (gw_metadata w)" "scoped_record (gw_metadata w)"
  shows "case run_graph_write w (after_writes ws) of
      (Inl x, st') \<Rightarrow> truths st' = truths (after_writes ws)
    | (Inr out, st') \<Rightarrow> \<exists>entity status. dget out ''entity_id'' = PInt (int entity) \<and> dget out ''status'' = PStr status \<and>
        truth_write (truths (after_writes ws)) entity (gw_attribute w) (principal_scope_key_from_metadata (gw_metadata w))
          (gw_value w) (gw_supersede w) status (truths st')"
proof -
  note ok = after_writes_ok [OF assms(1)]
  show ?thesis unfolding run_graph_write_def
    by (rule conjunct2 [OF upsert_truths [OF conjunct1 [OF ok] conjunct2 [OF ok] assms(2) refl]])
qed

lemma upsert_raised:
  assumes "sqlite_upsert_graph_state subject attribute value_text source supersede metadata now st = (Inl x, st')"
  shows "truth_rows st' = truth_rows st \<and> st_relations st' = st_relations st \<and> st_inferred st' = st_inferred st \<and> st_effects st' = st_effects st"
proof -
  obtain entity st1 where e: "get_or_create_entity subject now st = (Inr entity :: pyexc + nat, st1)"
    using get_or_create_rest by (metis surj_pair)
  have "st' = st1"
  proof (rule state_upsert_cases [OF e refl, of attribute value_text source supersede metadata], goal_cases)
    case (5 m vf vt r)
    show ?case
      by (cases rule: record_conflict_run [of entity attribute r value_text source m now st1]) (use assms 5(6) in auto)
  qed (use assms in auto)
  then show ?thesis using get_or_create_rest [OF e] by simp
qed

lemma gbind_raised: "gbind m f st = (Inl e, st') \<longleftrightarrow> m st = (Inl e, st') \<or> (\<exists>x st1. m st = (Inr x, st1) \<and> f x st1 = (Inl e, st'))"
  by (auto simp: gbind_def split: prod.splits sum.splits)

lemma raising_raised: "raising m st = (Inl e, st') \<longleftrightarrow> (\<exists>x. e = Raised x \<and> m st = (Inl x, st'))"
  by (auto simp: raising_def split: prod.splits sum.splits)

lemma raising_glift: "raising (glift (Inr x)) = glift (Inr x)"
  by (rule ext) (simp add: raising_def)

text \<open>
  C8: a write that is refused or raises, wherever in its course, has changed no state, conflict, supersession, resolution
  or relation and has published nothing (an entity it had to make may stay); a resolution that raises has changed nothing
  at all, although it closes the prior state before it inserts the replacement.
\<close>

theorem failed_writes_change_no_truth:
  "(upsert_graph_state to_float subject attribute value_text source supersede metadata now st = (Inl err, st1) \<longrightarrow>
      truth_rows st1 = truth_rows st \<and> st_relations st1 = st_relations st \<and> st_inferred st1 = st_inferred st \<and>
      st_effects st1 = st_effects st) \<and>
   (resolve_graph_conflict i decision approved_by reason evidence new_value_text now st = (Inl x, st2) \<longrightarrow> st2 = st)"
proof (intro conjI impI)
  let ?sql = "\<lambda>m. sqlite_upsert_graph_state subject attribute value_text source supersede m now"
  assume u: "upsert_graph_state to_float subject attribute value_text source supersede metadata now st = (Inl err, st1)"
  let ?rest = "\<lambda>m. gbind (raising (?sql m)) (\<lambda>out.
           gbind (gupdate (\<lambda>st. if 0 < outcome_id out ''entity_id'' then publish_entity (outcome_id out ''entity_id'') st else st)) (\<lambda>_.
           gbind (gupdate (effect (RefreshShelf ''graph''))) (\<lambda>_. greturn out)))"
  have rest: "\<exists>x. ?sql m st = (Inl x, st1)" if "?rest m st = (Inl err, st1)" for m
    using that by (auto simp: gbind_raised raising_raised)
  have body: "\<exists>x. ?sql m st = (Inl x, st1)"
    if "(case b of PDict blocked \<Rightarrow> greturn (admission_rejected blocked) | _ \<Rightarrow> ?rest m) st = (Inl err, st1)" for b m
    using that rest by (cases b) (simp_all only: pyval.case, simp)
  from u have "st1 = st \<or> (\<exists>m x. ?sql m st = (Inl x, st1))"
  proof (cases "graph_state_admission_metadata to_float subject attribute value_text source metadata")
    case (Inl e)
    then show ?thesis using u by (simp add: upsert_graph_state_def gbind_def raising_def glift_def)
  next
    case a: (Inr m)
    show ?thesis
    proof (cases "guard_and_normalize_durable_truth_metadata ''graph'' source m [] (py_strip attribute)")
      case (Inl e)
      then show ?thesis using u by (simp add: upsert_graph_state_def gbind_def [of "raising _"] raising_def a)
    next
      case (Inr n)
      from u have "(case dget n ''durable_graph_write_blocked'' of PDict blocked \<Rightarrow> greturn (admission_rejected blocked) | _ \<Rightarrow> ?rest n) st
          = (Inl err, st1)"
        unfolding upsert_graph_state_def a raising_glift bind_simps(2) Inr sum.case .
      then show ?thesis using body by blast
    qed
  qed
  then show "truth_rows st1 = truth_rows st" "st_relations st1 = st_relations st" "st_inferred st1 = st_inferred st" "st_effects st1 = st_effects st"
    using upsert_raised by metis+
next
  assume r: "resolve_graph_conflict i decision approved_by reason evidence new_value_text now st = (Inl x, st2)"
  show "st2 = st"
    by (cases rule: resolve_cases [OF refl, of i decision approved_by reason evidence new_value_text now st]) (use r in auto)
qed

lemma live_closed [simp]: "live_rows (close_conflict cer d v a r ev after now st) = live_rows st"
  "live_rows (finish_resolution i st) = live_rows st" "st_conflicts (finish_resolution i st) = st_conflicts st"
  "st_states (finish_resolution i st) = st_states st" "st_states (close_conflict cer d v a r ev after now st) = st_states st"
  by (simp_all add: live_rows_def close_conflict_def update_conflict_def Let_def finish_resolution_def publish_entity_def effect_def)

lemma closed_status:
  "d \<in> set (st_conflicts (close_conflict (c, e, q) dc v a r ev after now st)) \<Longrightarrow> gc_id d = gc_id c \<Longrightarrow> gc_status d = v"
  by (auto simp: close_conflict_def update_conflict_def Let_def)

lemma resolution_record:
  "scoped_record (resolution_metadata c d a r now)" "principal_scope_key_from_metadata (resolution_metadata c d a r now) = []"
proof -
  have h: "\<not> dhas (resolution_metadata c d a r now) ''principal_scope_key''" "dget (resolution_metadata c d a r now) ''principal_scope'' = PNone"
    "dget (resolution_metadata c d a r now) ''document'' = PNone" "dget (resolution_metadata c d a r now) ''section'' = PNone"
    by (simp_all add: resolution_metadata_def)
  have "distinct (map fst (resolution_metadata c d a r now))" by (simp add: resolution_metadata_def)
  then show "scoped_record (resolution_metadata c d a r now)" unfolding scoped_record_def plain_scope_def using h by simp
  show "principal_scope_key_from_metadata (resolution_metadata c d a r now) = []"
    using plain_none h by simp
qed

text \<open>The value the decision puts in place: the candidate's, or the operator's.\<close>

definition chosen_value :: "string \<Rightarrow> graph_conflict \<Rightarrow> string \<Rightarrow> string option" where
  "chosen_value decision c new_value_text =
     (if decision = ''accept_candidate'' then Some (py_strip (gc_value c))
      else if decision = ''supersede_with_new_value'' then Some (py_strip (norm_text (PStr new_value_text))) else None)"

text \<open>
  C24: a conflict that is reported as resolved was open and is closed with the status of the decision. Accepting the
  candidate, or superseding both, closes the state the conflict was recorded against and puts one current state with the
  chosen value beside the other current ones; that state belongs to no principal, whichever the candidate or the closed
  state belonged to. The other decisions leave the current states as they are.
\<close>

theorem resolution_closes_and_replaces:
  assumes "graph_ok st"
    and "resolve_graph_conflict i decision approved_by reason evidence new_value_text now st = (Inr out, st')"
    and "dget out ''status'' = PStr ''resolved''"
  shows "\<exists>c e current v. fetch_graph_conflict st i = Some (c, e, current) \<and> py_strip (gc_status c) = ''open'' \<and>
    map_of CONFLICT_RESOLUTION_STATUSES (strip_text decision) = Some v \<and>
    (\<forall>d \<in> set (st_conflicts st'). gc_id d = i \<longrightarrow> gc_status d = v) \<and>
    (case chosen_value (strip_text decision) c new_value_text of
       None \<Rightarrow> live_rows st' = live_rows st
     | Some w \<Rightarrow> \<exists>r. live_rows st' = insert r (live_rows st - {current}) \<and> r \<notin> set (st_states st) \<and>
         truth_key r = (gc_entity c, gc_attribute c, []) \<and> gs_value r = w)"
proof (rule resolve_cases [OF refl, of i decision approved_by reason evidence new_value_text now st], goal_cases)
  case (1 x)
  then show ?case using assms(2) by simp
next
  case (2 out')
  then show ?case using assms(2,3) by simp
next
  case (3 c e current v out')
  have "chosen_value (strip_text decision) c new_value_text = None" using 3(4) by (auto simp: chosen_value_def)
  moreover have "gc_id c = i" using fetch_Some [OF 3(1)] by simp
  ultimately show ?case using 3 assms(2) closed_status by auto
next
  case (4 c e current v out' w sc sm prior_m new_m)
  note f = fetch_Some [OF 4(1)]
  have cv: "chosen_value (strip_text decision) c new_value_text = Some (py_strip w)"
    using 4(4) by (auto simp: replacement_of_def chosen_value_def split: if_splits)
  let ?st = "superseded_store current (gc_entity c) (gc_attribute c) w sc now [] prior_m new_m st"
  let ?n = "next_id (map gs_id (st_states st))"
  let ?r = "new_state ?n (gc_entity c) (gc_attribute c) w sc new_m now []"
  have sm: "scoped_record sm" "principal_scope_key_from_metadata sm = []"
    using merge_graph_scope [OF 4(5) _ resolution_record(1)] resolution_record(2) by (simp_all add: scoped_record_def)
  have new: "scoped_record new_m" "principal_scope_key_from_metadata new_m = []"
    using merge_graph_scope [OF 4(6) sm(1) new_link_plain(1)] new_link_plain(2) sm(2) by simp_all
  have "?r \<notin> set (st_states st)" using next_id_gt [of ?n "map gs_id (st_states st)"] by (force simp: new_state_def)
  moreover have "live_rows ?st = insert ?r (live_rows st - {current})"
    using live_superseded [OF states_distinct [OF assms(1)]] f by simp
  moreover have "truth_key ?r = (gc_entity c, gc_attribute c, [])" using truth_key_new [OF new(1)] new(2) by simp
  moreover have "gs_value ?r = py_strip w" by (simp add: new_state_def)
  ultimately have "\<exists>r. live_rows ?st = insert r (live_rows st - {current}) \<and> r \<notin> set (st_states st) \<and>
         truth_key r = (gc_entity c, gc_attribute c, []) \<and> gs_value r = py_strip w" by blast
  moreover have st': "st' = finish_resolution (gc_entity c) (close_conflict (c, e, current) (strip_text decision) v (norm_text approved_by)
        (norm_text reason) evidence (resolution_after c (strip_text decision) v ?n (Some (w, sc))) now ?st)"
    using 4(7) assms(2) by simp
  moreover have "\<forall>d \<in> set (st_conflicts st'). gc_id d = i \<longrightarrow> gc_status d = v" unfolding st' using closed_status f by auto
  ultimately show ?case using 4(1-3) by (intro exI [of _ c] exI [of _ e] exI [of _ current] exI [of _ v]) (simp add: cv)
qed

section \<open>Witnesses\<close>

text \<open>One entity, one current state of a principal and an open candidate of the same principal.\<close>

definition sample_scope :: pydict where
  "sample_scope = [(''principal_scope_key'', PStr ''p1'')]"

definition sample_state :: graph_state where
  "sample_state = \<lparr>gs_id = 1, gs_entity = 1, gs_attribute = ''owner'', gs_value = ''alice'', gs_source = ''user'',
     gs_metadata = sample_scope, gs_valid_from = ''2024-05-01T00:00:00+00:00'', gs_valid_to = None, gs_current = True\<rparr>"

definition sample_conflict :: graph_conflict where
  "sample_conflict = \<lparr>gc_id = 1, gc_entity = 1, gc_attribute = ''owner'', gc_current = 1, gc_value = ''bob'', gc_source = ''user'',
     gc_metadata = sample_scope, gc_status = ''open'', gc_created = ''2024-05-02'', gc_updated = ''2024-05-02''\<rparr>"

definition sample_graph :: graph_store where
  "sample_graph = empty_graph_store
     \<lparr>st_entities := [new_entity ''service'' ''2024-05-01'' 1], st_entity_seq := 1, st_states := [sample_state],
      st_conflicts := [sample_conflict]\<rparr>"

lemma sample_graph_ok: "graph_ok sample_graph"
  by (simp add: graph_ok_def entities_ok_def states_ok_def conflicts_ok_def resolutions_ok_def relation_table_ok_def
      sample_graph_def empty_graph_store_def entity_ids_def new_entity_def sample_state_def sample_conflict_def conflict_refers_def)

lemma sample_scope_record: "scoped_record sample_scope" "principal_scope_key_from_metadata sample_scope = ''p1''"
  using plain_direct [of sample_scope "''p1''"] by (simp_all add: scoped_record_def sample_scope_def py_strip_def is_space_def)

lemma sample_fetch:
  "fetch_graph_conflict sample_graph 1 = Some (sample_conflict, new_entity ''service'' ''2024-05-01'' 1, sample_state)"
  by (simp add: fetch_graph_conflict_def sample_graph_def sample_conflict_def entity_by_id_def new_entity_def state_by_id_def
      sample_state_def)

lemma sample_texts:
  "strip_text (PStr ''accept_candidate'') = ''accept_candidate''" "norm_text (PStr ''ops'') = ''ops''" "py_strip ''bob'' = ''bob''"
  "py_strip ''open'' = ''open''" "py_strip ''user'' = ''user''" "strip_text (PStr ''drop'') = ''drop''"
  by code_simp+

lemma sample_mark: "\<exists>t. merge_temporal PNone (PDict [(''valid_to'', PStr ''2024-05-03T00:00:00+00:00'')]) = Inr t"
proof -
  have "(case merge_temporal PNone (PDict [(''valid_to'', PStr ''2024-05-03T00:00:00+00:00'')]) of Inr t \<Rightarrow> True | Inl _ \<Rightarrow> False)"
    by code_simp
  then show ?thesis by (simp split: sum.splits)
qed

lemma sample_resolved:
  "\<exists>out st'. resolve_graph_conflict 1 (PStr ''accept_candidate'') (PStr ''ops'') (PStr ''ops'') [] []
       ''2024-05-03T00:00:00+00:00'' sample_graph = (Inr out, st') \<and> dget out ''status'' = PStr ''resolved''"
    (is "\<exists>out st'. ?run = _ \<and> _")
proof -
  let ?now = "''2024-05-03T00:00:00+00:00''"
  let ?apply = "apply_replacement sample_conflict sample_state ''accept_candidate'' ''ops'' ''ops'' ?now (''bob'', ''user'')"
  have mem: "sample_state \<in> set (st_states sample_graph)" by (simp add: sample_graph_def)
  have c: "gc_source sample_conflict = ''user''" "gc_status sample_conflict = ''open''" by (simp_all add: sample_conflict_def)
  have rep: "replacement_of sample_conflict ''accept_candidate'' ''ops'' [] = Inr (Some (''bob'', ''user''))"
    by (simp add: replacement_of_def sample_conflict_def sample_texts)
  have st: "map_of CONFLICT_RESOLUTION_STATUSES ''accept_candidate'' = Some ''accepted_candidate''"
    by (simp add: CONFLICT_RESOLUTION_STATUSES_def)
  obtain n st1 where run: "?apply sample_graph = (Inr n, st1)"
    using mem
  proof (cases rule: apply_replacement_run [where c = sample_conflict and decision = "''accept_candidate''" and approved_by = "''ops''"
        and reason = "''ops''" and now = ?now and vl = "''bob''" and source = "''user''"])
    case (raised e)
    have "dget (gs_metadata sample_state) ''temporal'' = PNone" by (simp add: sample_state_def sample_scope_def)
    then show ?thesis using raised(1) sample_mark by simp
  qed (rule that)
  have "\<exists>m. ?run = (Inr ((''status'', PStr ''resolved'') # fst m), snd m)"
    unfolding resolve_graph_conflict_def Let_def sample_texts option.case sample_fetch case_prod_conv st c
    by (simp add: rep gbind_Inr [where m = "?apply", OF run])
  then show ?thesis by force
qed

theorem resolution_closes_and_replaces_witness:
  "\<exists>st'. (\<exists>out. resolve_graph_conflict 1 (PStr ''accept_candidate'') (PStr ''ops'') (PStr ''ops'') [] []
       ''2024-05-03T00:00:00+00:00'' sample_graph = (Inr out, st')) \<and>
     (\<exists>r. live_rows st' = {r} \<and> truth_key r = (1, ''owner'', []) \<and> gs_value r = ''bob'')"
proof -
  obtain out st' where run: "resolve_graph_conflict 1 (PStr ''accept_candidate'') (PStr ''ops'') (PStr ''ops'') [] []
       ''2024-05-03T00:00:00+00:00'' sample_graph = (Inr out, st')" "dget out ''status'' = PStr ''resolved''"
    using sample_resolved by blast
  have live: "live_rows sample_graph - {sample_state} = {}" by (auto simp: live_rows_def sample_graph_def)
  have cv: "chosen_value (strip_text (PStr ''accept_candidate'')) sample_conflict [] = Some ''bob''"
    by (simp add: sample_texts chosen_value_def) (simp add: sample_conflict_def sample_texts)
  from resolution_closes_and_replaces [OF sample_graph_ok run] cv live
  have "\<exists>r. live_rows st' = {r} \<and> truth_key r = (gc_entity sample_conflict, gc_attribute sample_conflict, []) \<and> gs_value r = ''bob''"
    unfolding sample_fetch by auto
  then show ?thesis using run(1) by (auto simp: sample_conflict_def)
qed

text \<open>A write of one principal beside the write of another.\<close>

definition sample_graph_write :: "string \<Rightarrow> pydict \<Rightarrow> graph_write" where
  "sample_graph_write v m = \<lparr>gw_subject = ''service'', gw_attribute = ''owner'', gw_value = v, gw_source = ''user'', gw_supersede = False,
     gw_metadata = m, gw_now = ''2024-05-01T00:00:00+00:00''\<rparr>"

theorem one_current_truth_per_scope_witness:
  "inj_on truth_key (live_rows (after_writes [sample_graph_write ''alice'' sample_scope, sample_graph_write ''bob'' []]))"
  by (rule one_current_truth_per_scope) (simp add: sample_graph_write_def sample_scope_record, simp add: scoped_record_def)

theorem graph_writes_refine_truths_witness:
  "case run_graph_write (sample_graph_write ''alice'' sample_scope) (after_writes []) of
      (Inl x, st') \<Rightarrow> truths st' = truths (after_writes [])
    | (Inr out, st') \<Rightarrow> \<exists>entity status. dget out ''entity_id'' = PInt (int entity) \<and> dget out ''status'' = PStr status \<and>
        truth_write (truths (after_writes [])) entity ''owner'' ''p1'' ''alice'' False status (truths st')"
proof -
  have f: "gw_metadata (sample_graph_write ''alice'' sample_scope) = sample_scope" "gw_attribute (sample_graph_write ''alice'' sample_scope) = ''owner''"
    "gw_value (sample_graph_write ''alice'' sample_scope) = ''alice''" "gw_supersede (sample_graph_write ''alice'' sample_scope) = False"
    by (simp_all add: sample_graph_write_def)
  show ?thesis
    using graph_writes_refine_truths [of "[]" "sample_graph_write ''alice'' sample_scope"] unfolding f sample_scope_record(2)
    using sample_scope_record(1) by simp
qed

text \<open>A derived write without a permit is refused; a decision that does not exist is rejected.\<close>

lemma sample_refused:
  "\<exists>e. upsert_graph_state to_float ''service'' ''owner'' ''bob'' ''tier2:batch'' False [(''admission'', PNone)] ''2024-05-03'' sample_graph =
     (Inl e, sample_graph)"
proof -
  have a: "graph_state_admission_metadata to_float ''service'' ''owner'' ''bob'' ''tier2:batch'' [(''admission'', PNone)] = Inr [(''admission'', PNone)]"
    by (simp add: graph_state_admission_metadata_def Let_def)
  have f: "force_support_only_invariants [(''admission'', PNone)] = [(''admission'', PNone)]"
    by (simp add: force_support_only_invariants_def support_visibility_text_def sub_mapping_def fold_text_def SUPPORT_ONLY_VISIBILITIES_def
        py_strip_def py_lower_def)
  have g0: "fold_text (PStr ''graph'') = ''graph''" by code_simp
  have g: "guard_and_normalize_durable_truth_metadata ''graph'' ''tier2:batch'' [(''admission'', PNone)] [] (py_strip ''owner'') =
      Inl (DurableTruthWriteViolation ''Derived durable graph write requires TruthWritePermit or admission metadata'')"
    unfolding guard_and_normalize_durable_truth_metadata_def f guard_checks_def Let_def g0
    by (simp add: sample_write_derived has_permit_def has_admission_def sub_mapping_def)
  show ?thesis unfolding upsert_graph_state_def a raising_glift bind_simps(2) g by simp
qed

theorem failed_writes_change_no_truth_witness:
  "\<exists>e st1 x st2. upsert_graph_state Inr ''service'' ''owner'' ''bob'' ''tier2:batch'' False [(''admission'', PNone)] ''2024-05-03'' sample_graph =
        (Inl e, st1) \<and> truth_rows st1 = truth_rows sample_graph \<and>
     resolve_graph_conflict 1 (PStr ''drop'') (PStr ''ops'') (PStr ''ops'') [] [] ''2024-05-03'' sample_graph = (Inl x, st2) \<and> st2 = sample_graph"
proof -
  let ?up = "upsert_graph_state Inr ''service'' ''owner'' ''bob'' ''tier2:batch'' False [(''admission'', PNone)] ''2024-05-03'' sample_graph"
  let ?res = "resolve_graph_conflict 1 (PStr ''drop'') (PStr ''ops'') (PStr ''ops'') [] [] ''2024-05-03'' sample_graph"
  obtain e st1 where u: "?up = (Inl e, st1)" using sample_refused by metis
  have r: "?res = (Inl ValueError, sample_graph)"
    by (simp add: resolve_graph_conflict_def sample_texts CONFLICT_RESOLUTION_STATUSES_def Let_def)
  show ?thesis
    using failed_writes_change_no_truth [of Inr "''service''" "''owner''" "''bob''" "''tier2:batch''" False "[(''admission'', PNone)]" "''2024-05-03''"
        sample_graph e st1 1 "PStr ''drop''" "PStr ''ops''" "PStr ''ops''" "[]" "[]" ValueError sample_graph] u r
    by blast
qed

end
