(* ===== verification/PyText.thy ===== *)
theory PyText
  imports PyHash
begin

text \<open>
  Positions in strings: reading, slicing, searching and splitting into lines as Python does them,
  and the lemmas on slices, runs of spaces and hits that the document and corpus theories share.
\<close>

section \<open>Strings by position\<close>

text \<open>\<open>s[i]\<close> and \<open>s[a:b]\<close>; a negative position counts from the end, a slice is cut to the string.\<close>

definition py_char :: "string \<Rightarrow> int \<Rightarrow> char result" where
  "py_char s i = (let n = int (length s) in
     if - n \<le> i \<and> i < n then Inr (s ! nat (if i < 0 then n + i else i)) else Inl IndexError)"

definition py_pos :: "string \<Rightarrow> int \<Rightarrow> nat" where
  "py_pos s i = (let n = int (length s) in nat (if i < 0 then max 0 (n + i) else min n i))"

definition py_slice :: "string \<Rightarrow> int \<Rightarrow> int \<Rightarrow> string" where
  "py_slice s a b = take (py_pos s b - py_pos s a) (drop (py_pos s a) s)"

text \<open>\<open>s.find(p)\<close>, whose \<open>-1\<close> is \<open>None\<close>, and \<open>s.rfind(p, a, b)\<close>.\<close>

fun py_find :: "string \<Rightarrow> string \<Rightarrow> nat option" where
  "py_find p [] = (if p = [] then Some 0 else None)"
| "py_find p (c # s) = (if py_startswith (c # s) p then Some 0 else map_option Suc (py_find p s))"

definition py_find_from :: "string \<Rightarrow> string \<Rightarrow> nat \<Rightarrow> nat option" where
  "py_find_from p s k = map_option (\<lambda>i. k + i) (py_find p (drop k s))"

definition py_rfind :: "string \<Rightarrow> string \<Rightarrow> int \<Rightarrow> int \<Rightarrow> int" where
  "py_rfind p s a b =
     (let hits = filter (\<lambda>i. i + length p \<le> py_pos s b \<and> py_startswith (drop i s) p) [py_pos s a..<Suc (py_pos s b)]
      in if hits = [] then -1 else int (last hits))"

text \<open>\<open>s.splitlines(keepends=True)\<close> on ASCII text, and \<open>s.lstrip(c)\<close>, \<open>s.strip(c)\<close>.\<close>

definition is_line_break :: "char \<Rightarrow> bool" where
  "is_line_break c \<longleftrightarrow> (let n = of_char c :: nat in 10 \<le> n \<and> n \<le> 13 \<or> 28 \<le> n \<and> n \<le> 30)"

fun line_acc :: "string \<Rightarrow> string \<Rightarrow> string list" where
  "line_acc acc [] = (if acc = [] then [] else [rev acc])"
| "line_acc acc (c # s) =
     (if is_line_break c then
        (if of_char c = (13 :: nat) \<and> s \<noteq> [] \<and> of_char (hd s) = (10 :: nat)
         then (rev acc @ [c, hd s]) # line_acc [] (tl s)
         else (rev acc @ [c]) # line_acc [] s)
      else line_acc (c # acc) s)"

definition py_splitlines :: "string \<Rightarrow> string list" where
  "py_splitlines s = line_acc [] s"

definition py_lstrip_char :: "char \<Rightarrow> string \<Rightarrow> string" where
  "py_lstrip_char x s = dropWhile (\<lambda>c. c = x) s"

definition py_strip_char :: "char \<Rightarrow> string \<Rightarrow> string" where
  "py_strip_char x s = rev (py_lstrip_char x (rev (py_lstrip_char x s)))"

text \<open>\<open>str(value or "")\<close>\<close>

definition text_of :: "pyval \<Rightarrow> string" where
  "text_of v = py_str (py_or v (PStr []))"

section \<open>Lemmas\<close>

lemma py_char_ok: "0 \<le> i \<Longrightarrow> i < int (length s) \<Longrightarrow> py_char s i = Inr (s ! nat i)"
  by (simp add: py_char_def)

lemma py_pos_ok: "0 \<le> i \<Longrightarrow> i \<le> int (length s) \<Longrightarrow> py_pos s i = nat i"
  by (simp add: py_pos_def)

lemma py_pos_le: "py_pos s i \<le> length s"
  by (simp add: py_pos_def Let_def nat_le_iff)

lemma py_slice_ok: "0 \<le> a \<Longrightarrow> a \<le> b \<Longrightarrow> b \<le> int (length s) \<Longrightarrow> py_slice s a b = take (nat (b - a)) (drop (nat a) s)"
  by (simp add: py_slice_def py_pos_ok nat_diff_distrib)

lemma length_py_slice: "0 \<le> a \<Longrightarrow> a \<le> b \<Longrightarrow> b \<le> int (length s) \<Longrightarrow> int (length (py_slice s a b)) = b - a"
  by (simp add: py_slice_ok)

lemma py_slice_Nil_iff: "0 \<le> a \<Longrightarrow> a \<le> b \<Longrightarrow> b \<le> int (length s) \<Longrightarrow> py_slice s a b = [] \<longleftrightarrow> a = b"
  using length_py_slice[of a b s] by auto

lemma py_slice_slice:
  assumes "0 \<le> a" "b \<le> int (length s)" "0 \<le> c" "c \<le> d" "d \<le> b - a"
  shows "py_slice (py_slice s a b) c d = py_slice s (a + c) (a + d)"
proof -
  define t where "t = py_slice s a b"
  have t: "t = take (nat (b - a)) (drop (nat a) s)" unfolding t_def using assms by (intro py_slice_ok) auto
  have "int (length t) = b - a" unfolding t_def using assms by (intro length_py_slice) auto
  then have "py_slice t c d = take (nat (d - c)) (drop (nat c) t)" using assms by (intro py_slice_ok) auto
  also have "drop (nat c) t = take (nat (b - a) - nat c) (drop (nat (a + c)) s)"
    using assms by (simp add: t drop_take nat_add_distrib add.commute)
  also have "take (nat (d - c)) (take (nat (b - a) - nat c) (drop (nat (a + c)) s)) = take (nat (d - c)) (drop (nat (a + c)) s)"
    using assms by (simp add: min_def nat_le_iff nat_diff_distrib)
  also have "\<dots> = py_slice s (a + c) (a + d)" using assms by (subst py_slice_ok) auto
  finally show ?thesis by (simp add: t_def)
qed

lemma py_slice_nth:
  assumes "0 \<le> a" "b \<le> int (length s)" "a \<le> i" "i < b"
  shows "py_slice s a b ! nat (i - a) = s ! nat i"
proof -
  have "py_slice s a b = take (nat (b - a)) (drop (nat a) s)" using assms by (intro py_slice_ok) auto
  then show ?thesis using assms by (simp add: nat_less_iff flip: nat_add_distrib)
qed

lemma py_find_Some: "py_find p s = Some i \<Longrightarrow> i + length p \<le> length s \<and> take (length p) (drop i s) = p"
proof (induction p s arbitrary: i rule: py_find.induct)
  case (2 p c s)
  show ?case
  proof (cases "py_startswith (c # s) p")
    case True
    then have "take (length p) (c # s) = p" by (simp add: py_startswith_def)
    moreover from this have "length p \<le> length (c # s)" by (metis length_take min.cobounded1)
    ultimately show ?thesis using 2 True by simp
  next
    case False
    then obtain j where "py_find p s = Some j" "i = Suc j" using 2 by auto
    then show ?thesis using 2 False by auto
  qed
qed (auto split: if_splits)

lemma py_find_None: "py_find p s = None \<Longrightarrow> take (length p) (drop i s) = p \<Longrightarrow> i \<le> length s \<Longrightarrow> False"
proof (induction p s arbitrary: i rule: py_find.induct)
  case (2 p c s)
  then show ?case by (cases i) (auto simp: py_startswith_def split: if_splits)
qed (auto split: if_splits)

lemma py_find_append: "py_find p (u @ p @ v) \<noteq> None"
  using py_find_None[of p "u @ p @ v" "length u"] by auto

lemma py_find_from_ge: "py_find_from p s k = Some i \<Longrightarrow> k \<le> i"
  by (auto simp: py_find_from_def)

lemma py_find_from_Some:
  assumes "py_find_from p s k = Some i" "k \<le> length s"
  shows "k \<le> i \<and> i + length p \<le> length s \<and> take (length p) (drop i s) = p"
proof -
  obtain j where j: "py_find p (drop k s) = Some j" "i = k + j" using assms by (auto simp: py_find_from_def)
  then show ?thesis using py_find_Some[OF j(1)] assms by (auto simp: add.commute)
qed

lemma py_rfind_cases:
  obtains "py_rfind p s a b = -1"
  | i where "py_rfind p s a b = int i" "py_pos s a \<le> i" "i + length p \<le> py_pos s b"
proof -
  define hits where "hits = filter (\<lambda>i. i + length p \<le> py_pos s b \<and> py_startswith (drop i s) p) [py_pos s a..<Suc (py_pos s b)]"
  have r: "py_rfind p s a b = (if hits = [] then -1 else int (last hits))" by (simp add: py_rfind_def hits_def Let_def)
  show ?thesis
  proof (cases "hits = []")
    case False
    then have "last hits \<in> set hits" by simp
    moreover have "py_pos s a \<le> i \<and> i + length p \<le> py_pos s b" if "i \<in> set hits" for i
      using that unfolding hits_def by auto
    ultimately show ?thesis using that(2)[of "last hits"] r False by simp
  qed (use that(1) r in simp)
qed

lemma concat_line_acc: "concat (line_acc acc s) = rev acc @ s"
  by (induction acc s rule: line_acc.induct) auto

lemma concat_splitlines [simp]: "concat (py_splitlines s) = s"
  by (simp add: py_splitlines_def concat_line_acc)

text \<open>Ordered, disjoint, non-empty spans inside a range, and the positions they cover.\<close>

fun ordered_in :: "int \<Rightarrow> int \<Rightarrow> (int \<times> int) list \<Rightarrow> bool" where
  "ordered_in lo hi [] \<longleftrightarrow> lo \<le> hi"
| "ordered_in lo hi ((a, b) # rs) \<longleftrightarrow> lo \<le> a \<and> a < b \<and> ordered_in b hi rs"

definition covered :: "(int \<times> int) list \<Rightarrow> int \<Rightarrow> bool" where
  "covered rs i \<longleftrightarrow> list_ex (\<lambda>(a, b). a \<le> i \<and> i < b) rs"

lemma covered_simps [simp]:
  "\<not> covered [] i"
  "covered ((a, b) # rs) i \<longleftrightarrow> a \<le> i \<and> i < b \<or> covered rs i"
  "covered (rs @ qs) i \<longleftrightarrow> covered rs i \<or> covered qs i"
  by (auto simp: covered_def)

lemma ordered_in_le: "ordered_in lo hi rs \<Longrightarrow> lo \<le> hi"
  by (induction lo hi rs rule: ordered_in.induct) auto

lemma ordered_in_weaken: "ordered_in lo hi rs \<Longrightarrow> lo' \<le> lo \<Longrightarrow> hi \<le> hi' \<Longrightarrow> ordered_in lo' hi' rs"
  by (induction lo hi rs arbitrary: lo' rule: ordered_in.induct) auto

lemma ordered_in_append: "ordered_in lo mid rs \<Longrightarrow> ordered_in mid hi qs \<Longrightarrow> ordered_in lo hi (rs @ qs)"
  by (induction lo mid rs rule: ordered_in.induct) (auto intro: ordered_in_weaken)

lemma ordered_in_mem: "ordered_in lo hi rs \<Longrightarrow> (a, b) \<in> set rs \<Longrightarrow> lo \<le> a \<and> a < b \<and> b \<le> hi"
proof (induction lo hi rs rule: ordered_in.induct)
  case (2 lo hi c d rs)
  then show ?case using ordered_in_le by fastforce
qed auto

lemma ordered_in_pair:
  "ordered_in lo hi rs \<Longrightarrow> i < j \<Longrightarrow> j < length rs \<Longrightarrow> snd (rs ! i) \<le> fst (rs ! j)"
proof (induction lo hi rs arbitrary: i j rule: ordered_in.induct)
  case (2 lo hi a b rs)
  then obtain k where k: "j = Suc k" by (cases j) auto
  show ?case
  proof (cases i)
    case 0
    have "rs ! k \<in> set rs" using 2 k by simp
    then show ?thesis using ordered_in_mem[of b hi rs "fst (rs ! k)" "snd (rs ! k)"] 2 k 0 by simp
  next
    case (Suc i')
    then show ?thesis using 2 k by simp
  qed
qed auto

lemma ordered_in_shift: "ordered_in (lo + d) (hi + d) (map (\<lambda>(a, b). (a + d, b + d)) rs) \<longleftrightarrow> ordered_in lo hi rs"
  by (induction lo hi rs rule: ordered_in.induct) auto

lemma covered_unique:
  "ordered_in lo hi rs \<Longrightarrow> (a, b) \<in> set rs \<Longrightarrow> (c, d) \<in> set rs \<Longrightarrow> a \<le> i \<Longrightarrow> i < b \<Longrightarrow> c \<le> i \<Longrightarrow> i < d \<Longrightarrow> (a, b) = (c, d)"
proof (induction lo hi rs rule: ordered_in.induct)
  case (2 lo hi e f rs)
  have sep: "f \<le> x \<and> x < y" if "(x, y) \<in> set rs" for x y
    using ordered_in_mem[of f hi rs x y] 2 that by simp
  show ?case using 2 sep[of a b] sep[of c d] by auto
qed auto

end
