(* ===== verification/DocumentPipeline.thy ===== *)
theory DocumentPipeline
  imports PyText
begin

text \<open>
  The offline document pipeline (\<open>src/brainstack/document_pipeline.py\<close>) on its schema
  (\<open>src/brainstack/knowledge_schema.py\<close>): a document is cut into sections at its headings, the
  sections into chunks of bounded length, and every claim given with a snippet is tied to the place
  of the document that has the snippet's words; claims that disagree are reported as conflicts.

  Offsets are integers; a string read out of range raises \<open>IndexError\<close>, which the lemmas show never
  happens. The loop over the pieces of a long chunk is a \<open>partial_function\<close> whose value \<open>None\<close> is the
  loop that never ends, so a function above it returns an option. Texts are ASCII (\<open>PyValue\<close>).
\<close>

section \<open>The schema\<close>

definition OFFLINE_KNOWLEDGE_SCHEMA_VERSION :: int where
  "OFFLINE_KNOWLEDGE_SCHEMA_VERSION = 1"

definition OFFLINE_DOCUMENT_PIPELINE_VERSION :: string where
  "OFFLINE_DOCUMENT_PIPELINE_VERSION = ''offline_document_pilot_v1''"

record offline_source_document =
  doc_id :: string
  doc_title :: string
  doc_kind :: string
  doc_content_hash :: string
  doc_section_count :: nat
  doc_chunk_count :: nat

record offline_section =
  sec_id :: string
  sec_document :: string
  sec_heading :: string
  sec_order :: nat
  sec_start :: int
  sec_end :: int
  sec_text :: string

record offline_chunk =
  chk_id :: string
  chk_document :: string
  chk_section :: string
  chk_order :: nat
  chk_start :: int
  chk_end :: int
  chk_text :: string

record evidence_span =
  ev_id :: string
  ev_document :: string
  ev_chunk :: string
  ev_start :: int
  ev_end :: int
  ev_excerpt :: string

record claim_candidate =
  cand_subject :: string
  cand_predicate :: string
  cand_object :: string
  cand_snippet :: string
  cand_type :: string
  cand_id :: string

record offline_claim =
  clm_id :: string
  clm_document :: string
  clm_type :: string
  clm_subject :: string
  clm_predicate :: string
  clm_object :: string
  clm_evidence :: string
  clm_chunk :: string
  clm_status :: string

record conflict_candidate =
  conf_id :: string
  conf_document :: string
  conf_subject :: string
  conf_predicate :: string
  conf_claims :: "string list"
  conf_reason :: string

record offline_pilot =
  pil_schema :: int
  pil_pipeline :: string
  pil_document :: offline_source_document
  pil_sections :: "offline_section list"
  pil_chunks :: "offline_chunk list"
  pil_evidence :: "evidence_span list"
  pil_claims :: "offline_claim list"
  pil_conflicts :: "conflict_candidate list"
  pil_offline_only :: bool

definition document_to_dict :: "offline_source_document \<Rightarrow> pydict" where
  "document_to_dict d = [(''document_id'', PStr (doc_id d)), (''title'', PStr (doc_title d)),
     (''document_kind'', PStr (doc_kind d)), (''content_hash'', PStr (doc_content_hash d)),
     (''section_count'', PInt (int (doc_section_count d))), (''chunk_count'', PInt (int (doc_chunk_count d)))]"

definition section_to_dict :: "offline_section \<Rightarrow> pydict" where
  "section_to_dict s = [(''section_id'', PStr (sec_id s)), (''document_id'', PStr (sec_document s)),
     (''heading'', PStr (sec_heading s)), (''order'', PInt (int (sec_order s))),
     (''start_offset'', PInt (sec_start s)), (''end_offset'', PInt (sec_end s)), (''text'', PStr (sec_text s))]"

definition chunk_to_dict :: "offline_chunk \<Rightarrow> pydict" where
  "chunk_to_dict c = [(''chunk_id'', PStr (chk_id c)), (''document_id'', PStr (chk_document c)),
     (''section_id'', PStr (chk_section c)), (''order'', PInt (int (chk_order c))),
     (''start_offset'', PInt (chk_start c)), (''end_offset'', PInt (chk_end c)), (''text'', PStr (chk_text c))]"

definition evidence_to_dict :: "evidence_span \<Rightarrow> pydict" where
  "evidence_to_dict e = [(''evidence_id'', PStr (ev_id e)), (''document_id'', PStr (ev_document e)),
     (''chunk_id'', PStr (ev_chunk e)), (''start_offset'', PInt (ev_start e)),
     (''end_offset'', PInt (ev_end e)), (''excerpt'', PStr (ev_excerpt e))]"

definition claim_to_dict :: "offline_claim \<Rightarrow> pydict" where
  "claim_to_dict c = [(''claim_id'', PStr (clm_id c)), (''document_id'', PStr (clm_document c)),
     (''claim_type'', PStr (clm_type c)), (''subject'', PStr (clm_subject c)),
     (''predicate'', PStr (clm_predicate c)), (''object_value'', PStr (clm_object c)),
     (''evidence_id'', PStr (clm_evidence c)), (''chunk_id'', PStr (clm_chunk c)), (''status'', PStr (clm_status c))]"

definition candidate_to_dict :: "claim_candidate \<Rightarrow> pydict" where
  "candidate_to_dict c = [(''subject'', PStr (cand_subject c)), (''predicate'', PStr (cand_predicate c)),
     (''object_value'', PStr (cand_object c)), (''evidence_snippet'', PStr (cand_snippet c)),
     (''claim_type'', PStr (cand_type c)), (''claim_id'', PStr (cand_id c))]"

definition conflict_to_dict :: "conflict_candidate \<Rightarrow> pydict" where
  "conflict_to_dict c = [(''conflict_id'', PStr (conf_id c)), (''document_id'', PStr (conf_document c)),
     (''subject'', PStr (conf_subject c)), (''predicate'', PStr (conf_predicate c)),
     (''claim_ids'', PList (map PStr (conf_claims c))), (''reason'', PStr (conf_reason c))]"

definition pilot_to_dict :: "offline_pilot \<Rightarrow> pydict" where
  "pilot_to_dict p = [(''schema_version'', PInt (pil_schema p)), (''pipeline_version'', PStr (pil_pipeline p)),
     (''offline_only'', PBool (pil_offline_only p)), (''document'', PDict (document_to_dict (pil_document p))),
     (''sections'', PList (map (PDict \<circ> section_to_dict) (pil_sections p))),
     (''chunks'', PList (map (PDict \<circ> chunk_to_dict) (pil_chunks p))),
     (''evidence_spans'', PList (map (PDict \<circ> evidence_to_dict) (pil_evidence p))),
     (''claims'', PList (map (PDict \<circ> claim_to_dict) (pil_claims p))),
     (''conflict_candidates'', PList (map (PDict \<circ> conflict_to_dict) (pil_conflicts p)))]"

section \<open>Text helpers of the pipeline\<close>

definition doc_normalize_text :: "string \<Rightarrow> string" where
  "doc_normalize_text v = py_join '' '' (py_split (py_strip v))"

text \<open>One pass of \<open>output.replace("--", "-")\<close>, and the loop that repeats it.\<close>

fun replace_dashes :: "string \<Rightarrow> string" where
  "replace_dashes (a # b # s) =
     (if a = CHR ''-'' \<and> b = CHR ''-'' then CHR ''-'' # replace_dashes s else a # replace_dashes (b # s))"
| "replace_dashes s = s"

lemma length_replace_dashes: "length (replace_dashes s) \<le> length s"
  by (induction s rule: replace_dashes.induct) auto

lemma replace_dashes_shorter: "py_contains ''--'' s \<Longrightarrow> length (replace_dashes s) < length s"
proof (induction s rule: replace_dashes.induct)
  case (1 a b s)
  then show ?case using length_replace_dashes[of s] by (auto simp: py_startswith_def)
qed (auto simp: py_startswith_def)

function collapse_dashes :: "string \<Rightarrow> string" where
  "collapse_dashes s = (if py_contains ''--'' s then collapse_dashes (replace_dashes s) else s)"
  by auto
termination by (relation "measure length") (use replace_dashes_shorter in auto)

declare collapse_dashes.simps [simp del]

definition slug :: "string \<Rightarrow> string" where
  "slug v =
     (let s = py_strip_char (CHR ''-'') (collapse_dashes (map (\<lambda>c. if is_alnum c then char_lower c else CHR ''-'') v))
      in if s = [] then ''document'' else s)"

definition hash_text :: "string \<Rightarrow> string" where
  "hash_text v = sha256_hex v"

text \<open>\<open>_trim_span\<close>: the two loops read \<open>content[start]\<close> and \<open>content[end - 1]\<close>, which raises out of range.\<close>

function trim_left :: "string \<Rightarrow> int \<Rightarrow> int \<Rightarrow> int result" where
  "trim_left s a b =
     (if a < b then (case py_char s a of Inl e \<Rightarrow> Inl e | Inr c \<Rightarrow> if is_space c then trim_left s (a + 1) b else Inr a)
      else Inr a)"
  by auto
termination by (relation "measure (\<lambda>(s, a, b). nat (b - a))") auto

function trim_right :: "string \<Rightarrow> int \<Rightarrow> int \<Rightarrow> int result" where
  "trim_right s a b =
     (if a < b then (case py_char s (b - 1) of Inl e \<Rightarrow> Inl e | Inr c \<Rightarrow> if is_space c then trim_right s a (b - 1) else Inr b)
      else Inr b)"
  by auto
termination by (relation "measure (\<lambda>(s, a, b). nat (b - a))") auto

declare trim_left.simps [simp del] trim_right.simps [simp del]

definition trim_span :: "string \<Rightarrow> int \<Rightarrow> int \<Rightarrow> (int \<times> int \<times> string) result" where
  "trim_span content start_offset end_offset =
     (let start = max 0 start_offset; stop = max start end_offset
      in case trim_left content start stop of Inl e \<Rightarrow> Inl e
       | Inr a \<Rightarrow> (case trim_right content a stop of Inl e \<Rightarrow> Inl e | Inr b \<Rightarrow> Inr (a, b, py_slice content a b)))"

text \<open>\<open>_normalized_text_with_map\<close>: the characters kept, and the position each one comes from.\<close>

definition map_char :: "nat \<times> char \<Rightarrow> string \<times> nat list \<Rightarrow> string \<times> nat list" where
  "map_char ic acc = (case (ic, acc) of ((i, c), (chars, idx)) \<Rightarrow>
     if is_space c then
       (if chars = [] \<or> last chars = CHR '' '' then (chars, idx) else (chars @ '' '', idx @ [i]))
     else (chars @ [c], idx @ [i]))"

definition normalized_text_with_map :: "string \<Rightarrow> string \<times> nat list" where
  "normalized_text_with_map text =
     (case fold map_char (enumerate 0 text) ([], []) of (chars, idx) \<Rightarrow>
        if chars \<noteq> [] \<and> last chars = CHR '' '' then (butlast chars, butlast idx) else (chars, idx))"

section \<open>Sections\<close>

definition is_heading :: "string \<Rightarrow> bool" where
  "is_heading line \<longleftrightarrow> (let stripped = py_strip line in
     py_startswith stripped ''#'' \<and> py_strip (py_lstrip_char (CHR ''#'') stripped) \<noteq> [])"

definition heading_text :: "string \<Rightarrow> string" where
  "heading_text line = py_strip (py_lstrip_char (CHR ''#'') (py_strip line))"

record section_state =
  ss_sections :: "offline_section list"
  ss_heading :: string
  ss_start :: int
  ss_has_heading :: bool
  ss_offset :: int

definition numbered :: "string \<Rightarrow> string \<Rightarrow> nat \<Rightarrow> string" where
  "numbered document_id kind n = document_id @ '':'' @ kind @ '':'' @ show_nat n"

definition flush_section :: "string \<Rightarrow> string \<Rightarrow> int \<Rightarrow> section_state \<Rightarrow> section_state result" where
  "flush_section document_id content end_offset st =
     (case trim_span content (ss_start st) end_offset of Inl e \<Rightarrow> Inl e
      | Inr (start, stop, text) \<Rightarrow>
          if text = [] then Inr st
          else let n = length (ss_sections st) + 1 in
            Inr (st\<lparr>ss_sections := ss_sections st @
              [\<lparr>sec_id = numbered document_id ''section'' n, sec_document = document_id,
                sec_heading = ss_heading st, sec_order = n, sec_start = start, sec_end = stop, sec_text = text\<rparr>]\<rparr>))"

definition section_line :: "string \<Rightarrow> string \<Rightarrow> string \<Rightarrow> section_state \<Rightarrow> section_state result" where
  "section_line document_id content line st =
     (let n = int (length line)
      in if is_heading line then
           (case (if ss_has_heading st \<or> ss_offset st > ss_start st
                  then flush_section document_id content (ss_offset st) st else Inr st) of
              Inl e \<Rightarrow> Inl e
            | Inr st1 \<Rightarrow> Inr (st1\<lparr>ss_heading := heading_text line, ss_start := ss_offset st1 + n,
                                  ss_has_heading := True, ss_offset := ss_offset st1 + n\<rparr>))
         else Inr (st\<lparr>ss_offset := ss_offset st + n\<rparr>))"

fun section_lines :: "string \<Rightarrow> string \<Rightarrow> string list \<Rightarrow> section_state \<Rightarrow> section_state result" where
  "section_lines document_id content [] st = Inr st"
| "section_lines document_id content (line # rest) st =
     (case section_line document_id content line st of Inl e \<Rightarrow> Inl e
      | Inr st1 \<Rightarrow> section_lines document_id content rest st1)"

definition no_sections :: section_state where
  "no_sections = \<lparr>ss_sections = [], ss_heading = ''Document'', ss_start = 0, ss_has_heading = False, ss_offset = 0\<rparr>"

definition whole_document :: "string \<Rightarrow> string \<Rightarrow> offline_section list result" where
  "whole_document document_id content =
     (case trim_span content 0 (int (length content)) of Inl e \<Rightarrow> Inl e
      | Inr (start, stop, text) \<Rightarrow>
          if text = [] then Inr []
          else Inr [\<lparr>sec_id = numbered document_id ''section'' 1, sec_document = document_id,
                     sec_heading = ''Document'', sec_order = 1, sec_start = start, sec_end = stop, sec_text = text\<rparr>])"

definition split_sections :: "string \<Rightarrow> string \<Rightarrow> offline_section list result" where
  "split_sections document_id content =
     (case section_lines document_id content (py_splitlines content) no_sections of Inl e \<Rightarrow> Inl e
      | Inr st \<Rightarrow> (case flush_section document_id content (int (length content)) st of Inl e \<Rightarrow> Inl e
        | Inr st1 \<Rightarrow> if ss_sections st1 \<noteq> [] then Inr (ss_sections st1) else whole_document document_id content))"

section \<open>Chunks\<close>

function skip_space :: "string \<Rightarrow> nat \<Rightarrow> nat" where
  "skip_space text start = (if start < length text \<and> is_space (text ! start) then skip_space text (Suc start) else start)"
  by auto
termination by (relation "measure (\<lambda>(text, start). length text - start)") auto

declare skip_space.simps [simp del]

lemma skip_space_ge: "start \<le> skip_space doc start"
proof (induction doc start rule: skip_space.induct)
  case (1 doc start)
  then show ?case by (subst skip_space.simps) auto
qed

function paragraph_ranges :: "string \<Rightarrow> nat \<Rightarrow> (int \<times> int) list" where
  "paragraph_ranges text start =
     (if start < length text then
        (let first = skip_space text start
         in if first \<ge> length text then []
            else let stop = (case py_find_from [CHR 0x0A, CHR 0x0A] text first of None \<Rightarrow> length text | Some i \<Rightarrow> i)
                 in (int first, int stop) # paragraph_ranges text (stop + 2))
      else [])"
  by auto
termination
proof (relation "measure (\<lambda>(text, start). length text - start)")
  fix doc :: string and start first stop
  assume a: "start < length doc" and f: "first = skip_space doc start"
    and s: "stop = (case py_find_from [CHR 0x0A, CHR 0x0A] doc first of None \<Rightarrow> length doc | Some i \<Rightarrow> i)"
    and l: "\<not> length doc \<le> first"
  have "first \<le> stop" using s l by (auto split: option.splits dest: py_find_from_ge)
  then show "((doc, stop + 2), doc, start) \<in> measure (\<lambda>(text, start). length text - start)"
    using a f skip_space_ge[of start doc] by auto
qed auto

declare paragraph_ranges.simps [simp del]

fun group_paragraphs :: "int \<Rightarrow> int \<Rightarrow> int \<Rightarrow> (int \<times> int) list \<Rightarrow> (int \<times> int) list" where
  "group_paragraphs max_chars current_start current_end [] = [(current_start, current_end)]"
| "group_paragraphs max_chars current_start current_end ((para_start, para_end) # rest) =
     (if para_end - current_start \<le> max_chars then group_paragraphs max_chars current_start para_end rest
      else (current_start, current_end) # group_paragraphs max_chars para_start para_end rest)"

text \<open>The end of the next piece of a chunk that is too long: after the last full stop when it lies far enough.\<close>

definition split_end :: "string \<Rightarrow> int \<Rightarrow> int \<Rightarrow> int \<Rightarrow> int" where
  "split_end text max_chars chunk_end split_start =
     (let stop = min chunk_end (split_start + max_chars)
      in if stop < chunk_end then
           (let sentence_break = py_rfind ''. '' text split_start stop
            in if sentence_break > split_start + 80 then sentence_break + 1 else stop)
         else stop)"

text \<open>The loop over the pieces; \<open>None\<close> is the loop that never ends.\<close>

partial_function (option) split_long :: "string \<Rightarrow> int \<Rightarrow> int \<Rightarrow> int \<Rightarrow> (int \<times> int) list option" where
  "split_long text max_chars chunk_end split_start =
     (if split_start < chunk_end then
        (let stop = split_end text max_chars chunk_end split_start
         in Option.bind (split_long text max_chars chunk_end stop) (\<lambda>rest. Some ((split_start, stop) # rest)))
      else Some [])"

declare split_long.simps [code]

fun split_long_chunks :: "string \<Rightarrow> int \<Rightarrow> (int \<times> int) list \<Rightarrow> (int \<times> int) list option" where
  "split_long_chunks text max_chars [] = Some []"
| "split_long_chunks text max_chars ((chunk_start, chunk_end) # rest) =
     Option.bind (if chunk_end - chunk_start \<le> max_chars then Some [(chunk_start, chunk_end)]
                  else split_long text max_chars chunk_end chunk_start)
       (\<lambda>pieces. map_option ((@) pieces) (split_long_chunks text max_chars rest))"

definition split_chunk_ranges :: "string \<Rightarrow> int \<Rightarrow> (int \<times> int) list option" where
  "split_chunk_ranges text max_chars =
     (case paragraph_ranges text 0 of [] \<Rightarrow> Some []
      | (first_start, first_end) # rest \<Rightarrow>
          split_long_chunks text max_chars (group_paragraphs max_chars first_start first_end rest))"

fun section_chunks :: "string \<Rightarrow> offline_section \<Rightarrow> (int \<times> int) list \<Rightarrow> offline_chunk list \<Rightarrow> offline_chunk list result" where
  "section_chunks document_id sect [] chunks = Inr chunks"
| "section_chunks document_id sect ((start, stop) # rest) chunks =
     (case trim_span (sec_text sect) start stop of Inl e \<Rightarrow> Inl e
      | Inr (local_start, local_end, text) \<Rightarrow>
          if text = [] then section_chunks document_id sect rest chunks
          else let n = length chunks + 1 in section_chunks document_id sect rest (chunks @
            [\<lparr>chk_id = numbered document_id ''chunk'' n, chk_document = document_id, chk_section = sec_id sect,
              chk_order = n, chk_start = sec_start sect + local_start, chk_end = sec_start sect + local_end,
              chk_text = text\<rparr>]))"

text \<open>The chunks, a raised exception, or no return at all (\<open>None\<close>).\<close>

fun build_chunks :: "string \<Rightarrow> int \<Rightarrow> offline_section list \<Rightarrow> offline_chunk list \<Rightarrow> offline_chunk list result option" where
  "build_chunks document_id max_chunk_chars [] chunks = Some (Inr chunks)"
| "build_chunks document_id max_chunk_chars (sect # rest) chunks =
     (case split_chunk_ranges (sec_text sect) max_chunk_chars of None \<Rightarrow> None
      | Some ranges \<Rightarrow> (case section_chunks document_id sect ranges chunks of Inl e \<Rightarrow> Some (Inl e)
        | Inr chunks1 \<Rightarrow> build_chunks document_id max_chunk_chars rest chunks1))"

section \<open>Claims and their evidence\<close>

definition locate_evidence_span :: "string \<Rightarrow> string \<Rightarrow> (int \<times> int) result" where
  "locate_evidence_span content snippet =
     (if py_strip snippet = [] then Inl ValueError
      else case py_find snippet content of
        Some i \<Rightarrow> Inr (int i, int i + int (length snippet))
      | None \<Rightarrow>
          (let (normalized_content, content_map) = normalized_text_with_map content;
               normalized_snippet = fst (normalized_text_with_map snippet)
           in case py_find normalized_snippet normalized_content of None \<Rightarrow> Inl ValueError
              | Some i \<Rightarrow> (let stop = i + length normalized_snippet
                           in Inr (int (content_map ! i), int (content_map ! (stop - 1)) + 1))))"

definition find_chunk_for_span :: "offline_chunk list \<Rightarrow> int \<Rightarrow> int \<Rightarrow> offline_chunk result" where
  "find_chunk_for_span chunks start_offset end_offset =
     (case find (\<lambda>c. chk_start c \<le> start_offset \<and> end_offset \<le> chk_end c) chunks of
        None \<Rightarrow> Inl ValueError | Some c \<Rightarrow> Inr c)"

text \<open>A claim is given as a \<open>ClaimCandidate\<close> or as a dictionary.\<close>

datatype claim_input = Candidate claim_candidate | RawClaim pydict

definition candidate_of :: "claim_input \<Rightarrow> claim_candidate" where
  "candidate_of raw = (case raw of Candidate c \<Rightarrow> c
     | RawClaim d \<Rightarrow>
         (let kind = strip_text (py_or (dget d ''claim_type'') (PStr ''relation''))
          in \<lparr>cand_subject = strip_text (dget d ''subject''), cand_predicate = strip_text (dget d ''predicate''),
              cand_object = strip_text (dget d ''object_value''), cand_snippet = strip_text (dget d ''evidence_snippet''),
              cand_type = (if kind = [] then ''relation'' else kind), cand_id = strip_text (dget d ''claim_id'')\<rparr>))"

definition normalize_claim :: "claim_input \<Rightarrow> claim_candidate result" where
  "normalize_claim raw =
     (let c = candidate_of raw
      in if cand_subject c = [] \<or> cand_predicate c = [] \<or> cand_object c = [] then Inl ValueError
         else if cand_snippet c = [] then Inl ValueError
         else Inr c)"

definition normalize_claim_candidates :: "claim_input list \<Rightarrow> claim_candidate list result" where
  "normalize_claim_candidates raws = map_result normalize_claim raws"

definition cite_claim ::
    "string \<Rightarrow> string \<Rightarrow> offline_chunk list \<Rightarrow> nat \<Rightarrow> claim_candidate \<Rightarrow> (evidence_span \<times> offline_claim) result" where
  "cite_claim document_id content chunks i c =
     (case locate_evidence_span content (cand_snippet c) of Inl e \<Rightarrow> Inl e
      | Inr (a, b) \<Rightarrow> (case find_chunk_for_span chunks a b of Inl e \<Rightarrow> Inl e
        | Inr chunk \<Rightarrow>
            (let evidence_id = numbered document_id ''evidence'' i
             in Inr (\<lparr>ev_id = evidence_id, ev_document = document_id, ev_chunk = chk_id chunk,
                      ev_start = a, ev_end = b, ev_excerpt = py_slice content a b\<rparr>,
                     \<lparr>clm_id = (if cand_id c \<noteq> [] then cand_id c else numbered document_id ''claim'' i),
                      clm_document = document_id, clm_type = cand_type c, clm_subject = cand_subject c,
                      clm_predicate = cand_predicate c, clm_object = cand_object c, clm_evidence = evidence_id,
                      clm_chunk = chk_id chunk, clm_status = ''supported''\<rparr>))))"

definition cite_claims ::
    "string \<Rightarrow> string \<Rightarrow> offline_chunk list \<Rightarrow> claim_candidate list \<Rightarrow> (evidence_span \<times> offline_claim) list result" where
  "cite_claims document_id content chunks cs =
     map_result (\<lambda>(i, c). cite_claim document_id content chunks i c) (enumerate 1 cs)"

section \<open>Conflicts\<close>

type_synonym claim_groups = "((string \<times> string) \<times> offline_claim list) list"

text \<open>\<open>grouped.setdefault(key, []).append(claim)\<close>\<close>

definition group_claim :: "offline_claim \<Rightarrow> claim_groups \<Rightarrow> claim_groups" where
  "group_claim c g = (let k = (clm_subject c, clm_predicate c)
     in AList.update k (case map_of g k of None \<Rightarrow> [c] | Some cs \<Rightarrow> cs @ [c]) g)"

definition group_claims :: "offline_claim list \<Rightarrow> claim_groups" where
  "group_claims cs = fold group_claim cs []"

definition CONFLICT_REASON :: string where
  "CONFLICT_REASON = ''Multiple evidence-backed claims disagree on object_value for the same subject/predicate pair.''"

definition add_conflict :: "string \<Rightarrow> (string \<times> string) \<times> offline_claim list \<Rightarrow> conflict_candidate list \<Rightarrow> conflict_candidate list" where
  "add_conflict document_id grp out =
     (case grp of ((subject, predicate), cs) \<Rightarrow>
        if length (remdups (map clm_object cs)) \<le> 1 then out
        else out @ [\<lparr>conf_id = numbered document_id ''conflict'' (length out + 1), conf_document = document_id,
                     conf_subject = subject, conf_predicate = predicate, conf_claims = map clm_id cs,
                     conf_reason = CONFLICT_REASON\<rparr>])"

definition conflict_candidates :: "string \<Rightarrow> offline_claim list \<Rightarrow> conflict_candidate list" where
  "conflict_candidates document_id cs = fold (add_conflict document_id) (group_claims cs) []"

section \<open>The pilot\<close>

definition normalized_title :: "string \<Rightarrow> string" where
  "normalized_title title = (let t = doc_normalize_text title in if t = [] then ''Untitled document'' else t)"

definition document_key :: "string \<Rightarrow> string \<Rightarrow> string" where
  "document_key title content =
     ''doc:'' @ slug title @ '':'' @ take 12 (hash_text (title @ [CHR 0x0A] @ content))"

definition build_offline_document_pilot ::
    "string \<Rightarrow> string \<Rightarrow> claim_input list \<Rightarrow> string \<Rightarrow> int \<Rightarrow> offline_pilot result option" where
  "build_offline_document_pilot title content claims document_kind max_chunk_chars =
     (if py_strip content = [] then Some (Inl ValueError)
      else let t = normalized_title title; document_id = document_key t content
      in case split_sections document_id content of Inl e \<Rightarrow> Some (Inl e)
      | Inr sections \<Rightarrow> if sections = [] then Some (Inl ValueError)
        else (case build_chunks document_id max_chunk_chars sections [] of
          None \<Rightarrow> None
        | Some (Inl e) \<Rightarrow> Some (Inl e)
        | Some (Inr chunks) \<Rightarrow> if chunks = [] then Some (Inl ValueError)
          else Some (case normalize_claim_candidates claims of Inl e \<Rightarrow> Inl e
          | Inr cs \<Rightarrow> (case cite_claims document_id content chunks cs of Inl e \<Rightarrow> Inl e
            | Inr cited \<Rightarrow>
                Inr \<lparr>pil_schema = OFFLINE_KNOWLEDGE_SCHEMA_VERSION, pil_pipeline = OFFLINE_DOCUMENT_PIPELINE_VERSION,
                     pil_document = \<lparr>doc_id = document_id, doc_title = t,
                       doc_kind = (if document_kind = [] then ''text/markdown'' else document_kind),
                       doc_content_hash = hash_text content, doc_section_count = length sections,
                       doc_chunk_count = length chunks\<rparr>,
                     pil_sections = sections, pil_chunks = chunks, pil_evidence = map fst cited,
                     pil_claims = map snd cited,
                     pil_conflicts = conflict_candidates document_id (map snd cited), pil_offline_only = True\<rparr>))))"

end
