(* ===== verification/DocumentRanges.thy ===== *)
theory DocumentRanges
  imports DocumentPipeline
begin

text \<open>
  Lemmas on the spans of the document pipeline: trimming keeps every character that is no space, the
  ranges of the chunks are ordered, bounded and lose nothing, and the loops over lines, sections and
  chunks keep these facts (\<open>sections_ok\<close>, \<open>chunks_ok\<close>). With the bound 0 the chunk loop does not end.
\<close>

section \<open>Trimming\<close>

lemma trim_left_ok:
  "0 \<le> a \<Longrightarrow> a \<le> b \<Longrightarrow> b \<le> int (length s) \<Longrightarrow>
     \<exists>a'. trim_left s a b = Inr a' \<and> a \<le> a' \<and> a' \<le> b \<and> (\<forall>i. a \<le> i \<and> i < a' \<longrightarrow> is_space (s ! nat i)) \<and>
          (a' < b \<longrightarrow> \<not> is_space (s ! nat a'))"
proof (induction s a b rule: trim_left.induct)
  case (1 s a b)
  show ?case
  proof (cases "a < b \<and> is_space (s ! nat a)")
    case True
    then have c: "py_char s a = Inr (s ! nat a)" using 1 by (intro py_char_ok) auto
    then obtain a' where a': "trim_left s (a + 1) b = Inr a'" "a + 1 \<le> a'" "a' \<le> b"
      "\<forall>i. a + 1 \<le> i \<and> i < a' \<longrightarrow> is_space (s ! nat i)" "a' < b \<longrightarrow> \<not> is_space (s ! nat a')"
      using 1 True by (metis add_increasing2 zless_imp_add1_zle zero_le_one)
    have "is_space (s ! nat i)" if "a \<le> i" "i < a'" for i
      using a'(4) True that by (cases "i = a") auto
    then show ?thesis using a' c True by (subst trim_left.simps) auto
  next
    case False
    then have "trim_left s a b = Inr a" using 1 by (subst trim_left.simps) (auto simp: py_char_ok)
    then show ?thesis using 1 False by auto
  qed
qed

lemma trim_right_ok:
  "0 \<le> a \<Longrightarrow> a \<le> b \<Longrightarrow> b \<le> int (length s) \<Longrightarrow>
     \<exists>b'. trim_right s a b = Inr b' \<and> a \<le> b' \<and> b' \<le> b \<and> (\<forall>i. b' \<le> i \<and> i < b \<longrightarrow> is_space (s ! nat i)) \<and>
          (a < b' \<longrightarrow> \<not> is_space (s ! nat (b' - 1)))"
proof (induction s a b rule: trim_right.induct)
  case (1 s a b)
  show ?case
  proof (cases "a < b \<and> is_space (s ! nat (b - 1))")
    case True
    then have c: "py_char s (b - 1) = Inr (s ! nat (b - 1))" using 1 by (intro py_char_ok) auto
    have "\<exists>b'. trim_right s a (b - 1) = Inr b' \<and> a \<le> b' \<and> b' \<le> b - 1 \<and>
        (\<forall>i. b' \<le> i \<and> i < b - 1 \<longrightarrow> is_space (s ! nat i)) \<and> (a < b' \<longrightarrow> \<not> is_space (s ! nat (b' - 1)))"
      using 1 True c by auto
    then obtain b' where b': "trim_right s a (b - 1) = Inr b'" "a \<le> b'" "b' \<le> b - 1"
      "\<forall>i. b' \<le> i \<and> i < b - 1 \<longrightarrow> is_space (s ! nat i)" "a < b' \<longrightarrow> \<not> is_space (s ! nat (b' - 1))"
      by blast
    have "is_space (s ! nat i)" if "b' \<le> i" "i < b" for i
      using b'(4) True that by (cases "i = b - 1") auto
    then show ?thesis using b' c True by (subst trim_right.simps) auto
  next
    case False
    then have "trim_right s a b = Inr b" using 1 by (subst trim_right.simps) (auto simp: py_char_ok)
    then show ?thesis using 1 False by auto
  qed
qed

text \<open>A span is trimmed when it is empty or begins and ends with a character that is no space.\<close>

definition trimmed_span :: "string \<Rightarrow> int \<Rightarrow> int \<Rightarrow> bool" where
  "trimmed_span s a b \<longleftrightarrow> a < b \<and> \<not> is_space (s ! nat a) \<and> \<not> is_space (s ! nat (b - 1))"

lemma trim_span_ok:
  assumes "0 \<le> a" "a \<le> b" "b \<le> int (length s)"
  obtains a' b' where "trim_span s a b = Inr (a', b', py_slice s a' b')" "a \<le> a'" "a' \<le> b'" "b' \<le> b"
    "a' < b' \<Longrightarrow> trimmed_span s a' b'"
    "\<And>i. a \<le> i \<Longrightarrow> i < b \<Longrightarrow> \<not> is_space (s ! nat i) \<Longrightarrow> a' \<le> i \<and> i < b'"
    "py_slice s a' b' = [] \<longleftrightarrow> a' = b'"
proof -
  obtain a' where a': "trim_left s a b = Inr a'" "a \<le> a'" "a' \<le> b"
    "\<forall>i. a \<le> i \<and> i < a' \<longrightarrow> is_space (s ! nat i)" "a' < b \<longrightarrow> \<not> is_space (s ! nat a')"
    using trim_left_ok assms by blast
  obtain b' where b': "trim_right s a' b = Inr b'" "a' \<le> b'" "b' \<le> b"
    "\<forall>i. b' \<le> i \<and> i < b \<longrightarrow> is_space (s ! nat i)" "a' < b' \<longrightarrow> \<not> is_space (s ! nat (b' - 1))"
    using trim_right_ok[of a' b s] assms a' by auto
  have t: "trim_span s a b = Inr (a', b', py_slice s a' b')"
    using assms a'(1) b'(1) by (simp add: trim_span_def max_def)
  have "a' \<le> i \<and> i < b'" if "a \<le> i" "i < b" "\<not> is_space (s ! nat i)" for i
    using that a'(4) b'(4) by (meson not_le)
  moreover have "trimmed_span s a' b'" if "a' < b'" using that a' b' by (auto simp: trimmed_span_def)
  moreover have "py_slice s a' b' = [] \<longleftrightarrow> a' = b'" using a' b' assms by (intro py_slice_Nil_iff) auto
  ultimately show thesis using that[OF t] a' b' by auto
qed

section \<open>The ranges of the chunks\<close>

lemma skip_space_ok:
  "start \<le> length s \<Longrightarrow> skip_space s start \<le> length s \<and> (\<forall>i. start \<le> i \<and> i < skip_space s start \<longrightarrow> is_space (s ! i)) \<and>
     (skip_space s start < length s \<longrightarrow> \<not> is_space (s ! skip_space s start))"
proof (induction s start rule: skip_space.induct)
  case (1 s start)
  show ?case
  proof (cases "start < length s \<and> is_space (s ! start)")
    case True
    then have e: "skip_space s start = skip_space s (Suc start)" by (subst skip_space.simps) simp
    have "is_space (s ! i)" if "start \<le> i" "i < skip_space s (Suc start)" for i
      using 1 True that by (cases "i = start") auto
    then show ?thesis using 1 True e by simp
  next
    case False
    then have "skip_space s start = start" by (subst skip_space.simps) auto
    then show ?thesis using 1 False by auto
  qed
qed

lemma paragraph_ranges_ok:
  assumes "lo \<le> int start" "lo \<le> int (length s)"
  shows "ordered_in lo (int (length s)) (paragraph_ranges s start) \<and>
    (\<forall>i. start \<le> i \<and> i < length s \<and> \<not> is_space (s ! i) \<longrightarrow> covered (paragraph_ranges s start) (int i))"
  using assms
proof (induction s start arbitrary: lo rule: paragraph_ranges.induct)
  case (1 s start)
  define first where "first = skip_space s start"
  define nl where "nl = [CHR 0x0A, CHR 0x0A]"
  define stop where "stop = (case py_find_from nl s first of None \<Rightarrow> length s | Some i \<Rightarrow> i)"
  have eq: "paragraph_ranges s start = (if start < length s then if first \<ge> length s then []
      else (int first, int stop) # paragraph_ranges s (stop + 2) else [])"
    by (subst paragraph_ranges.simps) (simp add: first_def stop_def nl_def Let_def)
  show ?case
  proof (cases "start < length s")
    case True
    note sk = skip_space_ok[of start s, folded first_def]
    have ge: "start \<le> first" by (simp add: first_def skip_space_ge)
    show ?thesis
    proof (cases "first < length s")
      case False
      then have "is_space (s ! i)" if "start \<le> i" "i < length s" for i using sk True that by auto
      then show ?thesis using False True eq 1 by auto
    next
      case f: True
      have nsp: "\<not> is_space (s ! first)" using sk f True by auto
      have hit: "stop < length s \<Longrightarrow> stop + 2 \<le> length s \<and> is_space (s ! stop) \<and> is_space (s ! Suc stop)"
      proof -
        assume l: "stop < length s"
        then have "py_find_from nl s first = Some stop" by (auto simp: stop_def split: option.splits)
        then have h: "stop + length nl \<le> length s" "take (length nl) (drop stop s) = nl"
          using py_find_from_Some[of nl s first stop] f by auto
        then have "drop stop s ! 0 = CHR 0x0A" "drop stop s ! 1 = CHR 0x0A"
          by (metis length_Cons nl_def nth_Cons_0 nth_take zero_less_Suc,
              metis One_nat_def length_Cons lessI list.size(3) nl_def nth_Cons_0 nth_Cons_Suc nth_take)
        then show ?thesis using h l by (simp add: nl_def is_space_def)
      qed
      have "first \<le> stop" "stop \<le> length s"
        using f py_find_from_Some[of nl s first] by (auto simp: stop_def split: option.splits)
      then have lt: "first < stop" using hit nsp f by (cases "first = stop") auto
      have ih: "ordered_in (int stop) (int (length s)) (paragraph_ranges s (stop + 2))"
        "\<And>i. stop + 2 \<le> i \<Longrightarrow> i < length s \<Longrightarrow> \<not> is_space (s ! i) \<Longrightarrow> covered (paragraph_ranges s (stop + 2)) (int i)"
        using 1(1)[OF True first_def _ stop_def[unfolded nl_def], of "int stop"] f \<open>stop \<le> length s\<close> by auto
      have "covered (paragraph_ranges s start) (int i)" if "start \<le> i" "i < length s" "\<not> is_space (s ! i)" for i
      proof -
        have "first \<le> i" using sk that True by (meson less_imp_le not_le)
        moreover have "i < stop \<or> stop + 2 \<le> i"
        proof (rule ccontr)
          assume "\<not> ?thesis"
          then have "i = stop \<or> i = Suc stop" "stop < length s" using that by auto
          then show False using hit that by auto
        qed
        ultimately show ?thesis using ih(2) that eq True f by auto
      qed
      then show ?thesis using eq True f ih(1) lt 1 ge by auto
    qed
  qed (use eq 1 in auto)
qed

lemma group_paragraphs_ok:
  "ordered_in lo hi ((a, b) # rs) \<Longrightarrow>
     ordered_in lo hi (group_paragraphs m a b rs) \<and> (\<forall>i. covered ((a, b) # rs) i \<longrightarrow> covered (group_paragraphs m a b rs) i)"
proof (induction m a b rs arbitrary: lo rule: group_paragraphs.induct)
  case (2 m a b c d rs)
  show ?case
  proof (cases "d - a \<le> m")
    case True
    have "ordered_in lo hi ((a, d) # rs)" using 2 by auto
    then show ?thesis using 2 True by auto
  next
    case False
    have "ordered_in b hi ((c, d) # rs)" using 2 by auto
    then show ?thesis using 2 False by auto
  qed
qed auto

definition at_most :: "int \<Rightarrow> (int \<times> int) list \<Rightarrow> bool" where
  "at_most m rs \<longleftrightarrow> list_all (\<lambda>(a, b). b - a \<le> m) rs"

lemma split_end_ok:
  assumes "0 < m" "0 \<le> a" "a < hi" "hi \<le> int (length s)"
  shows "a < split_end s m hi a \<and> split_end s m hi a \<le> hi \<and> split_end s m hi a - a \<le> m"
proof -
  define stop where "stop = min hi (a + m)"
  have st: "a < stop" "stop \<le> hi" "stop - a \<le> m" using assms by (auto simp: stop_def)
  then have p: "py_pos s stop = nat stop" using assms by (intro py_pos_ok) auto
  show ?thesis
  proof (cases rule: py_rfind_cases[of "''. ''" s a stop])
    case 1
    then show ?thesis using st assms by (simp add: split_end_def Let_def flip: stop_def)
  next
    case (2 i)
    then have "int i + 2 \<le> stop" using p st assms by auto
    then show ?thesis using st 2(1) assms by (auto simp: split_end_def Let_def simp flip: stop_def)
  qed
qed

text \<open>The pieces tile the chunk.\<close>

lemma split_long_ok:
  assumes "0 < m" "hi \<le> int (length s)"
  shows "0 \<le> a \<Longrightarrow> a \<le> hi \<Longrightarrow> \<exists>rs. split_long s m hi a = Some rs \<and> ordered_in a hi rs \<and> at_most m rs \<and>
    (\<forall>i. a \<le> i \<and> i < hi \<longrightarrow> covered rs i)"
proof (induction "nat (hi - a)" arbitrary: a rule: less_induct)
  case less
  show ?case
  proof (cases "a < hi")
    case True
    define b where "b = split_end s m hi a"
    have b: "a < b" "b \<le> hi" "b - a \<le> m" using split_end_ok[of m a hi s] assms less True by (auto simp: b_def)
    then obtain rs where rs: "split_long s m hi b = Some rs" "ordered_in b hi rs" "at_most m rs"
      "\<forall>i. b \<le> i \<and> i < hi \<longrightarrow> covered rs i"
      using less(1)[of b] less.prems True by auto
    have "split_long s m hi a = Some ((a, b) # rs)"
      using True rs(1) by (subst split_long.simps) (simp add: Let_def flip: b_def)
    moreover have "covered ((a, b) # rs) i" if "a \<le> i" "i < hi" for i
      using that rs(4) by (cases "i < b") auto
    ultimately show ?thesis using b rs by (simp add: at_most_def)
  next
    case False
    then have "split_long s m hi a = Some []" by (subst split_long.simps) simp
    then show ?thesis using False less by (auto simp: at_most_def)
  qed
qed

lemma split_long_chunks_ok:
  assumes "0 < m" "hi \<le> int (length s)"
  shows "ordered_in lo hi rs \<Longrightarrow> 0 \<le> lo \<Longrightarrow> \<exists>out. split_long_chunks s m rs = Some out \<and> ordered_in lo hi out \<and> at_most m out \<and>
    (\<forall>i. covered rs i \<longrightarrow> covered out i)"
proof (induction rs arbitrary: lo)
  case (Cons r rs)
  obtain a b where r: "r = (a, b)" by force
  note 2 = Cons[unfolded r]
  have ab: "lo \<le> a" "a < b" "ordered_in b hi rs" using 2 by auto
  then have bh: "b \<le> hi" using ordered_in_le by blast
  obtain ps where ps: "(if b - a \<le> m then Some [(a, b)] else split_long s m b a) = Some ps" "ordered_in a b ps" "at_most m ps"
    "\<forall>i. a \<le> i \<and> i < b \<longrightarrow> covered ps i"
  proof (cases "b - a \<le> m")
    case True
    then show ?thesis using that[of "[(a, b)]"] ab by (simp add: at_most_def)
  next
    case False
    have "b \<le> int (length s)" "0 \<le> a" "a \<le> b" using 2 assms ab bh by auto
    then obtain ps where "split_long s m b a = Some ps" "ordered_in a b ps" "at_most m ps"
      "\<forall>i. a \<le> i \<and> i < b \<longrightarrow> covered ps i"
      using split_long_ok[of m b s a] assms by blast
    then show ?thesis using that[of ps] False by simp
  qed
  have "0 \<le> b" using 2 ab by simp
  then obtain out where out: "split_long_chunks s m rs = Some out" "ordered_in b hi out" "at_most m out"
    "\<forall>i. covered rs i \<longrightarrow> covered out i"
    using Cons.IH[OF ab(3)] by blast
  have "ordered_in lo hi (ps @ out)" using ps(2) out(2) ab(1) by (meson ordered_in_append ordered_in_weaken order_refl)
  then show ?case using ps out by (auto simp: at_most_def r)
qed (use ordered_in_le in \<open>auto simp: at_most_def\<close>)

lemma split_chunk_ranges_ok:
  assumes "0 < m"
  obtains rs where "split_chunk_ranges s m = Some rs" "ordered_in 0 (int (length s)) rs" "at_most m rs"
    "\<And>i. i < length s \<Longrightarrow> \<not> is_space (s ! i) \<Longrightarrow> covered rs (int i)"
proof (cases "paragraph_ranges s 0")
  case Nil
  then show thesis using that[of "[]"] paragraph_ranges_ok[of 0 0 s] by (auto simp: split_chunk_ranges_def at_most_def)
next
  case (Cons r rest)
  obtain a b where r: "r = (a, b)" by force
  have p: "ordered_in 0 (int (length s)) ((a, b) # rest)"
    "\<And>i. i < length s \<Longrightarrow> \<not> is_space (s ! i) \<Longrightarrow> covered ((a, b) # rest) (int i)"
    using paragraph_ranges_ok[of 0 0 s] Cons r by auto
  note g = group_paragraphs_ok[OF p(1), of m]
  obtain out where "split_long_chunks s m (group_paragraphs m a b rest) = Some out" "ordered_in 0 (int (length s)) out"
    "at_most m out" "\<forall>i. covered (group_paragraphs m a b rest) i \<longrightarrow> covered out i"
    using split_long_chunks_ok[of m "int (length s)" s 0 "group_paragraphs m a b rest"] g assms by auto
  then show thesis using that[of out] g p(2) Cons r by (auto simp: split_chunk_ranges_def)
qed

text \<open>With the bound 0 the loop over the pieces of a chunk does not advance.\<close>

lemma split_end_zero: "a < hi \<Longrightarrow> 0 \<le> a \<Longrightarrow> hi \<le> int (length s) \<Longrightarrow> split_end s 0 hi a = a"
proof -
  assume a: "a < hi" "0 \<le> a" "hi \<le> int (length s)"
  then have "py_pos s a = nat a" by (intro py_pos_ok) auto
  then show ?thesis using a
    by (cases rule: py_rfind_cases[of "''. ''" s a a]) (auto simp: split_end_def Let_def min_def)
qed

lemma split_long_zero:
  assumes "a < hi" "0 \<le> a" "hi \<le> int (length s)"
  shows "split_long s 0 hi a = None"
proof (cases "split_long s 0 hi a")
  case (Some rs)
  have "split_long s 0 hi a = Option.bind (split_long s 0 hi a) (\<lambda>rest. Some ((a, a) # rest))"
    by (subst split_long.simps) (simp add: assms split_end_zero)
  then show ?thesis using Some by simp
qed

lemma split_chunk_ranges_zero:
  assumes "py_strip s \<noteq> []"
  shows "split_chunk_ranges s 0 = None"
proof -
  have "\<exists>c \<in> set s. \<not> is_space c" using assms by (auto simp: py_strip_def dest: set_dropWhileD)
  then obtain i where i: "i < length s" "\<not> is_space (s ! i)" by (auto simp: in_set_conv_nth)
  note p = paragraph_ranges_ok[of 0 0 s]
  then obtain a b rest where pr: "paragraph_ranges s 0 = (a, b) # rest" using i by (cases "paragraph_ranges s 0") auto
  then have o: "ordered_in 0 (int (length s)) (group_paragraphs 0 a b rest)"
    using p group_paragraphs_ok[of 0 "int (length s)" a b rest 0] by simp
  moreover have "group_paragraphs m a b qs \<noteq> []" for m a b qs by (induction m a b qs rule: group_paragraphs.induct) auto
  then have "group_paragraphs 0 a b rest \<noteq> []" .
  ultimately obtain c d qs where g: "group_paragraphs 0 a b rest = (c, d) # qs" "0 \<le> c" "c < d" "d \<le> int (length s)"
    using ordered_in_mem[OF o] by (cases "group_paragraphs 0 a b rest") auto
  then have "split_long s 0 d c = None" by (intro split_long_zero) auto
  then show ?thesis using pr g by (simp add: split_chunk_ranges_def)
qed

section \<open>The sections\<close>

text \<open>Whether a position lies in a heading line.\<close>

fun heading_at :: "string list \<Rightarrow> int \<Rightarrow> bool" where
  "heading_at [] i \<longleftrightarrow> False"
| "heading_at (line # rest) i \<longleftrightarrow>
     (if i < int (length line) then is_heading line else heading_at rest (i - int (length line)))"

definition in_heading :: "string \<Rightarrow> int \<Rightarrow> bool" where
  "in_heading content i \<longleftrightarrow> heading_at (py_splitlines content) i"

definition section_range :: "offline_section \<Rightarrow> int \<times> int" where
  "section_range s = (sec_start s, sec_end s)"

definition section_ok :: "string \<Rightarrow> string \<Rightarrow> nat \<Rightarrow> offline_section \<Rightarrow> bool" where
  "section_ok document_id content k s \<longleftrightarrow> sec_id s = numbered document_id ''section'' k \<and> sec_document s = document_id \<and>
     sec_order s = k \<and> trimmed_span content (sec_start s) (sec_end s) \<and>
     sec_text s = py_slice content (sec_start s) (sec_end s)"

definition sections_ok :: "string \<Rightarrow> string \<Rightarrow> int \<Rightarrow> offline_section list \<Rightarrow> bool" where
  "sections_ok document_id content hi ss \<longleftrightarrow> ordered_in 0 hi (map section_range ss) \<and>
     list_all (\<lambda>(k, s). section_ok document_id content k s) (enumerate 1 ss)"

text \<open>What \<open>flush\<close> leaves: the sections up to the end given, and no lost character.\<close>

definition flushed :: "string \<Rightarrow> string \<Rightarrow> int \<Rightarrow> section_state \<Rightarrow> bool" where
  "flushed document_id content hi st \<longleftrightarrow> sections_ok document_id content hi (ss_sections st) \<and>
     (\<forall>i. 0 \<le> i \<and> i < hi \<and> \<not> is_space (content ! nat i) \<longrightarrow>
          covered (map section_range (ss_sections st)) i \<or> in_heading content i)"

lemma sections_ok_add:
  assumes "sections_ok document_id content lo ss" "lo \<le> sec_start s" "sec_end s \<le> hi"
    "section_ok document_id content (Suc (length ss)) s"
  shows "sections_ok document_id content hi (ss @ [s])"
proof -
  have "sec_start s < sec_end s" using assms(4) by (simp add: section_ok_def trimmed_span_def)
  then have "ordered_in lo hi [section_range s]" using assms by (simp add: section_range_def)
  then show ?thesis using assms ordered_in_append
    by (auto simp: sections_ok_def enumerate_append_eq)
qed

lemma sections_ok_weaken: "sections_ok document_id content lo ss \<Longrightarrow> lo \<le> hi \<Longrightarrow> sections_ok document_id content hi ss"
  by (auto simp: sections_ok_def intro: ordered_in_weaken)

lemma flush_section_ok:
  assumes st: "flushed document_id content (ss_start st) st" and "0 \<le> ss_start st" "ss_start st \<le> hi" "hi \<le> int (length content)"
  obtains st1 where "flush_section document_id content hi st = Inr st1" "flushed document_id content hi st1"
    "ss_start st1 = ss_start st" "ss_offset st1 = ss_offset st"
proof -
  obtain a b where t: "trim_span content (ss_start st) hi = Inr (a, b, py_slice content a b)" "ss_start st \<le> a" "a \<le> b" "b \<le> hi"
    "a < b \<Longrightarrow> trimmed_span content a b"
    "\<And>i. ss_start st \<le> i \<Longrightarrow> i < hi \<Longrightarrow> \<not> is_space (content ! nat i) \<Longrightarrow> a \<le> i \<and> i < b"
    "py_slice content a b = [] \<longleftrightarrow> a = b"
    using trim_span_ok[of "ss_start st" hi content] assms by metis
  show thesis
  proof (cases "a = b")
    case True
    then have "flush_section document_id content hi st = Inr st" using t(1,7) by (simp add: flush_section_def)
    moreover have "covered (map section_range (ss_sections st)) i \<or> in_heading content i"
      if "0 \<le> i" "i < hi" "\<not> is_space (content ! nat i)" for i
      using st that t(6)[of i] True by (cases "i < ss_start st") (auto simp: flushed_def)
    then have "flushed document_id content hi st"
      using st assms(3) sections_ok_weaken by (auto simp: flushed_def)
    ultimately show thesis using that by simp
  next
    case False
    define s where "s = \<lparr>sec_id = numbered document_id ''section'' (length (ss_sections st) + 1), sec_document = document_id,
      sec_heading = ss_heading st, sec_order = length (ss_sections st) + 1, sec_start = a, sec_end = b,
      sec_text = py_slice content a b\<rparr>"
    define st1 where "st1 = st\<lparr>ss_sections := ss_sections st @ [s]\<rparr>"
    have f: "flush_section document_id content hi st = Inr st1"
      using t(1,7) False by (simp add: flush_section_def Let_def st1_def s_def)
    have "sections_ok document_id content hi (ss_sections st1)"
      unfolding st1_def using st t False
      by (auto intro!: sections_ok_add[where lo = "ss_start st"] simp: flushed_def section_ok_def s_def)
    moreover have "covered (map section_range (ss_sections st1)) i \<or> in_heading content i"
      if "0 \<le> i" "i < hi" "\<not> is_space (content ! nat i)" for i
      using st that t(6)[of i] by (cases "i < ss_start st") (auto simp: flushed_def st1_def s_def section_range_def)
    ultimately have "flushed document_id content hi st1" by (auto simp: flushed_def)
    then show thesis using that[OF f] by (simp add: st1_def)
  qed
qed

lemma heading_at_append:
  "int (length (concat ls)) \<le> i \<Longrightarrow> heading_at (ls @ rest) i \<longleftrightarrow> heading_at rest (i - int (length (concat ls)))"
  by (induction ls arbitrary: i) (auto simp: algebra_simps)

definition reading :: "string \<Rightarrow> string \<Rightarrow> section_state \<Rightarrow> bool" where
  "reading document_id content st \<longleftrightarrow> flushed document_id content (ss_start st) st \<and> 0 \<le> ss_start st \<and> ss_start st \<le> ss_offset st"

lemma section_line_ok:
  assumes r: "reading document_id content st" and len: "ss_offset st + int (length line) \<le> int (length content)"
    and h: "\<And>i. ss_offset st \<le> i \<Longrightarrow> i < ss_offset st + int (length line) \<Longrightarrow> in_heading content i = is_heading line"
  obtains st1 where "section_line document_id content line st = Inr st1" "reading document_id content st1"
    "ss_offset st1 = ss_offset st + int (length line)"
proof (cases "is_heading line")
  case False
  then show thesis using that r by (auto simp: section_line_def Let_def reading_def flushed_def)
next
  case True
  obtain st1 where st1: "(if ss_has_heading st \<or> ss_offset st > ss_start st then flush_section document_id content (ss_offset st) st
      else Inr st) = Inr st1" "flushed document_id content (ss_offset st) st1" "ss_offset st1 = ss_offset st"
  proof (cases "ss_has_heading st \<or> ss_offset st > ss_start st")
    case t: True
    then show ?thesis using that flush_section_ok[of document_id content st "ss_offset st"] r len
      by (metis (no_types, lifting) add_increasing2 le_add_same_cancel1 of_nat_0_le_iff order_trans reading_def)
  next
    case f: False
    then have "ss_offset st = ss_start st" using r by (simp add: reading_def)
    then show ?thesis using that[of st] f r by (simp add: reading_def)
  qed
  define st2 where "st2 = st1\<lparr>ss_heading := heading_text line, ss_start := ss_offset st1 + int (length line),
    ss_has_heading := True, ss_offset := ss_offset st1 + int (length line)\<rparr>"
  have "section_line document_id content line st = Inr st2"
    using True st1(1) by (simp add: section_line_def Let_def st2_def)
  moreover have "flushed document_id content (ss_start st2) st2"
  proof -
    have "in_heading content i" if "ss_offset st \<le> i" "i < ss_offset st + int (length line)" for i
      using h that True by simp
    moreover have "sections_ok document_id content (ss_start st2) (ss_sections st2)"
      using st1(2,3) sections_ok_weaken by (auto simp: flushed_def st2_def)
    ultimately show ?thesis using st1(2,3) by (auto simp: flushed_def st2_def) (metis not_le)
  qed
  ultimately show thesis using that[of st2] st1(3) r by (simp add: reading_def st2_def)
qed

lemma section_lines_ok:
  "reading document_id content st \<Longrightarrow> py_splitlines content = pre @ ls \<Longrightarrow> ss_offset st = int (length (concat pre)) \<Longrightarrow>
     \<exists>st1. section_lines document_id content ls st = Inr st1 \<and> reading document_id content st1 \<and>
           ss_offset st1 = int (length content)"
proof (induction ls arbitrary: st pre)
  case Nil
  then have "concat pre = content" by (metis append_Nil2 concat_splitlines)
  then show ?case using Nil by simp
next
  case (Cons l ls)
  have c: "content = concat pre @ l @ concat ls" by (metis Cons.prems(2) concat.simps(2) concat_append concat_splitlines)
  have h: "in_heading content i = is_heading l" if "ss_offset st \<le> i" "i < ss_offset st + int (length l)" for i
    using that Cons.prems heading_at_append[of pre i "l # ls"] by (simp add: in_heading_def)
  have "ss_offset st + int (length l) \<le> int (length content)" using c Cons.prems(3) by simp
  then obtain st1 where st1: "section_line document_id content l st = Inr st1" "reading document_id content st1"
    "ss_offset st1 = ss_offset st + int (length l)"
    using section_line_ok[OF Cons.prems(1)] h by blast
  then show ?case using Cons.IH[of st1 "pre @ [l]"] Cons.prems by simp
qed

text \<open>The sections of a document: ordered, trimmed slices that miss no character outside the headings.\<close>

lemma split_sections_ok:
  obtains ss where "split_sections document_id content = Inr ss" "sections_ok document_id content (int (length content)) ss"
    "\<And>i. 0 \<le> i \<Longrightarrow> i < int (length content) \<Longrightarrow> \<not> is_space (content ! nat i) \<Longrightarrow>
       covered (map section_range ss) i \<or> (ss \<noteq> [] \<and> in_heading content i)"
    "ss = [] \<Longrightarrow> list_all is_space content"
proof -
  have r0: "reading document_id content no_sections"
    by (auto simp: reading_def flushed_def no_sections_def sections_ok_def)
  obtain st where st: "section_lines document_id content (py_splitlines content) no_sections = Inr st" "reading document_id content st"
    "ss_offset st = int (length content)"
    using section_lines_ok[OF r0, of "[]"] by (auto simp: no_sections_def)
  obtain st1 where st1: "flush_section document_id content (int (length content)) st = Inr st1"
    "flushed document_id content (int (length content)) st1"
    using flush_section_ok[of document_id content st "int (length content)"] st by (auto simp: reading_def)
  show thesis
  proof (cases "ss_sections st1 = []")
    case False
    then have "split_sections document_id content = Inr (ss_sections st1)" using st st1 by (simp add: split_sections_def)
    then show thesis using that st1(2) False by (auto simp: flushed_def)
  next
    case True
    then have e: "split_sections document_id content = whole_document document_id content" using st st1 by (simp add: split_sections_def)
    obtain a b where t: "trim_span content 0 (int (length content)) = Inr (a, b, py_slice content a b)" "0 \<le> a" "a \<le> b"
      "b \<le> int (length content)" "a < b \<Longrightarrow> trimmed_span content a b"
      "\<And>i. 0 \<le> i \<Longrightarrow> i < int (length content) \<Longrightarrow> \<not> is_space (content ! nat i) \<Longrightarrow> a \<le> i \<and> i < b"
      "py_slice content a b = [] \<longleftrightarrow> a = b"
      using trim_span_ok[of 0 "int (length content)" content] by auto
    show thesis
    proof (cases "a = b")
      case ab: True
      then have "is_space (content ! i)" if "i < length content" for i
        using t(6)[of "int i"] that by (cases "is_space (content ! i)") auto
      then have "is_space c" if "c \<in> set content" for c
        using that by (auto simp: in_set_conv_nth)
      moreover have "split_sections document_id content = Inr []" using e t(1,7) ab by (simp add: whole_document_def)
      ultimately show thesis using that[of "[]"] t(6) ab by (force simp: sections_ok_def list_all_iff)
    next
      case ab: False
      define s where "s = \<lparr>sec_id = numbered document_id ''section'' 1, sec_document = document_id,
        sec_heading = ''Document'', sec_order = 1, sec_start = a, sec_end = b, sec_text = py_slice content a b\<rparr>"
      have "split_sections document_id content = Inr [s]" using e t(1,7) ab by (simp add: whole_document_def s_def)
      moreover have "sections_ok document_id content (int (length content)) [s]"
        using t ab by (auto simp: sections_ok_def section_ok_def s_def section_range_def)
      ultimately show thesis using that t(6) by (auto simp: s_def section_range_def)
    qed
  qed
qed

section \<open>The chunks\<close>

definition chunk_range :: "offline_chunk \<Rightarrow> int \<times> int" where
  "chunk_range c = (chk_start c, chk_end c)"

definition chunk_ok :: "string \<Rightarrow> string \<Rightarrow> int \<Rightarrow> offline_section list \<Rightarrow> nat \<Rightarrow> offline_chunk \<Rightarrow> bool" where
  "chunk_ok document_id content m ss k c \<longleftrightarrow> chk_id c = numbered document_id ''chunk'' k \<and> chk_document c = document_id \<and>
     chk_order c = k \<and> trimmed_span content (chk_start c) (chk_end c) \<and>
     chk_text c = py_slice content (chk_start c) (chk_end c) \<and> chk_end c - chk_start c \<le> m \<and>
     list_ex (\<lambda>s. chk_section c = sec_id s \<and> sec_start s \<le> chk_start c \<and> chk_end c \<le> sec_end s) ss"

definition chunks_ok :: "string \<Rightarrow> string \<Rightarrow> int \<Rightarrow> offline_section list \<Rightarrow> int \<Rightarrow> offline_chunk list \<Rightarrow> bool" where
  "chunks_ok document_id content m ss hi cs \<longleftrightarrow> ordered_in 0 hi (map chunk_range cs) \<and>
     list_all (\<lambda>(k, c). chunk_ok document_id content m ss k c) (enumerate 1 cs)"

lemma chunks_ok_add:
  assumes "chunks_ok document_id content m ss lo cs" "lo \<le> chk_start c" "chk_end c \<le> hi"
    "chunk_ok document_id content m ss (Suc (length cs)) c"
  shows "chunks_ok document_id content m ss hi (cs @ [c])"
proof -
  have "chk_start c < chk_end c" using assms(4) by (simp add: chunk_ok_def trimmed_span_def)
  then have "ordered_in lo hi [chunk_range c]" using assms by (simp add: chunk_range_def)
  then show ?thesis using assms ordered_in_append by (auto simp: chunks_ok_def enumerate_append_eq)
qed

lemma chunks_ok_weaken: "chunks_ok document_id content m ss lo cs \<Longrightarrow> lo \<le> hi \<Longrightarrow> chunks_ok document_id content m ss hi cs"
  by (auto simp: chunks_ok_def intro: ordered_in_weaken)

lemma covered_chunk [simp]: "covered (chunk_range c # rs) i \<longleftrightarrow> chk_start c \<le> i \<and> i < chk_end c \<or> covered rs i"
  by (simp add: chunk_range_def)

lemma covered_section [simp]: "covered (section_range s # rs) i \<longleftrightarrow> sec_start s \<le> i \<and> i < sec_end s \<or> covered rs i"
  by (simp add: section_range_def)

lemma trimmed_in_slice:
  assumes "trimmed_span (py_slice s a b) c d" "0 \<le> a" "b \<le> int (length s)" "0 \<le> c" "d \<le> b - a"
  shows "trimmed_span s (a + c) (a + d)"
proof -
  have "py_slice s a b ! nat c = s ! nat (a + c)" "py_slice s a b ! nat (d - 1) = s ! nat (a + d - 1)"
    using assms py_slice_nth[of a b s "a + c"] py_slice_nth[of a b s "a + d - 1"]
    by (auto simp: trimmed_span_def algebra_simps)
  then show ?thesis using assms by (auto simp: trimmed_span_def)
qed

lemma section_chunks_ok:
  assumes s: "s \<in> set ss" "0 \<le> sec_start s" "sec_start s \<le> sec_end s" "sec_end s \<le> int (length content)" "sec_text s = py_slice content (sec_start s) (sec_end s)"
  shows "chunks_ok document_id content m ss lo cs \<Longrightarrow> lo \<le> sec_start s + l \<Longrightarrow> 0 \<le> l \<Longrightarrow>
     ordered_in l (sec_end s - sec_start s) rs \<Longrightarrow> at_most m rs \<Longrightarrow>
     \<exists>cs'. section_chunks document_id s rs cs = Inr cs' \<and> chunks_ok document_id content m ss (sec_end s) cs' \<and>
       (\<forall>i. covered (map chunk_range cs) i \<longrightarrow> covered (map chunk_range cs') i) \<and>
       (\<forall>i. covered rs (i - sec_start s) \<and> \<not> is_space (content ! nat i) \<longrightarrow> covered (map chunk_range cs') i)"
proof (induction rs arbitrary: cs lo l)
  case Nil
  then show ?case by (auto intro: chunks_ok_weaken)
next
  case (Cons r rs)
  obtain x y where r: "r = (x, y)" by force
  have xy: "l \<le> x" "x < y" "ordered_in y (sec_end s - sec_start s) rs" "y - x \<le> m" "at_most m rs"
    using Cons.prems r by (auto simp: at_most_def)
  have yh: "y \<le> sec_end s - sec_start s" using ordered_in_le xy by blast
  have len: "int (length (sec_text s)) = sec_end s - sec_start s" using s by (simp add: length_py_slice)
  obtain a b where t: "trim_span (sec_text s) x y = Inr (a, b, py_slice (sec_text s) a b)" "x \<le> a" "a \<le> b" "b \<le> y"
    "a < b \<Longrightarrow> trimmed_span (sec_text s) a b"
    "\<And>i. x \<le> i \<Longrightarrow> i < y \<Longrightarrow> \<not> is_space (sec_text s ! nat i) \<Longrightarrow> a \<le> i \<and> i < b"
    "py_slice (sec_text s) a b = [] \<longleftrightarrow> a = b"
    using trim_span_ok[of x y "sec_text s"] Cons.prems xy yh len by auto
  have cover: "a \<le> i - sec_start s \<and> i - sec_start s < b"
    if "x \<le> i - sec_start s" "i - sec_start s < y" "\<not> is_space (content ! nat i)" for i
    using t(6)[of "i - sec_start s"] that py_slice_nth[of "sec_start s" "sec_end s" content i] s xy yh Cons.prems by auto
  show ?case
  proof (cases "a = b")
    case True
    then have "section_chunks document_id s (r # rs) cs = section_chunks document_id s rs cs" using t(1,7) r by simp
    moreover have "lo \<le> sec_start s + y" using Cons.prems xy by simp
    ultimately show ?thesis using Cons.IH[OF Cons.prems(1) _ _ xy(3,5)] xy Cons.prems(3) cover True r by fastforce
  next
    case False
    define c where "c = \<lparr>chk_id = numbered document_id ''chunk'' (length cs + 1), chk_document = document_id,
      chk_section = sec_id s, chk_order = length cs + 1, chk_start = sec_start s + a, chk_end = sec_start s + b,
      chk_text = py_slice (sec_text s) a b\<rparr>"
    have e: "section_chunks document_id s (r # rs) cs = section_chunks document_id s rs (cs @ [c])"
      using t(1,7) r False by (simp add: c_def Let_def)
    have tx: "py_slice (sec_text s) a b = py_slice content (sec_start s + a) (sec_start s + b)"
      using s t xy yh Cons.prems(3) by (simp add: py_slice_slice)
    have "trimmed_span content (sec_start s + a) (sec_start s + b)"
      using trimmed_in_slice[of content "sec_start s" "sec_end s" a b] t False s xy yh Cons.prems(3) by auto
    then have "chunk_ok document_id content m ss (Suc (length cs)) c"
      using s(1) t xy yh tx Cons.prems(3) by (auto simp: chunk_ok_def c_def list_ex_iff)
    then have ok: "chunks_ok document_id content m ss (sec_start s + y) (cs @ [c])"
      using Cons.prems t xy by (intro chunks_ok_add[OF Cons.prems(1)]) (auto simp: c_def)
    obtain cs' where "section_chunks document_id s rs (cs @ [c]) = Inr cs'" "chunks_ok document_id content m ss (sec_end s) cs'"
       "\<forall>i. covered (map chunk_range (cs @ [c])) i \<longrightarrow> covered (map chunk_range cs') i"
       "\<forall>i. covered rs (i - sec_start s) \<and> \<not> is_space (content ! nat i) \<longrightarrow> covered (map chunk_range cs') i"
      using Cons.IH[OF ok _ _ xy(3,5)] xy Cons.prems(3) by auto
    moreover have "covered (map chunk_range (cs @ [c])) i \<longleftrightarrow>
        covered (map chunk_range cs) i \<or> a \<le> i - sec_start s \<and> i - sec_start s < b" for i
      by (simp add: c_def) linarith
    ultimately show ?thesis using e cover r by (simp del: section_chunks.simps) blast
  qed
qed

definition sections_from :: "string \<Rightarrow> int \<Rightarrow> offline_section list \<Rightarrow> bool" where
  "sections_from content lo ss \<longleftrightarrow> ordered_in lo (int (length content)) (map section_range ss) \<and>
     list_all (\<lambda>s. sec_text s = py_slice content (sec_start s) (sec_end s)) ss"

lemma build_chunks_ok:
  assumes "0 < m"
  shows "set rest \<subseteq> set ss \<Longrightarrow> sections_from content lo rest \<Longrightarrow> 0 \<le> lo \<Longrightarrow> chunks_ok document_id content m ss lo cs \<Longrightarrow>
     \<exists>cs'. build_chunks document_id m rest cs = Some (Inr cs') \<and> chunks_ok document_id content m ss (int (length content)) cs' \<and>
       (\<forall>i. covered (map chunk_range cs) i \<longrightarrow> covered (map chunk_range cs') i) \<and>
       (\<forall>i. covered (map section_range rest) i \<and> \<not> is_space (content ! nat i) \<longrightarrow> covered (map chunk_range cs') i)"
proof (induction rest arbitrary: cs lo)
  case Nil
  then show ?case by (auto simp: sections_from_def intro: chunks_ok_weaken)
next
  case (Cons s rest)
  have s: "lo \<le> sec_start s" "sec_start s < sec_end s" "sections_from content (sec_end s) rest"
    "sec_text s = py_slice content (sec_start s) (sec_end s)" "s \<in> set ss" "set rest \<subseteq> set ss"
    using Cons.prems by (auto simp: sections_from_def section_range_def)
  have e: "sec_end s \<le> int (length content)" using s(3) ordered_in_le by (auto simp: sections_from_def)
  have len: "int (length (sec_text s)) = sec_end s - sec_start s" using s e Cons.prems(3) by (simp add: length_py_slice)
  obtain rs where rs: "split_chunk_ranges (sec_text s) m = Some rs" "ordered_in 0 (int (length (sec_text s))) rs" "at_most m rs"
    "\<And>i. i < length (sec_text s) \<Longrightarrow> \<not> is_space (sec_text s ! i) \<Longrightarrow> covered rs (int i)"
    using split_chunk_ranges_ok[OF assms] by blast
  have o: "ordered_in 0 (sec_end s - sec_start s) rs" using rs(2) len by simp
  have "0 \<le> sec_start s" "sec_start s \<le> sec_end s" "lo \<le> sec_start s + 0" using s Cons.prems(3) by auto
  then obtain cs1 where cs1: "section_chunks document_id s rs cs = Inr cs1" "chunks_ok document_id content m ss (sec_end s) cs1"
    "\<forall>i. covered (map chunk_range cs) i \<longrightarrow> covered (map chunk_range cs1) i"
    "\<forall>i. covered rs (i - sec_start s) \<and> \<not> is_space (content ! nat i) \<longrightarrow> covered (map chunk_range cs1) i"
    using section_chunks_ok[OF s(5) _ _ e s(4) Cons.prems(4) _ order_refl o rs(3)] by blast
  have cov: "covered (map chunk_range cs1) i" if "sec_start s \<le> i" "i < sec_end s" "\<not> is_space (content ! nat i)" for i
  proof -
    have "nat (i - sec_start s) < length (sec_text s)" using that len by linarith
    moreover have "sec_text s ! nat (i - sec_start s) = content ! nat i"
      using that s Cons.prems(3) e by (simp add: py_slice_nth)
    ultimately have "covered rs (i - sec_start s)" using rs(4)[of "nat (i - sec_start s)"] that by simp
    then show ?thesis using cs1(4) that by blast
  qed
  obtain cs' where "build_chunks document_id m rest cs1 = Some (Inr cs')" "chunks_ok document_id content m ss (int (length content)) cs'"
    "\<forall>i. covered (map chunk_range cs1) i \<longrightarrow> covered (map chunk_range cs') i"
    "\<forall>i. covered (map section_range rest) i \<and> \<not> is_space (content ! nat i) \<longrightarrow> covered (map chunk_range cs') i"
    using Cons.IH[OF s(6,3) _ cs1(2)] s(1,2) Cons.prems(3) by auto
  then show ?case using rs(1) cs1(1,3) cov by auto
qed

end
