(* ===== verification/DocumentPilot.thy ===== *)
theory DocumentPilot
  imports DocumentRanges
begin

text \<open>
  The evidence, the conflicts and the pilot as a whole: the normalised text is the words joined by
  single spaces, a place found by it holds the words of the snippet, and the properties of a built
  pilot (when it is built, its chunks, its evidence, its conflicts).
\<close>

section \<open>Normalised text\<close>

text \<open>What the loop of \<open>_normalized_text_with_map\<close> keeps, with its positions; \<open>b\<close>: nothing or a space was kept last.\<close>

fun kept :: "bool \<Rightarrow> nat \<Rightarrow> string \<Rightarrow> (nat \<times> char) list" where
  "kept b k [] = []"
| "kept b k (c # s) = (if is_space c then (if b then kept True (Suc k) s else (k, CHR '' '') # kept True (Suc k) s)
     else (k, c) # kept False (Suc k) s)"

definition without_last_space :: "(nat \<times> char) list \<Rightarrow> (nat \<times> char) list" where
  "without_last_space ps = (if ps \<noteq> [] \<and> snd (last ps) = CHR '' '' then butlast ps else ps)"

lemma blank_is_space [simp]: "is_space (CHR '' '')"
  by (simp add: is_space_def)

lemma map_char_eq: "map_char (i, c) (chars, idx) =
    (if is_space c then (if chars = [] \<or> last chars = CHR '' '' then (chars, idx) else (chars @ '' '', idx @ [i]))
     else (chars @ [c], idx @ [i]))"
  by (simp add: map_char_def)

lemma fold_map_char:
  "fold map_char (enumerate k s) (chars, idx) =
     (chars @ map snd (kept (chars = [] \<or> last chars = CHR '' '') k s), idx @ map fst (kept (chars = [] \<or> last chars = CHR '' '') k s))"
proof (induction s arbitrary: k chars idx)
  case (Cons c s)
  have "c \<noteq> CHR '' ''" if "\<not> is_space c" using that by auto
  then show ?case by (auto simp: map_char_eq Cons.IH)
qed simp

lemma normalized_text_with_map_eq:
  "normalized_text_with_map s = (let ps = without_last_space (kept True 0 s) in (map snd ps, map fst ps))"
  by (auto simp: normalized_text_with_map_def fold_map_char without_last_space_def Let_def last_map map_butlast)

lemma kept_append: "kept b k (u @ v) = kept b k u @ kept (if u = [] then b else is_space (last u)) (k + length u) v"
  by (induction u arbitrary: b k) auto

lemma kept_mem: "(i, c) \<in> set (kept b k s) \<Longrightarrow> k \<le> i \<and> i < k + length s \<and> (c \<noteq> CHR '' '' \<longrightarrow> \<not> is_space (s ! (i - k)))"
proof (induction s arbitrary: b k)
  case (Cons x s)
  have "k \<le> i \<and> i < k + length (x # s) \<and> (c \<noteq> CHR '' '' \<longrightarrow> \<not> is_space ((x # s) ! (i - k)))"
    if "(i, c) \<in> set (kept b' (Suc k) s)" for b'
    using Cons.IH[OF that] by (auto simp: nth_Cons')
  then show ?case using Cons.prems by (auto split: if_splits)
qed simp

lemma kept_shift: "kept b (k + d) s = map (\<lambda>(i, c). (i + d, c)) (kept b k s)"
proof (induction s arbitrary: b k)
  case (Cons c s)
  show ?case using Cons.IH[of _ "Suc k"] by simp
qed simp

lemma kept_sorted: "sorted_wrt (\<lambda>p q. fst p < fst q) (kept b k s)"
proof (induction s arbitrary: b k)
  case (Cons c s)
  have "k < i" if "(i, d) \<in> set (kept b' (Suc k) s)" for i d b' using kept_mem[OF that] by simp
  then show ?case using Cons.IH by auto
qed simp

lemma kept_hd: "kept True k s = [] \<or> snd (hd (kept True k s)) \<noteq> CHR '' ''"
  by (induction s arbitrary: k) auto

text \<open>The text kept is the words joined by single spaces.\<close>

definition cut :: "string \<Rightarrow> string" where
  "cut t = (if t \<noteq> [] \<and> last t = CHR '' '' then butlast t else t)"

lemma cut_join: "t = [] \<or> hd t \<noteq> CHR '' '' \<Longrightarrow> cut (xs @ CHR '' '' # t) = (if t = [] then xs else xs @ CHR '' '' # cut t)"
  by (auto simp: cut_def butlast_append)

lemma cut_Nil: "t = [] \<or> hd t \<noteq> CHR '' '' \<Longrightarrow> cut t = [] \<longleftrightarrow> t = []"
  by (cases t) (auto simp: cut_def)

lemma join_words_kept:
  "\<forall>c \<in> set acc. \<not> is_space c \<Longrightarrow> py_join '' '' (words_acc acc s) = cut (rev acc @ map snd (kept (acc = []) k s))"
proof (induction acc s arbitrary: k rule: words_acc.induct)
  case (1 acc)
  have "last (rev acc) \<noteq> CHR '' ''" if "acc \<noteq> []"
    using 1 that by (metis blank_is_space last_in_set rev_is_Nil_conv set_rev)
  then show ?case by (simp add: cut_def)
next
  case (2 acc c cs)
  have hd: "map snd (kept True k s) = [] \<or> hd (map snd (kept True k s)) \<noteq> CHR '' ''" for k s
    using kept_hd[of k s] by (cases "kept True k s") auto
  consider (word) "\<not> is_space c" | (skip) "is_space c" "acc = []" | (sep) "is_space c" "acc \<noteq> []" by blast
  then show ?case
  proof cases
    case word
    then have "py_join '' '' (words_acc (c # acc) cs) = cut (rev (c # acc) @ map snd (kept (c # acc = []) (Suc k) cs))"
      using 2 by (intro "2.IH"(3)) auto
    then show ?thesis using word by simp
  next
    case skip
    then show ?thesis using "2.IH"(1)[of "Suc k"] 2 by simp
  next
    case sep
    define t where "t = map snd (kept True (Suc k) cs)"
    have t: "py_join '' '' (words_acc [] cs) = cut t" using "2.IH"(2)[of "Suc k"] sep by (simp add: t_def)
    have "py_join '' '' (rev acc # ws) = (if ws = [] then rev acc else rev acc @ '' '' @ py_join '' '' ws)" for ws
      by (cases ws) auto
    moreover have "words_acc [] cs = [] \<longleftrightarrow> py_join '' '' (words_acc [] cs) = []"
      using join_words_ends[OF py_split_words[of cs]] by (auto simp: py_split_def)
    ultimately show ?thesis
      using sep t cut_join[of t "rev acc"] cut_Nil[of t] hd[of "Suc k" cs] by (simp add: t_def)
  qed
qed

lemma fst_normalized: "fst (normalized_text_with_map s) = py_join '' '' (py_split s)"
proof -
  have "map snd (without_last_space ps) = cut (map snd ps)" for ps
    by (auto simp: without_last_space_def cut_def last_map map_butlast)
  then show ?thesis using join_words_kept[of "[]" s 0] by (simp add: normalized_text_with_map_eq py_split_def Let_def)
qed

lemma split_by_bound:
  fixes n :: nat
  assumes "xs @ ys = us @ vs" "\<forall>p \<in> set xs. fst p < n" "\<forall>p \<in> set ys. n \<le> fst p"
    "\<forall>p \<in> set us. fst p < n" "\<forall>p \<in> set vs. n \<le> fst p"
  shows "xs = us \<and> ys = vs"
proof -
  have f: "filter (\<lambda>p. fst p < n) (ps @ qs) = ps" if "\<forall>p \<in> set ps. fst p < n" "\<forall>p \<in> set qs. n \<le> fst p"
    for ps qs :: "(nat \<times> 'a) list" using that by (auto simp: filter_empty_conv not_less filter_id_conv)
  show ?thesis using f[of xs ys] f[of us vs] assms by (metis same_append_eq)
qed

lemma kept_bounds: "p \<in> set (kept b k s) \<Longrightarrow> k \<le> fst p \<and> fst p < k + length s"
  using kept_mem[of "fst p" "snd p" b k s] by simp

text \<open>A middle part of the kept text that begins and ends with a word is the kept text of the slice it comes from.\<close>

lemma kept_middle:
  assumes k: "kept True 0 s = ps @ ms @ qs" and ms: "ms \<noteq> []" "hd ms = (i, c)" "last ms = (j, d)" "c \<noteq> CHR '' ''" "d \<noteq> CHR '' ''"
  shows "i \<le> j \<and> j < length s \<and> ms = kept True i (take (Suc j - i) (drop i s))"
proof -
  have mem: "(i, c) \<in> set ms" "(j, d) \<in> set ms" using ms hd_in_set last_in_set by metis+
  then have ij: "i < length s" "j < length s" "\<not> is_space (s ! i)"
    using kept_mem[of i c True 0 s] kept_mem[of j d True 0 s] k ms by auto
  have sorted: "sorted_wrt (\<lambda>p q. fst p < fst q) (ps @ ms @ qs)" using kept_sorted[of True 0 s] k by simp
  have lo: "i \<le> fst p" if "p \<in> set ms" for p
    using sorted that ms by (cases ms) (auto simp: sorted_wrt_append intro: less_imp_le)
  have hi: "fst p \<le> j" if "p \<in> set ms" for p
  proof -
    have "ms = butlast ms @ [(j, d)]" using ms by (metis append_butlast_last_id)
    then have "sorted_wrt (\<lambda>p q. fst p < fst q) (butlast ms @ [(j, d)])" using sorted by (simp add: sorted_wrt_append)
    then show ?thesis using that \<open>ms = butlast ms @ [(j, d)]\<close>
      by (metis Un_iff append.right_neutral fst_conv less_imp_le list.set_intros(1) order_refl set_ConsD set_append sorted_wrt_append empty_iff list.set(1))
  qed
  have after: "fst m < fst q" if "m \<in> set ms" "q \<in> set qs" for m q
    using sorted that by (simp add: sorted_wrt_append)
  have le: "i \<le> j" using lo[OF mem(2)] by simp
  define u where "u = take i s"
  define v where "v = drop i s"
  define b where "b = (if u = [] then True else is_space (last u))"
  have uv: "s = u @ v" "length u = i" using ij by (auto simp: u_def v_def)
  have A: "ps = kept True 0 u \<and> ms @ qs = kept b i v"
  proof (rule split_by_bound[where n = i])
    show "ps @ ms @ qs = kept True 0 u @ kept b i v" unfolding k[symmetric] uv(1) kept_append b_def uv(2) by simp
    have "fst p < fst m" if "p \<in> set ps" "m \<in> set ms" for p m using sorted that by (simp add: sorted_wrt_append)
    from this[OF _ mem(1)] show "\<forall>p \<in> set ps. fst p < i" by simp
    show "\<forall>p \<in> set (ms @ qs). i \<le> fst p" using lo after[OF mem(1)] by (auto intro: less_imp_le)
    show "\<forall>p \<in> set (kept True 0 u). fst p < i" using uv by (auto dest: kept_bounds)
    show "\<forall>p \<in> set (kept b i v). i \<le> fst p" using kept_bounds by blast
  qed
  have d: "drop i s = s ! i # drop (Suc i) s" using ij by (simp add: Cons_nth_drop_Suc)
  have "kept b i v = kept True i v" using ij(3) by (simp add: v_def d)
  then have mq: "ms @ qs = kept True i v" using A by (simp add: v_def)
  define w where "w = take (Suc j - i) v"
  define z where "z = drop (Suc j - i) v"
  have vw: "v = w @ z" by (simp add: w_def z_def)
  have lw: "length w = Suc j - i" using ij le by (simp add: w_def v_def)
  have "ms = kept True i w \<and> qs = kept (if w = [] then True else is_space (last w)) (i + length w) z"
  proof (rule split_by_bound[where n = "Suc j"])
    show "ms @ qs = kept True i w @ kept (if w = [] then True else is_space (last w)) (i + length w) z"
      using mq vw kept_append[of True i w z] by simp
    show "\<forall>p \<in> set ms. fst p < Suc j" using hi by (auto simp: less_Suc_eq_le)
    show "\<forall>p \<in> set qs. Suc j \<le> fst p" using after[OF mem(2)] by (auto simp: Suc_le_eq)
    show "\<forall>p \<in> set (kept True i w). fst p < Suc j" using lw le by (auto dest: kept_bounds)
    show "\<forall>p \<in> set (kept (if w = [] then True else is_space (last w)) (i + length w) z). Suc j \<le> fst p"
      using lw le by (auto dest: kept_bounds)
  qed
  then show ?thesis using ij le by (simp add: w_def v_def)
qed

lemma kept_slice_normalized:
  assumes "kept True 0 s = ps @ ms @ qs" "ms \<noteq> []" "hd ms = (i, c)" "last ms = (j, d)" "c \<noteq> CHR '' ''" "d \<noteq> CHR '' ''"
  shows "i \<le> j \<and> j < length s \<and> fst (normalized_text_with_map (py_slice s (int i) (int j + 1))) = map snd ms"
proof -
  note m = kept_middle[OF assms]
  define w where "w = py_slice s (int i) (int j + 1)"
  have "w = take (nat (int j + 1 - int i)) (drop (nat (int i)) s)"
    unfolding w_def using m by (intro py_slice_ok) auto
  moreover have "nat (int j + 1 - int i) = Suc j - i" using m by simp
  ultimately have "w = take (Suc j - i) (drop i s)" by simp
  then have "ms = kept True (0 + i) w" using m by simp
  then have ms: "ms = map (\<lambda>(k, c). (k + i, c)) (kept True 0 w)" using kept_shift[of True 0 i w] by simp
  then have "kept True 0 w \<noteq> []" "map snd ms = map snd (kept True 0 w)" "snd (last ms) = snd (last (kept True 0 w))"
    using assms(2) by (auto simp: case_prod_beta last_map)
  then have "fst (normalized_text_with_map w) = map snd ms"
    using assms(4,6) by (simp add: normalized_text_with_map_eq Let_def without_last_space_def)
  then show ?thesis using m by (simp add: w_def)
qed

lemma normalized_ends:
  assumes "py_strip s \<noteq> []"
  shows "fst (normalized_text_with_map s) \<noteq> []" "hd (fst (normalized_text_with_map s)) \<noteq> CHR '' ''"
    "last (fst (normalized_text_with_map s)) \<noteq> CHR '' ''"
proof -
  have "\<exists>c \<in> set s. \<not> is_space c" using assms by (auto simp: py_strip_def dest: set_dropWhileD)
  moreover have "acc \<noteq> [] \<or> (\<exists>c \<in> set s. \<not> is_space c) \<Longrightarrow> words_acc acc s \<noteq> []" for acc
    by (induction acc s rule: words_acc.induct) auto
  ultimately have "py_split s \<noteq> []" by (simp add: py_split_def)
  note e = join_words_ends[OF py_split_words this]
  show "fst (normalized_text_with_map s) \<noteq> []" "hd (fst (normalized_text_with_map s)) \<noteq> CHR '' ''"
    "last (fst (normalized_text_with_map s)) \<noteq> CHR '' ''"
    using e by (auto simp: fst_normalized)
qed

section \<open>The evidence of a claim\<close>

text \<open>The place found holds the words of the snippet.\<close>

lemma locate_evidence_span_ok:
  assumes "locate_evidence_span content snippet = Inr (a, b)"
  shows "0 \<le> a \<and> a < b \<and> b \<le> int (length content) \<and>
     py_join '' '' (py_split (py_slice content a b)) = py_join '' '' (py_split snippet)"
proof -
  have ne: "py_strip snippet \<noteq> []" using assms by (auto simp: locate_evidence_span_def split: if_splits)
  show ?thesis
  proof (cases "py_find snippet content")
    case (Some i)
    then have ab: "a = int i" "b = int i + int (length snippet)" using assms ne by (auto simp: locate_evidence_span_def)
    note f = py_find_Some[OF Some]
    have "snippet \<noteq> []" using ne by (auto simp: py_strip_def)
    moreover have "py_slice content a b = take (nat (b - a)) (drop (nat a) content)"
      using ab f by (intro py_slice_ok) auto
    then have "py_slice content a b = snippet" using ab f by simp
    ultimately show ?thesis using ab f by simp
  next
    case None
    define sn where "sn = fst (normalized_text_with_map snippet)"
    define ps where "ps = without_last_space (kept True 0 content)"
    have sn: "sn \<noteq> []" "hd sn \<noteq> CHR '' ''" "last sn \<noteq> CHR '' ''" using normalized_ends[OF ne] by (auto simp: sn_def)
    have nc: "normalized_text_with_map content = (map snd ps, map fst ps)" by (simp add: normalized_text_with_map_eq ps_def Let_def)
    then obtain i where i: "py_find sn (map snd ps) = Some i"
      "a = int (map fst ps ! i)" "b = int (map fst ps ! (i + length sn - 1)) + 1"
      using assms ne None by (auto simp: locate_evidence_span_def sn_def[symmetric] Let_def split: option.splits)
    have f: "i + length sn \<le> length ps" "take (length sn) (drop i (map snd ps)) = sn" using py_find_Some[OF i(1)] by auto
    define ms where "ms = take (length sn) (drop i ps)"
    have ms: "map snd ms = sn" using f(2) by (simp add: ms_def take_map drop_map)
    then have ne': "ms \<noteq> []" using sn by auto
    have "hd ms = ps ! i" using f sn(1) ne' by (simp add: ms_def hd_drop_conv_nth)
    moreover have "i + (length sn - 1) = i + length sn - 1" using sn(1) by (cases sn) auto
    then have "last ms = ps ! (i + length sn - 1)"
      using f sn(1) ne' by (simp add: ms_def last_conv_nth)
    moreover have nth: "map fst ps ! i = fst (ps ! i)" "map fst ps ! (i + length sn - 1) = fst (ps ! (i + length sn - 1))"
      using f(1) sn(1) by (cases sn; simp)+
    moreover have hl: "hd sn = snd (hd ms)" "last sn = snd (last ms)" using ms ne' by (auto simp: hd_map last_map)
    ultimately have ends: "hd ms = (nat a, hd sn)" "last ms = (nat (b - 1), last sn)"
      using i(2,3) nth hl by (auto simp: prod_eq_iff)
    have "ps = take i ps @ ms @ drop (i + length sn) ps"
      by (metis add.commute append_take_drop_id drop_drop ms_def)
    moreover have "xs = without_last_space xs @ (if without_last_space xs = xs then [] else [last xs])" for xs
      by (simp add: without_last_space_def)
    then obtain rest where "kept True 0 content = ps @ rest" unfolding ps_def by blast
    ultimately have "kept True 0 content = take i ps @ ms @ (drop (i + length sn) ps @ rest)" by (metis append_assoc)
    note k = kept_slice_normalized[OF this ne' ends sn(2,3)]
    have "int (nat a) = a" "int (nat (b - 1)) + 1 = b" "0 \<le> a" "1 \<le> b" using i by auto
    then show ?thesis using k ms by (auto simp: sn_def fst_normalized)
  qed
qed

section \<open>Conflicts\<close>

definition same_key :: "string \<Rightarrow> string \<Rightarrow> offline_claim \<Rightarrow> bool" where
  "same_key s p c \<longleftrightarrow> clm_subject c = s \<and> clm_predicate c = p"

lemma group_claims_snoc: "group_claims (cs @ [c]) = group_claim c (group_claims cs)"
  by (simp add: group_claims_def)

lemma map_of_group_claims:
  "map_of (group_claims cs) (s, p) = (let xs = filter (same_key s p) cs in if xs = [] then None else Some xs)"
proof (induction cs rule: rev_induct)
  case (snoc c cs)
  show ?case
    by (auto simp: group_claims_snoc group_claim_def update_conv' snoc Let_def same_key_def)
qed (simp add: group_claims_def)

lemma distinct_group_claims: "distinct (map fst (group_claims cs))"
proof (induction cs rule: rev_induct)
  case (snoc c cs)
  then show ?case by (simp add: group_claims_snoc group_claim_def Let_def distinct_update)
qed (simp add: group_claims_def)

lemma many_objects: "length (remdups xs) \<le> 1 \<longleftrightarrow> (\<forall>x \<in> set xs. \<forall>y \<in> set xs. x = y)"
proof -
  have "length (remdups xs) = card (set xs)" by (simp add: length_remdups_card_conv)
  then show ?thesis using card_le_Suc0_iff_eq[of "set xs"] by auto
qed

lemma add_conflict_mem:
  "(\<exists>k \<in> set (add_conflict document_id g out). Q k) \<longleftrightarrow>
     (\<exists>k \<in> set out. Q k) \<or> (\<not> length (remdups (map clm_object (snd g))) \<le> 1 \<and>
       Q \<lparr>conf_id = numbered document_id ''conflict'' (length out + 1), conf_document = document_id,
          conf_subject = fst (fst g), conf_predicate = snd (fst g), conf_claims = map clm_id (snd g), conf_reason = CONFLICT_REASON\<rparr>)"
proof -
  obtain s p cs where "g = ((s, p), cs)" by (metis surj_pair)
  then show ?thesis by (auto simp: add_conflict_def)
qed

lemma fold_conflicts:
  "(\<exists>k \<in> set (fold (add_conflict document_id) gs out). conf_subject k = s \<and> conf_predicate k = p \<and> conf_claims k = ids) \<longleftrightarrow>
     (\<exists>k \<in> set out. conf_subject k = s \<and> conf_predicate k = p \<and> conf_claims k = ids) \<or>
     (\<exists>cs. ((s, p), cs) \<in> set gs \<and> ids = map clm_id cs \<and> \<not> length (remdups (map clm_object cs)) \<le> 1)"
proof (induction gs arbitrary: out)
  case (Cons g gs)
  obtain s' p' cs' where g: "g = ((s', p'), cs')" by (metis surj_pair)
  show ?case unfolding fold_Cons o_apply Cons.IH add_conflict_mem by (auto simp: g)
qed simp

lemma conflict_reported:
  "(\<exists>k \<in> set (conflict_candidates document_id cs). conf_subject k = s \<and> conf_predicate k = p \<and> conf_claims k = ids) \<longleftrightarrow>
     ids = map clm_id (filter (same_key s p) cs) \<and>
     (\<exists>c \<in> set cs. \<exists>c' \<in> set cs. same_key s p c \<and> same_key s p c' \<and> clm_object c \<noteq> clm_object c')"
proof -
  have m: "((s, p), xs) \<in> set (group_claims cs) \<longleftrightarrow> xs = filter (same_key s p) cs \<and> xs \<noteq> []" for xs
    using map_of_eq_Some_iff[OF distinct_group_claims[of cs], of "(s, p)" xs]
    by (auto simp: map_of_group_claims Let_def split: if_splits)
  have "(\<exists>xs. ((s, p), xs) \<in> set (group_claims cs) \<and> ids = map clm_id xs \<and> \<not> length (remdups (map clm_object xs)) \<le> 1) \<longleftrightarrow>
      ids = map clm_id (filter (same_key s p) cs) \<and> \<not> length (remdups (map clm_object (filter (same_key s p) cs))) \<le> 1"
    unfolding m by auto
  also have "\<dots> \<longleftrightarrow> ids = map clm_id (filter (same_key s p) cs) \<and>
     (\<exists>c \<in> set cs. \<exists>c' \<in> set cs. same_key s p c \<and> same_key s p c' \<and> clm_object c \<noteq> clm_object c')"
    unfolding many_objects by auto
  finally show ?thesis unfolding conflict_candidates_def fold_conflicts by simp
qed

section \<open>The pilot as a whole\<close>

lemma split_sections_facts:
  assumes "split_sections document_id content = Inr ss"
  shows "sections_ok document_id content (int (length content)) ss"
    "\<And>i. 0 \<le> i \<Longrightarrow> i < int (length content) \<Longrightarrow> \<not> is_space (content ! nat i) \<Longrightarrow>
       covered (map section_range ss) i \<or> (ss \<noteq> [] \<and> in_heading content i)"
    "ss = [] \<Longrightarrow> list_all is_space content"
  using split_sections_ok[of document_id content] assms by (metis sum.inject(2))+

lemma split_sections_total: "\<exists>ss. split_sections document_id content = Inr ss"
  using split_sections_ok[of document_id content] by metis

lemma strip_nonblank: "py_strip s \<noteq> [] \<longleftrightarrow> \<not> list_all is_space s"
proof -
  have "dropWhile is_space xs = [] \<longleftrightarrow> list_all is_space xs" for xs by (simp add: list_all_iff)
  moreover have "list_all is_space (dropWhile is_space xs) \<longleftrightarrow> list_all is_space xs" for xs by (induction xs) auto
  ultimately show ?thesis by (simp add: py_strip_def)
qed

lemma enumerate_mem: "x \<in> set xs \<Longrightarrow> \<exists>k. (k, x) \<in> set (enumerate n xs)"
  by (induction xs arbitrary: n) auto

lemma sections_from_ok: "sections_ok document_id content (int (length content)) ss \<Longrightarrow> sections_from content 0 ss"
proof -
  assume a: "sections_ok document_id content (int (length content)) ss"
  have "sec_text s = py_slice content (sec_start s) (sec_end s)" if "s \<in> set ss" for s
  proof -
    obtain k where "(k, s) \<in> set (enumerate 1 ss)" using enumerate_mem[OF \<open>s \<in> set ss\<close>] by blast
    then show ?thesis using a by (auto simp: sections_ok_def list_all_iff section_ok_def)
  qed
  then show ?thesis using a by (simp add: sections_ok_def sections_from_def list_all_iff)
qed

lemma build_chunks_facts:
  assumes m: "0 < m" and ss: "split_sections document_id content = Inr ss"
  obtains cs where "build_chunks document_id m ss [] = Some (Inr cs)" "chunks_ok document_id content m ss (int (length content)) cs"
    "\<And>i. covered (map section_range ss) i \<Longrightarrow> \<not> is_space (content ! nat i) \<Longrightarrow> covered (map chunk_range cs) i"
proof -
  have c0: "chunks_ok document_id content m ss 0 []" by (simp add: chunks_ok_def)
  show thesis
    using build_chunks_ok[OF m subset_refl sections_from_ok[OF split_sections_facts(1)[OF ss]] order_refl c0] that by blast
qed

lemma first_section_trimmed:
  assumes "sections_ok document_id content hi (s # ss)" "hi \<le> int (length content)"
  shows "py_strip (sec_text s) \<noteq> []"
proof -
  have t: "trimmed_span content (sec_start s) (sec_end s)" "sec_text s = py_slice content (sec_start s) (sec_end s)"
    and o: "0 \<le> sec_start s" "sec_start s < sec_end s" "ordered_in (sec_end s) hi (map section_range ss)"
    using assms by (auto simp: sections_ok_def section_ok_def section_range_def)
  have e: "sec_end s \<le> int (length content)" using ordered_in_le[OF o(3)] assms(2) by simp
  have "sec_text s ! nat 0 = content ! nat (sec_start s)"
    using py_slice_nth[of "sec_start s" "sec_end s" content "sec_start s"] o e t(2) by simp
  moreover have "sec_text s \<noteq> []" using py_slice_Nil_iff[of "sec_start s" "sec_end s" content] o e t(2) by simp
  ultimately show ?thesis using t(1) by (cases "sec_text s") (auto simp: strip_nonblank trimmed_span_def)
qed

lemma build_nonblank:
  assumes "py_strip content \<noteq> []"
  obtains s ss where "split_sections document_id content = Inr (s # ss)"
  using split_sections_total[of document_id content] split_sections_facts(3)[of document_id content] assms
  by (metis list.exhaust strip_nonblank)

text \<open>What a built pilot is.\<close>

lemma built_pilot:
  assumes b: "build_offline_document_pilot title content claims kind m = Some (Inr p)"
  obtains document_id ss cs cands cited where "document_id = document_key (normalized_title title) content"
    "split_sections document_id content = Inr ss" "ss \<noteq> []" "build_chunks document_id m ss [] = Some (Inr cs)" "cs \<noteq> []"
    "normalize_claim_candidates claims = Inr cands" "cite_claims document_id content cs cands = Inr cited"
    "pil_sections p = ss" "pil_chunks p = cs" "pil_evidence p = map fst cited" "pil_claims p = map snd cited"
    "pil_conflicts p = conflict_candidates document_id (map snd cited)" "doc_id (pil_document p) = document_id"
    "doc_section_count (pil_document p) = length ss" "doc_chunk_count (pil_document p) = length cs" "pil_offline_only p"
  using b unfolding build_offline_document_pilot_def Let_def
  by (auto split: if_splits sum.splits option.splits intro: that)

lemma nonblank_chunks:
  assumes m: "0 < m" and c: "py_strip content \<noteq> []"
  obtains s ss cs where "split_sections k content = Inr (s # ss)" "build_chunks k m (s # ss) [] = Some (Inr cs)" "cs \<noteq> []"
proof -
  obtain s ss where ss: "split_sections k content = Inr (s # ss)" using build_nonblank[OF c] by blast
  then obtain cs where cs: "build_chunks k m (s # ss) [] = Some (Inr cs)"
    "\<And>i. covered (map section_range (s # ss)) i \<Longrightarrow> \<not> is_space (content ! nat i) \<Longrightarrow> covered (map chunk_range cs) i"
    using build_chunks_facts[OF m ss] by metis
  have "trimmed_span content (sec_start s) (sec_end s)"
    using split_sections_facts(1)[OF ss] by (simp add: sections_ok_def section_ok_def)
  then have "covered (map chunk_range cs) (sec_start s)" by (intro cs(2)) (auto simp: trimmed_span_def)
  then have "cs \<noteq> []" by auto
  then show thesis using that ss cs(1) by blast
qed

lemma pilot_without_claims:
  assumes "0 < m" "py_strip content \<noteq> []"
  shows "\<exists>p. build_offline_document_pilot title content [] kind m = Some (Inr p)"
proof -
  define k where "k = document_key (normalized_title title) content"
  obtain s ss cs where "split_sections k content = Inr (s # ss)" "build_chunks k m (s # ss) [] = Some (Inr cs)" "cs \<noteq> []"
    by (rule nonblank_chunks[OF assms])
  then show ?thesis using assms(2)
    by (simp add: build_offline_document_pilot_def normalize_claim_candidates_def cite_claims_def Let_def
      del: build_chunks.simps flip: k_def)
qed

lemma covered_once:
  "ordered_in lo hi rs \<Longrightarrow> covered rs i \<Longrightarrow> length (filter (\<lambda>(a, b). a \<le> i \<and> i < b) rs) = 1"
proof (induction lo hi rs rule: ordered_in.induct)
  case (2 lo hi a b rs)
  show ?case
  proof (cases "i < b")
    case True
    have "\<not> (x \<le> i \<and> i < y)" if "(x, y) \<in> set rs" for x y
      using ordered_in_mem[of b hi rs x y] that 2 True by auto
    then have "filter (\<lambda>(a, b). a \<le> i \<and> i < b) rs = []" "\<not> covered rs i"
      by (auto simp: filter_empty_conv covered_def list_ex_iff)
    then show ?thesis using 2 True by simp
  qed (use 2 in auto)
qed simp

lemma cite_claim_ok:
  assumes "cite_claim k content cs n c = Inr (e, q)"
  shows "0 \<le> ev_start e \<and> ev_start e < ev_end e \<and> ev_end e \<le> int (length content) \<and>
    ev_excerpt e = py_slice content (ev_start e) (ev_end e) \<and>
    py_join '' '' (py_split (ev_excerpt e)) = py_join '' '' (py_split (cand_snippet c)) \<and>
    clm_evidence q = ev_id e \<and> clm_chunk q = ev_chunk e \<and>
    (\<exists>h \<in> set cs. chk_id h = ev_chunk e \<and> chk_start h \<le> ev_start e \<and> ev_end e \<le> chk_end h)"
proof -
  obtain a b where l: "locate_evidence_span content (cand_snippet c) = Inr (a, b)"
    using assms by (auto simp: cite_claim_def split: sum.splits)
  then obtain h where h: "find_chunk_for_span cs a b = Inr h" using assms by (auto simp: cite_claim_def split: sum.splits)
  then have "find (\<lambda>c. chk_start c \<le> a \<and> b \<le> chk_end c) cs = Some h"
    by (auto simp: find_chunk_for_span_def split: option.splits)
  then have "h \<in> set cs" "chk_start h \<le> a" "b \<le> chk_end h" by (auto simp: find_Some_iff)
  moreover have "ev_start e = a" "ev_end e = b" "ev_excerpt e = py_slice content a b" "ev_chunk e = chk_id h"
    "clm_evidence q = ev_id e" "clm_chunk q = ev_chunk e"
    using assms by (auto simp: cite_claim_def l h Let_def)
  ultimately show ?thesis using locate_evidence_span_ok[OF l] by auto
qed

lemma chunk_ok_mem: "chunks_ok k content m ss hi cs \<Longrightarrow> h \<in> set cs \<Longrightarrow> \<exists>n. chunk_ok k content m ss n h"
  using enumerate_mem[of h cs 1] by (auto simp: chunks_ok_def list_all_iff)

text \<open>A one-line document with two claims that disagree, for the examples below.\<close>

definition sky_text :: string where
  "sky_text = ''It is blue. It is red.''"

definition sky_claims :: "claim_input list" where
  "sky_claims =
     [Candidate \<lparr>cand_subject = ''sky'', cand_predicate = ''color'', cand_object = ''blue'', cand_snippet = ''It is blue'',
        cand_type = ''relation'', cand_id = ''a''\<rparr>,
      Candidate \<lparr>cand_subject = ''sky'', cand_predicate = ''color'', cand_object = ''red'', cand_snippet = ''It  is red'',
        cand_type = ''relation'', cand_id = ''b''\<rparr>]"

lemma sky_pilot:
  "\<exists>p. build_offline_document_pilot ''Sky'' sky_text sky_claims [] 100 = Some (Inr p) \<and> length (pil_evidence p) = 2 \<and>
     map clm_id (pil_claims p) = [''a'', ''b''] \<and> map clm_subject (pil_claims p) = [''sky'', ''sky''] \<and>
     map clm_predicate (pil_claims p) = [''color'', ''color''] \<and> map clm_object (pil_claims p) = [''blue'', ''red'']"
proof -
  define k where "k = document_key (normalized_title ''Sky'') sky_text"
  have t: "trim_span sky_text 0 22 = Inr (0, 22, sky_text)" by code_simp
  have l: "length sky_text = 22" "sky_text \<noteq> []" "py_strip sky_text \<noteq> []" by (code_simp, simp add: sky_text_def, code_simp)
  have sp: "py_splitlines sky_text = [sky_text]" "\<not> is_heading sky_text" by code_simp+
  have "split_sections k sky_text = Inr [\<lparr>sec_id = numbered k ''section'' 1, sec_document = k, sec_heading = ''Document'',
      sec_order = 1, sec_start = 0, sec_end = 22, sec_text = sky_text\<rparr>]"
    using t l sp by (simp add: split_sections_def section_line_def flush_section_def no_sections_def Let_def)
  moreover have r: "split_chunk_ranges sky_text 100 = Some [(0, 22)]" by code_simp
  ultimately obtain s c where sc: "split_sections k sky_text = Inr [s]" "build_chunks k 100 [s] [] = Some (Inr [c])"
    "chk_start c = 0" "chk_end c = 22" using t l by simp
  have lo: "locate_evidence_span sky_text ''It is blue'' = Inr (0, 10)" "locate_evidence_span sky_text ''It  is red'' = Inr (12, 21)"
    by code_simp+
  show ?thesis using sc lo l(3)
    by (simp add: build_offline_document_pilot_def normalize_claim_candidates_def normalize_claim_def candidate_of_def
      sky_claims_def cite_claims_def cite_claim_def find_chunk_for_span_def Let_def del: build_chunks.simps flip: k_def)
qed

section \<open>Properties\<close>

text \<open>
  C12: for a text that is not blank and a chunk bound that is not negative, building the pilot runs forever exactly
  when the bound is 0.
\<close>

theorem pilot_returns_unless_zero:
  assumes "py_strip content \<noteq> []" "0 \<le> m"
  shows "build_offline_document_pilot title content claims kind m = None \<longleftrightarrow> m = 0"
proof -
  define k where "k = document_key (normalized_title title) content"
  obtain s ss where ss: "split_sections k content = Inr (s # ss)" using build_nonblank[OF assms(1)] by blast
  show ?thesis
  proof (cases "m = 0")
    case True
    have "split_chunk_ranges (sec_text s) 0 = None"
      using first_section_trimmed[OF split_sections_facts(1)[OF ss]] by (intro split_chunk_ranges_zero) simp
    then show ?thesis using assms ss True by (simp add: build_offline_document_pilot_def Let_def flip: k_def)
  next
    case False
    then obtain cs where "build_chunks k m (s # ss) [] = Some (Inr cs)" using build_chunks_facts[of m, OF _ ss] assms(2) by auto
    then show ?thesis using assms ss False
      by (simp add: build_offline_document_pilot_def Let_def del: build_chunks.simps flip: k_def)
  qed
qed

theorem pilot_returns_unless_zero_witness:
  "build_offline_document_pilot ''T'' ''a b'' [] [] 0 = None"
  using pilot_returns_unless_zero[of "''a b''" 0 "''T''" "[]" "[]"] by (simp add: strip_nonblank is_space_def)

text \<open>
  With a positive chunk bound the sections and the chunks of a pilot are trimmed slices of the document, numbered
  in order, one after the other without overlap; every chunk lies in its own section and is at most as long as the bound.
\<close>

theorem chunks_are_bounded_slices:
  assumes "build_offline_document_pilot title content claims kind m = Some (Inr p)" "0 < m"
  shows "sections_ok (doc_id (pil_document p)) content (int (length content)) (pil_sections p) \<and>
    chunks_ok (doc_id (pil_document p)) content m (pil_sections p) (int (length content)) (pil_chunks p)"
proof -
  from assms(1) show ?thesis
  proof (rule built_pilot)
    fix k ss cs
    assume ss: "split_sections k content = Inr ss" and cs: "build_chunks k m ss [] = Some (Inr cs)"
      and p: "pil_sections p = ss" "pil_chunks p = cs" "doc_id (pil_document p) = k"
    show ?thesis using build_chunks_facts[OF assms(2) ss] split_sections_facts(1)[OF ss] cs p
      by (metis option.inject sum.inject(2))
  qed
qed

theorem chunks_are_bounded_slices_witness:
  "\<exists>p. build_offline_document_pilot ''T'' ''a b'' [] [] 1 = Some (Inr p) \<and>
     sections_ok (doc_id (pil_document p)) ''a b'' (int (length ''a b'')) (pil_sections p) \<and>
     chunks_ok (doc_id (pil_document p)) ''a b'' 1 (pil_sections p) (int (length ''a b'')) (pil_chunks p)"
proof -
  have "py_strip ''a b'' \<noteq> []" by code_simp
  then obtain p where "build_offline_document_pilot ''T'' ''a b'' [] [] 1 = Some (Inr p)"
    using pilot_without_claims[of 1] by fastforce
  then show ?thesis using chunks_are_bounded_slices[of "''T''" "''a b''" "[]" "[]" 1 p] by (intro exI[of _ p]) simp
qed

text \<open>
  C14: no text is lost and none is repeated: every character that is not a space and not part of a heading line lies in
  exactly one chunk.
\<close>

theorem text_lies_in_one_chunk:
  assumes "build_offline_document_pilot title content claims kind m = Some (Inr p)" "0 < m"
    and i: "i < length content" "\<not> is_space (content ! i)" "\<not> in_heading content (int i)"
  shows "length (filter (\<lambda>c. chk_start c \<le> int i \<and> int i < chk_end c) (pil_chunks p)) = 1"
proof -
  from assms(1) show ?thesis
  proof (rule built_pilot)
    fix k ss cs
    assume ss: "split_sections k content = Inr ss" and cs: "build_chunks k m ss [] = Some (Inr cs)" and p: "pil_chunks p = cs"
    obtain cs' where cs': "build_chunks k m ss [] = Some (Inr cs')" "chunks_ok k content m ss (int (length content)) cs'"
      "covered (map section_range ss) (int i) \<Longrightarrow> \<not> is_space (content ! nat (int i)) \<Longrightarrow> covered (map chunk_range cs') (int i)"
      using build_chunks_facts[OF assms(2) ss] by metis
    then have "covered (map chunk_range cs) (int i)"
      using split_sections_facts(2)[OF ss, of "int i"] i cs by auto
    moreover have "ordered_in 0 (int (length content)) (map chunk_range cs)" using cs cs' by (simp add: chunks_ok_def)
    ultimately have "length (filter (\<lambda>(a, b). a \<le> int i \<and> int i < b) (map chunk_range cs)) = 1" by (intro covered_once)
    then show ?thesis by (simp add: p filter_map comp_def chunk_range_def)
  qed
qed

theorem text_lies_in_one_chunk_witness:
  "\<exists>p. build_offline_document_pilot ''T'' ''a b'' [] [] 1 = Some (Inr p) \<and>
     length (filter (\<lambda>c. chk_start c \<le> int 2 \<and> int 2 < chk_end c) (pil_chunks p)) = 1"
proof -
  have h: "py_strip ''a b'' \<noteq> []" "\<not> is_space (''a b'' ! 2)" "\<not> in_heading ''a b'' (int 2)" by code_simp+
  then obtain p where p: "build_offline_document_pilot ''T'' ''a b'' [] [] 1 = Some (Inr p)"
    using pilot_without_claims[of 1] by fastforce
  show ?thesis using text_lies_in_one_chunk[OF p _ _ h(2,3)] p by auto
qed

text \<open>
  C13: the evidence of the n-th claim is a slice of the document that has the words of the claim's snippet, and it lies
  inside the chunk the evidence and the claim name; there it reads the same.
\<close>

theorem evidence_quotes_its_snippet:
  assumes "build_offline_document_pilot title content claims kind m = Some (Inr p)" "0 < m"
    and "n < length (pil_evidence p)" "e = pil_evidence p ! n"
  shows "ev_excerpt e = py_slice content (ev_start e) (ev_end e) \<and>
    py_join '' '' (py_split (ev_excerpt e)) = py_join '' '' (py_split (cand_snippet (candidate_of (claims ! n)))) \<and>
    clm_evidence (pil_claims p ! n) = ev_id e \<and> clm_chunk (pil_claims p ! n) = ev_chunk e \<and>
    (\<exists>h \<in> set (pil_chunks p). chk_id h = ev_chunk e \<and>
       py_slice (chk_text h) (ev_start e - chk_start h) (ev_end e - chk_start h) = ev_excerpt e)"
  using assms(1)
proof (rule built_pilot)
  fix k ss cs cands cited
  assume ss: "split_sections k content = Inr ss" and cs: "build_chunks k m ss [] = Some (Inr cs)"
    and cands: "normalize_claim_candidates claims = Inr cands" and cited: "cite_claims k content cs cands = Inr cited"
    and p: "pil_chunks p = cs" "pil_evidence p = map fst cited" "pil_claims p = map snd cited"
  have c: "chunks_ok k content m ss (int (length content)) cs"
    using build_chunks_facts[OF assms(2) ss] cs by (metis option.inject sum.inject(2))
  have n: "n < length cited" using assms(3) p by simp
  obtain q where q: "cited ! n = (e, q)" using assms(4) p n by (cases "cited ! n") auto
  have "length cited = length (enumerate 1 cands)" "cite_claim k content cs (1 + n) (cands ! n) = Inr (e, q)"
    using map_result_Inr[OF cited[unfolded cite_claims_def]] n q by (auto simp: nth_enumerate_eq)
  note ok = cite_claim_ok[OF this(2)] and len = this(1)
  have nl: "n < length claims" and "normalize_claim (claims ! n) = Inr (cands ! n)"
    using map_result_Inr[OF cands[unfolded normalize_claim_candidates_def]] n len by auto
  then have sn: "cands ! n = candidate_of (claims ! n)" by (auto simp: normalize_claim_def Let_def split: if_splits)
  obtain h where h: "h \<in> set cs" "chk_id h = ev_chunk e" "chk_start h \<le> ev_start e" "ev_end e \<le> chk_end h" using ok by blast
  obtain j where j: "chunk_ok k content m ss j h" using chunk_ok_mem[OF c h(1)] by blast
  have "ordered_in 0 (int (length content)) (map chunk_range cs)" "(chk_start h, chk_end h) \<in> set (map chunk_range cs)"
    using c h(1) by (auto simp: chunks_ok_def chunk_range_def)
  note b = ordered_in_mem[OF this]
  have "py_slice (chk_text h) (ev_start e - chk_start h) (ev_end e - chk_start h) = ev_excerpt e"
    using j b h ok by (simp add: chunk_ok_def py_slice_slice)
  moreover have "pil_claims p ! n = q" using p n q by simp
  ultimately show ?thesis using ok h p sn by auto
qed

theorem evidence_quotes_its_snippet_witness:
  "\<exists>p e. build_offline_document_pilot ''Sky'' sky_text sky_claims [] 100 = Some (Inr p) \<and> e = pil_evidence p ! 1 \<and>
     py_join '' '' (py_split (ev_excerpt e)) = ''It is red''"
proof -
  obtain p where p: "build_offline_document_pilot ''Sky'' sky_text sky_claims [] 100 = Some (Inr p)" "length (pil_evidence p) = 2"
    using sky_pilot by blast
  have j: "py_join '' '' (py_split (cand_snippet (candidate_of (sky_claims ! 1)))) = ''It is red''" by code_simp
  have "(0::int) < 100" "1 < length (pil_evidence p)" using p(2) by simp_all
  then have "py_join '' '' (py_split (ev_excerpt (pil_evidence p ! 1))) = ''It is red''"
    using evidence_quotes_its_snippet[OF p(1) _ _ refl] j by metis
  with p(1) show ?thesis by (intro exI conjI) (assumption, rule refl)
qed

text \<open>
  A conflict is reported for a subject and a predicate exactly when two claims about them disagree on the object,
  and it lists the claims about them, in order.
\<close>

theorem conflicts_are_disagreements:
  assumes "build_offline_document_pilot title content claims kind m = Some (Inr p)"
  shows "(\<exists>k \<in> set (pil_conflicts p). conf_subject k = s \<and> conf_predicate k = q \<and> conf_claims k = ids) \<longleftrightarrow>
    ids = map clm_id (filter (\<lambda>c. clm_subject c = s \<and> clm_predicate c = q) (pil_claims p)) \<and>
    (\<exists>c \<in> set (pil_claims p). \<exists>c' \<in> set (pil_claims p). clm_subject c = s \<and> clm_predicate c = q \<and>
       clm_subject c' = s \<and> clm_predicate c' = q \<and> clm_object c \<noteq> clm_object c')"
  using assms
proof (rule built_pilot)
  fix k cited
  assume p: "pil_claims p = map snd cited" "pil_conflicts p = conflict_candidates k (map snd cited)"
  have "same_key s q = (\<lambda>c. clm_subject c = s \<and> clm_predicate c = q)" by (simp add: same_key_def fun_eq_iff)
  then show ?thesis unfolding p conflict_reported by auto
qed

theorem conflicts_are_disagreements_witness:
  "\<exists>p. build_offline_document_pilot ''Sky'' sky_text sky_claims [] 100 = Some (Inr p) \<and>
     (\<exists>k \<in> set (pil_conflicts p). conf_subject k = ''sky'' \<and> conf_predicate k = ''color'' \<and> conf_claims k = [''a'', ''b''])"
proof -
  obtain p where p: "build_offline_document_pilot ''Sky'' sky_text sky_claims [] 100 = Some (Inr p)"
    "map clm_id (pil_claims p) = [''a'', ''b'']" "map clm_subject (pil_claims p) = [''sky'', ''sky'']"
    "map clm_predicate (pil_claims p) = [''color'', ''color'']" "map clm_object (pil_claims p) = [''blue'', ''red'']"
    using sky_pilot by (elim exE conjE) (rule that)
  then obtain c c' where c: "pil_claims p = [c, c']" by (auto simp: map_eq_Cons_conv)
  have f: "clm_subject c = ''sky''" "clm_predicate c = ''color''" "clm_subject c' = ''sky''" "clm_predicate c' = ''color''"
    "clm_id c = ''a''" "clm_id c' = ''b''" "clm_object c \<noteq> clm_object c'" using p(2-5) unfolding c by simp_all
  have "[''a'', ''b''] = map clm_id (filter (\<lambda>x. clm_subject x = ''sky'' \<and> clm_predicate x = ''color'') (pil_claims p))"
    unfolding c using f by simp
  moreover have "c \<in> set (pil_claims p)" "c' \<in> set (pil_claims p)" by (simp_all add: c)
  ultimately have "\<exists>k \<in> set (pil_conflicts p). conf_subject k = ''sky'' \<and> conf_predicate k = ''color'' \<and> conf_claims k = [''a'', ''b'']"
    by (intro conflicts_are_disagreements[OF p(1), THEN iffD2] conjI bexI[of _ c] bexI[of _ c'] f)
  with p(1) show ?thesis by (intro exI conjI)
qed

text \<open>A pilot that cannot be built raises a ValueError; without claims, every text that is not blank gives a pilot.\<close>

theorem pilot_errors:
  assumes "0 < m"
  shows "(case build_offline_document_pilot title content claims kind m of None \<Rightarrow> False
      | Some (Inl e) \<Rightarrow> e = ValueError \<and> (py_strip content = [] \<or> claims \<noteq> []) | Some (Inr p) \<Rightarrow> py_strip content \<noteq> [])"
proof (cases "py_strip content = []")
  case True
  then show ?thesis by (simp add: build_offline_document_pilot_def)
next
  case False
  define k where "k = document_key (normalized_title title) content"
  obtain s ss cs where ss: "split_sections k content = Inr (s # ss)" and cs: "build_chunks k m (s # ss) [] = Some (Inr cs)"
    and ne: "cs \<noteq> []" by (rule nonblank_chunks[OF assms False])
  have v1: "normalize_claim_candidates claims = Inl e \<Longrightarrow> e = ValueError \<and> claims \<noteq> []" for e
    unfolding normalize_claim_candidates_def
    by (induction claims) (auto simp: normalize_claim_def Let_def split: sum.splits if_splits)
  have v2: "map_result (\<lambda>(i, c). cite_claim k content cs i c) xs = Inl e \<Longrightarrow> e = ValueError \<and> xs \<noteq> []" for xs e
    by (induction xs) (auto simp: cite_claim_def locate_evidence_span_def find_chunk_for_span_def Let_def
      split: sum.splits if_splits option.splits prod.splits)
  have "claims = [] \<Longrightarrow> normalize_claim_candidates claims = Inr []" by (simp add: normalize_claim_candidates_def)
  then show ?thesis using False ss cs ne v1 v2[of "enumerate 1 _"]
    by (auto simp: build_offline_document_pilot_def Let_def cite_claims_def simp del: build_chunks.simps
      simp flip: k_def split: sum.splits)
qed

theorem pilot_errors_witness:
  "case build_offline_document_pilot ''T'' ''a b'' [] [] 1 of None \<Rightarrow> False
     | Some (Inl e) \<Rightarrow> e = ValueError \<and> (py_strip ''a b'' = [] \<or> [] \<noteq> ([] :: claim_input list)) | Some (Inr p) \<Rightarrow> py_strip ''a b'' \<noteq> []"
  using pilot_errors[where m = 1 and title = "''T''" and content = "''a b''" and claims = "[]" and kind = "[]"] by simp

end
