(* ===== verification/Transcript.thy ===== *)
theory Transcript
  imports PyText PyFloat
begin

text \<open>
  Transcripts (\<open>src/brainstack/transcript.py\<close>): a turn is kept as text with role prefixes, split into what each
  role said, and shortened at a boundary that keeps the addresses it holds. The regular expressions of
  the module are written as functions on ASCII text.
\<close>

section \<open>Lines and boundaries\<close>

text \<open>\<open>splitlines()\<close> without the line ends, \<open>rstrip()\<close> of a set of characters.\<close>

definition py_lines :: "string \<Rightarrow> string list" where
  "py_lines s = map (takeWhile (\<lambda>c. \<not> is_line_break c)) (py_splitlines s)"

definition py_rstrip_set :: "string \<Rightarrow> string \<Rightarrow> string" where
  "py_rstrip_set cs s = rev (dropWhile (\<lambda>c. c \<in> set cs) (rev s))"

definition py_rstrip :: "string \<Rightarrow> string" where
  "py_rstrip s = rev (dropWhile is_space (rev s))"

definition py_strip_set :: "string \<Rightarrow> string \<Rightarrow> string" where
  "py_strip_set cs s = py_rstrip_set cs (dropWhile (\<lambda>c. c \<in> set cs) s)"

definition one_line :: "string \<Rightarrow> string" where
  "one_line s = py_join '' '' (py_split s)"

definition normalize_multiline_text :: "pyval \<Rightarrow> string" where
  "normalize_multiline_text v =
     py_strip (py_join [CHR 0x0A] (filter (\<lambda>l. l \<noteq> []) (map one_line (py_lines (text_of v)))))"

text \<open>\<open>URL_LITERAL_RE\<close>: the address at the start of a text, and all addresses from left to right.\<close>

definition url_char :: "char \<Rightarrow> bool" where
  "url_char c \<longleftrightarrow> \<not> is_space c \<and> c \<notin> {CHR ''<'', CHR ''>'', CHR 0x22, CHR '')'', CHR '']''}"

definition url_at :: "string \<Rightarrow> string option" where
  "url_at s =
     (let n = (if py_startswith s ''https://'' then 8 else if py_startswith s ''http://'' then 7 else 0);
          body = takeWhile url_char (drop n s)
      in if n = 0 \<or> body = [] then None else Some (take n s @ body))"

lemma url_at_nonempty: "url_at s = Some u \<Longrightarrow> 0 < length u \<and> s \<noteq> []"
  by (auto simp: url_at_def py_startswith_def Let_def split: if_splits)

function url_literals :: "string \<Rightarrow> string list" where
  "url_literals s = (if s = [] then [] else case url_at s of Some u \<Rightarrow> u # url_literals (drop (length u) s)
     | None \<Rightarrow> url_literals (tl s))"
  by auto
termination by (relation "measure length") (use url_at_nonempty in auto)

declare url_literals.simps [simp del]

definition preserved_urls_of :: "string \<Rightarrow> string list" where
  "preserved_urls_of s = map (py_rstrip_set ''.,;:!?'') (url_literals s)"

definition append_preserved_urls :: "string \<Rightarrow> string \<Rightarrow> string list \<Rightarrow> string" where
  "append_preserved_urls snippet full_text urls =
     (if length snippet \<ge> length full_text then snippet
      else let suffix_urls = filter (\<lambda>u. u \<noteq> [] \<and> \<not> py_contains u snippet) urls
           in if suffix_urls = [] then snippet @ ''...'' else snippet @ ''... URLs: '' @ py_join '' '' suffix_urls)"

text \<open>The first position of a window, counted from its start, whose character passes a test.\<close>

definition first_index :: "(char \<Rightarrow> bool) \<Rightarrow> string \<Rightarrow> nat option" where
  "first_index p s = (let n = length (takeWhile (\<lambda>c. \<not> p c) s) in if n < length s then Some n else None)"

definition trunc_float :: "rat \<Rightarrow> int" where
  "trunc_float q = (if q < 0 then - \<lfloor>- q\<rfloor> else \<lfloor>q\<rfloor>)"

definition rfind_char :: "string \<Rightarrow> char \<Rightarrow> int" where
  "rfind_char s c = py_rfind [c] s 0 (int (length s))"

definition trim_snippet :: "string \<Rightarrow> int \<Rightarrow> int \<Rightarrow> string result" where
  "trim_snippet normalized max_len soft_overshoot =
     (let upper_bound = min (int (length normalized)) (max_len + max 0 soft_overshoot);
          forward_window = py_slice normalized max_len upper_bound
      in case first_index (\<lambda>c. c \<in> set ''.!?;:)]'') forward_window of
           Some i \<Rightarrow> Inr (py_rstrip (py_slice normalized 0 (max_len + int i + 1)))
         | None \<Rightarrow> (case first_index is_space forward_window of
             Some i \<Rightarrow> Inr (py_rstrip (py_slice normalized 0 (max_len + int i)))
           | None \<Rightarrow>
               (let backward_window = py_slice normalized 0 max_len;
                    boundary = Max (set (map (rfind_char backward_window) '' .,;:)''))
                in if overflows (of_int max_len) then Inl OverflowError
                   else if boundary \<ge> trunc_float (fmul (round64 (of_int max_len)) (round64 (6/10)))
                   then Inr (py_rstrip (py_slice backward_window 0 boundary))
                   else Inr (py_rstrip (py_slice normalized 0 (max 0 (max_len - 3)))))))"

definition trim_text_boundary :: "pyval \<Rightarrow> int \<Rightarrow> int \<Rightarrow> string result" where
  "trim_text_boundary v max_len soft_overshoot =
     (let normalized = one_line (text_of v)
      in if int (length normalized) \<le> max_len then Inr normalized
         else case trim_snippet normalized max_len soft_overshoot of Inl e \<Rightarrow> Inl e
           | Inr snippet \<Rightarrow> Inr (append_preserved_urls snippet normalized (preserved_urls_of normalized)))"

section \<open>The roles of a turn\<close>

definition ROLES :: "string list" where
  "ROLES = [''user'', ''assistant'', ''system'', ''tool'']"

text \<open>A role with its colon at the start of a text, in any case: the role and what follows.\<close>

definition role_at :: "string \<Rightarrow> (string \<times> string) option" where
  "role_at s =
     (case find (\<lambda>r. py_lower (take (length r) s) = r \<and> (case dropWhile is_space (drop (length r) s) of c # _ \<Rightarrow> c = CHR '':'' | [] \<Rightarrow> False)) ROLES of
        None \<Rightarrow> None
      | Some r \<Rightarrow> Some (r, dropWhile is_space (tl (dropWhile is_space (drop (length r) s)))))"

text \<open>\<open>INLINE_ROLE_PREFIX_RE\<close> at one position: a role at the start of the line, or after a bar with a space before it.\<close>

definition inline_at :: "bool \<Rightarrow> string \<Rightarrow> (string \<times> string) option" where
  "inline_at line_start s =
     (case (if line_start then role_at s else None) of Some m \<Rightarrow> Some m
      | None \<Rightarrow>
          (let t = dropWhile is_space s
           in if s \<noteq> [] \<and> is_space (hd s) \<and> t \<noteq> [] \<and> hd t = CHR ''|'' then role_at (dropWhile is_space (tl t)) else None))"

text \<open>The next match of \<open>finditer\<close>: what is before it, its role, and what follows.\<close>

fun find_inline :: "bool \<Rightarrow> string \<Rightarrow> (string \<times> string \<times> string) option" where
  "find_inline line_start [] = None"
| "find_inline line_start (c # s) =
     (case inline_at line_start (c # s) of Some (role, rest) \<Rightarrow> Some ([], role, rest)
      | None \<Rightarrow> (case find_inline False s of None \<Rightarrow> None | Some (before, role, rest) \<Rightarrow> Some (c # before, role, rest)))"

lemma role_at_shorter: "role_at s = Some (r, t) \<Longrightarrow> length t < length s"
proof -
  assume r: "role_at s = Some (r, t)"
  define u where "u = dropWhile is_space (drop (length r) s)"
  have t: "t = dropWhile is_space (tl u)" using r by (auto simp: role_at_def u_def split: option.splits)
  have "find (\<lambda>r. py_lower (take (length r) s) = r \<and> (case dropWhile is_space (drop (length r) s) of c # _ \<Rightarrow> c = CHR '':'' | [] \<Rightarrow> False)) ROLES = Some r"
    using r by (auto simp: role_at_def split: option.splits)
  then have "case u of c # _ \<Rightarrow> c = CHR '':'' | [] \<Rightarrow> False" unfolding u_def find_Some_iff by blast
  then have "u \<noteq> []" by auto
  then have "length t < length u" using t by (metis length_dropWhile_le length_tl diff_less le_less_trans length_greater_0_conv zero_less_one)
  also have "length u \<le> length s" by (metis u_def diff_le_self length_drop length_dropWhile_le order_trans)
  finally show ?thesis .
qed

lemma inline_at_shorter: "inline_at b s = Some (r, t) \<Longrightarrow> length t < length s"
proof -
  assume a: "inline_at b s = Some (r, t)"
  have d: "length (dropWhile is_space (tl (dropWhile is_space s))) \<le> length s"
    by (metis diff_le_self length_dropWhile_le length_tl order_trans)
  show ?thesis using a role_at_shorter[of s r t] role_at_shorter[of "dropWhile is_space (tl (dropWhile is_space s))" r t] d
    by (auto simp: inline_at_def Let_def split: if_splits option.splits)
qed

lemma find_inline_shorter: "find_inline b s = Some (u, r, t) \<Longrightarrow> length t < length s"
proof (induction b s arbitrary: u rule: find_inline.induct)
  case (2 b c s)
  then show ?case using inline_at_shorter[of b "c # s"] by (auto split: option.splits)
qed simp

text \<open>The roles of the matches of a line, each with the text up to the next match.\<close>

function inline_bodies :: "string \<Rightarrow> string \<Rightarrow> (string \<times> string) list" where
  "inline_bodies role rest =
     (case find_inline False rest of None \<Rightarrow> [(role, rest)]
      | Some (body, role', rest') \<Rightarrow> (role, body) # inline_bodies role' rest')"
  by auto
termination by (relation "measure (\<lambda>(role, rest). length rest)") (auto dest: find_inline_shorter)

declare inline_bodies.simps [simp del]

definition inline_matches :: "string \<Rightarrow> (string \<times> string) list" where
  "inline_matches line = (case find_inline True line of None \<Rightarrow> [] | Some (before, role, rest) \<Rightarrow> inline_bodies role rest)"

type_synonym turn_parts = "(string \<times> string list) list"

definition add_part :: "string \<Rightarrow> string \<Rightarrow> turn_parts \<Rightarrow> turn_parts" where
  "add_part role body parts = map (\<lambda>(k, ls). if k = role then (k, ls @ [body]) else (k, ls)) parts"

definition add_body :: "string \<Rightarrow> string \<Rightarrow> turn_parts \<Rightarrow> turn_parts" where
  "add_body role body parts = (if body = [] then parts else add_part role body parts)"

definition turn_match :: "string \<times> string \<Rightarrow> turn_parts \<times> string \<Rightarrow> turn_parts \<times> string" where
  "turn_match m st = (case (m, st) of ((role, text), (parts, current)) \<Rightarrow>
     (add_body role (py_strip_set '' |'' text) parts, role))"

definition turn_line :: "string \<Rightarrow> turn_parts \<times> string \<Rightarrow> turn_parts \<times> string" where
  "turn_line raw st =
     (let cleaned = one_line raw
      in if cleaned = [] then st
         else if inline_matches cleaned \<noteq> [] then fold turn_match (inline_matches cleaned) st
         else case find (\<lambda>r. py_startswith (py_lower cleaned) (r @ '':'')) ROLES of
           Some r \<Rightarrow> (add_body r (py_strip (drop (length r + 1) cleaned)) (fst st), r)
         | None \<Rightarrow> (add_part (snd st) cleaned (fst st), snd st))"

definition empty_parts :: turn_parts where
  "empty_parts = map (\<lambda>k. (k, [])) (ROLES @ [''other''])"

definition split_turn_content :: "pyval \<Rightarrow> (string \<times> string) list" where
  "split_turn_content content =
     map (\<lambda>(k, ls). (k, py_strip (py_join [CHR 0x0A] ls))) (fst (fold turn_line (py_lines (text_of content)) (empty_parts, ''other'')))"

definition part_of :: "(string \<times> string) list \<Rightarrow> string \<Rightarrow> string" where
  "part_of parts k = (case map_of parts k of Some s \<Rightarrow> s | None \<Rightarrow> [])"

definition primary_user_turn_content :: "pyval \<Rightarrow> string" where
  "primary_user_turn_content content =
     (let user = py_strip (part_of (split_turn_content content) ''user'')
      in if user \<noteq> [] then user else normalize_multiline_text content)"

definition format_turn_content :: "string \<Rightarrow> string \<Rightarrow> string" where
  "format_turn_content user_content assistant_content =
     py_strip (''User: '' @ normalize_multiline_text (PStr user_content) @ [CHR 0x0A] @ ''Assistant: '' @
       normalize_multiline_text (PStr assistant_content))"

definition build_turn_summary :: "string \<Rightarrow> string \<Rightarrow> int \<Rightarrow> string result" where
  "build_turn_summary user_content assistant_content max_len =
     (case trim_text_boundary (PStr user_content) max_len 24 of Inl e \<Rightarrow> Inl e
      | Inr user \<Rightarrow> (case trim_text_boundary (PStr assistant_content) max_len 24 of Inl e \<Rightarrow> Inl e
        | Inr assistant \<Rightarrow> Inr (py_strip (''user: '' @ user @ '' | assistant: '' @ assistant))))"

text \<open>\<open>xs[-n:]\<close>; \<open>-0\<close> is 0, so all of the list, and a negative \<open>n\<close> drops from the front.\<close>

definition last_items :: "int \<Rightarrow> 'a list \<Rightarrow> 'a list" where
  "last_items n xs = (let k = - n; len = int (length xs) in drop (nat (if k < 0 then max 0 (len + k) else min len k)) xs)"

definition snapshot_line :: "pydict \<Rightarrow> string list result" where
  "snapshot_line message =
     (let role = py_strip (py_str (dget_default message ''role'' (PStr ''unknown''))); role' = (if role = [] then ''unknown'' else role)
      in case trim_text_boundary (dget_default message ''content'' (PStr [])) 220 24 of Inl e \<Rightarrow> Inl e
         | Inr content \<Rightarrow> Inr (if content = [] then [] else [role' @ '': '' @ content]))"

definition build_transcript_snapshot :: "pydict list \<Rightarrow> string \<Rightarrow> int \<Rightarrow> string result" where
  "build_transcript_snapshot messages label max_items =
     (case map_result snapshot_line (last_items max_items messages) of Inl e \<Rightarrow> Inl e
      | Inr liness \<Rightarrow> Inr (if concat liness = [] then [] else label @ '' | '' @ py_join '' | '' (concat liness)))"

text \<open>\<open>ROLE_PREFIX_RE.match\<close>\<close>

definition role_prefixed :: "string \<Rightarrow> bool" where
  "role_prefixed line \<longleftrightarrow> role_at (dropWhile is_space line) \<noteq> None"

definition count_role_prefixed_lines :: "pyval \<Rightarrow> nat" where
  "count_role_prefixed_lines v = length (filter role_prefixed (py_lines (text_of v)))"

definition looks_like_role_transcript_dump :: "pyval \<Rightarrow> bool" where
  "looks_like_role_transcript_dump v \<longleftrightarrow>
     length (filter (\<lambda>l. py_strip l \<noteq> []) (py_lines (text_of v))) \<ge> 3 \<and> count_role_prefixed_lines v \<ge> 2"

section \<open>Lemmas\<close>

text \<open>A clean line is words joined by single spaces, at least one.\<close>

definition clean_line :: "string \<Rightarrow> bool" where
  "clean_line l \<longleftrightarrow> l \<noteq> [] \<and> one_line l = l"

lemma is_word_no_break: "is_word w \<Longrightarrow> c \<in> set w \<Longrightarrow> \<not> is_line_break c"
  by (auto simp: is_word_def list_all_iff is_line_break_def is_space_def Let_def)

lemma blank_no_break: "\<not> is_line_break (CHR '' '')"
  by (simp add: is_line_break_def)

lemma join_words_no_break: "list_all is_word ws \<Longrightarrow> c \<in> set (py_join '' '' ws) \<Longrightarrow> \<not> is_line_break c"
  by (induction "'' ''" ws rule: py_join.induct) (auto dest: is_word_no_break simp: blank_no_break)

lemma one_line_no_break: "c \<in> set (one_line s) \<Longrightarrow> \<not> is_line_break c"
  using join_words_no_break[OF py_split_words] by (auto simp: one_line_def)

lemma one_line_idem [simp]: "one_line (one_line s) = one_line s"
  by (simp add: one_line_def py_split_join[OF py_split_words])

lemma one_line_ends: "one_line s \<noteq> [] \<Longrightarrow> \<not> is_space (hd (one_line s)) \<and> \<not> is_space (last (one_line s))"
  using join_words_ends[OF py_split_words[of s]] by (cases "py_split s = []") (auto simp: one_line_def)

lemma clean_line_no_break: "clean_line l \<Longrightarrow> c \<in> set l \<Longrightarrow> \<not> is_line_break c"
  using one_line_no_break[of c l] by (simp add: clean_line_def)

lemma clean_line_ends: "clean_line l \<Longrightarrow> l \<noteq> [] \<and> \<not> is_space (hd l) \<and> \<not> is_space (last l)"
  using one_line_ends[of l] by (simp add: clean_line_def)

lemma line_acc_no_break: "\<forall>c \<in> set l. \<not> is_line_break c \<Longrightarrow> line_acc acc (l @ s) = line_acc (rev l @ acc) s"
  by (induction l arbitrary: acc) auto

lemma newline_break [simp]: "is_line_break (CHR 0x0A)"
  by (simp add: is_line_break_def)

lemma py_lines_Cons:
  "\<forall>c \<in> set l. \<not> is_line_break c \<Longrightarrow> py_lines (l @ CHR 0x0A # s) = l # py_lines s"
  by (simp add: py_lines_def py_splitlines_def line_acc_no_break takeWhile_append2)

lemma py_lines_last: "\<forall>c \<in> set l. \<not> is_line_break c \<Longrightarrow> py_lines l = (if l = [] then [] else [l])"
  using line_acc_no_break[of l "[]" "[]"] by (auto simp: py_lines_def py_splitlines_def takeWhile_eq_all_conv)

definition unlines :: "string list \<Rightarrow> string" where
  "unlines ls = py_join [CHR 0x0A] ls"

lemma unlines_Cons: "unlines (l # ls) = (if ls = [] then l else l @ CHR 0x0A # unlines ls)"
  by (cases ls) (auto simp: unlines_def)

lemma py_lines_unlines: "list_all clean_line ls \<Longrightarrow> py_lines (unlines ls) = ls"
proof (induction ls)
  case (Cons l ls)
  then show ?case using py_lines_Cons[of l "unlines ls"] py_lines_last[of l] clean_line_no_break clean_line_ends
    by (auto simp: unlines_Cons)
qed (simp add: unlines_def py_lines_def py_splitlines_def)

lemma unlines_ends:
  "list_all clean_line ls \<Longrightarrow> ls \<noteq> [] \<Longrightarrow> unlines ls \<noteq> [] \<and> \<not> is_space (hd (unlines ls)) \<and> \<not> is_space (last (unlines ls))"
proof (induction ls)
  case (Cons l ls)
  then show ?case using clean_line_ends[of l] by (cases "ls = []") (auto simp: unlines_Cons hd_append)
qed simp

lemma strip_ends: "s \<noteq> [] \<Longrightarrow> \<not> is_space (hd s) \<Longrightarrow> \<not> is_space (last s) \<Longrightarrow> py_strip s = s"
  by (intro py_strip_idem_if) (cases s; auto)+

lemma strip_unlines: "list_all clean_line ls \<Longrightarrow> py_strip (unlines ls) = unlines ls"
  using unlines_ends[of ls] strip_ends[of "unlines ls"] by (cases "ls = []") (simp_all add: unlines_def py_strip_def)

definition clean_lines :: "pyval \<Rightarrow> string list" where
  "clean_lines v = filter (\<lambda>l. l \<noteq> []) (map one_line (py_lines (text_of v)))"

lemma clean_lines_clean: "list_all clean_line (clean_lines v)"
  by (auto simp: clean_lines_def list_all_iff clean_line_def)

lemma normalize_lines: "normalize_multiline_text v = unlines (clean_lines v)"
  using strip_unlines[OF clean_lines_clean[of v]] by (simp add: normalize_multiline_text_def clean_lines_def unlines_def)

section \<open>A formatted turn is split back\<close>

text \<open>A line that no role prefix interrupts and no bar begins or ends.\<close>

definition quiet_line :: "string \<Rightarrow> bool" where
  "quiet_line l \<longleftrightarrow> inline_matches l = [] \<and> py_strip_set '' |'' l = l"

lemma inline_bodies_ne [simp]: "inline_bodies r t \<noteq> []"
  by (subst inline_bodies.simps) (auto split: option.splits)

lemma inline_matches_Nil: "inline_matches l = [] \<longleftrightarrow> find_inline True l = None"
  by (auto simp: inline_matches_def split: option.splits)

lemma inline_at_False: "inline_at True s = None \<Longrightarrow> inline_at False s = None"
  by (auto simp: inline_at_def split: option.splits)

lemma find_inline_False: "find_inline True s = None \<Longrightarrow> find_inline False s = None"
  using inline_at_False by (cases s) (auto split: option.splits)

lemma not_space_colon [simp]: "\<not> is_space (CHR '':'')" and space_blank [simp]: "is_space (CHR '' '')"
  by (simp_all add: is_space_def)

lemma dropWhile_blank: "t = [] \<or> \<not> is_space (hd t) \<Longrightarrow> dropWhile is_space (CHR '' '' # t) = t"
  by (cases t) auto

lemma role_user: "t = [] \<or> \<not> is_space (hd t) \<Longrightarrow> role_at (''User: '' @ t) = Some (''user'', t)"
  and role_assistant: "t = [] \<or> \<not> is_space (hd t) \<Longrightarrow> role_at (''Assistant: '' @ t) = Some (''assistant'', t)"
proof -
  have l: "py_lower ''User'' = ''user''" "py_lower ''Assi'' = ''assi''" "py_lower ''Assistant'' = ''assistant''" by code_simp+
  show "t = [] \<or> \<not> is_space (hd t) \<Longrightarrow> role_at (''User: '' @ t) = Some (''user'', t)"
    using dropWhile_blank[of t] by (simp add: role_at_def ROLES_def l)
  show "t = [] \<or> \<not> is_space (hd t) \<Longrightarrow> role_at (''Assistant: '' @ t) = Some (''assistant'', t)"
    using dropWhile_blank[of t] by (simp add: role_at_def ROLES_def l)
qed

lemma clean_prefix: "clean_line l \<Longrightarrow> list_all is_word ws \<Longrightarrow> ws \<noteq> [] \<Longrightarrow> one_line (py_join '' '' ws @ '' '' @ l) = py_join '' '' ws @ '' '' @ l"
proof -
  assume l: "clean_line l" and w: "list_all is_word ws" "ws \<noteq> []"
  have ls: "py_join '' '' (py_split l) = l" "py_split l \<noteq> []" using l by (auto simp: clean_line_def one_line_def)
  have j: "py_join '' '' (ws @ py_split l) = py_join '' '' ws @ '' '' @ py_join '' '' (py_split l)"
    using w(2) ls(2)
  proof (induction "'' ''" ws rule: py_join.induct)
    case (2 x)
    then show ?case by (cases "py_split l") auto
  qed auto
  have "one_line (py_join '' '' (ws @ py_split l)) = py_join '' '' (ws @ py_split l)"
    unfolding one_line_def using w(1) py_split_words[of l] by (subst py_split_join) auto
  then show ?thesis using j ls by simp
qed

definition user_line :: "string list \<Rightarrow> string" where
  "user_line ls = (if ls = [] then ''User:'' else ''User: '' @ hd ls)"

definition assistant_line :: "string list \<Rightarrow> string" where
  "assistant_line ls = (if ls = [] then ''Assistant:'' else ''Assistant: '' @ hd ls)"

lemma words_literal: "list_all is_word [''User:'']" "list_all is_word [''Assistant:'']"
  by (simp_all add: is_word_def is_space_def)

lemma prefix_clean:
  assumes "list_all clean_line ls"
  shows "clean_line (user_line ls)" "clean_line (assistant_line ls)"
proof -
  have u: "one_line ''User:'' = ''User:''" "one_line ''Assistant:'' = ''Assistant:''" by code_simp+
  show "clean_line (user_line ls)"
    using assms u clean_prefix[of "hd ls", OF _ words_literal(1)] by (cases ls) (auto simp: clean_line_def user_line_def)
  show "clean_line (assistant_line ls)"
    using assms u clean_prefix[of "hd ls", OF _ words_literal(2)] by (cases ls) (auto simp: clean_line_def assistant_line_def)
qed

lemma quiet_bodies: "find_inline True l = None \<Longrightarrow> inline_bodies r l = [(r, l)]"
  by (subst inline_bodies.simps) (simp add: find_inline_False)

lemma prefix_matches:
  assumes "list_all clean_line ls" "list_all quiet_line ls"
  shows "inline_matches (user_line ls) = [(''user'', concat (take 1 ls))]"
    "inline_matches (assistant_line ls) = [(''assistant'', concat (take 1 ls))]"
proof -
  have u: "inline_matches ''User:'' = [(''user'', [])]" "inline_matches ''Assistant:'' = [(''assistant'', [])]" by code_simp+
  have h: "t = hd ls \<Longrightarrow> ls \<noteq> [] \<Longrightarrow> find_inline True t = None \<and> (t = [] \<or> \<not> is_space (hd t))" for t
    using assms clean_line_ends[of t] by (cases ls) (auto simp: quiet_line_def inline_matches_Nil)
  have f: "find_inline True (c # s) = Some ([], r, t)" if "role_at (c # s) = Some (r, t)" for c s r t
    using that by (simp add: inline_at_def)
  show "inline_matches (user_line ls) = [(''user'', concat (take 1 ls))]"
  proof (cases ls)
    case (Cons t ts)
    then have "find_inline True (''User: '' @ t) = Some ([], ''user'', t)" using h[of t] role_user[of t] f by simp
    then show ?thesis using Cons h[of t] by (simp add: inline_matches_def user_line_def quiet_bodies)
  qed (simp add: user_line_def u)
  show "inline_matches (assistant_line ls) = [(''assistant'', concat (take 1 ls))]"
  proof (cases ls)
    case (Cons t ts)
    then have "find_inline True (''Assistant: '' @ t) = Some ([], ''assistant'', t)" using h[of t] role_assistant[of t] f by simp
    then show ?thesis using Cons h[of t] by (simp add: inline_matches_def assistant_line_def quiet_bodies)
  qed (simp add: assistant_line_def u)
qed

lemma char_lower_colon: "char_lower c = CHR '':'' \<Longrightarrow> c = CHR '':''"
proof (rule ccontr)
  assume a: "char_lower c = CHR '':''" "c \<noteq> CHR '':''"
  define n where "n = (of_char c :: nat)"
  have n: "65 \<le> n" "n \<le> 90" "char_of (n + 32) = CHR '':''"
    using a by (auto simp: char_lower_def n_def Let_def split: if_splits)
  then have "(of_char (char_of (n + 32) :: char) :: nat) = 58" by simp
  then show False using n(1,2) by simp
qed

text \<open>A quiet line is no role line either, so it continues the part of the role that spoke last.\<close>

lemma quiet_no_role:
  assumes "quiet_line l"
  shows "find (\<lambda>r. py_startswith (py_lower l) (r @ '':'')) ROLES = None"
proof -
  have "\<not> py_startswith (py_lower l) (r @ '':'')" if r: "r \<in> set ROLES" for r
  proof
    assume a: "py_startswith (py_lower l) (r @ '':'')"
    then have t: "take (length r + 1) (py_lower l) = r @ '':''" by (simp add: py_startswith_def)
    then have len: "length r + 1 \<le> length l" by (metis length_append_singleton length_take min.cobounded1 add.commute length_map min.absorb_iff2 plus_1_eq_Suc py_lower_def)
    have "py_lower (take (length r) l) = r" using t by (metis append_eq_conv_conj py_lower_def take_map take_take min.absorb1 le_add1)
    moreover have "char_lower (l ! length r) = CHR '':''"
      using t len by (metis One_nat_def add.right_neutral add_Suc_right lessI less_eq_Suc_le nth_append_length nth_map nth_take py_lower_def)
    then have "l ! length r = CHR '':''" by (rule char_lower_colon)
    ultimately have "role_at l \<noteq> None"
      using r len by (auto simp: role_at_def find_None_iff Cons_nth_drop_Suc[symmetric] split: option.splits)
    then show False using assms len by (cases l) (auto simp: quiet_line_def inline_matches_Nil inline_at_def split: option.splits)
  qed
  then show ?thesis by (auto simp: find_None_iff)
qed

lemma turn_line_quiet:
  "clean_line l \<Longrightarrow> quiet_line l \<Longrightarrow> turn_line l (parts, current) = (add_part current l parts, current)"
  using quiet_no_role[of l] by (auto simp: turn_line_def clean_line_def quiet_line_def Let_def)

lemma add_part_fold:
  "list_all clean_line ls \<Longrightarrow> list_all quiet_line ls \<Longrightarrow>
     fold turn_line ls (parts, current) = (map (\<lambda>(k, xs). if k = current then (k, xs @ ls) else (k, xs)) parts, current)"
proof (induction ls arbitrary: parts)
  case Nil
  show ?case by (auto intro!: map_idI[symmetric])
next
  case (Cons l ls)
  then show ?case by (auto simp: turn_line_quiet add_part_def)
qed

lemma turn_line_user:
  assumes "list_all clean_line ls" "list_all quiet_line ls"
  shows "turn_line (user_line ls) (parts, current) = (add_body ''user'' (concat (take 1 ls)) parts, ''user'')"
    "turn_line (assistant_line ls) (parts, current) = (add_body ''assistant'' (concat (take 1 ls)) parts, ''assistant'')"
proof -
  have s: "py_strip_set '' |'' (concat (take 1 ls)) = concat (take 1 ls)"
    using assms(2) by (cases ls) (auto simp: quiet_line_def py_strip_set_def py_rstrip_set_def)
  show "turn_line (user_line ls) (parts, current) = (add_body ''user'' (concat (take 1 ls)) parts, ''user'')"
    using prefix_clean(1)[OF assms(1)] prefix_matches(1)[OF assms] s
    by (simp add: turn_line_def clean_line_def Let_def turn_match_def)
  show "turn_line (assistant_line ls) (parts, current) = (add_body ''assistant'' (concat (take 1 ls)) parts, ''assistant'')"
    using prefix_clean(2)[OF assms(1)] prefix_matches(2)[OF assms] s
    by (simp add: turn_line_def clean_line_def Let_def turn_match_def)
qed

lemma turn_line_one_line: "turn_line (one_line l) st = turn_line l st"
  by (simp add: turn_line_def)

lemma unlines_append: "xs \<noteq> [] \<Longrightarrow> ys \<noteq> [] \<Longrightarrow> unlines (xs @ ys) = unlines xs @ CHR 0x0A # unlines ys"
  by (induction xs) (auto simp: unlines_Cons)

lemma strip_blank: "z \<noteq> [] \<Longrightarrow> \<not> is_space (hd z) \<Longrightarrow> \<not> is_space (last z) \<Longrightarrow> py_strip (z @ '' '') = z"
  using strip_ends[of z] by (cases z) (auto simp: py_strip_def)

lemma prefixed_unlines:
  "ls \<noteq> [] \<Longrightarrow> unlines (user_line ls # tl ls) = ''User: '' @ unlines ls"
  "ls \<noteq> [] \<Longrightarrow> unlines (assistant_line ls # tl ls) = ''Assistant: '' @ unlines ls"
  by (cases ls; simp add: user_line_def assistant_line_def unlines_Cons)+

lemma tl_clean: "list_all P ls \<Longrightarrow> list_all P (tl ls)"
  by (cases ls) auto

text \<open>The lines of a formatted turn, up to a space after the role of an empty user text.\<close>

lemma formatted_lines:
  assumes us: "list_all clean_line us" and as: "list_all clean_line as"
  shows "fold turn_line (py_lines (py_strip (''User: '' @ unlines us @ [CHR 0x0A] @ ''Assistant: '' @ unlines as))) st =
    fold turn_line (user_line us # tl us @ assistant_line as # tl as) st"
proof -
  have ca: "list_all clean_line (assistant_line as # tl as)" and cu: "list_all clean_line (user_line us # tl us)"
    using prefix_clean[OF as] prefix_clean[OF us] as us by (simp_all add: tl_clean)
  define tail where "tail = unlines (assistant_line as # tl as)"
  define front where "front = ''User: '' @ unlines us"
  have tail: "tail \<noteq> []" "\<not> is_space (last tail)" using unlines_ends[OF ca] by (simp_all add: tail_def)
  have front: "front \<noteq> []" "\<not> is_space (hd front)" by (simp_all add: front_def is_space_def)
  have body: "py_strip (''User: '' @ unlines us @ [CHR 0x0A] @ ''Assistant: '' @ unlines as) = front @ CHR 0x0A # tail"
  proof (cases "as = []")
    case True
    then have "tail = ''Assistant:''" by (simp add: tail_def assistant_line_def unlines_Cons)
    then have "''User: '' @ unlines us @ [CHR 0x0A] @ ''Assistant: '' @ unlines as = (front @ CHR 0x0A # tail) @ '' ''"
      using True by (simp add: front_def unlines_def)
    then show ?thesis using strip_blank[of "front @ CHR 0x0A # tail"] tail front by simp
  next
    case False
    then have "''User: '' @ unlines us @ [CHR 0x0A] @ ''Assistant: '' @ unlines as = front @ CHR 0x0A # tail"
      using prefixed_unlines(2)[OF False] by (simp add: front_def tail_def)
    then show ?thesis using strip_ends[of "front @ CHR 0x0A # tail"] tail front by simp
  qed
  have lt: "py_lines tail = assistant_line as # tl as" unfolding tail_def by (rule py_lines_unlines[OF ca])
  show ?thesis
  proof (cases "us = []")
    case True
    then have "front = ''User: ''" by (simp add: front_def unlines_def)
    then have "py_lines (front @ CHR 0x0A # tail) = ''User: '' # py_lines tail"
      using py_lines_Cons[of "''User: ''" tail] by (simp add: is_line_break_def)
    moreover have "one_line ''User: '' = user_line us" unfolding True user_line_def by code_simp
    then have "turn_line (user_line us) st = turn_line ''User: '' st" by (metis turn_line_one_line)
    ultimately show ?thesis using body lt True by simp
  next
    case False
    then have "front = unlines (user_line us # tl us)" by (simp add: prefixed_unlines front_def)
    then have "front @ CHR 0x0A # tail = unlines ((user_line us # tl us) @ (assistant_line as # tl as))"
      by (simp only: unlines_append tail_def list.distinct not_False_eq_True)
    then have "py_lines (front @ CHR 0x0A # tail) = (user_line us # tl us) @ (assistant_line as # tl as)"
      using ca cu by (simp only: py_lines_unlines list_all_append simp_thms)
    then show ?thesis using body by simp
  qed
qed

lemma folded_turn:
  assumes us: "list_all clean_line us" "list_all quiet_line us" and as: "list_all clean_line as" "list_all quiet_line as"
  shows "fst (fold turn_line (user_line us # tl us @ assistant_line as # tl as) (empty_parts, ''other'')) =
    [(''user'', us), (''assistant'', as), (''system'', []), (''tool'', []), (''other'', [])]"
proof -
  have b: "concat (take 1 ls) = [] \<longleftrightarrow> ls = []" "(if ls = [] then [] else [concat (take 1 ls)]) @ tl ls = ls"
    if "list_all clean_line ls" for ls using that by (cases ls; auto simp: clean_line_def)+
  note f = add_part_fold[OF tl_clean[OF us(1)] tl_clean[OF us(2)]] add_part_fold[OF tl_clean[OF as(1)] tl_clean[OF as(2)]]
  show ?thesis using b[OF us(1)] b[OF as(1)]
    by (auto simp: turn_line_user[OF us] turn_line_user[OF as] f empty_parts_def ROLES_def add_body_def add_part_def)
qed

section \<open>Shortening keeps the addresses\<close>

lemma contains_trans: "py_contains a b \<Longrightarrow> py_contains b c \<Longrightarrow> py_contains a c"
  unfolding py_contains_iff by (metis append.assoc)

lemma contains_ends: "py_contains p (a @ p @ b)" "py_contains p (p @ b)" "py_contains p (a @ p)"
  unfolding py_contains_iff by (metis append_Nil append_Nil2)+

lemma url_at_prefix: "url_at s = Some u \<Longrightarrow> py_contains u s"
proof -
  assume u: "url_at s = Some u"
  define n where "n = (if py_startswith s ''https://'' then 8 else if py_startswith s ''http://'' then 7 else (0::nat))"
  have "u = take n s @ takeWhile url_char (drop n s)" using u by (auto simp: url_at_def Let_def n_def split: if_splits)
  then have "s = u @ dropWhile url_char (drop n s)" by simp
  then show ?thesis using contains_ends(2) by metis
qed

lemma url_literals_contained: "u \<in> set (url_literals s) \<Longrightarrow> py_contains u s"
proof (induction s rule: url_literals.induct)
  case (1 s)
  then show ?case
  proof (cases "url_at s")
    case None
    then have "u \<in> set (url_literals (tl s))" "s \<noteq> []" using 1(3) by (auto simp: url_literals.simps[of s] split: if_splits)
    then have "py_contains u (tl s)" using 1(1,2) None \<open>s \<noteq> []\<close> by blast
    then show ?thesis using \<open>s \<noteq> []\<close> by (cases s) auto
  next
    case (Some w)
    then have "u = w \<or> u \<in> set (url_literals (drop (length w) s))" "s \<noteq> []"
      using 1(3) by (auto simp: url_literals.simps[of s] split: if_splits)
    moreover have "py_contains (drop n s) s" for n by (metis append_take_drop_id contains_ends(3))
    ultimately show ?thesis using 1(1,2) Some url_at_prefix contains_trans by metis
  qed
qed

lemma rstrip_contained: "py_contains (py_rstrip_set cs s) s"
proof -
  have "s = py_rstrip_set cs s @ rev (takeWhile (\<lambda>c. c \<in> set cs) (rev s))"
    unfolding py_rstrip_set_def by (metis rev_append rev_rev_ident takeWhile_dropWhile_id)
  then show ?thesis by (metis contains_ends(2))
qed

lemma preserved_contained: "u \<in> set (preserved_urls_of s) \<Longrightarrow> py_contains u s"
  unfolding preserved_urls_of_def by (auto intro: contains_trans[OF rstrip_contained url_literals_contained])

lemma join_contains: "u \<in> set us \<Longrightarrow> py_contains u (py_join sep us)"
proof (induction sep us rule: py_join.induct)
  case (3 sep x y ys)
  then show ?case using contains_ends(2)[of x "sep @ py_join sep (y # ys)"] contains_trans[OF _ contains_ends(3)[of "py_join sep (y # ys)" "x @ sep"]]
    by auto
qed (use contains_ends(2)[of _ "[]"] in auto)

lemma append_urls_contains:
  assumes "u \<in> set urls" "u \<noteq> []" "py_contains u full" "length snippet \<ge> length full \<Longrightarrow> snippet = full"
  shows "py_contains u (append_preserved_urls snippet full urls)"
proof (cases "length snippet \<ge> length full \<or> py_contains u snippet")
  case True
  have "py_contains u snippet" using True assms(3,4) by auto
  then show ?thesis using contains_trans[OF _ contains_ends(2)[of snippet]] by (auto simp: append_preserved_urls_def Let_def)
next
  case False
  then have m: "u \<in> set (filter (\<lambda>u. u \<noteq> [] \<and> \<not> py_contains u snippet) urls)" using assms by simp
  then have ne: "filter (\<lambda>u. u \<noteq> [] \<and> \<not> py_contains u snippet) urls \<noteq> []" by force
  show ?thesis using False ne join_contains[OF m, of "'' ''"] contains_trans[OF _ contains_ends(3)[of _ "snippet @ ''... URLs: ''"]]
    by (simp add: append_preserved_urls_def Let_def)
qed

lemma slice_prefix: "\<exists>b. s = py_slice s 0 k @ b"
proof -
  have "py_slice s 0 k = take (py_pos s k) s" by (simp add: py_slice_def py_pos_def)
  then show ?thesis by (metis append_take_drop_id)
qed

lemma rstrip_prefix: "\<exists>b. s = py_rstrip s @ b"
proof -
  have "s = py_rstrip s @ rev (takeWhile is_space (rev s))"
    unfolding py_rstrip_def by (metis rev_append rev_rev_ident takeWhile_dropWhile_id)
  then show ?thesis by blast
qed

lemma prefix_rstrip_slice: "\<exists>b. s = py_rstrip (py_slice s 0 k) @ b"
  using slice_prefix[of s k] rstrip_prefix[of "py_slice s 0 k"] by (metis append.assoc)

lemma length_rstrip_slice: "0 \<le> k \<Longrightarrow> int (length (py_rstrip (py_slice s 0 k))) \<le> k"
proof -
  assume k: "0 \<le> k"
  have "length (py_rstrip t) \<le> length t" for t by (metis py_rstrip_def length_dropWhile_le length_rev)
  moreover have "int (length (py_slice s 0 k)) \<le> k" using k by (simp add: py_slice_def py_pos_def)
  ultimately show ?thesis by (meson of_nat_le_iff order_trans)
qed

lemma first_index_less: "first_index p s = Some i \<Longrightarrow> i < length s"
  by (auto simp: first_index_def Let_def split: if_splits)

lemma trim_snippet_ok:
  assumes "trim_snippet t m soft = Inr snippet"
  shows "(\<exists>b. t = snippet @ b) \<and> (0 \<le> m \<longrightarrow> 0 \<le> soft \<longrightarrow> m \<le> int (length t) \<longrightarrow> int (length snippet) \<le> m + soft)"
proof -
  define hi where "hi = min (int (length t)) (m + max 0 soft)"
  define window where "window = py_slice t m hi"
  define bound where "bound = Max (set (map (rfind_char (py_slice t 0 m)) '' .,;:)''))"
  have w: "int (length window) \<le> hi - m" if "0 \<le> m" "0 \<le> soft" "m \<le> int (length t)"
    using that length_py_slice[of m hi t] by (simp add: window_def hi_def)
  consider (stop) i where "snippet = py_rstrip (py_slice t 0 (m + int i + 1))" "i < length window"
    | (blank) i where "snippet = py_rstrip (py_slice t 0 (m + int i))" "i < length window"
    | (behind) "snippet = py_rstrip (py_slice (py_slice t 0 m) 0 bound)"
    | (cut) "snippet = py_rstrip (py_slice t 0 (max 0 (m - 3)))"
    using assms first_index_less unfolding trim_snippet_def Let_def hi_def[symmetric] window_def[symmetric] bound_def[symmetric]
    by (auto split: option.splits if_splits)
  then show ?thesis
  proof cases
    case stop
    have "int (length snippet) \<le> m + soft" if "0 \<le> m" "0 \<le> soft" "m \<le> int (length t)"
      using length_rstrip_slice[of "m + int i + 1" t] w[OF that] stop that by (simp add: hi_def)
    then show ?thesis using prefix_rstrip_slice stop(1) by blast
  next
    case blank
    have "int (length snippet) \<le> m + soft" if "0 \<le> m" "0 \<le> soft" "m \<le> int (length t)"
      using length_rstrip_slice[of "m + int i" t] w[OF that] blank that by (simp add: hi_def)
    then show ?thesis using prefix_rstrip_slice blank(1) by blast
  next
    case behind
    obtain b where b: "py_slice t 0 m = snippet @ b" using prefix_rstrip_slice behind by blast
    obtain c where c: "t = py_slice t 0 m @ c" using slice_prefix by blast
    have "int (length (py_slice t 0 m)) \<le> m" if "0 \<le> m" using that by (simp add: py_slice_def py_pos_def)
    then have "0 \<le> m \<Longrightarrow> int (length snippet) \<le> m" using b by (metis le_add1 length_append of_nat_le_iff order_trans)
    then show ?thesis using b c by (metis add_increasing2 append.assoc)
  next
    case cut
    have "int (length snippet) \<le> m + soft" if "0 \<le> m" "0 \<le> soft"
      using length_rstrip_slice[of "max 0 (m - 3)" t] cut that by simp
    then show ?thesis using prefix_rstrip_slice cut by blast
  qed
qed

section \<open>Properties\<close>

text \<open>
  C26: a formatted turn is split back into the two texts it was made of, when no line of them looks like a role prefix
  or begins or ends with a bar.
\<close>

theorem turn_round_trip:
  assumes "list_all quiet_line (clean_lines (PStr user))" "list_all quiet_line (clean_lines (PStr assistant))"
  shows "split_turn_content (PStr (format_turn_content user assistant)) =
    [(''user'', normalize_multiline_text (PStr user)), (''assistant'', normalize_multiline_text (PStr assistant)),
     (''system'', []), (''tool'', []), (''other'', [])]"
proof -
  define us where "us = clean_lines (PStr user)"
  define as where "as = clean_lines (PStr assistant)"
  have c: "list_all clean_line us" "list_all clean_line as" by (simp_all add: us_def as_def clean_lines_clean)
  have t: "text_of (PStr s) = s" for s by (cases s) (simp_all add: text_of_def)
  have f: "format_turn_content user assistant = py_strip (''User: '' @ unlines us @ [CHR 0x0A] @ ''Assistant: '' @ unlines as)"
    by (simp add: format_turn_content_def normalize_lines us_def as_def)
  show ?thesis
    unfolding split_turn_content_def t f formatted_lines[OF c] folded_turn[OF c(1) assms(1)[folded us_def] c(2) assms(2)[folded as_def]]
    using strip_unlines[OF c(1)] strip_unlines[OF c(2)]
    by (simp add: normalize_lines us_def as_def unlines_def py_strip_def)
qed

theorem turn_round_trip_witness:
  "split_turn_content (PStr (format_turn_content ''a  b'' ''c'')) =
    [(''user'', ''a b''), (''assistant'', ''c''), (''system'', []), (''tool'', []), (''other'', [])]"
proof -
  have "list_all quiet_line (clean_lines (PStr ''a  b''))" "list_all quiet_line (clean_lines (PStr ''c''))" by code_simp+
  moreover have "normalize_multiline_text (PStr ''a  b'') = ''a b''" "normalize_multiline_text (PStr ''c'') = ''c''" by code_simp+
  ultimately show ?thesis using turn_round_trip[of "''a  b''" "''c''"] by simp
qed

text \<open>
  C28: shortening a text keeps every address in it, and what it keeps of the text is the text itself or a beginning of it that is
  no longer than the bound with its overshoot.
\<close>

theorem shortening_keeps_addresses:
  assumes "trim_text_boundary v m soft = Inr out" "0 \<le> m" "0 \<le> soft"
  shows "list_all (\<lambda>u. py_contains u out) (preserved_urls_of (one_line (text_of v))) \<and>
    (out = one_line (text_of v) \<or>
     (\<exists>snippet rest. one_line (text_of v) = snippet @ rest \<and> int (length snippet) \<le> m + soft \<and>
        out = append_preserved_urls snippet (one_line (text_of v)) (preserved_urls_of (one_line (text_of v)))))"
proof -
  define t where "t = one_line (text_of v)"
  show ?thesis unfolding t_def[symmetric]
  proof (cases "int (length t) \<le> m")
    case True
    then have "out = t" using assms(1) by (simp add: trim_text_boundary_def t_def)
    then show "list_all (\<lambda>u. py_contains u out) (preserved_urls_of t) \<and> (out = t \<or> (\<exists>snippet rest. t = snippet @ rest \<and>
      int (length snippet) \<le> m + soft \<and> out = append_preserved_urls snippet t (preserved_urls_of t)))"
      using preserved_contained by (auto simp: list_all_iff)
  next
    case False
    then obtain snippet where s: "trim_snippet t m soft = Inr snippet" "out = append_preserved_urls snippet t (preserved_urls_of t)"
      using assms(1) by (auto simp: trim_text_boundary_def Let_def simp flip: t_def split: sum.splits)
    obtain b where b: "t = snippet @ b" "int (length snippet) \<le> m + soft" using trim_snippet_ok[OF s(1)] assms False by auto
    have "py_contains u out" if "u \<in> set (preserved_urls_of t)" for u
    proof (cases "u = []")
      case False
      then show ?thesis unfolding s(2) using that b(1) preserved_contained[OF that] by (intro append_urls_contains) auto
    qed (simp add: py_contains_iff, blast)
    then show "list_all (\<lambda>u. py_contains u out) (preserved_urls_of t) \<and> (out = t \<or> (\<exists>snippet rest. t = snippet @ rest \<and>
      int (length snippet) \<le> m + soft \<and> out = append_preserved_urls snippet t (preserved_urls_of t)))"
      using b s(2) by (auto simp: list_all_iff)
  qed
qed

theorem shortening_keeps_addresses_witness:
  "trim_text_boundary (PStr ''aaaa http://x.y'') 2 3 = Inr ''aaaa... URLs: http://x.y'' \<and>
   list_all (\<lambda>u. py_contains u ''aaaa... URLs: http://x.y'') (preserved_urls_of (one_line (text_of (PStr ''aaaa http://x.y''))))"
proof -
  have t: "trim_text_boundary (PStr ''aaaa http://x.y'') 2 3 = Inr ''aaaa... URLs: http://x.y''" by code_simp
  show ?thesis using t shortening_keeps_addresses[OF t] by simp
qed

end
