(* ===== verification/OperatingTruth.thy ===== *)
theory OperatingTruth
  imports Transcript RecordMeta
begin

text \<open>
  Operating records (\<open>src/brainstack/operating_truth.py\<close>), their validity (\<open>operating_temporal.py\<close>) and the recap of a
  workstream (\<open>workstream_recap.py\<close>): where a record comes from, what authority that gives it, when it is
  current, and how rows are marked for the selection of evidence. Rows and metadata are dictionaries;
  the clock is an argument, read only when no time is given.
\<close>

section \<open>Identifiers of operating records\<close>

definition OPERATING_RECORD_TYPES :: "string list" where
  "OPERATING_RECORD_TYPES =
     [''active_work'', ''live_system_state'', ''recent_work_summary'', ''completed_outcome'', ''discarded_work'', ''open_decision'',
      ''current_commitment'', ''next_step'', ''external_owner_pointer'', ''runtime_approval_policy'', ''canonical_policy'',
      ''procedure_memory'', ''session_state'']"

definition OPERATING_SINGLETON_RECORD_TYPES :: "string list" where
  "OPERATING_SINGLETON_RECORD_TYPES = [''active_work'', ''recent_work_summary'']"

definition RECENT_WORK_RECAP_RECORD_TYPES :: "string list" where
  "RECENT_WORK_RECAP_RECORD_TYPES =
     [''recent_work_summary'', ''completed_outcome'', ''discarded_work'', ''active_work'', ''open_decision'', ''current_commitment'', ''next_step'']"

definition RECENT_WORK_AUTHORITY_LEVELS :: "string list" where
  "RECENT_WORK_AUTHORITY_LEVELS = [''canonical'', ''scoped_summary'', ''background_evidence'']"

definition RECENT_WORK_SOURCE_KINDS :: "string list" where
  "RECENT_WORK_SOURCE_KINDS =
     [''explicit_operating_truth'', ''tier2_idle_window'', ''tier2_batch'', ''runtime_handoff'', ''manual_migration'', ''session_consolidation'']"

definition RECENT_WORK_OWNER_ROLES :: "string list" where
  "RECENT_WORK_OWNER_ROLES = [''user_project'', ''agent_assignment'', ''runtime_system'', ''unknown'']"

definition BACKGROUND_OPERATING_SOURCE_KINDS :: "string list" where
  "BACKGROUND_OPERATING_SOURCE_KINDS = [''tier2_idle_window'', ''tier2_batch'', ''session_consolidation'']"

text \<open>\<open>SLUG_RE.sub("-", s)\<close>: every run of characters that are no word characters becomes one hyphen.\<close>

definition is_word_char :: "char \<Rightarrow> bool" where
  "is_word_char c \<longleftrightarrow> is_alnum c \<or> c = CHR ''_''"

fun slug_sub :: "bool \<Rightarrow> string \<Rightarrow> string" where
  "slug_sub in_run [] = []"
| "slug_sub in_run (c # s) =
     (if is_word_char c then c # slug_sub False s else if in_run then slug_sub True s else CHR ''-'' # slug_sub True s)"

definition strip_hyphens :: "string \<Rightarrow> string" where
  "strip_hyphens s = py_strip_set ''-'' s"

definition normalize_identifier :: "pyval \<Rightarrow> string" where
  "normalize_identifier v = take 96 (strip_hyphens (slug_sub False (py_lower (norm_text v))))"

definition underscored :: "pyval \<Rightarrow> string" where
  "underscored v = py_replace_char (CHR ''-'') (CHR ''_'') (normalize_identifier v)"

definition recent_work_stable_key :: "string \<Rightarrow> string \<Rightarrow> string" where
  "recent_work_stable_key principal_scope_key workstream_id =
     (let ws = normalize_identifier (PStr workstream_id); scope = py_strip principal_scope_key
      in if ws = [] then []
         else py_join ''::'' [''operating_truth'', (if scope = [] then ''global'' else scope), ''recent_work_summary'', ws])"

text \<open>\<open>s.rsplit(sep, 1)[-1]\<close>\<close>

definition after_last :: "string \<Rightarrow> string \<Rightarrow> string" where
  "after_last sep s = (let i = py_rfind sep s 0 (int (length s)) in if i < 0 then s else drop (nat i + length sep) s)"

definition RECENT_WORK_MARKER :: string where
  "RECENT_WORK_MARKER = ''::recent_work_summary::''"

definition recent_workstream_id_from_stable_key :: "pyval \<Rightarrow> string" where
  "recent_workstream_id_from_stable_key stable_key =
     (let t = strip_text stable_key
      in if py_contains RECENT_WORK_MARKER t then normalize_identifier (PStr (after_last RECENT_WORK_MARKER t)) else [])"

definition build_operating_stable_key :: "string \<Rightarrow> string \<Rightarrow> string \<Rightarrow> string" where
  "build_operating_stable_key principal_scope_key record_type content =
     (let t = (if py_strip record_type = [] then ''active_work'' else py_strip record_type);
          scope = py_strip principal_scope_key;
          slug = strip_hyphens (slug_sub False (py_lower (norm_text (PStr content))))
      in py_join ''::'' ([''operating_truth'', (if scope = [] then ''global'' else scope), t] @
           (if t \<in> set OPERATING_SINGLETON_RECORD_TYPES then [] else [if slug = [] then ''item'' else slug])))"

definition ordered_record_types :: "pyval list \<Rightarrow> string list" where
  "ordered_record_types record_types = filter (\<lambda>t. t \<in> set (map strip_text record_types)) OPERATING_RECORD_TYPES"

definition record_type_label :: "string \<Rightarrow> string" where
  "record_type_label record_type =
     (case map_of
        [(''active_work'', ''active work''), (''live_system_state'', ''live system state''), (''recent_work_summary'', ''recent work summary''),
         (''completed_outcome'', ''completed outcome''), (''discarded_work'', ''discarded work''), (''open_decision'', ''open decision''),
         (''current_commitment'', ''current commitment''), (''next_step'', ''next step''), (''external_owner_pointer'', ''external owner''),
         (''runtime_approval_policy'', ''runtime approval policy''), (''canonical_policy'', ''canonical policy''),
         (''procedure_memory'', ''procedure memory''), (''session_state'', ''session state'')] (py_strip record_type) of
        Some l \<Rightarrow> l | None \<Rightarrow> ''operating truth'')"

text \<open>What a message states of the operating truth, as the dictionaries of the module.\<close>

record truth_item =
  ti_type :: string
  ti_content :: string

definition truth_item_to_dict :: "truth_item \<Rightarrow> pydict" where
  "truth_item_to_dict i =
     [(''record_type'', PStr (ti_type i)), (''content'', PStr (ti_content i)), (''label'', PStr (record_type_label (ti_type i)))]"

definition truth_capture_to_dict :: "truth_item list \<Rightarrow> pydict" where
  "truth_capture_to_dict items =
     [(''items'', PList (map (\<lambda>i. PDict (truth_item_to_dict i)) items)), (''item_count'', PInt (int (length items))),
      (''record_types'', PList (map (\<lambda>i. PStr (ti_type i)) items))]"

definition truth_lookup_to_dict :: "string list \<Rightarrow> pydict" where
  "truth_lookup_to_dict record_types = [(''record_types'', PList (map PStr record_types))]"

section \<open>Sources and authority\<close>

definition recent_work_source_kind :: "pyval \<Rightarrow> pydict \<Rightarrow> string" where
  "recent_work_source_kind source payload =
     (let explicit = underscored (dget payload ''source_kind'');
          source_text = py_lower (norm_text source);
          batch_reason = py_lower (norm_text (dget payload ''batch_reason''))
      in if explicit \<in> set RECENT_WORK_SOURCE_KINDS then explicit
         else if py_startswith source_text ''tier2:'' then
           (if py_contains ''idle_window'' source_text \<or> batch_reason = ''idle_window'' then ''tier2_idle_window'' else ''tier2_batch'')
         else if py_startswith source_text ''runtime_handoff'' then ''runtime_handoff''
         else if py_startswith source_text ''on_session_end:recent_work_consolidation'' then ''session_consolidation''
         else if py_startswith source_text ''migration:'' then ''manual_migration''
         else ''explicit_operating_truth'')"

text \<open>The parts of \<open>normalize_recent_work_metadata\<close>: the workstream, the owner and the authority.\<close>

definition work_id :: "string \<Rightarrow> pydict \<Rightarrow> string" where
  "work_id stable_key payload =
     (let w = normalize_identifier (dget payload ''workstream_id'')
      in if w \<noteq> [] then w else recent_workstream_id_from_stable_key (PStr stable_key))"

definition work_owner :: "string \<Rightarrow> pydict \<Rightarrow> string" where
  "work_owner source_kind payload =
     (let owner_role = underscored (dget payload ''owner_role'')
      in if owner_role \<in> set RECENT_WORK_OWNER_ROLES then owner_role
         else if source_kind = ''runtime_handoff'' then ''runtime_system''
         else if source_kind \<in> set [''tier2_idle_window'', ''tier2_batch'', ''session_consolidation''] then ''unknown''
         else ''user_project'')"

definition work_authority :: "string \<Rightarrow> string \<Rightarrow> pydict \<Rightarrow> string" where
  "work_authority source_kind workstream_id payload =
     (let stated = underscored (dget payload ''authority_level'');
          level = (if stated \<in> set RECENT_WORK_AUTHORITY_LEVELS then stated
                   else if workstream_id = [] then ''background_evidence''
                   else if source_kind = ''session_consolidation'' then ''background_evidence''
                   else if source_kind \<in> set [''tier2_idle_window'', ''tier2_batch'', ''session_consolidation''] then ''scoped_summary''
                   else ''canonical'')
      in if workstream_id = [] \<and> level = ''canonical'' then ''background_evidence'' else level)"

definition normalize_recent_work_metadata :: "string \<Rightarrow> pyval \<Rightarrow> pydict \<Rightarrow> pydict" where
  "normalize_recent_work_metadata stable_key source metadata =
     (let source_kind = recent_work_source_kind source metadata; workstream_id = work_id stable_key metadata;
          owner_role = work_owner source_kind metadata; authority_level = work_authority source_kind workstream_id metadata;
          payload = (if workstream_id \<noteq> [] then dset ''workstream_id'' (PStr workstream_id) metadata else metadata)
      in dset ''authority_schema'' (PStr ''brainstack.recent_work_authority.v1'')
          (dset ''authority_level'' (PStr authority_level)
            (dset ''owner_role'' (PStr owner_role) (dset ''source_kind'' (PStr source_kind) payload))))"

definition row_metadata :: "pydict \<Rightarrow> pydict" where
  "row_metadata row = as_mapping (dget row ''metadata'')"

definition recent_work_authority_level :: "pydict \<Rightarrow> string" where
  "recent_work_authority_level row =
     (if strip_text (dget row ''record_type'') \<noteq> ''recent_work_summary'' then ''canonical''
      else let level = text_of (dget (normalize_recent_work_metadata (text_of (dget row ''stable_key'')) (PStr (text_of (dget row ''source'')))
                                 (row_metadata row)) ''authority_level'')
           in if level = [] then ''background_evidence'' else level)"

definition recent_work_authority_rank :: "pydict \<Rightarrow> int" where
  "recent_work_authority_rank row =
     (let level = recent_work_authority_level row
      in if level = ''canonical'' then 300 else if level = ''scoped_summary'' then 200 else if level = ''background_evidence'' then 20 else 0)"

definition is_background_recent_work :: "pydict \<Rightarrow> bool" where
  "is_background_recent_work row \<longleftrightarrow>
     strip_text (dget row ''record_type'') = ''recent_work_summary'' \<and> recent_work_authority_level row = ''background_evidence''"

definition operating_record_source_kind :: "pydict \<Rightarrow> string" where
  "operating_record_source_kind row =
     (let explicit = underscored (dget (row_metadata row) ''source_kind''); source = py_lower (norm_text (dget row ''source''))
      in if explicit \<noteq> [] then explicit
         else if py_startswith source ''tier2:'' then (if py_contains ''idle_window'' source then ''tier2_idle_window'' else ''tier2_batch'')
         else if py_startswith source ''on_session_end:recent_work_consolidation'' then ''session_consolidation''
         else [])"

definition is_background_operating_source :: "string \<Rightarrow> pydict \<Rightarrow> bool" where
  "is_background_operating_source source metadata \<longleftrightarrow>
     operating_record_source_kind [(''source'', PStr source), (''metadata'', PDict metadata)] \<in> set BACKGROUND_OPERATING_SOURCE_KINDS"

definition should_promote_open_decision :: "string \<Rightarrow> pydict \<Rightarrow> bool" where
  "should_promote_open_decision source metadata \<longleftrightarrow> \<not> is_background_operating_source source metadata"

definition is_current_assignment_authority_metadata :: "pyval \<Rightarrow> bool" where
  "is_current_assignment_authority_metadata metadata \<longleftrightarrow>
     truthy (dget (as_mapping metadata) ''current_assignment_authority'') \<and>
     strip_text (dget (as_mapping metadata) ''current_assignment_authority_schema'') = ''brainstack.current_assignment_authority.v1''"

definition is_background_operating_record :: "pydict \<Rightarrow> bool" where
  "is_background_operating_record row \<longleftrightarrow>
     is_background_recent_work row \<or>
     (strip_text (dget row ''record_type'') = ''open_decision'' \<and>
      operating_record_source_kind row \<in> set BACKGROUND_OPERATING_SOURCE_KINDS)"

definition background_operating_suppression_reason :: "pydict \<Rightarrow> string" where
  "background_operating_suppression_reason row =
     (let t = strip_text (dget row ''record_type'')
      in if t = ''recent_work_summary'' then ''background_recent_work_summary: supporting evidence only; not canonical operating truth''
         else if t = ''open_decision'' then
           ''background_open_decision: tier2-derived decision is supporting evidence until explicitly promoted''
         else ''background_operating_record: supporting evidence only'')"

section \<open>Validity of operating records\<close>

definition OPERATING_TEMPORAL_SCHEMA :: string where
  "OPERATING_TEMPORAL_SCHEMA = ''brainstack.operating_temporal.v1''"

definition VOLATILE_OPERATING_RECORD_TYPES :: "string list" where
  "VOLATILE_OPERATING_RECORD_TYPES = [''active_work'', ''current_commitment'', ''next_step'', ''session_state'']"

definition WARNING_ONLY_OPERATING_RECORD_TYPES :: "string list" where
  "WARNING_ONLY_OPERATING_RECORD_TYPES = [''recent_work_summary'']"

text \<open>\<open>int(float(str(value).strip()))\<close>: an infinity raises an error that is not caught.\<close>

definition positive_seconds :: "pyval \<Rightarrow> int option result" where
  "positive_seconds v =
     (case v of PBool b \<Rightarrow> Inr None
      | _ \<Rightarrow> (case parse_float (py_strip (py_str v)) of
           None \<Rightarrow> Inr None | Some NaN \<Rightarrow> Inr None | Some PosInf \<Rightarrow> Inl OverflowError | Some NegInf \<Rightarrow> Inl OverflowError
         | Some (Fin q) \<Rightarrow> Inr (if trunc_float q \<le> 0 then None else Some (trunc_float q))))"

definition plus_seconds :: "int \<Rightarrow> int \<Rightarrow> int result" where
  "plus_seconds t seconds = (if 999999999 < seconds div 86400 then Inl OverflowError else add_time t (seconds * 1000000))"

definition or_time :: "pyval \<Rightarrow> pyval \<Rightarrow> int option result" where
  "or_time a b = rbind (parse_iso a) (\<lambda>t. case t of Some x \<Rightarrow> Inr (Some x) | None \<Rightarrow> parse_iso b)"

definition seconds_or :: "pyval \<Rightarrow> pyval \<Rightarrow> int option result" where
  "seconds_or a b = rbind (positive_seconds a) (\<lambda>s. case s of Some x \<Rightarrow> Inr (Some x) | None \<Rightarrow> positive_seconds b)"

text \<open>The end that follows from a duration, when no end is stated.\<close>

definition end_after :: "int option \<Rightarrow> int option \<Rightarrow> int option \<Rightarrow> int option result" where
  "end_after valid_from valid_to seconds =
     (case (valid_to, seconds, valid_from) of
        (None, Some s, Some t) \<Rightarrow> rbind (plus_seconds t s) (\<lambda>e. Inr (Some e))
      | _ \<Rightarrow> Inr valid_to)"

definition temporal_part :: "string \<Rightarrow> pydict \<Rightarrow> int option \<Rightarrow> int option \<Rightarrow> int option \<Rightarrow> int option \<Rightarrow> pydict" where
  "temporal_part kind temporal valid_from stated valid_to seconds =
     (let t1 = (case (stated, valid_to) of (None, Some e) \<Rightarrow> dset ''valid_to'' (PStr (isoformat_utc e)) temporal | _ \<Rightarrow> temporal);
          t2 = (case valid_from of
                  Some f \<Rightarrow> if kind \<in> set VOLATILE_OPERATING_RECORD_TYPES \<and> (valid_to \<noteq> None \<or> seconds \<noteq> None)
                            then dsetdefault ''valid_from'' (PStr (isoformat_utc f)) t1 else t1
                | None \<Rightarrow> t1)
      in case seconds of Some s \<Rightarrow> dset ''expires_after_seconds'' (PInt s) t2 | None \<Rightarrow> t2)"

definition validity_part :: "string \<Rightarrow> string \<Rightarrow> pydict \<Rightarrow> int option \<Rightarrow> pydict" where
  "validity_part kind created_at validity valid_to =
     (let v = dupdate validity
            [(''schema'', PStr OPERATING_TEMPORAL_SCHEMA), (''record_class'', PStr ''volatile_operating_truth''),
             (''authority'', PStr (if valid_to \<noteq> None then ''structured_temporal_metadata'' else ''unknown_expiry'')),
             (''expiry_policy'', PStr (if valid_to \<noteq> None then ''structured_validity_window'' else ''unknown_expiry''))]
      in case valid_to of Some e \<Rightarrow> dset ''valid_to'' (PStr (isoformat_utc e)) v
         | None \<Rightarrow> if created_at \<noteq> [] then dset ''created_at'' (PStr created_at) v else v)"

definition warning_part :: "pydict \<Rightarrow> pydict" where
  "warning_part validity = dupdate validity
     [(''schema'', PStr OPERATING_TEMPORAL_SCHEMA), (''record_class'', PStr ''warning_only_operating_truth''),
      (''authority'', PStr ''unknown_expiry''), (''expiry_policy'', PStr ''unknown_expiry'')]"

definition normalize_operating_temporal_metadata :: "string \<Rightarrow> string \<Rightarrow> pydict \<Rightarrow> pydict result" where
  "normalize_operating_temporal_metadata record_type created_at payload =
     (let kind = py_strip record_type; temporal = as_mapping (dget payload ''temporal''); validity = as_mapping (dget payload ''operating_temporal'')
      in rbind (or_time (dget temporal ''valid_from'') (PStr created_at)) (\<lambda>valid_from.
         rbind (parse_iso (dget temporal ''valid_to'')) (\<lambda>stated.
         rbind (seconds_or (dget temporal ''expires_after_seconds'') (dget payload ''expires_after_seconds'')) (\<lambda>seconds.
         rbind (end_after valid_from stated seconds) (\<lambda>valid_to.
           (let t = temporal_part kind temporal valid_from stated valid_to seconds;
                p1 = (if t \<noteq> [] then dset ''temporal'' (PDict t) payload else payload)
            in Inr (if kind \<in> set VOLATILE_OPERATING_RECORD_TYPES
                    then dset ''operating_temporal'' (PDict (validity_part kind created_at validity valid_to)) p1
                    else if kind \<in> set WARNING_ONLY_OPERATING_RECORD_TYPES \<and> valid_to = None
                    then dset ''operating_temporal'' (PDict (warning_part validity)) p1
                    else p1)))))))"

definition normalize_operating_record_metadata :: "string \<Rightarrow> string \<Rightarrow> string \<Rightarrow> pydict \<Rightarrow> string \<Rightarrow> pydict result" where
  "normalize_operating_record_metadata record_type stable_key source metadata created_at =
     normalize_operating_temporal_metadata record_type created_at
       (if py_strip record_type = ''recent_work_summary'' then normalize_recent_work_metadata stable_key (PStr source) metadata else metadata)"

record operating_status =
  os_status :: string
  os_kind :: string
  os_from :: "int option"
  os_to :: "int option"
  os_age :: "int option"

definition age_seconds :: "int \<Rightarrow> int \<Rightarrow> int" where
  "age_seconds now valid_from = max (trunc_float (round64 (of_int (now - valid_from) / 1000000))) 0"

definition operating_window :: "pydict \<Rightarrow> (int option \<times> int option) result" where
  "operating_window row =
     (let temporal = as_mapping (dget (row_metadata row) ''temporal'')
      in rbind (or_time (dget temporal ''valid_from'') (dget row ''created_at'')) (\<lambda>valid_from.
         rbind (parse_iso (dget temporal ''valid_to'')) (\<lambda>stated.
         rbind (case stated of Some e \<Rightarrow> Inr (Some e)
                | None \<Rightarrow> rbind (positive_seconds (dget temporal ''expires_after_seconds'')) (\<lambda>s. end_after valid_from None s)) (\<lambda>valid_to.
           Inr (valid_from, valid_to)))))"

definition status_of :: "string \<Rightarrow> int \<Rightarrow> int option \<Rightarrow> int option \<Rightarrow> string" where
  "status_of kind now valid_from valid_to =
     (if kind \<notin> set (VOLATILE_OPERATING_RECORD_TYPES @ WARNING_ONLY_OPERATING_RECORD_TYPES) then ''not_time_sensitive''
      else if (case valid_from of Some f \<Rightarrow> now < f | None \<Rightarrow> False) then ''not_yet_valid''
      else case valid_to of Some e \<Rightarrow> if e \<le> now then ''expired'' else ''current''
        | None \<Rightarrow> ''unknown_expiry'')"

text \<open>\<open>as_of\<close> when it can be read, else the clock.\<close>

definition operating_temporal_status :: "pydict \<Rightarrow> pyval \<Rightarrow> int \<Rightarrow> operating_status result" where
  "operating_temporal_status row as_of clock =
     rbind (parse_iso as_of) (\<lambda>moment. rbind (operating_window row) (\<lambda>(valid_from, valid_to).
       (let now = (case moment of Some t \<Rightarrow> t | None \<Rightarrow> clock); kind = strip_text (dget row ''record_type'')
        in Inr \<lparr>os_status = status_of kind now valid_from valid_to, os_kind = kind, os_from = valid_from, os_to = valid_to,
                os_age = map_option (age_seconds now) valid_from\<rparr>)))"

definition iso_or_empty :: "int option \<Rightarrow> string" where
  "iso_or_empty t = (case t of Some us \<Rightarrow> isoformat_utc us | None \<Rightarrow> [])"

definition operating_status_to_dict :: "operating_status \<Rightarrow> pydict" where
  "operating_status_to_dict s =
     [(''schema'', PStr OPERATING_TEMPORAL_SCHEMA), (''status'', PStr (os_status s)), (''record_type'', PStr (os_kind s)),
      (''valid_from'', PStr (iso_or_empty (os_from s))), (''valid_to'', PStr (iso_or_empty (os_to s))),
      (''age_seconds'', case os_age s of Some a \<Rightarrow> PInt a | None \<Rightarrow> PNone)]"

definition operating_temporal_warning :: "pydict \<Rightarrow> pyval \<Rightarrow> int \<Rightarrow> string result" where
  "operating_temporal_warning row as_of clock =
     rbind (operating_temporal_status row as_of clock) (\<lambda>s.
       (let age_part = (case os_age s of Some a \<Rightarrow> ''; age='' @ show_int a @ ''s'' | None \<Rightarrow> []); valid_to = iso_or_empty (os_to s)
        in Inr (if os_status s = ''not_time_sensitive'' then []
                else if os_status s = ''current'' \<and> valid_to \<noteq> [] then ''freshness: current until '' @ valid_to @ age_part
                else if os_status s = ''expired'' then ''freshness: expired at '' @ (if valid_to = [] then ''unknown'' else valid_to) @ age_part
                else if os_status s = ''not_yet_valid'' then ''freshness: not yet valid'' @ age_part
                else if os_status s = ''unknown_expiry'' then ''freshness: volatile record with unknown expiry'' @ age_part
                else [])))"

section \<open>Workstream recaps\<close>

definition WORKSTREAM_RECAP_ANCHOR_RECORD_TYPES :: "string list" where
  "WORKSTREAM_RECAP_ANCHOR_RECORD_TYPES = [''recent_work_summary'', ''active_work'', ''current_commitment'', ''next_step'', ''open_decision'']"

definition WORKSTREAM_RECAP_CONTINUITY_SUPPORT_KINDS :: "string list" where
  "WORKSTREAM_RECAP_CONTINUITY_SUPPORT_KINDS = [''tier2_summary'', ''session_summary'']"

definition metadata_workstream_id :: "pydict \<Rightarrow> string" where
  "metadata_workstream_id row = strip_text (py_or (dget (row_metadata row) ''workstream_id'') (dget row ''workstream_id''))"

definition row_workstream_id :: "pydict \<Rightarrow> string" where
  "row_workstream_id row =
     (let direct = strip_text (py_or (dget row ''_brainstack_workstream_id'') (dget row ''workstream_id''))
      in if direct \<noteq> [] then direct else metadata_workstream_id row)"

definition CONTINUITY_SHELVES :: "string list" where
  "CONTINUITY_SHELVES = [''continuity_match'', ''continuity_recent'']"

definition workstream_bank_mismatch_reason :: "string set \<Rightarrow> string \<Rightarrow> pydict \<Rightarrow> string" where
  "workstream_bank_mismatch_reason anchor_workstream_ids shelf row =
     (if anchor_workstream_ids = {} \<or> shelf \<notin> set CONTINUITY_SHELVES then []
      else if row_workstream_id row = [] \<or> row_workstream_id row \<in> anchor_workstream_ids then []
      else ''workstream_bank_mismatch: continuity evidence belongs to a different scoped memory bank'')"

definition is_workstream_recap_anchor :: "pydict \<Rightarrow> bool" where
  "is_workstream_recap_anchor row \<longleftrightarrow>
     (let t = strip_text (dget row ''record_type'')
      in t \<in> set WORKSTREAM_RECAP_ANCHOR_RECORD_TYPES \<and> metadata_workstream_id row \<noteq> [] \<and>
         \<not> (t = ''recent_work_summary'' \<and> recent_work_authority_rank row < 200))"

record recap_flags =
  rf_workstream :: string
  rf_surface :: bool
  rf_supporting :: bool
  rf_reason :: string

definition workstream_recap_flags :: "string \<Rightarrow> pydict \<Rightarrow> recap_flags" where
  "workstream_recap_flags shelf row =
     (let shelf_name = py_strip shelf; record_type = strip_text (dget row ''record_type''); kind = strip_text (dget row ''kind'');
          workstream_id = metadata_workstream_id row
      in if shelf_name = ''operating'' \<and> is_workstream_recap_anchor row then
           \<lparr>rf_workstream = workstream_id, rf_surface = True, rf_supporting = False, rf_reason = ''scoped_workstream_recap_anchor''\<rparr>
         else if shelf_name = ''operating'' \<and> record_type \<in> set WORKSTREAM_RECAP_ANCHOR_RECORD_TYPES then
           \<lparr>rf_workstream = workstream_id, rf_surface = False, rf_supporting = True, rf_reason = ''supporting_only_unscoped_operating_recap''\<rparr>
         else if shelf_name \<in> set CONTINUITY_SHELVES \<and> kind \<in> set WORKSTREAM_RECAP_CONTINUITY_SUPPORT_KINDS then
           \<lparr>rf_workstream = workstream_id, rf_surface = False, rf_supporting = (workstream_id = []),
            rf_reason = (if workstream_id = [] then ''supporting_only_unscoped_tier2_summary'' else ''scoped_continuity_recap_support'')\<rparr>
         else \<lparr>rf_workstream = workstream_id, rf_surface = False, rf_supporting = False, rf_reason = []\<rparr>)"

definition annotate_workstream_recap_row :: "string \<Rightarrow> pydict \<Rightarrow> pydict" where
  "annotate_workstream_recap_row shelf row =
     (let f = workstream_recap_flags shelf row
      in dset ''_brainstack_workstream_recap_reason'' (PStr (rf_reason f))
          (dset ''_brainstack_supporting_evidence_only'' (PBool (rf_supporting f))
            (dset ''_brainstack_recap_surface'' (PBool (rf_surface f))
              (dset ''_brainstack_workstream_id'' (PStr (rf_workstream f))
                (dset ''_brainstack_workstream_recap_schema'' (PStr ''brainstack.workstream_recap.v1'') row)))))"

section \<open>Lemmas on identifiers\<close>

text \<open>An identifier: lower-case word characters and single hyphens, no hyphen first.\<close>

definition id_char :: "char \<Rightarrow> bool" where
  "id_char c \<longleftrightarrow> (is_word_char c \<or> c = CHR ''-'') \<and> char_lower c = c"

definition single_hyphens :: "string \<Rightarrow> bool" where
  "single_hyphens s \<longleftrightarrow> successively (\<lambda>a b. \<not> (a = CHR ''-'' \<and> b = CHR ''-'')) s"

definition tidy_id :: "string \<Rightarrow> bool" where
  "tidy_id s \<longleftrightarrow> list_all id_char s \<and> single_hyphens s \<and> (s = [] \<or> hd s \<noteq> CHR ''-'')"

lemma hyphen_no_word [simp]: "\<not> is_word_char (CHR ''-'')"
  by (simp add: is_word_char_def is_alnum_def)

lemma char_lower_idem [simp]: "char_lower (char_lower c) = char_lower c"
proof (cases "65 \<le> (of_char c :: nat) \<and> (of_char c :: nat) \<le> 90")
  case True
  then have "(of_char (char_lower c) :: nat) = of_char c + 32" by (simp add: char_lower_def)
  then show ?thesis using True by (simp add: char_lower_def[of "char_lower c"])
next
  case False
  then have "char_lower c = c" by (auto simp: char_lower_def Let_def)
  then show ?thesis by simp
qed

lemma id_char_facts: "id_char c \<Longrightarrow> \<not> is_space c \<and> c \<noteq> CHR '':''"
  by (auto simp: id_char_def is_word_char_def is_alnum_def is_space_def Let_def)

lemma slug_sub_chars: "\<forall>c \<in> set s. char_lower c = c \<Longrightarrow> list_all id_char (slug_sub b s)"
  by (induction b s rule: slug_sub.induct) (auto simp: id_char_def char_lower_def)

lemma single_hyphens_simps [simp]:
  "single_hyphens []" "single_hyphens [c]"
  "single_hyphens (a # b # s) \<longleftrightarrow> \<not> (a = CHR ''-'' \<and> b = CHR ''-'') \<and> single_hyphens (b # s)"
  by (simp_all add: single_hyphens_def)

lemma slug_sub_single:
  "single_hyphens (slug_sub b s) \<and> (b \<longrightarrow> slug_sub b s = [] \<or> hd (slug_sub b s) \<noteq> CHR ''-'')"
proof (induction b s rule: slug_sub.induct)
  case (2 b c s)
  have w: "c \<noteq> CHR ''-''" if "is_word_char c" using that by auto
  have j: "single_hyphens (x # t)" if "single_hyphens t" "x \<noteq> CHR ''-'' \<or> t = [] \<or> hd t \<noteq> CHR ''-''" for x t
    using that by (cases t) auto
  show ?case using 2 w j by auto
qed auto

lemma single_hyphens_append: "single_hyphens (s @ t) \<Longrightarrow> single_hyphens s \<and> single_hyphens t"
  by (auto simp: single_hyphens_def successively_append_iff)

lemma strip_hyphens_part: "\<exists>a b. s = a @ strip_hyphens s @ b"
proof -
  define t where "t = dropWhile (\<lambda>c. c \<in> set ''-'') s"
  have "s = takeWhile (\<lambda>c. c \<in> set ''-'') s @ t" by (simp add: t_def)
  moreover have "t = py_rstrip_set ''-'' t @ rev (takeWhile (\<lambda>c. c \<in> set ''-'') (rev t))"
    unfolding py_rstrip_set_def by (metis rev_append rev_rev_ident takeWhile_dropWhile_id)
  moreover have "strip_hyphens s = py_rstrip_set ''-'' t" by (simp add: strip_hyphens_def py_strip_set_def t_def)
  ultimately show ?thesis by metis
qed

lemma rstrip_hd: "py_rstrip_set cs t \<noteq> [] \<Longrightarrow> hd (py_rstrip_set cs t) = hd t"
proof -
  assume a: "py_rstrip_set cs t \<noteq> []"
  have "t = py_rstrip_set cs t @ rev (takeWhile (\<lambda>c. c \<in> set cs) (rev t))"
    unfolding py_rstrip_set_def by (metis rev_append rev_rev_ident takeWhile_dropWhile_id)
  then show ?thesis using a by (metis hd_append2)
qed

lemma strip_hyphens_hd: "strip_hyphens s = [] \<or> hd (strip_hyphens s) \<noteq> CHR ''-''"
proof (cases "strip_hyphens s = []")
  case False
  define t where "t = dropWhile (\<lambda>c. c \<in> set ''-'') s"
  have e: "strip_hyphens s = py_rstrip_set ''-'' t" by (simp add: strip_hyphens_def py_strip_set_def t_def)
  then have "t \<noteq> []" using False by (auto simp: py_rstrip_set_def)
  then have "hd t \<noteq> CHR ''-''" unfolding t_def using hd_dropWhile[of "\<lambda>c. c \<in> set ''-''" s] by auto
  then show ?thesis using False e rstrip_hd[of "''-''" t] by simp
qed simp

lemma identifier_take: "tidy_id s \<Longrightarrow> tidy_id (take n s)"
proof -
  assume i: "tidy_id s"
  have "single_hyphens (take n s)" using i single_hyphens_append[of "take n s" "drop n s"] by (simp add: tidy_id_def)
  moreover have "list_all id_char (take n s)" using i by (auto simp: tidy_id_def list_all_iff dest: in_set_takeD)
  moreover have "take n s = [] \<or> hd (take n s) \<noteq> CHR ''-''" using i by (cases n; cases s) (auto simp: tidy_id_def)
  ultimately show ?thesis by (simp add: tidy_id_def)
qed

lemma normalize_identifier_ok: "tidy_id (normalize_identifier v)"
proof -
  define t where "t = slug_sub False (py_lower (norm_text v))"
  have "\<forall>c \<in> set (py_lower (norm_text v)). char_lower c = c" by (auto simp: py_lower_def)
  then have c: "list_all id_char t" unfolding t_def by (rule slug_sub_chars)
  obtain a b where ab: "t = a @ strip_hyphens t @ b" using strip_hyphens_part by metis
  have "list_all id_char (strip_hyphens t)" using c ab by (metis list_all_append)
  moreover have "single_hyphens (strip_hyphens t)"
    using slug_sub_single[of False "py_lower (norm_text v)"] ab single_hyphens_append by (metis t_def)
  ultimately have "tidy_id (strip_hyphens t)" using strip_hyphens_hd by (simp add: tidy_id_def)
  then show ?thesis by (simp add: normalize_identifier_def t_def identifier_take)
qed

lemma slug_sub_identifier: "list_all id_char s \<Longrightarrow> single_hyphens s \<Longrightarrow> (b \<longrightarrow> s = [] \<or> hd s \<noteq> CHR ''-'') \<Longrightarrow> slug_sub b s = s"
proof (induction s arbitrary: b)
  case (Cons c s)
  have s: "list_all id_char s" "single_hyphens s" using Cons.prems by (cases s; auto)+
  show ?case
  proof (cases "is_word_char c")
    case True
    then show ?thesis using Cons.IH[OF s, of False] by simp
  next
    case False
    then have h: "c = CHR ''-''" using Cons.prems by (auto simp: id_char_def)
    then have "s = [] \<or> hd s \<noteq> CHR ''-''" using Cons.prems(2) by (cases s) auto
    then show ?thesis using Cons.IH[OF s, of True] Cons.prems(3) h False by auto
  qed
qed simp

lemma strip_hyphens_id: "s \<noteq> [] \<Longrightarrow> hd s \<noteq> CHR ''-'' \<Longrightarrow> last s \<noteq> CHR ''-'' \<Longrightarrow> strip_hyphens s = s"
proof -
  assume a: "s \<noteq> []" "hd s \<noteq> CHR ''-''" "last s \<noteq> CHR ''-''"
  then have "dropWhile (\<lambda>c. c \<in> set ''-'') s = s" by (cases s) auto
  moreover have "dropWhile (\<lambda>c. c \<in> set ''-'') (rev s) = rev s" using a by (cases "rev s") (auto simp: hd_rev[symmetric])
  ultimately show ?thesis by (simp add: strip_hyphens_def py_strip_set_def py_rstrip_set_def)
qed

lemma normalize_identifier_id:
  assumes "tidy_id s" "s \<noteq> []" "last s \<noteq> CHR ''-''" "length s \<le> 96"
  shows "normalize_identifier (PStr s) = s"
proof -
  have "is_word s" using assms(1,2) id_char_facts by (auto simp: is_word_def tidy_id_def list_all_iff)
  then have n: "norm_text (PStr s) = s" by (rule norm_text_word)
  have "py_lower s = s" unfolding py_lower_def using assms(1) by (intro map_idI) (auto simp: tidy_id_def list_all_iff id_char_def)
  moreover have "slug_sub False s = s" using assms(1) by (intro slug_sub_identifier) (auto simp: tidy_id_def)
  moreover have "strip_hyphens s = s" using assms by (intro strip_hyphens_id) (auto simp: tidy_id_def)
  ultimately show ?thesis using n assms(4) by (simp add: normalize_identifier_def)
qed

lemma after_last_marker:
  assumes "CHR '':'' \<notin> set ws"
  shows "after_last RECENT_WORK_MARKER (pre @ RECENT_WORK_MARKER @ ws) = ws"
proof -
  define m where "m = RECENT_WORK_MARKER"
  define s where "s = pre @ m @ ws"
  define hits where "hits = filter (\<lambda>i. i + length m \<le> length s \<and> py_startswith (drop i s) m) [0..<Suc (length s)]"
  have len: "length m = 23" "m ! 22 = CHR '':''" by (simp_all add: m_def RECENT_WORK_MARKER_def)
  have hit: "length pre \<in> set hits" by (simp add: hits_def s_def py_startswith_def)
  have "i \<le> length pre" if "i \<in> set hits" for i
  proof (rule ccontr)
    assume c: "\<not> i \<le> length pre"
    have i: "i + 23 \<le> length s" "take 23 (drop i s) = m" using that len by (auto simp: hits_def py_startswith_def)
    moreover have "take 23 (drop i s) ! 22 = s ! (i + 22)" using i(1) by simp
    ultimately have "s ! (i + 22) = CHR '':''" using len by simp
    moreover have "s ! (i + 22) = ws ! (i + 22 - (length pre + 23))" "i + 22 - (length pre + 23) < length ws"
      using c i(1) len by (auto simp: s_def nth_append)
    ultimately show False using assms by (metis nth_mem)
  qed
  moreover have "sorted hits" unfolding hits_def by (rule sorted_wrt_filter) (rule sorted_upt)
  moreover have "length pre \<le> last hits"
  proof -
    have "hits = butlast hits @ [last hits]" using hit by (metis append_butlast_last_id empty_iff list.set(1))
    then have "length pre \<in> set (butlast hits @ [last hits])" "sorted (butlast hits @ [last hits])" using hit \<open>sorted hits\<close> by simp_all
    then show ?thesis by (auto simp: sorted_append)
  qed
  ultimately have "last hits = length pre" using hit by (metis antisym last_in_set empty_iff list.set(1))
  moreover have "py_pos s 0 = 0" "py_pos s (int (length s)) = length s" by (simp_all add: py_pos_def)
  then have "py_rfind m s 0 (int (length s)) = (if hits = [] then -1 else int (last hits))"
    unfolding py_rfind_def hits_def Let_def by (simp only:)
  moreover have "hits \<noteq> []" using hit by (metis empty_iff list.set(1))
  ultimately show ?thesis by (simp add: after_last_def s_def flip: m_def)
qed

lemma dropWhile_hyphens_self: "s = [] \<or> hd s \<noteq> CHR ''-'' \<Longrightarrow> dropWhile (\<lambda>c. c \<in> set ''-'') s = s"
  by (cases s) auto

lemma normalize_tidy:
  assumes "tidy_id s" "length s \<le> 96"
  shows "normalize_identifier (PStr s) = strip_hyphens s"
proof (cases "s = []")
  case True
  then show ?thesis by (simp add: normalize_identifier_def py_lower_def strip_hyphens_def py_strip_set_def py_rstrip_set_def)
next
  case False
  have "is_word s" using assms(1) False id_char_facts by (auto simp: is_word_def tidy_id_def list_all_iff)
  then have n: "norm_text (PStr s) = s" by (rule norm_text_word)
  have "py_lower s = s" unfolding py_lower_def using assms(1) by (intro map_idI) (auto simp: tidy_id_def list_all_iff id_char_def)
  moreover have "slug_sub False s = s" using assms(1) by (intro slug_sub_identifier) (auto simp: tidy_id_def)
  moreover have "length (strip_hyphens s) \<le> length s" using strip_hyphens_part[of s] by (metis length_append le_add1 le_add2 order_trans)
  ultimately show ?thesis using n assms(2) by (simp add: normalize_identifier_def)
qed

section \<open>Properties\<close>

text \<open>
  C29: the stable key of a work summary keeps its workstream: what is read back from it is the normalised identifier,
  without the hyphen that the cut to 96 characters may leave at its end.
\<close>

theorem stable_key_keeps_workstream:
  "recent_workstream_id_from_stable_key (PStr (recent_work_stable_key scope w)) = strip_hyphens (normalize_identifier (PStr w))"
proof (cases "normalize_identifier (PStr w) = []")
  case True
  then show ?thesis
    by (simp add: recent_work_stable_key_def recent_workstream_id_from_stable_key_def Let_def strip_text_PStr
      py_strip_def RECENT_WORK_MARKER_def strip_hyphens_def py_strip_set_def py_rstrip_set_def)
next
  case False
  define ws where "ws = normalize_identifier (PStr w)"
  define sc where "sc = (if py_strip scope = [] then ''global'' else py_strip scope)"
  have ws: "tidy_id ws" "ws \<noteq> []" "length ws \<le> 96" using normalize_identifier_ok False by (simp_all add: ws_def normalize_identifier_def)
  then have nc: "CHR '':'' \<notin> set ws" "\<not> is_space (last ws)"
    using id_char_facts by (auto simp: tidy_id_def list_all_iff dest: last_in_set)
  have key: "recent_work_stable_key scope w = (''operating_truth::'' @ sc) @ RECENT_WORK_MARKER @ ws"
    using False by (simp add: recent_work_stable_key_def Let_def RECENT_WORK_MARKER_def sc_def flip: ws_def)
  have "py_strip ((''operating_truth::'' @ sc) @ RECENT_WORK_MARKER @ ws) = (''operating_truth::'' @ sc) @ RECENT_WORK_MARKER @ ws"
    using nc ws(2) by (intro strip_ends) (simp_all add: is_space_def)
  moreover have "py_contains RECENT_WORK_MARKER ((''operating_truth::'' @ sc) @ RECENT_WORK_MARKER @ ws)" by (rule contains_ends(1))
  ultimately show ?thesis using after_last_marker[OF nc(1)] normalize_tidy[OF ws(1,3)]
    by (simp only: recent_workstream_id_from_stable_key_def Let_def strip_text_PStr key if_True ws_def)
qed

text \<open>
  A work summary has canonical authority only with a workstream, and then because its metadata say so or,
  where they state no level, because it does not come from a background producer.
\<close>

theorem canonical_needs_workstream_and_source:
  "dget (normalize_recent_work_metadata stable_key source metadata) ''authority_level'' = PStr ''canonical'' \<longleftrightarrow>
     work_id stable_key metadata \<noteq> [] \<and>
     (underscored (dget metadata ''authority_level'') = ''canonical'' \<or>
      underscored (dget metadata ''authority_level'') \<notin> set RECENT_WORK_AUTHORITY_LEVELS \<and>
      recent_work_source_kind source metadata \<notin> set BACKGROUND_OPERATING_SOURCE_KINDS)"
proof -
  define stated where "stated = underscored (dget metadata ''authority_level'')"
  define kind where "kind = recent_work_source_kind source metadata"
  define ws where "ws = work_id stable_key metadata"
  have "dget (normalize_recent_work_metadata stable_key source metadata) ''authority_level'' = PStr (work_authority kind ws metadata)"
    by (simp add: normalize_recent_work_metadata_def Let_def kind_def ws_def)
  moreover have "work_authority kind ws metadata = ''canonical'' \<longleftrightarrow>
     ws \<noteq> [] \<and> (stated = ''canonical'' \<or> stated \<notin> set RECENT_WORK_AUTHORITY_LEVELS \<and> kind \<notin> set BACKGROUND_OPERATING_SOURCE_KINDS)"
    by (simp add: work_authority_def Let_def RECENT_WORK_AUTHORITY_LEVELS_def BACKGROUND_OPERATING_SOURCE_KINDS_def
      flip: stated_def)
  ultimately show ?thesis by (simp add: kind_def stated_def ws_def)
qed

lemma add_time_bounds: "add_time a d = Inr e \<Longrightarrow> 0 \<le> e \<and> e < MAX_TIME"
  by (auto simp: add_time_def split: if_splits)

lemma end_after_bounds: "end_after vf None s = Inr (Some e) \<Longrightarrow> 0 \<le> e \<and> e < MAX_TIME"
  by (auto simp: end_after_def plus_seconds_def rbind_Inr split: option.splits if_splits dest: add_time_bounds)

lemma dset_not_Nil [simp]: "dset k v d \<noteq> []"
  by (metis dhas_Nil dhas_dset)

lemma temporal_part_Nil: "temporal_part kind d vf st vt s = [] \<Longrightarrow> d = []"
  by (auto simp: temporal_part_def Let_def dsetdefault_def split: option.splits if_splits)

lemma temporal_part_gets:
  "dget (temporal_part kind d vf st vt s) ''valid_to'' = (case (st, vt) of (None, Some e) \<Rightarrow> PStr (isoformat_utc e) | _ \<Rightarrow> dget d ''valid_to'')"
  "dget (temporal_part kind d vf st vt s) ''valid_from'' = dget d ''valid_from'' \<or>
     dget d ''valid_from'' = PNone \<and> (\<exists>f. vf = Some f \<and> dget (temporal_part kind d vf st vt s) ''valid_from'' = PStr (isoformat_utc f))"
  "s = None \<Longrightarrow> dget (temporal_part kind d vf st vt s) ''expires_after_seconds'' = dget d ''expires_after_seconds''"
proof -
  have m: "dhas d k \<or> dget d k = PNone" for k by (cases "map_of d k") (simp_all add: dhas_def dget_def)
  show "dget (temporal_part kind d vf st vt s) ''valid_to'' = (case (st, vt) of (None, Some e) \<Rightarrow> PStr (isoformat_utc e) | _ \<Rightarrow> dget d ''valid_to'')"
    by (simp add: temporal_part_def Let_def dget_dsetdefault split: option.splits)
  show "dget (temporal_part kind d vf st vt s) ''valid_from'' = dget d ''valid_from'' \<or>
     dget d ''valid_from'' = PNone \<and> (\<exists>f. vf = Some f \<and> dget (temporal_part kind d vf st vt s) ''valid_from'' = PStr (isoformat_utc f))"
    using m[of "''valid_from''"] by (cases "dhas d ''valid_from''") (simp_all add: temporal_part_def Let_def dget_dsetdefault split: option.splits)
  show "s = None \<Longrightarrow> dget (temporal_part kind d vf st vt s) ''expires_after_seconds'' = dget d ''expires_after_seconds''"
    by (simp add: temporal_part_def Let_def dget_dsetdefault split: option.splits)
qed

text \<open>
  The validity of an operating record survives its normalisation: the window read from the normalised metadata is the one that
  the stated times, the creation time and the duration of the given metadata describe.
\<close>

theorem normalised_window_is_kept:
  assumes n: "normalize_operating_temporal_metadata record_type created payload = Inr p"
    and c: "parse_iso (PStr created) = Inr (Some f0)"
    and row: "dget row ''metadata'' = PDict p" "dget row ''created_at'' = PStr created"
  shows "operating_window row =
    (let temporal = as_mapping (dget payload ''temporal'')
     in rbind (or_time (dget temporal ''valid_from'') (PStr created)) (\<lambda>valid_from.
        rbind (parse_iso (dget temporal ''valid_to'')) (\<lambda>stated.
        rbind (seconds_or (dget temporal ''expires_after_seconds'') (dget payload ''expires_after_seconds'')) (\<lambda>seconds.
        rbind (end_after valid_from stated seconds) (\<lambda>valid_to. Inr (valid_from, valid_to))))))"
proof -
  define T where "T = as_mapping (dget payload ''temporal'')"
  obtain vf st s vt where steps: "or_time (dget T ''valid_from'') (PStr created) = Inr vf" "parse_iso (dget T ''valid_to'') = Inr st"
    "seconds_or (dget T ''expires_after_seconds'') (dget payload ''expires_after_seconds'') = Inr s" "end_after vf st s = Inr vt"
    using n by (auto simp: normalize_operating_temporal_metadata_def Let_def rbind_Inr simp flip: T_def)
  define t where "t = temporal_part (py_strip record_type) T vf st vt s"
  have "dget p ''temporal'' = (if t \<noteq> [] then PDict t else dget payload ''temporal'')"
    using n by (auto simp: normalize_operating_temporal_metadata_def Let_def steps t_def simp flip: T_def split: if_splits)
  then have pt: "as_mapping (dget p ''temporal'') = t"
    using temporal_part_Nil[where kind = "py_strip record_type" and d = T and vf = vf and st = st and vt = vt and s = s] by (auto simp: t_def T_def)
  obtain f where vf: "vf = Some f" "0 \<le> f" "f < MAX_TIME"
    using steps(1) c parse_iso_bounds by (fastforce simp: or_time_def rbind_Inr split: option.splits)
  have "or_time (dget t ''valid_from'') (PStr created) = Inr vf"
    using temporal_part_gets(2)[where kind = "py_strip record_type" and d = T and vf = vf and st = st and vt = vt and s = s, folded t_def] steps(1) vf by (auto simp: or_time_def)
  moreover have "rbind (parse_iso (dget t ''valid_to'')) (\<lambda>stated. rbind (case stated of Some e \<Rightarrow> Inr (Some e)
        | None \<Rightarrow> rbind (positive_seconds (dget t ''expires_after_seconds'')) (\<lambda>s. end_after vf None s)) (\<lambda>v. Inr (vf, v))) = Inr (vf, vt)"
  proof (cases st)
    case (Some e)
    then have "vt = Some e" using steps(4) by (simp add: end_after_def)
    then show ?thesis using steps(2) temporal_part_gets(1)[where kind = "py_strip record_type" and d = T and vf = vf and st = st and vt = vt and s = s, folded t_def] Some by simp
  next
    case None
    show ?thesis
    proof (cases vt)
      case (Some e)
      then show ?thesis using end_after_bounds[of vf s e] steps(4) None temporal_part_gets(1)[where kind = "py_strip record_type" and d = T and vf = vf and st = st and vt = vt and s = s, folded t_def]
        by simp
    next
      case vn: None
      then have s: "s = None" using steps(4) None vf(1) by (auto simp: end_after_def rbind_Inr split: option.splits)
      then have "positive_seconds (dget T ''expires_after_seconds'') = Inr None" using steps(3) by (auto simp: seconds_or_def rbind_Inr split: option.splits)
      then show ?thesis using steps(2) None vn s temporal_part_gets(1,3)[where kind = "py_strip record_type" and d = T and vf = vf and st = st and vt = vt and s = s, folded t_def]
        by (simp add: end_after_def)
    qed
  qed
  ultimately have "operating_window row = Inr (vf, vt)"
    using row by (simp add: operating_window_def row_metadata_def pt)
  then show ?thesis by (simp add: steps Let_def flip: T_def)
qed

definition sample_operating :: pydict where
  "sample_operating = [(''expires_after_seconds'', PInt 60)]"

theorem normalised_window_is_kept_witness:
  "\<exists>p. normalize_operating_temporal_metadata ''active_work'' ''2024-02-29T12:00:00'' sample_operating = Inr p \<and>
     operating_window [(''metadata'', PDict p), (''created_at'', PStr ''2024-02-29T12:00:00'')] =
       Inr (Some 63844804800000000, Some 63844804860000000)"
proof -
  have n: "case normalize_operating_temporal_metadata ''active_work'' ''2024-02-29T12:00:00'' sample_operating of Inr p \<Rightarrow> True | Inl _ \<Rightarrow> False"
    by code_simp
  then obtain p where p: "normalize_operating_temporal_metadata ''active_work'' ''2024-02-29T12:00:00'' sample_operating = Inr p"
    by (auto split: sum.splits)
  have c: "parse_iso (PStr ''2024-02-29T12:00:00'') = Inr (Some 63844804800000000)" by code_simp
  have w: "(let temporal = as_mapping (dget sample_operating ''temporal'')
     in rbind (or_time (dget temporal ''valid_from'') (PStr ''2024-02-29T12:00:00'')) (\<lambda>valid_from.
        rbind (parse_iso (dget temporal ''valid_to'')) (\<lambda>stated.
        rbind (seconds_or (dget temporal ''expires_after_seconds'') (dget sample_operating ''expires_after_seconds'')) (\<lambda>seconds.
        rbind (end_after valid_from stated seconds) (\<lambda>valid_to. Inr (valid_from, valid_to)))))) =
      Inr (Some 63844804800000000, Some 63844804860000000)"
    by code_simp
  show ?thesis
    using normalised_window_is_kept[OF p c, of "[(''metadata'', PDict p), (''created_at'', PStr ''2024-02-29T12:00:00'')]"] w p by simp
qed

end
