(* ===== verification/RetrievalFusion.thy ===== *)
theory RetrievalFusion
  imports OperatingTruth
begin

text \<open>
  Fusion and selection of retrieved evidence (\<open>src/brainstack/retrieval_pipeline/runtime.py\<close>, \<open>fusion_selection.py\<close>): the rows of
  twenty channels become candidates by key, scored by reciprocal rank with weights and bonuses in
  binary64, sorted, and selected into the shelves of the packet under their limits and the evidence
  budget, with the reasons why a candidate is left out. The clock of the graph facts is one argument.
  The rows of the channels are distinct dictionaries.
\<close>

section \<open>Numbers\<close>

text \<open>
  \<open>repr\<close> of a positive float: the decimals of the shortest length that read back as the float, the nearest of them,
  in positional notation when the point is near the digits.
\<close>

definition exponent10 :: "rat \<Rightarrow> int" where
  "exponent10 q =
     (if 1 \<le> q then int (length (show_nat (nat \<lfloor>q\<rfloor>))) - 1
      else case find (\<lambda>k. 1 \<le> q * 10 ^ k) [1..<400] of Some k \<Rightarrow> - int k | None \<Rightarrow> 0)"

definition decimals_of :: "rat \<Rightarrow> nat \<Rightarrow> int option" where
  "decimals_of q n =
     (let p = pow10 (exponent10 q - int n + 1); y = q / p; lo = \<lfloor>y\<rfloor>; hi = lo + 1; near = round_half_even y; far = (if near = lo then hi else lo)
      in if round64 (of_int near * p) = q then Some near else if round64 (of_int far * p) = q then Some far else None)"

fun drop_zeros :: "string \<Rightarrow> string" where
  "drop_zeros s = rev (dropWhile (\<lambda>c. c = CHR ''0'') (rev s))"

definition place_point :: "string \<Rightarrow> int \<Rightarrow> string" where
  "place_point ds e =
     (let k = e + 1
      in if 0 < k \<and> k \<le> 16 then
           (if int (length ds) \<le> k then ds @ replicate (nat k - length ds) (CHR ''0'') @ ''.0''
            else take (nat k) ds @ ''.'' @ drop (nat k) ds)
         else if - 4 < k \<and> k \<le> 0 then ''0.'' @ replicate (nat (- k)) (CHR ''0'') @ ds
         else hd ds # (if tl ds = [] then [] else CHR ''.'' # tl ds) @ ''e'' @ (if e < 0 then ''-'' else ''+'') @
              (let x = show_nat (nat \<bar>e\<bar>) in if length x < 2 then CHR ''0'' # x else x))"

definition float_repr :: "rat \<Rightarrow> string" where
  "float_repr q =
     (if q = 0 then ''0.0''
      else let a = \<bar>q\<bar>
           in case find (\<lambda>n. decimals_of a n \<noteq> None) [1..<18] of
                Some n \<Rightarrow>
                  (let d = the (decimals_of a n); ds = show_nat (nat d); e = exponent10 a + (if length ds > n then 1 else 0)
                   in (if q < 0 then ''-'' else []) @ place_point (drop_zeros ds) e)
              | None \<Rightarrow> [])"

definition dec :: "int \<Rightarrow> nat \<Rightarrow> rat" where
  "dec n digits = round64 (of_int n / 10 ^ digits)"

definition fdiv :: "rat \<Rightarrow> rat \<Rightarrow> rat" where
  "fdiv a b = round64 (a / b)"

text \<open>\<open>float(row.get(key) or 0.0)\<close> and \<open>int(row.get(key) or 0)\<close>\<close>

definition row_float :: "pydict \<Rightarrow> string \<Rightarrow> pyfloat result" where
  "row_float row key = py_float (py_or (dget row key) (PFloat 0 ''0.0''))"

definition row_int :: "pydict \<Rightarrow> string \<Rightarrow> int result" where
  "row_int row key = py_int (py_or (dget row key) (PInt 0))"

definition float_scale :: "pyfloat \<Rightarrow> rat \<Rightarrow> pyfloat" where
  "float_scale f q = (case f of Fin a \<Rightarrow> Fin (fmul a q) | PosInf \<Rightarrow> PosInf | NegInf \<Rightarrow> NegInf | NaN \<Rightarrow> NaN)"

section \<open>Candidates\<close>

record evidence_candidate =
  ca_key :: string
  ca_shelf :: string
  ca_row :: pydict
  ca_rrf :: rat
  ca_ranks :: "(string \<times> nat) list"

definition seen_in :: "string \<Rightarrow> nat \<Rightarrow> evidence_candidate \<Rightarrow> evidence_candidate" where
  "seen_in name rank c =
     (case map_of (ca_ranks c) name of
        Some current \<Rightarrow> if rank < current then c\<lparr>ca_ranks := AList.update name rank (ca_ranks c)\<rparr> else c
      | None \<Rightarrow> c\<lparr>ca_ranks := AList.update name rank (ca_ranks c)\<rparr>)"

definition candidate_key :: "string \<Rightarrow> pydict \<Rightarrow> string result" where
  "candidate_key shelf row =
     (if shelf = ''profile'' \<or> shelf = ''operating'' then
        (let stable_key = strip_text (dget row ''stable_key'')
         in Inr (shelf @ '':'' @ (if stable_key \<noteq> [] then stable_key else py_str (dget row ''id''))))
      else if shelf \<in> set CONTINUITY_SHELVES then rbind (row_int row ''id'') (\<lambda>i. Inr (''continuity:'' @ show_int i))
      else if shelf = ''transcript'' then rbind (row_int row ''id'') (\<lambda>i. Inr (''transcript:'' @ show_int i))
      else if shelf = ''graph'' then
        rbind (row_int row ''row_id'') (\<lambda>i. Inr (''graph:'' @ py_str (dget row ''row_type'') @ '':'' @ show_int i))
      else if shelf = ''corpus'' then
        rbind (row_int row ''document_id'') (\<lambda>i. rbind (row_int row ''section_index'') (\<lambda>j.
          Inr (''corpus:'' @ show_int i @ '':'' @ show_int j)))
      else Inr (shelf @ '':'' @ py_repr (PDict row)))"

definition SHELF_PRIORITIES :: "(string \<times> int) list" where
  "SHELF_PRIORITIES =
     [(''profile'', 5), (''operating'', 4), (''graph'', 3), (''continuity_match'', 2), (''continuity_recent'', 1), (''transcript'', 0), (''corpus'', -1)]"

definition shelf_priority :: "string \<Rightarrow> int" where
  "shelf_priority shelf = (case map_of SHELF_PRIORITIES shelf of Some p \<Rightarrow> p | None \<Rightarrow> 0)"

definition merge_shelf :: "string \<Rightarrow> string \<Rightarrow> string" where
  "merge_shelf existing new = (if shelf_priority existing \<ge> shelf_priority new then existing else new)"

definition FUSION_CHANNEL_WEIGHTS :: "(string \<times> rat) list" where
  "FUSION_CHANNEL_WEIGHTS =
     [(''keyword'', 1), (''operating'', dec 105 2), (''semantic'', dec 112 2), (''graph'', dec 108 2), (''associative'', dec 74 2), (''temporal'', dec 104 2)]"

definition FUSION_SHELF_WEIGHTS :: "(string \<times> rat) list" where
  "FUSION_SHELF_WEIGHTS =
     [(''profile'', dec 112 2), (''operating'', dec 108 2), (''graph'', dec 105 2), (''continuity_match'', 1), (''continuity_recent'', dec 96 2),
      (''transcript'', 1), (''corpus'', dec 94 2)]"

definition weight_in :: "(string \<times> rat) list \<Rightarrow> string \<Rightarrow> rat" where
  "weight_in weights name = (case map_of weights name of Some w \<Rightarrow> w | None \<Rightarrow> 1)"

definition RRF_K :: nat where "RRF_K = 60"

definition fusion_rank_contribution :: "string \<Rightarrow> string \<Rightarrow> nat \<Rightarrow> rat" where
  "fusion_rank_contribution channel_name shelf rank =
     fdiv (fmul (weight_in FUSION_CHANNEL_WEIGHTS channel_name) (weight_in FUSION_SHELF_WEIGHTS shelf)) (round64 (of_nat (RRF_K + rank)))"

type_synonym merged = "(string \<times> evidence_candidate) list"

text \<open>One row of a channel: the first row of a key stays, a later one adds its rank, score and perhaps its shelf.\<close>

definition merge_row :: "string \<Rightarrow> string \<Rightarrow> nat \<Rightarrow> pydict \<Rightarrow> merged \<Rightarrow> merged result" where
  "merge_row channel_name shelf rank row0 m =
     (let row = annotate_workstream_recap_row shelf row0
      in rbind (candidate_key shelf row) (\<lambda>key.
         (let c = (case map_of m key of
                     None \<Rightarrow> \<lparr>ca_key = key, ca_shelf = shelf, ca_row = row, ca_rrf = 0, ca_ranks = []\<rparr>
                   | Some c \<Rightarrow> c\<lparr>ca_shelf := merge_shelf (ca_shelf c) shelf\<rparr>);
              c1 = seen_in channel_name rank c;
              c2 = c1\<lparr>ca_rrf := fadd (ca_rrf c1) (fusion_rank_contribution channel_name shelf rank)\<rparr>
          in Inr (AList.update key c2 m))))"

fun merge_rows :: "string \<Rightarrow> string \<Rightarrow> nat \<Rightarrow> pydict list \<Rightarrow> merged \<Rightarrow> merged result" where
  "merge_rows channel_name shelf rank [] m = Inr m"
| "merge_rows channel_name shelf rank (row # rows) m =
     rbind (merge_row channel_name shelf rank row m) (merge_rows channel_name shelf (Suc rank) rows)"

definition merge_channel :: "string \<Rightarrow> string \<Rightarrow> pydict list \<Rightarrow> merged \<Rightarrow> merged result" where
  "merge_channel channel_name shelf rows m = merge_rows channel_name shelf 1 rows m"

section \<open>Scores\<close>

definition graph_match_text :: "pydict \<Rightarrow> string" where
  "graph_match_text row = py_join '' '' (filter (\<lambda>p. p \<noteq> []) (map (\<lambda>k. strip_text (dget row k))
     [''subject'', ''matched_alias'', ''attribute'', ''value'', ''predicate'', ''object_value'', ''conflict_value'']))"

definition candidate_text :: "evidence_candidate \<Rightarrow> string" where
  "candidate_text c =
     (if ca_shelf c = ''graph'' then graph_match_text (ca_row c)
      else if ca_shelf c = ''transcript'' then norm_text (PStr (primary_user_turn_content (dget (ca_row c) ''content'')))
      else norm_text (dget (ca_row c) ''content''))"

definition graph_fact_class :: "pydict \<Rightarrow> int \<Rightarrow> string result" where
  "graph_fact_class row now =
     (let row_type = strip_text (dget row ''row_type'')
      in if row_type = ''conflict'' then Inr ''conflict''
         else if row_type = ''inferred_relation'' then Inr ''inferred_relation''
         else if row_type = ''relation'' then Inr ''explicit_relation''
         else if row_type = ''state'' then
           rbind (record_temporal_status row PNone now) (\<lambda>status.
           rbind (if truthy (dget row ''is_current'') \<and> status = ''current'' then record_is_effective_at row PNone now else Inr False) (\<lambda>effective.
             Inr (if truthy (dget row ''is_current'') \<and> status = ''current'' \<and> effective then ''explicit_state_current''
                  else if truthy (dget row ''is_current'') \<and> status = ''expired'' then ''explicit_state_expired''
                  else ''explicit_state_prior'')))
         else Inr (if row_type \<noteq> [] then row_type else ''graph''))"

definition operating_record_type_bonus :: "pydict \<Rightarrow> rat" where
  "operating_record_type_bonus row =
     (let record_type = strip_text (dget row ''record_type'')
      in if is_background_operating_record row then - dec 12 2
         else if record_type = ''recent_work_summary'' then
           (let authority_rank = recent_work_authority_rank row
            in if authority_rank \<le> 20 then - dec 8 2 else if authority_rank \<ge> 300 then dec 18 2 else dec 16 2)
         else if record_type \<in> set RECENT_WORK_RECAP_RECORD_TYPES then dec 12 2
         else if record_type = ''live_system_state'' then - dec 2 2
         else dec 5 2)"

definition looks_user_led :: "string \<Rightarrow> bool" where
  "looks_user_led t \<longleftrightarrow> norm_text (PStr (part_of (split_turn_content (PStr t)) ''user'')) \<noteq> []"

definition shelf_bonus :: "evidence_candidate \<Rightarrow> rat" where
  "shelf_bonus c =
     (if ca_shelf c = ''transcript'' then
        (let b = dec 5 2; b1 = (if ''keyword'' \<in> set (map fst (ca_ranks c)) then fadd b (dec 3 2) else b)
         in if looks_user_led (candidate_text c) then fadd b1 (dec 4 2) else b1)
      else if ca_shelf c = ''operating'' then fadd (dec 7 2) (operating_record_type_bonus (ca_row c))
      else if ca_shelf c = ''continuity_match'' then dec 2 2
      else if ca_shelf c = ''continuity_recent'' then dec 1 2
      else 0)"

text \<open>\<open>min(cap, score * factor)\<close> for a positive score.\<close>

definition capped :: "pyfloat \<Rightarrow> rat \<Rightarrow> rat \<Rightarrow> rat" where
  "capped score cap factor = (if float_less (Fin 0) score then finite_part (float_min (Fin cap) (float_scale score factor)) else 0)"

definition overlap_bonus :: "int \<Rightarrow> rat result" where
  "overlap_bonus n =
     (if n \<le> 0 then Inr 0 else if overflows (of_int n) then Inl OverflowError
      else Inr (finite_part (float_min (Fin (dec 9 2)) (Fin (fmul (round64 (of_int n)) (dec 3 2))))))"

definition add_if :: "bool \<Rightarrow> rat \<Rightarrow> rat \<Rightarrow> rat" where
  "add_if b q s = (if b then fadd s q else s)"

definition text_bonus :: "evidence_candidate \<Rightarrow> rat \<Rightarrow> rat" where
  "text_bonus c b =
     (let t = candidate_text c
      in add_if (CHR 0x22 \<in> set t \<or> CHR 0x27 \<in> set t) (dec 2 2)
           (add_if (truthy (dget (ca_row c) ''_brainstack_query_has_digits'') \<and> list_ex is_digit t) (dec 8 2) b))"

definition candidate_priority_bonus :: "evidence_candidate \<Rightarrow> int \<Rightarrow> rat result" where
  "candidate_priority_bonus c now =
     (let row = ca_row c; b1 = text_bonus c (shelf_bonus c)
      in rbind (row_float row ''keyword_score'') (\<lambda>keyword_score.
         rbind (row_float row ''semantic_score'') (\<lambda>semantic_score.
         rbind (row_int row ''_brainstack_query_token_overlap'') (\<lambda>overlap.
         rbind (overlap_bonus overlap) (\<lambda>from_overlap.
         (let b2 = add_if (float_less (Fin 0) keyword_score) (capped keyword_score (dec 6 2) (dec 6 2)) b1;
              b3 = add_if (float_less (Fin 0) semantic_score) (capped semantic_score (dec 8 2) (dec 8 2)) b2;
              b4 = add_if (0 < overlap) from_overlap b3;
              b5 = add_if (truthy (dget row ''same_session'')) (dec 3 2) b4;
              b6 = add_if (truthy (dget row ''_brainstack_recap_surface'')) (dec 12 2) b5;
              b7 = add_if (truthy (dget row ''_brainstack_supporting_evidence_only'')) (- dec 8 2) b6
          in if ca_shelf c = ''graph'' then
               rbind (graph_fact_class row now) (\<lambda>fact_class.
                 Inr (add_if (fact_class = ''conflict'') (dec 1 1)
                       (add_if (fact_class = ''explicit_state_prior'') (- dec 2 2)
                         (add_if (fact_class = ''explicit_state_current'') (dec 8 2) b7))))
             else Inr b7))))))"

definition agreement_bonus :: "evidence_candidate \<Rightarrow> rat" where
  "agreement_bonus c =
     (let n = length (ca_ranks c)
      in if n \<le> 1 then 0 else finite_part (float_min (Fin (dec 15 2)) (Fin (fmul (dec 5 2) (of_nat (n - 1))))))"

type_synonym fact_key = "rat \<times> rat \<times> rat \<times> nat \<times> nat \<times> nat \<times> nat \<times> nat"

definition fact_sort_key :: "int \<Rightarrow> evidence_candidate \<Rightarrow> fact_key result" where
  "fact_sort_key now c =
     rbind (candidate_priority_bonus c now) (\<lambda>bonus.
       (let a = agreement_bonus c; one = (\<lambda>shelf. if ca_shelf c = shelf then 1 else 0)
        in Inr (fadd (fadd (ca_rrf c) bonus) a, a, bonus, length (ca_ranks c),
                one ''operating'', one ''transcript'', one ''graph'', one ''profile'')))"

text \<open>\<open>sorted(xs, key=f, reverse=True)\<close>: the keys are computed first; equal keys keep their order.\<close>

definition sorted_descending :: "(fact_key \<times> evidence_candidate) list \<Rightarrow> evidence_candidate list" where
  "sorted_descending kxs = map snd (rev (sort_key fst (rev kxs)))"

definition rank_candidates :: "int \<Rightarrow> evidence_candidate list \<Rightarrow> evidence_candidate list result" where
  "rank_candidates now cs = rbind (map_result (fact_sort_key now) cs) (\<lambda>keys. Inr (sorted_descending (zip keys cs)))"

text \<open>The rows that the channels found, in the order in which they are merged.\<close>

record channel_rows =
  cr_profile_keyword :: "pydict list"
  cr_profile_semantic :: "pydict list"
  cr_operating_keyword :: "pydict list"
  cr_operating_recent_work :: "pydict list"
  cr_operating_current :: "pydict list"
  cr_operating_semantic :: "pydict list"
  cr_continuity_keyword :: "pydict list"
  cr_continuity_semantic :: "pydict list"
  cr_transcript_keyword :: "pydict list"
  cr_corpus_keyword :: "pydict list"
  cr_conversation_semantic :: "pydict list"
  cr_corpus_semantic :: "pydict list"
  cr_index_corpus_semantic :: "pydict list"
  cr_graph :: "pydict list"
  cr_graph_semantic :: "pydict list"
  cr_graph_associative :: "pydict list"
  cr_temporal_continuity :: "pydict list"
  cr_temporal_recent :: "pydict list"
  cr_temporal_transcript :: "pydict list"
  cr_temporal_graph :: "pydict list"

definition channel_plan :: "channel_rows \<Rightarrow> (string \<times> string \<times> pydict list) list" where
  "channel_plan r =
     [(''keyword'', ''profile'', cr_profile_keyword r), (''semantic'', ''profile'', cr_profile_semantic r),
      (''operating'', ''operating'', cr_operating_keyword r), (''operating'', ''operating'', cr_operating_recent_work r),
      (''operating'', ''operating'', cr_operating_current r), (''semantic'', ''operating'', cr_operating_semantic r),
      (''keyword'', ''continuity_match'', cr_continuity_keyword r), (''semantic'', ''continuity_match'', cr_continuity_semantic r),
      (''keyword'', ''transcript'', cr_transcript_keyword r), (''keyword'', ''corpus'', cr_corpus_keyword r),
      (''semantic'', ''transcript'', cr_conversation_semantic r), (''semantic'', ''corpus'', cr_corpus_semantic r),
      (''semantic'', ''corpus'', cr_index_corpus_semantic r), (''graph'', ''graph'', cr_graph r), (''semantic'', ''graph'', cr_graph_semantic r),
      (''associative'', ''graph'', cr_graph_associative r), (''temporal'', ''continuity_recent'', cr_temporal_continuity r),
      (''temporal'', ''continuity_recent'', cr_temporal_recent r), (''temporal'', ''transcript'', cr_temporal_transcript r),
      (''temporal'', ''graph'', cr_temporal_graph r)]"

fun merge_channels :: "(string \<times> string \<times> pydict list) list \<Rightarrow> merged \<Rightarrow> merged result" where
  "merge_channels [] m = Inr m"
| "merge_channels ((channel_name, shelf, rows) # plan) m = rbind (merge_channel channel_name shelf rows m) (merge_channels plan)"

definition merge_retrieval_candidates :: "int \<Rightarrow> channel_rows \<Rightarrow> evidence_candidate list result" where
  "merge_retrieval_candidates now rows = rbind (merge_channels (channel_plan rows) []) (\<lambda>m. rank_candidates now (map snd m))"

section \<open>Why a candidate is left out\<close>

definition AUTHORITY_FLOOR_SCORE :: int where "AUTHORITY_FLOOR_SCORE = 80"

definition OPERATING_AUTHORITY_FLOOR_TYPES :: "string list" where
  "OPERATING_AUTHORITY_FLOOR_TYPES = [''active_work'', ''canonical_policy'', ''current_commitment'', ''live_system_state'', ''runtime_approval_policy'']"

definition candidate_authority_floor :: "evidence_candidate \<Rightarrow> int" where
  "candidate_authority_floor c =
     (if ca_shelf c = ''profile'' then 100
      else if ca_shelf c = ''operating'' \<and>
        (strip_text (dget (ca_row c) ''record_type'') \<in> set OPERATING_AUTHORITY_FLOOR_TYPES \<or>
         strip_text (dget (row_metadata (ca_row c)) ''authority_level'') = ''canonical'') then 90
      else if ca_shelf c = ''graph'' \<and> strip_text (dget (ca_row c) ''fact_class'') \<in> set [''explicit_state_current'', ''conflict''] then 85
      else 0)"

definition candidate_has_authority_floor :: "evidence_candidate \<Rightarrow> bool" where
  "candidate_has_authority_floor c \<longleftrightarrow> candidate_authority_floor c \<ge> AUTHORITY_FLOOR_SCORE"

definition TRANSCRIPT_LIKE_SHELVES :: "string list" where
  "TRANSCRIPT_LIKE_SHELVES = [''transcript'', ''continuity_match'', ''continuity_recent'']"

definition weak_cross_session_keyword_residue_reason :: "evidence_candidate \<Rightarrow> string result" where
  "weak_cross_session_keyword_residue_reason c =
     (let row = ca_row c; channels = map fst (ca_ranks c)
      in if ca_shelf c \<notin> set TRANSCRIPT_LIKE_SHELVES then Inr []
         else if truthy (dget row ''same_session'') then Inr []
         else if ''temporal'' \<in> set channels then Inr []
         else rbind (if ''semantic'' \<in> set channels then rbind (row_float row ''semantic_score'') (\<lambda>s. Inr (float_less (Fin 0) s)) else Inr False) (\<lambda>semantic.
           if semantic then Inr []
           else rbind (row_int row ''_brainstack_query_token_count'') (\<lambda>n.
             if n < 4 then Inr []
             else rbind (row_int row ''_brainstack_query_token_overlap'') (\<lambda>overlap.
               Inr (if overlap \<ge> 2 then []
                    else ''weak_cross_session_keyword_residue: broad query matched fewer than two informative tokens on a transcript-like shelf'')))))"

definition assistant_assignment_residue_reason :: "bool \<Rightarrow> evidence_candidate \<Rightarrow> string" where
  "assistant_assignment_residue_reason requested c =
     (let row = ca_row c;
          t = py_lower (norm_text (py_or (dget row ''content'') (py_or (dget row ''excerpt'') (py_or (dget row ''content_excerpt'')
                (py_or (dget row ''summary'') (PStr []))))))
      in if \<not> requested \<or> ca_shelf c \<notin> set TRANSCRIPT_LIKE_SHELVES \<or> strip_text (dget row ''owner_role'') = ''agent_assignment'' then []
         else if \<not> py_contains ''assistant:'' t \<and> \<not> py_contains ''| assistant:'' t then []
         else ''assistant_authored_current_assignment_residue: transcript/continuity assistant text is supporting history, not current assignment authority'')"

definition tier2_graph_assignment_residue_reason :: "bool \<Rightarrow> evidence_candidate \<Rightarrow> string" where
  "tier2_graph_assignment_residue_reason requested c =
     (let row = ca_row c
      in if \<not> requested \<or> ca_shelf c \<noteq> ''graph'' \<or> strip_text (dget row ''owner_role'') = ''agent_assignment'' then []
         else if \<not> py_startswith (strip_text (dget row ''source'')) ''tier2:'' then []
         else ''tier2_graph_current_assignment_residue: Tier-2 graph state is supporting evidence, not current assignment authority'')"

definition selection_suppression_reason :: "bool \<Rightarrow> bool \<Rightarrow> string set \<Rightarrow> evidence_candidate \<Rightarrow> string result" where
  "selection_suppression_reason requested has_anchor anchor_ids c =
     rbind (weak_cross_session_keyword_residue_reason c) (\<lambda>weak.
       (let row = ca_row c; assistant = assistant_assignment_residue_reason requested c;
            tier2 = tier2_graph_assignment_residue_reason requested c;
            bank = workstream_bank_mismatch_reason anchor_ids (ca_shelf c) row
        in Inr (if weak \<noteq> [] then weak
                else if assistant \<noteq> [] then assistant
                else if tier2 \<noteq> [] then tier2
                else if has_anchor \<and> ca_shelf c \<in> set CONTINUITY_SHELVES \<and> truthy (dget row ''_brainstack_supporting_evidence_only'') then
                  py_str (py_or (dget row ''_brainstack_workstream_recap_reason'') (PStr ''supporting_only_unscoped_workstream_recap_evidence''))
                else if bank \<noteq> [] then bank
                else if has_anchor \<and> ca_shelf c = ''operating'' \<and> truthy (dget row ''_brainstack_runtime_state_only'') then
                  ''runtime_state_only: scheduler/live-state evidence is supporting context, not assignment truth when scoped workstream authority is present''
                else text_of (dget row ''_brainstack_suppression_reason''))))"

section \<open>Selection\<close>

definition ranks_dict :: "(string \<times> nat) list \<Rightarrow> pyval" where
  "ranks_dict ranks = PDict (map (\<lambda>(k, n). (k, PInt (int n))) ranks)"

definition materialize_candidate :: "evidence_candidate \<Rightarrow> pydict" where
  "materialize_candidate c =
     (let floor = candidate_authority_floor c
      in dset ''_brainstack_authority_floor_applied'' (PBool (floor \<ge> AUTHORITY_FLOOR_SCORE))
          (dset ''_brainstack_authority_floor'' (PInt floor)
            (dset ''_brainstack_channel_ranks'' (ranks_dict (ca_ranks c))
              (dset ''_brainstack_channels'' (PList (map PStr (sort (map fst (ca_ranks c)))))
                (dset ''_brainstack_rrf_score'' (PFloat (ca_rrf c) (float_repr (ca_rrf c))) (ca_row c))))))"

record selection_limits =
  sl_profile :: int
  sl_matched :: int
  sl_recent :: int
  sl_transcript :: int
  sl_operating :: int
  sl_graph :: int
  sl_corpus :: int

record buckets =
  bk_profile :: "pydict list"
  bk_matched :: "pydict list"
  bk_recent :: "pydict list"
  bk_transcript :: "pydict list"
  bk_operating :: "pydict list"
  bk_graph :: "pydict list"
  bk_corpus :: "pydict list"
  bk_seen_profile :: "string set"
  bk_seen_continuity :: "int set"
  bk_seen_transcript :: "int set"
  bk_seen_operating :: "string set"
  bk_seen_graph :: "(string \<times> int) set"
  bk_seen_corpus :: "(int \<times> int) set"
  bk_used :: int

definition no_buckets :: buckets where
  "no_buckets = \<lparr>bk_profile = [], bk_matched = [], bk_recent = [], bk_transcript = [], bk_operating = [], bk_graph = [], bk_corpus = [],
     bk_seen_profile = {}, bk_seen_continuity = {}, bk_seen_transcript = {}, bk_seen_operating = {}, bk_seen_graph = {}, bk_seen_corpus = {},
     bk_used = 0\<rparr>"

text \<open>One branch of \<open>_SelectionBuckets.add\<close> per shelf: a row with a new key is taken.\<close>

definition add_profile :: "pydict \<Rightarrow> buckets \<Rightarrow> buckets" where
  "add_profile row b =
     (let k = strip_text (dget row ''stable_key'')
      in if k \<noteq> [] \<and> k \<notin> bk_seen_profile b then b\<lparr>bk_seen_profile := insert k (bk_seen_profile b), bk_profile := bk_profile b @ [row]\<rparr> else b)"

definition add_matched :: "pydict \<Rightarrow> buckets \<Rightarrow> buckets result" where
  "add_matched row b = rbind (row_int row ''id'') (\<lambda>i. Inr (if 0 < i \<and> i \<notin> bk_seen_continuity b
     then b\<lparr>bk_seen_continuity := insert i (bk_seen_continuity b), bk_matched := bk_matched b @ [row], bk_used := bk_used b + 1\<rparr> else b))"

definition add_recent :: "pydict \<Rightarrow> buckets \<Rightarrow> buckets result" where
  "add_recent row b = rbind (row_int row ''id'') (\<lambda>i. Inr (if 0 < i \<and> i \<notin> bk_seen_continuity b
     then b\<lparr>bk_seen_continuity := insert i (bk_seen_continuity b), bk_recent := bk_recent b @ [row], bk_used := bk_used b + 1\<rparr> else b))"

definition add_transcript :: "pydict \<Rightarrow> buckets \<Rightarrow> buckets result" where
  "add_transcript row b = rbind (row_int row ''id'') (\<lambda>i. Inr (if 0 < i \<and> i \<notin> bk_seen_transcript b
     then b\<lparr>bk_seen_transcript := insert i (bk_seen_transcript b), bk_transcript := bk_transcript b @ [row], bk_used := bk_used b + 1\<rparr> else b))"

definition add_operating :: "pydict \<Rightarrow> buckets \<Rightarrow> buckets" where
  "add_operating row b =
     (let k = strip_text (dget row ''stable_key'')
      in if k \<noteq> [] \<and> k \<notin> bk_seen_operating b
         then b\<lparr>bk_seen_operating := insert k (bk_seen_operating b), bk_operating := bk_operating b @ [row], bk_used := bk_used b + 1\<rparr> else b)"

definition add_graph :: "pydict \<Rightarrow> buckets \<Rightarrow> buckets result" where
  "add_graph row b = rbind (row_int row ''row_id'') (\<lambda>i.
     (let k = (text_of (dget row ''row_type''), i)
      in Inr (if 0 < i \<and> k \<notin> bk_seen_graph b
              then b\<lparr>bk_seen_graph := insert k (bk_seen_graph b), bk_graph := bk_graph b @ [row], bk_used := bk_used b + 1\<rparr> else b)))"

definition add_corpus :: "pydict \<Rightarrow> buckets \<Rightarrow> buckets result" where
  "add_corpus row b = rbind (row_int row ''document_id'') (\<lambda>i. rbind (row_int row ''section_index'') (\<lambda>j.
     Inr (if 0 < i \<and> (i, j) \<notin> bk_seen_corpus b
          then b\<lparr>bk_seen_corpus := insert (i, j) (bk_seen_corpus b), bk_corpus := bk_corpus b @ [row], bk_used := bk_used b + 1\<rparr> else b)))"

definition fits :: "'a list \<Rightarrow> int \<Rightarrow> bool" where
  "fits xs limit \<longleftrightarrow> int (length xs) < limit"

definition over_budget :: "int \<Rightarrow> evidence_candidate \<Rightarrow> buckets \<Rightarrow> bool" where
  "over_budget budget c b \<longleftrightarrow> budget > 0 \<and> bk_used b \<ge> budget \<and> \<not> candidate_has_authority_floor c"

definition suppress :: "string \<Rightarrow> evidence_candidate \<Rightarrow> evidence_candidate" where
  "suppress reason c = c\<lparr>ca_row := dset ''_brainstack_suppression_reason'' (PStr reason) (ca_row c)\<rparr>"

text \<open>The buckets and the candidate, whose row gets the reason when the budget is used up.\<close>

definition add_to_buckets ::
    "selection_limits \<Rightarrow> int \<Rightarrow> evidence_candidate \<Rightarrow> pydict \<Rightarrow> buckets \<Rightarrow> (buckets \<times> evidence_candidate) result" where
  "add_to_buckets l budget c row b =
     (if ca_shelf c = ''profile'' \<and> fits (bk_profile b) (sl_profile l) then Inr (add_profile row b, c)
      else if over_budget budget c b then Inr (b, suppress ''not_selected_by_global_evidence_budget'' c)
      else rbind
        (if ca_shelf c = ''continuity_match'' \<and> fits (bk_matched b) (sl_matched l) then add_matched row b
         else if ca_shelf c = ''continuity_recent'' \<and> fits (bk_recent b) (sl_recent l) then add_recent row b
         else if ca_shelf c = ''transcript'' \<and> fits (bk_transcript b) (sl_transcript l) then add_transcript row b
         else if ca_shelf c = ''operating'' \<and> fits (bk_operating b) (sl_operating l) then Inr (add_operating row b)
         else if ca_shelf c = ''graph'' \<and> fits (bk_graph b) (sl_graph l) then add_graph row b
         else if ca_shelf c = ''corpus'' \<and> fits (bk_corpus b) (sl_corpus l) then add_corpus row b
         else Inr b) (\<lambda>b1. Inr (b1, c)))"

definition is_recap_anchor :: "evidence_candidate \<Rightarrow> bool" where
  "is_recap_anchor c \<longleftrightarrow> ca_shelf c = ''operating'' \<and> truthy (dget (ca_row c) ''_brainstack_recap_surface'')"

definition anchor_workstreams :: "evidence_candidate list \<Rightarrow> string set" where
  "anchor_workstreams cs = set (filter (\<lambda>w. w \<noteq> []) (map (\<lambda>c. row_workstream_id (ca_row c)) (filter is_recap_anchor cs)))"

definition select_candidate ::
    "selection_limits \<Rightarrow> int \<Rightarrow> bool \<Rightarrow> bool \<Rightarrow> string set \<Rightarrow> evidence_candidate \<Rightarrow> buckets \<Rightarrow> (buckets \<times> evidence_candidate) result" where
  "select_candidate l budget requested has_anchor anchor_ids c b =
     rbind (selection_suppression_reason requested has_anchor anchor_ids c) (\<lambda>reason.
       if reason \<noteq> [] then Inr (b, suppress reason c) else add_to_buckets l budget c (materialize_candidate c) b)"

fun select_loop ::
    "selection_limits \<Rightarrow> int \<Rightarrow> bool \<Rightarrow> bool \<Rightarrow> string set \<Rightarrow> evidence_candidate list \<Rightarrow> buckets \<Rightarrow> (buckets \<times> evidence_candidate list) result" where
  "select_loop l budget requested has_anchor anchor_ids [] b = Inr (b, [])"
| "select_loop l budget requested has_anchor anchor_ids (c # cs) b =
     rbind (select_candidate l budget requested has_anchor anchor_ids c b) (\<lambda>(b1, c1).
     rbind (select_loop l budget requested has_anchor anchor_ids cs b1) (\<lambda>(b2, cs1). Inr (b2, c1 # cs1)))"

definition select_rows :: "selection_limits \<Rightarrow> int \<Rightarrow> bool \<Rightarrow> evidence_candidate list \<Rightarrow> (buckets \<times> evidence_candidate list) result" where
  "select_rows l budget requested cs =
     select_loop l budget requested (list_ex is_recap_anchor cs) (anchor_workstreams cs) cs no_buckets"

definition selected_rows :: "buckets \<Rightarrow> (string \<times> pydict list) list" where
  "selected_rows b =
     [(''profile_items'', bk_profile b), (''matched'', bk_matched b), (''recent'', bk_recent b), (''transcript_rows'', bk_transcript b),
      (''operating_rows'', bk_operating b), (''graph_rows'', bk_graph b), (''corpus_rows'', bk_corpus b)]"

section \<open>The limits of a route\<close>

record retrieval_route =
  rt_requested :: string
  rt_applied :: string
  rt_source :: string
  rt_reason :: string
  rt_fallback_used :: bool
  rt_resolution_status :: string
  rt_resolution_error :: string
  rt_resolution_error_class :: string
  rt_bounds :: pydict

definition route_limits :: "retrieval_route \<Rightarrow> selection_limits \<Rightarrow> selection_limits \<times> retrieval_route" where
  "route_limits route l =
     (if rt_applied route = ''temporal'' then
        (let l1 = l\<lparr>sl_matched := max (sl_matched l) 3, sl_recent := max (sl_recent l) 3, sl_transcript := max (sl_transcript l) 3,
                    sl_graph := max (sl_graph l) 3\<rparr>
         in (l1, route\<lparr>rt_bounds := [(''kind'', PStr ''row_cap''), (''continuity'', PInt (sl_matched l1)), (''recent'', PInt (sl_recent l1)),
               (''transcript'', PInt (sl_transcript l1)), (''graph'', PInt (sl_graph l1))]\<rparr>))
      else if rt_applied route = ''aggregate'' then
        (let l1 = l\<lparr>sl_matched := max (sl_matched l) 6, sl_transcript := max (sl_transcript l) 6, sl_graph := max (sl_graph l) 2\<rparr>
         in (l1, route\<lparr>rt_bounds := [(''kind'', PStr ''row_cap''), (''continuity'', PInt (sl_matched l1)),
               (''transcript'', PInt (sl_transcript l1)), (''graph'', PInt (sl_graph l1))]\<rparr>))
      else if rt_applied route = ''style_contract'' then
        (let l1 = \<lparr>sl_profile = max 1 (min (sl_profile l) 4), sl_matched = 0, sl_recent = 0, sl_transcript = 0, sl_operating = 0,
                   sl_graph = 0, sl_corpus = 0\<rparr>
         in (l1, route\<lparr>rt_bounds := [(''kind'', PStr ''slot_target''), (''profile'', PInt (sl_profile l1))]\<rparr>))
      else (l, route))"

section \<open>Lemmas on selection\<close>

text \<open>The shelf of the candidates behind each list of selected rows.\<close>

definition SELECTION_SHELVES :: "(string \<times> string) list" where
  "SELECTION_SHELVES =
     [(''profile_items'', ''profile''), (''matched'', ''continuity_match''), (''recent'', ''continuity_recent''), (''transcript_rows'', ''transcript''),
      (''operating_rows'', ''operating''), (''graph_rows'', ''graph''), (''corpus_rows'', ''corpus'')]"

lemma if_chain:
  "(if p1 then x1 else if p2 then x2 else if p3 then x3 else if p4 then x4 else if p5 then x5 else if p6 then x6 else x7) = y \<Longrightarrow>
     p1 \<and> x1 = y \<or> p2 \<and> x2 = y \<or> p3 \<and> x3 = y \<or> p4 \<and> x4 = y \<or> p5 \<and> x5 = y \<or> p6 \<and> x6 = y \<or> x7 = y"
  by (auto split: if_splits)

lemma add_to_buckets_cases:
  assumes "add_to_buckets l budget c row b = Inr (b1, c1)"
  obtains (same) "b1 = b"
  | (profile) k where "ca_shelf c = ''profile''" "fits (bk_profile b) (sl_profile l)" "k = strip_text (dget row ''stable_key'')" "k \<notin> bk_seen_profile b"
      "b1 = b\<lparr>bk_seen_profile := insert k (bk_seen_profile b), bk_profile := bk_profile b @ [row]\<rparr>"
  | (matched) i where "ca_shelf c = ''continuity_match''" "\<not> over_budget budget c b" "fits (bk_matched b) (sl_matched l)" "row_int row ''id'' = Inr i"
      "i \<notin> bk_seen_continuity b"
      "b1 = b\<lparr>bk_seen_continuity := insert i (bk_seen_continuity b), bk_matched := bk_matched b @ [row], bk_used := bk_used b + 1\<rparr>"
  | (recent) i where "ca_shelf c = ''continuity_recent''" "\<not> over_budget budget c b" "fits (bk_recent b) (sl_recent l)" "row_int row ''id'' = Inr i"
      "i \<notin> bk_seen_continuity b"
      "b1 = b\<lparr>bk_seen_continuity := insert i (bk_seen_continuity b), bk_recent := bk_recent b @ [row], bk_used := bk_used b + 1\<rparr>"
  | (transcript) i where "ca_shelf c = ''transcript''" "\<not> over_budget budget c b" "fits (bk_transcript b) (sl_transcript l)" "row_int row ''id'' = Inr i"
      "i \<notin> bk_seen_transcript b"
      "b1 = b\<lparr>bk_seen_transcript := insert i (bk_seen_transcript b), bk_transcript := bk_transcript b @ [row], bk_used := bk_used b + 1\<rparr>"
  | (operating) k where "ca_shelf c = ''operating''" "\<not> over_budget budget c b" "fits (bk_operating b) (sl_operating l)"
      "k = strip_text (dget row ''stable_key'')" "k \<notin> bk_seen_operating b"
      "b1 = b\<lparr>bk_seen_operating := insert k (bk_seen_operating b), bk_operating := bk_operating b @ [row], bk_used := bk_used b + 1\<rparr>"
  | (graph) i where "ca_shelf c = ''graph''" "\<not> over_budget budget c b" "fits (bk_graph b) (sl_graph l)" "row_int row ''row_id'' = Inr i"
      "(text_of (dget row ''row_type''), i) \<notin> bk_seen_graph b"
      "b1 = b\<lparr>bk_seen_graph := insert (text_of (dget row ''row_type''), i) (bk_seen_graph b), bk_graph := bk_graph b @ [row], bk_used := bk_used b + 1\<rparr>"
  | (corpus) i j where "ca_shelf c = ''corpus''" "\<not> over_budget budget c b" "fits (bk_corpus b) (sl_corpus l)" "row_int row ''document_id'' = Inr i"
      "row_int row ''section_index'' = Inr j" "(i, j) \<notin> bk_seen_corpus b"
      "b1 = b\<lparr>bk_seen_corpus := insert (i, j) (bk_seen_corpus b), bk_corpus := bk_corpus b @ [row], bk_used := bk_used b + 1\<rparr>"
proof -
  have r: "rbind (x :: buckets result) (\<lambda>b1. Inr (b1, c)) = Inr (b1, c1) \<Longrightarrow> x = Inr b1" for x by (cases x) auto
  show thesis
  proof (cases "ca_shelf c = ''profile'' \<and> fits (bk_profile b) (sl_profile l)")
    case True
    then have "b1 = add_profile row b" using assms by (simp add: add_to_buckets_def)
    define k where "k = strip_text (dget row ''stable_key'')"
    have e: "b1 = (if k \<noteq> [] \<and> k \<notin> bk_seen_profile b
        then b\<lparr>bk_seen_profile := insert k (bk_seen_profile b), bk_profile := bk_profile b @ [row]\<rparr> else b)"
      using \<open>b1 = _\<close> by (simp add: add_profile_def Let_def k_def)
    show thesis
    proof (cases "k \<noteq> [] \<and> k \<notin> bk_seen_profile b")
      case t: True
      then show thesis using e True by (intro profile[OF _ _ k_def]) simp_all
    qed (use e in \<open>auto intro: same\<close>)
  next
    case np: False
    show thesis
    proof (cases "over_budget budget c b")
      case True
      then have "b1 = b" using assms np by (simp add: add_to_buckets_def)
      then show thesis by (rule same)
    next
      case ob: False
      then have x: "(if ca_shelf c = ''continuity_match'' \<and> fits (bk_matched b) (sl_matched l) then add_matched row b
         else if ca_shelf c = ''continuity_recent'' \<and> fits (bk_recent b) (sl_recent l) then add_recent row b
         else if ca_shelf c = ''transcript'' \<and> fits (bk_transcript b) (sl_transcript l) then add_transcript row b
         else if ca_shelf c = ''operating'' \<and> fits (bk_operating b) (sl_operating l) then Inr (add_operating row b)
         else if ca_shelf c = ''graph'' \<and> fits (bk_graph b) (sl_graph l) then add_graph row b
         else if ca_shelf c = ''corpus'' \<and> fits (bk_corpus b) (sl_corpus l) then add_corpus row b
         else Inr b) = Inr b1"
        using assms np unfolding add_to_buckets_def by (intro r) (simp only: if_False)
      from if_chain[OF x] show thesis
      proof (elim disjE conjE)
        assume a: "ca_shelf c = ''continuity_match''" "fits (bk_matched b) (sl_matched l)" and e: "add_matched row b = Inr b1"
        obtain i where i: "row_int row ''id'' = Inr i"
          "b1 = (if 0 < i \<and> i \<notin> bk_seen_continuity b then b\<lparr>bk_seen_continuity := insert i (bk_seen_continuity b), bk_matched := bk_matched b @ [row], bk_used := bk_used b + 1\<rparr> else b)"
          using e unfolding add_matched_def rbind_Inr by blast
        show thesis
        proof (cases "0 < i \<and> i \<notin> bk_seen_continuity b")
          case True
          then show thesis using i by (intro matched[OF a(1) ob a(2) i(1)]) simp_all
        qed (use i in \<open>auto intro: same\<close>)
      next
        assume a: "ca_shelf c = ''continuity_recent''" "fits (bk_recent b) (sl_recent l)" and e: "add_recent row b = Inr b1"
        obtain i where i: "row_int row ''id'' = Inr i"
          "b1 = (if 0 < i \<and> i \<notin> bk_seen_continuity b then b\<lparr>bk_seen_continuity := insert i (bk_seen_continuity b), bk_recent := bk_recent b @ [row], bk_used := bk_used b + 1\<rparr> else b)"
          using e unfolding add_recent_def rbind_Inr by blast
        show thesis
        proof (cases "0 < i \<and> i \<notin> bk_seen_continuity b")
          case True
          then show thesis using i by (intro recent[OF a(1) ob a(2) i(1)]) simp_all
        qed (use i in \<open>auto intro: same\<close>)
      next
        assume a: "ca_shelf c = ''transcript''" "fits (bk_transcript b) (sl_transcript l)" and e: "add_transcript row b = Inr b1"
        obtain i where i: "row_int row ''id'' = Inr i"
          "b1 = (if 0 < i \<and> i \<notin> bk_seen_transcript b then b\<lparr>bk_seen_transcript := insert i (bk_seen_transcript b), bk_transcript := bk_transcript b @ [row], bk_used := bk_used b + 1\<rparr> else b)"
          using e unfolding add_transcript_def rbind_Inr by blast
        show thesis
        proof (cases "0 < i \<and> i \<notin> bk_seen_transcript b")
          case True
          then show thesis using i by (intro transcript[OF a(1) ob a(2) i(1)]) simp_all
        qed (use i in \<open>auto intro: same\<close>)
      next
        assume a: "ca_shelf c = ''operating''" "fits (bk_operating b) (sl_operating l)" and e: "Inr (add_operating row b) = (Inr b1 :: buckets result)"
        define k where "k = strip_text (dget row ''stable_key'')"
        have i: "b1 = (if k \<noteq> [] \<and> k \<notin> bk_seen_operating b
            then b\<lparr>bk_seen_operating := insert k (bk_seen_operating b), bk_operating := bk_operating b @ [row], bk_used := bk_used b + 1\<rparr> else b)"
          using e[unfolded add_operating_def Let_def sum.inject, folded k_def] by (rule sym)
        show thesis
        proof (cases "k \<noteq> [] \<and> k \<notin> bk_seen_operating b")
          case True
          then show thesis using i by (intro operating[OF a(1) ob a(2) k_def]) simp_all
        qed (use i in \<open>auto intro: same\<close>)
      next
        assume a: "ca_shelf c = ''graph''" "fits (bk_graph b) (sl_graph l)" and e: "add_graph row b = Inr b1"
        define t where "t = text_of (dget row ''row_type'')"
        obtain i where i: "row_int row ''row_id'' = Inr i"
          "b1 = (if 0 < i \<and> (t, i) \<notin> bk_seen_graph b
            then b\<lparr>bk_seen_graph := insert (t, i) (bk_seen_graph b), bk_graph := bk_graph b @ [row], bk_used := bk_used b + 1\<rparr> else b)"
          using e unfolding add_graph_def rbind_Inr Let_def t_def by blast
        show thesis
        proof (cases "0 < i \<and> (t, i) \<notin> bk_seen_graph b")
          case True
          then show thesis using i by (intro graph[OF a(1) ob a(2) i(1)]) (simp_all add: t_def)
        qed (use i in \<open>auto intro: same\<close>)
      next
        assume a: "ca_shelf c = ''corpus''" "fits (bk_corpus b) (sl_corpus l)" and e: "add_corpus row b = Inr b1"
        obtain i j where i: "row_int row ''document_id'' = Inr i" "row_int row ''section_index'' = Inr j"
          "b1 = (if 0 < i \<and> (i, j) \<notin> bk_seen_corpus b
            then b\<lparr>bk_seen_corpus := insert (i, j) (bk_seen_corpus b), bk_corpus := bk_corpus b @ [row], bk_used := bk_used b + 1\<rparr> else b)"
          using e unfolding add_corpus_def rbind_Inr by blast
        show thesis
        proof (cases "0 < i \<and> (i, j) \<notin> bk_seen_corpus b")
          case True
          then show thesis using i by (intro corpus[OF a(1) ob a(2) i(1,2)]) simp_all
        qed (use i in \<open>auto intro: same\<close>)
      next
        assume "Inr b = (Inr b1 :: buckets result)"
        then show thesis by (intro same) simp
      qed
    qed
  qed
qed

lemma select_loop_keeps:
  assumes step: "\<And>c b b1 c1. c \<in> set cs \<Longrightarrow> Q b \<Longrightarrow> selection_suppression_reason requested has_anchor ids c = Inr [] \<Longrightarrow>
      add_to_buckets l budget c (materialize_candidate c) b = Inr (b1, c1) \<Longrightarrow> Q b1"
    and "Q b" "select_loop l budget requested has_anchor ids cs b = Inr (b', cs')"
  shows "Q b'"
  using assms
proof (induction cs arbitrary: b cs')
  case (Cons c cs)
  obtain b1 c1 cs1 where s: "select_candidate l budget requested has_anchor ids c b = Inr (b1, c1)"
    "select_loop l budget requested has_anchor ids cs b1 = Inr (b', cs1)"
    using Cons.prems(3) by (auto simp: rbind_Inr split: prod.splits)
  then obtain reason where r: "selection_suppression_reason requested has_anchor ids c = Inr reason"
    "(if reason \<noteq> [] then Inr (b, suppress reason c) else add_to_buckets l budget c (materialize_candidate c) b) = Inr (b1, c1)"
    unfolding select_candidate_def rbind_Inr by blast
  have "Q b1"
  proof (cases "reason = []")
    case True
    then show ?thesis using Cons.prems(1)[of c b b1 c1] Cons.prems(2) r by simp
  qed (use r Cons.prems(2) in simp)
  then show ?case using Cons.IH[OF _ _ s(2)] Cons.prems(1) by (meson list.set_intros(2))
qed simp

text \<open>The shelves of the buckets with their limits, and the rows that count against the budget.\<close>

definition limited :: "selection_limits \<Rightarrow> buckets \<Rightarrow> bool" where
  "limited l b \<longleftrightarrow> int (length (bk_profile b)) \<le> max 0 (sl_profile l) \<and> int (length (bk_matched b)) \<le> max 0 (sl_matched l) \<and>
     int (length (bk_recent b)) \<le> max 0 (sl_recent l) \<and> int (length (bk_transcript b)) \<le> max 0 (sl_transcript l) \<and>
     int (length (bk_operating b)) \<le> max 0 (sl_operating l) \<and> int (length (bk_graph b)) \<le> max 0 (sl_graph l) \<and>
     int (length (bk_corpus b)) \<le> max 0 (sl_corpus l)"

definition budget_rows :: "buckets \<Rightarrow> pydict list" where
  "budget_rows b = bk_matched b @ bk_recent b @ bk_transcript b @ bk_operating b @ bk_graph b @ bk_corpus b"

definition without_floor :: "pydict list \<Rightarrow> nat" where
  "without_floor rows = length (filter (\<lambda>r. \<not> truthy (dget r ''_brainstack_authority_floor_applied'')) rows)"

lemma without_floor_simps [simp]:
  "without_floor [] = 0" "without_floor (r # rs) = (if truthy (dget r ''_brainstack_authority_floor_applied'') then 0 else 1) + without_floor rs"
  "without_floor (rs @ qs) = without_floor rs + without_floor qs"
  by (simp_all add: without_floor_def)

lemma materialized_floor: "truthy (dget (materialize_candidate c) ''_brainstack_authority_floor_applied'') \<longleftrightarrow> candidate_has_authority_floor c"
  by (simp add: materialize_candidate_def Let_def candidate_has_authority_floor_def)

definition budgeted :: "int \<Rightarrow> buckets \<Rightarrow> bool" where
  "budgeted budget b \<longleftrightarrow> bk_used b = int (length (budget_rows b)) \<and> (0 < budget \<longrightarrow> int (without_floor (budget_rows b)) \<le> budget)"

lemma limited_step:
  assumes "add_to_buckets l budget c row b = Inr (b1, c1)" "limited l b"
  shows "limited l b1"
  using assms(1)
  by (cases rule: add_to_buckets_cases) (use assms(2) in \<open>simp_all add: limited_def fits_def\<close>)

lemma without_floor_le: "without_floor rs \<le> length rs"
  by (simp add: without_floor_def)

lemma budgeted_add:
  assumes "budgeted budget b" "\<not> over_budget budget c b"
    and "int (length (budget_rows b1)) = int (length (budget_rows b)) + 1" "bk_used b1 = bk_used b + 1"
    and "without_floor (budget_rows b1) = without_floor (budget_rows b) + (if candidate_has_authority_floor c then 0 else 1)"
  shows "budgeted budget b1"
  using assms without_floor_le[of "budget_rows b"] by (auto simp: budgeted_def over_budget_def)

lemma budgeted_step:
  assumes "add_to_buckets l budget c (materialize_candidate c) b = Inr (b1, c1)" "budgeted budget b"
  shows "budgeted budget b1"
  using assms(1)
proof (cases rule: add_to_buckets_cases)
  case (profile k)
  then show ?thesis using assms(2) by (simp add: budgeted_def budget_rows_def)
next
  case (matched i)
  show ?thesis by (rule budgeted_add[OF assms(2) matched(2)]) (simp_all add: matched(6) budget_rows_def materialized_floor)
next
  case (recent i)
  show ?thesis by (rule budgeted_add[OF assms(2) recent(2)]) (simp_all add: recent(6) budget_rows_def materialized_floor)
next
  case (transcript i)
  show ?thesis by (rule budgeted_add[OF assms(2) transcript(2)]) (simp_all add: transcript(6) budget_rows_def materialized_floor)
next
  case (operating k)
  show ?thesis by (rule budgeted_add[OF assms(2) operating(2)]) (simp_all add: operating(6) budget_rows_def materialized_floor)
next
  case (graph i)
  show ?thesis by (rule budgeted_add[OF assms(2) graph(2)]) (simp_all add: graph(6) budget_rows_def materialized_floor)
next
  case (corpus i j)
  show ?thesis by (rule budgeted_add[OF assms(2) corpus(2)]) (simp_all add: corpus(7) budget_rows_def materialized_floor)
qed (use assms(2) in simp)

text \<open>
  C16: a selection never puts more rows on a shelf of the packet than the limit of that shelf, the counter of the
  evidence budget counts exactly the rows outside the profile shelf, and with a positive budget at most that many
  of these rows are there without an authority floor.
\<close>

theorem selection_within_limits:
  assumes "select_rows l budget requested cs = Inr (b, cs')"
  shows "limited l b \<and> bk_used b = int (length (budget_rows b)) \<and> (0 < budget \<longrightarrow> int (without_floor (budget_rows b)) \<le> budget)"
proof -
  have "limited l b \<and> budgeted budget b"
  proof (rule select_loop_keeps[where Q = "\<lambda>b. limited l b \<and> budgeted budget b"])
    show "select_loop l budget requested (list_ex is_recap_anchor cs) (anchor_workstreams cs) cs no_buckets = Inr (b, cs')"
      using assms by (simp add: select_rows_def)
  qed (simp_all add: limited_step budgeted_step, simp add: no_buckets_def limited_def budgeted_def budget_rows_def)
  then show ?thesis by (simp add: budgeted_def)
qed

lemma add_to_buckets_rows:
  assumes "add_to_buckets l budget c row b = Inr (b1, c1)"
  shows "selected_rows b1 = selected_rows b \<or>
    (\<exists>name. map_of SELECTION_SHELVES name = Some (ca_shelf c) \<and>
       selected_rows b1 = map (\<lambda>(n, rows). (n, if n = name then rows @ [row] else rows)) (selected_rows b))"
  using assms
proof (cases rule: add_to_buckets_cases)
  case (profile k)
  show ?thesis by (rule disjI2, rule exI[of _ "''profile_items''"]) (simp add: selected_rows_def profile(1,5) SELECTION_SHELVES_def)
next
  case (matched i)
  show ?thesis by (rule disjI2, rule exI[of _ "''matched''"]) (simp add: selected_rows_def matched(1,6) SELECTION_SHELVES_def)
next
  case (recent i)
  show ?thesis by (rule disjI2, rule exI[of _ "''recent''"]) (simp add: selected_rows_def recent(1,6) SELECTION_SHELVES_def)
next
  case (transcript i)
  show ?thesis by (rule disjI2, rule exI[of _ "''transcript_rows''"]) (simp add: selected_rows_def transcript(1,6) SELECTION_SHELVES_def)
next
  case (operating k)
  show ?thesis by (rule disjI2, rule exI[of _ "''operating_rows''"]) (simp add: selected_rows_def operating(1,6) SELECTION_SHELVES_def)
next
  case (graph i)
  show ?thesis by (rule disjI2, rule exI[of _ "''graph_rows''"]) (simp add: selected_rows_def graph(1,6) SELECTION_SHELVES_def)
next
  case (corpus i j)
  show ?thesis by (rule disjI2, rule exI[of _ "''corpus_rows''"]) (simp add: selected_rows_def corpus(1,7) SELECTION_SHELVES_def)
qed simp

definition from_unsuppressed :: "bool \<Rightarrow> bool \<Rightarrow> string set \<Rightarrow> evidence_candidate list \<Rightarrow> string \<Rightarrow> pydict \<Rightarrow> bool" where
  "from_unsuppressed requested has_anchor ids cs name row \<longleftrightarrow>
     (\<exists>c\<in>set cs. map_of SELECTION_SHELVES name = Some (ca_shelf c) \<and> row = materialize_candidate c \<and>
        selection_suppression_reason requested has_anchor ids c = Inr [])"

lemma appended_rows:
  assumes "\<forall>(name, rows)\<in>set S. \<forall>row\<in>set rows. P name row" "P n x"
  shows "\<forall>(name, rows)\<in>set (map (\<lambda>(m, rows). (m, if m = n then rows @ [x] else rows)) S). \<forall>row\<in>set rows. P name row"
proof -
  have "\<forall>row\<in>set (if m = n then rows @ [x] else rows). P m row" if "(m, rows) \<in> set S" for m rows
    using assms that by (cases "m = n") fastforce+
  then show ?thesis by auto
qed

text \<open>
  C17: every row that a selection puts on a shelf of the packet is the materialised row of one of the candidates,
  of that very shelf, for which no suppression reason holds, in particular no residue of another session, no
  assistant text that claims the current assignment and no row of another workstream bank.
\<close>

theorem selected_rows_are_unsuppressed:
  assumes "select_rows l budget requested cs = Inr (b, cs')" "(name, rows) \<in> set (selected_rows b)" "row \<in> set rows"
  shows "\<exists>c\<in>set cs. map_of SELECTION_SHELVES name = Some (ca_shelf c) \<and> row = materialize_candidate c \<and>
      selection_suppression_reason requested (list_ex is_recap_anchor cs) (anchor_workstreams cs) c = Inr []"
proof -
  let ?from = "from_unsuppressed requested (list_ex is_recap_anchor cs) (anchor_workstreams cs) cs"
  let ?Q = "\<lambda>b. \<forall>(name, rows)\<in>set (selected_rows b). \<forall>row\<in>set rows. ?from name row"
  have "?Q b"
  proof (rule select_loop_keeps[where Q = ?Q])
    show "select_loop l budget requested (list_ex is_recap_anchor cs) (anchor_workstreams cs) cs no_buckets = Inr (b, cs')"
      using assms(1) by (simp add: select_rows_def)
    show "?Q no_buckets" by (simp add: selected_rows_def no_buckets_def)
  next
    fix c b b1 c1
    assume c: "c \<in> set cs" "selection_suppression_reason requested (list_ex is_recap_anchor cs) (anchor_workstreams cs) c = Inr []"
      and q: "?Q b" and a: "add_to_buckets l budget c (materialize_candidate c) b = Inr (b1, c1)"
    from add_to_buckets_rows[OF a] show "?Q b1"
    proof (elim disjE exE conjE)
      assume "selected_rows b1 = selected_rows b"
      then show ?thesis using q by simp
    next
      fix n
      assume n: "map_of SELECTION_SHELVES n = Some (ca_shelf c)"
        and e: "selected_rows b1 = map (\<lambda>(m, rows). (m, if m = n then rows @ [materialize_candidate c] else rows)) (selected_rows b)"
      have "?from n (materialize_candidate c)" using c n unfolding from_unsuppressed_def by blast
      with q show ?thesis unfolding e by (rule appended_rows)
    qed
  qed
  then show ?thesis using assms(2,3) unfolding from_unsuppressed_def by blast
qed

text \<open>The keys under which the rows of the shelves are unique.\<close>

definition stable_key_of :: "pydict \<Rightarrow> string" where
  "stable_key_of r = strip_text (dget r ''stable_key'')"

definition number_of_row :: "pydict \<Rightarrow> int result" where
  "number_of_row r = row_int r ''id''"

definition graph_key_of :: "pydict \<Rightarrow> string \<times> int result" where
  "graph_key_of r = (text_of (dget r ''row_type''), row_int r ''row_id'')"

definition corpus_key_of :: "pydict \<Rightarrow> int result \<times> int result" where
  "corpus_key_of r = (row_int r ''document_id'', row_int r ''section_index'')"

definition unique_rows :: "buckets \<Rightarrow> bool" where
  "unique_rows b \<longleftrightarrow>
     distinct (map stable_key_of (bk_profile b)) \<and> distinct (map number_of_row (bk_matched b @ bk_recent b)) \<and>
     distinct (map number_of_row (bk_transcript b)) \<and> distinct (map stable_key_of (bk_operating b)) \<and>
     distinct (map graph_key_of (bk_graph b)) \<and> distinct (map corpus_key_of (bk_corpus b))"

definition seen_by :: "('a \<Rightarrow> 'b) \<Rightarrow> ('k \<Rightarrow> 'b) \<Rightarrow> 'a list \<Rightarrow> 'k set \<Rightarrow> bool" where
  "seen_by f g xs S \<longleftrightarrow> distinct (map f xs) \<and> f ` set xs \<subseteq> g ` S"

lemma seen_by_empty: "seen_by f g [] {}"
  by (simp add: seen_by_def)

lemma seen_by_add:
  assumes "seen_by f g (xs @ ys) S" "f x = g k" "k \<notin> S" "inj g"
  shows "seen_by f g ((xs @ [x]) @ ys) (insert k S)"
proof -
  have "g k \<notin> g ` S" using assms(3,4) by (simp add: inj_image_mem_iff)
  then show ?thesis using assms(1,2) by (auto simp: seen_by_def)
qed

lemmas seen_by_snoc = seen_by_add[where ys = "[]", unfolded append_Nil2]

definition rows_seen :: "buckets \<Rightarrow> bool" where
  "rows_seen b \<longleftrightarrow>
     seen_by stable_key_of (\<lambda>k. k) (bk_profile b) (bk_seen_profile b) \<and>
     seen_by number_of_row Inr (bk_matched b @ bk_recent b) (bk_seen_continuity b) \<and>
     seen_by number_of_row Inr (bk_transcript b) (bk_seen_transcript b) \<and>
     seen_by stable_key_of (\<lambda>k. k) (bk_operating b) (bk_seen_operating b) \<and>
     seen_by graph_key_of (\<lambda>(t, i). (t, Inr i)) (bk_graph b) (bk_seen_graph b) \<and>
     seen_by corpus_key_of (\<lambda>(i, j). (Inr i, Inr j)) (bk_corpus b) (bk_seen_corpus b)"

lemma inj_seen: "inj (\<lambda>k. k)" "inj (\<lambda>(t, i). (t, Inr i))" "inj (\<lambda>(i, j). (Inr i, Inr j))"
  by (auto simp: inj_def)

lemma rows_seen_step:
  assumes "add_to_buckets l budget c row b = Inr (b1, c1)" "rows_seen b"
  shows "rows_seen b1"
  using assms(1)
proof (cases rule: add_to_buckets_cases)
  case (profile k)
  have "seen_by stable_key_of (\<lambda>k. k) (bk_profile b @ [row]) (insert k (bk_seen_profile b))"
    by (rule seen_by_snoc[OF _ _ profile(4) inj_seen(1)]) (use assms(2) in \<open>simp_all add: rows_seen_def stable_key_of_def profile(3)\<close>)
  then show ?thesis using assms(2) by (simp add: profile(5) rows_seen_def)
next
  case (matched i)
  have "seen_by number_of_row Inr ((bk_matched b @ [row]) @ bk_recent b) (insert i (bk_seen_continuity b))"
    by (rule seen_by_add[OF _ _ matched(5) inj_Inr]) (use assms(2) in \<open>simp_all add: rows_seen_def number_of_row_def matched(4)\<close>)
  then show ?thesis using assms(2) by (simp add: matched(6) rows_seen_def)
next
  case (recent i)
  have "seen_by number_of_row Inr ((bk_matched b @ bk_recent b) @ [row]) (insert i (bk_seen_continuity b))"
    by (rule seen_by_snoc[OF _ _ recent(5) inj_Inr]) (use assms(2) in \<open>simp_all add: rows_seen_def number_of_row_def recent(4)\<close>)
  then show ?thesis using assms(2) by (simp add: recent(6) rows_seen_def)
next
  case (transcript i)
  have "seen_by number_of_row Inr (bk_transcript b @ [row]) (insert i (bk_seen_transcript b))"
    by (rule seen_by_snoc[OF _ _ transcript(5) inj_Inr]) (use assms(2) in \<open>simp_all add: rows_seen_def number_of_row_def transcript(4)\<close>)
  then show ?thesis using assms(2) by (simp add: transcript(6) rows_seen_def)
next
  case (operating k)
  have "seen_by stable_key_of (\<lambda>k. k) (bk_operating b @ [row]) (insert k (bk_seen_operating b))"
    by (rule seen_by_snoc[OF _ _ operating(5) inj_seen(1)]) (use assms(2) in \<open>simp_all add: rows_seen_def stable_key_of_def operating(4)\<close>)
  then show ?thesis using assms(2) by (simp add: operating(6) rows_seen_def)
next
  case (graph i)
  have "seen_by graph_key_of (\<lambda>(t, i). (t, Inr i)) (bk_graph b @ [row]) (insert (text_of (dget row ''row_type''), i) (bk_seen_graph b))"
    by (rule seen_by_snoc[OF _ _ graph(5) inj_seen(2)]) (use assms(2) in \<open>simp_all add: rows_seen_def graph_key_of_def graph(4)\<close>)
  then show ?thesis using assms(2) by (simp add: graph(6) rows_seen_def)
next
  case (corpus i j)
  have "seen_by corpus_key_of (\<lambda>(i, j). (Inr i, Inr j)) (bk_corpus b @ [row]) (insert (i, j) (bk_seen_corpus b))"
    by (rule seen_by_snoc[OF _ _ corpus(6) inj_seen(3)]) (use assms(2) in \<open>simp_all add: rows_seen_def corpus_key_of_def corpus(4,5)\<close>)
  then show ?thesis using assms(2) by (simp add: corpus(7) rows_seen_def)
qed (use assms(2) in simp)

text \<open>
  C18: a selection never takes the same evidence twice: the profile and operating rows have distinct stable keys,
  the two continuity shelves together and the transcript shelf distinct row numbers, the graph shelf distinct
  pairs of row type and number and the corpus shelf distinct pairs of document and section.
\<close>

theorem nothing_is_selected_twice:
  assumes "select_rows l budget requested cs = Inr (b, cs')"
  shows "unique_rows b"
proof -
  have "rows_seen b"
  proof (rule select_loop_keeps[where Q = rows_seen])
    show "select_loop l budget requested (list_ex is_recap_anchor cs) (anchor_workstreams cs) cs no_buckets = Inr (b, cs')"
      using assms by (simp add: select_rows_def)
    show "rows_seen no_buckets" by (simp add: no_buckets_def rows_seen_def seen_by_empty)
  qed (rule rows_seen_step)
  then show ?thesis by (simp add: rows_seen_def seen_by_def unique_rows_def)
qed


definition sample_limits :: selection_limits where
  "sample_limits = \<lparr>sl_profile = 2, sl_matched = 1, sl_recent = 1, sl_transcript = 2, sl_operating = 1, sl_graph = 1, sl_corpus = 1\<rparr>"

definition sample_selection :: "evidence_candidate list" where
  "sample_selection =
     [\<lparr>ca_key = ''profile:a'', ca_shelf = ''profile'', ca_row = [(''stable_key'', PStr ''a'')], ca_rrf = 0, ca_ranks = [(''keyword'', 1)]\<rparr>,
      \<lparr>ca_key = ''transcript:1'', ca_shelf = ''transcript'', ca_row = [(''id'', PInt 1)], ca_rrf = 0, ca_ranks = [(''keyword'', 1)]\<rparr>,
      \<lparr>ca_key = ''transcript:2'', ca_shelf = ''transcript'', ca_row = [(''id'', PInt 2)], ca_rrf = 0, ca_ranks = [(''keyword'', 2)]\<rparr>]"

lemma sample_selects:
  "(case select_rows sample_limits 1 False sample_selection of
      Inr (b, cs) \<Rightarrow> length (bk_profile b) = 1 \<and> bk_transcript b = [materialize_candidate (sample_selection ! 1)] \<and> bk_used b = 1
    | Inl e \<Rightarrow> False)"
  by code_simp

theorem selection_within_limits_witness:
  "\<exists>b cs. select_rows sample_limits 1 False sample_selection = Inr (b, cs) \<and> bk_used b = 1 \<and> limited sample_limits b \<and>
     int (without_floor (budget_rows b)) \<le> 1"
proof -
  obtain b cs where s: "select_rows sample_limits 1 False sample_selection = Inr (b, cs)" "bk_used b = 1"
    using sample_selects by (auto split: sum.splits)
  then show ?thesis using selection_within_limits[OF s(1)] by auto
qed

theorem selected_rows_are_unsuppressed_witness:
  "\<exists>b cs c. select_rows sample_limits 1 False sample_selection = Inr (b, cs) \<and> c \<in> set sample_selection \<and> ca_shelf c = ''transcript'' \<and>
     bk_transcript b = [materialize_candidate c] \<and> selection_suppression_reason False (list_ex is_recap_anchor sample_selection) (anchor_workstreams sample_selection) c = Inr []"
proof -
  obtain b cs where s: "select_rows sample_limits 1 False sample_selection = Inr (b, cs)"
    "bk_transcript b = [materialize_candidate (sample_selection ! 1)]"
    using sample_selects by (auto split: sum.splits)
  have "(''transcript_rows'', bk_transcript b) \<in> set (selected_rows b)" by (simp add: selected_rows_def)
  from selected_rows_are_unsuppressed[OF s(1) this, of "materialize_candidate (sample_selection ! 1)"]
  obtain c where "c \<in> set sample_selection" "map_of SELECTION_SHELVES ''transcript_rows'' = Some (ca_shelf c)"
    "materialize_candidate (sample_selection ! 1) = materialize_candidate c"
    "selection_suppression_reason False (list_ex is_recap_anchor sample_selection) (anchor_workstreams sample_selection) c = Inr []"
    using s(2) by auto
  then show ?thesis using s by (intro exI[of _ b] exI[of _ cs] exI[of _ c]) (simp add: SELECTION_SHELVES_def)
qed

theorem nothing_is_selected_twice_witness:
  "\<exists>b cs. select_rows sample_limits 1 False sample_selection = Inr (b, cs) \<and> unique_rows b"
proof -
  obtain b cs where s: "select_rows sample_limits 1 False sample_selection = Inr (b, cs)"
    using sample_selects by (auto split: sum.splits)
  then show ?thesis using nothing_is_selected_twice[OF s] by blast
qed

section \<open>Reciprocal rank fusion\<close>

text \<open>The appearances of rows in the channels, in the order of the plan: channel, shelf, rank from one, annotated row.\<close>

type_synonym appearance = "string \<times> string \<times> nat \<times> pydict"

definition appearances_in :: "string \<Rightarrow> string \<Rightarrow> nat \<Rightarrow> pydict list \<Rightarrow> appearance list" where
  "appearances_in channel_name shelf rank rows =
     map (\<lambda>(i, row). (channel_name, shelf, i, annotate_workstream_recap_row shelf row)) (List.enumerate rank rows)"

definition appearances :: "(string \<times> string \<times> pydict list) list \<Rightarrow> appearance list" where
  "appearances plan = concat (map (\<lambda>(channel_name, shelf, rows). appearances_in channel_name shelf 1 rows) plan)"

definition appearance_key :: "appearance \<Rightarrow> string result" where
  "appearance_key = (\<lambda>(channel_name, shelf, rank, row). candidate_key shelf row)"

definition contribution :: "appearance \<Rightarrow> rat" where
  "contribution = (\<lambda>(channel_name, shelf, rank, row). fusion_rank_contribution channel_name shelf rank)"

definition appearances_of :: "string \<Rightarrow> appearance list \<Rightarrow> appearance list" where
  "appearances_of key as = filter (\<lambda>a. appearance_key a = Inr key) as"

definition ranks_in :: "string \<Rightarrow> appearance list \<Rightarrow> nat list" where
  "ranks_in name as = map (\<lambda>(ch, sh, i, row). i) (filter (\<lambda>(ch, sh, i, row). ch = name) as)"

text \<open>
  What reciprocal rank fusion promises of the candidate of a key that appeared at the places \<open>as\<close>: the first row, the
  first shelf of the highest priority, the sum of the contributions and the best rank in each channel.
\<close>

definition fused :: "string \<Rightarrow> appearance list \<Rightarrow> evidence_candidate \<Rightarrow> bool" where
  "fused key as c \<longleftrightarrow>
     as \<noteq> [] \<and> ca_key c = key \<and> ca_row c = (case hd as of (ch, sh, i, row) \<Rightarrow> row) \<and>
     ca_shelf c \<in> (\<lambda>(ch, sh, i, row). sh) ` set as \<and>
     (\<forall>(ch, sh, i, row)\<in>set as. shelf_priority sh \<le> shelf_priority (ca_shelf c)) \<and>
     ca_rrf c = foldl fadd 0 (map contribution as) \<and>
     (\<forall>name. map_of (ca_ranks c) name = (if ranks_in name as = [] then None else Some (Min (set (ranks_in name as)))))"

definition fused_all :: "appearance list \<Rightarrow> merged \<Rightarrow> bool" where
  "fused_all as m \<longleftrightarrow>
     distinct (map fst m) \<and>
     (\<forall>key. case map_of m key of None \<Rightarrow> appearances_of key as = [] | Some c \<Rightarrow> fused key (appearances_of key as) c)"

lemma map_of_AList_update: "map_of (AList.update k v m) k' = (if k' = k then Some v else map_of m k')"
  by (simp add: AList.update_conv')

lemma seen_in_ranks:
  "map_of (ca_ranks (seen_in name rank c)) n =
     (if n = name then Some (case map_of (ca_ranks c) name of None \<Rightarrow> rank | Some r \<Rightarrow> min rank r) else map_of (ca_ranks c) n)"
  by (auto simp: seen_in_def map_of_AList_update split: option.splits)

lemma seen_in_other [simp]:
  "ca_key (seen_in name rank c) = ca_key c" "ca_shelf (seen_in name rank c) = ca_shelf c" "ca_row (seen_in name rank c) = ca_row c"
  "ca_rrf (seen_in name rank c) = ca_rrf c"
  by (simp_all add: seen_in_def split: option.splits)

lemma ranks_in_snoc: "ranks_in name (as @ [(ch, sh, i, row)]) = ranks_in name as @ (if ch = name then [i] else [])"
  by (simp add: ranks_in_def)

definition first_candidate :: "string \<Rightarrow> string \<Rightarrow> pydict \<Rightarrow> evidence_candidate" where
  "first_candidate key shelf row = \<lparr>ca_key = key, ca_shelf = shelf, ca_row = row, ca_rrf = 0, ca_ranks = []\<rparr>"

definition appear :: "string \<Rightarrow> string \<Rightarrow> nat \<Rightarrow> evidence_candidate \<Rightarrow> evidence_candidate" where
  "appear channel_name shelf rank c =
     (let c1 = seen_in channel_name rank c in c1\<lparr>ca_rrf := fadd (ca_rrf c1) (fusion_rank_contribution channel_name shelf rank)\<rparr>)"

lemma merge_row_alt:
  "merge_row ch shelf rank row0 m = rbind (candidate_key shelf (annotate_workstream_recap_row shelf row0)) (\<lambda>key.
     Inr (AList.update key (appear ch shelf rank (case map_of m key of
        None \<Rightarrow> first_candidate key shelf (annotate_workstream_recap_row shelf row0)
      | Some c \<Rightarrow> c\<lparr>ca_shelf := merge_shelf (ca_shelf c) shelf\<rparr>)) m))"
  unfolding merge_row_def appear_def first_candidate_def Let_def ..

lemma fused_first: "fused key [(ch, shelf, rank, row)] (appear ch shelf rank (first_candidate key shelf row))"
  by (simp add: fused_def appear_def first_candidate_def Let_def contribution_def ranks_in_def seen_in_ranks)

lemma fused_snoc:
  assumes "fused key as c"
  shows "fused key (as @ [(ch, shelf, rank, row)]) (appear ch shelf rank (c\<lparr>ca_shelf := merge_shelf (ca_shelf c) shelf\<rparr>))"
proof -
  have s: "merge_shelf (ca_shelf c) shelf \<in> (\<lambda>(ch, sh, i, row). sh) ` set (as @ [(ch, shelf, rank, row)])"
    using assms by (auto simp: fused_def merge_shelf_def)
  have p: "\<forall>(ch, sh, i, row)\<in>set (as @ [(ch, shelf, rank, row)]). shelf_priority sh \<le> shelf_priority (merge_shelf (ca_shelf c) shelf)"
    using assms by (fastforce simp: fused_def merge_shelf_def)
  have r: "map_of (ca_ranks (seen_in ch rank (c\<lparr>ca_shelf := z\<rparr>))) name =
      (if ranks_in name (as @ [(ch, shelf, rank, row)]) = [] then None else Some (Min (set (ranks_in name (as @ [(ch, shelf, rank, row)])))))" for name z
    using assms by (auto simp: fused_def seen_in_ranks ranks_in_snoc min.commute)
  show ?thesis using assms s p r unfolding fused_def by (simp add: appear_def Let_def contribution_def)
qed

lemma fused_step:
  assumes "merge_row ch shelf rank row m = Inr m'" "fused_all as m"
  shows "fused_all (as @ [(ch, shelf, rank, annotate_workstream_recap_row shelf row)]) m'"
proof -
  define r where "r = annotate_workstream_recap_row shelf row"
  obtain key where key: "candidate_key shelf r = Inr key"
    "m' = AList.update key (appear ch shelf rank (case map_of m key of None \<Rightarrow> first_candidate key shelf r
      | Some c \<Rightarrow> c\<lparr>ca_shelf := merge_shelf (ca_shelf c) shelf\<rparr>)) m"
    using assms(1) unfolding merge_row_alt r_def[symmetric] by (auto simp: rbind_Inr)
  have a: "appearances_of k (as @ [(ch, shelf, rank, r)]) = appearances_of k as @ (if k = key then [(ch, shelf, rank, r)] else [])" for k
    using key(1) by (auto simp: appearances_of_def appearance_key_def)
  have f: "case map_of m' k of None \<Rightarrow> appearances_of k (as @ [(ch, shelf, rank, r)]) = [] | Some c \<Rightarrow> fused k (appearances_of k (as @ [(ch, shelf, rank, r)])) c" for k
  proof (cases "k = key")
    case True
    have b: "case map_of m key of None \<Rightarrow> appearances_of key as = [] | Some c \<Rightarrow> fused key (appearances_of key as) c"
      using assms(2) by (simp add: fused_all_def)
    show ?thesis
    proof (cases "map_of m key")
      case None
      then show ?thesis using b True by (simp add: key(2) map_of_AList_update a fused_first)
    next
      case (Some c)
      then show ?thesis using b True by (simp add: key(2) map_of_AList_update a fused_snoc)
    qed
  next
    case False
    then show ?thesis using assms(2) unfolding fused_all_def a key(2) map_of_AList_update by (simp only: if_False append_Nil2)
  qed
  have "distinct (map fst m')" using assms(2) unfolding fused_all_def key(2) by (simp add: distinct_update)
  then show ?thesis using f unfolding fused_all_def r_def by blast
qed

lemma fused_rows:
  "merge_rows ch shelf rank rows m = Inr m' \<Longrightarrow> fused_all as m \<Longrightarrow> fused_all (as @ appearances_in ch shelf rank rows) m'"
proof (induction rows arbitrary: rank m as)
  case (Cons row rows)
  obtain m1 where m1: "merge_row ch shelf rank row m = Inr m1" "merge_rows ch shelf (Suc rank) rows m1 = Inr m'"
    using Cons.prems(1) by (auto simp: rbind_Inr)
  show ?case using Cons.IH[OF m1(2) fused_step[OF m1(1) Cons.prems(2)]] by (simp add: appearances_in_def)
qed (simp add: appearances_in_def)

lemma fused_channels: "merge_channels plan m = Inr m' \<Longrightarrow> fused_all as m \<Longrightarrow> fused_all (as @ appearances plan) m'"
proof (induction plan m arbitrary: as rule: merge_channels.induct)
  case (2 ch shelf rows plan m)
  obtain m1 where m1: "merge_channel ch shelf rows m = Inr m1" "merge_channels plan m1 = Inr m'"
    using "2.prems"(1) by (auto simp: rbind_Inr)
  have "fused_all (as @ appearances_in ch shelf 1 rows) m1"
    by (rule fused_rows[OF _ "2.prems"(2)]) (use m1(1) in \<open>simp add: merge_channel_def\<close>)
  then show ?case using "2.IH"[OF m1(2), of "as @ appearances_in ch shelf 1 rows"] by (simp add: appearances_def)
qed (simp add: appearances_def)

lemma fused_all_entries:
  assumes "fused_all as m"
  shows "distinct (map ca_key (map snd m))" "\<forall>c\<in>snd ` set m. fused (ca_key c) (appearances_of (ca_key c) as) c"
    "\<forall>key. key \<in> ca_key ` (snd ` set m) \<longleftrightarrow> Inr key \<in> appearance_key ` set as"
proof -
  have d: "distinct (map fst m)" using assms by (simp add: fused_all_def)
  have e: "fused k (appearances_of k as) c" if "(k, c) \<in> set m" for k c
  proof -
    have "map_of m k = Some c" using d that by (rule map_of_is_SomeI)
    then show ?thesis using assms by (auto simp: fused_all_def split: option.splits)
  qed
  have k: "ca_key c = k" if "(k, c) \<in> set m" for k c using e[OF that] by (simp add: fused_def)
  have "map ca_key (map snd m) = map fst m" using k by auto
  then show "distinct (map ca_key (map snd m))" using d by (simp only:)
  show "\<forall>c\<in>snd ` set m. fused (ca_key c) (appearances_of (ca_key c) as) c" using e k by fastforce
  have n: "Inr key \<in> appearance_key ` set as \<longleftrightarrow> appearances_of key as \<noteq> []" for key
    by (auto simp: appearances_of_def filter_empty_conv) (metis image_eqI)+
  have "key \<in> fst ` set m \<longleftrightarrow> appearances_of key as \<noteq> []" for key
  proof (cases "map_of m key")
    case None
    have "case map_of m key of None \<Rightarrow> appearances_of key as = [] | Some c \<Rightarrow> fused key (appearances_of key as) c"
      using assms unfolding fused_all_def by blast
    then have "appearances_of key as = []" using None by simp
    then show ?thesis using None by (simp add: map_of_eq_None_iff)
  next
    case (Some c)
    then have i: "(key, c) \<in> set m" by (rule map_of_SomeD)
    have "appearances_of key as \<noteq> []" using e[OF i] by (simp add: fused_def)
    then show ?thesis using i by force
  qed
  moreover have "ca_key ` (snd ` set m) = fst ` set m" using k by force
  ultimately show "\<forall>key. key \<in> ca_key ` (snd ` set m) \<longleftrightarrow> Inr key \<in> appearance_key ` set as" using n by simp
qed

lemma sorted_descending_props:
  "mset (sorted_descending kxs) = mset (map snd kxs)"
  "sorted_wrt (\<lambda>x y. fst y \<le> fst x) (rev (sort_key fst (rev kxs)))"
proof -
  show "mset (sorted_descending kxs) = mset (map snd kxs)"
    unfolding sorted_descending_def by (simp only: mset_map mset_rev mset_sort_key)
  have "sorted_wrt (\<le>) (map fst (sort_key fst (rev kxs)))" by simp
  then show "sorted_wrt (\<lambda>x y. fst y \<le> fst x) (rev (sort_key fst (rev kxs)))"
    by (simp only: sorted_wrt_map sorted_wrt_rev)
qed

lemma map_result_zip:
  "map_result f xs = Inr ys \<Longrightarrow> (y, x) \<in> set (zip ys xs) \<Longrightarrow> f x = Inr y"
  by (induction xs arbitrary: ys) (auto split: sum.splits)

lemma map_result_length: "map_result f xs = Inr ys \<Longrightarrow> length ys = length xs"
  by (induction xs arbitrary: ys) (auto split: sum.splits)

definition outranks :: "int \<Rightarrow> evidence_candidate \<Rightarrow> evidence_candidate \<Rightarrow> bool" where
  "outranks now x y \<longleftrightarrow> (\<exists>p q. fact_sort_key now x = Inr p \<and> fact_sort_key now y = Inr q \<and> q \<le> p)"

lemma rank_candidates_props:
  assumes "rank_candidates now cs = Inr cs'"
  shows "mset cs' = mset cs" "sorted_wrt (outranks now) cs'"
proof -
  obtain keys where k: "map_result (fact_sort_key now) cs = Inr keys" "cs' = sorted_descending (zip keys cs)"
    using assms by (auto simp: rank_candidates_def rbind_Inr)
  have l: "length keys = length cs" by (rule map_result_length[OF k(1)])
  show "mset cs' = mset cs" unfolding k(2) sorted_descending_props(1) by (simp add: l)
  let ?S = "rev (sort_key fst (rev (zip keys cs)))"
  have "sorted_wrt (\<lambda>x y. outranks now (snd x) (snd y)) ?S"
  proof (rule sorted_wrt_mono_rel[OF _ sorted_descending_props(2)])
    fix x y assume "x \<in> set ?S" "y \<in> set ?S" "fst y \<le> fst x"
    moreover have "fact_sort_key now (snd z) = Inr (fst z)" if "z \<in> set ?S" for z
      using map_result_zip[OF k(1), of "fst z" "snd z"] that by simp
    ultimately show "outranks now (snd x) (snd y)" unfolding outranks_def by blast
  qed
  then show "sorted_wrt (outranks now) cs'" unfolding k(2) sorted_descending_def by (simp only: sorted_wrt_map)
qed

text \<open>
  C15: merging and ranking is reciprocal rank fusion: the result has exactly one candidate for each key that some row of the
  channels has; it keeps the first row of the key and the first shelf of the highest priority, its score is the sum of
  the weighted reciprocal ranks of all the appearances of the key, and it knows its best rank in each channel. The
  result is ordered by the ranking key, highest first.
\<close>

theorem fusion_is_reciprocal_rank:
  assumes "merge_retrieval_candidates now rows = Inr cs"
  shows "distinct (map ca_key cs) \<and> sorted_wrt (outranks now) cs \<and>
    (\<forall>c\<in>set cs. fused (ca_key c) (appearances_of (ca_key c) (appearances (channel_plan rows))) c) \<and>
    (\<forall>key. key \<in> ca_key ` set cs \<longleftrightarrow> Inr key \<in> appearance_key ` set (appearances (channel_plan rows)))"
proof -
  let ?A = "appearances (channel_plan rows)"
  obtain m where m: "merge_channels (channel_plan rows) [] = Inr m" "rank_candidates now (map snd m) = Inr cs"
    using assms by (auto simp: merge_retrieval_candidates_def rbind_Inr)
  have "fused_all [] []" by (simp add: fused_all_def appearances_of_def)
  from fused_channels[OF m(1) this] have "fused_all ?A m" by simp
  note f = fused_all_entries[OF this]
  note r = rank_candidates_props[OF m(2)]
  have s: "set cs = snd ` set m" using mset_eq_setD[OF r(1)] by simp
  have "mset (map ca_key cs) = mset (map ca_key (map snd m))" using r(1) by (simp only: mset_map)
  then have "distinct (map ca_key cs)" using f(1) by (metis mset_eq_imp_distinct_iff)
  then show ?thesis using r(2) f(2,3) unfolding s by blast
qed


definition no_channel_rows :: channel_rows where
  "no_channel_rows = \<lparr>cr_profile_keyword = [], cr_profile_semantic = [], cr_operating_keyword = [], cr_operating_recent_work = [],
     cr_operating_current = [], cr_operating_semantic = [], cr_continuity_keyword = [], cr_continuity_semantic = [],
     cr_transcript_keyword = [], cr_corpus_keyword = [], cr_conversation_semantic = [], cr_corpus_semantic = [],
     cr_index_corpus_semantic = [], cr_graph = [], cr_graph_semantic = [], cr_graph_associative = [], cr_temporal_continuity = [],
     cr_temporal_recent = [], cr_temporal_transcript = [], cr_temporal_graph = []\<rparr>"

definition sample_rows :: channel_rows where
  "sample_rows = no_channel_rows\<lparr>cr_profile_keyword := [[(''stable_key'', PStr ''b'')]], cr_profile_semantic := [[(''stable_key'', PStr ''b'')]]\<rparr>"

lemma sample_candidates: "(case merge_retrieval_candidates 0 sample_rows of Inr cs \<Rightarrow> map ca_key cs = [''profile:b''] | Inl e \<Rightarrow> False)"
  by code_simp

theorem fusion_is_reciprocal_rank_witness:
  "\<exists>cs. merge_retrieval_candidates 0 sample_rows = Inr cs \<and> map ca_key cs = [''profile:b''] \<and>
     fused ''profile:b'' (appearances_of ''profile:b'' (appearances (channel_plan sample_rows))) (hd cs)"
proof -
  obtain cs where c: "merge_retrieval_candidates 0 sample_rows = Inr cs" "map ca_key cs = [''profile:b'']"
    using sample_candidates by (auto split: sum.splits)
  then obtain c where "cs = [c]" "ca_key c = ''profile:b''" by auto
  then show ?thesis using fusion_is_reciprocal_rank[OF c(1)] c by auto
qed

end
