(* ===== verification/RetrievalRows.thy ===== *)
theory RetrievalRows
  imports Allocator RetrievalFusion
begin

text \<open>
  The rows of the retrieval routes (\<open>src/brainstack/retrieval_pipeline/runtime.py\<close>, \<open>usefulness.py\<close>): how rows are told apart,
  ordered by time or by score, spread over days and sessions, and prepared for their channel. Keys of sorts are
  tuples that compare as in the language; for a score that is not a number the order is that of an
  insertion sort. The transcript store is an argument, a function of session and limit.
\<close>

section \<open>Sort keys\<close>

datatype key_cell = KInt int | KNum pyfloat | KText string

fun cell_eq :: "key_cell \<Rightarrow> key_cell \<Rightarrow> bool" where
  "cell_eq (KNum a) (KNum b) = float_eq a b"
| "cell_eq a b = (a = b)"

fun cell_less :: "key_cell \<Rightarrow> key_cell \<Rightarrow> bool" where
  "cell_less (KInt a) (KInt b) = (a < b)"
| "cell_less (KNum a) (KNum b) = float_less a b"
| "cell_less (KText a) (KText b) = (a < b)"
| "cell_less _ _ = False"

fun key_less :: "key_cell list \<Rightarrow> key_cell list \<Rightarrow> bool" where
  "key_less (a # as) (b # bs) = (if cell_eq a b then key_less as bs else cell_less a b)"
| "key_less [] bs = (bs \<noteq> [])"
| "key_less (a # as) [] = False"

definition sorted_forward :: "('a \<Rightarrow> 'a \<Rightarrow> bool) \<Rightarrow> 'a list \<Rightarrow> 'a list" where
  "sorted_forward lt xs = fold (insert_after lt) xs []"

text \<open>\<open>sorted(xs, key=f, reverse=True)\<close>: all keys are computed before anything is compared.\<close>

definition sorted_by :: "('a \<Rightarrow> key_cell list result) \<Rightarrow> 'a list \<Rightarrow> 'a list result" where
  "sorted_by f xs = rbind (map_result f xs) (\<lambda>keys. Inr (map snd (sorted_reverse (\<lambda>a b. key_less (fst a) (fst b)) (zip keys xs))))"

text \<open>\<open>xs[:n]\<close>\<close>

definition first_items :: "int \<Rightarrow> 'a list \<Rightarrow> 'a list" where
  "first_items n xs = (if 0 \<le> n then take (nat n) xs else take (length xs - nat (- n)) xs)"

definition flag :: "bool \<Rightarrow> key_cell" where
  "flag b = KInt (if b then 1 else 0)"

definition score :: "pydict \<Rightarrow> string \<Rightarrow> key_cell result" where
  "score row key = rbind (row_float row key) (\<lambda>f. Inr (KNum f))"

definition position :: "nat \<Rightarrow> key_cell" where
  "position i = KNum (Fin (fmul (- dec 5 2) (of_nat i)))"

section \<open>Telemetry of use\<close>

definition TELEMETRY_KEY :: string where
  "TELEMETRY_KEY = ''retrieval_telemetry''"

definition PROTECTED_PROFILE_CATEGORIES :: "string list" where
  "PROTECTED_PROFILE_CATEGORIES = [''identity'', ''preference'', ''shared_work'']"

record telemetry =
  te_served :: int
  te_match :: int
  te_fallback :: int
  te_last :: string

definition served_number :: "pydict \<Rightarrow> string \<Rightarrow> int result" where
  "served_number t key = rbind (row_int t key) (\<lambda>n. Inr (max 0 n))"

definition read_retrieval_telemetry :: "pydict \<Rightarrow> telemetry result" where
  "read_retrieval_telemetry metadata =
     (let t = as_mapping (dget metadata TELEMETRY_KEY)
      in rbind (served_number t ''served_count'') (\<lambda>s. rbind (served_number t ''match_served_count'') (\<lambda>m.
         rbind (served_number t ''fallback_served_count'') (\<lambda>f.
           Inr \<lparr>te_served = s, te_match = m, te_fallback = f, te_last = strip_text (dget t ''last_served_at'')\<rparr>))))"

definition apply_retrieval_telemetry :: "pydict \<Rightarrow> bool \<Rightarrow> bool \<Rightarrow> pyval \<Rightarrow> string \<Rightarrow> pydict result" where
  "apply_retrieval_telemetry metadata matched fallback served_at now =
     rbind (read_retrieval_telemetry metadata) (\<lambda>t. Inr (dset TELEMETRY_KEY (PDict
       [(''served_count'', PInt (te_served t + 1)), (''match_served_count'', PInt (te_match t + (if matched then 1 else 0))),
        (''fallback_served_count'', PInt (te_fallback t + (if fallback then 1 else 0))),
        (''last_served_at'', PStr (py_str (py_or served_at (PStr now))))]) metadata))"

definition is_protected_profile_row :: "pydict \<Rightarrow> bool" where
  "is_protected_profile_row row \<longleftrightarrow>
     py_lower (strip_text (dget row ''category'')) \<in> set PROTECTED_PROFILE_CATEGORIES \<or>
     list_ex (\<lambda>p. py_startswith (py_lower (strip_text (dget row ''stable_key''))) (p @ '':'')) PROTECTED_PROFILE_CATEGORIES"

text \<open>\<open>min(cap, factor * n)\<close> for a count.\<close>

definition capped_count :: "rat \<Rightarrow> rat \<Rightarrow> int \<Rightarrow> rat result" where
  "capped_count cap factor n =
     (if overflows (of_int n) then Inl OverflowError else Inr (finite_part (float_min (Fin cap) (Fin (fmul factor (round64 (of_int n)))))))"

definition profile_priority_adjustment :: "pydict \<Rightarrow> rat result" where
  "profile_priority_adjustment row =
     rbind (read_retrieval_telemetry (row_metadata row)) (\<lambda>t.
     rbind (if te_match t > 0 then capped_count (dec 12 2) (dec 3 2) (te_match t) else Inr 0) (\<lambda>gain.
     rbind (if \<not> is_protected_profile_row row \<and> te_fallback t \<ge> 3 \<and> te_match t = 0
            then capped_count (dec 18 2) (dec 4 2) (te_fallback t - 2) else Inr 0) (\<lambda>loss. Inr (fsub gain loss))))"

definition graph_metadata :: "pydict \<Rightarrow> pydict" where
  "graph_metadata row =
     (let metadata = row_metadata row; conflict = dget row ''conflict_metadata''
      in if text_of (dget row ''row_type'') = ''conflict'' \<and> is_mapping conflict \<and> as_mapping conflict \<noteq> [] then as_mapping conflict else metadata)"

definition graph_priority_adjustment :: "pydict \<Rightarrow> rat result" where
  "graph_priority_adjustment row =
     rbind (read_retrieval_telemetry (graph_metadata row)) (\<lambda>t.
     rbind (capped_count (dec 1 1) (dec 25 3) (te_match t)) (\<lambda>a.
       (let row_type = text_of (dget row ''row_type'')
        in Inr (if row_type = ''conflict'' then fadd a (dec 4 2)
                else if row_type = ''state'' \<and> truthy (dget row ''is_current'') then fadd a (dec 2 2)
                else if row_type = ''inferred_relation'' then fsub a (dec 2 2)
                else a))))"

section \<open>Telling rows apart\<close>

definition round_robin :: "'a list list \<Rightarrow> 'a list" where
  "round_robin groups =
     concat (map (\<lambda>i. concat (map (\<lambda>g. if i < length g then [g ! i] else []) groups)) [0..<fold max (map length groups) 0])"

definition row_unique_key :: "pydict \<Rightarrow> string result" where
  "row_unique_key row =
     (if dhas row ''row_type'' then
        rbind (row_int row ''row_id'') (\<lambda>i. Inr (''graph:'' @ py_str (dget row ''row_type'') @ '':'' @ show_int i))
      else if dhas row ''document_id'' then
        rbind (row_int row ''document_id'') (\<lambda>i. rbind (row_int row ''section_index'') (\<lambda>j. Inr (''corpus:'' @ show_int i @ '':'' @ show_int j)))
      else rbind (row_int row ''id'') (\<lambda>i. Inr (text_of (dget row ''session_id'') @ '':'' @ show_int i)))"

text \<open>The loop over rows that keeps those with a new key; the keys seen so far are an argument.\<close>

fun fresh_rows :: "string set \<Rightarrow> pydict list \<Rightarrow> pydict list result" where
  "fresh_rows seen [] = Inr []"
| "fresh_rows seen (row # rows) =
     rbind (row_unique_key row) (\<lambda>key.
       if key \<in> seen then fresh_rows seen rows
       else rbind (fresh_rows (insert key seen) rows) (\<lambda>out. Inr (row # out)))"

definition dedupe_rows :: "pydict list \<Rightarrow> pydict list result" where
  "dedupe_rows rows = fresh_rows {} rows"

section \<open>Times of rows\<close>

definition row_time_value :: "pydict \<Rightarrow> string" where
  "row_time_value row =
     (let observed = strip_text (dget (as_mapping (dget (row_metadata row) ''temporal'')) ''observed_at'');
          created = strip_text (dget row ''created_at'')
      in if observed \<noteq> [] then observed else if created \<noteq> [] then created else strip_text (dget row ''happened_at''))"

text \<open>A time without its zone: in UTC when it has one.\<close>

definition naive_utc :: "py_datetime \<Rightarrow> int result" where
  "naive_utc t =
     (case dt_offset t of None \<Rightarrow> Inr (dt_local t)
      | Some off \<Rightarrow> (let utc = dt_local t - off in if 0 \<le> utc \<and> utc < MAX_TIME then Inr utc else Inl OverflowError))"

text \<open>Parts of \<open>strptime\<close>: the ways to read a field at the start of a text, in the order of its pattern.\<close>

type_synonym field_reader = "string \<Rightarrow> (int list \<times> string) list"

definition digits_as :: "(string \<Rightarrow> bool) \<Rightarrow> nat \<Rightarrow> field_reader" where
  "digits_as p n s =
     (let d = take n s in if length d = n \<and> list_all is_digit d \<and> p d then [([foldl (\<lambda>v c. 10 * v + digit_val c) 0 d], drop n s)] else [])"

definition read_year :: field_reader where
  "read_year = digits_as (\<lambda>d. True) 4"

definition read_month :: field_reader where
  "read_month s =
     digits_as (\<lambda>d. hd d = CHR ''1'' \<and> d ! 1 \<in> set ''012'') 2 s @ digits_as (\<lambda>d. hd d = CHR ''0'' \<and> d ! 1 \<noteq> CHR ''0'') 2 s @
     digits_as (\<lambda>d. hd d \<noteq> CHR ''0'') 1 s"

definition read_day :: field_reader where
  "read_day s =
     digits_as (\<lambda>d. hd d = CHR ''3'' \<and> d ! 1 \<in> set ''01'') 2 s @ digits_as (\<lambda>d. hd d \<in> set ''12'') 2 s @
     digits_as (\<lambda>d. hd d = CHR ''0'' \<and> d ! 1 \<noteq> CHR ''0'') 2 s @ digits_as (\<lambda>d. hd d \<noteq> CHR ''0'') 1 s @
     (if s \<noteq> [] \<and> hd s = CHR '' '' then digits_as (\<lambda>d. hd d \<noteq> CHR ''0'') 1 (tl s) else [])"

definition read_hour :: field_reader where
  "read_hour s =
     digits_as (\<lambda>d. hd d = CHR ''2'' \<and> d ! 1 \<in> set ''0123'') 2 s @ digits_as (\<lambda>d. hd d \<in> set ''01'') 2 s @ digits_as (\<lambda>d. True) 1 s"

definition read_minute :: field_reader where
  "read_minute s = digits_as (\<lambda>d. hd d \<in> set ''012345'') 2 s @ digits_as (\<lambda>d. True) 1 s"

definition read_char :: "char \<Rightarrow> field_reader" where
  "read_char c s = (if s \<noteq> [] \<and> hd s = c then [([], tl s)] else [])"

definition read_spaces :: field_reader where
  "read_spaces s = map (\<lambda>n. ([], drop n s)) (rev [1..<Suc (length (takeWhile is_space s))])"

definition read_weekday :: field_reader where
  "read_weekday s =
     (if py_lower (take 3 s) \<in> set [''mon'', ''tue'', ''wed'', ''thu'', ''fri'', ''sat'', ''sun''] then [([], drop 3 s)] else [])"

fun read_all :: "field_reader list \<Rightarrow> field_reader" where
  "read_all [] s = [([], s)]"
| "read_all (p # ps) s = concat (map (\<lambda>(xs, r). map (\<lambda>(ys, r'). (xs @ ys, r')) (read_all ps r)) (p s))"

definition read_date :: "field_reader list" where
  "read_date = [read_year, read_char (CHR ''/''), read_month, read_char (CHR ''/''), read_day]"

definition read_time :: "field_reader list" where
  "read_time = [read_spaces, read_hour, read_char (CHR '':''), read_minute]"

definition TIME_FORMATS :: "field_reader list list" where
  "TIME_FORMATS =
     [read_date @ [read_spaces, read_char (CHR ''(''), read_weekday, read_char (CHR '')'')] @ read_time, read_date @ read_time, read_date]"

definition strptime :: "field_reader list \<Rightarrow> string \<Rightarrow> int option" where
  "strptime fmt s =
     (case read_all fmt s of
        (y # m # d # hm, rest) # _ \<Rightarrow>
          if rest = [] \<and> valid_date y m d
          then Some ((date_ordinal y m d - 1) * 86400000000 + (case hm of [h, mi] \<Rightarrow> h * 3600000000 + mi * 60000000 | _ \<Rightarrow> 0)) else None
      | _ \<Rightarrow> None)"

definition parse_time_value :: "string \<Rightarrow> int option result" where
  "parse_time_value raw =
     (let v = py_strip raw;
          iso = concat (map (\<lambda>c. if c = CHR ''Z'' then ''+00:00'' else [c]) v);
          candidate = (if CHR ''T'' \<in> set v then takeWhile (\<lambda>c. c \<noteq> CHR ''T'') v else take 10 v)
      in if v = [] then Inr None
         else case fromisoformat iso of Some t \<Rightarrow> rbind (naive_utc t) (\<lambda>us. Inr (Some us))
         | None \<Rightarrow> (case fromisoformat candidate of Some t \<Rightarrow> rbind (naive_utc t) (\<lambda>us. Inr (Some us))
           | None \<Rightarrow> Inr (case find (\<lambda>f. strptime f v \<noteq> None) TIME_FORMATS of Some f \<Rightarrow> strptime f v | None \<Rightarrow> None)))"

definition row_time_fields :: "pydict \<Rightarrow> (string \<times> int option) result" where
  "row_time_fields row = (let raw = row_time_value row in rbind (parse_time_value raw) (\<lambda>t. Inr (raw, t)))"

definition naive_isoformat :: "int \<Rightarrow> string" where
  "naive_isoformat us = (let s = isoformat_utc us in take (length s - 6) s)"

definition temporal_anchor_key :: "pydict \<Rightarrow> string result" where
  "temporal_anchor_key row = rbind (row_time_fields row) (\<lambda>(raw, t). Inr (case t of Some us \<Rightarrow> naive_isoformat us | None \<Rightarrow> raw))"

section \<open>Order of time\<close>

definition time_key :: "pydict \<Rightarrow> key_cell list result" where
  "time_key row =
     rbind (row_time_fields row) (\<lambda>(raw, t).
     rbind (row_int row ''turn_number'') (\<lambda>turn.
     rbind (py_int (py_or (dget row ''id'') (py_or (dget row ''row_id'') (PInt 0)))) (\<lambda>i.
       Inr [flag (t = None), KInt (case t of Some us \<Rightarrow> us | None \<Rightarrow> MAX_TIME - 1), KText raw, KInt turn, KInt i])))"

text \<open>Rows that agree in all parts of the key are compared as dictionaries, which raises unless they are equal.\<close>

fun incomparable :: "(key_cell list \<times> pydict) list \<Rightarrow> bool" where
  "incomparable [] = False"
| "incomparable (x # xs) = (list_ex (\<lambda>y. fst y = fst x \<and> \<not> py_eq (PDict (snd x)) (PDict (snd y))) xs \<or> incomparable xs)"

definition chronologically_sorted_rows :: "pydict list \<Rightarrow> pydict list result" where
  "chronologically_sorted_rows rows =
     rbind (dedupe_rows rows) (\<lambda>deduped.
     rbind (map_result time_key deduped) (\<lambda>keys.
       (let decorated = zip keys deduped
        in if incomparable decorated then Inl TypeError
           else Inr (map snd (sorted_forward (\<lambda>a b. key_less (fst a) (fst b)) decorated)))))"

definition sort_rows_chronologically :: "int \<Rightarrow> pydict list \<Rightarrow> pydict list result" where
  "sort_rows_chronologically limit rows = rbind (chronologically_sorted_rows rows) (\<lambda>sorted_rows. Inr (first_items limit sorted_rows))"

definition temporal_diversity_key :: "pydict \<Rightarrow> string result" where
  "temporal_diversity_key row =
     rbind (row_time_fields row) (\<lambda>(raw, t).
       (let session_id = strip_text (dget row ''session_id'')
        in Inr (case t of Some us \<Rightarrow> (let bucket = take 10 (naive_isoformat us) in if session_id \<noteq> [] then session_id @ '':'' @ bucket else bucket)
                | None \<Rightarrow> [])))"

text \<open>The last row of each day (and session).\<close>

fun bucket_rows :: "pydict list \<Rightarrow> (string \<times> pydict) list \<Rightarrow> (string \<times> pydict) list result" where
  "bucket_rows [] m = Inr m"
| "bucket_rows (row # rows) m =
     rbind (temporal_diversity_key row) (\<lambda>bucket. bucket_rows rows (if bucket \<noteq> [] then AList.update bucket row m else m))"

definition temporal_diverse_rows :: "int \<Rightarrow> pydict list \<Rightarrow> pydict list result" where
  "temporal_diverse_rows limit rows =
     rbind (chronologically_sorted_rows rows) (\<lambda>ranked.
       if limit \<le> 0 \<or> ranked = [] then Inr []
       else rbind (bucket_rows ranked []) (\<lambda>m.
            rbind (chronologically_sorted_rows (map snd m)) (\<lambda>selected.
            rbind (map_result row_unique_key selected) (\<lambda>keys.
            rbind (fresh_rows (set keys) ranked) (\<lambda>others. Inr (first_items limit (selected @ others)))))))"

text \<open>Rows with new keys are appended until the limit is reached.\<close>

fun fill_rows :: "int \<Rightarrow> string set \<Rightarrow> pydict list \<Rightarrow> pydict list \<Rightarrow> pydict list result" where
  "fill_rows limit seen selected [] = Inr selected"
| "fill_rows limit seen selected (row # rows) =
     rbind (row_unique_key row) (\<lambda>key.
       if key \<in> seen then fill_rows limit seen selected rows
       else if int (length selected) + 1 \<ge> limit then Inr (selected @ [row])
       else fill_rows limit (insert key seen) (selected @ [row]) rows)"

definition select_temporal_priority_rows :: "int \<Rightarrow> pydict list \<Rightarrow> pydict list \<Rightarrow> pydict list result" where
  "select_temporal_priority_rows limit primary_rows fallback_rows =
     rbind (temporal_diverse_rows limit primary_rows) (\<lambda>selected.
       if int (length selected) \<ge> limit then Inr selected
       else rbind (map_result row_unique_key selected) (\<lambda>keys.
            rbind (temporal_diverse_rows (max (limit * 4) limit) fallback_rows) (\<lambda>others. fill_rows limit (set keys) selected others)))"

section \<open>Aggregates\<close>

definition aggregate_row_priority :: "pydict \<Rightarrow> key_cell list result" where
  "aggregate_row_priority row =
     rbind (score row ''semantic_score'') (\<lambda>semantic. rbind (score row ''keyword_score'') (\<lambda>keyword.
     rbind (row_int row ''turn_number'') (\<lambda>turn. rbind (row_int row ''id'') (\<lambda>i.
       Inr [flag (truthy (dget row ''same_session'')), semantic, keyword, KText (row_time_value row), KInt turn, KInt i]))))"

text \<open>The first row of each session, and the rows left over.\<close>

fun split_sessions :: "string set \<Rightarrow> pydict list \<Rightarrow> pydict list \<times> pydict list" where
  "split_sessions seen [] = ([], [])"
| "split_sessions seen (row # rows) =
     (let k = strip_text (dget row ''session_id'')
      in if k \<noteq> [] \<and> k \<notin> seen then (case split_sessions (insert k seen) rows of (p, s) \<Rightarrow> (row # p, s))
         else (case split_sessions seen rows of (p, s) \<Rightarrow> (p, row # s)))"

definition aggregate_diverse_rows :: "int \<Rightarrow> pydict list \<Rightarrow> pydict list result" where
  "aggregate_diverse_rows limit rows =
     rbind (dedupe_rows rows) (\<lambda>deduped. rbind (sorted_by aggregate_row_priority deduped) (\<lambda>ranked.
       (case split_sessions {} ranked of (primary, secondary) \<Rightarrow> Inr (first_items limit (primary @ secondary)))))"

section \<open>Transcripts\<close>

definition fact_transcript_row_priority :: "pydict \<Rightarrow> key_cell list result" where
  "fact_transcript_row_priority row =
     (let content = norm_text (py_or (dget row ''content'') (dget row ''content_excerpt''));
          source = text_of (dget row ''retrieval_source''); mode = text_of (dget row ''match_mode'')
      in rbind (row_float row ''keyword_score'') (\<lambda>keyword. rbind (score row ''semantic_score'') (\<lambda>semantic.
         rbind (row_int row ''turn_number'') (\<lambda>turn. rbind (row_int row ''id'') (\<lambda>i.
           Inr [flag (float_less (Fin 0) keyword), KNum keyword, flag (mode = ''keyword'' \<or> py_contains ''keyword'' source),
                flag (looks_user_led content), flag (truthy (dget row ''same_session'')), semantic, KInt (- int (length content)),
                KText (text_of (dget row ''created_at'')), KInt turn, KInt i])))))"

definition transcript_join_key :: "pydict \<Rightarrow> string result" where
  "transcript_join_key row =
     (let session_id = strip_text (dget row ''session_id'')
      in rbind (row_int row ''turn_number'') (\<lambda>turn.
         if session_id \<noteq> [] \<and> turn > 0 then Inr (session_id @ '':'' @ show_int turn)
         else rbind (py_int (py_or (dget row ''id'') (py_or (dget row ''row_id'') (PInt 0)))) (\<lambda>i.
           Inr (if session_id \<noteq> [] \<and> i > 0 then session_id @ '':id:'' @ show_int i
                else if i > 0 then ''id:'' @ show_int i else []))))"

type_synonym transcript_store = "string \<Rightarrow> int \<Rightarrow> pydict list"

definition supporting :: "pydict \<Rightarrow> pydict" where
  "supporting row =
     dsetdefault ''match_mode'' (PStr ''support'') (dsetdefault ''retrieval_source'' (PStr ''transcript.session_support'')
       (dsetdefault ''keyword_score'' (PFloat 0 ''0.0'') (dsetdefault ''same_session'' (PBool False)
         (dsetdefault ''same_principal'' (PBool True) row))))"

definition turn_key :: "pydict \<Rightarrow> key_cell list result" where
  "turn_key row = rbind (row_int row ''turn_number'') (\<lambda>turn. rbind (row_int row ''id'') (\<lambda>i. Inr [KInt turn, KInt i]))"

text \<open>The supporting rows of one session, at most the limit, and the keys seen so far.\<close>

fun add_support :: "int \<Rightarrow> int \<Rightarrow> string set \<Rightarrow> pydict list \<Rightarrow> (pydict list \<times> string set) result" where
  "add_support limit added seen [] = Inr ([], seen)"
| "add_support limit added seen (row # rows) =
     (let r = supporting row
      in rbind (row_unique_key r) (\<lambda>key.
           if key \<in> seen then add_support limit added seen rows
           else if added + 1 \<ge> limit then Inr ([r], insert key seen)
           else rbind (add_support limit (added + 1) (insert key seen) rows) (\<lambda>(out, seen'). Inr (r # out, seen'))))"

definition session_rows :: "transcript_store \<Rightarrow> int \<Rightarrow> string \<Rightarrow> pydict list result" where
  "session_rows store per_session_limit session_id =
     sorted_by turn_key (filter (\<lambda>row. text_of (dget row ''kind'') \<noteq> ''session_summary'')
       (store session_id (max (per_session_limit * 3) 6)))"

fun support_of :: "transcript_store \<Rightarrow> int \<Rightarrow> string \<Rightarrow> string set \<Rightarrow> string set \<Rightarrow> pydict list \<Rightarrow> pydict list result" where
  "support_of store limit current sessions seen [] = Inr []"
| "support_of store limit current sessions seen (anchor # anchors) =
     (let session_id = strip_text (dget anchor ''session_id'')
      in if text_of (dget anchor ''kind'') \<noteq> ''session_summary'' \<or> \<not> truthy (dget anchor ''same_principal'') \<or>
            session_id = [] \<or> session_id = current \<or> session_id \<in> sessions then support_of store limit current sessions seen anchors
         else rbind (session_rows store limit session_id) (\<lambda>ranked. rbind (add_support limit 0 seen ranked) (\<lambda>(out, seen').
              rbind (support_of store limit current (insert session_id sessions) seen' anchors) (\<lambda>more. Inr (out @ more)))))"

definition same_principal_session_support_rows :: "transcript_store \<Rightarrow> pydict list \<Rightarrow> string \<Rightarrow> int \<Rightarrow> pydict list result" where
  "same_principal_session_support_rows store anchor_rows current_session_id per_session_limit =
     rbind (dedupe_rows anchor_rows) (support_of store per_session_limit current_session_id {} {})"

text \<open>The join keys of the matched rows that are among the best rows, each once.\<close>

fun matched_join_keys :: "string set \<Rightarrow> string set \<Rightarrow> string list \<Rightarrow> string list" where
  "matched_join_keys best seen [] = []"
| "matched_join_keys best seen (k # ks) =
     (if k = [] \<or> k \<notin> best \<or> k \<in> seen then matched_join_keys best seen ks else k # matched_join_keys best (insert k seen) ks)"

fun preferred_support :: "string set \<Rightarrow> pydict list \<Rightarrow> pydict list result" where
  "preferred_support seen [] = Inr []"
| "preferred_support seen (row # rows) =
     rbind (transcript_join_key row) (\<lambda>join_key. rbind (row_unique_key row) (\<lambda>unique_key.
       if unique_key \<in> seen \<or> (join_key \<noteq> [] \<and> join_key \<in> seen) then preferred_support seen rows
       else rbind (preferred_support (insert unique_key (if join_key \<noteq> [] then insert join_key seen else seen)) rows) (\<lambda>out. Inr (row # out))))"

definition transcript_limit_of :: "int \<Rightarrow> pydict list \<Rightarrow> pydict list \<Rightarrow> pydict list \<Rightarrow> int" where
  "transcript_limit_of limit fused_rows keyword semantic =
     (if fused_rows \<noteq> [] then max limit 3 else if keyword \<noteq> [] \<and> semantic \<noteq> [] then max limit 2 else limit)"

definition fact_transcript_rows ::
    "transcript_store \<Rightarrow> string \<Rightarrow> pydict list \<Rightarrow> pydict list \<Rightarrow> pydict list \<Rightarrow> pydict list \<Rightarrow> int \<Rightarrow> pydict list result" where
  "fact_transcript_rows store current_session_id fused_rows keyword semantic matched_rows limit =
     (if limit \<le> 0 then Inr []
      else let n = transcript_limit_of limit fused_rows keyword semantic
      in rbind (dedupe_rows (fused_rows @ round_robin [keyword, semantic])) (\<lambda>rows.
         rbind (same_principal_session_support_rows store matched_rows current_session_id 2) (\<lambda>support.
         rbind (sorted_by fact_transcript_row_priority rows) (\<lambda>ranked.
         rbind (map_result transcript_join_key (first_items (max (n * 2) (n + 1)) ranked)) (\<lambda>top_keys.
         rbind (map_result transcript_join_key matched_rows) (\<lambda>matched.
         rbind (map_result transcript_join_key rows) (\<lambda>keys.
         rbind (map_result transcript_join_key ranked) (\<lambda>ranked_keys.
           (let by_key = filter (\<lambda>(k, r). k \<noteq> []) (zip keys rows);
                chosen = filter (\<lambda>k. map_of by_key k \<noteq> None) (matched_join_keys (set (filter (\<lambda>k. k \<noteq> []) top_keys)) {} matched);
                preferred = map (\<lambda>k. the (map_of by_key k)) chosen;
                remaining = map snd (filter (\<lambda>(k, r). k \<notin> set chosen) (zip ranked_keys ranked))
            in rbind (preferred_support (set chosen) support) (\<lambda>supported.
                 Inr (first_items n (preferred @ supported @ remaining))))))))))))"

section \<open>Rows of the channels\<close>

definition ranked_rows :: "(nat \<Rightarrow> pydict \<Rightarrow> key_cell list result) \<Rightarrow> int \<Rightarrow> pydict list \<Rightarrow> pydict list result" where
  "ranked_rows f limit rows = rbind (sorted_by (\<lambda>(i, row). f i row) (List.enumerate 0 rows)) (\<lambda>ranked. Inr (map snd (first_items limit ranked)))"

definition profile_keyword_rows :: "int \<Rightarrow> pydict list \<Rightarrow> pydict list result" where
  "profile_keyword_rows limit rows = ranked_rows (\<lambda>i row.
     rbind (score row ''keyword_score'') (\<lambda>keyword. rbind (profile_priority_adjustment row) (\<lambda>adjustment.
     rbind (score row ''confidence'') (\<lambda>confidence.
       Inr [flag (truthy (dget row ''_direct_slot_match'')), keyword, KNum (Fin adjustment), confidence,
            KText (text_of (dget row ''updated_at'')), position i])))) limit rows"

definition mark_background :: "pydict \<Rightarrow> pydict" where
  "mark_background row =
     (let r1 = (if is_background_operating_record row
                then dset ''_brainstack_supporting_evidence_only'' (PBool True)
                  (dset ''_brainstack_suppression_reason'' (PStr (background_operating_suppression_reason row)) row) else row)
      in if strip_text (dget r1 ''record_type'') = ''live_system_state''
         then dset ''_brainstack_runtime_state_only'' (PBool True) (dset ''_brainstack_supporting_evidence_only'' (PBool True) r1) else r1)"

definition demote_background :: "pydict \<Rightarrow> pydict" where
  "demote_background row =
     (if is_background_recent_work row
      then dset ''_brainstack_suppression_reason'' (PStr
        ''background_recent_work_summary: unscoped recent-work summary is background evidence when scoped operating truth is available'') row
      else row)"

definition marked_operating_rows :: "pydict list \<Rightarrow> pydict list" where
  "marked_operating_rows rows =
     (let marked = map mark_background rows
      in if list_ex (\<lambda>row. strip_text (dget row ''record_type'') = ''recent_work_summary'' \<and> \<not> is_background_recent_work row) marked
         then map demote_background marked else marked)"

definition operating_channel_rows :: "int \<Rightarrow> pydict list \<Rightarrow> pydict list result" where
  "operating_channel_rows limit rows = rbind (dedupe_rows rows) (\<lambda>deduped. ranked_rows (\<lambda>i row.
     rbind (score row ''keyword_score'') (\<lambda>keyword.
       Inr [KInt (recent_work_authority_rank row), keyword, KText (text_of (dget row ''updated_at'')), position i]))
     limit (marked_operating_rows deduped))"

definition graph_channel_rows :: "int \<Rightarrow> pydict list \<Rightarrow> pydict list result" where
  "graph_channel_rows limit rows = ranked_rows (\<lambda>i row.
     rbind (graph_priority_adjustment row) (\<lambda>adjustment. rbind (score row ''keyword_score'') (\<lambda>keyword.
       Inr [KNum (Fin adjustment), keyword, KText (text_of (dget row ''happened_at'')), position i]))) limit rows"

definition corpus_channel_rows :: "int \<Rightarrow> pydict list \<Rightarrow> pydict list result" where
  "corpus_channel_rows limit rows = rbind (dedupe_rows rows) (\<lambda>deduped. ranked_rows (\<lambda>i row.
     rbind (score row ''semantic_score'') (\<lambda>semantic. rbind (score row ''keyword_score'') (\<lambda>keyword.
       Inr [semantic, keyword, flag (py_contains ''semantic'' (text_of (dget row ''retrieval_source''))),
            flag (truthy (dget row ''same_session'')), position i]))) limit deduped)"

definition temporal_graph_rows :: "int \<Rightarrow> int \<Rightarrow> pydict list \<Rightarrow> pydict list result" where
  "temporal_graph_rows now limit rows = ranked_rows (\<lambda>i row.
     rbind (graph_fact_class row now) (\<lambda>c.
       Inr [flag (c = ''explicit_state_current''), flag (c = ''conflict''), flag (c = ''explicit_state_prior''),
            flag (c = ''explicit_state_expired''), KText (text_of (dget row ''happened_at'')), position i])) limit rows"

section \<open>Searching with several queries\<close>

fun fresh_candidates :: "string \<Rightarrow> string set \<Rightarrow> pydict list \<Rightarrow> pydict list result" where
  "fresh_candidates shelf seen [] = Inr []"
| "fresh_candidates shelf seen (row # rows) =
     rbind (candidate_key shelf row) (\<lambda>key.
       if key \<in> seen then fresh_candidates shelf seen rows
       else rbind (fresh_candidates shelf (insert key seen) rows) (\<lambda>out. Inr (row # out)))"

definition collect_query_rows :: "string \<Rightarrow> string list \<Rightarrow> (string \<Rightarrow> pydict list) \<Rightarrow> pydict list result" where
  "collect_query_rows shelf queries searcher =
     fresh_candidates shelf {}
       (round_robin (map (\<lambda>query. map (dsetdefault ''_brainstack_query_variant'' (PStr query)) (searcher query)) queries))"

definition build_cross_session_search_queries :: "pyval \<Rightarrow> string list" where
  "build_cross_session_search_queries query = (let normalized = norm_text query in if normalized \<noteq> [] then [normalized] else [])"

definition has_meaningful_transcript_signal :: "pydict list \<Rightarrow> bool result" where
  "has_meaningful_transcript_signal rows =
     foldr (\<lambda>row rest.
       rbind (row_float row ''keyword_score'') (\<lambda>keyword.
         if float_less (Fin 0) keyword then Inr True
         else rbind (if strip_text (dget row ''match_mode'') = ''semantic'' then rbind (row_float row ''semantic_score'') (\<lambda>s. Inr (float_less (Fin 0) s))
                     else Inr False) (\<lambda>semantic.
           if semantic \<or> (strip_text (dget row ''match_mode'') = ''support'' \<and>
                strip_text (dget row ''retrieval_source'') = ''transcript.session_support'' \<and> truthy (dget row ''same_principal''))
           then Inr True else rest))) rows (Inr False)"

text \<open>How a channel reports itself, and the receipts of mirrored profiles that it leaves out.\<close>

definition retrieval_channel_status :: "string \<Rightarrow> pydict list \<Rightarrow> string \<Rightarrow> string \<Rightarrow> pydict" where
  "retrieval_channel_status name rows reason status =
     [(''name'', PStr name), (''status'', PStr status), (''reason'', PStr reason), (''candidate_count'', PInt (int (length rows)))]"

definition is_native_profile_mirror_receipt :: "pydict \<Rightarrow> bool" where
  "is_native_profile_mirror_receipt row \<longleftrightarrow> strip_text (dget row ''category'') = ''native_profile_mirror''"

section \<open>Lemmas on rows\<close>

lemma sorted_insert_after_measure:
  fixes m :: "'a \<Rightarrow> 'b :: linorder"
  assumes "\<And>y. y \<in> set ys \<Longrightarrow> lt x y \<longleftrightarrow> m x < m y" "sorted (map m ys)"
  shows "sorted (map m (insert_after lt x ys))"
  using assms by (induction ys) (auto simp: set_insert_after not_less)

lemma sorted_forward_measure:
  fixes m :: "'a \<Rightarrow> 'b :: linorder"
  assumes "\<And>x y. x \<in> set xs \<Longrightarrow> y \<in> set xs \<Longrightarrow> lt x y \<longleftrightarrow> m x < m y"
  shows "sorted (map m (sorted_forward lt xs))"
proof -
  have "sorted (map m (fold (insert_after lt) ys zs))" if "sorted (map m zs)" "set ys \<union> set zs \<subseteq> set xs" for ys zs
    using that
  proof (induction ys arbitrary: zs)
    case (Cons y ys)
    have "sorted (map m (insert_after lt y zs))" using Cons.prems assms by (intro sorted_insert_after_measure) auto
    then show ?case using Cons.prems Cons.IH[of "insert_after lt y zs"] by (simp add: set_insert_after)
  qed simp
  from this[of "[]" xs] show ?thesis by (simp add: sorted_forward_def)
qed

lemma mset_sorted_forward: "mset (sorted_forward lt xs) = mset xs"
  by (simp add: sorted_forward_def mset_fold_insert)

lemma first_items_pos: "0 \<le> n \<Longrightarrow> first_items n xs = take (nat n) xs"
  by (simp add: first_items_def)

lemma map_result_snd: "map_result f xs = Inr ys \<Longrightarrow> map snd (zip ys xs) = xs"
  by (frule map_result_length) simp

lemma sorted_by_mset: "sorted_by f xs = Inr ys \<Longrightarrow> mset ys = mset xs"
proof -
  assume "sorted_by f xs = Inr ys"
  then obtain ks where k: "map_result f xs = Inr ks" "ys = map snd (sorted_reverse (\<lambda>a b. key_less (fst a) (fst b)) (zip ks xs))"
    by (auto simp: sorted_by_def rbind_Inr)
  have "mset ys = mset (map snd (zip ks xs))" unfolding k(2) mset_map mset_sorted_reverse ..
  then show "mset ys = mset xs" by (simp only: map_result_snd[OF k(1)])
qed

text \<open>The rows kept are the first of their key, in order.\<close>

lemma fresh_rows_props:
  assumes "fresh_rows seen rows = Inr out"
  shows "set out \<subseteq> set rows" "distinct (map row_unique_key out)" "\<And>r. r \<in> set out \<Longrightarrow> row_unique_key r \<notin> Inr ` seen"
    "row_unique_key ` set rows \<union> Inr ` seen = row_unique_key ` set out \<union> Inr ` seen"
proof -
  have "set out \<subseteq> set rows \<and> distinct (map row_unique_key out) \<and> (\<forall>r\<in>set out. row_unique_key r \<notin> Inr ` seen) \<and>
      row_unique_key ` set rows \<union> Inr ` seen = row_unique_key ` set out \<union> Inr ` seen"
    using assms
  proof (induction seen rows arbitrary: out rule: fresh_rows.induct)
    case (2 seen row rows)
    then obtain key where key: "row_unique_key row = Inr key" by (auto simp: rbind_Inr)
    show ?case
    proof (cases "key \<in> seen")
      case True
      then have "fresh_rows seen rows = Inr out" using "2.prems" key by simp
      from "2.IH"(1)[OF True this] show ?thesis using True key by auto
    next
      case False
      then obtain out' where o: "fresh_rows (insert key seen) rows = Inr out'" "out = row # out'"
        using "2.prems" key by (auto simp: rbind_Inr)
      from "2.IH"(2)[OF False o(1)] show ?thesis using False key unfolding o(2) by auto
    qed
  qed simp
  then show "set out \<subseteq> set rows" "distinct (map row_unique_key out)" "\<And>r. r \<in> set out \<Longrightarrow> row_unique_key r \<notin> Inr ` seen"
    "row_unique_key ` set rows \<union> Inr ` seen = row_unique_key ` set out \<union> Inr ` seen" by blast+
qed

lemma dedupe_rows_props:
  assumes "dedupe_rows rows = Inr out"
  shows "set out \<subseteq> set rows" "distinct (map row_unique_key out)" "row_unique_key ` set out = row_unique_key ` set rows"
  using fresh_rows_props[OF assms[unfolded dedupe_rows_def]] by auto

lemma fresh_rows_distinct:
  assumes "fresh_rows seen rows = Inr out" "distinct (map row_unique_key rows)" "\<And>r. r \<in> set rows \<Longrightarrow> row_unique_key r \<notin> Inr ` seen"
  shows "out = rows"
  using assms
proof (induction seen rows arbitrary: out rule: fresh_rows.induct)
  case (2 seen row rows)
  obtain key where key: "row_unique_key row = Inr key" using "2.prems"(1) by (auto simp: rbind_Inr)
  have False: "key \<notin> seen" using "2.prems"(3)[of row] key by auto
  obtain out' where o: "fresh_rows (insert key seen) rows = Inr out'" "out = row # out'"
    using "2.prems" key False by (auto simp: rbind_Inr)
  have "row_unique_key r \<notin> Inr ` insert key seen" if "r \<in> set rows" for r
    using "2.prems"(2,3) key that by force
  then show ?case using "2.IH"(2)[OF False o(1)] "2.prems"(2) o(2) by simp
qed simp

lemma dedupe_distinct: "dedupe_rows rows = Inr out \<Longrightarrow> distinct (map row_unique_key rows) \<Longrightarrow> out = rows"
  using fresh_rows_distinct by (auto simp: dedupe_rows_def)

section \<open>Sessions of an aggregate\<close>

definition session_of :: "pydict \<Rightarrow> string" where
  "session_of row = strip_text (dget row ''session_id'')"

lemma split_sessions_props:
  assumes "split_sessions seen rows = (p, s)"
  shows "mset (p @ s) = mset rows" "distinct (map session_of p)" "\<forall>r\<in>set p. session_of r \<noteq> [] \<and> session_of r \<notin> seen"
    "\<forall>r\<in>set rows. session_of r \<noteq> [] \<longrightarrow> session_of r \<in> seen \<union> session_of ` set p"
proof -
  have "mset (p @ s) = mset rows \<and> distinct (map session_of p) \<and> (\<forall>r\<in>set p. session_of r \<noteq> [] \<and> session_of r \<notin> seen) \<and>
    (\<forall>r\<in>set rows. session_of r \<noteq> [] \<longrightarrow> session_of r \<in> seen \<union> session_of ` set p)"
    using assms
  proof (induction seen rows arbitrary: p s rule: split_sessions.induct)
    case (2 seen row rows)
    define k where "k = session_of row"
    show ?case
    proof (cases "k \<noteq> [] \<and> k \<notin> seen")
      case True
      obtain p' s' where r: "split_sessions (insert k seen) rows = (p', s')" by (cases "split_sessions (insert k seen) rows")
      then have e: "p = row # p'" "s = s'" using "2.prems" True by (simp_all add: k_def session_of_def Let_def)
      from "2.IH"(1)[OF refl True[unfolded k_def session_of_def] r[unfolded k_def session_of_def]]
      show ?thesis using True unfolding e by (auto simp: k_def session_of_def)
    next
      case False
      obtain p' s' where r: "split_sessions seen rows = (p', s')" by (cases "split_sessions seen rows")
      then have e: "p = p'" "s = row # s'" using "2.prems" False by (auto simp: k_def session_of_def Let_def)
      from "2.IH"(2)[OF refl False[unfolded k_def session_of_def] r]
      show ?thesis using False unfolding e by (auto simp: k_def session_of_def)
    qed
  qed simp
  then show "mset (p @ s) = mset rows" "distinct (map session_of p)" "\<forall>r\<in>set p. session_of r \<noteq> [] \<and> session_of r \<notin> seen"
    "\<forall>r\<in>set rows. session_of r \<noteq> [] \<longrightarrow> session_of r \<in> seen \<union> session_of ` set p" by blast+
qed

text \<open>
  C21: an aggregate is spread over sessions: it has at most as many rows as its limit allows, all among the given ones and with keys of
  their own, and it gives a session a second row, or takes a row without a session, only when
  every session of the given rows has a row in it.
\<close>

theorem sessions_are_spread:
  assumes "aggregate_diverse_rows limit rows = Inr out" "0 \<le> limit" "dedupe_rows rows = Inr given"
  shows "int (length out) \<le> limit \<and> set out \<subseteq> set given \<and> distinct (map row_unique_key out) \<and>
    (distinct (map session_of out) \<and> [] \<notin> session_of ` set out \<or> session_of ` set given - {[]} \<subseteq> session_of ` set out)"
proof -
  obtain ranked where r: "sorted_by aggregate_row_priority given = Inr ranked"
    using assms(1,3) by (auto simp: aggregate_diverse_rows_def rbind_Inr)
  obtain p s where ps: "split_sessions {} ranked = (p, s)" by (cases "split_sessions {} ranked")
  have out: "out = take (nat limit) (p @ s)"
    using assms r ps by (simp add: aggregate_diverse_rows_def first_items_pos)
  have m: "mset (p @ s) = mset given" using split_sessions_props(1)[OF ps] sorted_by_mset[OF r] by simp
  then have g: "set (p @ s) = set given" by (rule mset_eq_setD)
  have "mset (map row_unique_key (p @ s)) = mset (map row_unique_key given)" using m by (simp only: mset_map)
  then have d: "distinct (map row_unique_key (p @ s))"
    using dedupe_rows_props(2)[OF assms(3)] by (metis mset_eq_imp_distinct_iff)
  have "distinct (map row_unique_key out)" unfolding out take_map[symmetric] by (rule distinct_take[OF d])
  moreover have "set out \<subseteq> set given" unfolding out using g set_take_subset by metis
  moreover have "int (length out) \<le> limit" unfolding out using assms(2) by simp
  moreover have "distinct (map session_of out) \<and> [] \<notin> session_of ` set out \<or> session_of ` set given - {[]} \<subseteq> session_of ` set out"
  proof (cases "nat limit \<le> length p")
    case True
    then have o: "out = take (nat limit) p" unfolding out by simp
    have "distinct (map session_of out)" unfolding o take_map[symmetric] by (rule distinct_take[OF split_sessions_props(2)[OF ps]])
    moreover have "[] \<notin> session_of ` set out"
      using split_sessions_props(3)[OF ps] set_take_subset[of "nat limit" p] unfolding o by fastforce
    ultimately show ?thesis by blast
  next
    case False
    then have o: "set p \<subseteq> set out" unfolding out by simp
    have sr: "set ranked = set given" using sorted_by_mset[OF r] by (rule mset_eq_setD)
    have "session_of r \<in> session_of ` set p" if "r \<in> set given" "session_of r \<noteq> []" for r
      using split_sessions_props(4)[OF ps] that unfolding sr by auto
    then show ?thesis using o by blast
  qed
  ultimately show ?thesis by blast
qed


section \<open>Order of time\<close>

lemma map_result_zip_map:
  assumes "map_result f xs = Inr ys"
  shows "zip ys xs = map (\<lambda>x. (projr (f x), x)) xs" "\<And>x. x \<in> set xs \<Longrightarrow> f x = Inr (projr (f x))"
proof -
  have "zip ys xs = map (\<lambda>x. (projr (f x), x)) xs \<and> (\<forall>x\<in>set xs. f x = Inr (projr (f x)))"
    using assms by (induction xs arbitrary: ys) (auto split: sum.splits)
  then show "zip ys xs = map (\<lambda>x. (projr (f x), x)) xs" "\<And>x. x \<in> set xs \<Longrightarrow> f x = Inr (projr (f x))" by blast+
qed

fun time_rank :: "key_cell list \<Rightarrow> int \<times> int \<times> string \<times> int \<times> int" where
  "time_rank [KInt a, KInt b, KText s, KInt c, KInt d] = (a, b, s, c, d)"
| "time_rank _ = (0, 0, [], 0, 0)"

lemma time_key_shape:
  assumes "time_key row = Inr k"
  obtains a b s c d where "k = [KInt a, KInt b, KText s, KInt c, KInt d]"
  using assms by (auto simp: time_key_def rbind_Inr flag_def split: prod.splits)

lemma key_less_time_rank:
  assumes "time_key x = Inr k" "time_key y = Inr l"
  shows "key_less k l \<longleftrightarrow> time_rank k < time_rank l"
proof -
  obtain a b s c d a' b' s' c' d' where "k = [KInt a, KInt b, KText s, KInt c, KInt d]" "l = [KInt a', KInt b', KText s', KInt c', KInt d']"
    using time_key_shape[OF assms(1)] time_key_shape[OF assms(2)] by metis
  then show ?thesis by auto
qed

lemma incomparable_sorted: "incomparable xs \<longleftrightarrow> \<not> sorted_wrt (\<lambda>x y. \<not> (fst y = fst x \<and> \<not> py_eq (PDict (snd x)) (PDict (snd y)))) xs"
  by (induction xs rule: incomparable.induct) (auto simp: list_ex_iff)

definition tied :: "pydict \<Rightarrow> pydict \<Rightarrow> bool" where
  "tied x y \<longleftrightarrow> time_key x = time_key y \<and> \<not> py_eq (PDict x) (PDict y)"

definition in_time_order :: "pydict \<Rightarrow> pydict \<Rightarrow> bool" where
  "in_time_order x y \<longleftrightarrow> (\<exists>k l. time_key x = Inr k \<and> time_key y = Inr l \<and> \<not> key_less l k)"

text \<open>The rows to order, given that their keys and times can be read.\<close>

lemma ordered_or_tied:
  assumes "dedupe_rows rows = Inr given" "map_result time_key given = Inr keys"
  shows "if sorted_wrt (\<lambda>x y. \<not> tied x y) given
    then \<exists>out. chronologically_sorted_rows rows = Inr out \<and> mset out = mset given \<and> sorted_wrt in_time_order out
    else chronologically_sorted_rows rows = Inl TypeError"
proof -
  let ?d = "\<lambda>x. (projr (time_key x), x)"
  let ?lt = "\<lambda>a b. key_less (fst a) (fst b)"
  note z = map_result_zip_map[OF assms(2)]
  have c: "chronologically_sorted_rows rows =
      (if incomparable (map ?d given) then Inl TypeError else Inr (map snd (sorted_forward ?lt (map ?d given))))"
    by (simp add: chronologically_sorted_rows_def assms z(1) Let_def)
  have e: "incomparable (map ?d given) \<longleftrightarrow> \<not> sorted_wrt (\<lambda>x y. \<not> tied x y) given"
  proof -
    have "(projr (time_key y) = projr (time_key x)) = (time_key x = time_key y)" if "x \<in> set given" "y \<in> set given" for x y
      using z(2)[OF that(1)] z(2)[OF that(2)] by metis
    then have "sorted_wrt (\<lambda>x y. \<not> (projr (time_key y) = projr (time_key x) \<and> \<not> py_eq (PDict x) (PDict y))) given \<longleftrightarrow>
        sorted_wrt (\<lambda>x y. \<not> tied x y) given"
      unfolding tied_def by (intro iffI; elim sorted_wrt_mono_rel[rotated]) auto
    then show ?thesis unfolding incomparable_sorted sorted_wrt_map by simp
  qed
  define S where "S = sorted_forward ?lt (map ?d given)"
  have sS: "set S \<subseteq> ?d ` set given" using mset_eq_setD[OF mset_sorted_forward[of ?lt "map ?d given"]] by (simp add: S_def)
  have "sorted (map (\<lambda>a. time_rank (fst a)) S)"
    unfolding S_def by (rule sorted_forward_measure) (use z(2) key_less_time_rank in fastforce)
  then have "sorted_wrt (\<lambda>a b. time_rank (fst a) \<le> time_rank (fst b)) S" by (simp add: sorted_map)
  then have "sorted_wrt (\<lambda>a b. in_time_order (snd a) (snd b)) S"
  proof (rule sorted_wrt_mono_rel[rotated])
    fix a b assume ab: "a \<in> set S" "b \<in> set S" "time_rank (fst a) \<le> time_rank (fst b)"
    then obtain x y where "a = ?d x" "b = ?d y" "x \<in> set given" "y \<in> set given" using sS by blast
    then show "in_time_order (snd a) (snd b)"
      using z(2) key_less_time_rank ab(3) unfolding in_time_order_def by (metis fst_conv not_less snd_conv)
  qed
  then have o: "sorted_wrt in_time_order (map snd S)" by (simp add: sorted_wrt_map)
  have "mset (map snd S) = mset (map snd (map ?d given))" unfolding S_def mset_map[of snd] mset_sorted_forward ..
  then have m: "mset (map snd S) = mset given" by (simp add: comp_def)
  show ?thesis using c e o m by (auto simp flip: S_def)
qed


text \<open>
  C20: ordering rows by time first keeps one row for every unique key; a row whose key cannot be read raises. A row among the kept
  ones whose time, turn or number cannot be read raises its error. Otherwise the result is a permutation of the kept rows
  in which none is before an earlier one, unless two different kept rows agree in time, turn and number; then, and
  only then, a type error is raised.
\<close>

theorem time_order_or_type_error:
  "case dedupe_rows rows of
     Inl e \<Rightarrow> chronologically_sorted_rows rows = Inl e
   | Inr given \<Rightarrow>
       set given \<subseteq> set rows \<and> distinct (map row_unique_key given) \<and>
       row_unique_key ` set given = row_unique_key ` set rows \<and>
       (case map_result time_key given of
          Inl e \<Rightarrow> chronologically_sorted_rows rows = Inl e
        | Inr keys \<Rightarrow>
            if sorted_wrt (\<lambda>x y. \<not> tied x y) given
            then \<exists>out. chronologically_sorted_rows rows = Inr out \<and> mset out = mset given \<and> sorted_wrt in_time_order out
            else chronologically_sorted_rows rows = Inl TypeError)"
proof (cases "dedupe_rows rows")
  case (Inl e)
  then show ?thesis by (simp add: chronologically_sorted_rows_def)
next
  case (Inr given)
  note props = dedupe_rows_props [OF Inr]
  show ?thesis
  proof (cases "map_result time_key given")
    case (Inl e)
    then show ?thesis using Inr props by (simp add: chronologically_sorted_rows_def)
  next
    case keys: (Inr keys)
    show ?thesis unfolding Inr sum.case keys by (intro conjI props ordered_or_tied [OF Inr keys])
  qed
qed

section \<open>Days of a temporal selection\<close>

lemma chronologically_sorted_mset:
  assumes "chronologically_sorted_rows rows = Inr out"
  obtains given where "dedupe_rows rows = Inr given" "mset out = mset given"
proof -
  obtain given keys where g: "dedupe_rows rows = Inr given" "map_result time_key given = Inr keys"
    "out = map snd (sorted_forward (\<lambda>a b. key_less (fst a) (fst b)) (zip keys given))"
    using assms by (auto simp: chronologically_sorted_rows_def rbind_Inr Let_def split: if_splits)
  have "mset out = mset given" unfolding g(3) mset_map mset_sorted_forward by (simp flip: mset_map add: map_result_snd[OF g(2)])
  then show thesis using g(1) that by blast
qed

lemma chronologically_sorted_keys:
  assumes "chronologically_sorted_rows rows = Inr out"
  shows "distinct (map row_unique_key out)" "set out \<subseteq> set rows"
proof -
  obtain given where g: "dedupe_rows rows = Inr given" "mset out = mset given" by (rule chronologically_sorted_mset[OF assms])
  have "mset (map row_unique_key out) = mset (map row_unique_key given)" using g(2) by simp
  then show "distinct (map row_unique_key out)" using dedupe_rows_props(2)[OF g(1)] by (metis mset_eq_imp_distinct_iff)
  show "set out \<subseteq> set rows" using mset_eq_setD[OF g(2)] dedupe_rows_props(1)[OF g(1)] by simp
qed

definition rows_on_day :: "string \<Rightarrow> pydict list \<Rightarrow> pydict list" where
  "rows_on_day d rows = filter (\<lambda>r. temporal_diversity_key r = Inr d) rows"

text \<open>The last row of each day of rows in the order of time.\<close>

definition day_rows :: "pydict list \<Rightarrow> pydict set" where
  "day_rows rows = (\<lambda>d. last (rows_on_day d rows)) ` {d. d \<noteq> [] \<and> rows_on_day d rows \<noteq> []}"

lemma bucket_rows_props:
  assumes "bucket_rows rows m0 = Inr m"
  shows "map_of m d = (if d \<noteq> [] \<and> rows_on_day d rows \<noteq> [] then Some (last (rows_on_day d rows)) else map_of m0 d)"
    "distinct (map fst m0) \<Longrightarrow> distinct (map fst m)"
proof -
  have "map_of m d = (if d \<noteq> [] \<and> rows_on_day d rows \<noteq> [] then Some (last (rows_on_day d rows)) else map_of m0 d) \<and>
    (distinct (map fst m0) \<longrightarrow> distinct (map fst m))"
    using assms
  proof (induction rows m0 rule: bucket_rows.induct)
    case (2 row rows m0)
    obtain b where b: "temporal_diversity_key row = Inr b" using "2.prems" by (auto simp: rbind_Inr)
    then have "bucket_rows rows (if b \<noteq> [] then AList.update b row m0 else m0) = Inr m" using "2.prems" by simp
    from "2.IH"[OF this] b show ?case
      by (cases "b = []"; cases "d = b"; cases "rows_on_day d rows = []")
        (simp_all add: rows_on_day_def map_of_AList_update distinct_update)
  qed (simp add: rows_on_day_def)
  then show "map_of m d = (if d \<noteq> [] \<and> rows_on_day d rows \<noteq> [] then Some (last (rows_on_day d rows)) else map_of m0 d)"
    "distinct (map fst m0) \<Longrightarrow> distinct (map fst m)" by blast+
qed

lemma bucket_rows_days:
  assumes "bucket_rows ranked [] = Inr m"
  shows "set (map snd m) = day_rows ranked" "day_rows ranked \<subseteq> set ranked"
    "distinct (map row_unique_key ranked) \<Longrightarrow> distinct (map row_unique_key (map snd m))"
proof -
  note d = bucket_rows_props(2)[OF assms, simplified]
  note p = bucket_rows_props(1)[OF assms]
  have i: "(k, r) \<in> set m \<longleftrightarrow> k \<noteq> [] \<and> rows_on_day k ranked \<noteq> [] \<and> r = last (rows_on_day k ranked)" for k r
  proof -
    have "(k, r) \<in> set m \<longleftrightarrow> map_of m k = Some r" using d by simp
    then show ?thesis unfolding p[of k] by (cases "k \<noteq> [] \<and> rows_on_day k ranked \<noteq> []") auto
  qed
  have "r \<in> snd ` set m \<longleftrightarrow> r \<in> day_rows ranked" for r
  proof
    assume "r \<in> snd ` set m"
    then obtain k where "(k, r) \<in> set m" by force
    then show "r \<in> day_rows ranked" unfolding i day_rows_def by blast
  next
    assume "r \<in> day_rows ranked"
    then obtain k where "(k, r) \<in> set m" unfolding i day_rows_def by blast
    then show "r \<in> snd ` set m" by force
  qed
  then show s: "set (map snd m) = day_rows ranked" by auto
  have l: "last (rows_on_day k ranked) \<in> set ranked \<and> temporal_diversity_key (last (rows_on_day k ranked)) = Inr k"
    if "rows_on_day k ranked \<noteq> []" for k
    using last_in_set[OF that] by (simp add: rows_on_day_def)
  then show r: "day_rows ranked \<subseteq> set ranked" unfolding day_rows_def by blast
  assume u: "distinct (map row_unique_key ranked)"
  have "inj_on snd (set m)"
  proof (rule inj_onI)
    fix x y assume "x \<in> set m" "y \<in> set m" "snd x = snd y"
    then show "x = y" using i[of "fst x" "snd x"] i[of "fst y" "snd y"] l by (metis prod.collapse sum.inject(2))
  qed
  moreover have "distinct m" using d by (simp add: distinct_map)
  ultimately have "distinct (map snd m)" by (simp add: distinct_map)
  moreover have "inj_on row_unique_key (set (map snd m))"
    using u r s by (metis distinct_map inj_on_subset)
  ultimately show "distinct (map row_unique_key (map snd m))" by (simp only: distinct_map simp_thms)
qed

text \<open>
  C22: a temporal selection covers the days: it has at most as many rows as its limit allows, all among the ordered rows and with keys of their own,
  and it takes a row that is not the last of its day only when it has the last row of every day.
\<close>

theorem days_are_covered:
  assumes "temporal_diverse_rows limit rows = Inr out" "0 < limit" "chronologically_sorted_rows rows = Inr ranked"
  shows "int (length out) \<le> limit \<and> set out \<subseteq> set ranked \<and> distinct (map row_unique_key out) \<and>
    (set out \<subseteq> day_rows ranked \<or> day_rows ranked \<subseteq> set out)"
proof (cases "ranked = []")
  case True
  then show ?thesis using assms by (simp add: temporal_diverse_rows_def)
next
  case False
  then obtain m selected keys others where s: "bucket_rows ranked [] = Inr m" "chronologically_sorted_rows (map snd m) = Inr selected"
    "map_result row_unique_key selected = Inr keys" "fresh_rows (set keys) ranked = Inr others" "out = take (nat limit) (selected @ others)"
    using assms by (auto simp: temporal_diverse_rows_def rbind_Inr first_items_pos)
  note dk = chronologically_sorted_keys(1)[OF assms(3)]
  note b = bucket_rows_days[OF s(1)]
  obtain given where g: "dedupe_rows (map snd m) = Inr given" "mset selected = mset given" by (rule chronologically_sorted_mset[OF s(2)])
  have "given = map snd m" by (rule dedupe_distinct[OF g(1) b(3)[OF dk]])
  then have sel: "set selected = day_rows ranked" using mset_eq_setD[OF g(2)] b(1) by simp
  note f = fresh_rows_props[OF s(4)]
  have k: "row_unique_key ` set selected = Inr ` set keys"
  proof -
    have "map row_unique_key selected = map Inr keys" using s(3) by (induction selected arbitrary: keys) (auto split: sum.splits)
    then show ?thesis by (metis list.set_map)
  qed
  have dist: "distinct (map row_unique_key (selected @ others))"
  proof -
    have "row_unique_key ` set selected \<inter> row_unique_key ` set others = {}"
    proof (rule equals0I)
      fix x assume "x \<in> row_unique_key ` set selected \<inter> row_unique_key ` set others"
      then have x: "x \<in> Inr ` set keys" "x \<in> row_unique_key ` set others" unfolding k by (simp_all only: Int_iff)
      obtain r where r: "x = row_unique_key r" "r \<in> set others" using x(2) by (rule imageE)
      show False using f(3)[OF r(2)] x(1) r(1) by simp
    qed
    then show ?thesis using chronologically_sorted_keys(1)[OF s(2)] f(2) by simp
  qed
  have all: "set (selected @ others) \<subseteq> set ranked" using sel b(2) f(1) by auto
  have "distinct (map row_unique_key out)" unfolding s(5) take_map[symmetric] by (rule distinct_take[OF dist])
  moreover have "set out \<subseteq> set ranked" unfolding s(5) using all set_take_subset by (metis subset_trans)
  moreover have "int (length out) \<le> limit" unfolding s(5) using assms(2) by simp
  moreover have "set out \<subseteq> day_rows ranked \<or> day_rows ranked \<subseteq> set out"
  proof (cases "nat limit \<le> length selected")
    case True
    then have "out = take (nat limit) selected" unfolding s(5) by simp
    then show ?thesis using sel set_take_subset by metis
  next
    case False
    then have "set selected \<subseteq> set out" unfolding s(5) by simp
    then show ?thesis using sel by simp
  qed
  ultimately show ?thesis by blast
qed


section \<open>Examples\<close>

definition session_row :: "string \<Rightarrow> int \<Rightarrow> string \<Rightarrow> pydict" where
  "session_row session_id i created = [(''session_id'', PStr session_id), (''id'', PInt i), (''created_at'', PStr created)]"

definition sample_sessions :: "pydict list" where
  "sample_sessions = [session_row ''a'' 1 ''2024-01-01'', session_row ''a'' 2 ''2024-01-02'', session_row ''b'' 3 ''2024-01-01'']"

theorem sessions_are_spread_witness:
  "aggregate_diverse_rows 2 sample_sessions = Inr [session_row ''a'' 2 ''2024-01-02'', session_row ''b'' 3 ''2024-01-01''] \<and>
   distinct (map row_unique_key [session_row ''a'' 2 ''2024-01-02'', session_row ''b'' 3 ''2024-01-01''])"
proof -
  have a: "aggregate_diverse_rows 2 sample_sessions = Inr [session_row ''a'' 2 ''2024-01-02'', session_row ''b'' 3 ''2024-01-01'']" by code_simp
  have d: "dedupe_rows sample_sessions = Inr sample_sessions" by code_simp
  show ?thesis using a sessions_are_spread[OF a _ d] by simp
qed

definition tied_rows :: "pydict list" where
  "tied_rows = [session_row ''a'' 1 ''2024/01/02'', session_row ''b'' 1 ''2024/01/02'']"

theorem time_order_or_type_error_witness:
  "chronologically_sorted_rows tied_rows = Inl TypeError"
proof -
  have d: "dedupe_rows tied_rows = Inr tied_rows" by code_simp
  define k where "k = [KInt 0, KInt 63839750400000000, KText ''2024/01/02'', KInt 0, KInt 1]"
  have t: "map_result time_key tied_rows = Inr [k, k]" unfolding k_def by code_simp
  have e: "\<not> py_eq (PDict (session_row ''a'' 1 ''2024/01/02'')) (PDict (session_row ''b'' 1 ''2024/01/02''))" by code_simp
  have "\<not> sorted_wrt (\<lambda>x y. \<not> tied x y) tied_rows"
    using t e by (auto simp: tied_rows_def tied_def split: sum.splits)
  then show ?thesis using time_order_or_type_error[of tied_rows] unfolding d sum.case t by simp
qed

definition sample_days :: "pydict list" where
  "sample_days = [session_row ''a'' 1 ''2024-01-01T10:00'', session_row ''a'' 2 ''2024-01-01T12:00'', session_row ''b'' 3 ''2024-01-02'']"

theorem days_are_covered_witness:
  "temporal_diverse_rows 2 sample_days = Inr [session_row ''a'' 2 ''2024-01-01T12:00'', session_row ''b'' 3 ''2024-01-02''] \<and>
   distinct (map row_unique_key [session_row ''a'' 2 ''2024-01-01T12:00'', session_row ''b'' 3 ''2024-01-02''])"
proof -
  have a: "temporal_diverse_rows 2 sample_days = Inr [session_row ''a'' 2 ''2024-01-01T12:00'', session_row ''b'' 3 ''2024-01-02'']" by code_simp
  have c: "chronologically_sorted_rows sample_days = Inr sample_days" by code_simp
  show ?thesis using a days_are_covered[OF a _ c] by simp
qed

end
