(* ===== verification/ProfileContract.thy ===== *)
theory ProfileContract
  imports OperatingTruth
begin

text \<open>
  The contract of profile rows (\<open>src/brainstack/profile_contract.py\<close>): the normal form of a slot, the slot a row belongs to,
  what counts as style authority, and which rows mirror the profile of the host.
\<close>

definition STYLE_CONTRACT_SLOT :: string where
  "STYLE_CONTRACT_SLOT = ''preference:style_contract''"

definition normalize_compare_text :: "pyval \<Rightarrow> string" where
  "normalize_compare_text v = py_join '' '' (py_split (py_lower (strip_text v)))"

definition is_slot_char :: "char \<Rightarrow> bool" where
  "is_slot_char c \<longleftrightarrow> is_digit c \<or> (let n = of_char c :: nat in 97 \<le> n \<and> n \<le> 122) \<or> c \<in> set '':_-''"

text \<open>Every run of other characters becomes one underscore.\<close>

fun slot_sub :: "bool \<Rightarrow> string \<Rightarrow> string" where
  "slot_sub in_run [] = []"
| "slot_sub in_run (c # s) =
     (if is_slot_char c then c # slot_sub False s else if in_run then slot_sub True s else CHR ''_'' # slot_sub True s)"

definition normalize_profile_slot :: "pyval \<Rightarrow> string" where
  "normalize_profile_slot v =
     py_strip_char (CHR ''_'') (slot_sub False (py_replace_char (CHR '' '') (CHR ''_'') (normalize_compare_text v)))"

definition before_scope :: "string \<Rightarrow> string" where
  "before_scope s = (case py_find ''::principal_scope::'' s of Some n \<Rightarrow> take n s | None \<Rightarrow> s)"

definition slot_candidates :: "pydict \<Rightarrow> pyval list" where
  "slot_candidates row =
     (let payload = row_metadata row; admission = dget payload ''admission''
      in [dget payload ''target_slot'', (if is_mapping admission then dget (as_mapping admission) ''target_slot'' else PStr []),
          dget row ''slot'', dget row ''stable_key'', dget row ''storage_key''])"

definition logical_profile_slot_from_row :: "pydict \<Rightarrow> string" where
  "logical_profile_slot_from_row row =
     (case find (\<lambda>s. s \<noteq> []) (map (\<lambda>v. before_scope (strip_text v)) (slot_candidates row)) of Some s \<Rightarrow> s | None \<Rightarrow> [])"

definition profile_item_display_label :: "pydict \<Rightarrow> string" where
  "profile_item_display_label row =
     (let slot = logical_profile_slot_from_row row; stated = py_strip (py_str (py_or (dget row ''category'') (PStr ''profile'')));
          category = (if stated = [] then ''profile'' else stated)
      in if slot \<noteq> [] then py_replace_first (CHR '':'') (CHR ''.'') slot else py_replace_char (CHR ''_'') (CHR '' '') category)"

definition row_slot :: "pydict \<Rightarrow> string" where
  "row_slot row = normalize_profile_slot (py_or (dget row ''slot'') (py_or (dget row ''stable_key'') (PStr [])))"

definition section_has_line :: "pyval \<Rightarrow> bool" where
  "section_has_line section_value \<longleftrightarrow>
     is_mapping section_value \<and> is_list (dget (as_mapping section_value) ''lines'') \<and>
     list_ex (\<lambda>l. strip_text l \<noteq> []) (as_list (dget (as_mapping section_value) ''lines''))"

definition style_contract_payload_has_rules :: "pyval \<Rightarrow> bool" where
  "style_contract_payload_has_rules style_contract \<longleftrightarrow>
     is_mapping style_contract \<and>
     (let c = as_mapping style_contract; m = dget c ''metadata''; sections = dget (as_mapping m) ''style_contract_sections''
      in row_slot c = ''preference:style_contract'' \<and>
           (is_mapping m \<and> is_list sections \<and> as_list sections \<noteq> [] \<or> strip_text (dget c ''content'') \<noteq> []) \<or>
         strip_text (dget c ''title'') \<noteq> [] \<or>
         is_list (dget c ''sections'') \<and> list_ex section_has_line (as_list (dget c ''sections'')))"

definition has_style_authority_signal :: "pydict list \<Rightarrow> pyval \<Rightarrow> bool" where
  "has_style_authority_signal existing_items style_contract \<longleftrightarrow>
     style_contract_payload_has_rules style_contract \<or> list_ex (\<lambda>item. row_slot item = STYLE_CONTRACT_SLOT) existing_items"

definition native_explicit_profile_payload :: "pydict \<Rightarrow> pydict option" where
  "native_explicit_profile_payload row =
     (let payload = dget (row_metadata row) ''native_explicit_profile''
      in if is_mapping (dget row ''metadata'') \<and> is_mapping payload then Some (as_mapping payload) else None)"

definition is_native_explicit_profile_item :: "pydict \<Rightarrow> bool" where
  "is_native_explicit_profile_item row \<longleftrightarrow>
     (case native_explicit_profile_payload row of None \<Rightarrow> False
      | Some payload \<Rightarrow> strip_text (dget payload ''mirrored_from'') = ''native_profile'')"

definition is_native_explicit_style_item :: "pydict \<Rightarrow> bool" where
  "is_native_explicit_style_item row \<longleftrightarrow> is_native_explicit_profile_item row \<and> row_slot row = STYLE_CONTRACT_SLOT"

end
