(* ===== verification/RetrievalRoutes.thy ===== *)
theory RetrievalRoutes
  imports RetrievalRows ProfileContract
begin

text \<open>
  The routes of retrieval (\<open>src/brainstack/retrieval_pipeline/runtime.py\<close>, \<open>fusion_selection.py\<close>): which route a query takes, what
  each route selects from the rows of the channels, and when a route falls back to the facts. The
  resolver of the host and the transcript store are arguments. The rows of the channels are distinct
  dictionaries; merging and selection write marks into them, which the model writes out.
\<close>

section \<open>Resolving the route\<close>

datatype resolver_answer = RText string | RDict pydict | ROther string | RRaise string "int option"

definition classify_route_resolution_error :: "string \<Rightarrow> int option \<Rightarrow> string" where
  "classify_route_resolution_error message status_code =
     (let t = py_lower (norm_text (PStr message))
      in if status_code = Some 402 \<or> list_ex (\<lambda>w. py_contains w t) [''payment required'', ''credits'', ''can only afford'', ''billing''] then ''economic_drift''
         else if list_ex (\<lambda>w. py_contains w t) [''auth'', ''unauthorized'', ''refresh token'', ''re-authenticate'', ''access token''] then ''auth_drift''
         else ''resolver_failure'')"

definition default_route :: retrieval_route where
  "default_route = \<lparr>rt_requested = ''fact'', rt_applied = ''fact'', rt_source = ''default'', rt_reason = ''fact route default'', rt_fallback_used = False,
     rt_resolution_status = ''not_attempted'', rt_resolution_error = [], rt_resolution_error_class = [], rt_bounds = []\<rparr>"

definition failed_route :: "string \<Rightarrow> string \<Rightarrow> string \<Rightarrow> retrieval_route" where
  "failed_route reason message error_class =
     default_route\<lparr>rt_source := ''route_resolution_failed'', rt_reason := reason, rt_resolution_status := ''failed'',
       rt_resolution_error := message, rt_resolution_error_class := error_class\<rparr>"

definition ROUTE_MODES :: "string list" where
  "ROUTE_MODES = [''fact'', ''temporal'', ''aggregate'', ''style_contract'']"

definition resolved_route :: "string \<Rightarrow> string \<Rightarrow> string \<Rightarrow> retrieval_route" where
  "resolved_route mode reason source =
     (if mode \<notin> set ROUTE_MODES then
        failed_route ''route resolver returned unsupported mode; staying on fact route''
          (''unsupported mode: '' @ (if mode = [] then ''<empty>'' else mode)) ''unsupported_mode''
      else default_route\<lparr>rt_requested := mode, rt_applied := mode, rt_source := source, rt_reason := reason, rt_resolution_status := ''resolved''\<rparr>)"

definition resolve_route :: "pyval \<Rightarrow> (string \<Rightarrow> resolver_answer) option \<Rightarrow> retrieval_route" where
  "resolve_route query resolver =
     (let normalized = norm_text query
      in if normalized = [] then default_route
         else case resolver of None \<Rightarrow> default_route\<lparr>rt_source := ''fact_default'', rt_resolution_status := ''skipped''\<rparr>
         | Some f \<Rightarrow> (case f normalized of
             RRaise message status_code \<Rightarrow>
               failed_route ''route resolver failed; staying on fact route'' message (classify_route_resolution_error message status_code)
           | ROther type_name \<Rightarrow>
               failed_route ''route resolver returned unsupported payload; staying on fact route''
                 (''unsupported payload type: '' @ type_name) ''unsupported_payload''
           | RText s \<Rightarrow> resolved_route (py_lower (norm_text (PStr s))) [] ''injected''
           | RDict d \<Rightarrow> resolved_route (py_lower (norm_text (dget d ''mode''))) (norm_text (dget d ''reason''))
               (let source = norm_text (dget d ''source'') in if source \<noteq> [] then source else ''injected'')))"

definition missing_style_contract_row :: "string \<Rightarrow> pydict" where
  "missing_style_contract_row principal_scope_key =
     (let scope_key = py_strip principal_scope_key
      in [(''id'', PInt 0), (''stable_key'', PStr ''behavior_contract:missing''),
          (''storage_key'', PStr (''behavior_contract::missing::'' @ (if scope_key = [] then ''_global'' else scope_key))),
          (''principal_scope_key'', PStr scope_key), (''category'', PStr ''system''),
          (''content'', PStr (''No committed full behavior contract is stored for this principal scope. '' @
             ''Do not reconstruct a full rule list from derived policy summaries, profile slots, or transcript fragments.'')),
          (''source'', PStr ''brainstack.behavior_contract''), (''confidence'', PFloat 1 ''1.0''),
          (''metadata'', PDict [(''memory_class'', PStr ''behavior_contract_status''), (''status_reason'', PStr ''no_committed_behavior_contract''),
             (''principal_scope_key'', PStr scope_key)]),
          (''updated_at'', PStr []), (''active'', PBool True), (''keyword_score'', PFloat 2 ''2.0''),
          (''retrieval_source'', PStr ''behavior_contract.missing''), (''match_mode'', PStr ''authority''), (''_direct_slot_match'', PBool True)])"

section \<open>What a lookup found\<close>

type_synonym selection = "(string \<times> pydict list) list"

definition rows_of :: "selection \<Rightarrow> string \<Rightarrow> pydict list" where
  "rows_of s name = (case map_of s name of Some rows \<Rightarrow> rows | None \<Rightarrow> [])"

definition selected_fallback_sources :: "selection \<Rightarrow> bool \<Rightarrow> string list" where
  "selected_fallback_sources s include_graph =
     (if rows_of s ''matched'' \<noteq> [] then [''continuity_match''] else []) @ (if rows_of s ''recent'' \<noteq> [] then [''continuity_recent''] else []) @
     (if rows_of s ''transcript_rows'' \<noteq> [] then [''transcript''] else []) @
     (if include_graph \<and> rows_of s ''graph_rows'' \<noteq> [] then [''graph''] else [])"

definition texts :: "string list \<Rightarrow> pyval" where
  "texts ss = PList (map PStr ss)"

definition is_supporting_row :: "pydict \<Rightarrow> bool" where
  "is_supporting_row row \<longleftrightarrow>
     truthy (dget row ''_brainstack_supporting_evidence_only'') \<or> truthy (dget row ''_brainstack_runtime_state_only'')"

definition lookup_record :: "string \<Rightarrow> string \<Rightarrow> nat \<Rightarrow> pydict" where
  "lookup_record domain owner n =
     [(''active'', PBool True), (''domain'', PStr domain), (''structured_owner_status'', PStr owner),
      (''structured_lookup_performed'', PBool True), (''structured_record_count'', PInt (int n))]"

definition operating_semantics :: "pydict \<Rightarrow> pydict list \<Rightarrow> selection \<Rightarrow> pydict result" where
  "operating_semantics operating_lookup operating_rows s =
     (let supporting_rows = filter is_supporting_row operating_rows; authoritative_rows = filter (\<lambda>r. \<not> is_supporting_row r) operating_rows
      in rbind (iter_or_empty (dget operating_lookup ''record_types'')) (\<lambda>values.
           Inr (lookup_record ''operating_truth'' ''brainstack.operating_truth'' (length operating_rows) @
             [(''authoritative_record_count'', PInt (int (length authoritative_rows))),
              (''supporting_record_count'', PInt (int (length supporting_rows))),
              (''record_types'', texts (filter (\<lambda>t. t \<in> set OPERATING_RECORD_TYPES) (map strip_text values))),
              (''fallback_sources'', texts (selected_fallback_sources s True)),
              (''result_status'', PStr (if authoritative_rows \<noteq> [] then ''committed_records''
                 else if supporting_rows \<noteq> [] then ''supporting_records_only'' else ''structured_miss''))])))"

definition build_lookup_semantics :: "pyval \<Rightarrow> pydict list \<Rightarrow> pyval \<Rightarrow> pydict list \<Rightarrow> selection \<Rightarrow> pydict option result" where
  "build_lookup_semantics task_lookup task_rows operating_lookup operating_rows s =
     (let recent_types = filter (\<lambda>t. t \<in> set RECENT_WORK_RECAP_RECORD_TYPES) (map (\<lambda>r. strip_text (dget r ''record_type'')) operating_rows);
          task = as_mapping task_lookup; fallback_sources = selected_fallback_sources s True
      in if is_mapping operating_lookup then rbind (operating_semantics (as_mapping operating_lookup) operating_rows s) (\<lambda>d. Inr (Some d))
         else if recent_types \<noteq> [] then
           Inr (Some (lookup_record ''recent_work_recap'' ''brainstack.operating_truth'' (length recent_types) @
             [(''record_types'', texts recent_types), (''fallback_sources'', texts (selected_fallback_sources s False)),
              (''result_status'', PStr ''committed_records'')]))
         else if \<not> is_mapping task_lookup then Inr None
         else Inr (Some (lookup_record ''task_like'' ''brainstack.task_memory'' (length task_rows) @
             [(''item_type'', PStr (strip_text (dget task ''item_type''))), (''due_date'', PStr (strip_text (dget task ''due_date''))),
              (''date_scope'', PStr (strip_text (dget task ''date_scope''))), (''followup_only'', PBool (truthy (dget task ''followup_only''))),
              (''fallback_sources'', texts fallback_sources),
              (''result_status'', PStr (if task_rows \<noteq> [] then ''committed_records''
                 else if fallback_sources \<noteq> [] then ''structured_miss_with_fallback'' else ''structured_miss''))])))"

section \<open>Support of a route\<close>

definition anchors_of :: "pydict list \<Rightarrow> string list result" where
  "anchors_of rows = rbind (map_result temporal_anchor_key rows) (\<lambda>ks. Inr (remdups (filter (\<lambda>k. k \<noteq> []) ks)))"

definition ANCHOR_SHELVES :: "string list" where
  "ANCHOR_SHELVES = [''matched'', ''recent'', ''transcript_rows'', ''graph_rows'']"

definition rows_on :: "selection \<Rightarrow> string list \<Rightarrow> pydict list" where
  "rows_on s names = concat (map (rows_of s) names)"

definition route_has_support :: "retrieval_route \<Rightarrow> selection \<Rightarrow> bool result" where
  "route_has_support route s =
     (if rt_applied route = ''aggregate'' then
        Inr (list_ex (\<lambda>row. text_of (dget row ''kind'') = ''native_aggregate'') (rows_of s ''matched'') \<or>
             length (rows_on s [''matched'', ''transcript_rows'', ''graph_rows'', ''corpus_rows'']) \<ge> 2)
      else if rt_applied route = ''temporal'' then rbind (anchors_of (rows_on s ANCHOR_SHELVES)) (\<lambda>anchors. Inr (length anchors \<ge> 2))
      else if rt_applied route = ''style_contract'' then
        Inr (list_ex (\<lambda>row. strip_text (dget row ''stable_key'') = STYLE_CONTRACT_SLOT \<or> is_native_explicit_style_item row) (rows_of s ''profile_items''))
      else Inr True)"

definition keep_temporal_transcript_rows_with_anchor_support :: "selection \<Rightarrow> bool result" where
  "keep_temporal_transcript_rows_with_anchor_support s =
     (let rows = rows_of s ''transcript_rows''
      in if rows = [] then Inr False
         else rbind (anchors_of rows) (\<lambda>own. if length own \<ge> 2 then Inr True
         else rbind (anchors_of (rows_on s ANCHOR_SHELVES)) (\<lambda>overall.
           Inr (length overall \<ge> 2 \<and> list_ex (\<lambda>row. strip_text (dget row ''match_mode'') = ''support'' \<and>
             strip_text (dget row ''retrieval_source'') = ''transcript.session_support'' \<and> truthy (dget row ''same_principal'')) rows))))"

section \<open>The selections of the routes\<close>

definition select_temporal_rows :: "int \<Rightarrow> selection_limits \<Rightarrow> channel_rows \<Rightarrow> selection result" where
  "select_temporal_rows now l r =
     rbind (select_temporal_priority_rows (sl_recent l) (cr_temporal_continuity r) (cr_temporal_recent r)) (\<lambda>recent.
     rbind (map_result row_unique_key recent) (\<lambda>recent_keys.
     rbind (map_result row_unique_key (cr_temporal_continuity r)) (\<lambda>keys.
     rbind (dedupe_rows (round_robin [cr_continuity_keyword r, cr_temporal_recent r])) (\<lambda>fallback.
     rbind (select_temporal_priority_rows (sl_matched l)
        (map snd (filter (\<lambda>(k, row). k \<notin> set recent_keys) (zip keys (cr_temporal_continuity r)))) fallback) (\<lambda>matched.
     rbind (sort_rows_chronologically (sl_transcript l) (cr_temporal_transcript r)) (\<lambda>transcript_rows.
     rbind (temporal_graph_rows now (sl_graph l) (cr_temporal_graph r)) (\<lambda>graph_rows.
       Inr [(''profile_items'', []), (''matched'', matched), (''recent'', recent), (''transcript_rows'', transcript_rows),
            (''graph_rows'', graph_rows), (''corpus_rows'', [])])))))))"

definition select_aggregate_rows :: "selection_limits \<Rightarrow> pydict list \<Rightarrow> channel_rows \<Rightarrow> selection result" where
  "select_aggregate_rows l native_rows r =
     rbind (aggregate_diverse_rows (sl_matched l) (cr_continuity_keyword r)) (\<lambda>diverse.
     rbind (if native_rows \<noteq> [] then rbind (dedupe_rows (native_rows @ diverse)) (\<lambda>rows. Inr (first_items (sl_matched l) rows)) else Inr diverse) (\<lambda>matched.
     rbind (aggregate_diverse_rows (sl_transcript l) (round_robin [cr_conversation_semantic r, cr_transcript_keyword r])) (\<lambda>transcript_rows.
     rbind (graph_channel_rows (sl_graph l) (cr_graph r)) (\<lambda>graph_rows.
     rbind (corpus_channel_rows (sl_corpus l) (round_robin [cr_corpus_semantic r, cr_corpus_keyword r])) (\<lambda>corpus_rows.
       Inr [(''profile_items'', []), (''matched'', matched), (''recent'', []), (''transcript_rows'', transcript_rows),
            (''graph_rows'', graph_rows), (''corpus_rows'', corpus_rows)])))))"

text \<open>
  The rows of a channel after merging and selection: the first row of a key is the row of its candidate, with the marks
  of the selection; every other row has only its annotation.
\<close>

fun marked_rows :: "evidence_candidate list \<Rightarrow> string \<Rightarrow> pydict list \<Rightarrow> string set \<Rightarrow> (pydict list \<times> string set) result" where
  "marked_rows cs shelf [] seen = Inr ([], seen)"
| "marked_rows cs shelf (row # rows) seen =
     (let annotated = annotate_workstream_recap_row shelf row
      in rbind (candidate_key shelf annotated) (\<lambda>key. rbind (marked_rows cs shelf rows (insert key seen)) (\<lambda>(out, seen').
           Inr ((case find (\<lambda>c. ca_key c = key) cs of Some c \<Rightarrow> if key \<in> seen then annotated else ca_row c | None \<Rightarrow> annotated) # out, seen'))))"

fun marked_plan :: "evidence_candidate list \<Rightarrow> (string \<times> string \<times> pydict list) list \<Rightarrow> string set \<Rightarrow> pydict list list result" where
  "marked_plan cs [] seen = Inr []"
| "marked_plan cs ((channel_name, shelf, rows) # plan) seen =
     rbind (marked_rows cs shelf rows seen) (\<lambda>(out, seen'). rbind (marked_plan cs plan seen') (\<lambda>outs. Inr (out # outs)))"

definition channel_rows_of :: "pydict list list \<Rightarrow> channel_rows" where
  "channel_rows_of g =
     \<lparr>cr_profile_keyword = g ! 0, cr_profile_semantic = g ! 1, cr_operating_keyword = g ! 2, cr_operating_recent_work = g ! 3,
      cr_operating_current = g ! 4, cr_operating_semantic = g ! 5, cr_continuity_keyword = g ! 6, cr_continuity_semantic = g ! 7,
      cr_transcript_keyword = g ! 8, cr_corpus_keyword = g ! 9, cr_conversation_semantic = g ! 10, cr_corpus_semantic = g ! 11,
      cr_index_corpus_semantic = g ! 12, cr_graph = g ! 13, cr_graph_semantic = g ! 14, cr_graph_associative = g ! 15,
      cr_temporal_continuity = g ! 16, cr_temporal_recent = g ! 17, cr_temporal_transcript = g ! 18, cr_temporal_graph = g ! 19\<rparr>"

definition rows_after_selection :: "evidence_candidate list \<Rightarrow> channel_rows \<Rightarrow> channel_rows result" where
  "rows_after_selection cs r = rbind (marked_plan cs (channel_plan r) {}) (\<lambda>g. Inr (channel_rows_of g))"

definition set_rows :: "string \<Rightarrow> pydict list \<Rightarrow> selection \<Rightarrow> selection" where
  "set_rows name rows s = AList.update name rows s"

definition assignment_requested :: "pyval \<Rightarrow> bool result" where
  "assignment_requested operating_lookup =
     (if is_mapping operating_lookup then
        (case py_iter (dget_default (as_mapping operating_lookup) ''record_types'' (PList [])) of
           None \<Rightarrow> Inl TypeError | Some vs \<Rightarrow> Inr (''active_work'' \<in> set (map strip_text vs)))
      else Inr False)"

text \<open>The selection on the fact route: the selected candidates, with the transcript rows chosen anew.\<close>

definition fact_selection ::
    "transcript_store \<Rightarrow> string \<Rightarrow> selection_limits \<Rightarrow> buckets \<Rightarrow> evidence_candidate list \<Rightarrow> channel_rows \<Rightarrow> selection result" where
  "fact_selection store session_id l b cs r =
     rbind (fact_transcript_rows store session_id (map ca_row (filter (\<lambda>c. ca_shelf c = ''transcript'') cs))
        (cr_transcript_keyword r) (cr_conversation_semantic r) (bk_matched b) (sl_transcript l)) (\<lambda>rows.
       Inr (set_rows ''transcript_rows'' (filter (\<lambda>row. text_of (dget row ''_brainstack_suppression_reason'') = []) rows) (selected_rows b)))"

definition keep_transcripts :: "retrieval_route \<Rightarrow> selection \<Rightarrow> selection result" where
  "keep_transcripts route s =
     (if rows_of s ''transcript_rows'' = [] then Inr s
      else rbind (has_meaningful_transcript_signal (rows_of s ''transcript_rows'')) (\<lambda>meaningful.
        if meaningful then Inr s
        else rbind (if rt_applied route \<noteq> ''temporal'' then Inr False else keep_temporal_transcript_rows_with_anchor_support s) (\<lambda>keep.
          Inr (if keep then s else set_rows ''transcript_rows'' [] s))))"

definition route_selection ::
    "int \<Rightarrow> retrieval_route \<Rightarrow> selection_limits \<Rightarrow> pydict list \<Rightarrow> channel_rows \<Rightarrow> selection \<Rightarrow> selection result" where
  "route_selection now route l native_rows r fact_selected =
     (if rt_applied route = ''temporal'' then select_temporal_rows now l r
      else if rt_applied route = ''aggregate'' then select_aggregate_rows l native_rows r
      else Inr fact_selected)"

text \<open>
  The selection after a fallback. On the routes without a selection of their own the two are one dictionary, which has
  already lost transcript rows that mean nothing.
\<close>

definition fallback_selection :: "retrieval_route \<Rightarrow> selection \<Rightarrow> selection \<Rightarrow> selection" where
  "fallback_selection route selected fact_selected =
     (if rt_applied route \<in> set [''temporal'', ''aggregate''] then fact_selected else selected)"

definition select_route_rows ::
    "int \<Rightarrow> transcript_store \<Rightarrow> string \<Rightarrow> retrieval_route \<Rightarrow> selection_limits \<Rightarrow> int \<Rightarrow> pyval \<Rightarrow> pydict list \<Rightarrow> channel_rows \<Rightarrow>
      evidence_candidate list \<Rightarrow> (selection \<times> retrieval_route) result" where
  "select_route_rows now store session_id route l budget operating_lookup native_rows rows candidates =
     rbind (assignment_requested operating_lookup) (\<lambda>requested.
     rbind (select_rows l budget requested candidates) (\<lambda>(b, cs).
     rbind (rows_after_selection cs rows) (\<lambda>r.
     rbind (fact_selection store session_id l b cs r) (\<lambda>fact_selected.
     rbind (route_selection now route l native_rows r fact_selected) (\<lambda>chosen.
     rbind (keep_transcripts route chosen) (\<lambda>selected.
     rbind (if rt_applied route = ''fact'' then Inr True else route_has_support route selected) (\<lambda>supported.
       Inr (if supported then (selected, route)
            else (fallback_selection route selected fact_selected, route\<lparr>rt_fallback_used := True, rt_applied := ''fact''\<rparr>)))))))))"

definition KEY_SHELVES :: "(string \<times> string) list" where
  "KEY_SHELVES =
     [(''profile'', ''profile_items''), (''operating'', ''operating_rows''), (''continuity_match'', ''matched''), (''continuity_recent'', ''recent''),
      (''transcript'', ''transcript_rows''), (''graph'', ''graph_rows''), (''corpus'', ''corpus_rows'')]"

definition selected_candidate_keys :: "selection \<Rightarrow> string set result" where
  "selected_candidate_keys s =
     rbind (map_result (\<lambda>(shelf, name). map_result (candidate_key shelf) (rows_of s name)) KEY_SHELVES) (\<lambda>keys. Inr (set (concat keys)))"

section \<open>The selection of a route\<close>

lemma rows_of_set_rows: "rows_of (set_rows name rows s) n = (if n = name then rows else rows_of s n)"
  by (simp add: rows_of_def set_rows_def map_of_AList_update)

definition unmarked :: "pydict \<Rightarrow> bool" where
  "unmarked row \<longleftrightarrow> text_of (dget row ''_brainstack_suppression_reason'') = []"

lemma fact_selection_unmarked:
  "fact_selection store session_id l b cs r = Inr s \<Longrightarrow> list_all unmarked (rows_of s ''transcript_rows'')"
  by (auto simp: fact_selection_def rbind_Inr rows_of_set_rows unmarked_def list_all_iff)

lemma keep_transcripts_cases:
  "keep_transcripts route s = Inr s' \<Longrightarrow> s' = s \<or> s' = set_rows ''transcript_rows'' [] s"
  by (auto simp: keep_transcripts_def rbind_Inr split: if_splits)

lemma keep_transcripts_unmarked:
  assumes "keep_transcripts route s = Inr s'" "list_all unmarked (rows_of s ''transcript_rows'')"
  shows "list_all unmarked (rows_of s' ''transcript_rows'')"
  using keep_transcripts_cases[OF assms(1)] assms(2) by (auto simp: rows_of_set_rows)

lemma rbind_InrE:
  assumes "rbind r f = Inr y"
  obtains x where "r = Inr x" "f x = Inr y"
  using assms by (auto simp: rbind_Inr)

text \<open>
  C19: a route other than the fact route is kept only with a selection that supports it; otherwise the fact route takes over, which is
  recorded as a fallback, and on the fact route no transcript row with a suppression reason is selected.
\<close>

theorem route_selection_is_supported:
  assumes "select_route_rows now store session_id route l budget lookup native rows candidates = Inr (s, route')"
  shows "(if rt_applied route' = ''fact'' then list_all unmarked (rows_of s ''transcript_rows'')
      else route' = route \<and> route_has_support route s = Inr True) \<and>
    (route' = route \<or> rt_applied route' = ''fact'' \<and> rt_fallback_used route')"
proof -
  obtain requested p where p: "select_rows l budget requested candidates = Inr p"
    "(case p of (b, cs) \<Rightarrow> rbind (rows_after_selection cs rows) (\<lambda>r.
      rbind (fact_selection store session_id l b cs r) (\<lambda>facts.
      rbind (route_selection now route l native r facts) (\<lambda>chosen.
      rbind (keep_transcripts route chosen) (\<lambda>selected.
      rbind (if rt_applied route = ''fact'' then Inr True else route_has_support route selected) (\<lambda>supported.
        Inr (if supported then (selected, route)
            else (fallback_selection route selected facts, route\<lparr>rt_fallback_used := True, rt_applied := ''fact''\<rparr>)))))))) = Inr (s, route')"
    using assms unfolding select_route_rows_def by (elim rbind_InrE)
  obtain b cs where bc: "p = (b, cs)" by (cases p)
  obtain r facts chosen selected supported where st: "fact_selection store session_id l b cs r = Inr facts"
    "route_selection now route l native r facts = Inr chosen" "keep_transcripts route chosen = Inr selected"
    "(if rt_applied route = ''fact'' then Inr True else route_has_support route selected) = Inr supported"
    "Inr (if supported then (selected, route)
       else (fallback_selection route selected facts, route\<lparr>rt_fallback_used := True, rt_applied := ''fact''\<rparr>)) =
     (Inr (s, route') :: (selection \<times> retrieval_route) result)"
    using p(2) unfolding bc prod.case by (elim rbind_InrE)
  have f: "list_all unmarked (rows_of facts ''transcript_rows'')" by (rule fact_selection_unmarked[OF st(1)])
  have k: "list_all unmarked (rows_of selected ''transcript_rows'')" if "rt_applied route \<notin> set [''temporal'', ''aggregate'']"
  proof (rule keep_transcripts_unmarked[OF st(3)])
    have "chosen = facts" using st(2) that by (simp add: route_selection_def)
    then show "list_all unmarked (rows_of chosen ''transcript_rows'')" using f by simp
  qed
  show ?thesis
  proof (cases supported)
    case True
    then have e: "s = selected" "route' = route" using st(5) by simp_all
    show ?thesis
    proof (cases "rt_applied route = ''fact''")
      case a: True
      then show ?thesis using k by (simp add: e)
    next
      case a: False
      then show ?thesis using st(4) True by (simp add: e)
    qed
  next
    case False
    then have e: "s = fallback_selection route selected facts" "route' = route\<lparr>rt_fallback_used := True, rt_applied := ''fact''\<rparr>"
      using st(5) by simp_all
    have "list_all unmarked (rows_of s ''transcript_rows'')"
      unfolding e(1) fallback_selection_def using f k by (cases "rt_applied route \<in> set [''temporal'', ''aggregate'']") simp_all
    then show ?thesis by (simp add: e(2))
  qed
qed


section \<open>Examples of routes\<close>

definition sample_channels :: channel_rows where
  "sample_channels = no_channel_rows\<lparr>cr_continuity_keyword := [session_row ''a'' 1 ''2024-01-01'', session_row ''b'' 2 ''2024-01-02'']\<rparr>"

definition sample_fused :: "evidence_candidate list" where
  "sample_fused =
     map (\<lambda>(i, row). \<lparr>ca_key = ''continuity:'' @ show_int i, ca_shelf = ''continuity_match'', ca_row = annotate_workstream_recap_row ''continuity_match'' row,
         ca_rrf = 0, ca_ranks = [(''keyword'', nat i)]\<rparr>)
       [(1, session_row ''a'' 1 ''2024-01-01''), (2, session_row ''b'' 2 ''2024-01-02'')]"

definition aggregate_route :: retrieval_route where
  "aggregate_route = default_route\<lparr>rt_requested := ''aggregate'', rt_applied := ''aggregate''\<rparr>"

definition temporal_route :: retrieval_route where
  "temporal_route = default_route\<lparr>rt_requested := ''temporal'', rt_applied := ''temporal''\<rparr>"

lemma sample_routes:
  "(case select_route_rows 0 (\<lambda>s n. []) ''s'' aggregate_route (sample_limits\<lparr>sl_matched := 2\<rparr>) 0 PNone [] sample_channels sample_fused of
      Inr (s, r) \<Rightarrow> r = aggregate_route \<and> length (rows_of s ''matched'') = 2 | Inl e \<Rightarrow> False)"
  "(case select_route_rows 0 (\<lambda>s n. []) ''s'' temporal_route sample_limits 0 PNone [] sample_channels sample_fused of
      Inr (s, r) \<Rightarrow> rt_applied r = ''fact'' \<and> length (rows_of s ''matched'') = 1 | Inl e \<Rightarrow> False)"
  by code_simp+

theorem route_selection_is_supported_witness:
  "\<exists>s. select_route_rows 0 (\<lambda>s n. []) ''s'' aggregate_route (sample_limits\<lparr>sl_matched := 2\<rparr>) 0 PNone [] sample_channels sample_fused = Inr (s, aggregate_route) \<and>
     route_has_support aggregate_route s = Inr True"
proof -
  obtain s where s: "select_route_rows 0 (\<lambda>s n. []) ''s'' aggregate_route (sample_limits\<lparr>sl_matched := 2\<rparr>) 0 PNone [] sample_channels sample_fused =
      Inr (s, aggregate_route)"
    using sample_routes(1) by (auto split: sum.splits prod.splits)
  have "rt_applied aggregate_route \<noteq> ''fact''" by (simp add: aggregate_route_def)
  then show ?thesis using s route_selection_is_supported[OF s] by simp
qed

end
