(* ===== verification/Spec2Isabelle.thy ===== *)
theory Spec2Isabelle
  imports PacketBudget DurableWriteGuard PublishJournal Answerability ProjectionSemantics Tier2Decision
    WorkGraph WorkState Capability TraceReplay ContinuationEngine ControlContract
    RetrievalControl Allocator ProactivePulse GraphTruth DocumentPilot
    RetrievalRoutes
begin

text \<open>
  A verification library for the memory kernel of Brainstack (\<open>src/brainstack\<close>).

  \<^bold>\<open>The program.\<close> Brainstack is the memory plugin of an agent host. What the host says is captured,
  claims are derived from it (partly by language models), admitted or refused by policy, written to
  durable shelves in an SQLite store, published to corpus and graph backends, retrieved as evidence, put
  into a packet for the model under a token budget, and answered from only when the evidence has the
  authority for it. The library models the decision code along that path. What crosses a module
  border there is JSON-like data, so every module works on the same values.

  \<^bold>\<open>Theories and the code they model.\<close> Each theory holds its component's data, operations, lemmas and
  properties, in the order of the code.
  \<^item> \<open>PyValue\<close> (the prelude): the values, the dictionary, text and number operations of the language,
    the collections \<open>py_defs\<close> and \<open>text_eval\<close>, and a locale for keyed stores, interpreted on the dictionary.
  \<^item> \<open>PyHash\<close>: \<open>json.dumps\<close> and SHA-256, written out, because identifiers and fingerprints rest on them.
  \<^item> \<open>EvidenceTrace\<close>: \<open>core/reason_codes.py\<close> and \<open>core/trace.py\<close>, the reason code inventory and the
    construction and validation of evidence traces.
  \<^item> \<open>PacketBudget\<close>: \<open>core/packet_budget.py\<close>, the budgeted selection of packet candidates: merging of
    duplicates, protection of authority-critical evidence, the fill loop, the fail-closed path and
    the trace of the decision.
  \<^item> \<open>AdmissionPolicy\<close>: \<open>core/admission.py\<close> and \<open>admission_policy.py\<close>, the enumerations, the slot registry,
    classification of a candidate's payload, canonical slots, proposals and the decision \<open>admit_claim\<close>.
  \<^item> \<open>TruthPermit\<close> and \<open>DurableWriteGuard\<close>: the permits of \<open>core/admission.py\<close>, the metadata merge of
    \<open>storage/durable_truth_port.py\<close> and the guard of \<open>storage/durable_write_guard.py\<close> in front of every durable write.
  \<^item> \<open>PublishJournal\<close>: \<open>storage/publish_journal_store.py\<close>, the publish journal as a table of rows, publication,
    bootstrap, replay, listing and the transcript scrub. The backends and the clock are arguments; the
    backend's state is a type variable.
  \<^item> \<open>AuthorityPolicy\<close> and \<open>Answerability\<close>: \<open>authority_policy.py\<close>, the truth parity of
    \<open>explicit_truth_parity.py\<close> and \<open>answerability.py\<close>: which evidence row may be answered from, and the contract the
    model gets.
  \<^item> \<open>ProjectionSemantics\<close>: \<open>projection_semantics.py\<close>, supersession and classification of canonical events.
  \<^item> \<open>Tier2Decision\<close>: \<open>tier2_decision_core.py\<close>, the plan made of a batch of proposed memory actions, with
    its validator, conformance check and trace.

  The continuation extension (\<open>src/extensions/hermes_continuation\<close>) decides what an autonomous agent does next and
  checks the evidence about its work; its contracts are side-effect-free readers of the same values.
  \<^item> \<open>Continuation\<close>: the helpers its modules share. \<open>PyFloat\<close>: binary64 arithmetic, parsing and rounding, on exact rationals.
  \<^item> \<open>TraceReplay\<close>: \<open>trace_replay.py\<close>, decision traces, their replay into recovery state, checkpoints.
  \<^item> \<open>WorkGraph\<close>, \<open>WorkState\<close>, \<open>Capability\<close>, \<open>ControlContract\<close>: \<open>work_graph.py\<close>, \<open>work_state.py\<close>, \<open>capability.py\<close> and
    \<open>control_contract.py\<close>, the validators of the work graph, of durable work, of assignments and results, and of the
    shape of control.
  \<^item> \<open>ContinuationEngine\<close>: \<open>engine.py\<close>, the scores, idempotency keys, forecast, the decision chain and the runtime adapter
    contract. Where the engine's decisions meet the replay, the root theory states the property.

  Beside the two pipelines stand parts of retrieval and of the proactive extension.
  \<^item> \<open>RetrievalControl\<close>: \<open>retrieval_control_plan.py\<close> and \<open>retrieval_channel_deadlines.py\<close>, the plan derived from an adaptive
    route and the status of each retrieval channel.
  \<^item> \<open>Allocator\<close>: \<open>working_memory_allocator.py\<close>, the shadow allocation of working memory: the authority floor, then
    candidates in priority order while there is room. Scores that are not a number are sorted the way the
    language's insertion sort leaves them.
  \<^item> \<open>ProactiveStore\<close>: \<open>storage/proactive_store.py\<close>, the events, transitions, deliveries and the attention ledger as four tables,
    with every operation of the module.
  \<^item> \<open>PyTime\<close>: \<open>datetime.fromisoformat\<close>, differences of times and the printing of a minute, on day numbers.
  \<^item> \<open>WorkRun\<close>: \<open>hermes_proactive/workrun.py\<close>, the directory of records of interrupted work and the cards that offer
    it for recovery.
  \<^item> \<open>EvolverSignal\<close>: \<open>evolver_signal.py\<close>, the classification of an outside signal and what of it may be shown.
  \<^item> \<open>ProactivePulse\<close>: \<open>surfacing.py\<close>, \<open>heartbeat_wake.py\<close> and \<open>pulse_producer.py\<close>, the surfacing policy, the wake lane, and a
    pulse from what it looks at to the proactive store, through the operations of \<open>ProactiveStore\<close>.

  The graph shelf holds the values of attributes and the relations between entities.
  \<^item> \<open>PyIso\<close>: \<open>datetime.isoformat\<close>, proved to be read back by \<open>fromisoformat\<close>.
  \<^item> \<open>RecordMeta\<close>: \<open>temporal.py\<close>, \<open>provenance.py\<close>, \<open>graph_lineage.py\<close> and the metadata functions of \<open>storage/store_runtime.py\<close>:
    validity times, relative durations, provenance, redacted lineage, and how records are merged.
  \<^item> \<open>GraphState\<close>: \<open>storage/graph_state_core_store.py\<close>, \<open>graph_state_snapshot_store.py\<close> and \<open>graph_state_relation_store.py\<close>, the
    tables of \<open>db_schema.py\<close> as lists of rows and every write on them.
  \<^item> \<open>GraphTruth\<close>: each graph operation as a few cases over the tables, the invariant of the tables, the
    abstract shelf of truths by entity, attribute and principal, and the properties.

  Documents are processed beside the live shelves.
  \<^item> \<open>PyText\<close>: positions in strings, slices, \<open>find\<close>, \<open>rfind\<close>, \<open>splitlines\<close>, and ordered spans of positions.
  \<^item> \<open>DocumentPipeline\<close>: \<open>document_pipeline.py\<close> and \<open>knowledge_schema.py\<close>, a document cut into sections and chunks, and
    claims tied to the places that state them.
  \<^item> \<open>DocumentRanges\<close> and \<open>DocumentPilot\<close>: the lemmas on spans and on normalised text, and the properties.

  Retrieved rows are fused and selected for the packet.
  \<^item> \<open>Transcript\<close>: \<open>transcript.py\<close>, turns as text with role prefixes, and shortening that keeps addresses.
  \<^item> \<open>OperatingTruth\<close>: \<open>operating_truth.py\<close>, \<open>operating_temporal.py\<close> and \<open>workstream_recap.py\<close>, the identifiers, authority and
    validity of operating records, and the flags of recaps.
  \<^item> \<open>RetrievalFusion\<close>: the fusion and selection of \<open>retrieval_pipeline/runtime.py\<close> and \<open>fusion_selection.py\<close>: candidates by
    key, scores in binary64, ranking, suppression, and the shelves of the packet with their limits.
  \<^item> \<open>RetrievalRows\<close>: the rows of the routes in the same file and \<open>usefulness.py\<close>: keys, order in time and by score, one row per day
    or session, the rows of each channel. \<open>ProfileContract\<close>: \<open>profile_contract.py\<close>, slots and mirrored profiles.
  \<^item> \<open>RetrievalRoutes\<close>: which route a query takes, what each route selects, its support and the fallback. Merging and
    selection write marks into the dictionaries of the channels; the model applies them by key.

  \<^bold>\<open>How state and operations correspond.\<close> A frozen dataclass is a record whose fields carry a prefix, an enumeration
  a datatype with a function to its text, a dictionary an ordered association list (\<open>pydict\<close>), a table
  a list of rows with its next identifier. A function that raises returns a sum whose left side is
  the exception; one that may only end normally is total. A loop that appends to lists is a fold or a
  recursion over the same sequence, and a list argument the code mutates is returned. Time is read
  from a clock argument that counts its readings, and where the code calls a backend the model calls an
  argument of which nothing is assumed unless a theorem says so (\<open>accepts\<close> in \<open>PublishJournal\<close>).
  No definition needs fuel: every loop runs over a finite sequence or has a measure, but for the loop over the
  pieces of a chunk (\<open>split_long\<close>), a \<open>partial_function\<close> that is shown to return for a positive bound and not for 0.

  \<^bold>\<open>What the properties show.\<close>
  \<^item> Packets: the selection stays within the budget, protected evidence is never lost unless the whole pass fails
    closed, exactly when the protected minimum exceeds the budget, candidates are conserved, dropped copies
    lose their answer flags, and the emitted trace is accepted by the trace validator. Two theorems record
    the places where a candidate can be lost.
  \<^item> Writes: an accepted claim comes from a trusted authority allowed by its slot, a tier-2 claim needs a verified
    proof, a derived write passes the guard only with a permit or an admission, support-only writes lose
    their truth flags, and a permit that covers shelf and slot passes, but for a current-assignment write under an authority
    that may not assign: the port refines the guard.
  \<^item> Publication: the journal invariant holds in every reachable store, with arbitrary steps of the other
    modules in between, one publication changes exactly its row, and with a backend that accepts the backlog is
    published.
  \<^item> Proposals: a truth-eligible decision is backed by its own action's verified source, speaker and scope, rejection is
    characterised, and every plan passes the validator and the conformance check.
  \<^item> Answers: only authoritative, unconflicted, undiverged evidence that the packet shows is answered from, the
    contract is consistent, and a superseded event stops being answer-safe.
  \<^item> Continuation: redelivered events change nothing but counts, both in the replay and in the engine, a checkpoint restores
    the state it was taken from, the engine splits, continues or learns exactly past its guards, what it decides is refused by the
    replay only for what the recorder must add, and the validators report
    healthy exactly what a declarative specification calls sound.
  \<^item> Evidence: fusion is reciprocal rank fusion, given as a specification over the places where a key appears; a selection
    respects limits and budget, takes no suppressed candidate and nothing twice. A turn splits back into its
    texts when no line of them holds a role prefix or has a bar at an end, a work summary is found by its stable key, and a validity window survives its normalisation. A route other
    than the fact route needs support for what it selects; an aggregate is spread over sessions and a temporal
    selection over days; ordering by time fails exactly on unreadable rows and on ties of different ones.
  \<^item> Retrieval: channel statuses follow the plan they come from; the allocation keeps the authority floor and fills the rest
    of the budget in order.
  \<^item> Proactive items: any sequence of the store's operations keeps its tables consistent and the log of every event
    replays to its state; closing an item stops its deliveries; two theorems record what the ledger counts and
    what a repeated projection does to a closed item. A pulse is such a sequence, and creates deliveries only
    when the wake lane allows it; one theorem records that scopes share their heartbeat.
  \<^item> Runs and signals: recovery offers dead runs only and fails in one way only, the metadata shown of a signal depends on
    its values only through summaries; two theorems record how runs and checkpoints can be lost.
  \<^item> Graph shelf: every sequence of operations keeps the tables consistent, also when one raises, and one that raises changes no
    truth; after state writes whose metadata name their scope directly or not at all, such a write refines an abstract
    write on truths, so an attribute has one current value per principal; a
    resolution closes its conflict and puts the chosen value in place. The theorems show where principals meet: a write
    without a scope may replace the value of a principal, and a resolution drops the scope. Merged times are a normal
    form, times that were read are written to be read back, and attached lineage hides private fields and source identifiers.
  \<^item> Documents: the pilot is built unless the chunk bound is 0, chunks are bounded slices that lose and repeat no text
    outside headings, evidence quotes its snippet inside its chunk, and conflicts are exactly the disagreements.

  \<^bold>\<open>Interfaces.\<close> \<open>keyed_store\<close> (prelude) is the contract of dictionaries; \<open>budget_loop\<close> (\<open>PacketBudget\<close>) is
  what a step of the fill loop keeps of the budget; \<open>raising_op\<close> (\<open>PublishJournal\<close>) is what
  the five publishing operations promise the loops that run them; \<open>evidence_classifier\<close> (\<open>Answerability\<close>) is what
  the contract builder needs of the policy. Each is interpreted on the model's own definitions.

  \<^bold>\<open>Bounds of the model.\<close> Text operations are those of the language on ASCII text; a float in the data is its exact
  rational with its printed form (NaN and infinities arise only from parsed text, in \<open>PyFloat\<close>); a dictionary has text keys. Attributes of
  arbitrary objects, subclasses of the modelled types, lists and dictionaries tested for membership in a set
  (which raises) and concurrent writers of one store are outside.

  \<^bold>\<open>Not modelled.\<close> The SQL stores other than the journal, the proactive store and the graph state store (and of that its search), the collection
  of retrieved rows (SQL, vector and graph backends), the
  extractors that call language models, the provider glue, rendering, diagnostics, installers and
  tests.
\<close>

section \<open>Continuation: decisions and their replay\<close>

lemma chosen_reason_text: "py_strip (snd (snd (choose_action f))) \<noteq> []"
  unfolding choose_action_def by (simp add: py_strip_word text_eval split: if_split)

text \<open>An event that records a decision of the engine: its key, action and reasons, and no identifier of its own.\<close>

definition records_decision :: "pydict \<Rightarrow> engine_decision \<Rightarrow> bool" where
  "records_decision event d \<longleftrightarrow>
     \<not> truthy (dget event ''trace_id'') \<and> \<not> truthy (dget event ''id'') \<and>
     dget event ''idempotency_key'' = PStr (ed_idempotency_key d) \<and> dget event ''decision'' = PStr (ed_decision d) \<and>
     dget event ''reason_codes'' = str_list (ed_reason_codes d)"

text \<open>
  C35: the engine's decisions feed the replay: an event that records one is identified by the idempotency key of the evidence, and the
  replay refuses it only for what the engine does not supply: a missing postcondition, no reference of any of the four kinds, or
  private data. When it is not refused, the first time it follows a trace it becomes the last decision of the replay.
\<close>

theorem engine_decisions_replay:
  assumes "build_autonomy_continuation_decision evidence = Inr d" and "records_decision event d"
  shows "trace_id_of event = engine_key evidence \<and>
    trace_issues event =
      (if strip_text (dget event ''postcondition'') = [] \<or>
          refs (dget event ''input_event_refs'') = [] \<and> refs (dget event ''work_graph_refs'') = [] \<and>
          refs (dget event ''kanban_task_refs'') = [] \<and> refs (dget event ''artifact_refs'') = []
       then [''TRACE_EVIDENCE_OR_POSTCONDITION_MISSING''] else []) @
      (if private_payload event then [''PRIVATE_PAYLOAD_PRESENT''] else []) \<and>
    (trace_issues event = [] \<and> engine_key evidence \<notin> trace_id_of ` {e \<in> set events. trace_issues e = []} \<longrightarrow>
       dget (replay_decision_trace (events @ [event]) checkpoint) ''last_trace_id'' = PStr (engine_key evidence) \<and>
       dget (replay_decision_trace (events @ [event]) checkpoint) ''last_decision'' = PStr (ed_decision d))"
proof (intro conjI impI)
  obtain s forecast where s: "d = engine_decision_of evidence s forecast" using assms(1) by (rule build_decisionD)
  have key: "ed_idempotency_key d = engine_key evidence" by (simp add: s engine_decision_of_def Let_def case_prod_unfold)
  note r = assms(2) [unfolded records_decision_def key]
  have "snd (snd (choose_action (engine_facts_of evidence s forecast))) \<in> set (ed_reason_codes d)"
    using engine_decision_fields(3) [of evidence s forecast] by (simp add: s)
  then have reasons: "refs (str_list (ed_reason_codes d)) \<noteq> []"
    using chosen_reason_text by (force simp: refs_def str_list_def filter_empty_conv)
  have action: "strip_text (PStr (ed_decision d)) = ed_decision d" "ed_decision d \<in> set REPLAY_DECISIONS"
    using choose_range(1) [of "engine_facts_of evidence s forecast"] unfolding s engine_decision_fields ACTION_SET_def REPLAY_DECISIONS_def
    by (auto simp: text_eval)
  show id: "trace_id_of event = engine_key evidence"
    using r by (simp add: trace_id_of_def py_or_def strip_text_PStr engine_key_text)
  show "trace_issues event =
      (if strip_text (dget event ''postcondition'') = [] \<or>
          refs (dget event ''input_event_refs'') = [] \<and> refs (dget event ''work_graph_refs'') = [] \<and>
          refs (dget event ''kanban_task_refs'') = [] \<and> refs (dget event ''artifact_refs'') = []
       then [''TRACE_EVIDENCE_OR_POSTCONDITION_MISSING''] else []) @
      (if private_payload event then [''PRIVATE_PAYLOAD_PRESENT''] else [])"
    using r reasons action engine_key_text(1) [of evidence] by (simp add: trace_issues_def id)
  assume n: "trace_issues event = [] \<and> engine_key evidence \<notin> trace_id_of ` {e \<in> set events. trace_issues e = []}"
  then have valid: "trace_issues event = []" "strip_text (dget event ''decision'') = ed_decision d" using r action by simp_all
  have "rs_accepted (replay_events (events @ [event])) = rs_accepted (replay_events events) @ [event]"
    using replay_event_cases(3) [OF valid(1)] n replay_fold(2) [of events replay_init]
    by (simp add: replay_events_def id)
  then have "last_event_of (replay_events (events @ [event])) = event" by (simp add: last_event_of_def)
  with id valid show "dget (replay_decision_trace (events @ [event]) checkpoint) ''last_trace_id'' = PStr (engine_key evidence)"
    "dget (replay_decision_trace (events @ [event]) checkpoint) ''last_decision'' = PStr (ed_decision d)"
    by (simp_all add: replay_decision_trace_def replay_report_def Let_def replay_trace_id_def replay_last_decision_def
        valid_nonempty [OF valid(1)] engine_key_text)
qed

theorem engine_decisions_replay_witness:
  "\<exists>event. trace_issues event = [] \<and>
     dget (replay_decision_trace [event] []) ''last_trace_id'' = PStr ''k1'' \<and>
     dget (replay_decision_trace [event] []) ''last_decision'' = PStr ''split''"
proof -
  let ?e = "[(''idempotency_key'', PStr (ed_idempotency_key sample_outcome)), (''decision'', PStr (ed_decision sample_outcome)),
     (''reason_codes'', str_list (ed_reason_codes sample_outcome)), (''postcondition'', PStr ''p''),
     (''input_event_refs'', PList [PStr ''e''])]"
  have r: "records_decision ?e sample_outcome" by (simp add: records_decision_def)
  have "strip_text (dget ?e ''postcondition'') \<noteq> []" "refs (dget ?e ''input_event_refs'') \<noteq> []" "\<not> private_payload ?e"
    by (simp_all add: private_payload_def refs_def py_strip_word text_eval)
  then have "trace_issues ?e = [] \<and>
    dget (replay_decision_trace [?e] []) ''last_trace_id'' = PStr (engine_key sample_evidence) \<and>
    dget (replay_decision_trace [?e] []) ''last_decision'' = PStr (ed_decision sample_outcome)"
    using engine_decisions_replay [OF sample_engine_build r, of "[]" "[]"] by simp
  then show ?thesis by (metis sample_engine_key(1) sample_split)
qed

end
